(* ===== verification/Go_Base.thy ===== *)
theory Go_Base
  imports Main "HOL-Library.Sublist" "HOL-Library.Char_ord" "HOL-Library.List_Lexorder"
begin

text \<open>
  The prelude of the development: the part of Go's standard library that the source leans on,
  and the generic facts about it that every component shares.

  A Go string is a sequence of bytes; it is modelled as the list of these bytes
  (\<^typ>\<open>string\<close>, one \<^typ>\<open>char\<close> per byte), so that \<^const>\<open>length\<close> is Go's
  \<^verbatim>\<open>len\<close>.  Text outside ASCII is written with its UTF-8 bytes (\<open>utf8\<close>).
  \<open>trimSpace\<close> is \<^verbatim>\<open>strings.TrimSpace\<close> over all Unicode space characters;
  \<open>toLower\<close> is \<^verbatim>\<open>strings.ToLower\<close> on ASCII letters (other characters are kept).
\<close>

named_theorems go_str \<open>facts about Go string functions\<close>

type_synonym gostr = string

definition utf8 :: "nat list \<Rightarrow> gostr" where
  "utf8 bs = map char_of bs"

subsection \<open>Errors\<close>

text \<open>
  The error values the modelled code can tell apart.  \<open>Err\<close> is an \<^verbatim>\<open>errors.New\<close>
  (or \<^verbatim>\<open>fmt.Errorf\<close>) value with its text; the others are the sentinels compared
  with \<^verbatim>\<open>errors.Is\<close>: gorm's record-not-found, redis.Nil, the token-store and token
  sentinels; \<open>Driver\<close> is an error of the database or Redis driver, with the driver's text.
\<close>

datatype err =
    Err gostr
  | RecordNotFound
  | Driver gostr
  | RedisNil
  | AuthTokenNotFound
  | InvalidToken
  | ExpiredToken

text \<open>\<^verbatim>\<open>err.Error()\<close>\<close>

fun errText :: "err \<Rightarrow> gostr" where
  "errText (Err s) = s"
| "errText RecordNotFound = ''record not found''"
| "errText (Driver s) = s"
| "errText RedisNil = ''redis: nil''"
| "errText AuthTokenNotFound = ''auth token not found''"
| "errText InvalidToken = ''invalid token''"
| "errText ExpiredToken = ''token expired''"

subsection \<open>Prefixes, containment, cutting\<close>

definition hasPrefix :: "gostr \<Rightarrow> gostr \<Rightarrow> bool" where
  "hasPrefix s p \<longleftrightarrow> prefix p s"

definition trimPrefix :: "gostr \<Rightarrow> gostr \<Rightarrow> gostr" where
  "trimPrefix s p = (if prefix p s then drop (length p) s else s)"

fun contains :: "gostr \<Rightarrow> gostr \<Rightarrow> bool" where
  "contains [] p \<longleftrightarrow> p = []"
| "contains (c # s) p \<longleftrightarrow> prefix p (c # s) \<or> contains s p"

fun splitOn :: "char \<Rightarrow> gostr \<Rightarrow> gostr list" where
  "splitOn c [] = [[]]"
| "splitOn c (x # xs) =
     (if x = c then [] # splitOn c xs
      else (case splitOn c xs of [] \<Rightarrow> [[x]] | y # ys \<Rightarrow> (x # y) # ys))"

fun joinWith :: "gostr \<Rightarrow> gostr list \<Rightarrow> gostr" where
  "joinWith sep [] = []"
| "joinWith sep [x] = x"
| "joinWith sep (x # y # ys) = x @ sep @ joinWith sep (y # ys)"

text \<open>\<^verbatim>\<open>strings.Cut\<close> at a one-byte separator.\<close>

fun cutAt :: "char \<Rightarrow> gostr \<Rightarrow> (gostr \<times> gostr) option" where
  "cutAt c [] = None"
| "cutAt c (x # xs) =
     (if x = c then Some ([], xs)
      else (case cutAt c xs of None \<Rightarrow> None | Some (a, b) \<Rightarrow> Some (x # a, b)))"

lemma splitOn_nonempty [simp]: "splitOn c s \<noteq> []"
  by (induction s) (auto split: list.splits)

lemma splitOn_no_sep: "p \<in> set (splitOn c s) \<Longrightarrow> c \<notin> set p"
proof (induction s arbitrary: p)
  case Nil
  then show ?case by simp
next
  case (Cons x xs)
  then show ?case
    by (cases "splitOn c xs") (auto split: if_splits)
qed

lemma splitOn_single: "c \<notin> set s \<Longrightarrow> splitOn c s = [s]"
  by (induction s) auto

lemma splitOn_append: "c \<notin> set s \<Longrightarrow> splitOn c (s @ c # t) = s # splitOn c t"
  by (induction s) (auto split: list.splits)

lemma splitOn_joinWith:
  "xs \<noteq> [] \<Longrightarrow> \<forall>x \<in> set xs. c \<notin> set x \<Longrightarrow> splitOn c (joinWith [c] xs) = xs"
  by (induction "[c]" xs rule: joinWith.induct) (auto simp: splitOn_single splitOn_append)

lemma contains_iff: "contains s p \<longleftrightarrow> (\<exists>a b. s = a @ p @ b)"
proof (induction s)
  case Nil
  then show ?case by simp
next
  case (Cons c s)
  show ?case
  proof
    assume "contains (c # s) p"
    then consider "prefix p (c # s)" | "contains s p" by auto
    then show "\<exists>a b. c # s = a @ p @ b"
    proof cases
      case 1
      then show ?thesis by (metis append_Nil prefix_def)
    next
      case 2
      then show ?thesis using Cons by (metis append_Cons)
    qed
  next
    assume "\<exists>a b. c # s = a @ p @ b"
    then obtain a b where ab: "c # s = a @ p @ b" by blast
    show "contains (c # s) p"
    proof (cases a)
      case Nil
      then have "prefix p (c # s)" using ab by (auto simp: prefix_def)
      then show ?thesis by simp
    next
      case (Cons d a')
      then have "s = a' @ p @ b" using ab by simp
      then show ?thesis using Cons.IH by auto
    qed
  qed
qed

subsection \<open>TrimSpace\<close>

text \<open>The UTF-8 encodings of the characters with the Unicode White\_Space property.\<close>

definition spaceEncodings :: "gostr list" where
  "spaceEncodings =
     [utf8 [32], utf8 [9], utf8 [10], utf8 [11], utf8 [12], utf8 [13],
      utf8 [194, 133], utf8 [194, 160], utf8 [225, 154, 128],
      utf8 [226, 128, 128], utf8 [226, 128, 129], utf8 [226, 128, 130], utf8 [226, 128, 131],
      utf8 [226, 128, 132], utf8 [226, 128, 133], utf8 [226, 128, 134], utf8 [226, 128, 135],
      utf8 [226, 128, 136], utf8 [226, 128, 137], utf8 [226, 128, 138], utf8 [226, 128, 168],
      utf8 [226, 128, 169], utf8 [226, 128, 175], utf8 [226, 129, 159], utf8 [227, 128, 128]]"

fun stripAny :: "gostr list \<Rightarrow> gostr \<Rightarrow> gostr option" where
  "stripAny [] s = None"
| "stripAny (e # es) s =
     (if e \<noteq> [] \<and> prefix e s then Some (drop (length e) s) else stripAny es s)"

lemma stripAny_shorter: "stripAny es s = Some r \<Longrightarrow> length r < length s"
  by (induction es) (auto split: if_splits simp: prefix_def)

function trimEnc :: "gostr list \<Rightarrow> gostr \<Rightarrow> gostr" where
  "trimEnc es s = (case stripAny es s of None \<Rightarrow> s | Some r \<Rightarrow> trimEnc es r)"
  by pat_completeness auto
termination
  by (relation "measure (\<lambda>(es, s). length s)") (auto dest: stripAny_shorter)

declare trimEnc.simps [simp del]

definition trimSpace :: "gostr \<Rightarrow> gostr" where
  "trimSpace s = rev (trimEnc (map rev spaceEncodings) (rev (trimEnc spaceEncodings s)))"

lemma trimEnc_fixed: "stripAny es s = None \<Longrightarrow> trimEnc es s = s"
  by (subst trimEnc.simps) simp

lemma stripAny_trimEnc [simp]: "stripAny es (trimEnc es s) = None"
proof (induction es s rule: trimEnc.induct)
  case (1 es s)
  then show ?case
    by (cases "stripAny es s") (auto simp: trimEnc.simps [of es s])
qed

lemma stripAny_suffix: "stripAny es s = Some r \<Longrightarrow> suffix r s"
  by (induction es) (auto split: if_splits simp: suffix_drop)

lemma trimEnc_suffix: "suffix (trimEnc es s) s"
proof (induction es s rule: trimEnc.induct)
  case (1 es s)
  show ?case
  proof (cases "stripAny es s")
    case None
    then show ?thesis by (simp add: trimEnc_fixed)
  next
    case (Some r)
    then have "suffix (trimEnc es r) r" and "suffix r s"
      using 1 stripAny_suffix by auto
    then have "suffix (trimEnc es r) s" by (rule suffix_order.trans)
    then show ?thesis using Some by (simp add: trimEnc.simps [of es s])
  qed
qed

lemma stripAny_None_iff:
  "stripAny es s = None \<longleftrightarrow> (\<forall>e \<in> set es. e \<noteq> [] \<longrightarrow> \<not> prefix e s)"
  by (induction es) auto

lemma stripAny_None_prefix: "stripAny es s = None \<Longrightarrow> prefix t s \<Longrightarrow> stripAny es t = None"
  by (auto simp: stripAny_None_iff dest: prefix_order.trans)

lemma trimSpace_idem [simp, go_str]: "trimSpace (trimSpace s) = trimSpace s"
proof -
  let ?l = "trimEnc spaceEncodings s"
  let ?t = "trimEnc (map rev spaceEncodings) (rev ?l)"
  have "suffix ?t (rev ?l)" by (rule trimEnc_suffix)
  then have "prefix (rev ?t) ?l" by (simp add: suffix_to_prefix)
  then have "stripAny spaceEncodings (rev ?t) = None"
    using stripAny_trimEnc by (rule stripAny_None_prefix [rotated])
  then have "trimEnc spaceEncodings (rev ?t) = rev ?t" by (rule trimEnc_fixed)
  moreover have "trimEnc (map rev spaceEncodings) ?t = ?t"
    by (rule trimEnc_fixed) simp
  ultimately show ?thesis by (simp add: trimSpace_def)
qed

lemma trimSpace_Nil [simp, go_str]: "trimSpace [] = []"
  by (simp add: trimSpace_def trimEnc_fixed stripAny_None_iff)

lemma set_trimSpace: "set (trimSpace s) \<subseteq> set s"
proof -
  have sub: "set (trimEnc es t) \<subseteq> set t" for es t
    using trimEnc_suffix [of es t] by (rule set_mono_suffix)
  then show ?thesis
    unfolding trimSpace_def by (metis (no_types, lifting) dual_order.trans set_rev sub)
qed

text \<open>
  A visible ASCII character at either end stops the trimming: the fact that evaluates
  \<^const>\<open>trimSpace\<close> on the identifiers and labels of the witnesses.
\<close>

definition visibleChar :: "char \<Rightarrow> bool" where
  "visibleChar c \<longleftrightarrow> 32 < (of_char c :: nat) \<and> (of_char c :: nat) < 127"

lemma spaceEncodings_visible:
  "e \<in> set spaceEncodings \<Longrightarrow> visibleChar c \<Longrightarrow> e \<noteq> [] \<and> hd e \<noteq> c \<and> last e \<noteq> c"
  by (auto simp: spaceEncodings_def utf8_def visibleChar_def)

lemma trimSpace_visible [go_str]:
  assumes "s \<noteq> []" and "visibleChar (hd s)" and "visibleChar (last s)"
  shows "trimSpace s = s"
proof -
  have "\<not> prefix e s" if "e \<in> set spaceEncodings" for e
    using spaceEncodings_visible [OF that assms(2)] assms(1)
    by (auto simp: prefix_def)
  then have l: "trimEnc spaceEncodings s = s"
    by (intro trimEnc_fixed) (simp add: stripAny_None_iff)
  have "\<not> prefix (rev e) (rev s)" if "e \<in> set spaceEncodings" for e
    using spaceEncodings_visible [OF that assms(3)] assms(1)
    by (auto simp: prefix_def) (metis hd_append2 hd_rev rev_is_Nil_conv)
  then have "trimEnc (map rev spaceEncodings) (rev s) = rev s"
    by (intro trimEnc_fixed) (simp add: stripAny_None_iff)
  then show ?thesis using l by (simp add: trimSpace_def)
qed

subsection \<open>ToLower and ToUpper on ASCII\<close>

definition lowerChar :: "char \<Rightarrow> char" where
  "lowerChar c = (let n = (of_char c :: nat) in if 65 \<le> n \<and> n \<le> 90 then char_of (n + 32) else c)"

definition upperChar :: "char \<Rightarrow> char" where
  "upperChar c = (let n = (of_char c :: nat) in if 97 \<le> n \<and> n \<le> 122 then char_of (n - 32) else c)"

definition toLower :: "gostr \<Rightarrow> gostr" where
  "toLower s = map lowerChar s"

definition toUpper :: "gostr \<Rightarrow> gostr" where
  "toUpper s = map upperChar s"

lemma lowerChar_idem [simp]: "lowerChar (lowerChar c) = lowerChar c"
  by (auto simp: lowerChar_def Let_def)

lemma toLower_idem [simp, go_str]: "toLower (toLower s) = toLower s"
  by (simp add: toLower_def)

lemma length_toLower [simp]: "length (toLower s) = length s"
  by (simp add: toLower_def)

subsection \<open>The trim-and-deduplicate loop\<close>

text \<open>
  The same loop occurs in \<^verbatim>\<open>authctx.normalizeRoleIDs\<close>,
  \<^verbatim>\<open>normalizeGeneratedFunctionActionKeys\<close>, \<^verbatim>\<open>normalizeActionKeys\<close> and
  \<^verbatim>\<open>GrantRoleMenus\<close>: trim each item, drop empty ones and repetitions, keep the first
  occurrence.  The accumulator is both the output slice and the \<^verbatim>\<open>seen\<close> map.
\<close>

fun dedupTrim :: "gostr list \<Rightarrow> gostr list \<Rightarrow> gostr list" where
  "dedupTrim out [] = out"
| "dedupTrim out (x # xs) =
     (let k = trimSpace x in
      if k = [] then dedupTrim out xs
      else if k \<in> set out then dedupTrim out xs
      else dedupTrim (out @ [k]) xs)"

lemma set_dedupTrim: "set (dedupTrim out xs) = set out \<union> (trimSpace ` set xs - {[]})"
  by (induction out xs rule: dedupTrim.induct) (auto simp: Let_def)

lemma distinct_dedupTrim: "distinct out \<Longrightarrow> distinct (dedupTrim out xs)"
  by (induction out xs rule: dedupTrim.induct) (auto simp: Let_def)

lemma dedupTrim_normal:
  "distinct (out @ xs) \<Longrightarrow> \<forall>x \<in> set xs. x \<noteq> [] \<and> trimSpace x = x \<Longrightarrow> dedupTrim out xs = out @ xs"
  by (induction out xs rule: dedupTrim.induct) auto

lemma dedupTrim_idem [simp]: "dedupTrim [] (dedupTrim [] xs) = dedupTrim [] xs"
proof -
  have "distinct (dedupTrim [] xs)" by (simp add: distinct_dedupTrim)
  moreover have "\<forall>x \<in> set (dedupTrim [] xs). x \<noteq> [] \<and> trimSpace x = x"
    by (auto simp: set_dedupTrim)
  ultimately show ?thesis using dedupTrim_normal [of "[]"] by simp
qed

subsection \<open>Numbers\<close>

text \<open>Conversion of an int to int32 keeps the low 32 bits, read in two's complement.\<close>

definition toInt32 :: "int \<Rightarrow> int" where
  "toInt32 i = (i + 2 ^ 31) mod 2 ^ 32 - 2 ^ 31"

lemma toInt32_id: "- (2 ^ 31) \<le> i \<Longrightarrow> i < 2 ^ 31 \<Longrightarrow> toInt32 i = i"
  by (simp add: toInt32_def)

end
