(* ===== verification/Service_World.thy ===== *)
theory Service_World
  imports Go_Base
begin

text \<open>
  The execution model of the backend services and the calculus the component proofs use.

  A service operation is an action over a \<open>world\<close>: it returns an error or a value and the
  next world, as a Go function returns \<^verbatim>\<open>(T, error)\<close> after changing the database.
  What the program does not control is a function of the number of effects executed so far
  (\<open>tick\<close>): the clock reading (in Unix nanoseconds), the identifier drawn by \<^verbatim>\<open>uuid.NewString\<close>, and
  whether a database statement fails with a driver error.  Nothing is assumed about these
  functions, so a theorem without a hypothesis on them holds for every clock, every choice of
  identifiers and every pattern of database failures.

  \<open>transactionA\<close> is \<^verbatim>\<open>db.Transaction\<close> of gorm: it begins (which may fail), runs the
  body, rolls the tables back when the body returns an error, and commits otherwise (which may
  fail and then leaves the tables unchanged).  A nested call is a savepoint with the same
  rollback.
\<close>

named_theorems act_run \<open>what an action returns, one step at a time\<close>
named_theorems act_frame \<open>actions that leave the tables alone\<close>
named_theorems act_keeps \<open>invariance rules of the action constructors\<close>
named_theorems act_triple \<open>Hoare rules of the action constructors\<close>

record 'd world =
  db :: 'd
  tick :: nat
  clockAt :: "nat \<Rightarrow> int"
  uuidAt :: "nat \<Rightarrow> gostr"
  faultAt :: "nat \<Rightarrow> gostr option"

type_synonym ('d, 'a) act = "'d world \<Rightarrow> (err + 'a) \<times> 'd world"

abbreviation nextTick :: "'d world \<Rightarrow> 'd world" where
  "nextTick w \<equiv> w\<lparr>tick := Suc (tick w)\<rparr>"

definition retA :: "'a \<Rightarrow> ('d, 'a) act" where
  "retA x w = (Inr x, w)"

definition failA :: "err \<Rightarrow> ('d, 'a) act" where
  "failA e w = (Inl e, w)"

definition bindA :: "('d, 'a) act \<Rightarrow> ('a \<Rightarrow> ('d, 'b) act) \<Rightarrow> ('d, 'b) act" where
  "bindA m k w = (case m w of (Inl e, w') \<Rightarrow> (Inl e, w') | (Inr x, w') \<Rightarrow> k x w')"

text \<open>\<open>handleA m h\<close>: on an error of \<open>m\<close>, continue with \<open>h\<close> of that error.\<close>

definition handleA :: "('d, 'a) act \<Rightarrow> (err \<Rightarrow> ('d, 'a) act) \<Rightarrow> ('d, 'a) act" where
  "handleA m h w = (case m w of (Inl e, w') \<Rightarrow> h e w' | (Inr x, w') \<Rightarrow> (Inr x, w'))"

text \<open>\<open>tryA m\<close>: the Go pattern \<^verbatim>\<open>v, err := m()\<close> with the error inspected by the caller.\<close>

definition tryA :: "('d, 'a) act \<Rightarrow> ('d, err + 'a) act" where
  "tryA m w = (case m w of (r, w') \<Rightarrow> (Inr r, w'))"

definition wrapErrA :: "(err \<Rightarrow> err) \<Rightarrow> ('d, 'a) act \<Rightarrow> ('d, 'a) act" where
  "wrapErrA f m = handleA m (\<lambda>e. failA (f e))"

definition liftA :: "err + 'a \<Rightarrow> ('d, 'a) act" where
  "liftA r w = (r, w)"

text \<open>One database statement: it may fail in the driver, or return an error of its own.\<close>

definition stmtA :: "('d \<Rightarrow> err + ('a \<times> 'd)) \<Rightarrow> ('d, 'a) act" where
  "stmtA f w =
     (case faultAt w (tick w) of
        Some t \<Rightarrow> (Inl (Driver t), nextTick w)
      | None \<Rightarrow>
          (case f (db w) of
             Inl e \<Rightarrow> (Inl e, nextTick w)
           | Inr (x, d) \<Rightarrow> (Inr x, (nextTick w)\<lparr>db := d\<rparr>)))"

definition queryA :: "('d \<Rightarrow> err + 'a) \<Rightarrow> ('d, 'a) act" where
  "queryA f = stmtA (\<lambda>d. case f d of Inl e \<Rightarrow> Inl e | Inr x \<Rightarrow> Inr (x, d))"

text \<open>\<^verbatim>\<open>time.Now()\<close>, and \<^verbatim>\<open>nowUnixMicro()\<close> with microseconds.\<close>

definition timeNowA :: "('d, int) act" where
  "timeNowA w = (Inr (clockAt w (tick w)), nextTick w)"

definition unixMicro :: "int \<Rightarrow> int" where
  "unixMicro t = t div 1000"

definition nowA :: "('d, int) act" where
  "nowA w = (Inr (unixMicro (clockAt w (tick w))), nextTick w)"

text \<open>One draw from a source outside the program, such as the random number generator.\<close>

definition drawA :: "(nat \<Rightarrow> 'a) \<Rightarrow> ('d, 'a) act" where
  "drawA f w = (Inr (f (tick w)), nextTick w)"

text \<open>A critical section on a data structure in memory: it cannot fail.\<close>

definition updA :: "('d \<Rightarrow> 'a \<times> 'd) \<Rightarrow> ('d, 'a) act" where
  "updA f w = (case f (db w) of (x, d) \<Rightarrow> (Inr x, w\<lparr>db := d\<rparr>))"

definition newUUID :: "('d, gostr) act" where
  "newUUID w = (Inr (uuidAt w (tick w)), nextTick w)"

definition transactionA :: "('d, 'a) act \<Rightarrow> ('d, 'a) act" where
  "transactionA body w =
     (case faultAt w (tick w) of
        Some t \<Rightarrow> (Inl (Driver t), nextTick w)
      | None \<Rightarrow>
          (case body (nextTick w) of
             (Inl e, w1) \<Rightarrow> (Inl e, w1\<lparr>db := db w\<rparr>)
           | (Inr x, w1) \<Rightarrow>
               (case faultAt w1 (tick w1) of
                  Some t \<Rightarrow> (Inl (Driver t), (nextTick w1)\<lparr>db := db w\<rparr>)
                | None \<Rightarrow> (Inr x, nextTick w1))))"

text \<open>\<^verbatim>\<open>for _, x := range xs { if err := f(x); err != nil { return err } }\<close>\<close>

fun forA :: "'x list \<Rightarrow> ('x \<Rightarrow> ('d, unit) act) \<Rightarrow> ('d, unit) act" where
  "forA [] f = retA ()"
| "forA (x # xs) f = bindA (f x) (\<lambda>_. forA xs f)"

text \<open>The loop that collects one value per item.\<close>

fun mapA :: "('x \<Rightarrow> ('d, 'y) act) \<Rightarrow> 'x list \<Rightarrow> ('d, 'y list) act" where
  "mapA f [] = retA []"
| "mapA f (x # xs) = bindA (f x) (\<lambda>y. bindA (mapA f xs) (\<lambda>ys. retA (y # ys)))"

subsection \<open>Running\<close>

lemma bindA_ret [act_run, simp]: "bindA (retA x) k = k x"
  by (simp add: fun_eq_iff bindA_def retA_def)

lemma bindA_fail [act_run, simp]: "bindA (failA e) k = failA e"
  by (simp add: fun_eq_iff bindA_def failA_def)

lemma bindA_assoc: "bindA (bindA m k) h = bindA m (\<lambda>x. bindA (k x) h)"
  by (simp add: fun_eq_iff bindA_def split: prod.splits sum.splits)

lemma bindA_Inr_iff:
  "bindA m k w = (Inr y, w') \<longleftrightarrow> (\<exists>x w1. m w = (Inr x, w1) \<and> k x w1 = (Inr y, w'))"
  by (auto simp: bindA_def split: prod.splits sum.splits)

lemma bindA_Inl_iff:
  "bindA m k w = (Inl e, w') \<longleftrightarrow>
     m w = (Inl e, w') \<or> (\<exists>x w1. m w = (Inr x, w1) \<and> k x w1 = (Inl e, w'))"
  by (auto simp: bindA_def split: prod.splits sum.splits)

text \<open>A quiet world: no statement fails in the driver.\<close>

definition quiet :: "'d world \<Rightarrow> bool" where
  "quiet w \<longleftrightarrow> (\<forall>n. faultAt w n = None)"

lemma quiet_tick [simp]: "quiet (w\<lparr>tick := n\<rparr>) = quiet w"
  and quiet_db [simp]: "quiet (w\<lparr>db := d\<rparr>) = quiet w"
  by (simp_all add: quiet_def)

lemma queryA_quiet [act_run]: "quiet w \<Longrightarrow> queryA f w = (f (db w), nextTick w)"
  by (simp add: queryA_def stmtA_def quiet_def split: sum.splits)

lemma stmtA_quiet [act_run]:
  "quiet w \<Longrightarrow> stmtA f w =
     (case f (db w) of Inl e \<Rightarrow> (Inl e, nextTick w)
      | Inr (x, d) \<Rightarrow> (Inr x, (nextTick w)\<lparr>db := d\<rparr>))"
  by (simp add: stmtA_def quiet_def)

lemmas act_defs = bindA_def retA_def failA_def handleA_def tryA_def wrapErrA_def liftA_def
  stmtA_def queryA_def nowA_def timeNowA_def drawA_def newUUID_def transactionA_def

subsection \<open>Actions that leave the tables alone\<close>

definition readonly :: "('d, 'a) act \<Rightarrow> bool" where
  "readonly m \<longleftrightarrow> (\<forall>w. db (snd (m w)) = db w \<and> uuidAt (snd (m w)) = uuidAt w)"

lemma readonlyD: "readonly m \<Longrightarrow> m w = (r, w') \<Longrightarrow> db w' = db w"
  by (metis readonly_def snd_conv)

lemma readonly_uuids: "readonly m \<Longrightarrow> m w = (r, w') \<Longrightarrow> uuidAt w' = uuidAt w"
  by (metis readonly_def snd_conv)

lemma readonly_basic [act_frame, simp]:
  "readonly (retA x)" "readonly (failA e)" "readonly (liftA r)" "readonly nowA" "readonly newUUID"
  "readonly timeNowA" "readonly (drawA f)"
  by (simp_all add: readonly_def act_defs)

lemma readonly_query [act_frame, simp]: "readonly (queryA f)"
  by (simp add: readonly_def queryA_def stmtA_def split: option.splits sum.splits)

lemma readonly_bind [act_frame, intro]:
  "readonly m \<Longrightarrow> (\<And>x. readonly (k x)) \<Longrightarrow> readonly (bindA m k)"
  by (auto simp: readonly_def bindA_def split: prod.splits sum.splits) (metis (no_types, opaque_lifting) snd_conv)+

lemma readonly_handle [act_frame, intro]:
  "readonly m \<Longrightarrow> (\<And>e. readonly (h e)) \<Longrightarrow> readonly (handleA m h)"
  by (auto simp: readonly_def handleA_def split: prod.splits sum.splits) (metis (no_types, opaque_lifting) snd_conv)+

lemma readonly_wrap [act_frame, intro]: "readonly m \<Longrightarrow> readonly (wrapErrA f m)"
  by (simp add: wrapErrA_def readonly_handle)

lemma readonly_try [act_frame, intro]: "readonly m \<Longrightarrow> readonly (tryA m)"
  by (auto simp: readonly_def tryA_def split: prod.splits) (metis snd_conv)+

lemma readonly_mapA: "(\<And>x. readonly (f x)) \<Longrightarrow> readonly (mapA f xs)"
  by (induction xs) (simp_all add: readonly_bind)

lemma mapA_list_all:
  assumes "mapA f xs w = (Inr ys, w')" and "\<And>x v y v'. x \<in> set xs \<Longrightarrow> f x v = (Inr y, v') \<Longrightarrow> P y"
  shows "list_all P ys"
  using assms
proof (induction xs arbitrary: w ys)
  case Nil
  then show ?case by (simp add: retA_def)
next
  case (Cons x xs)
  obtain y v zs v' where y: "f x w = (Inr y, v)" and zs: "mapA f xs v = (Inr zs, v')" and ys: "ys = y # zs" "w' = v'"
    using Cons.prems(1) by (auto simp: bindA_def retA_def split: prod.splits sum.splits)
  have "list_all P zs" by (rule Cons.IH) (use zs ys Cons.prems(2) in auto)
  then show ?case using Cons.prems(2) [OF _ y] ys by simp
qed

text \<open>Atomic: an error means that no table changed.\<close>

definition atomicA :: "('d, 'a) act \<Rightarrow> bool" where
  "atomicA m \<longleftrightarrow> (\<forall>w e w'. m w = (Inl e, w') \<longrightarrow> db w' = db w)"

definition neverFails :: "('d, 'a) act \<Rightarrow> bool" where
  "neverFails m \<longleftrightarrow> (\<forall>w. \<exists>x. fst (m w) = Inr x)"

lemma atomicA_readonly [intro]: "readonly m \<Longrightarrow> atomicA m"
  by (auto simp: atomicA_def dest: readonlyD)

lemma atomicA_transaction [intro, simp]: "atomicA (transactionA m)"
  by (auto simp: atomicA_def transactionA_def split: option.splits prod.splits sum.splits)

lemma atomicA_wrap [intro]: "atomicA m \<Longrightarrow> atomicA (wrapErrA f m)"
  by (auto simp: atomicA_def wrapErrA_def handleA_def failA_def split: prod.splits sum.splits)

lemma atomicA_bind_readonly [intro]:
  "readonly m \<Longrightarrow> (\<And>x. atomicA (k x)) \<Longrightarrow> atomicA (bindA m k)"
  unfolding atomicA_def bindA_Inl_iff by (metis readonlyD)

lemma atomicA_bind_neverFails:
  "atomicA m \<Longrightarrow> (\<And>x. neverFails (k x)) \<Longrightarrow> atomicA (bindA m k)"
  unfolding atomicA_def bindA_Inl_iff neverFails_def by (metis fst_conv sum.distinct(1))

text \<open>Actions that never return a value of their own accord are read off with these rules.\<close>

lemma retA_iff [simp]: "retA x w = (r, w') \<longleftrightarrow> r = Inr x \<and> w' = w"
  by (auto simp: retA_def)

lemma failA_iff [simp]: "failA e w = (r, w') \<longleftrightarrow> r = Inl e \<and> w' = w"
  by (auto simp: failA_def)

lemma liftA_iff [simp]: "liftA q w = (r, w') \<longleftrightarrow> q = r \<and> w' = w"
  by (auto simp: liftA_def)

lemma wrapErrA_Inr_iff [simp]: "wrapErrA f m w = (Inr x, w') \<longleftrightarrow> m w = (Inr x, w')"
  by (auto simp: wrapErrA_def handleA_def split: prod.splits sum.splits)

lemma wrapErrA_Inl_iff: "wrapErrA f m w = (Inl e, w') \<longleftrightarrow> (\<exists>e0. m w = (Inl e0, w') \<and> e = f e0)"
  by (auto simp: wrapErrA_def handleA_def split: prod.splits sum.splits)

lemma queryA_Inr_iff:
  "queryA f w = (Inr x, w') \<longleftrightarrow> faultAt w (tick w) = None \<and> f (db w) = Inr x \<and> w' = nextTick w"
  by (auto simp: queryA_def stmtA_def split: option.splits sum.splits)

lemma stmtA_Inr_iff:
  "stmtA f w = (Inr x, w') \<longleftrightarrow>
     faultAt w (tick w) = None \<and> (\<exists>d. f (db w) = Inr (x, d) \<and> w' = (nextTick w)\<lparr>db := d\<rparr>)"
  by (auto simp: stmtA_def split: option.splits sum.splits)

lemma transactionA_Inr_iff:
  "transactionA m w = (Inr x, w') \<longleftrightarrow>
     faultAt w (tick w) = None \<and>
     (\<exists>w1. m (nextTick w) = (Inr x, w1) \<and> faultAt w1 (tick w1) = None \<and> w' = nextTick w1)"
  by (auto simp: transactionA_def split: option.splits prod.splits sum.splits)

lemma bindA_InrE:
  assumes "bindA m k w = (Inr y, w')"
  obtains x w1 where "m w = (Inr x, w1)" and "k x w1 = (Inr y, w')"
  using assms by (auto simp: bindA_Inr_iff)

lemma guardA_InrE:
  assumes "(if b then failA e else m) w = (Inr y, w')"
  obtains "\<not> b" and "m w = (Inr y, w')"
  using assms by (auto split: if_splits)

lemma newUUID_iff: "newUUID w = (r, w') \<longleftrightarrow> r = Inr (uuidAt w (tick w)) \<and> w' = nextTick w"
  by (auto simp: newUUID_def)

lemma nowA_iff: "nowA w = (r, w') \<longleftrightarrow> r = Inr (unixMicro (clockAt w (tick w))) \<and> w' = nextTick w"
  by (auto simp: nowA_def)

lemma timeNowA_iff: "timeNowA w = (r, w') \<longleftrightarrow> r = Inr (clockAt w (tick w)) \<and> w' = nextTick w"
  by (auto simp: timeNowA_def)

lemma updA_iff: "updA f w = (r, w') \<longleftrightarrow> r = Inr (fst (f (db w))) \<and> w' = w\<lparr>db := snd (f (db w))\<rparr>"
  by (auto simp: updA_def split: prod.splits)

lemma drawA_iff: "drawA f w = (r, w') \<longleftrightarrow> r = Inr (f (tick w)) \<and> w' = nextTick w"
  by (auto simp: drawA_def)

lemmas act_Inr = bindA_Inr_iff queryA_Inr_iff stmtA_Inr_iff transactionA_Inr_iff newUUID_iff nowA_iff timeNowA_iff drawA_iff updA_iff

lemma neverFails_basic [simp]: "neverFails (retA x)" "neverFails nowA" "neverFails newUUID"
  "neverFails timeNowA" "neverFails (drawA f)"
  by (simp_all add: neverFails_def act_defs)

subsection \<open>Hoare triples\<close>

text \<open>
  What the code relies on in the identifiers of the uuid library: they are not empty and have
  no space at either end (the library formats 36 hexadecimal digits and hyphens).
\<close>

definition okID :: "gostr \<Rightarrow> bool" where
  "okID i \<longleftrightarrow> i \<noteq> [] \<and> trimSpace i = i"

definition uuids_ok :: "'d world \<Rightarrow> bool" where
  "uuids_ok w \<longleftrightarrow> (\<forall>n. okID (uuidAt w n))"

lemma uuids_ok_upd [simp]: "uuids_ok (w\<lparr>tick := n\<rparr>) = uuids_ok w" "uuids_ok (w\<lparr>db := d\<rparr>) = uuids_ok w"
  by (simp_all add: uuids_ok_def)

definition triple ::
  "('d \<Rightarrow> bool) \<Rightarrow> ('d, 'a) act \<Rightarrow> ('a \<Rightarrow> 'd \<Rightarrow> bool) \<Rightarrow> (err \<Rightarrow> 'd \<Rightarrow> bool) \<Rightarrow> bool" where
  "triple P m Q E \<longleftrightarrow>
     (\<forall>w. uuids_ok w \<longrightarrow> P (db w) \<longrightarrow>
        uuids_ok (snd (m w)) \<and>
        (case m w of (Inr x, w') \<Rightarrow> Q x (db w') | (Inl e, w') \<Rightarrow> E e (db w')))"

abbreviation preserves :: "('d \<Rightarrow> bool) \<Rightarrow> ('d, 'a) act \<Rightarrow> bool" where
  "preserves I m \<equiv> triple I m (\<lambda>_. I) (\<lambda>_. I)"

lemma tripleD_Inr:
  "triple P m Q E \<Longrightarrow> uuids_ok w \<Longrightarrow> P (db w) \<Longrightarrow> m w = (Inr x, w') \<Longrightarrow> Q x (db w')"
  unfolding triple_def by (drule spec [of _ w]) simp

lemma tripleD_Inl:
  "triple P m Q E \<Longrightarrow> uuids_ok w \<Longrightarrow> P (db w) \<Longrightarrow> m w = (Inl e, w') \<Longrightarrow> E e (db w')"
  unfolding triple_def by (drule spec [of _ w]) simp

lemma tripleD_uuids: "triple P m Q E \<Longrightarrow> uuids_ok w \<Longrightarrow> P (db w) \<Longrightarrow> m w = (r, w') \<Longrightarrow> uuids_ok w'"
  unfolding triple_def by (drule spec [of _ w]) simp

lemma preservesD: "preserves I m \<Longrightarrow> uuids_ok w \<Longrightarrow> I (db w) \<Longrightarrow> I (db (snd (m w)))"
  unfolding triple_def by (drule spec [of _ w]) (auto split: prod.splits sum.splits)

lemma tripleI:
  "(\<And>w r w'. uuids_ok w \<Longrightarrow> P (db w) \<Longrightarrow> m w = (r, w') \<Longrightarrow> uuids_ok w') \<Longrightarrow>
   (\<And>w x w'. uuids_ok w \<Longrightarrow> P (db w) \<Longrightarrow> m w = (Inr x, w') \<Longrightarrow> Q x (db w')) \<Longrightarrow>
   (\<And>w e w'. uuids_ok w \<Longrightarrow> P (db w) \<Longrightarrow> m w = (Inl e, w') \<Longrightarrow> E e (db w')) \<Longrightarrow> triple P m Q E"
  unfolding triple_def by (auto split: prod.splits sum.splits)

lemma triple_pre: "triple P m Q E \<Longrightarrow> (\<And>d. P' d \<Longrightarrow> P d) \<Longrightarrow> triple P' m Q E"
  by (simp add: triple_def)

lemma triple_post:
  "triple P m Q E \<Longrightarrow> (\<And>x d. Q x d \<Longrightarrow> Q' x d) \<Longrightarrow> (\<And>e d. E e d \<Longrightarrow> E' e d) \<Longrightarrow> triple P m Q' E'"
  unfolding triple_def by (auto split: prod.splits sum.splits)

lemma triple_ret [act_triple]: "(\<And>d. P d \<Longrightarrow> Q x d) \<Longrightarrow> triple P (retA x) Q E"
  by (simp add: triple_def retA_def)

lemma triple_fail [act_triple]: "(\<And>d. P d \<Longrightarrow> E e d) \<Longrightarrow> triple P (failA e) Q E"
  by (simp add: triple_def failA_def)

lemma triple_lift [act_triple]:
  "(\<And>x d. P d \<Longrightarrow> r = Inr x \<Longrightarrow> Q x d) \<Longrightarrow> (\<And>e d. P d \<Longrightarrow> r = Inl e \<Longrightarrow> E e d) \<Longrightarrow> triple P (liftA r) Q E"
  by (simp add: triple_def liftA_def split: sum.splits)

lemma triple_bind [act_triple]:
  assumes "triple P m R E" and "\<And>x. triple (R x) (k x) Q E"
  shows "triple P (bindA m k) Q E"
proof (rule tripleI)
  fix w r w' assume w: "uuids_ok w" "P (db w)" "bindA m k w = (r, w')"
  obtain s v where s: "m w = (s, v)" by fastforce
  have v: "uuids_ok v" using tripleD_uuids [OF assms(1) w(1,2) s] .
  show "uuids_ok w'"
  proof (cases s)
    case (Inl e)
    then show ?thesis using w(3) s v by (simp add: bindA_def)
  next
    case (Inr x)
    then have "R x (db v)" and "k x v = (r, w')"
      using tripleD_Inr [OF assms(1) w(1,2)] w(3) s by (auto simp: bindA_def)
    then show ?thesis using tripleD_uuids [OF assms(2) v] by blast
  qed
next
  fix w y w' assume w: "uuids_ok w" "P (db w)" "bindA m k w = (Inr y, w')"
  then obtain x v where v: "m w = (Inr x, v)" "k x v = (Inr y, w')" by (auto simp: bindA_Inr_iff)
  then have "uuids_ok v" "R x (db v)"
    using tripleD_uuids [OF assms(1) w(1,2)] tripleD_Inr [OF assms(1) w(1,2)] by blast+
  then show "Q y (db w')" using tripleD_Inr [OF assms(2) _ _ v(2)] by blast
next
  fix w e w' assume w: "uuids_ok w" "P (db w)" "bindA m k w = (Inl e, w')"
  then consider "m w = (Inl e, w')" | x v where "m w = (Inr x, v)" "k x v = (Inl e, w')"
    by (auto simp: bindA_Inl_iff)
  then show "E e (db w')"
  proof cases
    case 1
    then show ?thesis using tripleD_Inl [OF assms(1) w(1,2)] by blast
  next
    case 2
    then have "uuids_ok v" "R x (db v)"
      using tripleD_uuids [OF assms(1) w(1,2)] tripleD_Inr [OF assms(1) w(1,2)] by blast+
    then show ?thesis using tripleD_Inl [OF assms(2) _ _ 2(2)] by blast
  qed
qed

lemma triple_handle [act_triple]:
  assumes "triple P m Q R" and "\<And>e. triple (R e) (h e) Q E"
  shows "triple P (handleA m h) Q E"
  unfolding triple_def
proof (intro allI impI)
  fix w assume w: "uuids_ok w" "P (db w)"
  obtain s v where s: "m w = (s, v)" by fastforce
  have v: "uuids_ok v" using tripleD_uuids [OF assms(1) w s] .
  show "uuids_ok (snd (handleA m h w)) \<and>
      (case handleA m h w of (Inr x, w') \<Rightarrow> Q x (db w') | (Inl e, w') \<Rightarrow> E e (db w'))"
  proof (cases s)
    case (Inl e)
    then have "R e (db v)" using tripleD_Inl [OF assms(1) w] s by blast
    then show ?thesis using assms(2) [of e] v s Inl by (simp add: handleA_def triple_def)
  next
    case (Inr x)
    then show ?thesis using tripleD_Inr [OF assms(1) w] s v by (simp add: handleA_def)
  qed
qed

lemma triple_wrap [act_triple]:
  "triple P m Q (\<lambda>e. E (f e)) \<Longrightarrow> triple P (wrapErrA f m) Q E"
  unfolding wrapErrA_def by (rule triple_handle) (auto intro: triple_fail)

lemma triple_try [act_triple]:
  "triple P m (\<lambda>x. Q (Inr x)) (\<lambda>e. Q (Inl e)) \<Longrightarrow> triple P (tryA m) Q E"
proof (rule tripleI)
  assume t: "triple P m (\<lambda>x. Q (Inr x)) (\<lambda>e. Q (Inl e))"
  fix w r w' assume w: "uuids_ok w" "P (db w)" "tryA m w = (r, w')"
  then obtain s where "m w = (s, w')" by (auto simp: tryA_def split: prod.splits)
  then show "uuids_ok w'" using tripleD_uuids [OF t w(1,2)] by blast
next
  assume t: "triple P m (\<lambda>x. Q (Inr x)) (\<lambda>e. Q (Inl e))"
  fix w s w' assume w: "uuids_ok w" "P (db w)" "tryA m w = (Inr s, w')"
  then have "m w = (s, w')" by (auto simp: tryA_def split: prod.splits)
  then show "Q s (db w')"
    using tripleD_Inr [OF t w(1,2)] tripleD_Inl [OF t w(1,2)] by (cases s) auto
qed (auto simp: tryA_def split: prod.splits)

lemma triple_stmt [act_triple]:
  assumes "\<And>d x d'. P d \<Longrightarrow> f d = Inr (x, d') \<Longrightarrow> Q x d'" and "\<And>d e. P d \<Longrightarrow> E e d"
  shows "triple P (stmtA f) Q E"
  using assms by (intro tripleI) (auto simp: stmtA_def split: option.splits sum.splits)

lemma triple_query [act_triple]:
  assumes "\<And>d x. P d \<Longrightarrow> f d = Inr x \<Longrightarrow> Q x d" and "\<And>d e. P d \<Longrightarrow> E e d"
  shows "triple P (queryA f) Q E"
  unfolding queryA_def using assms by (intro triple_stmt) (auto split: sum.splits)

lemma triple_now [act_triple]: "(\<And>t d. P d \<Longrightarrow> Q t d) \<Longrightarrow> triple P nowA Q E"
  by (simp add: triple_def nowA_def)

lemma triple_uuid [act_triple]: "(\<And>t d. P d \<Longrightarrow> okID t \<Longrightarrow> Q t d) \<Longrightarrow> triple P newUUID Q E"
  by (simp add: triple_def newUUID_def uuids_ok_def)

lemma triple_transaction [act_triple]:
  assumes "triple P m Q (\<lambda>_ _. True)" and "\<And>d e. P d \<Longrightarrow> E e d"
  shows "triple P (transactionA m) Q E"
proof (rule tripleI)
  fix w r w'
  assume w: "uuids_ok w" "P (db w)" and run: "transactionA m w = (r, w')"
  obtain s v where s: "m (nextTick w) = (s, v)" by fastforce
  then have "uuids_ok v" using tripleD_uuids [OF assms(1), of "nextTick w"] w by simp
  then show "uuids_ok w'"
    using run s w(1) by (auto simp: transactionA_def split: option.splits prod.splits sum.splits)
next
  fix w x w'
  assume w: "uuids_ok w" and P: "P (db w)" and run: "transactionA m w = (Inr x, w')"
  then obtain w1 where "m (nextTick w) = (Inr x, w1)" and "w' = nextTick w1"
    by (auto simp: transactionA_def split: option.splits prod.splits sum.splits)
  with assms(1) P w show "Q x (db w')"
    by (auto dest: tripleD_Inr [of _ _ _ _ "nextTick w"])
next
  fix w e w'
  assume "P (db w)" and "transactionA m w = (Inl e, w')"
  then show "E e (db w')"
    using assms(2) by (auto simp: transactionA_def split: option.splits prod.splits sum.splits)
qed

lemma triple_if [act_triple]:
  "(b \<Longrightarrow> triple P m Q E) \<Longrightarrow> (\<not> b \<Longrightarrow> triple P n Q E) \<Longrightarrow> triple P (if b then m else n) Q E"
  by simp

lemma triple_for:
  assumes "\<And>x. x \<in> set xs \<Longrightarrow> triple I (f x) (\<lambda>_. I) E"
  shows "triple I (forA xs f) (\<lambda>_. I) E"
  using assms
proof (induction xs)
  case Nil
  show ?case by (auto intro: triple_ret)
next
  case (Cons x xs)
  have "triple I (f x) (\<lambda>_. I) E" by (rule Cons.prems) simp
  moreover have "triple I (forA xs f) (\<lambda>_. I) E"
    by (rule Cons.IH) (rule Cons.prems, simp)
  ultimately show ?case
    unfolding forA.simps by (rule triple_bind)
qed

lemma triple_conj:
  assumes "triple P m Q E" and "triple P' m Q' E'"
  shows "triple (\<lambda>d. P d \<and> P' d) m (\<lambda>x d. Q x d \<and> Q' x d) (\<lambda>e d. E e d \<and> E' e d)"
proof (rule tripleI)
qed (use tripleD_uuids [OF assms(1)] tripleD_Inr [OF assms(1)] tripleD_Inr [OF assms(2)]
      tripleD_Inl [OF assms(1)] tripleD_Inl [OF assms(2)] in blast)+

lemma triple_readonly:
  assumes "readonly m" and "\<And>d e. P d \<Longrightarrow> E e d"
  shows "triple P m (\<lambda>_. P) E"
proof (rule tripleI)
  fix w r w' assume "uuids_ok w" and "m w = (r, w')"
  then show "uuids_ok w'" using readonly_uuids [OF assms(1)] by (simp add: uuids_ok_def)
qed (use readonlyD [OF assms(1)] assms(2) in auto)

lemma triple_bind_readonly:
  assumes "readonly m" and "\<And>d e. P d \<Longrightarrow> E e d" and "\<And>x. triple P (k x) Q E"
  shows "triple P (bindA m k) Q E"
  by (rule triple_bind [where R = "\<lambda>_. P"], rule triple_readonly [OF assms(1)], erule assms(2), rule assms(3))

text \<open>A query, with a fact about its result.\<close>

lemma triple_readonly_fact:
  assumes "readonly m" and "\<And>w x w'. uuids_ok w \<Longrightarrow> P (db w) \<Longrightarrow> m w = (Inr x, w') \<Longrightarrow> Q x (db w')"
    and "\<And>d e. P d \<Longrightarrow> E e d"
  shows "triple P m (\<lambda>x d. P d \<and> Q x d) E"
proof (rule tripleI)
  fix w r w' assume "uuids_ok w" and "m w = (r, w')"
  then show "uuids_ok w'" using readonly_uuids [OF assms(1)] by (simp add: uuids_ok_def)
qed (use readonlyD [OF assms(1)] assms(2,3) in auto)

subsection \<open>Invariants\<close>

text \<open>
  The rules of the shape \<open>preserves I\<close>: \<open>intro act_keeps\<close> takes a handler apart
  down to the statements of its data access.
\<close>

lemma keeps_bind [act_keeps]:
  "preserves I m \<Longrightarrow> (\<And>x. preserves I (k x)) \<Longrightarrow> preserves I (bindA m k)"
  by (rule triple_bind [where R = "\<lambda>_. I"])

lemma keeps_handle [act_keeps]:
  "preserves I m \<Longrightarrow> (\<And>e. preserves I (h e)) \<Longrightarrow> preserves I (handleA m h)"
  by (rule triple_handle [where R = "\<lambda>_. I"])

lemma keeps_simple [act_keeps]:
  "preserves I m \<Longrightarrow> preserves I (tryA m)" "preserves I m \<Longrightarrow> preserves I (wrapErrA f m)"
  "preserves I n \<Longrightarrow> preserves I (transactionA n)"
  by (rule triple_try, assumption) (rule triple_wrap, assumption, rule triple_transaction,
      erule triple_post, simp_all)

lemma keeps_for [act_keeps]: "(\<And>x. preserves I (f x)) \<Longrightarrow> preserves I (forA xs f)"
  by (rule triple_for)

lemma keeps_map [act_keeps]: "(\<And>x. preserves I (f x)) \<Longrightarrow> preserves I (mapA f xs)"
  by (induction xs) (auto intro: keeps_bind triple_ret)

lemma keeps_split [act_keeps]:
  "(b \<Longrightarrow> preserves I m1) \<Longrightarrow> (\<not> b \<Longrightarrow> preserves I m2) \<Longrightarrow> preserves I (if b then m1 else m2)"
  "preserves I n \<Longrightarrow> (\<And>x. preserves I (f x)) \<Longrightarrow> preserves I (case q of None \<Rightarrow> n | Some x \<Rightarrow> f x)"
  "(\<And>e. preserves I (g e)) \<Longrightarrow> (\<And>x. preserves I (h x)) \<Longrightarrow> preserves I (case s of Inl e \<Rightarrow> g e | Inr x \<Rightarrow> h x)"
  "(\<And>a b. preserves I (k a b)) \<Longrightarrow> preserves I (case p of (a, b) \<Rightarrow> k a b)"
  by (auto split: option.splits sum.splits prod.splits)

lemma keeps_basic [act_keeps]: "preserves I (retA x)" "preserves I (failA e)" "preserves I (liftA r)"
  by (auto intro: triple_ret triple_fail triple_lift)

lemma keeps_readonly: "readonly m \<Longrightarrow> preserves I m"
  by (rule triple_readonly)

lemma keeps_stmt: "(\<And>d x d'. I d \<Longrightarrow> f d = Inr (x, d') \<Longrightarrow> I d') \<Longrightarrow> preserves I (stmtA f)"
  by (rule triple_stmt)

text \<open>A call whose value is dropped.\<close>

definition voidA :: "('d, 'a) act \<Rightarrow> ('d, unit) act" where
  "voidA m = bindA m (\<lambda>_. retA ())"

lemma voidA_ok: "preserves I m \<Longrightarrow> preserves I (voidA m)"
  unfolding voidA_def by (intro act_keeps)

subsection \<open>Effects\<close>

text \<open>
  What a call does to the tables: \<open>R\<close> relates the tables before, the value returned and the
  tables after; \<open>E\<close> the tables before, the error and the tables after.
\<close>

definition effectA ::
  "('d, 'a) act \<Rightarrow> ('d \<Rightarrow> 'a \<Rightarrow> 'd \<Rightarrow> bool) \<Rightarrow> ('d \<Rightarrow> err \<Rightarrow> 'd \<Rightarrow> bool) \<Rightarrow> bool" where
  "effectA m R E \<longleftrightarrow>
     (\<forall>w. case m w of (Inr x, w') \<Rightarrow> R (db w) x (db w') | (Inl e, w') \<Rightarrow> E (db w) e (db w'))"

lemma effectA_I:
  assumes "\<And>w x w'. m w = (Inr x, w') \<Longrightarrow> R (db w) x (db w')"
    and "\<And>w e w'. m w = (Inl e, w') \<Longrightarrow> E (db w) e (db w')"
  shows "effectA m R E"
  unfolding effectA_def using assms by (auto split: prod.splits sum.splits)

lemma effectA_atomic:
  assumes "\<And>w x w'. m w = (Inr x, w') \<Longrightarrow> R (db w) x (db w')" and "atomicA m"
  shows "effectA m R (\<lambda>d e d'. d' = d)"
  using assms by (intro effectA_I) (auto simp: atomicA_def)

lemma effectA_Inr: "effectA m R E \<Longrightarrow> m w = (Inr x, w') \<Longrightarrow> R (db w) x (db w')"
  unfolding effectA_def by (drule spec [of _ w]) simp

definition keepsA :: "('d \<Rightarrow> bool) \<Rightarrow> ('d, 'a) act \<Rightarrow> bool" where
  "keepsA I m \<longleftrightarrow> (\<forall>w. I (db w) \<longrightarrow> I (db (snd (m w))))"

lemma keepsA_I:
  assumes "\<And>w x w'. m w = (Inr x, w') \<Longrightarrow> I (db w) \<Longrightarrow> I (db w')"
    and "\<And>w e w'. m w = (Inl e, w') \<Longrightarrow> I (db w) \<Longrightarrow> I (db w')"
  shows "keepsA I m"
  unfolding keepsA_def
proof (intro allI impI)
  fix w :: "'a world" assume "I (db w)"
  then show "I (db (snd (m w)))"
    using assms by (cases "m w"; cases "fst (m w)") auto
qed

lemma keepsA_atomic:
  assumes "\<And>w x w'. m w = (Inr x, w') \<Longrightarrow> I (db w) \<Longrightarrow> I (db w')" and "atomicA m"
  shows "keepsA I m"
  using assms by (intro keepsA_I) (auto simp: atomicA_def)

lemma keepsAD: "keepsA I m \<Longrightarrow> m w = (r, w') \<Longrightarrow> I (db w) \<Longrightarrow> I (db w')"
  unfolding keepsA_def by (drule spec [of _ w]) simp

subsection \<open>Actions on a part of the state\<close>

text \<open>
  A component that keeps its state beside others' (the tables beside the Redis keyspace) runs on
  its part: \<open>zoomA get put m\<close> runs \<open>m\<close> on \<open>get d\<close> and writes the result back with
  \<open>put\<close>.  The laws of the access functions are the contract \<open>state_part\<close>.
\<close>

definition withDb :: "'e \<Rightarrow> 'd world \<Rightarrow> 'e world" where
  "withDb e w = \<lparr>db = e, tick = tick w, clockAt = clockAt w, uuidAt = uuidAt w, faultAt = faultAt w\<rparr>"

definition zoomA :: "('d \<Rightarrow> 'e) \<Rightarrow> ('e \<Rightarrow> 'd \<Rightarrow> 'd) \<Rightarrow> ('e, 'a) act \<Rightarrow> ('d, 'a) act" where
  "zoomA get put m w =
     (case m (withDb (get (db w)) w) of (r, w') \<Rightarrow> (r, withDb (put (db w') (db w)) w'))"

lemma withDb_simps [simp]:
  "db (withDb e w) = e" "tick (withDb e w) = tick w" "clockAt (withDb e w) = clockAt w"
  "uuidAt (withDb e w) = uuidAt w" "faultAt (withDb e w) = faultAt w"
  "withDb e (withDb e' w) = withDb e w" "withDb (db w) w = w" "uuids_ok (withDb e w) = uuids_ok w"
  by (simp_all add: withDb_def uuids_ok_def)

lemma zoomA_iff:
  "zoomA get put m w = (r, w') \<longleftrightarrow>
     (\<exists>v. m (withDb (get (db w)) w) = (r, v) \<and> w' = withDb (put (db v) (db w)) v)"
  by (auto simp: zoomA_def split: prod.splits)

locale state_part =
  fixes get :: "'d \<Rightarrow> 'e" and put :: "'e \<Rightarrow> 'd \<Rightarrow> 'd"
  assumes get_put: "get (put e d) = e"
    and put_get: "put (get d) d = d"
    and put_put: "put e (put e' d) = put e d"
begin

lemma zoom_readonly: "readonly m \<Longrightarrow> readonly (zoomA get put m)"
proof -
  assume ro: "readonly m"
  have "db w' = db w \<and> uuidAt w' = uuidAt w" if run: "zoomA get put m w = (r, w')" for w r w'
  proof -
    obtain v where v: "m (withDb (get (db w)) w) = (r, v)" and w': "w' = withDb (put (db v) (db w)) v"
      using run by (auto simp: zoomA_iff)
    show ?thesis using readonlyD [OF ro v] readonly_uuids [OF ro v] w' by (simp add: put_get)
  qed
  then show ?thesis unfolding readonly_def by (metis prod.collapse)
qed

lemma zoom_atomic: "atomicA m \<Longrightarrow> atomicA (zoomA get put m)"
proof -
  assume at: "atomicA m"
  have "db w' = db w" if run: "zoomA get put m w = (Inl e, w')" for w e w'
  proof -
    obtain v where v: "m (withDb (get (db w)) w) = (Inl e, v)" and w': "w' = withDb (put (db v) (db w)) v"
      using run by (auto simp: zoomA_iff)
    have "db v = get (db w)" using at v unfolding atomicA_def by fastforce
    then show ?thesis using w' by (simp add: put_get)
  qed
  then show ?thesis unfolding atomicA_def by blast
qed

lemma zoom_triple:
  assumes "triple P m Q E"
  shows "triple (\<lambda>d. P (get d)) (zoomA get put m) (\<lambda>x d. Q x (get d)) (\<lambda>e d. E e (get d))"
proof (rule tripleI)
  fix w r w'
  assume w: "uuids_ok w" "P (get (db w))" and run: "zoomA get put m w = (r, w')"
  then obtain v where v: "m (withDb (get (db w)) w) = (r, v)" "w' = withDb (put (db v) (db w)) v"
    by (auto simp: zoomA_iff)
  show "uuids_ok w'" using tripleD_uuids [OF assms _ _ v(1)] w v(2) by simp
next
  fix w x w'
  assume w: "uuids_ok w" "P (get (db w))" and run: "zoomA get put m w = (Inr x, w')"
  then obtain v where v: "m (withDb (get (db w)) w) = (Inr x, v)" "w' = withDb (put (db v) (db w)) v"
    by (auto simp: zoomA_iff)
  show "Q x (get (db w'))" using tripleD_Inr [OF assms _ _ v(1)] w v(2) by (simp add: get_put)
next
  fix w e w'
  assume w: "uuids_ok w" "P (get (db w))" and run: "zoomA get put m w = (Inl e, w')"
  then obtain v where v: "m (withDb (get (db w)) w) = (Inl e, v)" "w' = withDb (put (db v) (db w)) v"
    by (auto simp: zoomA_iff)
  show "E e (get (db w'))" using tripleD_Inl [OF assms _ _ v(1)] w v(2) by (simp add: get_put)
qed

text \<open>What lies outside the part is not touched.\<close>

lemma zoom_frame: "zoomA get put m w = (r, w') \<Longrightarrow> put e (db w') = put e (db w)"
  by (auto simp: zoomA_iff put_put)

lemma zoom_triple_frame:
  assumes "triple P m Q E" and G: "\<And>e d. G (put e d) = G d"
  shows "triple (\<lambda>d. G d \<and> P (get d)) (zoomA get put m) (\<lambda>x d. G d \<and> Q x (get d)) (\<lambda>e d. G d \<and> E e (get d))"
proof -
  have frame: "G (db w') = G (db w)" if "zoomA get put m w = (r, w')" for w r w'
    using zoom_frame [OF that] G by metis
  note zt = zoom_triple [OF assms(1)]
  show ?thesis
  proof (rule tripleI)
    fix w r w' assume "uuids_ok w" "G (db w) \<and> P (get (db w))" "zoomA get put m w = (r, w')"
    then show "uuids_ok w'" using tripleD_uuids [OF zt] by blast
  next
    fix w x w' assume "uuids_ok w" "G (db w) \<and> P (get (db w))" "zoomA get put m w = (Inr x, w')"
    then show "G (db w') \<and> Q x (get (db w'))" using tripleD_Inr [OF zt] frame by blast
  next
    fix w e w' assume "uuids_ok w" "G (db w) \<and> P (get (db w))" "zoomA get put m w = (Inl e, w')"
    then show "G (db w') \<and> E e (get (db w'))" using tripleD_Inl [OF zt] frame by blast
  qed
qed

lemma zoom_get: "zoomA get put m w = (r, w') \<Longrightarrow> \<exists>v. m (withDb (get (db w)) w) = (r, v) \<and> get (db w') = db v"
  by (auto simp: zoomA_iff get_put)

end

subsection \<open>Reachable states\<close>

text \<open>
  The states a component can be in: the initial ones, closed under its steps.  The locale is
  the contract between a component, which shows that each of its steps keeps an invariant, and
  its clients, which use the invariant in every reachable state and along every run.
\<close>

inductive reachable :: "('s \<Rightarrow> bool) \<Rightarrow> ('s \<Rightarrow> 's \<Rightarrow> bool) \<Rightarrow> 's \<Rightarrow> bool"
  for init :: "'s \<Rightarrow> bool" and step :: "'s \<Rightarrow> 's \<Rightarrow> bool"
where
  reachable_init: "init s \<Longrightarrow> reachable init step s"
| reachable_step: "reachable init step s \<Longrightarrow> step s t \<Longrightarrow> reachable init step t"

inductive_cases reachableE: "reachable init step s"

locale invariant_system =
  fixes init :: "'s \<Rightarrow> bool" and step :: "'s \<Rightarrow> 's \<Rightarrow> bool" and inv :: "'s \<Rightarrow> bool"
  assumes inv_init: "init s \<Longrightarrow> inv s"
    and inv_step: "inv s \<Longrightarrow> step s t \<Longrightarrow> inv t"
begin

lemma reach_inv: "reachable init step s \<Longrightarrow> inv s"
  by (induction rule: reachable.induct) (auto intro: inv_init inv_step)

lemma steps_inv: "inv s \<Longrightarrow> step\<^sup>*\<^sup>* s t \<Longrightarrow> inv t"
  by (rotate_tac, induction rule: rtranclp_induct) (auto intro: inv_step)

end

end
