(* ===== verification/Auth_Context.thy ===== *)
theory Auth_Context
  imports Service_World
begin

text \<open>
  \<^verbatim>\<open>toolbox/authctx/authctx.go\<close>: the identity that travels between the services in gRPC
  metadata, and the access tokens that prove it.

  A context carries optional incoming and outgoing metadata (maps from lower-case keys to lists
  of values).  The JWT library is not part of the repository: \<open>parse\<close> and \<open>sign\<close> are
  parameters, \<open>parse\<close> applied to the repository's key function.  Times are Unix nanoseconds,
  durations nanoseconds, claims' dates Unix seconds as in the token.
\<close>

record authUser =
  auID :: gostr
  auUsername :: gostr
  auRoleIDs :: "gostr list"

type_synonym metadata = "gostr \<rightharpoonup> gostr list"

record goctx =
  ctxIncoming :: "metadata option"
  ctxOutgoing :: "metadata option"

definition MetadataUserID :: gostr where "MetadataUserID = ''x-user-id''"
definition MetadataUsername :: gostr where "MetadataUsername = ''x-username''"
definition MetadataRoleIDs :: gostr where "MetadataRoleIDs = ''x-role-ids''"

lemma metadata_keys [simp]:
  "MetadataUserID \<noteq> MetadataUsername" "MetadataUserID \<noteq> MetadataRoleIDs"
  "MetadataUsername \<noteq> MetadataRoleIDs" "MetadataUsername \<noteq> MetadataUserID"
  "MetadataRoleIDs \<noteq> MetadataUserID" "MetadataRoleIDs \<noteq> MetadataUsername"
  by (simp_all add: MetadataUserID_def MetadataUsername_def MetadataRoleIDs_def)

definition nanosPerSecond :: int where "nanosPerSecond = 1000000000"

definition defaultTokenTTL :: int where "defaultTokenTTL = 4 * 3600 * nanosPerSecond"

definition normalizeRoleIDs :: "gostr list \<Rightarrow> gostr list" where
  "normalizeRoleIDs roleIDs = dedupTrim [] roleIDs"

definition splitRoleIDs :: "gostr \<Rightarrow> gostr list" where
  "splitRoleIDs raw = (if raw = [] then [] else normalizeRoleIDs (splitOn CHR '','' raw))"

definition firstMetadataValue :: "metadata \<Rightarrow> gostr \<Rightarrow> gostr" where
  "firstMetadataValue md key =
     (case md key of None \<Rightarrow> [] | Some [] \<Rightarrow> [] | Some (v # _) \<Rightarrow> v)"

definition ContextWithUser :: "goctx \<Rightarrow> authUser \<Rightarrow> goctx" where
  "ContextWithUser ctx user =
     (let md = (case ctxOutgoing ctx of None \<Rightarrow> Map.empty | Some m \<Rightarrow> m) in
      ctx\<lparr>ctxOutgoing := Some (md
        (MetadataUserID \<mapsto> [trimSpace (auID user)],
         MetadataUsername \<mapsto> [trimSpace (auUsername user)],
         MetadataRoleIDs \<mapsto> [joinWith '','' (normalizeRoleIDs (auRoleIDs user))]))\<rparr>)"

definition CurrentUser :: "goctx \<Rightarrow> authUser option" where
  "CurrentUser ctx =
     (case (case ctxIncoming ctx of None \<Rightarrow> ctxOutgoing ctx | Some md \<Rightarrow> Some md) of
        None \<Rightarrow> None
      | Some md \<Rightarrow>
          (let userID = firstMetadataValue md MetadataUserID in
           if trimSpace userID = [] then None
           else Some \<lparr>auID = trimSpace userID,
                      auUsername = trimSpace (firstMetadataValue md MetadataUsername),
                      auRoleIDs = splitRoleIDs (firstMetadataValue md MetadataRoleIDs)\<rparr>))"

definition ForwardUserContext :: "goctx \<Rightarrow> goctx" where
  "ForwardUserContext ctx =
     (case CurrentUser ctx of None \<Rightarrow> ctx | Some user \<Rightarrow> ContextWithUser ctx user)"

definition RequireUserID :: "goctx \<Rightarrow> err + gostr" where
  "RequireUserID ctx =
     (case CurrentUser ctx of
        None \<Rightarrow> Inl (Err ''user is required'')
      | Some user \<Rightarrow>
          if trimSpace (auID user) = [] then Inl (Err ''user is required'')
          else Inr (trimSpace (auID user)))"

definition TokenTTLSeconds :: "int \<Rightarrow> int" where
  "TokenTTLSeconds ttl = (if ttl \<le> 0 then defaultTokenTTL else ttl) div nanosPerSecond"

subsection \<open>Access tokens\<close>

record claims =
  cUserID :: gostr
  cUsername :: gostr
  cRoleIDs :: "gostr list"
  cSessionID :: gostr
  cTokenType :: gostr
  cID :: gostr
  cSubject :: gostr
  cIssuedAt :: "int option"
  cExpiresAt :: "int option"

text \<open>Unix second of Go's zero \<^verbatim>\<open>time.Time\<close> (\<^verbatim>\<open>IsZero\<close>).\<close>

definition zeroTime :: int where "zeroTime = - 62135596800"

datatype jwtErr = JwtExpired | JwtOther

text \<open>Go's random source, as the encoded token for a number of bytes.\<close>

definition NewOpaqueToken :: "(int \<Rightarrow> err + gostr) \<Rightarrow> int \<Rightarrow> err + gostr" where
  "NewOpaqueToken rnd n = rnd (if n < 32 then 32 else n)"

definition SignAccessToken ::
  "(claims \<Rightarrow> gostr \<Rightarrow> err + gostr) \<Rightarrow> (int \<Rightarrow> err + gostr) \<Rightarrow> int \<Rightarrow>
   gostr \<Rightarrow> authUser \<Rightarrow> gostr \<Rightarrow> int \<Rightarrow> err + (gostr \<times> gostr)" where
  "SignAccessToken sign rnd now secret user sessionID ttl =
     (let secret = trimSpace secret in
      if secret = [] then Inl (Err ''auth token secret is required'')
      else
        let uid = trimSpace (auID user); uname = trimSpace (auUsername user) in
        if uid = [] then Inl (Err ''user id is required'')
        else
          let ttl = (if ttl \<le> 0 then defaultTokenTTL else ttl) in
          case NewOpaqueToken rnd 18 of
            Inl e \<Rightarrow> Inl e
          | Inr tokenID \<Rightarrow>
              (case sign \<lparr>cUserID = uid, cUsername = uname,
                          cRoleIDs = normalizeRoleIDs (auRoleIDs user),
                          cSessionID = trimSpace sessionID, cTokenType = ''access'',
                          cID = tokenID, cSubject = uid,
                          cIssuedAt = Some (now div nanosPerSecond),
                          cExpiresAt = Some ((now + ttl) div nanosPerSecond)\<rparr> secret of
                 Inl e \<Rightarrow> Inl e
               | Inr signed \<Rightarrow> Inr (signed, tokenID)))"

text \<open>The key function handed to the JWT library: only HS256 tokens get a key.\<close>

definition jwtKey :: "gostr \<Rightarrow> gostr \<Rightarrow> err + gostr" where
  "jwtKey secret alg = (if alg \<noteq> ''HS256'' then Inl InvalidToken else Inr secret)"

definition VerifyAccessToken ::
  "((gostr \<Rightarrow> err + gostr) \<Rightarrow> gostr \<Rightarrow> jwtErr + (claims \<times> bool)) \<Rightarrow>
   gostr \<Rightarrow> gostr \<Rightarrow> err + claims" where
  "VerifyAccessToken parse secret token =
     (let secret = trimSpace secret in
      if secret = [] then Inl (Err ''auth token secret is required'')
      else if trimSpace token = [] then Inl InvalidToken
      else case parse (jwtKey secret) token of
        Inl JwtExpired \<Rightarrow> Inl ExpiredToken
      | Inl JwtOther \<Rightarrow> Inl InvalidToken
      | Inr (c, valid) \<Rightarrow>
          if \<not> valid \<or> cExpiresAt c = None \<or> cExpiresAt c = Some zeroTime then Inl InvalidToken
          else if cTokenType c \<noteq> [] \<and> cTokenType c \<noteq> ''access'' then Inl InvalidToken
          else if cUserID c = [] \<or> cID c = [] \<or> (cSubject c \<noteq> [] \<and> cSubject c \<noteq> cUserID c)
            then Inl InvalidToken
          else Inr c)"

definition userFromClaims :: "claims \<Rightarrow> err + authUser" where
  "userFromClaims c =
     (if trimSpace (cUserID c) = [] then Inl InvalidToken
      else Inr \<lparr>auID = trimSpace (cUserID c), auUsername = trimSpace (cUsername c),
                auRoleIDs = normalizeRoleIDs (cRoleIDs c)\<rparr>)"

definition VerifyToken ::
  "((gostr \<Rightarrow> err + gostr) \<Rightarrow> gostr \<Rightarrow> jwtErr + (claims \<times> bool)) \<Rightarrow>
   gostr \<Rightarrow> gostr \<Rightarrow> err + authUser" where
  "VerifyToken parse secret token =
     (case VerifyAccessToken parse secret token of
        Inl e \<Rightarrow> Inl e
      | Inr c \<Rightarrow> userFromClaims c)"

subsection \<open>Facts\<close>

lemma normalizeRoleIDs_idem [simp]: "normalizeRoleIDs (normalizeRoleIDs xs) = normalizeRoleIDs xs"
  by (simp add: normalizeRoleIDs_def)

lemma set_normalizeRoleIDs: "set (normalizeRoleIDs xs) = trimSpace ` set xs - {[]}"
  by (simp add: normalizeRoleIDs_def set_dedupTrim)

lemma joinWith_nonempty: "xs \<noteq> [] \<Longrightarrow> \<forall>x \<in> set xs. x \<noteq> [] \<Longrightarrow> joinWith s xs \<noteq> []"
  by (induction s xs rule: joinWith.induct) auto

lemma splitRoleIDs_join:
  assumes "\<forall>r \<in> set xs. CHR '','' \<notin> set r"
  shows "splitRoleIDs (joinWith '','' (normalizeRoleIDs xs)) = normalizeRoleIDs xs"
proof (cases "normalizeRoleIDs xs = []")
  case True
  then show ?thesis by (simp add: splitRoleIDs_def)
next
  case False
  have items: "\<forall>r \<in> set (normalizeRoleIDs xs). r \<noteq> [] \<and> CHR '','' \<notin> set r"
    using assms set_trimSpace by (fastforce simp: set_normalizeRoleIDs)
  then have "splitOn CHR '','' (joinWith '','' (normalizeRoleIDs xs)) = normalizeRoleIDs xs"
    using False by (intro splitOn_joinWith) auto
  moreover have "joinWith '','' (normalizeRoleIDs xs) \<noteq> []"
    using False items by (intro joinWith_nonempty) auto
  ultimately show ?thesis by (simp add: splitRoleIDs_def)
qed

lemma CurrentUser_SomeD:
  "CurrentUser ctx = Some u \<Longrightarrow> auID u \<noteq> [] \<and> trimSpace (auID u) = auID u"
  by (auto simp: CurrentUser_def Let_def split: option.splits if_splits)

lemma RequireUserID_current:
  "RequireUserID ctx =
     (case CurrentUser ctx of None \<Rightarrow> Inl (Err ''user is required'') | Some u \<Rightarrow> Inr (auID u))"
  by (auto simp: RequireUserID_def dest: CurrentUser_SomeD split: option.splits)

lemma CurrentUser_with:
  assumes "ctxIncoming ctx = None" and "trimSpace (auID u) \<noteq> []"
    and "\<forall>r \<in> set (auRoleIDs u). CHR '','' \<notin> set r"
  shows "CurrentUser (ContextWithUser ctx u) =
     Some \<lparr>auID = trimSpace (auID u), auUsername = trimSpace (auUsername u),
           auRoleIDs = normalizeRoleIDs (auRoleIDs u)\<rparr>"
  using assms splitRoleIDs_join [OF assms(3)]
  by (simp add: CurrentUser_def ContextWithUser_def Let_def firstMetadataValue_def)

end
