(* ===== verification/Table_Rows.thy ===== *)
theory Table_Rows
  imports Service_World "HOL-Library.Product_Lexorder"
begin

text \<open>
  Database tables as lists of rows, for the stores of all services: the first row in an order,
  updates of the rows that match, unique columns and the lemmas on distinct columns.
\<close>

definition uniqueViolation :: "gostr \<Rightarrow> err" where
  "uniqueViolation col = Driver (''UNIQUE constraint failed: '' @ col)"

text \<open>\<^verbatim>\<open>First\<close>: the matching row with the least primary key.\<close>

definition firstRow :: "('r \<Rightarrow> 'k :: linorder) \<Rightarrow> ('r \<Rightarrow> bool) \<Rightarrow> 'r list \<Rightarrow> err + 'r" where
  "firstRow pk p rows =
     (case sort_key pk (filter p rows) of [] \<Rightarrow> Inl RecordNotFound | r # _ \<Rightarrow> Inr r)"

definition updateRows :: "('r \<Rightarrow> bool) \<Rightarrow> ('r \<Rightarrow> 'r) \<Rightarrow> 'r list \<Rightarrow> 'r list" where
  "updateRows p f rows = map (\<lambda>r. if p r then f r else r) rows"

lemma firstRow_Inr: "firstRow pk p rows = Inr r \<Longrightarrow> r \<in> set rows \<and> p r"
proof -
  assume "firstRow pk p rows = Inr r"
  then obtain rs where "sort_key pk (filter p rows) = r # rs"
    by (auto simp: firstRow_def split: list.splits)
  then have "r \<in> set (sort_key pk (filter p rows))" by (metis list.set_intros(1))
  then show ?thesis by simp
qed

lemma firstRow_Inl: "firstRow pk p rows = Inl e \<longleftrightarrow> e = RecordNotFound \<and> (\<forall>r \<in> set rows. \<not> p r)"
proof -
  have "sort_key pk (filter p rows) = [] \<longleftrightarrow> filter p rows = []"
    by (metis length_0_conv length_sort)
  then show ?thesis
    by (auto simp: firstRow_def filter_empty_conv split: list.splits)
qed

lemma firstRow_unique:
  assumes "r \<in> set rows" and "p r" and "\<And>s. s \<in> set rows \<Longrightarrow> p s \<Longrightarrow> s = r"
  shows "firstRow pk p rows = Inr r"
proof (cases "firstRow pk p rows")
  case (Inl e)
  then show ?thesis using assms(1,2) by (auto simp: firstRow_Inl)
next
  case (Inr s)
  then have "s \<in> set rows \<and> p s" by (rule firstRow_Inr)
  then show ?thesis using assms(3) Inr by blast
qed

lemma distinct_key_eq: "distinct (map f xs) \<Longrightarrow> x \<in> set xs \<Longrightarrow> y \<in> set xs \<Longrightarrow> f x = f y \<Longrightarrow> x = y"
  by (metis distinct_map inj_onD)

lemma firstRow_key:
  "distinct (map k rows) \<Longrightarrow> r \<in> set rows \<Longrightarrow> firstRow pk (\<lambda>s. k s = k r) rows = Inr r"
  by (rule firstRow_unique) (auto dest: distinct_key_eq)

lemma distinct_map_filter: "distinct (map f xs) \<Longrightarrow> distinct (map f (filter p xs))"
  by (induction xs) auto

text \<open>An update of the rows with a given key keeps a column distinct when the new value of the
  column is not taken by another row.\<close>

lemma distinct_updateRows_key:
  assumes "distinct (map k rows)" and "\<And>r. p r \<Longrightarrow> k (f r) = k r"
  shows "distinct (map k (updateRows p f rows))"
proof -
  have "map k (updateRows p f rows) = map k rows"
    using assms(2) by (auto simp: updateRows_def)
  then show ?thesis using assms(1) by simp
qed

lemma set_updateRows_key:
  assumes "\<And>r. p r \<Longrightarrow> k (f r) = k r"
  shows "k ` set (updateRows p f rows) = k ` set rows"
proof -
  have "k ` set (updateRows p f rows) = (\<lambda>r. k (if p r then f r else r)) ` set rows"
    unfolding updateRows_def set_map image_image by (rule refl)
  also have "\<dots> = k ` set rows" using assms by (intro image_cong) auto
  finally show ?thesis .
qed

lemma distinct_updateRows_col:
  assumes "distinct (map k rows)" and "distinct (map c rows)"
    and "\<And>r. c (f r) = v" and "\<forall>r \<in> set rows. k r \<noteq> i \<longrightarrow> c r \<noteq> v"
  shows "distinct (map c (updateRows (\<lambda>r. k r = i) f rows))"
  using assms(1,2,4)
proof (induction rows)
  case Nil
  then show ?case by (simp add: updateRows_def)
next
  case (Cons r rows)
  have IH: "distinct (map c (updateRows (\<lambda>r. k r = i) f rows))"
    using Cons by simp
  show ?case
  proof (cases "k r = i")
    case True
    have others: "\<forall>s \<in> set rows. k s \<noteq> i"
      using Cons.prems(1) True by (metis distinct.simps(2) image_eqI list.map(2) list.set_map)
    then have "updateRows (\<lambda>r. k r = i) f rows = rows"
      by (simp add: updateRows_def map_idI)
    moreover have "v \<notin> c ` set rows"
      using Cons.prems(3) others by auto
    ultimately show ?thesis
      using True Cons.prems(2) by (simp add: updateRows_def assms(3))
  next
    case False
    have "c r \<notin> c ` set (updateRows (\<lambda>r. k r = i) f rows)"
      using False Cons.prems(2,3) unfolding updateRows_def set_map image_image
      by (auto simp: assms(3) image_iff)
    moreover have "updateRows (\<lambda>r. k r = i) f (r # rows) = r # updateRows (\<lambda>r. k r = i) f rows"
      using False by (simp add: updateRows_def)
    ultimately show ?thesis using IH by (simp only: list.map distinct.simps set_map simp_thms)
  qed
qed

lemma image_filter_key: "x \<in> f ` set xs \<Longrightarrow> x \<noteq> i \<Longrightarrow> x \<in> f ` set (filter (\<lambda>r. f r \<noteq> i) xs)"
  by auto

text \<open>Among the rows with a property, at most one key per scope.\<close>

definition uniqueAmong :: "('r \<Rightarrow> bool) \<Rightarrow> ('r \<Rightarrow> 's) \<Rightarrow> ('r \<Rightarrow> 'k) \<Rightarrow> 'r list \<Rightarrow> bool" where
  "uniqueAmong P c k rows \<longleftrightarrow> (\<forall>r \<in> set rows. \<forall>s \<in> set rows. P r \<and> P s \<and> c r = c s \<longrightarrow> k r = k s)"

lemma uniqueAmongD:
  "uniqueAmong P c k rows \<Longrightarrow> r \<in> set rows \<Longrightarrow> s \<in> set rows \<Longrightarrow> P r \<Longrightarrow> P s \<Longrightarrow> c r = c s \<Longrightarrow> k r = k s"
  unfolding uniqueAmong_def by blast

lemma uniqueAmong_sub:
  assumes "uniqueAmong P c k rows"
    and "\<And>x. x \<in> set rows' \<Longrightarrow> P x \<Longrightarrow> \<exists>r \<in> set rows. P r \<and> c r = c x \<and> k r = k x"
  shows "uniqueAmong P c k rows'"
  unfolding uniqueAmong_def
proof (intro ballI impI)
  fix x y assume "x \<in> set rows'" "y \<in> set rows'" and P: "P x \<and> P y \<and> c x = c y"
  then obtain r s where "r \<in> set rows" "P r" "c r = c x" "k r = k x" "s \<in> set rows" "P s" "c s = c y" "k s = k y"
    using assms(2) [of x] assms(2) [of y] by blast
  then show "k x = k y" using uniqueAmongD [OF assms(1), of r s] P by simp
qed

lemma set_updateRows_iff: "x \<in> set (updateRows p f rows) \<longleftrightarrow> (\<exists>r \<in> set rows. x = (if p r then f r else r))"
  by (auto simp: updateRows_def)

lemma uniqueAmong_update:
  assumes "uniqueAmong P c k rows"
    and "\<And>r. r \<in> set rows \<Longrightarrow> p r \<Longrightarrow> P (f r) \<Longrightarrow> P r \<and> c (f r) = c r \<and> k (f r) = k r"
  shows "uniqueAmong P c k (updateRows p f rows)"
proof (rule uniqueAmong_sub [OF assms(1)])
  fix x assume "x \<in> set (updateRows p f rows)" and P: "P x"
  then obtain r where r: "r \<in> set rows" "x = (if p r then f r else r)" by (auto simp: set_updateRows_iff)
  show "\<exists>r \<in> set rows. P r \<and> c r = c x \<and> k r = k x"
  proof (cases "p r")
    case True
    then show ?thesis using r P assms(2) [OF r(1) True] by (intro bexI [OF _ r(1)]) simp
  next
    case False
    then show ?thesis using r P by auto
  qed
qed

lemma uniqueAmong_insert:
  assumes "uniqueAmong P c k rows" and "P r \<Longrightarrow> \<forall>s \<in> set rows. P s \<longrightarrow> c s \<noteq> c r"
  shows "uniqueAmong P c k (rows @ [r])"
  unfolding uniqueAmong_def
proof (intro ballI impI)
  fix x y assume xy: "x \<in> set (rows @ [r])" "y \<in> set (rows @ [r])" and P: "P x \<and> P y \<and> c x = c y"
  then consider "x \<in> set rows" "y \<in> set rows" | "x = r" "y = r" | "x = r" "y \<in> set rows" | "x \<in> set rows" "y = r"
    by auto
  then show "k x = k y"
  proof cases
    case 1
    then show ?thesis using uniqueAmongD [OF assms(1), of x y] P by blast
  qed (use assms(2) P in auto)
qed

text \<open>Primary keys drawn from a counter.\<close>

definition freshKeys :: "nat \<Rightarrow> ('r \<Rightarrow> nat) \<Rightarrow> 'r list \<Rightarrow> bool" where
  "freshKeys n k rows \<longleftrightarrow> distinct (map k rows) \<and> (\<forall>r \<in> set rows. k r \<le> n)"

lemma freshKeys_insert [simp]: "freshKeys n k rows \<Longrightarrow> k r = Suc n \<Longrightarrow> freshKeys (Suc n) k (rows @ [r])"
  by (fastforce simp: freshKeys_def)

lemma freshKeys_Suc [simp]: "freshKeys n k rows \<Longrightarrow> freshKeys (Suc n) k rows"
  by (auto simp: freshKeys_def)

lemma freshKeys_filter: "freshKeys n k rows \<Longrightarrow> freshKeys n k (filter p rows)"
  by (auto simp: freshKeys_def distinct_map_filter)

lemma freshKeys_update: "freshKeys n k rows \<Longrightarrow> (\<And>r. p r \<Longrightarrow> k (f r) = k r) \<Longrightarrow> freshKeys n k (updateRows p f rows)"
  by (auto simp: freshKeys_def distinct_updateRows_key) (auto simp: updateRows_def)

lemma distinct_insert: "distinct (map c rows) \<Longrightarrow> c r \<notin> c ` set rows \<Longrightarrow> distinct (map c (rows @ [r]))"
  by simp

end
