(* ===== verification/System_Store.thy ===== *)
theory System_Store
  imports Auth_Context Table_Rows
begin

text \<open>
  The tables of the system service (\<^verbatim>\<open>system/internal/model\<close>) and their data access
  objects (\<^verbatim>\<open>system/internal/dao/menu.go\<close>, \<^verbatim>\<open>role.go\<close>, \<^verbatim>\<open>user.go\<close>,
  \<^verbatim>\<open>operation_log.go\<close>).

  A table is the list of its rows in insertion order.  Each gorm call is one statement of
  \<^const>\<open>stmtA\<close> or \<^const>\<open>queryA\<close> on the record of all tables; a query with an
  \<^verbatim>\<open>ORDER BY\<close> is a stable sort of the matching rows, \<^verbatim>\<open>First\<close> takes the row
  with the least primary key.  The primary keys and unique indexes declared in the struct tags
  are checked on every insert and update, with SQLite's error text.  gorm replaces the zero
  value of a column with a \<^verbatim>\<open>default:\<close> tag by that default on \<^verbatim>\<open>Create\<close>.
\<close>

named_theorems sys_simps \<open>evaluation of the statements of the system store\<close>

subsection \<open>Rows\<close>

record menu =
  mID :: gostr
  mParentID :: gostr
  mModule :: gostr
  mPlacement :: gostr
  mName :: gostr
  mCode :: gostr
  mViewKey :: gostr
  mIcon :: gostr
  mMenuType :: int
  mSort :: int
  mStatus :: int
  mVisible :: int
  mIsDefault :: bool
  mRemark :: gostr
  mSourceType :: gostr
  mSourceID :: gostr
  mCreatedAt :: int
  mUpdatedAt :: int

definition MenuTypeDirectory :: int where "MenuTypeDirectory = 1"
definition MenuTypeMenu :: int where "MenuTypeMenu = 2"
definition MenuTypeButton :: int where "MenuTypeButton = 3"
definition MenuStatusEnabled :: int where "MenuStatusEnabled = 1"
definition MenuStatusDisabled :: int where "MenuStatusDisabled = 2"
definition MenuVisibleYes :: int where "MenuVisibleYes = 1"
definition MenuVisibleNo :: int where "MenuVisibleNo = 0"
definition MenuPlacementPlatform :: gostr where "MenuPlacementPlatform = ''platform''"
definition MenuPlacementModuleNav :: gostr where "MenuPlacementModuleNav = ''module_nav''"
definition MenuModuleFuncOperation :: gostr where "MenuModuleFuncOperation = ''func-operation''"
definition MenuSourceTypeStatic :: gostr where "MenuSourceTypeStatic = ''static''"
definition MenuSourceTypeGeneratedFunction :: gostr where
  "MenuSourceTypeGeneratedFunction = ''generated_function''"
definition FuncUseMenuCode :: gostr where "FuncUseMenuCode = ''func-operation.use''"

lemmas menu_consts = MenuTypeDirectory_def MenuTypeMenu_def MenuTypeButton_def
  MenuStatusEnabled_def MenuStatusDisabled_def MenuVisibleYes_def MenuVisibleNo_def
  MenuPlacementPlatform_def MenuPlacementModuleNav_def MenuModuleFuncOperation_def
  MenuSourceTypeStatic_def MenuSourceTypeGeneratedFunction_def FuncUseMenuCode_def

record role =
  rlID :: gostr
  rlName :: gostr
  rlCode :: gostr
  rlStatus :: int
  rlRemark :: gostr
  rlSort :: int
  rlCreatedAt :: int
  rlUpdatedAt :: int

definition RoleStatusEnabled :: int where "RoleStatusEnabled = 1"
definition RoleStatusDisabled :: int where "RoleStatusDisabled = 2"
definition RoleCodeAdmin :: gostr where "RoleCodeAdmin = ''admin''"

record user =
  usID :: gostr
  usUsername :: gostr
  usEmail :: gostr
  usPhone :: gostr
  usPasswordHash :: gostr
  usStatus :: int
  usCreatedAt :: int
  usUpdatedAt :: int

definition UserStatusEnabled :: int where "UserStatusEnabled = 1"
definition UserStatusDisabled :: int where "UserStatusDisabled = 2"

record userRole =
  urUserID :: gostr
  urRoleID :: gostr
  urCreatedAt :: int

record roleMenu =
  rmRoleID :: gostr
  rmMenuID :: gostr
  rmCreatedAt :: int

text \<open>
  The audit snapshots the services attach to an operation log row.  The code stores their JSON
  text; the model keeps the snapshot itself (\<open>AuditNone\<close> is the empty string,
  \<open>AuditEmptyObject\<close> the text \<^verbatim>\<open>{}\<close>).
\<close>

record menuAudit =
  maParentID :: gostr
  maModule :: gostr
  maPlacement :: gostr
  maName :: gostr
  maCode :: gostr
  maViewKey :: gostr
  maMenuType :: int
  maSort :: int
  maStatus :: int
  maVisible :: int
  maIsDefault :: bool
  maRemark :: gostr

record roleAudit =
  raName :: gostr
  raCode :: gostr
  raStatus :: int
  raRemark :: gostr
  raSort :: int
  raMenus :: "(gostr \<times> gostr \<times> int \<times> gostr \<times> gostr) list"

record userAudit =
  uaUsername :: gostr
  uaEmail :: gostr
  uaPhone :: gostr
  uaStatus :: int
  uaRoles :: "(gostr \<times> gostr \<times> gostr) list"

datatype audit =
    AuditNone
  | AuditEmptyObject
  | AuditMenu menuAudit
  | AuditRole roleAudit
  | AuditUser userAudit

record opLog =
  olID :: gostr
  olModule :: gostr
  olAction :: gostr
  olActionLabel :: gostr
  olResourceType :: gostr
  olResourceID :: gostr
  olResourceName :: gostr
  olOperatorID :: gostr
  olOperatorName :: gostr
  olSummary :: gostr
  olBefore :: audit
  olAfter :: audit
  olCreatedAt :: int

record sysdb =
  sysMenus :: "menu list"
  sysRoles :: "role list"
  sysUsers :: "user list"
  sysUserRoles :: "userRole list"
  sysRoleMenus :: "roleMenu list"
  sysLogs :: "opLog list"

definition emptySysdb :: sysdb where
  "emptySysdb = \<lparr>sysMenus = [], sysRoles = [], sysUsers = [], sysUserRoles = [],
                sysRoleMenus = [], sysLogs = []\<rparr>"

type_synonym 'a sysact = "(sysdb, 'a) act"

subsection \<open>Menus: dao/menu.go\<close>

record menuFilter =
  mfModule :: gostr
  mfPlacement :: gostr
  mfStatus :: int

definition noMenuFilter :: menuFilter where
  "noMenuFilter = \<lparr>mfModule = [], mfPlacement = [], mfStatus = 0\<rparr>"

definition menuMatches :: "menuFilter \<Rightarrow> menu \<Rightarrow> bool" where
  "menuMatches flt m \<longleftrightarrow>
     (mfModule flt \<noteq> [] \<longrightarrow> mModule m = mfModule flt) \<and>
     (mfPlacement flt \<noteq> [] \<longrightarrow> mPlacement m = mfPlacement flt) \<and>
     (0 < mfStatus flt \<longrightarrow> mStatus m = mfStatus flt)"

definition orderMenus :: "menu list \<Rightarrow> menu list" where
  "orderMenus ms = sort_key (\<lambda>m. (mSort m, mCreatedAt m)) ms"

definition Menu_List :: "menuFilter \<Rightarrow> menu list sysact" where
  "Menu_List flt = queryA (\<lambda>d. Inr (orderMenus (filter (menuMatches flt) (sysMenus d))))"

definition Menu_Count :: "int sysact" where
  "Menu_Count = queryA (\<lambda>d. Inr (int (length (sysMenus d))))"

text \<open>The \<^verbatim>\<open>default:\<close> tags of \<^verbatim>\<open>model.Menu\<close> with a non-zero default.\<close>

definition menuDefaults :: "menu \<Rightarrow> menu" where
  "menuDefaults m = m
     \<lparr>mMenuType := (if mMenuType m = 0 then 2 else mMenuType m),
      mStatus := (if mStatus m = 0 then 1 else mStatus m),
      mVisible := (if mVisible m = 0 then 1 else mVisible m),
      mSourceType := (if mSourceType m = [] then ''static'' else mSourceType m)\<rparr>"

definition insertMenu :: "menu \<Rightarrow> sysdb \<Rightarrow> err + (unit \<times> sysdb)" where
  "insertMenu m d =
     (if mID m \<in> mID ` set (sysMenus d) then Inl (uniqueViolation ''sys_menus.id'')
      else if mCode m \<in> mCode ` set (sysMenus d) then Inl (uniqueViolation ''sys_menus.code'')
      else Inr ((), d\<lparr>sysMenus := sysMenus d @ [menuDefaults m]\<rparr>))"

definition Menu_Create :: "menu \<Rightarrow> unit sysact" where
  "Menu_Create m = stmtA (insertMenu m)"

definition Menu_Get :: "gostr \<Rightarrow> menu sysact" where
  "Menu_Get i = queryA (\<lambda>d. firstRow mID (\<lambda>m. mID m = i) (sysMenus d))"

definition Menu_GetByCode :: "gostr \<Rightarrow> menu sysact" where
  "Menu_GetByCode code = queryA (\<lambda>d. firstRow mID (\<lambda>m. mCode m = code) (sysMenus d))"

definition Menu_GetBySourceID :: "gostr \<Rightarrow> gostr \<Rightarrow> menu sysact" where
  "Menu_GetBySourceID sourceType sourceID =
     queryA (\<lambda>d. firstRow mID (\<lambda>m. mSourceType m = sourceType \<and> mSourceID m = sourceID) (sysMenus d))"

definition Menu_GetBySourceIDAndMenuType :: "gostr \<Rightarrow> gostr \<Rightarrow> int \<Rightarrow> menu sysact" where
  "Menu_GetBySourceIDAndMenuType sourceType sourceID menuType =
     queryA (\<lambda>d. firstRow mID
       (\<lambda>m. mSourceType m = sourceType \<and> mSourceID m = sourceID \<and> mMenuType m = menuType)
       (sysMenus d))"

definition Menu_ListBySourceType :: "gostr \<Rightarrow> menu list sysact" where
  "Menu_ListBySourceType sourceType =
     queryA (\<lambda>d. Inr (orderMenus (filter (\<lambda>m. mSourceType m = sourceType) (sysMenus d))))"

definition deleteMenuRow :: "gostr \<Rightarrow> sysdb \<Rightarrow> err + (unit \<times> sysdb)" where
  "deleteMenuRow i d =
     (if i \<notin> mID ` set (sysMenus d) then Inl RecordNotFound
      else Inr ((), d\<lparr>sysMenus := filter (\<lambda>m. mID m \<noteq> i) (sysMenus d)\<rparr>))"

definition Menu_Delete :: "gostr \<Rightarrow> unit sysact" where
  "Menu_Delete i = transactionA (
     bindA (stmtA (\<lambda>d. Inr ((), d\<lparr>sysRoleMenus := filter (\<lambda>g. rmMenuID g \<noteq> i) (sysRoleMenus d)\<rparr>))) (\<lambda>_.
     stmtA (deleteMenuRow i)))"

definition Menu_CountChildren :: "gostr \<Rightarrow> int sysact" where
  "Menu_CountChildren parentID =
     queryA (\<lambda>d. Inr (int (length (filter (\<lambda>m. mParentID m = parentID) (sysMenus d)))))"

definition Menu_MaxSort :: "gostr \<Rightarrow> gostr \<Rightarrow> gostr \<Rightarrow> int sysact" where
  "Menu_MaxSort parentID module placement = queryA (\<lambda>d.
     Inr (let ss = map mSort (filter (\<lambda>m. mParentID m = parentID \<and> mModule m = module \<and>
                                          mPlacement m = placement) (sysMenus d)) in
          case ss of [] \<Rightarrow> 0 | s # rest \<Rightarrow> foldl max s rest))"

text \<open>\<^verbatim>\<open>Updates\<close> with every column but the key and the creation time.\<close>

definition updateMenuRow :: "menu \<Rightarrow> sysdb \<Rightarrow> err + (unit \<times> sysdb)" where
  "updateMenuRow m d =
     (if (\<exists>o' \<in> set (sysMenus d). mID o' = mID m) \<and>
         (\<exists>o' \<in> set (sysMenus d). mID o' \<noteq> mID m \<and> mCode o' = mCode m)
      then Inl (uniqueViolation ''sys_menus.code'')
      else Inr ((), d\<lparr>sysMenus :=
        updateRows (\<lambda>o'. mID o' = mID m) (\<lambda>o'. m\<lparr>mCreatedAt := mCreatedAt o'\<rparr>) (sysMenus d)\<rparr>))"

definition Menu_Update :: "menu \<Rightarrow> unit sysact" where
  "Menu_Update m = stmtA (updateMenuRow m)"

definition Menu_UpdateStatus :: "gostr \<Rightarrow> int \<Rightarrow> int \<Rightarrow> unit sysact" where
  "Menu_UpdateStatus i status updatedAt = stmtA (\<lambda>d.
     if i \<notin> mID ` set (sysMenus d) then Inl RecordNotFound
     else Inr ((), d\<lparr>sysMenus :=
       updateRows (\<lambda>m. mID m = i) (\<lambda>m. m\<lparr>mStatus := status, mUpdatedAt := updatedAt\<rparr>) (sysMenus d)\<rparr>))"

text \<open>
  \<^verbatim>\<open>ReassignID\<close> moves the grants of a legacy row to the stable identifier, then renames
  the row.
\<close>

definition moveGrant :: "gostr \<Rightarrow> gostr \<Rightarrow> roleMenu \<Rightarrow> unit sysact" where
  "moveGrant oldID newID grant =
     bindA (queryA (\<lambda>d. Inr (length (filter (\<lambda>g. rmRoleID g = rmRoleID grant \<and> rmMenuID g = newID)
                                       (sysRoleMenus d))))) (\<lambda>existingCount.
     bindA (if existingCount = 0
            then stmtA (\<lambda>d. Inr ((), d\<lparr>sysRoleMenus := sysRoleMenus d @ [grant\<lparr>rmMenuID := newID\<rparr>]\<rparr>))
            else retA ()) (\<lambda>_.
     stmtA (\<lambda>d. Inr ((), d\<lparr>sysRoleMenus :=
       filter (\<lambda>g. \<not> (rmRoleID g = rmRoleID grant \<and> rmMenuID g = oldID)) (sysRoleMenus d)\<rparr>))))"

definition Menu_ReassignID :: "gostr \<Rightarrow> gostr \<Rightarrow> unit sysact" where
  "Menu_ReassignID oldID newID =
     (if oldID = newID then retA ()
      else transactionA (
        bindA (queryA (\<lambda>d. Inr (length (filter (\<lambda>m. mID m = newID) (sysMenus d))))) (\<lambda>targetCount.
        if 0 < targetCount then failA (Err ''cannot reassign menu ID: target already exists'')
        else
        bindA (queryA (\<lambda>d. Inr (filter (\<lambda>g. rmMenuID g = oldID) (sysRoleMenus d)))) (\<lambda>grants.
        bindA (forA grants (moveGrant oldID newID)) (\<lambda>_.
        stmtA (\<lambda>d. if oldID \<notin> mID ` set (sysMenus d) then Inl RecordNotFound
                   else Inr ((), d\<lparr>sysMenus :=
                     updateRows (\<lambda>m. mID m = oldID) (\<lambda>m. m\<lparr>mID := newID\<rparr>) (sysMenus d)\<rparr>)))))))"

end
