(* ===== verification/System_Dao.thy ===== *)
theory System_Dao
  imports System_Store
begin

text \<open>
  The data access objects for roles, users and operation logs
  (\<^verbatim>\<open>system/internal/dao/role.go\<close>, \<^verbatim>\<open>user.go\<close>, \<^verbatim>\<open>operation_log.go\<close>), and
  the well-formedness invariant \<open>sys_ok\<close> of the system tables: keys and unique columns have
  no duplicates, and every row of the two join tables points to existing rows (the database
  declares no foreign keys, so this part is kept by the code alone).
\<close>

subsection \<open>Roles: dao/role.go\<close>

definition orderRoles :: "role list \<Rightarrow> role list" where
  "orderRoles rs = sort_key (\<lambda>r. (rlSort r, rlCreatedAt r)) rs"

definition Role_List :: "role list sysact" where
  "Role_List = queryA (\<lambda>d. Inr (orderRoles (sysRoles d)))"

definition insertRole :: "role \<Rightarrow> sysdb \<Rightarrow> err + (unit \<times> sysdb)" where
  "insertRole r d =
     (if rlID r \<in> rlID ` set (sysRoles d) then Inl (uniqueViolation ''sys_roles.id'')
      else if rlCode r \<in> rlCode ` set (sysRoles d) then Inl (uniqueViolation ''sys_roles.code'')
      else Inr ((), d\<lparr>sysRoles := sysRoles d @
             [r\<lparr>rlStatus := (if rlStatus r = 0 then 1 else rlStatus r)\<rparr>]\<rparr>))"

definition Role_Create :: "role \<Rightarrow> unit sysact" where
  "Role_Create r = stmtA (insertRole r)"

definition Role_Get :: "gostr \<Rightarrow> role sysact" where
  "Role_Get i = queryA (\<lambda>d. firstRow rlID (\<lambda>r. rlID r = i) (sysRoles d))"

definition Role_GetByCode :: "gostr \<Rightarrow> role sysact" where
  "Role_GetByCode code = queryA (\<lambda>d. firstRow rlID (\<lambda>r. rlCode r = code) (sysRoles d))"

definition updateRoleRow :: "role \<Rightarrow> sysdb \<Rightarrow> err + (unit \<times> sysdb)" where
  "updateRoleRow r d =
     (if (\<exists>o' \<in> set (sysRoles d). rlID o' = rlID r) \<and>
         (\<exists>o' \<in> set (sysRoles d). rlID o' \<noteq> rlID r \<and> rlCode o' = rlCode r)
      then Inl (uniqueViolation ''sys_roles.code'')
      else Inr ((), d\<lparr>sysRoles :=
        updateRows (\<lambda>o'. rlID o' = rlID r) (\<lambda>o'. r\<lparr>rlCreatedAt := rlCreatedAt o'\<rparr>) (sysRoles d)\<rparr>))"

definition Role_Update :: "role \<Rightarrow> unit sysact" where
  "Role_Update r = stmtA (updateRoleRow r)"

definition deleteRoleRow :: "gostr \<Rightarrow> sysdb \<Rightarrow> err + (unit \<times> sysdb)" where
  "deleteRoleRow i d =
     (if i \<notin> rlID ` set (sysRoles d) then Inl RecordNotFound
      else Inr ((), d\<lparr>sysRoles := filter (\<lambda>r. rlID r \<noteq> i) (sysRoles d)\<rparr>))"

definition Role_Delete :: "gostr \<Rightarrow> unit sysact" where
  "Role_Delete i = transactionA (
     bindA (stmtA (\<lambda>d. Inr ((), d\<lparr>sysUserRoles := filter (\<lambda>u. urRoleID u \<noteq> i) (sysUserRoles d)\<rparr>))) (\<lambda>_.
     bindA (stmtA (\<lambda>d. Inr ((), d\<lparr>sysRoleMenus := filter (\<lambda>g. rmRoleID g \<noteq> i) (sysRoleMenus d)\<rparr>))) (\<lambda>_.
     stmtA (deleteRoleRow i))))"

definition Role_UpdateStatus :: "gostr \<Rightarrow> int \<Rightarrow> int \<Rightarrow> unit sysact" where
  "Role_UpdateStatus i status updatedAt = stmtA (\<lambda>d.
     if i \<notin> rlID ` set (sysRoles d) then Inl RecordNotFound
     else Inr ((), d\<lparr>sysRoles :=
       updateRows (\<lambda>r. rlID r = i) (\<lambda>r. r\<lparr>rlStatus := status, rlUpdatedAt := updatedAt\<rparr>) (sysRoles d)\<rparr>))"

definition menuIDsByRole :: "gostr \<Rightarrow> sysdb \<Rightarrow> gostr list" where
  "menuIDsByRole roleID d =
     map rmMenuID (filter (\<lambda>g. rmRoleID g = roleID \<and> rmMenuID g \<in> mID ` set (sysMenus d)) (sysRoleMenus d))"

definition Role_ListMenuIDsByRole :: "gostr \<Rightarrow> gostr list sysact" where
  "Role_ListMenuIDsByRole roleID = queryA (\<lambda>d. Inr (menuIDsByRole roleID d))"

definition Role_ListMenusByRole :: "gostr \<Rightarrow> menu list sysact" where
  "Role_ListMenusByRole roleID = queryA (\<lambda>d.
     Inr (orderMenus (filter (\<lambda>m. \<exists>g \<in> set (sysRoleMenus d). rmMenuID g = mID m \<and> rmRoleID g = roleID)
                      (sysMenus d))))"

definition grantKey :: "roleMenu \<Rightarrow> gostr \<times> gostr" where
  "grantKey g = (rmRoleID g, rmMenuID g)"

definition insertRoleMenus :: "roleMenu list \<Rightarrow> sysdb \<Rightarrow> err + (unit \<times> sysdb)" where
  "insertRoleMenus rows d =
     (if distinct (map grantKey rows) \<and> grantKey ` set rows \<inter> grantKey ` set (sysRoleMenus d) = {}
      then Inr ((), d\<lparr>sysRoleMenus := sysRoleMenus d @ rows\<rparr>)
      else Inl (uniqueViolation ''sys_role_menus.role_id, sys_role_menus.menu_id''))"

definition Role_SetRoleMenus :: "gostr \<Rightarrow> gostr list \<Rightarrow> int \<Rightarrow> unit sysact" where
  "Role_SetRoleMenus roleID menuIDs createdAt = transactionA (
     bindA (stmtA (\<lambda>d. Inr ((), d\<lparr>sysRoleMenus := filter (\<lambda>g. rmRoleID g \<noteq> roleID) (sysRoleMenus d)\<rparr>))) (\<lambda>_.
     if menuIDs = [] then retA ()
     else stmtA (insertRoleMenus
            (map (\<lambda>menuID. \<lparr>rmRoleID = roleID, rmMenuID = menuID, rmCreatedAt = createdAt\<rparr>) menuIDs))))"

definition Role_GrantRoleMenus :: "gostr \<Rightarrow> gostr list \<Rightarrow> int \<Rightarrow> unit sysact" where
  "Role_GrantRoleMenus roleID menuIDs createdAt =
     (let roleID = trimSpace roleID in
      if roleID = [] then retA ()
      else
        let rows = map (\<lambda>menuID. \<lparr>rmRoleID = roleID, rmMenuID = menuID, rmCreatedAt = createdAt\<rparr>)
                     (dedupTrim [] menuIDs) in
        if rows = [] then retA ()
        else stmtA (\<lambda>d. Inr ((), d\<lparr>sysRoleMenus := sysRoleMenus d @
               filter (\<lambda>g. grantKey g \<notin> grantKey ` set (sysRoleMenus d)) rows\<rparr>)))"

text \<open>The menus granted to a user through an enabled role.\<close>

definition menuIDsByUser :: "gostr \<Rightarrow> sysdb \<Rightarrow> gostr list" where
  "menuIDsByUser userID d =
     remdups (map rmMenuID (filter (\<lambda>g.
       \<exists>ur \<in> set (sysUserRoles d). urUserID ur = userID \<and> urRoleID ur = rmRoleID g \<and>
         (\<exists>r \<in> set (sysRoles d). rlID r = urRoleID ur \<and> rlStatus r = RoleStatusEnabled))
       (sysRoleMenus d)))"

definition Role_ListMenuIDsByUser :: "gostr \<Rightarrow> gostr list sysact" where
  "Role_ListMenuIDsByUser userID = queryA (\<lambda>d. Inr (menuIDsByUser userID d))"

definition Role_ListRoleIDsByUser :: "gostr \<Rightarrow> gostr list sysact" where
  "Role_ListRoleIDsByUser userID =
     queryA (\<lambda>d. Inr (map urRoleID (filter (\<lambda>u. urUserID u = userID) (sysUserRoles d))))"

definition rolesByUser :: "gostr \<Rightarrow> sysdb \<Rightarrow> role list" where
  "rolesByUser userID d =
     orderRoles (filter (\<lambda>r. \<exists>u \<in> set (sysUserRoles d). urRoleID u = rlID r \<and> urUserID u = userID) (sysRoles d))"

definition Role_ListRolesByUser :: "gostr \<Rightarrow> role list sysact" where
  "Role_ListRolesByUser userID = queryA (\<lambda>d. Inr (rolesByUser userID d))"

definition membershipKey :: "userRole \<Rightarrow> gostr \<times> gostr" where
  "membershipKey u = (urUserID u, urRoleID u)"

definition insertUserRoles :: "userRole list \<Rightarrow> sysdb \<Rightarrow> err + (unit \<times> sysdb)" where
  "insertUserRoles rows d =
     (if distinct (map membershipKey rows) \<and>
         membershipKey ` set rows \<inter> membershipKey ` set (sysUserRoles d) = {}
      then Inr ((), d\<lparr>sysUserRoles := sysUserRoles d @ rows\<rparr>)
      else Inl (uniqueViolation ''sys_user_roles.user_id, sys_user_roles.role_id''))"

definition Role_SetUserRoles :: "gostr \<Rightarrow> gostr list \<Rightarrow> int \<Rightarrow> unit sysact" where
  "Role_SetUserRoles userID roleIDs createdAt = transactionA (
     bindA (stmtA (\<lambda>d. Inr ((), d\<lparr>sysUserRoles := filter (\<lambda>u. urUserID u \<noteq> userID) (sysUserRoles d)\<rparr>))) (\<lambda>_.
     if roleIDs = [] then retA ()
     else stmtA (insertUserRoles
            (map (\<lambda>roleID. \<lparr>urUserID = userID, urRoleID = roleID, urCreatedAt = createdAt\<rparr>) roleIDs))))"

text \<open>\<^verbatim>\<open>ListRoleIDsByUsers\<close>: one query, grouped by user; absent users have no roles.\<close>

definition Role_ListRoleIDsByUsers :: "gostr list \<Rightarrow> (gostr \<Rightarrow> gostr list) sysact" where
  "Role_ListRoleIDsByUsers userIDs =
     (if userIDs = [] then retA (\<lambda>_. [])
      else queryA (\<lambda>d. Inr (\<lambda>uid. map urRoleID
             (filter (\<lambda>u. urUserID u = uid \<and> urUserID u \<in> set userIDs) (sysUserRoles d)))))"

subsection \<open>Users: dao/user.go\<close>

definition User_List :: "user list sysact" where
  "User_List = queryA (\<lambda>d. Inr (sort_key (\<lambda>u. - usCreatedAt u) (sysUsers d)))"

definition insertUser :: "user \<Rightarrow> sysdb \<Rightarrow> err + (unit \<times> sysdb)" where
  "insertUser u d =
     (if usID u \<in> usID ` set (sysUsers d) then Inl (uniqueViolation ''sys_users.id'')
      else if usUsername u \<in> usUsername ` set (sysUsers d) then Inl (uniqueViolation ''sys_users.username'')
      else if usEmail u \<in> usEmail ` set (sysUsers d) then Inl (uniqueViolation ''sys_users.email'')
      else Inr ((), d\<lparr>sysUsers := sysUsers d @
             [u\<lparr>usStatus := (if usStatus u = 0 then 1 else usStatus u)\<rparr>]\<rparr>))"

definition User_Create :: "user \<Rightarrow> unit sysact" where
  "User_Create u = stmtA (insertUser u)"

definition User_GetByUsername :: "gostr \<Rightarrow> user sysact" where
  "User_GetByUsername name = queryA (\<lambda>d. firstRow usID (\<lambda>u. usUsername u = name) (sysUsers d))"

definition User_Get :: "gostr \<Rightarrow> user sysact" where
  "User_Get i = queryA (\<lambda>d. firstRow usID (\<lambda>u. usID u = i) (sysUsers d))"

definition deleteUserRow :: "gostr \<Rightarrow> sysdb \<Rightarrow> err + (unit \<times> sysdb)" where
  "deleteUserRow i d =
     (if i \<notin> usID ` set (sysUsers d) then Inl RecordNotFound
      else Inr ((), d\<lparr>sysUsers := filter (\<lambda>u. usID u \<noteq> i) (sysUsers d)\<rparr>))"

definition User_Delete :: "gostr \<Rightarrow> unit sysact" where
  "User_Delete i = transactionA (
     bindA (stmtA (\<lambda>d. Inr ((), d\<lparr>sysUserRoles := filter (\<lambda>u. urUserID u \<noteq> i) (sysUserRoles d)\<rparr>))) (\<lambda>_.
     stmtA (deleteUserRow i)))"

definition updateUserRow :: "user \<Rightarrow> sysdb \<Rightarrow> err + (unit \<times> sysdb)" where
  "updateUserRow u d =
     (if usID u \<notin> usID ` set (sysUsers d) then Inr ((), d)
      else if \<exists>o' \<in> set (sysUsers d). usID o' \<noteq> usID u \<and> usUsername o' = usUsername u
      then Inl (uniqueViolation ''sys_users.username'')
      else if \<exists>o' \<in> set (sysUsers d). usID o' \<noteq> usID u \<and> usEmail o' = usEmail u
      then Inl (uniqueViolation ''sys_users.email'')
      else Inr ((), d\<lparr>sysUsers :=
        updateRows (\<lambda>o'. usID o' = usID u) (\<lambda>o'. u\<lparr>usCreatedAt := usCreatedAt o'\<rparr>) (sysUsers d)\<rparr>))"

definition User_Update :: "user \<Rightarrow> unit sysact" where
  "User_Update u = stmtA (updateUserRow u)"

definition User_UpdateStatus :: "gostr \<Rightarrow> int \<Rightarrow> int \<Rightarrow> unit sysact" where
  "User_UpdateStatus i status updatedAt = stmtA (\<lambda>d.
     if i \<notin> usID ` set (sysUsers d) then Inl RecordNotFound
     else Inr ((), d\<lparr>sysUsers :=
       updateRows (\<lambda>u. usID u = i) (\<lambda>u. u\<lparr>usStatus := status, usUpdatedAt := updatedAt\<rparr>) (sysUsers d)\<rparr>))"

subsection \<open>Operation logs: dao/operation\_log.go\<close>

definition OperationLog_Create :: "opLog \<Rightarrow> unit sysact" where
  "OperationLog_Create l = stmtA (\<lambda>d.
     if olID l \<in> olID ` set (sysLogs d) then Inl (uniqueViolation ''sys_operation_logs.id'')
     else Inr ((), d\<lparr>sysLogs := sysLogs d @ [l]\<rparr>))"

subsection \<open>The invariant of the tables\<close>

definition menus_ok :: "sysdb \<Rightarrow> bool" where
  "menus_ok d \<longleftrightarrow> distinct (map mID (sysMenus d)) \<and> distinct (map mCode (sysMenus d))"

definition roles_ok :: "sysdb \<Rightarrow> bool" where
  "roles_ok d \<longleftrightarrow> distinct (map rlID (sysRoles d)) \<and> distinct (map rlCode (sysRoles d))"

definition users_ok :: "sysdb \<Rightarrow> bool" where
  "users_ok d \<longleftrightarrow> distinct (map usID (sysUsers d)) \<and> distinct (map usUsername (sysUsers d)) \<and>
     distinct (map usEmail (sysUsers d))"

definition memberships_ok :: "sysdb \<Rightarrow> bool" where
  "memberships_ok d \<longleftrightarrow> distinct (map membershipKey (sysUserRoles d)) \<and>
     (\<forall>u \<in> set (sysUserRoles d). urUserID u \<in> usID ` set (sysUsers d) \<and> urRoleID u \<in> rlID ` set (sysRoles d))"

definition grants_ok :: "sysdb \<Rightarrow> bool" where
  "grants_ok d \<longleftrightarrow> distinct (map grantKey (sysRoleMenus d)) \<and>
     (\<forall>g \<in> set (sysRoleMenus d). rmRoleID g \<in> rlID ` set (sysRoles d) \<and> rmMenuID g \<in> mID ` set (sysMenus d))"

definition logs_ok :: "sysdb \<Rightarrow> bool" where
  "logs_ok d \<longleftrightarrow> distinct (map olID (sysLogs d))"

text \<open>Identifiers have no space at their ends: the handlers trim the identifiers they get.\<close>

definition okIDs :: "gostr set \<Rightarrow> bool" where
  "okIDs A \<longleftrightarrow> (\<forall>i \<in> A. okID i)"

lemma okIDs_simps [simp]: "okIDs {}" "okIDs (insert i A) \<longleftrightarrow> okID i \<and> okIDs A" "okIDs (A \<union> B) \<longleftrightarrow> okIDs A \<and> okIDs B"
  by (auto simp: okIDs_def)

lemma okIDs_filter [simp, intro]: "okIDs (f ` set xs) \<Longrightarrow> okIDs (f ` {x \<in> set xs. p x})"
  "okIDs (f ` set xs) \<Longrightarrow> okIDs (f ` set (filter p xs))"
  by (auto simp: okIDs_def)

lemma okIDs_D: "okIDs A \<Longrightarrow> i \<in> A \<Longrightarrow> okID i"
  by (simp add: okIDs_def)

definition ids_ok :: "sysdb \<Rightarrow> bool" where
  "ids_ok d \<longleftrightarrow> okIDs (mID ` set (sysMenus d)) \<and> okIDs (rlID ` set (sysRoles d)) \<and>
     okIDs (usID ` set (sysUsers d))"

definition sys_ok :: "sysdb \<Rightarrow> bool" where
  "sys_ok d \<longleftrightarrow> ids_ok d \<and> menus_ok d \<and> roles_ok d \<and> users_ok d \<and> memberships_ok d \<and> grants_ok d \<and> logs_ok d"

lemmas sys_ok_defs = sys_ok_def ids_ok_def menus_ok_def roles_ok_def users_ok_def memberships_ok_def
  grants_ok_def logs_ok_def

lemma sys_ok_empty: "sys_ok emptySysdb"
  by (simp add: sys_ok_defs emptySysdb_def)

named_theorems sys_keeps \<open>the statements of the system store keep the invariant\<close>

lemma readonly_menus [act_frame, simp]:
  "readonly (Menu_List flt)" "readonly Menu_Count" "readonly (Menu_Get i)"
  "readonly (Menu_GetByCode c)" "readonly (Menu_GetBySourceID s t)"
  "readonly (Menu_GetBySourceIDAndMenuType s t n)" "readonly (Menu_ListBySourceType s)"
  "readonly (Menu_CountChildren i)" "readonly (Menu_MaxSort i a b)"
  by (simp_all add: Menu_List_def Menu_Count_def Menu_Get_def Menu_GetByCode_def
      Menu_GetBySourceID_def Menu_GetBySourceIDAndMenuType_def Menu_ListBySourceType_def
      Menu_CountChildren_def Menu_MaxSort_def)

lemma readonly_roles [act_frame, simp]:
  "readonly Role_List" "readonly (Role_Get i)" "readonly (Role_GetByCode c)"
  "readonly (Role_ListMenuIDsByRole i)" "readonly (Role_ListMenusByRole i)"
  "readonly (Role_ListMenuIDsByUser i)" "readonly (Role_ListRoleIDsByUser i)"
  "readonly (Role_ListRolesByUser i)" "readonly (Role_ListRoleIDsByUsers is)"
  by (simp_all add: Role_List_def Role_Get_def Role_GetByCode_def Role_ListMenuIDsByRole_def
      Role_ListMenusByRole_def Role_ListMenuIDsByUser_def Role_ListRoleIDsByUser_def
      Role_ListRolesByUser_def Role_ListRoleIDsByUsers_def)

lemma readonly_users [act_frame, simp]:
  "readonly User_List" "readonly (User_Get i)" "readonly (User_GetByUsername n)"
  by (simp_all add: User_List_def User_Get_def User_GetByUsername_def)

lemma sys_ok_filterGrants: "sys_ok d \<Longrightarrow> sys_ok (d\<lparr>sysRoleMenus := filter p (sysRoleMenus d)\<rparr>)"
  by (auto simp: sys_ok_defs distinct_map_filter)

lemma sys_ok_filterMemberships: "sys_ok d \<Longrightarrow> sys_ok (d\<lparr>sysUserRoles := filter p (sysUserRoles d)\<rparr>)"
  by (auto simp: sys_ok_defs distinct_map_filter)

lemmas sys_ok_filters = sys_ok_filterGrants sys_ok_filterMemberships

lemma menuDefaults_key [simp]: "mID (menuDefaults m) = mID m" "mCode (menuDefaults m) = mCode m"
  by (simp_all add: menuDefaults_def)

lemma insertMenu_ok: "okID (mID m) \<Longrightarrow> sys_ok d \<Longrightarrow> insertMenu m d = Inr (u, d') \<Longrightarrow> sys_ok d'"
  by (auto simp: insertMenu_def sys_ok_defs split: if_splits)

lemma updateMenuRow_ok: "sys_ok d \<Longrightarrow> updateMenuRow m d = Inr (u, d') \<Longrightarrow> sys_ok d'"
proof -
  assume ok: "sys_ok d" and "updateMenuRow m d = Inr (u, d')"
  then have d': "d' = d\<lparr>sysMenus := updateRows (\<lambda>o'. mID o' = mID m)
      (\<lambda>o'. m\<lparr>mCreatedAt := mCreatedAt o'\<rparr>) (sysMenus d)\<rparr>"
    and free: "(\<exists>o' \<in> set (sysMenus d). mID o' = mID m) \<longrightarrow>
      (\<forall>o' \<in> set (sysMenus d). mID o' \<noteq> mID m \<longrightarrow> mCode o' \<noteq> mCode m)"
    by (auto simp: updateMenuRow_def split: if_splits)
  let ?rows = "updateRows (\<lambda>o'. mID o' = mID m) (\<lambda>o'. m\<lparr>mCreatedAt := mCreatedAt o'\<rparr>) (sysMenus d)"
  have ids: "distinct (map mID ?rows)" "mID ` set ?rows = mID ` set (sysMenus d)"
    using ok by (auto simp: sys_ok_defs set_updateRows_key intro!: distinct_updateRows_key)
  have "distinct (map mCode ?rows)"
  proof (cases "\<exists>o' \<in> set (sysMenus d). mID o' = mID m")
    case True
    with ok free show ?thesis
      by (intro distinct_updateRows_col [where v = "mCode m"]) (auto simp: sys_ok_defs)
  next
    case False
    then have "?rows = sysMenus d" by (auto simp: updateRows_def intro: map_idI)
    then show ?thesis using ok by (simp add: sys_ok_defs)
  qed
  with ids ok show ?thesis by (simp add: d' sys_ok_defs)
qed

lemma Menu_Create_ok [sys_keeps]: "okID (mID m) \<Longrightarrow> preserves sys_ok (Menu_Create m)"
  unfolding Menu_Create_def by (rule triple_stmt) (auto dest: insertMenu_ok)

lemma Menu_Update_ok [sys_keeps]: "preserves sys_ok (Menu_Update m)"
  unfolding Menu_Update_def by (rule triple_stmt) (auto dest: updateMenuRow_ok)

lemma Menu_UpdateStatus_ok [sys_keeps]: "preserves sys_ok (Menu_UpdateStatus i s t)"
  unfolding Menu_UpdateStatus_def
  by (rule triple_stmt)
    (auto simp: sys_ok_defs set_updateRows_key split: if_splits intro!: distinct_updateRows_key)

lemma deleteMenuRow_ok:
  "sys_ok d \<Longrightarrow> \<forall>g \<in> set (sysRoleMenus d). rmMenuID g \<noteq> i \<Longrightarrow> deleteMenuRow i d = Inr (u, d') \<Longrightarrow> sys_ok d'"
  unfolding deleteMenuRow_def
  by (auto simp: sys_ok_defs distinct_map_filter simp del: set_filter intro!: image_filter_key split: if_splits)

lemma Menu_Delete_ok [sys_keeps]: "preserves sys_ok (Menu_Delete i)"
  unfolding Menu_Delete_def
proof (rule triple_transaction)
  show "triple sys_ok (bindA (stmtA (\<lambda>d. Inr ((), d\<lparr>sysRoleMenus := filter (\<lambda>g. rmMenuID g \<noteq> i) (sysRoleMenus d)\<rparr>)))
      (\<lambda>_. stmtA (deleteMenuRow i))) (\<lambda>_. sys_ok) (\<lambda>_ _. True)"
  proof (rule triple_bind [where R = "\<lambda>_ d. sys_ok d \<and> (\<forall>g \<in> set (sysRoleMenus d). rmMenuID g \<noteq> i)"];
      rule triple_stmt)
  qed (auto dest: deleteMenuRow_ok simp: sys_ok_filterGrants)
qed simp

lemma updateRoleRow_ok: "sys_ok d \<Longrightarrow> updateRoleRow m d = Inr (u, d') \<Longrightarrow> sys_ok d'"
proof -
  assume ok: "sys_ok d" and "updateRoleRow m d = Inr (u, d')"
  then have d': "d' = d\<lparr>sysRoles := updateRows (\<lambda>o'. rlID o' = rlID m)
      (\<lambda>o'. m\<lparr>rlCreatedAt := rlCreatedAt o'\<rparr>) (sysRoles d)\<rparr>"
    and free: "(\<exists>o' \<in> set (sysRoles d). rlID o' = rlID m) \<longrightarrow>
      (\<forall>o' \<in> set (sysRoles d). rlID o' \<noteq> rlID m \<longrightarrow> rlCode o' \<noteq> rlCode m)"
    by (auto simp: updateRoleRow_def split: if_splits)
  let ?rows = "updateRows (\<lambda>o'. rlID o' = rlID m) (\<lambda>o'. m\<lparr>rlCreatedAt := rlCreatedAt o'\<rparr>) (sysRoles d)"
  have ids: "distinct (map rlID ?rows)" "rlID ` set ?rows = rlID ` set (sysRoles d)"
    using ok by (auto simp: sys_ok_defs set_updateRows_key intro!: distinct_updateRows_key)
  have "distinct (map rlCode ?rows)"
  proof (cases "\<exists>o' \<in> set (sysRoles d). rlID o' = rlID m")
    case True
    with ok free show ?thesis
      by (intro distinct_updateRows_col [where v = "rlCode m"]) (auto simp: sys_ok_defs)
  next
    case False
    then have "?rows = sysRoles d" by (auto simp: updateRows_def intro: map_idI)
    then show ?thesis using ok by (simp add: sys_ok_defs)
  qed
  with ids ok show ?thesis by (simp add: d' sys_ok_defs)
qed

lemma Role_Create_ok [sys_keeps]: "okID (rlID r) \<Longrightarrow> preserves sys_ok (Role_Create r)"
  unfolding Role_Create_def
  by (rule triple_stmt) (auto simp: insertRole_def sys_ok_defs split: if_splits)

lemma Role_Update_ok [sys_keeps]: "preserves sys_ok (Role_Update r)"
  unfolding Role_Update_def by (rule triple_stmt) (auto dest: updateRoleRow_ok)

lemma Role_UpdateStatus_ok [sys_keeps]: "preserves sys_ok (Role_UpdateStatus i s t)"
  unfolding Role_UpdateStatus_def
  by (rule triple_stmt)
    (auto simp: sys_ok_defs set_updateRows_key split: if_splits intro!: distinct_updateRows_key)

lemma deleteRoleRow_ok:
  "sys_ok d \<Longrightarrow> \<forall>g \<in> set (sysRoleMenus d). rmRoleID g \<noteq> i \<Longrightarrow> \<forall>u \<in> set (sysUserRoles d). urRoleID u \<noteq> i \<Longrightarrow>
   deleteRoleRow i d = Inr (u, d') \<Longrightarrow> sys_ok d'"
  unfolding deleteRoleRow_def
  by (auto simp: sys_ok_defs distinct_map_filter simp del: set_filter intro!: image_filter_key split: if_splits)

lemma deleteUserRow_ok:
  "sys_ok d \<Longrightarrow> \<forall>u \<in> set (sysUserRoles d). urUserID u \<noteq> i \<Longrightarrow> deleteUserRow i d = Inr (u, d') \<Longrightarrow> sys_ok d'"
  unfolding deleteUserRow_def
  by (auto simp: sys_ok_defs distinct_map_filter simp del: set_filter intro!: image_filter_key split: if_splits)

lemma Role_Delete_ok [sys_keeps]: "preserves sys_ok (Role_Delete i)"
  unfolding Role_Delete_def
  apply (rule triple_transaction)
   apply (rule triple_bind [where R = "\<lambda>_ d. sys_ok d \<and> (\<forall>u \<in> set (sysUserRoles d). urRoleID u \<noteq> i)"])
    apply (rule triple_stmt; auto simp: sys_ok_filters)
   apply (rule triple_bind [where R = "\<lambda>_ d. sys_ok d \<and> (\<forall>u \<in> set (sysUserRoles d). urRoleID u \<noteq> i) \<and>
      (\<forall>g \<in> set (sysRoleMenus d). rmRoleID g \<noteq> i)"])
    apply (rule triple_stmt; auto simp: sys_ok_filters)
   apply (rule triple_stmt; auto dest: deleteRoleRow_ok)
  apply simp
  done

lemma insertRoleMenus_ok:
  "sys_ok d \<Longrightarrow> \<forall>g \<in> set rows. rmRoleID g \<in> rlID ` set (sysRoles d) \<and> rmMenuID g \<in> mID ` set (sysMenus d) \<Longrightarrow>
   insertRoleMenus rows d = Inr (u, d') \<Longrightarrow> sys_ok d'"
  unfolding insertRoleMenus_def sys_ok_defs
  by (simp add: ball_Un Int_commute split: if_splits) fastforce?

lemma insertUserRoles_ok:
  "sys_ok d \<Longrightarrow> \<forall>g \<in> set rows. urUserID g \<in> usID ` set (sysUsers d) \<and> urRoleID g \<in> rlID ` set (sysRoles d) \<Longrightarrow>
   insertUserRoles rows d = Inr (u, d') \<Longrightarrow> sys_ok d'"
  unfolding insertUserRoles_def sys_ok_defs
  by (simp add: ball_Un Int_commute split: if_splits) fastforce?

lemma Role_SetRoleMenus_ok:
  "triple (\<lambda>d. sys_ok d \<and> roleID \<in> rlID ` set (sysRoles d) \<and> set menuIDs \<subseteq> mID ` set (sysMenus d))
     (Role_SetRoleMenus roleID menuIDs t) (\<lambda>_. sys_ok) (\<lambda>_. sys_ok)"
  unfolding Role_SetRoleMenus_def
  apply (rule triple_transaction)
   apply (rule triple_bind [where R = "\<lambda>_ d. sys_ok d \<and> roleID \<in> rlID ` set (sysRoles d) \<and>
      set menuIDs \<subseteq> mID ` set (sysMenus d)"])
    apply (rule triple_stmt; auto simp: sys_ok_filters)
   apply (rule triple_if)
    apply (rule triple_ret; simp)
   apply (rule triple_stmt)
    apply (erule insertRoleMenus_ok [rotated 2]; fastforce)
   apply simp_all
  done

lemma Role_SetUserRoles_ok:
  "triple (\<lambda>d. sys_ok d \<and> userID \<in> usID ` set (sysUsers d) \<and> set roleIDs \<subseteq> rlID ` set (sysRoles d))
     (Role_SetUserRoles userID roleIDs t) (\<lambda>_. sys_ok) (\<lambda>_. sys_ok)"
  unfolding Role_SetUserRoles_def
  apply (rule triple_transaction)
   apply (rule triple_bind [where R = "\<lambda>_ d. sys_ok d \<and> userID \<in> usID ` set (sysUsers d) \<and>
      set roleIDs \<subseteq> rlID ` set (sysRoles d)"])
    apply (rule triple_stmt; auto simp: sys_ok_filters)
   apply (rule triple_if)
    apply (rule triple_ret; simp)
   apply (rule triple_stmt)
    apply (erule insertUserRoles_ok [rotated 2]; fastforce)
   apply simp_all
  done

lemma Role_GrantRoleMenus_ok:
  assumes "trimSpace roleID = roleID" and "\<forall>m \<in> set menuIDs. trimSpace m = m"
  shows "triple (\<lambda>d. sys_ok d \<and> roleID \<in> rlID ` set (sysRoles d) \<and> set menuIDs \<subseteq> mID ` set (sysMenus d))
     (Role_GrantRoleMenus roleID menuIDs t) (\<lambda>_. sys_ok) (\<lambda>_. sys_ok)"
proof -
  let ?rows = "map (\<lambda>menuID. \<lparr>rmRoleID = roleID, rmMenuID = menuID, rmCreatedAt = t\<rparr>) (dedupTrim [] menuIDs)"
  have "distinct (map rmMenuID ?rows)"
    by (simp add: comp_def distinct_dedupTrim)
  then have dist: "distinct (map grantKey ?rows)"
    by (simp add: distinct_map grantKey_def inj_on_def)
  have mem: "set (dedupTrim [] menuIDs) \<subseteq> set menuIDs"
    using assms(2) by (auto simp: set_dedupTrim)
  have "sys_ok (d\<lparr>sysRoleMenus := sysRoleMenus d @
          filter (\<lambda>g. grantKey g \<notin> grantKey ` set (sysRoleMenus d)) ?rows\<rparr>)"
    if "sys_ok d" "roleID \<in> rlID ` set (sysRoles d)" "set menuIDs \<subseteq> mID ` set (sysMenus d)" for d
    using that dist mem by (auto simp: sys_ok_defs distinct_map_filter)
  then show ?thesis
    unfolding Role_GrantRoleMenus_def Let_def assms(1)
    by (intro triple_if triple_ret triple_stmt) auto
qed

lemma updateUserRow_ok: "sys_ok d \<Longrightarrow> updateUserRow m d = Inr (u, d') \<Longrightarrow> sys_ok d'"
proof -
  assume ok: "sys_ok d" and run: "updateUserRow m d = Inr (u, d')"
  let ?rows = "updateRows (\<lambda>o'. usID o' = usID m) (\<lambda>o'. m\<lparr>usCreatedAt := usCreatedAt o'\<rparr>) (sysUsers d)"
  show ?thesis
  proof (cases "usID m \<in> usID ` set (sysUsers d)")
    case False
    then show ?thesis using ok run by (simp add: updateUserRow_def)
  next
    case True
    then have d': "d' = d\<lparr>sysUsers := ?rows\<rparr>"
      and "\<forall>o' \<in> set (sysUsers d). usID o' \<noteq> usID m \<longrightarrow> usUsername o' \<noteq> usUsername m"
      and "\<forall>o' \<in> set (sysUsers d). usID o' \<noteq> usID m \<longrightarrow> usEmail o' \<noteq> usEmail m"
      using run unfolding updateUserRow_def by (auto simp del: bex_simps split: if_splits)
    with ok have "distinct (map usUsername ?rows)"
      by (intro distinct_updateRows_col [where v = "usUsername m"]) (auto simp: sys_ok_defs)
    moreover have "distinct (map usEmail ?rows)"
      using ok \<open>\<forall>o' \<in> set (sysUsers d). usID o' \<noteq> usID m \<longrightarrow> usEmail o' \<noteq> usEmail m\<close>
      by (intro distinct_updateRows_col [where v = "usEmail m"]) (auto simp: sys_ok_defs)
    moreover have "distinct (map usID ?rows)" "usID ` set ?rows = usID ` set (sysUsers d)"
      using ok by (auto simp: sys_ok_defs set_updateRows_key intro!: distinct_updateRows_key)
    ultimately show ?thesis using ok by (simp add: d' sys_ok_defs)
  qed
qed

lemma User_Create_ok [sys_keeps]: "okID (usID u) \<Longrightarrow> preserves sys_ok (User_Create u)"
  unfolding User_Create_def
  by (rule triple_stmt) (auto simp: insertUser_def sys_ok_defs split: if_splits)

lemma User_Update_ok [sys_keeps]: "preserves sys_ok (User_Update u)"
  unfolding User_Update_def by (rule triple_stmt) (auto dest: updateUserRow_ok)

lemma User_UpdateStatus_ok [sys_keeps]: "preserves sys_ok (User_UpdateStatus i s t)"
  unfolding User_UpdateStatus_def
  by (rule triple_stmt)
    (auto simp: sys_ok_defs set_updateRows_key split: if_splits intro!: distinct_updateRows_key)

lemma User_Delete_ok [sys_keeps]: "preserves sys_ok (User_Delete i)"
  unfolding User_Delete_def
  apply (rule triple_transaction)
   apply (rule triple_bind [where R = "\<lambda>_ d. sys_ok d \<and> (\<forall>u \<in> set (sysUserRoles d). urUserID u \<noteq> i)"])
    apply (rule triple_stmt; auto simp: sys_ok_filters)
   apply (rule triple_stmt; auto dest: deleteUserRow_ok)
  apply simp
  done

lemma OperationLog_Create_ok [sys_keeps]: "preserves sys_ok (OperationLog_Create l)"
  unfolding OperationLog_Create_def
  by (rule triple_stmt) (auto simp: sys_ok_defs split: if_splits)

end
