(* ===== verification/Operation_Log.thy ===== *)
theory Operation_Log
  imports System_Dao
begin

text \<open>
  \<^verbatim>\<open>system/internal/logic/operation_log.go\<close>: the audit trail.  A handler that changes
  menus, roles or users records one row in the transaction of the change; the log can be
  listed with filters, page by page.
\<close>

definition OperationModuleSystem :: gostr where "OperationModuleSystem = ''system''"
definition OperationResourceRole :: gostr where "OperationResourceRole = ''role''"
definition OperationResourceUser :: gostr where "OperationResourceUser = ''user''"
definition OperationResourceMenu :: gostr where "OperationResourceMenu = ''menu''"

record opInput =
  oiModule :: gostr
  oiAction :: gostr
  oiActionLabel :: gostr
  oiResourceType :: gostr
  oiResourceID :: gostr
  oiResourceName :: gostr
  oiSummary :: gostr
  oiBeforeData :: audit
  oiAfterData :: audit

text \<open>The Chinese for ``system'', the operator of calls without a user.\<close>

definition systemOperatorName :: gostr where "systemOperatorName = (utf8 [231, 179, 187, 231, 187, 159])"

definition operatorNameOf :: "goctx \<Rightarrow> gostr" where
  "operatorNameOf ctx =
     (case CurrentUser ctx of
        None \<Rightarrow> systemOperatorName
      | Some u \<Rightarrow> if trimSpace (auUsername u) \<noteq> [] then auUsername u else systemOperatorName)"

definition operatorIDOf :: "goctx \<Rightarrow> gostr" where
  "operatorIDOf ctx = (case CurrentUser ctx of None \<Rightarrow> ''system'' | Some u \<Rightarrow> auID u)"

definition defaultAuditJSON :: "audit \<Rightarrow> audit" where
  "defaultAuditJSON a = (if a = AuditNone then AuditEmptyObject else a)"

definition OperationLog_record :: "goctx \<Rightarrow> opInput \<Rightarrow> unit sysact" where
  "OperationLog_record ctx input =
     bindA newUUID (\<lambda>i.
     bindA nowA (\<lambda>now.
     OperationLog_Create
       \<lparr>olID = i,
        olModule = trimSpace (oiModule input),
        olAction = trimSpace (oiAction input),
        olActionLabel = trimSpace (oiActionLabel input),
        olResourceType = trimSpace (oiResourceType input),
        olResourceID = trimSpace (oiResourceID input),
        olResourceName = trimSpace (oiResourceName input),
        olOperatorID = operatorIDOf ctx,
        olOperatorName = operatorNameOf ctx,
        olSummary = trimSpace (oiSummary input),
        olBefore = defaultAuditJSON (oiBeforeData input),
        olAfter = defaultAuditJSON (oiAfterData input),
        olCreatedAt = now\<rparr>))"

text \<open>
  The \<^verbatim>\<open>record...Change\<close> methods of the three logics share their shape; the first
  argument says whether the logic has an operation log (\<^verbatim>\<open>operationLogLogic != nil\<close>).
  The summary is the operator, the label and the name in corner brackets.
\<close>

definition changeSummary :: "goctx \<Rightarrow> gostr \<Rightarrow> gostr \<Rightarrow> gostr" where
  "changeSummary ctx label name = operatorNameOf ctx @ label @ (utf8 [227, 128, 140]) @ name @ (utf8 [227, 128, 141])"

definition recordChange ::
  "bool \<Rightarrow> goctx \<Rightarrow> gostr \<Rightarrow> gostr \<Rightarrow> gostr \<Rightarrow> gostr \<Rightarrow> gostr \<Rightarrow> audit \<Rightarrow> audit \<Rightarrow> unit sysact" where
  "recordChange hasLog ctx resourceType action actionLabel resourceID resourceName before after =
     (if \<not> hasLog then retA ()
      else OperationLog_record ctx
        \<lparr>oiModule = OperationModuleSystem, oiAction = action, oiActionLabel = actionLabel,
         oiResourceType = resourceType, oiResourceID = resourceID, oiResourceName = resourceName,
         oiSummary = changeSummary ctx actionLabel resourceName,
         oiBeforeData = before, oiAfterData = after\<rparr>)"

subsection \<open>Listing\<close>

text \<open>
  SQLite's \<^verbatim>\<open>LIKE\<close>: \<^verbatim>\<open>%\<close> matches any text, \<^verbatim>\<open>_\<close> one
  UTF-8 character, letters compare without case in ASCII.
\<close>

definition continuation :: "char \<Rightarrow> bool" where
  "continuation c \<longleftrightarrow> 128 \<le> (of_char c :: nat) \<and> (of_char c :: nat) < 192"

function likeMatch :: "gostr \<Rightarrow> gostr \<Rightarrow> bool" where
  "likeMatch [] s \<longleftrightarrow> s = []"
| "likeMatch (p # ps) s \<longleftrightarrow>
     (if p = CHR ''%'' then
        likeMatch ps s \<or> (case s of [] \<Rightarrow> False | _ # s' \<Rightarrow> likeMatch (p # ps) s')
      else if p = CHR ''_'' then
        (case s of [] \<Rightarrow> False | _ # s' \<Rightarrow> likeMatch ps (dropWhile continuation s'))
      else (case s of [] \<Rightarrow> False | c # s' \<Rightarrow> lowerChar p = lowerChar c \<and> likeMatch ps s'))"
  by pat_completeness auto
termination
  by (relation "measure (\<lambda>(p, s). length p + length s)")
    (auto simp: less_Suc_eq_le le_SucI length_dropWhile_le)

record opLogFilter =
  ofModule :: gostr
  ofAction :: gostr
  ofResourceType :: gostr
  ofResourceID :: gostr
  ofOperatorID :: gostr
  ofKeyword :: gostr
  ofPage :: int
  ofPageSize :: int

definition opLogMatches :: "opLogFilter \<Rightarrow> opLog \<Rightarrow> bool" where
  "opLogMatches f l \<longleftrightarrow>
     (ofModule f \<noteq> [] \<longrightarrow> olModule l = ofModule f) \<and>
     (ofAction f \<noteq> [] \<longrightarrow> olAction l = ofAction f) \<and>
     (ofResourceType f \<noteq> [] \<longrightarrow> olResourceType l = ofResourceType f) \<and>
     (ofResourceID f \<noteq> [] \<longrightarrow> olResourceID l = ofResourceID f) \<and>
     (ofOperatorID f \<noteq> [] \<longrightarrow> olOperatorID l = ofOperatorID f) \<and>
     (let keyword = trimSpace (ofKeyword f); like = ''%'' @ keyword @ ''%'' in
      keyword \<noteq> [] \<longrightarrow>
        likeMatch like (olResourceName l) \<or> likeMatch like (olOperatorName l) \<or>
        likeMatch like (olSummary l))"

definition orderLogs :: "opLog list \<Rightarrow> opLog list" where
  "orderLogs ls = sort_key (\<lambda>l. - olCreatedAt l) ls"

definition OperationLog_List :: "opLogFilter \<Rightarrow> (opLog list \<times> int) sysact" where
  "OperationLog_List f =
     bindA (queryA (\<lambda>d. Inr (int (length (filter (opLogMatches f) (sysLogs d)))))) (\<lambda>total.
     bindA (queryA (\<lambda>d. Inr (take (nat (ofPageSize f))
              (drop (nat ((ofPage f - 1) * ofPageSize f))
                (orderLogs (filter (opLogMatches f) (sysLogs d))))))) (\<lambda>items.
     retA (items, total)))"

definition clampPage :: "int \<Rightarrow> int" where
  "clampPage page = (if page < 1 then 1 else page)"

definition clampPageSize :: "int \<Rightarrow> int" where
  "clampPageSize pageSize =
     (let pageSize = (if pageSize < 1 then 20 else pageSize) in
      if pageSize > 100 then 100 else pageSize)"

definition ListOperationLogs :: "opLogFilter \<Rightarrow> (opLog list \<times> int) sysact" where
  "ListOperationLogs req =
     OperationLog_List
       \<lparr>ofModule = trimSpace (ofModule req), ofAction = trimSpace (ofAction req),
        ofResourceType = trimSpace (ofResourceType req), ofResourceID = trimSpace (ofResourceID req),
        ofOperatorID = trimSpace (ofOperatorID req), ofKeyword = trimSpace (ofKeyword req),
        ofPage = clampPage (ofPage req), ofPageSize = clampPageSize (ofPageSize req)\<rparr>"

subsection \<open>Errors for the caller\<close>

text \<open>
  The two ways in which the logics rewrite an error before they
  return it (\<^verbatim>\<open>wrapMenuNotFoundError\<close>, \<^verbatim>\<open>wrapMenuDuplicateError\<close> and their
  copies for roles and users).
\<close>

definition wrapNotFound :: "gostr \<Rightarrow> err \<Rightarrow> err" where
  "wrapNotFound msg e = (if e = RecordNotFound then Err msg else e)"

definition wrapDuplicate :: "gostr \<Rightarrow> err \<Rightarrow> err" where
  "wrapDuplicate msg e =
     (let lower = toLower (errText e) in
      if contains lower ''duplicate'' \<or> contains lower ''unique'' then Err msg else e)"

lemma wrapNotFound_not [simp]: "wrapNotFound msg e \<noteq> RecordNotFound"
  by (simp add: wrapNotFound_def)

subsection \<open>Facts\<close>

lemma clampPageSize_bounds: "1 \<le> clampPageSize n" "clampPageSize n \<le> 100"
  by (simp_all add: clampPageSize_def Let_def)

lemma clampPage_pos: "1 \<le> clampPage n"
  by (simp add: clampPage_def)

lemma recordChange_ok [sys_keeps]: "preserves sys_ok (recordChange b ctx rt a al i n x y)"
  unfolding recordChange_def OperationLog_record_def
  by (intro triple_if triple_ret triple_bind [where R = "\<lambda>_. sys_ok"] triple_now triple_uuid
      OperationLog_Create_ok)

lemma recordChange_nolog [simp]: "recordChange False ctx rt a al i n x y = retA ()"
  by (simp add: recordChange_def)

text \<open>A keyword without wildcards is found where it occurs, whatever the case.\<close>

definition plainKeyword :: "gostr \<Rightarrow> bool" where
  "plainKeyword k \<longleftrightarrow> CHR ''%'' \<notin> set k \<and> CHR ''_'' \<notin> set k"

lemma likeMatch_any [simp]: "likeMatch ''%'' s"
  by (induction s) simp_all

lemma likeMatch_prefix: "plainKeyword k \<Longrightarrow> likeMatch (k @ ''%'') s \<longleftrightarrow> prefix (toLower k) (toLower s)"
proof (induction k arbitrary: s)
  case Nil
  then show ?case by (simp add: toLower_def del: likeMatch.simps)
next
  case (Cons c k)
  then have "c \<noteq> CHR ''%''" "c \<noteq> CHR ''_''" "plainKeyword k"
    by (auto simp: plainKeyword_def)
  then show ?case using Cons.IH
    by (cases s) (auto simp: toLower_def)
qed

lemma likeMatch_contains:
  "plainKeyword k \<Longrightarrow> likeMatch (''%'' @ k @ ''%'') s \<longleftrightarrow> contains (toLower s) (toLower k)"
proof (induction s)
  case Nil
  then show ?case using likeMatch_prefix [of k "[]"] by (cases k) (simp_all add: toLower_def)
next
  case (Cons c s)
  then show ?case using likeMatch_prefix [of k "c # s"]
    by (simp add: toLower_def)
qed

text \<open>What the log row of a change says, and that nothing else changes.\<close>

definition logRow ::
  "gostr \<Rightarrow> int \<Rightarrow> goctx \<Rightarrow> gostr \<Rightarrow> gostr \<Rightarrow> gostr \<Rightarrow> gostr \<Rightarrow> gostr \<Rightarrow> audit \<Rightarrow> audit \<Rightarrow> opLog" where
  "logRow i now ctx resourceType action actionLabel resourceID resourceName before after =
     \<lparr>olID = i, olModule = ''system'', olAction = trimSpace action, olActionLabel = trimSpace actionLabel,
      olResourceType = trimSpace resourceType, olResourceID = trimSpace resourceID,
      olResourceName = trimSpace resourceName, olOperatorID = operatorIDOf ctx,
      olOperatorName = operatorNameOf ctx,
      olSummary = trimSpace (changeSummary ctx actionLabel resourceName),
      olBefore = defaultAuditJSON before, olAfter = defaultAuditJSON after, olCreatedAt = now\<rparr>"

lemma recordChange_Inr:
  assumes "recordChange True ctx rt a al i n x y w = (Inr u, w')"
  shows "db w' = (db w)\<lparr>sysLogs := sysLogs (db w) @
           [logRow (uuidAt w (tick w)) (unixMicro (clockAt w (Suc (tick w)))) ctx rt a al i n x y]\<rparr>"
  using assms
  by (auto simp: recordChange_def OperationLog_record_def OperationLog_Create_def act_defs
      logRow_def OperationModuleSystem_def trimSpace_visible visibleChar_def
      split: option.splits if_splits)

end
