(* ===== verification/Menu_Access.thy ===== *)
theory Menu_Access
  imports Operation_Log
begin

text \<open>
  \<^verbatim>\<open>system/internal/logic/menu_access.go\<close>: from the menus granted to a user to the
  menus that user may see.  A Go map from identifiers to \<^verbatim>\<open>struct{}\<close> is a set;
  where the code ranges over such a map the order is a list argument, and the theorem holds for
  every order Go may choose (the second loop adds keys while it ranges, so Go may or may not
  visit the new keys: the list may contain them).
\<close>

definition menusByID :: "menu list \<Rightarrow> gostr \<Rightarrow> menu option" where
  "menusByID all = foldl (\<lambda>byID m. byID(mID m \<mapsto> m)) Map.empty all"

definition platformByModule :: "menu list \<Rightarrow> gostr \<Rightarrow> menu list" where
  "platformByModule all module =
     filter (\<lambda>m. mPlacement m = MenuPlacementPlatform \<and> mModule m \<noteq> [] \<and> mModule m = module) all"

lemma foldl_update_dom: "dom (foldl (\<lambda>byID m. byID(mID m \<mapsto> m)) b all) = dom b \<union> mID ` set all"
  by (induction all arbitrary: b) auto

lemma dom_menusByID: "dom (menusByID all) = mID ` set all"
  by (simp add: menusByID_def foldl_update_dom)

lemma foldl_update_Some:
  "foldl (\<lambda>byID m. byID(mID m \<mapsto> m)) b all i = Some m \<Longrightarrow> b i = Some m \<or> (m \<in> set all \<and> mID m = i)"
proof (induction all arbitrary: b)
  case Nil
  then show ?case by simp
next
  case (Cons a all)
  then show ?case using Cons.IH [of "b(mID a \<mapsto> a)"] by (auto split: if_splits)
qed

lemma menusByID_Some: "menusByID all i = Some m \<Longrightarrow> m \<in> set all \<and> mID m = i"
  using foldl_update_Some [of Map.empty all i m] by (simp add: menusByID_def)

lemma menusByID_mem:
  assumes "distinct (map mID all)" and "m \<in> set all"
  shows "menusByID all (mID m) = Some m"
proof -
  have "mID m \<in> dom (menusByID all)" using assms(2) by (simp add: dom_menusByID)
  then obtain n where n: "menusByID all (mID m) = Some n" by blast
  then have "n = m" using menusByID_Some assms distinct_key_eq by metis
  with n show ?thesis by simp
qed

lemma menusByID_Some_iff:
  "distinct (map mID all) \<Longrightarrow> menusByID all i = Some m \<longleftrightarrow> m \<in> set all \<and> mID m = i"
  using menusByID_Some menusByID_mem by metis

function visitUp :: "menu list \<Rightarrow> gostr set \<Rightarrow> gostr \<Rightarrow> gostr set" where
  "visitUp all allowed i =
     (if i = [] then allowed
      else if i \<in> allowed then allowed
      else case menusByID all i of
             None \<Rightarrow> allowed
           | Some menu \<Rightarrow> visitUp all (insert i allowed) (mParentID menu))"
  by pat_completeness auto
termination
proof (relation "measure (\<lambda>(all, allowed, i). card (mID ` set all - allowed))")
  show "wf (measure (\<lambda>(all, allowed, i). card (mID ` set all - allowed)))" by simp
next
  fix all :: "menu list" and allowed :: "gostr set" and i menu
  assume "i \<notin> allowed" and "menusByID all i = Some menu"
  then have "i \<in> mID ` set all" using menusByID_Some by blast
  with \<open>i \<notin> allowed\<close> have "card (mID ` set all - insert i allowed) < card (mID ` set all - allowed)"
    by (intro psubset_card_mono) auto
  then show "((all, insert i allowed, mParentID menu), (all, allowed, i))
      \<in> measure (\<lambda>(all, allowed, i). card (mID ` set all - allowed))" by simp
qed

declare visitUp.simps [simp del]

lemma visitUp_stop: "i = [] \<or> i \<in> allowed \<or> menusByID all i = None \<Longrightarrow> visitUp all allowed i = allowed"
  by (subst visitUp.simps) auto

lemma visitUp_step:
  "i \<noteq> [] \<Longrightarrow> i \<notin> allowed \<Longrightarrow> menusByID all i = Some m \<Longrightarrow>
   visitUp all allowed i = visitUp all (insert i allowed) (mParentID m)"
  by (subst visitUp.simps) auto

definition addPlatforms :: "menu list \<Rightarrow> gostr set \<Rightarrow> gostr \<Rightarrow> gostr set" where
  "addPlatforms all allowed i =
     (case menusByID all i of
        None \<Rightarrow> allowed
      | Some menu \<Rightarrow>
          if mPlacement menu \<noteq> MenuPlacementModuleNav \<or> mModule menu = [] then allowed
          else allowed \<union> mID ` set (platformByModule all (mModule menu)))"

definition visitSeeds :: "menu list \<Rightarrow> gostr list \<Rightarrow> gostr set" where
  "visitSeeds all seedOrder = foldl (visitUp all) {} seedOrder"

definition expandAllowedMenuIDs ::
  "menu list \<Rightarrow> gostr list \<Rightarrow> (gostr set \<Rightarrow> gostr list) \<Rightarrow> gostr set" where
  "expandAllowedMenuIDs all seedOrder rangeOrder =
     (let allowed = visitSeeds all seedOrder in
      foldl (addPlatforms all) allowed (rangeOrder allowed))"

definition menuIDsToSet :: "gostr list \<Rightarrow> gostr set" where
  "menuIDsToSet menuIDs = {i \<in> set menuIDs. i \<noteq> []}"

subsection \<open>What may be seen\<close>

text \<open>
  The specification: \<open>menuUp\<close> is one step from an existing menu to its existing parent;
  the granted menus are the seeds that exist, with all their ancestors; a granted menu of a
  module's navigation also grants the platform entries of that module.
\<close>

definition menuUp :: "menu list \<Rightarrow> gostr \<Rightarrow> gostr \<Rightarrow> bool" where
  "menuUp all i j \<longleftrightarrow>
     (\<exists>m. menusByID all i = Some m \<and> mParentID m = j \<and> j \<noteq> [] \<and> menusByID all j \<noteq> None)"

definition grantedClosure :: "menu list \<Rightarrow> gostr set \<Rightarrow> gostr set" where
  "grantedClosure all seed =
     {j. \<exists>i \<in> seed. i \<noteq> [] \<and> menusByID all i \<noteq> None \<and> (menuUp all)\<^sup>*\<^sup>* i j}"

definition allowedMenus :: "menu list \<Rightarrow> gostr set \<Rightarrow> gostr set" where
  "allowedMenus all seed =
     grantedClosure all seed \<union>
     {mID p | p. p \<in> set all \<and> mPlacement p = MenuPlacementPlatform \<and> mModule p \<noteq> [] \<and>
        (\<exists>i \<in> grantedClosure all seed. \<exists>m. menusByID all i = Some m \<and>
           mPlacement m = MenuPlacementModuleNav \<and> mModule m = mModule p)}"

definition upClosed :: "menu list \<Rightarrow> gostr set \<Rightarrow> bool" where
  "upClosed all A \<longleftrightarrow> (\<forall>i j. i \<in> A \<longrightarrow> menuUp all i j \<longrightarrow> j \<in> A)"

lemma visitUp_mono: "allowed \<subseteq> visitUp all allowed i"
proof (induction all allowed i rule: visitUp.induct)
  case (1 all allowed i)
  then show ?case by (subst visitUp.simps) (auto split: option.splits)
qed

lemma visitUp_closed:
  assumes "\<forall>x j. x \<in> allowed \<longrightarrow> menuUp all x j \<longrightarrow> j \<in> allowed \<or> j = i"
  shows "upClosed all (visitUp all allowed i) \<and>
    (i \<noteq> [] \<longrightarrow> menusByID all i \<noteq> None \<longrightarrow> i \<in> visitUp all allowed i)"
  using assms
proof (induction all allowed i rule: visitUp.induct)
  case (1 all allowed i)
  have "\<not> menuUp all x i" if "i = [] \<or> menusByID all i = None" for x
    using that by (auto simp: menuUp_def)
  then have stop: "upClosed all allowed" if "i = [] \<or> i \<in> allowed \<or> menusByID all i = None"
    using 1(2) that unfolding upClosed_def by blast
  show ?case
  proof (cases "i = [] \<or> i \<in> allowed \<or> menusByID all i = None")
    case True
    then show ?thesis using stop visitUp_stop by auto
  next
    case False
    then obtain m where m: "menusByID all i = Some m" by blast
    have step: "visitUp all allowed i = visitUp all (insert i allowed) (mParentID m)"
      using False m by (simp add: visitUp_step)
    have "\<forall>x j. x \<in> insert i allowed \<longrightarrow> menuUp all x j \<longrightarrow> j \<in> insert i allowed \<or> j = mParentID m"
      using 1(2) m by (auto simp: menuUp_def)
    with 1(1) [OF _ _ m] False have "upClosed all (visitUp all allowed i)"
      by (simp add: step)
    moreover have "i \<in> visitUp all allowed i"
      using visitUp_mono [of "insert i allowed" all "mParentID m"] by (auto simp: step)
    ultimately show ?thesis by simp
  qed
qed

lemma visitUp_sound:
  "j \<in> visitUp all allowed i \<Longrightarrow>
   j \<in> allowed \<or> (i \<noteq> [] \<and> menusByID all i \<noteq> None \<and> (menuUp all)\<^sup>*\<^sup>* i j)"
proof (induction all allowed i rule: visitUp.induct)
  case (1 all allowed i)
  show ?case
  proof (cases "i = [] \<or> i \<in> allowed \<or> menusByID all i = None")
    case True
    then show ?thesis using 1(2) visitUp_stop by auto
  next
    case False
    then obtain m where m: "menusByID all i = Some m" by blast
    have "j \<in> visitUp all (insert i allowed) (mParentID m)"
      using 1(2) False m by (simp add: visitUp_step)
    with 1(1) [OF _ _ m] False consider "j \<in> insert i allowed"
      | "mParentID m \<noteq> []" "menusByID all (mParentID m) \<noteq> None" "(menuUp all)\<^sup>*\<^sup>* (mParentID m) j" by blast
    then show ?thesis
    proof cases
      case 1
      then show ?thesis using False by auto
    next
      case 2
      then have "menuUp all i (mParentID m)" using m by (auto simp: menuUp_def)
      with 2(3) have "(menuUp all)\<^sup>*\<^sup>* i j" by (rule converse_rtranclp_into_rtranclp [rotated])
      with False show ?thesis by blast
    qed
  qed
qed

lemma upClosed_rtranclp: "upClosed all A \<Longrightarrow> i \<in> A \<Longrightarrow> (menuUp all)\<^sup>*\<^sup>* i j \<Longrightarrow> j \<in> A"
  by (rotate_tac 2, induction rule: rtranclp_induct) (auto simp: upClosed_def)

lemma visitSeeds_closure: "visitSeeds all seedOrder = grantedClosure all (set seedOrder)"
proof -
  have "upClosed all (foldl (visitUp all) {} is) \<and>
      foldl (visitUp all) {} is = grantedClosure all (set is)" for "is"
  proof (induction "is" rule: rev_induct)
    case Nil
    then show ?case by (simp add: upClosed_def grantedClosure_def)
  next
    case (snoc i "is")
    let ?A = "foldl (visitUp all) {} is"
    let ?B = "visitUp all ?A i"
    have B: "upClosed all ?B \<and> (i \<noteq> [] \<longrightarrow> menusByID all i \<noteq> None \<longrightarrow> i \<in> ?B)"
      using snoc by (intro visitUp_closed) (auto simp: upClosed_def)
    have "?B = grantedClosure all (set (is @ [i]))"
    proof (intro set_eqI iffI)
      fix j assume "j \<in> ?B"
      with visitUp_sound [OF this] snoc show "j \<in> grantedClosure all (set (is @ [i]))"
        by (auto simp: grantedClosure_def)
    next
      fix j assume "j \<in> grantedClosure all (set (is @ [i]))"
      then consider "j \<in> ?A" | "i \<noteq> []" "menusByID all i \<noteq> None" "(menuUp all)\<^sup>*\<^sup>* i j"
        using snoc by (auto simp: grantedClosure_def)
      then show "j \<in> ?B"
        using B visitUp_mono [of ?A all i] upClosed_rtranclp by cases blast+
    qed
    with B show ?case by simp
  qed
  then show ?thesis by (simp add: visitSeeds_def)
qed

lemma foldl_addPlatforms:
  "foldl (addPlatforms all) A order = A \<union>
     {mID p | p. p \<in> set all \<and> mPlacement p = MenuPlacementPlatform \<and> mModule p \<noteq> [] \<and>
        (\<exists>i \<in> set order. \<exists>m. menusByID all i = Some m \<and>
           mPlacement m = MenuPlacementModuleNav \<and> mModule m = mModule p)}"
proof (induction order rule: rev_induct)
  case Nil
  then show ?case by simp
next
  case (snoc i order)
  have "addPlatforms all B i = B \<union>
     {mID p | p. p \<in> set all \<and> mPlacement p = MenuPlacementPlatform \<and> mModule p \<noteq> [] \<and>
        (\<exists>m. menusByID all i = Some m \<and> mPlacement m = MenuPlacementModuleNav \<and> mModule m = mModule p)}" for B
    by (auto simp: addPlatforms_def platformByModule_def split: option.splits)
  then show ?case using snoc by auto
qed

text \<open>
  A range over the map that meets every key present at its start, and perhaps keys it added.
\<close>

definition rangesOver :: "menu list \<Rightarrow> gostr set \<Rightarrow> gostr list \<Rightarrow> bool" where
  "rangesOver all A order \<longleftrightarrow>
     A \<subseteq> set order \<and>
     set order \<subseteq> A \<union> {mID p | p. p \<in> set all \<and> mPlacement p = MenuPlacementPlatform}"

lemma expandAllowed_spec:
  assumes "distinct (map mID all)"
    and "rangesOver all (visitSeeds all seedOrder) (rangeOrder (visitSeeds all seedOrder))"
  shows "expandAllowedMenuIDs all seedOrder rangeOrder = allowedMenus all (set seedOrder)"
proof -
  let ?A = "visitSeeds all seedOrder"
  have plat: "i \<in> ?A" if "i \<in> set (rangeOrder ?A)" and "menusByID all i = Some m"
    and "mPlacement m = MenuPlacementModuleNav" for i m
  proof (rule ccontr)
    assume "i \<notin> ?A"
    then obtain p where "p \<in> set all" "mID p = i" "mPlacement p = MenuPlacementPlatform"
      using assms(2) \<open>i \<in> set (rangeOrder ?A)\<close> unfolding rangesOver_def by blast
    then have "p = m" using assms(1) that(2) by (metis menusByID_mem option.inject)
    with that(3) \<open>mPlacement p = _\<close> show False by (simp add: menu_consts)
  qed
  have "?A \<subseteq> set (rangeOrder ?A)" using assms(2) by (simp add: rangesOver_def)
  then show ?thesis
    unfolding expandAllowedMenuIDs_def Let_def foldl_addPlatforms allowedMenus_def
      visitSeeds_closure [symmetric]
    using plat by blast
qed

end
