(* ===== verification/Parent_Forest.thy ===== *)
theory Parent_Forest
  imports Go_Base
begin

text \<open>
  Rows that point to a parent row: the shape of the menu table.  \<open>climb up k x\<close> follows the
  parent \<open>k\<close> times; \<open>rooted\<close> rows reach a row without a parent, the others are on a
  cycle or below one.  The locale collects what the tree builder, the access expansion and the
  ancestor walk need to know about such a table.
\<close>

primrec climb :: "('k \<Rightarrow> 'k option) \<Rightarrow> nat \<Rightarrow> 'k \<Rightarrow> 'k option" where
  "climb up 0 x = Some x"
| "climb up (Suc k) x = (case climb up k x of None \<Rightarrow> None | Some y \<Rightarrow> up y)"

definition rooted :: "('k \<Rightarrow> 'k option) \<Rightarrow> 'k \<Rightarrow> bool" where
  "rooted up x \<longleftrightarrow> (\<exists>k r. climb up k x = Some r \<and> up r = None)"

text \<open>The keys below a key, each before its children, to a given depth.\<close>

primrec preorder :: "nat \<Rightarrow> ('k \<Rightarrow> 'k list) \<Rightarrow> 'k \<Rightarrow> 'k list" where
  "preorder 0 kids i = [i]"
| "preorder (Suc n) kids i = i # concat (map (preorder n kids) (kids i))"

lemma climb_add: "climb up (a + b) x = (case climb up a x of None \<Rightarrow> None | Some y \<Rightarrow> climb up b y)"
  by (induction b) (auto split: option.splits)

lemma climb_Suc_first: "climb up (Suc k) x = (case up x of None \<Rightarrow> None | Some y \<Rightarrow> climb up k y)"
  using climb_add [of up 1 k x] by simp

lemma climb_None_mono: "climb up a x = None \<Longrightarrow> a \<le> b \<Longrightarrow> climb up b x = None"
  using climb_add [of up a "b - a" x] by simp

lemma climb_unique_root:
  assumes "climb up a x = Some r" "up r = None" "climb up b x = Some s" "up s = None"
  shows "a = b \<and> r = s"
proof -
  have "climb up (Suc a) x = None" and "climb up (Suc b) x = None" using assms by simp_all
  then have "\<not> Suc a \<le> b" "\<not> Suc b \<le> a"
    using climb_None_mono assms(1,3) by (metis option.discI)+
  then have "a = b" by simp
  then show ?thesis using assms by simp
qed

lemma rooted_step: "up x = Some y \<Longrightarrow> rooted up x \<longleftrightarrow> rooted up y"
proof
  assume xy: "up x = Some y" and "rooted up y"
  then obtain k r where "climb up k y = Some r" "up r = None" by (auto simp: rooted_def)
  then have "climb up (Suc k) x = Some r" using xy unfolding climb_Suc_first by simp
  then show "rooted up x" using \<open>up r = None\<close> unfolding rooted_def by blast
next
  assume xy: "up x = Some y" and "rooted up x"
  then obtain k r where k: "climb up k x = Some r" "up r = None" by (auto simp: rooted_def)
  show "rooted up y"
  proof (cases k)
    case 0
    then show ?thesis using k xy by simp
  next
    case (Suc j)
    then have "climb up j y = Some r" using k(1) xy unfolding Suc climb_Suc_first by simp
    then show ?thesis using k(2) unfolding rooted_def by blast
  qed
qed

lemma rooted_root: "up x = None \<Longrightarrow> rooted up x"
  unfolding rooted_def using climb.simps(1) [of up x] by blast

lemma cycle_not_rooted:
  assumes "\<And>x. x \<in> C \<Longrightarrow> \<exists>y \<in> C. up x = Some y" and "x \<in> C"
  shows "\<not> rooted up x"
proof -
  have "\<exists>y \<in> C. climb up k x = Some y" for k
  proof (induction k)
    case 0
    then show ?case using assms(2) by simp
  next
    case (Suc k)
    then obtain y where "y \<in> C" "climb up k x = Some y" by blast
    then show ?case using assms(1) [of y] by auto
  qed
  then show ?thesis using assms(1) unfolding rooted_def by (metis option.distinct(1) option.inject)
qed

lemma count_concat_map: "count_list (concat (map f cs)) x = (\<Sum>c\<leftarrow>cs. count_list (f c) x)"
  by (induction cs) simp_all

lemma distinct_count_le: "(\<And>x. count_list xs x \<le> 1) \<Longrightarrow> distinct xs"
proof (induction xs)
  case Nil
  then show ?case by simp
next
  case (Cons y xs)
  have "count_list xs x \<le> 1" for x
    using Cons.prems [of x] by (simp split: if_splits)
  moreover have "count_list xs y = 0" using Cons.prems [of y] by simp
  then have "y \<notin> set xs" by (simp add: count_list_0_iff)
  ultimately show ?case using Cons.IH by simp
qed

locale parent_map =
  fixes up :: "'k \<Rightarrow> 'k option" and K :: "'k set"
  assumes finite_K: "finite K"
    and up_in: "up x = Some y \<Longrightarrow> x \<in> K \<and> y \<in> K"
begin

lemma climb_in: "x \<in> K \<Longrightarrow> climb up k x = Some y \<Longrightarrow> y \<in> K"
  by (induction k arbitrary: y) (auto split: option.splits dest: up_in)

lemma climb_revisit:
  assumes "climb up a x = Some z" "climb up b x = Some z" "a < b"
  shows "climb up k x \<noteq> None"
proof -
  have loop: "climb up (b - a) z = Some z"
    using climb_add [of up a "b - a" x] assms by simp
  have "climb up (n * (b - a)) z = Some z" for n
    by (induction n) (simp_all add: climb_add loop)
  then have "climb up (a + k * (b - a)) x = Some z"
    using assms(1) by (simp add: climb_add)
  moreover have "k \<le> a + k * (b - a)"
    using assms(3) by (metis Nat.le_diff_conv2 add_leE le_add2 mult.right_neutral mult_le_mono2
        less_eq_Suc_le One_nat_def zero_less_diff trans_le_add2)
  ultimately show ?thesis using climb_None_mono by (metis option.discI)
qed

lemma climb_bound:
  assumes "x \<in> K" and "climb up k x = Some r" and "up r = None"
  shows "k < card K"
proof -
  have end': "climb up (Suc k) x = None" using assms by simp
  let ?f = "\<lambda>i. the (climb up i x)"
  have some: "climb up i x \<noteq> None" if "i \<le> k" for i
    using climb_None_mono [of up i x k] that assms(2) by auto
  have "inj_on ?f {..k}"
  proof (rule inj_onI, rule ccontr)
    fix i j assume ij: "i \<in> {..k}" "j \<in> {..k}" "?f i = ?f j" "i \<noteq> j"
    then obtain z where "climb up i x = Some z" "climb up j x = Some z"
      using some by (metis atMost_iff option.collapse)
    then have "climb up (Suc k) x \<noteq> None"
      using climb_revisit [of i x z j] climb_revisit [of j x z i] ij(4) by (metis linorder_neqE_nat)
    with end' show False by simp
  qed
  moreover have "?f ` {..k} \<subseteq> K"
    using some climb_in [OF assms(1)] by (fastforce simp: image_subset_iff)
  ultimately have "card {..k} \<le> card K" using finite_K by (metis card_inj_on_le)
  then show ?thesis by simp
qed

lemma climb_start_in: "climb up (Suc k) x = Some r \<Longrightarrow> x \<in> K"
  unfolding climb_Suc_first by (auto split: option.splits dest: up_in)

lemma climb_not_deep: "up r = None \<Longrightarrow> card K \<le> n \<Longrightarrow> climb up (Suc n) x \<noteq> Some r"
  using climb_bound [of x "Suc n" r] climb_start_in [of n x r] by auto

text \<open>A row that is not rooted can be followed for ever.\<close>

lemma climb_total_iff: "(\<forall>k. climb up k x \<noteq> None) \<longleftrightarrow> \<not> rooted up x"
proof
  assume all: "\<forall>k. climb up k x \<noteq> None"
  show "\<not> rooted up x"
  proof
    assume "rooted up x"
    then obtain k r where "climb up k x = Some r" "up r = None" by (auto simp: rooted_def)
    then have "climb up (Suc k) x = None" by simp
    with all show False by blast
  qed
next
  assume not: "\<not> rooted up x"
  have "climb up k x \<noteq> None" for k
  proof (induction k)
    case 0
    then show ?case by simp
  next
    case (Suc k)
    then obtain y where "climb up k x = Some y" by blast
    with not show ?case by (auto simp: rooted_def)
  qed
  then show "\<forall>k. climb up k x \<noteq> None" by blast
qed

end

text \<open>A table with the children of every row, in some order.\<close>

locale forest_order = parent_map up K for up :: "'k \<Rightarrow> 'k option" and K +
  fixes kids :: "'k \<Rightarrow> 'k list"
  assumes kids_set: "set (kids i) = {c. up c = Some i}"
    and kids_distinct: "distinct (kids i)"
begin

lemma count_preorder:
  "count_list (preorder n kids i) x = card {k. k \<le> n \<and> climb up k x = Some i}"
proof (induction n arbitrary: i)
  case 0
  have "{k. k \<le> 0 \<and> climb up k x = Some i} = (if x = i then {0} else {})" by auto
  then show ?case by auto
next
  case (Suc n)
  let ?S = "\<lambda>c. {k. k \<le> n \<and> climb up k x = Some c}"
  have "count_list (concat (map (preorder n kids) (kids i))) x =
      (\<Sum>c\<leftarrow>kids i. count_list (preorder n kids c) x)"
    by (rule count_concat_map)
  also have "\<dots> = (\<Sum>c\<leftarrow>kids i. card (?S c))"
    by (simp add: Suc)
  also have "\<dots> = (\<Sum>c\<in>set (kids i). card (?S c))"
    by (rule sum_list_distinct_conv_sum_set [OF kids_distinct])
  also have "\<dots> = card (\<Union>c\<in>set (kids i). ?S c)"
    by (rule card_UN_disjoint [symmetric]) auto
  also have "(\<Union>c\<in>set (kids i). ?S c) = {k. k \<le> n \<and> climb up (Suc k) x = Some i}"
    by (auto simp: kids_set split: option.splits)
  finally have sub: "count_list (concat (map (preorder n kids) (kids i))) x =
      card {k. k \<le> n \<and> climb up (Suc k) x = Some i}" .
  have "{k. k \<le> Suc n \<and> climb up k x = Some i} =
      (if x = i then {0} else {}) \<union> Suc ` {k. k \<le> n \<and> climb up (Suc k) x = Some i}"
    (is "?L = ?R")
  proof (intro set_eqI iffI)
    fix k assume "k \<in> ?L" then show "k \<in> ?R" by (cases k) auto
  next
    fix k assume "k \<in> ?R" then show "k \<in> ?L" by (auto split: if_splits)
  qed
  then have "card {k. k \<le> Suc n \<and> climb up k x = Some i} =
      card (if x = i then {0::nat} else {}) + card (Suc ` {k. k \<le> n \<and> climb up (Suc k) x = Some i})"
    by (simp only:) (rule card_Un_disjoint; auto)
  then show ?case using sub by (simp add: card_image split: if_splits)
qed

text \<open>Every rooted row is listed exactly once below the roots, and no other row.\<close>

lemma forest_preorder:
  assumes "distinct roots" and "set roots = {r \<in> K. up r = None}" and "card K \<le> n"
  shows "distinct (concat (map (preorder n kids) roots))"
    and "set (concat (map (preorder n kids) roots)) = {x \<in> K. rooted up x}"
proof -
  let ?F = "concat (map (preorder n kids) roots)"
  let ?S = "\<lambda>x. {k. k \<le> n \<and> (\<exists>r \<in> set roots. climb up k x = Some r)}"
  have cnt: "count_list ?F x = card (?S x)" for x
  proof -
    have "count_list ?F x = (\<Sum>c\<leftarrow>roots. count_list (preorder n kids c) x)"
      by (rule count_concat_map)
    also have "\<dots> = (\<Sum>c\<in>set roots. card {k. k \<le> n \<and> climb up k x = Some c})"
      by (simp add: count_preorder sum_list_distinct_conv_sum_set [OF assms(1)])
    also have "\<dots> = card (\<Union>c\<in>set roots. {k. k \<le> n \<and> climb up k x = Some c})"
      by (rule card_UN_disjoint [symmetric]) auto
    also have "(\<Union>c\<in>set roots. {k. k \<le> n \<and> climb up k x = Some c}) = ?S x" by auto
    finally show ?thesis .
  qed
  have one: "?S x \<subseteq> {k} \<or> ?S x = {}" if "k \<in> ?S x" for x k
  proof -
    from that obtain r where r: "climb up k x = Some r" "up r = None" using assms(2) by auto
    have "k' = k" if k': "k' \<in> ?S x" for k'
    proof -
      from k' obtain r' where "climb up k' x = Some r'" "up r' = None" using assms(2) by auto
      with r show ?thesis using climb_unique_root by metis
    qed
    then show ?thesis by blast
  qed
  have le: "count_list ?F x \<le> 1" for x
  proof (cases "?S x = {}")
    case True
    then show ?thesis unfolding cnt [of x] by (simp only: card.empty)
  next
    case False
    then obtain k where "k \<in> ?S x" by blast
    with one have "?S x \<subseteq> {k}" by blast
    then have "card (?S x) \<le> card {k}" by (intro card_mono) auto
    then show ?thesis using cnt [of x] by simp
  qed
  then show "distinct ?F" by (rule distinct_count_le)
  have "x \<in> set ?F \<longleftrightarrow> x \<in> K \<and> rooted up x" for x
  proof -
    have "finite (?S x)" by simp
    then have a: "card (?S x) = 0 \<longleftrightarrow> ?S x = {}" by (rule card_0_eq)
    have b: "x \<notin> set ?F \<longleftrightarrow> card (?S x) = 0"
      unfolding cnt [of x, symmetric] by (rule count_list_0_iff [symmetric])
    have "x \<in> set ?F \<longleftrightarrow> ?S x \<noteq> {}" by (simp only: a [symmetric] b [symmetric] not_not)
    also have "\<dots> \<longleftrightarrow> x \<in> K \<and> rooted up x"
    proof
      assume "?S x \<noteq> {}"
      then obtain k r where k: "climb up k x = Some r" "r \<in> K" "up r = None"
        using assms(2) by auto
      then have "x \<in> K"
      proof (cases k)
        case 0
        then show ?thesis using k by simp
      next
        case (Suc j)
        then show ?thesis using k(1) climb_start_in by blast
      qed
      with k show "x \<in> K \<and> rooted up x" by (auto simp: rooted_def)
    next
      assume x: "x \<in> K \<and> rooted up x"
      then obtain k r where k: "climb up k x = Some r" "up r = None" by (auto simp: rooted_def)
      then have "k < card K" "r \<in> K" using climb_bound climb_in x by blast+
      with k assms(2,3) have "k \<in> ?S x" by auto
      then show "?S x \<noteq> {}" by blast
    qed
    finally show ?thesis .
  qed
  then show "set ?F = {x \<in> K. rooted up x}" by blast
qed

end

end
