(* ===== verification/Menu_Tree.thy ===== *)
theory Menu_Tree
  imports Menu_Access Parent_Forest "HOL-Library.AList" "HOL-Library.Multiset"
begin

text \<open>
  The menu trees sent to the front end: \<^verbatim>\<open>buildMenuTree\<close> and
  \<^verbatim>\<open>modelMenuToProto\<close> of \<^verbatim>\<open>system/internal/logic/menu.go\<close>,
  \<^verbatim>\<open>filterProtoMenusByAllowed\<close> of \<^verbatim>\<open>menu_access.go\<close>, and
  \<^verbatim>\<open>menu_nav.go\<close>.

  \<^verbatim>\<open>buildMenuTree\<close> makes a map of copies and then ranges over that map, hanging each
  copy below its parent through pointers.  The model keeps the map, the list of children of
  every key and the list of roots, in the order \<open>rng\<close> in which Go ranges over the keys, and
  reads the tree off at the end; a node is read to the depth \<open>length items\<close>, beyond which
  no chain of pointers from a root can go (\<open>readNode_enough\<close>).
\<close>

record pmenu =
  pmId :: gostr
  pmParentId :: gostr
  pmModule :: gostr
  pmPlacement :: gostr
  pmName :: gostr
  pmCode :: gostr
  pmViewKey :: gostr
  pmIcon :: gostr
  pmMenuType :: int
  pmSort :: int
  pmStatus :: int
  pmVisible :: int
  pmIsDefault :: bool
  pmRemark :: gostr
  pmSourceType :: gostr
  pmSourceId :: gostr
  pmCreatedAt :: int

datatype menuNode = MenuNode (nodeMenu: pmenu) (nodeChildren: "menuNode list")

definition protoOf :: "menu \<Rightarrow> pmenu" where
  "protoOf m =
     \<lparr>pmId = mID m, pmParentId = mParentID m, pmModule = mModule m, pmPlacement = mPlacement m,
      pmName = mName m, pmCode = mCode m, pmViewKey = mViewKey m, pmIcon = mIcon m,
      pmMenuType = toInt32 (mMenuType m), pmSort = toInt32 (mSort m), pmStatus = toInt32 (mStatus m),
      pmVisible = toInt32 (mVisible m), pmIsDefault = mIsDefault m, pmRemark = mRemark m,
      pmSourceType = mSourceType m, pmSourceId = mSourceID m, pmCreatedAt = mCreatedAt m\<rparr>"

definition modelMenuToProto :: "menu \<Rightarrow> menuNode list \<Rightarrow> menuNode" where
  "modelMenuToProto m children = MenuNode (protoOf m) children"

definition nodeId :: "menuNode \<Rightarrow> gostr" where
  "nodeId n = pmId (nodeMenu n)"

definition filterProtoMenusByAllowed :: "menuNode list \<Rightarrow> gostr set \<Rightarrow> menuNode list" where
  "filterProtoMenusByAllowed items allowed =
     (if allowed = {} then [] else filter (\<lambda>n. nodeId n \<in> allowed) items)"

definition sortMenus :: "menuNode list \<Rightarrow> menuNode list" where
  "sortMenus items = sort_key (\<lambda>n. (pmSort (nodeMenu n), pmName (nodeMenu n))) items"

text \<open>A legal range over a Go map whose keys do not change.\<close>

definition goRange :: "(gostr set \<Rightarrow> gostr list) \<Rightarrow> bool" where
  "goRange rng \<longleftrightarrow> (\<forall>S. finite S \<longrightarrow> set (rng S) = S \<and> distinct (rng S))"

definition copiesByID :: "menuNode list \<Rightarrow> gostr \<Rightarrow> pmenu option" where
  "copiesByID items = foldl (\<lambda>byID n. byID(nodeId n \<mapsto> nodeMenu n)) Map.empty items"

type_synonym links = "gostr list \<times> (gostr \<Rightarrow> gostr list)"

definition linkItem :: "(gostr \<Rightarrow> pmenu option) \<Rightarrow> links \<Rightarrow> gostr \<Rightarrow> links" where
  "linkItem byID l i =
     (case l of (roots, kids) \<Rightarrow>
        case byID i of
          None \<Rightarrow> l
        | Some item \<Rightarrow>
            if pmParentId item = [] then (roots @ [i], kids)
            else (case byID (pmParentId item) of
                    None \<Rightarrow> (roots @ [i], kids)
                  | Some parent \<Rightarrow>
                      (roots, kids(pmParentId item := kids (pmParentId item) @ [i]))))"

primrec readNode :: "nat \<Rightarrow> (gostr \<Rightarrow> pmenu option) \<Rightarrow> (gostr \<Rightarrow> gostr list) \<Rightarrow> gostr \<Rightarrow> menuNode" where
  "readNode 0 byID kids i = MenuNode (the (byID i)) []"
| "readNode (Suc n) byID kids i = MenuNode (the (byID i)) (map (readNode n byID kids) (kids i))"

definition buildMenuTree :: "(gostr set \<Rightarrow> gostr list) \<Rightarrow> menuNode list \<Rightarrow> menuNode list" where
  "buildMenuTree rng items =
     (let byID = copiesByID items;
          (roots, kids) = foldl (linkItem byID) ([], \<lambda>_. []) (rng (nodeId ` set items))
      in sortMenus (map (readNode (length items) byID kids) roots))"

subsection \<open>menu\_nav.go\<close>

definition navAppend ::
  "(gostr \<times> menuNode list) list \<Rightarrow> menuNode \<Rightarrow> (gostr \<times> menuNode list) list" where
  "navAppend nav n =
     (let module = pmModule (nodeMenu n) in
      AList.update module ((case map_of nav module of None \<Rightarrow> [] | Some ns \<Rightarrow> ns) @ [n]) nav)"

text \<open>One platform entry of the loop: its module's navigation becomes its children.\<close>

definition platformEntry ::
  "(gostr set \<Rightarrow> gostr list) \<Rightarrow> (gostr \<times> menuNode list) list \<times> menuNode list \<Rightarrow> menuNode \<Rightarrow>
   (gostr \<times> menuNode list) list \<times> menuNode list" where
  "platformEntry rng st platform =
     (case st of (nav, roots) \<Rightarrow>
        let module = pmModule (nodeMenu platform);
            children = sortMenus (buildMenuTree rng
                         (case map_of nav module of None \<Rightarrow> [] | Some ns \<Rightarrow> ns))
        in (AList.delete module nav, roots @ [MenuNode (nodeMenu platform) children]))"

definition syntheticNode :: "gostr \<Rightarrow> gostr \<Rightarrow> gostr \<Rightarrow> menuNode list \<Rightarrow> menuNode" where
  "syntheticNode i module viewKey children = MenuNode
     \<lparr>pmId = i, pmParentId = [], pmModule = module, pmPlacement = [], pmName = module, pmCode = [],
      pmViewKey = viewKey, pmIcon = [], pmMenuType = 0, pmSort = 0, pmStatus = 0, pmVisible = 0,
      pmIsDefault = False, pmRemark = [], pmSourceType = [], pmSourceId = [], pmCreatedAt = 0\<rparr> children"

definition groupNav :: "menuNode list \<Rightarrow> (gostr \<times> menuNode list) list" where
  "groupNav items =
     foldl navAppend [] (filter (\<lambda>n. pmPlacement (nodeMenu n) = MenuPlacementModuleNav) items)"

definition buildUnifiedNavTree :: "(gostr set \<Rightarrow> gostr list) \<Rightarrow> menuNode list \<Rightarrow> menuNode list" where
  "buildUnifiedNavTree rng items =
     (let platformMenus = filter (\<lambda>n. pmPlacement (nodeMenu n) = MenuPlacementPlatform) items;
          navByModule = groupNav items;
          (rest, roots) = foldl (platformEntry rng) (navByModule, []) (sortMenus platformMenus)
      in if rest = [] then roots
         else roots @ map (\<lambda>module. syntheticNode (''orphan:'' @ module) module []
                (sortMenus (buildMenuTree rng
                  (case map_of rest module of None \<Rightarrow> [] | Some ns \<Rightarrow> ns))))
              (sort (remdups (map fst rest))))"

fun collectNavMenusByModule :: "menuNode list \<Rightarrow> gostr \<Rightarrow> menuNode list" where
  "collectNavMenusByModule [] module = []"
| "collectNavMenusByModule (MenuNode m children # nodes) module =
     (if pmPlacement m = MenuPlacementModuleNav \<and> pmModule m = module then [MenuNode m []] else []) @
     collectNavMenusByModule children module @ collectNavMenusByModule nodes module"

definition filterNavTreeByModule ::
  "(gostr set \<Rightarrow> gostr list) \<Rightarrow> menuNode list \<Rightarrow> gostr \<Rightarrow> menuNode list" where
  "filterNavTreeByModule rng tree module =
     (case filter (\<lambda>n. pmModule (nodeMenu n) = module \<or> pmViewKey (nodeMenu n) = module) tree of
        n # _ \<Rightarrow> [n]
      | [] \<Rightarrow>
          let children = buildMenuTree rng (collectNavMenusByModule tree module) in
          if children \<noteq> [] then
            [syntheticNode (''module:'' @ module) module module (sortMenus children)]
          else [])"

text \<open>All menus of a forest, each before its children.\<close>

primrec nodesOf :: "menuNode \<Rightarrow> pmenu list" where
  "nodesOf (MenuNode m children) = m # concat (map nodesOf children)"

definition forestNodes :: "menuNode list \<Rightarrow> pmenu list" where
  "forestNodes ns = concat (map nodesOf ns)"

primrec wellParented :: "menuNode \<Rightarrow> bool" where
  "wellParented (MenuNode m children) \<longleftrightarrow>
     (\<forall>c \<in> set (map (\<lambda>n. (pmParentId (nodeMenu n), wellParented n)) children). fst c = pmId m \<and> snd c)"

subsection \<open>What buildMenuTree builds\<close>

definition treeUp :: "menuNode list \<Rightarrow> gostr \<Rightarrow> gostr option" where
  "treeUp items i =
     (case copiesByID items i of
        None \<Rightarrow> None
      | Some item \<Rightarrow>
          if pmParentId item = [] \<or> copiesByID items (pmParentId item) = None then None
          else Some (pmParentId item))"

lemma foldl_copies_dom:
  "dom (foldl (\<lambda>byID n. byID(nodeId n \<mapsto> nodeMenu n)) b items) = dom b \<union> nodeId ` set items"
  by (induction items arbitrary: b) auto

lemma dom_copiesByID: "dom (copiesByID items) = nodeId ` set items"
  by (simp add: copiesByID_def foldl_copies_dom)

lemma foldl_copies_Some:
  "foldl (\<lambda>byID n. byID(nodeId n \<mapsto> nodeMenu n)) b items i = Some m \<Longrightarrow>
   b i = Some m \<or> (\<exists>n \<in> set items. nodeMenu n = m \<and> nodeId n = i)"
proof (induction items arbitrary: b)
  case Nil
  then show ?case by simp
next
  case (Cons a items)
  then show ?case using Cons.IH [of "b(nodeId a \<mapsto> nodeMenu a)"] by (auto split: if_splits)
qed

lemma copiesByID_Some: "copiesByID items i = Some m \<Longrightarrow> m \<in> nodeMenu ` set items \<and> pmId m = i"
  using foldl_copies_Some [of Map.empty items i m] by (auto simp: copiesByID_def nodeId_def)

interpretation tree: parent_map "treeUp items" "nodeId ` set items" for items
proof
  show "finite (nodeId ` set items)" by simp
next
  fix x y assume "treeUp items x = Some y"
  then show "x \<in> nodeId ` set items \<and> y \<in> nodeId ` set items"
    by (auto simp: treeUp_def dom_copiesByID [symmetric] split: option.splits if_splits)
qed

lemma linkItem_step:
  "linkItem (copiesByID items) (roots, kids) i =
     (if copiesByID items i = None then (roots, kids)
      else case treeUp items i of
             None \<Rightarrow> (roots @ [i], kids)
           | Some p \<Rightarrow> (roots, kids(p := kids p @ [i])))"
  by (auto simp: linkItem_def treeUp_def split: option.splits)

lemma treeUp_None_outside: "copiesByID items i = None \<Longrightarrow> treeUp items i = None"
  by (simp add: treeUp_def)

lemma foldl_linkItem:
  "foldl (linkItem (copiesByID items)) ([], \<lambda>_. []) order =
     (filter (\<lambda>i. copiesByID items i \<noteq> None \<and> treeUp items i = None) order,
      \<lambda>p. filter (\<lambda>i. treeUp items i = Some p) order)"
proof (induction order rule: rev_induct)
  case Nil
  then show ?case by simp
next
  case (snoc i order)
  then show ?case
    by (auto simp: linkItem_step treeUp_None_outside fun_eq_iff split: option.splits)
qed

definition treeKids :: "(gostr set \<Rightarrow> gostr list) \<Rightarrow> menuNode list \<Rightarrow> gostr \<Rightarrow> gostr list" where
  "treeKids rng items p = filter (\<lambda>i. treeUp items i = Some p) (rng (nodeId ` set items))"

definition treeRoots :: "(gostr set \<Rightarrow> gostr list) \<Rightarrow> menuNode list \<Rightarrow> gostr list" where
  "treeRoots rng items =
     filter (\<lambda>i. copiesByID items i \<noteq> None \<and> treeUp items i = None) (rng (nodeId ` set items))"

lemma buildMenuTree_read:
  "buildMenuTree rng items =
     sortMenus (map (readNode (length items) (copiesByID items) (treeKids rng items)) (treeRoots rng items))"
proof -
  have "treeKids rng items = (\<lambda>p. filter (\<lambda>i. treeUp items i = Some p) (rng (nodeId ` set items)))"
    by (simp add: fun_eq_iff treeKids_def)
  then show ?thesis
    by (simp only: buildMenuTree_def foldl_linkItem treeRoots_def Let_def prod.case)
qed

lemma nodes_readNode: "nodesOf (readNode n byID kids i) = map (\<lambda>j. the (byID j)) (preorder n kids i)"
  by (induction n arbitrary: i) (simp_all add: map_concat comp_def)

lemma readNode_menu [simp]: "nodeMenu (readNode n byID kids i) = the (byID i)"
  by (cases n) simp_all

lemma mset_sortMenus [simp]: "mset (sortMenus ns) = mset ns"
  by (simp add: sortMenus_def mset_sort)

lemma set_sortMenus [simp]: "set (sortMenus ns) = set ns"
  by (simp add: sortMenus_def)

lemma mset_forestNodes: "mset (forestNodes ns) = (\<Sum>n\<in>#mset ns. mset (nodesOf n))"
  by (induction ns) (simp_all add: forestNodes_def)

lemma mset_forestNodes_sort [simp]: "mset (forestNodes (sortMenus ns)) = mset (forestNodes ns)"
  by (simp add: mset_forestNodes)

lemma set_forestNodes_sort [simp]: "set (forestNodes (sortMenus ns)) = set (forestNodes ns)"
  by (metis mset_forestNodes_sort set_mset_mset)

lemma tree_forest_order:
  assumes "goRange rng"
  shows "forest_order (treeUp items) (nodeId ` set items) (treeKids rng items)"
proof
  fix i
  have "set (rng (nodeId ` set items)) = nodeId ` set items" "distinct (rng (nodeId ` set items))"
    using assms by (simp_all add: goRange_def)
  then show "set (treeKids rng items i) = {c. treeUp items c = Some i}" "distinct (treeKids rng items i)"
    using tree.up_in [of items] by (auto simp: treeKids_def)
qed

lemma treeRoots_spec:
  assumes "goRange rng"
  shows "distinct (treeRoots rng items)"
    and "set (treeRoots rng items) = {r \<in> nodeId ` set items. treeUp items r = None}"
proof -
  have r: "set (rng (nodeId ` set items)) = nodeId ` set items" "distinct (rng (nodeId ` set items))"
    using assms by (simp_all add: goRange_def)
  then show "distinct (treeRoots rng items)" by (simp add: treeRoots_def)
  have "copiesByID items i \<noteq> None \<longleftrightarrow> i \<in> nodeId ` set items" for i
    unfolding dom_copiesByID [symmetric] by blast
  with r show "set (treeRoots rng items) = {r \<in> nodeId ` set items. treeUp items r = None}"
    unfolding treeRoots_def by auto
qed

text \<open>The keys of the tree, in the order the nodes are met.\<close>

definition treeKeys :: "(gostr set \<Rightarrow> gostr list) \<Rightarrow> menuNode list \<Rightarrow> gostr list" where
  "treeKeys rng items =
     concat (map (preorder (length items) (treeKids rng items)) (treeRoots rng items))"

lemma card_ids: "card (nodeId ` set items) \<le> length items"
  using card_image_le [of "set items" nodeId] card_length [of items] by simp

lemma treeKeys_spec:
  assumes "goRange rng"
  shows "distinct (treeKeys rng items)"
    and "set (treeKeys rng items) = {i \<in> nodeId ` set items. rooted (treeUp items) i}"
  unfolding treeKeys_def
  using forest_order.forest_preorder [OF tree_forest_order [OF assms] treeRoots_spec [OF assms] card_ids]
  by simp_all

lemma buildMenuTree_nodes:
  "mset (forestNodes (buildMenuTree rng items)) =
   mset (map (\<lambda>i. the (copiesByID items i)) (treeKeys rng items))"
  by (simp add: buildMenuTree_read treeKeys_def forestNodes_def [of "map f xs" for f xs] nodes_readNode
      map_concat comp_def)

lemma copiesByID_the:
  assumes "i \<in> nodeId ` set items"
  shows "pmId (the (copiesByID items i)) = i" and "the (copiesByID items i) \<in> nodeMenu ` set items"
proof -
  obtain m where "copiesByID items i = Some m" using assms dom_copiesByID [of items] by blast
  then show "pmId (the (copiesByID items i)) = i" and "the (copiesByID items i) \<in> nodeMenu ` set items"
    using copiesByID_Some by auto
qed

lemma buildMenuTree_ids:
  assumes "goRange rng"
  shows "mset (map pmId (forestNodes (buildMenuTree rng items))) = mset (treeKeys rng items)"
proof -
  have "map (\<lambda>i. pmId (the (copiesByID items i))) (treeKeys rng items) = treeKeys rng items"
    using treeKeys_spec(2) [OF assms] copiesByID_the(1) by (intro map_idI) auto
  then have "mset (map pmId (map (\<lambda>i. the (copiesByID items i)) (treeKeys rng items))) = mset (treeKeys rng items)"
    by (simp only: map_map comp_def)
  then show ?thesis unfolding mset_map [of pmId] buildMenuTree_nodes .
qed

lemma buildMenuTree_subset:
  assumes "goRange rng"
  shows "set (forestNodes (buildMenuTree rng items)) \<subseteq> nodeMenu ` set items"
proof -
  have "set (forestNodes (buildMenuTree rng items)) =
      set (map (\<lambda>i. the (copiesByID items i)) (treeKeys rng items))"
    using buildMenuTree_nodes by (metis set_mset_mset)
  then show ?thesis using treeKeys_spec(2) [OF assms] copiesByID_the(2) by auto
qed


text \<open>Every node hangs under the menu it names as its parent.\<close>

lemma readNode_wellParented:
  assumes "\<And>c p. c \<in> set (kids p) \<Longrightarrow> pmParentId (the (byID c)) = p"
    and "\<And>c p. c \<in> set (kids p) \<Longrightarrow> pmId (the (byID c)) = c"
    and "pmId (the (byID i)) = i"
  shows "wellParented (readNode n byID kids i)"
  using assms(3)
proof (induction n arbitrary: i)
  case 0
  then show ?case by simp
next
  case (Suc n)
  then show ?case using assms(1,2) by (auto simp del: readNode.simps simp: readNode.simps(2))
qed

lemma treeUp_parent:
  "treeUp items c = Some p \<Longrightarrow> pmParentId (the (copiesByID items c)) = p"
  by (auto simp: treeUp_def split: option.splits if_splits)

lemma buildMenuTree_wellParented:
  assumes "goRange rng"
  shows "\<forall>n \<in> set (buildMenuTree rng items). wellParented n"
proof -
  have "wellParented (readNode k (copiesByID items) (treeKids rng items) i)"
    if "i \<in> nodeId ` set items" for k i
  proof (rule readNode_wellParented)
    fix c p assume "c \<in> set (treeKids rng items p)"
    then have c: "treeUp items c = Some p"
      using forest_order.kids_set [OF tree_forest_order [OF assms]] by auto
    then show "pmParentId (the (copiesByID items c)) = p" by (rule treeUp_parent)
    show "pmId (the (copiesByID items c)) = c"
      using tree.up_in [OF c] copiesByID_the(1) by blast
  next
    show "pmId (the (copiesByID items i)) = i" using that by (rule copiesByID_the(1))
  qed
  moreover have "set (treeRoots rng items) \<subseteq> nodeId ` set items"
    using treeRoots_spec(2) [OF assms] by blast
  ultimately show ?thesis by (auto simp: buildMenuTree_read)
qed

text \<open>The top of the forest is exactly the nodes without a parent among the items, in order.\<close>

lemma buildMenuTree_tops:
  assumes "goRange rng"
  shows "(\<lambda>n. pmId (nodeMenu n)) ` set (buildMenuTree rng items) =
    {r \<in> nodeId ` set items. treeUp items r = None}"
proof -
  have tops: "set (treeRoots rng items) = {r \<in> nodeId ` set items. treeUp items r = None}"
    by (rule treeRoots_spec(2) [OF assms])
  have "pmId (the (copiesByID items r)) = r" if "r \<in> set (treeRoots rng items)" for r
    using that tops copiesByID_the(1) by blast
  then show ?thesis unfolding tops [symmetric] by (force simp: buildMenuTree_read)
qed

lemma buildMenuTree_sorted:
  "sorted (map (\<lambda>n. (pmSort (nodeMenu n), pmName (nodeMenu n))) (buildMenuTree rng items))"
  by (simp add: buildMenuTree_read sortMenus_def del: set_sortMenus)

text \<open>Reading deeper than the number of items changes nothing.\<close>

lemma readNode_fuel:
  assumes "\<And>x. climb up (Suc n) x \<noteq> Some i" and "\<And>p. set (kids p) = {c. up c = Some p}"
  shows "readNode (n + k) byID kids i = readNode n byID kids i"
  using assms(1)
proof (induction n arbitrary: i)
  case 0
  then have "kids i = []"
    using assms(2) [of i] by (auto simp: set_empty [symmetric] simp del: set_empty split: option.splits)
  then show ?case by (cases k) simp_all
next
  case (Suc n)
  have "climb up (Suc n) x \<noteq> Some c" if "c \<in> set (kids i)" for c x
    using Suc.prems [of x] that assms(2) [of i] by auto
  then show ?case using Suc.IH by simp
qed

lemma readNode_enough:
  assumes "goRange rng" and "i \<in> set (treeRoots rng items)" and "length items \<le> m"
  shows "readNode m (copiesByID items) (treeKids rng items) i =
         readNode (length items) (copiesByID items) (treeKids rng items) i"
proof -
  have "treeUp items i = None" using assms(2) treeRoots_spec(2) [OF assms(1)] by simp
  then have "climb (treeUp items) (Suc (length items)) x \<noteq> Some i" for x
    using tree.climb_not_deep card_ids by blast
  from readNode_fuel [OF this forest_order.kids_set [OF tree_forest_order [OF assms(1)]],
      where k = "m - length items"] assms(3)
  show ?thesis by simp
qed

subsection \<open>The navigation\<close>

lemma forestNodes_simps [simp]:
  "forestNodes [] = []"
  "forestNodes (n # ns) = nodesOf n @ forestNodes ns"
  "forestNodes (ns @ ms) = forestNodes ns @ forestNodes ms"
  by (simp_all add: forestNodes_def)

lemma nodesOf_MenuNode: "nodesOf (MenuNode m ns) = m # forestNodes ns"
  by (simp add: forestNodes_def)

lemma collectNav_nodes:
  "nodeMenu ` set (collectNavMenusByModule tree module) \<subseteq> set (forestNodes tree)"
  by (induction tree module rule: collectNavMenusByModule.induct)
    (auto simp: nodesOf_MenuNode simp del: nodesOf.simps)

text \<open>A node made by the code itself, for a module without an entry of its own.\<close>

definition synthetic :: "pmenu \<Rightarrow> bool" where
  "synthetic m \<longleftrightarrow> (\<exists>pre. (pre = ''orphan:'' \<or> pre = ''module:'') \<and> pmId m = pre @ pmModule m) \<and> pmPlacement m = []"

lemma synthetic_node: "pre = ''orphan:'' \<or> pre = ''module:'' \<Longrightarrow>
   synthetic (nodeMenu (syntheticNode (pre @ module) module vk ns))"
  by (auto simp: synthetic_def syntheticNode_def)

lemma nodes_syntheticNode:
  "nodesOf (syntheticNode i module vk ns) = nodeMenu (syntheticNode i module vk ns) # forestNodes ns"
  by (simp add: syntheticNode_def nodesOf_MenuNode del: nodesOf.simps)

text \<open>The group of a module, and the nodes of the trees of all groups of a map.\<close>

definition navGroup :: "menuNode list \<Rightarrow> gostr \<Rightarrow> menuNode list" where
  "navGroup items module =
     filter (\<lambda>n. pmPlacement (nodeMenu n) = MenuPlacementModuleNav \<and> pmModule (nodeMenu n) = module) items"

definition navLookup :: "(gostr \<times> menuNode list) list \<Rightarrow> gostr \<Rightarrow> menuNode list" where
  "navLookup nav k = (case map_of nav k of None \<Rightarrow> [] | Some ns \<Rightarrow> ns)"

definition navTrees :: "(gostr set \<Rightarrow> gostr list) \<Rightarrow> (gostr \<times> menuNode list) list \<Rightarrow> pmenu set" where
  "navTrees rng nav = (\<Union>k. set (forestNodes (buildMenuTree rng (navLookup nav k))))"

lemma navLookup_append:
  "navLookup (navAppend nav n) k =
     navLookup nav k @ (if pmModule (nodeMenu n) = k then [n] else [])"
  by (simp add: navLookup_def navAppend_def Let_def AList.update_conv')

lemma navLookup_delete: "navLookup (AList.delete k nav) j = (if j = k then [] else navLookup nav j)"
  by (simp add: navLookup_def AList.delete_conv')

lemma navLookup_group: "navLookup (groupNav items) k = navGroup items k"
proof -
  have "navLookup (foldl navAppend nav ns) k =
      navLookup nav k @ filter (\<lambda>n. pmModule (nodeMenu n) = k) ns" for nav ns
    by (induction ns arbitrary: nav) (simp_all add: navLookup_append)
  moreover have "navLookup [] k = []" by (simp add: navLookup_def)
  ultimately show ?thesis by (simp add: groupNav_def navGroup_def conj_commute)
qed

lemma buildMenuTree_Nil [simp]: "goRange rng \<Longrightarrow> buildMenuTree rng [] = []"
proof -
  assume "goRange rng"
  then have "set (rng {}) = {}" by (simp add: goRange_def)
  then show "buildMenuTree rng [] = []" by (simp add: buildMenuTree_def sortMenus_def)
qed

lemma navTrees_delete:
  assumes "goRange rng"
  shows "navTrees rng nav =
    set (forestNodes (buildMenuTree rng (navLookup nav k))) \<union> navTrees rng (AList.delete k nav)"
  using assms by (auto simp: navTrees_def navLookup_delete split: if_splits)

lemma platformEntry_nodes:
  assumes "goRange rng"
  shows "(case platformEntry rng (nav, roots) p of (nav', roots') \<Rightarrow>
      set (forestNodes roots') \<union> navTrees rng nav') =
    insert (nodeMenu p) (set (forestNodes roots) \<union> navTrees rng nav)"
  using navTrees_delete [OF assms, of nav "pmModule (nodeMenu p)"]
  by (auto simp: platformEntry_def Let_def nodesOf_MenuNode navLookup_def [symmetric] simp del: nodesOf.simps)

lemma foldl_platformEntry_nodes:
  assumes "goRange rng"
  shows "(case foldl (platformEntry rng) (nav, roots) ps of (nav', roots') \<Rightarrow>
      set (forestNodes roots') \<union> navTrees rng nav') =
    nodeMenu ` set ps \<union> set (forestNodes roots) \<union> navTrees rng nav"
proof (induction ps arbitrary: nav roots)
  case Nil
  then show ?case by simp
next
  case (Cons p ps)
  obtain nav' roots' where step: "platformEntry rng (nav, roots) p = (nav', roots')" by fastforce
  show ?case using Cons.IH [of nav' roots'] platformEntry_nodes [OF assms, of nav roots p]
    by (simp add: step) blast
qed

lemma orphan_nodes:
  "set (forestNodes (map (\<lambda>k. syntheticNode (''orphan:'' @ k) k [] (sortMenus (buildMenuTree rng (navLookup nav k)))) ks))
   = (\<lambda>k. nodeMenu (syntheticNode (''orphan:'' @ k) k [] [])) ` set ks \<union>
     (\<Union>k \<in> set ks. set (forestNodes (buildMenuTree rng (navLookup nav k))))"
proof (induction ks)
  case Nil
  then show ?case by simp
next
  case (Cons k ks)
  have node: "set (nodesOf (syntheticNode (''orphan:'' @ k) k [] (sortMenus (buildMenuTree rng (navLookup nav k))))) =
     insert (nodeMenu (syntheticNode (''orphan:'' @ k) k [] [])) (set (forestNodes (buildMenuTree rng (navLookup nav k))))"
    by (simp add: syntheticNode_def nodesOf_MenuNode del: nodesOf.simps)
  have swap: "insert a T \<union> (F \<union> U) = insert a F \<union> (T \<union> U)" for a :: pmenu and T F U by blast
  show ?case
    unfolding list.map forestNodes_simps set_append Cons.IH list.set image_insert Union_insert node
    by (rule swap)
qed

lemma navTrees_keys:
  assumes "goRange rng"
  shows "navTrees rng nav = (\<Union>k \<in> fst ` set nav. set (forestNodes (buildMenuTree rng (navLookup nav k))))"
proof -
  have union: "(\<Union>k. F k) = (\<Union>k \<in> A. F k)" if "\<And>k. k \<notin> A \<Longrightarrow> F k = {}" for F :: "gostr \<Rightarrow> pmenu set" and A
    using that by (metis (no_types, lifting) SUP_mono SUP_upper UNIV_I UN_least empty_subsetI subset_antisym)
  show ?thesis unfolding navTrees_def
  proof (rule union)
    fix k assume "k \<notin> fst ` set nav"
    then show "set (forestNodes (buildMenuTree rng (navLookup nav k))) = {}"
      using assms map_of_eq_None_iff [of nav k] by (simp add: navLookup_def)
  qed
qed

lemma unified_nodes:
  assumes "goRange rng"
  shows "\<exists>S \<subseteq> Collect synthetic. set (forestNodes (buildUnifiedNavTree rng items)) =
     nodeMenu ` {n \<in> set items. pmPlacement (nodeMenu n) = MenuPlacementPlatform} \<union>
     (\<Union>k. set (forestNodes (buildMenuTree rng (navGroup items k)))) \<union> S"
proof -
  let ?ps = "filter (\<lambda>n. pmPlacement (nodeMenu n) = MenuPlacementPlatform) items"
  obtain rest roots where fold: "foldl (platformEntry rng) (groupNav items, []) (sortMenus ?ps) = (rest, roots)"
    by fastforce
  let ?S = "(\<lambda>k. nodeMenu (syntheticNode (''orphan:'' @ k) k [] [])) ` (fst ` set rest)"
  have "set (forestNodes roots) \<union> navTrees rng rest =
      nodeMenu ` set ?ps \<union> navTrees rng (groupNav items)"
    using foldl_platformEntry_nodes [OF assms, of "groupNav items" "[]" "sortMenus ?ps"]
    by (simp only: fold prod.case set_sortMenus forestNodes_simps) simp
  moreover have "set (forestNodes (buildUnifiedNavTree rng items)) =
      set (forestNodes roots) \<union> navTrees rng rest \<union> ?S"
    using orphan_nodes [of rng rest "sort (remdups (map fst rest))"] navTrees_keys [OF assms, of rest]
    by (auto simp: buildUnifiedNavTree_def Let_def fold navLookup_def [symmetric])
  moreover have "navTrees rng (groupNav items) = (\<Union>k. set (forestNodes (buildMenuTree rng (navGroup items k))))"
    by (simp add: navTrees_def navLookup_group)
  moreover have "?S \<subseteq> Collect synthetic"
    by (intro image_subsetI CollectI synthetic_node disjI1 refl)
  ultimately show ?thesis by (intro exI [of _ ?S]) auto
qed

lemma unified_safe:
  assumes "goRange rng"
  shows "set (forestNodes (buildUnifiedNavTree rng items)) \<subseteq> nodeMenu ` set items \<union> Collect synthetic"
proof -
  have "set (forestNodes (buildMenuTree rng (navGroup items k))) \<subseteq> nodeMenu ` set items" for k
    using buildMenuTree_subset [OF assms, of "navGroup items k"] by (auto simp: navGroup_def)
  then show ?thesis using unified_nodes [OF assms, of items] by blast
qed

lemma filterNav_safe:
  assumes "goRange rng"
  shows "set (forestNodes (filterNavTreeByModule rng tree module)) \<subseteq> set (forestNodes tree) \<union> Collect synthetic"
proof (cases "filter (\<lambda>n. pmModule (nodeMenu n) = module \<or> pmViewKey (nodeMenu n) = module) tree")
  case (Cons n ns)
  then have "n \<in> set tree" by (metis filter_is_subset list.set_intros(1) subsetD)
  then show ?thesis using Cons by (auto simp: filterNavTreeByModule_def forestNodes_def)
next
  case Nil
  have "set (forestNodes (buildMenuTree rng (collectNavMenusByModule tree module))) \<subseteq> set (forestNodes tree)"
    using buildMenuTree_subset [OF assms] collectNav_nodes by blast
  moreover have "synthetic (nodeMenu (syntheticNode (''module:'' @ module) module module ns))" for ns
    by (rule synthetic_node) simp
  ultimately show ?thesis
    using Nil by (auto simp: filterNavTreeByModule_def Let_def nodes_syntheticNode)
qed

end
