(* ===== verification/Menu_Logic.thy ===== *)
theory Menu_Logic
  imports Menu_Tree
begin

text \<open>
  \<^verbatim>\<open>system/internal/logic/menu.go\<close>, \<^verbatim>\<open>menu_nav.go\<close>: the handlers that list,
  create, change and delete menus, and the navigation of a user.  A handler is an action on the
  tables; \<open>hasLog\<close> says whether the logic was built with an operation log, \<open>rng\<close> is
  the order of Go's map ranges.
\<close>

record menuReq =
  mqId :: gostr
  mqParentId :: gostr
  mqModule :: gostr
  mqPlacement :: gostr
  mqName :: gostr
  mqCode :: gostr
  mqViewKey :: gostr
  mqIcon :: gostr
  mqMenuType :: int
  mqSort :: int
  mqStatus :: int
  mqVisible :: int
  mqIsDefault :: bool
  mqRemark :: gostr

definition validateMenuType :: "int \<Rightarrow> err + unit" where
  "validateMenuType menuType =
     (if menuType = MenuTypeDirectory \<or> menuType = MenuTypeMenu \<or> menuType = MenuTypeButton then Inr ()
      else Inl (Err ''menu_type must be 1 (directory), 2 (menu) or 3 (button)''))"

definition validatePlacement :: "gostr \<Rightarrow> err + unit" where
  "validatePlacement placement =
     (if placement = MenuPlacementModuleNav then Inr ()
      else Inl (Err ''placement must be module_nav''))"

definition normalizeMenuStatus :: "int \<Rightarrow> int \<Rightarrow> err + int" where
  "normalizeMenuStatus status fallback =
     (if status = 0 then Inr fallback
      else if status = MenuStatusEnabled \<or> status = MenuStatusDisabled then Inr status
      else Inl (Err ''status must be 1 (enabled) or 2 (disabled)''))"

definition normalizeMenuVisible :: "int \<Rightarrow> err + unit" where
  "normalizeMenuVisible visible =
     (if visible = MenuVisibleYes \<or> visible = MenuVisibleNo then Inr ()
      else Inl (Err ''visible must be 1 or 0''))"

definition wrapMenuNotFoundError :: "err \<Rightarrow> err" where
  "wrapMenuNotFoundError = wrapNotFound ''menu not found''"

definition wrapMenuDuplicateError :: "err \<Rightarrow> err" where
  "wrapMenuDuplicateError = wrapDuplicate ''menu code already exists''"

definition requireText :: "gostr \<Rightarrow> gostr \<Rightarrow> unit sysact" where
  "requireText value msg = (if value = [] then failA (Err msg) else retA ())"

text \<open>The checks on the parent named in the input.\<close>

definition checkMenuParent :: "gostr \<Rightarrow> gostr \<Rightarrow> gostr \<Rightarrow> gostr \<Rightarrow> unit sysact" where
  "checkMenuParent i parentID module placement =
     (if parentID = [] then retA ()
      else if i \<noteq> [] \<and> parentID = i then failA (Err ''parent_id cannot be self'')
      else
        bindA (wrapErrA (\<lambda>_. Err ''parent menu not found'') (Menu_Get parentID)) (\<lambda>parent.
        if mModule parent \<noteq> module \<or> mPlacement parent \<noteq> placement then
          failA (Err ''parent menu module or placement mismatch'')
        else if mMenuType parent \<noteq> MenuTypeDirectory \<and>
                \<not> (mMenuType parent = MenuTypeMenu \<and> mCode parent = FuncUseMenuCode) then
          failA (Err ''parent menu must be directory'')
        else retA ()))"

definition buildMenuFromInput :: "gostr \<Rightarrow> menuReq \<Rightarrow> menu sysact" where
  "buildMenuFromInput i q =
     (let parentID = trimSpace (mqParentId q);
          module = trimSpace (mqModule q);
          placement = trimSpace (mqPlacement q);
          name = trimSpace (mqName q);
          code = trimSpace (mqCode q);
          viewKey = trimSpace (mqViewKey q);
          viewKey = (if viewKey = [] then code else viewKey);
          icon = trimSpace (mqIcon q);
          remark = trimSpace (mqRemark q);
          menuType = (if mqMenuType q = 0 then MenuTypeMenu else mqMenuType q) in
      bindA (requireText module ''module is required'') (\<lambda>_.
      bindA (requireText placement ''placement is required'') (\<lambda>_.
      bindA (requireText name ''name is required'') (\<lambda>_.
      bindA (requireText code ''code is required'') (\<lambda>_.
      bindA (liftA (validateMenuType menuType)) (\<lambda>_.
      bindA (liftA (validatePlacement placement)) (\<lambda>_.
      bindA (liftA (normalizeMenuStatus
               (toInt32 (if mqStatus q = 0 then MenuStatusEnabled else mqStatus q)) MenuStatusEnabled)) (\<lambda>status.
      let visible = (if mqVisible q = 0 then MenuVisibleYes else mqVisible q) in
      bindA (liftA (normalizeMenuVisible (toInt32 visible))) (\<lambda>_.
      bindA (checkMenuParent i parentID module placement) (\<lambda>_.
      bindA (if mqSort q \<le> 0 then
               bindA (Menu_MaxSort parentID module placement) (\<lambda>maxSort. retA (maxSort + 10))
             else retA (mqSort q)) (\<lambda>sort.
      bindA nowA (\<lambda>now.
      bindA (if i = [] then newUUID else retA i) (\<lambda>i.
      retA \<lparr>mID = i, mParentID = parentID, mModule = module, mPlacement = placement, mName = name,
            mCode = code, mViewKey = viewKey, mIcon = icon, mMenuType = menuType, mSort = sort,
            mStatus = status, mVisible = visible, mIsDefault = mqIsDefault q, mRemark = remark,
            mSourceType = MenuSourceTypeStatic, mSourceID = [],
            mCreatedAt = now, mUpdatedAt = now\<rparr>)))))))))))))"

definition menuAuditJSON :: "menu \<Rightarrow> audit" where
  "menuAuditJSON m = AuditMenu
     \<lparr>maParentID = mParentID m, maModule = mModule m, maPlacement = mPlacement m, maName = mName m,
      maCode = mCode m, maViewKey = mViewKey m, maMenuType = mMenuType m, maSort = mSort m,
      maStatus = mStatus m, maVisible = mVisible m, maIsDefault = mIsDefault m, maRemark = mRemark m\<rparr>"

definition recordMenuChange ::
  "bool \<Rightarrow> goctx \<Rightarrow> gostr \<Rightarrow> gostr \<Rightarrow> menu \<Rightarrow> audit \<Rightarrow> audit \<Rightarrow> unit sysact" where
  "recordMenuChange hasLog ctx action actionLabel m beforeData afterData =
     recordChange hasLog ctx OperationResourceMenu action actionLabel (mID m) (mName m) beforeData afterData"

definition isGeneratedFunctionMenu :: "menu \<Rightarrow> bool" where
  "isGeneratedFunctionMenu m \<longleftrightarrow>
     mSourceType m = MenuSourceTypeGeneratedFunction \<or> hasPrefix (mCode m) ''func-operation.app.''"

subsection \<open>Handlers\<close>

definition ListMenus ::
  "(gostr set \<Rightarrow> gostr list) \<Rightarrow> menuFilter \<Rightarrow> bool \<Rightarrow> menuNode list sysact" where
  "ListMenus rng req tree =
     bindA (Menu_List \<lparr>mfModule = trimSpace (mfModule req), mfPlacement = trimSpace (mfPlacement req),
                       mfStatus = mfStatus req\<rparr>) (\<lambda>menus.
     let items = map (\<lambda>m. modelMenuToProto m []) menus in
     if tree then retA (buildMenuTree rng items) else retA items)"

definition CreateMenu :: "bool \<Rightarrow> goctx \<Rightarrow> menuReq \<Rightarrow> menuNode sysact" where
  "CreateMenu hasLog ctx req =
     bindA (buildMenuFromInput [] req) (\<lambda>menu.
     bindA (wrapErrA wrapMenuDuplicateError (transactionA (
       bindA (Menu_Create menu) (\<lambda>_.
       recordMenuChange hasLog ctx ''menu.create'' (utf8 [229, 136, 155, 229, 187, 186, 232, 143, 156, 229, 141, 149]) menu AuditNone (menuAuditJSON menu))))) (\<lambda>_.
     retA (modelMenuToProto menu [])))"

definition UpdateMenu :: "bool \<Rightarrow> goctx \<Rightarrow> menuReq \<Rightarrow> menuNode sysact" where
  "UpdateMenu hasLog ctx req =
     (let i = trimSpace (mqId req) in
      if i = [] then failA (Err ''id is required'')
      else
      bindA (wrapErrA wrapMenuNotFoundError (Menu_Get i)) (\<lambda>existing.
      if isGeneratedFunctionMenu existing then failA (Err ''generated function menu is read-only'')
      else
      bindA (buildMenuFromInput i req) (\<lambda>menu.
      let menu = menu\<lparr>mCreatedAt := mCreatedAt existing\<rparr>;
          menu = (if mSort menu = 0 then menu\<lparr>mSort := mSort existing\<rparr> else menu) in
      bindA (wrapErrA wrapMenuDuplicateError (transactionA (
        bindA (Menu_Update menu) (\<lambda>_.
        recordMenuChange hasLog ctx ''menu.update'' (utf8 [230, 155, 180, 230, 150, 176, 232, 143, 156, 229, 141, 149]) menu
          (menuAuditJSON existing) (menuAuditJSON menu))))) (\<lambda>_.
      retA (modelMenuToProto menu [])))))"

definition DeleteMenu :: "bool \<Rightarrow> goctx \<Rightarrow> gostr \<Rightarrow> unit sysact" where
  "DeleteMenu hasLog ctx reqID =
     (let i = trimSpace reqID in
      if i = [] then failA (Err ''id is required'')
      else
      bindA (wrapErrA wrapMenuNotFoundError (Menu_Get i)) (\<lambda>existing.
      if isGeneratedFunctionMenu existing then
        failA (Err ''generated function menu cannot be deleted manually'')
      else
      bindA (Menu_CountChildren i) (\<lambda>childCount.
      if childCount > 0 then failA (Err ''menu has children'')
      else
      wrapErrA wrapMenuNotFoundError (transactionA (
        bindA (Menu_Delete i) (\<lambda>_.
        recordMenuChange hasLog ctx ''menu.delete'' (utf8 [229, 136, 160, 233, 153, 164, 232, 143, 156, 229, 141, 149]) existing (menuAuditJSON existing) AuditNone))))))"

definition setMenuStatus :: "bool \<Rightarrow> goctx \<Rightarrow> gostr \<Rightarrow> int \<Rightarrow> menuNode sysact" where
  "setMenuStatus hasLog ctx reqID status =
     (let i = trimSpace reqID in
      if i = [] then failA (Err ''id is required'')
      else
      bindA (wrapErrA wrapMenuNotFoundError (Menu_Get i)) (\<lambda>existing.
      bindA nowA (\<lambda>now.
      let menu = existing\<lparr>mStatus := status, mUpdatedAt := now\<rparr> in
      let (action, actionLabel) =
            (if status = MenuStatusDisabled then (''menu.disable'', (utf8 [231, 166, 129, 231, 148, 168, 232, 143, 156, 229, 141, 149]))
             else (''menu.enable'', (utf8 [229, 144, 175, 231, 148, 168, 232, 143, 156, 229, 141, 149]))) in
      bindA (wrapErrA wrapMenuNotFoundError (transactionA (
        bindA (Menu_UpdateStatus i status (mUpdatedAt menu)) (\<lambda>_.
        recordMenuChange hasLog ctx action actionLabel menu
          (menuAuditJSON existing) (menuAuditJSON menu))))) (\<lambda>_.
      retA (modelMenuToProto menu [])))))"

definition EnableMenu :: "bool \<Rightarrow> goctx \<Rightarrow> gostr \<Rightarrow> menuNode sysact" where
  "EnableMenu hasLog ctx reqID = setMenuStatus hasLog ctx reqID MenuStatusEnabled"

definition DisableMenu :: "bool \<Rightarrow> goctx \<Rightarrow> gostr \<Rightarrow> menuNode sysact" where
  "DisableMenu hasLog ctx reqID = setMenuStatus hasLog ctx reqID MenuStatusDisabled"

text \<open>The identifier of the caller wins over the one in the request.\<close>

definition effectiveUserID :: "goctx \<Rightarrow> gostr \<Rightarrow> gostr" where
  "effectiveUserID ctx reqUserID =
     (case RequireUserID ctx of Inr ctxUserID \<Rightarrow> ctxUserID | Inl _ \<Rightarrow> trimSpace reqUserID)"

definition GetNavMenus ::
  "(gostr set \<Rightarrow> gostr list) \<Rightarrow> goctx \<Rightarrow> gostr \<Rightarrow> gostr \<Rightarrow> menuNode list sysact" where
  "GetNavMenus rng ctx reqUserID reqModule =
     bindA (Menu_List \<lparr>mfModule = [], mfPlacement = [], mfStatus = MenuStatusEnabled\<rparr>) (\<lambda>menus.
     let items = map (\<lambda>m. modelMenuToProto m []) (filter (\<lambda>m. mVisible m = MenuVisibleYes) menus);
         userID = effectiveUserID ctx reqUserID in
     if userID = [] then retA []
     else
     bindA (Role_ListMenuIDsByUser userID) (\<lambda>menuIDs.
     if menuIDs = [] then retA []
     else
     let allowed = expandAllowedMenuIDs menus (rng (menuIDsToSet menuIDs)) rng;
         items = filterProtoMenusByAllowed items allowed;
         tree = buildUnifiedNavTree rng items;
         module = trimSpace reqModule in
     if module = [] then retA tree else retA (filterNavTreeByModule rng tree module)))"

subsection \<open>What the handlers keep\<close>

lemma readonly_requireText [act_frame, simp]: "readonly (requireText v msg)"
  by (simp add: requireText_def)

lemma readonly_checkMenuParent [act_frame, simp]: "readonly (checkMenuParent i p a b)"
  unfolding checkMenuParent_def
  by (simp add: readonly_bind readonly_wrap)

lemma readonly_buildMenuFromInput [act_frame, simp]: "readonly (buildMenuFromInput i q)"
  unfolding buildMenuFromInput_def Let_def
  by (intro readonly_bind) (auto simp: readonly_bind)

lemma requireText_Inr [simp]: "requireText v msg w = (Inr u, w') \<longleftrightarrow> v \<noteq> [] \<and> w' = w"
  by (simp add: requireText_def)

text \<open>The menu that leaves the validation.\<close>

definition validMenuFor :: "gostr \<Rightarrow> menuReq \<Rightarrow> menu \<Rightarrow> bool" where
  "validMenuFor i q m \<longleftrightarrow>
     (i \<noteq> [] \<longrightarrow> mID m = i) \<and> mParentID m = trimSpace (mqParentId q) \<and>
     mModule m = trimSpace (mqModule q) \<and> mModule m \<noteq> [] \<and>
     mPlacement m = MenuPlacementModuleNav \<and> mName m = trimSpace (mqName q) \<and> mName m \<noteq> [] \<and>
     mCode m = trimSpace (mqCode q) \<and> mCode m \<noteq> [] \<and> mViewKey m \<noteq> [] \<and>
     mMenuType m \<in> {MenuTypeDirectory, MenuTypeMenu, MenuTypeButton} \<and>
     mStatus m \<in> {MenuStatusEnabled, MenuStatusDisabled} \<and>
     mSourceType m = MenuSourceTypeStatic \<and> mSourceID m = [] \<and>
     (0 < mqSort q \<longrightarrow> mSort m = mqSort q)"

lemma validateMenuType_Inr [simp]:
  "validateMenuType t = Inr u \<longleftrightarrow> t \<in> {MenuTypeDirectory, MenuTypeMenu, MenuTypeButton}"
  by (auto simp: validateMenuType_def)

lemma validatePlacement_Inr [simp]: "validatePlacement p = Inr u \<longleftrightarrow> p = MenuPlacementModuleNav"
  by (auto simp: validatePlacement_def)

lemma normalizeMenuVisible_Inr [simp]:
  "normalizeMenuVisible v = Inr u \<longleftrightarrow> v = MenuVisibleYes \<or> v = MenuVisibleNo"
  by (auto simp: normalizeMenuVisible_def)

lemma normalizeMenuStatus_Inr:
  "normalizeMenuStatus s MenuStatusEnabled = Inr v \<Longrightarrow> v \<in> {MenuStatusEnabled, MenuStatusDisabled}"
  by (auto simp: normalizeMenuStatus_def split: if_splits)

lemma buildMenuFromInput_valid:
  assumes "buildMenuFromInput i q w = (Inr m, w')"
  shows "validMenuFor i q m"
  using assms unfolding buildMenuFromInput_def Let_def
  apply (elim bindA_InrE)
  apply (simp only: retA_iff sum.inject liftA_iff)
  apply (elim conjE)
  apply (drule normalizeMenuStatus_Inr)
  apply (auto simp: validMenuFor_def)
  done

lemma buildMenuFromInput_id:
  assumes "i \<noteq> [] \<Longrightarrow> okID i" and "\<And>d e. P d \<Longrightarrow> E e d"
  shows "triple P (buildMenuFromInput i q) (\<lambda>m d. P d \<and> okID (mID m)) E"
  unfolding buildMenuFromInput_def Let_def
  apply (rule triple_bind_readonly, simp, erule assms(2))+
     apply (rule triple_bind_readonly, simp add: readonly_bind, erule assms(2))
   apply (rule triple_bind_readonly, simp, erule assms(2))
  apply (rule triple_bind [where R = "\<lambda>i d. P d \<and> okID i"])
   apply (cases "i = []")
    apply (simp, rule triple_uuid, simp)
   apply (simp, rule triple_ret, simp add: assms(1))
  apply (rule triple_ret, simp)
  done

text \<open>
  A request never produces a hidden menu: \<^verbatim>\<open>visible == 0\<close> is read as ``not given''
  before it is checked.
\<close>

lemma buildMenuFromInput_visible:
  assumes "buildMenuFromInput i q w = (Inr m, w')" and "mqVisible q \<in> {- (2 ^ 31)..<2 ^ 31}"
  shows "mVisible m = MenuVisibleYes"
  using assms unfolding buildMenuFromInput_def Let_def
  apply (elim bindA_InrE)
  apply (simp only: retA_iff sum.inject liftA_iff)
  apply (auto simp: toInt32_id menu_consts)
  done

lemma recordMenuChange_ok [sys_keeps]: "preserves sys_ok (recordMenuChange b ctx a al m x y)"
  unfolding recordMenuChange_def by (rule recordChange_ok)

text \<open>A change in a transaction together with its log row, its error rewritten.\<close>

lemma loggedChange_ok:
  assumes "triple P m (\<lambda>_. sys_ok) (\<lambda>_ _. True)" and "\<And>d. P d \<Longrightarrow> sys_ok d" and "preserves sys_ok r"
  shows "triple P (wrapErrA f (transactionA (bindA m (\<lambda>_. r)))) (\<lambda>_. sys_ok) (\<lambda>_. sys_ok)"
  using assms
  by (intro triple_wrap triple_transaction triple_bind [where R = "\<lambda>_. sys_ok"])
    (auto intro: triple_post)

lemma triple_weaken: "triple P m (\<lambda>_. sys_ok) (\<lambda>_. sys_ok) \<Longrightarrow> triple P m (\<lambda>_. sys_ok) (\<lambda>_ _. True)"
  by (rule triple_post) auto

lemma CreateMenu_ok [sys_keeps]: "preserves sys_ok (CreateMenu b ctx q)"
  unfolding CreateMenu_def
proof (rule triple_bind [OF buildMenuFromInput_id])
  fix m
  show "triple (\<lambda>d. sys_ok d \<and> okID (mID m))
      (bindA (wrapErrA wrapMenuDuplicateError (transactionA (bindA (Menu_Create m) (\<lambda>_.
         recordMenuChange b ctx ''menu.create'' (utf8 [229, 136, 155, 229, 187, 186, 232, 143, 156, 229, 141, 149]) m AuditNone (menuAuditJSON m)))))
        (\<lambda>_. retA (modelMenuToProto m []))) (\<lambda>_. sys_ok) (\<lambda>_. sys_ok)"
  proof (rule triple_bind [OF loggedChange_ok])
    show "triple (\<lambda>d. sys_ok d \<and> okID (mID m)) (Menu_Create m) (\<lambda>_. sys_ok) (\<lambda>_ _. True)"
      unfolding Menu_Create_def by (rule triple_stmt) (auto intro: insertMenu_ok)
  qed (auto intro: sys_keeps triple_ret)
qed auto

lemma UpdateMenu_ok [sys_keeps]: "preserves sys_ok (UpdateMenu b ctx q)"
  unfolding UpdateMenu_def Let_def
  apply (rule triple_if, rule triple_fail, assumption)
  apply (rule triple_bind_readonly, simp add: readonly_wrap, assumption)
  apply (rule triple_if, rule triple_fail, assumption)
  apply (rule triple_bind_readonly, simp, assumption)
  apply (rule triple_bind [where R = "\<lambda>_. sys_ok"])
   apply (rule loggedChange_ok, rule triple_weaken, rule sys_keeps, assumption, rule sys_keeps)
  apply (rule triple_ret, assumption)
  done

lemma DeleteMenu_ok [sys_keeps]: "preserves sys_ok (DeleteMenu b ctx i)"
  unfolding DeleteMenu_def Let_def
  apply (rule triple_if, rule triple_fail, assumption)
  apply (rule triple_bind_readonly, simp add: readonly_wrap, assumption)
  apply (rule triple_if, rule triple_fail, assumption)
  apply (rule triple_bind_readonly, simp, assumption)
  apply (rule triple_if, rule triple_fail, assumption)
  apply (rule loggedChange_ok, rule triple_weaken, rule sys_keeps, assumption, rule sys_keeps)
  done

lemma setMenuStatus_ok [sys_keeps]: "preserves sys_ok (setMenuStatus b ctx i s)"
  unfolding setMenuStatus_def Let_def case_prod_beta
  apply (rule triple_if, rule triple_fail, assumption)
  apply (rule triple_bind_readonly, simp add: readonly_wrap, assumption)
  apply (rule triple_bind_readonly, simp, assumption)
  apply (rule triple_bind [where R = "\<lambda>_. sys_ok"])
   apply (rule loggedChange_ok, rule triple_weaken, rule sys_keeps, assumption, rule sys_keeps)
  apply (rule triple_ret, assumption)
  done

lemma readonly_ListMenus [act_frame, simp]: "readonly (ListMenus rng q t)"
  unfolding ListMenus_def Let_def by (simp add: readonly_bind)

lemma readonly_GetNavMenus [act_frame, simp]: "readonly (GetNavMenus rng ctx u m)"
  unfolding GetNavMenus_def Let_def by (intro readonly_bind) (auto intro: readonly_bind)

text \<open>The handlers that change menus do so in one transaction, after queries only.\<close>

lemma atomicA_bind_ret: "atomicA m \<Longrightarrow> atomicA (bindA m (\<lambda>_. retA x))"
  by (rule atomicA_bind_neverFails) simp_all

lemma atomic_CreateMenu: "atomicA (CreateMenu b ctx q)"
  unfolding CreateMenu_def
  by (intro atomicA_bind_readonly atomicA_bind_ret atomicA_wrap atomicA_transaction) simp

lemma atomic_UpdateMenu: "atomicA (UpdateMenu b ctx q)"
  unfolding UpdateMenu_def Let_def
  by (simp add: atomicA_bind_readonly atomicA_bind_ret atomicA_wrap atomicA_readonly readonly_wrap)

lemma atomic_DeleteMenu: "atomicA (DeleteMenu b ctx i)"
  unfolding DeleteMenu_def Let_def
  by (simp add: atomicA_bind_readonly atomicA_wrap atomicA_readonly readonly_wrap)

lemma atomic_setMenuStatus: "atomicA (setMenuStatus b ctx i s)"
  unfolding setMenuStatus_def Let_def case_prod_beta
  by (simp add: atomicA_bind_readonly atomicA_bind_ret atomicA_wrap atomicA_readonly readonly_wrap)

end
