(* ===== verification/Menu_Claims.thy ===== *)
theory Menu_Claims
  imports Menu_Logic
begin

text \<open>
  The properties of the menu handlers.
\<close>

subsection \<open>An example store\<close>

text \<open>
  The use page and two directories of the function module, and a world without failures: the
  inputs of the concrete runs below.  \<open>menu_eval\<close> evaluates the handlers on them.
\<close>

definition exampleWorld :: "'d \<Rightarrow> 'd world" where
  "exampleWorld d = \<lparr>db = d, tick = 0, clockAt = int, uuidAt = (\<lambda>n. ''id-'' @ replicate n CHR ''x''),
                     faultAt = (\<lambda>_. None)\<rparr>"

definition noUser :: goctx where
  "noUser = \<lparr>ctxIncoming = None, ctxOutgoing = None\<rparr>"

definition exampleMenu :: "gostr \<Rightarrow> gostr \<Rightarrow> gostr \<Rightarrow> int \<Rightarrow> menu" where
  "exampleMenu i parent code type =
     \<lparr>mID = i, mParentID = parent, mModule = ''func-operation'', mPlacement = ''module_nav'',
      mName = code, mCode = code, mViewKey = code, mIcon = [], mMenuType = type, mSort = 10,
      mStatus = 1, mVisible = 1, mIsDefault = False, mRemark = [], mSourceType = ''static'',
      mSourceID = [], mCreatedAt = 0, mUpdatedAt = 0\<rparr>"

definition exampleStore :: sysdb where
  "exampleStore = emptySysdb\<lparr>sysMenus :=
     [exampleMenu ''use'' [] FuncUseMenuCode 2, exampleMenu ''a'' [] ''dir.a'' 1,
      exampleMenu ''b'' [] ''dir.b'' 1]\<rparr>"

definition exampleReq :: "gostr \<Rightarrow> gostr \<Rightarrow> gostr \<Rightarrow> menuReq" where
  "exampleReq i parent code =
     \<lparr>mqId = i, mqParentId = parent, mqModule = ''func-operation'', mqPlacement = ''module_nav'',
      mqName = code, mqCode = code, mqViewKey = [], mqIcon = [], mqMenuType = 1, mqSort = 10,
      mqStatus = 1, mqVisible = 1, mqIsDefault = False, mqRemark = []\<rparr>"

lemma trimSpace_examples [simp]:
  "trimSpace ''a'' = ''a''" "trimSpace ''b'' = ''b''" "trimSpace ''use'' = ''use''"
  "trimSpace ''dir.a'' = ''dir.a''" "trimSpace ''dir.b'' = ''dir.b''" "trimSpace ''f1'' = ''f1''"
  "trimSpace ''func-operation'' = ''func-operation''" "trimSpace ''module_nav'' = ''module_nav''"
  "trimSpace ''sync'' = ''sync''" "trimSpace ''publish'' = ''publish''" "trimSpace ''delete'' = ''delete''"
  by (simp_all add: trimSpace_visible visibleChar_def)

lemmas example_defs = exampleWorld_def exampleStore_def exampleMenu_def exampleReq_def noUser_def emptySysdb_def

lemmas menu_eval = example_defs act_defs firstRow_def menu_consts isGeneratedFunctionMenu_def hasPrefix_def
  Let_def requireText_def validateMenuType_def validatePlacement_def normalizeMenuStatus_def
  normalizeMenuVisible_def checkMenuParent_def toInt32_def buildMenuFromInput_def
  Menu_Get_def Menu_GetByCode_def Menu_List_def menuMatches_def Menu_Update_def Menu_Create_def
  updateMenuRow_def updateRows_def insertMenu_def menuDefaults_def
  recordMenuChange_def recordChange_def

subsection \<open>Creating\<close>

lemma menuDefaults_valid:
  "mMenuType m \<noteq> 0 \<Longrightarrow> mStatus m \<noteq> 0 \<Longrightarrow> mVisible m \<noteq> 0 \<Longrightarrow> mSourceType m \<noteq> [] \<Longrightarrow> menuDefaults m = m"
  by (simp add: menuDefaults_def)

lemma buildMenuFromInput_visible_nonzero:
  assumes "buildMenuFromInput i q w = (Inr m, w')"
  shows "mVisible m \<noteq> 0"
  using assms unfolding buildMenuFromInput_def Let_def
  apply (elim bindA_InrE)
  apply (simp only: retA_iff sum.inject liftA_iff)
  apply (auto simp: menu_consts)
  done

text \<open>The parent of a stored menu: none, or a directory (or the entry of the use page) next to it.\<close>

definition goodParent :: "sysdb \<Rightarrow> menu \<Rightarrow> bool" where
  "goodParent d m \<longleftrightarrow> mParentID m = [] \<or>
     (\<exists>p \<in> set (sysMenus d). mID p = mParentID m \<and> mModule p = mModule m \<and> mPlacement p = mPlacement m \<and>
        (mMenuType p = MenuTypeDirectory \<or> (mMenuType p = MenuTypeMenu \<and> mCode p = FuncUseMenuCode)))"

lemma Menu_Get_Inr: "Menu_Get i w = (Inr m, w') \<Longrightarrow> m \<in> set (sysMenus (db w)) \<and> mID m = i \<and> db w' = db w"
  unfolding Menu_Get_def by (auto simp: queryA_Inr_iff dest: firstRow_Inr)

lemma checkMenuParent_Inr:
  assumes "checkMenuParent i p md pl w = (Inr u, w')" and "p \<noteq> []"
  shows "p \<noteq> i \<and> (\<exists>m \<in> set (sysMenus (db w)). mID m = p \<and> mModule m = md \<and> mPlacement m = pl \<and>
    (mMenuType m = MenuTypeDirectory \<or> (mMenuType m = MenuTypeMenu \<and> mCode m = FuncUseMenuCode)))"
  using assms unfolding checkMenuParent_def
  by (auto simp: bindA_Inr_iff dest!: Menu_Get_Inr split: if_splits)

lemma buildMenuFromInput_parent:
  assumes "buildMenuFromInput i q w = (Inr m, w')"
  shows "goodParent (db w) m \<and> (mParentID m \<noteq> [] \<longrightarrow> mParentID m \<noteq> i)"
  using assms unfolding buildMenuFromInput_def Let_def
  apply (elim bindA_InrE)
  apply (simp only: retA_iff sum.inject liftA_iff)
  apply (auto simp: goodParent_def dest: checkMenuParent_Inr)
  done

lemma buildMenuFromInput_db: "buildMenuFromInput i q w = (r, w') \<Longrightarrow> db w' = db w"
  by (rule readonlyD [OF readonly_buildMenuFromInput])

lemma buildMenuFromInput_defaults:
  assumes "buildMenuFromInput i q w = (Inr m, w')"
  shows "menuDefaults m = m"
  using buildMenuFromInput_valid [OF assms] buildMenuFromInput_visible_nonzero [OF assms]
  by (intro menuDefaults_valid) (auto simp: validMenuFor_def menu_consts)

text \<open>A logged change that succeeds: the change, then the log row.\<close>

lemma loggedTx_Inr:
  assumes "transactionA (bindA m (\<lambda>_. r)) w = (Inr x, w')"
  obtains u v1 v2 where "m (nextTick w) = (Inr u, v1)" and "r v1 = (Inr x, v2)" and "db w' = db v2"
proof -
  obtain w1 where "bindA m (\<lambda>_. r) (nextTick w) = (Inr x, w1)" and "db w' = db w1"
    using assms by (auto simp: transactionA_Inr_iff)
  with that show ?thesis by (auto simp: bindA_Inr_iff)
qed

lemma stmtA_Inr_db: "stmtA f w = (Inr x, w') \<Longrightarrow> f (db w) = Inr (x, db w')"
  by (auto simp: stmtA_Inr_iff)

lemma CreateMenu_Inr:
  assumes "CreateMenu True ctx q w = (Inr node, w')"
  shows "\<exists>m i t. validMenuFor [] q m \<and> goodParent (db w) m \<and>
    mID m \<notin> mID ` set (sysMenus (db w)) \<and> mCode m \<notin> mCode ` set (sysMenus (db w)) \<and>
    node = modelMenuToProto m [] \<and>
    db w' = (db w)\<lparr>sysMenus := sysMenus (db w) @ [m],
      sysLogs := sysLogs (db w) @ [logRow i t ctx ''menu'' ''menu.create'' (utf8 [229, 136, 155, 229, 187, 186, 232, 143, 156, 229, 141, 149]) (mID m) (mName m)
        AuditNone (menuAuditJSON m)]\<rparr>"
proof -
  obtain m w1 where m: "buildMenuFromInput [] q w = (Inr m, w1)"
    and run: "transactionA (bindA (Menu_Create m) (\<lambda>_. recordMenuChange True ctx ''menu.create'' (utf8 [229, 136, 155, 229, 187, 186, 232, 143, 156, 229, 141, 149]) m
        AuditNone (menuAuditJSON m))) w1 = (Inr (), w')" and node: "node = modelMenuToProto m []"
    using assms unfolding CreateMenu_def by (auto simp: bindA_Inr_iff)
  from run obtain u v1 v2 where "Menu_Create m (nextTick w1) = (Inr u, v1)"
    and log: "recordMenuChange True ctx ''menu.create'' (utf8 [229, 136, 155, 229, 187, 186, 232, 143, 156, 229, 141, 149]) m AuditNone (menuAuditJSON m) v1 = (Inr (), v2)"
    and w': "db w' = db v2" by (rule loggedTx_Inr)
  then have ins: "insertMenu m (db w1) = Inr ((), db v1)"
    unfolding Menu_Create_def by (auto dest: stmtA_Inr_db)
  have "db w1 = db w" using buildMenuFromInput_db [OF m] .
  with ins have "db v1 = (db w)\<lparr>sysMenus := sysMenus (db w) @ [m]\<rparr>"
    "mID m \<notin> mID ` set (sysMenus (db w))" "mCode m \<notin> mCode ` set (sysMenus (db w))"
    using buildMenuFromInput_defaults [OF m] by (auto simp: insertMenu_def split: if_splits)
  then show ?thesis
    using recordChange_Inr [OF log [unfolded recordMenuChange_def OperationResourceMenu_def]] w' node
      buildMenuFromInput_valid [OF m] buildMenuFromInput_parent [OF m]
    by (intro exI [of _ m] exI) auto
qed

lemma uniqueViolation_wrap [simp]: "wrapDuplicate msg (uniqueViolation col) = Err msg"
proof -
  have "toLower ''UNIQUE'' = ''unique''" by code_simp
  then have "toLower (''UNIQUE constraint failed: '' @ col) = ''unique'' @ toLower ('' constraint failed: '' @ col)"
    by (simp add: toLower_def)
  then have "contains (toLower (errText (uniqueViolation col))) ''unique''"
    unfolding contains_iff by (metis append_Nil errText.simps(3) uniqueViolation_def)
  then show ?thesis by (simp add: wrapDuplicate_def Let_def)
qed

lemma CreateMenu_duplicate:
  assumes "quiet w" and "buildMenuFromInput [] q w = (Inr m, w1)" and "quiet w1"
    and "mCode m \<in> mCode ` set (sysMenus (db w))"
  shows "\<exists>w'. CreateMenu b ctx q w = (Inl (Err ''menu code already exists''), w') \<and> db w' = db w"
proof -
  have db: "db w1 = db w" using buildMenuFromInput_db [OF assms(2)] .
  then obtain col where "insertMenu m (db w1) = Inl (uniqueViolation col)"
    using assms(4) by (cases "mID m \<in> mID ` set (sysMenus (db w1))") (simp_all add: insertMenu_def)
  then have "Menu_Create m (nextTick w1) = (Inl (uniqueViolation col), nextTick (nextTick w1))"
    using assms(3) by (simp add: Menu_Create_def stmtA_quiet)
  then show ?thesis
    using assms(2,3) db
    by (simp add: CreateMenu_def bindA_def transactionA_def wrapErrA_def handleA_def failA_def
        quiet_def wrapMenuDuplicateError_def)
qed

subsection \<open>Updating and deleting\<close>

lemma validMenuFor_createdAt [simp]: "validMenuFor i q (m\<lparr>mCreatedAt := t\<rparr>) = validMenuFor i q m"
  by (simp add: validMenuFor_def)

lemma validMenuFor_sort: "validMenuFor i q m \<Longrightarrow> mSort m = 0 \<Longrightarrow> validMenuFor i q (m\<lparr>mCreatedAt := t, mSort := s\<rparr>)"
  unfolding validMenuFor_def by (elim conjE, intro conjI) simp_all

lemma UpdateMenu_Inr:
  assumes "UpdateMenu True ctx q w = (Inr node, w')"
  shows "\<exists>m old i t. old \<in> set (sysMenus (db w)) \<and> mID old = trimSpace (mqId q) \<and>
    \<not> isGeneratedFunctionMenu old \<and> validMenuFor (trimSpace (mqId q)) q m \<and> goodParent (db w) m \<and>
    mParentID m \<noteq> mID m \<and> node = modelMenuToProto m [] \<and>
    db w' = (db w)\<lparr>sysMenus := updateRows (\<lambda>o'. mID o' = mID m) (\<lambda>o'. m\<lparr>mCreatedAt := mCreatedAt o'\<rparr>) (sysMenus (db w)),
      sysLogs := sysLogs (db w) @ [logRow i t ctx ''menu'' ''menu.update'' (utf8 [230, 155, 180, 230, 150, 176, 232, 143, 156, 229, 141, 149]) (mID m) (mName m)
        (menuAuditJSON old) (menuAuditJSON m)]\<rparr>"
proof -
  let ?i = "trimSpace (mqId q)"
  have i: "?i \<noteq> []"
  proof
    assume "?i = []"
    then show False using assms by (simp add: UpdateMenu_def)
  qed
  then obtain old w1 m0 w2 m where old: "Menu_Get ?i w = (Inr old, w1)" "\<not> isGeneratedFunctionMenu old"
    and m0: "buildMenuFromInput ?i q w1 = (Inr m0, w2)"
    and m: "m = (if mSort (m0\<lparr>mCreatedAt := mCreatedAt old\<rparr>) = 0
                 then m0\<lparr>mCreatedAt := mCreatedAt old, mSort := mSort old\<rparr> else m0\<lparr>mCreatedAt := mCreatedAt old\<rparr>)"
    and run: "transactionA (bindA (Menu_Update m) (\<lambda>_. recordMenuChange True ctx ''menu.update'' (utf8 [230, 155, 180, 230, 150, 176, 232, 143, 156, 229, 141, 149]) m
        (menuAuditJSON old) (menuAuditJSON m))) w2 = (Inr (), w')" and node: "node = modelMenuToProto m []"
    using assms unfolding UpdateMenu_def Let_def
    apply (elim bindA_InrE guardA_InrE)
    apply (simp only: wrapErrA_Inr_iff retA_iff sum.inject)
    apply (elim conjE)
    apply (rule that, assumption, assumption, assumption, rule refl)
     apply simp_all
    done
  from old have oldf: "old \<in> set (sysMenus (db w))" "mID old = ?i" and db1: "db w1 = db w"
    using Menu_Get_Inr by blast+
  have db2: "db w2 = db w" using buildMenuFromInput_db [OF m0] db1 by simp
  have valid: "validMenuFor ?i q m0" "goodParent (db w) m0" "mParentID m0 \<noteq> [] \<longrightarrow> mParentID m0 \<noteq> ?i"
    using buildMenuFromInput_valid [OF m0] buildMenuFromInput_parent [OF m0] db1 by auto
  have keep: "mID m = mID m0" "goodParent (db w) m = goodParent (db w) m0" "mParentID m = mParentID m0"
    unfolding m by (simp_all add: goodParent_def)
  moreover have "validMenuFor ?i q m"
    using validMenuFor_sort [OF valid(1)] valid(1) unfolding m by simp
  moreover have "mID m0 = ?i" using valid(1) i by (simp add: validMenuFor_def)
  ultimately have v: "validMenuFor ?i q m" "goodParent (db w) m" "mParentID m \<noteq> mID m"
    using valid i by auto
  from run obtain u v1 v2 where "Menu_Update m (nextTick w2) = (Inr u, v1)"
    and log: "recordMenuChange True ctx ''menu.update'' (utf8 [230, 155, 180, 230, 150, 176, 232, 143, 156, 229, 141, 149]) m (menuAuditJSON old) (menuAuditJSON m) v1 = (Inr (), v2)"
    and w': "db w' = db v2" by (rule loggedTx_Inr)
  then have "updateMenuRow m (db w) = Inr ((), db v1)"
    unfolding Menu_Update_def using db2 by (auto dest: stmtA_Inr_db)
  then have "db v1 = (db w)\<lparr>sysMenus := updateRows (\<lambda>o'. mID o' = mID m) (\<lambda>o'. m\<lparr>mCreatedAt := mCreatedAt o'\<rparr>) (sysMenus (db w))\<rparr>"
    by (auto simp: updateMenuRow_def split: if_splits)
  then show ?thesis
    using recordChange_Inr [OF log [unfolded recordMenuChange_def OperationResourceMenu_def]] w' node v oldf old(2)
    by (intro exI [of _ m] exI [of _ old] exI) auto
qed

lemma Menu_Delete_Inr:
  assumes "Menu_Delete i w = (Inr u, w')"
  shows "i \<in> mID ` set (sysMenus (db w)) \<and>
    db w' = (db w)\<lparr>sysMenus := filter (\<lambda>m. mID m \<noteq> i) (sysMenus (db w)),
      sysRoleMenus := filter (\<lambda>g. rmMenuID g \<noteq> i) (sysRoleMenus (db w))\<rparr>"
  using assms unfolding Menu_Delete_def
  by (auto simp: transactionA_Inr_iff bindA_Inr_iff stmtA_Inr_iff deleteMenuRow_def split: if_splits)

lemma Menu_CountChildren_Inr:
  "Menu_CountChildren i w = (Inr n, w') \<Longrightarrow> n \<le> 0 \<Longrightarrow> db w' = db w \<and> (\<forall>m \<in> set (sysMenus (db w)). mParentID m \<noteq> i)"
  unfolding Menu_CountChildren_def
  by (auto simp: queryA_Inr_iff filter_empty_conv)

lemma DeleteMenu_Inr:
  assumes "DeleteMenu True ctx reqID w = (Inr u, w')"
  shows "\<exists>m j t. m \<in> set (sysMenus (db w)) \<and> mID m = trimSpace reqID \<and> \<not> isGeneratedFunctionMenu m \<and>
    (\<forall>c \<in> set (sysMenus (db w)). mParentID c \<noteq> mID m) \<and>
    db w' = (db w)\<lparr>sysMenus := filter (\<lambda>c. mID c \<noteq> mID m) (sysMenus (db w)),
      sysRoleMenus := filter (\<lambda>g. rmMenuID g \<noteq> mID m) (sysRoleMenus (db w)),
      sysLogs := sysLogs (db w) @ [logRow j t ctx ''menu'' ''menu.delete'' (utf8 [229, 136, 160, 233, 153, 164, 232, 143, 156, 229, 141, 149]) (mID m) (mName m)
        (menuAuditJSON m) AuditNone]\<rparr>"
proof -
  let ?i = "trimSpace reqID"
  have i: "?i \<noteq> []" using assms by (auto simp: DeleteMenu_def Let_def)
  then obtain m w1 n w2 where m: "Menu_Get ?i w = (Inr m, w1)" "\<not> isGeneratedFunctionMenu m"
    and n: "Menu_CountChildren ?i w1 = (Inr n, w2)" "n \<le> 0"
    and run: "transactionA (bindA (Menu_Delete ?i) (\<lambda>_. recordMenuChange True ctx ''menu.delete'' (utf8 [229, 136, 160, 233, 153, 164, 232, 143, 156, 229, 141, 149]) m
        (menuAuditJSON m) AuditNone)) w2 = (Inr u, w')"
    using assms unfolding DeleteMenu_def Let_def by (auto simp: bindA_Inr_iff split: if_splits)
  have mf: "m \<in> set (sysMenus (db w))" "mID m = ?i" and db1: "db w1 = db w"
    using Menu_Get_Inr [OF m(1)] by blast+
  have nf: "\<forall>c \<in> set (sysMenus (db w)). mParentID c \<noteq> ?i" and db2: "db w2 = db w"
    using Menu_CountChildren_Inr [OF n] db1 by auto
  from run obtain x v1 v2 where del: "Menu_Delete ?i (nextTick w2) = (Inr x, v1)"
    and log: "recordMenuChange True ctx ''menu.delete'' (utf8 [229, 136, 160, 233, 153, 164, 232, 143, 156, 229, 141, 149]) m (menuAuditJSON m) AuditNone v1 = (Inr u, v2)"
    and w': "db w' = db v2" by (rule loggedTx_Inr)
  show ?thesis
    using Menu_Delete_Inr [OF del] db2 mf nf m(2) w'
      recordChange_Inr [OF log [unfolded recordMenuChange_def OperationResourceMenu_def]]
    by (intro exI [of _ m] exI) auto
qed

text \<open>No handler of \<^verbatim>\<open>menu.go\<close> leaves a menu whose parent is gone.\<close>

definition parentsExist :: "sysdb \<Rightarrow> bool" where
  "parentsExist d \<longleftrightarrow> (\<forall>m \<in> set (sysMenus d). mParentID m = [] \<or> mParentID m \<in> mID ` set (sysMenus d))"

lemma parentsExist_logs [simp]: "parentsExist (d\<lparr>sysLogs := l\<rparr>) = parentsExist d"
  "parentsExist (d\<lparr>sysRoleMenus := g\<rparr>) = parentsExist d"
  by (simp_all add: parentsExist_def)

lemma goodParent_exists: "goodParent d m \<Longrightarrow> mParentID m = [] \<or> mParentID m \<in> mID ` set (sysMenus d)"
  unfolding goodParent_def by (metis image_eqI)

lemma parentsExist_Create:
  assumes "CreateMenu True ctx q w = (Inr node, w')" and "parentsExist (db w)"
  shows "parentsExist (db w')"
proof -
  obtain m l where good: "goodParent (db w) m"
    and db': "db w' = (db w)\<lparr>sysMenus := sysMenus (db w) @ [m], sysLogs := l\<rparr>"
    using CreateMenu_Inr [OF assms(1)] by (elim exE conjE) (rule that, assumption+)
  show ?thesis using goodParent_exists [OF good] assms(2) by (auto simp: db' parentsExist_def)
qed

lemma parentsExist_Update:
  assumes "UpdateMenu True ctx q w = (Inr node, w')" and "parentsExist (db w)"
  shows "parentsExist (db w')"
proof -
  obtain m l where good: "goodParent (db w) m"
    and db': "db w' = (db w)\<lparr>sysMenus := updateRows (\<lambda>o'. mID o' = mID m) (\<lambda>o'. m\<lparr>mCreatedAt := mCreatedAt o'\<rparr>) (sysMenus (db w)),
      sysLogs := l\<rparr>"
    using UpdateMenu_Inr [OF assms(1)] by (elim exE conjE) (rule that, assumption+)
  have ids: "mID ` set (sysMenus (db w')) = mID ` set (sysMenus (db w))"
    by (simp add: db' set_updateRows_key)
  have "mParentID x = [] \<or> mParentID x \<in> mID ` set (sysMenus (db w))" if x: "x \<in> set (sysMenus (db w'))" for x
  proof -
    from x obtain y where y: "y \<in> set (sysMenus (db w))"
      and "x = (if mID y = mID m then m\<lparr>mCreatedAt := mCreatedAt y\<rparr> else y)"
      by (auto simp: db' updateRows_def)
    then have "mParentID x = mParentID m \<or> x = y" by simp
    then show ?thesis using goodParent_exists [OF good] assms(2) y by (auto simp: parentsExist_def)
  qed
  then show ?thesis unfolding parentsExist_def ids by blast
qed

lemma parentsExist_Delete:
  assumes "DeleteMenu True ctx i w = (Inr u, w')" and "parentsExist (db w)"
  shows "parentsExist (db w')"
proof -
  obtain m :: menu where leaf: "\<forall>c \<in> set (sysMenus (db w)). mParentID c \<noteq> mID m"
    and db': "sysMenus (db w') = filter (\<lambda>c. mID c \<noteq> mID m) (sysMenus (db w))"
    using DeleteMenu_Inr [OF assms(1)] by (elim exE conjE) (rule that, assumption, simp)
  have "mParentID c = [] \<or> mParentID c \<in> mID ` {c \<in> set (sysMenus (db w)). mID c \<noteq> mID m}"
    if "c \<in> set (sysMenus (db w))" for c
    using that assms(2) leaf unfolding parentsExist_def by fastforce
  then show ?thesis by (auto simp: parentsExist_def db')
qed

subsection \<open>Trees and navigation\<close>

text \<open>The parent of a row among the rows shown, and the rows that hang below a root.\<close>

definition shownParent :: "menu list \<Rightarrow> gostr \<Rightarrow> gostr option" where
  "shownParent ms i =
     (case menusByID ms i of
        None \<Rightarrow> None
      | Some m \<Rightarrow> if mParentID m = [] \<or> mParentID m \<notin> mID ` set ms then None else Some (mParentID m))"

definition protoItems :: "menu list \<Rightarrow> menuNode list" where
  "protoItems ms = map (\<lambda>m. modelMenuToProto m []) ms"

lemma nodeId_model [simp]: "nodeId (modelMenuToProto m ns) = mID m" "nodeMenu (modelMenuToProto m ns) = protoOf m"
  by (simp_all add: nodeId_def modelMenuToProto_def protoOf_def)

lemma proto_fields [simp]:
  "pmId (protoOf m) = mID m" "pmParentId (protoOf m) = mParentID m" "pmModule (protoOf m) = mModule m"
  "pmPlacement (protoOf m) = mPlacement m"
  by (simp_all add: protoOf_def)

lemma ids_protoItems [simp]: "nodeId ` set (protoItems ms) = mID ` set ms"
  by (simp add: protoItems_def image_image)

lemma copies_protoItems: "copiesByID (protoItems ms) i = map_option protoOf (menusByID ms i)"
proof -
  have "foldl (\<lambda>byID n. byID(nodeId n \<mapsto> nodeMenu n)) (\<lambda>i. map_option protoOf (b i)) (protoItems ms) i =
      map_option protoOf (foldl (\<lambda>byID m. byID(mID m \<mapsto> m)) b ms i)" for b
  proof (induction ms arbitrary: b)
    case Nil
    then show ?case by (simp add: protoItems_def)
  next
    case (Cons m ms)
    have "(\<lambda>i. map_option protoOf (b i))(mID m \<mapsto> protoOf m) = (\<lambda>i. map_option protoOf ((b(mID m \<mapsto> m)) i))"
      by auto
    with Cons [of "b(mID m \<mapsto> m)"] show ?case by (simp add: protoItems_def del: fun_upd_apply)
  qed
  from this [of Map.empty] show ?thesis by (simp add: copiesByID_def menusByID_def)
qed

lemma treeUp_protoItems: "treeUp (protoItems ms) = shownParent ms"
proof
  fix i
  have none: "menusByID ms p = None \<longleftrightarrow> p \<notin> mID ` set ms" for p
    unfolding dom_menusByID [symmetric] by blast
  show "treeUp (protoItems ms) i = shownParent ms i"
  proof (cases "menusByID ms i")
    case None
    then show ?thesis by (simp add: treeUp_def shownParent_def copies_protoItems)
  next
    case (Some m)
    then show ?thesis by (simp add: treeUp_def shownParent_def copies_protoItems none)
  qed
qed

lemma set_orderMenus [simp]: "set (orderMenus ms) = set ms"
  by (simp add: orderMenus_def)

lemma distinct_orderMenus [simp]: "distinct (map mID (orderMenus ms)) = distinct (map mID ms)"
proof -
  have "mset (map mID (orderMenus ms)) = mset (map mID ms)"
    by (simp add: orderMenus_def mset_map)
  then show ?thesis by (metis mset_eq_imp_distinct_iff)
qed

lemma option_eqI: "(\<And>m. x = Some m \<longleftrightarrow> y = Some m) \<Longrightarrow> x = y"
  by (metis option.exhaust)

lemma menusByID_cong:
  assumes "distinct (map mID ms)" and "distinct (map mID ns)" and "set ms = set ns"
  shows "menusByID ms = menusByID ns"
proof
  fix i show "menusByID ms i = menusByID ns i"
    by (rule option_eqI) (simp only: menusByID_Some_iff [OF assms(1)] menusByID_Some_iff [OF assms(2)] assms(3))
qed

lemma shownParent_cong:
  assumes "distinct (map mID ms)" and "distinct (map mID ns)" and "set ms = set ns"
  shows "shownParent ms = shownParent ns"
  unfolding fun_eq_iff shownParent_def menusByID_cong [OF assms] assms(3) by simp

lemma distinct_filter_menus: "sys_ok d \<Longrightarrow> distinct (map mID (filter p (sysMenus d)))"
  by (simp add: sys_ok_defs distinct_map_filter)

lemma ListMenus_tree_Inr:
  assumes "ListMenus rng req True w = (Inr forest, w')" and "goRange rng" and "sys_ok (db w)"
    and "shown = filter (menuMatches \<lparr>mfModule = trimSpace (mfModule req), mfPlacement = trimSpace (mfPlacement req),
          mfStatus = mfStatus req\<rparr>) (sysMenus (db w))"
  shows "distinct (map pmId (forestNodes forest))"
    and "set (forestNodes forest) = protoOf ` {m \<in> set shown. rooted (shownParent shown) (mID m)}"
    and "\<forall>n \<in> set forest. wellParented n"
    and "(\<lambda>n. pmId (nodeMenu n)) ` set forest = {i \<in> mID ` set shown. shownParent shown i = None}"
    and "sorted (map (\<lambda>n. (pmSort (nodeMenu n), pmName (nodeMenu n))) forest)"
proof -
  have run: "forest = buildMenuTree rng (protoItems (orderMenus shown))"
    using assms(1,4) by (auto simp: ListMenus_def bindA_Inr_iff Menu_List_def queryA_Inr_iff protoItems_def Let_def)
  have dist: "distinct (map mID shown)" using assms(3,4) distinct_filter_menus by simp
  have up: "treeUp (protoItems (orderMenus shown)) = shownParent shown"
    using dist by (simp add: treeUp_protoItems shownParent_cong [of "orderMenus shown" shown])
  note ids = buildMenuTree_ids [OF assms(2), of "protoItems (orderMenus shown)", folded run]
  note keys = treeKeys_spec [OF assms(2), of "protoItems (orderMenus shown)", unfolded up ids_protoItems set_orderMenus]
  show "distinct (map pmId (forestNodes forest))"
    using ids keys(1) by (metis mset_eq_imp_distinct_iff)
  have key_set: "pmId ` set (forestNodes forest) = {i \<in> mID ` set shown. rooted (shownParent shown) i}"
    using ids keys(2) by (metis set_map set_mset_mset)
  have sub: "set (forestNodes forest) \<subseteq> protoOf ` set shown"
    using buildMenuTree_subset [OF assms(2), of "protoItems (orderMenus shown)", folded run]
    by (auto simp: protoItems_def)
  show "set (forestNodes forest) = protoOf ` {m \<in> set shown. rooted (shownParent shown) (mID m)}"
  proof (intro equalityI subsetI)
    fix x assume x: "x \<in> set (forestNodes forest)"
    then obtain m where m: "m \<in> set shown" "x = protoOf m" using sub by blast
    have "pmId x \<in> pmId ` set (forestNodes forest)" using x by blast
    then have "rooted (shownParent shown) (mID m)" unfolding key_set using m by simp
    with m show "x \<in> protoOf ` {m \<in> set shown. rooted (shownParent shown) (mID m)}" by blast
  next
    fix x assume "x \<in> protoOf ` {m \<in> set shown. rooted (shownParent shown) (mID m)}"
    then obtain m where m: "m \<in> set shown" "rooted (shownParent shown) (mID m)" "x = protoOf m" by blast
    then have "mID m \<in> pmId ` set (forestNodes forest)" unfolding key_set by blast
    then obtain y where y: "y \<in> set (forestNodes forest)" "pmId y = mID m" by auto
    then obtain n where "n \<in> set shown" "y = protoOf n" using sub by blast
    with y(2) m(1) dist have "n = m" using distinct_key_eq by fastforce
    with y(1) \<open>y = protoOf n\<close> m(3) show "x \<in> set (forestNodes forest)" by simp
  qed
  show "\<forall>n \<in> set forest. wellParented n"
    unfolding run by (rule buildMenuTree_wellParented [OF assms(2)])
  show "(\<lambda>n. pmId (nodeMenu n)) ` set forest = {i \<in> mID ` set shown. shownParent shown i = None}"
    unfolding run buildMenuTree_tops [OF assms(2)] up ids_protoItems set_orderMenus ..
  show "sorted (map (\<lambda>n. (pmSort (nodeMenu n), pmName (nodeMenu n))) forest)"
    unfolding run by (rule buildMenuTree_sorted)
qed

text \<open>The menus a user may see: those granted by an enabled role, expanded.\<close>

definition visibleMenus :: "sysdb \<Rightarrow> menu list" where
  "visibleMenus d = filter (\<lambda>m. mStatus m = MenuStatusEnabled) (sysMenus d)"

definition userMenus :: "gostr \<Rightarrow> sysdb \<Rightarrow> menu set" where
  "userMenus userID d =
     {m \<in> set (visibleMenus d). mVisible m = MenuVisibleYes \<and>
        mID m \<in> allowedMenus (visibleMenus d) (menuIDsToSet (menuIDsByUser userID d))}"

lemma goRange_set: "goRange rng \<Longrightarrow> finite S \<Longrightarrow> set (rng S) = S"
  by (simp add: goRange_def)

lemma allowedMenus_cong:
  assumes "distinct (map mID ms)" and "distinct (map mID ns)" and "set ms = set ns"
  shows "allowedMenus ms seed = allowedMenus ns seed"
proof -
  have "menuUp ms = menuUp ns"
    unfolding fun_eq_iff menuUp_def menusByID_cong [OF assms] by simp
  then have "grantedClosure ms seed = grantedClosure ns seed"
    unfolding grantedClosure_def menusByID_cong [OF assms] by simp
  then show ?thesis unfolding allowedMenus_def menusByID_cong [OF assms] assms(3) by simp
qed

lemma grantedClosure_sub: "grantedClosure ms seed \<subseteq> mID ` set ms"
proof
  fix j assume "j \<in> grantedClosure ms seed"
  then obtain i where "menusByID ms i \<noteq> None" "(menuUp ms)\<^sup>*\<^sup>* i j" by (auto simp: grantedClosure_def)
  from this(2,1) have "menusByID ms j \<noteq> None"
    by (induction rule: rtranclp_induct) (auto simp: menuUp_def)
  then show "j \<in> mID ` set ms" using menusByID_Some by blast
qed

lemma expandAllowed_rng:
  assumes "goRange rng" and "distinct (map mID all)" and "finite seed"
  shows "expandAllowedMenuIDs all (rng seed) rng = allowedMenus all seed"
proof -
  have "finite (visitSeeds all (rng seed))"
    unfolding visitSeeds_closure using grantedClosure_sub finite_subset by blast
  then have "rangesOver all (visitSeeds all (rng seed)) (rng (visitSeeds all (rng seed)))"
    using goRange_set [OF assms(1)] by (simp add: rangesOver_def)
  from expandAllowed_spec [OF assms(2), of "rng seed" rng, OF this] show ?thesis
    using goRange_set [OF assms(1,3)] by simp
qed

lemma finite_menuIDsToSet [simp]: "finite (menuIDsToSet ids)"
  by (simp add: menuIDsToSet_def)

lemma GetNavMenus_Inr:
  assumes "GetNavMenus rng ctx reqUserID reqModule w = (Inr forest, w')" and "goRange rng" and "sys_ok (db w)"
  shows "set (forestNodes forest) \<subseteq> protoOf ` userMenus (effectiveUserID ctx reqUserID) (db w) \<union> Collect synthetic"
proof -
  let ?u = "effectiveUserID ctx reqUserID"
  let ?ms = "orderMenus (filter (menuMatches \<lparr>mfModule = [], mfPlacement = [], mfStatus = MenuStatusEnabled\<rparr>) (sysMenus (db w)))"
  have flt: "filter (menuMatches \<lparr>mfModule = [], mfPlacement = [], mfStatus = MenuStatusEnabled\<rparr>) (sysMenus (db w)) = visibleMenus (db w)"
    unfolding visibleMenus_def by (rule filter_cong) (simp_all add: menuMatches_def MenuStatusEnabled_def)
  have dist: "distinct (map mID (visibleMenus (db w)))"
    unfolding visibleMenus_def by (rule distinct_filter_menus [OF assms(3)])
  let ?seed = "menuIDsToSet (menuIDsByUser ?u (db w))"
  let ?items = "filterProtoMenusByAllowed (protoItems (filter (\<lambda>m. mVisible m = MenuVisibleYes) ?ms))
      (expandAllowedMenuIDs ?ms (rng ?seed) rng)"
  have allowed: "expandAllowedMenuIDs ?ms (rng ?seed) rng = allowedMenus (visibleMenus (db w)) ?seed"
    using dist by (simp add: flt expandAllowed_rng [OF assms(2)] allowedMenus_cong [of "orderMenus (visibleMenus (db w))" "visibleMenus (db w)"])
  have items: "nodeMenu ` set ?items \<subseteq> protoOf ` userMenus ?u (db w)"
    unfolding flt allowed [unfolded flt] by (auto simp: filterProtoMenusByAllowed_def protoItems_def userMenus_def)
  have cases: "forest = [] \<or> forest = buildUnifiedNavTree rng ?items \<or>
      forest = filterNavTreeByModule rng (buildUnifiedNavTree rng ?items) (trimSpace reqModule)"
    using assms(1) unfolding GetNavMenus_def Let_def protoItems_def
    by (auto simp: bindA_Inr_iff Menu_List_def Role_ListMenuIDsByUser_def queryA_Inr_iff split: if_splits)
  have tree: "set (forestNodes (buildUnifiedNavTree rng ?items)) \<subseteq> protoOf ` userMenus ?u (db w) \<union> Collect synthetic"
    using unified_safe [OF assms(2), of ?items] items by blast
  from cases show ?thesis
  proof (elim disjE)
    assume "forest = filterNavTreeByModule rng (buildUnifiedNavTree rng ?items) (trimSpace reqModule)"
    then show ?thesis using filterNav_safe [OF assms(2)] tree by blast
  qed (use tree in simp_all)
qed

subsection \<open>Properties\<close>

text \<open>
   \<^verbatim>\<open>CreateMenu\<close>, for every database failure: either an error, and no table has
  changed; or exactly two rows were added, the validated menu (fresh identifier and code, a
  parent that exists, is a directory and lies in the same module and placement) and one
  operation log row that names it.
\<close>

theorem CreateMenu_effect:
  "effectA (CreateMenu True ctx q)
     (\<lambda>d node d'. \<exists>m i t. validMenuFor [] q m \<and> goodParent d m \<and>
        mID m \<notin> mID ` set (sysMenus d) \<and> mCode m \<notin> mCode ` set (sysMenus d) \<and>
        node = modelMenuToProto m [] \<and>
        d' = d\<lparr>sysMenus := sysMenus d @ [m],
          sysLogs := sysLogs d @ [logRow i t ctx ''menu'' ''menu.create'' (utf8 [229, 136, 155, 229, 187, 186, 232, 143, 156, 229, 141, 149]) (mID m) (mName m)
            AuditNone (menuAuditJSON m)]\<rparr>)
     (\<lambda>d e d'. d' = d)"
  by (rule effectA_atomic [OF _ atomic_CreateMenu]) (rule CreateMenu_Inr)

text \<open>
   \<^verbatim>\<open>UpdateMenu\<close>: either an error and no change; or the row with the given
  identifier, which was not a generated function menu, is replaced by the validated menu with
  its old creation time, its parent exists and is not itself, every other row is as before, and
  one log row holds both versions.
\<close>

theorem UpdateMenu_effect:
  "effectA (UpdateMenu True ctx q)
     (\<lambda>d node d'. \<exists>m old i t. old \<in> set (sysMenus d) \<and> mID old = trimSpace (mqId q) \<and>
        \<not> isGeneratedFunctionMenu old \<and> validMenuFor (trimSpace (mqId q)) q m \<and> goodParent d m \<and>
        mParentID m \<noteq> mID m \<and> node = modelMenuToProto m [] \<and>
        d' = d\<lparr>sysMenus := updateRows (\<lambda>o'. mID o' = mID m) (\<lambda>o'. m\<lparr>mCreatedAt := mCreatedAt o'\<rparr>) (sysMenus d),
          sysLogs := sysLogs d @ [logRow i t ctx ''menu'' ''menu.update'' (utf8 [230, 155, 180, 230, 150, 176, 232, 143, 156, 229, 141, 149]) (mID m) (mName m)
            (menuAuditJSON old) (menuAuditJSON m)]\<rparr>)
     (\<lambda>d e d'. d' = d)"
  by (rule effectA_atomic [OF _ atomic_UpdateMenu]) (rule UpdateMenu_Inr)

text \<open>
   \<^verbatim>\<open>DeleteMenu\<close>: either an error and no change; or the menu existed, was not
  generated and had no children, and exactly that row and the grants of it are gone, with one
  log row that keeps the last version.
\<close>

theorem DeleteMenu_effect:
  "effectA (DeleteMenu True ctx reqID)
     (\<lambda>d u d'. \<exists>m j t. m \<in> set (sysMenus d) \<and> mID m = trimSpace reqID \<and> \<not> isGeneratedFunctionMenu m \<and>
        mID m \<notin> mParentID ` set (sysMenus d) \<and>
        d' = d\<lparr>sysMenus := filter (\<lambda>c. mID c \<noteq> mID m) (sysMenus d),
          sysRoleMenus := filter (\<lambda>g. rmMenuID g \<noteq> mID m) (sysRoleMenus d),
          sysLogs := sysLogs d @ [logRow j t ctx ''menu'' ''menu.delete'' (utf8 [229, 136, 160, 233, 153, 164, 232, 143, 156, 229, 141, 149]) (mID m) (mName m)
            (menuAuditJSON m) AuditNone]\<rparr>)
     (\<lambda>d e d'. d' = d)"
  by (rule effectA_atomic [OF _ atomic_DeleteMenu]) (use DeleteMenu_Inr in \<open>fastforce simp only: image_iff\<close>)

text \<open>Go may range over a finite map in sorted order: an instance for the examples.\<close>

lemma goRange_sorted: "goRange sorted_list_of_set"
  by (simp add: goRange_def)

text \<open>
  C1: \<^verbatim>\<open>GetNavMenus\<close> leaks nothing: whatever the order of Go's map ranges, every
  entry of the navigation is an enabled, visible menu that an enabled role grants to the caller
  (itself, an ancestor of a granted menu, or the platform entry of a granted module), or an
  entry the code makes for a module without one; the tables are only read.
\<close>

theorem GetNavMenus_safe:
  assumes "goRange rng"
  shows "triple sys_ok (GetNavMenus rng ctx reqUserID reqModule)
    (\<lambda>forest d. sys_ok d \<and> set (forestNodes forest) \<subseteq>
       protoOf ` userMenus (effectiveUserID ctx reqUserID) d \<union> Collect synthetic)
    (\<lambda>e d. sys_ok d)"
proof (rule triple_readonly_fact [OF readonly_GetNavMenus])
  fix w forest w'
  assume "sys_ok (db w)" and run: "GetNavMenus rng ctx reqUserID reqModule w = (Inr forest, w')"
  then show "set (forestNodes forest) \<subseteq>
      protoOf ` userMenus (effectiveUserID ctx reqUserID) (db w') \<union> Collect synthetic"
    using GetNavMenus_Inr [OF run assms] readonlyD [OF readonly_GetNavMenus run] by simp
qed

theorem GetNavMenus_safe_witness:
  "triple sys_ok (GetNavMenus sorted_list_of_set \<lparr>ctxIncoming = None, ctxOutgoing = None\<rparr> ''u1'' [])
    (\<lambda>forest d. sys_ok d \<and> set (forestNodes forest) \<subseteq>
       protoOf ` userMenus (effectiveUserID \<lparr>ctxIncoming = None, ctxOutgoing = None\<rparr> ''u1'') d \<union> Collect synthetic)
    (\<lambda>e d. sys_ok d)"
  by (rule GetNavMenus_safe [OF goRange_sorted])

text \<open>
  C2: \<^verbatim>\<open>ListMenus\<close> with a tree: whatever the order of Go's map ranges, the tree holds
  each matching menu that hangs below a root exactly once, and the menus on or below a cycle of
  parents not at all; a node below another names that one as its parent, and the top of the
  tree, in the order of sort and name, is exactly the menus without a matching parent, so that
  every other one stands below its parent.
\<close>

theorem ListMenus_tree:
  assumes "goRange rng"
  shows "triple sys_ok (ListMenus rng req True)
    (\<lambda>forest d. sys_ok d \<and>
       (let shown = filter (menuMatches \<lparr>mfModule = trimSpace (mfModule req),
              mfPlacement = trimSpace (mfPlacement req), mfStatus = mfStatus req\<rparr>) (sysMenus d) in
        distinct (map pmId (forestNodes forest)) \<and>
        set (forestNodes forest) = protoOf ` {m \<in> set shown. rooted (shownParent shown) (mID m)} \<and>
        (\<forall>n \<in> set forest. wellParented n) \<and>
        (\<lambda>n. pmId (nodeMenu n)) ` set forest = {i \<in> mID ` set shown. shownParent shown i = None} \<and>
        sorted (map (\<lambda>n. (pmSort (nodeMenu n), pmName (nodeMenu n))) forest)))
    (\<lambda>e d. sys_ok d)"
proof (rule triple_readonly_fact [OF readonly_ListMenus])
  fix w forest w'
  assume ok: "sys_ok (db w)" and run: "ListMenus rng req True w = (Inr forest, w')"
  show "let shown = filter (menuMatches \<lparr>mfModule = trimSpace (mfModule req),
              mfPlacement = trimSpace (mfPlacement req), mfStatus = mfStatus req\<rparr>) (sysMenus (db w')) in
        distinct (map pmId (forestNodes forest)) \<and>
        set (forestNodes forest) = protoOf ` {m \<in> set shown. rooted (shownParent shown) (mID m)} \<and>
        (\<forall>n \<in> set forest. wellParented n) \<and>
        (\<lambda>n. pmId (nodeMenu n)) ` set forest = {i \<in> mID ` set shown. shownParent shown i = None} \<and>
        sorted (map (\<lambda>n. (pmSort (nodeMenu n), pmName (nodeMenu n))) forest)"
    unfolding Let_def readonlyD [OF readonly_ListMenus run]
    by (intro conjI ListMenus_tree_Inr [OF run assms ok refl])
qed

theorem ListMenus_tree_witness:
  "triple sys_ok (ListMenus sorted_list_of_set noMenuFilter True)
    (\<lambda>forest d. sys_ok d \<and>
       (let shown = filter (menuMatches \<lparr>mfModule = trimSpace (mfModule noMenuFilter),
              mfPlacement = trimSpace (mfPlacement noMenuFilter), mfStatus = mfStatus noMenuFilter\<rparr>) (sysMenus d) in
        distinct (map pmId (forestNodes forest)) \<and>
        set (forestNodes forest) = protoOf ` {m \<in> set shown. rooted (shownParent shown) (mID m)} \<and>
        (\<forall>n \<in> set forest. wellParented n) \<and>
        (\<lambda>n. pmId (nodeMenu n)) ` set forest = {i \<in> mID ` set shown. shownParent shown i = None} \<and>
        sorted (map (\<lambda>n. (pmSort (nodeMenu n), pmName (nodeMenu n))) forest)))
    (\<lambda>e d. sys_ok d)"
  by (rule ListMenus_tree [OF goRange_sorted])

text \<open>
   The menus of \<^verbatim>\<open>menu.go\<close> never lose a parent: creating, updating and deleting
  keep every menu at the top or below an existing menu, for every database failure.
\<close>

theorem menu_parents_kept:
  "keepsA parentsExist (CreateMenu True ctx q) \<and> keepsA parentsExist (UpdateMenu True ctx q) \<and>
   keepsA parentsExist (DeleteMenu True ctx i)"
  by (intro conjI keepsA_atomic atomic_CreateMenu atomic_UpdateMenu atomic_DeleteMenu)
    (auto intro: parentsExist_Create parentsExist_Update parentsExist_Delete)

text \<open>
  C3: nothing stops \<^verbatim>\<open>UpdateMenu\<close> from making a cycle of parents: on a table
  without one, moving directory \<^verbatim>\<open>a\<close> below \<^verbatim>\<open>b\<close> and then
  \<^verbatim>\<open>b\<close> below \<^verbatim>\<open>a\<close> both succeed, and the tree of
  \<^verbatim>\<open>ListMenus\<close> loses both menus.
\<close>

definition moveA :: "sysdb world \<Rightarrow> sysdb world" where
  "moveA w = snd (UpdateMenu False noUser (exampleReq ''a'' ''b'' ''dir.a'') w)"

definition moveB :: "sysdb world \<Rightarrow> sysdb world" where
  "moveB w = snd (UpdateMenu False noUser (exampleReq ''b'' ''a'' ''dir.b'') w)"

lemma moveA_run:
  "fst (UpdateMenu False noUser (exampleReq ''a'' ''b'' ''dir.a'') (exampleWorld exampleStore)) \<in> range Inr"
  "map (\<lambda>m. (mID m, mParentID m)) (sysMenus (db (moveA (exampleWorld exampleStore)))) = [(''use'', []), (''a'', ''b''), (''b'', [])]"
  by (simp_all add: moveA_def UpdateMenu_def menu_eval)

lemma moveB_run:
  "fst (UpdateMenu False noUser (exampleReq ''b'' ''a'' ''dir.b'') (moveA (exampleWorld exampleStore))) \<in> range Inr"
  "map (\<lambda>m. (mID m, mParentID m)) (sysMenus (db (moveB (moveA (exampleWorld exampleStore))))) = [(''use'', []), (''a'', ''b''), (''b'', ''a'')]"
  by (simp_all add: moveB_def moveA_def UpdateMenu_def menu_eval)

theorem UpdateMenu_makes_cycle:
  "fst (UpdateMenu False noUser (exampleReq ''a'' ''b'' ''dir.a'') (exampleWorld exampleStore)) \<in> range Inr \<and>
   fst (UpdateMenu False noUser (exampleReq ''b'' ''a'' ''dir.b'') (moveA (exampleWorld exampleStore))) \<in> range Inr \<and>
   rooted (shownParent (sysMenus exampleStore)) ''a'' \<and> rooted (shownParent (sysMenus exampleStore)) ''b'' \<and>
   \<not> rooted (shownParent (sysMenus (db (moveB (moveA (exampleWorld exampleStore)))))) ''a'' \<and>
   \<not> rooted (shownParent (sysMenus (db (moveB (moveA (exampleWorld exampleStore)))))) ''b''"
proof -
  let ?up = "shownParent (sysMenus (db (moveB (moveA (exampleWorld exampleStore)))))"
  have "rooted (shownParent (sysMenus exampleStore)) i" if "i \<in> {''a'', ''b''}" for i
    using that by (intro rooted_root) (auto simp: shownParent_def menusByID_def example_defs)
  moreover have "?up ''a'' = Some ''b''" "?up ''b'' = Some ''a''"
    by (simp_all add: shownParent_def menusByID_def moveB_def moveA_def UpdateMenu_def menu_eval)
  then have "\<not> rooted ?up i" if "i \<in> {''a'', ''b''}" for i
    by (intro cycle_not_rooted [OF _ that]) auto
  ultimately show ?thesis using moveA_run(1) moveB_run(1) by simp
qed

end
