(* ===== verification/Menu_Sync.thy ===== *)
theory Menu_Sync
  imports Menu_Claims
begin

text \<open>
  \<^verbatim>\<open>system/internal/logic/menu_function_sync.go\<close>: the menus of generated functions,
  which another service publishes, disables and removes, and the access checks the other
  services make.

  \<^verbatim>\<open>ensureMenuUnderFuncUse\<close> follows parents in a loop without a bound.  The walk is a
  partial function whose value \<open>None\<close> means that the loop never ends; a handler that
  reaches such a loop ends in \<open>Hangs\<close>.
\<close>

datatype 'a outcome = Hangs | Returns 'a

definition functionMenuCode :: "gostr \<Rightarrow> gostr" where
  "functionMenuCode functionID = ''func-operation.app.'' @ trimSpace functionID"

definition functionMenuViewKey :: "gostr \<Rightarrow> gostr" where
  "functionMenuViewKey functionID = ''func:'' @ trimSpace functionID"

definition functionActionMenuCode :: "gostr \<Rightarrow> gostr \<Rightarrow> gostr" where
  "functionActionMenuCode functionID actionKey =
     (let functionID = trimSpace functionID; actionKey = trimSpace actionKey in
      if functionID = [] \<or> actionKey = [] then []
      else functionMenuCode functionID @ ''.'' @ actionKey)"

definition normalizeGeneratedFunctionActionKeys :: "gostr list \<Rightarrow> gostr list" where
  "normalizeGeneratedFunctionActionKeys items = dedupTrim [] items"

definition generatedFunctionMenuRemark :: "gostr list \<Rightarrow> gostr" where
  "generatedFunctionMenuRemark actionKeys =
     (let normalized = normalizeGeneratedFunctionActionKeys actionKeys in
      if normalized = [] then (utf8 [229, 138, 159, 232, 131, 189, 229, 143, 145, 229, 184, 131, 232, 135, 170, 229, 138, 168, 229, 136, 155, 229, 187, 186])
      else (utf8 [229, 138, 159, 232, 131, 189, 229, 143, 145, 229, 184, 131, 232, 135, 170, 229, 138, 168, 229, 136, 155, 229, 187, 186, 59, 32, 97, 99, 116, 105, 111, 110, 115, 58]) @ joinWith '','' (sort normalized))"

definition generatedFunctionActionMenuName :: "gostr \<Rightarrow> gostr" where
  "generatedFunctionActionMenuName actionKey =
     (let actionKey = trimSpace actionKey in if actionKey = [] then (utf8 [230, 156, 170, 229, 145, 189, 229, 144, 141, 229, 138, 168, 228, 189, 156]) else actionKey)"

subsection \<open>Looking up\<close>

definition orNotFound :: "'a sysact \<Rightarrow> 'a sysact \<Rightarrow> 'a sysact" where
  "orNotFound m k = handleA m (\<lambda>e. if e = RecordNotFound then k else failA e)"

definition lookupGeneratedFunctionMenu :: "gostr \<Rightarrow> menu sysact" where
  "lookupGeneratedFunctionMenu functionID =
     orNotFound (Menu_GetBySourceIDAndMenuType MenuSourceTypeGeneratedFunction functionID MenuTypeMenu)
       (Menu_GetByCode (functionMenuCode functionID))"

definition lookupGeneratedFunctionActionMenu :: "gostr \<Rightarrow> gostr \<Rightarrow> menu sysact" where
  "lookupGeneratedFunctionActionMenu functionID actionKey =
     Menu_GetByCode (functionActionMenuCode functionID actionKey)"

text \<open>The pattern ``a missing row is no error'': \<open>None\<close> for a missing row.\<close>

definition optionalA :: "'a sysact \<Rightarrow> 'a option sysact" where
  "optionalA m = bindA (tryA m) (\<lambda>r. case r of
     Inr x \<Rightarrow> retA (Some x)
   | Inl e \<Rightarrow> if e = RecordNotFound then retA None else failA e)"

subsection \<open>Access checks\<close>

definition CheckFunctionMenuAccess ::
  "(gostr set \<Rightarrow> gostr list) \<Rightarrow> goctx \<Rightarrow> gostr \<Rightarrow> gostr \<Rightarrow> gostr \<Rightarrow> bool sysact" where
  "CheckFunctionMenuAccess rng ctx reqUserID reqFunctionID reqActionKey =
     (let userID = effectiveUserID ctx reqUserID;
          functionID = trimSpace reqFunctionID;
          actionKey = trimSpace reqActionKey in
      if functionID = [] then failA (Err ''function_id is required'')
      else if userID = [] then retA False
      else
      bindA (Menu_List noMenuFilter) (\<lambda>menus.
      bindA (Role_ListMenuIDsByUser userID) (\<lambda>menuIDs.
      if menuIDs = [] then retA False
      else
      let allowed = expandAllowedMenuIDs menus (rng (menuIDsToSet menuIDs)) rng in
      bindA (optionalA (lookupGeneratedFunctionMenu functionID)) (\<lambda>found.
      case found of
        None \<Rightarrow> retA False
      | Some target \<Rightarrow>
          if mStatus target \<noteq> MenuStatusEnabled \<or> mVisible target \<noteq> MenuVisibleYes then retA False
          else if actionKey = [] then retA (mID target \<in> allowed)
          else
          bindA (optionalA (lookupGeneratedFunctionActionMenu functionID actionKey)) (\<lambda>found.
          case found of
            None \<Rightarrow> retA False
          | Some actionMenu \<Rightarrow>
              if mStatus actionMenu \<noteq> MenuStatusEnabled \<or> mVisible actionMenu \<noteq> MenuVisibleYes
              then retA False
              else retA (mID actionMenu \<in> allowed))))))"

definition CheckMenuAccess ::
  "(gostr set \<Rightarrow> gostr list) \<Rightarrow> goctx \<Rightarrow> gostr \<Rightarrow> gostr \<Rightarrow> bool sysact" where
  "CheckMenuAccess rng ctx reqUserID reqMenuCode =
     (let userID = effectiveUserID ctx reqUserID;
          menuCode = trimSpace reqMenuCode in
      if userID = [] \<or> menuCode = [] then retA False
      else
      bindA (Menu_List noMenuFilter) (\<lambda>menus.
      bindA (Role_ListMenuIDsByUser userID) (\<lambda>menuIDs.
      let allowed = expandAllowedMenuIDs menus (rng (menuIDsToSet menuIDs)) rng in
      bindA (optionalA (Menu_GetByCode menuCode)) (\<lambda>found.
      case found of
        None \<Rightarrow> retA False
      | Some target \<Rightarrow>
          if mStatus target \<noteq> MenuStatusEnabled \<or> mVisible target \<noteq> MenuVisibleYes then retA False
          else retA (mID target \<in> allowed)))))"

subsection \<open>The parent of a generated menu\<close>

partial_function (option) walkToUse :: "(gostr \<Rightarrow> menu option) \<Rightarrow> gostr \<Rightarrow> gostr \<Rightarrow> bool option" where
  "walkToUse byID use currentID =
     (if currentID = [] then Some False
      else if currentID = use then Some True
      else (case byID currentID of
              None \<Rightarrow> Some False
            | Some menu \<Rightarrow> walkToUse byID use (mParentID menu)))"

definition funcNavFilter :: menuFilter where
  "funcNavFilter = \<lparr>mfModule = MenuModuleFuncOperation, mfPlacement = MenuPlacementModuleNav, mfStatus = 0\<rparr>"

definition ensureMenuUnderFuncUse :: "gostr \<Rightarrow> unit outcome sysact" where
  "ensureMenuUnderFuncUse menuID =
     bindA (wrapErrA (\<lambda>_. Err ''func use menu is not configured'') (Menu_GetByCode FuncUseMenuCode)) (\<lambda>useMenu.
     bindA (Menu_List funcNavFilter) (\<lambda>allMenus.
     case walkToUse (menusByID allMenus) (mID useMenu) menuID of
       None \<Rightarrow> retA Hangs
     | Some True \<Rightarrow> retA (Returns ())
     | Some False \<Rightarrow> failA (Err ''parent directory must be under func use menu'')))"

definition validateGeneratedFunctionParent :: "gostr \<Rightarrow> unit outcome sysact" where
  "validateGeneratedFunctionParent parentID =
     bindA (wrapErrA (\<lambda>_. Err ''parent menu not found'') (Menu_Get parentID)) (\<lambda>parent.
     if mModule parent \<noteq> MenuModuleFuncOperation \<or> mPlacement parent \<noteq> MenuPlacementModuleNav then
       failA (Err ''parent menu must belong to func-operation module nav'')
     else if mMenuType parent \<noteq> MenuTypeDirectory then failA (Err ''parent menu must be directory'')
     else if mStatus parent \<noteq> MenuStatusEnabled then failA (Err ''parent directory is disabled'')
     else ensureMenuUnderFuncUse parentID)"

subsection \<open>Publishing\<close>

definition upsertGeneratedFunctionMenu ::
  "gostr \<Rightarrow> gostr \<Rightarrow> gostr \<Rightarrow> int \<Rightarrow> gostr list \<Rightarrow> menuNode sysact" where
  "upsertGeneratedFunctionMenu functionID name parentID status actionKeys =
     bindA (tryA (lookupGeneratedFunctionMenu functionID)) (\<lambda>found.
     bindA nowA (\<lambda>now.
     case found of
       Inl e \<Rightarrow>
         if e \<noteq> RecordNotFound then failA e
         else
         bindA newUUID (\<lambda>i.
         bindA (Menu_MaxSort parentID MenuModuleFuncOperation MenuPlacementModuleNav) (\<lambda>maxSort.
         let menu =
           \<lparr>mID = i, mParentID = parentID, mModule = MenuModuleFuncOperation,
            mPlacement = MenuPlacementModuleNav, mName = name, mCode = functionMenuCode functionID,
            mViewKey = functionMenuViewKey functionID, mIcon = ''AppstoreOutlined'',
            mMenuType = MenuTypeMenu, mSort = maxSort + 10, mStatus = status, mVisible = MenuVisibleYes,
            mIsDefault = False, mRemark = generatedFunctionMenuRemark actionKeys,
            mSourceType = MenuSourceTypeGeneratedFunction, mSourceID = functionID,
            mCreatedAt = now, mUpdatedAt = now\<rparr> in
         bindA (wrapErrA wrapMenuDuplicateError (Menu_Create menu)) (\<lambda>_.
         retA (modelMenuToProto menu []))))
     | Inr existing \<Rightarrow>
         let existing = existing
           \<lparr>mParentID := parentID, mName := name, mStatus := status, mVisible := MenuVisibleYes,
            mRemark := generatedFunctionMenuRemark actionKeys,
            mSourceType := MenuSourceTypeGeneratedFunction, mSourceID := functionID,
            mUpdatedAt := now\<rparr> in
         bindA (wrapErrA wrapMenuDuplicateError (Menu_Update existing)) (\<lambda>_.
         retA (modelMenuToProto existing []))))"

text \<open>One action key of the loop; its value is the set of codes to keep.\<close>

definition syncActionMenu ::
  "gostr \<Rightarrow> gostr \<Rightarrow> int \<Rightarrow> int \<Rightarrow> gostr \<Rightarrow> unit sysact" where
  "syncActionMenu parentID functionID status index actionKey =
     (let actionCode = functionActionMenuCode functionID actionKey in
      if actionCode = [] then retA ()
      else
      bindA (tryA (lookupGeneratedFunctionActionMenu functionID actionKey)) (\<lambda>found.
      bindA nowA (\<lambda>now.
      case found of
        Inl e \<Rightarrow>
          if e \<noteq> RecordNotFound then failA e
          else
          bindA newUUID (\<lambda>i.
          wrapErrA wrapMenuDuplicateError (Menu_Create
            \<lparr>mID = i, mParentID = parentID, mModule = MenuModuleFuncOperation,
             mPlacement = MenuPlacementModuleNav, mName = generatedFunctionActionMenuName actionKey,
             mCode = actionCode, mViewKey = actionKey, mIcon = [], mMenuType = MenuTypeButton,
             mSort = (index + 1) * 10, mStatus = status, mVisible = MenuVisibleYes, mIsDefault = False,
             mRemark = (utf8 [229, 138, 159, 232, 131, 189, 229, 138, 168, 228, 189, 156, 230, 157, 131, 233, 153, 144]), mSourceType = MenuSourceTypeGeneratedFunction,
             mSourceID = functionID, mCreatedAt = now, mUpdatedAt = now\<rparr>))
      | Inr menuItem \<Rightarrow>
          wrapErrA wrapMenuDuplicateError (Menu_Update (menuItem
            \<lparr>mParentID := parentID, mName := generatedFunctionActionMenuName actionKey,
             mViewKey := actionKey, mMenuType := MenuTypeButton, mSort := (index + 1) * 10,
             mStatus := status, mVisible := MenuVisibleYes,
             mSourceType := MenuSourceTypeGeneratedFunction, mSourceID := functionID,
             mUpdatedAt := now\<rparr>)))))"

definition isActionMenuOf :: "gostr \<Rightarrow> menu \<Rightarrow> bool" where
  "isActionMenuOf functionID item \<longleftrightarrow>
     mMenuType item = MenuTypeButton \<and> mSourceType item = MenuSourceTypeGeneratedFunction \<and>
     mSourceID item = functionID"

definition deleteIfPresent :: "gostr \<Rightarrow> unit sysact" where
  "deleteIfPresent i = orNotFound (Menu_Delete i) (retA ())"

definition syncGeneratedFunctionActionMenus ::
  "pmenu \<Rightarrow> gostr list \<Rightarrow> int \<Rightarrow> unit sysact" where
  "syncGeneratedFunctionActionMenus parent actionKeys status =
     bindA (Menu_List funcNavFilter) (\<lambda>existing.
     let parentID = trimSpace (pmId parent);
         functionID = trimSpace (pmSourceId parent) in
     bindA (forA (enumerate 0 actionKeys)
              (\<lambda>(index, actionKey). syncActionMenu parentID functionID status (int index) actionKey)) (\<lambda>_.
     let allowed = functionActionMenuCode functionID ` set actionKeys - {[]} in
     forA existing (\<lambda>item.
       if mParentID item \<noteq> parentID \<or> \<not> isActionMenuOf functionID item then retA ()
       else if mCode item \<in> allowed then retA ()
       else deleteIfPresent (mID item))))"

definition grantAdminGeneratedFunctionAccess :: "gostr \<Rightarrow> unit sysact" where
  "grantAdminGeneratedFunctionAccess functionID =
     bindA (Role_GetByCode RoleCodeAdmin) (\<lambda>adminRole.
     bindA (Menu_ListBySourceType MenuSourceTypeGeneratedFunction) (\<lambda>menus.
     bindA nowA (\<lambda>now.
     Role_GrantRoleMenus (rlID adminRole)
       (map mID (filter (\<lambda>m. mSourceID m = functionID) menus)) now)))"

definition updateGeneratedFunctionActionMenuStatus :: "gostr \<Rightarrow> int \<Rightarrow> int \<Rightarrow> unit sysact" where
  "updateGeneratedFunctionActionMenuStatus functionID status updatedAt =
     bindA (Menu_List funcNavFilter) (\<lambda>items.
     forA items (\<lambda>item.
       if \<not> isActionMenuOf functionID item then retA ()
       else orNotFound (Menu_UpdateStatus (mID item) status updatedAt) (retA ())))"

definition deleteGeneratedFunctionActionMenus :: "gostr \<Rightarrow> gostr \<Rightarrow> unit sysact" where
  "deleteGeneratedFunctionActionMenus functionID parentID =
     bindA (Menu_List funcNavFilter) (\<lambda>items.
     forA items (\<lambda>item.
       if mMenuType item \<noteq> MenuTypeButton \<or> mParentID item \<noteq> parentID then retA ()
       else if mSourceType item \<noteq> MenuSourceTypeGeneratedFunction \<or> mSourceID item \<noteq> functionID
       then retA ()
       else deleteIfPresent (mID item)))"

definition disableGeneratedFunctionMenu :: "gostr \<Rightarrow> menuNode option sysact" where
  "disableGeneratedFunctionMenu functionID =
     bindA (optionalA (lookupGeneratedFunctionMenu functionID)) (\<lambda>found.
     case found of
       None \<Rightarrow> retA None
     | Some existing \<Rightarrow>
         bindA nowA (\<lambda>now.
         bindA (wrapErrA wrapMenuNotFoundError (Menu_UpdateStatus (mID existing) MenuStatusDisabled now)) (\<lambda>_.
         bindA (updateGeneratedFunctionActionMenuStatus functionID MenuStatusDisabled now) (\<lambda>_.
         retA (Some (modelMenuToProto (existing\<lparr>mStatus := MenuStatusDisabled, mUpdatedAt := now\<rparr>) []))))))"

definition removeGeneratedFunctionMenu :: "gostr \<Rightarrow> menuNode option sysact" where
  "removeGeneratedFunctionMenu functionID =
     bindA (optionalA (lookupGeneratedFunctionMenu functionID)) (\<lambda>found.
     case found of
       None \<Rightarrow> retA None
     | Some existing \<Rightarrow>
         bindA (deleteGeneratedFunctionActionMenus functionID (mID existing)) (\<lambda>_.
         bindA (wrapErrA wrapMenuNotFoundError (Menu_Delete (mID existing))) (\<lambda>_.
         retA (Some (modelMenuToProto existing [])))))"

record syncReq =
  sqFunctionId :: gostr
  sqAction :: gostr
  sqName :: gostr
  sqParentId :: gostr
  sqActionKeys :: "gostr list"

text \<open>The rest of a publication, after its parent has been checked.\<close>

definition publishGeneratedFunctionMenu ::
  "gostr \<Rightarrow> gostr \<Rightarrow> gostr \<Rightarrow> gostr \<Rightarrow> gostr list \<Rightarrow> menuNode sysact" where
  "publishGeneratedFunctionMenu functionID action name parentID reqActionKeys =
     bindA (if action = ''sync'' then
              bindA (tryA (lookupGeneratedFunctionMenu functionID)) (\<lambda>existing.
              case existing of
                Inr m \<Rightarrow> retA (if mStatus m = MenuStatusDisabled then MenuStatusDisabled else MenuStatusEnabled)
              | Inl _ \<Rightarrow> retA MenuStatusEnabled)
            else retA MenuStatusEnabled) (\<lambda>status.
     let actionKeys = normalizeGeneratedFunctionActionKeys reqActionKeys in
     bindA (upsertGeneratedFunctionMenu functionID name parentID status actionKeys) (\<lambda>menu.
     bindA (syncGeneratedFunctionActionMenus (nodeMenu menu) actionKeys status) (\<lambda>_.
     bindA (grantAdminGeneratedFunctionAccess functionID) (\<lambda>_.
     retA menu))))"

definition SyncGeneratedFunctionMenu :: "syncReq \<Rightarrow> menuNode option outcome sysact" where
  "SyncGeneratedFunctionMenu req =
     (let functionID = trimSpace (sqFunctionId req);
          action = trimSpace (sqAction req);
          action = (if action = [] then ''sync'' else action) in
      if functionID = [] then failA (Err ''function_id is required'')
      else if action = ''delete'' then bindA (removeGeneratedFunctionMenu functionID) (\<lambda>m. retA (Returns m))
      else if action = ''unpublish'' then bindA (disableGeneratedFunctionMenu functionID) (\<lambda>m. retA (Returns m))
      else if action = ''publish'' \<or> action = ''sync'' then
        let name = trimSpace (sqName req); parentID = trimSpace (sqParentId req) in
        if name = [] then failA (Err ''name is required'')
        else if parentID = [] then failA (Err ''parent_id is required'')
        else
        bindA (validateGeneratedFunctionParent parentID) (\<lambda>valid.
        case valid of
          Hangs \<Rightarrow> retA Hangs
        | Returns _ \<Rightarrow>
            bindA (publishGeneratedFunctionMenu functionID action name parentID (sqActionKeys req)) (\<lambda>menu.
            retA (Returns (Some menu))))
      else failA (Err (''unsupported action: '' @ action)))"

subsection \<open>The ancestor walk\<close>

definition parentOf :: "(gostr \<Rightarrow> menu option) \<Rightarrow> gostr \<Rightarrow> gostr option" where
  "parentOf byID i =
     (case byID i of None \<Rightarrow> None | Some m \<Rightarrow> if mParentID m = [] then None else Some (mParentID m))"

interpretation walk: parent_map "parentOf (menusByID all)" "mID ` set all \<union> mParentID ` set all" for all
proof
  show "finite (mID ` set all \<union> mParentID ` set all)" by simp
next
  fix x y assume "parentOf (menusByID all) x = Some y"
  then obtain m where "menusByID all x = Some m" "mParentID m = y"
    by (auto simp: parentOf_def split: option.splits if_splits)
  then show "x \<in> mID ` set all \<union> mParentID ` set all \<and> y \<in> mID ` set all \<union> mParentID ` set all"
    using menusByID_Some by fastforce
qed

lemma parentOf_nonempty: "parentOf byID i = Some p \<Longrightarrow> p \<noteq> []"
  by (auto simp: parentOf_def split: option.splits if_splits)

lemma walkToUse_Nil [simp]: "walkToUse byID use [] = Some False"
  by (simp add: walkToUse.simps)

lemma walkToUse_use [simp]: "use \<noteq> [] \<Longrightarrow> walkToUse byID use use = Some True"
  by (simp add: walkToUse.simps)

lemma walkToUse_step:
  assumes "i \<noteq> []" and "i \<noteq> use"
  shows "walkToUse byID use i =
    (case parentOf byID i of None \<Rightarrow> Some False | Some p \<Rightarrow> walkToUse byID use p)"
  using assms by (subst walkToUse.simps) (auto simp: parentOf_def split: option.splits)

lemma walkToUse_True:
  "climb (parentOf byID) k i = Some use \<Longrightarrow> i \<noteq> [] \<Longrightarrow> walkToUse byID use i = Some True"
proof (induction k arbitrary: i)
  case 0
  then show ?case by auto
next
  case (Suc k)
  show ?case
  proof (cases "i = use")
    case True
    then show ?thesis using Suc.prems by simp
  next
    case False
    obtain p where "parentOf byID i = Some p" "climb (parentOf byID) k p = Some use"
      using Suc.prems(1) unfolding climb_Suc_first by (auto split: option.splits)
    then show ?thesis using Suc parentOf_nonempty walkToUse_step [OF Suc.prems(2) False] by simp
  qed
qed

lemma walkToUse_False:
  "climb (parentOf byID) k i = Some r \<Longrightarrow> parentOf byID r = None \<Longrightarrow> i \<noteq> [] \<Longrightarrow>
   (\<And>j. climb (parentOf byID) j i \<noteq> Some use) \<Longrightarrow> walkToUse byID use i = Some False"
proof (induction k arbitrary: i)
  case 0
  have "i \<noteq> use" using 0(4) [of 0] by simp
  then show ?case using 0 by (simp add: walkToUse_step)
next
  case (Suc k)
  have iu: "i \<noteq> use" using Suc.prems(4) [of 0] by simp
  obtain p where p: "parentOf byID i = Some p" "climb (parentOf byID) k p = Some r"
    using Suc.prems(1) unfolding climb_Suc_first by (auto split: option.splits)
  have "climb (parentOf byID) j p \<noteq> Some use" for j
    using Suc.prems(4) [of "Suc j"] p(1) unfolding climb_Suc_first by simp
  then have "walkToUse byID use p = Some False"
    using Suc.IH [OF p(2) Suc.prems(2) parentOf_nonempty [OF p(1)]] by blast
  then show ?case using walkToUse_step [OF Suc.prems(3) iu] p(1) by simp
qed

lemma walkToUse_ends:
  assumes "walkToUse byID use i = Some r"
  shows "i \<noteq> [] \<longrightarrow> (\<exists>k. climb (parentOf byID) k i = Some use) \<or> rooted (parentOf byID) i"
  using assms
proof (induction rule: walkToUse.raw_induct [rotated, consumes 1, case_names step])
  case (step walk byID use i r)
  show ?case
  proof (cases "i = [] \<or> i = use \<or> parentOf byID i = None")
    case True
    then show ?thesis using climb.simps(1) rooted_root by metis
  next
    case False
    then obtain p where p: "parentOf byID i = Some p" by blast
    then obtain m where "byID i = Some m" "mParentID m = p"
      by (auto simp: parentOf_def split: option.splits if_splits)
    then have "walk byID use p = Some r" using step(2) False by simp
    then have "(\<exists>k. climb (parentOf byID) k p = Some use) \<or> rooted (parentOf byID) p"
      using step(1) parentOf_nonempty [OF p] by blast
    then show ?thesis
    proof
      assume "\<exists>k. climb (parentOf byID) k p = Some use"
      then obtain k where "climb (parentOf byID) (Suc k) i = Some use"
        using p unfolding climb_Suc_first by auto
      then show ?thesis by blast
    next
      assume "rooted (parentOf byID) p"
      then show ?thesis using rooted_step [of "parentOf byID", OF p] by simp
    qed
  qed
qed

lemma walkToUse_spec:
  assumes "i \<noteq> []"
  shows "walkToUse byID use i =
    (if \<exists>k. climb (parentOf byID) k i = Some use then Some True
     else if rooted (parentOf byID) i then Some False else None)"
proof (cases "\<exists>k. climb (parentOf byID) k i = Some use")
  case True
  then show ?thesis using walkToUse_True assms by auto
next
  case False
  then show ?thesis
    using walkToUse_ends [of byID use i] walkToUse_False [of byID _ i _ use] assms
    by (cases "walkToUse byID use i") (auto simp: rooted_def)
qed

subsection \<open>What the handlers keep\<close>

lemma readonly_optionalA [intro]: "readonly m \<Longrightarrow> readonly (optionalA m)"
  unfolding optionalA_def by (intro readonly_bind readonly_try) (auto split: sum.splits)

lemma readonly_lookups [act_frame, simp]:
  "readonly (lookupGeneratedFunctionMenu f)" "readonly (lookupGeneratedFunctionActionMenu f k)"
  by (auto simp: lookupGeneratedFunctionMenu_def lookupGeneratedFunctionActionMenu_def orNotFound_def)

lemma readonly_optional_case:
  "readonly n \<Longrightarrow> (\<And>x. readonly (k x)) \<Longrightarrow> readonly (case z of None \<Rightarrow> n | Some x \<Rightarrow> k x)"
  by (cases z) auto

lemma readonly_if [intro]: "readonly m \<Longrightarrow> readonly n \<Longrightarrow> readonly (if b then m else n)"
  by simp

lemma readonly_CheckFunctionMenuAccess [act_frame, simp]:
  "readonly (CheckFunctionMenuAccess rng ctx u f k)"
  unfolding CheckFunctionMenuAccess_def Let_def
  by (intro readonly_if readonly_bind readonly_optional_case readonly_optionalA) simp_all

lemma readonly_CheckMenuAccess [act_frame, simp]: "readonly (CheckMenuAccess rng ctx u c)"
  unfolding CheckMenuAccess_def Let_def
  by (intro readonly_if readonly_bind readonly_optional_case readonly_optionalA) simp_all

lemma readonly_ensure [act_frame, simp]: "readonly (ensureMenuUnderFuncUse i)"
  unfolding ensureMenuUnderFuncUse_def
  by (intro readonly_bind readonly_wrap readonly_optional_case) (auto split: bool.splits)

lemma readonly_validateParent [act_frame, simp]: "readonly (validateGeneratedFunctionParent i)"
  unfolding validateGeneratedFunctionParent_def
  by (intro readonly_bind readonly_wrap readonly_if) simp_all

lemma triple_bind_uuid:
  "(\<And>i. triple (\<lambda>d. P d \<and> okID i) (k i) Q E) \<Longrightarrow> triple P (bindA newUUID k) Q E"
  by (intro triple_bind [where R = "\<lambda>i d. P d \<and> okID i"] triple_uuid) auto

lemma orNotFound_ok: "preserves sys_ok m \<Longrightarrow> preserves sys_ok k \<Longrightarrow> preserves sys_ok (orNotFound m k)"
  unfolding orNotFound_def by (rule triple_handle) (auto intro: triple_fail)

lemma Menu_Create_pre: "triple (\<lambda>d. sys_ok d \<and> okID (mID m)) (Menu_Create m) (\<lambda>_. sys_ok) (\<lambda>_. sys_ok)"
  unfolding Menu_Create_def by (rule triple_stmt) (auto intro: insertMenu_ok)

lemma upsert_ok [sys_keeps]: "preserves sys_ok (upsertGeneratedFunctionMenu f n p s ks)"
  unfolding upsertGeneratedFunctionMenu_def Let_def
proof (intro triple_bind_readonly, goal_cases)
  case (5 r t)
  show ?case
  proof (cases r)
    case (Inl e)
    show ?thesis unfolding Inl sum.case
      apply (intro triple_if triple_fail, assumption)
      apply (rule triple_bind_uuid)
      apply (rule triple_bind_readonly, simp, simp)
      apply (rule triple_bind [where R = "\<lambda>_. sys_ok"])
       apply (rule triple_wrap)
       apply (rule triple_pre [OF Menu_Create_pre], simp)
      apply (rule triple_ret, assumption)
      done
  next
    case (Inr m)
    show ?thesis unfolding Inr sum.case
      by (intro triple_bind [where R = "\<lambda>_. sys_ok"] triple_wrap sys_keeps triple_ret)
  qed
qed (auto intro: readonly_try)

lemma syncAction_ok [sys_keeps]: "preserves sys_ok (syncActionMenu p f s i k)"
  unfolding syncActionMenu_def Let_def
proof (intro triple_if triple_ret triple_bind_readonly, goal_cases)
  case (6 r t)
  show ?case
  proof (cases r)
    case (Inl e)
    show ?thesis unfolding Inl sum.case
      apply (intro triple_if triple_fail, assumption)
      apply (rule triple_bind_uuid)
      apply (rule triple_wrap)
      apply (rule triple_pre [OF Menu_Create_pre], simp)
      done
  next
    case (Inr m)
    show ?thesis unfolding Inr sum.case by (intro triple_wrap sys_keeps)
  qed
qed (auto intro: readonly_try)

lemma deleteIfPresent_ok [sys_keeps]: "preserves sys_ok (deleteIfPresent i)"
  unfolding deleteIfPresent_def by (intro orNotFound_ok sys_keeps triple_ret)

lemma syncActions_ok [sys_keeps]: "preserves sys_ok (syncGeneratedFunctionActionMenus p ks s)"
  unfolding syncGeneratedFunctionActionMenus_def Let_def
  apply (rule triple_bind_readonly, simp, assumption)
  apply (rule triple_bind [where R = "\<lambda>_. sys_ok"])
   apply (rule triple_for, simp add: case_prod_beta, rule sys_keeps)
  apply (rule triple_for, intro triple_if triple_ret sys_keeps, assumption+)
  done

lemma triple_pure: "(A \<Longrightarrow> triple P m Q E) \<Longrightarrow> triple (\<lambda>d. P d \<and> A) m Q E"
  by (auto simp: triple_def)

lemma grantAdmin_ok [sys_keeps]: "preserves sys_ok (grantAdminGeneratedFunctionAccess f)"
  unfolding grantAdminGeneratedFunctionAccess_def
proof (rule triple_bind)
  show "triple sys_ok (Role_GetByCode RoleCodeAdmin)
      (\<lambda>r d. sys_ok d \<and> rlID r \<in> rlID ` set (sysRoles d)) (\<lambda>_. sys_ok)"
    by (rule triple_readonly_fact)
      (auto simp: Role_GetByCode_def queryA_Inr_iff dest: firstRow_Inr)
next
  fix r
  show "triple (\<lambda>d. sys_ok d \<and> rlID r \<in> rlID ` set (sysRoles d))
      (bindA (Menu_ListBySourceType MenuSourceTypeGeneratedFunction) (\<lambda>menus. bindA nowA (\<lambda>now.
        Role_GrantRoleMenus (rlID r) (map mID (filter (\<lambda>m. mSourceID m = f) menus)) now)))
      (\<lambda>_. sys_ok) (\<lambda>_. sys_ok)"
  proof (rule triple_bind)
    show "triple (\<lambda>d. sys_ok d \<and> rlID r \<in> rlID ` set (sysRoles d))
        (Menu_ListBySourceType MenuSourceTypeGeneratedFunction)
        (\<lambda>ms d. (sys_ok d \<and> rlID r \<in> rlID ` set (sysRoles d)) \<and> set ms \<subseteq> set (sysMenus d)) (\<lambda>_. sys_ok)"
      by (rule triple_readonly_fact) (auto simp: Menu_ListBySourceType_def queryA_Inr_iff orderMenus_def)
  next
    fix ms :: "menu list"
    let ?ids = "map mID (filter (\<lambda>m. mSourceID m = f) ms)"
    have trimmed: "trimSpace (rlID r) = rlID r" "\<forall>m \<in> set ?ids. trimSpace m = m" "set ?ids \<subseteq> mID ` set (sysMenus d)"
      if "sys_ok d" "rlID r \<in> rlID ` set (sysRoles d)" "set ms \<subseteq> set (sysMenus d)" for d
    proof -
      have "okIDs (rlID ` set (sysRoles d))" "okIDs (mID ` set (sysMenus d))"
        using that(1) by (simp_all add: sys_ok_defs)
      with that show "trimSpace (rlID r) = rlID r" "\<forall>m \<in> set ?ids. trimSpace m = m" "set ?ids \<subseteq> mID ` set (sysMenus d)"
        by (auto simp: okIDs_def okID_def)
    qed
    show "triple (\<lambda>d. (sys_ok d \<and> rlID r \<in> rlID ` set (sysRoles d)) \<and> set ms \<subseteq> set (sysMenus d))
        (bindA nowA (\<lambda>now. Role_GrantRoleMenus (rlID r) ?ids now)) (\<lambda>_. sys_ok) (\<lambda>_. sys_ok)"
    proof (rule triple_bind_readonly)
      fix t
      show "triple (\<lambda>d. (sys_ok d \<and> rlID r \<in> rlID ` set (sysRoles d)) \<and> set ms \<subseteq> set (sysMenus d))
          (Role_GrantRoleMenus (rlID r) ?ids t) (\<lambda>_. sys_ok) (\<lambda>_. sys_ok)"
      proof (cases "trimSpace (rlID r) = rlID r \<and> (\<forall>m \<in> set ?ids. trimSpace m = m)")
        case True
        then show ?thesis
          using trimmed(3) by (intro triple_pre [OF Role_GrantRoleMenus_ok [of "rlID r" ?ids t]]) auto
      next
        case False
        then show ?thesis using trimmed by (auto simp: triple_def)
      qed
    qed auto
  qed
qed

lemma updateActionStatus_ok [sys_keeps]: "preserves sys_ok (updateGeneratedFunctionActionMenuStatus f s t)"
  unfolding updateGeneratedFunctionActionMenuStatus_def
  apply (rule triple_bind_readonly, simp, assumption)
  apply (rule triple_for, intro triple_if triple_ret orNotFound_ok sys_keeps, assumption+)
  done

lemma deleteActions_ok [sys_keeps]: "preserves sys_ok (deleteGeneratedFunctionActionMenus f p)"
  unfolding deleteGeneratedFunctionActionMenus_def
  apply (rule triple_bind_readonly, simp, assumption)
  apply (rule triple_for, intro triple_if triple_ret sys_keeps, assumption+)
  done

lemma disable_ok [sys_keeps]: "preserves sys_ok (disableGeneratedFunctionMenu f)"
  unfolding disableGeneratedFunctionMenu_def
  apply (rule triple_bind_readonly, simp add: readonly_optionalA, assumption)
  apply (case_tac x; simp only: option.case)
   apply (rule triple_ret, assumption)
  apply (rule triple_bind_readonly, simp, assumption)
  apply (intro triple_bind [where R = "\<lambda>_. sys_ok"] triple_wrap sys_keeps triple_ret, assumption)
  done

lemma remove_ok [sys_keeps]: "preserves sys_ok (removeGeneratedFunctionMenu f)"
  unfolding removeGeneratedFunctionMenu_def
  apply (rule triple_bind_readonly, simp add: readonly_optionalA, assumption)
  apply (case_tac x; simp only: option.case)
   apply (rule triple_ret, assumption)
  apply (intro triple_bind [where R = "\<lambda>_. sys_ok"] triple_wrap sys_keeps triple_ret, assumption)
  done

lemma publish_ok [sys_keeps]: "preserves sys_ok (publishGeneratedFunctionMenu f a n p ks)"
  unfolding publishGeneratedFunctionMenu_def Let_def
  apply (rule triple_bind_readonly)
    apply (intro readonly_if readonly_bind readonly_try, simp, simp split: sum.splits, simp, assumption)
  apply (intro triple_bind [where R = "\<lambda>_. sys_ok"] sys_keeps triple_ret, assumption)
  done

lemma SyncGeneratedFunctionMenu_ok [sys_keeps]: "preserves sys_ok (SyncGeneratedFunctionMenu req)"
  unfolding SyncGeneratedFunctionMenu_def Let_def
  apply (intro triple_if triple_fail, assumption)
        apply (intro triple_bind [where R = "\<lambda>_. sys_ok"] sys_keeps triple_ret, assumption)
       apply (intro triple_bind [where R = "\<lambda>_. sys_ok"] sys_keeps triple_ret, assumption)
      apply assumption
     apply assumption
    apply (rule triple_bind_readonly, simp, assumption)
    apply (case_tac x; simp only: outcome.case)
     apply (rule triple_ret, assumption)
    apply (intro triple_bind [where R = "\<lambda>_. sys_ok"] sys_keeps triple_ret, assumption)
  apply assumption
  done

subsection \<open>What the access checks answer\<close>

lemma menuIDsToSet_Nil: "menuIDsToSet [] = {}"
  by (simp add: menuIDsToSet_def)

lemma allowedMenus_none [simp]: "allowedMenus ms {} = {}"
  by (simp add: allowedMenus_def grantedClosure_def)

lemma Menu_List_all: "Menu_List noMenuFilter w = (Inr ms, w') \<Longrightarrow> ms = orderMenus (sysMenus (db w)) \<and> db w' = db w"
  by (auto simp: Menu_List_def queryA_Inr_iff noMenuFilter_def menuMatches_def)

lemma expand_list:
  assumes "goRange rng" and "sys_ok d"
  shows "expandAllowedMenuIDs (orderMenus (sysMenus d)) (rng (menuIDsToSet ids)) rng =
    allowedMenus (sysMenus d) (menuIDsToSet ids)"
proof -
  have dist: "distinct (map mID (sysMenus d))" using assms(2) by (simp add: sys_ok_defs)
  then have "expandAllowedMenuIDs (orderMenus (sysMenus d)) (rng (menuIDsToSet ids)) rng =
      allowedMenus (orderMenus (sysMenus d)) (menuIDsToSet ids)"
    by (intro expandAllowed_rng assms) simp_all
  also have "\<dots> = allowedMenus (sysMenus d) (menuIDsToSet ids)"
    using dist by (intro allowedMenus_cong) simp_all
  finally show ?thesis .
qed

text \<open>The outcome of a first-row query as an option.\<close>

definition found :: "err + 'r \<Rightarrow> 'r option" where
  "found r = (case r of Inl _ \<Rightarrow> None | Inr x \<Rightarrow> Some x)"

lemma found_simps [simp]: "found (Inr x) = Some x" "found (Inl e) = None"
  by (simp_all add: found_def)

lemma optionalA_query:
  "optionalA (queryA (\<lambda>d. firstRow pk p (rows d))) w = (Inr r, w') \<Longrightarrow>
   r = found (firstRow pk p (rows (db w))) \<and> db w' = db w"
proof (cases "firstRow pk p (rows (db w))")
  case (Inl e)
  assume run: "optionalA (queryA (\<lambda>d. firstRow pk p (rows d))) w = (Inr r, w')"
  have "e = RecordNotFound" using Inl by (simp add: firstRow_Inl)
  then show ?thesis using run Inl
    by (auto simp: optionalA_def bindA_def tryA_def queryA_def stmtA_def retA_def failA_def
      split: option.splits if_splits)
next
  case (Inr x)
  assume run: "optionalA (queryA (\<lambda>d. firstRow pk p (rows d))) w = (Inr r, w')"
  then show ?thesis using Inr
    by (auto simp: optionalA_def bindA_def tryA_def queryA_def stmtA_def retA_def failA_def
      split: option.splits if_splits)
qed

definition functionMenu :: "sysdb \<Rightarrow> gostr \<Rightarrow> menu option" where
  "functionMenu d functionID =
     (case firstRow mID (\<lambda>m. mSourceType m = MenuSourceTypeGeneratedFunction \<and> mSourceID m = functionID \<and>
             mMenuType m = MenuTypeMenu) (sysMenus d) of
        Inr m \<Rightarrow> Some m
      | Inl _ \<Rightarrow> found (firstRow mID (\<lambda>m. mCode m = functionMenuCode functionID) (sysMenus d)))"

lemma optionalA_lookup:
  assumes "optionalA (lookupGeneratedFunctionMenu f) w = (Inr r, w')"
  shows "r = functionMenu (db w) f \<and> db w' = db w"
proof (cases "firstRow mID (\<lambda>m. mSourceType m = MenuSourceTypeGeneratedFunction \<and> mSourceID m = f \<and>
             mMenuType m = MenuTypeMenu) (sysMenus (db w))")
  case (Inr m)
  then show ?thesis using assms
    by (auto simp: functionMenu_def optionalA_def lookupGeneratedFunctionMenu_def orNotFound_def
        Menu_GetBySourceIDAndMenuType_def bindA_def tryA_def handleA_def queryA_def stmtA_def retA_def failA_def
        split: option.splits if_splits)
next
  case (Inl e)
  then have e: "e = RecordNotFound" by (simp add: firstRow_Inl)
  show ?thesis
  proof (cases "faultAt w (tick w)")
    case (Some t)
    then show ?thesis using assms
      by (simp add: optionalA_def lookupGeneratedFunctionMenu_def orNotFound_def
        Menu_GetBySourceIDAndMenuType_def bindA_def tryA_def handleA_def queryA_def stmtA_def retA_def failA_def)
  next
    case None
    then have "lookupGeneratedFunctionMenu f w = Menu_GetByCode (functionMenuCode f) (nextTick w)"
      using Inl e by (simp add: lookupGeneratedFunctionMenu_def orNotFound_def Menu_GetBySourceIDAndMenuType_def
          handleA_def queryA_def stmtA_def)
    then have "optionalA (Menu_GetByCode (functionMenuCode f)) (nextTick w) = (Inr r, w')"
      using assms by (simp add: optionalA_def bindA_def tryA_def)
    then show ?thesis
      using optionalA_query [of mID _ sysMenus "nextTick w" r w'] Inl
      by (simp add: Menu_GetByCode_def functionMenu_def)
  qed
qed

text \<open>A menu the user may use: enabled, shown and granted.\<close>

definition usable :: "sysdb \<Rightarrow> gostr \<Rightarrow> menu \<Rightarrow> bool" where
  "usable d userID m \<longleftrightarrow> mStatus m = MenuStatusEnabled \<and> mVisible m = MenuVisibleYes \<and>
     mID m \<in> allowedMenus (sysMenus d) (menuIDsToSet (menuIDsByUser userID d))"

lemma CheckMenuAccess_Inr:
  assumes "CheckMenuAccess rng ctx u c w = (Inr ok, w')" and "goRange rng" and "sys_ok (db w)"
  shows "ok \<longleftrightarrow> effectiveUserID ctx u \<noteq> [] \<and> trimSpace c \<noteq> [] \<and>
    (\<exists>m. found (firstRow mID (\<lambda>m. mCode m = trimSpace c) (sysMenus (db w))) = Some m \<and>
       usable (db w) (effectiveUserID ctx u) m)"
proof (cases "effectiveUserID ctx u = [] \<or> trimSpace c = []")
  case True
  then show ?thesis using assms(1) by (auto simp: CheckMenuAccess_def)
next
  case False
  let ?u = "effectiveUserID ctx u"
  obtain ms w1 ids w2 fd w3 where 1: "Menu_List noMenuFilter w = (Inr ms, w1)"
    and 2: "Role_ListMenuIDsByUser ?u w1 = (Inr ids, w2)"
    and 3: "optionalA (Menu_GetByCode (trimSpace c)) w2 = (Inr fd, w3)"
    and 4: "(case fd of None \<Rightarrow> retA False
      | Some target \<Rightarrow>
          if mStatus target \<noteq> MenuStatusEnabled \<or> mVisible target \<noteq> MenuVisibleYes then retA False
          else retA (mID target \<in> expandAllowedMenuIDs ms (rng (menuIDsToSet ids)) rng)) w3 = (Inr ok, w')"
    using assms(1) unfolding CheckMenuAccess_def Let_def if_not_P [OF False]
    by (elim bindA_InrE) (rule that; assumption)
  from 1 have ms: "ms = orderMenus (sysMenus (db w))" "db w1 = db w" using Menu_List_all by auto
  with 2 have ids: "ids = menuIDsByUser ?u (db w)" "db w2 = db w"
    by (auto simp: Role_ListMenuIDsByUser_def queryA_Inr_iff)
  with 3 have fd: "fd = found (firstRow mID (\<lambda>m. mCode m = trimSpace c) (sysMenus (db w)))"
    using optionalA_query [of mID _ sysMenus w2 fd w3] by (simp add: Menu_GetByCode_def)
  show ?thesis
    using 4 False unfolding fd [symmetric] usable_def ids(1) ms(1) expand_list [OF assms(2,3)]
    by (auto split: option.splits if_splits)
qed

lemma CheckFunctionMenuAccess_Inr:
  assumes "CheckFunctionMenuAccess rng ctx u f k w = (Inr ok, w')" and "goRange rng" and "sys_ok (db w)"
  shows "trimSpace f \<noteq> [] \<and> (ok \<longleftrightarrow> effectiveUserID ctx u \<noteq> [] \<and>
    (\<exists>m. functionMenu (db w) (trimSpace f) = Some m \<and>
       mStatus m = MenuStatusEnabled \<and> mVisible m = MenuVisibleYes \<and>
       (if trimSpace k = [] then usable (db w) (effectiveUserID ctx u) m
        else \<exists>b. found (firstRow mID (\<lambda>b. mCode b = functionActionMenuCode (trimSpace f) (trimSpace k)) (sysMenus (db w))) = Some b \<and>
               usable (db w) (effectiveUserID ctx u) b)))"
proof -
  let ?u = "effectiveUserID ctx u" and ?f = "trimSpace f" and ?k = "trimSpace k"
  have f: "?f \<noteq> []"
  proof
    assume "?f = []"
    then show False using assms(1) by (simp add: CheckFunctionMenuAccess_def)
  qed
  show ?thesis
  proof (cases "?u = []")
    case True
    then show ?thesis using assms(1) f by (simp add: CheckFunctionMenuAccess_def)
  next
    case False
    obtain ms w1 ids w2 where 1: "Menu_List noMenuFilter w = (Inr ms, w1)"
      and 2: "Role_ListMenuIDsByUser ?u w1 = (Inr ids, w2)"
      and rest: "(if ids = [] then retA False
      else bindA (optionalA (lookupGeneratedFunctionMenu ?f)) (\<lambda>found.
      case found of
        None \<Rightarrow> retA False
      | Some target \<Rightarrow>
          if mStatus target \<noteq> MenuStatusEnabled \<or> mVisible target \<noteq> MenuVisibleYes then retA False
          else if ?k = [] then retA (mID target \<in> expandAllowedMenuIDs ms (rng (menuIDsToSet ids)) rng)
          else
          bindA (optionalA (lookupGeneratedFunctionActionMenu ?f ?k)) (\<lambda>found.
          case found of
            None \<Rightarrow> retA False
          | Some actionMenu \<Rightarrow>
              if mStatus actionMenu \<noteq> MenuStatusEnabled \<or> mVisible actionMenu \<noteq> MenuVisibleYes
              then retA False
              else retA (mID actionMenu \<in> expandAllowedMenuIDs ms (rng (menuIDsToSet ids)) rng)))) w2 = (Inr ok, w')"
      using assms(1) unfolding CheckFunctionMenuAccess_def Let_def if_not_P [OF f] if_not_P [OF False]
      by (elim bindA_InrE) (rule that; assumption)
    from 1 have ms: "ms = orderMenus (sysMenus (db w))" "db w1 = db w" using Menu_List_all by auto
    with 2 have ids: "ids = menuIDsByUser ?u (db w)" "db w2 = db w"
      by (auto simp: Role_ListMenuIDsByUser_def queryA_Inr_iff)
    note allowed = expand_list [OF assms(2,3), of "menuIDsByUser ?u (db w)", folded ms(1)]
    show ?thesis
    proof (cases "ids = []")
      case True
      then show ?thesis using rest ids(1) f False by (auto simp: usable_def menuIDsToSet_Nil)
    next
      case nonempty: False
      then obtain fd w3 where 3: "optionalA (lookupGeneratedFunctionMenu ?f) w2 = (Inr fd, w3)"
        and rest: "(case fd of
        None \<Rightarrow> retA False
      | Some target \<Rightarrow>
          if mStatus target \<noteq> MenuStatusEnabled \<or> mVisible target \<noteq> MenuVisibleYes then retA False
          else if ?k = [] then retA (mID target \<in> expandAllowedMenuIDs ms (rng (menuIDsToSet ids)) rng)
          else
          bindA (optionalA (lookupGeneratedFunctionActionMenu ?f ?k)) (\<lambda>found.
          case found of
            None \<Rightarrow> retA False
          | Some actionMenu \<Rightarrow>
              if mStatus actionMenu \<noteq> MenuStatusEnabled \<or> mVisible actionMenu \<noteq> MenuVisibleYes
              then retA False
              else retA (mID actionMenu \<in> expandAllowedMenuIDs ms (rng (menuIDsToSet ids)) rng))) w3 = (Inr ok, w')"
        using rest unfolding if_not_P [OF nonempty] by (elim bindA_InrE) (rule that; assumption)
      from optionalA_lookup [OF 3] ids have fd: "fd = functionMenu (db w) ?f" "db w3 = db w" by auto
      have act: "fd2 = found (firstRow mID (\<lambda>b. mCode b = functionActionMenuCode ?f ?k) (sysMenus (db w)))"
        if "optionalA (lookupGeneratedFunctionActionMenu ?f ?k) w3 = (Inr fd2, w4)" for fd2 w4
        using that optionalA_query [of mID _ sysMenus w3 fd2 w4] fd(2)
        by (simp add: lookupGeneratedFunctionActionMenu_def Menu_GetByCode_def)
      show ?thesis
        using rest f False unfolding fd(1) ids(1) allowed usable_def
        by (cases "functionMenu (db w) ?f") (auto elim!: bindA_InrE dest!: act split: option.splits if_splits)
    qed
  qed
qed

subsection \<open>When a publication returns\<close>

text \<open>The rows the walk looks at, and tables in which every one of them hangs below a root.\<close>

definition funcNavMenus :: "sysdb \<Rightarrow> menu list" where
  "funcNavMenus d = filter (menuMatches funcNavFilter) (sysMenus d)"

definition funcNavForest :: "sysdb \<Rightarrow> bool" where
  "funcNavForest d \<longleftrightarrow> (\<forall>m \<in> set (funcNavMenus d). rooted (parentOf (menusByID (funcNavMenus d))) (mID m))"

lemma outside_rooted: "i \<notin> mID ` set ms \<Longrightarrow> rooted (parentOf (menusByID ms)) i"
  using dom_menusByID [of ms] by (intro rooted_root) (auto simp: parentOf_def split: option.splits)

lemma ensure_returns:
  assumes "ensureMenuUnderFuncUse i w = (Inr r, w')" and "sys_ok (db w)" and "funcNavForest (db w)"
  shows "r \<noteq> Hangs"
proof -
  let ?ns = "funcNavMenus (db w)"
  obtain use w1 ms w2 where 1: "Menu_GetByCode FuncUseMenuCode w = (Inr use, w1)"
    and 2: "Menu_List funcNavFilter w1 = (Inr ms, w2)"
    and 3: "(case walkToUse (menusByID ms) (mID use) i of
       None \<Rightarrow> retA Hangs
     | Some True \<Rightarrow> retA (Returns ())
     | Some False \<Rightarrow> failA (Err ''parent directory must be under func use menu'')) w2 = (Inr r, w')"
    using assms(1) unfolding ensureMenuUnderFuncUse_def
    by (elim bindA_InrE) (rule that; simp)
  from 1 have "db w1 = db w" by (auto simp: Menu_GetByCode_def queryA_Inr_iff)
  with 2 have "ms = orderMenus ?ns" by (auto simp: Menu_List_def queryA_Inr_iff funcNavMenus_def)
  moreover have "distinct (map mID ?ns)"
    unfolding funcNavMenus_def by (rule distinct_filter_menus [OF assms(2)])
  ultimately have byID: "menusByID ms = menusByID ?ns"
    by (simp add: menusByID_cong [of "orderMenus ?ns" ?ns])
  have "walkToUse (menusByID ms) (mID use) i \<noteq> None"
  proof (cases "i = []")
    case True
    then show ?thesis by simp
  next
    case False
    have "rooted (parentOf (menusByID ?ns)) i"
      using assms(3) outside_rooted [of i ?ns] unfolding funcNavForest_def by blast
    then show ?thesis unfolding byID by (auto simp: walkToUse_spec [OF False])
  qed
  then show ?thesis using 3 by (auto split: option.splits bool.splits)
qed

lemma Sync_validates:
  assumes "SyncGeneratedFunctionMenu req w = (Inr Hangs, w')"
  shows "validateGeneratedFunctionParent (trimSpace (sqParentId req)) w = (Inr Hangs, w')"
  using assms unfolding SyncGeneratedFunctionMenu_def Let_def
  by (auto simp: bindA_Inr_iff split: if_splits outcome.splits)
    (metis (full_types) old.unit.exhaust outcome.exhaust)+

lemma validate_Inr:
  assumes "validateGeneratedFunctionParent p w = (Inr r, w')"
  shows "\<exists>w1. ensureMenuUnderFuncUse p w1 = (Inr r, w') \<and> db w1 = db w"
  using assms unfolding validateGeneratedFunctionParent_def
  by (auto simp: bindA_Inr_iff dest!: Menu_Get_Inr split: if_splits)

text \<open>
  C4: a publication returns: on tables whose function navigation has no cycle of parents,
  \<^verbatim>\<open>SyncGeneratedFunctionMenu\<close> never loops for ever, whatever the request and the
  database failures.
\<close>

theorem Sync_returns:
  "triple (\<lambda>d. sys_ok d \<and> funcNavForest d) (SyncGeneratedFunctionMenu req)
     (\<lambda>r d. r \<noteq> Hangs \<and> sys_ok d) (\<lambda>e d. sys_ok d)"
proof (rule tripleI)
  fix w r w' assume "uuids_ok w" "sys_ok (db w) \<and> funcNavForest (db w)"
    and run: "SyncGeneratedFunctionMenu req w = (r, w')"
  then show "uuids_ok w'" using tripleD_uuids [OF SyncGeneratedFunctionMenu_ok] by blast
next
  fix w r w' assume w: "uuids_ok w" "sys_ok (db w) \<and> funcNavForest (db w)"
    and run: "SyncGeneratedFunctionMenu req w = (Inr r, w')"
  have "r \<noteq> Hangs"
  proof
    assume "r = Hangs"
    then obtain w1 where "ensureMenuUnderFuncUse (trimSpace (sqParentId req)) w1 = (Inr Hangs, w')" "db w1 = db w"
      using Sync_validates [of req w w'] run validate_Inr by blast
    then show False using ensure_returns w(2) by metis
  qed
  then show "r \<noteq> Hangs \<and> sys_ok (db w')"
    using tripleD_Inr [OF SyncGeneratedFunctionMenu_ok] w run by blast
next
  fix w e w' assume "uuids_ok w" "sys_ok (db w) \<and> funcNavForest (db w)"
    and run: "SyncGeneratedFunctionMenu req w = (Inl e, w')"
  then show "sys_ok (db w')" using tripleD_Inl [OF SyncGeneratedFunctionMenu_ok] by blast
qed

text \<open>
   The ancestor walk of \<^verbatim>\<open>ensureMenuUnderFuncUse\<close> answers whether the use page is
  an ancestor, and it loops for ever exactly when the chain of parents runs into a cycle
  without meeting the use page.
\<close>

theorem walkToUse_outcome:
  "walkToUse byID use (c # cs) =
     (if \<exists>k. climb (parentOf byID) k (c # cs) = Some use then Some True
      else if rooted (parentOf byID) (c # cs) then Some False else None)"
  by (rule walkToUse_spec) simp

lemma walkToUse_two_cycle:
  assumes "parentOf byID ''a'' = Some ''b''" and "parentOf byID ''b'' = Some ''a''"
  shows "walkToUse byID ''use'' ''a'' = None"
proof -
  have stay: "\<exists>y \<in> {''a'', ''b''}. climb (parentOf byID) k ''a'' = Some y" for k
    by (induction k) (use assms in auto)
  have "climb (parentOf byID) k ''a'' \<noteq> Some ''use''" for k
  proof -
    from stay obtain y where "y = ''a'' \<or> y = ''b''" "climb (parentOf byID) k ''a'' = Some y" by blast
    then show ?thesis by auto
  qed
  then have "\<not> (\<exists>k. climb (parentOf byID) k ''a'' = Some ''use'')" by blast
  moreover have "\<not> rooted (parentOf byID) ''a''"
    by (rule cycle_not_rooted [of "{''a'', ''b''}"]) (use assms in auto)
  ultimately show ?thesis by (simp add: walkToUse_spec)
qed

text \<open>
   A cycle of parents makes a publication hang: after two successful calls of
  \<^verbatim>\<open>UpdateMenu\<close>, publishing a function below directory \<^verbatim>\<open>a\<close> never returns.
\<close>

theorem publish_hangs_on_cycle:
  "fst (SyncGeneratedFunctionMenu
      \<lparr>sqFunctionId = ''f1'', sqAction = ''publish'', sqName = ''f1'', sqParentId = ''a'', sqActionKeys = []\<rparr>
      (moveB (moveA (exampleWorld exampleStore)))) = Inr Hangs"
  by (simp add: SyncGeneratedFunctionMenu_def validateGeneratedFunctionParent_def ensureMenuUnderFuncUse_def
      moveB_def moveA_def UpdateMenu_def menu_eval funcNavFilter_def orderMenus_def menusByID_def
      walkToUse_two_cycle parentOf_def)

text \<open>
   \<^verbatim>\<open>CheckMenuAccess\<close> answers yes exactly when there is a caller and a menu with
  the given code that is enabled, visible and granted (directly, as an ancestor of a granted
  menu, or as the platform entry of a granted module), for every order of Go's map ranges.
\<close>

theorem CheckMenuAccess_exact:
  assumes "goRange rng"
  shows "triple sys_ok (CheckMenuAccess rng ctx reqUserID reqMenuCode)
    (\<lambda>ok d. sys_ok d \<and> ok = (effectiveUserID ctx reqUserID \<noteq> [] \<and> trimSpace reqMenuCode \<noteq> [] \<and>
       (\<exists>m. found (firstRow mID (\<lambda>m. mCode m = trimSpace reqMenuCode) (sysMenus d)) = Some m \<and>
          usable d (effectiveUserID ctx reqUserID) m)))
    (\<lambda>e d. sys_ok d)"
proof (rule triple_readonly_fact [OF readonly_CheckMenuAccess])
  fix w ok w'
  assume "sys_ok (db w)" and run: "CheckMenuAccess rng ctx reqUserID reqMenuCode w = (Inr ok, w')"
  then show "ok = (effectiveUserID ctx reqUserID \<noteq> [] \<and> trimSpace reqMenuCode \<noteq> [] \<and>
       (\<exists>m. found (firstRow mID (\<lambda>m. mCode m = trimSpace reqMenuCode) (sysMenus (db w'))) = Some m \<and>
          usable (db w') (effectiveUserID ctx reqUserID) m))"
    using CheckMenuAccess_Inr [OF run assms] readonlyD [OF readonly_CheckMenuAccess run] by simp
qed

theorem CheckMenuAccess_exact_witness:
  "triple sys_ok (CheckMenuAccess sorted_list_of_set noUser ''u1'' ''dir.a'')
    (\<lambda>ok d. sys_ok d \<and> ok = (effectiveUserID noUser ''u1'' \<noteq> [] \<and> trimSpace ''dir.a'' \<noteq> [] \<and>
       (\<exists>m. found (firstRow mID (\<lambda>m. mCode m = trimSpace ''dir.a'') (sysMenus d)) = Some m \<and>
          usable d (effectiveUserID noUser ''u1'') m)))
    (\<lambda>e d. sys_ok d)"
  by (rule CheckMenuAccess_exact [OF goRange_sorted])

text \<open>
   \<^verbatim>\<open>CheckFunctionMenuAccess\<close> answers yes exactly when there is a caller, the menu
  of the function is enabled and visible, and it is granted (no action asked for) or the
  button of the action exists, is enabled, visible and granted.
\<close>

theorem CheckFunctionMenuAccess_exact:
  assumes "goRange rng"
  shows "triple sys_ok (CheckFunctionMenuAccess rng ctx u f k)
    (\<lambda>ok d. sys_ok d \<and> trimSpace f \<noteq> [] \<and> ok = (effectiveUserID ctx u \<noteq> [] \<and>
       (\<exists>m. functionMenu d (trimSpace f) = Some m \<and>
          mStatus m = MenuStatusEnabled \<and> mVisible m = MenuVisibleYes \<and>
          (if trimSpace k = [] then usable d (effectiveUserID ctx u) m
           else \<exists>b. found (firstRow mID (\<lambda>b. mCode b = functionActionMenuCode (trimSpace f) (trimSpace k)) (sysMenus d)) = Some b \<and>
                  usable d (effectiveUserID ctx u) b))))
    (\<lambda>e d. sys_ok d)"
proof (rule triple_readonly_fact [OF readonly_CheckFunctionMenuAccess])
  fix w ok w'
  assume "sys_ok (db w)" and run: "CheckFunctionMenuAccess rng ctx u f k w = (Inr ok, w')"
  then show "trimSpace f \<noteq> [] \<and> ok = (effectiveUserID ctx u \<noteq> [] \<and>
       (\<exists>m. functionMenu (db w') (trimSpace f) = Some m \<and>
          mStatus m = MenuStatusEnabled \<and> mVisible m = MenuVisibleYes \<and>
          (if trimSpace k = [] then usable (db w') (effectiveUserID ctx u) m
           else \<exists>b. found (firstRow mID (\<lambda>b. mCode b = functionActionMenuCode (trimSpace f) (trimSpace k)) (sysMenus (db w'))) = Some b \<and>
                  usable (db w') (effectiveUserID ctx u) b)))"
    using CheckFunctionMenuAccess_Inr [OF run assms] readonlyD [OF readonly_CheckFunctionMenuAccess run] by simp
qed

theorem CheckFunctionMenuAccess_exact_witness:
  "triple sys_ok (CheckFunctionMenuAccess sorted_list_of_set noUser ''u1'' ''f1'' ''run'')
    (\<lambda>ok d. sys_ok d \<and> trimSpace ''f1'' \<noteq> [] \<and> ok = (effectiveUserID noUser ''u1'' \<noteq> [] \<and>
       (\<exists>m. functionMenu d (trimSpace ''f1'') = Some m \<and>
          mStatus m = MenuStatusEnabled \<and> mVisible m = MenuVisibleYes \<and>
          (if trimSpace ''run'' = [] then usable d (effectiveUserID noUser ''u1'') m
           else \<exists>b. found (firstRow mID (\<lambda>b. mCode b = functionActionMenuCode (trimSpace ''f1'') (trimSpace ''run'')) (sysMenus d)) = Some b \<and>
                  usable d (effectiveUserID noUser ''u1'') b))))
    (\<lambda>e d. sys_ok d)"
  by (rule CheckFunctionMenuAccess_exact [OF goRange_sorted])

end
