(* ===== verification/Role_Logic.thy ===== *)
theory Role_Logic
  imports Menu_Sync
begin

text \<open>
  \<^verbatim>\<open>system/internal/logic/role.go\<close>: the handlers that manage roles and the menus
  granted to them.
\<close>

record roleReq =
  rqId :: gostr
  rqName :: gostr
  rqCode :: gostr
  rqStatus :: int
  rqRemark :: gostr
  rqSort :: int

record roleProto =
  rpId :: gostr
  rpName :: gostr
  rpCode :: gostr
  rpStatus :: int
  rpRemark :: gostr
  rpSort :: int
  rpCreatedAt :: int
  rpMenuIds :: "gostr list"

text \<open>
  \<^verbatim>\<open>strings.ToLower\<close> where it yields ASCII: the ASCII capitals, the Kelvin sign and
  the capital I with a dot; other characters have lower-case forms outside ASCII, which
  \<open>roleCodePattern\<close> rejects as it rejects the characters themselves.
\<close>

fun goLower :: "gostr \<Rightarrow> gostr" where
  "goLower [] = []"
| "goLower (c # s) =
     (if prefix (utf8 [226, 132, 170]) (c # s) then CHR ''k'' # goLower (drop 2 s)
      else if prefix (utf8 [196, 176]) (c # s) then CHR ''i'' # goLower (drop 1 s)
      else lowerChar c # goLower s)"

definition lowerLetter :: "char \<Rightarrow> bool" where
  "lowerLetter c \<longleftrightarrow> 97 \<le> (of_char c :: nat) \<and> (of_char c :: nat) \<le> 122"

definition codeChar :: "char \<Rightarrow> bool" where
  "codeChar c \<longleftrightarrow> lowerLetter c \<or> (48 \<le> (of_char c :: nat) \<and> (of_char c :: nat) \<le> 57) \<or> c \<in> set ''._-''"

text \<open>\<^verbatim>\<open>^[a-z][a-z0-9._-]{1,62}$\<close>\<close>

definition roleCodePattern :: "gostr \<Rightarrow> bool" where
  "roleCodePattern s =
     (case s of [] \<Rightarrow> False
      | c # cs \<Rightarrow> lowerLetter c \<and> 1 \<le> length cs \<and> length cs \<le> 62 \<and> list_all codeChar cs)"

definition validateRoleInput :: "gostr \<Rightarrow> gostr \<Rightarrow> err + (gostr \<times> gostr)" where
  "validateRoleInput name code =
     (let name = trimSpace name; code = trimSpace (goLower code) in
      if name = [] then Inl (Err ''name is required'')
      else if code = [] then Inl (Err ''code is required'')
      else if \<not> roleCodePattern code then
        Inl (Err ''code must start with a letter and contain lowercase letters, numbers, dot, underscore or hyphen'')
      else Inr (name, code))"

definition normalizeRoleStatus :: "int \<Rightarrow> int \<Rightarrow> err + int" where
  "normalizeRoleStatus status fallback =
     (if status = 0 then Inr fallback
      else if status = RoleStatusEnabled \<or> status = RoleStatusDisabled then Inr status
      else Inl (Err ''status must be 1 (enabled) or 2 (disabled)''))"

definition wrapRoleNotFoundError :: "err \<Rightarrow> err" where
  "wrapRoleNotFoundError = wrapNotFound ''role not found''"

definition wrapRoleDuplicateError :: "err \<Rightarrow> err" where
  "wrapRoleDuplicateError = wrapDuplicate ''role code already exists''"

definition roleAuditJSON :: "role \<Rightarrow> audit sysact" where
  "roleAuditJSON r =
     bindA (Role_ListMenusByRole (rlID r)) (\<lambda>menus.
     retA (AuditRole
       \<lparr>raName = rlName r, raCode = rlCode r, raStatus = rlStatus r, raRemark = rlRemark r,
        raSort = rlSort r,
        raMenus = map (\<lambda>m. (mID m, mParentID m, mMenuType m, mName m, mCode m)) menus\<rparr>))"

definition recordRoleChange ::
  "bool \<Rightarrow> goctx \<Rightarrow> gostr \<Rightarrow> gostr \<Rightarrow> role \<Rightarrow> audit \<Rightarrow> audit \<Rightarrow> unit sysact" where
  "recordRoleChange hasLog ctx action actionLabel r beforeData afterData =
     recordChange hasLog ctx OperationResourceRole action actionLabel (rlID r) (rlName r) beforeData afterData"

definition modelRoleToProto :: "role \<Rightarrow> bool \<Rightarrow> roleProto sysact" where
  "modelRoleToProto r withMenus =
     (let item = \<lparr>rpId = rlID r, rpName = rlName r, rpCode = rlCode r, rpStatus = toInt32 (rlStatus r),
                  rpRemark = rlRemark r, rpSort = toInt32 (rlSort r), rpCreatedAt = rlCreatedAt r,
                  rpMenuIds = []\<rparr> in
      if \<not> withMenus then retA item
      else bindA (Role_ListMenuIDsByRole (rlID r)) (\<lambda>menuIDs. retA (item\<lparr>rpMenuIds := menuIDs\<rparr>)))"

definition ListRoles :: "roleProto list sysact" where
  "ListRoles = bindA Role_List (mapA (\<lambda>r. modelRoleToProto r False))"

definition CreateRole :: "bool \<Rightarrow> goctx \<Rightarrow> roleReq \<Rightarrow> roleProto sysact" where
  "CreateRole hasLog ctx req =
     bindA (liftA (validateRoleInput (rqName req) (rqCode req))) (\<lambda>(name, code).
     bindA (liftA (normalizeRoleStatus (rqStatus req) RoleStatusEnabled)) (\<lambda>status.
     bindA nowA (\<lambda>now.
     bindA newUUID (\<lambda>i.
     let r = \<lparr>rlID = i, rlName = name, rlCode = code, rlStatus = status,
              rlRemark = trimSpace (rqRemark req), rlSort = rqSort req,
              rlCreatedAt = now, rlUpdatedAt = now\<rparr> in
     bindA (roleAuditJSON r) (\<lambda>afterData.
     bindA (wrapErrA wrapRoleDuplicateError (transactionA (
       bindA (Role_Create r) (\<lambda>_.
       recordRoleChange hasLog ctx ''role.create'' (utf8 [229, 136, 155, 229, 187, 186, 232, 167, 146, 232, 137, 178]) r AuditNone afterData)))) (\<lambda>_.
     modelRoleToProto r False))))))"

definition UpdateRole :: "bool \<Rightarrow> goctx \<Rightarrow> roleReq \<Rightarrow> roleProto sysact" where
  "UpdateRole hasLog ctx req =
     (let i = trimSpace (rqId req) in
      if i = [] then failA (Err ''id is required'')
      else
      bindA (wrapErrA wrapRoleNotFoundError (Role_Get i)) (\<lambda>old.
      bindA (roleAuditJSON old) (\<lambda>beforeData.
      bindA (liftA (validateRoleInput (rqName req) (rqCode req))) (\<lambda>(name, code).
      bindA (liftA (normalizeRoleStatus (rqStatus req) (rlStatus old))) (\<lambda>status.
      bindA nowA (\<lambda>now.
      let r = old\<lparr>rlName := name, rlCode := code, rlStatus := status, rlRemark := trimSpace (rqRemark req),
                  rlSort := (if rqSort req > 0 then rqSort req else rlSort old), rlUpdatedAt := now\<rparr> in
      bindA (roleAuditJSON r) (\<lambda>afterData.
      bindA (wrapErrA wrapRoleDuplicateError (transactionA (
        bindA (Role_Update r) (\<lambda>_.
        recordRoleChange hasLog ctx ''role.update'' (utf8 [230, 155, 180, 230, 150, 176, 232, 167, 146, 232, 137, 178]) r beforeData afterData)))) (\<lambda>_.
      modelRoleToProto r False))))))))"

definition DeleteRole :: "bool \<Rightarrow> goctx \<Rightarrow> gostr \<Rightarrow> unit sysact" where
  "DeleteRole hasLog ctx reqID =
     (let i = trimSpace reqID in
      if i = [] then failA (Err ''id is required'')
      else
      bindA (wrapErrA wrapRoleNotFoundError (Role_Get i)) (\<lambda>r.
      bindA (roleAuditJSON r) (\<lambda>beforeData.
      wrapErrA wrapRoleNotFoundError (transactionA (
        bindA (Role_Delete i) (\<lambda>_.
        recordRoleChange hasLog ctx ''role.delete'' (utf8 [229, 136, 160, 233, 153, 164, 232, 167, 146, 232, 137, 178]) r beforeData AuditNone))))))"

definition setRoleStatus :: "bool \<Rightarrow> goctx \<Rightarrow> gostr \<Rightarrow> int \<Rightarrow> roleProto sysact" where
  "setRoleStatus hasLog ctx reqID status =
     (let i = trimSpace reqID in
      if i = [] then failA (Err ''id is required'')
      else
      bindA (wrapErrA wrapRoleNotFoundError (Role_Get i)) (\<lambda>old.
      bindA (roleAuditJSON old) (\<lambda>beforeData.
      bindA nowA (\<lambda>now.
      let r = old\<lparr>rlStatus := status, rlUpdatedAt := now\<rparr> in
      bindA (roleAuditJSON r) (\<lambda>afterData.
      let (action, actionLabel) =
            (if status = RoleStatusDisabled then (''role.disable'', (utf8 [231, 166, 129, 231, 148, 168, 232, 167, 146, 232, 137, 178]))
             else (''role.enable'', (utf8 [229, 144, 175, 231, 148, 168, 232, 167, 146, 232, 137, 178]))) in
      bindA (wrapErrA wrapRoleNotFoundError (transactionA (
        bindA (Role_UpdateStatus i status (rlUpdatedAt r)) (\<lambda>_.
        recordRoleChange hasLog ctx action actionLabel r beforeData afterData)))) (\<lambda>_.
      modelRoleToProto r False))))))"

definition EnableRole :: "bool \<Rightarrow> goctx \<Rightarrow> gostr \<Rightarrow> roleProto sysact" where
  "EnableRole hasLog ctx reqID = setRoleStatus hasLog ctx reqID RoleStatusEnabled"

definition DisableRole :: "bool \<Rightarrow> goctx \<Rightarrow> gostr \<Rightarrow> roleProto sysact" where
  "DisableRole hasLog ctx reqID = setRoleStatus hasLog ctx reqID RoleStatusDisabled"

definition GetRoleMenus :: "gostr \<Rightarrow> gostr list sysact" where
  "GetRoleMenus reqID =
     (let i = trimSpace reqID in
      if i = [] then failA (Err ''id is required'')
      else
      bindA (wrapErrA wrapRoleNotFoundError (Role_Get i)) (\<lambda>_.
      Role_ListMenuIDsByRole i))"

text \<open>
  \<^verbatim>\<open>normalizeMenuIDs\<close> and \<^verbatim>\<open>normalizeRoleIDs\<close>: trim, drop empty and repeated
  identifiers, and require that each remaining one exists.
\<close>

fun normalizeExisting ::
  "(gostr \<Rightarrow> 'x sysact) \<Rightarrow> (gostr \<Rightarrow> gostr) \<Rightarrow> gostr list \<Rightarrow> gostr list \<Rightarrow> gostr list sysact" where
  "normalizeExisting get msg unique [] = retA unique"
| "normalizeExisting get msg unique (x # xs) =
     (let i = trimSpace x in
      if i = [] then normalizeExisting get msg unique xs
      else if i \<in> set unique then normalizeExisting get msg unique xs
      else bindA (wrapErrA (\<lambda>_. Err (msg i)) (get i)) (\<lambda>_.
           normalizeExisting get msg (unique @ [i]) xs))"

definition normalizeMenuIDs :: "gostr list \<Rightarrow> gostr list sysact" where
  "normalizeMenuIDs menuIDs = normalizeExisting Menu_Get (\<lambda>i. ''menu not found: '' @ i) [] menuIDs"

definition SetRoleMenus :: "bool \<Rightarrow> goctx \<Rightarrow> gostr \<Rightarrow> gostr list \<Rightarrow> gostr list sysact" where
  "SetRoleMenus hasLog ctx reqID reqMenuIDs =
     (let i = trimSpace reqID in
      if i = [] then failA (Err ''id is required'')
      else
      bindA (wrapErrA wrapRoleNotFoundError (Role_Get i)) (\<lambda>r.
      bindA (roleAuditJSON r) (\<lambda>beforeData.
      bindA (normalizeMenuIDs reqMenuIDs) (\<lambda>menuIDs.
      bindA (transactionA (
        bindA nowA (\<lambda>now.
        bindA (Role_SetRoleMenus i menuIDs now) (\<lambda>_.
        bindA (roleAuditJSON r) (\<lambda>afterData.
        recordRoleChange hasLog ctx ''role.menu.update'' (utf8 [230, 155, 180, 230, 150, 176, 232, 167, 146, 232, 137, 178, 232, 143, 156, 229, 141, 149, 230, 157, 131, 233, 153, 144]) r beforeData afterData))))) (\<lambda>_.
      retA menuIDs)))))"

subsection \<open>What the handlers keep\<close>

lemma recordRoleChange_ok [sys_keeps]: "preserves sys_ok (recordRoleChange b ctx a al r x y)"
  unfolding recordRoleChange_def by (rule recordChange_ok)

lemma readonly_roleAudit [act_frame, simp]: "readonly (roleAuditJSON r)"
  unfolding roleAuditJSON_def by (simp add: readonly_bind)

lemma readonly_modelRole [act_frame, simp]: "readonly (modelRoleToProto r b)"
  unfolding modelRoleToProto_def Let_def by (simp add: readonly_bind)

lemma readonly_ListRoles [act_frame, simp]: "readonly ListRoles"
  unfolding ListRoles_def by (intro readonly_bind readonly_mapA) simp_all

lemma readonly_GetRoleMenus [act_frame, simp]: "readonly (GetRoleMenus i)"
  unfolding GetRoleMenus_def Let_def by (simp add: readonly_bind readonly_wrap)

lemma readonly_normalizeExisting: "(\<And>i. readonly (get i)) \<Longrightarrow> readonly (normalizeExisting get msg u xs)"
  by (induction xs arbitrary: u) (auto simp: Let_def intro: readonly_bind readonly_wrap)

lemma readonly_normalizeMenuIDs [act_frame, simp]: "readonly (normalizeMenuIDs xs)"
  unfolding normalizeMenuIDs_def by (rule readonly_normalizeExisting) simp

text \<open>What the normalisation returns: the trimmed items without repetition, all of them present.\<close>

lemma normalizeExisting_Inr:
  assumes "normalizeExisting get msg u xs w = (Inr ys, w')"
    and "\<And>i w x w'. get i w = (Inr x, w') \<Longrightarrow> i \<in> ids (db w) \<and> db w' = db w" and "set u \<subseteq> ids (db w)"
  shows "ys = dedupTrim u xs \<and> set ys \<subseteq> ids (db w)"
  using assms(1,3)
proof (induction xs arbitrary: u w)
  case Nil
  then show ?case by simp
next
  case (Cons x xs)
  show ?case
  proof (cases "trimSpace x = [] \<or> trimSpace x \<in> set u")
    case True
    then have "normalizeExisting get msg u (x # xs) = normalizeExisting get msg u xs"
      and "dedupTrim u (x # xs) = dedupTrim u xs" by (auto simp: Let_def)
    with Cons.prems show ?thesis using Cons.IH [of u w] by metis
  next
    case False
    then obtain y w1 where 1: "get (trimSpace x) w = (Inr y, w1)"
      and 2: "normalizeExisting get msg (u @ [trimSpace x]) xs w1 = (Inr ys, w')"
      using Cons.prems(1) by (auto simp: Let_def bindA_Inr_iff)
    from assms(2) [OF 1] have x: "trimSpace x \<in> ids (db w)" and db1: "db w1 = db w" by auto
    then have "set (u @ [trimSpace x]) \<subseteq> ids (db w1)" using Cons.prems(2) by simp
    from Cons.IH [OF 2 this, unfolded db1]
    have "ys = dedupTrim (u @ [trimSpace x]) xs \<and> set ys \<subseteq> ids (db w)" .
    moreover have "dedupTrim u (x # xs) = dedupTrim (u @ [trimSpace x]) xs"
      using False by (simp add: Let_def)
    ultimately show ?thesis by metis
  qed
qed

lemma Role_Get_Inr: "Role_Get i w = (Inr r, w') \<Longrightarrow> r \<in> set (sysRoles (db w)) \<and> rlID r = i \<and> db w' = db w"
  unfolding Role_Get_def by (auto simp: queryA_Inr_iff dest: firstRow_Inr)

lemma Role_Get_in: "Role_Get i w = (Inr r, w') \<Longrightarrow> i \<in> rlID ` set (sysRoles (db w'))"
  using Role_Get_Inr [of i w r w'] by (metis image_eqI)

lemma normalizeMenuIDs_Inr:
  "normalizeMenuIDs xs w = (Inr ys, w') \<Longrightarrow>
   ys = dedupTrim [] xs \<and> set ys \<subseteq> mID ` set (sysMenus (db w)) \<and> db w' = db w"
proof -
  assume run: "normalizeMenuIDs xs w = (Inr ys, w')"
  have "i \<in> mID ` set (sysMenus (db v)) \<and> db v' = db v" if "Menu_Get i v = (Inr x, v')" for i v x v'
    using Menu_Get_Inr [OF that] by (metis image_eqI)
  then have "ys = dedupTrim [] xs \<and> set ys \<subseteq> mID ` set (sysMenus (db w))"
    by (intro normalizeExisting_Inr [where ids = "\<lambda>d. mID ` set (sysMenus d)", OF run [unfolded normalizeMenuIDs_def]])
      simp_all
  then show ?thesis using readonlyD [OF readonly_normalizeMenuIDs run] by blast
qed

lemma CreateRole_ok [sys_keeps]: "preserves sys_ok (CreateRole b ctx q)"
  unfolding CreateRole_def Let_def case_prod_beta
  apply (rule triple_bind_readonly, simp, assumption)
  apply (rule triple_bind_readonly, simp, assumption)
  apply (rule triple_bind_readonly, simp, assumption)
  apply (rule triple_bind_uuid)
  apply (rule triple_bind_readonly, simp, simp)
  apply (rule triple_bind [where R = "\<lambda>_. sys_ok"])
   apply (rule loggedChange_ok)
     apply (rule triple_post [where Q = "\<lambda>_. sys_ok" and E = "\<lambda>_. sys_ok"])
       apply (simp only: Role_Create_def, rule triple_stmt)
        apply (auto simp: insertRole_def sys_ok_defs split: if_splits)[2]
      apply simp
     apply simp
    apply simp
   apply (rule sys_keeps)
  apply (rule triple_readonly, simp, assumption)
  done

lemma UpdateRole_ok [sys_keeps]: "preserves sys_ok (UpdateRole b ctx q)"
  unfolding UpdateRole_def Let_def case_prod_beta
  apply (rule triple_if, rule triple_fail, assumption)
  apply (rule triple_bind_readonly, simp add: readonly_wrap, assumption)+
  apply (rule triple_bind [where R = "\<lambda>_. sys_ok"])
   apply (rule loggedChange_ok, rule triple_weaken, rule sys_keeps, assumption, rule sys_keeps)
  apply (rule triple_readonly, simp, assumption)
  done

lemma DeleteRole_ok [sys_keeps]: "preserves sys_ok (DeleteRole b ctx i)"
  unfolding DeleteRole_def Let_def
  apply (rule triple_if, rule triple_fail, assumption)
  apply (rule triple_bind_readonly, simp add: readonly_wrap, assumption)+
  apply (rule loggedChange_ok, rule triple_weaken, rule sys_keeps, assumption, rule sys_keeps)
  done

lemma setRoleStatus_ok [sys_keeps]: "preserves sys_ok (setRoleStatus b ctx i s)"
  unfolding setRoleStatus_def Let_def case_prod_beta
  apply (rule triple_if, rule triple_fail, assumption)
  apply (rule triple_bind_readonly, simp add: readonly_wrap, assumption)+
  apply (rule triple_bind [where R = "\<lambda>_. sys_ok"])
   apply (rule loggedChange_ok, rule triple_weaken, rule sys_keeps, assumption, rule sys_keeps)
  apply (rule triple_readonly, simp, assumption)
  done

text \<open>Replacing the grants needs that the role and the menus exist, which the handler checked.\<close>

lemma SetRoleMenus_ok [sys_keeps]: "preserves sys_ok (SetRoleMenus b ctx i xs)"
  unfolding SetRoleMenus_def Let_def
proof (rule triple_if, rule triple_fail, assumption, rule triple_bind)
  let ?i = "trimSpace i"
  show "triple sys_ok (wrapErrA wrapRoleNotFoundError (Role_Get ?i))
      (\<lambda>r d. sys_ok d \<and> ?i \<in> rlID ` set (sysRoles d)) (\<lambda>_. sys_ok)"
    by (rule triple_readonly_fact) (simp_all add: readonly_wrap Role_Get_in)
next
  fix r
  let ?i = "trimSpace i"
  let ?tx = "\<lambda>x menuIDs. bindA (transactionA (
        bindA nowA (\<lambda>now.
        bindA (Role_SetRoleMenus ?i menuIDs now) (\<lambda>_.
        bindA (roleAuditJSON r) (\<lambda>afterData.
        recordRoleChange b ctx ''role.menu.update'' (utf8 [230, 155, 180, 230, 150, 176, 232, 167, 146, 232, 137, 178, 232, 143, 156, 229, 141, 149, 230, 157, 131, 233, 153, 144]) r x afterData))))) (\<lambda>_.
      retA menuIDs)"
  show "triple (\<lambda>d. sys_ok d \<and> ?i \<in> rlID ` set (sysRoles d))
     (bindA (roleAuditJSON r) (\<lambda>beforeData. bindA (normalizeMenuIDs xs) (?tx beforeData)))
     (\<lambda>_. sys_ok) (\<lambda>_. sys_ok)"
  proof (rule triple_bind_readonly)
    fix x
    show "triple (\<lambda>d. sys_ok d \<and> ?i \<in> rlID ` set (sysRoles d)) (bindA (normalizeMenuIDs xs) (?tx x))
        (\<lambda>_. sys_ok) (\<lambda>_. sys_ok)"
    proof (rule triple_bind)
      show "triple (\<lambda>d. sys_ok d \<and> ?i \<in> rlID ` set (sysRoles d)) (normalizeMenuIDs xs)
         (\<lambda>ys d. (sys_ok d \<and> ?i \<in> rlID ` set (sysRoles d)) \<and> set ys \<subseteq> mID ` set (sysMenus d)) (\<lambda>_. sys_ok)"
        by (rule triple_readonly_fact) (auto dest!: normalizeMenuIDs_Inr)
    next
      fix ys
      show "triple (\<lambda>d. (sys_ok d \<and> ?i \<in> rlID ` set (sysRoles d)) \<and> set ys \<subseteq> mID ` set (sysMenus d)) (?tx x ys)
        (\<lambda>_. sys_ok) (\<lambda>_. sys_ok)"
        apply (rule triple_bind [where R = "\<lambda>_. sys_ok"])
         apply (rule triple_transaction)
          apply (rule triple_bind_readonly, simp, simp)
          apply (rule triple_bind [where R = "\<lambda>_. sys_ok"])
           apply (rule triple_post [OF triple_pre [OF Role_SetRoleMenus_ok]], simp, simp, simp)
          apply (rule triple_bind_readonly, simp, simp)
          apply (rule triple_weaken, rule sys_keeps)
         apply simp
        apply (rule triple_ret, assumption)
        done
    qed
  qed auto
qed

subsection \<open>All or nothing\<close>

lemma neverFails_modelRole [simp]: "neverFails (modelRoleToProto r False)"
  by (simp add: modelRoleToProto_def Let_def)

lemma atomicA_lift [simp]: "atomicA (liftA r)"
  by (simp add: atomicA_readonly)

lemma atomic_CreateRole: "atomicA (CreateRole b ctx q)"
  unfolding CreateRole_def Let_def case_prod_beta
  by (intro atomicA_bind_readonly atomicA_bind_neverFails atomicA_wrap atomicA_transaction) simp_all

lemma atomic_UpdateRole: "atomicA (UpdateRole b ctx q)"
  unfolding UpdateRole_def Let_def case_prod_beta
  by (simp add: atomicA_bind_readonly atomicA_bind_neverFails atomicA_wrap atomicA_readonly readonly_wrap)

lemma atomic_DeleteRole: "atomicA (DeleteRole b ctx i)"
  unfolding DeleteRole_def Let_def
  by (simp add: atomicA_bind_readonly atomicA_wrap atomicA_readonly readonly_wrap)

lemma atomic_setRoleStatus: "atomicA (setRoleStatus b ctx i s)"
  unfolding setRoleStatus_def Let_def case_prod_beta
  by (simp add: atomicA_bind_readonly atomicA_bind_neverFails atomicA_wrap atomicA_readonly readonly_wrap)

lemma atomic_SetRoleMenus: "atomicA (SetRoleMenus b ctx i xs)"
  unfolding SetRoleMenus_def Let_def
  by (simp add: atomicA_bind_readonly atomicA_bind_ret atomicA_readonly readonly_wrap)

subsection \<open>Replacing grants, deleting roles\<close>

lemma roleAudit_db: "roleAuditJSON r w = (x, w') \<Longrightarrow> db w' = db w"
  by (rule readonlyD [OF readonly_roleAudit])

lemma Role_SetRoleMenus_Inr:
  assumes "Role_SetRoleMenus i ys t w = (Inr u, w')"
  shows "db w' = (db w)\<lparr>sysRoleMenus := filter (\<lambda>g. rmRoleID g \<noteq> i) (sysRoleMenus (db w)) @
     map (\<lambda>m. \<lparr>rmRoleID = i, rmMenuID = m, rmCreatedAt = t\<rparr>) ys\<rparr>"
  using assms unfolding Role_SetRoleMenus_def
  by (auto simp: transactionA_Inr_iff bindA_Inr_iff stmtA_Inr_iff insertRoleMenus_def split: if_splits)

lemma SetRoleMenus_Inr:
  assumes "SetRoleMenus True ctx reqID xs w = (Inr ys, w')"
  shows "\<exists>r j t t' before after. r \<in> set (sysRoles (db w)) \<and> rlID r = trimSpace reqID \<and>
    ys = dedupTrim [] xs \<and> set ys \<subseteq> mID ` set (sysMenus (db w)) \<and>
    db w' = (db w)\<lparr>sysRoleMenus := filter (\<lambda>g. rmRoleID g \<noteq> rlID r) (sysRoleMenus (db w)) @
        map (\<lambda>m. \<lparr>rmRoleID = rlID r, rmMenuID = m, rmCreatedAt = t\<rparr>) ys,
      sysLogs := sysLogs (db w) @ [logRow j t' ctx ''role'' ''role.menu.update'' (utf8 [230, 155, 180, 230, 150, 176, 232, 167, 146, 232, 137, 178, 232, 143, 156, 229, 141, 149, 230, 157, 131, 233, 153, 144]) (rlID r) (rlName r) before after]\<rparr>"
proof -
  let ?i = "trimSpace reqID"
  have i: "?i \<noteq> []"
  proof
    assume "?i = []"
    then show False using assms by (simp add: SetRoleMenus_def)
  qed
  obtain r w1 b w2 w3 u w4 where 1: "Role_Get ?i w = (Inr r, w1)" and 2: "roleAuditJSON r w1 = (Inr b, w2)"
    and 3: "normalizeMenuIDs xs w2 = (Inr ys, w3)"
    and tx: "transactionA (bindA nowA (\<lambda>now. bindA (Role_SetRoleMenus ?i ys now) (\<lambda>_.
        bindA (roleAuditJSON r) (\<lambda>afterData.
        recordRoleChange True ctx ''role.menu.update'' (utf8 [230, 155, 180, 230, 150, 176, 232, 167, 146, 232, 137, 178, 232, 143, 156, 229, 141, 149, 230, 157, 131, 233, 153, 144]) r b afterData)))) w3 = (Inr u, w4)"
    and w': "w' = w4"
  proof -
    from assms have "bindA (wrapErrA wrapRoleNotFoundError (Role_Get ?i)) (\<lambda>r.
      bindA (roleAuditJSON r) (\<lambda>beforeData.
      bindA (normalizeMenuIDs xs) (\<lambda>menuIDs.
      bindA (transactionA (
        bindA nowA (\<lambda>now.
        bindA (Role_SetRoleMenus ?i menuIDs now) (\<lambda>_.
        bindA (roleAuditJSON r) (\<lambda>afterData.
        recordRoleChange True ctx ''role.menu.update'' (utf8 [230, 155, 180, 230, 150, 176, 232, 167, 146, 232, 137, 178, 232, 143, 156, 229, 141, 149, 230, 157, 131, 233, 153, 144]) r beforeData afterData))))) (\<lambda>_.
      retA menuIDs)))) w = (Inr ys, w')"
      by (simp only: SetRoleMenus_def Let_def if_not_P [OF i])
    then show ?thesis
      apply (elim bindA_InrE)
      apply (simp only: wrapErrA_Inr_iff retA_iff sum.inject)
      apply (elim conjE)
      apply (rule that)
      apply (assumption | simp)+
      done
  qed
  have r: "r \<in> set (sysRoles (db w))" "rlID r = ?i" and db1: "db w1 = db w" using Role_Get_Inr [OF 1] by blast+
  have db2: "db w2 = db w" using roleAudit_db [OF 2] db1 by simp
  have ys: "ys = dedupTrim [] xs" "set ys \<subseteq> mID ` set (sysMenus (db w))" and db3: "db w3 = db w"
    using normalizeMenuIDs_Inr [OF 3] db2 by auto
  from tx obtain v0 t v1 u1 v2 a v3 where
    4: "Role_SetRoleMenus ?i ys t v0 = (Inr u1, v1)" "db v0 = db w3" and 5: "roleAuditJSON r v1 = (Inr a, v2)"
    and 6: "recordRoleChange True ctx ''role.menu.update'' (utf8 [230, 155, 180, 230, 150, 176, 232, 167, 146, 232, 137, 178, 232, 143, 156, 229, 141, 149, 230, 157, 131, 233, 153, 144]) r b a v2 = (Inr u, v3)" and 7: "db w4 = db v3"
    by (auto simp: transactionA_Inr_iff bindA_Inr_iff nowA_iff)
  have "db v1 = (db w)\<lparr>sysRoleMenus := filter (\<lambda>g. rmRoleID g \<noteq> ?i) (sysRoleMenus (db w)) @
     map (\<lambda>m. \<lparr>rmRoleID = ?i, rmMenuID = m, rmCreatedAt = t\<rparr>) ys\<rparr>"
    using Role_SetRoleMenus_Inr [OF 4(1)] 4(2) db3 by simp
  moreover have "db v2 = db v1" using roleAudit_db [OF 5] .
  ultimately show ?thesis
    using r ys recordChange_Inr [OF 6 [unfolded recordRoleChange_def OperationResourceRole_def]] 7 w'
    by (intro exI [of _ r] exI) auto
qed

lemma Role_Delete_Inr:
  assumes "Role_Delete i w = (Inr u, w')"
  shows "db w' = (db w)\<lparr>sysRoles := filter (\<lambda>r. rlID r \<noteq> i) (sysRoles (db w)),
      sysUserRoles := filter (\<lambda>u. urRoleID u \<noteq> i) (sysUserRoles (db w)),
      sysRoleMenus := filter (\<lambda>g. rmRoleID g \<noteq> i) (sysRoleMenus (db w))\<rparr>"
  using assms unfolding Role_Delete_def
  by (auto simp: transactionA_Inr_iff bindA_Inr_iff stmtA_Inr_iff deleteRoleRow_def split: if_splits)

lemma DeleteRole_Inr:
  assumes "DeleteRole True ctx reqID w = (Inr u, w')"
  shows "\<exists>r j t before. r \<in> set (sysRoles (db w)) \<and> rlID r = trimSpace reqID \<and>
    db w' = (db w)\<lparr>sysRoles := filter (\<lambda>s. rlID s \<noteq> rlID r) (sysRoles (db w)),
      sysUserRoles := filter (\<lambda>u. urRoleID u \<noteq> rlID r) (sysUserRoles (db w)),
      sysRoleMenus := filter (\<lambda>g. rmRoleID g \<noteq> rlID r) (sysRoleMenus (db w)),
      sysLogs := sysLogs (db w) @ [logRow j t ctx ''role'' ''role.delete'' (utf8 [229, 136, 160, 233, 153, 164, 232, 167, 146, 232, 137, 178]) (rlID r) (rlName r) before AuditNone]\<rparr>"
proof -
  let ?i = "trimSpace reqID"
  have i: "?i \<noteq> []"
  proof
    assume "?i = []"
    then show False using assms by (simp add: DeleteRole_def)
  qed
  obtain r w1 b w2 where 1: "Role_Get ?i w = (Inr r, w1)" and 2: "roleAuditJSON r w1 = (Inr b, w2)"
    and tx: "transactionA (bindA (Role_Delete ?i) (\<lambda>_.
        recordRoleChange True ctx ''role.delete'' (utf8 [229, 136, 160, 233, 153, 164, 232, 167, 146, 232, 137, 178]) r b AuditNone)) w2 = (Inr u, w')"
    using assms unfolding DeleteRole_def Let_def if_not_P [OF i]
    by (elim bindA_InrE) (simp only: wrapErrA_Inr_iff; rule that; assumption)
  have r: "r \<in> set (sysRoles (db w))" "rlID r = ?i" and db1: "db w1 = db w" using Role_Get_Inr [OF 1] by blast+
  have db2: "db w2 = db w" using roleAudit_db [OF 2] db1 by simp
  from tx obtain x v1 v2 where del: "Role_Delete ?i (nextTick w2) = (Inr x, v1)"
    and log: "recordRoleChange True ctx ''role.delete'' (utf8 [229, 136, 160, 233, 153, 164, 232, 167, 146, 232, 137, 178]) r b AuditNone v1 = (Inr u, v2)"
    and w': "db w' = db v2" by (rule loggedTx_Inr)
  show ?thesis
    using Role_Delete_Inr [OF del] db2 r w'
      recordChange_Inr [OF log [unfolded recordRoleChange_def OperationResourceRole_def]]
    by (intro exI [of _ r] exI) auto
qed

subsection \<open>Properties\<close>

text \<open>
   \<^verbatim>\<open>SetRoleMenus\<close>: either an error and no table has changed; or the role exists,
  the result is the list of the trimmed identifiers without empty ones and repetitions, all of
  existing menus, the role's grants are exactly these, the grants of the other roles are
  untouched, and one log row is added.
\<close>

theorem SetRoleMenus_effect:
  "effectA (SetRoleMenus True ctx reqID xs)
     (\<lambda>d ys d'. \<exists>r j t t' before after. r \<in> set (sysRoles d) \<and> rlID r = trimSpace reqID \<and>
        ys = dedupTrim [] xs \<and> set ys \<subseteq> mID ` set (sysMenus d) \<and>
        d' = d\<lparr>sysRoleMenus := filter (\<lambda>g. rmRoleID g \<noteq> rlID r) (sysRoleMenus d) @
            map (\<lambda>m. \<lparr>rmRoleID = rlID r, rmMenuID = m, rmCreatedAt = t\<rparr>) ys,
          sysLogs := sysLogs d @ [logRow j t' ctx ''role'' ''role.menu.update'' (utf8 [230, 155, 180, 230, 150, 176, 232, 167, 146, 232, 137, 178, 232, 143, 156, 229, 141, 149, 230, 157, 131, 233, 153, 144]) (rlID r) (rlName r) before after]\<rparr>)
     (\<lambda>d e d'. d' = d)"
  by (rule effectA_atomic [OF _ atomic_SetRoleMenus]) (rule SetRoleMenus_Inr)

text \<open>
   \<^verbatim>\<open>DeleteRole\<close>: either an error and no change; or exactly the role, its grants
  and its memberships are gone and one log row is added.
\<close>

theorem DeleteRole_effect:
  "effectA (DeleteRole True ctx reqID)
     (\<lambda>d u d'. \<exists>r j t before. r \<in> set (sysRoles d) \<and> rlID r = trimSpace reqID \<and>
        d' = d\<lparr>sysRoles := filter (\<lambda>s. rlID s \<noteq> rlID r) (sysRoles d),
          sysUserRoles := filter (\<lambda>u. urRoleID u \<noteq> rlID r) (sysUserRoles d),
          sysRoleMenus := filter (\<lambda>g. rmRoleID g \<noteq> rlID r) (sysRoleMenus d),
          sysLogs := sysLogs d @ [logRow j t ctx ''role'' ''role.delete'' (utf8 [229, 136, 160, 233, 153, 164, 232, 167, 146, 232, 137, 178]) (rlID r) (rlName r) before AuditNone]\<rparr>)
     (\<lambda>d e d'. d' = d)"
  by (rule effectA_atomic [OF _ atomic_DeleteRole]) (rule DeleteRole_Inr)

text \<open>A validated role code: it is its own normal form, so validating twice changes nothing.\<close>

lemma codeChar_ascii: "codeChar c \<Longrightarrow> 44 < (of_char c :: nat) \<and> (of_char c :: nat) < 123 \<and> lowerChar c = c"
  by (auto simp: codeChar_def lowerLetter_def lowerChar_def Let_def)

lemma lowerLetter_codeChar: "lowerLetter c \<Longrightarrow> codeChar c"
  by (simp add: codeChar_def)

lemma goLower_code: "list_all codeChar s \<Longrightarrow> goLower s = s"
proof (induction s)
  case Nil
  then show ?case by simp
next
  case (Cons c s)
  then have "(of_char c :: nat) < 123" "lowerChar c = c" using codeChar_ascii by simp_all
  moreover have "\<not> prefix (utf8 [226, 132, 170]) (c # s)" "\<not> prefix (utf8 [196, 176]) (c # s)"
    using \<open>(of_char c :: nat) < 123\<close> by (auto simp: utf8_def)
  ultimately show ?case using Cons by simp
qed

lemma goLower_ascii: "list_all (\<lambda>c. (of_char c :: nat) < 128) s \<Longrightarrow> goLower s = toLower s"
proof (induction s)
  case Nil
  then show ?case by (simp add: toLower_def)
next
  case (Cons c s)
  then have "\<not> prefix (utf8 [226, 132, 170]) (c # s)" "\<not> prefix (utf8 [196, 176]) (c # s)"
    by (auto simp: utf8_def)
  then show ?case using Cons by (simp add: toLower_def)
qed

lemma trimSpace_code:
  assumes "list_all codeChar s"
  shows "trimSpace s = s"
proof (cases "s = []")
  case False
  then have "codeChar (hd s)" "codeChar (last s)" using assms by (simp_all add: list_all_iff)
  then show ?thesis using False codeChar_ascii
    by (intro trimSpace_visible) (fastforce simp: visibleChar_def)+
qed simp

lemma roleCodePattern_chars: "roleCodePattern s \<Longrightarrow> s \<noteq> [] \<and> list_all codeChar s"
  by (auto simp: roleCodePattern_def lowerLetter_codeChar split: list.splits)

text \<open>
   Validation of a role normalises: an accepted code matches the pattern, so has 2 to 63
  characters, and validating the result again accepts it unchanged.
\<close>

theorem validateRoleInput_normal:
  assumes "validateRoleInput name code = Inr (name', code')"
  shows "roleCodePattern code' \<and> length code' \<in> {2..63} \<and> name' \<noteq> [] \<and>
    validateRoleInput name' code' = Inr (name', code')"
proof -
  have ok: "roleCodePattern code'" "name' = trimSpace name" "name' \<noteq> []"
    using assms by (auto simp: validateRoleInput_def Let_def split: if_splits)
  note chars = roleCodePattern_chars [OF ok(1)]
  have "goLower code' = code'" "trimSpace code' = code'"
    using chars goLower_code trimSpace_code by blast+
  with ok chars have "validateRoleInput name' code' = Inr (name', code')"
    by (simp add: validateRoleInput_def)
  moreover have "length code' \<in> {2..63}"
    using ok(1) by (auto simp: roleCodePattern_def split: list.splits)
  ultimately show ?thesis using ok by simp
qed

theorem validateRoleInput_normal_witness:
  "validateRoleInput ''ops'' ''Ops.Team'' = Inr (''ops'', ''ops.team'') \<and>
   roleCodePattern ''ops.team'' \<and> length ''ops.team'' \<in> {2..63} \<and>
   validateRoleInput ''ops'' ''ops.team'' = Inr (''ops'', ''ops.team'')"
proof -
  have "goLower ''Ops.Team'' = toLower ''Ops.Team''" by (rule goLower_ascii) simp
  also have "\<dots> = ''ops.team''" by code_simp
  finally have "goLower ''Ops.Team'' = ''ops.team''" .
  moreover have "list_all codeChar ''ops.team''" "list_all codeChar ''ops''" "lowerLetter CHR ''o''"
    by (simp_all add: codeChar_def lowerLetter_def)
  ultimately have run: "validateRoleInput ''ops'' ''Ops.Team'' = Inr (''ops'', ''ops.team'')"
    by (simp add: validateRoleInput_def trimSpace_code roleCodePattern_def)
  show ?thesis using validateRoleInput_normal [OF run] run by simp
qed

end
