(* ===== verification/Redis_Store.thy ===== *)
theory Redis_Store
  imports Service_World
begin

text \<open>
  The Redis commands the services use, as Redis documents them: \<^verbatim>\<open>SET\<close> with an
  expiry, \<^verbatim>\<open>GET\<close>, \<^verbatim>\<open>GETDEL\<close> and \<^verbatim>\<open>DEL\<close>.

  The keyspace maps a key to its value and the time at which it expires.  A command runs at one
  instant (Redis executes commands one after another) and its clock is the services' clock; it
  may fail in the driver, and a failed command has no effect.  The go-redis client sends an
  expiry in milliseconds, at least one.
\<close>

type_synonym 'v redis = "gostr \<rightharpoonup> 'v \<times> int option"

definition nanosPerMilli :: int where "nanosPerMilli = 1000000"

definition wireTTL :: "int \<Rightarrow> int" where
  "wireTTL ttl = (if ttl < nanosPerMilli then nanosPerMilli else (ttl div nanosPerMilli) * nanosPerMilli)"

definition expiryOf :: "int \<Rightarrow> int \<Rightarrow> int option" where
  "expiryOf now ttl = (if 0 < ttl then Some (now + wireTTL ttl) else None)"

definition liveAt :: "int \<Rightarrow> int option \<Rightarrow> bool" where
  "liveAt now t = (case t of None \<Rightarrow> True | Some deadline \<Rightarrow> now < deadline)"

definition rdLookup :: "int \<Rightarrow> 'v redis \<Rightarrow> gostr \<Rightarrow> 'v option" where
  "rdLookup now d k =
     (case d k of None \<Rightarrow> None | Some (v, t) \<Rightarrow> if liveAt now t then Some v else None)"

text \<open>A command that reads the clock once.\<close>

definition timedA :: "(int \<Rightarrow> 'd \<Rightarrow> err + ('a \<times> 'd)) \<Rightarrow> ('d, 'a) act" where
  "timedA f w = stmtA (f (clockAt w (tick w))) w"

definition rdSet :: "gostr \<Rightarrow> 'v \<Rightarrow> int \<Rightarrow> ('v redis, unit) act" where
  "rdSet k v ttl = timedA (\<lambda>now d. Inr ((), d(k \<mapsto> (v, expiryOf now ttl))))"

definition rdGet :: "gostr \<Rightarrow> ('v redis, 'v) act" where
  "rdGet k = timedA (\<lambda>now d. case rdLookup now d k of None \<Rightarrow> Inl RedisNil | Some v \<Rightarrow> Inr (v, d))"

definition rdGetDel :: "gostr \<Rightarrow> ('v redis, 'v) act" where
  "rdGetDel k = timedA (\<lambda>now d.
     case rdLookup now d k of None \<Rightarrow> Inl RedisNil | Some v \<Rightarrow> Inr (v, d(k := None)))"

definition rdDel :: "gostr list \<Rightarrow> ('v redis, unit) act" where
  "rdDel ks = timedA (\<lambda>now d. Inr ((), d |` (- set ks)))"

subsection \<open>Facts\<close>

lemma wireTTL_pos: "0 < wireTTL ttl"
  by (auto simp: wireTTL_def nanosPerMilli_def)

lemma wireTTL_le: "nanosPerMilli \<le> ttl \<Longrightarrow> wireTTL ttl \<le> ttl"
  by (simp add: wireTTL_def nanosPerMilli_def)

lemma rdLookup_Some: "rdLookup now d k = Some v \<Longrightarrow> \<exists>t. d k = Some (v, t) \<and> liveAt now t"
  by (auto simp: rdLookup_def split: option.splits if_splits)

lemma rdLookup_None [simp]: "d k = None \<Longrightarrow> rdLookup now d k = None"
  by (simp add: rdLookup_def)

lemma timedA_Inr_iff:
  "timedA f w = (Inr x, w') \<longleftrightarrow>
     faultAt w (tick w) = None \<and>
     (\<exists>d. f (clockAt w (tick w)) (db w) = Inr (x, d) \<and> w' = (nextTick w)\<lparr>db := d\<rparr>)"
  by (simp add: timedA_def stmtA_Inr_iff)

lemma timedA_Inl_db: "timedA f w = (Inl e, w') \<Longrightarrow> w' = nextTick w"
  by (auto simp: timedA_def stmtA_def split: option.splits sum.splits)

lemma rdSet_Inr:
  "rdSet k v ttl w = (Inr u, w') \<Longrightarrow>
     w' = (nextTick w)\<lparr>db := (db w)(k \<mapsto> (v, expiryOf (clockAt w (tick w)) ttl))\<rparr>"
  by (auto simp: rdSet_def timedA_Inr_iff)

lemma rdSet_Inl: "rdSet k v ttl w = (Inl e, w') \<Longrightarrow> w' = nextTick w"
  unfolding rdSet_def by (rule timedA_Inl_db)

lemma rdGet_Inr:
  "rdGet k w = (Inr v, w') \<Longrightarrow> rdLookup (clockAt w (tick w)) (db w) k = Some v \<and> w' = nextTick w"
  by (auto simp: rdGet_def timedA_Inr_iff split: option.splits)

lemma rdGetDel_Inr:
  "rdGetDel k w = (Inr v, w') \<Longrightarrow>
     rdLookup (clockAt w (tick w)) (db w) k = Some v \<and> w' = (nextTick w)\<lparr>db := (db w)(k := None)\<rparr>"
  by (auto simp: rdGetDel_def timedA_Inr_iff split: option.splits)

lemma rdGetDel_Inl: "rdGetDel k w = (Inl e, w') \<Longrightarrow> w' = nextTick w"
  unfolding rdGetDel_def by (rule timedA_Inl_db)

lemma rdDel_Inr: "rdDel ks w = (Inr u, w') \<Longrightarrow> w' = (nextTick w)\<lparr>db := (db w) |` (- set ks)\<rparr>"
  by (auto simp: rdDel_def timedA_Inr_iff)

lemma rdDel_Inl: "rdDel ks w = (Inl e, w') \<Longrightarrow> w' = nextTick w"
  unfolding rdDel_def by (rule timedA_Inl_db)

lemma readonly_rdGet [act_frame, simp]: "readonly (rdGet k)"
  by (auto simp: readonly_def rdGet_def timedA_def stmtA_def split: option.splits sum.splits)

lemma triple_timed:
  assumes "\<And>now d x d'. P d \<Longrightarrow> f now d = Inr (x, d') \<Longrightarrow> Q x d'" and "\<And>d e. P d \<Longrightarrow> E e d"
  shows "triple P (timedA f) Q E"
proof (rule tripleI)
  fix w r w' assume "uuids_ok w" "timedA f w = (r, w')"
  then show "uuids_ok w'"
    by (auto simp: timedA_def stmtA_def split: option.splits sum.splits)
next
  fix w x w' assume "P (db w)" "timedA f w = (Inr x, w')"
  then show "Q x (db w')" using assms(1) by (auto simp: timedA_Inr_iff)
next
  fix w e w' assume "P (db w)" "timedA f w = (Inl e, w')"
  then show "E e (db w')" using assms(2) timedA_Inl_db [of f w e w'] by simp
qed

lemma triple_rdSet:
  assumes "\<And>d t. P d \<Longrightarrow> Q () (d(k \<mapsto> (v, t)))" and "\<And>d e. P d \<Longrightarrow> E e d"
  shows "triple P (rdSet k v ttl) Q E"
  unfolding rdSet_def using assms by (intro triple_timed) auto

lemma triple_rdDel:
  assumes "\<And>d. P d \<Longrightarrow> Q () (d |` (- set ks))" and "\<And>d e. P d \<Longrightarrow> E e d"
  shows "triple P (rdDel ks) Q E"
  unfolding rdDel_def using assms by (intro triple_timed) auto

lemma triple_rdGet:
  assumes "\<And>d now v. P d \<Longrightarrow> rdLookup now d k = Some v \<Longrightarrow> Q v d" and "\<And>d e. P d \<Longrightarrow> E e d"
  shows "triple P (rdGet k) Q E"
  unfolding rdGet_def using assms by (intro triple_timed) (auto split: option.splits)

lemma triple_rdGetDel:
  assumes "\<And>d now v. P d \<Longrightarrow> rdLookup now d k = Some v \<Longrightarrow> Q v (d(k := None))" and "\<And>d e. P d \<Longrightarrow> E e d"
  shows "triple P (rdGetDel k) Q E"
  unfolding rdGetDel_def using assms by (intro triple_timed) (auto split: option.splits)

end
