(* ===== verification/Auth_Tokens.thy ===== *)
theory Auth_Tokens
  imports Role_Logic Redis_Store
begin

text \<open>
  \<^verbatim>\<open>system/internal/dao/auth_token.go\<close>: the sessions and tokens of logged-in users,
  kept in Redis beside the tables.

  A session value is stored as its JSON text; the model keeps the session itself
  (\<open>SessionVal\<close>) next to the plain texts (\<open>TextVal\<close>).  The libraries outside the
  repository are the fields of \<open>authEnv\<close>: the JWT library, bcrypt, the hash and the random
  source.
\<close>

record authSession =
  asID :: gostr
  asUserID :: gostr
  asUsername :: gostr
  asExpiresAt :: int

datatype tokenVal = SessionVal authSession | TextVal gostr

record authdb =
  adSys :: sysdb
  adRedis :: "tokenVal redis"

type_synonym 'a authact = "(authdb, 'a) act"

record authEnv =
  aeSecret :: gostr
  aeAccessTTL :: int
  aeRefreshTTL :: int
  aeStore :: bool
  aeRedis :: bool
  aeLog :: bool
  aeSign :: "claims \<Rightarrow> gostr \<Rightarrow> err + gostr"
  aeParse :: "int \<Rightarrow> (gostr \<Rightarrow> err + gostr) \<Rightarrow> gostr \<Rightarrow> jwtErr + (claims \<times> bool)"
  aeSessionJSON :: "authSession \<Rightarrow> gostr"
  aeHash :: "gostr \<Rightarrow> gostr"
  aeRandom :: "nat \<Rightarrow> int \<Rightarrow> err + gostr"
  aeCompare :: "gostr \<Rightarrow> gostr \<Rightarrow> bool"
  aeBcrypt :: "nat \<Rightarrow> gostr \<Rightarrow> err + gostr"

definition putSys :: "sysdb \<Rightarrow> authdb \<Rightarrow> authdb" where "putSys e d = d\<lparr>adSys := e\<rparr>"
definition putRedis :: "tokenVal redis \<Rightarrow> authdb \<Rightarrow> authdb" where "putRedis e d = d\<lparr>adRedis := e\<rparr>"

interpretation sys_part: state_part adSys putSys
  by unfold_locales (simp_all add: putSys_def)

interpretation redis_part: state_part adRedis putRedis
  by unfold_locales (simp_all add: putRedis_def)

abbreviation onSys :: "'a sysact \<Rightarrow> 'a authact" where "onSys \<equiv> zoomA adSys putSys"
abbreviation onRedis :: "(tokenVal redis, 'a) act \<Rightarrow> 'a authact" where "onRedis \<equiv> zoomA adRedis putRedis"

subsection \<open>Keys\<close>

definition HashToken :: "authEnv \<Rightarrow> gostr \<Rightarrow> gostr" where
  "HashToken env token = aeHash env (trimSpace token)"

definition sessionKey :: "gostr \<Rightarrow> gostr" where
  "sessionKey i = ''auth:'' @ ''session:'' @ trimSpace i"

definition accessKey :: "authEnv \<Rightarrow> gostr \<Rightarrow> gostr" where
  "accessKey env jti = ''auth:'' @ ''access:'' @ HashToken env jti"

definition refreshKey :: "authEnv \<Rightarrow> gostr \<Rightarrow> gostr" where
  "refreshKey env token = ''auth:'' @ ''refresh:'' @ HashToken env token"

lemma keys_distinct [simp]:
  "sessionKey i \<noteq> accessKey env j" "sessionKey i \<noteq> refreshKey env t" "accessKey env j \<noteq> refreshKey env t"
  "accessKey env j \<noteq> sessionKey i" "refreshKey env t \<noteq> sessionKey i" "refreshKey env t \<noteq> accessKey env j"
  by (simp_all add: sessionKey_def accessKey_def refreshKey_def)

definition tokenText :: "authEnv \<Rightarrow> tokenVal \<Rightarrow> gostr" where
  "tokenText env v = (case v of TextVal s \<Rightarrow> s | SessionVal s \<Rightarrow> aeSessionJSON env s)"

subsection \<open>The store\<close>

definition storeUnavailable :: err where
  "storeUnavailable = Err ''auth token redis store is unavailable''"

text \<open>\<^verbatim>\<open>_ = s.redis.Del(...)\<close> on the way out with the first error.\<close>

definition failAfter :: "unit authact \<Rightarrow> err \<Rightarrow> 'a authact" where
  "failAfter m e = bindA (tryA m) (\<lambda>_. failA e)"

definition CreateSession ::
  "authEnv \<Rightarrow> authSession \<Rightarrow> gostr \<Rightarrow> gostr \<Rightarrow> int \<Rightarrow> int \<Rightarrow> unit authact" where
  "CreateSession env session accessJTI refreshToken accessTTL refreshTTL =
     (if \<not> aeRedis env then failA storeUnavailable
      else if trimSpace (asID session) = [] \<or> trimSpace (asUserID session) = [] then
        failA (Err ''auth token session is incomplete'')
      else if accessTTL \<le> 0 \<or> refreshTTL \<le> 0 then failA (Err ''auth token ttl must be positive'')
      else
        let key0 = sessionKey (asID session); key1 = accessKey env accessJTI;
            key2 = refreshKey env refreshToken in
        bindA (onRedis (rdSet key0 (SessionVal session) refreshTTL)) (\<lambda>_.
        bindA (handleA (onRedis (rdSet key1 (TextVal (asID session)) accessTTL))
                 (failAfter (onRedis (rdDel [key0])))) (\<lambda>_.
        handleA (onRedis (rdSet key2 (TextVal (asID session)) refreshTTL))
          (failAfter (onRedis (rdDel [key0, key1]))))))"

definition SaveRotatedTokens ::
  "authEnv \<Rightarrow> gostr \<Rightarrow> gostr \<Rightarrow> gostr \<Rightarrow> int \<Rightarrow> int \<Rightarrow> unit authact" where
  "SaveRotatedTokens env sessionID accessJTI refreshToken accessTTL refreshTTL =
     (if \<not> aeRedis env then failA storeUnavailable
      else if trimSpace sessionID = [] \<or> accessTTL \<le> 0 \<or> refreshTTL \<le> 0 then
        failA (Err ''rotated auth token data is incomplete'')
      else
        bindA (onRedis (rdSet (accessKey env accessJTI) (TextVal sessionID) accessTTL)) (\<lambda>_.
        handleA (onRedis (rdSet (refreshKey env refreshToken) (TextVal sessionID) refreshTTL))
          (failAfter (onRedis (rdDel [accessKey env accessJTI])))))"

text \<open>
  The result of a text command: its value, empty on an error.  The code looks at the value
  before it looks at the error.
\<close>

definition sessionIDResult :: "authEnv \<Rightarrow> err + tokenVal \<Rightarrow> gostr authact" where
  "sessionIDResult env r =
     (let sessionID = (case r of Inl _ \<Rightarrow> [] | Inr v \<Rightarrow> tokenText env v) in
      if r = Inl RedisNil \<or> trimSpace sessionID = [] then failA AuthTokenNotFound
      else case r of Inl e \<Rightarrow> failA e | Inr _ \<Rightarrow> retA sessionID)"

definition AccessSessionID :: "authEnv \<Rightarrow> gostr \<Rightarrow> gostr authact" where
  "AccessSessionID env accessJTI =
     (if \<not> aeRedis env then failA storeUnavailable
      else bindA (tryA (onRedis (rdGet (accessKey env accessJTI)))) (sessionIDResult env))"

definition ConsumeRefreshSessionID :: "authEnv \<Rightarrow> gostr \<Rightarrow> gostr authact" where
  "ConsumeRefreshSessionID env refreshToken =
     (if \<not> aeRedis env then failA storeUnavailable
      else bindA (tryA (onRedis (rdGetDel (refreshKey env refreshToken)))) (sessionIDResult env))"

definition GetSession :: "authEnv \<Rightarrow> gostr \<Rightarrow> authSession authact" where
  "GetSession env sessionID =
     (if \<not> aeRedis env then failA storeUnavailable
      else
        bindA (wrapErrA (\<lambda>e. if e = RedisNil then AuthTokenNotFound else e)
                 (onRedis (rdGet (sessionKey sessionID)))) (\<lambda>data.
        case data of
          TextVal _ \<Rightarrow> failA (Err ''invalid auth token session'')
        | SessionVal session \<Rightarrow>
            bindA timeNowA (\<lambda>now.
            if asExpiresAt session \<le> now div nanosPerSecond then failA AuthTokenNotFound
            else retA session)))"

definition RevokeSession :: "authEnv \<Rightarrow> gostr \<Rightarrow> unit authact" where
  "RevokeSession env sessionID =
     (if \<not> aeRedis env then failA storeUnavailable
      else onRedis (rdDel [sessionKey sessionID]))"

subsection \<open>Running\<close>

lemma tryA_iff: "tryA m w = (r, w') \<longleftrightarrow> (\<exists>s. m w = (s, w') \<and> r = Inr s)"
  by (auto simp: tryA_def split: prod.splits)

lemma handleA_Inr_iff:
  "handleA m h w = (Inr x, w') \<longleftrightarrow>
     m w = (Inr x, w') \<or> (\<exists>e v. m w = (Inl e, v) \<and> h e v = (Inr x, w'))"
  by (auto simp: handleA_def split: prod.splits sum.splits)

lemma failAfter_not_Inr [simp]: "failAfter m e w \<noteq> (Inr x, w')"
  by (auto simp: failAfter_def bindA_Inr_iff)

lemma readonly_AccessSessionID [act_frame, simp]: "readonly (AccessSessionID env j)"
  unfolding AccessSessionID_def sessionIDResult_def Let_def
  by (auto intro!: readonly_bind readonly_try redis_part.zoom_readonly split: sum.split)

lemma readonly_GetSession [act_frame, simp]: "readonly (GetSession env i)"
  unfolding GetSession_def
  by (auto intro!: readonly_bind readonly_wrap redis_part.zoom_readonly split: tokenVal.split)

lemma onRedis_set_Inr:
  "onRedis (rdSet k v ttl) w = (Inr u, w') \<Longrightarrow>
     db w' = (db w)\<lparr>adRedis := (adRedis (db w))(k \<mapsto> (v, expiryOf (clockAt w (tick w)) ttl))\<rparr> \<and>
     clockAt w' = clockAt w \<and> tick w' = Suc (tick w)"
  by (auto simp: zoomA_iff putRedis_def dest!: rdSet_Inr)

lemma sessionIDResult_Inr:
  "sessionIDResult env r w = (Inr sid, w') \<Longrightarrow>
     \<exists>v. r = Inr v \<and> sid = tokenText env v \<and> trimSpace sid \<noteq> [] \<and> w' = w"
  by (cases r) (auto simp: sessionIDResult_def Let_def split: if_splits)

lemma AccessSessionID_Inr:
  assumes "AccessSessionID env j w = (Inr sid, w')"
  shows "\<exists>v. rdLookup (clockAt w (tick w)) (adRedis (db w)) (accessKey env j) = Some v \<and>
    sid = tokenText env v \<and> db w' = db w"
proof -
  obtain r w1 where 1: "tryA (onRedis (rdGet (accessKey env j))) w = (Inr r, w1)"
    and 2: "sessionIDResult env r w1 = (Inr sid, w')"
    using assms by (auto simp: AccessSessionID_def bindA_Inr_iff split: if_splits)
  obtain v where v: "r = Inr v" "sid = tokenText env v" using sessionIDResult_Inr [OF 2] by blast
  have "onRedis (rdGet (accessKey env j)) w = (Inr v, w1)" using 1 v by (simp add: tryA_iff)
  then have "rdLookup (clockAt w (tick w)) (adRedis (db w)) (accessKey env j) = Some v"
    by (auto simp: zoomA_iff dest!: rdGet_Inr)
  then show ?thesis using v readonlyD [OF readonly_AccessSessionID assms] by blast
qed

lemma Consume_Inr:
  assumes "ConsumeRefreshSessionID env t w = (Inr sid, w')"
  shows "\<exists>v. rdLookup (clockAt w (tick w)) (adRedis (db w)) (refreshKey env t) = Some v \<and>
    sid = tokenText env v \<and> trimSpace sid \<noteq> [] \<and>
    db w' = (db w)\<lparr>adRedis := (adRedis (db w))(refreshKey env t := None)\<rparr>"
proof -
  obtain r w1 where 1: "tryA (onRedis (rdGetDel (refreshKey env t))) w = (Inr r, w1)"
    and 2: "sessionIDResult env r w1 = (Inr sid, w')"
    using assms by (auto simp: ConsumeRefreshSessionID_def bindA_Inr_iff split: if_splits)
  obtain v where v: "r = Inr v" "sid = tokenText env v" "trimSpace sid \<noteq> []" "w' = w1"
    using sessionIDResult_Inr [OF 2] by blast
  have "onRedis (rdGetDel (refreshKey env t)) w = (Inr v, w1)" using 1 v by (simp add: tryA_iff)
  then have "rdLookup (clockAt w (tick w)) (adRedis (db w)) (refreshKey env t) = Some v \<and>
      db w1 = (db w)\<lparr>adRedis := (adRedis (db w))(refreshKey env t := None)\<rparr>"
    by (auto simp: zoomA_iff putRedis_def dest!: rdGetDel_Inr)
  then show ?thesis using v by blast
qed

text \<open>A consumption that fails has always the same error when the store is there.\<close>

lemma sessionIDResult_Inl: "sessionIDResult env r w = (Inl e, w') \<Longrightarrow> e = AuthTokenNotFound \<and> w' = w"
  by (cases r) (auto simp: sessionIDResult_def Let_def split: if_splits)

lemma Consume_Inl:
  assumes "ConsumeRefreshSessionID env t w = (Inl e, w')" and "aeRedis env"
  shows "e = AuthTokenNotFound \<and> (\<exists>r. onRedis (rdGetDel (refreshKey env t)) w = (r, w'))"
proof -
  obtain r w1 where 1: "onRedis (rdGetDel (refreshKey env t)) w = (r, w1)" by fastforce
  then have "sessionIDResult env r w1 = (Inl e, w')"
    using assms by (auto simp: ConsumeRefreshSessionID_def bindA_def tryA_def)
  then show ?thesis using 1 sessionIDResult_Inl by blast
qed

lemma Consume_absent:
  assumes "adRedis (db w) (refreshKey env t) = None" and "aeRedis env"
  shows "\<exists>w'. ConsumeRefreshSessionID env t w = (Inl AuthTokenNotFound, w') \<and> db w' = db w"
proof -
  obtain r w' where run: "ConsumeRefreshSessionID env t w = (r, w')" by fastforce
  show ?thesis
  proof (cases r)
    case (Inr sid)
    then show ?thesis using Consume_Inr run assms(1) by fastforce
  next
    case (Inl e)
    then obtain s w1 where 1: "onRedis (rdGetDel (refreshKey env t)) w = (s, w1)" and "w' = w1"
      using Consume_Inl run assms(2) by blast
    moreover have "db w1 = db w"
    proof (cases s)
      case (Inl e')
      then show ?thesis using 1 by (auto simp: zoomA_iff putRedis_def dest!: rdGetDel_Inl)
    next
      case (Inr v)
      then show ?thesis using 1 assms(1) by (auto simp: zoomA_iff dest!: rdGetDel_Inr)
    qed
    ultimately show ?thesis using Consume_Inl run Inl assms(2) by blast
  qed
qed

lemma GetSession_Inr:
  assumes "GetSession env i w = (Inr s, w')"
  shows "rdLookup (clockAt w (tick w)) (adRedis (db w)) (sessionKey i) = Some (SessionVal s) \<and>
    clockAt w (Suc (tick w)) div nanosPerSecond < asExpiresAt s \<and> db w' = db w \<and>
    tick w' = Suc (Suc (tick w)) \<and> clockAt w' = clockAt w"
proof -
  obtain data w1 where 1: "onRedis (rdGet (sessionKey i)) w = (Inr data, w1)"
    and 2: "(case data of TextVal _ \<Rightarrow> failA (Err ''invalid auth token session'')
        | SessionVal session \<Rightarrow> bindA timeNowA (\<lambda>now.
            if asExpiresAt session \<le> now div nanosPerSecond then failA AuthTokenNotFound
            else retA session)) w1 = (Inr s, w')"
    using assms by (auto simp: GetSession_def bindA_Inr_iff split: if_splits)
  have "rdLookup (clockAt w (tick w)) (adRedis (db w)) (sessionKey i) = Some data"
    "clockAt w1 = clockAt w" "tick w1 = Suc (tick w)"
    using 1 by (auto simp: zoomA_iff dest!: rdGet_Inr)
  then show ?thesis using 2 readonlyD [OF readonly_GetSession assms]
    by (auto simp: act_Inr split: tokenVal.splits if_splits)
qed

lemma CreateSession_Inr:
  assumes "CreateSession env s j t attl rttl w = (Inr u, w')"
  shows "trimSpace (asID s) \<noteq> [] \<and> trimSpace (asUserID s) \<noteq> [] \<and> 0 < attl \<and> 0 < rttl \<and>
    (\<exists>t0 t1 t2. db w' = (db w)\<lparr>adRedis := (adRedis (db w))
       (sessionKey (asID s) \<mapsto> (SessionVal s, expiryOf t0 rttl),
        accessKey env j \<mapsto> (TextVal (asID s), expiryOf t1 attl),
        refreshKey env t \<mapsto> (TextVal (asID s), expiryOf t2 rttl))\<rparr>)"
proof -
  from assms obtain w1 w2 u1 u2 where ok: "trimSpace (asID s) \<noteq> []" "trimSpace (asUserID s) \<noteq> []" "0 < attl" "0 < rttl"
    and 1: "onRedis (rdSet (sessionKey (asID s)) (SessionVal s) rttl) w = (Inr u1, w1)"
    and 2: "onRedis (rdSet (accessKey env j) (TextVal (asID s)) attl) w1 = (Inr u2, w2)"
    and 3: "onRedis (rdSet (refreshKey env t) (TextVal (asID s)) rttl) w2 = (Inr u, w')"
    by (auto simp: CreateSession_def Let_def bindA_Inr_iff handleA_Inr_iff split: if_splits)
  show ?thesis
    using ok onRedis_set_Inr [OF 1] onRedis_set_Inr [OF 2] onRedis_set_Inr [OF 3] by auto
qed

lemma SaveRotated_Inr:
  assumes "SaveRotatedTokens env sid j t attl rttl w = (Inr u, w')"
  shows "\<exists>t1 t2. db w' = (db w)\<lparr>adRedis := (adRedis (db w))
       (accessKey env j \<mapsto> (TextVal sid, expiryOf t1 attl),
        refreshKey env t \<mapsto> (TextVal sid, expiryOf t2 rttl))\<rparr>"
proof -
  from assms obtain w1 u1 where
    1: "onRedis (rdSet (accessKey env j) (TextVal sid) attl) w = (Inr u1, w1)"
    and 2: "onRedis (rdSet (refreshKey env t) (TextVal sid) rttl) w1 = (Inr u, w')"
    by (auto simp: SaveRotatedTokens_def bindA_Inr_iff handleA_Inr_iff split: if_splits)
  show ?thesis using onRedis_set_Inr [OF 1] onRedis_set_Inr [OF 2] by auto
qed

end
