(* ===== verification/User_Logic.thy ===== *)
theory User_Logic
  imports Auth_Tokens
begin

text \<open>
  \<^verbatim>\<open>system/internal/logic/user.go\<close>: validation of account data, the handlers that
  manage accounts and their roles (on the tables), and login, token refresh, logout and token
  validation (on the tables and the token store).
\<close>

record userReq =
  uqId :: gostr
  uqUsername :: gostr
  uqEmail :: gostr
  uqPassword :: gostr
  uqPhone :: gostr
  uqStatus :: int

record userProto =
  upId :: gostr
  upUsername :: gostr
  upEmail :: gostr
  upPhone :: gostr
  upStatus :: int
  upCreatedAt :: int
  upRoleIds :: "gostr list"

subsection \<open>Validation\<close>

definition validateUsername :: "gostr \<Rightarrow> err + gostr" where
  "validateUsername username =
     (let username = trimSpace username in
      if username = [] then Inl (Err ''username is required'')
      else if length username < 3 \<or> length username > 64 then
        Inl (Err ''username length must be between 3 and 64'')
      else Inr username)"

text \<open>
  \<^verbatim>\<open>^[^\s@]+@[^\s@]+\.[^\s@]+$\<close>: \<^verbatim>\<open>\s\<close> is one of five ASCII characters, so
  the classes can be read byte by byte.
\<close>

definition spaceByte :: "char \<Rightarrow> bool" where
  "spaceByte c \<longleftrightarrow> of_char c \<in> {9, 10, 12, 13, 32 :: nat}"

definition dotInside :: "gostr \<Rightarrow> bool" where
  "dotInside d \<longleftrightarrow> (\<exists>i < length d. 0 < i \<and> Suc i < length d \<and> d ! i = CHR ''.'')"

definition emailPattern :: "gostr \<Rightarrow> bool" where
  "emailPattern s =
     (case splitOn CHR ''@'' s of
        [l, d] \<Rightarrow> l \<noteq> [] \<and> dotInside d \<and> list_all (\<lambda>c. \<not> spaceByte c) s
      | _ \<Rightarrow> False)"

definition validateEmail :: "gostr \<Rightarrow> err + gostr" where
  "validateEmail email =
     (let email = trimSpace email in
      if email = [] then Inl (Err ''email is required'')
      else if \<not> emailPattern email then Inl (Err ''email format is invalid'')
      else Inr email)"

definition validatePassword :: "gostr \<Rightarrow> bool \<Rightarrow> err + gostr" where
  "validatePassword password required =
     (let password = trimSpace password in
      if password = [] then
        (if required then Inl (Err ''password is required'') else Inr [])
      else if length password < 6 then Inl (Err ''password length must be at least 6'')
      else Inr password)"

definition normalizeStatus :: "int \<Rightarrow> int \<Rightarrow> err + int" where
  "normalizeStatus status fallback =
     (if status = 0 then Inr fallback
      else if status = UserStatusEnabled \<or> status = UserStatusDisabled then Inr status
      else Inl (Err ''status must be 1 (enabled) or 2 (disabled)''))"

definition minDuration :: "int \<Rightarrow> int \<Rightarrow> int" where
  "minDuration left right =
     (if left \<le> 0 then right
      else if right \<le> 0 \<or> left < right then left
      else right)"

definition wrapNotFoundError :: "err \<Rightarrow> err" where
  "wrapNotFoundError = wrapNotFound ''user not found''"

definition wrapDuplicateError :: "err \<Rightarrow> err" where
  "wrapDuplicateError = wrapDuplicate ''username or email already exists''"

subsection \<open>Conversions and the audit trail\<close>

definition modelUserToProto :: "user \<Rightarrow> gostr list \<Rightarrow> userProto" where
  "modelUserToProto u roleIDs =
     \<lparr>upId = usID u, upUsername = usUsername u, upEmail = usEmail u, upPhone = usPhone u,
      upStatus = toInt32 (usStatus u), upCreatedAt = usCreatedAt u, upRoleIds = roleIDs\<rparr>"

definition hasEnabledRoles :: "roleProto list \<Rightarrow> bool" where
  "hasEnabledRoles roles \<longleftrightarrow> (\<exists>r \<in> set roles. rpStatus r = toInt32 RoleStatusEnabled)"

definition roleIDsFromProto :: "roleProto list \<Rightarrow> gostr list" where
  "roleIDsFromProto roles =
     map rpId (filter (\<lambda>r. \<not> (rpId r = [] \<or> rpStatus r \<noteq> toInt32 RoleStatusEnabled)) roles)"

definition roleProtoOf :: "role \<Rightarrow> roleProto" where
  "roleProtoOf r =
     \<lparr>rpId = rlID r, rpName = rlName r, rpCode = rlCode r, rpStatus = toInt32 (rlStatus r),
      rpRemark = rlRemark r, rpSort = toInt32 (rlSort r), rpCreatedAt = rlCreatedAt r, rpMenuIds = []\<rparr>"

definition listUserRolesProto :: "gostr \<Rightarrow> roleProto list sysact" where
  "listUserRolesProto userID =
     bindA (Role_ListRolesByUser userID) (\<lambda>roles. retA (map roleProtoOf roles))"

definition modelUserWithRoles :: "user \<Rightarrow> userProto sysact" where
  "modelUserWithRoles u =
     bindA (Role_ListRoleIDsByUser (usID u)) (\<lambda>roleIDs. retA (modelUserToProto u roleIDs))"

definition userAuditJSON :: "user \<Rightarrow> audit sysact" where
  "userAuditJSON u =
     bindA (Role_ListRolesByUser (usID u)) (\<lambda>roles.
     retA (AuditUser
       \<lparr>uaUsername = usUsername u, uaEmail = usEmail u, uaPhone = usPhone u, uaStatus = usStatus u,
        uaRoles = map (\<lambda>r. (rlID r, rlName r, rlCode r)) roles\<rparr>))"

definition recordUserChange ::
  "bool \<Rightarrow> goctx \<Rightarrow> gostr \<Rightarrow> gostr \<Rightarrow> user \<Rightarrow> audit \<Rightarrow> audit \<Rightarrow> unit sysact" where
  "recordUserChange hasLog ctx action actionLabel u beforeData afterData =
     recordChange hasLog ctx OperationResourceUser action actionLabel (usID u) (usUsername u) beforeData afterData"

definition normalizeUserRoleIDs :: "gostr list \<Rightarrow> gostr list sysact" where
  "normalizeUserRoleIDs roleIDs = normalizeExisting Role_Get (\<lambda>i. ''role not found: '' @ i) [] roleIDs"

subsection \<open>Accounts\<close>

definition ListUsers :: "userProto list sysact" where
  "ListUsers =
     bindA User_List (\<lambda>users.
     bindA (Role_ListRoleIDsByUsers (map usID users)) (\<lambda>roleMap.
     retA (map (\<lambda>u. modelUserToProto u (roleMap (usID u))) users)))"

definition CreateUser :: "authEnv \<Rightarrow> goctx \<Rightarrow> userReq \<Rightarrow> userProto sysact" where
  "CreateUser env ctx req =
     bindA (liftA (validateUsername (uqUsername req))) (\<lambda>username.
     bindA (liftA (validateEmail (uqEmail req))) (\<lambda>email.
     bindA (liftA (validatePassword (uqPassword req) True)) (\<lambda>password.
     bindA (liftA (normalizeStatus (uqStatus req) UserStatusEnabled)) (\<lambda>status.
     bindA (drawA (\<lambda>n. aeBcrypt env n password)) (\<lambda>generated.
     bindA (liftA generated) (\<lambda>hash.
     bindA nowA (\<lambda>now.
     bindA newUUID (\<lambda>i.
     let u = \<lparr>usID = i, usUsername = username, usEmail = email, usPhone = trimSpace (uqPhone req),
              usPasswordHash = hash, usStatus = status, usCreatedAt = now, usUpdatedAt = now\<rparr> in
     bindA (userAuditJSON u) (\<lambda>afterData.
     bindA (wrapErrA wrapDuplicateError (transactionA (
       bindA (User_Create u) (\<lambda>_.
       recordUserChange (aeLog env) ctx ''user.create'' (utf8 [229, 136, 155, 229, 187, 186, 230, 136, 144, 229, 145, 152]) u AuditNone afterData)))) (\<lambda>_.
     retA (modelUserToProto u [])))))))))))"

definition UpdateUser :: "authEnv \<Rightarrow> goctx \<Rightarrow> userReq \<Rightarrow> userProto sysact" where
  "UpdateUser env ctx req =
     (let i = trimSpace (uqId req) in
      if i = [] then failA (Err ''id is required'')
      else
      bindA (wrapErrA wrapNotFoundError (User_Get i)) (\<lambda>old.
      bindA (userAuditJSON old) (\<lambda>beforeData.
      bindA (liftA (validateUsername (uqUsername req))) (\<lambda>username.
      bindA (liftA (validateEmail (uqEmail req))) (\<lambda>email.
      bindA (liftA (normalizeStatus (uqStatus req) (usStatus old))) (\<lambda>status.
      bindA nowA (\<lambda>now.
      let password = trimSpace (uqPassword req) in
      bindA (if password \<noteq> [] then
               bindA (liftA (validatePassword password True)) (\<lambda>validated.
               bindA (drawA (\<lambda>n. aeBcrypt env n validated)) liftA)
             else retA (usPasswordHash old)) (\<lambda>hash.
      let u = old\<lparr>usUsername := username, usEmail := email, usPhone := trimSpace (uqPhone req),
                  usPasswordHash := hash, usStatus := status, usUpdatedAt := now\<rparr> in
      bindA (userAuditJSON u) (\<lambda>afterData.
      bindA (wrapErrA wrapDuplicateError (transactionA (
        bindA (User_Update u) (\<lambda>_.
        recordUserChange (aeLog env) ctx ''user.update'' (utf8 [230, 155, 180, 230, 150, 176, 230, 136, 144, 229, 145, 152]) u beforeData afterData)))) (\<lambda>_.
      modelUserWithRoles u))))))))))"

definition DeleteUser :: "authEnv \<Rightarrow> goctx \<Rightarrow> gostr \<Rightarrow> unit sysact" where
  "DeleteUser env ctx reqID =
     (let i = trimSpace reqID in
      if i = [] then failA (Err ''id is required'')
      else
      bindA (wrapErrA wrapNotFoundError (User_Get i)) (\<lambda>u.
      bindA (userAuditJSON u) (\<lambda>beforeData.
      wrapErrA wrapNotFoundError (transactionA (
        bindA (User_Delete i) (\<lambda>_.
        recordUserChange (aeLog env) ctx ''user.delete'' (utf8 [229, 136, 160, 233, 153, 164, 230, 136, 144, 229, 145, 152]) u beforeData AuditNone))))))"

definition setUserStatus :: "authEnv \<Rightarrow> goctx \<Rightarrow> gostr \<Rightarrow> int \<Rightarrow> userProto sysact" where
  "setUserStatus env ctx reqID status =
     (let i = trimSpace reqID in
      if i = [] then failA (Err ''id is required'')
      else
      bindA (wrapErrA wrapNotFoundError (User_Get i)) (\<lambda>old.
      bindA (userAuditJSON old) (\<lambda>beforeData.
      bindA nowA (\<lambda>now.
      let u = old\<lparr>usStatus := status, usUpdatedAt := now\<rparr> in
      bindA (userAuditJSON u) (\<lambda>afterData.
      let (action, actionLabel) =
            (if status = UserStatusDisabled then (''user.disable'', (utf8 [231, 166, 129, 231, 148, 168, 230, 136, 144, 229, 145, 152]))
             else (''user.enable'', (utf8 [229, 144, 175, 231, 148, 168, 230, 136, 144, 229, 145, 152]))) in
      bindA (wrapErrA wrapNotFoundError (transactionA (
        bindA (User_UpdateStatus i status (usUpdatedAt u)) (\<lambda>_.
        recordUserChange (aeLog env) ctx action actionLabel u beforeData afterData)))) (\<lambda>_.
      modelUserWithRoles u))))))"

definition EnableUser :: "authEnv \<Rightarrow> goctx \<Rightarrow> gostr \<Rightarrow> userProto sysact" where
  "EnableUser env ctx reqID = setUserStatus env ctx reqID UserStatusEnabled"

definition DisableUser :: "authEnv \<Rightarrow> goctx \<Rightarrow> gostr \<Rightarrow> userProto sysact" where
  "DisableUser env ctx reqID = setUserStatus env ctx reqID UserStatusDisabled"

definition GetUserRoles :: "gostr \<Rightarrow> (gostr list \<times> roleProto list) sysact" where
  "GetUserRoles reqID =
     (let userID = trimSpace reqID in
      if userID = [] then failA (Err ''userId is required'')
      else
      bindA (wrapErrA wrapNotFoundError (User_Get userID)) (\<lambda>_.
      bindA (Role_ListRoleIDsByUser userID) (\<lambda>roleIDs.
      bindA (listUserRolesProto userID) (\<lambda>roles.
      retA (roleIDs, roles)))))"

definition SetUserRoles :: "authEnv \<Rightarrow> goctx \<Rightarrow> gostr \<Rightarrow> gostr list \<Rightarrow> gostr list sysact" where
  "SetUserRoles env ctx reqID reqRoleIDs =
     (let userID = trimSpace reqID in
      if userID = [] then failA (Err ''userId is required'')
      else
      bindA (wrapErrA wrapNotFoundError (User_Get userID)) (\<lambda>u.
      bindA (userAuditJSON u) (\<lambda>beforeData.
      bindA (normalizeUserRoleIDs reqRoleIDs) (\<lambda>roleIDs.
      bindA (transactionA (
        bindA nowA (\<lambda>now.
        bindA (Role_SetUserRoles userID roleIDs now) (\<lambda>_.
        bindA (userAuditJSON u) (\<lambda>afterData.
        recordUserChange (aeLog env) ctx ''user.role.update'' (utf8 [230, 155, 180, 230, 150, 176, 230, 136, 144, 229, 145, 152, 232, 167, 146, 232, 137, 178]) u beforeData afterData))))) (\<lambda>_.
      retA roleIDs)))))"

subsection \<open>Login and tokens\<close>

record authResult =
  arUser :: userProto
  arRoles :: "roleProto list"
  arAccessToken :: gostr
  arRefreshToken :: gostr
  arAccessExpiresIn :: int
  arRefreshExpiresIn :: int

definition tokenStoreUnavailable :: err where
  "tokenStoreUnavailable = Err ''auth token store is unavailable''"

definition noRoles :: err where
  "noRoles = Err (utf8 [231, 148, 168, 230, 136, 183, 230, 156, 170, 229, 136, 134, 233, 133, 141, 232, 167, 146, 232, 137, 178, 239, 188, 140, 232, 175, 183, 232, 129, 148, 231, 179, 187, 231, 174, 161, 231, 144, 134, 229, 145, 152])"

definition signA :: "authEnv \<Rightarrow> authUser \<Rightarrow> gostr \<Rightarrow> int \<Rightarrow> (gostr \<times> gostr) authact" where
  "signA env usr sessionID ttl =
     bindA (drawA (aeRandom env)) (\<lambda>rnd.
     bindA timeNowA (\<lambda>now.
     liftA (SignAccessToken (aeSign env) rnd now (aeSecret env) usr sessionID ttl)))"

definition opaqueA :: "authEnv \<Rightarrow> int \<Rightarrow> gostr authact" where
  "opaqueA env n = bindA (drawA (aeRandom env)) (\<lambda>rnd. liftA (NewOpaqueToken rnd n))"

definition resultOf ::
  "user \<Rightarrow> roleProto list \<Rightarrow> gostr \<Rightarrow> gostr \<Rightarrow> int \<Rightarrow> int \<Rightarrow> authResult" where
  "resultOf u roles accessToken refreshToken accessTTL refreshTTL =
     \<lparr>arUser = modelUserToProto u (roleIDsFromProto roles), arRoles = roles,
      arAccessToken = accessToken, arRefreshToken = refreshToken,
      arAccessExpiresIn = TokenTTLSeconds accessTTL, arRefreshExpiresIn = TokenTTLSeconds refreshTTL\<rparr>"

definition issueNewSessionTokens :: "authEnv \<Rightarrow> user \<Rightarrow> roleProto list \<Rightarrow> authResult authact" where
  "issueNewSessionTokens env u roles =
     (if \<not> aeStore env then failA tokenStoreUnavailable
      else
        let refreshTTL = aeRefreshTTL env in
        if refreshTTL \<le> 0 then failA (Err ''refresh token ttl must be positive'')
        else
          bindA newUUID (\<lambda>sessionID.
          let accessTTL = minDuration (aeAccessTTL env) refreshTTL in
          bindA (signA env \<lparr>auID = usID u, auUsername = usUsername u, auRoleIDs = []\<rparr> sessionID accessTTL)
            (\<lambda>(accessToken, accessJTI).
          bindA (opaqueA env 32) (\<lambda>refreshToken.
          bindA timeNowA (\<lambda>now.
          bindA (CreateSession env
                   \<lparr>asID = sessionID, asUserID = usID u, asUsername = usUsername u,
                    asExpiresAt = (now + refreshTTL) div nanosPerSecond\<rparr>
                   accessJTI refreshToken accessTTL refreshTTL) (\<lambda>_.
          retA (resultOf u roles accessToken refreshToken accessTTL refreshTTL)))))))"

definition issueRotatedTokens ::
  "authEnv \<Rightarrow> user \<Rightarrow> roleProto list \<Rightarrow> gostr \<Rightarrow> int \<Rightarrow> authResult authact" where
  "issueRotatedTokens env u roles sessionID refreshTTL =
     (if \<not> aeStore env then failA tokenStoreUnavailable
      else if refreshTTL \<le> 0 then failA (Err ''refresh token ttl must be positive'')
      else
        let accessTTL = minDuration (aeAccessTTL env) refreshTTL in
        bindA (signA env \<lparr>auID = usID u, auUsername = usUsername u, auRoleIDs = []\<rparr> sessionID accessTTL)
          (\<lambda>(accessToken, accessJTI).
        bindA (opaqueA env 32) (\<lambda>refreshToken.
        bindA (SaveRotatedTokens env sessionID accessJTI refreshToken accessTTL refreshTTL) (\<lambda>_.
        retA (resultOf u roles accessToken refreshToken accessTTL refreshTTL)))))"

definition Login :: "authEnv \<Rightarrow> gostr \<Rightarrow> gostr \<Rightarrow> authResult authact" where
  "Login env reqUsername reqPassword =
     bindA (liftA (validateUsername reqUsername)) (\<lambda>username.
     bindA (liftA (validatePassword reqPassword True)) (\<lambda>password.
     bindA (wrapErrA (wrapNotFound ''invalid username or password'') (onSys (User_GetByUsername username))) (\<lambda>u.
     if usStatus u \<noteq> UserStatusEnabled then failA (Err ''user is disabled'')
     else if \<not> aeCompare env (usPasswordHash u) password then
       failA (Err ''invalid username or password'')
     else
       bindA (onSys (listUserRolesProto (usID u))) (\<lambda>roles.
       if \<not> hasEnabledRoles roles then failA noRoles
       else issueNewSessionTokens env u roles))))"

text \<open>\<^verbatim>\<open>time.Until\<close> saturates at the bounds of a duration.\<close>

definition clampInt64 :: "int \<Rightarrow> int" where
  "clampInt64 x = max (- (2 ^ 63)) (min (2 ^ 63 - 1) x)"

definition badRefresh :: err where
  "badRefresh = Err ''invalid or expired refresh token''"

text \<open>The account behind a session: enabled and with an enabled role.\<close>

definition sessionUser :: "gostr \<Rightarrow> (user \<times> roleProto list) authact" where
  "sessionUser userID =
     bindA (wrapErrA wrapNotFoundError (onSys (User_Get userID))) (\<lambda>u.
     if usStatus u \<noteq> UserStatusEnabled then failA (Err ''user is disabled'')
     else
       bindA (onSys (listUserRolesProto (usID u))) (\<lambda>roles.
       if \<not> hasEnabledRoles roles then failA noRoles
       else retA (u, roles)))"

definition RefreshToken :: "authEnv \<Rightarrow> gostr \<Rightarrow> authResult authact" where
  "RefreshToken env reqToken =
     (if \<not> aeStore env then failA tokenStoreUnavailable
      else
        let refreshToken = trimSpace reqToken in
        if refreshToken = [] then failA (Err ''refresh token is required'')
        else
          bindA (wrapErrA (\<lambda>_. badRefresh) (ConsumeRefreshSessionID env refreshToken)) (\<lambda>sessionID.
          bindA (wrapErrA (\<lambda>_. badRefresh) (GetSession env sessionID)) (\<lambda>session.
          bindA (sessionUser (asUserID session)) (\<lambda>(u, roles).
          bindA timeNowA (\<lambda>now.
          let remaining = clampInt64 (asExpiresAt session * nanosPerSecond - now) in
          if remaining \<le> 0 then failA badRefresh
          else issueRotatedTokens env u roles sessionID remaining)))))"

definition Logout :: "authEnv \<Rightarrow> gostr \<Rightarrow> unit authact" where
  "Logout env reqToken =
     (if \<not> aeStore env then failA tokenStoreUnavailable
      else
        let refreshToken = trimSpace reqToken in
        if refreshToken = [] then retA ()
        else
          bindA (tryA (ConsumeRefreshSessionID env refreshToken)) (\<lambda>r.
          case r of Inl _ \<Rightarrow> retA () | Inr sessionID \<Rightarrow> RevokeSession env sessionID))"

definition ValidateToken :: "authEnv \<Rightarrow> gostr \<Rightarrow> (userProto \<times> roleProto list) authact" where
  "ValidateToken env token =
     (if \<not> aeStore env then failA tokenStoreUnavailable
      else
        bindA timeNowA (\<lambda>now.
        bindA (liftA (VerifyAccessToken (aeParse env now) (aeSecret env) token)) (\<lambda>c.
        bindA (wrapErrA (\<lambda>_. InvalidToken) (AccessSessionID env (cID c))) (\<lambda>sessionID.
        if cSessionID c = [] \<or> cSessionID c \<noteq> sessionID then failA InvalidToken
        else
          bindA (wrapErrA (\<lambda>_. ExpiredToken) (GetSession env sessionID)) (\<lambda>session.
          bindA (sessionUser (asUserID session)) (\<lambda>(u, roles).
          retA (modelUserToProto u (roleIDsFromProto roles), roles)))))))"

end
