(* ===== verification/User_Claims.thy ===== *)
theory User_Claims
  imports User_Logic
begin

text \<open>
  What the account and token handlers guarantee: they keep the invariant of the tables, they
  change exactly what they announce, and a token is worth what the tables and the token store
  say at the time of the call.
\<close>

subsection \<open>What the handlers keep\<close>

lemma recordUserChange_ok [sys_keeps]: "preserves sys_ok (recordUserChange b ctx a al u x y)"
  unfolding recordUserChange_def by (rule recordChange_ok)

lemma readonly_userAudit [act_frame, simp]: "readonly (userAuditJSON u)"
  unfolding userAuditJSON_def by (simp add: readonly_bind)

lemma readonly_listUserRoles [act_frame, simp]: "readonly (listUserRolesProto i)"
  unfolding listUserRolesProto_def by (simp add: readonly_bind)

lemma readonly_modelUser [act_frame, simp]: "readonly (modelUserWithRoles u)"
  unfolding modelUserWithRoles_def by (simp add: readonly_bind)

lemma readonly_ListUsers [act_frame, simp]: "readonly ListUsers"
  unfolding ListUsers_def by (simp add: readonly_bind)

lemma readonly_GetUserRoles [act_frame, simp]: "readonly (GetUserRoles i)"
  unfolding GetUserRoles_def Let_def by (simp add: readonly_bind readonly_wrap)

lemma readonly_normalizeUserRoleIDs [act_frame, simp]: "readonly (normalizeUserRoleIDs xs)"
  unfolding normalizeUserRoleIDs_def by (rule readonly_normalizeExisting) simp

lemma User_Get_Inr: "User_Get i w = (Inr u, w') \<Longrightarrow> u \<in> set (sysUsers (db w)) \<and> usID u = i \<and> db w' = db w"
  unfolding User_Get_def by (auto simp: queryA_Inr_iff dest: firstRow_Inr)

lemma User_Get_in: "User_Get i w = (Inr u, w') \<Longrightarrow> i \<in> usID ` set (sysUsers (db w'))"
  using User_Get_Inr [of i w u w'] by (metis image_eqI)

lemma normalizeUserRoleIDs_Inr:
  "normalizeUserRoleIDs xs w = (Inr ys, w') \<Longrightarrow>
   ys = dedupTrim [] xs \<and> set ys \<subseteq> rlID ` set (sysRoles (db w)) \<and> db w' = db w"
proof -
  assume run: "normalizeUserRoleIDs xs w = (Inr ys, w')"
  have "i \<in> rlID ` set (sysRoles (db v)) \<and> db v' = db v" if "Role_Get i v = (Inr x, v')" for i v x v'
    using Role_Get_Inr [OF that] by (metis image_eqI)
  then have "ys = dedupTrim [] xs \<and> set ys \<subseteq> rlID ` set (sysRoles (db w))"
    by (intro normalizeExisting_Inr [where ids = "\<lambda>d. rlID ` set (sysRoles d)", OF run [unfolded normalizeUserRoleIDs_def]])
      simp_all
  then show ?thesis using readonlyD [OF readonly_normalizeUserRoleIDs run] by blast
qed

lemma CreateUser_ok [sys_keeps]: "preserves sys_ok (CreateUser env ctx q)"
  unfolding CreateUser_def Let_def
  apply ((rule triple_bind_readonly, simp, assumption), (rule triple_bind_readonly, simp, assumption),
    (rule triple_bind_readonly, simp, assumption), (rule triple_bind_readonly, simp, assumption),
    (rule triple_bind_readonly, simp, assumption), (rule triple_bind_readonly, simp, assumption),
    (rule triple_bind_readonly, simp, assumption))
  apply (rule triple_bind_uuid)
  apply (rule triple_bind_readonly, simp, simp)
  apply (rule triple_bind [where R = "\<lambda>_. sys_ok"])
   apply (rule loggedChange_ok)
     apply (rule triple_post [where Q = "\<lambda>_. sys_ok" and E = "\<lambda>_. sys_ok"])
       apply (simp only: User_Create_def, rule triple_stmt)
        apply (auto simp: insertUser_def sys_ok_defs split: if_splits)[2]
      apply simp
     apply simp
    apply simp
   apply (rule sys_keeps)
  apply (rule triple_ret, assumption)
  done

lemma readonly_newHash: "readonly (if b then bindA (liftA v) (\<lambda>x. bindA (drawA (f x)) liftA) else retA h)"
  by (auto intro!: readonly_bind)

lemma UpdateUser_ok [sys_keeps]: "preserves sys_ok (UpdateUser env ctx q)"
  unfolding UpdateUser_def Let_def
  apply (rule triple_if, rule triple_fail, assumption)
  apply (rule triple_bind_readonly, simp add: readonly_wrap readonly_newHash, assumption)+
  apply (rule triple_bind [where R = "\<lambda>_. sys_ok"])
   apply (rule loggedChange_ok, rule triple_weaken, rule sys_keeps, assumption, rule sys_keeps)
  apply (rule triple_readonly, simp, assumption)
  done

lemma DeleteUser_ok [sys_keeps]: "preserves sys_ok (DeleteUser env ctx i)"
  unfolding DeleteUser_def Let_def
  apply (rule triple_if, rule triple_fail, assumption)
  apply (rule triple_bind_readonly, simp add: readonly_wrap, assumption)+
  apply (rule loggedChange_ok, rule triple_weaken, rule sys_keeps, assumption, rule sys_keeps)
  done

lemma setUserStatus_ok [sys_keeps]: "preserves sys_ok (setUserStatus env ctx i s)"
  unfolding setUserStatus_def Let_def case_prod_beta
  apply (rule triple_if, rule triple_fail, assumption)
  apply (rule triple_bind_readonly, simp add: readonly_wrap, assumption)+
  apply (rule triple_bind [where R = "\<lambda>_. sys_ok"])
   apply (rule loggedChange_ok, rule triple_weaken, rule sys_keeps, assumption, rule sys_keeps)
  apply (rule triple_readonly, simp, assumption)
  done

lemma SetUserRoles_ok [sys_keeps]: "preserves sys_ok (SetUserRoles env ctx i xs)"
  unfolding SetUserRoles_def Let_def
proof (rule triple_if, rule triple_fail, assumption, rule triple_bind)
  let ?i = "trimSpace i"
  show "triple sys_ok (wrapErrA wrapNotFoundError (User_Get ?i))
      (\<lambda>r d. sys_ok d \<and> ?i \<in> usID ` set (sysUsers d)) (\<lambda>_. sys_ok)"
    by (rule triple_readonly_fact) (simp_all add: readonly_wrap User_Get_in)
next
  fix u
  let ?i = "trimSpace i"
  let ?tx = "\<lambda>x roleIDs. bindA (transactionA (
        bindA nowA (\<lambda>now.
        bindA (Role_SetUserRoles ?i roleIDs now) (\<lambda>_.
        bindA (userAuditJSON u) (\<lambda>afterData.
        recordUserChange (aeLog env) ctx ''user.role.update'' (utf8 [230, 155, 180, 230, 150, 176, 230, 136, 144, 229, 145, 152, 232, 167, 146, 232, 137, 178]) u x afterData))))) (\<lambda>_.
      retA roleIDs)"
  show "triple (\<lambda>d. sys_ok d \<and> ?i \<in> usID ` set (sysUsers d))
      (bindA (userAuditJSON u) (\<lambda>x. bindA (normalizeUserRoleIDs xs) (?tx x))) (\<lambda>_. sys_ok) (\<lambda>_. sys_ok)"
  proof (rule triple_bind_readonly)
    fix x
    show "triple (\<lambda>d. sys_ok d \<and> ?i \<in> usID ` set (sysUsers d))
      (bindA (normalizeUserRoleIDs xs) (?tx x)) (\<lambda>_. sys_ok) (\<lambda>_. sys_ok)"
    proof (rule triple_bind)
      show "triple (\<lambda>d. sys_ok d \<and> ?i \<in> usID ` set (sysUsers d)) (normalizeUserRoleIDs xs)
         (\<lambda>ys d. (sys_ok d \<and> ?i \<in> usID ` set (sysUsers d)) \<and> set ys \<subseteq> rlID ` set (sysRoles d)) (\<lambda>_. sys_ok)"
        by (rule triple_readonly_fact) (auto dest!: normalizeUserRoleIDs_Inr)
    next
      fix ys
      show "triple (\<lambda>d. (sys_ok d \<and> ?i \<in> usID ` set (sysUsers d)) \<and> set ys \<subseteq> rlID ` set (sysRoles d)) (?tx x ys)
        (\<lambda>_. sys_ok) (\<lambda>_. sys_ok)"
        apply (rule triple_bind [where R = "\<lambda>_. sys_ok"])
         apply (rule triple_transaction)
          apply (rule triple_bind_readonly, simp, simp)
          apply (rule triple_bind [where R = "\<lambda>_. sys_ok"])
           apply (rule triple_post [OF triple_pre [OF Role_SetUserRoles_ok]], simp, simp, simp)
          apply (rule triple_bind_readonly, simp, simp)
          apply (rule triple_weaken, rule sys_keeps)
         apply simp
        apply (rule triple_ret, assumption)
        done
    qed
  qed auto
qed

subsection \<open>All or nothing\<close>

lemma atomic_CreateUser: "atomicA (CreateUser env ctx q)"
  unfolding CreateUser_def Let_def
  by (simp add: atomicA_bind_readonly atomicA_bind_ret atomicA_wrap)

lemma atomic_DeleteUser: "atomicA (DeleteUser env ctx i)"
  unfolding DeleteUser_def Let_def
  by (simp add: atomicA_bind_readonly atomicA_wrap atomicA_readonly readonly_wrap)

lemma atomic_SetUserRoles: "atomicA (SetUserRoles env ctx i xs)"
  unfolding SetUserRoles_def Let_def
  by (simp add: atomicA_bind_readonly atomicA_bind_ret atomicA_readonly readonly_wrap)

lemma userAudit_db: "userAuditJSON u w = (x, w') \<Longrightarrow> db w' = db w"
  by (rule readonlyD [OF readonly_userAudit])

subsection \<open>Effects on the tables\<close>

lemma Role_SetUserRoles_Inr:
  assumes "Role_SetUserRoles i ys t w = (Inr u, w')"
  shows "db w' = (db w)\<lparr>sysUserRoles := filter (\<lambda>g. urUserID g \<noteq> i) (sysUserRoles (db w)) @
     map (\<lambda>r. \<lparr>urUserID = i, urRoleID = r, urCreatedAt = t\<rparr>) ys\<rparr>"
  using assms unfolding Role_SetUserRoles_def
  by (auto simp: transactionA_Inr_iff bindA_Inr_iff stmtA_Inr_iff insertUserRoles_def split: if_splits)

lemma idRequired: "(if trimSpace i = [] then failA e else m) w = (Inr x, w') \<Longrightarrow> trimSpace i \<noteq> [] \<and> m w = (Inr x, w')"
  by (auto split: if_splits)

lemma SetUserRoles_Inr:
  assumes "SetUserRoles env ctx reqID xs w = (Inr ys, w')" and "aeLog env"
  shows "\<exists>u j t t' before after. u \<in> set (sysUsers (db w)) \<and> usID u = trimSpace reqID \<and>
    ys = dedupTrim [] xs \<and> set ys \<subseteq> rlID ` set (sysRoles (db w)) \<and>
    db w' = (db w)\<lparr>sysUserRoles := filter (\<lambda>g. urUserID g \<noteq> usID u) (sysUserRoles (db w)) @
        map (\<lambda>r. \<lparr>urUserID = usID u, urRoleID = r, urCreatedAt = t\<rparr>) ys,
      sysLogs := sysLogs (db w) @ [logRow j t' ctx ''user'' ''user.role.update'' (utf8 [230, 155, 180, 230, 150, 176, 230, 136, 144, 229, 145, 152, 232, 167, 146, 232, 137, 178]) (usID u) (usUsername u) before after]\<rparr>"
proof -
  let ?i = "trimSpace reqID"
  from assms(1) obtain u w1 b w2 w3 x w4 where 1: "User_Get ?i w = (Inr u, w1)" and 2: "userAuditJSON u w1 = (Inr b, w2)"
    and 3: "normalizeUserRoleIDs xs w2 = (Inr ys, w3)"
    and tx: "transactionA (bindA nowA (\<lambda>now. bindA (Role_SetUserRoles ?i ys now) (\<lambda>_.
        bindA (userAuditJSON u) (\<lambda>afterData.
        recordUserChange (aeLog env) ctx ''user.role.update'' (utf8 [230, 155, 180, 230, 150, 176, 230, 136, 144, 229, 145, 152, 232, 167, 146, 232, 137, 178]) u b afterData)))) w3 = (Inr x, w4)"
    and w': "w' = w4"
    unfolding SetUserRoles_def Let_def
    apply (drule_tac idRequired)
    apply (elim conjE bindA_InrE)
    apply (simp only: wrapErrA_Inr_iff retA_iff sum.inject)
    done
  have u: "u \<in> set (sysUsers (db w))" "usID u = ?i" and db1: "db w1 = db w" using User_Get_Inr [OF 1] by blast+
  have db2: "db w2 = db w" using userAudit_db [OF 2] db1 by simp
  have ys: "ys = dedupTrim [] xs" "set ys \<subseteq> rlID ` set (sysRoles (db w))" and db3: "db w3 = db w"
    using normalizeUserRoleIDs_Inr [OF 3] db2 by auto
  from tx obtain v0 t v1 u1 v2 a v3 where
    4: "Role_SetUserRoles ?i ys t v0 = (Inr u1, v1)" "db v0 = db w3" and 5: "userAuditJSON u v1 = (Inr a, v2)"
    and 6: "recordUserChange True ctx ''user.role.update'' (utf8 [230, 155, 180, 230, 150, 176, 230, 136, 144, 229, 145, 152, 232, 167, 146, 232, 137, 178]) u b a v2 = (Inr x, v3)" and 7: "db w4 = db v3"
    using assms(2) by (auto simp: transactionA_Inr_iff bindA_Inr_iff nowA_iff)
  have "db v1 = (db w)\<lparr>sysUserRoles := filter (\<lambda>g. urUserID g \<noteq> ?i) (sysUserRoles (db w)) @
     map (\<lambda>r. \<lparr>urUserID = ?i, urRoleID = r, urCreatedAt = t\<rparr>) ys\<rparr>"
    using Role_SetUserRoles_Inr [OF 4(1)] 4(2) db3 by simp
  moreover have "db v2 = db v1" using userAudit_db [OF 5] .
  ultimately show ?thesis
    using u ys recordChange_Inr [OF 6 [unfolded recordUserChange_def OperationResourceUser_def]] 7 w'
    by (intro exI [of _ u] exI) auto
qed

lemma User_Delete_Inr:
  assumes "User_Delete i w = (Inr u, w')"
  shows "db w' = (db w)\<lparr>sysUsers := filter (\<lambda>r. usID r \<noteq> i) (sysUsers (db w)),
      sysUserRoles := filter (\<lambda>u. urUserID u \<noteq> i) (sysUserRoles (db w))\<rparr>"
  using assms unfolding User_Delete_def
  by (auto simp: transactionA_Inr_iff bindA_Inr_iff stmtA_Inr_iff deleteUserRow_def split: if_splits)

lemma DeleteUser_Inr:
  assumes "DeleteUser env ctx reqID w = (Inr x, w')" and "aeLog env"
  shows "\<exists>u j t before. u \<in> set (sysUsers (db w)) \<and> usID u = trimSpace reqID \<and>
    db w' = (db w)\<lparr>sysUsers := filter (\<lambda>s. usID s \<noteq> usID u) (sysUsers (db w)),
      sysUserRoles := filter (\<lambda>g. urUserID g \<noteq> usID u) (sysUserRoles (db w)),
      sysLogs := sysLogs (db w) @ [logRow j t ctx ''user'' ''user.delete'' (utf8 [229, 136, 160, 233, 153, 164, 230, 136, 144, 229, 145, 152]) (usID u) (usUsername u) before AuditNone]\<rparr>"
proof -
  let ?i = "trimSpace reqID"
  from assms(1) obtain u w1 b w2 where 1: "User_Get ?i w = (Inr u, w1)" and 2: "userAuditJSON u w1 = (Inr b, w2)"
    and tx: "transactionA (bindA (User_Delete ?i) (\<lambda>_.
        recordUserChange (aeLog env) ctx ''user.delete'' (utf8 [229, 136, 160, 233, 153, 164, 230, 136, 144, 229, 145, 152]) u b AuditNone)) w2 = (Inr x, w')"
    unfolding DeleteUser_def Let_def
    apply (drule_tac idRequired)
    apply (elim conjE bindA_InrE)
    apply (simp only: wrapErrA_Inr_iff)
    done
  have u: "u \<in> set (sysUsers (db w))" "usID u = ?i" and db1: "db w1 = db w" using User_Get_Inr [OF 1] by blast+
  have db2: "db w2 = db w" using userAudit_db [OF 2] db1 by simp
  from tx obtain y v1 v2 where del: "User_Delete ?i (nextTick w2) = (Inr y, v1)"
    and log: "recordUserChange (aeLog env) ctx ''user.delete'' (utf8 [229, 136, 160, 233, 153, 164, 230, 136, 144, 229, 145, 152]) u b AuditNone v1 = (Inr x, v2)"
    and w': "db w' = db v2" by (rule loggedTx_Inr)
  show ?thesis
    using User_Delete_Inr [OF del] db2 u w' assms(2)
      recordChange_Inr [OF log [unfolded recordUserChange_def OperationResourceUser_def, simplified assms(2)]]
    by (intro exI [of _ u] exI) auto
qed

text \<open>The row \<^verbatim>\<open>CreateUser\<close> stores for a request.\<close>

definition newUserFor :: "authEnv \<Rightarrow> userReq \<Rightarrow> user \<Rightarrow> bool" where
  "newUserFor env req u \<longleftrightarrow>
     validateUsername (uqUsername req) = Inr (usUsername u) \<and>
     validateEmail (uqEmail req) = Inr (usEmail u) \<and>
     usPhone u = trimSpace (uqPhone req) \<and>
     normalizeStatus (uqStatus req) UserStatusEnabled = Inr (usStatus u) \<and>
     (\<exists>p n. validatePassword (uqPassword req) True = Inr p \<and> aeBcrypt env n p = Inr (usPasswordHash u)) \<and>
     usUpdatedAt u = usCreatedAt u"

lemma User_Create_Inr:
  assumes "User_Create u w = (Inr x, w')" and "usStatus u \<noteq> 0"
  shows "db w' = (db w)\<lparr>sysUsers := sysUsers (db w) @ [u]\<rparr> \<and> usID u \<notin> usID ` set (sysUsers (db w)) \<and>
    usUsername u \<notin> usUsername ` set (sysUsers (db w)) \<and> usEmail u \<notin> usEmail ` set (sysUsers (db w))"
  using assms unfolding User_Create_def by (auto simp: stmtA_Inr_iff insertUser_def split: if_splits)

lemma normalizeStatus_nonzero: "normalizeStatus s UserStatusEnabled = Inr r \<Longrightarrow> r \<noteq> 0"
  by (auto simp: normalizeStatus_def UserStatusEnabled_def UserStatusDisabled_def split: if_splits)

lemma CreateUser_Inr:
  assumes "CreateUser env ctx req w = (Inr x, w')" and "aeLog env"
  shows "\<exists>u j t after. newUserFor env req u \<and> x = modelUserToProto u [] \<and>
    usID u \<notin> usID ` set (sysUsers (db w)) \<and> usUsername u \<notin> usUsername ` set (sysUsers (db w)) \<and>
    usEmail u \<notin> usEmail ` set (sysUsers (db w)) \<and>
    db w' = (db w)\<lparr>sysUsers := sysUsers (db w) @ [u],
      sysLogs := sysLogs (db w) @ [logRow j t ctx ''user'' ''user.create'' (utf8 [229, 136, 155, 229, 187, 186, 230, 136, 144, 229, 145, 152]) (usID u) (usUsername u) AuditNone after]\<rparr>"
proof -
  from assms(1) obtain name email pw st n hash now i a w1 w2 w3 y where
    1: "userAuditJSON \<lparr>usID = i, usUsername = name, usEmail = email,
        usPhone = trimSpace (uqPhone req), usPasswordHash = hash, usStatus = st, usCreatedAt = now, usUpdatedAt = now\<rparr> w1 = (Inr a, w2)"
    and tx: "transactionA (bindA (User_Create \<lparr>usID = i, usUsername = name, usEmail = email,
        usPhone = trimSpace (uqPhone req), usPasswordHash = hash, usStatus = st, usCreatedAt = now, usUpdatedAt = now\<rparr>) (\<lambda>_.
        recordUserChange (aeLog env) ctx ''user.create'' (utf8 [229, 136, 155, 229, 187, 186, 230, 136, 144, 229, 145, 152])
          \<lparr>usID = i, usUsername = name, usEmail = email,
        usPhone = trimSpace (uqPhone req), usPasswordHash = hash, usStatus = st, usCreatedAt = now, usUpdatedAt = now\<rparr> AuditNone a)) w2 = (Inr y, w3)"
    and x: "x = modelUserToProto \<lparr>usID = i, usUsername = name, usEmail = email,
        usPhone = trimSpace (uqPhone req), usPasswordHash = hash, usStatus = st, usCreatedAt = now, usUpdatedAt = now\<rparr> []" "w' = w3"
    and v: "validateUsername (uqUsername req) = Inr name" "validateEmail (uqEmail req) = Inr email"
      "validatePassword (uqPassword req) True = Inr pw" "normalizeStatus (uqStatus req) UserStatusEnabled = Inr st"
      "aeBcrypt env n pw = Inr hash"
    and db1: "db w1 = db w"
    unfolding CreateUser_def Let_def
    apply (elim bindA_InrE)
    apply (simp only: wrapErrA_Inr_iff liftA_iff drawA_iff nowA_iff newUUID_iff retA_iff sum.inject)
    apply (elim conjE)
    apply (rule that)
    apply (assumption | simp)+

    done
  let ?u = "\<lparr>usID = i, usUsername = name, usEmail = email,
        usPhone = trimSpace (uqPhone req), usPasswordHash = hash, usStatus = st, usCreatedAt = now, usUpdatedAt = now\<rparr>"
  have db2: "db w2 = db w" using userAudit_db [OF 1] db1 by simp
  from tx obtain z v1 v2 where ins: "User_Create ?u (nextTick w2) = (Inr z, v1)"
    and log: "recordUserChange (aeLog env) ctx ''user.create'' (utf8 [229, 136, 155, 229, 187, 186, 230, 136, 144, 229, 145, 152]) ?u AuditNone a v1 = (Inr y, v2)"
    and w': "db w3 = db v2" by (rule loggedTx_Inr)
  have "usStatus ?u \<noteq> 0" using normalizeStatus_nonzero [OF v(4)] by simp
  note ins' = User_Create_Inr [OF ins this]
  have "newUserFor env req ?u" using v by (auto simp: newUserFor_def)
  then show ?thesis
    using ins' db2 x w' assms(2)
      recordChange_Inr [OF log [unfolded recordUserChange_def OperationResourceUser_def, simplified assms(2)]]
    by (intro exI [of _ ?u] exI) auto
qed

subsection \<open>The e-mail pattern\<close>

lemma dotInside_iff: "dotInside d \<longleftrightarrow> (\<exists>a b. d = a @ CHR ''.'' # b \<and> a \<noteq> [] \<and> b \<noteq> [])"
proof
  assume "dotInside d"
  then obtain i where i: "i < length d" "0 < i" "Suc i < length d" "d ! i = CHR ''.''"
    by (auto simp: dotInside_def)
  then have "d = take i d @ CHR ''.'' # drop (Suc i) d" by (metis id_take_nth_drop)
  moreover have "take i d \<noteq> []" "drop (Suc i) d \<noteq> []" using i by auto
  ultimately show "\<exists>a b. d = a @ CHR ''.'' # b \<and> a \<noteq> [] \<and> b \<noteq> []" by blast
next
  assume "\<exists>a b. d = a @ CHR ''.'' # b \<and> a \<noteq> [] \<and> b \<noteq> []"
  then obtain a b where d: "d = a @ CHR ''.'' # b" "a \<noteq> []" "b \<noteq> []" by blast
  then show "dotInside d" unfolding dotInside_def
    by (intro exI [of _ "length a"]) (auto simp: nth_append)
qed

lemma splitOn_eq2: "splitOn c s = [l, d] \<longleftrightarrow> s = l @ c # d \<and> c \<notin> set l \<and> c \<notin> set d"
proof
  assume eq: "splitOn c s = [l, d]"
  then have "c \<notin> set l" "c \<notin> set d" using splitOn_no_sep [of _ c s] by auto
  moreover have "s = l @ c # d" using eq
  proof (induction s arbitrary: l)
    case Nil
    then show ?case by simp
  next
    case (Cons x s)
    show ?case
    proof (cases "x = c")
      case True
      then have "l = []" "splitOn c s = [d]" using Cons.prems by auto
      moreover have "splitOn c s = [d] \<Longrightarrow> s = d" for s d
      proof (induction s arbitrary: d)
        case (Cons y s)
        then show ?case by (cases "splitOn c s") (auto split: if_splits)
      qed simp
      ultimately show ?thesis using True by simp
    next
      case False
      then obtain y ys where "splitOn c s = y # ys" using splitOn_nonempty [of c s] by (cases "splitOn c s") auto
      then show ?thesis using Cons.IH [of y] Cons.prems False by auto
    qed
  qed
  ultimately show "s = l @ c # d \<and> c \<notin> set l \<and> c \<notin> set d" by blast
next
  assume "s = l @ c # d \<and> c \<notin> set l \<and> c \<notin> set d"
  then show "splitOn c s = [l, d]" by (simp add: splitOn_append splitOn_single)
qed

text \<open>The language of the regular expression, class by class.\<close>

definition emailPart :: "gostr \<Rightarrow> bool" where
  "emailPart s \<longleftrightarrow> s \<noteq> [] \<and> list_all (\<lambda>c. \<not> spaceByte c \<and> c \<noteq> CHR ''@'') s"

lemma special_bytes [simp]: "\<not> spaceByte CHR ''@''" "\<not> spaceByte CHR ''.''"
  by (simp_all add: spaceByte_def)

lemma emailPattern_parts:
  "emailPattern s \<longleftrightarrow> (\<exists>a b c. s = a @ ''@'' @ b @ ''.'' @ c \<and> emailPart a \<and> emailPart b \<and> emailPart c)"
proof
  assume "emailPattern s"
  then obtain l d where sp: "splitOn CHR ''@'' s = [l, d]" and l: "l \<noteq> []" "dotInside d" "list_all (\<lambda>c. \<not> spaceByte c) s"
    by (auto simp: emailPattern_def split: list.splits)
  from l(2) obtain b c where "d = b @ CHR ''.'' # c" "b \<noteq> []" "c \<noteq> []" by (auto simp: dotInside_iff)
  moreover have "s = l @ CHR ''@'' # d" "CHR ''@'' \<notin> set l" "CHR ''@'' \<notin> set d"
    using sp by (simp_all add: splitOn_eq2)
  ultimately show "\<exists>a b c. s = a @ ''@'' @ b @ ''.'' @ c \<and> emailPart a \<and> emailPart b \<and> emailPart c"
    using l by (intro exI [of _ l] exI [of _ b] exI [of _ c]) (auto simp: emailPart_def list_all_iff)
next
  assume "\<exists>a b c. s = a @ ''@'' @ b @ ''.'' @ c \<and> emailPart a \<and> emailPart b \<and> emailPart c"
  then obtain a b c where s: "s = a @ ''@'' @ b @ ''.'' @ c" and p: "emailPart a" "emailPart b" "emailPart c" by blast
  have "splitOn CHR ''@'' s = [a, b @ ''.'' @ c]"
    unfolding splitOn_eq2 using s p by (auto simp: emailPart_def list_all_iff)
  moreover have "dotInside (b @ ''.'' @ c)" using p by (auto simp: dotInside_iff emailPart_def)
  ultimately show "emailPattern s" using s p by (auto simp: emailPattern_def emailPart_def list_all_iff)
qed

lemma logOn: "aeLog (env\<lparr>aeLog := True\<rparr>)"
  by simp

subsection \<open>Properties\<close>

text \<open>
   \<^verbatim>\<open>CreateUser\<close>: either an error and no table has changed; or exactly one account is
  added, with the validated name, address and status and a bcrypt hash of the trimmed password,
  its identifier, name and address new, and one log row with it.
\<close>

theorem CreateUser_effect:
  "effectA (CreateUser (env\<lparr>aeLog := True\<rparr>) ctx req)
     (\<lambda>d x d'. \<exists>u j t after. newUserFor env req u \<and> x = modelUserToProto u [] \<and>
        usID u \<notin> usID ` set (sysUsers d) \<and> usUsername u \<notin> usUsername ` set (sysUsers d) \<and>
        usEmail u \<notin> usEmail ` set (sysUsers d) \<and>
        d' = d\<lparr>sysUsers := sysUsers d @ [u],
          sysLogs := sysLogs d @ [logRow j t ctx ''user'' ''user.create'' (utf8 [229, 136, 155, 229, 187, 186, 230, 136, 144, 229, 145, 152]) (usID u) (usUsername u) AuditNone after]\<rparr>)
     (\<lambda>d e d'. d' = d)"
proof (rule effectA_atomic [OF _ atomic_CreateUser])
  have "newUserFor (env\<lparr>aeLog := True\<rparr>) req = newUserFor env req" by (simp add: newUserFor_def fun_eq_iff)
  then show "\<exists>u j t after. newUserFor env req u \<and> x = modelUserToProto u [] \<and>
        usID u \<notin> usID ` set (sysUsers (db w)) \<and> usUsername u \<notin> usUsername ` set (sysUsers (db w)) \<and>
        usEmail u \<notin> usEmail ` set (sysUsers (db w)) \<and>
        db w' = (db w)\<lparr>sysUsers := sysUsers (db w) @ [u],
          sysLogs := sysLogs (db w) @ [logRow j t ctx ''user'' ''user.create'' (utf8 [229, 136, 155, 229, 187, 186, 230, 136, 144, 229, 145, 152]) (usID u) (usUsername u) AuditNone after]\<rparr>"
    if "CreateUser (env\<lparr>aeLog := True\<rparr>) ctx req w = (Inr x, w')" for w x w'
    using CreateUser_Inr [OF that] by simp
qed

text \<open>
   \<^verbatim>\<open>SetUserRoles\<close>: either an error and no table has changed; or the account exists,
  the result is the list of the trimmed identifiers without empty ones and repetitions, all of
  existing roles, the account has exactly these roles, the other accounts keep theirs, and one
  log row is added.
\<close>

theorem SetUserRoles_effect:
  "effectA (SetUserRoles (env\<lparr>aeLog := True\<rparr>) ctx reqID xs)
     (\<lambda>d ys d'. \<exists>u j t t' before after. u \<in> set (sysUsers d) \<and> usID u = trimSpace reqID \<and>
        ys = dedupTrim [] xs \<and> set ys \<subseteq> rlID ` set (sysRoles d) \<and>
        d' = d\<lparr>sysUserRoles := filter (\<lambda>g. urUserID g \<noteq> usID u) (sysUserRoles d) @
            map (\<lambda>r. \<lparr>urUserID = usID u, urRoleID = r, urCreatedAt = t\<rparr>) ys,
          sysLogs := sysLogs d @ [logRow j t' ctx ''user'' ''user.role.update'' (utf8 [230, 155, 180, 230, 150, 176, 230, 136, 144, 229, 145, 152, 232, 167, 146, 232, 137, 178]) (usID u) (usUsername u) before after]\<rparr>)
     (\<lambda>d e d'. d' = d)"
  by (rule effectA_atomic [OF _ atomic_SetUserRoles], erule SetUserRoles_Inr) (rule logOn)

text \<open>
   \<^verbatim>\<open>DeleteUser\<close>: either an error and no change; or exactly the account and its
  memberships are gone and one log row is added.
\<close>

theorem DeleteUser_effect:
  "effectA (DeleteUser (env\<lparr>aeLog := True\<rparr>) ctx reqID)
     (\<lambda>d x d'. \<exists>u j t before. u \<in> set (sysUsers d) \<and> usID u = trimSpace reqID \<and>
        d' = d\<lparr>sysUsers := filter (\<lambda>s. usID s \<noteq> usID u) (sysUsers d),
          sysUserRoles := filter (\<lambda>g. urUserID g \<noteq> usID u) (sysUserRoles d),
          sysLogs := sysLogs d @ [logRow j t ctx ''user'' ''user.delete'' (utf8 [229, 136, 160, 233, 153, 164, 230, 136, 144, 229, 145, 152]) (usID u) (usUsername u) before AuditNone]\<rparr>)
     (\<lambda>d e d'. d' = d)"
  by (rule effectA_atomic [OF _ atomic_DeleteUser], erule DeleteUser_Inr) (rule logOn)

text \<open>
   The e-mail check accepts exactly the texts of the regular expression
  \<^verbatim>\<open>^[^\s@]+@[^\s@]+\.[^\s@]+$\<close>: three non-empty parts without a space or an at sign,
  joined by an at sign and a dot.
\<close>

theorem emailPattern_regex:
  "validateEmail email = Inr (trimSpace email) \<longleftrightarrow>
     (\<exists>a b c. trimSpace email = a @ ''@'' @ b @ ''.'' @ c \<and> emailPart a \<and> emailPart b \<and> emailPart c)"
proof (cases "trimSpace email = []")
  case True
  then show ?thesis by (simp add: validateEmail_def Let_def emailPart_def)
next
  case False
  then have "validateEmail email = Inr (trimSpace email) \<longleftrightarrow> emailPattern (trimSpace email)"
    by (simp add: validateEmail_def Let_def)
  then show ?thesis by (simp only: emailPattern_parts)
qed

end
