(* ===== verification/Auth_Claims.thy ===== *)
theory Auth_Claims
  imports User_Claims
begin

text \<open>
  What the token handlers of \<^verbatim>\<open>user.go\<close> guarantee: who can log in, what a token is
  worth, that a refresh token is used up, and that a logout ends the session.
\<close>

text \<open>An account that may act: it is enabled and has an enabled role.\<close>

definition activeUser :: "sysdb \<Rightarrow> user \<Rightarrow> bool" where
  "activeUser d u \<longleftrightarrow> u \<in> set (sysUsers d) \<and> usStatus u = UserStatusEnabled \<and>
     (\<exists>r \<in> set (rolesByUser (usID u) d). toInt32 (rlStatus r) = toInt32 RoleStatusEnabled)"

abbreviation userRoles :: "sysdb \<Rightarrow> user \<Rightarrow> roleProto list" where
  "userRoles d u \<equiv> map roleProtoOf (rolesByUser (usID u) d)"

lemma hasEnabledRoles_iff:
  "hasEnabledRoles (map roleProtoOf rs) \<longleftrightarrow> (\<exists>r \<in> set rs. toInt32 (rlStatus r) = toInt32 RoleStatusEnabled)"
  by (auto simp: hasEnabledRoles_def roleProtoOf_def)

lemma onSys_readonly_Inr:
  assumes "onSys m w = (Inr x, w')" and "readonly m"
  shows "(\<exists>v v'. m v = (Inr x, v') \<and> db v = adSys (db w)) \<and> db w' = db w"
  using assms readonlyD [OF sys_part.zoom_readonly [OF assms(2)] assms(1)]
  by (auto simp: zoomA_iff)

lemma onSys_clock: "onSys (queryA f) w = (r, w') \<Longrightarrow> clockAt w' = clockAt w \<and> tick w' = Suc (tick w)"
  by (auto simp: zoomA_iff queryA_def stmtA_def split: option.splits sum.splits)

lemma listRoles_Inr:
  "listUserRolesProto i w = (Inr rs, w') \<Longrightarrow> rs = map roleProtoOf (rolesByUser i (db w))"
  by (auto simp: listUserRolesProto_def Role_ListRolesByUser_def act_Inr)

lemma readonly_sessionUser [act_frame, simp]: "readonly (sessionUser i)"
  unfolding sessionUser_def
  by (auto intro!: readonly_bind readonly_wrap sys_part.zoom_readonly)

lemma sessionUser_Inr:
  assumes "sessionUser i w = (Inr (u, roles), w')"
  shows "activeUser (adSys (db w)) u \<and> usID u = i \<and> roles = userRoles (adSys (db w)) u \<and> db w' = db w"
proof -
  from assms obtain w1 w2 where 1: "onSys (User_Get i) w = (Inr u, w1)" and en: "usStatus u = UserStatusEnabled"
    and 2: "onSys (listUserRolesProto (usID u)) w1 = (Inr roles, w2)" and has: "hasEnabledRoles roles"
    unfolding sessionUser_def
    by (auto simp: bindA_Inr_iff split: if_splits)
  have u: "u \<in> set (sysUsers (adSys (db w)))" "usID u = i" and db1: "db w1 = db w"
    using onSys_readonly_Inr [OF 1] by (auto dest!: User_Get_Inr)
  have "roles = userRoles (adSys (db w1)) u"
    using onSys_readonly_Inr [OF 2] by (auto dest!: listRoles_Inr)
  then show ?thesis using u en has db1 readonlyD [OF readonly_sessionUser assms]
    by (auto simp: activeUser_def hasEnabledRoles_iff)
qed

subsection \<open>Validation\<close>

lemma readonly_ValidateToken [act_frame, simp]: "readonly (ValidateToken env tok)"
proof -
  have "readonly (case x of (u, roles) \<Rightarrow> retA (f u roles))" for x :: "'a \<times> 'b" and f :: "'a \<Rightarrow> 'b \<Rightarrow> 'c"
    by (cases x) simp
  then show ?thesis unfolding ValidateToken_def
    by (intro readonly_if readonly_basic readonly_bind readonly_wrap readonly_AccessSessionID
        readonly_GetSession readonly_sessionUser)
qed

lemma AccessSessionID_clock: "AccessSessionID env j w = (Inr sid, w') \<Longrightarrow> clockAt w' = clockAt w"
  by (auto simp: AccessSessionID_def sessionIDResult_def Let_def bindA_Inr_iff tryA_iff zoomA_iff
      rdGet_def timedA_def stmtA_def split: if_splits sum.splits option.splits)

lemma ValidateToken_Inr:
  assumes "ValidateToken env tok w = (Inr (p, roles), w')"
  shows "\<exists>c s u v i j k. VerifyAccessToken (aeParse env (clockAt w (tick w))) (aeSecret env) tok = Inr c \<and>
    rdLookup (clockAt w i) (adRedis (db w)) (accessKey env (cID c)) = Some v \<and>
    tokenText env v = cSessionID c \<and> cSessionID c \<noteq> [] \<and>
    rdLookup (clockAt w j) (adRedis (db w)) (sessionKey (cSessionID c)) = Some (SessionVal s) \<and>
    clockAt w k div nanosPerSecond < asExpiresAt s \<and>
    activeUser (adSys (db w)) u \<and> usID u = asUserID s \<and> roles = userRoles (adSys (db w)) u \<and>
    p = modelUserToProto u (roleIDsFromProto roles) \<and> db w' = db w"
proof -
  from assms obtain w1 c sid w2 s w3 u w4 where
    0: "timeNowA w = (Inr (clockAt w (tick w)), w1)" and
    c: "VerifyAccessToken (aeParse env (clockAt w (tick w))) (aeSecret env) tok = Inr c"
    and 1: "AccessSessionID env (cID c) w1 = (Inr sid, w2)"
    and sid: "cSessionID c \<noteq> []" "cSessionID c = sid"
    and 2: "GetSession env sid w2 = (Inr s, w3)" and 3: "sessionUser (asUserID s) w3 = (Inr (u, roles), w4)"
    and p: "p = modelUserToProto u (roleIDsFromProto roles)"
    unfolding ValidateToken_def
    by (auto simp: bindA_Inr_iff timeNowA_iff split: if_splits)
  have w1: "db w1 = db w" "clockAt w1 = clockAt w" using 0 by (auto simp: timeNowA_iff)
  obtain v where v: "rdLookup (clockAt w (tick w1)) (adRedis (db w)) (accessKey env (cID c)) = Some v"
    "sid = tokenText env v" and db2: "db w2 = db w"
    using AccessSessionID_Inr [OF 1] w1 by auto
  have clk2: "clockAt w2 = clockAt w" using AccessSessionID_clock [OF 1] w1 by simp
  note s = GetSession_Inr [OF 2, unfolded clk2 db2]
  note u = sessionUser_Inr [OF 3]
  show ?thesis
    using c v sid s u p readonlyD [OF readonly_ValidateToken assms]
    by (intro exI [of _ c] exI [of _ s] exI [of _ u] exI [of _ v] exI [of _ "tick w1"]
        exI [of _ "tick w2"] exI [of _ "Suc (tick w2)"]) auto
qed

subsection \<open>Login\<close>

lemma issueNew_Inr:
  assumes "issueNewSessionTokens env u roles w = (Inr r, w')"
  shows "\<exists>s jti t0 t1 t2. asUserID s = usID u \<and> asUsername s = usUsername u \<and> asID s = uuidAt w (tick w) \<and>
    (\<exists>k. asExpiresAt s = (clockAt w k + aeRefreshTTL env) div nanosPerSecond) \<and> 0 < aeRefreshTTL env \<and>
    arRoles r = roles \<and> arUser r = modelUserToProto u (roleIDsFromProto roles) \<and>
    db w' = (db w)\<lparr>adRedis := (adRedis (db w))
       (sessionKey (asID s) \<mapsto> (SessionVal s, t0),
        accessKey env jti \<mapsto> (TextVal (asID s), t1),
        refreshKey env (arRefreshToken r) \<mapsto> (TextVal (asID s), t2))\<rparr>"
proof -
  from assms obtain tok jti rt n n' v where
    sess: "CreateSession env
        \<lparr>asID = uuidAt w (tick w), asUserID = usID u, asUsername = usUsername u,
         asExpiresAt = (clockAt w n + aeRefreshTTL env) div nanosPerSecond\<rparr>
        jti rt (minDuration (aeAccessTTL env) (aeRefreshTTL env)) (aeRefreshTTL env) (w\<lparr>tick := n'\<rparr>) = (Inr v, w')"
    and ttl: "0 < aeRefreshTTL env"
    and r: "r = resultOf u roles tok rt (minDuration (aeAccessTTL env) (aeRefreshTTL env)) (aeRefreshTTL env)"
    unfolding issueNewSessionTokens_def signA_def opaqueA_def
    by (auto simp: act_Inr Let_def split: if_splits)
  let ?s = "\<lparr>asID = uuidAt w (tick w), asUserID = usID u, asUsername = usUsername u,
         asExpiresAt = (clockAt w n + aeRefreshTTL env) div nanosPerSecond\<rparr>"
  from CreateSession_Inr [OF sess] show ?thesis
    using ttl r by (intro exI [of _ ?s] exI [of _ jti]) (auto simp: resultOf_def)
qed

lemma Login_Inr:
  assumes "Login env name pw w = (Inr r, w')"
  shows "\<exists>u p s jti t0 t1 t2. activeUser (adSys (db w)) u \<and>
    validateUsername name = Inr (usUsername u) \<and> validatePassword pw True = Inr p \<and>
    aeCompare env (usPasswordHash u) p \<and> arRoles r = userRoles (adSys (db w)) u \<and>
    arUser r = modelUserToProto u (roleIDsFromProto (arRoles r)) \<and>
    asUserID s = usID u \<and> (\<exists>k. asExpiresAt s = (clockAt w k + aeRefreshTTL env) div nanosPerSecond) \<and>
    db w' = (db w)\<lparr>adRedis := (adRedis (db w))
       (sessionKey (asID s) \<mapsto> (SessionVal s, t0),
        accessKey env jti \<mapsto> (TextVal (asID s), t1),
        refreshKey env (arRefreshToken r) \<mapsto> (TextVal (asID s), t2))\<rparr>"
proof -
  from assms obtain n p u w1 roles w2 where v: "validateUsername name = Inr n" "validatePassword pw True = Inr p"
    and 1: "onSys (User_GetByUsername n) w = (Inr u, w1)" and en: "usStatus u = UserStatusEnabled"
    and cmp: "aeCompare env (usPasswordHash u) p"
    and 2: "onSys (listUserRolesProto (usID u)) w1 = (Inr roles, w2)" and has: "hasEnabledRoles roles"
    and 3: "issueNewSessionTokens env u roles w2 = (Inr r, w')"
    unfolding Login_def by (auto simp: bindA_Inr_iff split: if_splits)
  have u: "u \<in> set (sysUsers (adSys (db w)))" "usUsername u = n" and db1: "db w1 = db w"
    using onSys_readonly_Inr [OF 1] by (auto simp: User_GetByUsername_def queryA_Inr_iff dest: firstRow_Inr)
  have clk1: "clockAt w1 = clockAt w" using 1 onSys_clock unfolding User_GetByUsername_def by blast
  have rs: "roles = userRoles (adSys (db w)) u" and db2: "db w2 = db w"
    using onSys_readonly_Inr [OF 2] db1 by (auto dest!: listRoles_Inr)
  have clk2: "clockAt w2 = clockAt w"
    using 2 clk1 by (auto simp: listUserRolesProto_def Role_ListRolesByUser_def zoomA_iff act_Inr)
  have act: "activeUser (adSys (db w)) u" using u en has rs by (auto simp: activeUser_def hasEnabledRoles_iff)
  from issueNew_Inr [OF 3, unfolded db2 clk2] obtain s jti t0 t1 t2 k where
    s: "asUserID s = usID u" "asExpiresAt s = (clockAt w k + aeRefreshTTL env) div nanosPerSecond"
      "arRoles r = roles" "arUser r = modelUserToProto u (roleIDsFromProto roles)"
      "db w' = (db w)\<lparr>adRedis := (adRedis (db w))
         (sessionKey (asID s) \<mapsto> (SessionVal s, t0),
          accessKey env jti \<mapsto> (TextVal (asID s), t1),
          refreshKey env (arRefreshToken r) \<mapsto> (TextVal (asID s), t2))\<rparr>"
    by blast
  show ?thesis
    using act v u(2) cmp rs s
    by (intro exI [of _ u] exI [of _ p] exI [of _ s] exI [of _ jti] exI [of _ t0] exI [of _ t1] exI [of _ t2]) auto
qed

text \<open>
  What never changes: \<open>keepsPart f m\<close> says that \<open>m\<close> leaves \<open>f\<close> of the state alone.
\<close>

definition keepsPart :: "(authdb \<Rightarrow> 'p) \<Rightarrow> 'a authact \<Rightarrow> bool" where
  "keepsPart f m \<longleftrightarrow> (\<forall>w r w'. m w = (r, w') \<longrightarrow> f (db w') = f (db w))"

definition sessionsOf :: "authdb \<Rightarrow> gostr \<Rightarrow> (tokenVal \<times> int option) option" where
  "sessionsOf d i = adRedis d (sessionKey i)"

lemma keepsPartD: "keepsPart f m \<Longrightarrow> m w = (r, w') \<Longrightarrow> f (db w') = f (db w)"
  by (simp add: keepsPart_def)

lemma keepsPart_readonly: "readonly m \<Longrightarrow> keepsPart f m"
  by (auto simp: keepsPart_def dest!: readonlyD)

lemma keepsPart_bind: "keepsPart f m \<Longrightarrow> (\<And>x. keepsPart f (k x)) \<Longrightarrow> keepsPart f (bindA m k)"
  unfolding keepsPart_def bindA_def by (auto split: prod.splits sum.splits)

lemma keepsPart_handle: "keepsPart f m \<Longrightarrow> (\<And>e. keepsPart f (h e)) \<Longrightarrow> keepsPart f (handleA m h)"
  unfolding keepsPart_def handleA_def by (auto split: prod.splits sum.splits)

lemma keepsPart_try: "keepsPart f m \<Longrightarrow> keepsPart f (tryA m)"
  unfolding keepsPart_def tryA_def by (auto split: prod.splits)

lemma keepsPart_wrap: "keepsPart f m \<Longrightarrow> keepsPart f (wrapErrA g m)"
  unfolding wrapErrA_def by (rule keepsPart_handle) (simp_all add: keepsPart_readonly)

lemma keepsPart_failAfter: "keepsPart f m \<Longrightarrow> keepsPart f (failAfter m e)"
  unfolding failAfter_def by (intro keepsPart_bind keepsPart_try) (simp_all add: keepsPart_readonly)

lemma keepsPart_if: "(b \<Longrightarrow> keepsPart f m) \<Longrightarrow> (\<not> b \<Longrightarrow> keepsPart f n) \<Longrightarrow> keepsPart f (if b then m else n)"
  by simp

lemma keepsPart_pair: "(\<And>x y. keepsPart f (g x y)) \<Longrightarrow> keepsPart f (case p of (x, y) \<Rightarrow> g x y)"
  by (cases p) simp

lemma keepsPart_basic [simp]:
  "keepsPart f (retA x)" "keepsPart f (failA e)" "keepsPart f (liftA r)" "keepsPart f timeNowA"
  "keepsPart f newUUID" "keepsPart f (drawA g)" "keepsPart f (sessionUser i)" "keepsPart f (GetSession env i)"
  by (simp_all add: keepsPart_readonly)

lemma keepsPart_user [simp]:
  "keepsPart f (onSys (User_GetByUsername n))" "keepsPart f (onSys (listUserRolesProto i))"
  by (auto intro!: keepsPart_readonly sys_part.zoom_readonly)

lemma keepsPart_sessionIDResult [simp]: "keepsPart f (sessionIDResult env r)"
  by (cases r) (simp_all add: sessionIDResult_def Let_def)

lemma keepsPart_sign [simp]: "keepsPart f (signA env u i t)" "keepsPart f (opaqueA env n)"
  unfolding signA_def opaqueA_def by (intro keepsPart_bind keepsPart_basic)+

lemmas keepsPart_rules = keepsPart_if keepsPart_bind keepsPart_handle keepsPart_failAfter keepsPart_try
  keepsPart_wrap keepsPart_pair keepsPart_basic keepsPart_user keepsPart_sessionIDResult keepsPart_sign

lemma keepsSys_redis [simp]: "keepsPart adSys (onRedis m)"
  by (auto simp: keepsPart_def zoomA_iff putRedis_def)

lemma onRedis_keeps:
  assumes "\<And>now d x d'. f now d = Inr (x, d') \<Longrightarrow> d' (sessionKey i) = d (sessionKey i)"
  shows "onRedis (timedA f) w = (r, w') \<Longrightarrow> adRedis (db w') (sessionKey i) = adRedis (db w) (sessionKey i)"
  using assms
  by (auto simp: zoomA_iff putRedis_def timedA_def stmtA_def split: option.splits sum.splits)

lemma keepsSessions_redis [simp]:
  "keepsPart sessionsOf (onRedis (rdSet (accessKey env j) v ttl))"
  "keepsPart sessionsOf (onRedis (rdSet (refreshKey env t) v ttl))"
  "keepsPart sessionsOf (onRedis (rdDel [accessKey env j]))"
  "keepsPart sessionsOf (onRedis (rdGetDel (refreshKey env t)))"
  unfolding keepsPart_def sessionsOf_def rdSet_def rdDel_def rdGetDel_def fun_eq_iff
  by (intro allI impI, erule onRedis_keeps [rotated], force split: option.splits)+

lemma keepsPart_SaveRotated:
  assumes "\<And>v ttl. keepsPart f (onRedis (rdSet (accessKey env j) v ttl))"
    and "\<And>v ttl. keepsPart f (onRedis (rdSet (refreshKey env t) v ttl))"
    and "keepsPart f (onRedis (rdDel [accessKey env j]))"
  shows "keepsPart f (SaveRotatedTokens env i j t a b)"
  unfolding SaveRotatedTokens_def Let_def by (intro keepsPart_rules assms)

lemma keepsPart_Consume:
  assumes "keepsPart f (onRedis (rdGetDel (refreshKey env t)))"
  shows "keepsPart f (ConsumeRefreshSessionID env t)"
  unfolding ConsumeRefreshSessionID_def Let_def by (intro keepsPart_rules assms)

lemma keepsPart_Refresh:
  assumes "\<And>t. keepsPart f (ConsumeRefreshSessionID env t)"
    and "\<And>i j t a b. keepsPart f (SaveRotatedTokens env i j t a b)"
  shows "keepsPart f (RefreshToken env t)"
proof -
  have "keepsPart f (issueRotatedTokens env u rs i t)" for u rs i t
    unfolding issueRotatedTokens_def Let_def by (intro keepsPart_rules assms)
  then show ?thesis
    unfolding RefreshToken_def Let_def by (intro keepsPart_rules assms; simp)
qed

lemma keeps_RefreshToken:
  "keepsPart adSys (RefreshToken env t)" "keepsPart sessionsOf (RefreshToken env t)"
  by (rule keepsPart_Refresh, rule keepsPart_Consume, simp, rule keepsPart_SaveRotated, simp_all)+

lemma keepsSys_Login: "keepsPart adSys (Login env n p)"
proof -
  have "keepsPart adSys (CreateSession env s j t a b)" for s j t a b
    unfolding CreateSession_def Let_def by (intro keepsPart_rules keepsSys_redis)
  then have "keepsPart adSys (issueNewSessionTokens env u rs)" for u rs
    unfolding issueNewSessionTokens_def Let_def by (intro keepsPart_rules; simp)
  then show ?thesis
    unfolding Login_def by (intro keepsPart_rules; simp)
qed

subsection \<open>Refresh and logout\<close>

lemma issueRotated_Inr:
  assumes "issueRotatedTokens env u roles sid ttl w = (Inr r, w')"
  shows "\<exists>jti t1 t2. arRoles r = roles \<and> arUser r = modelUserToProto u (roleIDsFromProto roles) \<and>
    db w' = (db w)\<lparr>adRedis := (adRedis (db w))
       (accessKey env jti \<mapsto> (TextVal sid, t1),
        refreshKey env (arRefreshToken r) \<mapsto> (TextVal sid, t2))\<rparr>"
proof -
  from assms obtain tok jti rt n' v where
    save: "SaveRotatedTokens env sid jti rt (minDuration (aeAccessTTL env) ttl) ttl (w\<lparr>tick := n'\<rparr>) = (Inr v, w')"
    and r: "r = resultOf u roles tok rt (minDuration (aeAccessTTL env) ttl) ttl"
    unfolding issueRotatedTokens_def signA_def opaqueA_def
    by (auto simp: act_Inr Let_def split: if_splits)
  from SaveRotated_Inr [OF save] show ?thesis
    using r by (intro exI [of _ jti]) (auto simp: resultOf_def)
qed

lemma Consume_clock: "ConsumeRefreshSessionID env t w = (Inr sid, w') \<Longrightarrow> clockAt w' = clockAt w"
  by (auto simp: ConsumeRefreshSessionID_def sessionIDResult_def Let_def bindA_Inr_iff tryA_iff zoomA_iff
      rdGetDel_def timedA_def stmtA_def split: if_splits sum.splits option.splits)

lemma sessionUser_clock: "sessionUser i w = (Inr x, w') \<Longrightarrow> clockAt w' = clockAt w"
  by (auto simp: sessionUser_def User_Get_def listUserRolesProto_def Role_ListRolesByUser_def zoomA_iff
      act_Inr split: if_splits)

lemma RefreshToken_Inr:
  assumes "RefreshToken env tok w = (Inr r, w')"
  shows "\<exists>v s u jti t1 t2 i j k. rdLookup (clockAt w i) (adRedis (db w)) (refreshKey env (trimSpace tok)) = Some v \<and>
    rdLookup (clockAt w j) (adRedis (db w)) (sessionKey (tokenText env v)) = Some (SessionVal s) \<and>
    clockAt w k < asExpiresAt s * nanosPerSecond \<and>
    activeUser (adSys (db w)) u \<and> usID u = asUserID s \<and> arRoles r = userRoles (adSys (db w)) u \<and>
    arUser r = modelUserToProto u (roleIDsFromProto (arRoles r)) \<and>
    db w' = (db w)\<lparr>adRedis := (adRedis (db w))
       (refreshKey env (trimSpace tok) := None,
        accessKey env jti \<mapsto> (TextVal (tokenText env v), t1),
        refreshKey env (arRefreshToken r) \<mapsto> (TextVal (tokenText env v), t2))\<rparr>"
proof -
  let ?t = "trimSpace tok"
  from assms obtain sid w1 s w2 u roles w3 w4 where
    1: "ConsumeRefreshSessionID env ?t w = (Inr sid, w1)" and 2: "GetSession env sid w1 = (Inr s, w2)"
    and 3: "sessionUser (asUserID s) w2 = (Inr (u, roles), w3)"
    and left: "0 < clampInt64 (asExpiresAt s * nanosPerSecond - clockAt w3 (tick w3))"
    and 4: "issueRotatedTokens env u roles sid (clampInt64 (asExpiresAt s * nanosPerSecond - clockAt w3 (tick w3))) (nextTick w3) = (Inr r, w')"
    unfolding RefreshToken_def Let_def
    by (auto simp: bindA_Inr_iff timeNowA_iff not_le split: if_splits)
  obtain v where v: "rdLookup (clockAt w (tick w)) (adRedis (db w)) (refreshKey env ?t) = Some v" "sid = tokenText env v"
    and db1: "db w1 = (db w)\<lparr>adRedis := (adRedis (db w))(refreshKey env ?t := None)\<rparr>"
    using Consume_Inr [OF 1] by blast
  have clk1: "clockAt w1 = clockAt w" by (rule Consume_clock [OF 1])
  note s = GetSession_Inr [OF 2, unfolded clk1 db1]
  have look: "rdLookup (clockAt w (tick w1)) (adRedis (db w)) (sessionKey sid) = Some (SessionVal s)"
    using s by (simp add: rdLookup_def)
  have clk3: "clockAt w3 = clockAt w" using sessionUser_clock [OF 3] s by simp
  note u = sessionUser_Inr [OF 3]
  have k: "clockAt w (tick w3) < asExpiresAt s * nanosPerSecond"
    using left clk3 by (simp add: clampInt64_def max_def min_def split: if_splits)
  from issueRotated_Inr [OF 4] obtain jti t1 t2 where r: "arRoles r = roles"
    "arUser r = modelUserToProto u (roleIDsFromProto roles)"
    "db w' = (db w3)\<lparr>adRedis := (adRedis (db w3)) (accessKey env jti \<mapsto> (TextVal sid, t1),
        refreshKey env (arRefreshToken r) \<mapsto> (TextVal sid, t2))\<rparr>" by auto
  have db3: "db w3 = (db w)\<lparr>adRedis := (adRedis (db w))(refreshKey env ?t := None)\<rparr>"
    using u s by simp
  have act: "activeUser (adSys (db w)) u" "roles = userRoles (adSys (db w)) u" "usID u = asUserID s"
    using u s by simp_all
  show ?thesis
    using v look k act r db3
    by (intro exI [of _ v] exI [of _ s] exI [of _ u] exI [of _ jti] exI [of _ t1] exI [of _ t2]
        exI [of _ "tick w"] exI [of _ "tick w1"] exI [of _ "tick w3"]) simp
qed

lemma Refresh_absent:
  assumes "adRedis (db w) (refreshKey env (trimSpace tok)) = None" and "aeStore env" and "aeRedis env"
    and "trimSpace tok \<noteq> []"
  shows "\<exists>w'. RefreshToken env tok w = (Inl badRefresh, w') \<and> db w' = db w"
proof -
  obtain w' where "ConsumeRefreshSessionID env (trimSpace tok) w = (Inl AuthTokenNotFound, w')" "db w' = db w"
    using Consume_absent [OF assms(1,3)] by blast
  then show ?thesis using assms(2,4)
    by (auto simp: RefreshToken_def bindA_def wrapErrA_def handleA_def failA_def)
qed

lemma Refresh_env: "RefreshToken env tok w = (Inr r, w') \<Longrightarrow> aeStore env \<and> aeRedis env \<and> trimSpace tok \<noteq> []"
  by (auto simp: RefreshToken_def ConsumeRefreshSessionID_def Let_def bindA_Inr_iff split: if_splits)

lemma Logout_Inr:
  assumes "Logout env tok w = (Inr u, w')" and "trimSpace tok \<noteq> []"
    and "ConsumeRefreshSessionID env (trimSpace tok) w = (Inr sid, w1)"
  shows "adRedis (db w') = (adRedis (db w))(refreshKey env (trimSpace tok) := None, sessionKey sid := None)"
proof -
  have "RevokeSession env sid w1 = (Inr u, w')"
    using assms by (auto simp: Logout_def Let_def bindA_Inr_iff tryA_iff split: if_splits)
  then have "adRedis (db w') = (adRedis (db w1))(sessionKey sid := None)"
    by (auto simp: RevokeSession_def zoomA_iff putRedis_def restrict_map_def fun_eq_iff dest!: rdDel_Inr split: if_splits)
  then show ?thesis using Consume_Inr [OF assms(3)] by auto
qed

subsection \<open>Properties\<close>

text \<open>
  C6: \<^verbatim>\<open>Login\<close>: a login that succeeds names an enabled account with an enabled role
  whose password hash accepts the trimmed password; it opens one session that belongs to this
  account and ends one refresh period after a clock reading of the call, with one access and one
  refresh token for it, and changes nothing else.  A login that fails changes no table.
\<close>

theorem Login_sound:
  "case Login env name pw w of
     (Inr r, w') \<Rightarrow>
       (\<exists>u p s jti t0 t1 t2. activeUser (adSys (db w)) u \<and>
          validateUsername name = Inr (usUsername u) \<and> validatePassword pw True = Inr p \<and>
          aeCompare env (usPasswordHash u) p \<and> arRoles r = userRoles (adSys (db w)) u \<and>
          arUser r = modelUserToProto u (roleIDsFromProto (arRoles r)) \<and>
          asUserID s = usID u \<and> (\<exists>k. asExpiresAt s = (clockAt w k + aeRefreshTTL env) div nanosPerSecond) \<and>
          db w' = (db w)\<lparr>adRedis := (adRedis (db w))
             (sessionKey (asID s) \<mapsto> (SessionVal s, t0),
              accessKey env jti \<mapsto> (TextVal (asID s), t1),
              refreshKey env (arRefreshToken r) \<mapsto> (TextVal (asID s), t2))\<rparr>)
   | (Inl e, w') \<Rightarrow> adSys (db w') = adSys (db w)"
  using Login_Inr keepsPartD [OF keepsSys_Login]
  by (cases "Login env name pw w"; cases "fst (Login env name pw w)") simp_all

text \<open>
  C7: \<^verbatim>\<open>ValidateToken\<close>: a token is accepted only if the JWT library accepts it for the
  secret, its identifier is live in the store for the session it names, that session is live and
  not over, and the session's account exists, is enabled and has an enabled role; the answer is
  that account.  The call never changes anything.
\<close>

theorem ValidateToken_sound:
  "case ValidateToken env tok w of
     (Inr (p, roles), w') \<Rightarrow>
       (\<exists>c s u v i j k. VerifyAccessToken (aeParse env (clockAt w (tick w))) (aeSecret env) tok = Inr c \<and>
          rdLookup (clockAt w i) (adRedis (db w)) (accessKey env (cID c)) = Some v \<and>
          tokenText env v = cSessionID c \<and> cSessionID c \<noteq> [] \<and>
          rdLookup (clockAt w j) (adRedis (db w)) (sessionKey (cSessionID c)) = Some (SessionVal s) \<and>
          clockAt w k div nanosPerSecond < asExpiresAt s \<and>
          activeUser (adSys (db w)) u \<and> usID u = asUserID s \<and> roles = userRoles (adSys (db w)) u \<and>
          p = modelUserToProto u (roleIDsFromProto roles) \<and> db w' = db w)
   | (Inl e, w') \<Rightarrow> db w' = db w"
proof (cases "ValidateToken env tok w")
  case (Pair r w')
  show ?thesis
  proof (cases r)
    case (Inl e)
    then show ?thesis using Pair readonlyD [OF readonly_ValidateToken Pair] by simp
  next
    case (Inr x)
    then show ?thesis using Pair ValidateToken_Inr [of env tok w "fst x" "snd x" w'] by (cases x) simp
  qed
qed

text \<open>
  C8: \<^verbatim>\<open>RefreshToken\<close>: a refresh succeeds only for a token that is live in the store,
  whose session is live, not over at a clock reading of the call, and belongs to an enabled
  account with an enabled role.  The token is replaced by one new access and one new refresh
  token of the same session.  Whatever the outcome, no session and no table changes: rotating
  tokens cannot lengthen a session.
\<close>

theorem RefreshToken_sound:
  "case RefreshToken env tok w of
     (r, w') \<Rightarrow> adSys (db w') = adSys (db w) \<and> sessionsOf (db w') = sessionsOf (db w) \<and>
       (case r of Inl e \<Rightarrow> True | Inr a \<Rightarrow>
          (\<exists>v s u jti t1 t2 i j k.
             rdLookup (clockAt w i) (adRedis (db w)) (refreshKey env (trimSpace tok)) = Some v \<and>
             rdLookup (clockAt w j) (adRedis (db w)) (sessionKey (tokenText env v)) = Some (SessionVal s) \<and>
             clockAt w k < asExpiresAt s * nanosPerSecond \<and>
             activeUser (adSys (db w)) u \<and> usID u = asUserID s \<and> arRoles a = userRoles (adSys (db w)) u \<and>
             arUser a = modelUserToProto u (roleIDsFromProto (arRoles a)) \<and>
             db w' = (db w)\<lparr>adRedis := (adRedis (db w))
                (refreshKey env (trimSpace tok) := None,
                 accessKey env jti \<mapsto> (TextVal (tokenText env v), t1),
                 refreshKey env (arRefreshToken a) \<mapsto> (TextVal (tokenText env v), t2))\<rparr>))"
proof (cases "RefreshToken env tok w")
  case (Pair r w')
  note keeps = keeps_RefreshToken [THEN keepsPartD, OF Pair]
  show ?thesis
    using Pair keeps RefreshToken_Inr [of env tok w _ w'] by (cases r) simp_all
qed

text \<open>
   A refresh token is used up by a successful refresh: using it again right after is refused
  and changes nothing, unless the random source has drawn the very same token anew.
\<close>

theorem RefreshToken_once:
  "case RefreshToken env tok w of
     (Inl e, w1) \<Rightarrow> True
   | (Inr a, w1) \<Rightarrow> refreshKey env (arRefreshToken a) = refreshKey env (trimSpace tok) \<or>
       (case RefreshToken env tok w1 of (r, w2) \<Rightarrow> r = Inl badRefresh \<and> db w2 = db w1)"
proof (cases "RefreshToken env tok w")
  case (Pair r w1)
  show ?thesis
  proof (cases r)
    case (Inl e)
    then show ?thesis using Pair by simp
  next
    case (Inr a)
    show ?thesis
    proof (cases "refreshKey env (arRefreshToken a) = refreshKey env (trimSpace tok)")
      case False
      then have "adRedis (db w1) (refreshKey env (trimSpace tok)) = None"
        using RefreshToken_Inr [OF Pair [unfolded Inr]] by auto
      then obtain w2 where "RefreshToken env tok w1 = (Inl badRefresh, w2)" "db w2 = db w1"
        using Refresh_absent Refresh_env [OF Pair [unfolded Inr]] by blast
      then show ?thesis using Pair Inr by simp
    qed (use Pair Inr in simp)
  qed
qed

text \<open>
   \<^verbatim>\<open>Logout\<close>: when the refresh token is still good for session \<open>sid\<close>, a successful
  logout removes exactly the token and the session, so that from there on every token of the
  session is refused; when the token is not good, the logout succeeds without revoking anything.
\<close>

theorem Logout_ends_session:
  "case (Logout env tok w, ConsumeRefreshSessionID env (trimSpace tok) w) of
     ((Inl e, w'), _) \<Rightarrow> adSys (db w') = adSys (db w)
   | ((Inr _, w'), (Inl _, w1)) \<Rightarrow> adSys (db w') = adSys (db w) \<and> sessionsOf (db w') = sessionsOf (db w)
   | ((Inr _, w'), (Inr sid, w1)) \<Rightarrow> trimSpace tok = [] \<or>
       db w' = (db w)\<lparr>adRedis := (adRedis (db w))(refreshKey env (trimSpace tok) := None, sessionKey sid := None)\<rparr>"
proof -
  have rev: "keepsPart adSys (case r of Inl _ \<Rightarrow> retA () | Inr sid \<Rightarrow> RevokeSession env sid)" for r :: "err + gostr"
    unfolding RevokeSession_def by (cases r) simp_all
  have consSys: "keepsPart adSys (ConsumeRefreshSessionID env t)" for t by (rule keepsPart_Consume) simp
  have sys: "keepsPart adSys (Logout env tok)"
    unfolding Logout_def Let_def by (intro keepsPart_rules rev consSys)
  obtain r w' where run: "Logout env tok w = (r, w')" by fastforce
  obtain q w1 where q: "ConsumeRefreshSessionID env (trimSpace tok) w = (q, w1)" by fastforce
  have S: "adSys (db w') = adSys (db w)" by (rule keepsPartD [OF sys run])
  show ?thesis
  proof (cases r)
    case (Inl e)
    then show ?thesis using run q S by simp
  next
    case (Inr u)
    show ?thesis
    proof (cases q)
      case (Inl e)
      have "sessionsOf (db w1) = sessionsOf (db w)" by (rule keepsPartD [OF keepsPart_Consume q]) simp
      moreover have "w' = w1 \<or> w' = w"
        using run Inr q Inl by (auto simp: Logout_def Let_def bindA_def tryA_def split: if_splits)
      ultimately show ?thesis using run q Inr Inl S by auto
    next
      case (Inr sid)
      have "trimSpace tok \<noteq> [] \<Longrightarrow>
        adRedis (db w') = (adRedis (db w))(refreshKey env (trimSpace tok) := None, sessionKey sid := None)"
        using Logout_Inr run \<open>r = Inr u\<close> q Inr by simp
      then show ?thesis using run q \<open>r = Inr u\<close> Inr S by (auto intro: authdb.equality)
    qed
  qed
qed

end
