(* ===== verification/One_Shot.thy ===== *)
theory One_Shot
  imports Go_Base
begin

text \<open>
  The contract of one-shot credentials, which the refresh tokens of the system service and the
  connection tickets of the gateway share: a call may use a credential that is held, a used
  credential is no longer held, and only a call that issues it makes it held again.  Its client
  learns that in any sequence of calls a credential is used at most as often as it is issued,
  counting the start.
\<close>

fun countCalls :: "('c \<Rightarrow> 's \<Rightarrow> 't option) \<Rightarrow> ('c \<Rightarrow> 's \<Rightarrow> 's) \<Rightarrow> 't \<Rightarrow> 'c list \<Rightarrow> 's \<Rightarrow> nat" where
  "countCalls f run t [] s = 0"
| "countCalls f run t (c # cs) s = of_bool (f c s = Some t) + countCalls f run t cs (run c s)"

locale one_shot =
  fixes run :: "'c \<Rightarrow> 's \<Rightarrow> 's"
    and issued :: "'c \<Rightarrow> 's \<Rightarrow> 't option"
    and used :: "'c \<Rightarrow> 's \<Rightarrow> 't option"
    and held :: "'t \<Rightarrow> 's \<Rightarrow> bool"
  assumes used_held: "used c s = Some t \<Longrightarrow> held t s"
    and held_after: "held t (run c s) \<Longrightarrow> issued c s = Some t \<or> held t s \<and> used c s \<noteq> Some t"
begin

lemma step_balance:
  "of_bool (used c s = Some t) + (of_bool (held t (run c s)) :: nat) \<le> of_bool (issued c s = Some t) + of_bool (held t s)"
  using used_held [of c s t] held_after [of t c s] by auto

lemma balance:
  "countCalls used run t cs s + of_bool (held t (fold run cs s)) \<le> countCalls issued run t cs s + of_bool (held t s)"
proof (induction cs arbitrary: s)
  case Nil
  then show ?case by simp
next
  case (Cons c cs)
  have "countCalls used run t cs (run c s) + of_bool (held t (fold run cs (run c s)))
      \<le> countCalls issued run t cs (run c s) + of_bool (held t (run c s))"
    by (rule Cons.IH)
  with step_balance [of c s t] show ?case by simp
qed

lemma used_bound: "countCalls used run t cs s \<le> countCalls issued run t cs s + of_bool (held t s)"
  using balance [of t cs s] by simp

end

end
