(* ===== verification/Auth_Once.thy ===== *)
theory Auth_Once
  imports Auth_Claims One_Shot
begin

text \<open>
  Refresh tokens are one-shot credentials: the token calls of the system service implement the
  contract of \<open>One_Shot\<close>.
\<close>

definition refreshHeld :: "gostr \<Rightarrow> authdb \<Rightarrow> bool" where
  "refreshHeld h d \<longleftrightarrow> adRedis d (''auth:'' @ ''refresh:'' @ h) \<noteq> None"

lemma refreshHeld_key: "refreshHeld (HashToken env t) d \<longleftrightarrow> adRedis d (refreshKey env t) \<noteq> None"
  by (simp add: refreshHeld_def refreshKey_def)

text \<open>\<open>shrinksOn True m\<close>: no outcome of \<open>m\<close> brings a refresh token; \<open>shrinksOn False m\<close>: no error does.\<close>

definition shrinksOn :: "bool \<Rightarrow> 'a authact \<Rightarrow> bool" where
  "shrinksOn b m \<longleftrightarrow> (\<forall>w r w'. m w = (r, w') \<longrightarrow> b \<or> (\<exists>e. r = Inl e) \<longrightarrow>
     (\<forall>h. refreshHeld h (db w') \<longrightarrow> refreshHeld h (db w)))"

lemma shrinksOnD:
  "shrinksOn b m \<Longrightarrow> m w = (r, w') \<Longrightarrow> b \<or> (\<exists>e. r = Inl e) \<Longrightarrow> refreshHeld h (db w') \<Longrightarrow> refreshHeld h (db w)"
  unfolding shrinksOn_def by blast

lemma shrinks_readonly: "readonly m \<Longrightarrow> shrinksOn b m"
  unfolding shrinksOn_def by (metis readonlyD)

lemma shrinks_bind: "shrinksOn True m \<Longrightarrow> (\<And>x. shrinksOn b (k x)) \<Longrightarrow> shrinksOn b (bindA m k)"
  unfolding shrinksOn_def bindA_def by (auto split: prod.splits sum.splits)

lemma shrinks_bind_ret: "shrinksOn b m \<Longrightarrow> shrinksOn b (bindA m (\<lambda>x. retA (f x)))"
  unfolding shrinksOn_def bindA_def by (auto split: prod.splits sum.splits)

lemma shrinks_handle: "shrinksOn b m \<Longrightarrow> (\<And>e. shrinksOn b (h e)) \<Longrightarrow> shrinksOn b (handleA m h)"
  unfolding shrinksOn_def handleA_def by (auto split: prod.splits sum.splits)

lemma shrinks_try: "shrinksOn True m \<Longrightarrow> shrinksOn b (tryA m)"
  unfolding shrinksOn_def tryA_def by (auto split: prod.splits)

lemma shrinks_wrap: "shrinksOn b m \<Longrightarrow> shrinksOn b (wrapErrA g m)"
  unfolding wrapErrA_def by (rule shrinks_handle) (simp_all add: shrinks_readonly)

lemma shrinks_failAfter: "shrinksOn True m \<Longrightarrow> shrinksOn b (failAfter m e)"
  unfolding failAfter_def by (intro shrinks_bind shrinks_try) (simp_all add: shrinks_readonly)

lemma shrinks_if: "(c \<Longrightarrow> shrinksOn b m) \<Longrightarrow> (\<not> c \<Longrightarrow> shrinksOn b n) \<Longrightarrow> shrinksOn b (if c then m else n)"
  by simp

lemma shrinks_pair: "(\<And>x y. shrinksOn b (g x y)) \<Longrightarrow> shrinksOn b (case p of (x, y) \<Rightarrow> g x y)"
  by (cases p) simp

lemma readonly_sign [simp]: "readonly (signA env u i t)" "readonly (opaqueA env n)"
  unfolding signA_def opaqueA_def by (intro readonly_bind readonly_basic)+

lemma shrinks_basic [simp]:
  "shrinksOn b (retA x)" "shrinksOn b (failA e)" "shrinksOn b (liftA r)" "shrinksOn b timeNowA"
  "shrinksOn b newUUID" "shrinksOn b (drawA g)" "shrinksOn b (sessionUser i)" "shrinksOn b (GetSession env i)"
  "shrinksOn b (signA env u i t)" "shrinksOn b (opaqueA env n)"
  "shrinksOn b (onSys (User_GetByUsername n'))" "shrinksOn b (onSys (listUserRolesProto i))"
  by (simp_all add: shrinks_readonly sys_part.zoom_readonly User_GetByUsername_def)

lemma shrinks_result [simp]: "shrinksOn b (sessionIDResult env r)"
  by (cases r) (simp_all add: sessionIDResult_def Let_def)

lemma shrinks_timed:
  assumes "\<And>now d x d' h. f now d = Inr (x, d') \<Longrightarrow> b \<Longrightarrow> d' (''auth:refresh:'' @ h) \<noteq> None \<Longrightarrow> d (''auth:refresh:'' @ h) \<noteq> None"
  shows "shrinksOn b (onRedis (timedA f))"
  using assms unfolding shrinksOn_def refreshHeld_def
  by (fastforce simp: zoomA_iff putRedis_def timedA_def stmtA_def split: option.splits sum.splits)

lemma shrinks_redis [simp]:
  "shrinksOn b (onRedis (rdSet (sessionKey i) v ttl))" "shrinksOn b (onRedis (rdSet (accessKey env j) v ttl))"
  "shrinksOn False (onRedis (rdSet (refreshKey env t) v ttl))" "shrinksOn b (onRedis (rdDel ks))"
  "shrinksOn b (onRedis (rdGetDel k))"
  unfolding rdSet_def rdDel_def rdGetDel_def
  by (rule shrinks_timed, auto simp: sessionKey_def accessKey_def restrict_map_def split: if_splits option.splits)+

lemmas shrinks_rules = shrinks_if shrinks_bind_ret shrinks_bind shrinks_handle shrinks_failAfter shrinks_try
  shrinks_wrap shrinks_pair shrinks_basic shrinks_result shrinks_redis

lemma shrinks_Consume [simp]: "shrinksOn b (ConsumeRefreshSessionID env t)"
  unfolding ConsumeRefreshSessionID_def by (intro shrinks_rules)

lemma shrinks_Login: "shrinksOn False (Login env n p)"
proof -
  have "shrinksOn False (CreateSession env s j t a c)" for s j t a c
    unfolding CreateSession_def Let_def by (intro shrinks_rules)
  then have "shrinksOn False (issueNewSessionTokens env u rs)" for u rs
    unfolding issueNewSessionTokens_def Let_def by (intro shrinks_rules; simp)
  then show ?thesis unfolding Login_def by (intro shrinks_rules; simp)
qed

lemma shrinks_Refresh: "shrinksOn False (RefreshToken env t)"
proof -
  have "shrinksOn False (SaveRotatedTokens env i j t a c)" for i j t a c
    unfolding SaveRotatedTokens_def Let_def by (intro shrinks_rules)
  then have "shrinksOn False (issueRotatedTokens env u rs i t)" for u rs i t
    unfolding issueRotatedTokens_def Let_def by (intro shrinks_rules; simp)
  then show ?thesis unfolding RefreshToken_def Let_def by (intro shrinks_rules; simp)
qed

lemma shrinks_Logout: "shrinksOn True (Logout env t)"
proof -
  have "shrinksOn True (case r of Inl _ \<Rightarrow> retA () | Inr sid \<Rightarrow> RevokeSession env sid)" for r :: "err + gostr"
    unfolding RevokeSession_def by (cases r) simp_all
  then show ?thesis unfolding Logout_def Let_def by (intro shrinks_rules shrinks_Consume)
qed

subsection \<open>Calls\<close>

datatype tokenCall = CallLogin gostr gostr | CallRefresh gostr | CallLogout gostr | CallValidate gostr

fun tokenRun :: "authEnv \<Rightarrow> tokenCall \<Rightarrow> authdb world \<Rightarrow> authdb world" where
  "tokenRun env (CallLogin n p) w = snd (Login env n p w)"
| "tokenRun env (CallRefresh t) w = snd (RefreshToken env t w)"
| "tokenRun env (CallLogout t) w = snd (Logout env t w)"
| "tokenRun env (CallValidate t) w = snd (ValidateToken env t w)"

definition issuedBy :: "authEnv \<Rightarrow> err + authResult \<Rightarrow> gostr option" where
  "issuedBy env r = (case r of Inl _ \<Rightarrow> None | Inr a \<Rightarrow> Some (HashToken env (arRefreshToken a)))"

fun tokenIssued :: "authEnv \<Rightarrow> tokenCall \<Rightarrow> authdb world \<Rightarrow> gostr option" where
  "tokenIssued env (CallLogin n p) w = issuedBy env (fst (Login env n p w))"
| "tokenIssued env (CallRefresh t) w = issuedBy env (fst (RefreshToken env t w))"
| "tokenIssued env c w = None"

fun tokenUsed :: "authEnv \<Rightarrow> tokenCall \<Rightarrow> authdb world \<Rightarrow> gostr option" where
  "tokenUsed env (CallRefresh t) w =
     (case fst (RefreshToken env t w) of Inl _ \<Rightarrow> None | Inr _ \<Rightarrow> Some (HashToken env (trimSpace t)))"
| "tokenUsed env c w = None"

lemma refreshHeld_upd:
  "refreshHeld h (d\<lparr>adRedis := r(refreshKey env t \<mapsto> x)\<rparr>) \<longleftrightarrow> h = HashToken env t \<or> refreshHeld h (d\<lparr>adRedis := r\<rparr>)"
  "refreshHeld h (d\<lparr>adRedis := r(refreshKey env t := None)\<rparr>) \<longleftrightarrow> h \<noteq> HashToken env t \<and> refreshHeld h (d\<lparr>adRedis := r\<rparr>)"
  "refreshHeld h (d\<lparr>adRedis := r(accessKey env j \<mapsto> x)\<rparr>) \<longleftrightarrow> refreshHeld h (d\<lparr>adRedis := r\<rparr>)"
  "refreshHeld h (d\<lparr>adRedis := r(sessionKey i \<mapsto> x)\<rparr>) \<longleftrightarrow> refreshHeld h (d\<lparr>adRedis := r\<rparr>)"
  by (auto simp: refreshHeld_def refreshKey_def accessKey_def sessionKey_def)

interpretation refresh: one_shot "tokenRun env" "tokenIssued env" "tokenUsed env" "\<lambda>h w. refreshHeld h (db w)" for env
proof unfold_locales
  fix c :: tokenCall and w t
  assume used: "tokenUsed env c w = Some t"
  then obtain tok where c: "c = CallRefresh tok" by (cases c) auto
  obtain r w' where run: "RefreshToken env tok w = (r, w')" by fastforce
  with used c obtain a where "r = Inr a" "t = HashToken env (trimSpace tok)" by (auto split: sum.splits)
  then show "refreshHeld t (db w)"
    using RefreshToken_Inr [of env tok w a w'] run by (auto simp: refreshHeld_key dest!: rdLookup_Some)
next
  fix t :: gostr and c :: tokenCall and w
  assume after: "refreshHeld t (db (tokenRun env c w))"
  show "tokenIssued env c w = Some t \<or> refreshHeld t (db w) \<and> tokenUsed env c w \<noteq> Some t"
  proof (cases c)
    case (CallLogin n p)
    obtain r w' where run: "Login env n p w = (r, w')" by fastforce
    show ?thesis
    proof (cases r)
      case (Inl e)
      then show ?thesis using after CallLogin run shrinksOnD [OF shrinks_Login run] by simp
    next
      case (Inr a)
      obtain s jti t0 t1 t2 where "db w' = (db w)\<lparr>adRedis := (adRedis (db w))
       (sessionKey (asID s) \<mapsto> (SessionVal s, t0), accessKey env jti \<mapsto> (TextVal (asID s), t1),
        refreshKey env (arRefreshToken a) \<mapsto> (TextVal (asID s), t2))\<rparr>"
        using Login_Inr [OF run [unfolded Inr]] by blast
      then show ?thesis using after CallLogin run Inr by (auto simp: refreshHeld_upd issuedBy_def)
    qed
  next
    case (CallRefresh tok)
    obtain r w' where run: "RefreshToken env tok w = (r, w')" by fastforce
    show ?thesis
    proof (cases r)
      case (Inl e)
      then show ?thesis using after CallRefresh run shrinksOnD [OF shrinks_Refresh run] by simp
    next
      case (Inr a)
      obtain v jti t1 t2 where "db w' = (db w)\<lparr>adRedis := (adRedis (db w))
       (refreshKey env (trimSpace tok) := None, accessKey env jti \<mapsto> (TextVal (tokenText env v), t1),
        refreshKey env (arRefreshToken a) \<mapsto> (TextVal (tokenText env v), t2))\<rparr>"
        using RefreshToken_Inr [OF run [unfolded Inr]] by blast
      then show ?thesis using after CallRefresh run Inr by (auto simp: refreshHeld_upd issuedBy_def)
    qed
  next
    case (CallLogout tok)
    obtain r w' where run: "Logout env tok w = (r, w')" by fastforce
    then show ?thesis using after CallLogout shrinksOnD [OF shrinks_Logout run] by simp
  next
    case (CallValidate tok)
    obtain r w' where run: "ValidateToken env tok w = (r, w')" by fastforce
    then show ?thesis using after CallValidate readonlyD [OF readonly_ValidateToken run] by simp
  qed
qed

text \<open>
  C9: in any sequence of logins, refreshes, logouts and validations, with any failures of the
  database and of Redis, a refresh token is accepted at most as often as it was issued: once
  for each time it was handed out, counting one that was live at the start.
\<close>

theorem refresh_tokens_one_shot:
  "countCalls (tokenUsed env) (tokenRun env) h calls w
     \<le> countCalls (tokenIssued env) (tokenRun env) h calls w + of_bool (refreshHeld h (db w))"
  by (rule refresh.used_bound)

end
