(* ===== verification/System_Service.thy ===== *)
theory System_Service
  imports Auth_Once
begin

text \<open>
  The system service as a whole: its state is the tables and the token store, its steps are the
  calls of all its handlers, each with any request, at any time and with any pattern of failing
  statements, and the expiry of keys.  The invariant of the tables and of the token store holds
  in every reachable state.
\<close>

subsection \<open>The token store\<close>

text \<open>
  Sessions lie under their own keys, the keys of tokens hold session identifiers: a session key
  never holds anything but a session, so \<^verbatim>\<open>GetSession\<close> never meets a malformed value.
\<close>

definition tokenFits :: "gostr \<Rightarrow> tokenVal \<Rightarrow> bool" where
  "tokenFits k v =
     (case v of
        SessionVal s \<Rightarrow> k = sessionKey (asID s) \<and> okID (asID s)
      | TextVal sid \<Rightarrow> okID sid \<and> (\<forall>i. k \<noteq> sessionKey i))"

definition token_ok :: "tokenVal redis \<Rightarrow> bool" where
  "token_ok r \<longleftrightarrow> (\<forall>k v t. r k = Some (v, t) \<longrightarrow> tokenFits k v)"

definition auth_ok :: "authdb \<Rightarrow> bool" where
  "auth_ok d \<longleftrightarrow> sys_ok (adSys d) \<and> token_ok (adRedis d)"

lemma token_ok_empty [simp]: "token_ok Map.empty"
  by (simp add: token_ok_def)

lemma token_ok_put: "token_ok r \<Longrightarrow> tokenFits k v \<Longrightarrow> token_ok (r(k \<mapsto> (v, t)))"
  by (auto simp: token_ok_def)

lemma token_ok_del: "token_ok r \<Longrightarrow> token_ok (r(k := None))" "token_ok r \<Longrightarrow> token_ok (r |` A)"
  by (auto simp: token_ok_def restrict_map_def split: if_splits)

lemma token_ok_look: "token_ok r \<Longrightarrow> rdLookup now r k = Some v \<Longrightarrow> tokenFits k v"
  by (auto simp: token_ok_def dest!: rdLookup_Some)

lemma token_fits [simp]:
  "tokenFits (accessKey env j) (TextVal sid) = okID sid" "tokenFits (refreshKey env t) (TextVal sid) = okID sid"
  "tokenFits (sessionKey i) (SessionVal s) \<longleftrightarrow> trimSpace i = trimSpace (asID s) \<and> okID (asID s)"
  by (auto simp: tokenFits_def sessionKey_def) (simp_all add: accessKey_def refreshKey_def)

lemma auth_ok_eq: "auth_ok = (\<lambda>d. sys_ok (adSys d) \<and> token_ok (adRedis d))"
  by (simp add: auth_ok_def fun_eq_iff)

lemma onSys_ok:
  assumes "preserves sys_ok m"
  shows "preserves auth_ok (onSys m)"
  using sys_part.zoom_triple_frame [OF assms, of "\<lambda>d. token_ok (adRedis d)"]
  by (simp add: auth_ok_eq putSys_def conj_commute)

lemma onRedis_triple:
  assumes "triple P m Q E"
  shows "triple (\<lambda>d. sys_ok (adSys d) \<and> P (adRedis d)) (onRedis m)
     (\<lambda>x d. sys_ok (adSys d) \<and> Q x (adRedis d)) (\<lambda>e d. sys_ok (adSys d) \<and> E e (adRedis d))"
  by (rule redis_part.zoom_triple_frame [OF assms]) (simp add: putRedis_def)

lemma onRedis_ok:
  assumes "triple token_ok m (\<lambda>x d. token_ok d \<and> Q x) (\<lambda>_. token_ok)"
  shows "triple auth_ok (onRedis m) (\<lambda>x d. auth_ok d \<and> Q x) (\<lambda>_. auth_ok)"
  using onRedis_triple [OF assms] by (simp add: auth_ok_eq conj_assoc)

lemma onRedis_keeps_ok:
  assumes "preserves token_ok m"
  shows "preserves auth_ok (onRedis m)"
  using onRedis_triple [OF assms] by (simp add: auth_ok_eq)

lemma rdSet_ok: "tokenFits k v \<Longrightarrow> preserves auth_ok (onRedis (rdSet k v ttl))"
  by (intro onRedis_keeps_ok triple_rdSet) (simp_all add: token_ok_put)

lemma rdDel_ok: "preserves auth_ok (onRedis (rdDel ks))"
  by (intro onRedis_keeps_ok triple_rdDel) (simp_all add: token_ok_del)

lemma triple_failAfter: "preserves I m \<Longrightarrow> triple I (failAfter m e) Q (\<lambda>_. I)"
  unfolding failAfter_def by (rule triple_bind [where R = "\<lambda>_. I"], rule triple_try) (auto intro: triple_fail)

lemma CreateSession_ok: "okID (asID s) \<Longrightarrow> preserves auth_ok (CreateSession env s j t a b)"
  unfolding CreateSession_def Let_def
  by (intro triple_if triple_fail triple_bind [where R = "\<lambda>_. auth_ok"] triple_handle [where R = "\<lambda>_. auth_ok"]
      triple_failAfter rdDel_ok rdSet_ok) simp_all

lemma SaveRotated_ok: "okID sid \<Longrightarrow> preserves auth_ok (SaveRotatedTokens env sid j t a b)"
  unfolding SaveRotatedTokens_def Let_def
  by (intro triple_if triple_fail triple_bind [where R = "\<lambda>_. auth_ok"] triple_handle [where R = "\<lambda>_. auth_ok"]
      triple_failAfter rdDel_ok rdSet_ok) simp_all

lemma fits_refresh: "tokenFits (refreshKey env t) v \<Longrightarrow> \<exists>sid. v = TextVal sid \<and> okID sid"
  by (cases v) (auto simp: tokenFits_def)

lemma Consume_ok:
  "triple auth_ok (ConsumeRefreshSessionID env t) (\<lambda>sid d. auth_ok d \<and> okID sid) (\<lambda>_. auth_ok)"
proof -
  have get: "triple auth_ok (onRedis (rdGetDel (refreshKey env t)))
      (\<lambda>v d. auth_ok d \<and> tokenFits (refreshKey env t) v) (\<lambda>_. auth_ok)"
    by (intro onRedis_ok triple_rdGetDel) (auto simp: token_ok_del dest: token_ok_look)
  have res: "triple (\<lambda>d. auth_ok d \<and> (\<forall>v. r = Inr v \<longrightarrow> tokenFits (refreshKey env t) v)) (sessionIDResult env r)
      (\<lambda>sid d. auth_ok d \<and> okID sid) (\<lambda>_. auth_ok)" for r
    unfolding sessionIDResult_def Let_def
    by (cases r) (auto intro!: triple_if triple_fail triple_ret dest!: fits_refresh simp: tokenText_def)
  show ?thesis
    unfolding ConsumeRefreshSessionID_def
    by (intro triple_if triple_fail triple_bind [OF triple_try res] triple_post [OF get]) auto
qed

lemma auth_readonly: "readonly m \<Longrightarrow> (\<And>x. triple auth_ok (k x) Q (\<lambda>_. auth_ok)) \<Longrightarrow> triple auth_ok (bindA m k) Q (\<lambda>_. auth_ok)"
  by (rule triple_bind_readonly)

lemma issueRotated_ok: "okID sid \<Longrightarrow> preserves auth_ok (issueRotatedTokens env u rs sid ttl)"
  unfolding issueRotatedTokens_def Let_def case_prod_beta
  by (intro triple_if triple_fail auth_readonly triple_bind [OF SaveRotated_ok] triple_ret) simp_all

lemma triple_bind_uuid_gen:
  "(\<And>i. okID i \<Longrightarrow> triple P (k i) Q E) \<Longrightarrow> triple P (bindA newUUID k) Q E"
  by (rule triple_bind [where R = "\<lambda>i d. P d \<and> okID i"], rule triple_uuid) (auto intro: triple_pure)

lemma issueNew_ok: "preserves auth_ok (issueNewSessionTokens env u rs)"
  unfolding issueNewSessionTokens_def Let_def case_prod_beta
  by (intro triple_if triple_fail triple_bind_uuid_gen auth_readonly triple_bind [OF CreateSession_ok] triple_ret) simp_all

lemma Login_ok: "preserves auth_ok (Login env n p)"
  unfolding Login_def
  by (intro auth_readonly triple_if triple_fail issueNew_ok readonly_wrap sys_part.zoom_readonly) simp_all

lemma RefreshToken_ok: "preserves auth_ok (RefreshToken env t)"
proof -
  have rest: "preserves auth_ok
      (bindA (wrapErrA (\<lambda>_. badRefresh) (GetSession env sid)) (\<lambda>session.
          bindA (sessionUser (asUserID session)) (\<lambda>p.
          bindA timeNowA (\<lambda>now.
          let remaining = clampInt64 (asExpiresAt session * nanosPerSecond - now) in
          if remaining \<le> 0 then failA badRefresh
          else issueRotatedTokens env (fst p) (snd p) sid remaining))))" if "okID sid" for sid
    unfolding Let_def using that
    by (intro auth_readonly readonly_wrap triple_if triple_fail issueRotated_ok) simp_all
  show ?thesis
    unfolding RefreshToken_def Let_def case_prod_beta
    apply (intro triple_if triple_fail, assumption, assumption)
    apply (rule triple_bind [where R = "\<lambda>sid d. auth_ok d \<and> okID sid"])
     apply (rule triple_wrap, rule Consume_ok)
    apply (rule triple_pure, rule rest [unfolded Let_def], assumption)
    done
qed

lemma RevokeSession_ok: "preserves auth_ok (RevokeSession env i)"
  unfolding RevokeSession_def by (intro triple_if triple_fail rdDel_ok)

lemma Logout_ok: "preserves auth_ok (Logout env t)"
proof -
  have rest: "preserves auth_ok (case r of Inl _ \<Rightarrow> retA () | Inr sid \<Rightarrow> RevokeSession env sid)" for r :: "err + gostr"
    by (cases r) (auto intro: triple_ret RevokeSession_ok)
  have cons: "triple auth_ok (tryA (ConsumeRefreshSessionID env x)) (\<lambda>_. auth_ok) (\<lambda>_. auth_ok)" for x
    by (rule triple_try, rule triple_post [OF Consume_ok]) auto
  show ?thesis
    unfolding Logout_def Let_def
    by (intro triple_if triple_fail triple_ret triple_bind [OF cons rest])
qed

subsection \<open>Calls and reachable states\<close>

text \<open>The calls of the service; the queries are the calls that change nothing.\<close>

inductive systemCall :: "authEnv \<Rightarrow> unit authact \<Rightarrow> bool" for env where
  query: "readonly m \<Longrightarrow> systemCall env m"
| create_menu: "systemCall env (voidA (onSys (CreateMenu (aeLog env) ctx mq)))"
| update_menu: "systemCall env (voidA (onSys (UpdateMenu (aeLog env) ctx mq)))"
| delete_menu: "systemCall env (voidA (onSys (DeleteMenu (aeLog env) ctx i)))"
| menu_status: "systemCall env (voidA (onSys (setMenuStatus (aeLog env) ctx i st)))"
| sync_menu: "systemCall env (voidA (onSys (SyncGeneratedFunctionMenu sq)))"
| create_role: "systemCall env (voidA (onSys (CreateRole (aeLog env) ctx rq)))"
| update_role: "systemCall env (voidA (onSys (UpdateRole (aeLog env) ctx rq)))"
| delete_role: "systemCall env (voidA (onSys (DeleteRole (aeLog env) ctx i)))"
| role_status: "systemCall env (voidA (onSys (setRoleStatus (aeLog env) ctx i st)))"
| role_menus: "systemCall env (voidA (onSys (SetRoleMenus (aeLog env) ctx i is)))"
| create_user: "systemCall env (voidA (onSys (CreateUser env ctx uq)))"
| update_user: "systemCall env (voidA (onSys (UpdateUser env ctx uq)))"
| delete_user: "systemCall env (voidA (onSys (DeleteUser env ctx i)))"
| user_status: "systemCall env (voidA (onSys (setUserStatus env ctx i st)))"
| user_roles: "systemCall env (voidA (onSys (SetUserRoles env ctx i is)))"
| login: "systemCall env (voidA (Login env n p))"
| refresh: "systemCall env (voidA (RefreshToken env t))"
| logout: "systemCall env (Logout env t)"

inductive systemStep :: "authEnv \<Rightarrow> authdb \<Rightarrow> authdb \<Rightarrow> bool" for env where
  call: "systemCall env m \<Longrightarrow> uuids_ok w \<Longrightarrow> systemStep env (db w) (db (snd (m w)))"
| expire: "systemStep env d (d\<lparr>adRedis := adRedis d |` A\<rparr>)"

inductive_cases systemStepE: "systemStep env d d'"

definition systemInit :: "authdb \<Rightarrow> bool" where
  "systemInit d \<longleftrightarrow> sys_ok (adSys d) \<and> adRedis d = Map.empty"

lemma systemCall_ok: "systemCall env m \<Longrightarrow> preserves auth_ok m"
proof (induction rule: systemCall.induct)
  case (query m)
  then show ?case by (rule triple_readonly)
next
  case (logout t)
  then show ?case by (rule Logout_ok)
qed (intro voidA_ok onSys_ok sys_keeps Login_ok RefreshToken_ok)+

interpretation system: invariant_system systemInit "systemStep env" auth_ok for env
proof unfold_locales
  fix d assume "systemInit d"
  then show "auth_ok d" by (simp add: systemInit_def auth_ok_def)
next
  fix d d' assume "auth_ok d" and "systemStep env d d'"
  then show "auth_ok d'"
    by (elim systemStepE) (auto dest: preservesD [OF systemCall_ok] simp: auth_ok_def token_ok_del)
qed

lemma GetSession_wellformed:
  assumes "token_ok (adRedis (db w))" and "GetSession env i w = (Inl e, w')"
  shows "e \<noteq> Err ''invalid auth token session''"
proof
  assume e: "e = Err ''invalid auth token session''"
  show False
  proof (cases "onRedis (rdGet (sessionKey i)) w")
    case (Pair r w1)
    show False
    proof (cases r)
      case (Inl e')
      have "e' = RedisNil \<or> (\<exists>t. e' = Driver t)"
        using Pair Inl by (auto simp: zoomA_iff rdGet_def timedA_def stmtA_def split: option.splits)
      then show False using assms(2) Pair Inl e
        by (auto simp: GetSession_def bindA_Inl_iff wrapErrA_Inl_iff storeUnavailable_def split: if_splits)
    next
      case (Inr v)
      then obtain now where "rdLookup now (adRedis (db w)) (sessionKey i) = Some v"
        using Pair by (auto simp: zoomA_iff dest!: rdGet_Inr)
      then have "tokenFits (sessionKey i) v" by (rule token_ok_look [OF assms(1)])
      then obtain s where "v = SessionVal s" by (cases v) (auto simp: tokenFits_def)
      then show False using assms(2) Pair Inr e
        by (auto simp: GetSession_def bindA_Inl_iff wrapErrA_Inl_iff storeUnavailable_def timeNowA_iff split: if_splits)
    qed
  qed
qed

text \<open>
  C5: in every state the system service can reach from well-formed tables and an empty token
  store, by any sequence of calls with any requests and any pattern of failing statements, the
  tables are well-formed (keys and unique columns without duplicates, memberships and grants of
  existing rows only) and every session lies under its own key.
\<close>

theorem system_reachable_ok:
  assumes "reachable systemInit (systemStep env) d"
  shows "sys_ok (adSys d) \<and> token_ok (adRedis d)"
  using system.reach_inv [OF assms] by (simp add: auth_ok_def)

text \<open>A run of the witness: one role created on empty tables.\<close>

definition demoEnv :: authEnv where
  "demoEnv = \<lparr>aeSecret = ''s'', aeAccessTTL = 0, aeRefreshTTL = 1000000000, aeStore = True, aeRedis = True,
     aeLog = False, aeSign = (\<lambda>c k. Inr k), aeParse = (\<lambda>n f t. Inl JwtOther), aeSessionJSON = asID,
     aeHash = (\<lambda>s. s), aeRandom = (\<lambda>n k. Inr (replicate n CHR ''r'')), aeCompare = (\<lambda>h p. h = p),
     aeBcrypt = (\<lambda>n p. Inr p)\<rparr>"

definition demoStart :: authdb where
  "demoStart = \<lparr>adSys = exampleStore, adRedis = Map.empty\<rparr>"

definition demoMove :: authdb where
  "demoMove = db (snd (voidA (onSys (UpdateMenu (aeLog demoEnv) noUser (exampleReq ''a'' ''b'' ''dir.a'')))
     (exampleWorld demoStart)))"

lemma exampleWorld_uuids: "uuids_ok (exampleWorld d)"
proof -
  have "okID (''id-'' @ replicate n CHR ''x'')" for n
    unfolding okID_def by (cases n) (auto intro!: trimSpace_visible simp: visibleChar_def)
  then show ?thesis by (simp add: uuids_ok_def exampleWorld_def)
qed

lemma sys_ok_exampleStore: "sys_ok exampleStore"
  by (simp add: sys_ok_defs example_defs okID_def trimSpace_examples FuncUseMenuCode_def)

theorem system_reachable_ok_witness:
  "sys_ok (adSys demoMove) \<and> token_ok (adRedis demoMove)"
proof -
  have "systemInit demoStart"
    by (simp add: systemInit_def demoStart_def sys_ok_exampleStore)
  then have "reachable systemInit (systemStep demoEnv) demoStart" by (rule reachable_init)
  moreover have "systemStep demoEnv (db (exampleWorld demoStart)) demoMove"
    unfolding demoMove_def by (rule systemStep.call [OF update_menu exampleWorld_uuids])
  then have "systemStep demoEnv demoStart demoMove" by (simp add: exampleWorld_def)
  ultimately have "reachable systemInit (systemStep demoEnv) demoMove" by (rule reachable_step)
  then show ?thesis by (rule system_reachable_ok)
qed

end
