(* ===== verification/Realtime_Tickets.thy ===== *)
theory Realtime_Tickets
  imports Auth_Context Redis_Store One_Shot
begin

text \<open>
  \<^verbatim>\<open>inner-gateway/internal/realtime/ticket.go\<close>: the tickets with which a browser opens a
  realtime connection.  A manager keeps them in memory or, when it has a Redis client, in Redis
  with an expiry.  A user is stored in Redis as JSON text; the model keeps the user, and
  \<open>None\<close> for a text that is not one.
\<close>

record ticketRecord =
  trUser :: authUser
  trExpiresAt :: int

record ticketState =
  tsRecords :: "gostr \<rightharpoonup> ticketRecord"
  tsRedis :: "authUser option redis"

record ticketConf =
  tcTTL :: int
  tcStore :: bool
  tcRandom :: "nat \<Rightarrow> err + gostr"

type_synonym 'a ticketact = "(ticketState, 'a) act"

definition putTickets :: "authUser option redis \<Rightarrow> ticketState \<Rightarrow> ticketState" where
  "putTickets e d = d\<lparr>tsRedis := e\<rparr>"

interpretation ticket_part: state_part tsRedis putTickets
  by unfold_locales (simp_all add: putTickets_def)

abbreviation onTickets :: "(authUser option redis, 'a) act \<Rightarrow> 'a ticketact" where
  "onTickets \<equiv> zoomA tsRedis putTickets"

definition NewTicketManager :: "int \<Rightarrow> (nat \<Rightarrow> err + gostr) \<Rightarrow> ticketConf" where
  "NewTicketManager ttl rnd =
     \<lparr>tcTTL = (if ttl \<le> 0 then 60 * nanosPerSecond else ttl), tcStore = False, tcRandom = rnd\<rparr>"

definition NewRedisTicketManager :: "int \<Rightarrow> (nat \<Rightarrow> err + gostr) \<Rightarrow> ticketConf" where
  "NewRedisTicketManager ttl rnd = (NewTicketManager ttl rnd)\<lparr>tcStore := True\<rparr>"

definition ticketKey :: "gostr \<Rightarrow> gostr" where
  "ticketKey ticket = ''realtime:ticket:'' @ ticket"

definition badTicket :: err where
  "badTicket = Err ''invalid or expired realtime ticket''"

definition Issue :: "ticketConf \<Rightarrow> authUser \<Rightarrow> (gostr \<times> int) ticketact" where
  "Issue m u =
     (if trimSpace (auID u) = [] then failA (Err ''user is required'')
      else
        bindA (drawA (tcRandom m)) (\<lambda>rnd.
        bindA (liftA rnd) (\<lambda>ticket.
        bindA timeNowA (\<lambda>now.
        let expiresAt = now + tcTTL m in
        if tcStore m then
          bindA (onTickets (rdSet (ticketKey ticket) (Some u) (tcTTL m))) (\<lambda>_.
          retA (ticket, tcTTL m div nanosPerSecond))
        else
          bindA (updA (\<lambda>d. ((), d\<lparr>tsRecords := (tsRecords d)
                  (ticket \<mapsto> \<lparr>trUser = u, trExpiresAt = expiresAt\<rparr>)\<rparr>))) (\<lambda>_.
          retA (ticket, tcTTL m div nanosPerSecond))))))"

text \<open>The critical section of \<^verbatim>\<open>Consume\<close>: read the record and delete it.\<close>

definition takeRecord :: "gostr \<Rightarrow> ticketState \<Rightarrow> ticketRecord option \<times> ticketState" where
  "takeRecord ticket d =
     (case tsRecords d ticket of
        None \<Rightarrow> (None, d)
      | Some r \<Rightarrow> (Some r, d\<lparr>tsRecords := (tsRecords d)(ticket := None)\<rparr>))"

definition Consume :: "ticketConf \<Rightarrow> gostr \<Rightarrow> authUser ticketact" where
  "Consume m reqTicket =
     (let ticket = trimSpace reqTicket in
      if ticket = [] then failA badTicket
      else if tcStore m then
        bindA (wrapErrA (\<lambda>_. badTicket) (onTickets (rdGetDel (ticketKey ticket)))) (\<lambda>data.
        case data of
          None \<Rightarrow> failA (Err ''invalid realtime ticket'')
        | Some u \<Rightarrow> retA u)
      else
        bindA (updA (takeRecord ticket)) (\<lambda>r.
        case r of
          None \<Rightarrow> failA badTicket
        | Some rec \<Rightarrow>
            bindA timeNowA (\<lambda>now.
            if trExpiresAt rec < now then failA badTicket else retA (trUser rec))))"

subsection \<open>Running\<close>

definition ticketHeld :: "ticketConf \<Rightarrow> gostr \<Rightarrow> ticketState \<Rightarrow> bool" where
  "ticketHeld m t d \<longleftrightarrow> (if tcStore m then tsRedis d (ticketKey t) \<noteq> None else tsRecords d t \<noteq> None)"

lemma ticketKey_inj [simp]: "ticketKey t = ticketKey u \<longleftrightarrow> t = u"
  by (simp add: ticketKey_def)

lemma takeRecord_held:
  "\<not> tcStore m \<Longrightarrow> ticketHeld m t (snd (takeRecord u d)) \<longleftrightarrow> t \<noteq> u \<and> ticketHeld m t d"
  by (auto simp: takeRecord_def ticketHeld_def split: option.splits)

lemma ticketIssue_Inr:
  assumes "Issue m u w = (Inr (t, n), w')"
  shows "trimSpace (auID u) \<noteq> [] \<and> n = tcTTL m div nanosPerSecond \<and>
    (if tcStore m
     then \<exists>k. db w' = (db w)\<lparr>tsRedis := (tsRedis (db w))(ticketKey t \<mapsto> (Some u, expiryOf (clockAt w k) (tcTTL m)))\<rparr>
     else \<exists>k. db w' = (db w)\<lparr>tsRecords := (tsRecords (db w))(t \<mapsto> \<lparr>trUser = u, trExpiresAt = clockAt w k + tcTTL m\<rparr>)\<rparr>)"
proof (cases "tcStore m")
  case True
  then show ?thesis using assms
    by (auto simp: Issue_def Let_def act_Inr zoomA_iff putTickets_def dest!: rdSet_Inr split: if_splits)
next
  case False
  then show ?thesis using assms
    by (auto simp: Issue_def Let_def act_Inr split: if_splits)
qed

lemma ticketIssue_Inl: "Issue m u w = (Inl e, w') \<Longrightarrow> db w' = db w"
  by (auto simp: Issue_def Let_def bindA_Inl_iff act_Inr zoomA_iff putTickets_def updA_def drawA_def timeNowA_def
      dest!: rdSet_Inl split: if_splits)

lemma ticketConsume_Inr:
  assumes "Consume m t w = (Inr u, w')"
  shows "ticketHeld m (trimSpace t) (db w) \<and> \<not> ticketHeld m (trimSpace t) (db w') \<and>
    (if tcStore m
     then \<exists>k. rdLookup (clockAt w k) (tsRedis (db w)) (ticketKey (trimSpace t)) = Some (Some u)
     else \<exists>k r. tsRecords (db w) (trimSpace t) = Some r \<and> u = trUser r \<and> clockAt w k \<le> trExpiresAt r)"
proof (cases "tcStore m")
  case True
  then obtain w1 where 1: "onTickets (rdGetDel (ticketKey (trimSpace t))) w = (Inr (Some u), w1)" and "w' = w1"
    using assms by (auto simp: Consume_def Let_def bindA_Inr_iff split: if_splits option.splits)
  then have "rdLookup (clockAt w (tick w)) (tsRedis (db w)) (ticketKey (trimSpace t)) = Some (Some u)"
    and "tsRedis (db w') = (tsRedis (db w))(ticketKey (trimSpace t) := None)"
    by (auto simp: zoomA_iff putTickets_def dest!: rdGetDel_Inr)
  moreover from this(1) have "tsRedis (db w) (ticketKey (trimSpace t)) \<noteq> None" using rdLookup_Some by fastforce
  ultimately show ?thesis using True by (auto simp: ticketHeld_def)
next
  case False
  then show ?thesis using assms
    by (auto simp: Consume_def Let_def act_Inr takeRecord_def ticketHeld_def not_less intro!: exI [of _ "tick w"]
        split: if_splits option.splits)
qed

lemma ticketConsume_held:
  assumes "Consume m t w = (r, w')" and "ticketHeld m x (db w')"
  shows "ticketHeld m x (db w)"
proof (cases "tcStore m")
  case True
  obtain s w1 where 1: "onTickets (rdGetDel (ticketKey (trimSpace t))) w = (s, w1)" by fastforce
  then have "tsRedis (db w1) = tsRedis (db w) \<or> tsRedis (db w1) = (tsRedis (db w))(ticketKey (trimSpace t) := None)"
    by (cases s) (auto simp: zoomA_iff putTickets_def dest!: rdGetDel_Inr rdGetDel_Inl)
  moreover have "w' = w \<or> w' = w1"
    using assms(1) True 1
    by (cases s) (auto simp: Consume_def Let_def bindA_def wrapErrA_def handleA_def failA_def
        split: if_splits option.splits)
  ultimately have "tsRedis (db w') = tsRedis (db w) \<or> tsRedis (db w') = (tsRedis (db w))(ticketKey (trimSpace t) := None)"
    by blast
  then show ?thesis using assms(2) True by (auto simp: ticketHeld_def split: if_splits)
next
  case False
  have "db w' = db w \<or> db w' = snd (takeRecord (trimSpace t) (db w))"
    using assms(1) False
    by (cases r)
      (auto simp: Consume_def Let_def bindA_Inl_iff act_Inr updA_def timeNowA_def
        split: if_splits option.splits prod.splits)
  then show ?thesis using assms(2) takeRecord_held [OF False] by auto
qed

subsection \<open>One-shot\<close>

datatype ticketCall = CallIssue authUser | CallConsume gostr

fun ticketRun :: "ticketConf \<Rightarrow> ticketCall \<Rightarrow> ticketState world \<Rightarrow> ticketState world" where
  "ticketRun m (CallIssue u) w = snd (Issue m u w)"
| "ticketRun m (CallConsume t) w = snd (Consume m t w)"

fun ticketIssued :: "ticketConf \<Rightarrow> ticketCall \<Rightarrow> ticketState world \<Rightarrow> gostr option" where
  "ticketIssued m (CallIssue u) w = (case fst (Issue m u w) of Inl _ \<Rightarrow> None | Inr (t, _) \<Rightarrow> Some t)"
| "ticketIssued m (CallConsume t) w = None"

fun ticketUsed :: "ticketConf \<Rightarrow> ticketCall \<Rightarrow> ticketState world \<Rightarrow> gostr option" where
  "ticketUsed m (CallIssue u) w = None"
| "ticketUsed m (CallConsume t) w = (case fst (Consume m t w) of Inl _ \<Rightarrow> None | Inr _ \<Rightarrow> Some (trimSpace t))"

interpretation ticket: one_shot "ticketRun m" "ticketIssued m" "ticketUsed m" "\<lambda>t w. ticketHeld m t (db w)" for m
proof unfold_locales
  fix c :: ticketCall and w t
  assume used: "ticketUsed m c w = Some t"
  then obtain q where c: "c = CallConsume q" by (cases c) auto
  obtain r w' where run: "Consume m q w = (r, w')" by fastforce
  with used c obtain u where "r = Inr u" "t = trimSpace q" by (auto split: sum.splits)
  then show "ticketHeld m t (db w)" using ticketConsume_Inr [of m q w u w'] run by simp
next
  fix t :: gostr and c :: ticketCall and w
  assume after: "ticketHeld m t (db (ticketRun m c w))"
  show "ticketIssued m c w = Some t \<or> ticketHeld m t (db w) \<and> ticketUsed m c w \<noteq> Some t"
  proof (cases c)
    case (CallIssue u)
    obtain r w' where run: "Issue m u w = (r, w')" by fastforce
    show ?thesis
    proof (cases r)
      case (Inl e)
      then show ?thesis using after CallIssue run ticketIssue_Inl [of m u w e w'] by simp
    next
      case (Inr x)
      then obtain k n where x: "x = (k, n)" by fastforce
      show ?thesis using after CallIssue run Inr x ticketIssue_Inr [of m u w k n w']
        by (auto simp: ticketHeld_def split: if_splits)
    qed
  next
    case (CallConsume q)
    obtain r w' where run: "Consume m q w = (r, w')" by fastforce
    show ?thesis using after CallConsume run ticketConsume_held [OF run] ticketConsume_Inr [of m q w _ w']
      by (cases r) auto
  qed
qed

text \<open>
  C10: a ticket opens at most one connection for each time it was issued, counting one that was
  there at the start, in any sequence of calls, for tickets in memory and in Redis.
\<close>

theorem tickets_one_shot:
  "countCalls (ticketUsed m) (ticketRun m) t calls w
     \<le> countCalls (ticketIssued m) (ticketRun m) t calls w + of_bool (ticketHeld m t (db w))"
  by (rule ticket.used_bound)

text \<open>
   A ticket is good for the user it was issued for: whoever consumes it right after gets this
  user, provided the ticket is consumed in time (for Redis, the driver does not fail).
\<close>

theorem ticket_roundtrip:
  assumes "Issue m u w = (Inr (t, n), w1)" and "trimSpace t = t" and "t \<noteq> []"
    and "Consume m t w1 = (Inr v, w2)"
  shows "v = u"
  using ticketIssue_Inr [OF assms(1)] ticketConsume_Inr [OF assms(4)] assms(2)
  by (auto simp: rdLookup_def split: if_splits)

text \<open>A run of the witness: the ticket \<^verbatim>\<open>tk\<close> issued and consumed.\<close>

definition ticketWorld :: "ticketState world" where
  "ticketWorld = \<lparr>db = \<lparr>tsRecords = Map.empty, tsRedis = Map.empty\<rparr>, tick = 0, clockAt = int,
     uuidAt = (\<lambda>_. []), faultAt = (\<lambda>_. None)\<rparr>"

definition ticketUser :: authUser where
  "ticketUser = \<lparr>auID = ''u1'', auUsername = ''ada'', auRoleIDs = []\<rparr>"

definition ticketDemo :: ticketConf where
  "ticketDemo = NewTicketManager 0 (\<lambda>_. Inr ''tk'')"

definition ticketAfter :: "ticketState world" where
  "ticketAfter = snd (Issue ticketDemo ticketUser ticketWorld)"

theorem ticket_roundtrip_witness:
  "Issue ticketDemo ticketUser ticketWorld = (Inr (''tk'', 60), ticketAfter) \<and>
   fst (Consume ticketDemo ''tk'' ticketAfter) = Inr ticketUser"
proof -
  have trim: "trimSpace ''tk'' = ''tk''" "trimSpace ''u1'' = ''u1''" by (simp_all add: trimSpace_visible visibleChar_def)
  have issue: "Issue ticketDemo ticketUser ticketWorld = (Inr (''tk'', 60), ticketAfter)"
    by (simp add: ticketAfter_def Issue_def ticketDemo_def ticketUser_def ticketWorld_def NewTicketManager_def trim
        act_defs updA_def nanosPerSecond_def)
  obtain v w2 where run: "Consume ticketDemo ''tk'' ticketAfter = (Inr v, w2)"
    by (simp add: ticketAfter_def Issue_def Consume_def takeRecord_def ticketDemo_def ticketUser_def ticketWorld_def
        NewTicketManager_def trim act_defs updA_def nanosPerSecond_def)
  then have "v = ticketUser" using ticket_roundtrip [OF issue trim(1)] by simp
  then show ?thesis using issue run by simp
qed

end
