(* ===== verification/Realtime_Hub.thy ===== *)
theory Realtime_Hub
  imports Go_Base "HOL-Library.AList" "HOL-Library.Word"
begin

text \<open>
  \<^verbatim>\<open>inner-gateway/internal/realtime/handler.go\<close> and \<^verbatim>\<open>protocol.go\<close>: the hub of the
  realtime gateway.  It keeps the connected clients, the last 256 events, the running agent
  streams, the command routes and the event counter; every function below is one critical
  section or one run to the next blocking call of the code.

  A \<^verbatim>\<open>Writer\<close> is named by its connection.  What has been written is the list
  \<open>hbOut\<close>, oldest first; a connection that has been released drops its writes, as
  \<^verbatim>\<open>newConnectionWriter\<close> does, and the socket of a broken one refuses them with the
  error in \<open>hbBroken\<close>.  \<open>hbHanded\<close> is auxiliary: the events that were handed to a
  writer, by the publication or by the replay, with the connection; no operation reads it.  Payloads that the hub makes itself stay values; the
  payloads of others are opaque bytes.
\<close>

datatype payload =
    NoPayload
  | Raw gostr
  | Message gostr
  | Ready gostr

record envelope =
  evVersion :: int
  evType :: gostr
  evRequestID :: gostr
  evEventID :: gostr
  evTimestamp :: int
  evPayload :: payload

record historyEvent =
  heEnvelope :: envelope
  heTarget :: gostr

record hub =
  hbRuns :: "gostr \<rightharpoonup> gostr"
  hbCanceled :: "gostr list"
  hbRoutes :: "gostr \<rightharpoonup> (envelope \<Rightarrow> envelope list)"
  hbClients :: "(gostr \<times> gostr list) list"
  hbHistory :: "historyEvent list"
  hbSeq :: "64 word"
  hbOrigins :: "gostr list"
  hbOpen :: "gostr list"
  hbBroken :: "gostr \<rightharpoonup> gostr"
  hbOut :: "(gostr \<times> envelope) list"
  hbHanded :: "(gostr \<times> historyEvent) list"

definition NewHandler :: hub where
  "NewHandler =
     \<lparr>hbRuns = Map.empty, hbCanceled = [], hbRoutes = Map.empty, hbClients = [], hbHistory = [], hbSeq = 0,
      hbOrigins = [''http://localhost:5173'', ''http://127.0.0.1:5173'', ''http://localhost:5174'',
                   ''http://127.0.0.1:5174''],
      hbOpen = [], hbBroken = Map.empty, hbOut = [], hbHanded = []\<rparr>"

subsection \<open>Origins\<close>

definition trimRightSlash :: "gostr \<Rightarrow> gostr" where
  "trimRightSlash s = rev (dropWhile (\<lambda>c. c = CHR ''/'') (rev s))"

definition SetAllowedOrigins :: "gostr list \<Rightarrow> hub \<Rightarrow> hub" where
  "SetAllowedOrigins origins h =
     (let values = filter (\<lambda>o'. o' \<noteq> []) (map (\<lambda>o'. trimSpace (trimRightSlash o')) origins) in
      if values = [] then h else h\<lparr>hbOrigins := values\<rparr>)"

text \<open>\<open>parsed\<close> is the host of \<^verbatim>\<open>url.Parse(origin)\<close>, \<open>None\<close> for a parse error.\<close>

definition allowedOrigin :: "gostr option \<Rightarrow> gostr \<Rightarrow> bool" where
  "allowedOrigin host requestHost =
     (case host of
        None \<Rightarrow> False
      | Some hst \<Rightarrow> hst \<noteq> [] \<and>
          (hst = requestHost \<or>
           hst \<in> {''localhost:5173'', ''127.0.0.1:5173'', ''localhost:5174'', ''127.0.0.1:5174''}))"

definition UpgradeCheck :: "bool \<Rightarrow> gostr \<Rightarrow> gostr option \<Rightarrow> gostr \<Rightarrow> hub \<Rightarrow> err + unit" where
  "UpgradeCheck isUpgrade origin parsed requestHost h =
     (if \<not> isUpgrade then Inl (Err ''Upgrade Required'')
      else if origin \<noteq> [] \<and>
              (parsed = None \<or> parsed = Some [] \<or>
               (trimRightSlash origin \<notin> set (hbOrigins h) \<and> \<not> allowedOrigin parsed requestHost))
      then Inl (Err ''Forbidden'')
      else Inr ())"

subsection \<open>Writing\<close>

definition writeTo :: "gostr \<Rightarrow> envelope \<Rightarrow> hub \<Rightarrow> (err + unit) \<times> hub" where
  "writeTo c e h =
     (if c \<notin> set (hbOpen h) then (Inl (Err ''realtime connection is closed''), h)
      else case hbBroken h c of
        Some msg \<Rightarrow> (Inl (Err msg), h)
      | None \<Rightarrow> (Inr (), h\<lparr>hbOut := hbOut h @ [(c, e)]\<rparr>))"

text \<open>\<^verbatim>\<open>_ = write(e)\<close>\<close>

definition put :: "gostr \<Rightarrow> envelope \<Rightarrow> hub \<Rightarrow> hub" where
  "put c e h = snd (writeTo c e h)"

definition errorEnvelope :: "int \<Rightarrow> gostr \<Rightarrow> gostr \<Rightarrow> envelope" where
  "errorEnvelope now requestID message =
     \<lparr>evVersion = 1, evType = ''error'', evRequestID = requestID, evEventID = [], evTimestamp = now,
      evPayload = Message message\<rparr>"

definition reply :: "int \<Rightarrow> gostr \<Rightarrow> gostr \<Rightarrow> envelope" where
  "reply now typ requestID =
     \<lparr>evVersion = 1, evType = typ, evRequestID = requestID, evEventID = [], evTimestamp = now,
      evPayload = NoPayload\<rparr>"

subsection \<open>Events\<close>

record busEvent =
  beID :: gostr
  beType :: gostr
  beSchemaVersion :: int
  beTopic :: gostr
  beKey :: gostr
  beProducer :: gostr
  beOccurredAt :: int
  beCorrelationID :: gostr
  beCausationID :: gostr
  beHeaders :: "gostr \<rightharpoonup> gostr"
  bePayload :: gostr

definition eventTarget :: "busEvent \<Rightarrow> gostr" where
  "eventTarget ev = (case beHeaders ev ''userId'' of None \<Rightarrow> [] | Some u \<Rightarrow> trimSpace u)"

definition eventEnvelope :: "busEvent \<Rightarrow> envelope" where
  "eventEnvelope ev =
     \<lparr>evVersion = 1, evType = beType ev, evRequestID = beCorrelationID ev, evEventID = beID ev,
      evTimestamp = beOccurredAt ev, evPayload = Raw (bePayload ev)\<rparr>"

definition keepLast :: "nat \<Rightarrow> 'a list \<Rightarrow> 'a list" where
  "keepLast n xs = drop (length xs - n) xs"

definition clientsOf :: "gostr \<Rightarrow> hub \<Rightarrow> gostr list" where
  "clientsOf u h = (case map_of (hbClients h) u of None \<Rightarrow> [] | Some cs \<Rightarrow> cs)"

definition targetWriters :: "gostr \<Rightarrow> hub \<Rightarrow> gostr list" where
  "targetWriters target h =
     (if target \<noteq> [] then clientsOf target h else concat (map snd (hbClients h)))"

definition historyOf :: "busEvent \<Rightarrow> historyEvent" where
  "historyOf ev = \<lparr>heEnvelope = eventEnvelope ev, heTarget = eventTarget ev\<rparr>"

definition recordEvent :: "busEvent \<Rightarrow> hub \<Rightarrow> hub" where
  "recordEvent ev h =
     h\<lparr>hbHistory := keepLast 256 (hbHistory h @ [historyOf ev])\<rparr>"

text \<open>\<^verbatim>\<open>_ = write(event.envelope)\<close>, in the publication and in the replay.\<close>

definition handTo :: "gostr \<Rightarrow> historyEvent \<Rightarrow> hub \<Rightarrow> hub" where
  "handTo c he h = put c (heEnvelope he) (h\<lparr>hbHanded := hbHanded h @ [(c, he)]\<rparr>)"

definition publishEvent :: "busEvent \<Rightarrow> hub \<Rightarrow> hub" where
  "publishEvent ev h =
     (let h1 = recordEvent ev h in
      fold (\<lambda>c. handTo c (historyOf ev)) (targetWriters (eventTarget ev) h1) h1)"

definition RegisterNamespace :: "gostr \<Rightarrow> (envelope \<Rightarrow> envelope list) option \<Rightarrow> hub \<Rightarrow> hub" where
  "RegisterNamespace namespace handler h =
     (if namespace = [] \<or> handler = None then h
      else h\<lparr>hbRoutes := (hbRoutes h)(namespace := handler)\<rparr>)"

subsection \<open>Clients\<close>

definition registerClient :: "gostr \<Rightarrow> gostr \<Rightarrow> hub \<Rightarrow> hub" where
  "registerClient userID c h =
     h\<lparr>hbClients := AList.update userID (List.insert c (clientsOf userID h)) (hbClients h)\<rparr>"

definition unregisterClient :: "gostr \<Rightarrow> gostr \<Rightarrow> hub \<Rightarrow> hub" where
  "unregisterClient userID c h =
     (case map_of (hbClients h) userID of
        None \<Rightarrow> h
      | Some cs \<Rightarrow>
          let cs' = removeAll c cs in
          if cs' = [] then h\<lparr>hbClients := AList.delete userID (hbClients h)\<rparr>
          else h\<lparr>hbClients := AList.update userID cs' (hbClients h)\<rparr>)"

definition userConnections :: "gostr \<Rightarrow> hub \<Rightarrow> nat" where
  "userConnections u h = length (clientsOf u h)"

definition globalConnections :: "hub \<Rightarrow> nat" where
  "globalConnections h = sum_list (map (length \<circ> snd) (hbClients h))"

definition overLimit :: "gostr \<Rightarrow> hub \<Rightarrow> bool" where
  "overLimit u h \<longleftrightarrow> userConnections u h \<ge> 8 \<or> globalConnections h \<ge> 2000"

text \<open>Replay of the events after the cursor that the client names; \<open>seen\<close> is the loop's flag.\<close>

fun replayFrom :: "gostr \<Rightarrow> gostr \<Rightarrow> bool \<Rightarrow> historyEvent list \<Rightarrow> historyEvent list" where
  "replayFrom u cursor seen [] = []"
| "replayFrom u cursor seen (ev # evs) =
     (if evEventID (heEnvelope ev) = cursor then replayFrom u cursor True evs
      else if (seen \<or> cursor = []) \<and> (heTarget ev = [] \<or> heTarget ev = u)
      then ev # replayFrom u cursor seen evs
      else replayFrom u cursor seen evs)"

definition replay :: "gostr \<Rightarrow> gostr \<Rightarrow> gostr \<Rightarrow> hub \<Rightarrow> hub" where
  "replay u c lastEventID h =
     (let cursor = trimSpace lastEventID in
      if cursor = [] then h
      else fold (handTo c) (replayFrom u cursor False (hbHistory h)) h)"

definition readyEnvelope :: "int \<Rightarrow> gostr \<Rightarrow> envelope" where
  "readyEnvelope now u =
     \<lparr>evVersion = 1, evType = ''connection.ready'', evRequestID = [], evEventID = [], evTimestamp = now,
      evPayload = Ready u\<rparr>"

subsection \<open>Agent runs\<close>

text \<open>
  The answer of the agent service to a call is a parameter of the steps: its error text or its
  success.  \<open>startAgentStream\<close> is the run up to the calls that open the stream; its value says
  whether they are made.  \<open>decode\<close> is \<^verbatim>\<open>json.Unmarshal\<close> into the payload type, of which the hub
  itself looks at the session identifier only.
\<close>

text \<open>
  The owner of a run is the identifier of \<^verbatim>\<open>authctx.CurrentUser(ctx)\<close>, which the
  context carries trimmed (\<open>currentUserID_runOwner\<close>).
\<close>

definition runOwner :: "gostr \<Rightarrow> gostr" where
  "runOwner userID = trimSpace userID"

definition removeRun :: "gostr \<Rightarrow> hub \<Rightarrow> hub" where
  "removeRun requestID h = h\<lparr>hbRuns := (hbRuns h)(requestID := None)\<rparr>"

definition startAgentStream ::
  "(gostr \<Rightarrow> gostr option) \<Rightarrow> int \<Rightarrow> gostr \<Rightarrow> gostr \<Rightarrow> envelope \<Rightarrow> hub \<Rightarrow> bool \<times> hub" where
  "startAgentStream decode now u c e h =
     (if trimSpace (evRequestID e) = [] then (False, put c (errorEnvelope now [] ''requestId is required'') h)
      else case (case evPayload e of Raw p \<Rightarrow> decode p | _ \<Rightarrow> None) of
        None \<Rightarrow> (False, put c (errorEnvelope now (evRequestID e) ''sessionId and valid payload are required'') h)
      | Some sessionID \<Rightarrow>
          if trimSpace sessionID = [] then
            (False, put c (errorEnvelope now (evRequestID e) ''sessionId and valid payload are required'') h)
          else if hbRuns h (evRequestID e) \<noteq> None then
            (False, put c (errorEnvelope now (evRequestID e) ''requestId is already running'') h)
          else (True, h\<lparr>hbRuns := (hbRuns h)(evRequestID e \<mapsto> runOwner u)\<rparr>))"

text \<open>
  The rest of \<^verbatim>\<open>startAgentStream\<close>, after the calls to the agent service; the value says
  whether the stream goroutine was started.
\<close>

definition streamOpened :: "gostr + unit \<Rightarrow> int \<Rightarrow> gostr \<Rightarrow> gostr \<Rightarrow> hub \<Rightarrow> bool \<times> hub" where
  "streamOpened answer now c requestID h =
     (case answer of
        Inl msg \<Rightarrow> (False, put c (errorEnvelope now requestID msg) (removeRun requestID h))
      | Inr _ \<Rightarrow> (True, put c (reply now ''ai-agent.stream.accepted'' requestID) h))"

datatype received = Item bool gostr gostr | Canceled | Broken gostr

text \<open>Decimal digits, as \<^verbatim>\<open>%d\<close> prints them.\<close>

fun decimal :: "nat \<Rightarrow> gostr" where
  "decimal n = (if n < 10 then [char_of (48 + n)] else decimal (n div 10) @ [char_of (48 + n mod 10)])"

declare decimal.simps [simp del]

definition itemType :: "bool \<Rightarrow> gostr \<Rightarrow> gostr" where
  "itemType isDone typ =
     (if isDone then ''ai-agent.stream.done''
      else if typ \<noteq> [] then ''ai-agent.stream.'' @ typ
      else ''ai-agent.stream.delta'')"

text \<open>One turn of the stream goroutine; its value says whether the goroutine goes on.\<close>

definition streamTurn :: "int \<Rightarrow> gostr \<Rightarrow> gostr \<Rightarrow> received \<Rightarrow> hub \<Rightarrow> bool \<times> hub" where
  "streamTurn now c requestID r h =
     (case r of
        Canceled \<Rightarrow> (False, removeRun requestID (put c (reply now ''ai-agent.stream.canceled'' requestID) h))
      | Broken msg \<Rightarrow> (False, removeRun requestID (put c (errorEnvelope now requestID msg) h))
      | Item isDone typ payload \<Rightarrow>
          let h1 = h\<lparr>hbSeq := hbSeq h + 1\<rparr>;
              ev = \<lparr>evVersion = 1, evType = itemType isDone typ, evRequestID = requestID,
                    evEventID = requestID @ '':'' @ decimal (unat (hbSeq h1)), evTimestamp = now,
                    evPayload = Raw payload\<rparr> in
          case writeTo c ev h1 of
            (Inl _, h2) \<Rightarrow> (False, removeRun requestID h2)
          | (Inr _, h2) \<Rightarrow> if isDone then (False, removeRun requestID h2) else (True, h2))"

definition cancelRun :: "int \<Rightarrow> gostr \<Rightarrow> gostr \<Rightarrow> gostr \<Rightarrow> hub \<Rightarrow> hub" where
  "cancelRun now u c requestID h =
     (if hbRuns h requestID \<noteq> Some (runOwner u) then put c (errorEnvelope now requestID ''run not found'') h
      else put c (reply now ''ai-agent.stream.cancel.ack'' requestID) (h\<lparr>hbCanceled := hbCanceled h @ [requestID]\<rparr>))"

text \<open>\<^verbatim>\<open>answerAskUser\<close> and \<^verbatim>\<open>answerPermission\<close> differ in the payload and the acknowledgement.\<close>

definition answerWith ::
  "gostr \<Rightarrow> (gostr \<Rightarrow> bool) \<Rightarrow> gostr + unit \<Rightarrow> int \<Rightarrow> gostr \<Rightarrow> envelope \<Rightarrow> hub \<Rightarrow> hub" where
  "answerWith ack valid answer now c e h =
     (if \<not> (case evPayload e of Raw p \<Rightarrow> valid p | _ \<Rightarrow> False)
      then put c (errorEnvelope now (evRequestID e) ''invalid payload'') h
      else case answer of
        Inl msg \<Rightarrow> put c (errorEnvelope now (evRequestID e) msg) h
      | Inr _ \<Rightarrow> put c (reply now ack (evRequestID e)) h)"

definition answerAskUser :: "(gostr \<Rightarrow> bool) \<Rightarrow> gostr + unit \<Rightarrow> int \<Rightarrow> gostr \<Rightarrow> envelope \<Rightarrow> hub \<Rightarrow> hub" where
  "answerAskUser = answerWith ''ai-agent.ask-user.ack''"

definition answerPermission :: "(gostr \<Rightarrow> bool) \<Rightarrow> gostr + unit \<Rightarrow> int \<Rightarrow> gostr \<Rightarrow> envelope \<Rightarrow> hub \<Rightarrow> hub" where
  "answerPermission = answerWith ''ai-agent.tool-permission.ack''"

subsection \<open>Commands\<close>

definition ValidateCommand :: "envelope \<Rightarrow> err + unit" where
  "ValidateCommand e =
     (if evVersion e \<noteq> 1 then Inl (Err ''unsupported realtime protocol version'')
      else if trimSpace (evType e) = [] then Inl (Err ''realtime command type is required'')
      else if \<exists>c \<in> set (evType e). of_char c \<in> {32, 9, 13, 10 :: nat} then
        Inl (Err ''realtime command type is invalid'')
      else if CHR ''.'' \<in> set (evType e) \<and> trimSpace (evRequestID e) = [] then
        Inl (Err ''requestId is required for namespaced commands'')
      else Inr ())"

text \<open>The rate limit of a connection: the start of its window and the commands in it.\<close>

definition minute :: int where "minute = 60 * 1000000000"

definition rateTurn :: "int \<Rightarrow> int \<Rightarrow> int \<times> int \<Rightarrow> bool \<times> (int \<times> int)" where
  "rateTurn since now s =
     (let (windowStart, commandCount) = (if since - fst s \<ge> minute then (now, 0) else s) in
      (commandCount + 1 \<le> 120, (windowStart, commandCount + 1)))"

record commandEnv =
  ceDecode :: "gostr \<Rightarrow> gostr option"
  ceValid :: "gostr \<Rightarrow> bool"
  ceAnswer :: "gostr + unit"

text \<open>The value of \<open>dispatch\<close> says whether the command is now opening an agent stream.\<close>

definition dispatch :: "commandEnv \<Rightarrow> int \<Rightarrow> gostr \<Rightarrow> gostr \<Rightarrow> envelope \<Rightarrow> hub \<Rightarrow> bool \<times> hub" where
  "dispatch env now u c e h =
     (case (case cutAt CHR ''.'' (evType e) of None \<Rightarrow> None | Some (namespace, _) \<Rightarrow> hbRoutes h namespace) of
        Some route \<Rightarrow> (False, fold (put c) (route e) h)
      | None \<Rightarrow>
          if evType e = ''ping'' then (False, put c (reply now ''pong'' (evRequestID e)) h)
          else if evType e = ''ai-agent.stream.start'' then startAgentStream (ceDecode env) now u c e h
          else if evType e = ''ai-agent.ask-user.answer'' then
            (False, answerAskUser (ceValid env) (ceAnswer env) now c e h)
          else if evType e = ''ai-agent.tool-permission.answer'' then
            (False, answerPermission (ceValid env) (ceAnswer env) now c e h)
          else if evType e = ''ai-agent.stream.cancel'' then (False, cancelRun now u c (evRequestID e) h)
          else (False, put c (errorEnvelope now (evRequestID e) (''unsupported realtime command: '' @ evType e)) h))"

definition defaultVersion :: "envelope \<Rightarrow> envelope" where
  "defaultVersion e = (if evVersion e = 0 then e\<lparr>evVersion := 1\<rparr> else e)"

text \<open>One turn of the command loop of \<^verbatim>\<open>Serve\<close>.\<close>

definition commandTurn ::
  "commandEnv \<Rightarrow> int \<Rightarrow> int \<Rightarrow> gostr \<Rightarrow> gostr \<Rightarrow> envelope \<Rightarrow> int \<times> int \<Rightarrow> hub \<Rightarrow> (int \<times> int) \<times> bool \<times> hub" where
  "commandTurn env since now u c e0 rate h =
     (let e = defaultVersion e0 in
      case ValidateCommand e of
        Inl er \<Rightarrow> (rate, False, put c (errorEnvelope now (evRequestID e) (case er of Err m \<Rightarrow> m | _ \<Rightarrow> [])) h)
      | Inr _ \<Rightarrow>
          let (ok, rate') = rateTurn since now rate in
          if \<not> ok then
            (rate', False, put c (errorEnvelope now (evRequestID e) ''realtime command rate limit exceeded'') h)
          else (rate', dispatch env now u c e h))"

end
