(* ===== verification/Realtime_Gateway.thy ===== *)
theory Realtime_Gateway
  imports Realtime_Hub Auth_Context
begin

text \<open>
  The connections of the realtime gateway as a state machine.  \<^verbatim>\<open>Serve\<close> runs in one
  goroutine per connection and every agent stream and every publication in one of its own; a
  step is the run of one of them from one lock or blocking call to the next, so that a sequence
  of steps is an interleaving of the goroutines.

  A connection goes through the phases of \<^verbatim>\<open>Serve\<close>: its ticket was consumed
  (\<open>Opened\<close>), it passed the limit check (\<open>Admitted\<close>), it is registered
  (\<open>Joined\<close>), the ready message is sent (\<open>Greeted\<close>), it reads commands
  (\<open>Serving\<close>, with the window of its rate limit), it waits for the agent service
  (\<open>Opening\<close>), it is unregistered (\<open>Left\<close>) and its writer is closed
  (\<open>Gone\<close>).  \<open>gwPublishing\<close> holds the calls of \<^verbatim>\<open>publishEvent\<close> under way, with the
  writers that are left (\<open>None\<close> before the snapshot); run without interruption their
  steps are \<open>publishEvent\<close> (\<open>publishEvent_steps\<close>).  \<open>gwRecorded\<close> is auxiliary: the
  events recorded so far.
\<close>

datatype phase =
    Opened
  | Admitted
  | Joined
  | Greeted
  | Serving "int \<times> int"
  | Opening "int \<times> int" gostr
  | Left
  | Gone

record session =
  ssUser :: gostr
  ssCursor :: gostr
  ssPhase :: phase

record gateway =
  gwHub :: hub
  gwSessions :: "gostr \<rightharpoonup> session"
  gwStreams :: "(gostr \<times> gostr) list"
  gwPublishing :: "(busEvent \<times> gostr list option) list"
  gwRecorded :: "busEvent list"

definition setPhase :: "gostr \<Rightarrow> session \<Rightarrow> phase \<Rightarrow> gateway \<Rightarrow> gateway" where
  "setPhase c ss p s = s\<lparr>gwSessions := (gwSessions s)(c \<mapsto> ss\<lparr>ssPhase := p\<rparr>)\<rparr>"

definition setHub :: "hub \<Rightarrow> gateway \<Rightarrow> gateway" where
  "setHub h s = s\<lparr>gwHub := h\<rparr>"

definition openConn :: "gostr \<Rightarrow> hub \<Rightarrow> hub" where
  "openConn c h = h\<lparr>hbOpen := c # hbOpen h\<rparr>"

definition closeConn :: "gostr \<Rightarrow> hub \<Rightarrow> hub" where
  "closeConn c h = h\<lparr>hbOpen := removeAll c (hbOpen h)\<rparr>"

text \<open>The context of a connection names its user as the owner of runs.\<close>

lemma currentUserID_runOwner:
  "(case CurrentUser (ContextWithUser \<lparr>ctxIncoming = None, ctxOutgoing = None\<rparr> user) of
      None \<Rightarrow> [] | Some current \<Rightarrow> auID current) = runOwner (auID user)"
  by (simp add: CurrentUser_def ContextWithUser_def firstMetadataValue_def runOwner_def Let_def)

inductive gwStep :: "gateway \<Rightarrow> gateway \<Rightarrow> bool" where
  gw_accept:
    "gwSessions s c = None \<Longrightarrow> ss = \<lparr>ssUser = u, ssCursor = cursor, ssPhase = Opened\<rparr> \<Longrightarrow>
     gwStep s (setPhase c ss Opened (setHub (openConn c (gwHub s)) s))"
| gw_admit:
    "gwSessions s c = Some ss \<Longrightarrow> ssPhase ss = Opened \<Longrightarrow> \<not> overLimit (ssUser ss) (gwHub s) \<Longrightarrow>
     gwStep s (setPhase c ss Admitted s)"
| gw_refuse:
    "gwSessions s c = Some ss \<Longrightarrow> ssPhase ss = Opened \<Longrightarrow> overLimit (ssUser ss) (gwHub s) \<Longrightarrow>
     gwStep s (setPhase c ss Gone (setHub (closeConn c
       (put c (errorEnvelope now [] ''realtime connection limit exceeded'') (gwHub s))) s))"
| gw_join:
    "gwSessions s c = Some ss \<Longrightarrow> ssPhase ss = Admitted \<Longrightarrow>
     gwStep s (setPhase c ss Joined (setHub (registerClient (ssUser ss) c (gwHub s)) s))"
| gw_greet:
    "gwSessions s c = Some ss \<Longrightarrow> ssPhase ss = Joined \<Longrightarrow>
     gwStep s (setPhase c ss Greeted (setHub (put c (readyEnvelope now (ssUser ss)) (gwHub s)) s))"
| gw_replay:
    "gwSessions s c = Some ss \<Longrightarrow> ssPhase ss = Greeted \<Longrightarrow>
     gwStep s (setPhase c ss (Serving (now, 0)) (setHub (replay (ssUser ss) c (ssCursor ss) (gwHub s)) s))"
| gw_command:
    "gwSessions s c = Some ss \<Longrightarrow> ssPhase ss = Serving rate \<Longrightarrow>
     commandTurn env since now (ssUser ss) c e rate (gwHub s) = (rate', waits, h) \<Longrightarrow>
     gwStep s (setPhase c ss (if waits then Opening rate' (evRequestID e) else Serving rate') (setHub h s))"
| gw_opened:
    "gwSessions s c = Some ss \<Longrightarrow> ssPhase ss = Opening rate rid \<Longrightarrow>
     streamOpened answer now c rid (gwHub s) = (started, h) \<Longrightarrow>
     gwStep s ((setPhase c ss (Serving rate) (setHub h s))
       \<lparr>gwStreams := (if started then (rid, c) # gwStreams s else gwStreams s)\<rparr>)"
| gw_stream:
    "(rid, c) \<in> set (gwStreams s) \<Longrightarrow> streamTurn now c rid item (gwHub s) = (goesOn, h) \<Longrightarrow>
     gwStep s ((setHub h s)\<lparr>gwStreams := (if goesOn then gwStreams s else removeAll (rid, c) (gwStreams s))\<rparr>)"
| gw_break:
    "gwStep s (setHub ((gwHub s)\<lparr>hbBroken := (hbBroken (gwHub s))(c \<mapsto> msg)\<rparr>) s)"
| gw_leave:
    "gwSessions s c = Some ss \<Longrightarrow> ssPhase ss = Serving rate \<Longrightarrow>
     gwStep s (setPhase c ss Left (setHub (unregisterClient (ssUser ss) c (gwHub s)) s))"
| gw_release:
    "gwSessions s c = Some ss \<Longrightarrow> ssPhase ss = Left \<Longrightarrow>
     gwStep s (setPhase c ss Gone (setHub (closeConn c (gwHub s)) s))"
| gw_record:
    "gwStep s ((setHub (recordEvent ev (gwHub s)) s)
       \<lparr>gwPublishing := (ev, None) # gwPublishing s, gwRecorded := gwRecorded s @ [ev]\<rparr>)"
| gw_snapshot:
    "gwPublishing s = ps @ (ev, None) # qs \<Longrightarrow>
     gwStep s (s\<lparr>gwPublishing := ps @ (ev, Some (targetWriters (eventTarget ev) (gwHub s))) # qs\<rparr>)"
| gw_write:
    "gwPublishing s = ps @ (ev, Some (c # cs)) # qs \<Longrightarrow>
     gwStep s ((setHub (handTo c (historyOf ev) (gwHub s)) s)\<lparr>gwPublishing := ps @ (ev, Some cs) # qs\<rparr>)"
| gw_published:
    "gwPublishing s = ps @ (ev, Some []) # qs \<Longrightarrow> gwStep s (s\<lparr>gwPublishing := ps @ qs\<rparr>)"
| gw_configure:
    "gwStep s (setHub (SetAllowedOrigins os (gwHub s)) s)"
| gw_namespace:
    "gwStep s (setHub (RegisterNamespace ns handler (gwHub s)) s)"

definition gwInit :: "gateway \<Rightarrow> bool" where
  "gwInit s \<longleftrightarrow> s = \<lparr>gwHub = NewHandler, gwSessions = Map.empty, gwStreams = [], gwPublishing = [], gwRecorded = []\<rparr>"

subsection \<open>Frames of the hub's operations\<close>

named_theorems hub_frame \<open>which fields of the hub an operation keeps\<close>

lemma put_frame [hub_frame, simp]:
  "hbRuns (put c e h) = hbRuns h" "hbClients (put c e h) = hbClients h" "hbHistory (put c e h) = hbHistory h"
  "hbOpen (put c e h) = hbOpen h" "hbBroken (put c e h) = hbBroken h" "hbRoutes (put c e h) = hbRoutes h"
  "hbSeq (put c e h) = hbSeq h" "hbCanceled (put c e h) = hbCanceled h" "hbHanded (put c e h) = hbHanded h"
  by (simp_all add: put_def writeTo_def split: option.splits)

lemma fold_put_frame [hub_frame, simp]:
  "hbRuns (fold (put c) es h) = hbRuns h" "hbClients (fold (put c) es h) = hbClients h"
  "hbHistory (fold (put c) es h) = hbHistory h" "hbHanded (fold (put c) es h) = hbHanded h"
  by (induction es arbitrary: h) simp_all

lemma handTo_frame [hub_frame, simp]:
  "hbRuns (handTo c he h) = hbRuns h" "hbClients (handTo c he h) = hbClients h"
  "hbHistory (handTo c he h) = hbHistory h" "hbHanded (handTo c he h) = hbHanded h @ [(c, he)]"
  by (simp_all add: handTo_def)

lemma fold_handTo_frame [hub_frame, simp]:
  "hbRuns (fold (handTo c) hes h) = hbRuns h" "hbClients (fold (handTo c) hes h) = hbClients h"
  "hbHistory (fold (handTo c) hes h) = hbHistory h" "hbHanded (fold (handTo c) hes h) = hbHanded h @ map (Pair c) hes"
  by (induction hes arbitrary: h) simp_all

lemma removeRun_frame [hub_frame, simp]:
  "hbRuns (removeRun r h) = (hbRuns h)(r := None)" "hbClients (removeRun r h) = hbClients h"
  "hbHistory (removeRun r h) = hbHistory h" "hbHanded (removeRun r h) = hbHanded h"
  by (simp_all add: removeRun_def)

lemma replay_frame [hub_frame, simp]:
  "hbRuns (replay u c q h) = hbRuns h" "hbClients (replay u c q h) = hbClients h"
  "hbHistory (replay u c q h) = hbHistory h"
  "hbHanded (replay u c q h) = hbHanded h @ map (Pair c)
     (if trimSpace q = [] then [] else replayFrom u (trimSpace q) False (hbHistory h))"
  by (simp_all add: replay_def Let_def)

lemma conn_frame [hub_frame, simp]:
  "hbRuns (openConn c h) = hbRuns h" "hbClients (openConn c h) = hbClients h" "hbHistory (openConn c h) = hbHistory h"
  "hbRuns (closeConn c h) = hbRuns h" "hbClients (closeConn c h) = hbClients h" "hbHistory (closeConn c h) = hbHistory h"
  "hbHanded (openConn c h) = hbHanded h" "hbHanded (closeConn c h) = hbHanded h"
  by (simp_all add: openConn_def closeConn_def)

lemma client_frame [hub_frame, simp]:
  "hbRuns (registerClient u c h) = hbRuns h" "hbHistory (registerClient u c h) = hbHistory h"
  "hbRuns (unregisterClient u c h) = hbRuns h" "hbHistory (unregisterClient u c h) = hbHistory h"
  "hbHanded (registerClient u c h) = hbHanded h" "hbHanded (unregisterClient u c h) = hbHanded h"
  by (simp_all add: registerClient_def unregisterClient_def Let_def split: option.splits)

lemma config_frame [hub_frame, simp]:
  "hbRuns (SetAllowedOrigins os h) = hbRuns h" "hbClients (SetAllowedOrigins os h) = hbClients h"
  "hbHistory (SetAllowedOrigins os h) = hbHistory h"
  "hbRuns (RegisterNamespace ns f h) = hbRuns h" "hbClients (RegisterNamespace ns f h) = hbClients h"
  "hbHistory (RegisterNamespace ns f h) = hbHistory h"
  "hbHanded (SetAllowedOrigins os h) = hbHanded h" "hbHanded (RegisterNamespace ns f h) = hbHanded h"
  by (simp_all add: SetAllowedOrigins_def RegisterNamespace_def Let_def)

lemma record_frame [hub_frame, simp]:
  "hbRuns (recordEvent ev h) = hbRuns h" "hbClients (recordEvent ev h) = hbClients h" "hbHanded (recordEvent ev h) = hbHanded h"
  "hbHistory (recordEvent ev h) = keepLast 256 (hbHistory h @ [historyOf ev])"
  by (simp_all add: recordEvent_def)

lemma streamOpened_frame:
  assumes "streamOpened answer now c rid h = (started, h')"
  shows "hbClients h' = hbClients h \<and> hbHistory h' = hbHistory h \<and> hbHanded h' = hbHanded h \<and>
    hbRuns h' = (if started then hbRuns h else (hbRuns h)(rid := None))"
  using assms by (auto simp: streamOpened_def split: sum.splits)

lemma streamTurn_frame:
  assumes "streamTurn now c rid item h = (goesOn, h')"
  shows "hbClients h' = hbClients h \<and> hbHistory h' = hbHistory h \<and> hbHanded h' = hbHanded h \<and>
    hbRuns h' = (if goesOn then hbRuns h else (hbRuns h)(rid := None))"
  using assms
  by (auto simp: streamTurn_def writeTo_def Let_def split: received.splits prod.splits if_splits option.splits sum.splits)

lemma answerWith_frame [hub_frame, simp]:
  "hbRuns (answerWith ack valid answer now c e h) = hbRuns h"
  "hbClients (answerWith ack valid answer now c e h) = hbClients h"
  "hbHistory (answerWith ack valid answer now c e h) = hbHistory h"
  "hbHanded (answerWith ack valid answer now c e h) = hbHanded h"
  by (simp_all add: answerWith_def split: sum.splits)

lemma cancelRun_frame [hub_frame, simp]:
  "hbRuns (cancelRun now u c rid h) = hbRuns h" "hbClients (cancelRun now u c rid h) = hbClients h"
  "hbHistory (cancelRun now u c rid h) = hbHistory h" "hbHanded (cancelRun now u c rid h) = hbHanded h"
  by (simp_all add: cancelRun_def)

lemma startAgentStream_frame:
  assumes "startAgentStream decode now u c e h = (waits, h')"
  shows "hbClients h' = hbClients h \<and> hbHistory h' = hbHistory h \<and> hbHanded h' = hbHanded h \<and>
    (if waits then hbRuns h (evRequestID e) = None \<and> hbRuns h' = (hbRuns h)(evRequestID e \<mapsto> runOwner u)
     else hbRuns h' = hbRuns h)"
  using assms by (auto simp: startAgentStream_def split: if_splits option.splits payload.splits)

lemma dispatch_frame:
  assumes "dispatch env now u c e h = (waits, h')"
  shows "hbClients h' = hbClients h \<and> hbHistory h' = hbHistory h \<and> hbHanded h' = hbHanded h \<and>
    (if waits then hbRuns h (evRequestID e) = None \<and> hbRuns h' = (hbRuns h)(evRequestID e \<mapsto> runOwner u)
     else hbRuns h' = hbRuns h)"
  using assms startAgentStream_frame [of "ceDecode env" now u c e h waits h']
  by (auto simp: dispatch_def answerAskUser_def answerPermission_def simp del: fun_upd_apply
      split: option.splits if_splits prod.splits)

lemma defaultVersion_id [simp]: "evRequestID (defaultVersion e) = evRequestID e"
  by (simp add: defaultVersion_def)

lemma commandTurn_frame:
  assumes "commandTurn env since now u c e rate h = (rate', waits, h')"
  shows "hbClients h' = hbClients h \<and> hbHistory h' = hbHistory h \<and> hbHanded h' = hbHanded h \<and>
    (if waits then hbRuns h (evRequestID e) = None \<and> hbRuns h' = (hbRuns h)(evRequestID e \<mapsto> runOwner u)
     else hbRuns h' = hbRuns h)"
  using assms dispatch_frame [of env now u c "defaultVersion e" h waits h']
  by (auto simp: commandTurn_def Let_def simp del: fun_upd_apply split: sum.splits prod.splits if_splits)

subsection \<open>A publication that is not interrupted\<close>

lemma write_steps:
  "gwPublishing s = (ev, Some cs) # qs \<Longrightarrow>
   gwStep\<^sup>*\<^sup>* s ((setHub (fold (\<lambda>c. handTo c (historyOf ev)) cs (gwHub s)) s)\<lparr>gwPublishing := (ev, Some []) # qs\<rparr>)"
proof (induction cs arbitrary: s)
  case Nil
  then have "(setHub (gwHub s) s)\<lparr>gwPublishing := (ev, Some []) # qs\<rparr> = s" by (simp add: setHub_def)
  then show ?case by simp
next
  case (Cons c cs)
  let ?t = "(setHub (handTo c (historyOf ev) (gwHub s)) s)\<lparr>gwPublishing := (ev, Some cs) # qs\<rparr>"
  have "gwStep s ?t" using gw_write [of s "[]" ev c cs qs] Cons.prems by simp
  moreover have "gwStep\<^sup>*\<^sup>* ?t ((setHub (fold (\<lambda>c. handTo c (historyOf ev)) cs (gwHub ?t)) ?t)
      \<lparr>gwPublishing := (ev, Some []) # qs\<rparr>)" by (rule Cons.IH) simp
  ultimately show ?case by (simp add: setHub_def converse_rtranclp_into_rtranclp)
qed

lemma publishEvent_steps:
  "gwStep\<^sup>*\<^sup>* s ((setHub (publishEvent ev (gwHub s)) s)\<lparr>gwRecorded := gwRecorded s @ [ev]\<rparr>)"
proof -
  let ?h = "recordEvent ev (gwHub s)"
  let ?cs = "targetWriters (eventTarget ev) ?h"
  let ?s1 = "(setHub ?h s)\<lparr>gwPublishing := (ev, None) # gwPublishing s, gwRecorded := gwRecorded s @ [ev]\<rparr>"
  let ?s2 = "?s1\<lparr>gwPublishing := (ev, Some ?cs) # gwPublishing s\<rparr>"
  let ?s3 = "(setHub (fold (\<lambda>c. handTo c (historyOf ev)) ?cs (gwHub ?s2)) ?s2)\<lparr>gwPublishing := (ev, Some []) # gwPublishing s\<rparr>"
  have "gwStep s ?s1" by (rule gw_record)
  moreover have "gwStep ?s1 ?s2" using gw_snapshot [of ?s1 "[]" ev "gwPublishing s"] by (simp add: setHub_def)
  ultimately have "gwStep\<^sup>*\<^sup>* s ?s2" by (rule rtranclp.rtrancl_into_rtrancl [OF r_into_rtranclp])
  moreover have "gwStep\<^sup>*\<^sup>* ?s2 ?s3" by (rule write_steps) simp
  ultimately have "gwStep\<^sup>*\<^sup>* s ?s3" by (rule rtranclp_trans)
  moreover have "gwStep ?s3 (?s3\<lparr>gwPublishing := gwPublishing s\<rparr>)"
    using gw_published [of ?s3 "[]" ev "gwPublishing s"] by simp
  ultimately have "gwStep\<^sup>*\<^sup>* s (?s3\<lparr>gwPublishing := gwPublishing s\<rparr>)" by (rule rtranclp.rtrancl_into_rtrancl)
  moreover have "?s3\<lparr>gwPublishing := gwPublishing s\<rparr> =
      (setHub (publishEvent ev (gwHub s)) s)\<lparr>gwRecorded := gwRecorded s @ [ev]\<rparr>"
    by (simp add: setHub_def publishEvent_def Let_def)
  ultimately show ?thesis by simp
qed

subsection \<open>Clients\<close>

lemma clientsOf_frame: "hbClients h' = hbClients h \<Longrightarrow> clientsOf u h' = clientsOf u h"
  by (simp add: clientsOf_def)

lemma clientsOf_register:
  "clientsOf u' (registerClient u c h) = (if u' = u then List.insert c (clientsOf u h) else clientsOf u' h)"
  by (simp add: clientsOf_def registerClient_def update_conv')

lemma clientsOf_unregister:
  "clientsOf u' (unregisterClient u c h) = (if u' = u then removeAll c (clientsOf u h) else clientsOf u' h)"
  by (auto simp: clientsOf_def unregisterClient_def update_conv' delete_conv' Let_def split: option.splits)

lemma sum_update:
  "sum_list (map (length \<circ> snd) (AList.update k v al)) + (case map_of al k of None \<Rightarrow> 0 | Some w \<Rightarrow> length w) =
   sum_list (map (length \<circ> snd) al) + length v"
  by (induction al) auto

lemma sum_delete: "sum_list (map (length \<circ> snd) (AList.delete k al)) \<le> sum_list (map (length \<circ> snd) al)"
  by (induction al) auto

lemma global_register:
  "c \<notin> set (clientsOf u h) \<Longrightarrow> globalConnections (registerClient u c h) = Suc (globalConnections h)"
  using sum_update [of u "List.insert c (clientsOf u h)" "hbClients h"]
  by (simp add: globalConnections_def registerClient_def clientsOf_def split: option.splits)

lemma global_unregister: "globalConnections (unregisterClient u c h) \<le> globalConnections h"
proof (cases "map_of (hbClients h) u")
  case None
  then show ?thesis by (simp add: unregisterClient_def)
next
  case (Some cs)
  have "length (removeAll c cs) \<le> length cs" by simp
  then show ?thesis using Some sum_delete [of u "hbClients h"] sum_update [of u "removeAll c cs" "hbClients h"]
    by (simp add: unregisterClient_def globalConnections_def Let_def del: length_removeAll_less_eq)
qed

end
