(* ===== verification/Gateway_Claims.thy ===== *)
theory Gateway_Claims
  imports Realtime_Gateway
begin

text \<open>
  The invariants of the gateway's connections and what they give: the client table is exactly
  the set of registered connections, every run has one stream and one owner, targeted events
  reach connections of their target only, the history is bounded.
\<close>

subsection \<open>Sessions only move forward\<close>

fun rank :: "phase \<Rightarrow> nat" where
  "rank Opened = 0"
| "rank Admitted = 1"
| "rank Joined = 2"
| "rank Greeted = 3"
| "rank (Serving r) = 4"
| "rank (Opening r rid) = 4"
| "rank Left = 5"
| "rank Gone = 6"

definition registered :: "phase \<Rightarrow> bool" where
  "registered p \<longleftrightarrow> rank p \<in> {2, 3, 4}"

lemma registered_simps [simp]:
  "\<not> registered Opened" "\<not> registered Admitted" "registered Joined" "registered Greeted"
  "registered (Serving r)" "registered (Opening r rid)" "\<not> registered Left" "\<not> registered Gone"
  by (simp_all add: registered_def)

lemmas gw_simps = setPhase_def setHub_def

lemma gwStep_session:
  assumes "gwStep s t" and "gwSessions s c = Some ss"
  shows "\<exists>ss'. gwSessions t c = Some ss' \<and> ssUser ss' = ssUser ss \<and> rank (ssPhase ss) \<le> rank (ssPhase ss')"
  using assms by (cases rule: gwStep.cases) (auto simp: gw_simps)

definition regOf :: "gateway \<Rightarrow> gostr \<Rightarrow> gostr option" where
  "regOf s c =
     (case gwSessions s c of None \<Rightarrow> None | Some ss \<Rightarrow> if registered (ssPhase ss) then Some (ssUser ss) else None)"

lemma regOf_simps [simp]:
  "regOf (setPhase c ss p s) c' =
     (if c' = c then (if registered p then Some (ssUser ss) else None) else regOf s c')"
  "regOf (setHub h s) c' = regOf s c'"
  "regOf (s\<lparr>gwStreams := st\<rparr>) c' = regOf s c'"
  "regOf (s\<lparr>gwPublishing := pb\<rparr>) c' = regOf s c'"
  "regOf (s\<lparr>gwRecorded := rc\<rparr>) c' = regOf s c'"
  by (simp_all add: regOf_def gw_simps)

lemma regOf_at: "gwSessions s c = Some ss \<Longrightarrow> regOf s c = (if registered (ssPhase ss) then Some (ssUser ss) else None)"
  by (simp add: regOf_def)

lemma gwHub_simps [simp]:
  "gwHub (setPhase c ss p s) = gwHub s" "gwHub (setHub h s) = h"
  "gwStreams (setPhase c ss p s) = gwStreams s" "gwStreams (setHub h s) = gwStreams s"
  "gwPublishing (setPhase c ss p s) = gwPublishing s" "gwPublishing (setHub h s) = gwPublishing s"
  "gwRecorded (setPhase c ss p s) = gwRecorded s" "gwRecorded (setHub h s) = gwRecorded s"
  "gwSessions (setPhase c ss p s) = (gwSessions s)(c \<mapsto> ss\<lparr>ssPhase := p\<rparr>)" "gwSessions (setHub h s) = gwSessions s"
  by (simp_all add: gw_simps)

subsection \<open>The client table\<close>

definition clients_ok :: "gateway \<Rightarrow> bool" where
  "clients_ok s \<longleftrightarrow>
     (\<forall>u c. c \<in> set (clientsOf u (gwHub s)) \<longleftrightarrow> regOf s c = Some u) \<and>
     (\<forall>u. distinct (clientsOf u (gwHub s))) \<and>
     distinct (map fst (hbClients (gwHub s))) \<and> [] \<notin> snd ` set (hbClients (gwHub s))"

lemma clients_ok_frame:
  "clients_ok s \<Longrightarrow> hbClients (gwHub t) = hbClients (gwHub s) \<Longrightarrow> (\<And>c. regOf t c = regOf s c) \<Longrightarrow> clients_ok t"
  using clientsOf_frame [of "gwHub t" "gwHub s"] by (simp add: clients_ok_def)

lemma insert_nonempty: "List.insert c xs \<noteq> []"
  by (auto simp: List.insert_def)

lemma mem_update: "x \<in> set (AList.update k v al) \<Longrightarrow> x = (k, v) \<or> x \<in> set al"
  by (induction al) (auto split: if_splits)

lemma update_nonempty: "[] \<notin> snd ` set al \<Longrightarrow> v \<noteq> [] \<Longrightarrow> [] \<notin> snd ` set (AList.update k v al)"
  by (auto dest: mem_update)

lemma delete_nonempty: "[] \<notin> snd ` set al \<Longrightarrow> [] \<notin> snd ` set (AList.delete k al)"
  by (auto simp: AList.delete_eq)

lemma clients_ok_join:
  assumes ok: "clients_ok s" and c: "regOf s c = None"
    and hub: "gwHub t = registerClient u c (gwHub s)"
    and reg: "\<And>c'. regOf t c' = (if c' = c then Some u else regOf s c')"
  shows "clients_ok t"
proof -
  have new: "c \<notin> set (clientsOf u' (gwHub s))" for u' using ok c by (auto simp: clients_ok_def)
  have "[] \<notin> snd ` set (hbClients (gwHub t))"
    using ok by (simp add: hub registerClient_def clients_ok_def update_nonempty insert_nonempty)
  moreover have "distinct (map fst (hbClients (gwHub t)))"
    using ok by (simp add: hub registerClient_def clients_ok_def distinct_update)
  ultimately show ?thesis using ok new by (auto simp: clients_ok_def hub clientsOf_register reg)
qed

lemma clients_ok_leave:
  assumes ok: "clients_ok s" and c: "regOf s c = Some u"
    and hub: "gwHub t = unregisterClient u c (gwHub s)"
    and reg: "\<And>c'. regOf t c' = (if c' = c then None else regOf s c')"
  shows "clients_ok t"
proof -
  have "[] \<notin> snd ` set (hbClients (gwHub t))"
    using ok by (simp add: hub unregisterClient_def clients_ok_def Let_def update_nonempty delete_nonempty
        split: option.splits)
  moreover have "distinct (map fst (hbClients (gwHub t)))"
    using ok by (auto simp: hub unregisterClient_def clients_ok_def Let_def distinct_update distinct_delete
        split: option.splits)
  moreover have "c \<in> set (clientsOf u' (gwHub s)) \<longleftrightarrow> u' = u" for u'
    using ok c by (auto simp: clients_ok_def)
  ultimately show ?thesis using ok
    by (auto simp: clients_ok_def hub clientsOf_unregister reg distinct_removeAll)
qed

lemma clients_ok_step:
  assumes "clients_ok s" and "gwStep s t"
  shows "clients_ok t"
  using assms(2)
proof cases
  case (gw_join c ss)
  show ?thesis
    by (rule clients_ok_join [OF assms(1), of c _ "ssUser ss"]) (use gw_join in \<open>simp_all add: regOf_at\<close>)
next
  case (gw_leave c ss rate)
  show ?thesis
    by (rule clients_ok_leave [OF assms(1), of c "ssUser ss"]) (use gw_leave in \<open>simp_all add: regOf_at\<close>)
next
  case (gw_command c ss rate env since now e rate' waits h)
  then show ?thesis
    by (intro clients_ok_frame [OF assms(1)]) (auto simp: regOf_at dest: commandTurn_frame)
next
  case (gw_opened c ss rate rid answer now started h)
  then show ?thesis
    by (intro clients_ok_frame [OF assms(1)]) (auto simp: regOf_at dest: streamOpened_frame)
next
  case (gw_stream rid c now item goesOn h)
  then show ?thesis
    by (intro clients_ok_frame [OF assms(1)]) (auto dest: streamTurn_frame)
next
  case (gw_accept c ss u cursor)
  then show ?thesis
    by (intro clients_ok_frame [OF assms(1)]) (auto simp: regOf_def)
qed (rule clients_ok_frame [OF assms(1)]; force simp: regOf_at)+

subsection \<open>The history\<close>

definition history_ok :: "gateway \<Rightarrow> bool" where
  "history_ok s \<longleftrightarrow> length (hbHistory (gwHub s)) \<le> 256"

lemma length_keepLast: "length (keepLast n xs) = min n (length xs)"
  by (simp add: keepLast_def)

lemma keepLast_snoc: "keepLast n (keepLast n xs @ [x]) = keepLast n (xs @ [x])"
  by (cases "n \<le> length xs") (simp_all add: keepLast_def drop_append Suc_diff_le)

lemma history_ok_step: "history_ok s \<Longrightarrow> gwStep s t \<Longrightarrow> history_ok t"
  by (erule gwStep.cases)
    (auto simp: history_ok_def length_keepLast dest: commandTurn_frame streamOpened_frame streamTurn_frame)

subsection \<open>Runs and streams\<close>

text \<open>The agent runs under way: being opened by a connection, or fed by a stream goroutine.\<close>

definition activeRun :: "gateway \<Rightarrow> gostr \<Rightarrow> gostr \<Rightarrow> bool" where
  "activeRun s rid c \<longleftrightarrow>
     (rid, c) \<in> set (gwStreams s) \<or>
     (\<exists>ss rate. gwSessions s c = Some ss \<and> ssPhase ss = Opening rate rid)"

definition streaming :: "gateway \<Rightarrow> gostr \<Rightarrow> bool" where
  "streaming s rid \<longleftrightarrow> rid \<in> fst ` set (gwStreams s)"

definition sessUser :: "gateway \<Rightarrow> gostr \<Rightarrow> gostr option" where
  "sessUser s c = map_option ssUser (gwSessions s c)"

text \<open>The identity under which the runs of a connection are recorded.\<close>

definition sessOwner :: "gateway \<Rightarrow> gostr \<Rightarrow> gostr option" where
  "sessOwner s c = map_option runOwner (sessUser s c)"

definition openingRun :: "gateway \<Rightarrow> gostr \<Rightarrow> gostr \<Rightarrow> bool" where
  "openingRun s rid c \<longleftrightarrow> (\<exists>ss rate. gwSessions s c = Some ss \<and> ssPhase ss = Opening rate rid)"

lemma activeRun_iff: "activeRun s rid c \<longleftrightarrow> (rid, c) \<in> set (gwStreams s) \<or> openingRun s rid c"
  by (simp add: activeRun_def openingRun_def)

definition runs_ok :: "gateway \<Rightarrow> bool" where
  "runs_ok s \<longleftrightarrow>
     (\<forall>rid c. activeRun s rid c \<longrightarrow> hbRuns (gwHub s) rid = sessOwner s c \<and> sessOwner s c \<noteq> None) \<and>
     (\<forall>rid. hbRuns (gwHub s) rid \<noteq> None \<longrightarrow> (\<exists>c. activeRun s rid c)) \<and>
     (\<forall>rid c c'. activeRun s rid c \<longrightarrow> activeRun s rid c' \<longrightarrow> c = c') \<and>
     (\<forall>rid c. openingRun s rid c \<longrightarrow> \<not> streaming s rid) \<and>
     distinct (map fst (gwStreams s))"

lemma runs_okI:
  assumes "\<And>rid c. activeRun s rid c \<Longrightarrow> hbRuns (gwHub s) rid = sessOwner s c \<and> sessOwner s c \<noteq> None"
    and "\<And>rid u. hbRuns (gwHub s) rid = Some u \<Longrightarrow> \<exists>c. activeRun s rid c"
    and "\<And>rid c c'. activeRun s rid c \<Longrightarrow> activeRun s rid c' \<Longrightarrow> c = c'"
    and "\<And>rid c. openingRun s rid c \<Longrightarrow> \<not> streaming s rid"
    and "distinct (map fst (gwStreams s))"
  shows "runs_ok s"
  using assms unfolding runs_ok_def by blast

lemma runs_okD:
  assumes "runs_ok s"
  shows "activeRun s rid c \<Longrightarrow> hbRuns (gwHub s) rid = sessOwner s c \<and> sessOwner s c \<noteq> None"
    and "hbRuns (gwHub s) rid = Some u \<Longrightarrow> \<exists>c. activeRun s rid c"
    and "activeRun s rid c \<Longrightarrow> activeRun s rid c' \<Longrightarrow> c = c'"
    and "openingRun s rid c \<Longrightarrow> \<not> streaming s rid"
    and "distinct (map fst (gwStreams s))"
  using assms unfolding runs_ok_def by blast+

text \<open>A step that keeps the users of the sessions.\<close>

lemma gwStep_user: "gwStep s t \<Longrightarrow> sessUser s c \<noteq> None \<Longrightarrow> sessUser t c = sessUser s c"
  using gwStep_session [of s t c] by (auto simp: sessUser_def)

lemma gwStep_owner: "gwStep s t \<Longrightarrow> sessOwner s c \<noteq> None \<Longrightarrow> sessOwner t c = sessOwner s c"
  using gwStep_user [of s t c] by (auto simp: sessOwner_def)

text \<open>The three ways in which a step changes the runs: not at all, one more, one fewer.\<close>

lemma runs_ok_same:
  assumes ok: "runs_ok s" and step: "gwStep s t"
    and runs: "hbRuns (gwHub t) = hbRuns (gwHub s)"
    and active: "\<And>rid c. activeRun t rid c = activeRun s rid c"
    and "\<And>rid c. openingRun t rid c \<Longrightarrow> \<not> streaming t rid" and "distinct (map fst (gwStreams t))"
  shows "runs_ok t"
  by (rule runs_okI) (use assms runs_okD [OF ok] gwStep_owner [OF step] in \<open>metis\<close>)+

lemma runs_ok_start:
  assumes ok: "runs_ok s" and step: "gwStep s t" and free: "hbRuns (gwHub s) rid = None"
    and runs: "hbRuns (gwHub t) = (hbRuns (gwHub s))(rid := sessOwner s c)" and c: "sessOwner s c \<noteq> None"
    and active: "\<And>r c'. activeRun t r c' \<longleftrightarrow> activeRun s r c' \<or> (r = rid \<and> c' = c)"
    and openings: "\<And>r c'. openingRun t r c' \<longleftrightarrow> openingRun s r c' \<or> (r = rid \<and> c' = c)"
    and streams: "gwStreams t = gwStreams s"
  shows "runs_ok t"
proof (rule runs_okI)
  have none: "\<not> activeRun s rid c'" for c' using runs_okD(1) [OF ok, of rid c'] free by auto
  show "hbRuns (gwHub t) r = sessOwner t c' \<and> sessOwner t c' \<noteq> None" if "activeRun t r c'" for r c'
    using that none runs_okD(1) [OF ok, of r c'] gwStep_owner [OF step, of c'] c by (auto simp: active runs)
  show "\<exists>c. activeRun t r c" if "hbRuns (gwHub t) r = Some u" for r u
    using that runs_okD(2) [OF ok, of r u] by (auto simp: active runs split: if_splits)
  show "c' = c''" if "activeRun t r c'" "activeRun t r c''" for r c' c''
    using that none runs_okD(3) [OF ok, of r c' c''] by (auto simp: active)
  have "\<not> streaming s rid" using none by (auto simp: streaming_def activeRun_iff)
  then show "\<not> streaming t r" if "openingRun t r c'" for r c'
    using that runs_okD(4) [OF ok, of r c'] by (auto simp: openings streaming_def streams)
  show "distinct (map fst (gwStreams t))" using runs_okD(5) [OF ok] by (simp add: streams)
qed

lemma runs_ok_end:
  assumes ok: "runs_ok s" and step: "gwStep s t"
    and runs: "hbRuns (gwHub t) = (hbRuns (gwHub s))(rid := None)"
    and active: "\<And>r c'. activeRun t r c' \<longleftrightarrow> activeRun s r c' \<and> r \<noteq> rid"
    and openings: "\<And>r c'. openingRun t r c' \<Longrightarrow> openingRun s r c'"
    and streams: "gwStreams t = filter P (gwStreams s)"
  shows "runs_ok t"
proof (rule runs_okI)
  show "hbRuns (gwHub t) r = sessOwner t c' \<and> sessOwner t c' \<noteq> None" if "activeRun t r c'" for r c'
    using that runs_okD(1) [OF ok, of r c'] gwStep_owner [OF step, of c'] by (auto simp: active runs)
  show "\<exists>c. activeRun t r c" if "hbRuns (gwHub t) r = Some u" for r u
    using that runs_okD(2) [OF ok, of r u] by (auto simp: active runs split: if_splits)
  show "c' = c''" if "activeRun t r c'" "activeRun t r c''" for r c' c''
    using that runs_okD(3) [OF ok, of r c' c''] by (auto simp: active)
  show "\<not> streaming t r" if "openingRun t r c'" for r c'
    using openings [OF that] runs_okD(4) [OF ok, of r c'] by (auto simp: streaming_def streams)
  show "distinct (map fst (gwStreams t))" using runs_okD(5) [OF ok] by (simp add: streams distinct_map_filter)
qed

lemma at_phase:
  "gwSessions s c = Some ss \<Longrightarrow> sessUser s c = Some (ssUser ss)"
  "gwSessions s c = Some ss \<Longrightarrow> ssPhase ss = Opening rate rid \<Longrightarrow> openingRun s rid c"
  by (auto simp: sessUser_def openingRun_def)

lemma openingRun_setPhase [simp]:
  "openingRun (setPhase c ss p s) r c' \<longleftrightarrow>
     (if c' = c then (\<exists>rate. p = Opening rate r) else openingRun s r c')"
  "openingRun (setHub h s) r c' = openingRun s r c'"
  "openingRun (s\<lparr>gwStreams := st\<rparr>) r c' = openingRun s r c'"
  "openingRun (s\<lparr>gwPublishing := pb\<rparr>) r c' = openingRun s r c'"
  "openingRun (s\<lparr>gwRecorded := rc\<rparr>) r c' = openingRun s r c'"
  by (auto simp: openingRun_def gw_simps)

lemma not_opening:
  "gwSessions s c = Some ss \<Longrightarrow> (\<And>rate rid. ssPhase ss \<noteq> Opening rate rid) \<Longrightarrow> \<not> openingRun s r c"
  "gwSessions s c = None \<Longrightarrow> \<not> openingRun s r c"
  by (auto simp: openingRun_def)

lemma streaming_frame: "gwStreams t = gwStreams s \<Longrightarrow> streaming t rid = streaming s rid"
  by (simp add: streaming_def)

text \<open>Steps that keep the runs, the streams and the openings.\<close>

lemma runs_ok_quiet:
  assumes ok: "runs_ok s" and step: "gwStep s t"
    and runs: "hbRuns (gwHub t) = hbRuns (gwHub s)" and streams: "gwStreams t = gwStreams s"
    and openings: "\<And>rid c. openingRun t rid c = openingRun s rid c"
  shows "runs_ok t"
  using runs_okD(4,5) [OF ok] streaming_frame [OF streams]
  by (intro runs_ok_same [OF ok step runs]) (simp_all add: activeRun_iff streams openings)

lemma runs_ok_opened:
  assumes ok: "runs_ok s" and step: "gwStep s t"
    and c: "gwSessions s c = Some ss" "ssPhase ss = Opening rate rid"
    and opened: "streamOpened answer now c rid (gwHub s) = (started, h)"
    and t: "t = (setPhase c ss (Serving rate) (setHub h s))
      \<lparr>gwStreams := (if started then (rid, c) # gwStreams s else gwStreams s)\<rparr>"
  shows "runs_ok t"
proof -
  note hub = streamOpened_frame [OF opened]
  have here: "openingRun s rid c" by (rule at_phase(2) [OF c])
  have only: "openingRun s r c \<longleftrightarrow> r = rid" for r using c by (auto simp: openingRun_def)
  have other: "openingRun s rid c' \<Longrightarrow> c' = c" for c'
    using runs_okD(3) [OF ok, of rid c' c] here by (simp add: activeRun_iff)
  have notStreaming: "\<not> streaming s rid" by (rule runs_okD(4) [OF ok here])
  then have noStream: "(rid, c') \<notin> set (gwStreams s)" for c' by (force simp: streaming_def)
  show ?thesis
  proof (cases started)
    case True
    show ?thesis
    proof (rule runs_ok_same [OF ok step])
      show "hbRuns (gwHub t) = hbRuns (gwHub s)" using hub True by (simp add: t)
      show "activeRun t r c' = activeRun s r c'" for r c' using True only by (auto simp: t activeRun_iff)
      show "\<not> streaming t r" if "openingRun t r c'" for r c'
        using that True other runs_okD(4) [OF ok, of r c'] by (auto simp: t streaming_def split: if_splits)
      show "distinct (map fst (gwStreams t))"
        using True notStreaming runs_okD(5) [OF ok] by (simp add: t streaming_def)
    qed
  next
    case False
    show ?thesis
    proof (rule runs_ok_end [OF ok step, of rid])
      show "hbRuns (gwHub t) = (hbRuns (gwHub s))(rid := None)" using hub False by (simp add: t)
      show "activeRun t r c' \<longleftrightarrow> activeRun s r c' \<and> r \<noteq> rid" for r c'
        using False only other noStream by (auto simp: t activeRun_iff)
      show "openingRun s r c'" if "openingRun t r c'" for r c'
        using that by (auto simp: t split: if_splits)
      show "gwStreams t = filter (\<lambda>_. True) (gwStreams s)" using False by (simp add: t)
    qed
  qed
qed

lemma runs_ok_streamed:
  assumes ok: "runs_ok s" and step: "gwStep s t" and c: "(rid, c) \<in> set (gwStreams s)"
    and turn: "streamTurn now c rid item (gwHub s) = (goesOn, h)"
    and t: "t = (setHub h s)\<lparr>gwStreams := (if goesOn then gwStreams s else removeAll (rid, c) (gwStreams s))\<rparr>"
  shows "runs_ok t"
proof (cases goesOn)
  case True
  then show ?thesis using streamTurn_frame [OF turn]
    by (intro runs_ok_quiet [OF ok step]) (simp_all add: t)
next
  case False
  have unique: "activeRun s rid c' \<Longrightarrow> c' = c" for c'
    using runs_okD(3) [OF ok, of rid c' c] c by (simp add: activeRun_iff)
  have notOpening: "\<not> openingRun s rid c'" for c'
    using runs_okD(4) [OF ok, of rid c'] c by (force simp: streaming_def)
  show ?thesis
  proof (rule runs_ok_end [OF ok step, of rid])
    show "hbRuns (gwHub t) = (hbRuns (gwHub s))(rid := None)" using streamTurn_frame [OF turn] False by (simp add: t)
    show "activeRun t r c' \<longleftrightarrow> activeRun s r c' \<and> r \<noteq> rid" for r c'
      using False unique notOpening by (auto simp: t activeRun_iff)
    show "openingRun t r c' \<Longrightarrow> openingRun s r c'" for r c' by (simp add: t)
    show "gwStreams t = filter ((\<noteq>) (rid, c)) (gwStreams s)" using False by (simp add: t removeAll_filter_not_eq)
  qed
qed

lemma runs_ok_commanded:
  assumes ok: "runs_ok s" and step: "gwStep s t"
    and c: "gwSessions s c = Some ss" "ssPhase ss = Serving rate"
    and turn: "commandTurn env since now (ssUser ss) c e rate (gwHub s) = (rate', waits, h)"
    and t: "t = setPhase c ss (if waits then Opening rate' (evRequestID e) else Serving rate') (setHub h s)"
  shows "runs_ok t"
proof (cases waits)
  case True
  have "\<not> openingRun s r c" for r using c by (intro not_opening) auto
  then show ?thesis using True commandTurn_frame [OF turn] at_phase(1) [OF c(1)] sessOwner_def
    by (intro runs_ok_start [OF ok step, of "evRequestID e" c]) (auto simp: t activeRun_iff)
next
  case False
  have "\<not> openingRun s r c" for r using c by (intro not_opening) auto
  then show ?thesis using False commandTurn_frame [OF turn]
    by (intro runs_ok_quiet [OF ok step]) (auto simp: t)
qed

lemma runs_ok_step:
  assumes ok: "runs_ok s" and step: "gwStep s t"
  shows "runs_ok t"
  using step
proof cases
  case (gw_command c ss rate env since now e rate' waits h)
  show ?thesis by (rule runs_ok_commanded [OF ok step gw_command(2-4,1)])
next
  case (gw_opened c ss rate rid answer now started h)
  show ?thesis by (rule runs_ok_opened [OF ok step gw_opened(2-4,1)])
next
  case (gw_stream rid c now item goesOn h)
  show ?thesis by (rule runs_ok_streamed [OF ok step gw_stream(2,3,1)])
qed (rule runs_ok_quiet [OF ok step]; force simp: not_opening)+

subsection \<open>Who gets an event\<close>

definition mayRead :: "gateway \<Rightarrow> gostr \<Rightarrow> historyEvent \<Rightarrow> bool" where
  "mayRead s c he \<longleftrightarrow> (\<exists>u. sessUser s c = Some u \<and> (heTarget he = [] \<or> heTarget he = u))"

text \<open>What was handed out, is about to be handed out, or may be replayed, is an event that was recorded.\<close>

definition recorded :: "gateway \<Rightarrow> historyEvent \<Rightarrow> bool" where
  "recorded s he \<longleftrightarrow> he \<in> historyOf ` set (gwRecorded s)"

definition private_ok :: "gateway \<Rightarrow> bool" where
  "private_ok s \<longleftrightarrow>
     (\<forall>(c, he) \<in> set (hbHanded (gwHub s)). mayRead s c he \<and> recorded s he) \<and>
     (\<forall>(ev, ws) \<in> set (gwPublishing s). ev \<in> set (gwRecorded s) \<and>
        (\<forall>c \<in> set (case ws of None \<Rightarrow> [] | Some cs \<Rightarrow> cs). mayRead s c (historyOf ev))) \<and>
     (\<forall>he \<in> set (hbHistory (gwHub s)). recorded s he)"

lemma mayRead_step: "gwStep s t \<Longrightarrow> mayRead s c he \<Longrightarrow> mayRead t c he"
  using gwStep_user [of s t c] by (auto simp: mayRead_def)

lemma gwStep_recorded: "gwStep s t \<Longrightarrow> set (gwRecorded s) \<subseteq> set (gwRecorded t)"
  by (erule gwStep.cases) auto

lemma recorded_step: "gwStep s t \<Longrightarrow> recorded s he \<Longrightarrow> recorded t he"
  using gwStep_recorded by (auto simp: recorded_def)

lemma replayFrom_mem:
  "he \<in> set (replayFrom u q seen hes) \<Longrightarrow> he \<in> set hes \<and> (heTarget he = [] \<or> heTarget he = u)"
  by (induction hes arbitrary: seen) (auto split: if_splits)

lemma regOf_user: "regOf s c = Some u \<Longrightarrow> sessUser s c = Some u"
  by (auto simp: regOf_def sessUser_def split: option.splits if_splits)

lemma targetWriters_user:
  assumes ok: "clients_ok s" and c: "c \<in> set (targetWriters target (gwHub s))"
  shows "\<exists>u. sessUser s c = Some u \<and> (target = [] \<or> target = u)"
proof -
  obtain u where u: "c \<in> set (clientsOf u (gwHub s))" and "target = [] \<or> target = u"
  proof (cases "target = []")
    case True
    then obtain u cs where "(u, cs) \<in> set (hbClients (gwHub s))" "c \<in> set cs" using c by (auto simp: targetWriters_def)
    moreover from this(1) have "map_of (hbClients (gwHub s)) u = Some cs" using ok by (simp add: clients_ok_def)
    ultimately show ?thesis using that [of u] True by (simp add: clientsOf_def)
  next
    case False
    then show ?thesis using that [of target] c by (simp add: targetWriters_def)
  qed
  then show ?thesis using ok regOf_user [of s c u] by (auto simp: clients_ok_def)
qed

lemma private_ok_more:
  assumes ok: "private_ok s" and step: "gwStep s t"
    and new: "\<And>c he. (c, he) \<in> set (hbHanded (gwHub t)) \<Longrightarrow>
      (c, he) \<in> set (hbHanded (gwHub s)) \<or> mayRead s c he \<and> recorded s he"
    and pub: "\<And>ev cs c. (ev, Some cs) \<in> set (gwPublishing t) \<Longrightarrow> c \<in> set cs \<Longrightarrow>
      (\<exists>ds. (ev, Some ds) \<in> set (gwPublishing s) \<and> c \<in> set ds) \<or> mayRead s c (historyOf ev)"
    and known: "fst ` set (gwPublishing t) \<subseteq> fst ` set (gwPublishing s) \<union> set (gwRecorded t)"
    and hist: "set (hbHistory (gwHub t)) \<subseteq> set (hbHistory (gwHub s)) \<union> historyOf ` set (gwRecorded t)"
  shows "private_ok t"
proof -
  have old: "\<And>c he. (c, he) \<in> set (hbHanded (gwHub s)) \<Longrightarrow> mayRead s c he \<and> recorded s he"
    "\<And>ev cs c. (ev, Some cs) \<in> set (gwPublishing s) \<Longrightarrow> c \<in> set cs \<Longrightarrow> mayRead s c (historyOf ev)"
    "fst ` set (gwPublishing s) \<subseteq> set (gwRecorded s)" "\<And>he. he \<in> set (hbHistory (gwHub s)) \<Longrightarrow> recorded s he"
    using ok by (fastforce simp: private_ok_def)+
  have "mayRead t c he \<and> recorded t he" if "(c, he) \<in> set (hbHanded (gwHub t))" for c he
    using new [OF that] old(1) mayRead_step [OF step] recorded_step [OF step] by blast
  moreover have "mayRead t c (historyOf ev)" if "(ev, Some cs) \<in> set (gwPublishing t)" "c \<in> set cs" for ev cs c
    using pub [OF that] old(2) mayRead_step [OF step] by blast
  moreover have "fst ` set (gwPublishing t) \<subseteq> set (gwRecorded t)"
    using known old(3) gwStep_recorded [OF step] by blast
  moreover have "recorded t he" if "he \<in> set (hbHistory (gwHub t))" for he
    using that hist old(4) [of he] recorded_step [OF step, of he] by (auto simp: recorded_def)
  ultimately show ?thesis by (fastforce simp: private_ok_def split: option.splits)
qed

text \<open>A step that hands out nothing and publishes nothing.\<close>

lemma private_ok_keep:
  assumes "private_ok s" and "gwStep s t" and "hbHanded (gwHub t) = hbHanded (gwHub s)"
    and "gwPublishing t = gwPublishing s" and "hbHistory (gwHub t) = hbHistory (gwHub s)"
  shows "private_ok t"
  by (rule private_ok_more [OF assms(1,2)]) (use assms(3-5) in \<open>auto\<close>)

lemma private_ok_replay:
  assumes ok: "private_ok s" and step: "gwStep s t" and c: "gwSessions s c = Some ss"
    and t: "t = setPhase c ss p (setHub (replay (ssUser ss) c (ssCursor ss) (gwHub s)) s)"
  shows "private_ok t"
proof (rule private_ok_more [OF ok step])
  fix c' he assume "(c', he) \<in> set (hbHanded (gwHub t))"
  then have "(c', he) \<in> set (hbHanded (gwHub s)) \<or>
      c' = c \<and> he \<in> set (replayFrom (ssUser ss) (trimSpace (ssCursor ss)) False (hbHistory (gwHub s)))"
    by (auto simp: t split: if_splits)
  then show "(c', he) \<in> set (hbHanded (gwHub s)) \<or> mayRead s c' he \<and> recorded s he"
    using replayFrom_mem [of he "ssUser ss"] ok at_phase(1) [OF c] by (auto simp: mayRead_def private_ok_def)
qed (auto simp: t)

lemma private_ok_step:
  assumes ok: "private_ok s" and clients: "clients_ok s" and step: "gwStep s t"
  shows "private_ok t"
  using step
proof cases
  case (gw_replay c ss now)
  show ?thesis by (rule private_ok_replay [OF ok step gw_replay(2,1)])
next
  case (gw_snapshot ps ev qs)
  show ?thesis
  proof (rule private_ok_more [OF ok step])
    fix ev' cs c assume "(ev', Some cs) \<in> set (gwPublishing t)" "c \<in> set cs"
    then consider "(ev', Some cs) \<in> set (gwPublishing s)" | "ev' = ev" "c \<in> set (targetWriters (eventTarget ev) (gwHub s))"
      using gw_snapshot by auto
    then show "(\<exists>ds. (ev', Some ds) \<in> set (gwPublishing s) \<and> c \<in> set ds) \<or> mayRead s c (historyOf ev')"
    proof cases
      case 1
      then show ?thesis using \<open>c \<in> set cs\<close> by blast
    next
      case 2
      then show ?thesis using targetWriters_user [OF clients 2(2)] by (simp add: mayRead_def historyOf_def)
    qed
  qed (use gw_snapshot in auto)
next
  case (gw_write ps ev c cs qs)
  have "mayRead s c (historyOf ev)" "recorded s (historyOf ev)"
    using ok gw_write(2) by (auto simp: private_ok_def recorded_def)
  then show ?thesis using gw_write by (intro private_ok_more [OF ok step]) auto
next
  case (gw_record ev)
  have "set (keepLast 256 (hbHistory (gwHub s) @ [historyOf ev])) \<subseteq> insert (historyOf ev) (set (hbHistory (gwHub s)))"
    using set_drop_subset [of _ "hbHistory (gwHub s) @ [historyOf ev]"] by (auto simp: keepLast_def simp del: drop_append)
  then show ?thesis using gw_record by (intro private_ok_more [OF ok step]) auto
next
  case (gw_published ps ev qs)
  then show ?thesis by (intro private_ok_more [OF ok step]) auto
next
  case (gw_command c ss rate env since now e rate' waits h)
  then show ?thesis using commandTurn_frame [OF gw_command(4)] by (intro private_ok_keep [OF ok step]) simp_all
next
  case (gw_opened c ss rate rid answer now started h)
  then show ?thesis using streamOpened_frame [OF gw_opened(4)] by (intro private_ok_keep [OF ok step]) simp_all
next
  case (gw_stream rid c now item goesOn h)
  then show ?thesis using streamTurn_frame [OF gw_stream(3)] by (intro private_ok_keep [OF ok step]) simp_all
qed (rule private_ok_keep [OF ok step]; simp)+

subsection \<open>The invariant of the gateway\<close>

definition gateway_ok :: "gateway \<Rightarrow> bool" where
  "gateway_ok s \<longleftrightarrow> clients_ok s \<and> history_ok s \<and> runs_ok s \<and> private_ok s"

interpretation gateway: invariant_system gwInit gwStep gateway_ok
proof unfold_locales
  fix s assume "gwInit s"
  then show "gateway_ok s"
    by (simp add: gwInit_def gateway_ok_def clients_ok_def history_ok_def runs_ok_def private_ok_def NewHandler_def
        clientsOf_def regOf_def activeRun_def openingRun_def)
next
  fix s t assume "gateway_ok s" "gwStep s t"
  then show "gateway_ok t"
    by (auto simp: gateway_ok_def intro: clients_ok_step history_ok_step runs_ok_step private_ok_step)
qed

lemma reachable_ok: "reachable gwInit gwStep s \<Longrightarrow> gateway_ok s"
  by (rule gateway.reach_inv)

lemma reachable_run: "reachable gwInit gwStep s \<Longrightarrow> gwStep\<^sup>*\<^sup>* s t \<Longrightarrow> gateway_ok t"
  by (rule gateway.steps_inv [OF reachable_ok])

subsection \<open>An event is delivered to every connection that was there\<close>

text \<open>
  The event has reached the connection, or a publication of it is under way that will write to
  it, or the connection is already being torn down.
\<close>

definition beingDelivered :: "busEvent \<Rightarrow> gostr \<Rightarrow> gateway \<Rightarrow> bool" where
  "beingDelivered ev c s \<longleftrightarrow>
     (c, historyOf ev) \<in> set (hbHanded (gwHub s)) \<or> (ev, None) \<in> set (gwPublishing s) \<or>
     (\<exists>cs. (ev, Some cs) \<in> set (gwPublishing s) \<and> c \<in> set cs)"

definition served :: "busEvent \<Rightarrow> gostr \<Rightarrow> gostr \<Rightarrow> gateway \<Rightarrow> bool" where
  "served ev u c s \<longleftrightarrow>
     (\<exists>ss. gwSessions s c = Some ss \<and> ssUser ss = u \<and>
        (ssPhase ss \<in> {Left, Gone} \<or> registered (ssPhase ss) \<and> beingDelivered ev c s))"

lemma targetWriters_mem:
  assumes "clients_ok s" and "regOf s c = Some u" and "target = [] \<or> target = u"
  shows "c \<in> set (targetWriters target (gwHub s))"
proof -
  have c: "c \<in> set (clientsOf u (gwHub s))" using assms(1,2) by (simp add: clients_ok_def)
  then obtain cs where "map_of (hbClients (gwHub s)) u = Some cs" "c \<in> set cs"
    by (cases "map_of (hbClients (gwHub s)) u") (auto simp: clientsOf_def)
  then show ?thesis using assms(3) c by (force simp: targetWriters_def dest: map_of_SomeD)
qed

lemma beingDelivered_step:
  assumes ok: "clients_ok s" and step: "gwStep s t" and reg: "regOf s c = Some u"
    and target: "eventTarget ev = [] \<or> eventTarget ev = u" and here: "beingDelivered ev c s"
  shows "beingDelivered ev c t"
  using step
proof cases
  case (gw_snapshot ps ev' qs)
  then show ?thesis using here targetWriters_mem [OF ok reg target] by (auto simp: beingDelivered_def)
next
  case (gw_write ps ev' c' cs qs)
  then show ?thesis using here by (auto simp: beingDelivered_def)
next
  case (gw_command c' ss rate env since now e rate' waits h)
  then show ?thesis using here commandTurn_frame [OF gw_command(4)] by (auto simp: beingDelivered_def)
next
  case (gw_opened c' ss rate rid answer now started h)
  then show ?thesis using here streamOpened_frame [OF gw_opened(4)] by (auto simp: beingDelivered_def)
next
  case (gw_stream rid c' now item goesOn h)
  then show ?thesis using here streamTurn_frame [OF gw_stream(3)] by (auto simp: beingDelivered_def)
qed (use here in \<open>auto simp: beingDelivered_def\<close>)

lemma registered_next:
  "registered p \<Longrightarrow> rank p \<le> rank q \<Longrightarrow> registered q \<or> q \<in> {Left, Gone}"
  by (cases q) (auto simp: registered_def)

lemma served_step:
  assumes ok: "clients_ok s" and step: "gwStep s t" and target: "eventTarget ev = [] \<or> eventTarget ev = u"
    and served: "served ev u c s"
  shows "served ev u c t"
proof -
  obtain ss where ss: "gwSessions s c = Some ss" "ssUser ss = u"
    and phase: "ssPhase ss \<in> {Left, Gone} \<or> registered (ssPhase ss) \<and> beingDelivered ev c s"
    using served by (auto simp: served_def)
  obtain ss' where ss': "gwSessions t c = Some ss'" "ssUser ss' = u" "rank (ssPhase ss) \<le> rank (ssPhase ss')"
    using gwStep_session [OF step ss(1)] ss(2) by auto
  show ?thesis
  proof (cases "registered (ssPhase ss)")
    case True
    then have "beingDelivered ev c s" using phase by auto
    with beingDelivered_step [OF ok step _ target] True ss have "beingDelivered ev c t" by (simp add: regOf_def)
    then show ?thesis using registered_next [OF True ss'(3)] ss' by (auto simp: served_def)
  next
    case False
    then have "ssPhase ss' \<in> {Left, Gone}" using phase ss'(3) by (cases "ssPhase ss'") auto
    then show ?thesis using ss' by (auto simp: served_def)
  qed
qed

lemma served_run:
  assumes "gwStep\<^sup>*\<^sup>* s t" and "gateway_ok s" and "served ev u c s" and "eventTarget ev = [] \<or> eventTarget ev = u"
  shows "served ev u c t"
  using assms
proof (induction rule: rtranclp_induct)
  case base
  then show ?case by simp
next
  case (step y z)
  then have "gateway_ok y" using gateway.steps_inv by blast
  with step show ?case using served_step [of y z ev u c] by (auto simp: gateway_ok_def)
qed

subsection \<open>Connection limits\<close>

text \<open>The connections that passed the limit check and are not registered yet.\<close>

definition admittedConns :: "gateway \<Rightarrow> gostr set" where
  "admittedConns s = {c. \<exists>ss. gwSessions s c = Some ss \<and> ssPhase ss = Admitted}"

definition admittedOf :: "gostr \<Rightarrow> gateway \<Rightarrow> gostr set" where
  "admittedOf u s = {c \<in> admittedConns s. sessUser s c = Some u}"

text \<open>The runs in which at most \<open>k\<close> connections are between the check and the registration.\<close>

definition gwStepWithin :: "nat \<Rightarrow> gateway \<Rightarrow> gateway \<Rightarrow> bool" where
  "gwStepWithin k s t \<longleftrightarrow> gwStep s t \<and> card (admittedConns t) \<le> k"

definition within_limits :: "nat \<Rightarrow> gateway \<Rightarrow> bool" where
  "within_limits k s \<longleftrightarrow>
     clients_ok s \<and> finite (dom (gwSessions s)) \<and>
     (\<forall>u. userConnections u (gwHub s) + card (admittedOf u s) \<le> 7 + k) \<and>
     globalConnections (gwHub s) + card (admittedConns s) \<le> 1999 + k"

lemma admittedConns_simps [simp]:
  "admittedConns (setPhase c ss p s) = (if p = Admitted then insert c (admittedConns s) else admittedConns s - {c})"
  "admittedConns (setHub h s) = admittedConns s"
  "admittedConns (s\<lparr>gwStreams := st\<rparr>) = admittedConns s"
  "admittedConns (s\<lparr>gwPublishing := pb\<rparr>) = admittedConns s"
  "admittedConns (s\<lparr>gwRecorded := rc\<rparr>) = admittedConns s"
  by (auto simp: admittedConns_def gw_simps)

lemma gwStep_finite: "gwStep s t \<Longrightarrow> finite (dom (gwSessions s)) \<Longrightarrow> finite (dom (gwSessions t))"
  by (erule gwStep.cases) auto

lemma finite_admitted: "finite (dom (gwSessions s)) \<Longrightarrow> finite (admittedConns s)"
  by (rule finite_subset [of _ "dom (gwSessions s)"]) (auto simp: admittedConns_def)

lemma admittedOf_le: "finite (dom (gwSessions s)) \<Longrightarrow> card (admittedOf u s) \<le> card (admittedConns s)"
  by (rule card_mono) (auto simp: finite_admitted admittedOf_def)

lemma admittedOf_step:
  assumes "gwStep s t"
  shows "admittedConns t \<subseteq> insert c (admittedConns s) \<Longrightarrow> sessUser s c \<noteq> Some u \<Longrightarrow> sessUser s c \<noteq> None \<Longrightarrow>
      admittedOf u t \<subseteq> admittedOf u s"
    and "admittedConns t \<subseteq> admittedConns s \<Longrightarrow> admittedOf u t \<subseteq> admittedOf u s"
proof -
  have user: "sessUser t c' = sessUser s c'" if "sessUser s c' \<noteq> None" for c'
    using gwStep_user [OF assms that] .
  have known: "c' \<in> admittedConns s \<Longrightarrow> sessUser s c' \<noteq> None" for c'
    by (auto simp: admittedConns_def sessUser_def)
  show "admittedOf u t \<subseteq> admittedOf u s"
    if "admittedConns t \<subseteq> insert c (admittedConns s)" "sessUser s c \<noteq> Some u" "sessUser s c \<noteq> None"
    using that user known by (auto simp: admittedOf_def)
  show "admittedOf u t \<subseteq> admittedOf u s" if "admittedConns t \<subseteq> admittedConns s"
    using that user known by (auto simp: admittedOf_def)
qed

lemma within_limits_fewer:
  assumes ok: "within_limits k s" and step: "gwStep s t"
    and "\<And>u. userConnections u (gwHub t) \<le> userConnections u (gwHub s)"
    and "globalConnections (gwHub t) \<le> globalConnections (gwHub s)"
    and sub: "admittedConns t \<subseteq> admittedConns s"
  shows "within_limits k t"
proof -
  have fin: "finite (dom (gwSessions s))" using ok by (simp add: within_limits_def)
  have "card (admittedConns t) \<le> card (admittedConns s)" by (rule card_mono [OF finite_admitted [OF fin] sub])
  moreover have "card (admittedOf u t) \<le> card (admittedOf u s)" for u
    by (rule card_mono) (use finite_admitted [OF fin] admittedOf_step(2) [OF step sub] in \<open>auto simp: admittedOf_def\<close>)
  moreover have "clients_ok t" using ok clients_ok_step [OF _ step] by (simp add: within_limits_def)
  ultimately show ?thesis using assms gwStep_finite [OF step fin]
    unfolding within_limits_def by (meson add_mono le_trans)
qed

lemma within_limits_admit:
  assumes ok: "within_limits k s" and step: "gwStep s t" and "card (admittedConns t) \<le> k"
    and c: "gwSessions s c = Some ss" and limit: "\<not> overLimit (ssUser ss) (gwHub s)"
    and t: "t = setPhase c ss Admitted s"
  shows "within_limits k t"
proof -
  have fin: "finite (dom (gwSessions s))" using ok by (simp add: within_limits_def)
  note fint = gwStep_finite [OF step fin]
  have clients: "clients_ok t" using ok clients_ok_step [OF _ step] by (simp add: within_limits_def)
  have "userConnections u (gwHub t) + card (admittedOf u t) \<le> 7 + k" for u
  proof (cases "ssUser ss = u")
    case True
    then show ?thesis using limit assms(3) admittedOf_le [OF fint, of u] by (simp add: t overLimit_def)
  next
    case False
    have "admittedOf u t \<subseteq> admittedOf u s"
      by (rule admittedOf_step(1) [OF step, of c]) (use False at_phase(1) [OF c] in \<open>auto simp: t\<close>)
    then have "card (admittedOf u t) \<le> card (admittedOf u s)"
      by (rule card_mono [rotated]) (use finite_admitted [OF fin] in \<open>simp add: admittedOf_def\<close>)
    moreover have "userConnections u (gwHub s) + card (admittedOf u s) \<le> 7 + k"
      using ok by (simp add: within_limits_def)
    ultimately show ?thesis by (simp add: t)
  qed
  moreover have "globalConnections (gwHub t) + card (admittedConns t) \<le> 1999 + k"
    using limit assms(3) by (simp add: t overLimit_def)
  ultimately show ?thesis using clients fint by (simp add: within_limits_def)
qed

lemma within_limits_join:
  assumes ok: "within_limits k s" and step: "gwStep s t"
    and c: "gwSessions s c = Some ss" "ssPhase ss = Admitted"
    and t: "t = setPhase c ss Joined (setHub (registerClient (ssUser ss) c (gwHub s)) s)"
  shows "within_limits k t"
proof -
  have fin: "finite (dom (gwSessions s))" using ok by (simp add: within_limits_def)
  have clients: "clients_ok s" using ok by (simp add: within_limits_def)
  have new: "c \<notin> set (clientsOf u (gwHub s))" for u using clients c by (simp add: clients_ok_def regOf_at)
  have here: "c \<in> admittedConns s" using c by (simp add: admittedConns_def)
  have conns: "admittedConns t = admittedConns s - {c}" by (simp add: t)
  have user: "sessUser t c' = sessUser s c'" for c' using c by (simp add: t sessUser_def)
  have "admittedOf u t = admittedOf u s - {c}" for u
    using user by (auto simp: admittedOf_def conns)
  moreover have "c \<in> admittedOf u s \<longleftrightarrow> u = ssUser ss" for u
    using here c by (auto simp: admittedOf_def sessUser_def)
  moreover have fina: "finite (admittedOf u s)" for u using finite_admitted [OF fin] by (simp add: admittedOf_def)
  ultimately have of: "card (admittedOf u s) = card (admittedOf u t) + of_bool (u = ssUser ss)" for u
    using card_Suc_Diff1 [OF fina, of c u] by auto
  have all: "card (admittedConns s) = Suc (card (admittedConns t))"
    using card_Suc_Diff1 [OF finite_admitted [OF fin] here] by (simp add: conns)
  have "userConnections u (gwHub t) = userConnections u (gwHub s) + of_bool (u = ssUser ss)" for u
    using new by (simp add: t userConnections_def clientsOf_register)
  moreover have "userConnections u (gwHub s) + card (admittedOf u s) \<le> 7 + k" for u
    using ok by (simp add: within_limits_def)
  ultimately have "userConnections u (gwHub t) + card (admittedOf u t) \<le> 7 + k" for u
    using of by (metis add.assoc add.commute)
  moreover have "globalConnections (gwHub t) = Suc (globalConnections (gwHub s))"
    using new by (simp add: t global_register)
  moreover have "globalConnections (gwHub s) + card (admittedConns s) \<le> 1999 + k"
    using ok by (simp add: within_limits_def)
  ultimately show ?thesis using all clients_ok_step [OF clients step] gwStep_finite [OF step fin]
    by (simp add: within_limits_def)
qed

lemma connections_frame:
  "hbClients h' = hbClients h \<Longrightarrow> userConnections u h' = userConnections u h \<and> globalConnections h' = globalConnections h"
  by (simp add: userConnections_def globalConnections_def clientsOf_def)

lemma within_limits_frame:
  assumes "within_limits k s" and "gwStep s t" and "hbClients (gwHub t) = hbClients (gwHub s)"
    and "admittedConns t \<subseteq> admittedConns s"
  shows "within_limits k t"
  by (rule within_limits_fewer [OF assms(1,2)]) (use assms connections_frame [OF assms(3)] in simp_all)

lemma within_limits_step:
  assumes ok: "within_limits k s" and bound: "gwStepWithin k s t"
  shows "within_limits k t"
proof -
  have step: "gwStep s t" and k: "card (admittedConns t) \<le> k" using bound by (simp_all add: gwStepWithin_def)
  show ?thesis using step
  proof cases
    case (gw_admit c ss)
    show ?thesis by (rule within_limits_admit [OF ok step k gw_admit(2,4,1)])
  next
    case (gw_join c ss)
    show ?thesis by (rule within_limits_join [OF ok step gw_join(2,3,1)])
  next
    case (gw_leave c ss rate)
    then show ?thesis
      by (intro within_limits_fewer [OF ok step]) (auto simp: userConnections_def clientsOf_unregister global_unregister)
  next
    case (gw_command c ss rate env since now e rate' waits h)
    then show ?thesis using commandTurn_frame [OF gw_command(4)] by (intro within_limits_frame [OF ok step]) auto
  next
    case (gw_opened c ss rate rid answer now started h)
    then show ?thesis using streamOpened_frame [OF gw_opened(4)] by (intro within_limits_frame [OF ok step]) auto
  next
    case (gw_stream rid c now item goesOn h)
    then show ?thesis using streamTurn_frame [OF gw_stream(3)] by (intro within_limits_frame [OF ok step]) auto
  qed (rule within_limits_frame [OF ok step]; auto)+
qed

interpretation limits: invariant_system gwInit "gwStepWithin k" "within_limits k" for k
proof unfold_locales
  fix s assume "gwInit s"
  then show "within_limits k s"
    by (simp add: gwInit_def within_limits_def clients_ok_def NewHandler_def clientsOf_def regOf_def userConnections_def
        globalConnections_def admittedConns_def admittedOf_def)
next
  fix s t assume "within_limits k s" "gwStepWithin k s t"
  then show "within_limits k t" by (rule within_limits_step)
qed

end
