(* ===== verification/Realtime_Claims.thy ===== *)
theory Realtime_Claims
  imports Gateway_Claims
begin

text \<open>
  What holds of the gateway in every interleaving of its goroutines: the client table, the
  delivery and the privacy of events, the connection limits and the race they leave open, the
  rate limit, the history and the replay, and who can cancel a run.
\<close>

subsection \<open>A run of the witnesses\<close>

text \<open>
  One connection \<^verbatim>\<open>c\<close> of the user \<^verbatim>\<open>u\<close> is registered; then an event
  for this user is recorded and written.
\<close>

definition demoEvent :: busEvent where
  "demoEvent = \<lparr>beID = ''e1'', beType = ''note'', beSchemaVersion = 1, beTopic = ''t'', beKey = ''k'',
     beProducer = ''p'', beOccurredAt = 7, beCorrelationID = [], beCausationID = [],
     beHeaders = [''userId'' \<mapsto> ''u''], bePayload = ''{}''\<rparr>"

definition demoSession :: "phase \<Rightarrow> session" where
  "demoSession p = \<lparr>ssUser = ''u'', ssCursor = [], ssPhase = p\<rparr>"

definition gatewayStart :: gateway where
  "gatewayStart = \<lparr>gwHub = NewHandler, gwSessions = Map.empty, gwStreams = [], gwPublishing = [], gwRecorded = []\<rparr>"

definition demoAccepted :: gateway where
  "demoAccepted = setPhase ''c'' (demoSession Opened) Opened (setHub (openConn ''c'' NewHandler) gatewayStart)"

definition demoAdmitted :: gateway where
  "demoAdmitted = setPhase ''c'' (demoSession Opened) Admitted demoAccepted"

definition demoJoined :: gateway where
  "demoJoined = setPhase ''c'' (demoSession Admitted) Joined
     (setHub (registerClient ''u'' ''c'' (gwHub demoAdmitted)) demoAdmitted)"

definition demoRecorded :: gateway where
  "demoRecorded = (setHub (recordEvent demoEvent (gwHub demoJoined)) demoJoined)
     \<lparr>gwPublishing := (demoEvent, None) # gwPublishing demoJoined, gwRecorded := gwRecorded demoJoined @ [demoEvent]\<rparr>"

definition demoSnapshot :: gateway where
  "demoSnapshot = demoRecorded\<lparr>gwPublishing :=
     [] @ (demoEvent, Some (targetWriters (eventTarget demoEvent) (gwHub demoRecorded))) # []\<rparr>"

definition demoWritten :: gateway where
  "demoWritten = (setHub (handTo ''c'' (historyOf demoEvent) (gwHub demoSnapshot)) demoSnapshot)
     \<lparr>gwPublishing := [] @ (demoEvent, Some []) # []\<rparr>"

lemmas demo_defs = demoAccepted_def demoAdmitted_def demoJoined_def demoRecorded_def demoSnapshot_def
  demoWritten_def gatewayStart_def demoSession_def gw_simps

lemma demo_fields:
  "gwSessions demoAccepted ''c'' = Some (demoSession Opened)"
  "gwSessions demoAdmitted ''c'' = Some (demoSession Admitted)"
  "gwSessions demoJoined ''c'' = Some (demoSession Joined)"
  "gwPublishing demoJoined = []" "gwPublishing demoRecorded = [(demoEvent, None)]"
  "hbClients (gwHub demoRecorded) = [(''u'', [''c''])]" "hbClients (gwHub demoAccepted) = []"
  by (simp_all add: demo_defs openConn_def registerClient_def recordEvent_def clientsOf_def NewHandler_def)

lemma demo_target: "eventTarget demoEvent = ''u''"
  by (simp add: eventTarget_def demoEvent_def trimSpace_visible visibleChar_def)

lemma demo_steps:
  "gwStep gatewayStart demoAccepted" "gwStep demoAccepted demoAdmitted" "gwStep demoAdmitted demoJoined"
  "gwStep demoJoined demoRecorded" "gwStep demoRecorded demoSnapshot" "gwStep demoSnapshot demoWritten"
proof -
  have "gwStep gatewayStart
      (setPhase ''c'' (demoSession Opened) Opened (setHub (openConn ''c'' (gwHub gatewayStart)) gatewayStart))"
    by (rule gw_accept [of _ _ _ "''u''" "[]"]) (simp_all add: gatewayStart_def demoSession_def)
  then show "gwStep gatewayStart demoAccepted" by (simp add: demoAccepted_def gatewayStart_def)
  show "gwStep demoAccepted demoAdmitted" unfolding demoAdmitted_def
    by (rule gw_admit) (simp_all add: demo_fields demoSession_def overLimit_def userConnections_def clientsOf_def
        globalConnections_def)
  have "gwStep demoAdmitted (setPhase ''c'' (demoSession Admitted) Joined
      (setHub (registerClient (ssUser (demoSession Admitted)) ''c'' (gwHub demoAdmitted)) demoAdmitted))"
    by (rule gw_join) (simp_all add: demo_fields demoSession_def)
  then show "gwStep demoAdmitted demoJoined" by (simp add: demoJoined_def demoSession_def)
  show "gwStep demoJoined demoRecorded" unfolding demoRecorded_def by (rule gw_record)
  show "gwStep demoRecorded demoSnapshot" unfolding demoSnapshot_def by (rule gw_snapshot) (simp add: demo_fields)
  have "targetWriters (eventTarget demoEvent) (gwHub demoRecorded) = [''c'']"
    by (simp add: targetWriters_def demo_target clientsOf_def demo_fields)
  then have "gwPublishing demoSnapshot = [] @ (demoEvent, Some [''c'']) # []" by (simp add: demoSnapshot_def)
  then show "gwStep demoSnapshot demoWritten" unfolding demoWritten_def by (rule gw_write)
qed

lemma demo_reachable: "reachable gwInit gwStep demoWritten" "reachable gwInit gwStep demoJoined"
proof -
  have "gwInit gatewayStart" by (simp add: gwInit_def gatewayStart_def)
  then show "reachable gwInit gwStep demoJoined" using demo_steps by (meson reachable.intros)
  then show "reachable gwInit gwStep demoWritten" using demo_steps by (meson reachable.intros)
qed

lemma demo_delivered: "(''c'', historyOf demoEvent) \<in> set (hbHanded (gwHub demoWritten))"
  by (simp add: demoWritten_def setHub_def)

text \<open>
  A second run with a replay: an event for all and the event for \<^verbatim>\<open>u\<close> are published while
  nobody is connected; then a connection of this user and one of a stranger arrive, both with
  the first event as their cursor.
\<close>

definition olderEvent :: busEvent where
  "olderEvent = demoEvent\<lparr>beID := ''e0'', beHeaders := Map.empty\<rparr>"

lemma connections_register:
  "userConnections v (registerClient u c h) \<le> Suc (userConnections v h)"
  "globalConnections (registerClient u c h) \<le> Suc (globalConnections h)"
proof -
  show "userConnections v (registerClient u c h) \<le> Suc (userConnections v h)"
    by (simp add: userConnections_def clientsOf_register List.insert_def)
  have "length (List.insert c (clientsOf u h)) \<le> Suc (length (clientsOf u h))" by (simp add: List.insert_def)
  then show "globalConnections (registerClient u c h) \<le> Suc (globalConnections h)"
    using sum_update [of u "List.insert c (clientsOf u h)" "hbClients h"]
    by (simp add: globalConnections_def registerClient_def clientsOf_def split: option.splits)
qed

lemma reachable_steps: "gwStep\<^sup>*\<^sup>* s t \<Longrightarrow> reachable gwInit gwStep s \<Longrightarrow> reachable gwInit gwStep t"
  by (induction rule: rtranclp_induct) (auto intro: reachable_step)

lemma visit:
  assumes "reachable gwInit gwStep s" and new: "gwSessions s c = None" and limit: "\<not> overLimit u (gwHub s)"
    and q: "trimSpace cursor = q" "q \<noteq> []"
  shows "\<exists>t. reachable gwInit gwStep t \<and> sessUser t c = Some u \<and>
    gwSessions t = (gwSessions s)(c := gwSessions t c) \<and> gwRecorded t = gwRecorded s \<and>
    hbHistory (gwHub t) = hbHistory (gwHub s) \<and>
    userConnections v (gwHub t) \<le> Suc (userConnections v (gwHub s)) \<and>
    globalConnections (gwHub t) \<le> Suc (globalConnections (gwHub s)) \<and>
    hbHanded (gwHub t) = hbHanded (gwHub s) @ map (Pair c) (replayFrom u q False (hbHistory (gwHub s)))"
proof -
  define ss where "ss p = \<lparr>ssUser = u, ssCursor = cursor, ssPhase = p\<rparr>" for p
  have ss [simp]: "ssUser (ss p) = u" "ssCursor (ss p) = cursor" "ssPhase (ss p) = p" "(ss p)\<lparr>ssPhase := p'\<rparr> = ss p'" for p p'
    by (simp_all add: ss_def)
  define s1 where "s1 = setPhase c (ss Opened) Opened (setHub (openConn c (gwHub s)) s)"
  define s2 where "s2 = setPhase c (ss Opened) Admitted s1"
  define s3 where "s3 = setPhase c (ss Admitted) Joined (setHub (registerClient u c (gwHub s2)) s2)"
  define s4 where "s4 = setPhase c (ss Joined) Greeted (setHub (put c (readyEnvelope 0 u) (gwHub s3)) s3)"
  define s5 where "s5 = setPhase c (ss Greeted) (Serving (0, 0)) (setHub (replay u c cursor (gwHub s4)) s4)"
  have "gwStep s s1" unfolding s1_def by (rule gw_accept [OF new, of _ u cursor]) (simp add: ss_def)
  moreover have "gwStep s1 s2" unfolding s2_def
    by (rule gw_admit) (use limit in \<open>simp_all add: s1_def overLimit_def userConnections_def globalConnections_def clientsOf_def\<close>)
  moreover have "gwStep s2 s3" unfolding s3_def using gw_join [of s2 c "ss Admitted"] by (simp add: s2_def)
  moreover have "gwStep s3 s4" unfolding s4_def using gw_greet [of s3 c "ss Joined" 0] by (simp add: s3_def)
  moreover have "gwStep s4 s5" unfolding s5_def using gw_replay [of s4 c "ss Greeted" 0] by (simp add: s4_def)
  ultimately have "reachable gwInit gwStep s5" using assms(1) by (meson reachable_step)
  moreover have "sessUser s5 c = Some u" "gwSessions s5 = (gwSessions s)(c := gwSessions s5 c)" "gwRecorded s5 = gwRecorded s"
      "hbHistory (gwHub s5) = hbHistory (gwHub s)"
      "hbHanded (gwHub s5) = hbHanded (gwHub s) @ map (Pair c) (replayFrom u q False (hbHistory (gwHub s)))"
    using q by (simp_all add: s5_def s4_def s3_def s2_def s1_def sessUser_def fun_eq_iff)
  moreover have "hbClients (gwHub s5) = hbClients (registerClient u c (gwHub s))"
    by (simp add: s5_def s4_def s3_def s2_def s1_def registerClient_def clientsOf_def openConn_def)
  then have "userConnections v (gwHub s5) \<le> Suc (userConnections v (gwHub s))"
      "globalConnections (gwHub s5) \<le> Suc (globalConnections (gwHub s))"
    using connections_frame [of "gwHub s5"] connections_register(1) [of v u c "gwHub s"] connections_register(2) [of u c "gwHub s"]
    by simp_all
  ultimately show ?thesis by blast
qed

lemma demo_replayed:
  "\<exists>t. reachable gwInit gwStep t \<and> hbHanded (gwHub t) = [(''d'', historyOf demoEvent)] \<and> sessUser t ''e'' = Some ''x''"
proof -
  have start: "reachable gwInit gwStep gatewayStart" by (rule reachable_init) (simp add: gwInit_def gatewayStart_def)
  define h where "h = publishEvent demoEvent (publishEvent olderEvent NewHandler)"
  have pub: "hbClients (publishEvent ev g) = [] \<and> hbHanded (publishEvent ev g) = hbHanded g"
      "hbHistory (publishEvent ev g) = keepLast 256 (hbHistory g @ [historyOf ev])" if "hbClients g = []" for ev g
    using that by (simp_all add: publishEvent_def targetWriters_def clientsOf_def Let_def)
  have h: "hbClients h = []" "hbHanded h = []" "hbHistory h = [historyOf olderEvent, historyOf demoEvent]"
    by (simp_all add: h_def pub NewHandler_def keepLast_def)
  define s where "s = (setHub h gatewayStart)\<lparr>gwRecorded := [olderEvent, demoEvent]\<rparr>"
  have "gwStep\<^sup>*\<^sup>* gatewayStart s"
    using rtranclp_trans [OF publishEvent_steps publishEvent_steps, of gatewayStart olderEvent demoEvent]
    by (simp add: s_def h_def gatewayStart_def setHub_def)
  from reachable_steps [OF this start] have s: "reachable gwInit gwStep s" .
  have ids: "evEventID (heEnvelope (historyOf olderEvent)) = ''e0''" "evEventID (heEnvelope (historyOf demoEvent)) = ''e1''"
    by (simp_all add: historyOf_def eventEnvelope_def olderEvent_def demoEvent_def)
  have q: "trimSpace ''e0'' = ''e0''" by (simp add: trimSpace_visible visibleChar_def)
  obtain s1 where s1: "reachable gwInit gwStep s1" "hbHanded (gwHub s1) = [(''d'', historyOf demoEvent)]" "gwSessions s1 ''e'' = None"
      "hbHistory (gwHub s1) = hbHistory h" "userConnections ''x'' (gwHub s1) \<le> 1" "globalConnections (gwHub s1) \<le> 1"
    using visit [OF s _ _ q, of "''d''" "''u''" "''x''"] h ids
    by (auto simp: s_def gatewayStart_def setHub_def overLimit_def userConnections_def globalConnections_def clientsOf_def
        historyOf_def demo_target fun_eq_iff)
  then show ?thesis
    using visit [OF s1(1,3) _ q, of "''x''"] h ids by (auto simp: overLimit_def historyOf_def demo_target)
qed

subsection \<open>The client table and the runs\<close>

text \<open>
  C13: in every reachable state the client table holds exactly the connections between their
  registration and their release, under their own user and without empty entries; the history
  has at most 256 events; every running agent request has exactly one connection that opens or
  streams it, and is recorded under the identity of this connection.
\<close>

theorem gateway_reachable_ok:
  assumes "reachable gwInit gwStep s"
  shows "(c \<in> set (clientsOf u (gwHub s)) \<longleftrightarrow>
           (\<exists>ss. gwSessions s c = Some ss \<and> ssUser ss = u \<and> registered (ssPhase ss))) \<and>
         [] \<notin> snd ` set (hbClients (gwHub s)) \<and>
         length (hbHistory (gwHub s)) \<le> 256 \<and>
         (hbRuns (gwHub s) rid = Some v \<longleftrightarrow> (\<exists>d. activeRun s rid d \<and> sessOwner s d = Some v)) \<and>
         (\<forall>d d'. activeRun s rid d \<and> activeRun s rid d' \<longrightarrow> d = d')"
proof -
  have ok: "clients_ok s" "history_ok s" "runs_ok s" using reachable_ok [OF assms] by (simp_all add: gateway_ok_def)
  have "hbRuns (gwHub s) rid = Some v \<longleftrightarrow> (\<exists>d. activeRun s rid d \<and> sessOwner s d = Some v)"
    using runs_okD(1,2) [OF ok(3)] by (metis not_None_eq)
  then show ?thesis using ok(1,2) runs_okD(3) [OF ok(3)]
    by (auto simp: clients_ok_def history_ok_def regOf_def split: option.splits if_splits)
qed

theorem gateway_reachable_ok_witness:
  "''c'' \<in> set (clientsOf ''u'' (gwHub demoJoined)) \<and> length (hbHistory (gwHub demoJoined)) \<le> 256"
proof -
  have "\<exists>ss. gwSessions demoJoined ''c'' = Some ss \<and> ssUser ss = ''u'' \<and> registered (ssPhase ss)"
    by (simp add: demo_fields demoSession_def)
  then show ?thesis using gateway_reachable_ok [OF demo_reachable(2)] by blast
qed

text \<open>
  C11: in every interleaving, what is handed to a connection as an event, by a publication or by a
  replay, is the envelope of an event that was recorded and that names the user of the connection
  or nobody.
\<close>

theorem events_private:
  assumes "reachable gwInit gwStep s" and "(c, he) \<in> set (hbHanded (gwHub s))"
  shows "\<exists>ev u. ev \<in> set (gwRecorded s) \<and> heEnvelope he = eventEnvelope ev \<and> sessUser s c = Some u \<and>
    (eventTarget ev = [] \<or> eventTarget ev = u)"
proof -
  have "mayRead s c he" "recorded s he"
    using reachable_ok [OF assms(1)] assms(2) by (auto simp: gateway_ok_def private_ok_def)
  then show ?thesis by (auto simp: mayRead_def recorded_def historyOf_def)
qed

theorem events_private_witness:
  "\<exists>s. hbHanded (gwHub s) = [(''d'', historyOf demoEvent)] \<and> sessUser s ''e'' = Some ''x'' \<and>
     (\<exists>ev u. ev \<in> set (gwRecorded s) \<and> heEnvelope (historyOf demoEvent) = eventEnvelope ev \<and>
        sessUser s ''d'' = Some u \<and> (eventTarget ev = [] \<or> eventTarget ev = u))"
proof -
  obtain s where s: "reachable gwInit gwStep s" "hbHanded (gwHub s) = [(''d'', historyOf demoEvent)]" "sessUser s ''e'' = Some ''x''"
    using demo_replayed by blast
  show ?thesis using events_private [OF s(1), of "''d''" "historyOf demoEvent"] s(2,3) by auto
qed

text \<open>
  C12: no event is lost between recording and delivery: for a connection that was registered
  when an event for its user (or for all) was recorded, at any later time the event was handed
  to the connection, or a publication that will write to it is under way, or the connection has
  left.
\<close>

theorem events_delivered:
  assumes "reachable gwInit gwStep s" and "regOf s c = Some u" and "eventTarget ev = [] \<or> eventTarget ev = u"
    and "s1 = (setHub (recordEvent ev (gwHub s)) s)
      \<lparr>gwPublishing := (ev, None) # gwPublishing s, gwRecorded := gwRecorded s @ [ev]\<rparr>"
    and "gwStep\<^sup>*\<^sup>* s1 t"
  shows "served ev u c t"
proof (rule served_run [OF assms(5) _ _ assms(3)])
  have "gwStep s s1" unfolding assms(4) by (rule gw_record)
  then show "gateway_ok s1" using gateway.inv_step reachable_ok [OF assms(1)] by blast
  obtain ss where "gwSessions s c = Some ss" "ssUser ss = u" "registered (ssPhase ss)"
    using assms(2) by (auto simp: regOf_def split: option.splits if_splits)
  then show "served ev u c s1" by (simp add: assms(4) served_def beingDelivered_def gw_simps)
qed

theorem events_delivered_witness: "served demoEvent ''u'' ''c'' demoWritten"
proof -
  have run: "gwStep\<^sup>*\<^sup>* demoRecorded demoWritten" using demo_steps(5,6) by (meson rtranclp.simps)
  have "regOf demoJoined ''c'' = Some ''u''" by (simp add: regOf_def demo_fields demoSession_def)
  then show ?thesis
    by (rule events_delivered [OF demo_reachable(2) _ _ demoRecorded_def run]) (simp add: demo_target)
qed

subsection \<open>Connection limits\<close>

text \<open>
   If at most \<open>k\<close> connections are at any time between the limit check and their
  registration, a user never has more than \<open>7 + k\<close> registered connections and the
  gateway never more than \<open>1999 + k\<close>; with one at a time these are the limits of 8 and
  2000 that the code intends.
\<close>

theorem limits_within:
  assumes "reachable gwInit (gwStepWithin k) s"
  shows "userConnections u (gwHub s) \<le> 7 + k \<and> globalConnections (gwHub s) \<le> 1999 + k"
proof -
  have "within_limits k s" by (rule limits.reach_inv [OF assms])
  then have "userConnections u (gwHub s) + card (admittedOf u s) \<le> 7 + k"
    and "globalConnections (gwHub s) + card (admittedConns s) \<le> 1999 + k" by (simp_all add: within_limits_def)
  then show ?thesis by linarith
qed

lemma demo_admitted_conns:
  "admittedConns demoAccepted = {}" "admittedConns demoAdmitted = {''c''}" "admittedConns demoJoined = {}"
  by (auto simp: admittedConns_def demo_defs)

theorem limits_within_witness:
  "userConnections ''u'' (gwHub demoJoined) = 1 \<and> userConnections ''u'' (gwHub demoJoined) \<le> 7 + 1"
proof -
  have "gwInit gatewayStart" by (simp add: gwInit_def gatewayStart_def)
  moreover have "gwStepWithin 1 gatewayStart demoAccepted" "gwStepWithin 1 demoAccepted demoAdmitted"
      "gwStepWithin 1 demoAdmitted demoJoined"
    using demo_steps(1-3) by (simp_all add: gwStepWithin_def demo_admitted_conns)
  ultimately have "reachable gwInit (gwStepWithin 1) demoJoined" by (meson reachable.intros)
  from limits_within [OF this, of "''u''"] show ?thesis
    by (simp add: userConnections_def clientsOf_def demo_defs openConn_def registerClient_def NewHandler_def)
qed

text \<open>
  Without this restriction the limits do not hold: the check and the registration are separate
  critical sections.  First every connection passes the check, then all of them register.
\<close>

definition racer :: "nat \<Rightarrow> gostr" where
  "racer i = replicate i CHR ''c''"

lemma racer_inj [simp]: "racer i = racer j \<longleftrightarrow> i = j"
  by (simp add: racer_def)

lemma race_admit:
  "\<exists>s. reachable gwInit gwStep s \<and> hbClients (gwHub s) = [] \<and>
     (\<forall>i. gwSessions s (racer i) = (if i < n then Some \<lparr>ssUser = u, ssCursor = [], ssPhase = Admitted\<rparr> else None))"
proof (induction n)
  case 0
  have "gwInit gatewayStart" by (simp add: gwInit_def gatewayStart_def)
  then show ?case
    by (intro exI [of _ gatewayStart]) (auto intro: reachable_init simp: gatewayStart_def NewHandler_def)
next
  case (Suc n)
  then obtain s where s: "reachable gwInit gwStep s" "hbClients (gwHub s) = []"
    and sess: "\<And>i. gwSessions s (racer i) = (if i < n then Some \<lparr>ssUser = u, ssCursor = [], ssPhase = Admitted\<rparr> else None)"
    by blast
  define ss where "ss = \<lparr>ssUser = u, ssCursor = [], ssPhase = Opened\<rparr>"
  define s1 where "s1 = setPhase (racer n) ss Opened (setHub (openConn (racer n) (gwHub s)) s)"
  define s2 where "s2 = setPhase (racer n) ss Admitted s1"
  have s1: "gwStep s s1" unfolding s1_def by (rule gw_accept) (simp_all add: sess ss_def)
  have s2: "gwStep s1 s2" unfolding s2_def
    by (rule gw_admit) (use s(2) in \<open>simp_all add: s1_def ss_def overLimit_def userConnections_def clientsOf_def
        globalConnections_def\<close>)
  have "reachable gwInit gwStep s2" using s(1) s1 s2 by (meson reachable_step)
  moreover have "hbClients (gwHub s2) = []" using s(2) by (simp add: s2_def s1_def)
  moreover have "gwSessions s2 (racer i) = (if i < Suc n then Some \<lparr>ssUser = u, ssCursor = [], ssPhase = Admitted\<rparr> else None)"
    for i using sess [of i] by (simp add: s2_def s1_def ss_def)
  ultimately show ?case by blast
qed

lemma race_join:
  "m \<le> n \<Longrightarrow> \<exists>s. reachable gwInit gwStep s \<and> userConnections u (gwHub s) = m \<and>
     (\<forall>i. m \<le> i \<longrightarrow> i < n \<longrightarrow>
        gwSessions s (racer i) = Some \<lparr>ssUser = u, ssCursor = [], ssPhase = Admitted\<rparr>)"
proof (induction m)
  case 0
  obtain s where "reachable gwInit gwStep s" "hbClients (gwHub s) = []"
    "\<And>i. gwSessions s (racer i) = (if i < n then Some \<lparr>ssUser = u, ssCursor = [], ssPhase = Admitted\<rparr> else None)"
    using race_admit [of n u] by blast
  then show ?case by (intro exI [of _ s]) (simp add: userConnections_def clientsOf_def)
next
  case (Suc m)
  then obtain s where s: "reachable gwInit gwStep s" "userConnections u (gwHub s) = m"
    and sess: "\<And>i. m \<le> i \<Longrightarrow> i < n \<Longrightarrow>
        gwSessions s (racer i) = Some \<lparr>ssUser = u, ssCursor = [], ssPhase = Admitted\<rparr>" by auto
  define ss where "ss = \<lparr>ssUser = u, ssCursor = [], ssPhase = Admitted\<rparr>"
  define t where "t = setPhase (racer m) ss Joined (setHub (registerClient (ssUser ss) (racer m) (gwHub s)) s)"
  have here: "gwSessions s (racer m) = Some ss" using sess [of m] Suc.prems by (simp add: ss_def)
  have step: "gwStep s t" unfolding t_def by (rule gw_join [OF here]) (simp add: ss_def)
  have "racer m \<notin> set (clientsOf u (gwHub s))"
    using reachable_ok [OF s(1)] here by (simp add: gateway_ok_def clients_ok_def regOf_at ss_def)
  then have "userConnections u (gwHub t) = Suc m"
    using s(2) by (simp add: t_def userConnections_def clientsOf_register ss_def)
  moreover have "gwSessions t (racer i) = Some \<lparr>ssUser = u, ssCursor = [], ssPhase = Admitted\<rparr>"
    if "Suc m \<le> i" "i < n" for i using sess [of i] that by (simp add: t_def)
  ultimately show ?case using reachable_step [OF s(1) step] by blast
qed

text \<open>
   A user can have any number of registered connections: for every \<open>n\<close> there is an
  interleaving that registers \<open>n\<close> connections of one user, past the limit of 8.
\<close>

theorem connection_limit_races: "\<exists>s. reachable gwInit gwStep s \<and> userConnections u (gwHub s) = n"
  using race_join [of n n u] by auto

subsection \<open>The history and the replay\<close>

text \<open> After any sequence of published events the history holds the last 256 of them, in order.\<close>

theorem history_last_256:
  "hbHistory (fold publishEvent evs NewHandler) = map historyOf (drop (length evs - 256) evs)"
proof -
  have put: "hbHistory (fold (\<lambda>c. handTo c e) cs h) = hbHistory h" for e cs h
    by (induction cs arbitrary: h) simp_all
  have "hbHistory (publishEvent ev h) = keepLast 256 (hbHistory h @ [historyOf ev])" for ev h
    by (simp add: publishEvent_def Let_def put)
  then have "hbHistory (fold publishEvent evs NewHandler) = keepLast 256 (map historyOf evs)"
    by (induction evs rule: rev_induct) (simp_all add: keepLast_snoc NewHandler_def keepLast_def [of 256 "[]"])
  then show ?thesis by (simp add: keepLast_def drop_map)
qed

lemma replayFrom_seen:
  "replayFrom u q True hes =
     filter (\<lambda>he. evEventID (heEnvelope he) \<noteq> q \<and> (heTarget he = [] \<or> heTarget he = u)) hes"
  by (induction hes) auto

lemma replayFrom_unseen:
  "q \<noteq> [] \<Longrightarrow> replayFrom u q False hes =
     replayFrom u q True (tl (dropWhile (\<lambda>he. evEventID (heEnvelope he) \<noteq> q) hes))"
  by (induction hes) auto

text \<open>
   A reconnecting client gets exactly the events of the history that come after its cursor
  and are meant for its user or for all, in order; with a cursor that is no longer (or was
  never) in the history it gets nothing.
\<close>

theorem replay_exact:
  "replay u c lastEventID h =
     (let q = trimSpace lastEventID;
          later = tl (dropWhile (\<lambda>he. evEventID (heEnvelope he) \<noteq> q) (hbHistory h)) in
      if q = [] then h
      else fold (handTo c)
        (filter (\<lambda>he. evEventID (heEnvelope he) \<noteq> q \<and> (heTarget he = [] \<or> heTarget he = u)) later) h)"
  by (simp add: replay_def Let_def replayFrom_unseen replayFrom_seen)

subsection \<open>The rate limit\<close>

text \<open>
  The commands of one connection with the two clock readings of each turn (the second is taken
  when the window restarts): the reading and whether the command was let through.
\<close>

fun rateRun :: "(int \<times> int) list \<Rightarrow> int \<times> int \<Rightarrow> (int \<times> bool) list" where
  "rateRun [] s = []"
| "rateRun ((since, now) # rs) s =
     (let (ok, s') = rateTurn since now s in (since, ok) # rateRun rs s')"

fun clockFrom :: "int \<Rightarrow> (int \<times> int) list \<Rightarrow> bool" where
  "clockFrom p [] = True"
| "clockFrom p ((since, now) # rs) \<longleftrightarrow> p \<le> since \<and> since \<le> now \<and> clockFrom now rs"

definition letThrough :: "int \<Rightarrow> (int \<times> bool) list \<Rightarrow> int" where
  "letThrough a ts = int (length (filter (\<lambda>(t, ok). ok \<and> a \<le> t \<and> t < a + minute) ts))"

lemma letThrough_simps [simp]:
  "letThrough a [] = 0"
  "letThrough a ((t, ok) # ts) = of_bool (ok \<and> a \<le> t \<and> t < a + minute) + letThrough a ts"
  by (simp_all add: letThrough_def)

lemma minute_pos: "minute > 0"
  by (simp add: minute_def)

lemma late_turns: "clockFrom p rs \<Longrightarrow> a + minute \<le> p \<Longrightarrow> letThrough a (rateRun rs s) = 0"
proof (induction rs arbitrary: p s)
  case Nil
  then show ?case by simp
next
  case (Cons r rs)
  obtain t b where r: "r = (t, b)" by fastforce
  then show ?case using Cons.prems Cons.IH [of b] by (auto simp: Let_def split: prod.splits)
qed

lemma same_window:
  "clockFrom p rs \<Longrightarrow> w \<le> p \<Longrightarrow> a \<le> w \<Longrightarrow> letThrough a (rateRun rs (w, n)) \<le> max 0 (120 - n)"
proof (induction rs arbitrary: p n)
  case Nil
  then show ?case by simp
next
  case (Cons r rs)
  obtain t b where r: "r = (t, b)" by fastforce
  have c: "p \<le> t" "t \<le> b" "clockFrom b rs" using Cons.prems(1) by (simp_all add: r)
  show ?case
  proof (cases "t < a + minute")
    case True
    then have "\<not> minute \<le> t - w" using Cons.prems by linarith
    moreover have "letThrough a (rateRun rs (w, n + 1)) \<le> max 0 (120 - (n + 1))"
      by (rule Cons.IH [OF c(3)]) (use Cons.prems c in simp_all)
    ultimately show ?thesis by (auto simp: r rateTurn_def)
  next
    case False
    then show ?thesis using late_turns [OF c(3), of a] c by (auto simp: r rateTurn_def Let_def)
  qed
qed

lemma two_windows:
  "clockFrom p rs \<Longrightarrow> w \<le> p \<Longrightarrow> a \<le> p \<Longrightarrow> letThrough a (rateRun rs (w, n)) \<le> max 0 (120 - n) + 120"
proof (induction rs arbitrary: p n)
  case Nil
  then show ?case by simp
next
  case (Cons r rs)
  obtain t b where r: "r = (t, b)" by fastforce
  have c: "p \<le> t" "t \<le> b" "clockFrom b rs" using Cons.prems(1) by (simp_all add: r)
  show ?case
  proof (cases "minute \<le> t - w")
    case True
    have "letThrough a (rateRun rs (b, 1)) \<le> max 0 (120 - 1)"
      by (rule same_window [OF c(3)]) (use Cons.prems c in simp_all)
    then show ?thesis using True by (auto simp: r rateTurn_def)
  next
    case False
    have "letThrough a (rateRun rs (w, n + 1)) \<le> max 0 (120 - (n + 1)) + 120"
      by (rule Cons.IH [OF c(3)]) (use Cons.prems c in simp_all)
    then show ?thesis using False by (auto simp: r rateTurn_def)
  qed
qed

text \<open>
  C14: with a clock that does not go backwards a connection gets at most 240 commands through in
  any minute, wherever the minute starts (twice the limit of a window, because the windows of
  the code are not sliding).
\<close>

theorem rate_limit_any_minute:
  assumes "clockFrom start rs"
  shows "letThrough a (rateRun rs (start, 0)) \<le> 240"
proof -
  have "letThrough a (rateRun rs (w, n)) \<le> 240" if "clockFrom p rs" "w \<le> p" "0 \<le> n" for p w n
    using that
  proof (induction rs arbitrary: p w n)
    case Nil
    then show ?case by simp
  next
    case (Cons r rs)
    obtain t b where r: "r = (t, b)" by fastforce
    have c: "p \<le> t" "t \<le> b" "clockFrom b rs" using Cons.prems(1) by (simp_all add: r)
    show ?case
    proof (cases "a \<le> t")
      case True
      have "clockFrom t ((t, b) # rs)" using c by simp
      from two_windows [OF this, of w a n] show ?thesis using True Cons.prems c by (simp add: r)
    next
      case False
      obtain ok w' n' where turn: "rateTurn t b (w, n) = (ok, w', n')" by (metis prod_cases3)
      then have "w' \<le> b" "0 \<le> n'" using Cons.prems c by (auto simp: rateTurn_def Let_def split: if_splits)
      then show ?thesis using False Cons.IH [OF c(3)] by (simp add: r turn)
    qed
  qed
  from this [OF assms, of start 0] show ?thesis by simp
qed

theorem rate_limit_any_minute_witness:
  "letThrough 0 (rateRun [(1, 1), (2, 3)] (0, 0)) = 2 \<and> letThrough 0 (rateRun [(1, 1), (2, 3)] (0, 0)) \<le> 240"
  using rate_limit_any_minute [of 0 "[(1, 1), (2, 3)]" 0]
  by (simp add: rateTurn_def minute_def)

end
