(* ===== verification/Func_Store.thy ===== *)
theory Func_Store
  imports Auth_Context Table_Rows
begin

text \<open>
  The tables of the function operation service (\<^verbatim>\<open>func-operation/internal/model/function.go\<close>,
  \<^verbatim>\<open>function_release.go\<close>, \<^verbatim>\<open>conversation_operation.go\<close>) and their data access
  objects in \<^verbatim>\<open>func-operation/internal/dao\<close>, with the document files of the generated
  applications.

  The identifiers of the rows come from one counter; only their order within a table matters.
  Versions are \<^verbatim>\<open>int64\<close> counters that grow by one per call, modelled as integers.
  A file is its content and its modification time in microseconds.
\<close>

subsection \<open>Rows\<close>

record fnrow =
  fnID :: nat
  fnUUID :: gostr
  fnName :: gostr
  fnDescription :: gostr
  fnStatus :: gostr
  fnWorkflowStage :: gostr
  fnProductDoc :: gostr
  fnTechnicalDoc :: gostr
  fnProductDocPath :: gostr
  fnTechnicalDocPath :: gostr
  fnEntry :: gostr
  fnProductSessionID :: gostr
  fnTechnicalSessionID :: gostr
  fnGenerationSessionID :: gostr
  fnGeneratedAppID :: gostr
  fnActiveReleaseID :: gostr
  fnFunctionVersion :: int
  fnProductDocVersion :: int
  fnProductDraftVersion :: int
  fnTechnicalDocVersion :: int
  fnTechnicalDraftVersion :: int
  fnTechnicalDraftOperationID :: gostr
  fnTechnicalSourceProductVersion :: int
  fnCodeVersion :: int
  fnCodeDraftVersion :: int
  fnCodeDraftOperationID :: gostr
  fnCodeSourceTechnicalVersion :: int
  fnMenuParentID :: gostr
  fnMenuID :: gostr
  fnCreatedAt :: int
  fnUpdatedAt :: int
  fnDocTechnicalStale :: bool

definition FunctionStatusDraft :: gostr where "FunctionStatusDraft = ''draft''"
definition FunctionStatusPublished :: gostr where "FunctionStatusPublished = ''published''"
definition StageProductDoc :: gostr where "StageProductDoc = ''product_doc''"
definition StageTechnicalDoc :: gostr where "StageTechnicalDoc = ''technical_doc''"
definition StageCodeGeneration :: gostr where "StageCodeGeneration = ''code_generation''"
definition StageCodeGenerated :: gostr where "StageCodeGenerated = ''code_generated''"

lemmas fn_consts = FunctionStatusDraft_def FunctionStatusPublished_def StageProductDoc_def StageTechnicalDoc_def
  StageCodeGeneration_def StageCodeGenerated_def

record release =
  relID :: nat
  relUUID :: gostr
  relFunctionID :: gostr
  relAppID :: gostr
  relVersion :: int
  relArtifact :: gostr
  relManifest :: gostr
  relStatus :: gostr
  relCreatedBy :: gostr
  relCreatedAt :: int
  relPublishedAt :: int
  relUpdatedAt :: int

definition ReleaseStaged :: gostr where "ReleaseStaged = ''staged''"
definition ReleasePublished :: gostr where "ReleasePublished = ''published''"
definition ReleaseRevoked :: gostr where "ReleaseRevoked = ''revoked''"

lemmas rl_consts = ReleaseStaged_def ReleasePublished_def ReleaseRevoked_def

text \<open>
  The payload of an outbox event is JSON text that the service writes itself; the model keeps
  the value it was made from, and \<open>PayText\<close> for any other text.
\<close>

datatype evPayload =
    PayPublished gostr gostr int gostr int
  | PayUnpublished gostr gostr int
  | PayFields "(gostr \<times> gostr) list"
  | PayText gostr

record outboxEvent =
  oeID :: nat
  oeUUID :: gostr
  oeFunctionID :: gostr
  oeReleaseID :: gostr
  oeEventType :: gostr
  oePayload :: evPayload
  oeStatus :: gostr
  oeAttempts :: int
  oeNextAttemptAt :: int
  oeLastError :: gostr
  oeCreatedAt :: int
  oeUpdatedAt :: int

text \<open>
  The baseline of an operation is the JSON text of a \<^verbatim>\<open>map[string]int64\<close>: the model
  keeps the map, and \<open>None\<close> for a text that is not one.
\<close>

record convOp =
  coID :: nat
  coUUID :: gostr
  coFunctionID :: gostr
  coSessionID :: gostr
  coConversation :: gostr
  coUserID :: gostr
  coState :: gostr
  coBaseline :: "(gostr \<rightharpoonup> int) option"
  coTerminalStatus :: gostr
  coTerminalReason :: gostr
  coOutcome :: gostr
  coCreatedAt :: int
  coUpdatedAt :: int
  coFinishedAt :: int

definition OpRunning :: gostr where "OpRunning = ''running''"
definition OpAwaitingUser :: gostr where "OpAwaitingUser = ''awaiting_user''"
definition OpNeedsContinue :: gostr where "OpNeedsContinue = ''needs_continue''"
definition OpCompleted :: gostr where "OpCompleted = ''completed''"
definition OpBlocked :: gostr where "OpBlocked = ''blocked''"
definition OpCancelled :: gostr where "OpCancelled = ''cancelled''"
definition OpSuperseded :: gostr where "OpSuperseded = ''superseded''"
definition TerminalNormal :: gostr where "TerminalNormal = ''normal''"
definition TerminalMaxTurns :: gostr where "TerminalMaxTurns = ''max_turns''"
definition TerminalCancelled :: gostr where "TerminalCancelled = ''cancelled''"
definition TerminalError :: gostr where "TerminalError = ''error''"
definition TerminalSubmitted :: gostr where "TerminalSubmitted = ''submitted''"

lemmas op_consts = OpRunning_def OpAwaitingUser_def OpNeedsContinue_def OpCompleted_def OpBlocked_def
  OpCancelled_def OpSuperseded_def TerminalNormal_def TerminalMaxTurns_def TerminalCancelled_def
  TerminalError_def TerminalSubmitted_def

record progressExec =
  peID :: nat
  peUUID :: gostr
  peOperationID :: gostr
  peFunctionID :: gostr
  peSessionID :: gostr
  peConversation :: gostr
  peToolName :: gostr
  peToolUseID :: gostr
  peUserID :: gostr
  peStatus :: gostr
  peOutcome :: gostr
  peCreatedAt :: int
  peUpdatedAt :: int

record fndb =
  fdSeq :: nat
  fdFunctions :: "fnrow list"
  fdReleases :: "release list"
  fdOutbox :: "outboxEvent list"
  fdOps :: "convOp list"
  fdExecs :: "progressExec list"
  fdFiles :: "gostr \<rightharpoonup> gostr \<times> int"

type_synonym 'a fnact = "(fndb, 'a) act"

text \<open>An effect outside the service: an answer, or an error, for each call.\<close>

definition callA :: "(nat \<Rightarrow> err + 'a) \<Rightarrow> ('d, 'a) act" where
  "callA f = bindA (drawA f) liftA"

lemma readonly_callA [act_frame, simp]: "readonly (callA f)"
  unfolding callA_def by (rule readonly_bind) simp_all

lemma callA_iff: "callA f w = (r, w') \<longleftrightarrow> r = f (tick w) \<and> w' = nextTick w"
  by (auto simp: callA_def bindA_def drawA_def liftA_def)

subsection \<open>Functions: dao/function.go\<close>

definition fnDefaults :: "fnrow \<Rightarrow> fnrow" where
  "fnDefaults f = f
     \<lparr>fnStatus := (if fnStatus f = [] then FunctionStatusDraft else fnStatus f),
      fnWorkflowStage := (if fnWorkflowStage f = [] then StageProductDoc else fnWorkflowStage f)\<rparr>"

definition insertFunction :: "fnrow \<Rightarrow> fndb \<Rightarrow> err + (fnrow \<times> fndb)" where
  "insertFunction f d =
     (if fnUUID f \<in> fnUUID ` set (fdFunctions d)
      then Inl (uniqueViolation ''func_operation_functions.uuid'')
      else let row = f\<lparr>fnID := Suc (fdSeq d)\<rparr> in
           Inr (row, d\<lparr>fdSeq := Suc (fdSeq d),
                       fdFunctions := fdFunctions d @ [(fnDefaults row)\<lparr>fnDocTechnicalStale := False\<rparr>]\<rparr>))"

definition Function_List :: "fnrow list fnact" where
  "Function_List = queryA (\<lambda>d. Inr (sort_key (\<lambda>f. - fnUpdatedAt f) (fdFunctions d)))"

definition Function_ListLegacyPublished :: "fnrow list fnact" where
  "Function_ListLegacyPublished = queryA (\<lambda>d. Inr (sort_key fnID
     (filter (\<lambda>f. fnStatus f = FunctionStatusPublished \<and> fnGeneratedAppID f \<noteq> [] \<and> fnActiveReleaseID f = [])
       (fdFunctions d))))"

definition Function_Exists :: "gostr \<Rightarrow> bool fnact" where
  "Function_Exists i = queryA (\<lambda>d. Inr (\<exists>f \<in> set (fdFunctions d). fnUUID f = i))"

definition Function_Create :: "fnrow \<Rightarrow> fnrow fnact" where
  "Function_Create f = stmtA (insertFunction f)"

definition Function_Get :: "gostr \<Rightarrow> fnrow fnact" where
  "Function_Get i = queryA (\<lambda>d. firstRow fnID (\<lambda>f. fnUUID f = i) (fdFunctions d))"

definition Function_GetByGeneratedAppID :: "gostr \<Rightarrow> fnrow fnact" where
  "Function_GetByGeneratedAppID appID =
     queryA (\<lambda>d. firstRow fnID (\<lambda>f. fnGeneratedAppID f = appID) (fdFunctions d))"

definition Function_Delete :: "gostr \<Rightarrow> unit fnact" where
  "Function_Delete i = stmtA (\<lambda>d.
     if i \<notin> fnUUID ` set (fdFunctions d) then Inl RecordNotFound
     else Inr ((), d\<lparr>fdFunctions := filter (\<lambda>f. fnUUID f \<noteq> i) (fdFunctions d)\<rparr>))"

text \<open>
  \<^verbatim>\<open>Update\<close> writes every column but the key, the UUID, the two document texts and the
  creation time.
\<close>

definition storedFunction :: "fnrow \<Rightarrow> fnrow \<Rightarrow> fnrow" where
  "storedFunction f row = f
     \<lparr>fnID := fnID row, fnUUID := fnUUID row, fnProductDoc := fnProductDoc row,
      fnTechnicalDoc := fnTechnicalDoc row, fnCreatedAt := fnCreatedAt row, fnDocTechnicalStale := False\<rparr>"

definition Function_Update :: "fnrow \<Rightarrow> unit fnact" where
  "Function_Update f = stmtA (\<lambda>d.
     Inr ((), d\<lparr>fdFunctions := updateRows (\<lambda>row. fnID row = fnID f) (storedFunction f) (fdFunctions d)\<rparr>))"

subsection \<open>Releases: dao/function\_release.go\<close>

definition insertRelease :: "release \<Rightarrow> fndb \<Rightarrow> err + (release \<times> fndb)" where
  "insertRelease r d =
     (if relUUID r \<in> relUUID ` set (fdReleases d)
      then Inl (uniqueViolation ''func_operation_function_releases.uuid'')
      else let row = r\<lparr>relID := Suc (fdSeq d)\<rparr> in
           Inr (row, d\<lparr>fdSeq := Suc (fdSeq d), fdReleases := fdReleases d @ [row]\<rparr>))"

definition Release_CreateStaged :: "release \<Rightarrow> release fnact" where
  "Release_CreateStaged r =
     bindA (if relUUID r = [] then newUUID else retA (relUUID r)) (\<lambda>i. stmtA (insertRelease (r\<lparr>relUUID := i\<rparr>)))"

definition newestRelease :: "release \<Rightarrow> int \<times> int" where
  "newestRelease r = (- relVersion r, - int (relID r))"

definition Release_Latest :: "gostr \<Rightarrow> release fnact" where
  "Release_Latest functionID =
     queryA (\<lambda>d. firstRow newestRelease (\<lambda>r. relFunctionID r = functionID) (fdReleases d))"

definition Release_ActiveForApp :: "gostr \<Rightarrow> release fnact" where
  "Release_ActiveForApp appID =
     queryA (\<lambda>d. firstRow newestRelease (\<lambda>r. relAppID r = appID \<and> relStatus r = ReleasePublished) (fdReleases d))"

definition Release_ListPublished :: "release list fnact" where
  "Release_ListPublished = queryA (\<lambda>d. Inr (filter (\<lambda>r. relStatus r = ReleasePublished) (fdReleases d)))"

definition revokeRows :: "gostr \<Rightarrow> int \<Rightarrow> release list \<Rightarrow> release list" where
  "revokeRows functionID now = updateRows
     (\<lambda>r. relFunctionID r = functionID \<and> relStatus r = ReleasePublished)
     (\<lambda>r. r\<lparr>relStatus := ReleaseRevoked, relUpdatedAt := now\<rparr>)"

definition Release_RevokeByFunctionID :: "gostr \<Rightarrow> int \<Rightarrow> unit fnact" where
  "Release_RevokeByFunctionID functionID now =
     stmtA (\<lambda>d. Inr ((), d\<lparr>fdReleases := revokeRows functionID now (fdReleases d)\<rparr>))"

definition Release_ListAll :: "release list fnact" where
  "Release_ListAll = queryA (\<lambda>d. Inr (sort_key relID (fdReleases d)))"

definition activate :: "gostr \<Rightarrow> gostr \<Rightarrow> int \<Rightarrow> fnrow list \<Rightarrow> fnrow list" where
  "activate functionID releaseID now = updateRows (\<lambda>f. fnUUID f = functionID)
     (\<lambda>f. f\<lparr>fnActiveReleaseID := releaseID, fnUpdatedAt := now\<rparr>)"

definition markPublished :: "gostr \<Rightarrow> int \<Rightarrow> fndb \<Rightarrow> err + (unit \<times> fndb)" where
  "markPublished releaseID now d =
     (if length (filter (\<lambda>r. relUUID r = releaseID) (fdReleases d)) \<noteq> 1 then Inl (Err ''release not found'')
      else Inr ((), d\<lparr>fdReleases := updateRows (\<lambda>r. relUUID r = releaseID)
        (\<lambda>r. r\<lparr>relStatus := ReleasePublished, relPublishedAt := now, relUpdatedAt := now\<rparr>) (fdReleases d)\<rparr>))"

definition insertEvent :: "outboxEvent \<Rightarrow> fndb \<Rightarrow> err + (outboxEvent \<times> fndb)" where
  "insertEvent ev d =
     (if oeUUID ev \<in> oeUUID ` set (fdOutbox d)
      then Inl (uniqueViolation ''func_operation_outbox_events.uuid'')
      else let row = ev\<lparr>oeID := Suc (fdSeq d), oeStatus := (if oeStatus ev = [] then ''pending'' else oeStatus ev)\<rparr> in
           Inr (row, d\<lparr>fdSeq := Suc (fdSeq d), fdOutbox := fdOutbox d @ [row]\<rparr>))"

definition Outbox_Create :: "outboxEvent \<Rightarrow> outboxEvent fnact" where
  "Outbox_Create ev =
     bindA (if oeUUID ev = [] then newUUID else retA (oeUUID ev)) (\<lambda>i. stmtA (insertEvent (ev\<lparr>oeUUID := i\<rparr>)))"

definition Release_publish :: "gostr \<Rightarrow> int \<Rightarrow> outboxEvent option \<Rightarrow> unit fnact" where
  "Release_publish releaseID publishedAt event = transactionA (
     bindA (queryA (\<lambda>d. firstRow relID (\<lambda>r. relUUID r = releaseID) (fdReleases d))) (\<lambda>r.
     bindA (Release_RevokeByFunctionID (relFunctionID r) publishedAt) (\<lambda>_.
     bindA (stmtA (markPublished releaseID publishedAt)) (\<lambda>_.
     bindA (stmtA (\<lambda>d. Inr ((), d\<lparr>fdFunctions :=
       activate (relFunctionID r) releaseID publishedAt (fdFunctions d)\<rparr>))) (\<lambda>_.
     case event of
       None \<Rightarrow> retA ()
     | Some ev \<Rightarrow> bindA (Outbox_Create ev) (\<lambda>_. retA ()))))))"

definition Release_Publish :: "gostr \<Rightarrow> int \<Rightarrow> unit fnact" where
  "Release_Publish releaseID publishedAt = Release_publish releaseID publishedAt None"

definition Release_PublishWithOutbox :: "gostr \<Rightarrow> int \<Rightarrow> outboxEvent \<Rightarrow> unit fnact" where
  "Release_PublishWithOutbox releaseID publishedAt ev = Release_publish releaseID publishedAt (Some ev)"

definition activateByID :: "nat \<Rightarrow> gostr \<Rightarrow> int \<Rightarrow> unit fnact" where
  "activateByID i releaseID now = stmtA (\<lambda>d. Inr ((), d\<lparr>fdFunctions :=
     updateRows (\<lambda>f. fnID f = i) (\<lambda>f. f\<lparr>fnActiveReleaseID := releaseID, fnUpdatedAt := now\<rparr>) (fdFunctions d)\<rparr>))"

definition Release_BackfillPublished ::
  "gostr \<Rightarrow> gostr \<Rightarrow> gostr \<Rightarrow> gostr \<Rightarrow> int \<Rightarrow> unit fnact" where
  "Release_BackfillPublished functionID appID artifact manifest publishedAt = transactionA (
     bindA (Function_Get functionID) (\<lambda>f.
     if fnActiveReleaseID f \<noteq> [] then retA ()
     else
       bindA (tryA (queryA (\<lambda>d. firstRow newestRelease
         (\<lambda>r. relFunctionID r = functionID \<and> relStatus r = ReleasePublished) (fdReleases d)))) (\<lambda>found.
       case found of
         Inr existing \<Rightarrow> activateByID (fnID f) (relUUID existing) publishedAt
       | Inl e \<Rightarrow>
           if e \<noteq> RecordNotFound then failA e
           else
             bindA newUUID (\<lambda>i.
             bindA (stmtA (insertRelease \<lparr>relID = 0, relUUID = i, relFunctionID = functionID, relAppID = appID,
               relVersion = 1, relArtifact = artifact, relManifest = manifest, relStatus = ReleasePublished,
               relCreatedBy = [], relCreatedAt = publishedAt, relPublishedAt = publishedAt,
               relUpdatedAt = publishedAt\<rparr>)) (\<lambda>r.
             activateByID (fnID f) (relUUID r) publishedAt)))))"

subsection \<open>Outbox\<close>

definition Outbox_GetByReleaseID :: "gostr \<Rightarrow> gostr \<Rightarrow> outboxEvent fnact" where
  "Outbox_GetByReleaseID eventType releaseID = queryA (\<lambda>d. firstRow (\<lambda>ev. - int (oeID ev))
     (\<lambda>ev. oeEventType ev = eventType \<and> oeReleaseID ev = releaseID) (fdOutbox d))"

definition clampLimit :: "int \<Rightarrow> int" where
  "clampLimit limit = (if limit \<le> 0 \<or> limit > 100 then 50 else limit)"

definition Outbox_List :: "int \<Rightarrow> outboxEvent list fnact" where
  "Outbox_List limit = queryA (\<lambda>d.
     Inr (take (nat (clampLimit limit)) (sort_key (\<lambda>ev. - int (oeID ev)) (fdOutbox d))))"

definition Outbox_Requeue :: "int \<Rightarrow> unit fnact" where
  "Outbox_Requeue now = stmtA (\<lambda>d. Inr ((), d\<lparr>fdOutbox := updateRows (\<lambda>ev. oeStatus ev = ''failed'')
     (\<lambda>ev. ev\<lparr>oeStatus := ''pending'', oeNextAttemptAt := now, oeUpdatedAt := now\<rparr>) (fdOutbox d)\<rparr>))"

definition claimTimeout :: int where "claimTimeout = 60 * 1000000"

definition readyEvent :: "int \<Rightarrow> outboxEvent \<Rightarrow> bool" where
  "readyEvent now ev \<longleftrightarrow>
     (oeStatus ev \<in> {''pending'', ''failed''} \<and> oeNextAttemptAt ev \<le> now) \<or>
     (oeStatus ev = ''processing'' \<and> oeUpdatedAt ev \<le> now - claimTimeout)"

definition claimable :: "int \<Rightarrow> outboxEvent \<Rightarrow> bool" where
  "claimable now ev \<longleftrightarrow>
     oeStatus ev \<in> {''pending'', ''failed''} \<or>
     (oeStatus ev = ''processing'' \<and> oeUpdatedAt ev \<le> now - claimTimeout)"

text \<open>The conditional update of one selected event, and whether it took a row.\<close>

definition claimOne :: "int \<Rightarrow> outboxEvent \<Rightarrow> bool fnact" where
  "claimOne now ev = stmtA (\<lambda>d.
     Inr (\<exists>row \<in> set (fdOutbox d). oeID row = oeID ev \<and> claimable now row,
          d\<lparr>fdOutbox := updateRows (\<lambda>row. oeID row = oeID ev \<and> claimable now row)
            (\<lambda>row. row\<lparr>oeStatus := ''processing'', oeAttempts := oeAttempts ev + 1, oeUpdatedAt := now\<rparr>)
            (fdOutbox d)\<rparr>))"

fun claimAll :: "int \<Rightarrow> outboxEvent list \<Rightarrow> outboxEvent list fnact" where
  "claimAll now [] = retA []"
| "claimAll now (ev # evs) =
     bindA (claimOne now ev) (\<lambda>won.
     bindA (claimAll now evs) (\<lambda>rest.
     retA (if won then ev\<lparr>oeAttempts := oeAttempts ev + 1, oeStatus := ''processing''\<rparr> # rest else rest)))"

definition Outbox_ClaimReady :: "int \<Rightarrow> int \<Rightarrow> outboxEvent list fnact" where
  "Outbox_ClaimReady now limit =
     bindA (queryA (\<lambda>d. Inr (take (nat (clampLimit limit)) (sort_key oeID (filter (readyEvent now) (fdOutbox d))))))
       (claimAll now)"

definition doneEvent :: "int \<Rightarrow> outboxEvent \<Rightarrow> outboxEvent" where
  "doneEvent now ev = ev\<lparr>oeStatus := ''done'', oeLastError := [], oeNextAttemptAt := 0, oeUpdatedAt := now\<rparr>"

definition Outbox_MarkDone :: "nat \<Rightarrow> int \<Rightarrow> unit fnact" where
  "Outbox_MarkDone i now = stmtA (\<lambda>d. Inr ((), d\<lparr>fdOutbox :=
     updateRows (\<lambda>ev. oeID ev = i) (doneEvent now) (fdOutbox d)\<rparr>))"

definition Outbox_MarkDoneByUUID :: "gostr \<Rightarrow> int \<Rightarrow> unit fnact" where
  "Outbox_MarkDoneByUUID i now = stmtA (\<lambda>d. Inr ((), d\<lparr>fdOutbox :=
     updateRows (\<lambda>ev. oeUUID ev = i) (doneEvent now) (fdOutbox d)\<rparr>))"

definition Outbox_MarkRetry :: "nat \<Rightarrow> int \<Rightarrow> err \<Rightarrow> int \<Rightarrow> unit fnact" where
  "Outbox_MarkRetry i nextAttemptAt cause now = stmtA (\<lambda>d. Inr ((), d\<lparr>fdOutbox :=
     updateRows (\<lambda>ev. oeID ev = i)
       (\<lambda>ev. ev\<lparr>oeStatus := ''failed'', oeLastError := take 1000 (trimSpace (errText cause)),
               oeNextAttemptAt := nextAttemptAt, oeUpdatedAt := now\<rparr>) (fdOutbox d)\<rparr>))"

subsection \<open>Conversation operations: dao/conversation\_operation.go\<close>

definition insertOp :: "convOp \<Rightarrow> fndb \<Rightarrow> err + (convOp \<times> fndb)" where
  "insertOp p d =
     (if coUUID p \<in> coUUID ` set (fdOps d)
      then Inl (uniqueViolation ''func_operation_conversation_operations.uuid'')
      else let row = p\<lparr>coID := Suc (fdSeq d)\<rparr> in
           Inr (row, d\<lparr>fdSeq := Suc (fdSeq d), fdOps := fdOps d @ [row]\<rparr>))"

definition Op_Create :: "convOp \<Rightarrow> convOp fnact" where
  "Op_Create p = stmtA (insertOp p)"

definition Op_Get :: "gostr \<Rightarrow> convOp fnact" where
  "Op_Get i = queryA (\<lambda>d. firstRow coID (\<lambda>p. coUUID p = i) (fdOps d))"

definition inScope :: "gostr \<Rightarrow> gostr \<Rightarrow> gostr \<Rightarrow> gostr \<Rightarrow> convOp \<Rightarrow> bool" where
  "inScope functionID sessionID conversation userID p \<longleftrightarrow>
     coFunctionID p = functionID \<and> coSessionID p = sessionID \<and> coConversation p = conversation \<and> coUserID p = userID"

definition Op_GetLatest :: "gostr \<Rightarrow> gostr \<Rightarrow> gostr \<Rightarrow> gostr \<Rightarrow> convOp fnact" where
  "Op_GetLatest functionID sessionID conversation userID =
     queryA (\<lambda>d. firstRow (\<lambda>p. (- coCreatedAt p, int (coID p)))
       (inScope functionID sessionID conversation userID) (fdOps d))"

definition activeState :: "gostr \<Rightarrow> bool" where
  "activeState st \<longleftrightarrow> st \<in> {OpRunning, OpAwaitingUser, OpNeedsContinue, OpBlocked}"

definition Op_SupersedeActive :: "gostr \<Rightarrow> gostr \<Rightarrow> gostr \<Rightarrow> gostr \<Rightarrow> int \<Rightarrow> unit fnact" where
  "Op_SupersedeActive functionID sessionID conversation userID now = stmtA (\<lambda>d. Inr ((), d\<lparr>fdOps :=
     updateRows (\<lambda>p. inScope functionID sessionID conversation userID p \<and> activeState (coState p))
       (\<lambda>p. p\<lparr>coState := OpSuperseded, coUpdatedAt := now, coFinishedAt := now\<rparr>) (fdOps d)\<rparr>))"

definition Op_Resume :: "gostr \<Rightarrow> int \<Rightarrow> unit fnact" where
  "Op_Resume i now = stmtA (\<lambda>d. Inr ((), d\<lparr>fdOps := updateRows (\<lambda>p. coUUID p = i)
     (\<lambda>p. p\<lparr>coState := OpRunning, coTerminalStatus := [], coTerminalReason := [], coFinishedAt := 0,
            coUpdatedAt := now\<rparr>) (fdOps d)\<rparr>))"

definition Op_finish :: "gostr \<Rightarrow> gostr \<Rightarrow> gostr \<Rightarrow> gostr \<Rightarrow> gostr option \<Rightarrow> int \<Rightarrow> convOp fnact" where
  "Op_finish i st terminalStatus terminalReason outcome now =
     bindA (stmtA (\<lambda>d. Inr ((), d\<lparr>fdOps := updateRows (\<lambda>p. coUUID p = i \<and> activeState (coState p))
       (\<lambda>p. p\<lparr>coState := st, coTerminalStatus := terminalStatus, coTerminalReason := terminalReason,
              coUpdatedAt := now, coFinishedAt := now,
              coOutcome := (case outcome of None \<Rightarrow> coOutcome p | Some out \<Rightarrow> out)\<rparr>) (fdOps d)\<rparr>))) (\<lambda>_.
     Op_Get i)"

definition Op_FinishIfActive :: "gostr \<Rightarrow> gostr \<Rightarrow> gostr \<Rightarrow> gostr \<Rightarrow> int \<Rightarrow> convOp fnact" where
  "Op_FinishIfActive i st terminalStatus terminalReason now = Op_finish i st terminalStatus terminalReason None now"

definition Op_Complete :: "gostr \<Rightarrow> gostr \<Rightarrow> int \<Rightarrow> convOp fnact" where
  "Op_Complete i outcome now = Op_finish i OpCompleted TerminalSubmitted [] (Some outcome) now"

definition Exec_GetByToolUseID :: "gostr \<Rightarrow> progressExec fnact" where
  "Exec_GetByToolUseID toolUseID = queryA (\<lambda>d. firstRow peID (\<lambda>x. peToolUseID x = toolUseID) (fdExecs d))"

definition insertExec :: "progressExec \<Rightarrow> fndb \<Rightarrow> err + (unit \<times> fndb)" where
  "insertExec x d =
     (if peUUID x \<in> peUUID ` set (fdExecs d)
      then Inl (uniqueViolation ''func_operation_function_progress_executions.uuid'')
      else if peToolUseID x \<in> peToolUseID ` set (fdExecs d)
      then Inl (uniqueViolation ''func_operation_function_progress_executions.tool_use_id'')
      else Inr ((), d\<lparr>fdSeq := Suc (fdSeq d), fdExecs := fdExecs d @ [x\<lparr>peID := Suc (fdSeq d)\<rparr>]\<rparr>))"

text \<open>
  \<^verbatim>\<open>Complete\<close>: the transaction yields the execution that was already recorded for the
  tool call, or the operation it completed; the value is the operation and whether it was
  submitted before.
\<close>

definition completedBy :: "progressExec \<Rightarrow> convOp \<Rightarrow> convOp" where
  "completedBy x p = p\<lparr>coState := OpCompleted, coTerminalStatus := TerminalSubmitted, coTerminalReason := [],
     coOutcome := peOutcome x, coUpdatedAt := peUpdatedAt x, coFinishedAt := peUpdatedAt x\<rparr>"

definition Exec_record :: "progressExec \<Rightarrow> gostr \<Rightarrow> (progressExec + convOp) fnact" where
  "Exec_record x operationID = transactionA (
     bindA (tryA (Exec_GetByToolUseID (peToolUseID x))) (\<lambda>found.
     case found of
       Inr existing \<Rightarrow> retA (Inl existing)
     | Inl e \<Rightarrow>
         if e \<noteq> RecordNotFound then failA e
         else
           bindA (stmtA (insertExec x)) (\<lambda>_.
           bindA (stmtA (\<lambda>d. Inr ((), d\<lparr>fdOps :=
             updateRows (\<lambda>p. coUUID p = operationID) (completedBy x) (fdOps d)\<rparr>))) (\<lambda>_.
           bindA (Op_Get operationID) (\<lambda>p. retA (Inr p))))))"

definition Exec_Complete :: "progressExec \<Rightarrow> gostr \<Rightarrow> (convOp \<times> bool) fnact" where
  "Exec_Complete x operationID =
     bindA (Exec_record x operationID) (\<lambda>r.
     case r of
       Inl cached \<Rightarrow> bindA (Op_Get (peOperationID cached)) (\<lambda>p. retA (p, True))
     | Inr p \<Rightarrow> retA (p, False))"

lemma readonly_fn [act_frame, simp]:
  "readonly Function_List" "readonly Function_ListLegacyPublished" "readonly (Function_Exists i)"
  "readonly (Function_Get i)" "readonly (Function_GetByGeneratedAppID i)" "readonly (Release_Latest i)"
  "readonly (Release_ActiveForApp i)" "readonly Release_ListPublished" "readonly Release_ListAll"
  "readonly (Outbox_GetByReleaseID t i)" "readonly (Outbox_List n)" "readonly (Op_Get i)"
  "readonly (Op_GetLatest a b c e)" "readonly (Exec_GetByToolUseID i)"
  by (simp_all add: Function_List_def Function_ListLegacyPublished_def Function_Exists_def Function_Get_def
      Function_GetByGeneratedAppID_def Release_Latest_def Release_ActiveForApp_def Release_ListPublished_def
      Release_ListAll_def Outbox_GetByReleaseID_def Outbox_List_def Op_Get_def Op_GetLatest_def
      Exec_GetByToolUseID_def)

end
