(* ===== verification/Func_Access.thy ===== *)
theory Func_Access
  imports Func_Store Menu_Sync Realtime_Hub
begin

text \<open>
  What the function operation service calls: the system service over gRPC
  (\<^verbatim>\<open>authorization.go\<close>, \<^verbatim>\<open>function\_menu\_sync.go\<close>), the event bus
  (\<^verbatim>\<open>eventbus.NewEvent\<close>), and the environment that its components share.  Each
  call is a parameter that may answer anything at any time.
\<close>

record sysClient =
  scAllowed :: "goctx \<Rightarrow> gostr \<Rightarrow> gostr \<Rightarrow> nat \<Rightarrow> err + bool"
  scFunctionAllowed :: "goctx \<Rightarrow> gostr \<Rightarrow> gostr \<Rightarrow> gostr \<Rightarrow> nat \<Rightarrow> err + bool"
  scSyncMenu :: "goctx \<Rightarrow> syncReq \<Rightarrow> nat \<Rightarrow> err + gostr option"

record artifact =
  afAppID :: gostr
  afSHA256 :: gostr
  afManifest :: gostr

text \<open>\<^verbatim>\<open>generatedapp.Inspection\<close> and the fields of \<^verbatim>\<open>model.GeneratedApp\<close> in use.\<close>

record inspection =
  inExists :: bool
  inName :: gostr
  inDescription :: gostr
  inManifestVersion :: gostr
  inUpdatedAtMicro :: int
  inActions :: "gostr list"

record appRow =
  apUUID :: gostr
  apFrontendEntry :: gostr

record scaffoldInput =
  siAppID :: gostr
  siName :: gostr
  siDescription :: gostr
  siSessionID :: gostr
  siTablePrefix :: gostr
  siSummary :: gostr
  siHighlights :: "gostr list"
  siCorePages :: "gostr list"
  siDataModels :: "gostr list"
  siAPIs :: "gostr list"
  siNextSteps :: "gostr list"

record dataForm =
  dfName :: gostr
  dfLabel :: gostr
  dfFieldCount :: int
  dfRowCount :: int
  dfTableName :: gostr

record previewRuntime =
  pvListForms :: "gostr \<Rightarrow> nat \<Rightarrow> err + dataForm list"
  pvDeleteForm :: "gostr \<Rightarrow> gostr \<Rightarrow> nat \<Rightarrow> err + dataForm list"

text \<open>A message of the agent's store: its role and its content.\<close>

type_synonym agentMessage = "gostr \<times> gostr"

record fnRuntime =
  rtInspect :: "gostr \<Rightarrow> nat \<Rightarrow> err + inspection"
  rtCandidate :: "gostr \<Rightarrow> nat \<Rightarrow> err + appRow"
  rtScaffold :: "scaffoldInput \<Rightarrow> nat \<Rightarrow> err + appRow"
  rtSnapshot :: "gostr \<Rightarrow> nat \<Rightarrow> err + artifact"
  rtApplyModels :: "gostr \<Rightarrow> nat \<Rightarrow> err + unit"
  rtPromote :: "gostr \<Rightarrow> gostr \<Rightarrow> nat \<Rightarrow> err + unit"
  rtLoadApproved :: "(gostr \<rightharpoonup> gostr) \<Rightarrow> nat \<Rightarrow> err + unit"
  rtApproved :: "gostr \<Rightarrow> gostr \<Rightarrow> nat \<Rightarrow> bool"
  rtPublishedSnapshot :: "gostr \<Rightarrow> gostr \<Rightarrow> nat \<Rightarrow> err + unit"

record fnSkills =
  skSync :: "fnrow \<Rightarrow> release \<Rightarrow> nat \<Rightarrow> err + unit"
  skRevoke :: "gostr \<Rightarrow> nat \<Rightarrow> err + unit"

record agentClient =
  agEnsure :: "goctx \<Rightarrow> gostr \<Rightarrow> gostr \<Rightarrow> nat \<Rightarrow> err + (gostr \<times> bool)"
  agDelete :: "goctx \<Rightarrow> gostr \<Rightarrow> nat \<Rightarrow> err + unit"

record fenv =
  feSystem :: "sysClient option"
  feMenus :: "sysClient option"
  feRuntime :: "fnRuntime option"
  fePreview :: "previewRuntime option"
  feRoot :: gostr
  feMessages :: "(gostr \<Rightarrow> nat \<Rightarrow> err + agentMessage list) option"
  feReleases :: bool
  feOutbox :: bool
  feOperations :: bool
  feBus :: "(busEvent \<Rightarrow> nat \<Rightarrow> err + unit) option"
  feJSON :: "evPayload \<Rightarrow> gostr"
  feSkills :: "fnSkills option"
  feAgent :: "(nat \<Rightarrow> err + agentClient) option"
  feStoredApp :: "(gostr \<Rightarrow> nat \<Rightarrow> err + appRow) option"

definition ignoreA :: "('d, 'a) act \<Rightarrow> ('d, unit) act" where
  "ignoreA m = bindA (tryA m) (\<lambda>_. retA ())"

lemma ignoreA_iff: "ignoreA m w = (r, w') \<longleftrightarrow> r = Inr () \<and> w' = snd (m w)"
  by (auto simp: ignoreA_def bindA_def tryA_def retA_def split: prod.splits)

subsection \<open>Authorization\<close>

definition functionPermissionCreate :: gostr where "functionPermissionCreate = ''func-operation.functions.create''"
definition functionPermissionEdit :: gostr where "functionPermissionEdit = ''func-operation.functions.edit''"
definition functionPermissionPublish :: gostr where "functionPermissionPublish = ''func-operation.functions.publish''"
definition functionPermissionUnpublish :: gostr where
  "functionPermissionUnpublish = ''func-operation.functions.unpublish''"
definition functionPermissionDelete :: gostr where "functionPermissionDelete = ''func-operation.functions.delete''"

definition Allowed :: "sysClient option \<Rightarrow> goctx \<Rightarrow> gostr \<Rightarrow> bool fnact" where
  "Allowed client ctx menuCode =
     (case client of
        None \<Rightarrow> failA (Err ''function authorization is not configured'')
      | Some sys \<Rightarrow>
          (case RequireUserID ctx of
             Inl _ \<Rightarrow> retA False
           | Inr userID \<Rightarrow>
               if trimSpace userID = [] then retA False
               else callA (scAllowed sys (ForwardUserContext ctx) userID (trimSpace menuCode))))"

definition Require :: "sysClient option \<Rightarrow> goctx \<Rightarrow> gostr \<Rightarrow> unit fnact" where
  "Require client ctx menuCode =
     bindA (Allowed client ctx menuCode) (\<lambda>allowed.
     if allowed then retA () else failA (Err ''permission denied''))"

subsection \<open>Menus of published functions\<close>

definition normalizeActionKeys :: "gostr list \<Rightarrow> gostr list" where
  "normalizeActionKeys items = dedupTrim [] items"

definition menuCall :: "sysClient option \<Rightarrow> goctx \<Rightarrow> syncReq \<Rightarrow> gostr fnact" where
  "menuCall client ctx req =
     (case client of
        None \<Rightarrow> retA []
      | Some sys \<Rightarrow>
          bindA (callA (scSyncMenu sys (ForwardUserContext ctx) req)) (\<lambda>menu.
          retA (case menu of None \<Rightarrow> [] | Some i \<Rightarrow> i)))"

definition SyncPublished ::
  "sysClient option \<Rightarrow> goctx \<Rightarrow> gostr \<Rightarrow> gostr \<Rightarrow> gostr \<Rightarrow> gostr list \<Rightarrow> gostr fnact" where
  "SyncPublished client ctx functionID name parentID actionKeys =
     menuCall client ctx \<lparr>sqFunctionId = trimSpace functionID, sqAction = ''publish'', sqName = trimSpace name,
       sqParentId = trimSpace parentID, sqActionKeys = normalizeActionKeys actionKeys\<rparr>"

definition SyncMetadata ::
  "sysClient option \<Rightarrow> goctx \<Rightarrow> gostr \<Rightarrow> gostr \<Rightarrow> gostr \<Rightarrow> gostr list \<Rightarrow> gostr fnact" where
  "SyncMetadata client ctx functionID name parentID actionKeys =
     menuCall client ctx \<lparr>sqFunctionId = trimSpace functionID, sqAction = ''sync'', sqName = trimSpace name,
       sqParentId = trimSpace parentID, sqActionKeys = normalizeActionKeys actionKeys\<rparr>"

definition SyncPublishedActions ::
  "sysClient option \<Rightarrow> goctx \<Rightarrow> gostr \<Rightarrow> gostr \<Rightarrow> gostr \<Rightarrow> gostr list \<Rightarrow> gostr fnact" where
  "SyncPublishedActions client ctx functionID name parentID actionKeys =
     menuCall client ctx \<lparr>sqFunctionId = trimSpace functionID, sqAction = ''sync'', sqName = trimSpace name,
       sqParentId = trimSpace parentID, sqActionKeys = normalizeActionKeys actionKeys\<rparr>"

definition Unpublish :: "sysClient option \<Rightarrow> goctx \<Rightarrow> gostr \<Rightarrow> unit fnact" where
  "Unpublish client ctx functionID =
     bindA (menuCall client ctx \<lparr>sqFunctionId = trimSpace functionID, sqAction = ''unpublish'', sqName = [],
       sqParentId = [], sqActionKeys = []\<rparr>) (\<lambda>_. retA ())"

definition DeleteFunctionMenu :: "sysClient option \<Rightarrow> goctx \<Rightarrow> gostr \<Rightarrow> unit fnact" where
  "DeleteFunctionMenu client ctx functionID =
     bindA (menuCall client ctx \<lparr>sqFunctionId = trimSpace functionID, sqAction = ''delete'', sqName = [],
       sqParentId = [], sqActionKeys = []\<rparr>) (\<lambda>_. retA ())"

definition CheckAccess :: "sysClient option \<Rightarrow> goctx \<Rightarrow> gostr \<Rightarrow> gostr \<Rightarrow> gostr \<Rightarrow> bool fnact" where
  "CheckAccess client ctx reqUserID functionID actionKey =
     (let userID = (case RequireUserID ctx of Inl _ \<Rightarrow> reqUserID | Inr i \<Rightarrow> i) in
      case client of
        None \<Rightarrow> failA (Err ''function menu authorization is not configured'')
      | Some sys \<Rightarrow>
          if trimSpace userID = [] then retA False
          else callA (scFunctionAllowed sys (ForwardUserContext ctx) (trimSpace userID) (trimSpace functionID)
                 (trimSpace actionKey)))"

lemma readonly_access [act_frame, simp]:
  "readonly (Allowed client ctx code)" "readonly (Require client ctx code)" "readonly (menuCall client ctx req)"
  "readonly (SyncPublished client ctx a b c ks)" "readonly (SyncMetadata client ctx a b c ks)"
  "readonly (SyncPublishedActions client ctx a b c ks)" "readonly (Unpublish client ctx a)"
  "readonly (DeleteFunctionMenu client ctx a)" "readonly (CheckAccess client ctx u a k)"
proof -
  show allowed: "readonly (Allowed client ctx code)" for ctx code
    by (auto simp: Allowed_def split: option.splits sum.splits)
  show "readonly (Require client ctx code)"
    unfolding Require_def by (rule readonly_bind [OF allowed]) simp
  show menu: "readonly (menuCall client ctx req)" for req
    by (auto simp: menuCall_def split: option.splits intro!: readonly_bind)
  show "readonly (SyncPublished client ctx a b c ks)" "readonly (SyncMetadata client ctx a b c ks)"
    "readonly (SyncPublishedActions client ctx a b c ks)"
    by (simp_all add: SyncPublished_def SyncMetadata_def SyncPublishedActions_def menu)
  show "readonly (Unpublish client ctx a)" "readonly (DeleteFunctionMenu client ctx a)"
    unfolding Unpublish_def DeleteFunctionMenu_def by (auto intro!: readonly_bind menu)
  show "readonly (CheckAccess client ctx u a k)"
    by (auto simp: CheckAccess_def Let_def split: option.splits)
qed

lemma readonly_ignore [act_frame, intro]: "readonly m \<Longrightarrow> readonly (ignoreA m)"
  unfolding ignoreA_def by (intro readonly_bind readonly_try) simp_all

subsection \<open>Events\<close>

definition NewEvent :: "gostr \<Rightarrow> gostr \<Rightarrow> gostr \<Rightarrow> gostr \<Rightarrow> gostr \<Rightarrow> busEvent fnact" where
  "NewEvent typ topic key producer payload =
     (if trimSpace typ = [] \<or> trimSpace topic = [] \<or> trimSpace producer = [] then
        failA (Err ''event type, topic and producer are required'')
      else
        bindA newUUID (\<lambda>i.
        bindA timeNowA (\<lambda>now.
        retA \<lparr>beID = i, beType = typ, beSchemaVersion = 1, beTopic = topic, beKey = key, beProducer = producer,
              beOccurredAt = now div 1000000, beCorrelationID = [], beCausationID = [], beHeaders = Map.empty,
              bePayload = payload\<rparr>)))"

lemma readonly_NewEvent [act_frame, simp]: "readonly (NewEvent a b c e p)"
  unfolding NewEvent_def by (auto intro!: readonly_bind)

end
