(* ===== verification/Go_Text.thy ===== *)
theory Go_Text
  imports Go_Base
begin

text \<open>
  Text processing: UTF-8 decoding as \<^verbatim>\<open>[]rune\<close> does it, \<^verbatim>\<open>strings.Fields\<close>,
  \<^verbatim>\<open>TrimLeft\<close> and \<^verbatim>\<open>Trim\<close> with a cut set, and the helpers of
  \<^verbatim>\<open>func-operation/internal/logic/function.go\<close> that shorten texts and pick the items of
  a section of a document.
\<close>

subsection \<open>UTF-8\<close>

definition byteIn :: "nat \<Rightarrow> nat \<Rightarrow> char \<Rightarrow> bool" where
  "byteIn lo hi c \<longleftrightarrow> lo \<le> (of_char c :: nat) \<and> (of_char c :: nat) \<le> hi"

text \<open>The width of the character at the front, \<open>None\<close> for bytes that encode none.\<close>

definition secondRange :: "nat \<Rightarrow> nat \<times> nat" where
  "secondRange b = (if b = 224 then (160, 191) else if b = 237 then (128, 159)
                    else if b = 240 then (144, 191) else if b = 244 then (128, 143) else (128, 191))"

definition runeWidth :: "gostr \<Rightarrow> nat option" where
  "runeWidth s =
     (case s of
        [] \<Rightarrow> None
      | c # rest \<Rightarrow>
          let b = (of_char c :: nat);
              w = (if b < 128 then 1 else if 194 \<le> b \<and> b \<le> 223 then 2 else if 224 \<le> b \<and> b \<le> 239 then 3
                   else if 240 \<le> b \<and> b \<le> 244 then 4 else 0 :: nat);
              (lo, hi) = secondRange b in
          if w = 0 \<or> length rest < w - 1 then None
          else if w = 1 then Some 1
          else if byteIn lo hi (hd rest) \<and> list_all (byteIn 128 191) (take (w - 2) (tl rest)) then Some w
          else None)"

lemma runeWidth_bounds: "runeWidth s = Some w \<Longrightarrow> 0 < w \<and> w \<le> length s"
  by (cases s) (auto simp: runeWidth_def Let_def Suc_le_eq split: if_splits prod.splits)

definition replacementChar :: gostr where
  "replacementChar = utf8 [239, 191, 189]"

text \<open>\<^verbatim>\<open>[]rune(s)\<close>, each rune as its encoding.\<close>

function runes :: "gostr \<Rightarrow> gostr list" where
  "runes s =
     (if s = [] then []
      else case runeWidth s of
        None \<Rightarrow> replacementChar # runes (tl s)
      | Some w \<Rightarrow> take w s # runes (drop w s))"
  by pat_completeness auto
termination
  by (relation "measure length") (auto dest: runeWidth_bounds)

declare runes.simps [simp del]

function validUTF8 :: "gostr \<Rightarrow> bool" where
  "validUTF8 s \<longleftrightarrow>
     (if s = [] then True
      else case runeWidth s of None \<Rightarrow> False | Some w \<Rightarrow> validUTF8 (drop w s))"
  by pat_completeness auto
termination
  by (relation "measure length") (auto dest: runeWidth_bounds)

declare validUTF8.simps [simp del]

lemma runes_valid: "validUTF8 s \<Longrightarrow> concat (runes s) = s"
proof (induction s rule: runes.induct)
  case (1 s)
  show ?case
  proof (cases "s = []")
    case True
    then show ?thesis by (simp add: runes.simps)
  next
    case False
    then obtain w where w: "runeWidth s = Some w" "validUTF8 (drop w s)"
      using 1(3) by (auto simp: validUTF8.simps [of s] split: option.splits)
    then have "concat (runes (drop w s)) = drop w s" using 1(2) False by simp
    then show ?thesis using False w by (simp add: runes.simps [of s])
  qed
qed

definition compactConversationText :: "gostr \<Rightarrow> int \<Rightarrow> gostr" where
  "compactConversationText value limit =
     (let v = trimSpace value in
      if limit \<le> 0 \<or> int (length (runes v)) \<le> limit then v
      else concat (take (nat limit) (runes v)))"

subsection \<open>Fields and trimming\<close>

text \<open>
  \<^verbatim>\<open>strings.Fields\<close>: the maximal runs without a space character.  No encoding of a
  space starts inside another character, so the scan can go byte by byte.
\<close>

function fieldsFrom :: "gostr \<Rightarrow> gostr \<Rightarrow> gostr list" where
  "fieldsFrom cur s =
     (case stripAny spaceEncodings s of
        Some r \<Rightarrow> (if cur = [] then fieldsFrom [] r else cur # fieldsFrom [] r)
      | None \<Rightarrow> (case s of [] \<Rightarrow> (if cur = [] then [] else [cur]) | c # r \<Rightarrow> fieldsFrom (cur @ [c]) r))"
  by pat_completeness auto
termination
  by (relation "measure (\<lambda>(cur, s). length s)") (auto dest: stripAny_shorter)

declare fieldsFrom.simps [simp del]

definition fields :: "gostr \<Rightarrow> gostr list" where
  "fields s = fieldsFrom [] s"

definition trimLeftSet :: "gostr \<Rightarrow> gostr \<Rightarrow> gostr" where
  "trimLeftSet cutset s = dropWhile (\<lambda>c. c \<in> set cutset) s"

definition trimRunes :: "gostr list \<Rightarrow> gostr \<Rightarrow> gostr" where
  "trimRunes es s = rev (trimEnc (map rev es) (rev (trimEnc es s)))"

text \<open>\<^verbatim>\<open>strings.ReplaceAll(s, "\textbackslash r\textbackslash n", "\textbackslash n")\<close>\<close>

fun unixLines :: "gostr \<Rightarrow> gostr" where
  "unixLines (a # b # s) =
     (if a = CHR 0x0D \<and> b = CHR 0x0A then CHR 0x0A # unixLines s else a # unixLines (b # s))"
| "unixLines s = s"

subsection \<open>Shortening\<close>

definition compactText :: "gostr \<Rightarrow> int \<Rightarrow> gostr" where
  "compactText value limit =
     (let v = joinWith '' '' (fields (trimSpace value)) in
      if limit \<le> 0 \<or> int (length v) \<le> limit then v
      else if limit \<le> 3 then take (nat limit) v
      else take (nat (limit - 3)) v @ ''...'')"

definition firstNonEmpty :: "gostr list \<Rightarrow> gostr" where
  "firstNonEmpty values =
     (case filter (\<lambda>v. trimSpace v \<noteq> []) values of [] \<Rightarrow> [] | v # _ \<Rightarrow> trimSpace v)"

lemma compactText_length: "0 < limit \<Longrightarrow> int (length (compactText value limit)) \<le> limit"
  by (auto simp: compactText_def Let_def)

subsection \<open>Sections of a document\<close>

definition listMarks :: gostr where "listMarks = ''-*0123456789. ''"

definition headingMarks :: gostr where "headingMarks = ''#-*0123456789. ''"

definition fullColon :: gostr where "fullColon = (utf8 [239, 188, 154])"

definition normalizeSectionLine :: "gostr \<Rightarrow> gostr" where
  "normalizeSectionLine line =
     toLower (trimSpace (trimRunes [fullColon, '':'', '' ''] (trimLeftSet headingMarks (trimSpace line))))"

definition matchesHeading :: "gostr \<Rightarrow> gostr list \<Rightarrow> bool" where
  "matchesHeading line headings \<longleftrightarrow>
     list_ex (\<lambda>heading.
       normalizeSectionLine line = normalizeSectionLine heading \<or>
       contains (normalizeSectionLine line) (normalizeSectionLine heading)) headings"

definition looksLikeHeading :: "gostr \<Rightarrow> bool" where
  "looksLikeHeading line =
     (let l = trimSpace (trimLeftSet headingMarks (trimSpace line)) in contains l fullColon \<or> contains l '':'')"

definition looksLikeListItem :: "gostr \<Rightarrow> bool" where
  "looksLikeListItem line = (let l = trimSpace line in hasPrefix l ''-'' \<or> hasPrefix l ''*'')"

text \<open>The loop of \<^verbatim>\<open>extractSectionItems\<close> over the lines.\<close>

fun collectItems :: "gostr list \<Rightarrow> bool \<Rightarrow> gostr list \<Rightarrow> gostr list \<Rightarrow> gostr list" where
  "collectItems headings collecting out [] = out"
| "collectItems headings collecting out (row # rows) =
     (let trimmed = trimSpace row in
      if trimmed = [] then
        (if collecting \<and> out \<noteq> [] then out else collectItems headings collecting out rows)
      else if matchesHeading trimmed headings then collectItems headings True out rows
      else if collecting \<and> looksLikeHeading trimmed \<and> \<not> looksLikeListItem trimmed then out
      else if \<not> collecting then collectItems headings collecting out rows
      else
        let item = trimSpace (trimLeftSet listMarks trimmed) in
        if item = [] then collectItems headings collecting out rows
        else
          let out' = out @ [compactText item 90] in
          if length out' \<ge> 4 then out' else collectItems headings collecting out' rows)"

definition extractSectionItems :: "gostr \<Rightarrow> gostr list \<Rightarrow> gostr list" where
  "extractSectionItems content headings =
     collectItems headings False [] (splitOn CHR 0x0A (unixLines content))"

fun collectLines :: "gostr list \<Rightarrow> gostr list \<Rightarrow> gostr list" where
  "collectLines out [] = out"
| "collectLines out (row # rows) =
     (let r = trimSpace (trimLeftSet listMarks (trimSpace row)) in
      if r = [] then collectLines out rows
      else
        let out' = out @ [compactText r 80] in
        if length out' \<ge> 4 then out' else collectLines out' rows)"

definition splitHighlights :: "gostr \<Rightarrow> gostr list" where
  "splitHighlights content = collectLines [] (splitOn CHR 0x0A (unixLines content))"

text \<open>At most four items, none longer than the limit.\<close>

definition fewShort :: "nat \<Rightarrow> nat \<Rightarrow> gostr list \<Rightarrow> bool" where
  "fewShort n k items \<longleftrightarrow> length items \<le> n \<and> (\<forall>x \<in> set items. length x \<le> k)"

lemma fewShort_if: "(b \<Longrightarrow> fewShort n k xs) \<Longrightarrow> (\<not> b \<Longrightarrow> fewShort n k ys) \<Longrightarrow> fewShort n k (if b then xs else ys)"
  by simp

lemma fewShort_less: "fewShort 3 k out \<Longrightarrow> fewShort 4 k out"
  by (simp add: fewShort_def)

lemma fewShort_snoc:
  "fewShort 3 k out \<Longrightarrow> 0 < k \<Longrightarrow> fewShort 4 k (out @ [compactText x (int k)])"
  using compactText_length [of "int k" x] by (auto simp: fewShort_def)

lemma fewShort_more: "fewShort 4 k out \<Longrightarrow> \<not> 4 \<le> length out \<Longrightarrow> fewShort 3 k out"
  by (simp add: fewShort_def)

lemma collectItems_bounds: "fewShort 3 90 out \<Longrightarrow> fewShort 4 90 (collectItems hs col out rows)"
proof (induction rows arbitrary: col out)
  case Nil
  then show ?case by (simp add: fewShort_less)
next
  case (Cons row rows)
  have new: "fewShort 4 90 (out @ [compactText x 90])" for x using fewShort_snoc [OF Cons.prems, of x] by simp
  have old: "fewShort 4 90 out" by (rule fewShort_less [OF Cons.prems])
  show ?case unfolding collectItems.simps Let_def
    by (intro fewShort_if old Cons.prems Cons.IH new fewShort_more) assumption
qed

lemma collectLines_bounds: "fewShort 3 80 out \<Longrightarrow> fewShort 4 80 (collectLines out rows)"
proof (induction rows arbitrary: out)
  case Nil
  then show ?case by (simp add: fewShort_less)
next
  case (Cons row rows)
  have new: "fewShort 4 80 (out @ [compactText x 80])" for x using fewShort_snoc [OF Cons.prems, of x] by simp
  show ?case unfolding collectLines.simps Let_def
    by (intro fewShort_if Cons.prems Cons.IH new fewShort_more) assumption
qed

lemma extractSectionItems_bounds:
  "fewShort 4 90 (extractSectionItems content headings)"
  unfolding extractSectionItems_def by (rule collectItems_bounds) (simp add: fewShort_def)

end
