(* ===== verification/Func_Operations.thy ===== *)
theory Func_Operations
  imports Func_Access Go_Text
begin

text \<open>
  \<^verbatim>\<open>func-operation/internal/logic/conversation\_operation.go\<close>: the business operations
  behind the conversations with the agent.  An operation starts, waits for the user, may be
  resumed, and ends completed, blocked, cancelled or superseded; its completion is recorded
  once per tool call.
\<close>

definition conversationProduct :: gostr where "conversationProduct = ''product''"
definition conversationTechnical :: gostr where "conversationTechnical = ''technical''"
definition conversationGeneration :: gostr where "conversationGeneration = ''generation''"

lemmas conversation_consts = conversationProduct_def conversationTechnical_def conversationGeneration_def

definition normalizeFunctionConversation :: "gostr \<Rightarrow> gostr" where
  "normalizeFunctionConversation value =
     (let v = toLower (trimSpace value) in
      if v = conversationProduct then conversationProduct
      else if v = conversationTechnical then conversationTechnical
      else if v \<in> {conversationGeneration, ''code'', ''code_generation''} then conversationGeneration
      else [])"

definition sessionIDForConversation :: "fnrow \<Rightarrow> gostr \<Rightarrow> gostr" where
  "sessionIDForConversation f conversation =
     (if conversation = conversationProduct then trimSpace (fnProductSessionID f)
      else if conversation = conversationTechnical then trimSpace (fnTechnicalSessionID f)
      else if conversation = conversationGeneration then trimSpace (fnGenerationSessionID f)
      else [])"

definition validateOperationScope :: "convOp \<Rightarrow> gostr \<Rightarrow> gostr \<Rightarrow> gostr \<Rightarrow> gostr \<Rightarrow> err + unit" where
  "validateOperationScope p userID functionID sessionID conversation =
     (if coUserID p \<noteq> userID \<or> coFunctionID p \<noteq> functionID \<or> coSessionID p \<noteq> sessionID \<or>
         coConversation p \<noteq> conversation
      then Inl (Err ''conversation operation scope does not match the current request'')
      else Inr ())"

definition canResumeConversationOperation :: "gostr \<Rightarrow> bool" where
  "canResumeConversationOperation st \<longleftrightarrow> st = OpAwaitingUser \<or> st = OpNeedsContinue"

definition normalizeConversationTerminalStatus :: "gostr \<Rightarrow> gostr" where
  "normalizeConversationTerminalStatus value =
     (let v = toLower (trimSpace value) in
      if v = TerminalMaxTurns then TerminalMaxTurns
      else if v = TerminalCancelled then TerminalCancelled
      else if v = TerminalError then TerminalError
      else TerminalNormal)"

definition conversationStateForTerminal :: "gostr \<Rightarrow> gostr" where
  "conversationStateForTerminal terminalStatus =
     (if terminalStatus = TerminalMaxTurns then OpNeedsContinue
      else if terminalStatus = TerminalCancelled then OpCancelled
      else if terminalStatus = TerminalError then OpBlocked
      else OpAwaitingUser)"

definition progressToolMatchesConversation :: "gostr \<Rightarrow> gostr \<Rightarrow> bool" where
  "progressToolMatchesConversation toolName conversation =
     (if conversation = conversationProduct then toolName = ''submit_product_document_draft''
      else if conversation = conversationTechnical then toolName = ''submit_technical_document_draft''
      else if conversation = conversationGeneration then toolName = ''submit_generated_app''
      else False)"

definition resolveScope :: "gostr \<Rightarrow> gostr \<Rightarrow> (fnrow \<times> gostr \<times> gostr) fnact" where
  "resolveScope functionID conversationValue =
     bindA (Function_Get (trimSpace functionID)) (\<lambda>f.
     let conversation = normalizeFunctionConversation conversationValue in
     if conversation = [] then failA (Err ''unsupported conversation'')
     else
       let sessionID = sessionIDForConversation f conversation in
       if sessionID = [] then failA (Err ''function conversation session is not ready'')
       else retA (f, conversation, sessionID))"

definition baselineOf :: "fnrow \<Rightarrow> (gostr \<rightharpoonup> int)" where
  "baselineOf f = [''functionVersion'' \<mapsto> fnFunctionVersion f, ''productDocVersion'' \<mapsto> fnProductDocVersion f,
     ''productDraftVersion'' \<mapsto> fnProductDraftVersion f, ''technicalDocVersion'' \<mapsto> fnTechnicalDocVersion f,
     ''technicalDraftVersion'' \<mapsto> fnTechnicalDraftVersion f, ''codeVersion'' \<mapsto> fnCodeVersion f,
     ''codeDraftVersion'' \<mapsto> fnCodeDraftVersion f]"

definition newOperation :: "gostr \<Rightarrow> fnrow \<Rightarrow> gostr \<Rightarrow> gostr \<Rightarrow> gostr \<Rightarrow> int \<Rightarrow> convOp" where
  "newOperation i f sessionID conversation userID now =
     \<lparr>coID = 0, coUUID = i, coFunctionID = fnUUID f, coSessionID = sessionID, coConversation = conversation,
      coUserID = userID, coState = OpRunning, coBaseline = Some (baselineOf f), coTerminalStatus = [],
      coTerminalReason = [], coOutcome = [], coCreatedAt = now, coUpdatedAt = now, coFinishedAt = 0\<rparr>"

definition resumeOperation :: "gostr \<Rightarrow> gostr \<Rightarrow> fnrow \<Rightarrow> gostr \<Rightarrow> gostr \<Rightarrow> int \<Rightarrow> convOp fnact" where
  "resumeOperation operationID userID f sessionID conversation now =
     bindA (Op_Get operationID) (\<lambda>p.
     bindA (liftA (validateOperationScope p userID (fnUUID f) sessionID conversation)) (\<lambda>_.
     if \<not> canResumeConversationOperation (coState p) then
       failA (Err ''conversation operation is not resumable'')
     else
       bindA (Op_Resume (coUUID p) now) (\<lambda>_. Op_Get (coUUID p))))"

text \<open>A request carries the function, the conversation and, to resume, the operation.\<close>

definition Start :: "fenv \<Rightarrow> goctx \<Rightarrow> gostr \<Rightarrow> gostr \<Rightarrow> gostr \<Rightarrow> convOp fnact" where
  "Start env ctx reqID reqConversation reqOperationID =
     bindA (Require (feSystem env) ctx functionPermissionEdit) (\<lambda>_.
     bindA (liftA (RequireUserID ctx)) (\<lambda>userID.
     bindA (resolveScope reqID reqConversation) (\<lambda>(f, conversation, sessionID).
     bindA nowA (\<lambda>now.
     let operationID = trimSpace reqOperationID in
     if operationID \<noteq> [] then resumeOperation operationID userID f sessionID conversation now
     else
       bindA (Op_SupersedeActive (fnUUID f) sessionID conversation userID now) (\<lambda>_.
       bindA newUUID (\<lambda>i.
       Op_Create (newOperation i f sessionID conversation userID now)))))))"

definition GetLatest :: "fenv \<Rightarrow> goctx \<Rightarrow> gostr \<Rightarrow> gostr \<Rightarrow> convOp option fnact" where
  "GetLatest env ctx reqID reqConversation =
     bindA (Require (feSystem env) ctx functionPermissionEdit) (\<lambda>_.
     bindA (liftA (RequireUserID ctx)) (\<lambda>userID.
     bindA (resolveScope reqID reqConversation) (\<lambda>(f, conversation, sessionID).
     bindA (tryA (Op_GetLatest (fnUUID f) sessionID conversation userID)) (\<lambda>found.
     case found of
       Inl e \<Rightarrow> if e = RecordNotFound then retA None else failA e
     | Inr p \<Rightarrow> retA (Some p)))))"

definition Finish :: "goctx \<Rightarrow> gostr \<Rightarrow> gostr \<Rightarrow> gostr \<Rightarrow> convOp fnact" where
  "Finish ctx reqOperationID reqTerminalStatus reqTerminalReason =
     bindA (liftA (RequireUserID ctx)) (\<lambda>userID.
     bindA (Op_Get (trimSpace reqOperationID)) (\<lambda>p.
     if trimSpace (coUserID p) \<noteq> userID then
       failA (Err ''conversation operation does not belong to the current user'')
     else
       let terminalStatus = normalizeConversationTerminalStatus reqTerminalStatus in
       bindA nowA (\<lambda>now.
       Op_FinishIfActive (coUUID p) (conversationStateForTerminal terminalStatus) terminalStatus
         (compactConversationText reqTerminalReason 1000) now)))"

definition recordDraftOperation :: "convOp \<Rightarrow> int \<Rightarrow> unit fnact" where
  "recordDraftOperation p now =
     (if coConversation p \<noteq> conversationTechnical \<and> coConversation p \<noteq> conversationGeneration then retA ()
      else
        bindA (Function_Get (coFunctionID p)) (\<lambda>f.
        Function_Update
          (if coConversation p = conversationTechnical
           then f\<lparr>fnTechnicalDraftOperationID := coUUID p, fnUpdatedAt := now\<rparr>
           else f\<lparr>fnCodeDraftOperationID := coUUID p, fnUpdatedAt := now\<rparr>)))"

record progressReq =
  pqOperationId :: gostr
  pqFunctionId :: gostr
  pqSessionId :: gostr
  pqConversation :: gostr
  pqToolName :: gostr
  pqToolUseId :: gostr
  pqSummary :: gostr

definition newExecution :: "gostr \<Rightarrow> convOp \<Rightarrow> gostr \<Rightarrow> gostr \<Rightarrow> gostr \<Rightarrow> gostr \<Rightarrow> int \<Rightarrow> progressExec" where
  "newExecution i p toolName toolUseID userID outcome now =
     \<lparr>peID = 0, peUUID = i, peOperationID = coUUID p, peFunctionID = coFunctionID p, peSessionID = coSessionID p,
      peConversation = coConversation p, peToolName = toolName, peToolUseID = toolUseID, peUserID = userID,
      peStatus = ''succeeded'', peOutcome = outcome, peCreatedAt = now, peUpdatedAt = now\<rparr>"

definition SubmitProgress :: "goctx \<Rightarrow> progressReq \<Rightarrow> (convOp \<times> bool) fnact" where
  "SubmitProgress ctx req =
     bindA (liftA (RequireUserID ctx)) (\<lambda>userID.
     bindA (Op_Get (trimSpace (pqOperationId req))) (\<lambda>p.
     bindA (liftA (validateOperationScope p userID (trimSpace (pqFunctionId req)) (trimSpace (pqSessionId req))
       (normalizeFunctionConversation (pqConversation req)))) (\<lambda>_.
     let toolName = trimSpace (pqToolName req);
         toolUseID = trimSpace (pqToolUseId req) in
     if \<not> progressToolMatchesConversation toolName (coConversation p) then
       failA (Err (''tool is not allowed for '' @ coConversation p @ '' conversation''))
     else if toolUseID = [] then failA (Err ''tool use id is required'')
     else
       bindA nowA (\<lambda>now.
       let outcome = compactConversationText (pqSummary req) 2000 in
       if outcome = [] then failA (Err ''completion summary is required'')
       else
         bindA newUUID (\<lambda>i.
         bindA (Exec_Complete (newExecution i p toolName toolUseID userID outcome now) (coUUID p))
           (\<lambda>(completed, alreadySubmitted).
         if coState completed \<noteq> OpCompleted then
           failA (Err ''conversation operation is no longer active'')
         else
           bindA (recordDraftOperation completed now) (\<lambda>_.
           retA (completed, alreadySubmitted))))))))"

end
