(* ===== verification/Func_Docs.thy ===== *)
theory Func_Docs
  imports Func_Operations
begin

text \<open>
  The documents and the versions of a function (\<^verbatim>\<open>func-operation/internal/logic/function.go\<close>
  and \<^verbatim>\<open>readiness.go\<close>): a product and a technical document, each with a draft and an
  applied file, and the version numbers that say what is derived from what.

  \<open>feRoot\<close> is the absolute root of the generated applications.  The directories are not
  modelled: \<^verbatim>\<open>MkdirAll\<close> is a call that may fail.
\<close>

subsection \<open>Files\<close>

definition readFile :: "gostr \<Rightarrow> (gostr \<times> int) option fnact" where
  "readFile p = queryA (\<lambda>d. Inr (fdFiles d p))"

definition mkdirAll :: "unit fnact" where
  "mkdirAll = queryA (\<lambda>d. Inr ())"

definition writeFile :: "gostr \<Rightarrow> gostr \<Rightarrow> unit fnact" where
  "writeFile p content =
     bindA nowA (\<lambda>now. stmtA (\<lambda>d. Inr ((), d\<lparr>fdFiles := (fdFiles d)(p \<mapsto> (content, now))\<rparr>)))"

definition removeAll :: "gostr \<Rightarrow> unit fnact" where
  "removeAll dir = stmtA (\<lambda>d. Inr ((), d\<lparr>fdFiles := fdFiles d |` {p. p \<noteq> dir \<and> \<not> hasPrefix p (dir @ ''/'')}\<rparr>))"

definition fileModTime :: "gostr \<Rightarrow> int fnact" where
  "fileModTime p =
     bindA (tryA (readFile p)) (\<lambda>r. retA (case r of Inr (Some (_, t)) \<Rightarrow> t | _ \<Rightarrow> 0))"

subsection \<open>Paths\<close>

definition docProduct :: gostr where "docProduct = ''product''"
definition docTechnical :: gostr where "docTechnical = ''technical''"
definition sourceDraft :: gostr where "sourceDraft = ''draft''"
definition sourceApplied :: gostr where "sourceApplied = ''applied''"

lemmas doc_consts = docProduct_def docTechnical_def sourceDraft_def sourceApplied_def

definition normalizeFunctionDocumentSource :: "gostr \<Rightarrow> gostr" where
  "normalizeFunctionDocumentSource value =
     (let v = toLower (trimSpace value) in
      if v \<in> {[], ''applied'', ''published''} then sourceApplied
      else if v = sourceDraft then sourceDraft
      else sourceApplied)"

definition normalizeFunctionDocumentType :: "gostr \<Rightarrow> gostr" where
  "normalizeFunctionDocumentType value =
     (let v = toLower (trimSpace value) in
      if v = docProduct then docProduct else if v = docTechnical then docTechnical else [])"

definition functionAppID :: "fnrow \<Rightarrow> gostr" where
  "functionAppID f =
     (if trimSpace (fnGeneratedAppID f) \<noteq> [] then trimSpace (fnGeneratedAppID f) else trimSpace (fnUUID f))"

definition functionAppDir :: "fenv \<Rightarrow> fnrow \<Rightarrow> gostr" where
  "functionAppDir env f =
     (if functionAppID f = [] then feRoot env else feRoot env @ ''/'' @ functionAppID f)"

definition functionDocumentPath :: "fenv \<Rightarrow> fnrow \<Rightarrow> gostr \<Rightarrow> gostr \<Rightarrow> gostr" where
  "functionDocumentPath env f docType source =
     (let filename = (if docType = docProduct then ''product-doc.md''
                      else if docType = docTechnical then ''technical-doc.md'' else ''document.md'') in
      functionAppDir env f @ ''/documents/'' @ docType @ ''/'' @ normalizeFunctionDocumentSource source @ ''/'' @ filename)"

definition ensureFunctionWorkspace :: "fenv \<Rightarrow> fnrow \<Rightarrow> unit fnact" where
  "ensureFunctionWorkspace env f =
     forA [(docProduct, sourceDraft), (docProduct, sourceApplied), (docTechnical, sourceDraft),
           (docTechnical, sourceApplied)] (\<lambda>_. mkdirAll)"

subsection \<open>Documents\<close>

record docPayload =
  dpDocType :: gostr
  dpSource :: gostr
  dpPath :: gostr
  dpContent :: gostr
  dpExists :: bool
  dpVersion :: int

definition noDocument :: docPayload where
  "noDocument = \<lparr>dpDocType = [], dpSource = [], dpPath = [], dpContent = [], dpExists = False, dpVersion = 0\<rparr>"

definition loadFunctionDocument :: "fenv \<Rightarrow> fnrow \<Rightarrow> gostr \<Rightarrow> gostr \<Rightarrow> docPayload fnact" where
  "loadFunctionDocument env f reqType reqSource =
     (let docType = normalizeFunctionDocumentType reqType in
      if docType = [] then failA (Err ''doc type is required'')
      else
        let source = normalizeFunctionDocumentSource reqSource;
            path = functionDocumentPath env f docType source in
        bindA (readFile path) (\<lambda>content.
        retA (case content of
            None \<Rightarrow> \<lparr>dpDocType = docType, dpSource = source, dpPath = path, dpContent = [], dpExists = False,
                      dpVersion = 0\<rparr>
          | Some (text, _) \<Rightarrow> \<lparr>dpDocType = docType, dpSource = source, dpPath = path, dpContent = trimSpace text,
                      dpExists = True, dpVersion = 0\<rparr>)))"

definition commitFunctionDocument :: "fenv \<Rightarrow> fnrow \<Rightarrow> gostr \<Rightarrow> docPayload fnact" where
  "commitFunctionDocument env f reqType =
     (let docType = normalizeFunctionDocumentType reqType in
      if docType = [] then failA (Err ''doc type is required'')
      else
        let draftPath = functionDocumentPath env f docType sourceDraft;
            appliedPath = functionDocumentPath env f docType sourceApplied in
        bindA (readFile draftPath) (\<lambda>draft.
        case draft of
          None \<Rightarrow> failA (Err ''draft document does not exist'')
        | Some (content, _) \<Rightarrow>
            bindA mkdirAll (\<lambda>_.
            bindA (writeFile appliedPath content) (\<lambda>_.
            retA \<lparr>dpDocType = docType, dpSource = sourceApplied, dpPath = appliedPath,
                  dpContent = trimSpace content, dpExists = True, dpVersion = 0\<rparr>))))"

subsection \<open>Versions\<close>

definition appliedDocumentVersion :: "docPayload \<Rightarrow> int \<Rightarrow> int" where
  "appliedDocumentVersion doc storedVersion =
     (if \<not> dpExists doc \<or> trimSpace (dpContent doc) = [] then 0
      else if storedVersion > 0 then storedVersion
      else 1)"

definition draftDocumentVersion :: "docPayload \<Rightarrow> docPayload \<Rightarrow> int \<Rightarrow> int \<Rightarrow> int" where
  "draftDocumentVersion applied draft appliedVersion storedDraftVersion =
     (if \<not> dpExists draft \<or> trimSpace (dpContent draft) = [] then appliedVersion
      else
        let bump = (if appliedVersion = 0 then 1 else appliedVersion + 1);
            version = (if \<not> dpExists applied \<or> trimSpace (dpContent applied) = [] then bump
                       else if trimSpace (dpContent draft) \<noteq> trimSpace (dpContent applied) then bump
                       else appliedVersion) in
        if storedDraftVersion > version then storedDraftVersion else version)"

definition adoptDocumentVersion :: "int \<Rightarrow> int \<Rightarrow> int" where
  "adoptDocumentVersion appliedVersion draftVersion =
     (let version = (if draftVersion \<le> appliedVersion then appliedVersion + 1 else draftVersion) in
      if version < 1 then 1 else version)"

definition syncCodeVersionsOnPublish :: "fnrow \<Rightarrow> fnrow" where
  "syncCodeVersionsOnPublish f0 =
     (let f1 = (if fnCodeDraftVersion f0 > fnCodeVersion f0 then f0\<lparr>fnCodeVersion := fnCodeDraftVersion f0\<rparr> else f0);
          f2 = (if fnCodeVersion f1 = 0
                then f1\<lparr>fnCodeVersion := (if fnFunctionVersion f1 > 0 then fnFunctionVersion f1 else 1)\<rparr> else f1) in
      if fnCodeDraftVersion f2 < fnCodeVersion f2 then f2\<lparr>fnCodeDraftVersion := fnCodeVersion f2\<rparr> else f2)"

record versionFlags =
  vfProductDraftReady :: bool
  vfTechnicalDraftReady :: bool
  vfTechnicalStale :: bool
  vfCodeStale :: bool
  vfCodeDraftReady :: bool

definition functionVersionFlags :: "fnrow \<Rightarrow> versionFlags" where
  "functionVersionFlags f =
     \<lparr>vfProductDraftReady = fnProductDraftVersion f > fnProductDocVersion f,
      vfTechnicalDraftReady = fnTechnicalDraftVersion f > fnTechnicalDocVersion f,
      vfTechnicalStale =
        (fnDocTechnicalStale f \<or>
         (fnTechnicalDocVersion f > 0 \<and> fnProductDocVersion f > 0 \<and> fnTechnicalSourceProductVersion f > 0 \<and>
          fnTechnicalSourceProductVersion f \<noteq> fnProductDocVersion f)),
      vfCodeStale =
        (fnCodeVersion f > 0 \<and>
         (if fnCodeSourceTechnicalVersion f > 0 then fnCodeSourceTechnicalVersion f \<noteq> fnTechnicalDocVersion f
          else fnTechnicalDocVersion f > fnCodeVersion f)),
      vfCodeDraftReady = False\<rparr>"

definition raiseFunctionVersion :: "int \<Rightarrow> fnrow \<Rightarrow> fnrow" where
  "raiseFunctionVersion v f = (if fnFunctionVersion f < v then f\<lparr>fnFunctionVersion := v\<rparr> else f)"

definition legacyProduct :: "fnrow \<Rightarrow> fnrow" where
  "legacyProduct f =
     (if fnProductDocVersion f = 0 \<and> trimSpace (fnProductDoc f) \<noteq> []
      then raiseFunctionVersion 1 (f\<lparr>fnProductDocVersion := 1\<rparr>) else f)"

definition legacyTechnical :: "fnrow \<Rightarrow> fnrow" where
  "legacyTechnical f =
     (if fnTechnicalDocVersion f = 0 \<and> trimSpace (fnTechnicalDoc f) \<noteq> []
      then let v = max 2 (fnProductDocVersion f + 1) in raiseFunctionVersion v (f\<lparr>fnTechnicalDocVersion := v\<rparr>)
      else f)"

definition legacyCode :: "fnrow \<Rightarrow> fnrow" where
  "legacyCode f =
     (if fnCodeVersion f = 0 \<and> trimSpace (fnGeneratedAppID f) \<noteq> [] \<and> fnWorkflowStage f = StageCodeGenerated
      then let v = max 1 (fnTechnicalDocVersion f + 1) in raiseFunctionVersion v (f\<lparr>fnCodeVersion := v\<rparr>)
      else f)"

definition legacyCodeDraft :: "fnrow \<Rightarrow> fnrow" where
  "legacyCodeDraft f =
     (if fnCodeDraftVersion f = 0 \<and> fnCodeVersion f > 0 then f\<lparr>fnCodeDraftVersion := fnCodeVersion f\<rparr> else f)"

definition normalizeLegacyFunctionVersions :: "fnrow \<Rightarrow> fnrow" where
  "normalizeLegacyFunctionVersions f = legacyCodeDraft (legacyCode (legacyTechnical (legacyProduct f)))"

lemmas legacy_defs = raiseFunctionVersion_def legacyProduct_def legacyTechnical_def legacyCode_def legacyCodeDraft_def

definition documentVersion :: "fnrow \<Rightarrow> gostr \<Rightarrow> gostr \<Rightarrow> int" where
  "documentVersion f reqType reqSource =
     (let docType = normalizeFunctionDocumentType reqType;
          source = normalizeFunctionDocumentSource reqSource in
      if docType = docProduct then (if source = sourceDraft then fnProductDraftVersion f else fnProductDocVersion f)
      else if docType = docTechnical then
        (if source = sourceDraft then fnTechnicalDraftVersion f else fnTechnicalDocVersion f)
      else 0)"

definition functionHasGeneratedCode :: "fnrow \<Rightarrow> bool" where
  "functionHasGeneratedCode f \<longleftrightarrow> trimSpace (fnGeneratedAppID f) \<noteq> [] \<and> fnCodeVersion f > 0"

subsection \<open>The state read from the files\<close>

definition orNoDocument :: "docPayload fnact \<Rightarrow> docPayload fnact" where
  "orNoDocument m = bindA (tryA m) (\<lambda>r. retA (case r of Inl _ \<Rightarrow> noDocument | Inr doc \<Rightarrow> doc))"

definition withDocuments :: "docPayload \<Rightarrow> docPayload \<Rightarrow> docPayload \<Rightarrow> docPayload \<Rightarrow> fnrow \<Rightarrow> fnrow" where
  "withDocuments pa pd ta td f =
     (let productVersion = appliedDocumentVersion pa (fnProductDocVersion f);
          technicalVersion = appliedDocumentVersion ta (fnTechnicalDocVersion f) in
      f\<lparr>fnProductDoc := dpContent pa, fnTechnicalDoc := dpContent ta,
        fnProductDocPath := dpPath pa, fnTechnicalDocPath := dpPath ta,
        fnProductDocVersion := productVersion,
        fnProductDraftVersion := draftDocumentVersion pa pd productVersion (fnProductDraftVersion f),
        fnTechnicalDocVersion := technicalVersion,
        fnTechnicalDraftVersion := draftDocumentVersion ta td technicalVersion (fnTechnicalDraftVersion f)\<rparr>)"

definition technicalStaleFrom :: "docPayload \<Rightarrow> docPayload \<Rightarrow> fnrow \<Rightarrow> bool fnact" where
  "technicalStaleFrom pa ta f =
     (if \<not> (dpExists pa \<and> dpExists ta) then retA False
      else if fnTechnicalSourceProductVersion f > 0 then
        retA (fnTechnicalSourceProductVersion f \<noteq> fnProductDocVersion f)
      else
        bindA (fileModTime (dpPath pa)) (\<lambda>a. bindA (fileModTime (dpPath ta)) (\<lambda>b. retA (a > b))))"

definition withStale :: "bool \<Rightarrow> fnrow \<Rightarrow> fnrow" where
  "withStale stale f =
     (if stale then f\<lparr>fnDocTechnicalStale := True, fnTechnicalDraftVersion := fnTechnicalDocVersion f\<rparr>
      else f\<lparr>fnDocTechnicalStale := False\<rparr>)"

definition documentState :: "fenv \<Rightarrow> fnrow \<Rightarrow> fnrow fnact" where
  "documentState env f =
     bindA (orNoDocument (loadFunctionDocument env f docProduct sourceApplied)) (\<lambda>pa.
     bindA (orNoDocument (loadFunctionDocument env f docProduct sourceDraft)) (\<lambda>pd.
     bindA (orNoDocument (loadFunctionDocument env f docTechnical sourceApplied)) (\<lambda>ta.
     bindA (orNoDocument (loadFunctionDocument env f docTechnical sourceDraft)) (\<lambda>td.
     bindA (technicalStaleFrom pa ta (withDocuments pa pd ta td f)) (\<lambda>stale.
     retA (withStale stale (withDocuments pa pd ta td f)))))))"

definition syncDocumentStateFromFiles :: "fenv \<Rightarrow> fnrow \<Rightarrow> fnrow fnact" where
  "syncDocumentStateFromFiles env f =
     bindA (tryA (ensureFunctionWorkspace env f)) (\<lambda>ready.
     case ready of Inl _ \<Rightarrow> retA f | Inr _ \<Rightarrow> documentState env f)"

definition persistFunctionDocumentVersionsIfChanged :: "fnrow \<Rightarrow> fnrow \<Rightarrow> fnrow fnact" where
  "persistFunctionDocumentVersionsIfChanged f original =
     (if fnProductDraftVersion f = fnProductDraftVersion original \<and>
         fnTechnicalDraftVersion f = fnTechnicalDraftVersion original \<and>
         fnProductDocVersion f = fnProductDocVersion original \<and>
         fnTechnicalDocVersion f = fnTechnicalDocVersion original \<and>
         fnDocTechnicalStale f = fnDocTechnicalStale original
      then retA f
      else
        bindA nowA (\<lambda>now.
        let f' = f\<lparr>fnUpdatedAt := now\<rparr> in
        bindA (Function_Update f') (\<lambda>_. retA f')))"

definition validateDocumentCommit :: "fnrow \<Rightarrow> gostr \<Rightarrow> err + unit" where
  "validateDocumentCommit f reqType =
     (if normalizeFunctionDocumentType reqType = docTechnical \<and> fnProductDocVersion f = 0
      then Inl (Err ''product doc must be applied before technical doc'')
      else Inr ())"

text \<open>The version of a source document that the operation behind a draft started from.\<close>

definition completedOperationBaselineVersion ::
  "fenv \<Rightarrow> fnrow \<Rightarrow> gostr \<Rightarrow> gostr \<Rightarrow> gostr \<Rightarrow> int \<Rightarrow> int fnact" where
  "completedOperationBaselineVersion env f reqOperationID conversation versionKey legacyVersion =
     (let operationID = trimSpace reqOperationID in
      if operationID = [] then retA legacyVersion
      else if \<not> feOperations env then failA (Err ''conversation operation store is not configured'')
      else
        bindA (Op_Get operationID) (\<lambda>p.
        if coFunctionID p \<noteq> fnUUID f \<or> coConversation p \<noteq> conversation \<or> coState p \<noteq> OpCompleted then
          failA (Err ''generation operation is no longer eligible for adoption'')
        else case coBaseline p of
          None \<Rightarrow> failA (Err ''generation operation baseline is invalid'')
        | Some baseline \<Rightarrow>
            (case baseline versionKey of
               None \<Rightarrow> failA (Err ''generation operation baseline is missing the source document version'')
             | Some v \<Rightarrow>
                 if v \<le> 0 then failA (Err ''generation operation baseline is missing the source document version'')
                 else retA v)))"

definition technicalDraftProductVersion :: "fenv \<Rightarrow> fnrow \<Rightarrow> int fnact" where
  "technicalDraftProductVersion env f =
     completedOperationBaselineVersion env f (fnTechnicalDraftOperationID f) conversationTechnical
       ''productDocVersion'' (fnProductDocVersion f)"

definition codeDraftTechnicalVersion :: "fenv \<Rightarrow> fnrow \<Rightarrow> int fnact" where
  "codeDraftTechnicalVersion env f =
     completedOperationBaselineVersion env f (fnCodeDraftOperationID f) conversationGeneration
       ''technicalDocVersion'' (fnTechnicalDocVersion f)"

subsection \<open>Readiness: readiness.go\<close>

record readiness =
  rdLabel :: gostr
  rdNextAction :: gostr
  rdBlockingReason :: gostr
  rdPendingProductDraft :: bool
  rdPendingTechnicalDraft :: bool
  rdPendingCodeDraft :: bool

definition buildFunctionReadiness :: "fnrow \<Rightarrow> readiness" where
  "buildFunctionReadiness f =
     (let flags = functionVersionFlags f;
          r = \<lparr>rdLabel = [], rdNextAction = [], rdBlockingReason = [],
               rdPendingProductDraft = vfProductDraftReady flags,
               rdPendingTechnicalDraft = vfTechnicalDraftReady flags,
               rdPendingCodeDraft = vfCodeDraftReady flags\<rparr> in
      if fnProductDocVersion f = 0 then
        r\<lparr>rdLabel := (utf8 [229, 190, 133, 229, 174, 140, 229, 150, 132, 228, 186, 167, 229, 147, 129, 230, 150, 185, 230, 161, 136]),
          rdNextAction := (if vfProductDraftReady flags then ''adopt_product_doc'' else ''generate_product_doc'')\<rparr>
      else if vfProductDraftReady flags then
        r\<lparr>rdLabel := (utf8 [229, 190, 133, 231, 161, 174, 232, 174, 164, 228, 186, 167, 229, 147, 129, 230, 150, 185, 230, 161, 136]), rdNextAction := ''adopt_product_doc''\<rparr>
      else if vfTechnicalDraftReady flags then
        r\<lparr>rdLabel := (utf8 [229, 190, 133, 231, 161, 174, 232, 174, 164, 230, 138, 128, 230, 156, 175, 230, 150, 185, 230, 161, 136]), rdNextAction := ''adopt_technical_doc''\<rparr>
      else if fnTechnicalDocVersion f = 0 \<or> vfTechnicalStale flags then
        r\<lparr>rdLabel := (utf8 [229, 190, 133, 229, 174, 140, 229, 150, 132, 230, 138, 128, 230, 156, 175, 230, 150, 185, 230, 161, 136]),
          rdBlockingReason := (if vfTechnicalStale flags then (utf8 [228, 186, 167, 229, 147, 129, 230, 150, 185, 230, 161, 136, 229, 183, 178, 230, 155, 180, 230, 150, 176, 239, 188, 140, 230, 138, 128, 230, 156, 175, 230, 150, 185, 230, 161, 136, 233, 156, 128, 232, 166, 129, 229, 144, 140, 230, 173, 165]) else []),
          rdNextAction := ''generate_technical_doc''\<rparr>
      else if vfCodeStale flags then
        r\<lparr>rdLabel := (utf8 [229, 190, 133, 231, 148, 159, 230, 136, 144, 233, 161, 181, 233, 157, 162]), rdBlockingReason := (utf8 [230, 138, 128, 230, 156, 175, 230, 150, 185, 230, 161, 136, 229, 183, 178, 230, 155, 180, 230, 150, 176, 239, 188, 140, 233, 161, 181, 233, 157, 162, 233, 156, 128, 232, 166, 129, 233, 135, 141, 230, 150, 176, 231, 148, 159, 230, 136, 144]),
          rdNextAction := ''generate_page''\<rparr>
      else if \<not> functionHasGeneratedCode f then
        r\<lparr>rdLabel := (utf8 [229, 190, 133, 231, 148, 159, 230, 136, 144, 233, 161, 181, 233, 157, 162]), rdNextAction := ''generate_page''\<rparr>
      else if fnStatus f = FunctionStatusPublished then
        (if vfProductDraftReady flags \<or> vfTechnicalDraftReady flags then
           r\<lparr>rdLabel := (utf8 [229, 183, 178, 229, 143, 145, 229, 184, 131]), rdBlockingReason := (utf8 [229, 143, 145, 229, 184, 131, 229, 144, 142, 230, 156, 137, 230, 150, 176, 230, 148, 185, 229, 138, 168, 239, 188, 140, 229, 176, 154, 230, 156, 170, 233, 135, 135, 231, 148, 168]),
             rdNextAction := (if vfTechnicalDraftReady flags then ''adopt_technical_doc'' else ''adopt_product_doc'')\<rparr>
         else r\<lparr>rdLabel := (utf8 [229, 183, 178, 229, 143, 145, 229, 184, 131]), rdNextAction := ''open_published_function''\<rparr>)
      else r\<lparr>rdLabel := (utf8 [233, 161, 181, 233, 157, 162, 229, 183, 178, 229, 176, 177, 231, 187, 170]), rdNextAction := ''publish_function''\<rparr>)"

end
