(* ===== verification/Func_Release.thy ===== *)
theory Func_Release
  imports Func_Access
begin

text \<open>
  \<^verbatim>\<open>func-operation/internal/logic/release.go\<close>, \<^verbatim>\<open>outbox.go\<close> and
  \<^verbatim>\<open>outbox\_management.go\<close>: immutable releases of functions, and the outbox from
  which their events are delivered with retries.
\<close>

subsection \<open>Event delivery\<close>

definition FunctionVersionPublishedEventType :: gostr where
  "FunctionVersionPublishedEventType = ''func-operation.function.version-published''"

definition FunctionUnpublishedEventType :: gostr where
  "FunctionUnpublishedEventType = ''func-operation.function.unpublished''"

text \<open>The \<^verbatim>\<open>functionId\<close> of a decoded payload, and the payload with it trimmed.\<close>

definition payloadFunctionID :: "evPayload \<Rightarrow> gostr option" where
  "payloadFunctionID p =
     (case p of
        PayPublished f _ _ _ _ \<Rightarrow> Some f
      | PayUnpublished f _ _ \<Rightarrow> Some f
      | PayFields kvs \<Rightarrow> Some (case map_of kvs ''functionId'' of None \<Rightarrow> [] | Some f \<Rightarrow> f)
      | PayText _ \<Rightarrow> None)"

definition trimPayload :: "evPayload \<Rightarrow> evPayload" where
  "trimPayload p =
     (case p of
        PayPublished f n v r t \<Rightarrow> PayPublished (trimSpace f) n v r t
      | PayUnpublished f n t \<Rightarrow> PayUnpublished (trimSpace f) n t
      | _ \<Rightarrow> p)"

definition sendRealtime :: "fenv \<Rightarrow> gostr \<Rightarrow> gostr \<Rightarrow> gostr \<Rightarrow> evPayload \<Rightarrow> unit fnact" where
  "sendRealtime env eventType decodeError missing p =
     (case feBus env of
        None \<Rightarrow> failA (Err ''function release realtime event bus is unavailable'')
      | Some bus \<Rightarrow>
          (case payloadFunctionID p of
             None \<Rightarrow> failA (Err decodeError)
           | Some f \<Rightarrow>
               if trimSpace f = [] then failA (Err missing)
               else
                 bindA (NewEvent eventType ''realtime.events'' (trimSpace f) ''func-operation'' (feJSON env (trimPayload p)))
                   (\<lambda>ev. callA (bus ev))))"

text \<open>\<open>None\<close>: the event is not for the realtime bus.\<close>

definition publishFunctionRealtimeEvent :: "fenv \<Rightarrow> outboxEvent \<Rightarrow> unit fnact option" where
  "publishFunctionRealtimeEvent env ev =
     (if oeEventType ev = FunctionVersionPublishedEventType then
        Some (sendRealtime env FunctionVersionPublishedEventType ''decode function release event''
          ''function release event functionId is required'' (oePayload ev))
      else if oeEventType ev = FunctionUnpublishedEventType then
        Some (sendRealtime env FunctionUnpublishedEventType ''decode function unpublish event''
          ''function unpublish event functionId is required'' (oePayload ev))
      else None)"

definition tryDeliverRealtimeEvent :: "fenv \<Rightarrow> outboxEvent \<Rightarrow> unit fnact" where
  "tryDeliverRealtimeEvent env ev =
     (if \<not> feReleases env \<or> feBus env = None \<or> \<not> feOutbox env then retA ()
      else
        bindA (case publishFunctionRealtimeEvent env ev of None \<Rightarrow> retA (Inr ()) | Some send \<Rightarrow> tryA send) (\<lambda>sent.
        case sent of
          Inl _ \<Rightarrow> retA ()
        | Inr _ \<Rightarrow>
            if oeUUID ev \<noteq> [] then
              bindA nowA (\<lambda>now. ignoreA (Outbox_MarkDoneByUUID (oeUUID ev) now))
            else retA ()))"

definition newOutboxEvent :: "gostr \<Rightarrow> gostr \<Rightarrow> gostr \<Rightarrow> evPayload \<Rightarrow> int \<Rightarrow> outboxEvent" where
  "newOutboxEvent functionID releaseID eventType payload now =
     \<lparr>oeID = 0, oeUUID = [], oeFunctionID = functionID, oeReleaseID = releaseID, oeEventType = eventType,
      oePayload = payload, oeStatus = ''pending'', oeAttempts = 0, oeNextAttemptAt = 0, oeLastError = [],
      oeCreatedAt = now, oeUpdatedAt = now\<rparr>"

subsection \<open>Releases\<close>

definition releaseRuntimeMissing :: err where
  "releaseRuntimeMissing = Err ''release runtime is not configured''"

definition RestorePublished :: "fenv \<Rightarrow> unit fnact" where
  "RestorePublished env =
     (case feRuntime env of
        None \<Rightarrow> failA releaseRuntimeMissing
      | Some rt \<Rightarrow>
          if \<not> feReleases env then failA releaseRuntimeMissing
          else
            bindA Release_ListPublished (\<lambda>rs.
            callA (rtLoadApproved rt (foldl (\<lambda>m r. m(relAppID r \<mapsto> relArtifact r)) Map.empty rs))))"

definition BackfillLegacyPublished :: "fenv \<Rightarrow> unit fnact" where
  "BackfillLegacyPublished env =
     (case feRuntime env of
        None \<Rightarrow> failA releaseRuntimeMissing
      | Some rt \<Rightarrow>
          if \<not> feReleases env then failA releaseRuntimeMissing
          else
            bindA Function_ListLegacyPublished (\<lambda>fs.
            forA fs (\<lambda>f.
              bindA (callA (rtSnapshot rt (fnGeneratedAppID f))) (\<lambda>snapshot.
              bindA (callA (rtPromote rt (afAppID snapshot) (afSHA256 snapshot))) (\<lambda>_.
              bindA nowA (\<lambda>now.
              Release_BackfillPublished (fnUUID f) (afAppID snapshot) (afSHA256 snapshot) (afManifest snapshot) now))))))"

definition revokeSkills :: "fenv \<Rightarrow> gostr \<Rightarrow> unit fnact" where
  "revokeSkills env functionID = (case feSkills env of None \<Rightarrow> retA () | Some sk \<Rightarrow> callA (skRevoke sk functionID))"

definition RevokeFunctionReleases :: "fenv \<Rightarrow> gostr \<Rightarrow> unit fnact" where
  "RevokeFunctionReleases env functionID =
     (if \<not> feReleases env then retA ()
      else
        bindA nowA (\<lambda>now.
        bindA (Release_RevokeByFunctionID functionID now) (\<lambda>_.
        revokeSkills env functionID)))"

definition RevokeOrphanedPublished :: "fenv \<Rightarrow> unit fnact" where
  "RevokeOrphanedPublished env =
     (if \<not> feReleases env then failA releaseRuntimeMissing
      else
        bindA Release_ListPublished (\<lambda>rs.
        forA rs (\<lambda>r.
          bindA (Function_Exists (relFunctionID r)) (\<lambda>found.
          if found then retA ()
          else
            bindA nowA (\<lambda>now.
            bindA (Release_RevokeByFunctionID (relFunctionID r) now) (\<lambda>_.
            revokeSkills env (relFunctionID r)))))))"

text \<open>
  \<^verbatim>\<open>ReconcileArtifactStore\<close> up to the deletion in the artifact store: the hashes that
  are still referenced.
\<close>

definition ReconcileArtifactStore :: "fenv \<Rightarrow> gostr set fnact" where
  "ReconcileArtifactStore env =
     (case feRuntime env of
        None \<Rightarrow> failA releaseRuntimeMissing
      | Some rt \<Rightarrow>
          if \<not> feReleases env then failA releaseRuntimeMissing
          else
            bindA Release_ListAll (\<lambda>rs.
            bindA (forA rs (\<lambda>r.
              if relStatus r \<noteq> ReleasePublished then retA ()
              else wrapErrA (\<lambda>e. Err (''validate published release: '' @ errText e))
                     (callA (rtPublishedSnapshot rt (relAppID r) (relArtifact r))))) (\<lambda>_.
            retA (relArtifact ` set rs))))"

definition stageNext :: "goctx \<Rightarrow> fnrow \<Rightarrow> gostr \<Rightarrow> artifact \<Rightarrow> int \<Rightarrow> release fnact" where
  "stageNext ctx f appID snapshot version =
     bindA nowA (\<lambda>now.
     Release_CreateStaged \<lparr>relID = 0, relUUID = [], relFunctionID = fnUUID f, relAppID = appID, relVersion = version,
       relArtifact = afSHA256 snapshot, relManifest = afManifest snapshot, relStatus = ReleaseStaged,
       relCreatedBy = (case RequireUserID ctx of Inl _ \<Rightarrow> [] | Inr i \<Rightarrow> i), relCreatedAt = now,
       relPublishedAt = 0, relUpdatedAt = now\<rparr>)"

definition Stage :: "fenv \<Rightarrow> goctx \<Rightarrow> fnrow \<Rightarrow> release fnact" where
  "Stage env ctx f =
     (case feRuntime env of
        None \<Rightarrow> failA releaseRuntimeMissing
      | Some rt \<Rightarrow>
          if \<not> feReleases env then failA releaseRuntimeMissing
          else
            let appID = trimSpace (fnGeneratedAppID f) in
            if appID = [] then failA (Err ''generated app is not ready'')
            else
              bindA (callA (rtSnapshot rt appID)) (\<lambda>snapshot.
              bindA (tryA (Release_Latest (fnUUID f))) (\<lambda>latest.
              case latest of
                Inr r \<Rightarrow>
                  if relAppID r = appID \<and> relArtifact r = afSHA256 snapshot \<and> relStatus r \<noteq> ReleaseRevoked then retA r
                  else stageNext ctx f appID snapshot (relVersion r + 1)
              | Inl e \<Rightarrow> if e \<noteq> RecordNotFound then failA e else stageNext ctx f appID snapshot 1)))"

definition publishedEvent :: "fnrow \<Rightarrow> release \<Rightarrow> int \<Rightarrow> outboxEvent" where
  "publishedEvent f r now = newOutboxEvent (fnUUID f) (relUUID r) FunctionVersionPublishedEventType
     (PayPublished (fnUUID f) (fnName f) (relVersion r) (relUUID r) now) now"

definition Publish :: "fenv \<Rightarrow> goctx \<Rightarrow> fnrow \<Rightarrow> release fnact" where
  "Publish env ctx f =
     bindA (Stage env ctx f) (\<lambda>r.
     case feRuntime env of
       None \<Rightarrow> failA releaseRuntimeMissing
     | Some rt \<Rightarrow>
         bindA (callA (rtApplyModels rt (relAppID r))) (\<lambda>_.
         bindA (callA (rtPromote rt (relAppID r) (relArtifact r))) (\<lambda>_.
         bindA nowA (\<lambda>now.
         bindA (if feOutbox env
                then wrapErrA (\<lambda>e. Err (''publish function release: '' @ errText e))
                       (Release_PublishWithOutbox (relUUID r) now (publishedEvent f r now))
                else Release_Publish (relUUID r) now) (\<lambda>_.
         bindA (RestorePublished env) (\<lambda>_.
         let r' = r\<lparr>relStatus := ReleasePublished, relPublishedAt := now, relUpdatedAt := now\<rparr> in
         bindA (case feSkills env of
                  None \<Rightarrow> retA ()
                | Some sk \<Rightarrow> callA (skSync sk (f\<lparr>fnActiveReleaseID := relUUID r\<rparr>) r')) (\<lambda>_.
         retA r')))))))"

definition RecordFunctionUnpublished :: "fenv \<Rightarrow> fnrow \<Rightarrow> unit fnact" where
  "RecordFunctionUnpublished env f =
     (if \<not> feReleases env \<or> \<not> feOutbox env then failA (Err ''function release outbox is not configured'')
      else
        bindA nowA (\<lambda>now.
        bindA (Outbox_Create (newOutboxEvent (fnUUID f) (fnActiveReleaseID f) FunctionUnpublishedEventType
          (PayUnpublished (fnUUID f) (fnName f) now) now)) (\<lambda>ev.
        tryDeliverRealtimeEvent env ev)))"

definition DeliverFunctionPublished :: "fenv \<Rightarrow> gostr \<Rightarrow> unit fnact" where
  "DeliverFunctionPublished env releaseID =
     (if \<not> feReleases env \<or> \<not> feOutbox env then retA ()
      else
        bindA (tryA (Outbox_GetByReleaseID FunctionVersionPublishedEventType releaseID)) (\<lambda>found.
        case found of Inl _ \<Rightarrow> retA () | Inr ev \<Rightarrow> tryDeliverRealtimeEvent env ev))"

definition RequireActiveArtifact :: "fenv \<Rightarrow> gostr \<Rightarrow> release fnact" where
  "RequireActiveArtifact env appID =
     (case feRuntime env of
        None \<Rightarrow> failA releaseRuntimeMissing
      | Some rt \<Rightarrow>
          if \<not> feReleases env then failA releaseRuntimeMissing
          else
            bindA (Release_ActiveForApp (trimSpace appID)) (\<lambda>r.
            bindA (drawA (rtApproved rt (relAppID r) (relArtifact r))) (\<lambda>approved.
            if approved then retA r
            else failA (Err ''active artifact does not match its published release''))))"

definition PublishedAppIDs :: "fenv \<Rightarrow> gostr set fnact" where
  "PublishedAppIDs env =
     (if \<not> feReleases env then failA releaseRuntimeMissing
      else bindA Release_ListPublished (\<lambda>rs. retA (relAppID ` set rs)))"

definition RecordEvent :: "fenv \<Rightarrow> gostr \<Rightarrow> gostr \<Rightarrow> gostr \<Rightarrow> (gostr \<times> gostr) list \<Rightarrow> unit fnact" where
  "RecordEvent env functionID releaseID eventType payload =
     (if \<not> feReleases env \<or> \<not> feOutbox env then retA ()
      else
        bindA nowA (\<lambda>now.
        ignoreA (Outbox_Create (newOutboxEvent functionID releaseID eventType (PayFields payload) now))))"

subsection \<open>The outbox processor\<close>

definition menuSyncStatus :: "evPayload \<Rightarrow> gostr" where
  "menuSyncStatus p =
     (case p of
        PayFields kvs \<Rightarrow> (case map_of kvs ''status'' of None \<Rightarrow> [] | Some st \<Rightarrow> st)
      | _ \<Rightarrow> [])"

definition deliverMenuSync :: "fenv \<Rightarrow> goctx \<Rightarrow> outboxEvent \<Rightarrow> unit fnact" where
  "deliverMenuSync env ctx ev =
     bindA (tryA (Function_Get (oeFunctionID ev))) (\<lambda>found.
     case found of
       Inl e \<Rightarrow> if e = RecordNotFound then retA () else failA e
     | Inr f \<Rightarrow>
         if trimSpace (menuSyncStatus (oePayload ev)) = FunctionStatusPublished then
           bindA (SyncPublished (feMenus env) ctx (fnUUID f) (fnName f) (fnMenuParentID f) []) (\<lambda>_. retA ())
         else Unpublish (feMenus env) ctx (fnUUID f))"

definition deliver :: "fenv \<Rightarrow> goctx \<Rightarrow> outboxEvent \<Rightarrow> unit fnact" where
  "deliver env ctx ev =
     (case publishFunctionRealtimeEvent env ev of
        Some send \<Rightarrow> send
      | None \<Rightarrow>
          if oeEventType ev = ''release.published'' then retA ()
          else if oeEventType ev = ''menu.delete'' then DeleteFunctionMenu (feMenus env) ctx (oeFunctionID ev)
          else if oeEventType ev = ''menu.sync'' then deliverMenuSync env ctx ev
          else failA (Err ''unsupported outbox event type''))"

definition processOne :: "fenv \<Rightarrow> goctx \<Rightarrow> int \<Rightarrow> outboxEvent \<Rightarrow> unit fnact" where
  "processOne env ctx now ev =
     bindA (tryA (deliver env ctx ev)) (\<lambda>sent.
     case sent of
       Inl e \<Rightarrow> ignoreA (Outbox_MarkRetry (oeID ev) (now + oeAttempts ev * 5 * 1000000) e now)
     | Inr _ \<Rightarrow> Outbox_MarkDone (oeID ev) now)"

definition ProcessReady :: "fenv \<Rightarrow> goctx \<Rightarrow> int \<Rightarrow> int fnact" where
  "ProcessReady env ctx limit =
     (if \<not> feOutbox env then failA (Err ''outbox processor is not configured'')
      else
        bindA nowA (\<lambda>now.
        bindA (Outbox_ClaimReady now limit) (\<lambda>evs.
        bindA (forA evs (processOne env ctx now)) (\<lambda>_.
        retA (int (length evs))))))"

definition OutboxManagement_List :: "fenv \<Rightarrow> goctx \<Rightarrow> int \<Rightarrow> outboxEvent list fnact" where
  "OutboxManagement_List env ctx limit =
     bindA (Require (feSystem env) ctx functionPermissionEdit) (\<lambda>_. Outbox_List limit)"

definition OutboxManagement_Replay :: "fenv \<Rightarrow> goctx \<Rightarrow> int \<Rightarrow> int fnact" where
  "OutboxManagement_Replay env ctx limit =
     bindA (Require (feSystem env) ctx functionPermissionEdit) (\<lambda>_.
     bindA nowA (\<lambda>now.
     bindA (Outbox_Requeue now) (\<lambda>_.
     bindA (ProcessReady env ctx limit) (\<lambda>count.
     retA (toInt32 count)))))"

end
