(* ===== verification/Func_Logic.thy ===== *)
theory Func_Logic
  imports Func_Docs Func_Release
begin

text \<open>
  The handlers of \<^verbatim>\<open>func-operation/internal/logic/function.go\<close>: the life of a generated
  function from its documents over its code to its publication.  A reply carries the row with
  the fields that the code computes for it; the columns that it copies are the row's.
\<close>

subsection \<open>Insights for the scaffold\<close>

record insights =
  isSummary :: gostr
  isHighlights :: "gostr list"
  isCorePages :: "gostr list"
  isDataModels :: "gostr list"
  isAPIs :: "gostr list"
  isNextSteps :: "gostr list"

definition noInsights :: insights where
  "noInsights = \<lparr>isSummary = [], isHighlights = [], isCorePages = [], isDataModels = [], isAPIs = [], isNextSteps = []\<rparr>"

definition orElse :: "gostr list \<Rightarrow> gostr list \<Rightarrow> gostr list" where
  "orElse xs ys = (if xs = [] then ys else xs)"

definition buildInsightsFromDocs :: "fnrow \<Rightarrow> insights" where
  "buildInsightsFromDocs f =
     (let productDoc = trimSpace (fnProductDoc f); technicalDoc = trimSpace (fnTechnicalDoc f) in
      if productDoc = [] \<and> technicalDoc = [] then noInsights
      else
        \<lparr>isSummary = compactText (if productDoc = [] then technicalDoc else productDoc) 240,
         isHighlights = orElse
           (extractSectionItems productDoc [(utf8 [230, 160, 184, 229, 191, 131, 231, 155, 174, 230, 160, 135]), (utf8 [228, 184, 154, 229, 138, 161, 231, 155, 174, 230, 160, 135]), (utf8 [231, 148, 168, 230, 136, 183, 228, 187, 183, 229, 128, 188]), (utf8 [232, 140, 131, 229, 155, 180]), (utf8 [230, 160, 184, 229, 191, 131, 230, 181, 129, 231, 168, 139])])
           (splitHighlights productDoc),
         isCorePages = extractSectionItems productDoc [(utf8 [230, 160, 184, 229, 191, 131, 233, 161, 181, 233, 157, 162]), (utf8 [233, 161, 181, 233, 157, 162, 232, 167, 132, 229, 136, 146]), (utf8 [233, 161, 181, 233, 157, 162]), (utf8 [228, 186, 164, 228, 186, 146, 230, 181, 129, 231, 168, 139])],
         isDataModels = extractSectionItems technicalDoc [(utf8 [230, 149, 176, 230, 141, 174, 230, 168, 161, 229, 158, 139]), (utf8 [230, 149, 176, 230, 141, 174, 231, 187, 147, 230, 158, 132]), (utf8 [230, 168, 161, 229, 158, 139, 232, 174, 190, 232, 174, 161])],
         isAPIs = extractSectionItems technicalDoc [(utf8 [65, 80, 73, 32, 232, 174, 190, 232, 174, 161]), (utf8 [230, 142, 165, 229, 143, 163, 232, 174, 190, 232, 174, 161]), (utf8 [230, 142, 165, 229, 143, 163])],
         isNextSteps = orElse
           (extractSectionItems technicalDoc [(utf8 [229, 174, 158, 230, 150, 189, 230, 173, 165, 233, 170, 164]), (utf8 [229, 188, 128, 229, 143, 145, 232, 174, 161, 229, 136, 146]), (utf8 [229, 174, 158, 231, 142, 176, 232, 174, 161, 229, 136, 146]), (utf8 [228, 184, 139, 228, 184, 128, 230, 173, 165])])
           (extractSectionItems productDoc [(utf8 [228, 184, 139, 228, 184, 128, 230, 173, 165]), (utf8 [229, 190, 133, 231, 161, 174, 232, 174, 164]), (utf8 [229, 188, 128, 230, 148, 190, 233, 151, 174, 233, 162, 152])])\<rparr>)"

definition nonBlank :: "agentMessage \<Rightarrow> bool" where
  "nonBlank m \<longleftrightarrow> trimSpace (snd m) \<noteq> []"

definition buildSummaryFromMessages :: "agentMessage list \<Rightarrow> gostr" where
  "buildSummaryFromMessages ms =
     (case ms of
        [] \<Rightarrow> []
      | m # _ \<Rightarrow>
          (case filter (\<lambda>x. nonBlank x \<and> fst x = ''assistant'') ms of
             [] \<Rightarrow> compactText (trimSpace (snd m)) 240
           | x # _ \<Rightarrow> compactText (trimSpace (snd x)) 240))"

definition buildHighlightsFromMessages :: "agentMessage list \<Rightarrow> gostr list" where
  "buildHighlightsFromMessages ms = take 4 (concat (map (splitHighlights \<circ> snd) ms))"

definition latestAssistantContent :: "agentMessage list \<Rightarrow> gostr" where
  "latestAssistantContent ms =
     (case filter (\<lambda>x. fst x = ''assistant'' \<and> nonBlank x) ms of [] \<Rightarrow> [] | x # _ \<Rightarrow> snd x)"

definition mergeInsights :: "insights \<Rightarrow> agentMessage list \<Rightarrow> insights" where
  "mergeInsights ins ms =
     (let plan = (if trimSpace (latestAssistantContent ms) = [] then trimSpace (snd (hd ms))
                  else latestAssistantContent ms);
          highlights = orElse (isHighlights ins) (buildHighlightsFromMessages ms) in
      \<lparr>isSummary = (if isSummary ins = [] then buildSummaryFromMessages ms else isSummary ins),
       isHighlights = highlights,
       isCorePages = orElse (isCorePages ins) (extractSectionItems plan [(utf8 [230, 160, 184, 229, 191, 131, 233, 161, 181, 233, 157, 162]), (utf8 [233, 161, 181, 233, 157, 162]), (utf8 [233, 161, 181, 233, 157, 162, 232, 174, 190, 232, 174, 161])]),
       isDataModels = orElse (isDataModels ins) (extractSectionItems plan [(utf8 [230, 149, 176, 230, 141, 174, 230, 168, 161, 229, 158, 139]), (utf8 [230, 168, 161, 229, 158, 139, 232, 174, 190, 232, 174, 161]), (utf8 [230, 149, 176, 230, 141, 174, 231, 187, 147, 230, 158, 132])]),
       isAPIs = orElse (isAPIs ins) (extractSectionItems plan [(utf8 [65, 80, 73, 32, 232, 174, 190, 232, 174, 161]), (utf8 [230, 142, 165, 229, 143, 163, 232, 174, 190, 232, 174, 161]), (utf8 [230, 142, 165, 229, 143, 163])]),
       isNextSteps = orElse (orElse (isNextSteps ins)
         (extractSectionItems plan [(utf8 [228, 184, 139, 228, 184, 128, 230, 173, 165]), (utf8 [228, 184, 139, 228, 184, 128, 230, 173, 165, 229, 174, 158, 231, 142, 176, 232, 174, 161, 229, 136, 146]), (utf8 [229, 174, 158, 231, 142, 176, 232, 174, 161, 229, 136, 146])])) highlights\<rparr>)"

definition buildFunctionInsights :: "fenv \<Rightarrow> fnrow \<Rightarrow> insights fnact" where
  "buildFunctionInsights env f =
     (let ins = buildInsightsFromDocs f in
      if isSummary ins \<noteq> [] \<and> isCorePages ins \<noteq> [] then retA ins
      else case feMessages env of
        None \<Rightarrow> retA ins
      | Some store \<Rightarrow>
          if trimSpace (fnGenerationSessionID f) = [] then retA ins
          else
            bindA (tryA (callA (store (fnGenerationSessionID f)))) (\<lambda>r.
            retA (case r of Inl _ \<Rightarrow> ins | Inr ms \<Rightarrow> if ms = [] then ins else mergeInsights ins ms)))"

subsection \<open>Names\<close>

fun snakeFrom :: "gostr list \<Rightarrow> bool \<Rightarrow> gostr" where
  "snakeFrom [] lastUnderscore = []"
| "snakeFrom (r # rs) lastUnderscore =
     (if length r = 1 \<and> (byteIn 97 122 (hd r) \<or> byteIn 48 57 (hd r)) then r @ snakeFrom rs False
      else if \<not> lastUnderscore then ''_'' @ snakeFrom rs True
      else snakeFrom rs lastUnderscore)"

definition snakeIdentifier :: "gostr \<Rightarrow> gostr" where
  "snakeIdentifier value =
     (let out = trimRunes [''_''] (snakeFrom (runes (toLower (trimSpace value))) False) in
      if out = [] then ''unknown'' else out)"

definition functionTablePrefix :: "fnrow \<Rightarrow> gostr" where
  "functionTablePrefix f =
     (if fnID f > 0 then ''func_'' @ decimal (fnID f) else ''func_'' @ snakeIdentifier (fnUUID f))"

definition functionSessionKey :: "nat \<Rightarrow> gostr \<Rightarrow> gostr" where
  "functionSessionKey functionID conversation = decimal functionID @ '':'' @ conversation"

definition functionSessionTitle :: "gostr \<Rightarrow> gostr \<Rightarrow> gostr" where
  "functionSessionTitle name conversation =
     (if conversation = conversationProduct then trimSpace name @ (utf8 [32, 228, 186, 167, 229, 147, 129, 230, 150, 135, 230, 161, 163])
      else if conversation = conversationTechnical then trimSpace name @ (utf8 [32, 231, 160, 148, 229, 143, 145, 230, 150, 135, 230, 161, 163])
      else if conversation = conversationGeneration then trimSpace name @ (utf8 [32, 228, 187, 163, 231, 160, 129, 231, 148, 159, 230, 136, 144])
      else trimSpace name)"

definition defaultString :: "gostr \<Rightarrow> gostr \<Rightarrow> gostr \<Rightarrow> gostr" where
  "defaultString value fallback zero = (if value \<noteq> [] then value else if fallback \<noteq> [] then fallback else zero)"

definition normalizeFunctionStatus :: "gostr \<Rightarrow> gostr \<Rightarrow> gostr" where
  "normalizeFunctionStatus value fallback =
     (if value \<in> {[], FunctionStatusDraft, FunctionStatusPublished}
      then defaultString value fallback FunctionStatusDraft else fallback)"

definition normalizeWorkflowStage :: "gostr \<Rightarrow> gostr \<Rightarrow> gostr" where
  "normalizeWorkflowStage value fallback =
     (if value \<in> {[], StageProductDoc, StageTechnicalDoc, StageCodeGeneration, StageCodeGenerated}
      then defaultString value fallback StageProductDoc else fallback)"

subsection \<open>Replies\<close>

record functionProto =
  fpRow :: fnrow
  fpProductDocPath :: gostr
  fpTechnicalDocPath :: gostr
  fpFlags :: versionFlags
  fpReadiness :: readiness
  fpAppDir :: gostr
  fpProductDraftDocPath :: gostr
  fpTechnicalDraftDocPath :: gostr

definition modelFunctionToProto :: "fenv \<Rightarrow> fnrow \<Rightarrow> functionProto" where
  "modelFunctionToProto env f =
     \<lparr>fpRow = f,
      fpProductDocPath = (if trimSpace (fnProductDocPath f) = []
        then functionDocumentPath env f docProduct sourceApplied else trimSpace (fnProductDocPath f)),
      fpTechnicalDocPath = (if trimSpace (fnTechnicalDocPath f) = []
        then functionDocumentPath env f docTechnical sourceApplied else trimSpace (fnTechnicalDocPath f)),
      fpFlags = functionVersionFlags f,
      fpReadiness = buildFunctionReadiness f,
      fpAppDir = functionAppDir env f,
      fpProductDraftDocPath = functionDocumentPath env f docProduct sourceDraft,
      fpTechnicalDraftDocPath = functionDocumentPath env f docTechnical sourceDraft\<rparr>"

definition redactFunctionEditorState :: "functionProto \<Rightarrow> functionProto" where
  "redactFunctionEditorState p = p
     \<lparr>fpRow := (fpRow p)\<lparr>fnProductDoc := [], fnTechnicalDoc := [], fnProductSessionID := [],
                          fnTechnicalSessionID := [], fnGenerationSessionID := []\<rparr>,
      fpProductDocPath := [], fpTechnicalDocPath := [], fpProductDraftDocPath := [],
      fpTechnicalDraftDocPath := [], fpAppDir := []\<rparr>"

record codeState =
  csAppID :: gostr
  csAppliedVersion :: int
  csDraftVersion :: int
  csDraftReady :: bool
  csAppExists :: bool
  csDraftExists :: bool
  csAppliedAppVersion :: gostr
  csDraftAppVersion :: gostr
  csAppliedUpdatedAt :: int
  csDraftUpdatedAt :: int
  csSummary :: gostr

definition buildFunctionCodeState :: "fenv \<Rightarrow> fnrow \<Rightarrow> codeState fnact" where
  "buildFunctionCodeState env f =
     (let st = \<lparr>csAppID = [], csAppliedVersion = fnCodeVersion f, csDraftVersion = fnCodeVersion f,
                csDraftReady = False, csAppExists = False, csDraftExists = False, csAppliedAppVersion = [],
                csDraftAppVersion = [], csAppliedUpdatedAt = 0, csDraftUpdatedAt = 0, csSummary = []\<rparr> in
      if trimSpace (fnGeneratedAppID f) = [] then retA st
      else
        let st1 = st\<lparr>csAppID := fnGeneratedAppID f\<rparr> in
        case feRuntime env of
          None \<Rightarrow> retA st1
        | Some rt \<Rightarrow>
            bindA (callA (rtInspect rt (fnGeneratedAppID f))) (\<lambda>ins.
            let st2 = st1\<lparr>csDraftExists := inExists ins, csDraftAppVersion := inManifestVersion ins,
                          csDraftUpdatedAt := inUpdatedAtMicro ins, csAppExists := inExists ins\<rparr> in
            retA (if inExists ins
                  then st2\<lparr>csSummary := compactText (firstNonEmpty [inDescription ins, inName ins]) 160,
                           csAppliedAppVersion := inManifestVersion ins, csAppliedUpdatedAt := inUpdatedAtMicro ins\<rparr>
                  else st2)))"

definition touchCodeDraftVersion :: "fenv \<Rightarrow> fnrow \<Rightarrow> fnrow fnact" where
  "touchCodeDraftVersion env f =
     (if trimSpace (fnGeneratedAppID f) = [] then failA (Err ''generated app is not ready'')
      else case feRuntime env of
        None \<Rightarrow> failA (Err ''generated app runtime is not configured'')
      | Some rt \<Rightarrow>
          bindA (callA (rtInspect rt (fnGeneratedAppID f))) (\<lambda>ins.
          if \<not> inExists ins then failA (Err ''generated app draft does not exist'')
          else
            let nextVersion = fnFunctionVersion f + 1 in
            if fnCodeDraftVersion f \<ge> nextVersion then retA f
            else
              bindA nowA (\<lambda>now.
              let f' = f\<lparr>fnFunctionVersion := nextVersion, fnCodeVersion := nextVersion,
                         fnCodeDraftVersion := nextVersion, fnUpdatedAt := now\<rparr> in
              bindA (Function_Update f') (\<lambda>_. retA f'))))"

subsection \<open>Listing, creating, deleting\<close>

definition listItem :: "fenv \<Rightarrow> bool \<Rightarrow> fnrow \<Rightarrow> functionProto fnact" where
  "listItem env isEditor f =
     bindA (syncDocumentStateFromFiles env f) (\<lambda>f1.
     let item = modelFunctionToProto env (normalizeLegacyFunctionVersions f1) in
     retA (if isEditor then item else redactFunctionEditorState item))"

definition ListFunctions :: "fenv \<Rightarrow> goctx \<Rightarrow> functionProto list fnact" where
  "ListFunctions env ctx =
     bindA Function_List (\<lambda>fs.
     bindA (Allowed (feSystem env) ctx functionPermissionEdit) (\<lambda>isEditor.
     mapA (listItem env isEditor) (filter (\<lambda>f. isEditor \<or> fnStatus f = FunctionStatusPublished) fs)))"

definition newFunction :: "gostr \<Rightarrow> gostr \<Rightarrow> gostr \<Rightarrow> gostr \<Rightarrow> int \<Rightarrow> fnrow" where
  "newFunction i name description menuParentID now =
     \<lparr>fnID = 0, fnUUID = i, fnName = name, fnDescription = description, fnStatus = FunctionStatusDraft,
      fnWorkflowStage = StageProductDoc, fnProductDoc = [], fnTechnicalDoc = [], fnProductDocPath = [],
      fnTechnicalDocPath = [], fnEntry = [], fnProductSessionID = [], fnTechnicalSessionID = [],
      fnGenerationSessionID = [], fnGeneratedAppID = i, fnActiveReleaseID = [], fnFunctionVersion = 0,
      fnProductDocVersion = 0, fnProductDraftVersion = 0, fnTechnicalDocVersion = 0, fnTechnicalDraftVersion = 0,
      fnTechnicalDraftOperationID = [], fnTechnicalSourceProductVersion = 0, fnCodeVersion = 0,
      fnCodeDraftVersion = 0, fnCodeDraftOperationID = [], fnCodeSourceTechnicalVersion = 0,
      fnMenuParentID = menuParentID, fnMenuID = [], fnCreatedAt = now, fnUpdatedAt = now,
      fnDocTechnicalStale = False\<rparr>"

definition CreateFunction :: "fenv \<Rightarrow> goctx \<Rightarrow> gostr \<Rightarrow> gostr \<Rightarrow> gostr \<Rightarrow> functionProto fnact" where
  "CreateFunction env ctx reqName reqDescription reqMenuParentID =
     bindA (Require (feSystem env) ctx functionPermissionCreate) (\<lambda>_.
     let name = trimSpace reqName in
     if name = [] then failA (Err ''name is required'')
     else
       bindA nowA (\<lambda>now.
       bindA newUUID (\<lambda>i.
       bindA (Function_Create (newFunction i name (trimSpace reqDescription) (trimSpace reqMenuParentID) now)) (\<lambda>f.
       if fnID f = 0 then failA (Err ''function id was not allocated'')
       else
         bindA (tryA (ensureFunctionWorkspace env f)) (\<lambda>ready.
         case ready of
           Inl e \<Rightarrow>
             bindA (ignoreA (Function_Delete (fnUUID f))) (\<lambda>_.
             bindA (ignoreA (removeAll (functionAppDir env f))) (\<lambda>_. failA e))
         | Inr _ \<Rightarrow>
             bindA (syncDocumentStateFromFiles env f) (\<lambda>f1.
             retA (modelFunctionToProto env (normalizeLegacyFunctionVersions f1))))))))"

definition deleteAiAgentSession :: "fenv \<Rightarrow> goctx \<Rightarrow> gostr \<Rightarrow> unit fnact" where
  "deleteAiAgentSession env ctx sessionID =
     (case feAgent env of
        None \<Rightarrow> retA ()
      | Some provider \<Rightarrow>
          if trimSpace sessionID = [] then retA ()
          else
            ignoreA (bindA (callA provider) (\<lambda>client.
              callA (agDelete client (ForwardUserContext ctx) sessionID))))"

definition deleteFunctionSessions :: "fenv \<Rightarrow> goctx \<Rightarrow> fnrow \<Rightarrow> unit fnact" where
  "deleteFunctionSessions env ctx f =
     (if fnID f = 0 then retA ()
      else
        forA (map (functionSessionKey (fnID f)) [conversationProduct, conversationTechnical, conversationGeneration] @
              filter (\<lambda>i. trimSpace i \<noteq> []) [fnProductSessionID f, fnTechnicalSessionID f, fnGenerationSessionID f])
          (deleteAiAgentSession env ctx))"

definition DeleteFunction :: "fenv \<Rightarrow> goctx \<Rightarrow> gostr \<Rightarrow> unit fnact" where
  "DeleteFunction env ctx reqID =
     bindA (Require (feSystem env) ctx functionPermissionDelete) (\<lambda>_.
     let i = trimSpace reqID in
     if i = [] then failA (Err ''function id is required'')
     else
       bindA (Function_Get i) (\<lambda>f.
       bindA (RevokeFunctionReleases env (fnUUID f)) (\<lambda>_.
       bindA (Function_Delete i) (\<lambda>_.
       bindA (deleteFunctionSessions env ctx f) (\<lambda>_.
       bindA (ignoreA (removeAll (functionAppDir env f))) (\<lambda>_.
       handleA (DeleteFunctionMenu (feMenus env) ctx (fnUUID f)) (\<lambda>e.
         bindA (RecordEvent env (fnUUID f) (fnActiveReleaseID f) ''menu.delete'' [(''functionId'', fnUUID f)]) (\<lambda>_.
         failA e))))))))"

subsection \<open>Updating and publishing\<close>

definition functionActionKeys :: "fenv \<Rightarrow> fnrow \<Rightarrow> gostr list fnact" where
  "functionActionKeys env f =
     (case feRuntime env of
        None \<Rightarrow> retA []
      | Some rt \<Rightarrow>
          if trimSpace (fnGeneratedAppID f) = [] then retA []
          else
            bindA (tryA (callA (rtInspect rt (trimSpace (fnGeneratedAppID f))))) (\<lambda>r.
            retA (case r of Inl _ \<Rightarrow> [] | Inr ins \<Rightarrow> if inExists ins then inActions ins else [])))"

definition withMenuID :: "gostr \<Rightarrow> fnrow \<Rightarrow> fnrow" where
  "withMenuID menuID f = (if menuID = [] then f else f\<lparr>fnMenuID := menuID\<rparr>)"

definition syncFunctionMenu :: "fenv \<Rightarrow> goctx \<Rightarrow> fnrow \<Rightarrow> gostr \<Rightarrow> gostr \<Rightarrow> fnrow fnact" where
  "syncFunctionMenu env ctx f previousStatus nextStatus =
     (if feMenus env = None then retA f
      else
        bindA (functionActionKeys env f) (\<lambda>actionKeys.
        if nextStatus = FunctionStatusPublished \<and> previousStatus \<noteq> FunctionStatusPublished then
          bindA (SyncPublished (feMenus env) ctx (fnUUID f) (fnName f) (fnMenuParentID f) actionKeys) (\<lambda>menuID.
          retA (withMenuID menuID f))
        else if previousStatus = FunctionStatusPublished \<and> nextStatus \<noteq> FunctionStatusPublished then
          bindA (Unpublish (feMenus env) ctx (fnUUID f)) (\<lambda>_. retA f)
        else if previousStatus = FunctionStatusPublished \<and> nextStatus = FunctionStatusPublished then
          bindA (SyncMetadata (feMenus env) ctx (fnUUID f) (fnName f) (fnMenuParentID f) actionKeys) (\<lambda>menuID.
          retA (withMenuID menuID f))
        else retA f))"

record updateReq =
  uqId :: gostr
  uqName :: gostr
  uqDescription :: gostr
  uqStatus :: gostr
  uqWorkflowStage :: gostr
  uqMenuParentId :: gostr

text \<open>The checks of \<^verbatim>\<open>UpdateFunction\<close> on the stored function and the new status and stage.\<close>

definition checkUpdate :: "fnrow \<Rightarrow> gostr \<Rightarrow> gostr \<Rightarrow> gostr \<Rightarrow> err + fnrow" where
  "checkUpdate f status workflowStage menuParentID =
     (let productDoc = trimSpace (fnProductDoc f); technicalDoc = trimSpace (fnTechnicalDoc f) in
      if status = FunctionStatusPublished \<and> \<not> functionHasGeneratedCode f then
        Inl (Err ''generate function page before publishing'')
      else if status = FunctionStatusPublished \<and> menuParentID = [] then
        Inl (Err ''menu parent directory is required before publishing'')
      else if workflowStage = StageTechnicalDoc \<and> productDoc = [] then
        Inl (Err ''product doc is required before technical design'')
      else if workflowStage \<in> {StageCodeGeneration, StageCodeGenerated} \<and> technicalDoc = [] then
        Inl (Err ''technical doc is required before code generation'')
      else Inr (if status = FunctionStatusPublished then syncCodeVersionsOnPublish f else f))"

definition publishIfNew :: "fenv \<Rightarrow> goctx \<Rightarrow> gostr \<Rightarrow> gostr \<Rightarrow> fnrow \<Rightarrow> fnrow fnact" where
  "publishIfNew env ctx previousStatus status f =
     (if status = FunctionStatusPublished \<and> previousStatus \<noteq> FunctionStatusPublished then
        (if \<not> feReleases env then failA releaseRuntimeMissing
         else bindA (Publish env ctx f) (\<lambda>r. retA (f\<lparr>fnActiveReleaseID := relUUID r\<rparr>)))
      else retA f)"

text \<open>From the publication of the changed function to the reply.\<close>

definition writeUpdate :: "fenv \<Rightarrow> goctx \<Rightarrow> gostr \<Rightarrow> gostr \<Rightarrow> fnrow \<Rightarrow> functionProto fnact" where
  "writeUpdate env ctx previousStatus status f1 =
     bindA (publishIfNew env ctx previousStatus status f1) (\<lambda>f2.
     bindA (Function_Update f2) (\<lambda>_.
     bindA (handleA (syncFunctionMenu env ctx f2 previousStatus status) (\<lambda>e.
       bindA (RecordEvent env (fnUUID f2) (fnActiveReleaseID f2) ''menu.sync'' [(''status'', status)]) (\<lambda>_.
       failA e))) (\<lambda>f3.
     bindA (Function_Update f3) (\<lambda>_.
     bindA (if previousStatus \<noteq> FunctionStatusPublished \<and> status = FunctionStatusPublished
            then DeliverFunctionPublished env (fnActiveReleaseID f3) else retA ()) (\<lambda>_.
     bindA (if previousStatus = FunctionStatusPublished \<and> status \<noteq> FunctionStatusPublished
            then (if \<not> feReleases env then failA releaseRuntimeMissing
                  else wrapErrA (\<lambda>e. Err (''record function unpublish event: '' @ errText e))
                         (RecordFunctionUnpublished env f3))
            else retA ()) (\<lambda>_.
     bindA (syncDocumentStateFromFiles env f3) (\<lambda>f4.
     retA (modelFunctionToProto env f4))))))))"

definition UpdateFunction :: "fenv \<Rightarrow> goctx \<Rightarrow> updateReq \<Rightarrow> functionProto fnact" where
  "UpdateFunction env ctx req =
     bindA (Require (feSystem env) ctx functionPermissionEdit) (\<lambda>_.
     let i = trimSpace (uqId req) in
     if i = [] then failA (Err ''function id is required'')
     else
     bindA (Function_Get i) (\<lambda>stored.
     bindA (syncDocumentStateFromFiles env stored) (\<lambda>f0.
     let name = trimSpace (uqName req) in
     if name = [] then failA (Err ''name is required'')
     else
     let status = normalizeFunctionStatus (trimSpace (uqStatus req)) (fnStatus f0);
         workflowStage = normalizeWorkflowStage (trimSpace (uqWorkflowStage req)) (fnWorkflowStage f0);
         menuParentID = (if trimSpace (uqMenuParentId req) = [] then trimSpace (fnMenuParentID f0)
                         else trimSpace (uqMenuParentId req));
         previousStatus = fnStatus f0 in
     bindA (liftA (checkUpdate f0 status workflowStage menuParentID)) (\<lambda>f1.
     bindA (if previousStatus \<noteq> status
            then Require (feSystem env) ctx
              (if status = FunctionStatusPublished then functionPermissionPublish else functionPermissionUnpublish)
            else retA ()) (\<lambda>_.
     bindA nowA (\<lambda>now.
     writeUpdate env ctx previousStatus status
       (f1\<lparr>fnName := name, fnDescription := trimSpace (uqDescription req), fnStatus := status,
           fnWorkflowStage := workflowStage, fnMenuParentID := menuParentID, fnUpdatedAt := now\<rparr>)))))))"

end
