(* ===== verification/Func_Handlers.thy ===== *)
theory Func_Handlers
  imports Func_Logic
begin

text \<open>
  The remaining handlers of \<^verbatim>\<open>func-operation/internal/logic/function.go\<close>: adopting a
  document, creating the scaffold of the application, adopting its code, its data forms, and
  the sessions of the agent.
\<close>

subsection \<open>Documents\<close>

definition LoadFunctionDocument :: "fenv \<Rightarrow> goctx \<Rightarrow> gostr \<Rightarrow> gostr \<Rightarrow> gostr \<Rightarrow> docPayload fnact" where
  "LoadFunctionDocument env ctx reqID reqType reqSource =
     bindA (Require (feSystem env) ctx functionPermissionEdit) (\<lambda>_.
     bindA (Function_Get (trimSpace reqID)) (\<lambda>original.
     bindA (syncDocumentStateFromFiles env original) (\<lambda>f0.
     bindA (if normalizeFunctionDocumentSource reqSource = sourceDraft
            then persistFunctionDocumentVersionsIfChanged f0 original else retA f0) (\<lambda>f.
     bindA (loadFunctionDocument env f reqType reqSource) (\<lambda>doc.
     retA (doc\<lparr>dpVersion := documentVersion f (dpDocType doc) (dpSource doc)\<rparr>))))))"

text \<open>The product version that the technical document to adopt was written for.\<close>

definition technicalSource :: "fenv \<Rightarrow> fnrow \<Rightarrow> gostr \<Rightarrow> int fnact" where
  "technicalSource env f reqType =
     (if normalizeFunctionDocumentType reqType \<noteq> docTechnical then retA 0
      else
        bindA (technicalDraftProductVersion env f) (\<lambda>v.
        if v \<noteq> fnProductDocVersion f then
          failA (Err ''product doc changed after this technical draft was generated; regenerate the technical doc'')
        else retA v))"

definition adoptDocument :: "gostr \<Rightarrow> int \<Rightarrow> int \<Rightarrow> fnrow \<Rightarrow> fnrow" where
  "adoptDocument reqType sourceVersion now f =
     (let docType = normalizeFunctionDocumentType reqType in
      if docType = docProduct then
        (let next = adoptDocumentVersion (fnProductDocVersion f) (fnProductDraftVersion f) in
         f\<lparr>fnProductDocVersion := next, fnProductDraftVersion := next, fnUpdatedAt := now,
           fnWorkflowStage := StageTechnicalDoc\<rparr>)
      else if docType = docTechnical then
        (let next = adoptDocumentVersion (fnTechnicalDocVersion f) (fnTechnicalDraftVersion f) in
         f\<lparr>fnTechnicalDocVersion := next, fnTechnicalDraftVersion := next, fnTechnicalDraftOperationID := [],
           fnTechnicalSourceProductVersion := sourceVersion, fnUpdatedAt := now,
           fnWorkflowStage := StageCodeGeneration\<rparr>)
      else f\<lparr>fnUpdatedAt := now\<rparr>)"

definition CommitFunctionDocument ::
  "fenv \<Rightarrow> goctx \<Rightarrow> gostr \<Rightarrow> gostr \<Rightarrow> (functionProto \<times> docPayload) fnact" where
  "CommitFunctionDocument env ctx reqID reqType =
     bindA (Require (feSystem env) ctx functionPermissionEdit) (\<lambda>_.
     bindA (Function_Get (trimSpace reqID)) (\<lambda>stored.
     bindA (syncDocumentStateFromFiles env stored) (\<lambda>f.
     bindA (liftA (validateDocumentCommit f reqType)) (\<lambda>_.
     bindA (technicalSource env f reqType) (\<lambda>sourceVersion.
     bindA (commitFunctionDocument env f reqType) (\<lambda>doc.
     bindA nowA (\<lambda>now.
     let f1 = adoptDocument reqType sourceVersion now f in
     bindA (Function_Update f1) (\<lambda>_.
     bindA (syncDocumentStateFromFiles env f1) (\<lambda>f2.
     retA (modelFunctionToProto env f2,
           doc\<lparr>dpVersion := documentVersion f2 (dpDocType doc) sourceApplied\<rparr>))))))))))"

subsection \<open>The application\<close>

definition appNotFound :: err where
  "appNotFound = Err ''generated app not found''"

definition resolveFunctionApp :: "fenv \<Rightarrow> fnrow \<Rightarrow> appRow fnact" where
  "resolveFunctionApp env f =
     (case feRuntime env of
        None \<Rightarrow> failA (Err ''generated app runtime is not configured'')
      | Some rt \<Rightarrow>
          let currentAppID = trimSpace (fnGeneratedAppID f) in
          if currentAppID = [] then failA appNotFound
          else
            bindA (tryA (callA (rtCandidate rt currentAppID))) (\<lambda>candidate.
            case candidate of
              Inr app \<Rightarrow> retA app
            | Inl _ \<Rightarrow>
                (case feStoredApp env of
                   None \<Rightarrow> failA appNotFound
                 | Some get \<Rightarrow> handleA (callA (get currentAppID)) (\<lambda>_. failA appNotFound))))"

text \<open>A reply holds the application and the table prefix of its function.\<close>

definition functionGeneratedAppToProto :: "appRow \<Rightarrow> fnrow \<Rightarrow> appRow \<times> gostr" where
  "functionGeneratedAppToProto app f = (app, functionTablePrefix f)"

definition createScaffold :: "fenv \<Rightarrow> fnrow \<Rightarrow> insights \<Rightarrow> appRow fnact" where
  "createScaffold env f ins =
     bindA (if trimSpace (fnGeneratedAppID f) = [] then newUUID else retA (trimSpace (fnGeneratedAppID f))) (\<lambda>appID.
     case feRuntime env of
       None \<Rightarrow> failA (Err ''generated app runtime is not configured'')
     | Some rt \<Rightarrow>
         callA (rtScaffold rt
           \<lparr>siAppID = appID, siName = fnName f, siDescription = fnDescription f,
            siSessionID = fnGenerationSessionID f, siTablePrefix = functionTablePrefix f,
            siSummary = isSummary ins, siHighlights = isHighlights ins, siCorePages = isCorePages ins,
            siDataModels = isDataModels ins, siAPIs = isAPIs ins, siNextSteps = isNextSteps ins\<rparr>))"

definition MaterializeFunctionApp ::
  "fenv \<Rightarrow> goctx \<Rightarrow> gostr \<Rightarrow> (functionProto \<times> appRow \<times> gostr) fnact" where
  "MaterializeFunctionApp env ctx reqID =
     bindA (Require (feSystem env) ctx functionPermissionEdit) (\<lambda>_.
     let i = trimSpace reqID in
     if i = [] then failA (Err ''function id is required'')
     else if fePreview env = None then failA (Err ''generated app debug runtime is not configured'')
     else
     bindA (Function_Get i) (\<lambda>stored.
     bindA (syncDocumentStateFromFiles env stored) (\<lambda>f.
     if trimSpace (fnProductDoc f) = [] then failA (Err ''product doc is required before code generation'')
     else if trimSpace (fnTechnicalDoc f) = [] then failA (Err ''technical doc is required before code generation'')
     else
     bindA (buildFunctionInsights env f) (\<lambda>ins.
     bindA (handleA (resolveFunctionApp env f) (\<lambda>_. createScaffold env f ins)) (\<lambda>app.
     let f1 = f\<lparr>fnGeneratedAppID := apUUID app\<rparr> in
     bindA (if feReleases env then bindA (Stage env ctx f1) (\<lambda>_. retA ()) else retA ()) (\<lambda>_.
     bindA nowA (\<lambda>now.
     let f2 = f1\<lparr>fnEntry := apFrontendEntry app, fnWorkflowStage := StageCodeGeneration,
                  fnFunctionVersion := fnFunctionVersion f1 + 1, fnCodeDraftVersion := fnFunctionVersion f1 + 1,
                  fnStatus := defaultString (fnStatus f1) FunctionStatusDraft FunctionStatusDraft,
                  fnUpdatedAt := now\<rparr> in
     bindA (Function_Update f2) (\<lambda>_.
     bindA (syncDocumentStateFromFiles env f2) (\<lambda>f3.
     retA (modelFunctionToProto env f3, functionGeneratedAppToProto app f3))))))))))"

definition listFunctionDataForms :: "fenv \<Rightarrow> fnrow \<Rightarrow> dataForm list fnact" where
  "listFunctionDataForms env f =
     (case fePreview env of
        None \<Rightarrow> failA (Err ''generated app debug runtime is not configured'')
      | Some pv \<Rightarrow>
          if trimSpace (fnGeneratedAppID f) = [] then retA []
          else callA (pvListForms pv (trimSpace (fnGeneratedAppID f))))"

definition ListFunctionDataForms :: "fenv \<Rightarrow> goctx \<Rightarrow> gostr \<Rightarrow> dataForm list fnact" where
  "ListFunctionDataForms env ctx reqID =
     bindA (Require (feSystem env) ctx functionPermissionEdit) (\<lambda>_.
     bindA (Function_Get (trimSpace reqID)) (listFunctionDataForms env))"

definition DeleteFunctionDataForm :: "fenv \<Rightarrow> goctx \<Rightarrow> gostr \<Rightarrow> gostr \<Rightarrow> dataForm list fnact" where
  "DeleteFunctionDataForm env ctx reqID reqName =
     bindA (Require (feSystem env) ctx functionPermissionEdit) (\<lambda>_.
     bindA (Function_Get (trimSpace reqID)) (\<lambda>f.
     case fePreview env of
       None \<Rightarrow> failA (Err ''generated app debug runtime is not configured'')
     | Some pv \<Rightarrow>
         if trimSpace (fnGeneratedAppID f) = [] then failA (Err ''generated app is not ready'')
         else callA (pvDeleteForm pv (trimSpace (fnGeneratedAppID f)) reqName)))"

definition LoadFunctionCodeState :: "fenv \<Rightarrow> goctx \<Rightarrow> gostr \<Rightarrow> codeState fnact" where
  "LoadFunctionCodeState env ctx reqID =
     bindA (Require (feSystem env) ctx functionPermissionEdit) (\<lambda>_.
     bindA (Function_Get (trimSpace reqID)) (\<lambda>stored.
     bindA (syncDocumentStateFromFiles env stored) (\<lambda>f.
     buildFunctionCodeState env (normalizeLegacyFunctionVersions f))))"

definition TouchFunctionCodeDraft :: "fenv \<Rightarrow> goctx \<Rightarrow> gostr \<Rightarrow> (functionProto \<times> codeState) fnact" where
  "TouchFunctionCodeDraft env ctx reqID =
     bindA (Require (feSystem env) ctx functionPermissionEdit) (\<lambda>_.
     bindA (Function_Get (trimSpace reqID)) (\<lambda>stored.
     bindA (syncDocumentStateFromFiles env stored) (\<lambda>f.
     bindA (touchCodeDraftVersion env (normalizeLegacyFunctionVersions f)) (\<lambda>f1.
     bindA (buildFunctionCodeState env f1) (\<lambda>st.
     retA (modelFunctionToProto env f1, st))))))"

subsection \<open>Adopting the code\<close>

text \<open>What must hold of the function before its code is adopted, in the order of the checks.\<close>

definition checkApply :: "fnrow \<Rightarrow> err + unit" where
  "checkApply f =
     (if trimSpace (fnGeneratedAppID f) = [] then Inl (Err ''generate app scaffold before applying code'')
      else if fnProductDocVersion f = 0 then Inl (Err ''product doc must be applied before code'')
      else if fnTechnicalDocVersion f = 0 then Inl (Err ''technical doc must be applied before code'')
      else if fnDocTechnicalStale f then
        Inl (Err ''technical doc is stale, please regenerate and apply technical doc'')
      else Inr ())"

definition applyCode :: "appRow \<Rightarrow> int \<Rightarrow> int \<Rightarrow> fnrow \<Rightarrow> fnrow" where
  "applyCode app sourceVersion now f = f
     \<lparr>fnEntry := apFrontendEntry app, fnFunctionVersion := fnFunctionVersion f + 1,
      fnCodeVersion := fnFunctionVersion f + 1, fnCodeDraftVersion := fnFunctionVersion f + 1,
      fnCodeDraftOperationID := [], fnCodeSourceTechnicalVersion := sourceVersion,
      fnWorkflowStage := StageCodeGenerated, fnUpdatedAt := now\<rparr>"

definition ApplyFunctionCode ::
  "fenv \<Rightarrow> goctx \<Rightarrow> gostr \<Rightarrow> (functionProto \<times> (appRow \<times> gostr) \<times> codeState) fnact" where
  "ApplyFunctionCode env ctx reqID =
     bindA (Require (feSystem env) ctx functionPermissionEdit) (\<lambda>_.
     bindA (Function_Get (trimSpace reqID)) (\<lambda>stored.
     bindA (syncDocumentStateFromFiles env stored) (\<lambda>f0.
     let f = normalizeLegacyFunctionVersions f0 in
     bindA (liftA (checkApply f)) (\<lambda>_.
     bindA (codeDraftTechnicalVersion env f) (\<lambda>sourceVersion.
     if sourceVersion \<noteq> fnTechnicalDocVersion f then
       failA (Err ''technical doc changed after this page was generated; regenerate the page'')
     else if feRuntime env = None then failA (Err ''generated app runtime is not configured'')
     else if \<not> feReleases env then failA releaseRuntimeMissing
     else
     bindA (Stage env ctx f) (\<lambda>_.
     bindA (resolveFunctionApp env f) (\<lambda>app.
     bindA nowA (\<lambda>now.
     let f1 = applyCode app sourceVersion now f in
     bindA (Function_Update f1) (\<lambda>_.
     bindA (syncDocumentStateFromFiles env f1) (\<lambda>f2.
     bindA (buildFunctionCodeState env f2) (\<lambda>st.
     retA (modelFunctionToProto env f2, functionGeneratedAppToProto app f2, st))))))))))))"

subsection \<open>Sessions of the agent\<close>

text \<open>The session's identifier as the agent returns it, and whether it was created.\<close>

definition ensureAiAgentSession :: "fenv \<Rightarrow> goctx \<Rightarrow> gostr \<Rightarrow> gostr \<Rightarrow> (gostr \<times> bool) fnact" where
  "ensureAiAgentSession env ctx sessionID title =
     (case feAgent env of
        None \<Rightarrow> failA (Err ''ai-agent client is not configured'')
      | Some provider \<Rightarrow>
          bindA (wrapErrA (\<lambda>e. Err (''get ai-agent client: '' @ errText e)) (callA provider)) (\<lambda>client.
          bindA (callA (agEnsure client (ForwardUserContext ctx) sessionID title)) (\<lambda>(i, created).
          if trimSpace i = [] then failA (Err ''ai-agent session id is empty'')
          else retA (i, created))))"

definition withSession :: "gostr \<Rightarrow> gostr \<Rightarrow> fnrow \<Rightarrow> err + fnrow" where
  "withSession conversation i f =
     (if conversation = conversationProduct then Inr (f\<lparr>fnProductSessionID := i\<rparr>)
      else if conversation = conversationTechnical then Inr (f\<lparr>fnTechnicalSessionID := i\<rparr>)
      else if conversation = conversationGeneration then Inr (f\<lparr>fnGenerationSessionID := i\<rparr>)
      else Inl (Err ''unsupported conversation''))"

definition EnsureFunctionSession ::
  "fenv \<Rightarrow> goctx \<Rightarrow> gostr \<Rightarrow> gostr \<Rightarrow> (functionProto \<times> gostr \<times> bool) fnact" where
  "EnsureFunctionSession env ctx reqID reqConversation =
     bindA (Require (feSystem env) ctx functionPermissionEdit) (\<lambda>_.
     bindA (Function_Get (trimSpace reqID)) (\<lambda>f.
     if fnID f = 0 then failA (Err ''function id is not ready'')
     else
     let conversation = normalizeFunctionConversation reqConversation in
     bindA (ensureAiAgentSession env ctx (functionSessionKey (fnID f) conversation)
       (functionSessionTitle (fnName f) conversation)) (\<lambda>(i, created).
     bindA (liftA (withSession conversation i f)) (\<lambda>f1.
     bindA nowA (\<lambda>now.
     let f2 = f1\<lparr>fnUpdatedAt := now\<rparr> in
     bindA (Function_Update f2) (\<lambda>_.
     bindA (syncDocumentStateFromFiles env f2) (\<lambda>f3.
     retA (modelFunctionToProto env (normalizeLegacyFunctionVersions f3), i, created))))))))"

end
