(* ===== verification/Func_Invariant.thy ===== *)
theory Func_Invariant
  imports Func_Handlers
begin

text \<open>
  The invariant of the function operation service: keys are unique, a function has at most one
  published release, the scope of a conversation has at most one active operation, and a tool
  call is recorded at most once.  Every handler keeps it, whatever its requests, the answers of
  the other services and the failures of the database.
\<close>

subsection \<open>The tables\<close>

definition onePublished :: "release list \<Rightarrow> bool" where
  "onePublished = uniqueAmong (\<lambda>r. relStatus r = ReleasePublished) relFunctionID relUUID"

definition scopeOf :: "convOp \<Rightarrow> gostr \<times> gostr \<times> gostr \<times> gostr" where
  "scopeOf p = (coFunctionID p, coSessionID p, coConversation p, coUserID p)"

definition oneActive :: "convOp list \<Rightarrow> bool" where
  "oneActive = uniqueAmong (\<lambda>p. activeState (coState p)) scopeOf coUUID"

definition fn_ok :: "fndb \<Rightarrow> bool" where
  "fn_ok d \<longleftrightarrow>
     freshKeys (fdSeq d) fnID (fdFunctions d) \<and> distinct (map fnUUID (fdFunctions d)) \<and>
     freshKeys (fdSeq d) relID (fdReleases d) \<and> distinct (map relUUID (fdReleases d)) \<and>
     onePublished (fdReleases d) \<and>
     freshKeys (fdSeq d) oeID (fdOutbox d) \<and> distinct (map oeUUID (fdOutbox d)) \<and>
     freshKeys (fdSeq d) coID (fdOps d) \<and> distinct (map coUUID (fdOps d)) \<and> oneActive (fdOps d) \<and>
     freshKeys (fdSeq d) peID (fdExecs d) \<and> distinct (map peToolUseID (fdExecs d))"

lemma onePublished_update:
  "onePublished rs \<Longrightarrow>
   (\<And>r. r \<in> set rs \<Longrightarrow> p r \<Longrightarrow> relStatus (f r) = ReleasePublished \<Longrightarrow>
      relStatus r = ReleasePublished \<and> relFunctionID (f r) = relFunctionID r \<and> relUUID (f r) = relUUID r) \<Longrightarrow>
   onePublished (updateRows p f rs)"
  unfolding onePublished_def by (rule uniqueAmong_update)

lemma oneActive_update:
  "oneActive ps \<Longrightarrow>
   (\<And>p. p \<in> set ps \<Longrightarrow> b p \<Longrightarrow> activeState (coState (f p)) \<Longrightarrow>
      activeState (coState p) \<and> scopeOf (f p) = scopeOf p \<and> coUUID (f p) = coUUID p) \<Longrightarrow>
   oneActive (updateRows b f ps)"
  unfolding oneActive_def by (rule uniqueAmong_update)

subsection \<open>Statements\<close>

named_theorems fn_keeps \<open>statements and handlers that keep the invariant\<close>

lemmas fn_row_rules = freshKeys_filter freshKeys_update distinct_insert
  distinct_updateRows_key distinct_map_filter onePublished_update oneActive_update

lemma activeState_ends [simp]:
  "\<not> activeState OpCompleted" "\<not> activeState OpSuperseded" "\<not> activeState OpCancelled"
  "activeState OpRunning" "activeState OpAwaitingUser" "activeState OpNeedsContinue" "activeState OpBlocked"
  by (simp_all add: activeState_def op_consts)

lemma release_status_distinct [simp]:
  "ReleaseRevoked \<noteq> ReleasePublished" "ReleaseStaged \<noteq> ReleasePublished"
  "ReleasePublished \<noteq> ReleaseRevoked" "ReleasePublished \<noteq> ReleaseStaged"
  by (simp_all add: rl_consts)

lemma Function_keeps [fn_keeps]:
  "preserves fn_ok (Function_Create f)" "preserves fn_ok (Function_Delete i)" "preserves fn_ok (Function_Update f)"
proof -
  have create: "fn_ok d'" if "fn_ok d" and "insertFunction f d = Inr (x, d')" for d x d'
  proof -
    let ?row = "(fnDefaults (f\<lparr>fnID := Suc (fdSeq d)\<rparr>))\<lparr>fnDocTechnicalStale := False\<rparr>"
    have key: "fnID ?row = Suc (fdSeq d)" "fnUUID ?row = fnUUID f" by (simp_all add: fnDefaults_def)
    have "fnUUID f \<notin> fnUUID ` set (fdFunctions d)"
      and "d' = d\<lparr>fdSeq := Suc (fdSeq d), fdFunctions := fdFunctions d @ [?row]\<rparr>"
      using that(2) by (auto simp: insertFunction_def Let_def split: if_splits)
    with key show ?thesis using that(1) by (simp add: fn_ok_def)
  qed
  show "preserves fn_ok (Function_Create f)" unfolding Function_Create_def
    by (rule keeps_stmt) (rule create)
  show "preserves fn_ok (Function_Delete i)" unfolding Function_Delete_def
    by (rule keeps_stmt) (auto simp: fn_ok_def split: if_splits intro!: fn_row_rules)
  show "preserves fn_ok (Function_Update f)" unfolding Function_Update_def
    by (rule keeps_stmt) (auto simp: fn_ok_def storedFunction_def intro!: fn_row_rules)
qed

lemma onePublished_insert:
  "onePublished rs \<Longrightarrow> relStatus r \<noteq> ReleasePublished \<or>
    (\<forall>s \<in> set rs. relFunctionID s = relFunctionID r \<longrightarrow> relStatus s \<noteq> ReleasePublished) \<Longrightarrow>
   onePublished (rs @ [r])"
  unfolding onePublished_def by (rule uniqueAmong_insert) auto

lemma insertRelease_ok:
  assumes "fn_ok d" and "insertRelease r d = Inr (row, d')"
    and "relStatus r \<noteq> ReleasePublished \<or>
      (\<forall>s \<in> set (fdReleases d). relFunctionID s = relFunctionID r \<longrightarrow> relStatus s \<noteq> ReleasePublished)"
  shows "fn_ok d'"
proof -
  let ?row = "r\<lparr>relID := Suc (fdSeq d)\<rparr>"
  have new: "relUUID r \<notin> relUUID ` set (fdReleases d)"
    and d': "d' = d\<lparr>fdSeq := Suc (fdSeq d), fdReleases := fdReleases d @ [?row]\<rparr>"
    using assms(2) by (auto simp: insertRelease_def Let_def split: if_splits)
  have "onePublished (fdReleases d @ [?row])"
    using assms(1,3) by (intro onePublished_insert) (simp_all add: fn_ok_def)
  then show ?thesis using assms(1) new unfolding d' by (simp add: fn_ok_def)
qed

lemma Release_keeps [fn_keeps]:
  "relStatus r \<noteq> ReleasePublished \<Longrightarrow> preserves fn_ok (Release_CreateStaged r)"
  "preserves fn_ok (Release_RevokeByFunctionID i now)" "preserves fn_ok (activateByID n i now)"
proof -
  show "preserves fn_ok (Release_CreateStaged r)" if "relStatus r \<noteq> ReleasePublished"
  proof -
    have "preserves fn_ok (stmtA (insertRelease (r\<lparr>relUUID := i\<rparr>)))" for i
      using that by (intro keeps_stmt) (auto elim: insertRelease_ok)
    then show ?thesis unfolding Release_CreateStaged_def by (intro act_keeps) (simp_all add: keeps_readonly)
  qed
  show "preserves fn_ok (Release_RevokeByFunctionID i now)" unfolding Release_RevokeByFunctionID_def revokeRows_def
    by (rule keeps_stmt) (auto simp: fn_ok_def intro!: fn_row_rules)
  show "preserves fn_ok (activateByID n i now)" unfolding activateByID_def
    by (rule keeps_stmt) (auto simp: fn_ok_def intro!: fn_row_rules)
qed

lemma insertEvent_keeps: "preserves fn_ok (stmtA (insertEvent ev))"
proof (rule keeps_stmt)
  fix d x d' assume "fn_ok d" and "insertEvent ev d = Inr (x, d')"
  then show "fn_ok d'"
    by (cases "oeUUID ev \<in> oeUUID ` set (fdOutbox d)") (auto simp: insertEvent_def fn_ok_def Let_def)
qed

lemma Outbox_keeps [fn_keeps]:
  "preserves fn_ok (Outbox_Create ev)" "preserves fn_ok (Outbox_Requeue now)" "preserves fn_ok (claimOne now ev)"
  "preserves fn_ok (Outbox_MarkDone n now)" "preserves fn_ok (Outbox_MarkDoneByUUID i now)"
  "preserves fn_ok (Outbox_MarkRetry n next e now)"
proof -
  show "preserves fn_ok (Outbox_Create ev)" unfolding Outbox_Create_def
    by (intro act_keeps insertEvent_keeps keeps_readonly readonly_basic)
  show "preserves fn_ok (Outbox_Requeue now)" "preserves fn_ok (claimOne now ev)"
    "preserves fn_ok (Outbox_MarkDone n now)" "preserves fn_ok (Outbox_MarkDoneByUUID i now)"
    "preserves fn_ok (Outbox_MarkRetry n next e now)"
    unfolding Outbox_Requeue_def claimOne_def Outbox_MarkDone_def Outbox_MarkDoneByUUID_def Outbox_MarkRetry_def
    by (rule keeps_stmt; auto simp: fn_ok_def doneEvent_def intro!: fn_row_rules)+
qed

lemma claimAll_keeps [fn_keeps]: "preserves fn_ok (claimAll now evs)"
  by (induction evs) (auto intro!: act_keeps fn_keeps)

lemma ClaimReady_keeps [fn_keeps]: "preserves fn_ok (Outbox_ClaimReady now limit)"
  unfolding Outbox_ClaimReady_def by (intro act_keeps fn_keeps keeps_readonly readonly_query)

lemma Op_keeps [fn_keeps]:
  "preserves fn_ok (Op_SupersedeActive a b c e now)"
  "preserves fn_ok (Op_finish i st ts tr out now)"
proof -
  show "preserves fn_ok (Op_SupersedeActive a b c e now)" unfolding Op_SupersedeActive_def
    by (rule keeps_stmt) (auto simp: fn_ok_def scopeOf_def intro!: fn_row_rules)
  show "preserves fn_ok (Op_finish i st ts tr out now)" unfolding Op_finish_def
    by (intro act_keeps keeps_stmt keeps_readonly readonly_fn)
      (auto simp: fn_ok_def scopeOf_def intro!: fn_row_rules)
qed

lemma Exec_keeps [fn_keeps]: "preserves fn_ok (Exec_Complete x i)"
proof -
  have ins: "preserves fn_ok (stmtA (insertExec x))"
    by (rule keeps_stmt) (auto simp: insertExec_def fn_ok_def split: if_splits intro!: fn_row_rules)
  have upd: "preserves fn_ok (stmtA (\<lambda>d. Inr ((), d\<lparr>fdOps := updateRows (\<lambda>p. coUUID p = i) (completedBy x) (fdOps d)\<rparr>)))"
    by (rule keeps_stmt) (auto simp: fn_ok_def completedBy_def intro!: fn_row_rules)
  show ?thesis unfolding Exec_Complete_def Exec_record_def
    by (intro act_keeps ins upd keeps_readonly readonly_fn)
qed

subsection \<open>Publishing\<close>

definition noPublished :: "gostr \<Rightarrow> fndb \<Rightarrow> bool" where
  "noPublished functionID d \<longleftrightarrow>
     (\<forall>s \<in> set (fdReleases d). relFunctionID s = functionID \<longrightarrow> relStatus s \<noteq> ReleasePublished)"

lemma revoke_none:
  "triple (\<lambda>d. fn_ok d \<and> r \<in> set (fdReleases d) \<and> relUUID r = i)
     (Release_RevokeByFunctionID (relFunctionID r) now)
     (\<lambda>_ d. fn_ok d \<and> noPublished (relFunctionID r) d \<and>
            (\<exists>s \<in> set (fdReleases d). relUUID s = i \<and> relFunctionID s = relFunctionID r)) (\<lambda>_ _. True)"
  unfolding Release_RevokeByFunctionID_def
proof (rule triple_stmt, clarsimp)
  fix d assume d: "fn_ok d" "r \<in> set (fdReleases d)" and i: "i = relUUID r"
  let ?rs = "revokeRows (relFunctionID r) now (fdReleases d)"
  have "fn_ok (d\<lparr>fdReleases := ?rs\<rparr>)" using d(1)
    by (auto simp: revokeRows_def fn_ok_def intro!: fn_row_rules)
  moreover have "noPublished (relFunctionID r) (d\<lparr>fdReleases := ?rs\<rparr>)"
    unfolding noPublished_def revokeRows_def updateRows_def by (simp add: ball_Un)
  moreover have "\<exists>s \<in> set ?rs. relUUID s = i \<and> relFunctionID s = relFunctionID r"
    unfolding revokeRows_def updateRows_def set_map
    by (rule bexI [OF _ imageI [OF d(2)]]) (simp add: i)
  ultimately show "fn_ok (d\<lparr>fdReleases := ?rs\<rparr>) \<and> noPublished (relFunctionID r) (d\<lparr>fdReleases := ?rs\<rparr>) \<and>
      (\<exists>s \<in> set ?rs. relUUID s = relUUID r \<and> relFunctionID s = relFunctionID r)" using i by blast
qed simp

text \<open>The property is given to the rows of one key, in a scope where no row has it.\<close>

lemma uniqueAmong_grant:
  assumes "uniqueAmong P c k rows" and "\<And>r. r \<in> set rows \<Longrightarrow> k r = i \<Longrightarrow> c r = v"
    and "\<And>r. r \<in> set rows \<Longrightarrow> c r = v \<Longrightarrow> \<not> P r" and "\<And>r. c (f r) = c r" and "\<And>r. k (f r) = k r"
  shows "uniqueAmong P c k (updateRows (\<lambda>r. k r = i) f rows)"
  unfolding uniqueAmong_def
proof (intro ballI impI)
  fix x y assume xy: "x \<in> set (updateRows (\<lambda>r. k r = i) f rows)" "y \<in> set (updateRows (\<lambda>r. k r = i) f rows)"
    and P: "P x \<and> P y \<and> c x = c y"
  have cases: "z \<in> set rows \<and> c z \<noteq> v \<or> k z = i \<and> c z = v"
    if z: "z \<in> set (updateRows (\<lambda>r. k r = i) f rows)" "P z" for z
  proof -
    obtain r where r: "r \<in> set rows" "z = (if k r = i then f r else r)"
      using z(1) by (auto simp: set_updateRows_iff)
    show ?thesis
    proof (cases "k r = i")
      case True
      then show ?thesis using r assms(2) [OF r(1)] by (simp add: assms(4,5))
    next
      case False
      then show ?thesis using r z(2) assms(3) [OF r(1)] by auto
    qed
  qed
  show "k x = k y"
    using cases [OF xy(1)] cases [OF xy(2)] P uniqueAmongD [OF assms(1), of x y] by auto
qed

lemma markPublished_ok:
  assumes ok: "fn_ok d" and none: "noPublished f d"
    and s: "s \<in> set (fdReleases d)" "relUUID s = i" "relFunctionID s = f"
    and run: "markPublished i now d = Inr (x, d')"
  shows "fn_ok d'"
proof -
  let ?g = "\<lambda>r. r\<lparr>relStatus := ReleasePublished, relPublishedAt := now, relUpdatedAt := now\<rparr>"
  let ?rs = "updateRows (\<lambda>r. relUUID r = i) ?g (fdReleases d)"
  have d': "d' = d\<lparr>fdReleases := ?rs\<rparr>" using run by (auto simp: markPublished_def split: if_splits)
  have same: "relFunctionID r = f" if "r \<in> set (fdReleases d)" "relUUID r = i" for r
    using distinct_key_eq [of relUUID "fdReleases d" r s] ok s that by (auto simp: fn_ok_def)
  have "onePublished ?rs" unfolding onePublished_def
    by (rule uniqueAmong_grant [where v = f])
      (use ok none same in \<open>simp_all add: fn_ok_def onePublished_def noPublished_def\<close>)
  then show ?thesis using ok unfolding d' by (auto simp: fn_ok_def intro!: fn_row_rules)
qed

lemma firstRow_triple:
  assumes "\<And>d r. P d \<Longrightarrow> r \<in> set (rows d) \<Longrightarrow> p r \<Longrightarrow> Q r d" and "\<And>d e. P d \<Longrightarrow> E e d"
  shows "triple P (queryA (\<lambda>d. firstRow k p (rows d))) Q E"
  by (rule triple_query) (auto intro: assms dest: firstRow_Inr)

lemma Release_publish_keeps [fn_keeps]: "preserves fn_ok (Release_publish i now ev)"
  unfolding Release_publish_def
proof (rule triple_transaction)
  have get: "triple fn_ok (queryA (\<lambda>d. firstRow relID (\<lambda>r. relUUID r = i) (fdReleases d)))
      (\<lambda>r d. fn_ok d \<and> r \<in> set (fdReleases d) \<and> relUUID r = i) (\<lambda>_ _. True)"
    by (rule firstRow_triple) auto
  have mark: "triple (\<lambda>d. fn_ok d \<and> noPublished f d \<and> (\<exists>s \<in> set (fdReleases d). relUUID s = i \<and> relFunctionID s = f))
      (stmtA (markPublished i now)) (\<lambda>_. fn_ok) (\<lambda>_ _. True)" for f
    by (rule triple_stmt) (auto dest: markPublished_ok)
  have act: "preserves fn_ok (stmtA (\<lambda>d. Inr ((), d\<lparr>fdFunctions := activate f i now (fdFunctions d)\<rparr>)))" for f
    by (rule keeps_stmt) (auto simp: fn_ok_def activate_def intro!: fn_row_rules)
  have rest: "triple fn_ok (bindA (stmtA (\<lambda>d. Inr ((), d\<lparr>fdFunctions := activate f i now (fdFunctions d)\<rparr>)))
      (\<lambda>_. case ev of None \<Rightarrow> retA () | Some ev \<Rightarrow> bindA (Outbox_Create ev) (\<lambda>_. retA ()))) (\<lambda>_. fn_ok) (\<lambda>_ _. True)" for f
    by (rule triple_post [of _ _ "\<lambda>_. fn_ok" "\<lambda>_. fn_ok"]) (intro act_keeps act fn_keeps, simp_all)
  show "triple fn_ok (bindA (queryA (\<lambda>d. firstRow relID (\<lambda>r. relUUID r = i) (fdReleases d))) (\<lambda>r.
      bindA (Release_RevokeByFunctionID (relFunctionID r) now) (\<lambda>_.
      bindA (stmtA (markPublished i now)) (\<lambda>_.
      bindA (stmtA (\<lambda>d. Inr ((), d\<lparr>fdFunctions := activate (relFunctionID r) i now (fdFunctions d)\<rparr>))) (\<lambda>_.
      case ev of None \<Rightarrow> retA () | Some ev \<Rightarrow> bindA (Outbox_Create ev) (\<lambda>_. retA ()))))))
      (\<lambda>_. fn_ok) (\<lambda>_ _. True)"
    apply (rule triple_bind [OF get])
    apply (rule triple_bind)
     apply (rule revoke_none)
    apply (rule triple_bind [OF mark rest])
    done
qed simp

text \<open>The backfill publishes only for a function that has no published release.\<close>

lemma triple_query_exact:
  assumes "\<And>d x. P d \<Longrightarrow> f d = Inr x \<Longrightarrow> Q x d" and "\<And>d e. P d \<Longrightarrow> f d = Inl e \<Longrightarrow> E e d"
    and "\<And>d t. P d \<Longrightarrow> E (Driver t) d"
  shows "triple P (queryA f) Q E"
  using assms by (intro tripleI) (auto simp: queryA_def stmtA_def split: option.splits sum.splits)

lemma Backfill_keeps [fn_keeps]: "preserves fn_ok (Release_BackfillPublished i appID artifact manifest now)"
proof -
  let ?look = "queryA (\<lambda>d. firstRow newestRelease
    (\<lambda>r. relFunctionID r = i \<and> relStatus r = ReleasePublished) (fdReleases d))"
  have look: "triple fn_ok (tryA ?look)
      (\<lambda>r d. fn_ok d \<and> (r = Inl RecordNotFound \<longrightarrow> noPublished i d)) (\<lambda>_. fn_ok)"
    by (rule triple_try, rule triple_query_exact) (auto simp: firstRow_Inl noPublished_def)
  have ins: "triple (\<lambda>d. fn_ok d \<and> noPublished i d) (stmtA (insertRelease r)) (\<lambda>_. fn_ok) (\<lambda>_. fn_ok)"
    if "relFunctionID r = i" for r
    using that by (intro triple_stmt) (auto simp: noPublished_def elim: insertRelease_ok)
  have new: "triple (\<lambda>d. fn_ok d \<and> noPublished i d)
      (bindA newUUID (\<lambda>j. bindA (stmtA (insertRelease (mk j))) (\<lambda>r. activateByID n (relUUID r) now)))
      (\<lambda>_. fn_ok) (\<lambda>_. fn_ok)" if "\<And>j. relFunctionID (mk j) = i" for mk n
    by (rule triple_bind_readonly) (auto intro!: triple_bind [OF ins] fn_keeps that)
  have rest: "triple (\<lambda>d. fn_ok d \<and> (r = Inl RecordNotFound \<longrightarrow> noPublished i d))
      (case r of
         Inr existing \<Rightarrow> activateByID n (relUUID existing) now
       | Inl e \<Rightarrow> if e \<noteq> RecordNotFound then failA e
           else bindA newUUID (\<lambda>j. bindA (stmtA (insertRelease (mk j))) (\<lambda>r. activateByID n (relUUID r) now)))
      (\<lambda>_. fn_ok) (\<lambda>_. fn_ok)" if "\<And>j. relFunctionID (mk j) = i" for r n mk
    by (cases r) (auto intro!: triple_fail triple_pre [OF new [OF that]] triple_pre [OF Release_keeps(3)])
  show ?thesis unfolding Release_BackfillPublished_def
    by (intro act_keeps triple_bind [OF look rest] keeps_readonly readonly_fn) simp
qed

end
