(* ===== verification/Func_Service.thy ===== *)
theory Func_Service
  imports Func_Invariant
begin

text \<open>
  The function operation service as a whole: its steps are the calls of all its handlers and of
  its background work, each with any request and any answers of the other services.
\<close>

subsection \<open>Calls that only read\<close>

lemma readonly_for: "(\<And>x. readonly (f x)) \<Longrightarrow> readonly (forA xs f)"
  by (induction xs) (simp_all add: readonly_bind)

lemma readonly_split:
  "(b \<Longrightarrow> readonly m1) \<Longrightarrow> (\<not> b \<Longrightarrow> readonly m2) \<Longrightarrow> readonly (if b then m1 else m2)"
  "readonly n \<Longrightarrow> (\<And>x. readonly (f x)) \<Longrightarrow> readonly (case q of None \<Rightarrow> n | Some x \<Rightarrow> f x)"
  "(\<And>e. readonly (g e)) \<Longrightarrow> (\<And>x. readonly (h x)) \<Longrightarrow> readonly (case s of Inl e \<Rightarrow> g e | Inr x \<Rightarrow> h x)"
  "(\<And>a b. readonly (k a b)) \<Longrightarrow> readonly (case p of (a, b) \<Rightarrow> k a b)"
  by (auto split: option.splits sum.splits prod.splits)

lemmas readonly_rules = readonly_bind readonly_handle readonly_wrap readonly_try readonly_ignore readonly_for
  readonly_mapA readonly_split

lemma readonly_docs [act_frame, simp]:
  "readonly (readFile p)" "readonly mkdirAll" "readonly (fileModTime p)" "readonly (ensureFunctionWorkspace env f)"
  "readonly (loadFunctionDocument env f t q)" "readonly (technicalStaleFrom pa ta f)"
  "readonly (syncDocumentStateFromFiles env f)" "readonly (completedOperationBaselineVersion env f a b c v)"
  "readonly (technicalSource env f t)" "readonly (codeDraftTechnicalVersion env f)"
proof -
  show rf: "readonly (readFile p)" for p by (simp add: readFile_def)
  show mk: "readonly mkdirAll" by (simp add: mkdirAll_def)
  show mt: "readonly (fileModTime p)" for p unfolding fileModTime_def by (intro readonly_rules rf) simp
  show ws: "readonly (ensureFunctionWorkspace env f)" unfolding ensureFunctionWorkspace_def by (intro readonly_rules mk)
  show ld: "readonly (loadFunctionDocument env f t q)" for t q
    unfolding loadFunctionDocument_def Let_def by (intro readonly_rules rf) simp_all
  show ts: "readonly (technicalStaleFrom pa ta f)" for pa ta f
    unfolding technicalStaleFrom_def by (intro readonly_rules mt) simp_all
  have orNo: "readonly (orNoDocument (loadFunctionDocument env f t q))" for t q
    unfolding orNoDocument_def by (intro readonly_rules ld) simp
  show "readonly (syncDocumentStateFromFiles env f)"
    unfolding syncDocumentStateFromFiles_def documentState_def by (intro readonly_rules ws orNo ts) simp_all
  show co: "readonly (completedOperationBaselineVersion env f a b c v)" for a b c v
    unfolding completedOperationBaselineVersion_def Let_def by (intro readonly_rules) simp_all
  show "readonly (technicalSource env f t)" unfolding technicalSource_def technicalDraftProductVersion_def
    by (intro readonly_rules co) simp_all
  show "readonly (codeDraftTechnicalVersion env f)" unfolding codeDraftTechnicalVersion_def by (rule co)
qed

lemma readonly_fn_logic [act_frame, simp]:
  "readonly (resolveFunctionApp env f)" "readonly (createScaffold env f ins)" "readonly (buildFunctionInsights env f)"
  "readonly (buildFunctionCodeState env f)" "readonly (functionActionKeys env f)"
  "readonly (syncFunctionMenu env ctx f a b)" "readonly (deleteFunctionSessions env ctx f)"
  "readonly (ensureAiAgentSession env ctx i t)" "readonly (listFunctionDataForms env f)" "readonly (resolveScope i c)"
  "readonly (deliver env ctx ev)" "readonly (RestorePublished env)" "readonly (revokeSkills env i)"
proof -
  show "readonly (resolveFunctionApp env f)" "readonly (createScaffold env f ins)"
    "readonly (buildFunctionInsights env f)" "readonly (buildFunctionCodeState env f)"
    unfolding resolveFunctionApp_def createScaffold_def buildFunctionInsights_def buildFunctionCodeState_def Let_def
    by (intro readonly_rules; simp)+
  show ak: "readonly (functionActionKeys env f)"
    unfolding functionActionKeys_def by (intro readonly_rules) simp_all
  show "readonly (syncFunctionMenu env ctx f a b)"
    unfolding syncFunctionMenu_def by (intro readonly_rules ak) simp_all
  have del: "readonly (deleteAiAgentSession env ctx i)" for i
    unfolding deleteAiAgentSession_def by (intro readonly_rules) simp_all
  show "readonly (deleteFunctionSessions env ctx f)"
    unfolding deleteFunctionSessions_def by (intro readonly_rules del) simp_all
  show "readonly (ensureAiAgentSession env ctx i t)"
    unfolding ensureAiAgentSession_def by (intro readonly_rules) simp_all
  show "readonly (listFunctionDataForms env f)" "readonly (resolveScope i c)"
    unfolding listFunctionDataForms_def resolveScope_def Let_def by (intro readonly_rules; simp)+
  have send: "readonly (sendRealtime env a b c p)" for a b c p
    unfolding sendRealtime_def by (intro readonly_rules) simp_all
  have menu: "readonly (deliverMenuSync env ctx ev)"
    unfolding deliverMenuSync_def by (intro readonly_rules) simp_all
  show "readonly (deliver env ctx ev)"
    unfolding deliver_def publishFunctionRealtimeEvent_def by (auto simp: send menu)
  show "readonly (RestorePublished env)" "readonly (revokeSkills env i)"
    unfolding RestorePublished_def revokeSkills_def by (intro readonly_rules; simp)+
qed

subsection \<open>Every handler keeps the invariant\<close>

lemma tryDeliver_keeps [fn_keeps]: "preserves fn_ok (tryDeliverRealtimeEvent env ev)"
proof -
  have send: "readonly (sendRealtime env a b c p)" for a b c p
    unfolding sendRealtime_def by (intro readonly_rules) simp_all
  have ro: "readonly (case publishFunctionRealtimeEvent env ev of None \<Rightarrow> retA (Inr ()) | Some m \<Rightarrow> tryA m)"
    unfolding publishFunctionRealtimeEvent_def by (auto intro: readonly_try send)
  show ?thesis unfolding tryDeliverRealtimeEvent_def ignoreA_def
    by (intro act_keeps fn_keeps keeps_readonly [OF ro] keeps_readonly [OF readonly_basic(4)])
qed

lemma Stage_keeps [fn_keeps]: "preserves fn_ok (Stage env ctx f)"
  unfolding Stage_def stageNext_def Let_def
  by (intro act_keeps fn_keeps) (simp_all add: keeps_readonly)

lemma Publish_keeps [fn_keeps]: "preserves fn_ok (Publish env ctx f)"
  unfolding Publish_def Let_def Release_PublishWithOutbox_def Release_Publish_def
  by (intro act_keeps fn_keeps) (simp_all add: keeps_readonly)

lemma Releases_keep [fn_keeps]:
  "preserves fn_ok (RevokeFunctionReleases env i)" "preserves fn_ok (RevokeOrphanedPublished env)"
  "preserves fn_ok (BackfillLegacyPublished env)" "preserves fn_ok (RecordFunctionUnpublished env f)"
  "preserves fn_ok (DeliverFunctionPublished env i)" "preserves fn_ok (RecordEvent env a b c p)"
  unfolding RevokeFunctionReleases_def RevokeOrphanedPublished_def BackfillLegacyPublished_def
    RecordFunctionUnpublished_def DeliverFunctionPublished_def RecordEvent_def ignoreA_def
  by (intro act_keeps fn_keeps; simp add: keeps_readonly)+

lemma Process_keeps [fn_keeps]:
  "preserves fn_ok (ProcessReady env ctx limit)" "preserves fn_ok (OutboxManagement_Replay env ctx limit)"
proof -
  show p: "preserves fn_ok (ProcessReady env ctx limit)"
    unfolding ProcessReady_def processOne_def ignoreA_def
    by (intro act_keeps fn_keeps) (simp_all add: keeps_readonly)
  show "preserves fn_ok (OutboxManagement_Replay env ctx limit)"
    unfolding OutboxManagement_Replay_def by (intro act_keeps fn_keeps p) (simp_all add: keeps_readonly)
qed

lemma Functions_keep [fn_keeps]:
  "preserves fn_ok (CreateFunction env ctx a b c)" "preserves fn_ok (DeleteFunction env ctx i)"
  "preserves fn_ok (UpdateFunction env ctx uq)" "preserves fn_ok (LoadFunctionDocument env ctx i t q)"
  "preserves fn_ok (CommitFunctionDocument env ctx i t)" "preserves fn_ok (MaterializeFunctionApp env ctx i)"
  "preserves fn_ok (TouchFunctionCodeDraft env ctx i)" "preserves fn_ok (ApplyFunctionCode env ctx i)"
  "preserves fn_ok (EnsureFunctionSession env ctx i t)"
proof -
  have [fn_keeps]: "preserves fn_ok (removeAll dir)" for dir
    unfolding removeAll_def by (rule keeps_stmt) (auto simp: fn_ok_def)
  have [fn_keeps]: "preserves fn_ok (writeFile p c)" for p c
    unfolding writeFile_def
    by (rule keeps_bind, rule keeps_readonly, simp, rule keeps_stmt) (auto simp: fn_ok_def)
  show "preserves fn_ok (CreateFunction env ctx a b c)"
    unfolding CreateFunction_def Let_def ignoreA_def by (intro act_keeps fn_keeps) (simp_all add: keeps_readonly)
  show "preserves fn_ok (DeleteFunction env ctx i)"
    unfolding DeleteFunction_def Let_def ignoreA_def by (intro act_keeps fn_keeps) (simp_all add: keeps_readonly)
  show "preserves fn_ok (UpdateFunction env ctx uq)"
    unfolding UpdateFunction_def writeUpdate_def publishIfNew_def Let_def
    by (intro act_keeps fn_keeps) (simp_all add: keeps_readonly)
  show "preserves fn_ok (LoadFunctionDocument env ctx i t q)"
    unfolding LoadFunctionDocument_def persistFunctionDocumentVersionsIfChanged_def Let_def
    by (intro act_keeps fn_keeps) (simp_all add: keeps_readonly)
  show "preserves fn_ok (CommitFunctionDocument env ctx i t)"
    unfolding CommitFunctionDocument_def commitFunctionDocument_def Let_def
    by (intro act_keeps fn_keeps) (simp_all add: keeps_readonly)
  show "preserves fn_ok (MaterializeFunctionApp env ctx i)"
    unfolding MaterializeFunctionApp_def Let_def by (intro act_keeps fn_keeps) (simp_all add: keeps_readonly)
  show "preserves fn_ok (TouchFunctionCodeDraft env ctx i)"
    unfolding TouchFunctionCodeDraft_def touchCodeDraftVersion_def Let_def
    by (intro act_keeps fn_keeps) (simp_all add: keeps_readonly)
  show "preserves fn_ok (ApplyFunctionCode env ctx i)"
    unfolding ApplyFunctionCode_def Let_def by (intro act_keeps fn_keeps) (simp_all add: keeps_readonly)
  show "preserves fn_ok (EnsureFunctionSession env ctx i t)"
    unfolding EnsureFunctionSession_def Let_def by (intro act_keeps fn_keeps) (simp_all add: keeps_readonly)
qed

subsection \<open>Conversation operations\<close>

definition noActive :: "gostr \<times> gostr \<times> gostr \<times> gostr \<Rightarrow> fndb \<Rightarrow> bool" where
  "noActive scope d \<longleftrightarrow> (\<forall>p \<in> set (fdOps d). scopeOf p = scope \<longrightarrow> \<not> activeState (coState p))"

lemma supersede_none:
  "triple fn_ok (Op_SupersedeActive a b c e now) (\<lambda>_ d. fn_ok d \<and> noActive (a, b, c, e) d) (\<lambda>_. fn_ok)"
proof -
  have none: "triple (\<lambda>_. True) (Op_SupersedeActive a b c e now) (\<lambda>_ d. noActive (a, b, c, e) d) (\<lambda>_ _. True)"
    unfolding Op_SupersedeActive_def
  proof (rule triple_stmt, clarsimp)
    fix d
    let ?b = "\<lambda>p. inScope a b c e p \<and> activeState (coState p)"
    let ?f = "\<lambda>p. p\<lparr>coState := OpSuperseded, coUpdatedAt := now, coFinishedAt := now\<rparr>"
    show "noActive (a, b, c, e) (d\<lparr>fdOps := updateRows ?b ?f (fdOps d)\<rparr>)"
      unfolding noActive_def
    proof (intro ballI impI)
      fix q assume "q \<in> set (fdOps (d\<lparr>fdOps := updateRows ?b ?f (fdOps d)\<rparr>))" and sc: "scopeOf q = (a, b, c, e)"
      then obtain p where q: "q = (if ?b p then ?f p else p)" by (auto simp: set_updateRows_iff)
      show "\<not> activeState (coState q)"
      proof (cases "?b p")
        case True
        then show ?thesis by (simp add: q)
      next
        case False
        then have "q = p" using q by argo
        then show ?thesis using False sc by (auto simp: scopeOf_def inScope_def)
      qed
    qed
  qed simp
  show ?thesis using triple_conj [OF Op_keeps(1) none] by simp
qed

lemma Op_Create_ok:
  "triple (\<lambda>d. fn_ok d \<and> noActive (scopeOf p) d) (Op_Create p) (\<lambda>_. fn_ok) (\<lambda>_. fn_ok)"
  unfolding Op_Create_def
proof (rule triple_stmt)
  fix d x d' assume d: "fn_ok d \<and> noActive (scopeOf p) d" and run: "insertOp p d = Inr (x, d')"
  let ?row = "p\<lparr>coID := Suc (fdSeq d)\<rparr>"
  have new: "coUUID p \<notin> coUUID ` set (fdOps d)"
    and d': "d' = d\<lparr>fdSeq := Suc (fdSeq d), fdOps := fdOps d @ [?row]\<rparr>"
    using run by (auto simp: insertOp_def Let_def split: if_splits)
  have "oneActive (fdOps d @ [?row])" unfolding oneActive_def
    by (rule uniqueAmong_insert) (use d in \<open>auto simp: fn_ok_def oneActive_def noActive_def scopeOf_def\<close>)
  then show "fn_ok d'" using d new unfolding d' by (simp add: fn_ok_def)
qed auto

lemma Op_Get_fact:
  "triple fn_ok (Op_Get i) (\<lambda>p d. fn_ok d \<and> p \<in> set (fdOps d) \<and> coUUID p = i) (\<lambda>_. fn_ok)"
  unfolding Op_Get_def by (rule firstRow_triple) auto

lemma Op_Resume_ok:
  "triple (\<lambda>d. fn_ok d \<and> p \<in> set (fdOps d) \<and> activeState (coState p)) (Op_Resume (coUUID p) now)
     (\<lambda>_. fn_ok) (\<lambda>_. fn_ok)"
  unfolding Op_Resume_def
proof (rule triple_stmt)
  fix d x d'
  assume d: "fn_ok d \<and> p \<in> set (fdOps d) \<and> activeState (coState p)"
    and "Inr ((), d\<lparr>fdOps := updateRows (\<lambda>q. coUUID q = coUUID p)
      (\<lambda>q. q\<lparr>coState := OpRunning, coTerminalStatus := [], coTerminalReason := [], coFinishedAt := 0,
             coUpdatedAt := now\<rparr>) (fdOps d)\<rparr>) = Inr (x, d')"
  moreover have "activeState (coState q)" if "q \<in> set (fdOps d)" "coUUID q = coUUID p" for q
    using d distinct_key_eq [of coUUID "fdOps d" q p] that by (auto simp: fn_ok_def)
  ultimately show "fn_ok d'"
    by (auto simp: fn_ok_def scopeOf_def intro!: fn_row_rules)
qed auto

lemma resume_keeps [fn_keeps]: "preserves fn_ok (resumeOperation i u f sid c now)"
proof -
  have rest: "triple (\<lambda>d. fn_ok d \<and> p \<in> set (fdOps d) \<and> coUUID p = i)
      (bindA (liftA (validateOperationScope p u (fnUUID f) sid c)) (\<lambda>_.
       if \<not> canResumeConversationOperation (coState p) then failA (Err ''conversation operation is not resumable'')
       else bindA (Op_Resume (coUUID p) now) (\<lambda>_. Op_Get (coUUID p)))) (\<lambda>_. fn_ok) (\<lambda>_. fn_ok)" for p
    by (rule triple_bind_readonly)
      (auto intro!: triple_if triple_fail triple_bind [OF triple_pre [OF Op_Resume_ok]] keeps_readonly
        simp: canResumeConversationOperation_def)
  show ?thesis unfolding resumeOperation_def by (rule triple_bind [OF Op_Get_fact rest])
qed

lemma Start_keeps [fn_keeps]: "preserves fn_ok (Start env ctx i c j)"
proof -
  have create: "triple (\<lambda>d. fn_ok d \<and> noActive (fnUUID f, sid, cv, u) d)
      (bindA newUUID (\<lambda>k. Op_Create (newOperation k f sid cv u now))) (\<lambda>_. fn_ok) (\<lambda>_. fn_ok)" for f sid cv u now
    by (rule triple_bind_readonly) (auto intro!: triple_pre [OF Op_Create_ok] simp: newOperation_def scopeOf_def)
  show ?thesis unfolding Start_def Let_def
    by (intro act_keeps fn_keeps triple_bind [OF supersede_none create]) (simp_all add: keeps_readonly)
qed

lemma Ops_keep [fn_keeps]:
  "preserves fn_ok (Finish ctx i a b)" "preserves fn_ok (SubmitProgress ctx pq)"
proof -
  show "preserves fn_ok (Finish ctx i a b)"
    unfolding Finish_def Op_FinishIfActive_def Let_def by (intro act_keeps fn_keeps) (simp_all add: keeps_readonly)
  have draft: "preserves fn_ok (recordDraftOperation p now)" for p now
    unfolding recordDraftOperation_def by (intro act_keeps fn_keeps) (simp_all add: keeps_readonly)
  show "preserves fn_ok (SubmitProgress ctx pq)"
    unfolding SubmitProgress_def Let_def by (intro act_keeps fn_keeps draft) (simp_all add: keeps_readonly)
qed

subsection \<open>Reachable states\<close>

inductive functionCall :: "fenv \<Rightarrow> unit fnact \<Rightarrow> bool" for env where
  fn_query: "readonly m \<Longrightarrow> functionCall env m"
| fn_create: "functionCall env (voidA (CreateFunction env ctx a b c))"
| fn_update: "functionCall env (voidA (UpdateFunction env ctx uq))"
| fn_delete: "functionCall env (voidA (DeleteFunction env ctx i))"
| fn_load_document: "functionCall env (voidA (LoadFunctionDocument env ctx i t q))"
| fn_commit_document: "functionCall env (voidA (CommitFunctionDocument env ctx i t))"
| fn_materialize: "functionCall env (voidA (MaterializeFunctionApp env ctx i))"
| fn_touch_code: "functionCall env (voidA (TouchFunctionCodeDraft env ctx i))"
| fn_apply_code: "functionCall env (voidA (ApplyFunctionCode env ctx i))"
| fn_session: "functionCall env (voidA (EnsureFunctionSession env ctx i t))"
| fn_start: "functionCall env (voidA (Start env ctx i c j))"
| fn_finish: "functionCall env (voidA (Finish ctx i a b))"
| fn_submit: "functionCall env (voidA (SubmitProgress ctx pq))"
| fn_backfill: "functionCall env (BackfillLegacyPublished env)"
| fn_orphans: "functionCall env (RevokeOrphanedPublished env)"
| fn_process: "functionCall env (voidA (ProcessReady env ctx n))"
| fn_replay: "functionCall env (voidA (OutboxManagement_Replay env ctx n))"

text \<open>Beside the calls, the generator writes and removes document files at any time.\<close>

inductive functionStep :: "fenv \<Rightarrow> fndb \<Rightarrow> fndb \<Rightarrow> bool" for env where
  fn_call: "functionCall env m \<Longrightarrow> uuids_ok w \<Longrightarrow> functionStep env (db w) (db (snd (m w)))"
| fn_files: "functionStep env d (d\<lparr>fdFiles := files\<rparr>)"

inductive_cases functionStepE: "functionStep env d d'"

definition functionInit :: "fndb \<Rightarrow> bool" where
  "functionInit d \<longleftrightarrow> fdFunctions d = [] \<and> fdReleases d = [] \<and> fdOutbox d = [] \<and> fdOps d = [] \<and> fdExecs d = []"

lemma functionCall_ok: "functionCall env m \<Longrightarrow> preserves fn_ok m"
  by (induction rule: functionCall.induct) (rule keeps_readonly, assumption, (intro voidA_ok fn_keeps)+)

interpretation fnsys: invariant_system functionInit "functionStep env" fn_ok for env
proof unfold_locales
  fix d assume "functionInit d"
  then show "fn_ok d"
    by (simp add: functionInit_def fn_ok_def freshKeys_def onePublished_def oneActive_def uniqueAmong_def)
next
  fix d d' assume "fn_ok d" and "functionStep env d d'"
  then show "fn_ok d'"
    by (elim functionStepE) (auto dest: preservesD [OF functionCall_ok] simp: fn_ok_def)
qed

end
