(* ===== verification/Func_Claims.thy ===== *)
theory Func_Claims
  imports Func_Service System_Service
begin

text \<open>
  What holds of the function operation service: the invariant of its tables, the atomic
  publication of a release with its event, the outbox, the operations of the conversations, the
  gates on the way from a document to a published page, and what a user without the permission
  to edit gets to see.
\<close>

subsection \<open>Reachable tables\<close>

text \<open>
  C15: in every state that the service can reach, by any sequence of calls with any requests and
  any answers and failures around it, a function has at most one published release, the scope of
  a conversation has at most one active operation, a tool call is recorded at most once, and no
  two functions share an identifier.
\<close>

theorem functions_reachable_ok:
  assumes "reachable functionInit (functionStep env) d"
  shows "(\<forall>r s. r \<in> set (fdReleases d) \<and> s \<in> set (fdReleases d) \<and> relFunctionID r = relFunctionID s \<and>
            relStatus r = ReleasePublished \<and> relStatus s = ReleasePublished \<longrightarrow> r = s) \<and>
         (\<forall>p q. p \<in> set (fdOps d) \<and> q \<in> set (fdOps d) \<and> scopeOf p = scopeOf q \<and>
            activeState (coState p) \<and> activeState (coState q) \<longrightarrow> p = q) \<and>
         distinct (map peToolUseID (fdExecs d)) \<and> distinct (map fnUUID (fdFunctions d))"
proof -
  have ok: "fn_ok d" using fnsys.reach_inv [OF assms] .
  then have uuids: "distinct (map relUUID (fdReleases d))" "distinct (map coUUID (fdOps d))"
    and one: "onePublished (fdReleases d)" "oneActive (fdOps d)" by (simp_all add: fn_ok_def)
  have "r = s" if "r \<in> set (fdReleases d)" "s \<in> set (fdReleases d)" "relFunctionID r = relFunctionID s"
    "relStatus r = ReleasePublished" "relStatus s = ReleasePublished" for r s
    using uniqueAmongD [OF one(1) [unfolded onePublished_def], of r s] that
    by (auto intro: distinct_key_eq [OF uuids(1)])
  moreover have "p = q" if "p \<in> set (fdOps d)" "q \<in> set (fdOps d)" "scopeOf p = scopeOf q"
    "activeState (coState p)" "activeState (coState q)" for p q
    using uniqueAmongD [OF one(2) [unfolded oneActive_def], of p q] that
    by (auto intro: distinct_key_eq [OF uuids(2)])
  ultimately show ?thesis using ok unfolding fn_ok_def by blast
qed

text \<open>A run of the witness: one function created on empty tables.\<close>

definition emptyTables :: fndb where
  "emptyTables = \<lparr>fdSeq = 0, fdFunctions = [], fdReleases = [], fdOutbox = [], fdOps = [], fdExecs = [],
     fdFiles = Map.empty\<rparr>"

definition demoSystem :: sysClient where
  "demoSystem = \<lparr>scAllowed = (\<lambda>ctx u code t. Inr True), scFunctionAllowed = (\<lambda>ctx u f a t. Inr True),
     scSyncMenu = (\<lambda>ctx req t. Inr (Some ''m''))\<rparr>"

definition demoFenv :: fenv where
  "demoFenv = \<lparr>feSystem = Some demoSystem, feMenus = Some demoSystem, feRuntime = None, fePreview = None,
     feRoot = ''/apps'', feMessages = None, feReleases = True, feOutbox = True, feOperations = True, feBus = None,
     feJSON = (\<lambda>p. []), feSkills = None, feAgent = None, feStoredApp = None\<rparr>"

definition demoEditor :: goctx where
  "demoEditor = \<lparr>ctxIncoming = Some [MetadataUserID \<mapsto> [''u'']], ctxOutgoing = None\<rparr>"

lemma demoEditor_user: "RequireUserID demoEditor = Inr ''u''"
proof -
  have "trimSpace ''u'' = ''u''" by (intro trimSpace_visible) (simp_all add: visibleChar_def)
  then show ?thesis by (simp add: RequireUserID_def CurrentUser_def demoEditor_def firstMetadataValue_def)
qed

lemma demoRequire: "Require (feSystem demoFenv) demoEditor code w = (Inr (), nextTick w)"
proof -
  have "trimSpace ''u'' = ''u''" by (intro trimSpace_visible) (simp_all add: visibleChar_def)
  then show ?thesis
    by (simp add: Require_def Allowed_def demoFenv_def demoSystem_def demoEditor_user [unfolded demoFenv_def]
        bindA_def callA_def drawA_def liftA_def retA_def)
qed

definition demoCreated :: fndb where
  "demoCreated = db (snd (voidA (CreateFunction demoFenv demoEditor ''orders'' [] []) (exampleWorld emptyTables)))"

lemma demoCreated_reachable: "reachable functionInit (functionStep demoFenv) demoCreated"
proof -
  have "functionInit emptyTables" by (simp add: functionInit_def emptyTables_def)
  then have "reachable functionInit (functionStep demoFenv) emptyTables" by (rule reachable_init)
  moreover have "functionStep demoFenv (db (exampleWorld emptyTables)) demoCreated"
    unfolding demoCreated_def by (rule fn_call [OF fn_create exampleWorld_uuids])
  ultimately show ?thesis by (simp add: exampleWorld_def reachable_step)
qed

lemma demoCreated_rows: "map fnName (fdFunctions demoCreated) = [''orders'']"
proof -
  have "trimSpace ''orders'' = ''orders''" by (intro trimSpace_visible) (simp_all add: visibleChar_def)
  moreover have "db (snd (bindA (syncDocumentStateFromFiles env f) (\<lambda>f1. retA ()) w)) = db w" for env f w
  proof -
    have "readonly (bindA (syncDocumentStateFromFiles env f) (\<lambda>f1. retA ()))" by (intro readonly_rules) simp_all
    then show ?thesis by (simp add: readonly_def)
  qed
  moreover have "tryA (ensureFunctionWorkspace demoFenv f) w = (Inr (Inr ()), w\<lparr>tick := tick w + 4\<rparr>)" if "quiet w" for f w
    using that by (simp add: ensureFunctionWorkspace_def mkdirAll_def tryA_def bindA_def queryA_quiet retA_def)
  ultimately show ?thesis
    by (simp add: demoCreated_def CreateFunction_def voidA_def Let_def bindA_assoc bindA_def [of "Require _ _ _"]
        demoRequire exampleWorld_def bindA_def [of nowA] nowA_def bindA_def [of newUUID] newUUID_def
        bindA_def [of "stmtA _"] Function_Create_def stmtA_def insertFunction_def newFunction_def emptyTables_def
        fnDefaults_def bindA_def [of "tryA (ensureFunctionWorkspace _ _)"] quiet_def)
qed

theorem functions_reachable_ok_witness:
  "map fnName (fdFunctions demoCreated) = [''orders''] \<and> distinct (map fnUUID (fdFunctions demoCreated)) \<and>
   distinct (map peToolUseID (fdExecs demoCreated))"
  using functions_reachable_ok [OF demoCreated_reachable] demoCreated_rows by blast

subsection \<open>Publication\<close>

definition publishRow :: "gostr \<Rightarrow> gostr \<Rightarrow> int \<Rightarrow> release \<Rightarrow> release" where
  "publishRow functionID releaseID now s =
     (if relUUID s = releaseID then s\<lparr>relStatus := ReleasePublished, relPublishedAt := now, relUpdatedAt := now\<rparr>
      else if relFunctionID s = functionID \<and> relStatus s = ReleasePublished
      then s\<lparr>relStatus := ReleaseRevoked, relUpdatedAt := now\<rparr> else s)"

lemma revoke_then_mark:
  "updateRows (\<lambda>r. relUUID r = i) (\<lambda>r. r\<lparr>relStatus := ReleasePublished, relPublishedAt := now, relUpdatedAt := now\<rparr>)
     (revokeRows f now rs) = map (publishRow f i now) rs"
  by (auto simp: updateRows_def revokeRows_def publishRow_def)

lemma Outbox_Create_db:
  assumes "Outbox_Create e v = (Inr x, v')"
  shows "\<exists>n u. db v' = (db v)\<lparr>fdSeq := n, fdOutbox := fdOutbox (db v) @ [e\<lparr>oeID := n, oeUUID := u,
    oeStatus := (if oeStatus e = [] then ''pending'' else oeStatus e)\<rparr>]\<rparr>"
proof -
  obtain u w1 where "stmtA (insertEvent (e\<lparr>oeUUID := u\<rparr>)) w1 = (Inr x, v')" and "db w1 = db v"
  proof (cases "oeUUID e = []")
    case True
    then show ?thesis using assms that by (auto simp: Outbox_Create_def bindA_Inr_iff newUUID_iff)
  next
    case False
    then have "stmtA (insertEvent (e\<lparr>oeUUID := oeUUID e\<rparr>)) v = (Inr x, v')"
      using assms by (simp add: Outbox_Create_def bindA_Inr_iff)
    then show ?thesis by (rule that) simp
  qed
  then have "db v' = (db v)\<lparr>fdSeq := Suc (fdSeq (db v)), fdOutbox := fdOutbox (db v) @
      [e\<lparr>oeID := Suc (fdSeq (db v)), oeUUID := u,
        oeStatus := (if oeStatus e = [] then ''pending'' else oeStatus e)\<rparr>]\<rparr>"
    by (auto simp: stmtA_Inr_iff insertEvent_def Let_def split: if_splits)
  then show ?thesis by blast
qed

text \<open>
  What the publication of a release leaves behind: exactly this release of its function is
  published, the function points to it, and the event is in the outbox.
\<close>

definition published :: "gostr \<Rightarrow> int \<Rightarrow> outboxEvent option \<Rightarrow> fndb \<Rightarrow> fndb \<Rightarrow> bool" where
  "published i now ev d d' \<longleftrightarrow>
     (\<exists>r. filter (\<lambda>s. relUUID s = i) (fdReleases d) = [r] \<and>
        fdReleases d' = map (publishRow (relFunctionID r) i now) (fdReleases d) \<and>
        fdFunctions d' = activate (relFunctionID r) i now (fdFunctions d) \<and>
        fdOps d' = fdOps d \<and> fdExecs d' = fdExecs d \<and> fdFiles d' = fdFiles d \<and>
        (case ev of
           None \<Rightarrow> fdOutbox d' = fdOutbox d
         | Some e \<Rightarrow> \<exists>n u. fdOutbox d' = fdOutbox d @ [e\<lparr>oeID := n, oeUUID := u,
             oeStatus := (if oeStatus e = [] then ''pending'' else oeStatus e)\<rparr>]))"

lemma length1_filter: "r \<in> set rs \<Longrightarrow> p r \<Longrightarrow> length (filter p rs) = 1 \<Longrightarrow> filter p rs = [r]"
proof -
  assume "r \<in> set rs" "p r" and one: "length (filter p rs) = 1"
  then have r: "r \<in> set (filter p rs)" by simp
  obtain q where "filter p rs = [q]" using one by (auto simp: length_Suc_conv)
  then show ?thesis using r by simp
qed

lemma publish_run:
  "effectA (Release_publish i now ev) (\<lambda>d _ d'. published i now ev d d') (\<lambda>d e d'. d' = d)"
proof (rule effectA_atomic)
  show "atomicA (Release_publish i now ev)" by (simp add: Release_publish_def)
  fix w x w' assume run: "Release_publish i now ev w = (Inr x, w')"
  let ?q = "queryA (\<lambda>d. firstRow relID (\<lambda>r. relUUID r = i) (fdReleases d))"
  let ?act = "\<lambda>r. stmtA (\<lambda>d. Inr ((), d\<lparr>fdFunctions := activate (relFunctionID r) i now (fdFunctions d)\<rparr>))"
  let ?out = "case ev of None \<Rightarrow> retA () | Some ev \<Rightarrow> bindA (Outbox_Create ev) (\<lambda>_. retA ())"
  let ?tail = "\<lambda>r. bindA (stmtA (markPublished i now)) (\<lambda>_. bindA (?act r) (\<lambda>_. ?out))"
  obtain w3 where body: "bindA ?q (\<lambda>r. bindA (Release_RevokeByFunctionID (relFunctionID r) now) (\<lambda>_. ?tail r)) (nextTick w) = (Inr x, w3)"
    and w': "db w' = db w3"
    using run by (auto simp: Release_publish_def transactionA_Inr_iff)
  obtain r w0 where q: "?q (nextTick w) = (Inr r, w0)"
    and k: "bindA (Release_RevokeByFunctionID (relFunctionID r) now) (\<lambda>_. ?tail r) w0 = (Inr x, w3)"
    using body by (rule bindA_InrE)
  have r: "r \<in> set (fdReleases (db w))" "relUUID r = i" and w0: "db w0 = db w"
    using q by (auto simp: queryA_Inr_iff dest: firstRow_Inr)
  obtain u w1 where rev: "Release_RevokeByFunctionID (relFunctionID r) now w0 = (Inr u, w1)" and k1: "?tail r w1 = (Inr x, w3)"
    using k by (rule bindA_InrE)
  have w1: "db w1 = (db w)\<lparr>fdReleases := revokeRows (relFunctionID r) now (fdReleases (db w))\<rparr>"
    using rev by (auto simp: Release_RevokeByFunctionID_def stmtA_Inr_iff w0)
  obtain u' w2 where w2: "stmtA (markPublished i now) w1 = (Inr u', w2)" and w3: "bindA (?act r) (\<lambda>_. ?out) w2 = (Inr x, w3)"
    using k1 by (rule bindA_InrE)
  have "length (filter (\<lambda>s. relUUID s = i) (revokeRows (relFunctionID r) now (fdReleases (db w)))) = 1"
    using w2 by (auto simp: stmtA_Inr_iff markPublished_def w1 split: if_splits)
  moreover have "length (filter (\<lambda>s. relUUID s = i) (revokeRows f now rs)) = length (filter (\<lambda>s. relUUID s = i) rs)" for f rs
    by (induction rs) (simp_all add: revokeRows_def updateRows_def)
  ultimately have only: "filter (\<lambda>s. relUUID s = i) (fdReleases (db w)) = [r]"
    using r by (intro length1_filter) simp_all
  have db2: "db w2 = (db w)\<lparr>fdReleases := map (publishRow (relFunctionID r) i now) (fdReleases (db w))\<rparr>"
    using w2 by (auto simp: stmtA_Inr_iff markPublished_def w1 revoke_then_mark split: if_splits)
  obtain u'' w4 where act: "?act r w2 = (Inr u'', w4)" and rest: "?out w4 = (Inr x, w3)"
    using w3 by (rule bindA_InrE)
  have w4: "db w4 = (db w2)\<lparr>fdFunctions := activate (relFunctionID r) i now (fdFunctions (db w))\<rparr>"
    using act by (auto simp: stmtA_Inr_iff db2)
  show "published i now ev (db w) (db w')"
    unfolding published_def
  proof (intro exI [of _ r] conjI only)
    show "case ev of
           None \<Rightarrow> fdOutbox (db w') = fdOutbox (db w)
         | Some e \<Rightarrow> \<exists>n u. fdOutbox (db w') = fdOutbox (db w) @ [e\<lparr>oeID := n, oeUUID := u,
             oeStatus := (if oeStatus e = [] then ''pending'' else oeStatus e)\<rparr>]"
    proof (cases ev)
      case (Some e)
      then obtain y where "Outbox_Create e w4 = (Inr y, w3)" using rest by (auto simp: bindA_Inr_iff)
      from Outbox_Create_db [OF this] obtain n u where "db w3 = (db w4)\<lparr>fdSeq := n, fdOutbox := fdOutbox (db w4) @
          [e\<lparr>oeID := n, oeUUID := u, oeStatus := (if oeStatus e = [] then ''pending'' else oeStatus e)\<rparr>]\<rparr>" by blast
      then have "fdOutbox (db w') = fdOutbox (db w) @
          [e\<lparr>oeID := n, oeUUID := u, oeStatus := (if oeStatus e = [] then ''pending'' else oeStatus e)\<rparr>]"
        by (simp add: w' w4 db2)
      then show ?thesis unfolding Some option.case by blast
    qed (use rest in \<open>simp add: w' w4 db2\<close>)
  qed (cases ev; use rest in \<open>auto simp: w' w4 db2 bindA_Inr_iff dest!: Outbox_Create_db\<close>)+
qed

text \<open>
  C16: publishing a release either fails and changes nothing, or marks exactly this release as
  published, revokes every other published release of its function, points the function to it
  and appends its event to the outbox, all in one step.
\<close>

theorem Release_publish_effect:
  "effectA (Release_publish i now ev) (\<lambda>d _ d'. published i now ev d d') (\<lambda>d e d'. d' = d)"
  by (rule publish_run)

subsection \<open>Permissions\<close>

definition permitted :: "sysClient option \<Rightarrow> goctx \<Rightarrow> gostr \<Rightarrow> bool" where
  "permitted client ctx code \<longleftrightarrow> (\<exists>sys u t. client = Some sys \<and> RequireUserID ctx = Inr u \<and>
     scAllowed sys (ForwardUserContext ctx) u (trimSpace code) t = Inr True)"

lemma Allowed_permitted: "Allowed client ctx code w = (Inr True, w') \<Longrightarrow> permitted client ctx code"
  by (auto simp: Allowed_def permitted_def callA_iff split: option.splits sum.splits if_splits)

lemma Require_permitted: "Require client ctx code w = (Inr x, w') \<Longrightarrow> permitted client ctx code \<and> db w' = db w"
  by (auto simp: Require_def act_Inr dest: Allowed_permitted readonlyD [OF readonly_access(1)] split: if_splits)

text \<open>The columns that the documents do not touch.\<close>

lemma withDocuments_fields [simp]:
  "fnID (withDocuments a b c e f) = fnID f" "fnUUID (withDocuments a b c e f) = fnUUID f"
  "fnStatus (withDocuments a b c e f) = fnStatus f" "fnGeneratedAppID (withDocuments a b c e f) = fnGeneratedAppID f"
  "fnActiveReleaseID (withDocuments a b c e f) = fnActiveReleaseID f"
  "fnMenuParentID (withDocuments a b c e f) = fnMenuParentID f" "fnCodeVersion (withDocuments a b c e f) = fnCodeVersion f"
  "fnFunctionVersion (withDocuments a b c e f) = fnFunctionVersion f"
  by (simp_all add: withDocuments_def Let_def)

lemma sync_fields:
  assumes "syncDocumentStateFromFiles env f w = (Inr f', w')"
  shows "db w' = db w \<and> fnID f' = fnID f \<and> fnUUID f' = fnUUID f \<and> fnStatus f' = fnStatus f \<and>
    fnGeneratedAppID f' = fnGeneratedAppID f \<and> fnActiveReleaseID f' = fnActiveReleaseID f \<and>
    fnMenuParentID f' = fnMenuParentID f \<and> fnCodeVersion f' = fnCodeVersion f \<and>
    fnFunctionVersion f' = fnFunctionVersion f"
proof -
  have db: "db w' = db w" using assms by (rule readonlyD [OF readonly_docs(7)])
  obtain r w1 where "(case r of Inl (_ :: err) \<Rightarrow> retA f | Inr (_ :: unit) \<Rightarrow> documentState env f) w1 = (Inr f', w')"
    using assms unfolding syncDocumentStateFromFiles_def by (rule bindA_InrE)
  then show ?thesis using db
    by (cases r) (auto simp: documentState_def withStale_def elim!: bindA_InrE)
qed

lemma legacy_fields [simp]:
  "fnID (legacyProduct f) = fnID f" "fnUUID (legacyProduct f) = fnUUID f" "fnStatus (legacyProduct f) = fnStatus f"
  "fnGeneratedAppID (legacyProduct f) = fnGeneratedAppID f"
  "fnID (legacyTechnical f) = fnID f" "fnUUID (legacyTechnical f) = fnUUID f" "fnStatus (legacyTechnical f) = fnStatus f"
  "fnGeneratedAppID (legacyTechnical f) = fnGeneratedAppID f"
  "fnID (legacyCode f) = fnID f" "fnUUID (legacyCode f) = fnUUID f" "fnStatus (legacyCode f) = fnStatus f"
  "fnGeneratedAppID (legacyCode f) = fnGeneratedAppID f"
  "fnID (legacyCodeDraft f) = fnID f" "fnUUID (legacyCodeDraft f) = fnUUID f" "fnStatus (legacyCodeDraft f) = fnStatus f"
  "fnGeneratedAppID (legacyCodeDraft f) = fnGeneratedAppID f"
  by (simp_all add: legacy_defs Let_def)

lemma normalize_fields [simp]:
  "fnID (normalizeLegacyFunctionVersions f) = fnID f" "fnUUID (normalizeLegacyFunctionVersions f) = fnUUID f"
  "fnStatus (normalizeLegacyFunctionVersions f) = fnStatus f"
  "fnGeneratedAppID (normalizeLegacyFunctionVersions f) = fnGeneratedAppID f"
  by (simp_all add: normalizeLegacyFunctionVersions_def)

definition redacted :: "functionProto \<Rightarrow> bool" where
  "redacted p \<longleftrightarrow> fnStatus (fpRow p) = FunctionStatusPublished \<and> fnProductDoc (fpRow p) = [] \<and>
     fnTechnicalDoc (fpRow p) = [] \<and> fnProductSessionID (fpRow p) = [] \<and> fnTechnicalSessionID (fpRow p) = [] \<and>
     fnGenerationSessionID (fpRow p) = [] \<and> fpProductDocPath p = [] \<and> fpTechnicalDocPath p = [] \<and>
     fpProductDraftDocPath p = [] \<and> fpTechnicalDraftDocPath p = [] \<and> fpAppDir p = []"

text \<open>
  C17: a caller without the permission to edit gets only published functions from the list, and
  of those no document text, no path and no session of the agent; the tables stay as they are.
\<close>

theorem ListFunctions_redacted:
  "case ListFunctions env ctx w of
     (Inl _, w') \<Rightarrow> db w' = db w
   | (Inr items, w') \<Rightarrow> db w' = db w \<and>
       (permitted (feSystem env) ctx functionPermissionEdit \<or> list_all redacted items)"
proof -
  have ro: "readonly (ListFunctions env ctx)"
    unfolding ListFunctions_def listItem_def Let_def by (intro readonly_rules) simp_all
  have item: "redacted p" if "listItem env False f v = (Inr p, v')" "fnStatus f = FunctionStatusPublished" for f v p v'
    using that by (auto simp: listItem_def redacted_def redactFunctionEditorState_def modelFunctionToProto_def
        bindA_Inr_iff dest!: sync_fields)
  show ?thesis
  proof (cases "ListFunctions env ctx w")
    case (Pair r w')
    show ?thesis
    proof (cases r)
      case (Inl e)
      then show ?thesis using Pair readonlyD [OF ro Pair] by simp
    next
      case (Inr items)
      obtain fs w1 where "bindA (Allowed (feSystem env) ctx functionPermissionEdit) (\<lambda>isEditor.
          mapA (listItem env isEditor) (filter (\<lambda>f. isEditor \<or> fnStatus f = FunctionStatusPublished) fs)) w1 = (Inr items, w')"
        using Pair [unfolded Inr ListFunctions_def] by (rule bindA_InrE)
      then obtain isEditor w2 where q: "Allowed (feSystem env) ctx functionPermissionEdit w1 = (Inr isEditor, w2)"
        "mapA (listItem env isEditor) (filter (\<lambda>f. isEditor \<or> fnStatus f = FunctionStatusPublished) fs) w2 = (Inr items, w')"
        by (rule bindA_InrE)
      have "permitted (feSystem env) ctx functionPermissionEdit \<or> list_all redacted items"
      proof (cases isEditor)
        case True
        then show ?thesis using q(1) by (auto dest: Allowed_permitted)
      next
        case False
        have "list_all redacted items"
        proof (rule mapA_list_all [OF q(2)])
          fix f v p v'
          assume "f \<in> set (filter (\<lambda>f. isEditor \<or> fnStatus f = FunctionStatusPublished) fs)"
            and "listItem env isEditor f v = (Inr p, v')"
          then show "redacted p" using item [of f v p v'] False by simp
        qed
        then show ?thesis by (rule disjI2)
      qed
      then show ?thesis using Pair Inr readonlyD [OF ro Pair] by simp
    qed
  qed
qed

end
