(* ===== verification/Action_Runs.thy ===== *)
theory Action_Runs
  imports Service_World
begin

text \<open>
  A run of an action from given tables: every outcome, answer or error, stands in a relation to
  the tables that it leaves behind.  The rules follow the action statement by statement and keep
  what the statements before have established.
\<close>

definition runsA :: "'d \<Rightarrow> ('d, 'a) act \<Rightarrow> (err + 'a \<Rightarrow> 'd \<Rightarrow> bool) \<Rightarrow> bool" where
  "runsA d m S \<longleftrightarrow> (\<forall>w r w'. db w = d \<longrightarrow> m w = (r, w') \<longrightarrow> S r (db w'))"

lemma runsAD: "runsA (db w) m S \<Longrightarrow> m w = (r, w') \<Longrightarrow> S r (db w')"
  unfolding runsA_def by blast

lemma runsAI: "(\<And>w r w'. db w = d \<Longrightarrow> m w = (r, w') \<Longrightarrow> S r (db w')) \<Longrightarrow> runsA d m S"
  unfolding runsA_def by blast

lemma effectA_Inl: "effectA m R E \<Longrightarrow> m w = (Inl e, w') \<Longrightarrow> E (db w) e (db w')"
  unfolding effectA_def by (drule spec [of _ w]) simp

lemma effectA_runs:
  assumes "\<And>d. runsA d m (\<lambda>r d'. case r of Inl e \<Rightarrow> E d e d' | Inr x \<Rightarrow> R d x d')"
  shows "effectA m R E"
proof (rule effectA_I)
  fix w x w' assume "m w = (Inr x, w')"
  from runsAD [OF assms this] show "R (db w) x (db w')" by simp
next
  fix w e w' assume "m w = (Inl e, w')"
  from runsAD [OF assms this] show "E (db w) e (db w')" by simp
qed

lemma runs_effect:
  "effectA m R E \<Longrightarrow> (\<And>x d'. R d x d' \<Longrightarrow> S (Inr x) d') \<Longrightarrow> (\<And>e d'. E d e d' \<Longrightarrow> S (Inl e) d') \<Longrightarrow> runsA d m S"
proof (rule runsAI)
  fix w r w' assume eff: "effectA m R E" and S: "\<And>x d'. R d x d' \<Longrightarrow> S (Inr x) d'" "\<And>e d'. E d e d' \<Longrightarrow> S (Inl e) d'"
    and d: "db w = d" and run: "m w = (r, w')"
  show "S r (db w')"
  proof (cases r)
    case (Inl e)
    then show ?thesis using effectA_Inl [OF eff] run d S(2) by blast
  next
    case (Inr x)
    then show ?thesis using effectA_Inr [OF eff] run d S(1) by blast
  qed
qed

lemma runs_weaken: "runsA d m S \<Longrightarrow> (\<And>r d'. S r d' \<Longrightarrow> T r d') \<Longrightarrow> runsA d m T"
  unfolding runsA_def by blast

lemma runs_end:
  "S (Inr x) d \<Longrightarrow> runsA d (retA x) S" "S (Inl e) d \<Longrightarrow> runsA d (failA e) S" "S r d \<Longrightarrow> runsA d (liftA r) S"
  by (simp_all add: runsA_def)

lemma runs_readonly: "readonly m \<Longrightarrow> (\<And>r. S r d) \<Longrightarrow> runsA d m S"
  by (intro runsAI) (simp add: readonlyD)

text \<open>Behind a statement that only reads, and behind one that writes.\<close>

lemma runs_read:
  assumes "readonly m" and "\<And>e. S (Inl e) d"
    and "\<And>x w v. db w = d \<Longrightarrow> m w = (Inr x, v) \<Longrightarrow> runsA d (k x) S"
  shows "runsA d (bindA m k) S"
proof (rule runsAI)
  fix w r w' assume d: "db w = d" and run: "bindA m k w = (r, w')"
  show "S r (db w')"
  proof (cases "m w")
    case (Pair q v)
    then have v: "db v = d" using readonlyD [OF assms(1)] d by simp
    show ?thesis
    proof (cases q)
      case (Inl e)
      then show ?thesis using run Pair v assms(2) by (auto simp: bindA_def)
    next
      case (Inr x)
      have "runsA (db v) (k x) S" using assms(3) [OF d] Pair Inr v by simp
      then show ?thesis using run Pair Inr by (auto simp: bindA_def dest: runsAD)
    qed
  qed
qed

lemma runs_seq:
  "runsA d m (\<lambda>r d'. case r of Inl e \<Rightarrow> S (Inl e) d' | Inr x \<Rightarrow> runsA d' (k x) S) \<Longrightarrow> runsA d (bindA m k) S"
  unfolding runsA_def bindA_def by (fastforce split: prod.splits sum.splits)

lemma runs_handle:
  "runsA d m (\<lambda>r d'. case r of Inl e \<Rightarrow> runsA d' (h e) S | Inr x \<Rightarrow> S (Inr x) d') \<Longrightarrow> runsA d (handleA m h) S"
  unfolding runsA_def handleA_def by (fastforce split: prod.splits sum.splits)

lemma runs_write:
  assumes "effectA m R E" and "\<And>e d'. E d e d' \<Longrightarrow> S (Inl e) d'" and "\<And>x d'. R d x d' \<Longrightarrow> runsA d' (k x) S"
  shows "runsA d (bindA m k) S"
  by (rule runs_seq, rule runs_effect [OF assms(1)]) (simp_all add: assms(2,3))

lemma effect_wrap:
  "effectA m R E \<Longrightarrow> (\<And>d e d'. E d e d' \<Longrightarrow> E' d (f e) d') \<Longrightarrow> effectA (wrapErrA f m) R E'"
  unfolding wrapErrA_def by (rule effectA_runs, rule runs_handle, erule runs_effect) (simp_all add: runsA_def)

text \<open>Actions that never fail.\<close>

lemma neverFails_try: "neverFails (tryA m)"
  by (auto simp: neverFails_def tryA_def split: prod.splits)

lemma neverFails_bind: "neverFails m \<Longrightarrow> (\<And>x. neverFails (k x)) \<Longrightarrow> neverFails (bindA m k)"
  unfolding neverFails_def bindA_def by (simp split: prod.splits sum.splits) (metis fst_conv sum.distinct(1))

lemma neverFails_split:
  "neverFails m \<Longrightarrow> neverFails n \<Longrightarrow> neverFails (if c then m else n)"
  "(\<And>e. neverFails (h e)) \<Longrightarrow> (\<And>x. neverFails (l x)) \<Longrightarrow> neverFails (case r of Inl e \<Rightarrow> h e | Inr x \<Rightarrow> l x)"
  by (auto split: sum.splits)

lemmas neverFails_rules = neverFails_try neverFails_bind neverFails_split

lemma runs_total:
  assumes "readonly m" and "neverFails m" and "\<And>x. runsA d (k x) S"
  shows "runsA d (bindA m k) S"
proof (rule runsAI)
  fix w r w' assume d: "db w = d" and run: "bindA m k w = (r, w')"
  obtain x v where m: "m w = (Inr x, v)" using assms(2) unfolding neverFails_def by (metis prod.collapse)
  then have "db v = d" using readonlyD [OF assms(1)] d by simp
  then show "S r (db w')" using run m assms(3) by (auto simp: bindA_def dest: runsAD)
qed

lemma runs_if: "(c \<Longrightarrow> runsA d m S) \<Longrightarrow> (\<not> c \<Longrightarrow> runsA d n S) \<Longrightarrow> runsA d (if c then m else n) S"
  by simp

lemma runs_cases:
  "(\<And>e. r = Inl e \<Longrightarrow> runsA d (h e) S) \<Longrightarrow> (\<And>x. r = Inr x \<Longrightarrow> runsA d (k x) S) \<Longrightarrow>
     runsA d (case r of Inl e \<Rightarrow> h e | Inr x \<Rightarrow> k x) S"
  "(q = None \<Longrightarrow> runsA d n S) \<Longrightarrow> (\<And>x. q = Some x \<Longrightarrow> runsA d (s x) S) \<Longrightarrow>
     runsA d (case q of None \<Rightarrow> n | Some x \<Rightarrow> s x) S"
  "(\<And>x y. p = (x, y) \<Longrightarrow> runsA d (t x y) S) \<Longrightarrow> runsA d (case p of (x, y) \<Rightarrow> t x y) S"
  by (cases r; cases q; cases p; simp)+

lemmas runs_rules = runs_cases runs_if runs_end


subsection \<open>Frames\<close>

text \<open>
  \<open>leavesA F m\<close>: whatever the outcome of the action, the tables before and after it
  stand in the relation \<open>F\<close>.  When \<open>F\<close> is a preorder, such as ``only the outbox
  changed'', it follows from the statements of the action.
\<close>

definition leavesA :: "('d \<Rightarrow> 'd \<Rightarrow> bool) \<Rightarrow> ('d, 'a) act \<Rightarrow> bool" where
  "leavesA F m \<longleftrightarrow> (\<forall>w. F (db w) (db (snd (m w))))"

lemma leavesAD: "leavesA F m \<Longrightarrow> m w = (r, w') \<Longrightarrow> F (db w) (db w')"
  unfolding leavesA_def by (drule spec [of _ w]) simp

lemma runs_leaves: "leavesA F m \<Longrightarrow> (\<And>r d'. F d d' \<Longrightarrow> S r d') \<Longrightarrow> runsA d m S"
  by (rule runsAI) (use leavesAD in blast)

lemma effect_leaves:
  assumes "effectA m R E" and "leavesA F m"
  shows "effectA m (\<lambda>d x d'. R d x d' \<and> F d d') (\<lambda>d e d'. E d e d' \<and> F d d')"
proof (rule effectA_I)
  fix w x w' assume "m w = (Inr x, w')"
  then show "R (db w) x (db w') \<and> F (db w) (db w')" using effectA_Inr [OF assms(1)] leavesAD [OF assms(2)] by blast
next
  fix w e w' assume "m w = (Inl e, w')"
  then show "E (db w) e (db w') \<and> F (db w) (db w')" using effectA_Inl [OF assms(1)] leavesAD [OF assms(2)] by blast
qed

lemma runs_stable:
  assumes "leavesA F m" and "P d" and "\<And>d'. P d \<Longrightarrow> F d d' \<Longrightarrow> P d'"
    and "\<And>e d'. P d' \<Longrightarrow> S (Inl e) d'" and "\<And>x d'. P d' \<Longrightarrow> runsA d' (k x) S"
  shows "runsA d (bindA m k) S"
  by (rule runs_seq, rule runs_leaves [OF assms(1)]) (use assms in \<open>auto split: sum.splits\<close>)

lemma leaves_split:
  "leavesA F m \<Longrightarrow> leavesA F n \<Longrightarrow> leavesA F (if c then m else n)"
  "(\<And>e. leavesA F (h e)) \<Longrightarrow> (\<And>x. leavesA F (k x)) \<Longrightarrow> leavesA F (case r of Inl e \<Rightarrow> h e | Inr x \<Rightarrow> k x)"
  "leavesA F n \<Longrightarrow> (\<And>x. leavesA F (s x)) \<Longrightarrow> leavesA F (case q of None \<Rightarrow> n | Some x \<Rightarrow> s x)"
  "(\<And>x y. leavesA F (t x y)) \<Longrightarrow> leavesA F (case p of (x, y) \<Rightarrow> t x y)"
  by (auto split: sum.splits option.splits prod.splits)

lemma leaves_runs: "(\<And>d. runsA d m (\<lambda>_ d'. F d d')) \<Longrightarrow> leavesA F m"
  unfolding leavesA_def runsA_def by (metis prod.collapse)

lemma leaves_effect:
  "effectA m R E \<Longrightarrow> (\<And>d x d'. R d x d' \<Longrightarrow> F d d') \<Longrightarrow> (\<And>d e d'. E d e d' \<Longrightarrow> F d d') \<Longrightarrow> leavesA F m"
  by (rule leaves_runs, erule runs_effect)

locale frame_relation =
  fixes F :: "'d \<Rightarrow> 'd \<Rightarrow> bool"
  assumes same: "F d d"
    and trans: "F a b \<Longrightarrow> F b c \<Longrightarrow> F a c"
begin

lemma leaves_readonly: "readonly m \<Longrightarrow> leavesA F m"
  unfolding leavesA_def by (metis prod.collapse readonlyD same)

lemma leaves_stmt:
  assumes "\<And>d x d'. f d = Inr (x, d') \<Longrightarrow> F d d'"
  shows "leavesA F (stmtA f)"
  unfolding leavesA_def stmtA_def using assms same by (auto split: option.splits sum.splits prod.splits)

lemma leaves_bind:
  assumes "leavesA F m" and "\<And>x. leavesA F (k x)"
  shows "leavesA F (bindA m k)"
  unfolding leavesA_def
proof (rule allI)
  fix w
  show "F (db w) (db (snd (bindA m k w)))"
  proof (cases "m w")
    case (Pair r v)
    have step: "F (db w) (db v)" using assms(1) Pair by (rule leavesAD)
    show ?thesis
    proof (cases r)
      case (Inr x)
      have "F (db v) (db (snd (k x v)))" using assms(2) unfolding leavesA_def by blast
      then show ?thesis using Pair Inr trans [OF step] by (simp add: bindA_def)
    qed (use Pair step in \<open>simp add: bindA_def\<close>)
  qed
qed

lemma leaves_try: "leavesA F m \<Longrightarrow> leavesA F (tryA m)"
  unfolding leavesA_def tryA_def by (simp split: prod.splits) (metis snd_conv)

lemma leaves_handle:
  assumes "leavesA F m" and "\<And>e. leavesA F (h e)"
  shows "leavesA F (handleA m h)"
proof -
  have "handleA m h = bindA (tryA m) (\<lambda>r. case r of Inl e \<Rightarrow> h e | Inr x \<Rightarrow> retA x)"
    by (auto simp: handleA_def bindA_def tryA_def retA_def fun_eq_iff split: prod.splits sum.splits)
  moreover have "leavesA F (case r of Inl e \<Rightarrow> h e | Inr x \<Rightarrow> retA x)" for r
    by (intro leaves_split assms(2)) (simp add: leaves_readonly)
  ultimately show ?thesis using leaves_bind [OF leaves_try [OF assms(1)]] by metis
qed

lemma leaves_wrap: "leavesA F m \<Longrightarrow> leavesA F (wrapErrA f m)"
  unfolding wrapErrA_def by (intro leaves_handle) (simp_all add: leaves_readonly)

lemma leaves_transaction: "leavesA F m \<Longrightarrow> leavesA F (transactionA m)"
  unfolding leavesA_def
proof (rule allI)
  fix w assume all: "\<forall>w. F (db w) (db (snd (m w)))"
  have "F (db w) (db (snd (m (nextTick w))))" using all [rule_format, of "nextTick w"] by simp
  then show "F (db w) (db (snd (transactionA m w)))"
    using same by (auto simp: transactionA_def split: option.splits prod.splits sum.splits)
qed

lemma leaves_for: "(\<And>x. leavesA F (f x)) \<Longrightarrow> leavesA F (forA xs f)"
  by (induction xs) (simp_all add: leaves_bind leaves_readonly)

lemmas leaves_rules = leaves_bind leaves_try leaves_handle leaves_wrap leaves_transaction leaves_for leaves_split

end

end
