(* ===== verification/Func_Delivery.thy ===== *)
theory Func_Delivery
  imports Func_Claims Action_Runs
begin

text \<open>
  Delivery and completion happen once: two processors never hold a claim on the same event at
  the same time, and a tool call completes its operation once, however often it is repeated.
\<close>

subsection \<open>Claims on outbox events\<close>

lemma claimOne_Inr:
  "claimOne now ev w = (Inr won, w') \<Longrightarrow>
   (won \<longleftrightarrow> (\<exists>row \<in> set (fdOutbox (db w)). oeID row = oeID ev \<and> claimable now row)) \<and>
   db w' = (db w)\<lparr>fdOutbox := updateRows (\<lambda>row. oeID row = oeID ev \<and> claimable now row)
     (\<lambda>row. row\<lparr>oeStatus := ''processing'', oeAttempts := oeAttempts ev + 1, oeUpdatedAt := now\<rparr>) (fdOutbox (db w))\<rparr>"
  by (auto simp: claimOne_def stmtA_Inr_iff)

text \<open>No row of the event can be claimed at that time.\<close>

definition held :: "nat \<Rightarrow> int \<Rightarrow> fndb \<Rightarrow> bool" where
  "held i later d \<longleftrightarrow> (\<forall>row \<in> set (fdOutbox d). oeID row = i \<longrightarrow> \<not> claimable later row)"

lemma claim_held:
  assumes ok: "fn_ok (db w)" and claim: "claimOne now ev w = (Inr True, w1)" and soon: "later < now + claimTimeout"
  shows "held (oeID ev) later (db w1)"
  unfolding held_def
proof (intro ballI impI)
  fix row assume "row \<in> set (fdOutbox (db w1))" and i: "oeID row = oeID ev"
  then obtain r where r: "r \<in> set (fdOutbox (db w))"
    and row: "row = (if oeID r = oeID ev \<and> claimable now r
      then r\<lparr>oeStatus := ''processing'', oeAttempts := oeAttempts ev + 1, oeUpdatedAt := now\<rparr> else r)"
    using claimOne_Inr [OF claim] by (auto simp: set_updateRows_iff)
  obtain q where q: "q \<in> set (fdOutbox (db w))" "oeID q = oeID ev" "claimable now q"
    using claimOne_Inr [OF claim] by blast
  have "oeID r = oeID ev" using i row by (auto split: if_splits)
  then have "r = q" using ok q r distinct_key_eq [of oeID "fdOutbox (db w)" r q] by (simp add: fn_ok_def freshKeys_def)
  then have "row = r\<lparr>oeStatus := ''processing'', oeAttempts := oeAttempts ev + 1, oeUpdatedAt := now\<rparr>"
    using q row by simp
  then show "\<not> claimable later row" using soon by (simp add: claimable_def)
qed

lemma held_claimOne:
  assumes "held i later (db w)" and "claimOne later ev w = (Inr won, w1)"
  shows "held i later (db w1) \<and> (won \<longrightarrow> oeID ev \<noteq> i)"
proof -
  note c = claimOne_Inr [OF assms(2)]
  have "\<not> claimable later row" if "row \<in> set (fdOutbox (db w1))" "oeID row = i" for row
  proof -
    have "row \<in> set (updateRows (\<lambda>row. oeID row = oeID ev \<and> claimable later row)
        (\<lambda>row. row\<lparr>oeStatus := ''processing'', oeAttempts := oeAttempts ev + 1, oeUpdatedAt := later\<rparr>) (fdOutbox (db w)))"
      using c that(1) by simp
    then obtain r where r: "r \<in> set (fdOutbox (db w))"
      and row: "row = (if oeID r = oeID ev \<and> claimable later r
        then r\<lparr>oeStatus := ''processing'', oeAttempts := oeAttempts ev + 1, oeUpdatedAt := later\<rparr> else r)"
      unfolding set_updateRows_iff by blast
    then have "oeID r = i" using that(2) by (auto split: if_splits)
    then have "\<not> claimable later r" using assms(1) r by (simp add: held_def)
    then show ?thesis using row by simp
  qed
  then show ?thesis using c assms(1) by (auto simp: held_def)
qed

lemma held_claimAll:
  "held i later (db w) \<Longrightarrow> claimAll later evs w = (Inr taken, w1) \<Longrightarrow> i \<notin> oeID ` set taken"
proof (induction evs arbitrary: w taken w1)
  case Nil
  then show ?case by simp
next
  case (Cons ev evs)
  obtain won v where one: "claimOne later ev w = (Inr won, v)"
    and rest: "bindA (claimAll later evs) (\<lambda>rest.
      retA (if won then ev\<lparr>oeAttempts := oeAttempts ev + 1, oeStatus := ''processing''\<rparr> # rest else rest)) v = (Inr taken, w1)"
    using Cons.prems(2) unfolding claimAll.simps by (rule bindA_InrE)
  obtain others v' where others: "claimAll later evs v = (Inr others, v')"
    and taken: "taken = (if won then ev\<lparr>oeAttempts := oeAttempts ev + 1, oeStatus := ''processing''\<rparr> # others else others)"
    using rest by (auto simp: bindA_Inr_iff)
  have "held i later (db v)" and "won \<longrightarrow> oeID ev \<noteq> i" using held_claimOne [OF Cons.prems(1) one] by auto
  moreover have "i \<notin> oeID ` set others" using Cons.IH [OF calculation(1) others] .
  ultimately show ?case by (auto simp: taken)
qed

text \<open>
  C23: when one processor has claimed an event, no other processor claims it within the claim
  timeout, even when the other has selected the event before the claim: whatever selection
  it works off, the event is not among those that it takes.
\<close>

theorem outbox_claim_once:
  assumes "fn_ok (db w)" and "claimOne now ev w = (Inr True, w1)" and "later < now + claimTimeout"
    and "claimAll later selection w1 = (Inr taken, w2)"
  shows "oeID ev \<notin> oeID ` set taken"
  using held_claimAll [OF claim_held [OF assms(1-3)] assms(4)] .

text \<open>The witness: one pending event that both processors have selected.\<close>

definition demoOutboxEvent :: outboxEvent where
  "demoOutboxEvent = (newOutboxEvent ''f'' ''r'' FunctionUnpublishedEventType (PayUnpublished ''f'' ''orders'' 0) 0)
     \<lparr>oeID := 1, oeUUID := ''e''\<rparr>"

definition demoOutbox :: "fndb world" where
  "demoOutbox = exampleWorld (emptyTables\<lparr>fdSeq := 1, fdOutbox := [demoOutboxEvent]\<rparr>)"

definition demoClaimed :: "fndb world" where
  "demoClaimed = snd (claimOne 5 demoOutboxEvent demoOutbox)"

theorem outbox_claim_once_witness:
  "fst (claimOne 5 demoOutboxEvent demoOutbox) = Inr True \<and>
   fst (claimAll 7 [demoOutboxEvent] demoClaimed) = Inr [] \<and>
   oeID demoOutboxEvent \<notin> oeID ` set ([] :: outboxEvent list)"
proof -
  have ev: "oeID demoOutboxEvent = 1" "oeStatus demoOutboxEvent = ''pending''" "oeUUID demoOutboxEvent = ''e''"
    by (simp_all add: demoOutboxEvent_def newOutboxEvent_def)
  have one: "claimOne 5 demoOutboxEvent demoOutbox = (Inr True, demoClaimed)"
    by (simp add: demoClaimed_def claimOne_def stmtA_def demoOutbox_def exampleWorld_def emptyTables_def claimable_def ev)
  have all: "\<exists>w2. claimAll 7 [demoOutboxEvent] demoClaimed = (Inr [], w2)"
    by (simp add: demoClaimed_def claimOne_def stmtA_def demoOutbox_def exampleWorld_def emptyTables_def claimable_def ev
        bindA_def retA_def updateRows_def claimTimeout_def)
  have "fn_ok (db demoOutbox)"
    by (simp add: fn_ok_def demoOutbox_def exampleWorld_def emptyTables_def freshKeys_def ev onePublished_def
        oneActive_def uniqueAmong_def)
  then show ?thesis using outbox_claim_once [OF _ one, of 7 "[demoOutboxEvent]" "[]"] one all
    by (auto simp: claimTimeout_def)
qed

subsection \<open>Completion of operations\<close>

text \<open>
  What a submission leaves behind for a tool call: nothing new when the call was recorded
  before, otherwise its record and the completed operation.
\<close>

definition submission :: "gostr \<Rightarrow> fndb \<Rightarrow> bool \<Rightarrow> fndb \<Rightarrow> bool" where
  "submission toolUseID d already d' \<longleftrightarrow>
     fdReleases d' = fdReleases d \<and> fdOutbox d' = fdOutbox d \<and> fdFiles d' = fdFiles d \<and>
     (if toolUseID \<in> peToolUseID ` set (fdExecs d)
      then already \<and> fdOps d' = fdOps d \<and> fdExecs d' = fdExecs d
      else \<not> already \<and> (\<exists>x. peToolUseID x = toolUseID \<and> fdExecs d' = fdExecs d @ [x] \<and>
             fdOps d' = updateRows (\<lambda>p. coUUID p = peOperationID x) (completedBy x) (fdOps d)))"

lemma firstRow_tool:
  "firstRow peID (\<lambda>x. peToolUseID x = t) rows = Inr y \<Longrightarrow> t \<in> peToolUseID ` set rows"
  "firstRow peID (\<lambda>x. peToolUseID x = t) rows = Inl e \<Longrightarrow> t \<notin> peToolUseID ` set rows"
  by (auto simp: firstRow_Inl dest: firstRow_Inr)

lemma Exec_record_Inr:
  assumes run: "Exec_record x i w = (Inr r, w')" and i: "peOperationID x = i"
  shows "submission (peToolUseID x) (db w) (isl r) (db w') \<and> fdFunctions (db w') = fdFunctions (db w) \<and>
    (isl r \<longrightarrow> db w' = db w)"
proof -
  let ?look = "Exec_GetByToolUseID (peToolUseID x)"
  let ?new = "bindA (stmtA (insertExec x)) (\<lambda>_.
    bindA (stmtA (\<lambda>d. Inr ((), d\<lparr>fdOps := updateRows (\<lambda>p. coUUID p = i) (completedBy x) (fdOps d)\<rparr>))) (\<lambda>_.
    bindA (Op_Get i) (\<lambda>p. retA (Inr p))))"
  let ?cont = "\<lambda>found. case found of Inr existing \<Rightarrow> retA (Inl existing)
    | Inl e \<Rightarrow> if e \<noteq> RecordNotFound then failA e else ?new"
  obtain w2 where body: "bindA (tryA ?look) ?cont (nextTick w) = (Inr r, w2)" and w': "db w' = db w2"
    using run unfolding Exec_record_def by (auto simp: transactionA_Inr_iff)
  obtain found v where look: "tryA ?look (nextTick w) = (Inr found, v)" and cont: "?cont found v = (Inr r, w2)"
    using body by (rule bindA_InrE)
  have look': "?look (nextTick w) = (found, v)" using look by (auto simp: tryA_def split: prod.splits)
  then have v: "db v = db w" by (auto dest: readonlyD [OF readonly_fn(14)])
  show ?thesis
  proof (cases found)
    case (Inr y)
    then have "peToolUseID x \<in> peToolUseID ` set (fdExecs (db w))"
      using look' by (auto simp: Exec_GetByToolUseID_def queryA_Inr_iff dest: firstRow_tool)
    moreover have "r = Inl y" "db w2 = db w" using cont Inr v by auto
    ultimately show ?thesis by (simp add: submission_def w')
  next
    case (Inl e)
    then have new: "?new v = (Inr r, w2)" and e: "e = RecordNotFound" using cont by (auto split: if_splits)
    then have unused: "peToolUseID x \<notin> peToolUseID ` set (fdExecs (db w))"
      using look' Inl by (auto simp: Exec_GetByToolUseID_def queryA_def stmtA_def firstRow_Inl split: option.splits sum.splits)
    obtain q d1 where r: "r = Inr q" and ins: "insertExec x (db w) = Inr ((), d1)"
      and w2: "db w2 = d1\<lparr>fdOps := updateRows (\<lambda>p. coUUID p = i) (completedBy x) (fdOps d1)\<rparr>"
      using new by (auto simp: bindA_Inr_iff stmtA_Inr_iff v dest!: readonlyD [OF readonly_fn(12)])
    have d1: "d1 = (db w)\<lparr>fdSeq := Suc (fdSeq (db w)), fdExecs := fdExecs (db w) @ [x\<lparr>peID := Suc (fdSeq (db w))\<rparr>]\<rparr>"
      using ins by (auto simp: insertExec_def split: if_splits)
    let ?x = "x\<lparr>peID := Suc (fdSeq (db w))\<rparr>"
    have "completedBy ?x = completedBy x" by (simp add: completedBy_def fun_eq_iff)
    then have "peToolUseID ?x = peToolUseID x \<and> fdExecs (db w') = fdExecs (db w) @ [?x] \<and>
        fdOps (db w') = updateRows (\<lambda>p. coUUID p = peOperationID ?x) (completedBy ?x) (fdOps (db w))"
      by (simp add: w' w2 d1 i)
    then show ?thesis using unused r unfolding submission_def by (auto simp: w' w2 d1)
  qed
qed

lemma Exec_Complete_effect:
  assumes "peOperationID x = i"
  shows "effectA (Exec_Complete x i)
    (\<lambda>d y d'. submission (peToolUseID x) d (snd y) d' \<and> fdFunctions d' = fdFunctions d)
    (\<lambda>d e d'. d' = d)"
proof (rule effectA_I)
  fix w y w' assume "Exec_Complete x i w = (Inr y, w')"
  then obtain r w1 where r: "Exec_record x i w = (Inr r, w1)"
    and rest: "(case r of Inl cached \<Rightarrow> bindA (Op_Get (peOperationID cached)) (\<lambda>p. retA (p, True))
      | Inr p \<Rightarrow> retA (p, False)) w1 = (Inr y, w')"
    unfolding Exec_Complete_def by (rule bindA_InrE)
  then have "snd y = isl r \<and> db w' = db w1"
    by (cases r) (auto simp: bindA_Inr_iff dest: readonlyD [OF readonly_fn(12)])
  then show "submission (peToolUseID x) (db w) (snd y) (db w') \<and>
      fdFunctions (db w') = fdFunctions (db w)"
    using Exec_record_Inr [OF r assms] by simp
next
  fix w e w' assume "Exec_Complete x i w = (Inl e, w')"
  then consider "Exec_record x i w = (Inl e, w')"
    | r w1 where "Exec_record x i w = (Inr r, w1)"
      "(case r of Inl cached \<Rightarrow> bindA (Op_Get (peOperationID cached)) (\<lambda>p. retA (p, True))
        | Inr p \<Rightarrow> retA (p, False)) w1 = (Inl e, w')"
    unfolding Exec_Complete_def by (auto simp: bindA_Inl_iff)
  then show "db w' = db w"
  proof cases
    case 1
    then show ?thesis using atomicA_transaction unfolding atomicA_def Exec_record_def by blast
  next
    case 2
    then obtain y where "r = Inl y" and "db w' = db w1"
      by (cases r) (auto simp: bindA_Inl_iff dest: readonlyD [OF readonly_fn(12)])
    then show ?thesis using Exec_record_Inr [OF 2(1) assms] by simp
  qed
qed


lemma Function_Update_effect:
  "effectA (Function_Update g)
     (\<lambda>d _ d'. d' = d\<lparr>fdFunctions := updateRows (\<lambda>row. fnID row = fnID g) (storedFunction g) (fdFunctions d)\<rparr>)
     (\<lambda>d e d'. d' = d)"
  unfolding Function_Update_def by (rule effectA_I) (auto simp: stmtA_def split: option.splits)

lemma sameFunctions: "\<exists>fs. d = d\<lparr>fdFunctions := fs\<rparr>" for d :: fndb
  by (rule exI [of _ "fdFunctions d"]) simp

lemma Function_Update_frame: "runsA d (Function_Update g) (\<lambda>_ d'. \<exists>fs. d' = d\<lparr>fdFunctions := fs\<rparr>)"
  by (rule runs_effect [OF Function_Update_effect]) (auto intro: sameFunctions)

lemma recordDraft_frame: "runsA d (recordDraftOperation p now) (\<lambda>_ d'. \<exists>fs. d' = d\<lparr>fdFunctions := fs\<rparr>)"
  unfolding recordDraftOperation_def
  by (intro runs_if runs_end runs_read readonly_fn Function_Update_frame sameFunctions)

lemma submission_functions:
  "submission t d already (d'\<lparr>fdFunctions := fs\<rparr>) = submission t d already d'"
  by (simp add: submission_def)

text \<open>
   Submitting the progress of a conversation records a tool call once and completes its
  operation in the same step; the same call submitted again changes no operation and no record
  and is answered as already submitted, with a completed operation.  An answer is only given
  for a completed operation; a refusal leaves the releases, the outbox and the files alone.
\<close>

theorem SubmitProgress_effect:
  "effectA (SubmitProgress ctx req)
     (\<lambda>d y d'. submission (trimSpace (pqToolUseId req)) d (snd y) d' \<and> coState (fst y) = OpCompleted \<and>
        trimSpace (pqToolUseId req) \<noteq> [] \<and>
        (\<exists>p u. firstRow coID (\<lambda>p. coUUID p = trimSpace (pqOperationId req)) (fdOps d) = Inr p \<and>
           RequireUserID ctx = Inr u \<and> coUserID p = u \<and> coFunctionID p = trimSpace (pqFunctionId req) \<and>
           progressToolMatchesConversation (trimSpace (pqToolName req)) (coConversation p)))
     (\<lambda>d e d'. d' = d \<or> (\<exists>already fs. submission (trimSpace (pqToolUseId req)) d already (d'\<lparr>fdFunctions := fs\<rparr>)))"
proof (rule effectA_runs)
  fix d
  let ?t = "trimSpace (pqToolUseId req)"
  let ?S = "\<lambda>r d'. case r of
      Inl e \<Rightarrow> d' = d \<or> (\<exists>already fs. submission ?t d already (d'\<lparr>fdFunctions := fs\<rparr>))
    | Inr y \<Rightarrow> submission ?t d (snd y) d' \<and> coState (fst y) = OpCompleted \<and> ?t \<noteq> [] \<and>
        (\<exists>p u. firstRow coID (\<lambda>p. coUUID p = trimSpace (pqOperationId req)) (fdOps d) = Inr p \<and>
           RequireUserID ctx = Inr u \<and> coUserID p = u \<and> coFunctionID p = trimSpace (pqFunctionId req) \<and>
           progressToolMatchesConversation (trimSpace (pqToolName req)) (coConversation p))"
  let ?tail = "\<lambda>now (completed, already :: bool). if coState completed \<noteq> OpCompleted
      then failA (Err ''conversation operation is no longer active'')
      else bindA (recordDraftOperation completed now) (\<lambda>_. retA (completed, already))"
  let ?exec = "\<lambda>p u now i. Exec_Complete (newExecution i p (trimSpace (pqToolName req)) ?t u
      (compactConversationText (pqSummary req) 2000) now) (coUUID p)"
  have core: "runsA d (bindA (?exec p u now i) (?tail now)) ?S"
    if facts: "Op_Get (trimSpace (pqOperationId req)) w = (Inr p, v)" "db w = d" "RequireUserID ctx = Inr u"
      "validateOperationScope p u (trimSpace (pqFunctionId req)) (trimSpace (pqSessionId req))
        (normalizeFunctionConversation (pqConversation req)) = Inr ()"
      "progressToolMatchesConversation (trimSpace (pqToolName req)) (coConversation p)" "?t \<noteq> []"
    for p u now i w v
  proof (rule runs_write [OF Exec_Complete_effect])
    have op: "firstRow coID (\<lambda>p. coUUID p = trimSpace (pqOperationId req)) (fdOps d) = Inr p"
      "coUserID p = u" "coFunctionID p = trimSpace (pqFunctionId req)"
      using facts by (auto simp: Op_Get_def queryA_Inr_iff validateOperationScope_def split: if_splits)
    fix y :: "convOp \<times> bool" and d' assume y: "submission (peToolUseID (newExecution i p (trimSpace (pqToolName req)) ?t u
        (compactConversationText (pqSummary req) 2000) now)) d (snd y) d' \<and> fdFunctions d' = fdFunctions d"
    then have sub: "submission ?t d (snd y) (d'\<lparr>fdFunctions := fs\<rparr>)" for fs
      by (simp add: newExecution_def submission_functions)
    show "runsA d' (?tail now y) ?S"
    proof (cases "coState (fst y) = OpCompleted")
      case True
      have "effectA (recordDraftOperation (fst y) now) (\<lambda>d _ d'. \<exists>fs. d' = d\<lparr>fdFunctions := fs\<rparr>) (\<lambda>d _ d'. \<exists>fs. d' = d\<lparr>fdFunctions := fs\<rparr>)"
        by (rule effectA_runs [OF runs_weaken [OF recordDraft_frame]]) (auto split: sum.splits)
      then have "runsA d' (bindA (recordDraftOperation (fst y) now) (\<lambda>_. retA y)) ?S"
        using True op facts sub by (elim runs_write) (auto intro!: runs_end)
      then show ?thesis using True by (cases y) simp
    next
      case False
      have "\<exists>already fs. submission ?t d already (d'\<lparr>fdFunctions := fs\<rparr>)" using sub by blast
      then show ?thesis using False by (cases y) (simp add: runs_end)
    qed
  qed (simp_all add: newExecution_def)
  show "runsA d (SubmitProgress ctx req) ?S"
    unfolding SubmitProgress_def Let_def
  proof (rule runs_read; (simp; fail)?)
    fix u v and w :: "fndb world" assume u: "liftA (RequireUserID ctx) w = (Inr u, v)"
    show "runsA d (bindA (Op_Get (trimSpace (pqOperationId req))) (\<lambda>p.
        bindA (liftA (validateOperationScope p u (trimSpace (pqFunctionId req)) (trimSpace (pqSessionId req))
          (normalizeFunctionConversation (pqConversation req)))) (\<lambda>_.
        if \<not> progressToolMatchesConversation (trimSpace (pqToolName req)) (coConversation p)
        then failA (Err (''tool is not allowed for '' @ coConversation p @ '' conversation''))
        else if ?t = [] then failA (Err ''tool use id is required'')
        else bindA nowA (\<lambda>now.
          if compactConversationText (pqSummary req) 2000 = [] then failA (Err ''completion summary is required'')
          else bindA newUUID (\<lambda>i. bindA (?exec p u now i) (?tail now)))))) ?S"
      by (rule runs_read; (simp; fail)?) (intro runs_if runs_end runs_read core; (use u in \<open>simp; fail\<close>)?)
  qed
qed

end
