(* ===== verification/Func_Gates.thy ===== *)
theory Func_Gates
  imports Func_Delivery
begin

text \<open>
  The gates on the way from a document to a published page: what must hold before a document is
  adopted, before generated code is adopted and before a function goes live, and what the tables
  hold afterwards.
\<close>

subsection \<open>Staging a release\<close>

text \<open>The function has a release of its application that is not revoked.\<close>

definition liveRelease :: "fnrow \<Rightarrow> release \<Rightarrow> bool" where
  "liveRelease f r \<longleftrightarrow> relFunctionID r = fnUUID f \<and> relAppID r = trimSpace (fnGeneratedAppID f) \<and>
     relStatus r \<noteq> ReleaseRevoked"

lemma stageNext_effect:
  "effectA (stageNext ctx f appID snapshot v)
     (\<lambda>d r d'. relFunctionID r = fnUUID f \<and> relAppID r = appID \<and> relStatus r = ReleaseStaged \<and>
        (\<exists>n. d' = d\<lparr>fdSeq := n, fdReleases := fdReleases d @ [r]\<rparr>))
     (\<lambda>d e d'. d' = d)"
  unfolding stageNext_def Release_CreateStaged_def
  by (rule effectA_I)
    (auto simp: bindA_Inr_iff bindA_Inl_iff nowA_iff newUUID_iff stmtA_def insertRelease_def Let_def
      split: option.splits sum.splits prod.splits if_splits)

lemma Stage_effect:
  "effectA (Stage env ctx f)
     (\<lambda>d r d'. liveRelease f r \<and> r \<in> set (fdReleases d') \<and> trimSpace (fnGeneratedAppID f) \<noteq> [] \<and>
        (\<exists>n rs. (\<forall>q \<in> set rs. relFunctionID q = fnUUID f) \<and> d' = d\<lparr>fdSeq := n, fdReleases := fdReleases d @ rs\<rparr>))
     (\<lambda>d e d'. d' = d)"
proof (rule effectA_runs)
  fix d :: fndb
  let ?app = "trimSpace (fnGeneratedAppID f)"
  let ?S = "\<lambda>r d'. case r of Inl e \<Rightarrow> d' = d
    | Inr r \<Rightarrow> liveRelease f r \<and> r \<in> set (fdReleases d') \<and> ?app \<noteq> [] \<and>
        (\<exists>n rs. (\<forall>q \<in> set rs. relFunctionID q = fnUUID f) \<and> d' = d\<lparr>fdSeq := n, fdReleases := fdReleases d @ rs\<rparr>)"
  have new: "runsA d (stageNext ctx f ?app snapshot v) ?S" if "?app \<noteq> []" for snapshot v
  proof (rule runs_effect [OF stageNext_effect])
    fix r d' assume r: "relFunctionID r = fnUUID f \<and> relAppID r = ?app \<and> relStatus r = ReleaseStaged \<and>
        (\<exists>n. d' = d\<lparr>fdSeq := n, fdReleases := fdReleases d @ [r]\<rparr>)"
    then have "\<exists>n rs. (\<forall>q \<in> set rs. relFunctionID q = fnUUID f) \<and> d' = d\<lparr>fdSeq := n, fdReleases := fdReleases d @ rs\<rparr>"
      by (intro exI [of _ "fdSeq d'"] exI [of _ "[r]"]) auto
    then show "?S (Inr r) d'" using r that by (auto simp: liveRelease_def rl_consts)
  qed simp
  have same: "\<exists>n rs. (\<forall>q \<in> set rs. relFunctionID q = fnUUID f) \<and> d = d\<lparr>fdSeq := n, fdReleases := fdReleases d @ rs\<rparr>" for d :: fndb
    by (rule exI [of _ "fdSeq d"], rule exI [of _ "[]"]) simp
  have latest: "q \<in> set (fdReleases d) \<and> relFunctionID q = fnUUID f"
    if "tryA (Release_Latest (fnUUID f)) w = (Inr (Inr q), v)" "db w = d" for w q v
    using that by (auto simp: tryA_def Release_Latest_def queryA_Inr_iff dest: firstRow_Inr split: prod.splits)
  show "runsA d (Stage env ctx f) ?S"
    unfolding Stage_def Let_def
    by (intro runs_rules runs_read new; (auto simp: liveRelease_def intro: same dest: latest; fail)?)
qed


subsection \<open>Adopting code\<close>

text \<open>
  The code of the function is adopted: its row holds a new version, for the code, for its draft
  and for the function, made from the technical document that is applied; both documents are
  applied and in step, and a release of the application is there that is not revoked.
\<close>

definition codeAdopted :: "gostr \<Rightarrow> fndb \<Rightarrow> fndb \<Rightarrow> bool" where
  "codeAdopted i d d' \<longleftrightarrow>
     (\<exists>f g. firstRow fnID (\<lambda>f. fnUUID f = i) (fdFunctions d) = Inr f \<and>
        fdFunctions d' = updateRows (\<lambda>row. fnID row = fnID f) (storedFunction g) (fdFunctions d) \<and>
        fnFunctionVersion f < fnFunctionVersion g \<and> fnCodeVersion g = fnFunctionVersion g \<and>
        fnCodeDraftVersion g = fnFunctionVersion g \<and> fnTechnicalDocVersion g \<noteq> 0 \<and> fnProductDocVersion g \<noteq> 0 \<and>
        fnCodeSourceTechnicalVersion g = fnTechnicalDocVersion g \<and> \<not> fnDocTechnicalStale g \<and>
        fnWorkflowStage g = StageCodeGenerated \<and> fnStatus g = fnStatus f \<and>
        (\<exists>r \<in> set (fdReleases d'). liveRelease f r) \<and> (\<exists>rs. fdReleases d' = fdReleases d @ rs) \<and>
        fdOps d' = fdOps d \<and> fdExecs d' = fdExecs d \<and> fdOutbox d' = fdOutbox d \<and> fdFiles d' = fdFiles d)"

lemma normalize_version: "fnFunctionVersion f \<le> fnFunctionVersion (normalizeLegacyFunctionVersions f)"
proof -
  have "fnFunctionVersion f \<le> fnFunctionVersion (legacyProduct f)" "fnFunctionVersion f \<le> fnFunctionVersion (legacyTechnical f)"
    "fnFunctionVersion f \<le> fnFunctionVersion (legacyCode f)" "fnFunctionVersion f \<le> fnFunctionVersion (legacyCodeDraft f)" for f
    by (simp_all add: legacy_defs Let_def)
  then show ?thesis unfolding normalizeLegacyFunctionVersions_def by (meson order_trans)
qed

lemma Function_Get_iff:
  "Function_Get i w = (Inr f, v) \<Longrightarrow> firstRow fnID (\<lambda>f. fnUUID f = i) (fdFunctions (db w)) = Inr f"
  by (auto simp: Function_Get_def queryA_Inr_iff)

lemma readonly_draftVersion [simp]:
  "readonly (technicalDraftProductVersion env f)"
  by (simp add: technicalDraftProductVersion_def)

text \<open>
  C21: code is adopted only for a caller with the permission to edit, for a function whose
  product and technical documents are applied and in step and whose draft was made from the
  technical document that is applied; then the code, its draft and the function get the same
  new version, and a release of the application is at hand.  An error leaves the rows of the
  functions as they were, unless it comes from the inspection of the application for the reply.
\<close>

theorem ApplyFunctionCode_gate:
  "effectA (ApplyFunctionCode env ctx reqID)
     (\<lambda>d _ d'. permitted (feSystem env) ctx functionPermissionEdit \<and> codeAdopted (trimSpace reqID) d d')
     (\<lambda>d e d'. fdFunctions d' = fdFunctions d \<or>
        permitted (feSystem env) ctx functionPermissionEdit \<and> codeAdopted (trimSpace reqID) d d')"
proof (rule effectA_runs)
  fix d :: fndb
  let ?S = "\<lambda>r d'. case r of
      Inl e \<Rightarrow> fdFunctions d' = fdFunctions d \<or>
        permitted (feSystem env) ctx functionPermissionEdit \<and> codeAdopted (trimSpace reqID) d d'
    | Inr _ \<Rightarrow> permitted (feSystem env) ctx functionPermissionEdit \<and> codeAdopted (trimSpace reqID) d d'"
  let ?tail = "\<lambda>f v app now. bindA (Function_Update (applyCode app v now f)) (\<lambda>_.
     bindA (syncDocumentStateFromFiles env (applyCode app v now f)) (\<lambda>f2.
     bindA (buildFunctionCodeState env f2) (\<lambda>st.
     retA (modelFunctionToProto env f2, functionGeneratedAppToProto app f2, st))))"
  have core: "runsA d (bindA (Stage env ctx f) (\<lambda>_. bindA (resolveFunctionApp env f) (\<lambda>app. bindA nowA (?tail f v app)))) ?S"
    if perm: "Require (feSystem env) ctx functionPermissionEdit w1 = (Inr u, v1)"
      and get: "Function_Get (trimSpace reqID) w2 = (Inr stored, v2)" "db w2 = d"
      and sync: "syncDocumentStateFromFiles env stored w3 = (Inr f0, v3)"
      and f: "f = normalizeLegacyFunctionVersions f0"
      and check: "checkApply f = Inr ()" "v = fnTechnicalDocVersion f"
    for w1 u v1 w2 stored v2 w3 f0 v3 f v
  proof -
    note stored = Function_Get_iff [OF get(1), unfolded get(2)]
    have fields: "fnID f = fnID stored" "fnUUID f = fnUUID stored" "fnStatus f = fnStatus stored"
      "fnGeneratedAppID f = fnGeneratedAppID stored" "fnFunctionVersion stored \<le> fnFunctionVersion f"
      using sync_fields [OF sync] normalize_version [of f0] by (simp_all add: f)
    have docs: "fnProductDocVersion f \<noteq> 0" "fnTechnicalDocVersion f \<noteq> 0" "\<not> fnDocTechnicalStale f"
      using check(1) by (auto simp: checkApply_def split: if_splits)
    show ?thesis
    proof (rule runs_write [OF Stage_effect])
      fix r d1 assume "liveRelease f r \<and> r \<in> set (fdReleases d1) \<and> trimSpace (fnGeneratedAppID f) \<noteq> [] \<and>
          (\<exists>n rs. (\<forall>q \<in> set rs. relFunctionID q = fnUUID f) \<and> d1 = d\<lparr>fdSeq := n, fdReleases := fdReleases d @ rs\<rparr>)"
      then obtain n rs where d1: "d1 = d\<lparr>fdSeq := n, fdReleases := fdReleases d @ rs\<rparr>"
        and r: "r \<in> set (fdReleases d @ rs)" "liveRelease stored r"
        by (auto simp: liveRelease_def fields)
      have adopted: "codeAdopted (trimSpace reqID) d
          (d1\<lparr>fdFunctions := updateRows (\<lambda>row. fnID row = fnID (applyCode app v now f)) (storedFunction (applyCode app v now f)) (fdFunctions d1)\<rparr>)"
        for app now
        unfolding codeAdopted_def using stored fields docs check(2) r
        by (intro exI [of _ stored] exI [of _ "applyCode app v now f"]) (auto simp: applyCode_def d1)
      have rest: "runsA d2 (bindA (syncDocumentStateFromFiles env g) (\<lambda>f2. bindA (buildFunctionCodeState env f2) (\<lambda>st.
          retA (modelFunctionToProto env f2, functionGeneratedAppToProto app f2, st)))) ?S"
        if "codeAdopted (trimSpace reqID) d d2" for g app d2
        using that Require_permitted [OF perm]
        by (intro runs_readonly readonly_bind) (auto split: sum.splits)
      have fin: "runsA d1 (?tail f v app now) ?S" for app now
        by (rule runs_write [OF Function_Update_effect])
          (use adopted [of app now] in \<open>auto simp: d1 intro: rest\<close>)
      show "runsA d1 (bindA (resolveFunctionApp env f) (\<lambda>app. bindA nowA (?tail f v app))) ?S"
        by ((rule runs_read, simp, simp add: d1)+, rule fin)
    qed simp
  qed
  show "runsA d (ApplyFunctionCode env ctx reqID) ?S"
    unfolding ApplyFunctionCode_def Let_def
    by (intro runs_if runs_end core runs_read; (simp; fail)?; (assumption | simp)?)
qed


subsection \<open>Adopting a document\<close>






lemma sync_neverFails [simp]: "neverFails (syncDocumentStateFromFiles env f)"
  unfolding syncDocumentStateFromFiles_def documentState_def orNoDocument_def technicalStaleFrom_def fileModTime_def
  by (intro neverFails_rules) simp_all



subsection \<open>Publishing\<close>

text \<open>Only the outbox and the counter of row numbers change.\<close>

definition outboxOnly :: "fndb \<Rightarrow> fndb \<Rightarrow> bool" where
  "outboxOnly d d' \<longleftrightarrow> d' = d\<lparr>fdSeq := fdSeq d', fdOutbox := fdOutbox d'\<rparr>"

interpretation outbox_frame: frame_relation outboxOnly
proof
  show "outboxOnly d d" for d by (simp add: outboxOnly_def)
  show "outboxOnly a c" if "outboxOnly a b" "outboxOnly b c" for a b c
  proof -
    have "c = b\<lparr>fdSeq := fdSeq c, fdOutbox := fdOutbox c\<rparr>" "b = a\<lparr>fdSeq := fdSeq b, fdOutbox := fdOutbox b\<rparr>"
      using that by (simp_all add: outboxOnly_def)
    then have "c = a\<lparr>fdSeq := fdSeq b, fdOutbox := fdOutbox b\<rparr>\<lparr>fdSeq := fdSeq c, fdOutbox := fdOutbox c\<rparr>" by metis
    then show ?thesis by (simp add: outboxOnly_def)
  qed
qed

lemma leaves_outbox:
  "leavesA outboxOnly (Outbox_Create ev)" "leavesA outboxOnly (tryDeliverRealtimeEvent env ev)"
  "leavesA outboxOnly (RecordEvent env a b c p)" "leavesA outboxOnly (DeliverFunctionPublished env a)"
  "leavesA outboxOnly (RecordFunctionUnpublished env f)"
proof -
  note rules = outbox_frame.leaves_rules
  have stmt: "leavesA outboxOnly (stmtA (insertEvent ev))" for ev
    by (rule outbox_frame.leaves_stmt) (auto simp: insertEvent_def outboxOnly_def Let_def split: if_splits)
  show create: "leavesA outboxOnly (Outbox_Create ev)" for ev
    unfolding Outbox_Create_def by (intro rules stmt) (simp_all add: outbox_frame.leaves_readonly)
  have mark: "leavesA outboxOnly (Outbox_MarkDoneByUUID i now)" for i now
    unfolding Outbox_MarkDoneByUUID_def by (rule outbox_frame.leaves_stmt) (auto simp: outboxOnly_def)
  have ignore: "leavesA outboxOnly m \<Longrightarrow> leavesA outboxOnly (ignoreA m)" for m :: "'a fnact"
    unfolding ignoreA_def by (intro rules) (simp_all add: outbox_frame.leaves_readonly)
  have send: "readonly (sendRealtime env a b c p)" for a b c p
    unfolding sendRealtime_def by (intro readonly_rules) simp_all
  have sent: "readonly (case publishFunctionRealtimeEvent env ev of None \<Rightarrow> retA (Inr ()) | Some send \<Rightarrow> tryA send)" for ev
    by (auto simp: publishFunctionRealtimeEvent_def send intro!: readonly_try)
  show deliver: "leavesA outboxOnly (tryDeliverRealtimeEvent env ev)" for ev
    unfolding tryDeliverRealtimeEvent_def
    by (intro rules(7-10) rules(1) outbox_frame.leaves_readonly [OF sent] ignore mark) (simp_all add: outbox_frame.leaves_readonly)
  show "leavesA outboxOnly (RecordEvent env a b c p)" "leavesA outboxOnly (DeliverFunctionPublished env a)"
    "leavesA outboxOnly (RecordFunctionUnpublished env f)"
    unfolding RecordEvent_def DeliverFunctionPublished_def RecordFunctionUnpublished_def
    by (intro rules ignore create deliver; simp add: outbox_frame.leaves_readonly)+
qed

text \<open>The function has exactly one published release, the one named.\<close>

definition goesLive :: "fnrow \<Rightarrow> gostr \<Rightarrow> fndb \<Rightarrow> bool" where
  "goesLive f i d \<longleftrightarrow>
     (\<exists>r \<in> set (fdReleases d). relUUID r = i \<and> relFunctionID r = fnUUID f \<and>
        relAppID r = trimSpace (fnGeneratedAppID f) \<and> relStatus r = ReleasePublished) \<and>
     (\<forall>s \<in> set (fdReleases d). relFunctionID s = fnUUID f \<and> relStatus s = ReleasePublished \<longrightarrow> relUUID s = i)"

text \<open>The operations, the executions and the files stay.\<close>

definition workKept :: "fndb \<Rightarrow> fndb \<Rightarrow> bool" where
  "workKept d d' \<longleftrightarrow> fdOps d' = fdOps d \<and> fdExecs d' = fdExecs d \<and> fdFiles d' = fdFiles d"

text \<open>
  Beside that, only rows of the function \<open>u\<close> with the number \<open>i\<close> and releases of this
  function may change.
\<close>

definition othersKept :: "nat \<Rightarrow> gostr \<Rightarrow> fndb \<Rightarrow> fndb \<Rightarrow> bool" where
  "othersKept i u d d' \<longleftrightarrow> workKept d d' \<and>
     filter (\<lambda>row. fnID row \<noteq> i \<and> fnUUID row \<noteq> u) (fdFunctions d') =
       filter (\<lambda>row. fnID row \<noteq> i \<and> fnUUID row \<noteq> u) (fdFunctions d) \<and>
     filter (\<lambda>r. relFunctionID r \<noteq> u) (fdReleases d') = filter (\<lambda>r. relFunctionID r \<noteq> u) (fdReleases d)"

lemma othersKept_same [simp]: "othersKept i u d d"
  by (simp add: othersKept_def workKept_def)

lemma othersKept_trans: "othersKept i u a b \<Longrightarrow> othersKept i u b c \<Longrightarrow> othersKept i u a c"
  by (simp add: othersKept_def workKept_def)

lemma othersKept_staged:
  "\<forall>q \<in> set rs. relFunctionID q = u \<Longrightarrow> othersKept i u d (d\<lparr>fdSeq := n, fdReleases := fdReleases d @ rs\<rparr>)"
  by (simp add: othersKept_def workKept_def filter_empty_conv)

lemma filter_updateRows_out:
  "(\<And>x. p x \<Longrightarrow> \<not> q x) \<Longrightarrow> (\<And>x. p x \<Longrightarrow> \<not> q (f x)) \<Longrightarrow> filter q (updateRows p f xs) = filter q xs"
  by (induction xs) (auto simp: updateRows_def)

lemma othersKept_publish:
  assumes "published i now ev d d'" and r: "r \<in> set (fdReleases d)" "relUUID r = i" "relFunctionID r = u"
  shows "othersKept k u d d'"
proof -
  obtain q where one: "filter (\<lambda>s. relUUID s = i) (fdReleases d) = [q]"
    and rel: "fdReleases d' = map (publishRow (relFunctionID q) i now) (fdReleases d)"
    and fn: "fdFunctions d' = activate (relFunctionID q) i now (fdFunctions d)" and work: "workKept d d'"
    using assms(1) unfolding published_def workKept_def by blast
  have only: "s = r" if "s \<in> set (fdReleases d)" "relUUID s = i" for s
  proof -
    have "{r, s} \<subseteq> set (filter (\<lambda>s. relUUID s = i) (fdReleases d))" using r that by simp
    then show ?thesis by (simp add: one)
  qed
  have "q \<in> set (filter (\<lambda>s. relUUID s = i) (fdReleases d))" by (simp add: one)
  then have q: "q = r" using only by simp
  have "filter (\<lambda>s. relFunctionID s \<noteq> u) (map (publishRow u i now) rs) = filter (\<lambda>s. relFunctionID s \<noteq> u) rs"
    if "set rs \<subseteq> set (fdReleases d)" for rs
    using that by (induction rs) (use only r(3) in \<open>auto simp: publishRow_def\<close>)
  then have "filter (\<lambda>s. relFunctionID s \<noteq> u) (fdReleases d') = filter (\<lambda>s. relFunctionID s \<noteq> u) (fdReleases d)"
    by (simp add: rel q r(3))
  moreover have "filter (\<lambda>row. fnID row \<noteq> k \<and> fnUUID row \<noteq> u) (fdFunctions d') =
      filter (\<lambda>row. fnID row \<noteq> k \<and> fnUUID row \<noteq> u) (fdFunctions d)"
    unfolding fn q r(3) activate_def by (rule filter_updateRows_out) simp_all
  ultimately show ?thesis using work by (simp add: othersKept_def)
qed

lemma published_live:
  assumes "published i now ev d d'" and r: "r \<in> set (fdReleases d)" "relUUID r = i" "liveRelease f r"
  shows "goesLive f i d' \<and> workKept d d' \<and> fdFunctions d' = activate (fnUUID f) i now (fdFunctions d)"
proof -
  obtain q where one: "filter (\<lambda>s. relUUID s = i) (fdReleases d) = [q]"
    and rel: "fdReleases d' = map (publishRow (relFunctionID q) i now) (fdReleases d)"
    and fn: "fdFunctions d' = activate (relFunctionID q) i now (fdFunctions d)" and work: "workKept d d'"
    using assms(1) unfolding published_def workKept_def by blast
  have "r \<in> set (filter (\<lambda>s. relUUID s = i) (fdReleases d))" using r by simp
  then have q: "q = r" using one by simp
  have f: "relFunctionID r = fnUUID f" "relAppID r = trimSpace (fnGeneratedAppID f)" using r(3) by (simp_all add: liveRelease_def)
  have "publishRow (fnUUID f) i now r \<in> set (fdReleases d')" using r(1) by (simp add: rel q f)
  moreover have "relUUID s = i" if "s \<in> set (fdReleases d')" "relFunctionID s = fnUUID f" "relStatus s = ReleasePublished" for s
    using that by (auto simp: rel q f publishRow_def rl_consts split: if_splits)
  ultimately show ?thesis using fn work r(2) f q
    by (auto simp: goesLive_def publishRow_def intro!: bexI [of _ "publishRow (fnUUID f) i now r"])
qed


lemma workKept_release: "workKept d (d\<lparr>fdSeq := n, fdReleases := rs\<rparr>)"
  by (simp add: workKept_def)

lemma publication_effect:
  "effectA (if feOutbox env
      then wrapErrA (\<lambda>e. Err (''publish function release: '' @ errText e))
             (Release_PublishWithOutbox (relUUID r) now (publishedEvent f r now))
      else Release_Publish (relUUID r) now)
     (\<lambda>d _ d'. \<exists>ev. published (relUUID r) now ev d d') (\<lambda>d e d'. d' = d)"
proof -
  have "effectA (Release_publish i now ev) (\<lambda>d _ d'. \<exists>ev. published i now ev d d') (\<lambda>d e d'. d' = d)" for i ev
    by (rule effectA_runs, rule runs_effect [OF publish_run]) auto
  then show ?thesis
    unfolding Release_PublishWithOutbox_def Release_Publish_def by (auto intro: effect_wrap)
qed

lemma Publish_effect:
  "effectA (Publish env ctx f)
     (\<lambda>d r d'. goesLive f (relUUID r) d' \<and> othersKept i (fnUUID f) d d' \<and>
        (\<exists>now. fdFunctions d' = activate (fnUUID f) (relUUID r) now (fdFunctions d)))
     (\<lambda>d e d'. othersKept i (fnUUID f) d d')"
proof (rule effectA_runs)
  fix d :: fndb
  let ?S = "\<lambda>r d'. case r of Inl e \<Rightarrow> othersKept i (fnUUID f) d d'
    | Inr r \<Rightarrow> goesLive f (relUUID r) d' \<and> othersKept i (fnUUID f) d d' \<and>
        (\<exists>now. fdFunctions d' = activate (fnUUID f) (relUUID r) now (fdFunctions d))"
  let ?pub = "\<lambda>r now. if feOutbox env
      then wrapErrA (\<lambda>e. Err (''publish function release: '' @ errText e))
             (Release_PublishWithOutbox (relUUID r) now (publishedEvent f r now))
      else Release_Publish (relUUID r) now"
  let ?tail = "\<lambda>r now. bindA (RestorePublished env) (\<lambda>_.
      let r' = r\<lparr>relStatus := ReleasePublished, relPublishedAt := now, relUpdatedAt := now\<rparr> in
      bindA (case feSkills env of None \<Rightarrow> retA ()
             | Some sk \<Rightarrow> callA (skSync sk (f\<lparr>fnActiveReleaseID := relUUID r\<rparr>) r')) (\<lambda>_. retA r'))"
  have skills: "readonly (case feSkills env of None \<Rightarrow> retA () | Some sk \<Rightarrow> callA (skSync sk g q))" for g q
    by (simp split: option.splits)
  have core: "runsA d1 (bindA (?pub r now) (\<lambda>_. ?tail r now)) ?S"
    if st: "liveRelease f r \<and> r \<in> set (fdReleases d1) \<and> trimSpace (fnGeneratedAppID f) \<noteq> [] \<and>
        (\<exists>n rs. (\<forall>q \<in> set rs. relFunctionID q = fnUUID f) \<and> d1 = d\<lparr>fdSeq := n, fdReleases := fdReleases d @ rs\<rparr>)" for r now d1
  proof (rule runs_write [OF publication_effect])
    fix x d2 assume pub: "\<exists>ev. published (relUUID r) now ev d1 d2"
    have r: "r \<in> set (fdReleases d1)" "relFunctionID r = fnUUID f" using st by (simp_all add: liveRelease_def)
    have "othersKept i (fnUUID f) d d1" using st othersKept_staged by blast
    then have kept: "othersKept i (fnUUID f) d d2" using pub othersKept_publish [OF _ r(1) refl r(2)] othersKept_trans by blast
    have "goesLive f (relUUID r) d2 \<and> workKept d1 d2 \<and> fdFunctions d2 = activate (fnUUID f) (relUUID r) now (fdFunctions d1)"
      using published_live [OF _ _ refl] pub st by blast
    then have "goesLive f (relUUID r) d2 \<and> othersKept i (fnUUID f) d d2 \<and>
        fdFunctions d2 = activate (fnUUID f) (relUUID r) now (fdFunctions d)"
      using st kept by auto
    then show "runsA d2 (?tail r now) ?S"
      unfolding Let_def by (intro runs_read runs_end skills) auto
  qed (use st othersKept_staged in auto)
  show "runsA d (Publish env ctx f) ?S"
    unfolding Publish_def
  proof (rule runs_write [OF Stage_effect])
    fix r d1
    assume st: "liveRelease f r \<and> r \<in> set (fdReleases d1) \<and> trimSpace (fnGeneratedAppID f) \<noteq> [] \<and>
        (\<exists>n rs. (\<forall>q \<in> set rs. relFunctionID q = fnUUID f) \<and> d1 = d\<lparr>fdSeq := n, fdReleases := fdReleases d @ rs\<rparr>)"
    then have kept: "othersKept i (fnUUID f) d d1" using othersKept_staged by blast
    show "runsA d1 (case feRuntime env of None \<Rightarrow> failA releaseRuntimeMissing
        | Some rt \<Rightarrow> bindA (callA (rtApplyModels rt (relAppID r))) (\<lambda>_.
            bindA (callA (rtPromote rt (relAppID r) (relArtifact r))) (\<lambda>_.
            bindA nowA (\<lambda>now. bindA (?pub r now) (\<lambda>_. ?tail r now))))) ?S"
      by (intro runs_rules runs_total runs_read core [OF st]) (simp_all add: kept)
  qed simp
qed


text \<open>
  The row of an updated function: its name and status are the requested ones; a published
  function has generated code and a place in the menu, and a function that was not published
  before has gone live with the release that its row points to.
\<close>

definition updatedRow :: "fnrow \<Rightarrow> gostr \<Rightarrow> gostr \<Rightarrow> fndb \<Rightarrow> fnrow \<Rightarrow> bool" where
  "updatedRow f name status d row \<longleftrightarrow> fnStatus row = status \<and> fnName row = name \<and>
     (status = FunctionStatusPublished \<longrightarrow>
        fnCodeVersion row > 0 \<and> trimSpace (fnGeneratedAppID row) \<noteq> [] \<and> fnMenuParentID row \<noteq> [] \<and>
        (fnStatus f \<noteq> FunctionStatusPublished \<longrightarrow> goesLive f (fnActiveReleaseID row) d))"

lemma updatedRow_stored [simp]:
  "updatedRow f name status d (storedFunction g row) = updatedRow f name status d g"
  "updatedRow f name status (d\<lparr>fdFunctions := fs\<rparr>) g = updatedRow f name status d g"
  "updatedRow f name status d (withMenuID m g) = updatedRow f name status d g"
  by (simp_all add: updatedRow_def storedFunction_def goesLive_def withMenuID_def)

lemma outboxOnly_fields:
  assumes "outboxOnly d d'"
  shows "fdFunctions d' = fdFunctions d \<and> workKept d d' \<and> updatedRow f name status d' g = updatedRow f name status d g"
proof -
  obtain n evs where "d' = d\<lparr>fdSeq := n, fdOutbox := evs\<rparr>" using assms unfolding outboxOnly_def by blast
  then show ?thesis by (simp add: workKept_def updatedRow_def goesLive_def)
qed

lemma workKept_rules:
  "workKept d d" "workKept a b \<Longrightarrow> workKept b c \<Longrightarrow> workKept a c" "workKept d (d'\<lparr>fdFunctions := fs\<rparr>) = workKept d d'"
  by (simp_all add: workKept_def)

text \<open>
  What an update of \<open>f\<close> to \<open>status\<close> may leave behind: changes of the rows and releases
  of \<open>f\<close> only, and of its releases only when it goes live.
\<close>

definition updateKept :: "fnrow \<Rightarrow> gostr \<Rightarrow> fndb \<Rightarrow> fndb \<Rightarrow> bool" where
  "updateKept f status d d' \<longleftrightarrow> othersKept (fnID f) (fnUUID f) d d' \<and>
     (status = FunctionStatusPublished \<and> fnStatus f \<noteq> FunctionStatusPublished \<or> fdReleases d' = fdReleases d)"

interpretation update_frame: frame_relation "updateKept f status" for f status
  by unfold_locales (auto simp: updateKept_def intro: othersKept_trans)

lemma updateKept_work: "updateKept f status d d' \<Longrightarrow> workKept d d'"
  by (simp add: updateKept_def othersKept_def)

lemma updateKept_write:
  assumes "fnID g = fnID f" and "fnUUID g = fnUUID f"
  shows "updateKept f status d (d\<lparr>fdFunctions := updateRows (\<lambda>row. fnID row = fnID g) (storedFunction g) (fdFunctions d)\<rparr>)"
proof -
  have "filter (\<lambda>row. fnID row \<noteq> fnID f \<and> fnUUID row \<noteq> fnUUID f) (updateRows (\<lambda>row. fnID row = fnID g) (storedFunction g) rows) =
      filter (\<lambda>row. fnID row \<noteq> fnID f \<and> fnUUID row \<noteq> fnUUID f) rows" for rows
    by (rule filter_updateRows_out) (simp_all add: assms storedFunction_def)
  then show ?thesis by (simp add: updateKept_def othersKept_def workKept_def)
qed

lemma updateKept_outbox: "outboxOnly d d' \<Longrightarrow> updateKept f status d d'"
proof -
  assume "outboxOnly d d'"
  then obtain n evs where "d' = d\<lparr>fdSeq := n, fdOutbox := evs\<rparr>" unfolding outboxOnly_def by blast
  then show ?thesis by (simp add: updateKept_def othersKept_def workKept_def)
qed

definition rowsUpdated :: "fnrow \<Rightarrow> gostr \<Rightarrow> gostr \<Rightarrow> fndb \<Rightarrow> fndb \<Rightarrow> bool" where
  "rowsUpdated f name status d d' \<longleftrightarrow> workKept d d' \<and>
     (\<forall>row \<in> set (fdFunctions d'). fnID row = fnID f \<longrightarrow> updatedRow f name status d' row)"

lemma rowsUpdated_outbox: "rowsUpdated f name status d d1 \<Longrightarrow> outboxOnly d1 d2 \<Longrightarrow> rowsUpdated f name status d d2"
  using outboxOnly_fields [of d1 d2] by (auto simp: rowsUpdated_def workKept_def)

lemma rowsUpdated_write:
  assumes "workKept d d1" and "updatedRow f name status d1 g" and "fnID g = fnID f"
  shows "rowsUpdated f name status d
    (d1\<lparr>fdFunctions := updateRows (\<lambda>row. fnID row = fnID g) (storedFunction g) (fdFunctions d1)\<rparr>)"
proof -
  have "updatedRow f name status d1 row"
    if mem: "row \<in> set (updateRows (\<lambda>row. fnID row = fnID g) (storedFunction g) (fdFunctions d1))"
      and i: "fnID row = fnID f" for row
  proof -
    obtain r where "row = (if fnID r = fnID g then storedFunction g r else r)"
      using mem unfolding set_updateRows_iff by blast
    then have "row = storedFunction g r" using i assms(3) by (auto split: if_splits)
    then show ?thesis using assms(2) by simp
  qed
  then show ?thesis using assms(1) by (simp add: rowsUpdated_def workKept_rules)
qed

lemma syncMenu_effect:
  "effectA (handleA (syncFunctionMenu env ctx g previous status) (\<lambda>e. bindA (RecordEvent env i j k p) (\<lambda>_. failA e)))
     (\<lambda>d f3 d'. d' = d \<and> (\<exists>m. f3 = withMenuID m g)) (\<lambda>d e d'. outboxOnly d d')"
proof (rule effectA_runs)
  fix d :: fndb
  let ?S = "\<lambda>r d'. case r of Inl e \<Rightarrow> outboxOnly d d' | Inr f3 \<Rightarrow> d' = d \<and> (\<exists>m. f3 = withMenuID m g)"
  have none: "\<exists>m. g = withMenuID m g" by (rule exI [of _ "[]"]) (simp add: withMenuID_def)
  have menu: "\<exists>m. f3 = withMenuID m g" if "syncFunctionMenu env ctx g previous status w = (Inr f3, w')" for w f3 w'
    using that none by (auto simp: syncFunctionMenu_def bindA_Inr_iff split: if_splits)
  have err: "runsA d (bindA (RecordEvent env i j k p) (\<lambda>_. failA e)) ?S" for e
    by (rule runs_seq, rule runs_leaves [OF leaves_outbox(3)]) (auto split: sum.splits intro: runs_end)
  show "runsA d (handleA (syncFunctionMenu env ctx g previous status) (\<lambda>e. bindA (RecordEvent env i j k p) (\<lambda>_. failA e))) ?S"
  proof (rule runs_handle, rule runsAI)
    fix w r w' assume d: "db w = d" and run: "syncFunctionMenu env ctx g previous status w = (r, w')"
    then have "db w' = d" by (auto dest: readonlyD [OF readonly_fn_logic(6)])
    then show "case r of Inl e \<Rightarrow> runsA (db w') (bindA (RecordEvent env i j k p) (\<lambda>_. failA e)) ?S | Inr x \<Rightarrow> ?S (Inr x) (db w')"
      using err menu run by (auto split: sum.splits)
  qed
qed

lemma publishIfNew_effect:
  assumes f: "fnID g = fnID f" "fnUUID g = fnUUID f" "fnGeneratedAppID g = fnGeneratedAppID f"
    and row: "fnStatus g = status" "fnName g = name"
      "status = FunctionStatusPublished \<Longrightarrow> fnCodeVersion g > 0 \<and> trimSpace (fnGeneratedAppID g) \<noteq> [] \<and> fnMenuParentID g \<noteq> []"
  shows "effectA (publishIfNew env ctx (fnStatus f) status g)
    (\<lambda>d f2 d'. updateKept f status d d' \<and> fnID f2 = fnID g \<and> fnUUID f2 = fnUUID g \<and> updatedRow f name status d' f2) (\<lambda>d e d'. updateKept f status d d')"
proof (rule effectA_runs)
  fix d :: fndb
  have live: "goesLive g i d' = goesLive f i d'" for i d' by (simp add: goesLive_def f)
  show "runsA d (publishIfNew env ctx (fnStatus f) status g) (\<lambda>r d'. case r of Inl e \<Rightarrow> updateKept f status d d'
    | Inr f2 \<Rightarrow> updateKept f status d d' \<and> fnID f2 = fnID g \<and> fnUUID f2 = fnUUID g \<and> updatedRow f name status d' f2)"
    unfolding publishIfNew_def
  proof (intro runs_if runs_write [OF Publish_effect [where i = "fnID f"]] runs_end)
    fix r d' assume new: "status = FunctionStatusPublished \<and> fnStatus f \<noteq> FunctionStatusPublished"
      and live': "goesLive g (relUUID r) d' \<and> othersKept (fnID f) (fnUUID g) d d' \<and>
        (\<exists>now. fdFunctions d' = activate (fnUUID g) (relUUID r) now (fdFunctions d))"
    then show "case Inr (g\<lparr>fnActiveReleaseID := relUUID r\<rparr>) of Inl e \<Rightarrow> updateKept f status d d'
      | Inr f2 \<Rightarrow> updateKept f status d d' \<and> fnID f2 = fnID g \<and> fnUUID f2 = fnUUID g \<and> updatedRow f name status d' f2"
      using row f by (simp add: updateKept_def updatedRow_def live)
  qed (use row f in \<open>auto simp: updateKept_def updatedRow_def\<close>)
qed

lemma writeUpdate_effect:
  assumes f: "fnID g = fnID f" "fnUUID g = fnUUID f" "fnGeneratedAppID g = fnGeneratedAppID f"
    and row: "fnStatus g = status" "fnName g = name"
      "status = FunctionStatusPublished \<Longrightarrow> fnCodeVersion g > 0 \<and> trimSpace (fnGeneratedAppID g) \<noteq> [] \<and> fnMenuParentID g \<noteq> []"
  shows "effectA (writeUpdate env ctx (fnStatus f) status g)
    (\<lambda>d _ d'. rowsUpdated f name status d d' \<and> updateKept f status d d') (\<lambda>d e d'. updateKept f status d d')"
proof (rule effectA_runs)
  fix d :: fndb
  let ?S = "\<lambda>r d'. case r of Inl e \<Rightarrow> updateKept f status d d' | Inr _ \<Rightarrow> rowsUpdated f name status d d' \<and> updateKept f status d d'"
  let ?deliver = "\<lambda>f3. if fnStatus f \<noteq> FunctionStatusPublished \<and> status = FunctionStatusPublished
      then DeliverFunctionPublished env (fnActiveReleaseID f3) else retA ()"
  let ?unpub = "\<lambda>f3. if fnStatus f = FunctionStatusPublished \<and> status \<noteq> FunctionStatusPublished
      then (if \<not> feReleases env then failA releaseRuntimeMissing
            else wrapErrA (\<lambda>e. Err (''record function unpublish event: '' @ errText e)) (RecordFunctionUnpublished env f3))
      else retA ()"
  have frame: "leavesA outboxOnly (?deliver f3)" "leavesA outboxOnly (?unpub f3)" for f3
    by (intro outbox_frame.leaves_rules leaves_outbox outbox_frame.leaves_readonly; simp)+
  have upd: "effectA (Function_Update g)
      (\<lambda>d _ d'. d' = d\<lparr>fdFunctions := updateRows (\<lambda>row. fnID row = fnID g) (storedFunction g) (fdFunctions d)\<rparr>) (\<lambda>d e d'. d' = d)" for g
    by (rule Function_Update_effect)
  have rest: "runsA d4 (bindA (?deliver f3) (\<lambda>_. bindA (?unpub f3) (\<lambda>_.
      bindA (syncDocumentStateFromFiles env f3) (\<lambda>f4. retA (modelFunctionToProto env f4))))) ?S"
    if d4: "rowsUpdated f name status d d4 \<and> updateKept f status d d4" for d4 f3
  proof (intro runs_stable [OF frame(1)] runs_stable [OF frame(2)] runs_total runs_end)
    show "rowsUpdated f name status d d4 \<and> updateKept f status d d4" by (rule d4)
  qed (blast intro: rowsUpdated_outbox update_frame.trans updateKept_outbox | simp)+
  show "runsA d (writeUpdate env ctx (fnStatus f) status g) ?S"
    unfolding writeUpdate_def
  proof (rule runs_write [OF publishIfNew_effect [OF f row]]; (assumption | simp; fail)?)
    fix f2 d1 assume pub: "updateKept f status d d1 \<and> fnID f2 = fnID g \<and> fnUUID f2 = fnUUID g \<and> updatedRow f name status d1 f2"
    show "runsA d1 (bindA (Function_Update f2) (\<lambda>_.
        bindA (handleA (syncFunctionMenu env ctx f2 (fnStatus f) status) (\<lambda>e.
          bindA (RecordEvent env (fnUUID f2) (fnActiveReleaseID f2) ''menu.sync'' [(''status'', status)]) (\<lambda>_. failA e))) (\<lambda>f3.
        bindA (Function_Update f3) (\<lambda>_. bindA (?deliver f3) (\<lambda>_. bindA (?unpub f3) (\<lambda>_.
        bindA (syncDocumentStateFromFiles env f3) (\<lambda>f4. retA (modelFunctionToProto env f4)))))))) ?S"
    proof (rule runs_write [OF upd], use pub in simp, rule runs_write [OF syncMenu_effect])
      fix x f3 d2 d3
      assume d2: "d2 = d1\<lparr>fdFunctions := updateRows (\<lambda>row. fnID row = fnID f2) (storedFunction f2) (fdFunctions d1)\<rparr>"
        and f3: "d3 = d2 \<and> (\<exists>m. f3 = withMenuID m f2)"
      have i: "fnID f3 = fnID f" "fnUUID f3 = fnUUID f" using pub f(1,2) f3 by (auto simp: withMenuID_def)
      have kept: "updateKept f status d d3"
        using pub f f3 d2 update_frame.trans [OF _ updateKept_write [of f2 f]] by simp
      have new: "updatedRow f name status d3 f3" using pub f3 by (auto simp: d2)
      show "runsA d3 (bindA (Function_Update f3) (\<lambda>_. bindA (?deliver f3) (\<lambda>_. bindA (?unpub f3) (\<lambda>_.
          bindA (syncDocumentStateFromFiles env f3) (\<lambda>f4. retA (modelFunctionToProto env f4)))))) ?S"
      proof (rule runs_write [OF upd])
        fix x d4 assume d4: "d4 = d3\<lparr>fdFunctions := updateRows (\<lambda>row. fnID row = fnID f3) (storedFunction f3) (fdFunctions d3)\<rparr>"
        have "rowsUpdated f name status d d4"
          unfolding d4 by (rule rowsUpdated_write [OF updateKept_work [OF kept] new i(1)])
        moreover have "updateKept f status d d4"
          unfolding d4 by (rule update_frame.trans [OF kept updateKept_write [OF i]])
        ultimately show "runsA d4 (bindA (?deliver f3) (\<lambda>_. bindA (?unpub f3) (\<lambda>_.
            bindA (syncDocumentStateFromFiles env f3) (\<lambda>f4. retA (modelFunctionToProto env f4))))) ?S"
          by (intro rest conjI)
      qed (use kept in simp)
    next
      fix x d2 e d3 assume d2: "d2 = d1\<lparr>fdFunctions := updateRows (\<lambda>row. fnID row = fnID f2) (storedFunction f2) (fdFunctions d1)\<rparr>"
        and out: "outboxOnly d2 d3"
      have "updateKept f status d d2"
        using pub f d2 update_frame.trans [OF _ updateKept_write [of f2 f]] by simp
      then show "?S (Inl e) d3" using update_frame.trans [OF _ updateKept_outbox [OF out]] by simp
    qed
  qed
qed


lemma syncCodeVersions_fields:
  "fnID (syncCodeVersionsOnPublish f) = fnID f" "fnUUID (syncCodeVersionsOnPublish f) = fnUUID f"
  "fnGeneratedAppID (syncCodeVersionsOnPublish f) = fnGeneratedAppID f"
  "fnCodeVersion f > 0 \<Longrightarrow> fnCodeVersion (syncCodeVersionsOnPublish f) > 0"
  by (simp_all add: syncCodeVersionsOnPublish_def Let_def)

lemma checkUpdate_Inr:
  assumes "checkUpdate f0 status stage menuParentID = Inr f1"
  shows "fnID f1 = fnID f0 \<and> fnUUID f1 = fnUUID f0 \<and> fnGeneratedAppID f1 = fnGeneratedAppID f0 \<and>
    (status = FunctionStatusPublished \<longrightarrow>
       fnCodeVersion f0 > 0 \<and> fnCodeVersion f1 > 0 \<and> trimSpace (fnGeneratedAppID f1) \<noteq> [] \<and> menuParentID \<noteq> [])"
  using assms
  by (auto simp: checkUpdate_def Let_def functionHasGeneratedCode_def syncCodeVersions_fields split: if_splits)

text \<open>
  The request names this function, the caller may edit, and, when the status changes, may publish or
  unpublish; a function that is to be published has an application.
\<close>

definition updateAllowed :: "fenv \<Rightarrow> goctx \<Rightarrow> gostr \<Rightarrow> fndb \<Rightarrow> fnrow \<Rightarrow> gostr \<Rightarrow> bool" where
  "updateAllowed env ctx i d f status \<longleftrightarrow>
     firstRow fnID (\<lambda>f. fnUUID f = i) (fdFunctions d) = Inr f \<and>
     permitted (feSystem env) ctx functionPermissionEdit \<and>
     (status = fnStatus f \<or> permitted (feSystem env) ctx
        (if status = FunctionStatusPublished then functionPermissionPublish else functionPermissionUnpublish)) \<and>
     (status = FunctionStatusPublished \<longrightarrow> fnCodeVersion f > 0 \<and> trimSpace (fnGeneratedAppID f) \<noteq> [])"

text \<open>
  C20: an update needs the permission to edit, and one that changes the status also the
  permission to publish or to unpublish; a function is published only with generated code.
  Afterwards the row has the requested name and status; a published function has a place in the
  menu, and one that was not published before has gone live: exactly one release of it is
  published, one of its application, and its row points to this release.  An error of a request
  that is not allowed changes nothing.  Whatever the outcome, the rows and releases of other
  functions are as before, and so are its own releases unless it goes live by this request.
\<close>

theorem UpdateFunction_gate:
  "effectA (UpdateFunction env ctx req)
     (\<lambda>d _ d'. \<exists>f status. status = normalizeFunctionStatus (trimSpace (updateReq.uqStatus req)) (fnStatus f) \<and>
        updateAllowed env ctx (trimSpace (updateReq.uqId req)) d f status \<and>
        rowsUpdated f (trimSpace (updateReq.uqName req)) status d d' \<and> updateKept f status d d')
     (\<lambda>d e d'. d' = d \<or> (\<exists>f status. status = normalizeFunctionStatus (trimSpace (updateReq.uqStatus req)) (fnStatus f) \<and>
        updateAllowed env ctx (trimSpace (updateReq.uqId req)) d f status \<and> updateKept f status d d'))"
proof (rule effectA_runs)
  fix d :: fndb
  let ?name = "trimSpace (updateReq.uqName req)"
  let ?status = "\<lambda>f. normalizeFunctionStatus (trimSpace (updateReq.uqStatus req)) (fnStatus f)"
  let ?code = "\<lambda>st. if st = FunctionStatusPublished then functionPermissionPublish else functionPermissionUnpublish"
  let ?S = "\<lambda>r d'. case r of Inl e \<Rightarrow> d' = d \<or> (\<exists>f st. st = ?status f \<and>
        updateAllowed env ctx (trimSpace (updateReq.uqId req)) d f st \<and> updateKept f st d d')
    | Inr _ \<Rightarrow> \<exists>f st. st = ?status f \<and> updateAllowed env ctx (trimSpace (updateReq.uqId req)) d f st \<and>
        rowsUpdated f ?name st d d' \<and> updateKept f st d d'"
  have core: "runsA d (writeUpdate env ctx (fnStatus f0) (?status f0) (f1\<lparr>fnName := ?name, fnDescription := a,
      fnStatus := ?status f0, fnWorkflowStage := stage, fnMenuParentID := menu, fnUpdatedAt := now\<rparr>)) ?S"
    if perm: "Require (feSystem env) ctx functionPermissionEdit w1 = (Inr u1, v1)"
      and get: "firstRow fnID (\<lambda>f. fnUUID f = trimSpace (updateReq.uqId req)) (fdFunctions d) = Inr stored"
      and sync: "syncDocumentStateFromFiles env stored w3 = (Inr f0, v3)"
      and check: "liftA (checkUpdate f0 (?status f0) stage menu) w4 = (Inr f1, v4)"
      and change: "(if fnStatus f0 \<noteq> ?status f0 then Require (feSystem env) ctx (?code (?status f0)) else retA ()) w5 = (Inr u5, v5)"
    for w1 v1 stored w3 f0 v3 w4 f1 v4 w5 v5 a stage menu now and u1 u5 :: unit
  proof -
    let ?g = "f1\<lparr>fnName := ?name, fnDescription := a, fnStatus := ?status f0, fnWorkflowStage := stage,
      fnMenuParentID := menu, fnUpdatedAt := now\<rparr>"
    note fields = sync_fields [OF sync]
    have st: "fnStatus f0 = fnStatus stored" using fields by simp
    have c: "checkUpdate f0 (?status f0) stage menu = Inr f1" using check by simp
    have eff: "effectA (writeUpdate env ctx (fnStatus f0) (?status f0) ?g)
        (\<lambda>d _ d'. rowsUpdated stored ?name (?status f0) d d' \<and> updateKept stored (?status f0) d d')
        (\<lambda>d e d'. updateKept stored (?status f0) d d')"
      unfolding st by (rule writeUpdate_effect) (use checkUpdate_Inr [OF c] fields in auto)
    have "?status f0 = fnStatus stored \<or> permitted (feSystem env) ctx (?code (?status f0))"
      using change fields Require_permitted [of "feSystem env" ctx "?code (?status f0)" w5 u5 v5] by (auto split: if_splits)
    then have ok: "?status f0 = ?status stored \<and> updateAllowed env ctx (trimSpace (updateReq.uqId req)) d stored (?status f0)"
      using get Require_permitted [OF perm] fields checkUpdate_Inr [OF c] by (auto simp: updateAllowed_def)
    show ?thesis
    proof (rule runs_effect [OF eff])
      show "?S (Inr x) d'" if "rowsUpdated stored ?name (?status f0) d d' \<and> updateKept stored (?status f0) d d'" for x d'
        using ok that unfolding sum.case by blast
      show "?S (Inl e) d'" if "updateKept stored (?status f0) d d'" for e d'
        using ok that unfolding sum.case by blast
    qed
  qed
  show "runsA d (UpdateFunction env ctx req) ?S"
    unfolding UpdateFunction_def Let_def
    by (intro runs_if runs_end core runs_read; (auto intro: readonly_split; fail)?; (assumption | (drule Function_Get_iff, simp; fail))?)
qed


subsection \<open>Readiness\<close>

text \<open>
   The next action that the service proposes is to publish exactly when both documents are
  applied, no newer draft waits, the technical document and the code are in step with what they
  were made from, the code is there, and the function is not published yet.
\<close>

theorem ready_to_publish:
  "rdNextAction (buildFunctionReadiness f) = ''publish_function'' \<longleftrightarrow>
   fnProductDocVersion f \<noteq> 0 \<and> fnProductDraftVersion f \<le> fnProductDocVersion f \<and>
   fnTechnicalDocVersion f \<noteq> 0 \<and> fnTechnicalDraftVersion f \<le> fnTechnicalDocVersion f \<and>
   \<not> vfTechnicalStale (functionVersionFlags f) \<and> \<not> vfCodeStale (functionVersionFlags f) \<and>
   functionHasGeneratedCode f \<and> fnStatus f \<noteq> FunctionStatusPublished"
  by (auto simp: buildFunctionReadiness_def Let_def functionVersionFlags_def)

end
