(* ===== verification/Func_Lifecycle.thy ===== *)
theory Func_Lifecycle
  imports Func_Gates
begin

text \<open>
  The ledgers behind the tables: a release, once staged, keeps its content and only moves on to
  published and to revoked; a conversation operation keeps its scope and its baseline, and once
  it has ended it is not active again.  Every handler refines these two small machines.
\<close>

subsection \<open>Ledgers\<close>

text \<open>
  A ledger maps an identifier to what never changes and to a phase.  It moves when identifiers
  are added and phases rise.
\<close>

type_synonym 'c ledger = "gostr \<rightharpoonup> 'c \<times> nat"

definition ledger :: "('r \<Rightarrow> gostr) \<Rightarrow> ('r \<Rightarrow> 'c) \<Rightarrow> ('r \<Rightarrow> nat) \<Rightarrow> 'r list \<Rightarrow> 'c ledger" where
  "ledger k c ph rows = map_of (map (\<lambda>r. (k r, c r, ph r)) rows)"

definition moves :: "'c ledger \<Rightarrow> 'c ledger \<Rightarrow> bool" where
  "moves a b \<longleftrightarrow> (\<forall>i c n. a i = Some (c, n) \<longrightarrow> (\<exists>m \<ge> n. b i = Some (c, m)))"

lemma moves_refl [simp]: "moves a a"
  by (auto simp: moves_def)

lemma moves_trans: "moves a b \<Longrightarrow> moves b c \<Longrightarrow> moves a c"
  unfolding moves_def by (metis order_trans)

lemma moves_append [simp]: "moves (ledger k c ph rows) (ledger k c ph (rows @ new))"
  by (auto simp: moves_def ledger_def map_add_def)

lemma moves_map:
  "(\<And>r. r \<in> set rows \<Longrightarrow> k (f r) = k r \<and> c (f r) = c r \<and> ph r \<le> ph (f r)) \<Longrightarrow>
   moves (ledger k c ph rows) (ledger k c ph (map f rows))"
proof (induction rows)
  case (Cons r rows)
  have "moves (ledger k c ph rows) (ledger k c ph (map f rows))" using Cons by simp
  then show ?case using Cons.prems [of r] by (auto simp: moves_def ledger_def)
qed (simp add: ledger_def)

lemma moves_update:
  "(\<And>r. r \<in> set rows \<Longrightarrow> p r \<Longrightarrow> k (f r) = k r \<and> c (f r) = c r \<and> ph r \<le> ph (f r)) \<Longrightarrow>
   moves (ledger k c ph rows) (ledger k c ph (updateRows p f rows))"
  unfolding updateRows_def by (rule moves_map) simp

subsection \<open>Releases and operations\<close>

record releaseContent =
  rcFunctionID :: gostr
  rcAppID :: gostr
  rcVersion :: int
  rcArtifact :: gostr
  rcManifest :: gostr
  rcCreatedBy :: gostr
  rcCreatedAt :: int

definition releaseContent :: "release \<Rightarrow> releaseContent" where
  "releaseContent r = \<lparr>rcFunctionID = relFunctionID r, rcAppID = relAppID r, rcVersion = relVersion r,
     rcArtifact = relArtifact r, rcManifest = relManifest r, rcCreatedBy = relCreatedBy r,
     rcCreatedAt = relCreatedAt r\<rparr>"

text \<open>Staged, published, revoked.\<close>

definition releasePhase :: "release \<Rightarrow> nat" where
  "releasePhase r = (if relStatus r = ReleaseRevoked then 2 else if relStatus r = ReleasePublished then 1 else 0)"

definition releaseLedger :: "fndb \<Rightarrow> releaseContent ledger" where
  "releaseLedger d = ledger relUUID releaseContent releasePhase (fdReleases d)"

record operationScope =
  osFunctionID :: gostr
  osSessionID :: gostr
  osConversation :: gostr
  osUserID :: gostr
  osBaseline :: "(gostr \<rightharpoonup> int) option"
  osCreatedAt :: int

definition operationScope :: "convOp \<Rightarrow> operationScope" where
  "operationScope p = \<lparr>osFunctionID = coFunctionID p, osSessionID = coSessionID p, osConversation = coConversation p,
     osUserID = coUserID p, osBaseline = coBaseline p, osCreatedAt = coCreatedAt p\<rparr>"

text \<open>Active, ended without a result, completed.\<close>

definition operationPhase :: "convOp \<Rightarrow> nat" where
  "operationPhase p = (if activeState (coState p) then 0 else if coState p = OpCompleted then 2 else 1)"

definition operationLedger :: "fndb \<Rightarrow> operationScope ledger" where
  "operationLedger d = ledger coUUID operationScope operationPhase (fdOps d)"

definition forward :: "fndb \<Rightarrow> fndb \<Rightarrow> bool" where
  "forward d d' \<longleftrightarrow> moves (releaseLedger d) (releaseLedger d') \<and>
     (distinct (map coUUID (fdOps d)) \<longrightarrow>
        distinct (map coUUID (fdOps d')) \<and> moves (operationLedger d) (operationLedger d'))"

interpretation forward: frame_relation forward
  by unfold_locales (auto simp: forward_def intro: moves_trans)

lemma forward_rows:
  "fdReleases d' = fdReleases d \<Longrightarrow> fdOps d' = fdOps d \<Longrightarrow> forward d d'"
  by (simp add: forward_def releaseLedger_def operationLedger_def)

lemma forward_releases:
  "moves (releaseLedger d) (releaseLedger d') \<Longrightarrow> fdOps d' = fdOps d \<Longrightarrow> forward d d'"
  by (simp add: forward_def operationLedger_def)

lemma forward_ops:
  "fdReleases d' = fdReleases d \<Longrightarrow> map coUUID (fdOps d') = map coUUID (fdOps d) \<Longrightarrow>
   (distinct (map coUUID (fdOps d)) \<Longrightarrow> moves (operationLedger d) (operationLedger d')) \<Longrightarrow> forward d d'"
  by (simp add: forward_def releaseLedger_def)

subsection \<open>Statements\<close>

named_theorems forward_rules

lemma leaves_ignore [forward_rules]: "leavesA forward m \<Longrightarrow> leavesA forward (ignoreA m)"
  unfolding ignoreA_def by (intro forward.leaves_rules) (simp_all add: forward.leaves_readonly)

lemma leaves_outboxOnly: "leavesA outboxOnly m \<Longrightarrow> leavesA forward m"
proof -
  have "forward d d'" if "outboxOnly d d'" for d d'
  proof -
    have e: "d' = d\<lparr>fdSeq := fdSeq d', fdOutbox := fdOutbox d'\<rparr>" using that by (simp add: outboxOnly_def)
    show ?thesis using arg_cong [OF e, of fdReleases] arg_cong [OF e, of fdOps] by (intro forward_rows) simp_all
  qed
  then show "leavesA outboxOnly m \<Longrightarrow> leavesA forward m" unfolding leavesA_def by blast
qed

lemma statements_forward [forward_rules]:
  "leavesA forward (Function_Create f)" "leavesA forward (Function_Delete i)" "leavesA forward (Function_Update f)"
  "leavesA forward (activateByID n i now)" "leavesA forward (Outbox_Requeue now)" "leavesA forward (claimOne now ev)"
  "leavesA forward (Outbox_MarkDone n now)" "leavesA forward (Outbox_MarkRetry n next e now)"
  "leavesA forward (removeAll dir)"
  unfolding Function_Create_def Function_Delete_def Function_Update_def activateByID_def Outbox_Requeue_def
    claimOne_def Outbox_MarkDone_def Outbox_MarkRetry_def removeAll_def
  by (rule forward.leaves_stmt, rule forward_rows; auto simp: insertFunction_def Let_def split: if_splits)+

lemma writeFile_forward [forward_rules]: "leavesA forward (writeFile p c)"
  unfolding writeFile_def
  by (rule forward.leaves_bind, simp add: forward.leaves_readonly, rule forward.leaves_stmt, rule forward_rows) auto

lemma events_forward [forward_rules]:
  "leavesA forward (Outbox_Create ev)" "leavesA forward (tryDeliverRealtimeEvent env ev)"
  "leavesA forward (RecordEvent env a b c p)" "leavesA forward (DeliverFunctionPublished env a)"
  "leavesA forward (RecordFunctionUnpublished env f)"
  by (rule leaves_outboxOnly, rule leaves_outbox)+

lemma releases_forward [forward_rules]:
  "leavesA forward (stmtA (insertRelease r))" "leavesA forward (Release_RevokeByFunctionID i now)"
proof -
  show "leavesA forward (stmtA (insertRelease r))"
    by (rule forward.leaves_stmt, rule forward_releases)
      (auto simp: insertRelease_def Let_def releaseLedger_def split: if_splits)
  have "moves (releaseLedger d) (releaseLedger (d\<lparr>fdReleases := revokeRows i now (fdReleases d)\<rparr>))" for d
    unfolding releaseLedger_def revokeRows_def
    by (auto intro!: moves_update simp: releaseContent_def releasePhase_def rl_consts)
  then show "leavesA forward (Release_RevokeByFunctionID i now)"
    unfolding Release_RevokeByFunctionID_def
    by (auto intro!: forward.leaves_stmt forward_releases)
qed

lemma operations_forward [forward_rules]:
  "leavesA forward (Op_SupersedeActive a b c e now)" "leavesA forward (Op_finish i st ts tr out now)"
  "leavesA forward (Op_Create p)" "leavesA forward (Exec_Complete x i)"
proof -
  have active: "forward d (d\<lparr>fdOps := updateRows P f (fdOps d)\<rparr>)"
    if "\<And>p. coUUID (f p) = coUUID p \<and> operationScope (f p) = operationScope p"
      and "\<And>p. P p \<Longrightarrow> operationPhase p \<le> operationPhase (f p)" for d P f
  proof (rule forward_ops)
    show "moves (operationLedger d) (operationLedger (d\<lparr>fdOps := updateRows P f (fdOps d)\<rparr>))"
      using that by (auto intro!: moves_update simp: operationLedger_def)
  qed (use that in \<open>auto simp: updateRows_def\<close>)
  show "leavesA forward (Op_SupersedeActive a b c e now)" unfolding Op_SupersedeActive_def
    by (auto intro!: forward.leaves_stmt active simp: operationScope_def operationPhase_def)
  show "leavesA forward (Op_finish i st ts tr out now)" unfolding Op_finish_def
    by (intro forward.leaves_bind forward.leaves_stmt forward.leaves_readonly readonly_fn)
      (auto intro!: active simp: operationScope_def operationPhase_def)
  have ins: "forward d d'" if "insertOp p d = Inr (x, d')" for d x d'
    using that by (auto simp: insertOp_def Let_def forward_def releaseLedger_def operationLedger_def split: if_splits)
  show "leavesA forward (Op_Create p)" unfolding Op_Create_def by (rule forward.leaves_stmt) (rule ins)
  have exec: "leavesA forward (stmtA (insertExec x))"
    by (rule forward.leaves_stmt, rule forward_rows) (auto simp: insertExec_def split: if_splits)
  have upd: "leavesA forward (stmtA (\<lambda>d. Inr ((), d\<lparr>fdOps := updateRows (\<lambda>p. coUUID p = i) (completedBy x) (fdOps d)\<rparr>)))"
    by (auto intro!: forward.leaves_stmt active
        simp: completedBy_def operationScope_def operationPhase_def activeState_def op_consts)
  show "leavesA forward (Exec_Complete x i)" unfolding Exec_Complete_def Exec_record_def
    by (intro forward.leaves_rules exec upd forward.leaves_readonly readonly_fn readonly_try readonly_basic)
qed

subsection \<open>Handlers\<close>

lemma leaves_void [forward_rules]: "leavesA forward m \<Longrightarrow> leavesA forward (voidA m)"
  unfolding voidA_def by (intro forward.leaves_rules) (simp_all add: forward.leaves_readonly)

lemma claims_forward [forward_rules]: "leavesA forward (Outbox_ClaimReady now limit)"
proof -
  have "leavesA forward (claimAll now evs)" for evs
    by (induction evs) (simp_all add: forward.leaves_readonly forward.leaves_bind forward_rules)
  then show ?thesis unfolding Outbox_ClaimReady_def
    by (intro forward.leaves_bind) (simp_all add: forward.leaves_readonly)
qed

lemma Stage_forward [forward_rules]: "leavesA forward (Stage env ctx f)"
  unfolding Stage_def stageNext_def Release_CreateStaged_def Let_def
  by (intro forward.leaves_rules forward_rules) (simp_all add: forward.leaves_readonly)

text \<open>Only a release that is not revoked is published.\<close>

lemma published_forward:
  assumes pub: "published (relUUID r) now ev d d'" and r: "r \<in> set (fdReleases d)" "relStatus r \<noteq> ReleaseRevoked"
  shows "forward d d'"
proof -
  obtain q where one: "filter (\<lambda>s. relUUID s = relUUID r) (fdReleases d) = [q]"
    and rel: "fdReleases d' = map (publishRow (relFunctionID q) (relUUID r) now) (fdReleases d)" and ops: "fdOps d' = fdOps d"
    using pub unfolding published_def by blast
  have "s = r" if "s \<in> set (fdReleases d)" "relUUID s = relUUID r" for s
  proof -
    have "s \<in> set (filter (\<lambda>s. relUUID s = relUUID r) (fdReleases d))"
      "r \<in> set (filter (\<lambda>s. relUUID s = relUUID r) (fdReleases d))" using that r by simp_all
    then show ?thesis unfolding one by simp
  qed
  then have "moves (releaseLedger d) (releaseLedger d')" unfolding releaseLedger_def rel
    using r(2) by (intro moves_map) (auto simp: publishRow_def releaseContent_def releasePhase_def)
  then show ?thesis using ops by (rule forward_releases)
qed

lemma Publish_forward [forward_rules]: "leavesA forward (Publish env ctx f)"
proof (rule leaves_runs)
  fix d
  show "runsA d (Publish env ctx f) (\<lambda>_ d'. forward d d')"
    unfolding Publish_def Let_def
  proof (rule runs_write [OF effect_leaves [OF Stage_effect Stage_forward]])
    fix r d1 assume st: "(liveRelease f r \<and> r \<in> set (fdReleases d1) \<and> trimSpace (fnGeneratedAppID f) \<noteq> [] \<and>
        (\<exists>n rs. (\<forall>q \<in> set rs. relFunctionID q = fnUUID f) \<and> d1 = d\<lparr>fdSeq := n, fdReleases := fdReleases d @ rs\<rparr>)) \<and> forward d d1"
    have pub: "forward d d2" if "\<exists>ev. published (relUUID r) now ev d1 d2" for now d2
      using that st published_forward [of r now _ d1 d2] by (auto simp: liveRelease_def intro: forward.trans)
    have rest: "runsA d2 (bindA (RestorePublished env) (\<lambda>_. bindA (case feSkills env of None \<Rightarrow> retA ()
        | Some sk \<Rightarrow> callA (skSync sk g r')) (\<lambda>_. retA r'))) (\<lambda>_ d'. forward d d')"
      if "forward d d2" for d2 g r'
      using that by (intro runs_readonly readonly_bind) (auto split: option.splits)
    show "runsA d1 (case feRuntime env of None \<Rightarrow> failA releaseRuntimeMissing
        | Some rt \<Rightarrow> bindA (callA (rtApplyModels rt (relAppID r))) (\<lambda>_.
            bindA (callA (rtPromote rt (relAppID r) (relArtifact r))) (\<lambda>_.
            bindA nowA (\<lambda>now.
            bindA (if feOutbox env
                then wrapErrA (\<lambda>e. Err (''publish function release: '' @ errText e))
                       (Release_PublishWithOutbox (relUUID r) now (publishedEvent f r now))
                else Release_Publish (relUUID r) now) (\<lambda>_.
            bindA (RestorePublished env) (\<lambda>_.
            bindA (case feSkills env of None \<Rightarrow> retA ()
                   | Some sk \<Rightarrow> callA (skSync sk (f\<lparr>fnActiveReleaseID := relUUID r\<rparr>)
                       (r\<lparr>relStatus := ReleasePublished, relPublishedAt := now, relUpdatedAt := now\<rparr>))) (\<lambda>_.
            retA (r\<lparr>relStatus := ReleasePublished, relPublishedAt := now, relUpdatedAt := now\<rparr>))))))))
        (\<lambda>_ d'. forward d d')"
      by (intro runs_cases(2) runs_end runs_total [OF readonly_basic(4)] runs_read [OF readonly_callA]
          runs_write [OF publication_effect] rest)
        (simp_all add: st pub)
  qed simp
qed

lemma release_handlers_forward [forward_rules]:
  "leavesA forward (RevokeFunctionReleases env i)" "leavesA forward (RevokeOrphanedPublished env)"
  "leavesA forward (BackfillLegacyPublished env)"
proof -
  show "leavesA forward (RevokeFunctionReleases env i)" "leavesA forward (RevokeOrphanedPublished env)"
    unfolding RevokeFunctionReleases_def RevokeOrphanedPublished_def
    by (intro forward.leaves_rules forward_rules; simp add: forward.leaves_readonly)+
  have "leavesA forward (Release_BackfillPublished a b c e now)" for a b c e now
    unfolding Release_BackfillPublished_def
    by (intro forward.leaves_rules forward_rules) (simp_all add: forward.leaves_readonly)
  then show "leavesA forward (BackfillLegacyPublished env)" unfolding BackfillLegacyPublished_def
    by (intro forward.leaves_rules forward_rules) (simp_all add: forward.leaves_readonly)
qed

lemma outbox_handlers_forward [forward_rules]:
  "leavesA forward (ProcessReady env ctx limit)" "leavesA forward (OutboxManagement_Replay env ctx limit)"
proof -
  show p: "leavesA forward (ProcessReady env ctx limit)"
    unfolding ProcessReady_def processOne_def
    by (intro forward.leaves_rules forward_rules) (simp_all add: forward.leaves_readonly)
  show "leavesA forward (OutboxManagement_Replay env ctx limit)"
    unfolding OutboxManagement_Replay_def
    by (intro forward.leaves_rules forward_rules p) (simp_all add: forward.leaves_readonly)
qed

lemma function_handlers_forward [forward_rules]:
  "leavesA forward (CreateFunction env ctx a b c)" "leavesA forward (DeleteFunction env ctx i)"
  "leavesA forward (UpdateFunction env ctx uq)" "leavesA forward (LoadFunctionDocument env ctx i t q)"
  "leavesA forward (CommitFunctionDocument env ctx i t)" "leavesA forward (MaterializeFunctionApp env ctx i)"
  "leavesA forward (TouchFunctionCodeDraft env ctx i)" "leavesA forward (ApplyFunctionCode env ctx i)"
  "leavesA forward (EnsureFunctionSession env ctx i t)"
  unfolding CreateFunction_def DeleteFunction_def UpdateFunction_def writeUpdate_def publishIfNew_def
    LoadFunctionDocument_def persistFunctionDocumentVersionsIfChanged_def CommitFunctionDocument_def
    commitFunctionDocument_def MaterializeFunctionApp_def TouchFunctionCodeDraft_def touchCodeDraftVersion_def
    ApplyFunctionCode_def EnsureFunctionSession_def Let_def
  by (intro forward.leaves_rules forward_rules; simp add: forward.leaves_readonly)+

lemma resume_forward [forward_rules]: "leavesA forward (resumeOperation i u f sid c now)"
proof (rule leaves_runs)
  fix d
  have eff: "effectA (Op_Resume k now) (\<lambda>d _ d'. d' = d\<lparr>fdOps := updateRows (\<lambda>p. coUUID p = k)
      (\<lambda>p. p\<lparr>coState := OpRunning, coTerminalStatus := [], coTerminalReason := [], coFinishedAt := 0,
             coUpdatedAt := now\<rparr>) (fdOps d)\<rparr>) (\<lambda>d e d'. d' = d)" for k
    unfolding Op_Resume_def by (rule effectA_I) (auto simp: stmtA_def split: option.splits)
  have resumed: "forward d (d\<lparr>fdOps := updateRows (\<lambda>q. coUUID q = coUUID p)
      (\<lambda>p. p\<lparr>coState := OpRunning, coTerminalStatus := [], coTerminalReason := [], coFinishedAt := 0,
             coUpdatedAt := now\<rparr>) (fdOps d)\<rparr>)"
    if get: "Op_Get i w = (Inr p, v)" "db w = d" and ok: "canResumeConversationOperation (coState p)" for p w v
  proof (rule forward_ops)
    have p: "p \<in> set (fdOps d)" using get by (auto simp: Op_Get_def queryA_Inr_iff dest: firstRow_Inr)
    assume "distinct (map coUUID (fdOps d))"
    then have "operationPhase q = 0" if "q \<in> set (fdOps d)" "coUUID q = coUUID p" for q
      using distinct_key_eq [of coUUID "fdOps d" q p] p that ok
      by (auto simp: operationPhase_def canResumeConversationOperation_def activeState_def op_consts)
    then show "moves (operationLedger d) (operationLedger (d\<lparr>fdOps := updateRows (\<lambda>q. coUUID q = coUUID p)
        (\<lambda>p. p\<lparr>coState := OpRunning, coTerminalStatus := [], coTerminalReason := [], coFinishedAt := 0,
               coUpdatedAt := now\<rparr>) (fdOps d)\<rparr>))"
      unfolding operationLedger_def by (auto intro!: moves_update simp: operationScope_def)
  qed (auto simp: updateRows_def)
  show "runsA d (resumeOperation i u f sid c now) (\<lambda>_ d'. forward d d')"
    unfolding resumeOperation_def
  proof (rule runs_read, rule readonly_fn(12), rule forward.same, rule runs_read, rule readonly_basic(3), rule forward.same,
      rule runs_if, rule runs_end(2), rule forward.same)
    fix p w v and x :: unit and wa va :: "fndb world"
    assume "db w = d" "Op_Get i w = (Inr p, v)" "\<not> \<not> canResumeConversationOperation (coState p)"
    then have "forward d (d\<lparr>fdOps := updateRows (\<lambda>q. coUUID q = coUUID p)
      (\<lambda>p. p\<lparr>coState := OpRunning, coTerminalStatus := [], coTerminalReason := [], coFinishedAt := 0,
             coUpdatedAt := now\<rparr>) (fdOps d)\<rparr>)" by (intro resumed) simp_all
    then show "runsA d (bindA (Op_Resume (coUUID p) now) (\<lambda>_. Op_Get (coUUID p))) (\<lambda>_ d'. forward d d')"
      by (intro runs_write [OF eff]) (auto intro: forward.same runs_readonly)
  qed
qed

lemma conversation_handlers_forward [forward_rules]:
  "leavesA forward (Start env ctx i c j)" "leavesA forward (Finish ctx i a b)" "leavesA forward (SubmitProgress ctx pq)"
proof -
  show "leavesA forward (Start env ctx i c j)" unfolding Start_def Let_def
    by (intro forward.leaves_rules forward_rules; simp add: forward.leaves_readonly)
  show "leavesA forward (Finish ctx i a b)" unfolding Finish_def Op_FinishIfActive_def Let_def
    by (intro forward.leaves_rules forward_rules; simp add: forward.leaves_readonly)
  have "leavesA forward (recordDraftOperation p now)" for p now unfolding recordDraftOperation_def
    by (intro forward.leaves_rules forward_rules; simp add: forward.leaves_readonly)
  then show "leavesA forward (SubmitProgress ctx pq)" unfolding SubmitProgress_def Let_def
    by (intro forward.leaves_rules forward_rules; simp add: forward.leaves_readonly)
qed

lemma functionCall_forward: "functionCall env m \<Longrightarrow> leavesA forward m"
  by (induction rule: functionCall.induct) (rule forward.leaves_readonly, assumption, (intro forward_rules)+)

lemma functionStep_forward: "functionStep env d d' \<Longrightarrow> forward d d'"
proof (induction rule: functionStep.induct)
  case (fn_call m w)
  then show ?case using functionCall_forward [of env m] by (simp add: leavesA_def)
next
  case (fn_files d files)
  then show ?case by (intro forward_rows) simp_all
qed

text \<open>
  C19: any sequence of calls refines the two ledgers.  A release keeps its function, application,
  version, artifact and manifest for good and only goes from staged to published to revoked: a
  revoked release never goes live again.  An operation keeps its scope and its baseline, and an
  operation that has ended is never active again, a completed one stays completed.
\<close>

theorem functions_refine_ledgers:
  assumes "distinct (map coUUID (fdOps d))" and "(functionStep env)\<^sup>*\<^sup>* d d'"
  shows "moves (releaseLedger d) (releaseLedger d') \<and> moves (operationLedger d) (operationLedger d')"
proof -
  have "forward d d'" using assms(2)
    by (induction rule: rtranclp_induct) (auto intro: forward.same forward.trans functionStep_forward)
  then show ?thesis using assms(1) by (simp add: forward_def)
qed

text \<open>The witness: a published release whose function is gone is revoked.\<close>

definition demoRelease :: release where
  "demoRelease = \<lparr>relID = 1, relUUID = ''r'', relFunctionID = ''f'', relAppID = ''app'', relVersion = 1,
     relArtifact = ''sha'', relManifest = [], relStatus = ReleasePublished, relCreatedBy = ''u'', relCreatedAt = 1,
     relPublishedAt = 2, relUpdatedAt = 2\<rparr>"

definition demoOrphan :: fndb where
  "demoOrphan = emptyTables\<lparr>fdSeq := 1, fdReleases := [demoRelease]\<rparr>"

definition demoRevoked :: fndb where
  "demoRevoked = db (snd (RevokeOrphanedPublished demoFenv (exampleWorld demoOrphan)))"

theorem functions_refine_ledgers_witness:
  "releaseLedger demoOrphan ''r'' = Some (releaseContent demoRelease, 1) \<and>
   releaseLedger demoRevoked ''r'' = Some (releaseContent demoRelease, 2) \<and>
   moves (releaseLedger demoOrphan) (releaseLedger demoRevoked)"
proof -
  have "functionStep demoFenv (db (exampleWorld demoOrphan)) demoRevoked"
    unfolding demoRevoked_def by (rule fn_call [OF fn_orphans exampleWorld_uuids])
  then have "(functionStep demoFenv)\<^sup>*\<^sup>* demoOrphan demoRevoked" by (simp add: exampleWorld_def)
  moreover have "fdOps demoOrphan = []" by (simp add: demoOrphan_def emptyTables_def)
  moreover have "map (\<lambda>r. (relUUID r, releaseContent r, releasePhase r)) (fdReleases demoRevoked) =
      [(''r'', releaseContent demoRelease, 2)]"
    by (simp add: demoRevoked_def RevokeOrphanedPublished_def demoFenv_def Release_ListPublished_def Function_Exists_def
        queryA_def stmtA_def exampleWorld_def demoOrphan_def emptyTables_def demoRelease_def bindA_def retA_def nowA_def
        Release_RevokeByFunctionID_def revokeRows_def updateRows_def revokeSkills_def releaseContent_def releasePhase_def)
  ultimately show ?thesis using functions_refine_ledgers [of demoOrphan demoFenv demoRevoked]
    by (simp add: releaseLedger_def ledger_def demoOrphan_def demoRelease_def releaseContent_def releasePhase_def)
qed

end
