(* ===== verification/Func_Types.thy ===== *)
theory Func_Types
  imports Func_Lifecycle
begin

text \<open>
  The columns of the function tables that hold names from a fixed set: in every reachable state
  they hold one of these names, whatever texts the requests carry.
\<close>

definition functionTyped :: "fnrow \<Rightarrow> bool" where
  "functionTyped f \<longleftrightarrow> fnStatus f \<in> {FunctionStatusDraft, FunctionStatusPublished} \<and>
     fnWorkflowStage f \<in> {StageProductDoc, StageTechnicalDoc, StageCodeGeneration, StageCodeGenerated}"

definition releaseStatuses :: "gostr set" where
  "releaseStatuses = {ReleaseStaged, ReleasePublished, ReleaseRevoked}"

definition operationStates :: "gostr set" where
  "operationStates = {OpRunning, OpAwaitingUser, OpNeedsContinue, OpCompleted, OpBlocked, OpCancelled, OpSuperseded}"

definition outboxStatuses :: "gostr set" where
  "outboxStatuses = {''pending'', ''processing'', ''done'', ''failed''}"

definition tables_typed :: "fndb \<Rightarrow> bool" where
  "tables_typed d \<longleftrightarrow> (\<forall>f \<in> set (fdFunctions d). functionTyped f) \<and>
     (\<forall>r \<in> set (fdReleases d). relStatus r \<in> releaseStatuses) \<and>
     (\<forall>p \<in> set (fdOps d). coState p \<in> operationStates) \<and>
     (\<forall>ev \<in> set (fdOutbox d). oeStatus ev \<in> outboxStatuses)"

lemmas status_sets = releaseStatuses_def operationStates_def outboxStatuses_def

definition staysTyped :: "fndb \<Rightarrow> fndb \<Rightarrow> bool" where
  "staysTyped d d' \<longleftrightarrow> (tables_typed d \<longrightarrow> tables_typed d')"

interpretation typed: frame_relation staysTyped
  by unfold_locales (auto simp: staysTyped_def)

text \<open>Behind a statement that only reads, what it read from typed tables is known.\<close>

lemma typed_read:
  assumes "readonly m" and "\<And>x w v. tables_typed (db w) \<Longrightarrow> m w = (Inr x, v) \<Longrightarrow> leavesA staysTyped (k x)"
  shows "leavesA staysTyped (bindA m k)"
proof (rule leaves_runs, rule runs_read [OF assms(1)])
  fix d e show "staysTyped d d" by (rule typed.same)
next
  fix d x w v assume "db w = d" and run: "m w = (Inr x, v)"
  then show "runsA d (k x) (\<lambda>_ d'. staysTyped d d')"
  proof (cases "tables_typed d")
    case True
    then have "leavesA staysTyped (k x)" using assms(2) [of w x v] \<open>db w = d\<close> run by simp
    then show ?thesis by (rule runs_leaves)
  qed (simp add: staysTyped_def runsA_def)
qed

lemma typed_value:
  assumes "leavesA staysTyped m" and "\<And>w x v. m w = (Inr x, v) \<Longrightarrow> T x" and "\<And>x. T x \<Longrightarrow> leavesA staysTyped (k x)"
  shows "leavesA staysTyped (bindA m k)"
proof (rule leaves_runs, rule runs_seq, rule runsAI)
  fix d w r w' assume d: "db w = d" and run: "m w = (r, w')"
  have step: "staysTyped d (db w')" using leavesAD [OF assms(1) run] d by simp
  show "case r of Inl e \<Rightarrow> staysTyped d (db w') | Inr x \<Rightarrow> runsA (db w') (k x) (\<lambda>_ d'. staysTyped d d')"
  proof (cases r)
    case (Inr x)
    then have "leavesA staysTyped (k x)" using assms(2,3) run by blast
    then show ?thesis using Inr step by (auto intro: runs_leaves typed.trans)
  qed (use step in simp)
qed

lemma typed_stmt:
  "(\<And>d x d'. tables_typed d \<Longrightarrow> f d = Inr (x, d') \<Longrightarrow> tables_typed d') \<Longrightarrow> leavesA staysTyped (stmtA f)"
  by (rule typed.leaves_stmt) (auto simp: staysTyped_def)

lemma updateRowsE:
  assumes "x \<in> set (updateRows p f rows)"
  obtains r where "r \<in> set rows" "p r" "x = f r" | "x \<in> set rows" "\<not> p x"
  using assms by (auto simp: updateRows_def split: if_splits)

subsection \<open>Statements\<close>

named_theorems typed_rules

lemma typed_ignore [typed_rules]: "leavesA staysTyped m \<Longrightarrow> leavesA staysTyped (ignoreA m)"
  unfolding ignoreA_def by (intro typed.leaves_rules) (simp_all add: typed.leaves_readonly)

lemma function_typed_rules [typed_rules]:
  "functionTyped f \<Longrightarrow> leavesA staysTyped (Function_Create f)" "leavesA staysTyped (Function_Delete i)"
  "functionTyped f \<Longrightarrow> leavesA staysTyped (Function_Update f)" "leavesA staysTyped (activateByID n i now)"
  "leavesA staysTyped (removeAll dir)" "leavesA staysTyped (writeFile p c)"
proof -
  show "leavesA staysTyped (Function_Create f)" if "functionTyped f"
    unfolding Function_Create_def
    by (rule typed_stmt)
      (use that in \<open>auto simp: insertFunction_def Let_def tables_typed_def functionTyped_def fnDefaults_def split: if_splits\<close>)
  show "leavesA staysTyped (Function_Delete i)" unfolding Function_Delete_def
    by (rule typed_stmt) (auto simp: tables_typed_def split: if_splits)
  have stored: "functionTyped (storedFunction g row)" if "functionTyped g" for g row
    using that by (simp add: functionTyped_def storedFunction_def)
  show "leavesA staysTyped (Function_Update f)" if "functionTyped f" unfolding Function_Update_def
    by (rule typed_stmt) (use that stored in \<open>auto simp: tables_typed_def elim!: updateRowsE\<close>)
  have point: "functionTyped (g\<lparr>fnActiveReleaseID := i, fnUpdatedAt := now\<rparr>) = functionTyped g" for g
    by (simp add: functionTyped_def)
  show "leavesA staysTyped (activateByID n i now)" unfolding activateByID_def
    by (rule typed_stmt) (auto simp: tables_typed_def point elim!: updateRowsE)
  show "leavesA staysTyped (removeAll dir)" unfolding removeAll_def
    by (rule typed_stmt) (auto simp: tables_typed_def)
  have "leavesA staysTyped (stmtA (\<lambda>d. Inr ((), d\<lparr>fdFiles := (fdFiles d)(p \<mapsto> (c, now))\<rparr>)))" for now
    by (rule typed_stmt) (auto simp: tables_typed_def)
  then show "leavesA staysTyped (writeFile p c)" unfolding writeFile_def
    by (intro typed.leaves_bind) (simp_all add: typed.leaves_readonly)
qed

lemma event_typed_rules [typed_rules]:
  "oeStatus ev \<in> outboxStatuses \<Longrightarrow> leavesA staysTyped (Outbox_Create ev)"
  "leavesA staysTyped (Outbox_Requeue now)" "leavesA staysTyped (claimOne now ev')"
  "leavesA staysTyped (Outbox_MarkDone n now)" "leavesA staysTyped (Outbox_MarkDoneByUUID i now)"
  "leavesA staysTyped (Outbox_MarkRetry n next e now)"
proof -
  have ins: "leavesA staysTyped (stmtA (insertEvent ev))" if "oeStatus ev \<in> outboxStatuses" for ev
    by (rule typed_stmt)
      (use that in \<open>auto simp: insertEvent_def Let_def tables_typed_def outboxStatuses_def split: if_splits\<close>)
  show "leavesA staysTyped (Outbox_Create ev)" if "oeStatus ev \<in> outboxStatuses"
    unfolding Outbox_Create_def by (intro typed.leaves_bind typed.leaves_readonly ins) (simp_all add: that)
  have upd: "leavesA staysTyped (stmtA (\<lambda>d. Inr (x d, d\<lparr>fdOutbox := updateRows (P d) f (fdOutbox d)\<rparr>)))"
    if "\<And>ev. oeStatus (f ev) \<in> outboxStatuses" for x :: "fndb \<Rightarrow> 'a" and P f
    by (rule typed_stmt) (use that in \<open>auto simp: tables_typed_def elim!: updateRowsE\<close>)
  show "leavesA staysTyped (Outbox_Requeue now)" "leavesA staysTyped (claimOne now ev')"
    "leavesA staysTyped (Outbox_MarkDone n now)" "leavesA staysTyped (Outbox_MarkDoneByUUID i now)"
    "leavesA staysTyped (Outbox_MarkRetry n next e now)"
    unfolding Outbox_Requeue_def claimOne_def Outbox_MarkDone_def Outbox_MarkDoneByUUID_def Outbox_MarkRetry_def
    by (rule upd; simp add: outboxStatuses_def doneEvent_def)+
qed

lemma release_typed_rules [typed_rules]:
  "relStatus r \<in> releaseStatuses \<Longrightarrow> leavesA staysTyped (stmtA (insertRelease r))"
  "leavesA staysTyped (Release_RevokeByFunctionID i now)"
  "(\<And>e. ev = Some e \<Longrightarrow> oeStatus e \<in> outboxStatuses) \<Longrightarrow> leavesA staysTyped (Release_publish i now ev)"
proof -
  show "leavesA staysTyped (stmtA (insertRelease r))" if "relStatus r \<in> releaseStatuses"
    by (rule typed_stmt) (use that in \<open>auto simp: insertRelease_def Let_def tables_typed_def split: if_splits\<close>)
  have upd: "leavesA staysTyped (stmtA (\<lambda>d. Inr (x, d\<lparr>fdReleases := updateRows P f (fdReleases d)\<rparr>)))"
    if "\<And>r. relStatus (f r) \<in> releaseStatuses" for x :: 'a and P f
    by (rule typed_stmt) (use that in \<open>auto simp: tables_typed_def elim!: updateRowsE\<close>)
  show rev: "leavesA staysTyped (Release_RevokeByFunctionID i now)" for i
    unfolding Release_RevokeByFunctionID_def revokeRows_def by (rule upd) (simp add: releaseStatuses_def)
  have mark: "leavesA staysTyped (stmtA (markPublished i now))"
    by (rule typed_stmt)
      (auto simp: markPublished_def tables_typed_def releaseStatuses_def split: if_splits elim!: updateRowsE)
  have point: "functionTyped (g\<lparr>fnActiveReleaseID := i, fnUpdatedAt := now\<rparr>) = functionTyped g" for g
    by (simp add: functionTyped_def)
  have act: "leavesA staysTyped (stmtA (\<lambda>d. Inr ((), d\<lparr>fdFunctions := activate f i now (fdFunctions d)\<rparr>)))" for f
    by (rule typed_stmt) (auto simp: tables_typed_def activate_def point elim!: updateRowsE)
  show "leavesA staysTyped (Release_publish i now ev)" if "\<And>e. ev = Some e \<Longrightarrow> oeStatus e \<in> outboxStatuses"
  proof -
    have out: "leavesA staysTyped (case ev of None \<Rightarrow> retA () | Some ev \<Rightarrow> bindA (Outbox_Create ev) (\<lambda>_. retA ()))"
      using that by (cases ev) (auto intro!: typed.leaves_bind typed_rules simp: typed.leaves_readonly)
    show ?thesis unfolding Release_publish_def
      by (intro typed.leaves_transaction typed.leaves_bind rev mark act out) (simp add: typed.leaves_readonly)
  qed
qed

lemma operation_typed_rules [typed_rules]:
  "leavesA staysTyped (Op_SupersedeActive a b c e now)" "leavesA staysTyped (Op_Resume i now)"
  "st \<in> operationStates \<Longrightarrow> leavesA staysTyped (Op_finish i st ts tr out now)"
  "coState p \<in> operationStates \<Longrightarrow> leavesA staysTyped (Op_Create p)" "leavesA staysTyped (Exec_Complete x i)"
proof -
  have upd: "leavesA staysTyped (stmtA (\<lambda>d. Inr (x, d\<lparr>fdOps := updateRows P f (fdOps d)\<rparr>)))"
    if "\<And>p. coState (f p) \<in> operationStates" for x :: 'a and P f
    by (rule typed_stmt) (use that in \<open>auto simp: tables_typed_def elim!: updateRowsE\<close>)
  show "leavesA staysTyped (Op_SupersedeActive a b c e now)" "leavesA staysTyped (Op_Resume i now)"
    unfolding Op_SupersedeActive_def Op_Resume_def by (rule upd; simp add: operationStates_def)+
  show "leavesA staysTyped (Op_finish i st ts tr out now)" if "st \<in> operationStates" unfolding Op_finish_def
    by (intro typed.leaves_bind upd typed.leaves_readonly readonly_fn) (simp add: that)
  show "leavesA staysTyped (Op_Create p)" if "coState p \<in> operationStates" unfolding Op_Create_def
    by (rule typed_stmt) (use that in \<open>auto simp: insertOp_def Let_def tables_typed_def split: if_splits\<close>)
  have ins: "leavesA staysTyped (stmtA (insertExec x))"
    by (rule typed_stmt) (auto simp: insertExec_def tables_typed_def split: if_splits)
  show "leavesA staysTyped (Exec_Complete x i)" unfolding Exec_Complete_def Exec_record_def
    by (intro typed.leaves_rules ins upd typed.leaves_readonly readonly_fn readonly_try readonly_basic)
      (simp add: completedBy_def operationStates_def)
qed

subsection \<open>Values read from typed tables\<close>

named_theorems typed_values

lemma get_typed [typed_values]:
  "Function_Get i w = (Inr f, v) \<Longrightarrow> tables_typed (db w) \<Longrightarrow> functionTyped f"
  by (auto simp: Function_Get_def queryA_Inr_iff tables_typed_def dest: firstRow_Inr)

lemma functionTyped_cong: "fnStatus f = fnStatus g \<Longrightarrow> fnWorkflowStage f = fnWorkflowStage g \<Longrightarrow> functionTyped f = functionTyped g"
  by (simp add: functionTyped_def)

lemma sync_typed [typed_values]:
  assumes "syncDocumentStateFromFiles env f w = (Inr f', w')" and "functionTyped f"
  shows "functionTyped f'"
proof -
  obtain r w1 where "(case r of Inl (_ :: err) \<Rightarrow> retA f | Inr (_ :: unit) \<Rightarrow> documentState env f) w1 = (Inr f', w')"
    using assms(1) unfolding syncDocumentStateFromFiles_def by (rule bindA_InrE)
  moreover have "fnStatus (withDocuments a b c e f) = fnStatus f" "fnWorkflowStage (withDocuments a b c e f) = fnWorkflowStage f"
    for a b c e by (simp_all add: withDocuments_def Let_def)
  ultimately have "fnStatus f' = fnStatus f \<and> fnWorkflowStage f' = fnWorkflowStage f"
    by (cases r) (auto simp: documentState_def withStale_def elim!: bindA_InrE)
  then show ?thesis using assms(2) by (simp add: functionTyped_def)
qed

lemma normalize_typed [simp]: "functionTyped (normalizeLegacyFunctionVersions f) = functionTyped f"
proof -
  have "functionTyped (legacyProduct f) = functionTyped f" "functionTyped (legacyTechnical f) = functionTyped f"
    "functionTyped (legacyCode f) = functionTyped f" "functionTyped (legacyCodeDraft f) = functionTyped f" for f
    by (simp_all add: legacy_defs Let_def functionTyped_def)
  then show ?thesis by (simp add: normalizeLegacyFunctionVersions_def)
qed

lemma changes_typed:
  "functionTyped f \<Longrightarrow> functionTyped (adoptDocument t v now f)"
  "functionTyped f \<Longrightarrow> functionTyped (applyCode app v now f)"
  "functionTyped f \<Longrightarrow> functionTyped (withMenuID m f)"
  "withSession c i f = Inr g \<Longrightarrow> functionTyped f \<Longrightarrow> functionTyped g"
proof -
  assume f: "functionTyped f"
  show "functionTyped (adoptDocument t v now f)"
    using f by (cases "normalizeFunctionDocumentType t = docProduct"; cases "normalizeFunctionDocumentType t = docTechnical")
      (simp_all add: functionTyped_def adoptDocument_def Let_def)
  show "functionTyped (applyCode app v now f)" using f by (simp add: functionTyped_def applyCode_def)
  show "functionTyped (withMenuID m f)" using f by (simp add: functionTyped_def withMenuID_def)
  assume "withSession c i f = Inr g"
  then have "fnStatus g = fnStatus f" "fnWorkflowStage g = fnWorkflowStage f"
    by (auto simp: withSession_def split: if_splits)
  then show "functionTyped g" using f by (simp add: functionTyped_def)
qed

lemma normalized_names:
  "fb \<in> {FunctionStatusDraft, FunctionStatusPublished} \<Longrightarrow>
     normalizeFunctionStatus v fb \<in> {FunctionStatusDraft, FunctionStatusPublished}"
  "fb \<in> {StageProductDoc, StageTechnicalDoc, StageCodeGeneration, StageCodeGenerated} \<Longrightarrow>
     normalizeWorkflowStage v fb \<in> {StageProductDoc, StageTechnicalDoc, StageCodeGeneration, StageCodeGenerated}"
proof -
  have "FunctionStatusDraft \<noteq> []" "FunctionStatusPublished \<noteq> []" "StageProductDoc \<noteq> []" "StageTechnicalDoc \<noteq> []"
    "StageCodeGeneration \<noteq> []" "StageCodeGenerated \<noteq> []" by (simp_all add: fn_consts)
  then show
    "fb \<in> {FunctionStatusDraft, FunctionStatusPublished} \<Longrightarrow>
       normalizeFunctionStatus v fb \<in> {FunctionStatusDraft, FunctionStatusPublished}"
    "fb \<in> {StageProductDoc, StageTechnicalDoc, StageCodeGeneration, StageCodeGenerated} \<Longrightarrow>
       normalizeWorkflowStage v fb \<in> {StageProductDoc, StageTechnicalDoc, StageCodeGeneration, StageCodeGenerated}"
    unfolding normalizeFunctionStatus_def normalizeWorkflowStage_def defaultString_def by simp_all
qed

lemma update_typed:
  assumes "functionTyped f"
  shows "functionTyped (g\<lparr>fnName := a, fnDescription := b, fnStatus := normalizeFunctionStatus v (fnStatus f),
    fnWorkflowStage := normalizeWorkflowStage u (fnWorkflowStage f), fnMenuParentID := m, fnUpdatedAt := now\<rparr>)"
proof -
  have "fnStatus f \<in> {FunctionStatusDraft, FunctionStatusPublished}"
    "fnWorkflowStage f \<in> {StageProductDoc, StageTechnicalDoc, StageCodeGeneration, StageCodeGenerated}"
    using assms by (simp_all add: functionTyped_def)
  then show ?thesis unfolding functionTyped_def by (simp del: insert_iff add: normalized_names)
qed

subsection \<open>Handlers\<close>

lemma event_handlers_typed [typed_rules]:
  "leavesA staysTyped (tryDeliverRealtimeEvent env ev)" "leavesA staysTyped (RecordEvent env a b c p)"
  "leavesA staysTyped (DeliverFunctionPublished env a)" "leavesA staysTyped (RecordFunctionUnpublished env f)"
  "leavesA staysTyped (ProcessReady env ctx limit)" "leavesA staysTyped (OutboxManagement_Replay env ctx limit)"
proof -
  have sent: "readonly (case publishFunctionRealtimeEvent env ev of None \<Rightarrow> retA (Inr ()) | Some send \<Rightarrow> tryA send)" for ev
    unfolding publishFunctionRealtimeEvent_def sendRealtime_def
    by (auto intro!: readonly_try readonly_bind split: option.splits)
  show d: "leavesA staysTyped (tryDeliverRealtimeEvent env ev)" for ev
    unfolding tryDeliverRealtimeEvent_def
    by (intro leaves_split typed.leaves_bind typed.leaves_readonly [OF sent] typed_rules)
      (simp_all add: typed.leaves_readonly)
  have new: "oeStatus (newOutboxEvent a b c p t) \<in> outboxStatuses" for a b c p t
    by (simp add: newOutboxEvent_def outboxStatuses_def)
  show "leavesA staysTyped (RecordEvent env a b c p)" "leavesA staysTyped (DeliverFunctionPublished env a)"
    "leavesA staysTyped (RecordFunctionUnpublished env f)"
    unfolding RecordEvent_def DeliverFunctionPublished_def RecordFunctionUnpublished_def
    by (intro typed.leaves_rules typed_rules d new; simp add: typed.leaves_readonly)+
  have claim: "leavesA staysTyped (Outbox_ClaimReady now limit)" for now
  proof -
    have "leavesA staysTyped (claimAll now evs)" for evs
      by (induction evs) (simp_all add: typed.leaves_readonly typed.leaves_bind typed_rules)
    then show ?thesis unfolding Outbox_ClaimReady_def by (intro typed.leaves_bind) (simp_all add: typed.leaves_readonly)
  qed
  show p: "leavesA staysTyped (ProcessReady env ctx limit)"
    unfolding ProcessReady_def processOne_def
    by (intro typed.leaves_rules typed_rules claim) (simp_all add: typed.leaves_readonly)
  show "leavesA staysTyped (OutboxManagement_Replay env ctx limit)"
    unfolding OutboxManagement_Replay_def
    by (intro typed.leaves_rules typed_rules p) (simp_all add: typed.leaves_readonly)
qed

lemma release_handlers_typed [typed_rules]:
  "leavesA staysTyped (Stage env ctx f)" "leavesA staysTyped (Publish env ctx f)"
  "leavesA staysTyped (RevokeFunctionReleases env i)" "leavesA staysTyped (RevokeOrphanedPublished env)"
  "leavesA staysTyped (BackfillLegacyPublished env)"
proof -
  show st: "leavesA staysTyped (Stage env ctx f)"
    unfolding Stage_def stageNext_def Release_CreateStaged_def Let_def
    by (intro typed.leaves_rules typed_rules) (simp_all add: typed.leaves_readonly releaseStatuses_def)
  have "oeStatus (publishedEvent f r now) \<in> outboxStatuses" for r now
    by (simp add: publishedEvent_def newOutboxEvent_def outboxStatuses_def)
  then show "leavesA staysTyped (Publish env ctx f)"
    unfolding Publish_def Let_def Release_PublishWithOutbox_def Release_Publish_def
    by (intro typed.leaves_rules typed_rules st) (auto simp: typed.leaves_readonly)
  show "leavesA staysTyped (RevokeFunctionReleases env i)" "leavesA staysTyped (RevokeOrphanedPublished env)"
    unfolding RevokeFunctionReleases_def RevokeOrphanedPublished_def
    by (intro typed.leaves_rules typed_rules; simp add: typed.leaves_readonly)+
  show "leavesA staysTyped (BackfillLegacyPublished env)"
    unfolding BackfillLegacyPublished_def Release_BackfillPublished_def
    by (intro typed.leaves_rules typed_rules) (simp_all add: typed.leaves_readonly releaseStatuses_def)
qed

lemma conversation_handlers_typed [typed_rules]:
  "leavesA staysTyped (Start env ctx i c j)" "leavesA staysTyped (Finish ctx i a b)"
  "leavesA staysTyped (SubmitProgress ctx pq)"
proof -
  show "leavesA staysTyped (Start env ctx i c j)" unfolding Start_def resumeOperation_def Let_def
    by (intro typed.leaves_rules typed_rules; simp add: typed.leaves_readonly newOperation_def operationStates_def)
  show "leavesA staysTyped (Finish ctx i a b)" unfolding Finish_def Op_FinishIfActive_def Let_def
    by (intro typed.leaves_rules typed_rules;
        simp add: typed.leaves_readonly conversationStateForTerminal_def operationStates_def)
  have "leavesA staysTyped (recordDraftOperation p now)" for p now
    unfolding recordDraftOperation_def if_distrib [of Function_Update]
    by (rule leaves_split, simp add: typed.leaves_readonly, rule typed_read, simp)
      (intro leaves_split typed_rules; auto dest: get_typed simp: functionTyped_def)
  then show "leavesA staysTyped (SubmitProgress ctx pq)" unfolding SubmitProgress_def Let_def
    by (intro typed.leaves_rules typed_rules; simp add: typed.leaves_readonly)
qed

lemma persist_typed [typed_rules]:
  "functionTyped f \<Longrightarrow> leavesA staysTyped (persistFunctionDocumentVersionsIfChanged f g)"
  "functionTyped f \<Longrightarrow> leavesA staysTyped (touchCodeDraftVersion env f)"
  unfolding persistFunctionDocumentVersionsIfChanged_def touchCodeDraftVersion_def Let_def
  by (intro typed.leaves_rules typed_rules; simp add: typed.leaves_readonly functionTyped_def)+

lemma writeUpdate_typed [typed_rules]:
  assumes "functionTyped f"
  shows "leavesA staysTyped (writeUpdate env ctx previous status f)"
proof -
  let ?menu = "\<lambda>f2. handleA (syncFunctionMenu env ctx f2 previous status) (\<lambda>e.
      bindA (RecordEvent env (fnUUID f2) (fnActiveReleaseID f2) ''menu.sync'' [(''status'', status)]) (\<lambda>_. failA e))"
  have pub: "leavesA staysTyped (publishIfNew env ctx previous status f)"
    unfolding publishIfNew_def by (intro typed.leaves_rules typed_rules; simp add: typed.leaves_readonly)
  have result: "functionTyped f2" if "publishIfNew env ctx previous status f w = (Inr f2, v)" for w f2 v
    using that assms by (auto simp: publishIfNew_def functionTyped_def bindA_Inr_iff split: if_splits)
  have menu: "leavesA staysTyped (?menu f2)" for f2
    by (intro typed.leaves_rules typed_rules; simp add: typed.leaves_readonly)
  have result2: "functionTyped f3" if "?menu f2 w = (Inr f3, v)" and "functionTyped f2" for f2 w f3 v
    using effectA_Inr [OF syncMenu_effect that(1)] changes_typed(3) that(2) by auto
  have chain: "leavesA staysTyped (bindA (Function_Update f2) (\<lambda>_. bindA (?menu f2) (\<lambda>f3. bindA (Function_Update f3) (k f3))))"
    if f2: "functionTyped f2" and k: "\<And>f3 x. leavesA staysTyped (k f3 x)" for f2 and k :: "fnrow \<Rightarrow> unit \<Rightarrow> functionProto fnact"
  proof (rule typed.leaves_bind)
    show "leavesA staysTyped (Function_Update f2)" by (rule typed_rules) (rule f2)
    have "leavesA staysTyped (bindA (Function_Update f3) (k f3))" if "functionTyped f3" for f3
      by (intro typed.leaves_bind typed_rules that k)
    then show "leavesA staysTyped (bindA (?menu f2) (\<lambda>f3. bindA (Function_Update f3) (k f3)))"
      using result2 [OF _ f2] by (intro typed_value [OF menu, of f2 functionTyped]) auto
  qed
  show ?thesis unfolding writeUpdate_def
    by (rule typed_value [OF pub result], assumption, rule chain, assumption)
      (intro typed.leaves_rules typed_rules; simp add: typed.leaves_readonly)
qed

lemma function_handlers_typed [typed_rules]:
  "leavesA staysTyped (CreateFunction env ctx a b c)" "leavesA staysTyped (DeleteFunction env ctx i)"
  "leavesA staysTyped (UpdateFunction env ctx uq)" "leavesA staysTyped (LoadFunctionDocument env ctx i t q)"
  "leavesA staysTyped (CommitFunctionDocument env ctx i t)" "leavesA staysTyped (MaterializeFunctionApp env ctx i)"
  "leavesA staysTyped (TouchFunctionCodeDraft env ctx i)" "leavesA staysTyped (ApplyFunctionCode env ctx i)"
  "leavesA staysTyped (EnsureFunctionSession env ctx i t)"
proof -
  have new: "functionTyped (newFunction i n e m t)" for i n e m t by (simp add: newFunction_def functionTyped_def)
  show "leavesA staysTyped (CreateFunction env ctx a b c)" unfolding CreateFunction_def Let_def
    by (intro typed.leaves_rules typed_rules new; simp add: typed.leaves_readonly)
  show "leavesA staysTyped (DeleteFunction env ctx i)" unfolding DeleteFunction_def Let_def
    by (intro typed.leaves_rules typed_rules; simp add: typed.leaves_readonly)
  show "leavesA staysTyped (LoadFunctionDocument env ctx i t q)" unfolding LoadFunctionDocument_def
    by ((rule typed.leaves_readonly, (simp; fail)) | (rule typed_read, (simp; fail)) | rule leaves_split typed.leaves_rules typed_rules
        | (auto dest: typed_values changes_typed(4) intro: changes_typed(1-3) normalize_typed [THEN iffD2]; fail))+
  show "leavesA staysTyped (CommitFunctionDocument env ctx i t)"
    unfolding CommitFunctionDocument_def commitFunctionDocument_def Let_def
    by ((rule typed.leaves_readonly, (simp; fail)) | (rule typed_read, (simp; fail)) | rule leaves_split typed.leaves_rules typed_rules
        | (auto dest: typed_values changes_typed(4) intro: changes_typed(1-3) normalize_typed [THEN iffD2]; fail))+
  show "leavesA staysTyped (MaterializeFunctionApp env ctx i)" unfolding MaterializeFunctionApp_def Let_def
    by ((rule typed.leaves_readonly, (simp; fail)) | (rule typed_read, (simp; fail)) | rule leaves_split typed.leaves_rules typed_rules
        | (auto dest: typed_values changes_typed(4) intro: changes_typed(1-3) normalize_typed [THEN iffD2] simp: functionTyped_def defaultString_def; fail))+
  show "leavesA staysTyped (TouchFunctionCodeDraft env ctx i)" unfolding TouchFunctionCodeDraft_def Let_def
    by ((rule typed.leaves_readonly, (simp; fail)) | (rule typed_read, (simp; fail)) | rule leaves_split typed.leaves_rules typed_rules
        | (auto dest: typed_values changes_typed(4) intro: changes_typed(1-3) normalize_typed [THEN iffD2]; fail))+
  show "leavesA staysTyped (ApplyFunctionCode env ctx i)" unfolding ApplyFunctionCode_def Let_def
    by ((rule typed.leaves_readonly, (simp; fail)) | (rule typed_read, (simp; fail)) | rule leaves_split typed.leaves_rules typed_rules
        | (auto dest: typed_values changes_typed(4) intro: changes_typed(1-3) normalize_typed [THEN iffD2]; fail))+
  show "leavesA staysTyped (EnsureFunctionSession env ctx i t)" unfolding EnsureFunctionSession_def Let_def
    by ((rule typed.leaves_readonly, (simp; fail)) | (rule typed_read, (simp; fail)) | rule leaves_split typed.leaves_rules typed_rules
        | (auto dest: typed_values changes_typed(4) intro: changes_typed(1-3) normalize_typed [THEN iffD2] simp: functionTyped_def; fail))+
  show "leavesA staysTyped (UpdateFunction env ctx uq)" unfolding UpdateFunction_def Let_def
    by ((rule typed.leaves_readonly, (simp; fail)) | (rule typed_read, (simp; fail)) | rule leaves_split typed.leaves_rules typed_rules
        | (auto dest: typed_values changes_typed(4) intro: changes_typed(1-3) normalize_typed [THEN iffD2] update_typed; fail))+
qed

lemma typed_void [typed_rules]: "leavesA staysTyped m \<Longrightarrow> leavesA staysTyped (voidA m)"
  unfolding voidA_def by (intro typed.leaves_rules) (simp_all add: typed.leaves_readonly)

lemma functionCall_typed: "functionCall env m \<Longrightarrow> leavesA staysTyped m"
  by (induction rule: functionCall.induct) (rule typed.leaves_readonly, assumption, (intro typed_rules)+)

interpretation fntyped: invariant_system functionInit "functionStep env" tables_typed for env
proof unfold_locales
  fix d assume "functionInit d"
  then show "tables_typed d" by (simp add: functionInit_def tables_typed_def)
next
  fix d d' assume d: "tables_typed d" and "functionStep env d d'"
  then consider m w where "functionCall env m" "d = db w" "d' = db (snd (m w))" | files where "d' = d\<lparr>fdFiles := files\<rparr>"
    by (auto elim: functionStepE)
  then show "tables_typed d'"
  proof cases
    case 1
    then show ?thesis using functionCall_typed [OF 1(1)] d unfolding leavesA_def staysTyped_def by simp
  next
    case 2
    then show ?thesis using d by (simp add: tables_typed_def)
  qed
qed

text \<open>
  C18: in every reachable state each function has one of the two statuses and one of the four
  stages, each release one of its three statuses, each operation one of its seven states and
  each event of the outbox one of its four statuses, whatever texts the requests carried.
\<close>

theorem functions_typed:
  assumes "reachable functionInit (functionStep env) d"
  shows "tables_typed d"
  using assms by (rule fntyped.reach_inv)

theorem functions_typed_witness:
  "tables_typed demoCreated \<and> map fnName (fdFunctions demoCreated) = [''orders'']"
  using functions_typed [OF demoCreated_reachable] demoCreated_rows by blast

end
