(* ===== verification/Sql_Text.thy ===== *)
theory Sql_Text
  imports Go_Base
begin

text \<open>
  The SQL text that the data capability of the generated applications writes
  (\<^verbatim>\<open>quoteIdent\<close> and \<^verbatim>\<open>quoteIdentList\<close> of
  \<^verbatim>\<open>func-operation/internal/dao/data_capability.go\<close>), and how the database reads it.

  MySQL and SQLite read a name between backquotes, with a doubled backquote for a backquote in
  the name; \<open>lexSql\<close> is that rule, with every other character a token of its own.
  \<open>sqlPiece\<close> describes the texts that the compiler of the queries puts together, and is
  closed under the ways it does so; a complete statement made of such pieces is \<open>sqlSafe\<close>.
\<close>

abbreviation backquote :: char where "backquote \<equiv> CHR 0x60"

definition escapeIdent :: "gostr \<Rightarrow> gostr" where
  "escapeIdent value = concat (map (\<lambda>c. if c = backquote then [backquote, backquote] else [c]) value)"

definition quoteIdent :: "gostr \<Rightarrow> gostr" where
  "quoteIdent value = [backquote] @ escapeIdent value @ [backquote]"

definition quoteIdentList :: "gostr list \<Rightarrow> gostr" where
  "quoteIdentList values = joinWith '', '' (map quoteIdent values)"

subsection \<open>How the database reads a statement\<close>

datatype sqlToken = Quoted gostr | Plain char

text \<open>The rest of a quoted name, behind the backquote that opens it, and the text after it.\<close>

fun readQuoted :: "gostr \<Rightarrow> (gostr \<times> gostr) option" where
  "readQuoted [] = None"
| "readQuoted [c] = (if c = backquote then Some ([], []) else None)"
| "readQuoted (c # d # s) =
     (if c = backquote
      then (if d = backquote then map_option (apfst ((#) backquote)) (readQuoted s) else Some ([], d # s))
      else map_option (apfst ((#) c)) (readQuoted (d # s)))"

lemma readQuoted_shorter: "readQuoted s = Some (x, r) \<Longrightarrow> length r < length s"
  by (induction s arbitrary: x r rule: readQuoted.induct) (auto split: if_splits)

function lexSql :: "gostr \<Rightarrow> sqlToken list option" where
  "lexSql [] = Some []"
| "lexSql (c # s) =
     (if c = backquote
      then (case readQuoted s of None \<Rightarrow> None | Some (x, r) \<Rightarrow> map_option ((#) (Quoted x)) (lexSql r))
      else map_option ((#) (Plain c)) (lexSql s))"
  by pat_completeness auto
termination
  by (relation "measure length") (auto dest: readQuoted_shorter)

definition startsQuote :: "gostr \<Rightarrow> bool" where
  "startsQuote s \<longleftrightarrow> (case s of [] \<Rightarrow> False | c # _ \<Rightarrow> c = backquote)"

lemma startsQuote_simps [simp]:
  "\<not> startsQuote []" "startsQuote (c # s) \<longleftrightarrow> c = backquote" "startsQuote (quoteIdent x @ s)" "startsQuote (quoteIdent x)"
  by (simp_all add: startsQuote_def quoteIdent_def)

lemma readQuoted_close: "\<not> startsQuote s \<Longrightarrow> readQuoted (backquote # s) = Some ([], s)"
  by (cases s) auto

lemma readQuoted_other: "c \<noteq> backquote \<Longrightarrow> readQuoted (c # s) = map_option (apfst ((#) c)) (readQuoted s)"
  by (cases s) auto

lemma readQuoted_escape:
  "\<not> startsQuote s \<Longrightarrow> readQuoted (escapeIdent x @ backquote # s) = Some (x, s)"
  by (induction x) (auto simp: escapeIdent_def readQuoted_close readQuoted_other)

lemma lexSql_quoteIdent:
  "\<not> startsQuote s \<Longrightarrow> lexSql (quoteIdent x @ s) = map_option ((#) (Quoted x)) (lexSql s)"
  by (simp add: quoteIdent_def readQuoted_escape)

subsection \<open>Statements\<close>

text \<open>
  The characters that the compiler of the queries writes outside a quoted name: capital letters,
  digits, spaces and a few marks.  There is no quote of a string, no semicolon, no start of a
  comment and no small letter among them.
\<close>

definition sqlChar :: "char \<Rightarrow> bool" where
  "sqlChar c \<longleftrightarrow> (let n = (of_char c :: nat) in 65 \<le> n \<and> n \<le> 90 \<or> 48 \<le> n \<and> n \<le> 57) \<or> c \<in> set '' ?*=<>.,()_''"

text \<open>
  The words behind which SQL expects the name of a table.  The context of a name is the text
  since the name before it, last character first.
\<close>

definition tableContext :: "gostr \<Rightarrow> bool" where
  "tableContext ctx \<longleftrightarrow>
     list_ex (\<lambda>k. prefix (rev k) ctx) [''FROM '', ''JOIN '', ''INTO '', ''UPDATE '', ''TABLE '', ''TABLE IF NOT EXISTS '']"

fun tokensOk :: "gostr set \<Rightarrow> gostr set \<Rightarrow> gostr \<Rightarrow> sqlToken list \<Rightarrow> bool" where
  "tokensOk T A ctx [] \<longleftrightarrow> True"
| "tokensOk T A ctx (Plain c # ts) \<longleftrightarrow> sqlChar c \<and> tokensOk T A (c # ctx) ts"
| "tokensOk T A ctx (Quoted x # ts) \<longleftrightarrow> (if tableContext ctx then x \<in> T else x \<in> A) \<and> tokensOk T A [] ts"

definition marks :: "sqlToken list \<Rightarrow> nat" where
  "marks ts = length (filter (\<lambda>t. t = Plain CHR ''?'') ts)"

lemma marks_simps [simp]:
  "marks [] = 0" "marks (Quoted x # ts) = marks ts"
  "marks (Plain c # ts) = (if c = CHR ''?'' then Suc (marks ts) else marks ts)"
  by (simp_all add: marks_def)

text \<open>
  A statement is safe over the tables \<open>T\<close> and the other names \<open>A\<close> when the
  database reads in it only these quoted names, each in its place, and the harmless characters, and finds as
  many question marks as there are arguments.
\<close>

definition sqlSafe :: "gostr set \<Rightarrow> gostr set \<Rightarrow> gostr \<Rightarrow> 'v list \<Rightarrow> bool" where
  "sqlSafe T A s args \<longleftrightarrow>
     (case lexSql s of None \<Rightarrow> False | Some ts \<Rightarrow> tokensOk T A [] ts \<and> marks ts = length args)"

text \<open>The first word of a statement, which says what the statement does.\<close>

definition sqlVerb :: "gostr \<Rightarrow> gostr" where
  "sqlVerb s = takeWhile (\<lambda>c. c \<noteq> CHR '' '') s"

subsection \<open>Pieces of a statement\<close>

text \<open>
  \<open>sqlPiece T A c n s c'\<close>: behind the context \<open>c\<close>, the text \<open>s\<close> is well
  made, has \<open>n\<close> question marks and leaves the context \<open>c'\<close>.
\<close>

inductive sqlPiece :: "gostr set \<Rightarrow> gostr set \<Rightarrow> gostr \<Rightarrow> nat \<Rightarrow> gostr \<Rightarrow> gostr \<Rightarrow> bool" for T A where
  nothing: "sqlPiece T A c 0 [] c"
| letter: "sqlChar x \<Longrightarrow> sqlPiece T A (x # c) n s c' \<Longrightarrow> m = (if x = CHR ''?'' then Suc n else n) \<Longrightarrow>
    sqlPiece T A c m (x # s) c'"
| ident: "(if tableContext c then x \<in> T else x \<in> A) \<Longrightarrow> \<not> startsQuote s \<Longrightarrow> sqlPiece T A [] n s c' \<Longrightarrow>
    sqlPiece T A c n (quoteIdent x @ s) c'"

lemma sqlPiece_reads:
  assumes "sqlPiece T A c n s c'"
  shows "\<exists>ts. lexSql s = Some ts \<and> tokensOk T A c ts \<and> marks ts = n"
  using assms
proof (induction rule: sqlPiece.induct)
  case (letter x c n s c' m)
  then obtain ts where ts: "lexSql s = Some ts" "tokensOk T A (x # c) ts" "marks ts = n" by blast
  have "x \<noteq> backquote" using letter.hyps(1) by (auto simp: sqlChar_def)
  then show ?case using ts letter.hyps(1,3) by (intro exI [of _ "Plain x # ts"]) simp
next
  case (ident c x s n c')
  then obtain ts where "lexSql s = Some ts" "tokensOk T A [] ts" "marks ts = n" by blast
  then show ?case using ident.hyps(1,2) by (intro exI [of _ "Quoted x # ts"]) (simp add: lexSql_quoteIdent)
qed simp

theorem sqlPiece_safe: "sqlPiece T A [] n s c' \<Longrightarrow> length args = n \<Longrightarrow> sqlSafe T A s args"
  by (drule sqlPiece_reads) (auto simp: sqlSafe_def)

lemma startsQuote_append: "startsQuote (s @ t) \<longleftrightarrow> (if s = [] then startsQuote t else startsQuote s)"
  by (cases s) auto

lemma sqlPiece_empty: "sqlPiece T A c n [] c' \<Longrightarrow> n = 0 \<and> c' = c"
  by (erule sqlPiece.cases) (auto simp: quoteIdent_def)

lemma sqlPiece_append:
  "sqlPiece T A c n s c1 \<Longrightarrow> sqlPiece T A c1 m t c2 \<Longrightarrow> \<not> startsQuote t \<or> c1 \<noteq> [] \<Longrightarrow> sqlPiece T A c (n + m) (s @ t) c2"
proof (induction rule: sqlPiece.induct)
  case (letter x c n s c' k)
  then have "sqlPiece T A (x # c) (n + m) (s @ t) c2" by blast
  then show ?case using letter.hyps(1,3) by (auto intro: sqlPiece.letter)
next
  case (ident c x s n c')
  have "\<not> startsQuote (s @ t)"
  proof (cases "s = []")
    case True
    then have "c' = []" using ident.hyps(3) by (auto dest: sqlPiece_empty)
    then show ?thesis using ident.prems(2) True by simp
  qed (use ident.hyps(2) in \<open>simp add: startsQuote_append\<close>)
  then show ?case using sqlPiece.ident [OF ident.hyps(1)] ident.IH [OF ident.prems] by simp
qed simp

definition qmarks :: "gostr \<Rightarrow> nat" where
  "qmarks w = length (filter (\<lambda>c. c = CHR ''?'') w)"

lemma qmarks_simps [simp]:
  "qmarks [] = 0" "qmarks (c # w) = (if c = CHR ''?'' then Suc (qmarks w) else qmarks w)"
  by (simp_all add: qmarks_def)

lemma sqlPiece_text: "list_all sqlChar w \<Longrightarrow> sqlPiece T A c (qmarks w) w (rev w @ c)"
proof (induction w arbitrary: c)
  case (Cons x w)
  then have "sqlPiece T A (x # c) (qmarks w) w (rev w @ x # c)" by simp
  then show ?case using Cons.prems by (auto intro: sqlPiece.letter)
qed (auto intro: sqlPiece.nothing)

text \<open>
  \<open>sqlRest\<close>: a text that may follow anything.  \<open>sqlPart\<close>: a text that may begin
  with a name and follows words that \<open>nameNext\<close>, that is, after which no table is
  expected.
\<close>

definition sqlRest :: "gostr set \<Rightarrow> gostr set \<Rightarrow> nat \<Rightarrow> gostr \<Rightarrow> bool" where
  "sqlRest T A n s \<longleftrightarrow> \<not> startsQuote s \<and> (\<forall>c. \<exists>c'. sqlPiece T A c n s c')"

definition nameNext :: "gostr \<Rightarrow> bool" where
  "nameNext w \<longleftrightarrow> w \<noteq> [] \<and> list_all sqlChar w \<and> (\<forall>c. \<not> tableContext (rev w @ c))"

definition tableNext :: "gostr \<Rightarrow> bool" where
  "tableNext w \<longleftrightarrow> w \<noteq> [] \<and> list_all sqlChar w \<and> (\<forall>c. tableContext (rev w @ c))"

definition sqlPart :: "gostr set \<Rightarrow> gostr set \<Rightarrow> nat \<Rightarrow> gostr \<Rightarrow> bool" where
  "sqlPart T A n s \<longleftrightarrow> (\<forall>c. c \<noteq> [] \<longrightarrow> \<not> tableContext c \<longrightarrow> (\<exists>c'. sqlPiece T A c n s c'))"

lemma sqlRest_safe: "sqlRest T A n s \<Longrightarrow> length args = n \<Longrightarrow> sqlSafe T A s args"
  unfolding sqlRest_def by (blast intro: sqlPiece_safe)

lemma text_no_quote: "list_all sqlChar w \<Longrightarrow> \<not> startsQuote w"
  by (cases w) (auto simp: sqlChar_def)

lemma sqlRestI: "\<not> startsQuote s \<Longrightarrow> (\<And>c. \<exists>c'. sqlPiece T A c n s c') \<Longrightarrow> sqlRest T A n s"
  by (simp add: sqlRest_def)

lemma sqlRestE:
  assumes "sqlRest T A n s"
  obtains c' where "sqlPiece T A c n s c'" and "\<not> startsQuote s"
  using assms by (auto simp: sqlRest_def)

lemma rest_nil: "sqlRest T A 0 []"
  by (rule sqlRestI) (auto intro: sqlPiece.nothing)

lemma rest_append: "sqlRest T A n s \<Longrightarrow> sqlRest T A m t \<Longrightarrow> k = n + m \<Longrightarrow> sqlRest T A k (s @ t)"
proof (rule sqlRestI)
  fix c assume s: "sqlRest T A n s" and t: "sqlRest T A m t" and k: "k = n + m"
  obtain c1 where c1: "sqlPiece T A c n s c1" using s by (rule sqlRestE)
  obtain c2 where "sqlPiece T A c1 m t c2" "\<not> startsQuote t" using t by (rule sqlRestE)
  then show "\<exists>c'. sqlPiece T A c k (s @ t) c'" using sqlPiece_append [OF c1] k by blast
qed (simp add: sqlRest_def startsQuote_append)

lemma rest_text: "list_all sqlChar w \<Longrightarrow> qmarks w = n \<Longrightarrow> sqlRest T A n w"
  using sqlPiece_text text_no_quote by (intro sqlRestI) blast+

lemma rest_part:
  assumes w: "nameNext w" and s: "sqlPart T A n s" and k: "k = qmarks w + n"
  shows "sqlRest T A k (w @ s)"
proof (rule sqlRestI)
  show "\<not> startsQuote (w @ s)" using w text_no_quote [of w] by (simp add: nameNext_def startsQuote_append)
  fix c
  have "sqlPiece T A c (qmarks w) w (rev w @ c)" using w by (intro sqlPiece_text) (simp add: nameNext_def)
  moreover obtain c' where "sqlPiece T A (rev w @ c) n s c'"
    using s w unfolding sqlPart_def nameNext_def by (metis Nil_is_append_conv Nil_is_rev_conv)
  ultimately show "\<exists>c'. sqlPiece T A c k (w @ s) c'"
    using sqlPiece_append [of T A c "qmarks w" w "rev w @ c" n s c'] w k by (auto simp: nameNext_def)
qed

lemma rest_table:
  assumes "tableNext w" and "x \<in> T" and "sqlRest T A n s" and "k = qmarks w + n"
  shows "sqlRest T A k (w @ quoteIdent x @ s)"
  unfolding sqlRest_def
proof (intro conjI allI)
  show "\<not> startsQuote (w @ quoteIdent x @ s)"
    using assms(1) text_no_quote [of w] by (simp add: tableNext_def startsQuote_append)
  fix c
  have w: "sqlPiece T A c (qmarks w) w (rev w @ c)" using assms(1) by (intro sqlPiece_text) (simp add: tableNext_def)
  obtain c' where "sqlPiece T A [] n s c'" "\<not> startsQuote s" using assms(3) by (rule sqlRestE)
  then have "sqlPiece T A (rev w @ c) n (quoteIdent x @ s) c'"
    using assms(1,2) by (intro sqlPiece.ident) (auto simp: tableNext_def)
  then show "\<exists>c'. sqlPiece T A c k (w @ quoteIdent x @ s) c'"
    using sqlPiece_append [OF w] assms(1,4) by (auto simp: tableNext_def)
qed

lemma part_rest: "sqlRest T A n s \<Longrightarrow> sqlPart T A n s"
  by (simp add: sqlRest_def sqlPart_def)

lemma part_ident: "x \<in> A \<Longrightarrow> sqlRest T A n s \<Longrightarrow> sqlPart T A n (quoteIdent x @ s)"
  unfolding sqlPart_def by (intro allI impI, elim sqlRestE [of T A n s "[]"], intro exI, rule sqlPiece.ident, simp_all)

lemma part_name: "x \<in> A \<Longrightarrow> sqlPart T A 0 (quoteIdent x)"
  using part_ident [OF _ rest_nil, of x A T] by simp

lemma part_append:
  assumes "sqlPart T A n s" and t: "sqlRest T A m t" and "k = n + m"
  shows "sqlPart T A k (s @ t)"
  unfolding sqlPart_def
proof (intro allI impI)
  fix c :: gostr assume c: "c \<noteq> []" "\<not> tableContext c"
  then obtain c1 where c1: "sqlPiece T A c n s c1" using assms(1) by (auto simp: sqlPart_def)
  obtain c2 where "sqlPiece T A c1 m t c2" "\<not> startsQuote t" using t by (rule sqlRestE)
  then show "\<exists>c'. sqlPiece T A c k (s @ t) c'" using sqlPiece_append [OF c1] assms(3) by blast
qed

text \<open>A list of parts with a separator.\<close>

lemma part_join:
  assumes "nameNext sep" and "qmarks sep = 0" and "\<And>x. x \<in> set xs \<Longrightarrow> sqlPart T A (n x) (f x)"
  shows "sqlPart T A (sum_list (map n xs)) (joinWith sep (map f xs))"
  using assms(3)
proof (induction xs rule: induct_list012)
  case (3 x y zs)
  have "sqlRest T A (sum_list (map n (y # zs))) (sep @ joinWith sep (map f (y # zs)))"
    using 3 assms(1,2) by (intro rest_part) auto
  then show ?case using 3 by (auto intro!: part_append)
qed (auto intro: part_rest rest_nil)

lemma rest_join:
  assumes "\<And>x. x \<in> set xs \<Longrightarrow> sqlRest T A 0 x" and "list_all sqlChar sep" and "qmarks sep = 0"
  shows "sqlRest T A 0 (joinWith sep xs)"
  using assms(1)
proof (induction xs rule: induct_list012)
  case (3 x y zs)
  have "sqlRest T A 0 (x @ sep @ joinWith sep (y # zs))"
    by (rule rest_append [OF 3(3) rest_append [OF rest_text [OF assms(2,3)] 3(2)]]) (use 3 in auto)
  then show ?case by simp
qed (auto intro: rest_nil)

text \<open>A table with an alias.\<close>

lemma rest_alias:
  assumes "tableNext w" and "x \<in> T" and "y \<in> A" and "sqlRest T A n s" and "k = qmarks w + n"
  shows "sqlRest T A k (w @ quoteIdent x @ '' '' @ quoteIdent y @ s)"
proof (rule sqlRestI)
  show "\<not> startsQuote (w @ quoteIdent x @ '' '' @ quoteIdent y @ s)"
    using assms(1) text_no_quote [of w] by (simp add: tableNext_def startsQuote_append)
  fix c
  have w: "sqlPiece T A c (qmarks w) w (rev w @ c)" using assms(1) by (intro sqlPiece_text) (simp add: tableNext_def)
  obtain c' where s: "sqlPiece T A [] n s c'" "\<not> startsQuote s" using assms(4) by (rule sqlRestE)
  have "sqlPiece T A '' '' n (quoteIdent y @ s) c'"
    using assms(3) s by (intro sqlPiece.ident) (simp_all add: tableContext_def)
  then have "sqlPiece T A [] n (CHR '' '' # quoteIdent y @ s) c'" by (auto intro: sqlPiece.letter simp: sqlChar_def)
  then have "sqlPiece T A (rev w @ c) n (quoteIdent x @ CHR '' '' # quoteIdent y @ s) c'"
    using assms(1,2) by (intro sqlPiece.ident) (auto simp: tableNext_def)
  then show "\<exists>c'. sqlPiece T A c k (w @ quoteIdent x @ '' '' @ quoteIdent y @ s) c'"
    using sqlPiece_append [OF w] assms(1,5) by (auto simp: tableNext_def)
qed

text \<open>Words written out are checked by evaluation.\<close>

lemmas sql_words = nameNext_def tableNext_def tableContext_def sqlChar_def qmarks_def

end
