(* ===== verification/Data_Model.thy ===== *)
theory Data_Model
  imports Complex_Main Sql_Text Go_Text Menu_Tree Realtime_Hub "HOL-Library.AList"
begin

text \<open>
  The data models, relations and queries that a generated application declares, and how they are
  compiled (\<^verbatim>\<open>func-operation/internal/dao/data_capability.go\<close>).

  A value of type \<^verbatim>\<open>any\<close> is a \<open>dataValue\<close>: what JSON decoding and the
  database driver produce.  A \<^verbatim>\<open>float64\<close> is a rational number, an infinity or
  NaN, with the comparisons of IEEE 754; \<open>fltOfInt\<close> rounds an integer to 53 bits, ties
  to even.  A Go map is an association list with one entry per key.

  Parameters of the model, in \<open>dataLib\<close>: \<^verbatim>\<open>sha1.Sum\<close>,
  \<^verbatim>\<open>strconv.ParseFloat\<close> behind \<^verbatim>\<open>json.Number.Float64\<close>, and
  \<^verbatim>\<open>fmt.Sprint\<close> of the values that are neither text nor integers.
\<close>

subsection \<open>Values\<close>

datatype goFloat = NaN | PosInf | NegInf | Finite rat

fun fltLess :: "goFloat \<Rightarrow> goFloat \<Rightarrow> bool" where
  "fltLess (Finite a) (Finite b) \<longleftrightarrow> a < b"
| "fltLess NegInf (Finite b) \<longleftrightarrow> True"
| "fltLess NegInf PosInf \<longleftrightarrow> True"
| "fltLess (Finite a) PosInf \<longleftrightarrow> True"
| "fltLess _ _ \<longleftrightarrow> False"

fun bitLength :: "nat \<Rightarrow> nat" where
  "bitLength n = (if n = 0 then 0 else Suc (bitLength (n div 2)))"

declare bitLength.simps [simp del]

definition round53 :: "nat \<Rightarrow> nat" where
  "round53 n =
     (if n < 2 ^ 53 then n
      else let u = 2 ^ (bitLength n - 53); q = n div u; r = 2 * (n mod u) in
        (if r > u \<or> (r = u \<and> odd q) then (q + 1) * u else q * u))"

definition fltOfInt :: "int \<Rightarrow> goFloat" where
  "fltOfInt i = Finite (of_int (sgn i) * of_nat (round53 (nat \<bar>i\<bar>)))"

datatype dataValue =
    DNull
  | DBool bool
  | DString gostr
  | DInt int
  | DUint int
  | DFloat goFloat
  | DNumber gostr
  | DBytes gostr
  | DList "dataValue list"
  | DObject "(gostr \<times> dataValue) list"

record dataLib =
  libSha1 :: "gostr \<Rightarrow> gostr"
  libParseFloat :: "gostr \<Rightarrow> goFloat option"
  libSprint :: "dataValue \<Rightarrow> gostr"

definition showInt :: "int \<Rightarrow> gostr" where
  "showInt i = (if i < 0 then ''-'' @ decimal (nat (- i)) else decimal (nat i))"

text \<open>\<^verbatim>\<open>fmt.Sprint\<close>\<close>

fun goSprint :: "dataLib \<Rightarrow> dataValue \<Rightarrow> gostr" where
  "goSprint lib (DString s) = s"
| "goSprint lib (DNumber s) = s"
| "goSprint lib (DInt i) = showInt i"
| "goSprint lib (DUint i) = showInt i"
| "goSprint lib (DBool b) = (if b then ''true'' else ''false'')"
| "goSprint lib DNull = ''<nil>''"
| "goSprint lib v = libSprint lib v"

text \<open>The text \<^verbatim>\<open>%q\<close> prints; characters beyond ASCII count as printable.\<close>

definition hexDigit :: "nat \<Rightarrow> char" where
  "hexDigit n = (if n < 10 then char_of (48 + n) else char_of (87 + n))"

definition hexEncode :: "gostr \<Rightarrow> gostr" where
  "hexEncode s = concat (map (\<lambda>c. [hexDigit (of_char c div 16), hexDigit (of_char c mod 16)]) s)"

definition quoteRune :: "char \<Rightarrow> gostr" where
  "quoteRune c =
     (let n = (of_char c :: nat) in
      if c = CHR 0x22 then [CHR 0x5C, CHR 0x22]
      else if c = CHR 0x5C then [CHR 0x5C, CHR 0x5C]
      else if 7 \<le> n \<and> n \<le> 13 then [CHR 0x5C, ''abtnvfr'' ! (n - 7)]
      else if n < 32 \<or> n = 127 then [CHR 0x5C, CHR ''x''] @ hexEncode [c]
      else [c])"

definition goQuote :: "gostr \<Rightarrow> gostr" where
  "goQuote s = [CHR 0x22] @ concat (map quoteRune s) @ [CHR 0x22]"

subsection \<open>Words without regard to case\<close>

text \<open>
  \<^verbatim>\<open>strings.ToUpper\<close> and \<^verbatim>\<open>strings.ToLower\<close> of a text that is
  then compared with an English word.  Beside the ASCII letters, four characters change to one:
  the dotless i and the long s on the way up, the dotted I and the Kelvin sign on the way down.
\<close>

fun upperWord :: "gostr \<Rightarrow> gostr" where
  "upperWord (a # b # s) =
     (if [a, b] = utf8 [196, 177] then CHR ''I'' # upperWord s
      else if [a, b] = utf8 [197, 191] then CHR ''S'' # upperWord s
      else upperChar a # upperWord (b # s))"
| "upperWord s = map upperChar s"

fun lowerWord :: "gostr \<Rightarrow> gostr" where
  "lowerWord (a # b # c # s) =
     (if [a, b] = utf8 [196, 176] then CHR ''i'' # lowerWord (c # s)
      else if [a, b, c] = utf8 [226, 132, 170] then CHR ''k'' # lowerWord s
      else lowerChar a # lowerWord (b # c # s))"
| "lowerWord [a, b] = (if [a, b] = utf8 [196, 176] then ''i'' else [lowerChar a, lowerChar b])"
| "lowerWord s = map lowerChar s"

subsection \<open>Declarations\<close>

record dataField =
  dfName :: gostr
  dfType :: gostr
  dfRequired :: bool
  dfMaxLength :: int
  dfMin :: "goFloat option"
  dfMax :: "goFloat option"
  dfValues :: "gostr list"

record dataModel =
  dmName :: gostr
  dmLabel :: gostr
  dmFields :: "dataField list"
  dmIndexes :: "gostr list"

record dataRelation =
  drName :: gostr
  drFrom :: gostr
  drTo :: gostr
  drType :: gostr

record dataJoin =
  djRelation :: gostr
  djType :: gostr

record dataCondition =
  dcField :: gostr
  dcOp :: gostr
  dcValue :: dataValue

record dataOrder =
  doField :: gostr
  doDirection :: gostr

record dataQuery =
  dqName :: gostr
  dqFrom :: gostr
  dqJoins :: "dataJoin list"
  dqSelect :: "gostr list"
  dqWhere :: "dataCondition list"
  dqOrderBy :: "dataOrder list"
  dqLimit :: int

type_synonym fieldMap = "(gostr \<times> dataField) list"

record modelRuntime =
  mrModel :: dataModel
  mrTable :: gostr
  mrFields :: fieldMap

record relationRuntime =
  rrRelation :: dataRelation
  rrFromModel :: gostr
  rrFromField :: gostr
  rrToModel :: gostr
  rrToField :: gostr

subsection \<open>Names\<close>

definition asciiLetter :: "char \<Rightarrow> bool" where
  "asciiLetter c \<longleftrightarrow> (let n = (of_char c :: nat) in 65 \<le> n \<and> n \<le> 90 \<or> 97 \<le> n \<and> n \<le> 122)"

definition asciiDigit :: "char \<Rightarrow> bool" where
  "asciiDigit c \<longleftrightarrow> (let n = (of_char c :: nat) in 48 \<le> n \<and> n \<le> 57)"

text \<open>\<^verbatim>\<open>^[a-zA-Z][a-zA-Z0-9_]*$\<close>\<close>

definition dataIdentifier :: "gostr \<Rightarrow> bool" where
  "dataIdentifier s \<longleftrightarrow>
     (case s of [] \<Rightarrow> False
      | c # cs \<Rightarrow> asciiLetter c \<and> list_all (\<lambda>x. asciiLetter x \<or> asciiDigit x \<or> x = CHR ''_'') cs)"

definition isSystemDataField :: "gostr \<Rightarrow> bool" where
  "isSystemDataField name \<longleftrightarrow> name \<in> {''id'', ''uuid'', ''created_at'', ''updated_at''}"

definition normalizeDataFieldType :: "gostr \<Rightarrow> gostr" where
  "normalizeDataFieldType value =
     (let v = lowerWord (trimSpace value) in
      if v = ''integer'' then ''int'' else if v = ''number'' then ''float'' else v)"

definition dataTableName :: "dataLib \<Rightarrow> gostr \<Rightarrow> gostr \<Rightarrow> gostr" where
  "dataTableName lib appID modelName =
     ''func_app_'' @ take 12 (hexEncode (libSha1 lib appID)) @ ''__'' @ toLower modelName"

definition sortedDataFieldNames :: "fieldMap \<Rightarrow> gostr list" where
  "sortedDataFieldNames values = sort (map fst values)"

definition stringInSlice :: "gostr \<Rightarrow> gostr list \<Rightarrow> bool" where
  "stringInSlice value values \<longleftrightarrow> value \<in> set values"

subsection \<open>Models\<close>

definition systemField :: "gostr \<Rightarrow> gostr \<Rightarrow> int \<Rightarrow> dataField" where
  "systemField name typ len =
     \<lparr>dfName = name, dfType = typ, dfRequired = False, dfMaxLength = len, dfMin = None, dfMax = None, dfValues = []\<rparr>"

definition systemFields :: fieldMap where
  "systemFields =
     [(''id'', systemField ''id'' ''id'' 0), (''uuid'', systemField ''uuid'' ''string'' 120),
      (''created_at'', systemField ''created_at'' ''int'' 0), (''updated_at'', systemField ''updated_at'' ''int'' 0)]"

definition cleanField :: "dataField \<Rightarrow> dataField" where
  "cleanField field = field\<lparr>dfName := trimSpace (dfName field), dfType := normalizeDataFieldType (dfType field)\<rparr>"

fun collectFields :: "fieldMap \<Rightarrow> dataField list \<Rightarrow> err + fieldMap" where
  "collectFields fm [] = Inr fm"
| "collectFields fm (f # fs) =
     (let field = cleanField f; name = dfName field in
      if \<not> dataIdentifier name then Inl (Err (''invalid data field name '' @ goQuote name))
      else if map_of fm name \<noteq> None \<and> \<not> isSystemDataField name
      then Inl (Err (''duplicate data field '' @ goQuote name))
      else if isSystemDataField name then collectFields fm fs
      else if dfType field = [] then Inl (Err (''data field '' @ goQuote name @ '' type is required''))
      else collectFields (AList.update name field fm) fs)"

definition modelOf :: "dataLib \<Rightarrow> gostr \<Rightarrow> dataModel \<Rightarrow> fieldMap \<Rightarrow> modelRuntime" where
  "modelOf lib appID model fm =
     \<lparr>mrModel = model\<lparr>dmFields := map (\<lambda>n. the (map_of fm n))
                         (filter (\<lambda>n. \<not> isSystemDataField n) (sortedDataFieldNames fm))\<rparr>,
      mrTable = dataTableName lib appID (dmName model), mrFields = fm\<rparr>"

definition compileDataModel :: "dataLib \<Rightarrow> gostr \<Rightarrow> dataModel \<Rightarrow> err + modelRuntime" where
  "compileDataModel lib appID m =
     (let model = m\<lparr>dmName := trimSpace (dmName m)\<rparr> in
      if \<not> dataIdentifier (dmName model) then Inl (Err (''invalid data model name '' @ goQuote (dmName model)))
      else case collectFields systemFields (dmFields model) of
        Inl e \<Rightarrow> Inl e
      | Inr fm \<Rightarrow> Inr (modelOf lib appID model fm))"

text \<open>The models are looked up by the name as it is declared, before it is trimmed.\<close>

fun findModelNamed :: "dataLib \<Rightarrow> gostr \<Rightarrow> dataModel list \<Rightarrow> gostr \<Rightarrow> err + modelRuntime" where
  "findModelNamed lib appID [] name = Inl (Err (''data model '' @ goQuote name @ '' is not declared''))"
| "findModelNamed lib appID (m # ms) name =
     (if dmName m \<noteq> name then findModelNamed lib appID ms name else compileDataModel lib appID m)"

definition findDataModel :: "dataLib \<Rightarrow> gostr \<Rightarrow> dataModel list \<Rightarrow> gostr \<Rightarrow> err + modelRuntime" where
  "findDataModel lib appID models name = findModelNamed lib appID models (trimSpace name)"

type_synonym modelMap = "(gostr \<times> modelRuntime) list"

fun collectModels :: "dataLib \<Rightarrow> gostr \<Rightarrow> modelMap \<Rightarrow> dataModel list \<Rightarrow> err + modelMap" where
  "collectModels lib appID out [] = Inr out"
| "collectModels lib appID out (m # ms) =
     (case compileDataModel lib appID m of
        Inl e \<Rightarrow> Inl e
      | Inr r \<Rightarrow>
          (if map_of out (dmName (mrModel r)) \<noteq> None
           then Inl (Err (''duplicate data model '' @ goQuote (dmName (mrModel r))))
           else collectModels lib appID (AList.update (dmName (mrModel r)) r out) ms))"

definition compileDataModels :: "dataLib \<Rightarrow> gostr \<Rightarrow> dataModel list \<Rightarrow> err + modelMap" where
  "compileDataModels lib appID models = collectModels lib appID [] models"

subsection \<open>Relations\<close>

definition splitQualifiedField :: "gostr \<Rightarrow> err + (gostr \<times> gostr)" where
  "splitQualifiedField value =
     (case splitOn CHR ''.'' (trimSpace value) of
        [a, b] \<Rightarrow>
          (let modelName = trimSpace a; fieldName = trimSpace b in
           if \<not> dataIdentifier modelName \<or> \<not> dataIdentifier fieldName
           then Inl (Err (''invalid qualified field '' @ goQuote value))
           else Inr (modelName, fieldName))
      | _ \<Rightarrow> Inl (Err (''field '' @ goQuote value @ '' must be qualified as model.field'')))"

definition ensureModelField :: "modelMap \<Rightarrow> gostr \<Rightarrow> gostr \<Rightarrow> err + unit" where
  "ensureModelField models modelName fieldName =
     (case map_of models modelName of
        None \<Rightarrow> Inl (Err (''model '' @ goQuote modelName @ '' is not declared''))
      | Some model \<Rightarrow>
          (if map_of (mrFields model) fieldName = None
           then Inl (Err (''field '' @ goQuote fieldName @ '' is not declared on model '' @ goQuote modelName))
           else Inr ()))"

definition wrapErr :: "gostr \<Rightarrow> err + 'a \<Rightarrow> err + 'a" where
  "wrapErr text r = (case r of Inl e \<Rightarrow> Inl (Err (text @ errText e)) | Inr x \<Rightarrow> Inr x)"

definition bindR :: "err + 'a \<Rightarrow> ('a \<Rightarrow> err + 'b) \<Rightarrow> err + 'b" where
  "bindR r k = (case r of Inl e \<Rightarrow> Inl e | Inr x \<Rightarrow> k x)"

lemma bindR_Inr_iff: "bindR r k = Inr y \<longleftrightarrow> (\<exists>x. r = Inr x \<and> k x = Inr y)"
  by (simp add: bindR_def split: sum.splits)

lemma wrapErr_Inr_iff [simp]: "wrapErr t r = Inr x \<longleftrightarrow> r = Inr x"
  by (simp add: wrapErr_def split: sum.splits)

type_synonym relationMap = "(gostr \<times> relationRuntime) list"

fun collectRelations :: "modelMap \<Rightarrow> relationMap \<Rightarrow> dataRelation list \<Rightarrow> err + relationMap" where
  "collectRelations models out [] = Inr out"
| "collectRelations models out (r # rs) =
     (let relation = r\<lparr>drName := trimSpace (drName r)\<rparr>; name = drName relation in
      if \<not> dataIdentifier name then Inl (Err (''invalid data relation name '' @ goQuote name))
      else
        bindR (wrapErr (''invalid relation '' @ goQuote name @ '' from: '') (splitQualifiedField (drFrom relation)))
          (\<lambda>(fromModel, fromField).
        bindR (wrapErr (''invalid relation '' @ goQuote name @ '' to: '') (splitQualifiedField (drTo relation)))
          (\<lambda>(toModel, toField).
        bindR (wrapErr (''invalid relation '' @ goQuote name @ '' from: '') (ensureModelField models fromModel fromField))
          (\<lambda>_.
        bindR (wrapErr (''invalid relation '' @ goQuote name @ '' to: '') (ensureModelField models toModel toField))
          (\<lambda>_.
           if map_of out name \<noteq> None then Inl (Err (''duplicate data relation '' @ goQuote name))
           else collectRelations models
             (AList.update name
               \<lparr>rrRelation = relation, rrFromModel = fromModel, rrFromField = fromField,
                rrToModel = toModel, rrToField = toField\<rparr> out) rs)))))"

definition compileDataRelations :: "modelMap \<Rightarrow> dataRelation list \<Rightarrow> err + relationMap" where
  "compileDataRelations models relations = collectRelations models [] relations"

end
