(* ===== verification/Data_Compile.thy ===== *)
theory Data_Compile
  imports Data_Model
begin

text \<open>
  How a request of a generated application becomes an SQL statement and its arguments: the
  conditions, orders, joins, table definitions and record checks of
  \<^verbatim>\<open>func-operation/internal/dao/data_capability.go\<close>.
\<close>

text \<open>The loop that compiles one item after the other and stops at the first error.\<close>

fun mapR :: "('a \<Rightarrow> err + 'b) \<Rightarrow> 'a list \<Rightarrow> err + 'b list" where
  "mapR f [] = Inr []"
| "mapR f (x # xs) = bindR (f x) (\<lambda>y. bindR (mapR f xs) (\<lambda>ys. Inr (y # ys)))"

subsection \<open>Limits\<close>

definition defaultDataLimit :: int where "defaultDataLimit = 20"
definition maxDataLimit :: int where "maxDataLimit = 100"

definition normalizeDataLimit :: "int \<Rightarrow> int" where
  "normalizeDataLimit limit =
     (if limit \<le> 0 then defaultDataLimit else if limit > maxDataLimit then maxDataLimit else limit)"

fun firstPositive :: "int list \<Rightarrow> int" where
  "firstPositive [] = 0"
| "firstPositive (v # vs) = (if v > 0 then v else firstPositive vs)"

subsection \<open>Conditions and orders on one model\<close>

definition compileDataOperator :: "dataLib \<Rightarrow> dataField \<Rightarrow> gostr \<Rightarrow> dataValue \<Rightarrow> err + (gostr \<times> dataValue list)" where
  "compileDataOperator lib field op val =
     (if op = ''eq'' then Inr (''= ?'', [val])
      else if op = ''ne'' then Inr (''<> ?'', [val])
      else if op = ''gt'' then Inr (''> ?'', [val])
      else if op = ''gte'' then Inr (''>= ?'', [val])
      else if op = ''lt'' then Inr (''< ?'', [val])
      else if op = ''lte'' then Inr (''<= ?'', [val])
      else if op = ''contains'' then
        (if normalizeDataFieldType (dfType field) \<noteq> ''string'' \<and> normalizeDataFieldType (dfType field) \<noteq> ''text''
         then Inl (Err (''field '' @ goQuote (dfName field) @ '' does not support contains''))
         else Inr (''LIKE ?'', [DString (''%'' @ goSprint lib val @ ''%'')]))
      else Inl (Err (''unsupported operator '' @ goQuote op)))"

definition conditionOp :: "dataCondition \<Rightarrow> gostr" where
  "conditionOp condition = (let op = trimSpace (dcOp condition) in if op = [] then ''eq'' else op)"

definition compileCondition :: "dataLib \<Rightarrow> modelRuntime \<Rightarrow> dataCondition \<Rightarrow> err + (gostr \<times> dataValue list)" where
  "compileCondition lib model condition =
     (case map_of (mrFields model) (dcField condition) of
        None \<Rightarrow> Inl (Err (''where field '' @ goQuote (dcField condition) @ '' is not declared''))
      | Some field \<Rightarrow>
          bindR (compileDataOperator lib field (conditionOp condition) (dcValue condition))
            (\<lambda>(sqlOp, vals). Inr (quoteIdent (dcField condition) @ '' '' @ sqlOp, vals)))"

definition whereText :: "(gostr \<times> dataValue list) list \<Rightarrow> gostr \<times> dataValue list" where
  "whereText ps = ('' WHERE '' @ joinWith '' AND '' (map fst ps), concat (map snd ps))"

definition compileDataWhere :: "dataLib \<Rightarrow> modelRuntime \<Rightarrow> dataCondition list \<Rightarrow> err + (gostr \<times> dataValue list)" where
  "compileDataWhere lib model conditions =
     (if conditions = [] then Inr ([], [])
      else bindR (mapR (compileCondition lib model) conditions) (\<lambda>ps. Inr (whereText ps)))"

definition orderDirection :: "dataOrder \<Rightarrow> gostr" where
  "orderDirection order =
     (let direction = upperWord (trimSpace (doDirection order)) in
      if direction \<noteq> ''ASC'' \<and> direction \<noteq> ''DESC'' then ''ASC'' else direction)"

definition compileOrderItem :: "modelRuntime \<Rightarrow> dataOrder \<Rightarrow> err + gostr" where
  "compileOrderItem model order =
     (if map_of (mrFields model) (doField order) = None
      then Inl (Err (''order field '' @ goQuote (doField order) @ '' is not declared''))
      else Inr (quoteIdent (doField order) @ '' '' @ orderDirection order))"

definition compileDataOrder :: "modelRuntime \<Rightarrow> dataOrder list \<Rightarrow> err + gostr" where
  "compileDataOrder model orders =
     (if orders = [] then Inr ('' ORDER BY '' @ quoteIdent ''id'' @ '' DESC'')
      else bindR (mapR (compileOrderItem model) orders) (\<lambda>ps. Inr ('' ORDER BY '' @ joinWith '', '' ps)))"

subsection \<open>Joins\<close>

type_synonym aliasMap = "(gostr \<times> gostr) list"

definition resolveJoinSide ::
  "aliasMap \<Rightarrow> modelMap \<Rightarrow> relationRuntime \<Rightarrow> err + (gostr \<times> modelRuntime \<times> gostr \<times> gostr)" where
  "resolveJoinSide joined models relation =
     (case map_of joined (rrFromModel relation) of
        Some alias \<Rightarrow>
          (case map_of models (rrToModel relation) of
             None \<Rightarrow> Inl (Err (''relation model '' @ goQuote (rrToModel relation) @ '' is not declared''))
           | Some right \<Rightarrow>
               (if map_of joined (rrToModel relation) \<noteq> None
                then Inl (Err (''model '' @ goQuote (rrToModel relation) @ '' is already joined''))
                else Inr (alias, right, rrToField relation, rrFromField relation)))
      | None \<Rightarrow>
          (case map_of joined (rrToModel relation) of
             Some alias \<Rightarrow>
               (case map_of models (rrFromModel relation) of
                  None \<Rightarrow> Inl (Err (''relation model '' @ goQuote (rrFromModel relation) @ '' is not declared''))
                | Some right \<Rightarrow>
                    (if map_of joined (rrFromModel relation) \<noteq> None
                     then Inl (Err (''model '' @ goQuote (rrFromModel relation) @ '' is already joined''))
                     else Inr (alias, right, rrFromField relation, rrToField relation)))
           | None \<Rightarrow> Inl (Err (''relation '' @ goQuote (drName (rrRelation relation)) @
               '' does not connect to joined models''))))"

definition joinText :: "gostr \<Rightarrow> modelRuntime \<Rightarrow> gostr \<Rightarrow> gostr \<Rightarrow> gostr \<Rightarrow> gostr \<Rightarrow> gostr" where
  "joinText joinType right rightAlias leftAlias leftField rightField =
     joinType @ '' JOIN '' @ quoteIdent (mrTable right) @ '' '' @ quoteIdent rightAlias @ '' ON '' @
     quoteIdent leftAlias @ ''.'' @ quoteIdent leftField @ '' = '' @
     quoteIdent rightAlias @ ''.'' @ quoteIdent rightField"

definition joinTypeOf :: "dataJoin \<Rightarrow> gostr" where
  "joinTypeOf j = (let given = upperWord (trimSpace (djType j)) in if given = [] then ''LEFT'' else given)"

fun joinLoop ::
  "modelMap \<Rightarrow> relationMap \<Rightarrow> nat \<Rightarrow> aliasMap \<Rightarrow> modelMap \<Rightarrow> gostr list \<Rightarrow> dataJoin list \<Rightarrow>
   err + (aliasMap \<times> modelMap \<times> gostr list)" where
  "joinLoop models relations i aliases joined out [] = Inr (aliases, joined, out)"
| "joinLoop models relations i aliases joined out (j # js) =
     (case map_of relations (trimSpace (djRelation j)) of
        None \<Rightarrow> Inl (Err (''relation '' @ goQuote (djRelation j) @ '' is not declared''))
      | Some relation \<Rightarrow>
          bindR (resolveJoinSide aliases models relation) (\<lambda>(leftAlias, right, rightField, leftField).
            let rightAlias = ''t'' @ decimal (i + 1); joinType = joinTypeOf j in
            if joinType \<noteq> ''LEFT'' \<and> joinType \<noteq> ''INNER''
            then Inl (Err (''unsupported join type '' @ goQuote (djType j)))
            else joinLoop models relations (i + 1)
              (AList.update (dmName (mrModel right)) rightAlias aliases)
              (AList.update (dmName (mrModel right)) right joined)
              (out @ [joinText joinType right rightAlias leftAlias leftField rightField]) js))"

definition qualifiedIn :: "gostr \<Rightarrow> modelMap \<Rightarrow> aliasMap \<Rightarrow> gostr \<Rightarrow> err + (gostr \<times> gostr \<times> gostr)" where
  "qualifiedIn what models aliases qualified =
     bindR (splitQualifiedField qualified) (\<lambda>(modelName, fieldName).
     bindR (ensureModelField models modelName fieldName) (\<lambda>_.
       case map_of aliases modelName of
         None \<Rightarrow> Inl (Err (what @ '' model '' @ goQuote modelName @ '' is not joined''))
       | Some alias \<Rightarrow> Inr (alias, modelName, fieldName)))"

definition selectItem :: "modelMap \<Rightarrow> aliasMap \<Rightarrow> gostr \<Rightarrow> err + gostr" where
  "selectItem models aliases qualified =
     bindR (qualifiedIn ''select'' models aliases qualified) (\<lambda>(alias, modelName, fieldName).
       Inr (quoteIdent alias @ ''.'' @ quoteIdent fieldName @ '' AS '' @ quoteIdent (modelName @ ''_'' @ fieldName)))"

definition compileJoinSelect :: "modelMap \<Rightarrow> aliasMap \<Rightarrow> gostr list \<Rightarrow> err + gostr" where
  "compileJoinSelect models aliases qs =
     bindR (mapR (selectItem models aliases) qs) (\<lambda>ps. Inr (joinWith '', '' ps))"

definition joinCondition :: "dataLib \<Rightarrow> modelMap \<Rightarrow> aliasMap \<Rightarrow> dataCondition \<Rightarrow> err + (gostr \<times> dataValue list)" where
  "joinCondition lib models aliases condition =
     bindR (qualifiedIn ''where'' models aliases (dcField condition)) (\<lambda>(alias, modelName, fieldName).
       let field = the (map_of (mrFields (the (map_of models modelName))) fieldName) in
       bindR (compileDataOperator lib field (conditionOp condition) (dcValue condition)) (\<lambda>(sqlOp, vals).
         Inr (quoteIdent alias @ ''.'' @ quoteIdent fieldName @ '' '' @ sqlOp, vals)))"

definition compileJoinWhere ::
  "dataLib \<Rightarrow> modelMap \<Rightarrow> aliasMap \<Rightarrow> dataCondition list \<Rightarrow> err + (gostr \<times> dataValue list)" where
  "compileJoinWhere lib models aliases conditions =
     (if conditions = [] then Inr ([], [])
      else bindR (mapR (joinCondition lib models aliases) conditions) (\<lambda>ps. Inr (whereText ps)))"

definition joinOrder :: "modelMap \<Rightarrow> aliasMap \<Rightarrow> dataOrder \<Rightarrow> err + gostr" where
  "joinOrder models aliases order =
     bindR (qualifiedIn ''order'' models aliases (doField order)) (\<lambda>(alias, modelName, fieldName).
       Inr (quoteIdent alias @ ''.'' @ quoteIdent fieldName @ '' '' @ orderDirection order))"

definition compileJoinOrder :: "modelMap \<Rightarrow> aliasMap \<Rightarrow> dataOrder list \<Rightarrow> err + gostr" where
  "compileJoinOrder models aliases orders =
     (if orders = [] then Inr []
      else bindR (mapR (joinOrder models aliases) orders) (\<lambda>ps. Inr ('' ORDER BY '' @ joinWith '', '' ps)))"

record dataJoinRequest =
  jqFrom :: gostr
  jqJoins :: "dataJoin list"
  jqSelect :: "gostr list"
  jqWhere :: "dataCondition list"
  jqOrderBy :: "dataOrder list"
  jqLimit :: int

text \<open>The statement of \<^verbatim>\<open>DataJoinQuery\<close> with its arguments, or the error it stops at.\<close>

definition joinStatement ::
  "dataLib \<Rightarrow> gostr \<Rightarrow> dataModel list \<Rightarrow> dataRelation list \<Rightarrow> dataJoinRequest \<Rightarrow> err + (gostr \<times> dataValue list)" where
  "joinStatement lib appID models relations req =
     (if jqSelect req = [] then Inl (Err ''select is required'')
      else if length (jqJoins req) > 3 then Inl (Err ''join depth exceeds limit'')
      else bindR (compileDataModels lib appID models) (\<lambda>modelMap.
        case map_of modelMap (trimSpace (jqFrom req)) of
          None \<Rightarrow> Inl (Err (''from model '' @ goQuote (jqFrom req) @ '' is not declared''))
        | Some base \<Rightarrow>
          bindR (compileDataRelations modelMap relations) (\<lambda>relationMap.
          bindR (joinLoop modelMap relationMap 0 [(dmName (mrModel base), ''t0'')] [(dmName (mrModel base), base)] []
              (jqJoins req)) (\<lambda>(aliases, joined, joinSQL).
          bindR (compileJoinSelect joined aliases (jqSelect req)) (\<lambda>selectSQL.
          bindR (compileJoinWhere lib joined aliases (jqWhere req)) (\<lambda>(whereSQL, args).
          bindR (compileJoinOrder joined aliases (jqOrderBy req)) (\<lambda>orderSQL.
            Inr (''SELECT '' @ selectSQL @ '' FROM '' @ quoteIdent (mrTable base) @ '' '' @ quoteIdent ''t0'' @ '' '' @
                 joinWith '' '' joinSQL @ whereSQL @ orderSQL @ '' LIMIT ?'',
                 args @ [DInt (normalizeDataLimit (jqLimit req))])))))))) "

subsection \<open>Table definitions\<close>

definition isSQLiteDialect :: "gostr \<Rightarrow> bool" where
  "isSQLiteDialect dialect \<longleftrightarrow> dialect = [] \<or> dialect = ''sqlite''"

definition dataIntegerType :: "gostr \<Rightarrow> gostr" where
  "dataIntegerType dialect = (if isSQLiteDialect dialect then ''INTEGER'' else ''BIGINT'')"

definition dataPrimaryKeyColumn :: "gostr \<Rightarrow> gostr" where
  "dataPrimaryKeyColumn dialect =
     (if isSQLiteDialect dialect then quoteIdent ''id'' @ '' INTEGER PRIMARY KEY AUTOINCREMENT''
      else quoteIdent ''id'' @ '' BIGINT NOT NULL AUTO_INCREMENT PRIMARY KEY'')"

definition varcharLength :: "dataField \<Rightarrow> int" where
  "varcharLength field = (if dfMaxLength field \<le> 0 \<or> dfMaxLength field > 1000 then 255 else dfMaxLength field)"

definition dataColumnType :: "dataField \<Rightarrow> gostr \<Rightarrow> err + gostr" where
  "dataColumnType field dialect =
     (let t = normalizeDataFieldType (dfType field) in
      if t = ''string'' \<or> t = ''enum'' then Inr (''VARCHAR('' @ showInt (varcharLength field) @ '')'')
      else if t = ''text'' then Inr ''TEXT''
      else if t = ''int'' \<or> t = ''id'' then Inr (dataIntegerType dialect)
      else if t = ''float'' then Inr (if isSQLiteDialect dialect then ''REAL'' else ''DOUBLE'')
      else if t = ''bool'' then Inr (if isSQLiteDialect dialect then ''INTEGER'' else ''TINYINT(1)'')
      else if t = ''datetime'' then Inr (dataIntegerType dialect)
      else Inl (Err (''unsupported data field type '' @ goQuote (dfType field))))"

definition dataColumnDefinition :: "dataField \<Rightarrow> bool \<Rightarrow> gostr \<Rightarrow> err + gostr" where
  "dataColumnDefinition field forceNullable dialect =
     bindR (dataColumnType field dialect) (\<lambda>columnType.
       Inr (quoteIdent (dfName field) @ '' '' @ columnType @
            (if dfRequired field \<and> \<not> forceNullable then '' NOT NULL'' else '' NULL'')))"

definition dataCreateIndexSQL :: "gostr \<Rightarrow> gostr \<Rightarrow> gostr \<Rightarrow> gostr \<Rightarrow> gostr" where
  "dataCreateIndexSQL dialect tableName indexName columnName =
     (if isSQLiteDialect dialect
      then ''CREATE INDEX IF NOT EXISTS '' @ quoteIdent indexName @ '' ON '' @ quoteIdent tableName @
           '' ('' @ quoteIdent columnName @ '')''
      else ''ALTER TABLE '' @ quoteIdent tableName @ '' ADD INDEX '' @ quoteIdent indexName @
           '' ('' @ quoteIdent columnName @ '')'')"

text \<open>The fields and the indexes that the application declares, in the order of the loops.\<close>

definition ownFields :: "modelRuntime \<Rightarrow> dataField list" where
  "ownFields model =
     map (\<lambda>n. the (map_of (mrFields model) n))
       (filter (\<lambda>n. \<not> isSystemDataField n) (sortedDataFieldNames (mrFields model)))"

definition ownIndexes :: "modelRuntime \<Rightarrow> gostr list" where
  "ownIndexes model =
     filter (\<lambda>i. i \<noteq> [] \<and> \<not> isSystemDataField i) (map trimSpace (dmIndexes (mrModel model)))"

definition checkIndex :: "modelRuntime \<Rightarrow> gostr \<Rightarrow> err + unit" where
  "checkIndex model index =
     (if map_of (mrFields model) index = None
      then Inl (Err (''index field '' @ goQuote index @ '' is not declared'')) else Inr ())"

definition dataModelDDLs :: "modelRuntime \<Rightarrow> gostr \<Rightarrow> err + gostr list" where
  "dataModelDDLs model dialect =
     bindR (mapR (\<lambda>f. dataColumnDefinition f False dialect) (ownFields model)) (\<lambda>own.
     bindR (mapR (checkIndex model) (ownIndexes model)) (\<lambda>_.
       let columns =
             [dataPrimaryKeyColumn dialect, quoteIdent ''uuid'' @ '' VARCHAR(120) NOT NULL UNIQUE'',
              quoteIdent ''created_at'' @ '' '' @ dataIntegerType dialect @ '' NOT NULL DEFAULT 0'',
              quoteIdent ''updated_at'' @ '' '' @ dataIntegerType dialect @ '' NOT NULL DEFAULT 0''] @ own @
             (if isSQLiteDialect dialect then []
              else map (\<lambda>i. ''INDEX '' @ quoteIdent (''idx_'' @ i) @ '' ('' @ quoteIdent i @ '')'') (ownIndexes model))
       in Inr ((''CREATE TABLE IF NOT EXISTS '' @ quoteIdent (mrTable model) @ '' ('' @ joinWith '', '' columns @ '')'') #
            (if isSQLiteDialect dialect
             then map (\<lambda>i. dataCreateIndexSQL dialect (mrTable model) (''idx_'' @ i) i) (ownIndexes model)
             else []))))"

definition dataModelDDL :: "modelRuntime \<Rightarrow> gostr \<Rightarrow> err + gostr" where
  "dataModelDDL model dialect = bindR (dataModelDDLs model dialect) (\<lambda>ddls. Inr (hd ddls))"

subsection \<open>Records\<close>

type_synonym dataRecord = "(gostr \<times> dataValue) list"

fun numberToFloat :: "dataLib \<Rightarrow> dataValue \<Rightarrow> goFloat option" where
  "numberToFloat lib (DInt i) = Some (fltOfInt i)"
| "numberToFloat lib (DFloat f) = Some f"
| "numberToFloat lib (DNumber s) = libParseFloat lib s"
| "numberToFloat lib _ = None"

definition validateText :: "dataField \<Rightarrow> gostr \<Rightarrow> gostr \<Rightarrow> err + unit" where
  "validateText field fieldType txt =
     (if dfMaxLength field > 0 \<and> int (length (runes txt)) > dfMaxLength field
      then Inl (Err (''field '' @ goQuote (dfName field) @ '' exceeds max length '' @ showInt (dfMaxLength field)))
      else if fieldType = ''enum'' \<and> dfValues field \<noteq> [] \<and> \<not> stringInSlice txt (dfValues field)
      then Inl (Err (''field '' @ goQuote (dfName field) @ '' value is not allowed''))
      else Inr ())"

definition validateNumber :: "dataLib \<Rightarrow> dataField \<Rightarrow> goFloat \<Rightarrow> err + unit" where
  "validateNumber lib field number =
     (if (case dfMin field of None \<Rightarrow> False | Some lo \<Rightarrow> fltLess number lo)
      then Inl (Err (''field '' @ goQuote (dfName field) @ '' must be >= '' @ libSprint lib (DFloat (the (dfMin field)))))
      else if (case dfMax field of None \<Rightarrow> False | Some hi \<Rightarrow> fltLess hi number)
      then Inl (Err (''field '' @ goQuote (dfName field) @ '' must be <= '' @ libSprint lib (DFloat (the (dfMax field)))))
      else Inr ())"

definition validateDataValue :: "dataLib \<Rightarrow> dataField \<Rightarrow> dataValue \<Rightarrow> err + unit" where
  "validateDataValue lib field val =
     (if val = DNull
      then (if dfRequired field then Inl (Err (''field '' @ goQuote (dfName field) @ '' is required'')) else Inr ())
      else let fieldType = normalizeDataFieldType (dfType field) in
        if fieldType \<in> {''string'', ''text'', ''enum''} then
          (case val of DString txt \<Rightarrow> validateText field fieldType txt
           | _ \<Rightarrow> Inl (Err (''field '' @ goQuote (dfName field) @ '' must be string'')))
        else if fieldType \<in> {''int'', ''id'', ''float'', ''datetime''} then
          (case numberToFloat lib val of None \<Rightarrow> Inl (Err (''field '' @ goQuote (dfName field) @ '' must be number''))
           | Some number \<Rightarrow> validateNumber lib field number)
        else if fieldType = ''bool'' then
          (case val of DBool _ \<Rightarrow> Inr ()
           | _ \<Rightarrow> Inl (Err (''field '' @ goQuote (dfName field) @ '' must be bool'')))
        else Inr ())"

fun validateFields :: "dataLib \<Rightarrow> fieldMap \<Rightarrow> dataRecord \<Rightarrow> bool \<Rightarrow> dataRecord \<Rightarrow> gostr list \<Rightarrow> err + dataRecord" where
  "validateFields lib fm inp partial out [] = Inr out"
| "validateFields lib fm inp partial out (name # names) =
     (if isSystemDataField name then validateFields lib fm inp partial out names
      else case map_of inp name of
        None \<Rightarrow>
          (if dfRequired (the (map_of fm name)) \<and> \<not> partial
           then Inl (Err (''field '' @ goQuote name @ '' is required''))
           else validateFields lib fm inp partial out names)
      | Some val \<Rightarrow>
          bindR (validateDataValue lib (the (map_of fm name)) val) (\<lambda>_.
            validateFields lib fm inp partial (AList.update name val out) names))"

definition checkInputName :: "fieldMap \<Rightarrow> gostr \<Rightarrow> err + unit" where
  "checkInputName fm name =
     (if map_of fm name = None then Inl (Err (''field '' @ goQuote name @ '' is not declared''))
      else if isSystemDataField name then Inl (Err (''field '' @ goQuote name @ '' is managed by platform''))
      else Inr ())"

text \<open>The orders in which Go ranges over the two maps are the arguments \<open>rngF\<close> and \<open>rngI\<close>.\<close>

definition validateDataRecord ::
  "(gostr set \<Rightarrow> gostr list) \<Rightarrow> (gostr set \<Rightarrow> gostr list) \<Rightarrow> dataLib \<Rightarrow> modelRuntime \<Rightarrow>
   dataRecord option \<Rightarrow> bool \<Rightarrow> err + dataRecord" where
  "validateDataRecord rngF rngI lib model inp partial =
     (case inp of None \<Rightarrow> Inl (Err ''record is required'')
      | Some i \<Rightarrow>
          bindR (validateFields lib (mrFields model) i partial [] (rngF (fst ` set (mrFields model)))) (\<lambda>out.
          bindR (mapR (checkInputName (mrFields model)) (rngI (fst ` set i))) (\<lambda>_. Inr out)))"

end
