(* ===== verification/Data_Store.thy ===== *)
theory Data_Store
  imports Data_Compile Action_Runs
begin

text \<open>
  The operations of the data capability over the database
  (\<^verbatim>\<open>func-operation/internal/dao/data_capability.go\<close>, with
  \<^verbatim>\<open>normalizeSQLValue\<close> of \<^verbatim>\<open>dao/generated_app.go\<close>).

  The database engine is not part of the program: it is the parameter \<open>dataEngine\<close>,
  whose answers are functions of the statements that it has executed so far.  The state keeps
  every statement handed to the driver (\<open>dsSent\<close>) and those that succeeded
  (\<open>dsApplied\<close>); any statement may also fail in the driver.
\<close>

subsection \<open>The engine\<close>

type_synonym sqlStmt = "gostr \<times> dataValue list"

text \<open>
  The rows of a query: names and database types of the columns, the values of each row, and an
  error that the driver reports while the rows are read.
\<close>

record sqlRows =
  srColumns :: "gostr list"
  srTypes :: "gostr list"
  srValues :: "dataValue list list"
  srError :: "err option"

record dataEngine =
  engDialect :: gostr
  engHasTable :: "sqlStmt list \<Rightarrow> gostr \<Rightarrow> bool"
  engColumns :: "sqlStmt list \<Rightarrow> gostr \<Rightarrow> err + gostr list"
  engIndexNames :: "sqlStmt list \<Rightarrow> sqlStmt \<Rightarrow> err + gostr list"
  engCount :: "sqlStmt list \<Rightarrow> sqlStmt \<Rightarrow> err + int"
  engRows :: "sqlStmt list \<Rightarrow> sqlStmt \<Rightarrow> err + sqlRows"
  engExec :: "sqlStmt list \<Rightarrow> sqlStmt \<Rightarrow> err + int"

record dataStore =
  dsSent :: "sqlStmt list"
  dsApplied :: "sqlStmt list"

type_synonym 'a dact = "(dataStore, 'a) act"

definition sendA :: "sqlStmt \<Rightarrow> unit dact" where
  "sendA st = updA (\<lambda>d. ((), d\<lparr>dsSent := dsSent d @ [st]\<rparr>))"

text \<open>A statement that reads, and one that changes the database.\<close>

definition askA :: "(sqlStmt list \<Rightarrow> sqlStmt \<Rightarrow> err + 'a) \<Rightarrow> gostr \<Rightarrow> dataValue list \<Rightarrow> 'a dact" where
  "askA ask sql args = bindA (sendA (sql, args)) (\<lambda>_. queryA (\<lambda>d. ask (dsApplied d) (sql, args)))"

definition execA :: "dataEngine \<Rightarrow> gostr \<Rightarrow> dataValue list \<Rightarrow> int dact" where
  "execA eng sql args =
     bindA (sendA (sql, args)) (\<lambda>_.
       stmtA (\<lambda>d. case engExec eng (dsApplied d) (sql, args) of
         Inl e \<Rightarrow> Inl e
       | Inr n \<Rightarrow> Inr (n, d\<lparr>dsApplied := dsApplied d @ [(sql, args)]\<rparr>)))"

text \<open>gorm's \<^verbatim>\<open>Migrator().HasTable\<close> answers no when its query fails.\<close>

definition hasTableA :: "dataEngine \<Rightarrow> gostr \<Rightarrow> bool dact" where
  "hasTableA eng tableName = handleA (queryA (\<lambda>d. Inr (engHasTable eng (dsApplied d) tableName))) (\<lambda>_. retA False)"

definition withText :: "gostr \<Rightarrow> 'a dact \<Rightarrow> 'a dact" where
  "withText txt m = wrapErrA (\<lambda>e. Err (txt @ errText e)) m"

subsection \<open>Values of a row\<close>

definition normalizeColumnTypeName :: "gostr \<Rightarrow> gostr" where
  "normalizeColumnTypeName val = (let v = lowerWord (trimSpace val) in if v = [] then ''unknown'' else v)"

definition sqlColumnType :: "gostr list \<Rightarrow> nat \<Rightarrow> gostr" where
  "sqlColumnType columnTypes i = (if i < length columnTypes then columnTypes ! i else [])"

definition nameHas :: "gostr \<Rightarrow> gostr list \<Rightarrow> bool" where
  "nameHas columnType ws \<longleftrightarrow> list_ex (contains (normalizeColumnTypeName columnType)) ws"

definition isTextColumn :: "gostr \<Rightarrow> bool" where
  "isTextColumn t \<longleftrightarrow>
     nameHas t [''char'', ''text'', ''json'', ''enum'', ''set'', ''date'', ''time'', ''year'', ''uuid'']"

definition isIntegerColumn :: "gostr \<Rightarrow> bool" where
  "isIntegerColumn t \<longleftrightarrow> nameHas t [''int''] \<and> \<not> nameHas t [''unsigned'']"

definition isUnsignedIntegerColumn :: "gostr \<Rightarrow> bool" where
  "isUnsignedIntegerColumn t \<longleftrightarrow> nameHas t [''int''] \<and> nameHas t [''unsigned'']"

definition isDecimalColumn :: "gostr \<Rightarrow> bool" where
  "isDecimalColumn t \<longleftrightarrow> nameHas t [''decimal'', ''numeric'']"

definition isFloatColumn :: "gostr \<Rightarrow> bool" where
  "isFloatColumn t \<longleftrightarrow> nameHas t [''float'', ''double'', ''real'']"

definition digitsValue :: "gostr \<Rightarrow> int" where
  "digitsValue s = foldl (\<lambda>n c. 10 * n + (of_char c - 48)) 0 s"

text \<open>\<^verbatim>\<open>strconv.ParseUint(text, 10, 64)\<close> and \<^verbatim>\<open>ParseInt\<close>\<close>

definition parseUint64 :: "gostr \<Rightarrow> int option" where
  "parseUint64 s =
     (if s = [] \<or> \<not> list_all asciiDigit s \<or> digitsValue s \<ge> 2 ^ 64 then None else Some (digitsValue s))"

definition parseInt64 :: "gostr \<Rightarrow> int option" where
  "parseInt64 s =
     (let neg = hasPrefix s ''-''; digits = (if neg \<or> hasPrefix s ''+'' then tl s else s); n = digitsValue digits in
      if digits = [] \<or> \<not> list_all asciiDigit digits then None
      else if neg then (if n > 2 ^ 63 then None else Some (- n))
      else (if n \<ge> 2 ^ 63 then None else Some n))"

fun normalizeSQLValue :: "dataLib \<Rightarrow> dataValue \<Rightarrow> gostr \<Rightarrow> dataValue" where
  "normalizeSQLValue lib (DBytes txt) t =
     (if isTextColumn t then DString txt
      else if isIntegerColumn t then (case parseInt64 txt of Some n \<Rightarrow> DInt n | None \<Rightarrow> DString txt)
      else if isUnsignedIntegerColumn t then (case parseUint64 txt of Some n \<Rightarrow> DUint n | None \<Rightarrow> DString txt)
      else if isDecimalColumn t then DString txt
      else if isFloatColumn t then (case libParseFloat lib txt of Some f \<Rightarrow> DFloat f | None \<Rightarrow> DString txt)
      else DString txt)"
| "normalizeSQLValue lib v t = v"

definition rowOf :: "dataLib \<Rightarrow> gostr list \<Rightarrow> gostr list \<Rightarrow> dataValue list \<Rightarrow> dataRecord" where
  "rowOf lib columns columnTypes vals =
     foldl (\<lambda>row (i, column, v). AList.update column (normalizeSQLValue lib v (sqlColumnType columnTypes i)) row)
       [] (zip [0..<length columns] (zip columns vals))"

definition queryRows :: "dataLib \<Rightarrow> dataEngine \<Rightarrow> gostr \<Rightarrow> dataValue list \<Rightarrow> dataRecord list dact" where
  "queryRows lib eng query args =
     bindA (withText ''query data records: '' (askA (engRows eng) query args)) (\<lambda>rs.
       case srError rs of
         Some e \<Rightarrow> failA e
       | None \<Rightarrow> retA (map (rowOf lib (srColumns rs) (srTypes rs)) (srValues rs)))"

subsection \<open>Tables\<close>

record modelSummary =
  msModel :: dataModel
  msTable :: gostr
  msRowCount :: int

definition summarizeModel :: "dataLib \<Rightarrow> dataEngine option \<Rightarrow> gostr \<Rightarrow> dataModel \<Rightarrow> modelSummary dact" where
  "summarizeModel lib conn appID model =
     bindA (liftA (compileDataModel lib appID model)) (\<lambda>rm.
     bindA (case conn of None \<Rightarrow> retA 0
            | Some eng \<Rightarrow> bindA (hasTableA eng (mrTable rm)) (\<lambda>has.
                if has then withText (''count data model '' @ goQuote (dmName model) @ '': '')
                  (askA (engCount eng) (''SELECT COUNT(*) FROM '' @ quoteIdent (mrTable rm)) [])
                else retA 0)) (\<lambda>n.
     retA \<lparr>msModel = mrModel rm, msTable = mrTable rm, msRowCount = n\<rparr>))"

definition ListDataModelSummaries ::
  "dataLib \<Rightarrow> dataEngine option \<Rightarrow> gostr \<Rightarrow> dataModel list \<Rightarrow> modelSummary list dact" where
  "ListDataModelSummaries lib conn appID models = mapA (summarizeModel lib conn appID) models"

definition DropDataModel :: "dataLib \<Rightarrow> dataEngine option \<Rightarrow> gostr \<Rightarrow> dataModel \<Rightarrow> unit dact" where
  "DropDataModel lib conn appID model =
     bindA (liftA (compileDataModel lib appID model)) (\<lambda>rm.
       case conn of None \<Rightarrow> retA ()
       | Some eng \<Rightarrow> bindA (hasTableA eng (mrTable rm)) (\<lambda>has.
           if \<not> has then retA ()
           else voidA (withText (''drop data model table '' @ goQuote (dmName model) @ '': '')
             (execA eng (''DROP TABLE '' @ quoteIdent (mrTable rm)) []))))"

definition dataModelColumns :: "dataEngine \<Rightarrow> gostr \<Rightarrow> gostr list dact" where
  "dataModelColumns eng tableName =
     bindA (queryA (\<lambda>d. engColumns eng (dsApplied d) tableName)) (\<lambda>cs. retA (map toLower cs))"

definition indexQuery :: "dataEngine \<Rightarrow> gostr \<Rightarrow> gostr" where
  "indexQuery eng tableName =
     (if engDialect eng = ''sqlite'' then ''PRAGMA index_list('' @ quoteIdent tableName @ '')''
      else ''SHOW INDEX FROM '' @ quoteIdent tableName)"

definition dataModelIndexes :: "dataEngine \<Rightarrow> gostr \<Rightarrow> gostr list dact" where
  "dataModelIndexes eng tableName =
     bindA (askA (engIndexNames eng) (indexQuery eng tableName) []) (\<lambda>ns. retA (map toLower ns))"

definition addColumnSQL :: "gostr \<Rightarrow> gostr \<Rightarrow> gostr" where
  "addColumnSQL tableName columnSQL = ''ALTER TABLE '' @ quoteIdent tableName @ '' ADD COLUMN '' @ columnSQL"

definition addMissingColumn :: "dataEngine \<Rightarrow> modelRuntime \<Rightarrow> gostr list \<Rightarrow> dataField \<Rightarrow> unit dact" where
  "addMissingColumn eng model existing field =
     (if toLower (dfName field) \<in> set existing then retA ()
      else bindA (liftA (dataColumnDefinition field True (engDialect eng))) (\<lambda>columnSQL.
        voidA (withText (''add data model field '' @ goQuote (dmName (mrModel model)) @ ''.'' @ goQuote (dfName field) @ '': '')
          (execA eng (addColumnSQL (mrTable model) columnSQL) []))))"

definition addMissingIndex :: "dataEngine \<Rightarrow> modelRuntime \<Rightarrow> gostr list \<Rightarrow> gostr \<Rightarrow> unit dact" where
  "addMissingIndex eng model existing index =
     bindA (liftA (checkIndex model index)) (\<lambda>_.
       if toLower (''idx_'' @ index) \<in> set existing then retA ()
       else voidA (withText (''add data model index '' @ goQuote (dmName (mrModel model)) @ ''.'' @
           goQuote (''idx_'' @ index) @ '': '')
         (execA eng (dataCreateIndexSQL (engDialect eng) (mrTable model) (''idx_'' @ index) index) [])))"

definition applyDataModelAdditiveChanges :: "dataEngine \<Rightarrow> modelRuntime \<Rightarrow> unit dact" where
  "applyDataModelAdditiveChanges eng model =
     bindA (withText (''inspect data model schema '' @ goQuote (dmName (mrModel model)) @ '': '')
         (dataModelColumns eng (mrTable model))) (\<lambda>columns.
     bindA (forA (ownFields model) (addMissingColumn eng model columns)) (\<lambda>_.
     bindA (withText (''inspect data model indexes '' @ goQuote (dmName (mrModel model)) @ '': '')
         (dataModelIndexes eng (mrTable model))) (\<lambda>indexes.
       forA (ownIndexes model) (addMissingIndex eng model indexes))))"

definition applyDataModel :: "dataLib \<Rightarrow> dataEngine \<Rightarrow> gostr \<Rightarrow> dataModel \<Rightarrow> unit dact" where
  "applyDataModel lib eng appID model =
     bindA (liftA (compileDataModel lib appID model)) (\<lambda>rm.
     bindA (hasTableA eng (mrTable rm)) (\<lambda>has.
       if \<not> has then
         bindA (liftA (dataModelDDLs rm (engDialect eng))) (\<lambda>ddls.
           forA ddls (\<lambda>ddl. voidA (withText (''apply data model schema '' @ goQuote (dmName model) @ '': '')
             (execA eng ddl []))))
       else applyDataModelAdditiveChanges eng rm))"

definition ApplyDataModels :: "dataLib \<Rightarrow> dataEngine \<Rightarrow> gostr \<Rightarrow> dataModel list \<Rightarrow> unit dact" where
  "ApplyDataModels lib eng appID models = forA models (applyDataModel lib eng appID)"

subsection \<open>Records\<close>

record dataListRequest =
  lqModel :: gostr
  lqWhere :: "dataCondition list"
  lqOrderBy :: "dataOrder list"
  lqPageLimit :: int
  lqLimit :: int

record dataRunQueryRequest =
  rqQuery :: gostr
  rqParams :: dataRecord

record dataGetRequest =
  gqModel :: gostr
  gqID :: dataValue

record dataWriteRequest =
  wqModel :: gostr
  wqID :: dataValue
  wqRecord :: "dataRecord option"
  wqPatch :: "dataRecord option"

record dataListResult =
  resRows :: "dataRecord list"
  resTotal :: nat

record dataWriteResult =
  resID :: "dataValue option"
  resRowsAffected :: int
  resRecord :: dataRecord

definition rowsResult :: "dataRecord list \<Rightarrow> dataListResult" where
  "rowsResult rows = \<lparr>resRows = rows, resTotal = length rows\<rparr>"

definition listStatement :: "dataLib \<Rightarrow> gostr \<Rightarrow> dataModel list \<Rightarrow> dataListRequest \<Rightarrow> err + sqlStmt" where
  "listStatement lib appID models req =
     bindR (findDataModel lib appID models (lqModel req)) (\<lambda>rm.
     let limit = normalizeDataLimit (firstPositive [lqPageLimit req, lqLimit req]) in
     bindR (compileDataWhere lib rm (lqWhere req)) (\<lambda>(whereSQL, args).
     bindR (compileDataOrder rm (lqOrderBy req)) (\<lambda>orderSQL.
       Inr (''SELECT * FROM '' @ quoteIdent (mrTable rm) @ whereSQL @ orderSQL @ '' LIMIT ?'', args @ [DInt limit]))))"

definition DataList :: "dataLib \<Rightarrow> dataEngine \<Rightarrow> gostr \<Rightarrow> dataModel list \<Rightarrow> dataListRequest \<Rightarrow> dataListResult dact" where
  "DataList lib eng appID models req =
     bindA (liftA (listStatement lib appID models req)) (\<lambda>(query, args).
     bindA (queryRows lib eng query args) (\<lambda>rows. retA (rowsResult rows)))"

definition DataJoinQuery ::
  "dataLib \<Rightarrow> dataEngine \<Rightarrow> gostr \<Rightarrow> dataModel list \<Rightarrow> dataRelation list \<Rightarrow> dataJoinRequest \<Rightarrow> dataListResult dact" where
  "DataJoinQuery lib eng appID models relations req =
     bindA (liftA (joinStatement lib appID models relations req)) (\<lambda>(query, args).
     bindA (queryRows lib eng query args) (\<lambda>rows. retA (rowsResult rows)))"

definition joinRequestOf :: "dataQuery \<Rightarrow> dataJoinRequest" where
  "joinRequestOf q =
     \<lparr>jqFrom = dqFrom q, jqJoins = dqJoins q, jqSelect = dqSelect q, jqWhere = dqWhere q,
      jqOrderBy = dqOrderBy q, jqLimit = dqLimit q\<rparr>"

text \<open>The parameters of the request are not read.\<close>

fun runNamed ::
  "dataLib \<Rightarrow> dataEngine \<Rightarrow> gostr \<Rightarrow> dataModel list \<Rightarrow> dataRelation list \<Rightarrow> dataQuery list \<Rightarrow> gostr \<Rightarrow> dataListResult dact" where
  "runNamed lib eng appID models relations [] queryName =
     failA (Err (''data query '' @ goQuote queryName @ '' is not declared''))"
| "runNamed lib eng appID models relations (q # qs) queryName =
     (if trimSpace (dqName q) \<noteq> queryName then runNamed lib eng appID models relations qs queryName
      else DataJoinQuery lib eng appID models relations (joinRequestOf q))"

definition DataRunQuery ::
  "dataLib \<Rightarrow> dataEngine \<Rightarrow> gostr \<Rightarrow> dataModel list \<Rightarrow> dataRelation list \<Rightarrow> dataQuery list \<Rightarrow>
   dataRunQueryRequest \<Rightarrow> dataListResult dact" where
  "DataRunQuery lib eng appID models relations queries req =
     runNamed lib eng appID models relations queries (trimSpace (rqQuery req))"

definition DataGet :: "dataLib \<Rightarrow> dataEngine \<Rightarrow> gostr \<Rightarrow> dataModel list \<Rightarrow> dataGetRequest \<Rightarrow> dataRecord dact" where
  "DataGet lib eng appID models req =
     bindA (liftA (findDataModel lib appID models (gqModel req))) (\<lambda>rm.
     bindA (queryRows lib eng
         (''SELECT * FROM '' @ quoteIdent (mrTable rm) @ '' WHERE '' @ quoteIdent ''id'' @ '' = ? LIMIT 1'') [gqID req]) (\<lambda>rows.
       case rows of [] \<Rightarrow> failA (Err ''record not found'') | row # _ \<Rightarrow> retA row))"

definition sortedKeys :: "dataRecord \<Rightarrow> gostr list" where
  "sortedKeys vals = sort (map fst vals)"

definition valuesAt :: "dataRecord \<Rightarrow> gostr list \<Rightarrow> dataValue list" where
  "valuesAt vals columns = map (\<lambda>c. the (map_of vals c)) columns"

definition insertSQL :: "gostr \<Rightarrow> gostr list \<Rightarrow> gostr" where
  "insertSQL tableName columns =
     ''INSERT INTO '' @ quoteIdent tableName @ '' ('' @ quoteIdentList columns @ '') VALUES ('' @
     joinWith '', '' (map (\<lambda>_. ''?'') columns) @ '')''"

definition DataCreate ::
  "(gostr set \<Rightarrow> gostr list) \<Rightarrow> (gostr set \<Rightarrow> gostr list) \<Rightarrow> dataLib \<Rightarrow> dataEngine \<Rightarrow> gostr \<Rightarrow> dataModel list \<Rightarrow>
   dataWriteRequest \<Rightarrow> dataWriteResult dact" where
  "DataCreate rngF rngI lib eng appID models req =
     bindA (liftA (findDataModel lib appID models (wqModel req))) (\<lambda>rm.
     bindA (liftA (validateDataRecord rngF rngI lib rm (wqRecord req) False)) (\<lambda>rec0.
     bindA nowA (\<lambda>now.
     bindA newUUID (\<lambda>uuid.
       let vals = AList.update ''updated_at'' (DInt now) (AList.update ''created_at'' (DInt now)
                    (AList.update ''uuid'' (DString uuid) rec0));
           columns = sortedKeys vals in
       bindA (withText ''create data record: '' (execA eng (insertSQL (mrTable rm) columns) (valuesAt vals columns))) (\<lambda>n.
         retA \<lparr>resID = None, resRowsAffected = n, resRecord = vals\<rparr>)))))"

definition updateSQL :: "gostr \<Rightarrow> gostr list \<Rightarrow> gostr" where
  "updateSQL tableName columns =
     ''UPDATE '' @ quoteIdent tableName @ '' SET '' @ joinWith '', '' (map (\<lambda>c. quoteIdent c @ '' = ?'') columns) @
     '' WHERE '' @ quoteIdent ''id'' @ '' = ?''"

definition DataUpdate ::
  "(gostr set \<Rightarrow> gostr list) \<Rightarrow> (gostr set \<Rightarrow> gostr list) \<Rightarrow> dataLib \<Rightarrow> dataEngine \<Rightarrow> gostr \<Rightarrow> dataModel list \<Rightarrow>
   dataWriteRequest \<Rightarrow> dataWriteResult dact" where
  "DataUpdate rngF rngI lib eng appID models req =
     bindA (liftA (findDataModel lib appID models (wqModel req))) (\<lambda>rm.
     bindA (liftA (validateDataRecord rngF rngI lib rm (wqPatch req) True)) (\<lambda>patch0.
       if patch0 = [] then failA (Err ''patch is required'')
       else
         bindA nowA (\<lambda>now.
         let patch = AList.update ''updated_at'' (DInt now) patch0; columns = sortedKeys patch in
         bindA (withText ''update data record: ''
             (execA eng (updateSQL (mrTable rm) columns) (valuesAt patch columns @ [wqID req]))) (\<lambda>n.
           retA \<lparr>resID = Some (wqID req), resRowsAffected = n, resRecord = []\<rparr>))))"

definition DataDelete :: "dataLib \<Rightarrow> dataEngine \<Rightarrow> gostr \<Rightarrow> dataModel list \<Rightarrow> dataGetRequest \<Rightarrow> dataWriteResult dact" where
  "DataDelete lib eng appID models req =
     bindA (liftA (findDataModel lib appID models (gqModel req))) (\<lambda>rm.
     bindA (withText ''delete data record: ''
         (execA eng (''DELETE FROM '' @ quoteIdent (mrTable rm) @ '' WHERE '' @ quoteIdent ''id'' @ '' = ?'') [gqID req])) (\<lambda>n.
       retA \<lparr>resID = Some (gqID req), resRowsAffected = n, resRecord = []\<rparr>))"

end
