(* ===== verification/Data_Safe.thy ===== *)
theory Data_Safe
  imports Data_Store
begin

text \<open>
  Every statement that the data capability sends on behalf of an application is safe: the names
  in it are the tables of this application and columns that its models declare, no text of the
  request stands outside the arguments, and there is one argument for each question mark.
\<close>

subsection \<open>What compilation keeps of the declarations\<close>

lemma mapR_Inr_iff: "mapR f xs = Inr ys \<longleftrightarrow> list_all2 (\<lambda>x y. f x = Inr y) xs ys"
  by (induction xs arbitrary: ys) (auto simp: bindR_Inr_iff list_all2_Cons1)

lemma mapR_in: "mapR f xs = Inr ys \<Longrightarrow> y \<in> set ys \<Longrightarrow> \<exists>x \<in> set xs. f x = Inr y"
  unfolding mapR_Inr_iff list_all2_conv_all_nth in_set_conv_nth [of y] by (metis nth_mem)

definition systemNames :: "gostr set" where
  "systemNames = {''id'', ''uuid'', ''created_at'', ''updated_at''}"

lemma isSystemDataField_iff: "isSystemDataField n \<longleftrightarrow> n \<in> systemNames"
  by (simp add: isSystemDataField_def systemNames_def)

definition declaredFields :: "dataModel \<Rightarrow> gostr set" where
  "declaredFields m = systemNames \<union> (trimSpace \<circ> dfName) ` set (dmFields m)"

definition goodFields :: "fieldMap \<Rightarrow> bool" where
  "goodFields fm \<longleftrightarrow> distinct (map fst fm) \<and> systemNames \<subseteq> fst ` set fm \<and>
     (\<forall>(n, f) \<in> set fm. dfName f = n \<and> dataIdentifier n)"

lemma set_update_new:
  "distinct (map fst al) \<Longrightarrow> p \<in> set (AList.update k v al) \<longleftrightarrow> p = (k, v) \<or> p \<in> set al \<and> fst p \<noteq> k"
proof -
  assume d: "distinct (map fst al)"
  then have d': "distinct (map fst (AList.update k v al))" by (rule AList.distinct_update)
  have "p \<in> set (AList.update k v al) \<longleftrightarrow> map_of (AList.update k v al) (fst p) = Some (snd p)"
    using map_of_is_SomeI [OF d'] by (cases p) (auto dest: map_of_SomeD)
  also have "\<dots> \<longleftrightarrow> p = (k, v) \<or> p \<in> set al \<and> fst p \<noteq> k"
    using map_of_is_SomeI [OF d] by (cases p) (auto simp: AList.update_conv' dest: map_of_SomeD)
  finally show ?thesis .
qed

lemma keys_update: "fst ` set (AList.update k v al) = insert k (fst ` set al)"
  by (simp add: AList.dom_update)

lemma systemFields_good: "goodFields systemFields"
  by (simp add: goodFields_def systemFields_def systemNames_def systemField_def dataIdentifier_def asciiLetter_def
      asciiDigit_def Let_def)

lemma collectFields_good: "collectFields fm fs = Inr fm' \<Longrightarrow> goodFields fm \<Longrightarrow> goodFields fm'"
proof (induction fm fs rule: collectFields.induct)
  case (2 fm f fs)
  have "goodFields (AList.update (dfName (cleanField f)) (cleanField f) fm)" if "dataIdentifier (dfName (cleanField f))"
    using that 2(4) by (auto simp: goodFields_def set_update_new keys_update AList.distinct_update split: prod.splits)
  then show ?case using 2 by (auto simp: Let_def split: if_splits)
qed simp

lemma collectFields_keys:
  "collectFields fm fs = Inr fm' \<Longrightarrow> systemNames \<subseteq> fst ` set fm \<Longrightarrow>
     fst ` set fm' = fst ` set fm \<union> (trimSpace \<circ> dfName) ` set fs"
proof (induction fm fs rule: collectFields.induct)
  case (2 fm f fs)
  have name: "dfName (cleanField f) = trimSpace (dfName f)" by (simp add: cleanField_def)
  show ?case
  proof (cases "isSystemDataField (dfName (cleanField f))")
    case True
    then have "collectFields fm fs = Inr fm'" using 2(3) by (auto simp: Let_def split: if_splits)
    moreover have "trimSpace (dfName f) \<in> fst ` set fm" using True 2(4) name by (auto simp: isSystemDataField_iff)
    ultimately show ?thesis using 2 True by (auto simp: Let_def split: if_splits)
  next
    case False
    then have run: "collectFields (AList.update (dfName (cleanField f)) (cleanField f) fm) fs = Inr fm'"
      and "dataIdentifier (dfName (cleanField f))" "map_of fm (dfName (cleanField f)) = None" "dfType (cleanField f) \<noteq> []"
      using 2(3) by (auto simp: Let_def split: if_splits)
    then have "fst ` set fm' = insert (dfName (cleanField f)) (fst ` set fm) \<union> (trimSpace \<circ> dfName) ` set fs"
      using 2(2) [OF refl refl] 2(4) False by (simp add: keys_update subset_insertI2)
    then show ?thesis by (simp add: name)
  qed
qed simp

lemma compileDataModel_Inr:
  assumes "compileDataModel lib appID m = Inr rm"
  shows "mrTable rm = dataTableName lib appID (trimSpace (dmName m))" and "fst ` set (mrFields rm) = declaredFields m"
    and "goodFields (mrFields rm)" and "dmName (mrModel rm) = trimSpace (dmName m)" and "dataIdentifier (trimSpace (dmName m))"
proof -
  obtain fm where fm: "collectFields systemFields (dmFields m) = Inr fm" "dataIdentifier (trimSpace (dmName m))"
      "rm = modelOf lib appID (m\<lparr>dmName := trimSpace (dmName m)\<rparr>) fm"
    using assms by (auto simp: compileDataModel_def Let_def split: if_splits sum.splits)
  have sys: "fst ` set systemFields = systemNames" by (simp add: systemFields_def systemNames_def insert_commute)
  show "mrTable rm = dataTableName lib appID (trimSpace (dmName m))" "dataIdentifier (trimSpace (dmName m))"
      "dmName (mrModel rm) = trimSpace (dmName m)"
    using fm by (simp_all add: modelOf_def)
  show "fst ` set (mrFields rm) = declaredFields m"
    using collectFields_keys [OF fm(1)] fm(3) sys by (simp add: modelOf_def declaredFields_def)
  show "goodFields (mrFields rm)"
    using collectFields_good [OF fm(1) systemFields_good] fm(3) by (simp add: modelOf_def)
qed

definition appTables :: "dataLib \<Rightarrow> gostr \<Rightarrow> dataModel list \<Rightarrow> gostr set" where
  "appTables lib appID models = (\<lambda>m. dataTableName lib appID (trimSpace (dmName m))) ` set models"

definition appColumns :: "dataModel list \<Rightarrow> gostr set" where
  "appColumns models = systemNames \<union> (\<Union>m \<in> set models. declaredFields m)"

definition appModel :: "dataLib \<Rightarrow> gostr \<Rightarrow> dataModel list \<Rightarrow> modelRuntime \<Rightarrow> bool" where
  "appModel lib appID models rm \<longleftrightarrow>
     mrTable rm \<in> appTables lib appID models \<and> fst ` set (mrFields rm) \<subseteq> appColumns models"

lemma compiled_appModel:
  "m \<in> set models \<Longrightarrow> compileDataModel lib appID m = Inr rm \<Longrightarrow> appModel lib appID models rm"
  using compileDataModel_Inr [of lib appID m rm] by (auto simp: appModel_def appTables_def appColumns_def)

lemma findDataModel_app: "findDataModel lib appID models name = Inr rm \<Longrightarrow> appModel lib appID models rm"
proof -
  have "findModelNamed lib appID ms n = Inr rm \<Longrightarrow> \<exists>m \<in> set ms. compileDataModel lib appID m = Inr rm" for ms n
    by (induction ms) (auto split: if_splits)
  then show "findDataModel lib appID models name = Inr rm \<Longrightarrow> appModel lib appID models rm"
    unfolding findDataModel_def by (blast intro: compiled_appModel)
qed

lemma system_columns: "x \<in> systemNames \<Longrightarrow> x \<in> appColumns models"
  by (simp add: appColumns_def)

lemma field_column: "appModel lib appID models rm \<Longrightarrow> map_of (mrFields rm) f = Some x \<Longrightarrow> f \<in> appColumns models"
  unfolding appModel_def by (auto dest!: map_of_SomeD intro: rev_image_eqI)

subsection \<open>Operators, conditions and orders\<close>

lemma operator_text:
  assumes "compileDataOperator lib field op val = Inr (sqlOp, vals)"
  shows "list_all sqlChar ('' '' @ sqlOp) \<and> qmarks ('' '' @ sqlOp) = length vals"
  using assms by (auto simp: compileDataOperator_def sqlChar_def split: if_splits)

lemma direction_text: "list_all sqlChar ('' '' @ orderDirection ord) \<and> qmarks ('' '' @ orderDirection ord) = 0"
  by (simp add: orderDirection_def Let_def sqlChar_def)

lemma condition_part:
  assumes "appModel lib appID models rm" and "appColumns models \<subseteq> A" and "compileCondition lib rm c = Inr (txt, vals)"
  shows "sqlPart T A (length vals) txt"
proof -
  obtain f sqlOp where f: "map_of (mrFields rm) (dcField c) = Some f" and op: "compileDataOperator lib f (conditionOp c) (dcValue c) = Inr (sqlOp, vals)"
      and eq: "txt = quoteIdent (dcField c) @ '' '' @ sqlOp"
    using assms(3) by (auto simp: compileCondition_def bindR_Inr_iff split: option.splits)
  show ?thesis
    unfolding eq using field_column [OF assms(1) f] assms(2) operator_text [OF op] by (intro part_ident rest_text) auto
qed

lemma whereText_rest:
  assumes "\<And>p. p \<in> set ps \<Longrightarrow> sqlPart T A (length (snd p)) (fst p)" and "whereText ps = (txt, args)"
  shows "sqlRest T A (length args) txt"
proof -
  have "sqlPart T A (sum_list (map (\<lambda>p. length (snd p)) ps)) (joinWith '' AND '' (map fst ps))"
    by (rule part_join) (use assms(1) in \<open>auto simp: sql_words\<close>)
  moreover have args: "length args = sum_list (map (\<lambda>p. length (snd p)) ps)"
    and eq: "txt = '' WHERE '' @ joinWith '' AND '' (map fst ps)"
    using assms(2) by (auto simp: whereText_def length_concat comp_def)
  ultimately show ?thesis unfolding eq args by (intro rest_part) (simp_all add: sql_words)
qed

lemma compileDataWhere_rest:
  assumes "appModel lib appID models rm" and "appColumns models \<subseteq> A" and "compileDataWhere lib rm cs = Inr (txt, args)"
  shows "sqlRest T A (length args) txt"
proof (cases "cs = []")
  case True
  then show ?thesis using assms(3) by (simp add: compileDataWhere_def rest_nil)
next
  case False
  then obtain ps where ps: "mapR (compileCondition lib rm) cs = Inr ps" "whereText ps = (txt, args)"
    using assms(3) by (auto simp: compileDataWhere_def bindR_Inr_iff)
  show ?thesis
  proof (rule whereText_rest [OF _ ps(2)])
    fix p assume "p \<in> set ps"
    then obtain c where "compileCondition lib rm c = Inr p" using mapR_in [OF ps(1)] by blast
    then show "sqlPart T A (length (snd p)) (fst p)" using condition_part [OF assms(1,2)] by (cases p) simp
  qed
qed

text \<open>A list of names, orders or columns, behind words that open it.\<close>

lemma list_rest:
  assumes "mapR f xs = Inr ps" and "\<And>x p. x \<in> set xs \<Longrightarrow> f x = Inr p \<Longrightarrow> sqlPart T A 0 p"
  shows "sqlPart T A 0 (joinWith '', '' ps)"
proof -
  have "sqlPart T A (sum_list (map (\<lambda>_. 0) ps)) (joinWith '', '' (map (\<lambda>p. p) ps))"
  proof (rule part_join)
    show "sqlPart T A 0 p" if "p \<in> set ps" for p using mapR_in [OF assms(1) that] assms(2) by blast
  qed (simp_all add: sql_words)
  then show ?thesis by simp
qed

lemma compileDataOrder_rest:
  assumes "appModel lib appID models rm" and "appColumns models \<subseteq> A" and "compileDataOrder rm os = Inr txt"
  shows "sqlRest T A 0 txt"
proof (cases "os = []")
  case True
  have "''id'' \<in> A" using assms(2) system_columns [of "''id''"] by (auto simp: systemNames_def)
  then have "sqlRest T A 0 ('' ORDER BY '' @ quoteIdent ''id'' @ '' DESC'')"
    by (intro rest_part part_ident rest_text) (auto simp: sql_words)
  then show ?thesis using True assms(3) by (simp add: compileDataOrder_def)
next
  case False
  then obtain ps where ps: "mapR (compileOrderItem rm) os = Inr ps" "txt = '' ORDER BY '' @ joinWith '', '' ps"
    using assms(3) by (auto simp: compileDataOrder_def bindR_Inr_iff)
  have "sqlPart T A 0 p" if "compileOrderItem rm ord = Inr p" for ord p
  proof -
    obtain f where "map_of (mrFields rm) (doField ord) = Some f" "p = quoteIdent (doField ord) @ '' '' @ orderDirection ord"
      using \<open>compileOrderItem rm ord = Inr p\<close> by (auto simp: compileOrderItem_def split: if_splits)
    then show ?thesis using field_column [OF assms(1)] assms(2) direction_text by (auto intro!: part_ident rest_text)
  qed
  then have "sqlPart T A 0 (joinWith '', '' ps)" by (rule list_rest [OF ps(1)])
  then show ?thesis unfolding ps(2) by (intro rest_part) (simp_all add: sql_words)
qed

subsection \<open>Joins\<close>

definition aliasNames :: "nat \<Rightarrow> gostr set" where
  "aliasNames k = (\<lambda>i. ''t'' @ decimal i) ` {0..k}"

definition joinNames :: "dataModel list \<Rightarrow> gostr set" where
  "joinNames models = appColumns models \<union> aliasNames 3 \<union>
     (\<Union>m \<in> set models. (\<lambda>f. trimSpace (dmName m) @ ''_'' @ f) ` declaredFields m)"

definition compiledMap :: "dataLib \<Rightarrow> gostr \<Rightarrow> dataModel list \<Rightarrow> modelMap \<Rightarrow> bool" where
  "compiledMap lib appID models mm \<longleftrightarrow>
     (\<forall>n rm. map_of mm n = Some rm \<longrightarrow> (\<exists>m \<in> set models. compileDataModel lib appID m = Inr rm \<and> n = trimSpace (dmName m)))"

definition fieldAt :: "modelMap \<Rightarrow> gostr \<Rightarrow> gostr \<Rightarrow> bool" where
  "fieldAt mm n f \<longleftrightarrow> (\<exists>rm. map_of mm n = Some rm \<and> map_of (mrFields rm) f \<noteq> None)"

lemma ensureModelField_iff: "ensureModelField mm n f = Inr u \<longleftrightarrow> fieldAt mm n f"
  by (auto simp: ensureModelField_def fieldAt_def split: option.splits)

lemma compiledMap_update:
  "compiledMap lib appID models mm \<Longrightarrow> m \<in> set models \<Longrightarrow> compileDataModel lib appID m = Inr rm \<Longrightarrow>
     n = trimSpace (dmName m) \<Longrightarrow> compiledMap lib appID models (AList.update n rm mm)"
  by (auto simp: compiledMap_def AList.update_conv')

lemma collectModels_compiled:
  "collectModels lib appID out ms = Inr mm \<Longrightarrow> compiledMap lib appID models out \<Longrightarrow> set ms \<subseteq> set models \<Longrightarrow>
     compiledMap lib appID models mm"
  by (induction lib appID out ms rule: collectModels.induct)
    (auto simp: compileDataModel_Inr(4) intro: compiledMap_update split: sum.splits if_splits)

lemma compileDataModels_compiled: "compileDataModels lib appID models = Inr mm \<Longrightarrow> compiledMap lib appID models mm"
  unfolding compileDataModels_def by (erule collectModels_compiled) (simp_all add: compiledMap_def)

lemma compiled_app: "compiledMap lib appID models mm \<Longrightarrow> map_of mm n = Some rm \<Longrightarrow> appModel lib appID models rm"
  unfolding compiledMap_def by (blast intro: compiled_appModel)

lemma fieldAt_names:
  assumes "compiledMap lib appID models mm" and "fieldAt mm n f"
  shows "f \<in> joinNames models" and "n @ ''_'' @ f \<in> joinNames models"
proof -
  obtain rm m where rm: "map_of mm n = Some rm" "map_of (mrFields rm) f \<noteq> None" "m \<in> set models"
      "compileDataModel lib appID m = Inr rm" "n = trimSpace (dmName m)"
    using assms unfolding fieldAt_def compiledMap_def by blast
  then have "f \<in> declaredFields m" using compileDataModel_Inr(2) [OF rm(4)] by (auto simp: map_of_eq_None_iff)
  then show "f \<in> joinNames models" "n @ ''_'' @ f \<in> joinNames models"
    using rm(3,5) by (auto simp: joinNames_def appColumns_def)
qed

definition goodRelations :: "modelMap \<Rightarrow> relationMap \<Rightarrow> bool" where
  "goodRelations mm rels \<longleftrightarrow>
     (\<forall>k r. map_of rels k = Some r \<longrightarrow> fieldAt mm (rrFromModel r) (rrFromField r) \<and> fieldAt mm (rrToModel r) (rrToField r))"

lemma goodRelations_update:
  "goodRelations mm rels \<Longrightarrow> fieldAt mm (rrFromModel r) (rrFromField r) \<Longrightarrow> fieldAt mm (rrToModel r) (rrToField r) \<Longrightarrow>
     goodRelations mm (AList.update k r rels)"
  by (simp add: goodRelations_def AList.update_conv')

lemma collectRelations_Cons:
  assumes "collectRelations mm out (r # rs) = Inr rels"
  obtains q k where "fieldAt mm (rrFromModel q) (rrFromField q)" and "fieldAt mm (rrToModel q) (rrToField q)"
    and "collectRelations mm (AList.update k q out) rs = Inr rels"
proof -
  let ?name = "trimSpace (drName r)"
  obtain fm ff tm tf where
      at: "ensureModelField mm fm ff = Inr ()" "ensureModelField mm tm tf = Inr ()"
      and rest: "collectRelations mm (AList.update ?name \<lparr>rrRelation = r\<lparr>drName := ?name\<rparr>, rrFromModel = fm, rrFromField = ff,
         rrToModel = tm, rrToField = tf\<rparr> out) rs = Inr rels"
    using assms unfolding collectRelations.simps Let_def bindR_Inr_iff
    by (auto simp: bindR_Inr_iff split: if_splits prod.splits)
  show thesis by (rule that [OF _ _ rest]) (use at in \<open>simp_all add: ensureModelField_iff\<close>)
qed

lemma collectRelations_good:
  "collectRelations mm out rs = Inr rels \<Longrightarrow> goodRelations mm out \<Longrightarrow> goodRelations mm rels"
proof (induction rs arbitrary: out)
  case (Cons r rs)
  obtain q k where "fieldAt mm (rrFromModel q) (rrFromField q)" "fieldAt mm (rrToModel q) (rrToField q)"
      "collectRelations mm (AList.update k q out) rs = Inr rels"
    using Cons.prems(1) by (rule collectRelations_Cons)
  then show ?case using Cons.IH goodRelations_update Cons.prems(2) by blast
qed simp

lemma resolveJoinSide_Inr:
  assumes "resolveJoinSide aliases mm r = Inr (leftAlias, right, rightField, leftField)"
  shows "\<exists>n. map_of aliases n = Some leftAlias" and "\<exists>n. map_of mm n = Some right \<and> map_of aliases n = None"
    and "{leftField, rightField} = {rrFromField r, rrToField r}"
  using assms by (auto simp: resolveJoinSide_def split: option.splits if_splits)

definition joinInv :: "dataLib \<Rightarrow> gostr \<Rightarrow> dataModel list \<Rightarrow> gostr set \<Rightarrow> nat \<Rightarrow> aliasMap \<Rightarrow> modelMap \<Rightarrow> gostr list \<Rightarrow> bool" where
  "joinInv lib appID models T i aliases joined out \<longleftrightarrow>
     (\<forall>n a. map_of aliases n = Some a \<longrightarrow> a \<in> aliasNames i) \<and> compiledMap lib appID models joined \<and>
     (\<forall>p \<in> set out. sqlRest T (joinNames models) 0 p)"

lemma aliasNames_mono: "i \<le> k \<Longrightarrow> aliasNames i \<subseteq> aliasNames k"
  by (auto simp: aliasNames_def)

lemma joinText_rest:
  assumes "joinType = ''LEFT'' \<or> joinType = ''INNER''" and "mrTable right \<in> T"
    and "{leftAlias, rightAlias, leftField, rightField} \<subseteq> A"
  shows "sqlRest T A 0 (joinText joinType right rightAlias leftAlias leftField rightField)"
proof -
  have "sqlRest T A 0 ((joinType @ '' JOIN '') @ quoteIdent (mrTable right) @ '' '' @ quoteIdent rightAlias @ '' ON '' @
     quoteIdent leftAlias @ ''.'' @ quoteIdent leftField @ '' = '' @ quoteIdent rightAlias @ ''.'' @ quoteIdent rightField)"
  proof (rule rest_alias)
    show "tableNext (joinType @ '' JOIN '')" and "0 = qmarks (joinType @ '' JOIN '') + 0" using assms(1) by (auto simp: sql_words)
    show "sqlRest T A 0 ('' ON '' @ quoteIdent leftAlias @ ''.'' @ quoteIdent leftField @ '' = '' @
        quoteIdent rightAlias @ ''.'' @ quoteIdent rightField)"
      using assms(3) by (intro rest_part [OF _ part_ident] rest_part [OF _ part_name]) (auto simp: sql_words)
  qed (use assms in auto)
  then show ?thesis by (simp add: joinText_def)
qed

lemma joinLoop_Cons:
  assumes "joinLoop mm rels i aliases joined out (j # js) = Inr res"
  obtains r leftAlias right rightField leftField joinType
  where "map_of rels (trimSpace (djRelation j)) = Some r"
    and "resolveJoinSide aliases mm r = Inr (leftAlias, right, rightField, leftField)"
    and "joinType = ''LEFT'' \<or> joinType = ''INNER''"
    and "joinLoop mm rels (i + 1) (AList.update (dmName (mrModel right)) (''t'' @ decimal (i + 1)) aliases)
        (AList.update (dmName (mrModel right)) right joined)
        (out @ [joinText joinType right (''t'' @ decimal (i + 1)) leftAlias leftField rightField]) js = Inr res"
proof -
  obtain r leftAlias right rightField leftField where
      "map_of rels (trimSpace (djRelation j)) = Some r"
      "resolveJoinSide aliases mm r = Inr (leftAlias, right, rightField, leftField)"
      "joinTypeOf j = ''LEFT'' \<or> joinTypeOf j = ''INNER''"
      "joinLoop mm rels (i + 1) (AList.update (dmName (mrModel right)) (''t'' @ decimal (i + 1)) aliases)
        (AList.update (dmName (mrModel right)) right joined)
        (out @ [joinText (joinTypeOf j) right (''t'' @ decimal (i + 1)) leftAlias leftField rightField]) js = Inr res"
    using assms unfolding joinLoop.simps Let_def by (auto simp: bindR_Inr_iff split: if_splits option.splits)
  then show thesis by (rule that)
qed

lemma joinInv_step:
  assumes inv: "joinInv lib appID models T i aliases joined out" and "i < 3"
    and mm: "compiledMap lib appID models mm" and rels: "goodRelations mm rels" and T: "appTables lib appID models \<subseteq> T"
    and r: "map_of rels k = Some r" and side: "resolveJoinSide aliases mm r = Inr (leftAlias, right, rightField, leftField)"
    and jt: "joinType = ''LEFT'' \<or> joinType = ''INNER''"
  shows "joinInv lib appID models T (i + 1) (AList.update (dmName (mrModel right)) (''t'' @ decimal (i + 1)) aliases)
      (AList.update (dmName (mrModel right)) right joined)
      (out @ [joinText joinType right (''t'' @ decimal (i + 1)) leftAlias leftField rightField])"
proof -
  note side = resolveJoinSide_Inr [OF side]
  obtain n where n: "map_of mm n = Some right" using side(2) by blast
  obtain m where m: "m \<in> set models" "compileDataModel lib appID m = Inr right" using mm n unfolding compiledMap_def by blast
  have name: "dmName (mrModel right) = trimSpace (dmName m)" by (rule compileDataModel_Inr(4) [OF m(2)])
  have al: "aliasNames i \<subseteq> joinNames models" "''t'' @ decimal (i + 1) \<in> joinNames models"
    using \<open>i < 3\<close> aliasNames_mono [of i 3] by (auto simp: joinNames_def aliasNames_def)
  have "leftAlias \<in> joinNames models" using side(1) inv al(1) by (auto simp: joinInv_def)
  moreover have "{leftField, rightField} \<subseteq> joinNames models"
    using rels r fieldAt_names(1) [OF mm] unfolding side(3) goodRelations_def by auto
  moreover have "mrTable right \<in> T" using compiled_appModel [OF m] T by (auto simp: appModel_def)
  ultimately have "sqlRest T (joinNames models) 0 (joinText joinType right (''t'' @ decimal (i + 1)) leftAlias leftField rightField)"
    using jt al(2) by (intro joinText_rest) simp_all
  moreover have "aliasNames i \<subseteq> aliasNames (i + 1)" "''t'' @ decimal (i + 1) \<in> aliasNames (i + 1)"
    by (simp_all add: aliasNames_mono) (simp add: aliasNames_def)
  ultimately show ?thesis
    using inv compiledMap_update [OF _ m name] by (auto simp: joinInv_def AList.update_conv')
qed

lemma joinLoop_inv:
  assumes "joinLoop mm rels i aliases joined out js = Inr (aliases', joined', out')" and "i + length js \<le> 3"
    and "joinInv lib appID models T i aliases joined out"
    and env: "compiledMap lib appID models mm" "goodRelations mm rels" "appTables lib appID models \<subseteq> T"
  shows "joinInv lib appID models T 3 aliases' joined' out'"
  using assms(1-3)
proof (induction js arbitrary: i aliases joined out)
  case Nil
  then show ?case using aliasNames_mono [of i 3] by (auto simp: joinInv_def)
next
  case (Cons j js)
  show ?case
    by (rule joinLoop_Cons [OF Cons.prems(1)], rule Cons.IH, assumption)
      (use Cons.prems(2) joinInv_step [OF Cons.prems(3) _ env] in auto)
qed

lemma qualifiedIn_Inr:
  assumes "qualifiedIn what joined aliases q = Inr (tab, n, f)" and "joinInv lib appID models T 3 aliases joined out"
  shows "tab \<in> joinNames models" and "f \<in> joinNames models" and "n @ ''_'' @ f \<in> joinNames models"
proof -
  have "fieldAt joined n f" and "map_of aliases n = Some tab"
    using assms(1) by (auto simp: qualifiedIn_def bindR_Inr_iff ensureModelField_iff split: option.splits)
  moreover have "compiledMap lib appID models joined" using assms(2) by (simp add: joinInv_def)
  ultimately show "tab \<in> joinNames models" "f \<in> joinNames models" "n @ ''_'' @ f \<in> joinNames models"
    using assms(2) fieldAt_names by (auto simp: joinInv_def joinNames_def)
qed

lemma compileJoinSelect_part:
  assumes "compileJoinSelect joined aliases qs = Inr t" and inv: "joinInv lib appID models T 3 aliases joined out"
  shows "sqlPart T (joinNames models) 0 t"
proof -
  obtain ps where ps: "mapR (selectItem joined aliases) qs = Inr ps" and t: "t = joinWith '', '' ps"
    using assms(1) by (auto simp: compileJoinSelect_def bindR_Inr_iff)
  have "sqlPart T (joinNames models) 0 p" if run: "selectItem joined aliases q = Inr p" for q p
  proof -
    obtain tab n f where q: "qualifiedIn ''select'' joined aliases q = Inr (tab, n, f)"
        and p: "p = quoteIdent tab @ ''.'' @ quoteIdent f @ '' AS '' @ quoteIdent (n @ ''_'' @ f)"
      using run by (auto simp: selectItem_def bindR_Inr_iff)
    show ?thesis
      unfolding p using qualifiedIn_Inr [OF q inv]
      by (intro part_ident rest_part [OF _ part_ident] rest_part [OF _ part_name]) (auto simp: sql_words)
  qed
  then show ?thesis unfolding t by (rule list_rest [OF ps])
qed

lemma compileJoinWhere_rest:
  assumes "compileJoinWhere lib joined aliases cs = Inr (t, args)" and inv: "joinInv lib appID models T 3 aliases joined out"
  shows "sqlRest T (joinNames models) (length args) t"
proof (cases "cs = []")
  case True
  then show ?thesis using assms(1) by (simp add: compileJoinWhere_def rest_nil)
next
  case False
  then obtain ps where ps: "mapR (joinCondition lib joined aliases) cs = Inr ps" "whereText ps = (t, args)"
    using assms(1) by (auto simp: compileJoinWhere_def bindR_Inr_iff)
  have "sqlPart T (joinNames models) (length vals) p" if run: "joinCondition lib joined aliases c = Inr (p, vals)" for c p vals
  proof -
    obtain tab n f fd sqlOp where q: "qualifiedIn ''where'' joined aliases (dcField c) = Inr (tab, n, f)"
        and op: "compileDataOperator lib fd (conditionOp c) (dcValue c) = Inr (sqlOp, vals)"
        and p: "p = quoteIdent tab @ ''.'' @ quoteIdent f @ '' '' @ sqlOp"
      using run by (auto simp: joinCondition_def bindR_Inr_iff)
    show ?thesis
      unfolding p using qualifiedIn_Inr [OF q inv] operator_text [OF op]
      by (intro part_ident rest_part [OF _ part_ident] rest_text) (auto simp: sql_words)
  qed
  then show ?thesis using mapR_in [OF ps(1)] by (intro whereText_rest [OF _ ps(2)]) (metis prod.collapse)
qed

lemma compileJoinOrder_rest:
  assumes "compileJoinOrder joined aliases os = Inr t" and inv: "joinInv lib appID models T 3 aliases joined out"
  shows "sqlRest T (joinNames models) 0 t"
proof (cases "os = []")
  case True
  then show ?thesis using assms(1) by (simp add: compileJoinOrder_def rest_nil)
next
  case False
  then obtain ps where ps: "mapR (joinOrder joined aliases) os = Inr ps" and t: "t = '' ORDER BY '' @ joinWith '', '' ps"
    using assms(1) by (auto simp: compileJoinOrder_def bindR_Inr_iff)
  have "sqlPart T (joinNames models) 0 p" if run: "joinOrder joined aliases ord = Inr p" for ord p
  proof -
    obtain tab n f where q: "qualifiedIn ''order'' joined aliases (doField ord) = Inr (tab, n, f)"
        and p: "p = quoteIdent tab @ ''.'' @ quoteIdent f @ '' '' @ orderDirection ord"
      using run by (auto simp: joinOrder_def bindR_Inr_iff)
    show ?thesis
      unfolding p using qualifiedIn_Inr [OF q inv] direction_text
      by (intro part_ident rest_part [OF _ part_ident] rest_text) (auto simp: sql_words)
  qed
  then have "sqlPart T (joinNames models) 0 (joinWith '', '' ps)" by (rule list_rest [OF ps])
  then show ?thesis unfolding t by (intro rest_part) (simp_all add: sql_words)
qed

end
