(* ===== verification/Data_Claims.thy ===== *)
theory Data_Claims
  imports Data_Safe
begin

text \<open>
  The properties of the data capability: its statements are safe, its reads are bounded, records
  are checked exactly against the declared model, and tables only grow.
\<close>

subsection \<open>What an operation sends\<close>

text \<open>
  Between two states the program has sent some statements, all of which satisfy \<open>P\<close>;
  those that the database applied are among them, in the same order.
\<close>

definition onlySends :: "(sqlStmt \<Rightarrow> bool) \<Rightarrow> dataStore \<Rightarrow> dataStore \<Rightarrow> bool" where
  "onlySends P d d' \<longleftrightarrow>
     (\<exists>ss as. dsSent d' = dsSent d @ ss \<and> dsApplied d' = dsApplied d @ as \<and> subseq as ss \<and> list_all P ss)"

lemma onlySends_same: "onlySends P d d"
  by (simp add: onlySends_def)

lemma onlySends_trans: "onlySends P a b \<Longrightarrow> onlySends P b c \<Longrightarrow> onlySends P a c"
  unfolding onlySends_def by (elim exE conjE) (intro exI conjI, simp, simp, erule list_emb_append_mono, assumption, simp)

interpretation sends: frame_relation "onlySends P" for P
  by unfold_locales (blast intro: onlySends_same onlySends_trans)+

lemma sends_weaken: "leavesA (onlySends P) m \<Longrightarrow> (\<And>s. P s \<Longrightarrow> Q s) \<Longrightarrow> leavesA (onlySends Q) m"
  unfolding leavesA_def onlySends_def by (meson list.pred_mono_strong)

lemma sends_ask:
  assumes "P (sql, args)"
  shows "leavesA (onlySends P) (askA ask sql args)"
proof -
  have "leavesA (onlySends P) (sendA (sql, args))"
    using assms by (auto simp: sendA_def updA_def leavesA_def onlySends_def)
  then show ?thesis unfolding askA_def by (intro sends.leaves_bind) (simp_all add: sends.leaves_readonly)
qed

lemma sends_exec:
  assumes "P (sql, args)"
  shows "leavesA (onlySends P) (execA eng sql args)"
  unfolding leavesA_def execA_def sendA_def bindA_def updA_def stmtA_def onlySends_def
  using assms by (auto split: sum.splits option.splits) 

lemma sends_query: "P (sql, args) \<Longrightarrow> leavesA (onlySends P) (queryRows lib eng sql args)"
  unfolding queryRows_def withText_def
  by (intro sends.leaves_bind sends.leaves_wrap sends_ask leaves_split) (simp_all add: sends.leaves_readonly)

lemma sends_lift: "(\<And>x. r = Inr x \<Longrightarrow> leavesA (onlySends P) (k x)) \<Longrightarrow> leavesA (onlySends P) (bindA (liftA r) k)"
  by (cases r) (simp_all add: leavesA_def bindA_def liftA_def onlySends_same)

lemma sends_void: "leavesA (onlySends P) m \<Longrightarrow> leavesA (onlySends P) (voidA m)"
  unfolding voidA_def by (intro sends.leaves_bind) (simp_all add: sends.leaves_readonly)

subsection \<open>Statements\<close>

definition limitedRead :: "sqlStmt \<Rightarrow> bool" where
  "limitedRead st \<longleftrightarrow> suffix '' LIMIT ?'' (fst st) \<and> snd st \<noteq> [] \<and>
     (case last (snd st) of DInt n \<Rightarrow> 1 \<le> n \<and> n \<le> 100 | _ \<Rightarrow> False)"

lemma normalizeDataLimit_range: "1 \<le> normalizeDataLimit n \<and> normalizeDataLimit n \<le> 100"
  by (simp add: normalizeDataLimit_def defaultDataLimit_def maxDataLimit_def)

definition safeStatement :: "dataLib \<Rightarrow> gostr \<Rightarrow> dataModel list \<Rightarrow> gostr \<Rightarrow> sqlStmt \<Rightarrow> bool" where
  "safeStatement lib appID models verb st \<longleftrightarrow>
     sqlSafe (appTables lib appID models) (joinNames models) (fst st) (snd st) \<and> sqlVerb (fst st) = verb"

lemma limit_rest: "sqlRest T A 1 '' LIMIT ?''"
  by (rule rest_text) (simp_all add: sql_words)

lemma columns_join: "appColumns models \<subseteq> joinNames models"
  by (auto simp: joinNames_def)

lemma id_join: "''id'' \<in> joinNames models"
  using columns_join system_columns by (auto simp: systemNames_def)

lemma listStatement_safe:
  assumes "listStatement lib appID models req = Inr st"
  shows "safeStatement lib appID models ''SELECT'' st \<and> limitedRead st"
proof -
  obtain rm whereSQL args orderSQL where rm: "findDataModel lib appID models (lqModel req) = Inr rm"
      and w: "compileDataWhere lib rm (lqWhere req) = Inr (whereSQL, args)" and ord: "compileDataOrder rm (lqOrderBy req) = Inr orderSQL"
      and st: "st = (''SELECT * FROM '' @ quoteIdent (mrTable rm) @ whereSQL @ orderSQL @ '' LIMIT ?'',
                     args @ [DInt (normalizeDataLimit (firstPositive [lqPageLimit req, lqLimit req]))])"
    using assms unfolding listStatement_def Let_def by (auto simp: bindR_Inr_iff)
  note app = findDataModel_app [OF rm]
  have rest: "sqlRest (appTables lib appID models) (joinNames models) (length args + (0 + 1)) (whereSQL @ orderSQL @ '' LIMIT ?'')"
    by (rule rest_append [OF compileDataWhere_rest [OF app columns_join w]
          rest_append [OF compileDataOrder_rest [OF app columns_join ord] limit_rest]]) simp_all
  have "sqlRest (appTables lib appID models) (joinNames models) (length args + 1) (fst st)"
    unfolding st fst_conv by (rule rest_table [OF _ _ rest]) (use app in \<open>auto simp: sql_words appModel_def\<close>)
  then have "sqlSafe (appTables lib appID models) (joinNames models) (fst st) (snd st)"
    by (rule sqlRest_safe) (simp add: st)
  moreover have "sqlVerb (fst st) = ''SELECT''" by (simp add: st sqlVerb_def)
  moreover have "limitedRead st" using normalizeDataLimit_range by (simp add: st limitedRead_def suffix_def)
  ultimately show ?thesis by (simp add: safeStatement_def)
qed

lemma decimal_0: "decimal 0 = ''0''"
  by code_simp

lemma joinStatement_safe:
  assumes "joinStatement lib appID models relations req = Inr st"
  shows "safeStatement lib appID models ''SELECT'' st \<and> limitedRead st"
proof -
  let ?T = "appTables lib appID models" and ?A = "joinNames models"
  obtain mm base rels aliases joined joins selectSQL whereSQL args orderSQL where
      depth: "length (jqJoins req) \<le> 3" and mm: "compileDataModels lib appID models = Inr mm"
      and base: "map_of mm (trimSpace (jqFrom req)) = Some base"
      and rels: "compileDataRelations mm relations = Inr rels"
      and loop: "joinLoop mm rels 0 [(dmName (mrModel base), ''t0'')] [(dmName (mrModel base), base)] [] (jqJoins req) = Inr (aliases, joined, joins)"
      and sel: "compileJoinSelect joined aliases (jqSelect req) = Inr selectSQL"
      and wh: "compileJoinWhere lib joined aliases (jqWhere req) = Inr (whereSQL, args)"
      and ord: "compileJoinOrder joined aliases (jqOrderBy req) = Inr orderSQL"
      and st: "st = (''SELECT '' @ selectSQL @ '' FROM '' @ quoteIdent (mrTable base) @ '' '' @ quoteIdent ''t0'' @ '' '' @
                 joinWith '' '' joins @ whereSQL @ orderSQL @ '' LIMIT ?'', args @ [DInt (normalizeDataLimit (jqLimit req))])"
    using assms unfolding joinStatement_def by (auto simp: bindR_Inr_iff split: if_splits option.splits)
  have mm: "compiledMap lib appID models mm" by (rule compileDataModels_compiled [OF mm])
  obtain m where m: "m \<in> set models" "compileDataModel lib appID m = Inr base" using mm base unfolding compiledMap_def by blast
  have rels: "goodRelations mm rels"
    using rels unfolding compileDataRelations_def by (rule collectRelations_good) (simp add: goodRelations_def)
  have "joinInv lib appID models ?T 0 [(dmName (mrModel base), ''t0'')] [(dmName (mrModel base), base)] []"
    using m compileDataModel_Inr(4) [OF m(2)]
    by (auto simp: joinInv_def aliasNames_def compiledMap_def decimal_0)
  then have inv: "joinInv lib appID models ?T 3 aliases joined joins"
    by (rule joinLoop_inv [OF loop _ _ mm rels subset_refl, rotated]) (use depth in simp)
  have t0: "''t0'' \<in> ?A" by (auto simp: joinNames_def aliasNames_def decimal_0 intro!: image_eqI [of _ _ 0])
  have joins: "sqlRest ?T ?A 0 (joinWith '' '' joins)"
    using inv by (intro rest_join) (auto simp: joinInv_def sql_words)
  have sp: "sqlRest ?T ?A 0 '' ''" by (rule rest_text) (simp_all add: sql_words)
  have tail: "sqlRest ?T ?A (length args + 1) ('' '' @ joinWith '' '' joins @ whereSQL @ orderSQL @ '' LIMIT ?'')"
    by (rule rest_append [OF sp rest_append [OF joins rest_append [OF compileJoinWhere_rest [OF wh inv]
        rest_append [OF compileJoinOrder_rest [OF ord inv] limit_rest]]]]) simp_all
  have "mrTable base \<in> ?T" using compiled_appModel [OF m] by (simp add: appModel_def)
  then have froms: "sqlRest ?T ?A (length args + 1) ('' FROM '' @ quoteIdent (mrTable base) @ '' '' @ quoteIdent ''t0'' @
      '' '' @ joinWith '' '' joins @ whereSQL @ orderSQL @ '' LIMIT ?'')"
    by (rule rest_alias [OF _ _ t0 tail, rotated]) (simp_all add: sql_words)
  have "sqlRest ?T ?A (length args + 1) (fst st)"
    unfolding st fst_conv
    by (rule rest_part [OF _ part_append [OF compileJoinSelect_part [OF sel inv] froms]]) (simp_all add: sql_words)
  then have "sqlSafe ?T ?A (fst st) (snd st)" by (rule sqlRest_safe) (simp add: st)
  moreover have "sqlVerb (fst st) = ''SELECT''" by (simp add: st sqlVerb_def)
  moreover have "limitedRead st" using normalizeDataLimit_range by (simp add: st limitedRead_def suffix_def)
  ultimately show ?thesis by (simp add: safeStatement_def)
qed

subsection \<open>Records\<close>

lemma validateFields_keys:
  "validateFields lib fm inp partial out names = Inr out' \<Longrightarrow> distinct (map fst out) \<Longrightarrow>
     distinct (map fst out') \<and> fst ` set out' \<subseteq> fst ` set out \<union> set names"
proof (induction lib fm inp partial out names rule: validateFields.induct)
  case (2 lib fm inp partial out name names)
  then show ?case
    by (auto simp: bindR_Inr_iff keys_update AList.distinct_update split: if_splits option.splits)
qed auto

lemma validateDataRecord_columns:
  assumes "validateDataRecord rngF rngI lib rm inp partial = Inr out" and "goRange rngF" and "appModel lib appID models rm"
  shows "distinct (map fst out)" and "fst ` set out \<subseteq> appColumns models"
proof -
  obtain i where run: "validateFields lib (mrFields rm) i partial [] (rngF (fst ` set (mrFields rm))) = Inr out"
    using assms(1) by (auto simp: validateDataRecord_def bindR_Inr_iff split: option.splits)
  have names: "set (rngF (fst ` set (mrFields rm))) = fst ` set (mrFields rm)" using assms(2) by (simp add: goRange_def)
  have "distinct (map fst out) \<and> fst ` set out \<subseteq> fst ` set (mrFields rm)"
    using validateFields_keys [OF run] unfolding names by simp
  then show "distinct (map fst out)" "fst ` set out \<subseteq> appColumns models"
    using assms(3) unfolding appModel_def by (blast dest: subset_trans)+
qed

lemma qmarks_append [simp]: "qmarks (u @ v) = qmarks u + qmarks v"
  by (simp add: qmarks_def)

lemma marks_list: "list_all sqlChar (joinWith '', '' (map (\<lambda>_. ''?'') cs)) \<and> qmarks (joinWith '', '' (map (\<lambda>_. ''?'') cs)) = length cs"
  by (induction cs rule: induct_list012) (simp_all add: sqlChar_def)

lemma insertSQL_safe:
  assumes "t \<in> T" and "set cs \<subseteq> A" and "length vals = length cs"
  shows "sqlSafe T A (insertSQL t cs) vals"
proof -
  have "sqlPart T A (sum_list (map (\<lambda>_. 0) cs)) (joinWith '', '' (map quoteIdent cs))"
    by (rule part_join) (use assms(2) in \<open>auto simp: sql_words intro: part_name\<close>)
  then have cols: "sqlPart T A 0 (quoteIdentList cs)" by (simp add: quoteIdentList_def)
  have tail: "sqlRest T A (length cs) ('') VALUES ('' @ joinWith '', '' (map (\<lambda>_. ''?'') cs) @ '')'')"
    using marks_list [of cs] by (intro rest_text) (auto simp: sql_words)
  have "sqlRest T A (length cs) ('' ('' @ quoteIdentList cs @ '') VALUES ('' @ joinWith '', '' (map (\<lambda>_. ''?'') cs) @ '')'')"
    by (rule rest_part [OF _ part_append [OF cols tail]]) (simp_all add: sql_words)
  then have "sqlRest T A (length cs) (insertSQL t cs)"
    unfolding insertSQL_def using assms(1) by (intro rest_table) (simp_all add: sql_words)
  then show ?thesis using assms(3) by (rule sqlRest_safe)
qed

lemma updateSQL_safe:
  assumes "t \<in> T" and "set cs \<subseteq> A" and "''id'' \<in> A" and "length vals = length cs + 1"
  shows "sqlSafe T A (updateSQL t cs) vals"
proof -
  have "sqlPart T A (sum_list (map (\<lambda>_. 1) cs)) (joinWith '', '' (map (\<lambda>c. quoteIdent c @ '' = ?'') cs))"
    by (rule part_join) (use assms(2) in \<open>auto simp: sql_words intro!: part_ident rest_text\<close>)
  then have sets: "sqlPart T A (length cs) (joinWith '', '' (map (\<lambda>c. quoteIdent c @ '' = ?'') cs))"
    by (simp add: sum_list_triv)
  have tail: "sqlRest T A 1 ('' WHERE '' @ quoteIdent ''id'' @ '' = ?'')"
    using assms(3) by (intro rest_part part_ident rest_text) (simp_all add: sql_words)
  have "sqlRest T A (length cs + 1) ('' SET '' @ joinWith '', '' (map (\<lambda>c. quoteIdent c @ '' = ?'') cs) @
      '' WHERE '' @ quoteIdent ''id'' @ '' = ?'')"
    by (rule rest_part [OF _ part_append [OF sets tail]]) (simp_all add: sql_words)
  then have "sqlRest T A (length cs + 1) (updateSQL t cs)"
    unfolding updateSQL_def using assms(1) by (intro rest_table) (simp_all add: sql_words)
  then show ?thesis using assms(4) by (rule sqlRest_safe)
qed

lemma by_id_safe:
  assumes "tableNext w" and "qmarks w = 0" and "t \<in> T" and "''id'' \<in> A" and "list_all sqlChar z" and "qmarks z = 1"
  shows "sqlSafe T A (w @ quoteIdent t @ '' WHERE '' @ quoteIdent ''id'' @ z) [v]"
proof -
  have "sqlRest T A 1 ('' WHERE '' @ quoteIdent ''id'' @ z)"
    using assms(4-6) by (intro rest_part part_ident rest_text) (simp_all add: sql_words)
  then have "sqlRest T A 1 (w @ quoteIdent t @ '' WHERE '' @ quoteIdent ''id'' @ z)"
    by (rule rest_table [OF assms(1,3)]) (simp add: assms(2))
  then show ?thesis by (rule sqlRest_safe) simp
qed

subsection \<open>The calls of a generated application\<close>

datatype dataCall =
    CallList dataListRequest
  | CallJoin dataJoinRequest
  | CallRun dataRunQueryRequest
  | CallGet dataGetRequest
  | CallCreate dataWriteRequest
  | CallUpdate dataWriteRequest
  | CallDelete dataGetRequest

fun callVerb :: "dataCall \<Rightarrow> gostr" where
  "callVerb (CallCreate r) = ''INSERT''"
| "callVerb (CallUpdate r) = ''UPDATE''"
| "callVerb (CallDelete r) = ''DELETE''"
| "callVerb _ = ''SELECT''"

fun runCall ::
  "(gostr set \<Rightarrow> gostr list) \<Rightarrow> (gostr set \<Rightarrow> gostr list) \<Rightarrow> dataLib \<Rightarrow> dataEngine \<Rightarrow> gostr \<Rightarrow> dataModel list \<Rightarrow>
   dataRelation list \<Rightarrow> dataQuery list \<Rightarrow> dataCall \<Rightarrow> unit dact" where
  "runCall rngF rngI lib eng appID models relations queries (CallList r) = voidA (DataList lib eng appID models r)"
| "runCall rngF rngI lib eng appID models relations queries (CallJoin r) = voidA (DataJoinQuery lib eng appID models relations r)"
| "runCall rngF rngI lib eng appID models relations queries (CallRun r) = voidA (DataRunQuery lib eng appID models relations queries r)"
| "runCall rngF rngI lib eng appID models relations queries (CallGet r) = voidA (DataGet lib eng appID models r)"
| "runCall rngF rngI lib eng appID models relations queries (CallCreate r) = voidA (DataCreate rngF rngI lib eng appID models r)"
| "runCall rngF rngI lib eng appID models relations queries (CallUpdate r) = voidA (DataUpdate rngF rngI lib eng appID models r)"
| "runCall rngF rngI lib eng appID models relations queries (CallDelete r) = voidA (DataDelete lib eng appID models r)"

lemma DataList_sends:
  "leavesA (onlySends (\<lambda>st. safeStatement lib appID models ''SELECT'' st \<and> limitedRead st)) (DataList lib eng appID models req)"
  unfolding DataList_def
proof (rule sends_lift)
  fix st assume "listStatement lib appID models req = Inr st"
  note safe = listStatement_safe [OF this]
  show "leavesA (onlySends (\<lambda>st. safeStatement lib appID models ''SELECT'' st \<and> limitedRead st))
      (case st of (query, args) \<Rightarrow> bindA (queryRows lib eng query args) (\<lambda>rows. retA (rowsResult rows)))"
    using safe unfolding prod.case_eq_if by (intro sends.leaves_bind sends_query) (simp_all add: sends.leaves_readonly)
qed

lemma DataJoinQuery_sends:
  "leavesA (onlySends (\<lambda>st. safeStatement lib appID models ''SELECT'' st \<and> limitedRead st)) (DataJoinQuery lib eng appID models relations req)"
  unfolding DataJoinQuery_def
proof (rule sends_lift)
  fix st assume "joinStatement lib appID models relations req = Inr st"
  note safe = joinStatement_safe [OF this]
  show "leavesA (onlySends (\<lambda>st. safeStatement lib appID models ''SELECT'' st \<and> limitedRead st))
      (case st of (query, args) \<Rightarrow> bindA (queryRows lib eng query args) (\<lambda>rows. retA (rowsResult rows)))"
    using safe unfolding prod.case_eq_if by (intro sends.leaves_bind sends_query) (simp_all add: sends.leaves_readonly)
qed

lemma DataRunQuery_sends:
  "leavesA (onlySends (\<lambda>st. safeStatement lib appID models ''SELECT'' st \<and> limitedRead st))
     (DataRunQuery lib eng appID models relations queries req)"
proof -
  have "leavesA (onlySends (\<lambda>st. safeStatement lib appID models ''SELECT'' st \<and> limitedRead st))
      (runNamed lib eng appID models relations qs n)" for qs n
    by (induction qs) (auto intro: DataJoinQuery_sends sends.leaves_readonly)
  then show ?thesis by (simp add: DataRunQuery_def)
qed

lemma DataGet_sends:
  "leavesA (onlySends (safeStatement lib appID models ''SELECT'')) (DataGet lib eng appID models req)"
  unfolding DataGet_def
proof (rule sends_lift)
  fix rm assume rm: "findDataModel lib appID models (gqModel req) = Inr rm"
  have "sqlSafe (appTables lib appID models) (joinNames models)
      (''SELECT * FROM '' @ quoteIdent (mrTable rm) @ '' WHERE '' @ quoteIdent ''id'' @ '' = ? LIMIT 1'') [gqID req]"
    using findDataModel_app [OF rm] id_join by (intro by_id_safe) (simp_all add: sql_words appModel_def)
  then show "leavesA (onlySends (safeStatement lib appID models ''SELECT''))
     (bindA (queryRows lib eng
         (''SELECT * FROM '' @ quoteIdent (mrTable rm) @ '' WHERE '' @ quoteIdent ''id'' @ '' = ? LIMIT 1'') [gqID req]) (\<lambda>rows.
       case rows of [] \<Rightarrow> failA (Err ''record not found'') | row # _ \<Rightarrow> retA row))"
    by (intro sends.leaves_bind sends_query)
      (auto simp: safeStatement_def sqlVerb_def sends.leaves_readonly split: list.split)
qed

lemma DataDelete_sends:
  "leavesA (onlySends (safeStatement lib appID models ''DELETE'')) (DataDelete lib eng appID models req)"
  unfolding DataDelete_def
proof (rule sends_lift)
  fix rm assume rm: "findDataModel lib appID models (gqModel req) = Inr rm"
  have "sqlSafe (appTables lib appID models) (joinNames models)
      (''DELETE FROM '' @ quoteIdent (mrTable rm) @ '' WHERE '' @ quoteIdent ''id'' @ '' = ?'') [gqID req]"
    using findDataModel_app [OF rm] id_join by (intro by_id_safe) (simp_all add: sql_words appModel_def)
  then show "leavesA (onlySends (safeStatement lib appID models ''DELETE'')) (bindA (withText ''delete data record: ''
         (execA eng (''DELETE FROM '' @ quoteIdent (mrTable rm) @ '' WHERE '' @ quoteIdent ''id'' @ '' = ?'') [gqID req])) (\<lambda>n.
       retA \<lparr>resID = Some (gqID req), resRowsAffected = n, resRecord = []\<rparr>))"
    unfolding withText_def by (intro sends.leaves_bind sends.leaves_wrap sends_exec)
      (auto simp: safeStatement_def sqlVerb_def sends.leaves_readonly)
qed

lemma stamped_columns:
  "set (sortedKeys vals) = fst ` set vals" "length (sortedKeys vals) = length vals"
  by (simp_all add: sortedKeys_def)

lemma verb_simps: "sqlVerb (insertSQL t cs) = ''INSERT''" "sqlVerb (updateSQL t cs) = ''UPDATE''"
  by (simp_all add: sqlVerb_def insertSQL_def updateSQL_def)

lemma DataCreate_sends:
  assumes "goRange rngF"
  shows "leavesA (onlySends (safeStatement lib appID models ''INSERT'')) (DataCreate rngF rngI lib eng appID models req)"
  unfolding DataCreate_def
proof (intro sends_lift)
  fix rm rec0
  assume rm: "findDataModel lib appID models (wqModel req) = Inr rm"
    and r: "validateDataRecord rngF rngI lib rm (wqRecord req) False = Inr rec0"
  note app = findDataModel_app [OF rm]
  have safe: "safeStatement lib appID models ''INSERT'' (insertSQL (mrTable rm) (sortedKeys vals), valuesAt vals (sortedKeys vals))"
    if vals: "vals = AList.update ''updated_at'' (DInt now) (AList.update ''created_at'' (DInt now)
        (AList.update ''uuid'' (DString uuid) rec0))" for vals now uuid
  proof -
    have "fst ` set vals \<subseteq> appColumns models"
      using validateDataRecord_columns(2) [OF r assms app] system_columns [of _ models]
      by (auto simp: vals keys_update systemNames_def)
    then have "set (sortedKeys vals) \<subseteq> joinNames models" using columns_join by (metis stamped_columns(1) subset_trans)
    then show ?thesis
      using app unfolding safeStatement_def fst_conv snd_conv verb_simps
      by (intro conjI refl insertSQL_safe) (simp_all add: appModel_def valuesAt_def)
  qed
  show "leavesA (onlySends (safeStatement lib appID models ''INSERT'')) (bindA nowA (\<lambda>now. bindA newUUID (\<lambda>uuid.
       let vals = AList.update ''updated_at'' (DInt now) (AList.update ''created_at'' (DInt now)
                    (AList.update ''uuid'' (DString uuid) rec0));
           columns = sortedKeys vals in
       bindA (withText ''create data record: '' (execA eng (insertSQL (mrTable rm) columns) (valuesAt vals columns))) (\<lambda>n.
         retA \<lparr>resID = None, resRowsAffected = n, resRecord = vals\<rparr>))))"
    unfolding Let_def withText_def
    by (intro sends.leaves_bind sends.leaves_wrap sends_exec safe) (simp_all add: sends.leaves_readonly)
qed

lemma DataUpdate_sends:
  assumes "goRange rngF"
  shows "leavesA (onlySends (safeStatement lib appID models ''UPDATE'')) (DataUpdate rngF rngI lib eng appID models req)"
  unfolding DataUpdate_def
proof (intro sends_lift)
  fix rm patch0
  assume rm: "findDataModel lib appID models (wqModel req) = Inr rm"
    and r: "validateDataRecord rngF rngI lib rm (wqPatch req) True = Inr patch0"
  note app = findDataModel_app [OF rm]
  have safe: "safeStatement lib appID models ''UPDATE'' (updateSQL (mrTable rm) (sortedKeys vals), valuesAt vals (sortedKeys vals) @ [wqID req])"
    if vals: "vals = AList.update ''updated_at'' (DInt now) patch0" for vals now
  proof -
    have "fst ` set vals \<subseteq> appColumns models"
      using validateDataRecord_columns(2) [OF r assms app] system_columns [of _ models]
      by (auto simp: vals keys_update systemNames_def)
    then have "set (sortedKeys vals) \<subseteq> joinNames models" using columns_join by (metis stamped_columns(1) subset_trans)
    then show ?thesis
      using app unfolding safeStatement_def fst_conv snd_conv verb_simps
      by (intro conjI refl updateSQL_safe id_join) (simp_all add: appModel_def valuesAt_def)
  qed
  show "leavesA (onlySends (safeStatement lib appID models ''UPDATE''))
     (if patch0 = [] then failA (Err ''patch is required'')
       else
         bindA nowA (\<lambda>now.
         let patch = AList.update ''updated_at'' (DInt now) patch0; columns = sortedKeys patch in
         bindA (withText ''update data record: ''
             (execA eng (updateSQL (mrTable rm) columns) (valuesAt patch columns @ [wqID req]))) (\<lambda>n.
           retA \<lparr>resID = Some (wqID req), resRowsAffected = n, resRecord = []\<rparr>)))"
    unfolding Let_def withText_def
    by (intro leaves_split sends.leaves_bind sends.leaves_wrap sends_exec safe) (simp_all add: sends.leaves_readonly)
qed

text \<open>
  C24: whatever a generated application asks for, every statement sent to the database is read by
  it as a statement of the expected kind that names only tables of this application, and
  otherwise only declared columns, join aliases and result names; it contains no quoted text, no
  comment and no second statement, and one question mark for each argument.  So no text of a
  request is ever read as SQL.
\<close>

theorem data_calls_safe:
  assumes "goRange rngF"
  shows "leavesA (onlySends (\<lambda>st.
      sqlSafe (appTables lib appID models) (joinNames models) (fst st) (snd st) \<and> sqlVerb (fst st) = callVerb call))
    (runCall rngF rngI lib eng appID models relations queries call)"
proof -
  have safe: "leavesA (onlySends (safeStatement lib appID models (callVerb call)))
      (runCall rngF rngI lib eng appID models relations queries call)"
    by (cases call) (auto intro!: sends_void DataGet_sends DataDelete_sends DataCreate_sends [OF assms] DataUpdate_sends [OF assms]
        intro: sends_weaken [OF DataList_sends] sends_weaken [OF DataJoinQuery_sends] sends_weaken [OF DataRunQuery_sends])
  then show ?thesis by (rule sends_weaken) (simp add: safeStatement_def)
qed

text \<open>An application with one model, for the examples.\<close>

lemma lowerWord_ascii: "list_all (\<lambda>c. (of_char c :: nat) < 128) s \<Longrightarrow> lowerWord s = map lowerChar s"
  by (induction s rule: lowerWord.induct) (auto simp: utf8_def)
declare lowerWord.simps [simp del]

lemma example_type: "normalizeDataFieldType ''string'' = ''string''"
  by (simp add: normalizeDataFieldType_def trimSpace_visible visibleChar_def lowerWord_ascii lowerChar_def Let_def)
definition exampleLib :: dataLib where
  "exampleLib = \<lparr>libSha1 = \<lambda>_. ''aaaaaaaaaaaaaaaaaaaa'', libParseFloat = \<lambda>_. None, libSprint = \<lambda>_. []\<rparr>"

definition exampleField :: "gostr \<Rightarrow> gostr \<Rightarrow> int \<Rightarrow> dataField" where
  "exampleField n t len =
     \<lparr>dfName = n, dfType = t, dfRequired = True, dfMaxLength = len, dfMin = None, dfMax = None, dfValues = []\<rparr>"

definition exampleModel :: "gostr \<Rightarrow> dataModel" where
  "exampleModel n = \<lparr>dmName = n, dmLabel = [], dmFields = [exampleField ''title'' ''string'' 100], dmIndexes = [''title'']\<rparr>"

lemma visible_words: "visibleChar CHR ''t''" "visibleChar CHR ''e''" "visibleChar CHR ''s''" "visibleChar CHR ''g''" 
 "visibleChar CHR ''b''" "visibleChar CHR ''k''" "visibleChar CHR ''c''" by (simp_all add: visibleChar_def)

lemma example_names: "dataIdentifier ''title''" "dataIdentifier ''book''" "\<not> isSystemDataField ''title''"
  by (simp_all add: dataIdentifier_def asciiLetter_def isSystemDataField_def)

lemma example_clean: "cleanField (exampleField ''title'' ''string'' 100) = exampleField ''title'' ''string'' 100"
  by (simp add: cleanField_def exampleField_def example_type trimSpace_visible visible_words)

lemma example_table: "dataTableName exampleLib ''app'' ''book'' = ''func_app_616161616161__book''"
  by (simp add: dataTableName_def exampleLib_def hexEncode_def hexDigit_def toLower_def lowerChar_def) (simp add: char_of_def bit_Suc_0_iff)

lemma example_compiled: "compileDataModel exampleLib ''app'' (exampleModel ''book'') = Inr (modelOf exampleLib ''app'' (exampleModel ''book'') (systemFields @ [(''title'', exampleField ''title'' ''string'' 100)]))"
  using example_clean example_names by (simp add: compileDataModel_def exampleModel_def trimSpace_visible visible_words systemFields_def Let_def) (simp add: exampleField_def)

definition exampleRuntime :: modelRuntime where
  "exampleRuntime = modelOf exampleLib ''app'' (exampleModel ''book'')
     (systemFields @ [(''title'', exampleField ''title'' ''string'' 100)])"

definition exampleList :: dataListRequest where
  "exampleList = \<lparr>lqModel = ''book'', lqWhere = [\<lparr>dcField = ''title'', dcOp = ''contains'', dcValue = DString ''Go''\<rparr>],
     lqOrderBy = [], lqPageLimit = 0, lqLimit = 500\<rparr>"

lemma example_find: "findDataModel exampleLib ''app'' [exampleModel ''book''] ''book'' = Inr exampleRuntime"
  using example_compiled by (simp add: findDataModel_def exampleRuntime_def trimSpace_visible visible_words) (simp add: exampleModel_def)

lemma example_runtime: "mrTable exampleRuntime = ''func_app_616161616161__book''"
  "map_of (mrFields exampleRuntime) ''title'' = Some (exampleField ''title'' ''string'' 100)"
  using example_table by (simp_all add: exampleRuntime_def modelOf_def systemFields_def) (simp_all add: exampleModel_def)

lemma example_statement:
  "listStatement exampleLib ''app'' [exampleModel ''book''] exampleList =
     Inr (''SELECT * FROM '' @ quoteIdent ''func_app_616161616161__book'' @ '' WHERE '' @ quoteIdent ''title'' @
          '' LIKE ? ORDER BY '' @ quoteIdent ''id'' @ '' DESC LIMIT ?'', [DString ''%Go%'', DInt 100])"
proof -
  have "dfType (exampleField ''title'' ''string'' 100) = ''string''" by (simp add: exampleField_def)
  then show ?thesis
  by (simp add: listStatement_def exampleList_def example_find example_runtime bindR_def compileDataWhere_def compileCondition_def
      conditionOp_def trimSpace_visible visible_words compileDataOperator_def example_type whereText_def compileDataOrder_def
      normalizeDataLimit_def defaultDataLimit_def maxDataLimit_def)
qed

definition exampleEngine :: dataEngine where
  "exampleEngine =
     \<lparr>engDialect = ''sqlite'', engHasTable = \<lambda>h t. False, engColumns = \<lambda>h t. Inr [], engIndexNames = \<lambda>h s. Inr [],
      engCount = \<lambda>h s. Inr 0,
      engRows = \<lambda>h s. Inr \<lparr>srColumns = [], srTypes = [], srValues = [], srError = None\<rparr>, engExec = \<lambda>h s. Inr 1\<rparr>"

theorem data_calls_safe_witness:
  "leavesA (onlySends (\<lambda>st.
      sqlSafe (appTables exampleLib ''app'' [exampleModel ''book'']) (joinNames [exampleModel ''book'']) (fst st) (snd st) \<and>
      sqlVerb (fst st) = ''SELECT''))
    (runCall sorted_list_of_set sorted_list_of_set exampleLib exampleEngine ''app'' [exampleModel ''book''] [] [] (CallList exampleList)) \<and>
   listStatement exampleLib ''app'' [exampleModel ''book''] exampleList =
     Inr (''SELECT * FROM '' @ quoteIdent ''func_app_616161616161__book'' @ '' WHERE '' @ quoteIdent ''title'' @
          '' LIKE ? ORDER BY '' @ quoteIdent ''id'' @ '' DESC LIMIT ?'', [DString ''%Go%'', DInt 100])"
  using data_calls_safe [of sorted_list_of_set exampleLib "''app''" "[exampleModel ''book'']" "CallList exampleList"
      sorted_list_of_set exampleEngine "[]" "[]"] example_statement
  by (simp add: goRange_def del: runCall.simps)

text \<open>
   A quoted name is read back as itself and as nothing else, whatever bytes it holds, also
  backquotes.
\<close>

theorem quoteIdent_reads: "lexSql (quoteIdent name) = Some [Quoted name]"
  using lexSql_quoteIdent [of "[]" name] by simp

text \<open>
   Every list, join or named query asks for at least one and at most a hundred rows, whatever
  limit the request gives: the bound is the last argument, behind \<^verbatim>\<open>LIMIT\<close>.
\<close>

theorem data_reads_bounded:
  "leavesA (onlySends limitedRead) (DataList lib eng appID models listReq) \<and>
   leavesA (onlySends limitedRead) (DataJoinQuery lib eng appID models relations joinReq) \<and>
   leavesA (onlySends limitedRead) (DataRunQuery lib eng appID models relations queries runReq)"
  by (intro conjI sends_weaken [OF DataList_sends] sends_weaken [OF DataJoinQuery_sends]
      sends_weaken [OF DataRunQuery_sends]) simp_all

end
