(* ===== verification/Data_Records.thy ===== *)
theory Data_Records
  imports Data_Claims
begin

text \<open>
  What the data capability accepts: the declarations that compile, the records that pass their
  check, and what becomes of the tables when the declarations grow.
\<close>

subsection \<open>Declarations\<close>

definition ownNames :: "dataField list \<Rightarrow> gostr list" where
  "ownNames fs = filter (\<lambda>n. n \<notin> systemNames) (map (\<lambda>f. trimSpace (dfName f)) fs)"

definition fieldsOk :: "dataField list \<Rightarrow> bool" where
  "fieldsOk fs \<longleftrightarrow> list_all (\<lambda>f. dataIdentifier (trimSpace (dfName f))) fs \<and> distinct (ownNames fs) \<and>
     list_all (\<lambda>f. trimSpace (dfName f) \<in> systemNames \<or> normalizeDataFieldType (dfType f) \<noteq> []) fs"

lemma collectFields_iff:
  "(\<exists>fm'. collectFields fm fs = Inr fm') \<longleftrightarrow> fieldsOk fs \<and> set (ownNames fs) \<inter> fst ` set fm = {}"
proof (induction fs arbitrary: fm)
  case Nil
  then show ?case by (simp add: fieldsOk_def ownNames_def)
next
  case (Cons f fs)
  then show ?case
    by (auto simp: Let_def cleanField_def fieldsOk_def ownNames_def isSystemDataField_iff keys_update map_of_eq_None_iff)
qed

lemma compileDataModel_ok:
  "(\<exists>rm. compileDataModel lib appID m = Inr rm) \<longleftrightarrow> dataIdentifier (trimSpace (dmName m)) \<and> fieldsOk (dmFields m)"
proof -
  have "set (ownNames fs) \<inter> fst ` set systemFields = {}" for fs
    by (auto simp: ownNames_def systemFields_def systemNames_def)
  then have "(\<exists>fm. collectFields systemFields (dmFields m) = Inr fm) \<longleftrightarrow> fieldsOk (dmFields m)"
    by (simp add: collectFields_iff)
  then show ?thesis by (auto simp: compileDataModel_def Let_def split: sum.splits)
qed

text \<open>
  C27: a declared model compiles exactly when its name and the names of its fields are
  identifiers, no field of its own is declared twice and each has a type; fields with the name of
  a system column are ignored.  The compiled model then has the system columns and the declared
  ones, under the table of the application.
\<close>

theorem compileDataModel_exact:
  "case compileDataModel lib appID m of
     Inl e \<Rightarrow> \<not> (dataIdentifier (trimSpace (dmName m)) \<and> fieldsOk (dmFields m))
   | Inr rm \<Rightarrow> dataIdentifier (trimSpace (dmName m)) \<and> fieldsOk (dmFields m) \<and>
       mrTable rm = dataTableName lib appID (trimSpace (dmName m)) \<and> fst ` set (mrFields rm) = declaredFields m"
  using compileDataModel_ok [of lib appID m] compileDataModel_Inr [of lib appID m]
  by (cases "compileDataModel lib appID m") auto

subsection \<open>Records\<close>

text \<open>Which values a field takes.\<close>

definition withinRange :: "dataField \<Rightarrow> goFloat \<Rightarrow> bool" where
  "withinRange f x \<longleftrightarrow> pred_option (\<lambda>lo. \<not> fltLess x lo) (dfMin f) \<and> pred_option (\<lambda>hi. \<not> fltLess hi x) (dfMax f)"

definition fieldAccepts :: "dataLib \<Rightarrow> dataField \<Rightarrow> dataValue \<Rightarrow> bool" where
  "fieldAccepts lib f v \<longleftrightarrow>
     (if v = DNull then \<not> dfRequired f
      else case normalizeDataFieldType (dfType f) of t \<Rightarrow>
        if t \<in> {''string'', ''text'', ''enum''} then
          (\<exists>s. v = DString s \<and> (dfMaxLength f \<le> 0 \<or> int (length (runes s)) \<le> dfMaxLength f) \<and>
               (t = ''enum'' \<and> dfValues f \<noteq> [] \<longrightarrow> s \<in> set (dfValues f)))
        else if t \<in> {''int'', ''id'', ''float'', ''datetime''} then
          (\<exists>x. numberToFloat lib v = Some x \<and> withinRange f x)
        else t = ''bool'' \<longrightarrow> (\<exists>b. v = DBool b))"

lemma validateText_iff:
  "validateText f t s = Inr u \<longleftrightarrow> (dfMaxLength f \<le> 0 \<or> int (length (runes s)) \<le> dfMaxLength f) \<and>
     (t = ''enum'' \<and> dfValues f \<noteq> [] \<longrightarrow> s \<in> set (dfValues f))"
  by (auto simp: validateText_def stringInSlice_def)

lemma validateNumber_iff: "validateNumber lib f x = Inr u \<longleftrightarrow> withinRange f x"
  by (auto simp: validateNumber_def withinRange_def split: option.splits)

lemma validateDataValue_iff: "validateDataValue lib f v = Inr u \<longleftrightarrow> fieldAccepts lib f v"
proof (cases "v = DNull")
  case True
  then show ?thesis by (simp add: validateDataValue_def fieldAccepts_def)
next
  case False
  let ?t = "normalizeDataFieldType (dfType f)"
  consider "?t \<in> {''string'', ''text'', ''enum''}" | "?t \<in> {''int'', ''id'', ''float'', ''datetime''}" | "?t = ''bool''"
    | "?t \<notin> {''string'', ''text'', ''enum'', ''int'', ''id'', ''float'', ''datetime'', ''bool''}" by blast
  then show ?thesis
  proof cases
    case 1
    then show ?thesis using False
      by (cases v) (simp_all add: validateDataValue_def fieldAccepts_def Let_def validateText_iff)
  next
    case 2
    then have "?t \<notin> {''string'', ''text'', ''enum''}" by auto
    then show ?thesis using 2 False
      by (simp add: validateDataValue_def fieldAccepts_def Let_def validateNumber_iff split: option.split)
  next
    case 3
    then show ?thesis using False by (cases v) (simp_all add: validateDataValue_def fieldAccepts_def Let_def)
  next
    case 4
    then show ?thesis using False by (simp add: validateDataValue_def fieldAccepts_def Let_def)
  qed
qed

text \<open>The own fields of a compiled model, and the records it takes.\<close>

definition ownField :: "modelRuntime \<Rightarrow> gostr \<Rightarrow> dataField option" where
  "ownField rm n = (if n \<in> systemNames then None else map_of (mrFields rm) n)"

definition recordOk :: "dataLib \<Rightarrow> modelRuntime \<Rightarrow> dataRecord \<Rightarrow> bool \<Rightarrow> bool" where
  "recordOk lib rm inp partial \<longleftrightarrow>
     (\<forall>(n, v) \<in> set inp. \<exists>f. ownField rm n = Some f \<and> fieldAccepts lib f v) \<and>
     (partial \<or> (\<forall>n f. ownField rm n = Some f \<longrightarrow> dfRequired f \<longrightarrow> n \<in> fst ` set inp))"

definition nameOk :: "dataLib \<Rightarrow> fieldMap \<Rightarrow> dataRecord \<Rightarrow> bool \<Rightarrow> gostr \<Rightarrow> bool" where
  "nameOk lib fm inp partial n \<longleftrightarrow> n \<in> systemNames \<or>
     (case map_of inp n of
        None \<Rightarrow> partial \<or> \<not> dfRequired (the (map_of fm n))
      | Some v \<Rightarrow> fieldAccepts lib (the (map_of fm n)) v)"

lemma bindR_ok: "(\<exists>y. bindR r k = Inr y) \<longleftrightarrow> (\<exists>x. r = Inr x \<and> (\<exists>y. k x = Inr y))"
  by (auto simp: bindR_Inr_iff)

lemma validateFields_iff:
  "(\<exists>out'. validateFields lib fm inp partial out names = Inr out') \<longleftrightarrow> list_all (nameOk lib fm inp partial) names"
proof (induction lib fm inp partial out names rule: validateFields.induct)
  case (2 lib fm inp partial out name names)
  then show ?case
    by (cases "map_of inp name")
      (auto simp: nameOk_def [of lib fm inp partial name] isSystemDataField_iff bindR_ok validateDataValue_iff)
qed simp

lemma validateFields_out:
  "validateFields lib fm inp partial out names = Inr out' \<Longrightarrow>
     map_of out' n = (if n \<in> set names - systemNames \<and> map_of inp n \<noteq> None then map_of inp n else map_of out n)"
proof (induction lib fm inp partial out names rule: validateFields.induct)
  case (2 lib fm inp partial out name names)
  then show ?case
    by (auto simp: isSystemDataField_iff bindR_Inr_iff AList.update_conv' split: if_splits option.splits)
qed simp

lemma checkInputName_iff: "checkInputName fm n = Inr u \<longleftrightarrow> n \<in> fst ` set fm \<and> n \<notin> systemNames"
  by (auto simp: checkInputName_def isSystemDataField_iff map_of_eq_None_iff)

lemma mapR_ok: "(\<exists>ys. mapR f xs = Inr ys) \<longleftrightarrow> (\<forall>x \<in> set xs. \<exists>y. f x = Inr y)"
  by (induction xs) (auto simp: bindR_Inr_iff)

lemma goRange_keys: "goRange rng \<Longrightarrow> set (rng (fst ` set al)) = fst ` set al"
  by (simp add: goRange_def)

lemma all_entries:
  "(\<forall>n. (\<exists>f. M n = Some f) \<longrightarrow> S n \<or> Q n (the (M n))) \<longleftrightarrow> (\<forall>n f. M n = Some f \<longrightarrow> \<not> S n \<longrightarrow> Q n f)"
  by (metis option.sel)

lemma accept_logic:
  "(\<forall>n f. F n = Some f \<longrightarrow> n \<notin> S \<longrightarrow> (case M n of None \<Rightarrow> p \<or> \<not> r f | Some v \<Rightarrow> acc f v)) \<and>
     (\<forall>n v. M n = Some v \<longrightarrow> n \<notin> S \<and> (\<exists>f. F n = Some f)) \<longleftrightarrow>
   (\<forall>n v. M n = Some v \<longrightarrow> (\<exists>f. (n \<notin> S \<and> F n = Some f) \<and> acc f v)) \<and>
     (p \<or> (\<forall>n f. n \<notin> S \<and> F n = Some f \<longrightarrow> r f \<longrightarrow> (\<exists>v. M n = Some v)))"
  (is "?L \<longleftrightarrow> ?R")
proof
  assume L: ?L
  have "\<exists>f. (n \<notin> S \<and> F n = Some f) \<and> acc f v" if "M n = Some v" for n v
    using L that by (metis option.simps(5))
  moreover have "\<exists>v. M n = Some v" if "n \<notin> S \<and> F n = Some f" "r f" "\<not> p" for n f
    using L that by (metis not_None_eq option.simps(4))
  ultimately show ?R by blast
next
  assume R: ?R
  have "case M n of None \<Rightarrow> p \<or> \<not> r f | Some v \<Rightarrow> acc f v" if "F n = Some f" "n \<notin> S" for n f
    using R that by (cases "M n") fastforce+
  then show ?L using R by blast
qed

lemma recordOk_iff:
  assumes "distinct (map fst inp)"
  shows "(\<forall>n \<in> fst ` set (mrFields rm). nameOk lib (mrFields rm) inp partial n) \<and>
      fst ` set inp \<subseteq> fst ` set (mrFields rm) - systemNames \<longleftrightarrow> recordOk lib rm inp partial"
proof -
  let ?fm = "mrFields rm"
  have keys: "n \<in> fst ` set al \<longleftrightarrow> (\<exists>x. map_of al n = Some x)" for n and al :: "(gostr \<times> 'z) list"
    by (metis map_of_eq_None_iff not_None_eq)
  have entry: "(n, v) \<in> set inp \<longleftrightarrow> map_of inp n = Some v" for n v using assms by simp
  have own: "ownField rm n = Some f \<longleftrightarrow> n \<notin> systemNames \<and> map_of ?fm n = Some f" for n f
    by (simp add: ownField_def)
  have pairs: "(\<forall>(n, v) \<in> set inp. R n v) \<longleftrightarrow> (\<forall>n v. map_of inp n = Some v \<longrightarrow> R n v)" for R
    by (auto simp: entry [symmetric])
  have "fst ` set inp \<subseteq> fst ` set ?fm - systemNames \<longleftrightarrow>
      (\<forall>n v. map_of inp n = Some v \<longrightarrow> n \<notin> systemNames \<and> (\<exists>f. map_of ?fm n = Some f))"
    by (auto simp: subset_iff keys simp del: not_None_eq)
  moreover have "(\<forall>n \<in> fst ` set ?fm. nameOk lib ?fm inp partial n) \<longleftrightarrow>
      (\<forall>n f. map_of ?fm n = Some f \<longrightarrow> n \<notin> systemNames \<longrightarrow>
        (case map_of inp n of None \<Rightarrow> partial \<or> \<not> dfRequired f | Some v \<Rightarrow> fieldAccepts lib f v))"
    unfolding Ball_def keys nameOk_def
    by (rule all_entries [where Q = "\<lambda>n f. case map_of inp n of
          None \<Rightarrow> partial \<or> \<not> dfRequired f | Some v \<Rightarrow> fieldAccepts lib f v"])
  moreover have "recordOk lib rm inp partial \<longleftrightarrow>
      (\<forall>n v. map_of inp n = Some v \<longrightarrow> (\<exists>f. (n \<notin> systemNames \<and> map_of ?fm n = Some f) \<and> fieldAccepts lib f v)) \<and>
      (partial \<or> (\<forall>n f. n \<notin> systemNames \<and> map_of ?fm n = Some f \<longrightarrow> dfRequired f \<longrightarrow> (\<exists>v. map_of inp n = Some v)))"
    unfolding recordOk_def pairs keys own by blast
  ultimately show ?thesis by (simp only: accept_logic)
qed

text \<open>
  C25: in whatever order the maps are walked, a record is accepted exactly when every entry is a
  value that its declared field takes, and, unless it is a patch, no required field is missing;
  what is then stored are the entries given, nothing more and nothing less.
\<close>

theorem validateDataRecord_exact:
  assumes "goRange rngF" and "goRange rngI" and "distinct (map fst inp)"
  shows "case validateDataRecord rngF rngI lib rm (Some inp) partial of
      Inl e \<Rightarrow> \<not> recordOk lib rm inp partial
    | Inr out \<Rightarrow> recordOk lib rm inp partial \<and> map_of out = map_of inp"
proof -
  let ?fm = "mrFields rm" and ?run = "\<lambda>q. validateFields lib (mrFields rm) inp partial [] (rngF (fst ` set (mrFields rm))) = Inr q"
  have walk: "(\<exists>q. ?run q) \<longleftrightarrow> (\<forall>n \<in> fst ` set ?fm. nameOk lib ?fm inp partial n)"
    by (simp add: validateFields_iff list_all_iff goRange_keys [OF assms(1)])
  have names: "(\<exists>us. mapR (checkInputName ?fm) (rngI (fst ` set inp)) = Inr us) \<longleftrightarrow>
      fst ` set inp \<subseteq> fst ` set ?fm - systemNames"
    by (auto simp: mapR_ok checkInputName_iff goRange_keys [OF assms(2)])
  have ok: "(\<exists>out. validateDataRecord rngF rngI lib rm (Some inp) partial = Inr out) \<longleftrightarrow> recordOk lib rm inp partial"
    unfolding recordOk_iff [OF assms(3), symmetric] walk [symmetric] names [symmetric]
    by (auto simp: validateDataRecord_def bindR_Inr_iff)
  have stored: "map_of out = map_of inp" if run: "validateDataRecord rngF rngI lib rm (Some inp) partial = Inr out" for out
  proof
    fix n
    have walked: "?run out" and dom: "fst ` set inp \<subseteq> fst ` set ?fm - systemNames"
      using run names by (auto simp: validateDataRecord_def bindR_Inr_iff)
    have "map_of inp n = None" if "n \<notin> fst ` set ?fm - systemNames"
      using dom that by (auto simp: map_of_eq_None_iff)
    then show "map_of out n = map_of inp n"
      using validateFields_out [OF walked, of n] goRange_keys [OF assms(1), of ?fm] by auto
  qed
  show ?thesis using ok stored by (cases "validateDataRecord rngF rngI lib rm (Some inp) partial") auto
qed

theorem validateDataRecord_exact_witness:
  "(case validateDataRecord sorted_list_of_set sorted_list_of_set exampleLib exampleRuntime
       (Some [(''title'', DString ''Go'')]) False of
      Inl e \<Rightarrow> \<not> recordOk exampleLib exampleRuntime [(''title'', DString ''Go'')] False
    | Inr out \<Rightarrow> recordOk exampleLib exampleRuntime [(''title'', DString ''Go'')] False \<and>
        map_of out = map_of [(''title'', DString ''Go'')]) \<and>
   recordOk exampleLib exampleRuntime [(''title'', DString ''Go'')] False \<and>
   \<not> recordOk exampleLib exampleRuntime [] False"
proof (intro conjI)
  show "case validateDataRecord sorted_list_of_set sorted_list_of_set exampleLib exampleRuntime
       (Some [(''title'', DString ''Go'')]) False of
      Inl e \<Rightarrow> \<not> recordOk exampleLib exampleRuntime [(''title'', DString ''Go'')] False
    | Inr out \<Rightarrow> recordOk exampleLib exampleRuntime [(''title'', DString ''Go'')] False \<and>
        map_of out = map_of [(''title'', DString ''Go'')]"
    by (rule validateDataRecord_exact) (simp_all add: goRange_def)
  have f: "dfType (exampleField ''title'' ''string'' 100) = ''string''" "dfRequired (exampleField ''title'' ''string'' 100)"
      "dfMaxLength (exampleField ''title'' ''string'' 100) = 100"
    by (simp_all add: exampleField_def)
  have "runes ''Go'' = [''G'', ''o'']" by (simp add: runes.simps runeWidth_def)
  then have "fieldAccepts exampleLib (exampleField ''title'' ''string'' 100) (DString ''Go'')"
    by (simp add: fieldAccepts_def f example_type)
  moreover have own: "ownField exampleRuntime n = Some g \<longleftrightarrow> n = ''title'' \<and> g = exampleField ''title'' ''string'' 100" for n g
    by (auto simp: ownField_def exampleRuntime_def modelOf_def systemFields_def systemNames_def)
  ultimately show "recordOk exampleLib exampleRuntime [(''title'', DString ''Go'')] False"
    by (simp add: recordOk_def)
  show "\<not> recordOk exampleLib exampleRuntime [] False" by (simp add: recordOk_def own f)
qed

text \<open>
  A field that declares more than a thousand characters gets a column of 255, while its values
  are checked against the declared length.
\<close>

theorem column_narrower_than_check:
  assumes "normalizeDataFieldType (dfType f) = ''string''" and "dfMaxLength f > 1000"
  shows "dataColumnType f dialect = Inr ''VARCHAR(255)'' \<and>
     (int (length (runes s)) \<le> dfMaxLength f \<longrightarrow> fieldAccepts lib f (DString s))"
proof -
  have "showInt 255 = ''255''" by code_simp
  then show ?thesis using assms by (simp add: dataColumnType_def varcharLength_def fieldAccepts_def)
qed

end
