(* ===== verification/Data_Tables.thy ===== *)
theory Data_Tables
  imports Data_Records
begin

text \<open>
  How the tables of a generated application follow its declared models: what a call of
  \<^verbatim>\<open>ApplyDataModels\<close> executes, and that it never takes anything away.
\<close>

subsection \<open>The statements of a successful call\<close>

text \<open>The driver was asked \<open>k\<close> more times.\<close>

definition asked :: "nat \<Rightarrow> 'd world \<Rightarrow> 'd world \<Rightarrow> bool" where
  "asked k w w' \<longleftrightarrow> tick w' = tick w + k \<and> faultAt w' = faultAt w"

lemma asked_0 [simp]: "asked 0 w w"
  by (simp add: asked_def)

lemma asked_trans: "asked j u v \<Longrightarrow> asked k v w \<Longrightarrow> asked (j + k) u w"
  by (simp add: asked_def)

lemma execA_applied:
  "execA eng sql args w = (Inr n, w') \<Longrightarrow> dsApplied (db w') = dsApplied (db w) @ [(sql, args)] \<and> asked 1 w w'"
  by (auto simp: execA_def sendA_def act_Inr asked_def split: sum.splits)

lemma askA_answer:
  "askA ask sql args w = (Inr x, w') \<Longrightarrow>
     ask (dsApplied (db w)) (sql, args) = Inr x \<and> dsApplied (db w') = dsApplied (db w) \<and> asked 1 w w'"
  by (auto simp: askA_def sendA_def act_Inr asked_def)

lemma voidA_Inr: "voidA m w = (Inr u, w') \<longleftrightarrow> (\<exists>x. m w = (Inr x, w'))"
  by (auto simp: voidA_def bindA_Inr_iff)

lemma withText_Inr [simp]: "withText t m w = (Inr x, w') \<longleftrightarrow> m w = (Inr x, w')"
  by (simp add: withText_def)

definition absentFields :: "modelRuntime \<Rightarrow> gostr list \<Rightarrow> dataField list" where
  "absentFields rm columns = filter (\<lambda>f. toLower (dfName f) \<notin> set columns) (ownFields rm)"

definition absentIndexes :: "modelRuntime \<Rightarrow> gostr list \<Rightarrow> gostr list" where
  "absentIndexes rm names = filter (\<lambda>i. toLower (''idx_'' @ i) \<notin> set names) (ownIndexes rm)"

definition columnsAdded :: "modelRuntime \<Rightarrow> gostr list \<Rightarrow> sqlStmt list" where
  "columnsAdded rm defs = map (\<lambda>c. (addColumnSQL (mrTable rm) c, [])) defs"

definition indexesAdded :: "gostr \<Rightarrow> modelRuntime \<Rightarrow> gostr list \<Rightarrow> sqlStmt list" where
  "indexesAdded dialect rm ixs = map (\<lambda>i. (dataCreateIndexSQL dialect (mrTable rm) (''idx_'' @ i) i, [])) ixs"

lemma addMissingColumns_applied:
  "forA fs (addMissingColumn eng rm columns) w = (Inr u, w') \<Longrightarrow>
     \<exists>defs. mapR (\<lambda>f. dataColumnDefinition f True (engDialect eng)) (filter (\<lambda>f. toLower (dfName f) \<notin> set columns) fs) = Inr defs \<and>
       dsApplied (db w') = dsApplied (db w) @ columnsAdded rm defs \<and> asked (length defs) w w'"
proof (induction fs arbitrary: w)
  case Nil
  then show ?case by (simp add: columnsAdded_def)
next
  case (Cons f fs)
  obtain v where step: "addMissingColumn eng rm columns f w = (Inr (), v)"
      and rest: "forA fs (addMissingColumn eng rm columns) v = (Inr u, w')"
    using Cons.prems by (auto simp: bindA_Inr_iff)
  obtain defs where defs: "mapR (\<lambda>f. dataColumnDefinition f True (engDialect eng))
        (filter (\<lambda>f. toLower (dfName f) \<notin> set columns) fs) = Inr defs"
      "dsApplied (db w') = dsApplied (db v) @ columnsAdded rm defs" "asked (length defs) v w'"
    using Cons.IH [OF rest] by blast
  show ?case
  proof (cases "toLower (dfName f) \<in> set columns")
    case True
    then have "v = w" using step by (simp add: addMissingColumn_def)
    then show ?thesis using defs True by simp
  next
    case False
    then obtain c n where c: "dataColumnDefinition f True (engDialect eng) = Inr c"
        "execA eng (addColumnSQL (mrTable rm) c) [] w = (Inr n, v)"
      using step by (auto simp: addMissingColumn_def bindA_Inr_iff voidA_Inr)
    then show ?thesis using defs False execA_applied [OF c(2)] asked_trans [of 1 w v]
      by (simp add: bindR_def columnsAdded_def)
  qed
qed

lemma addMissingIndexes_applied:
  "forA ixs (addMissingIndex eng rm names) w = (Inr u, w') \<Longrightarrow>
     dsApplied (db w') = dsApplied (db w) @ indexesAdded (engDialect eng) rm
       (filter (\<lambda>i. toLower (''idx_'' @ i) \<notin> set names) ixs) \<and>
     asked (length (filter (\<lambda>i. toLower (''idx_'' @ i) \<notin> set names) ixs)) w w'"
proof (induction ixs arbitrary: w)
  case Nil
  then show ?case by (simp add: indexesAdded_def)
next
  case (Cons i ixs)
  obtain v where step: "addMissingIndex eng rm names i w = (Inr (), v)"
      and rest: "forA ixs (addMissingIndex eng rm names) v = (Inr u, w')"
    using Cons.prems by (auto simp: bindA_Inr_iff)
  show ?case
  proof (cases "toLower (''idx_'' @ i) \<in> set names")
    case True
    then have "v = w" using step by (auto simp: addMissingIndex_def bindA_Inr_iff)
    then show ?thesis using Cons.IH [OF rest] True by simp
  next
    case False
    then obtain n where "execA eng (dataCreateIndexSQL (engDialect eng) (mrTable rm) (''idx_'' @ i) i) [] w = (Inr n, v)"
      using step by (auto simp: addMissingIndex_def bindA_Inr_iff voidA_Inr)
    from execA_applied [OF this] show ?thesis using Cons.IH [OF rest] False asked_trans [of 1 w v]
      by (simp add: indexesAdded_def)
  qed
qed

text \<open>
  What one model asks for: a table that the engine does not report is created as declared; for one
  that exists exactly the declared columns and then the declared indexes that it lacks are added.
  \<open>fails\<close> says which of the calls of the driver fail, counted from the start of the program:
  gorm's \<^verbatim>\<open>HasTable\<close> answers no when its own query fails, so that an existing table is then
  asked for again with \<^verbatim>\<open>IF NOT EXISTS\<close>.  The calls of a model are the query for the
  table, the lists of the columns and indexes of an existing one, and one for each statement.
\<close>

definition tableCreated :: "dataEngine \<Rightarrow> modelRuntime \<Rightarrow> sqlStmt list \<Rightarrow> sqlStmt list \<Rightarrow> bool" where
  "tableCreated eng rm h h' \<longleftrightarrow>
     (\<exists>ddls. dataModelDDLs rm (engDialect eng) = Inr ddls \<and> h' = h @ map (\<lambda>s. (s, [])) ddls)"

definition tableGrown :: "dataEngine \<Rightarrow> modelRuntime \<Rightarrow> sqlStmt list \<Rightarrow> sqlStmt list \<Rightarrow> bool" where
  "tableGrown eng rm h h' \<longleftrightarrow>
     (\<exists>columns defs names.
        engColumns eng h (mrTable rm) = Inr columns \<and>
        mapR (\<lambda>f. dataColumnDefinition f True (engDialect eng)) (absentFields rm (map toLower columns)) = Inr defs \<and>
        engIndexNames eng (h @ columnsAdded rm defs) (indexQuery eng (mrTable rm), []) = Inr names \<and>
        h' = h @ columnsAdded rm defs @
             indexesAdded (engDialect eng) rm (absentIndexes rm (map toLower names)))"

definition modelApplied ::
  "dataLib \<Rightarrow> dataEngine \<Rightarrow> gostr \<Rightarrow> (nat \<Rightarrow> gostr option) \<Rightarrow> dataModel \<Rightarrow> nat \<Rightarrow> sqlStmt list \<Rightarrow>
   nat \<Rightarrow> sqlStmt list \<Rightarrow> bool" where
  "modelApplied lib eng appID fails m n h n' h' \<longleftrightarrow>
     (\<exists>rm. compileDataModel lib appID m = Inr rm \<and>
        (if engHasTable eng h (mrTable rm) \<and> fails n = None
         then tableGrown eng rm h h' \<and> n' = n + 3 + (length h' - length h)
         else tableCreated eng rm h h' \<and> n' = n + 1 + (length h' - length h)))"

fun modelsApplied ::
  "dataLib \<Rightarrow> dataEngine \<Rightarrow> gostr \<Rightarrow> (nat \<Rightarrow> gostr option) \<Rightarrow> dataModel list \<Rightarrow> nat \<Rightarrow> sqlStmt list \<Rightarrow>
   sqlStmt list \<Rightarrow> bool" where
  "modelsApplied lib eng appID fails [] n h h' \<longleftrightarrow> h' = h"
| "modelsApplied lib eng appID fails (m # ms) n h h' \<longleftrightarrow>
     (\<exists>n1 h1. modelApplied lib eng appID fails m n h n1 h1 \<and> modelsApplied lib eng appID fails ms n1 h1 h')"

lemma hasTableA_Inr:
  "hasTableA eng t w = (Inr has, v) \<Longrightarrow> db v = db w \<and> asked 1 w v \<and>
     has = (engHasTable eng (dsApplied (db w)) t \<and> faultAt w (tick w) = None)"
  by (auto simp: hasTableA_def handleA_def queryA_def stmtA_def asked_def split: prod.splits sum.splits option.splits)

lemma created_applied:
  "forA ddls (\<lambda>ddl. voidA (withText t (execA eng ddl []))) w = (Inr u, w') \<Longrightarrow>
     dsApplied (db w') = dsApplied (db w) @ map (\<lambda>s. (s, [])) ddls \<and> asked (length ddls) w w'"
proof (induction ddls arbitrary: w)
  case (Cons s ddls)
  then obtain n v where "execA eng s [] w = (Inr n, v)"
      and rest: "forA ddls (\<lambda>ddl. voidA (withText t (execA eng ddl []))) v = (Inr u, w')"
    by (auto simp: bindA_Inr_iff voidA_Inr)
  from execA_applied [OF this(1)] show ?case using Cons.IH [OF rest] asked_trans [of 1 w v] by simp
qed simp

lemma grown_applied:
  assumes "applyDataModelAdditiveChanges eng rm w = (Inr u, w')"
  shows "tableGrown eng rm (dsApplied (db w)) (dsApplied (db w'))"
    and "asked (2 + (length (dsApplied (db w')) - length (dsApplied (db w)))) w w'"
proof -
  obtain columns v2 names v3 where
      c: "engColumns eng (dsApplied (db w)) (mrTable rm) = Inr columns"
      and add: "forA (ownFields rm) (addMissingColumn eng rm (map toLower columns)) (nextTick w) = (Inr (), v2)"
      and ix: "askA (engIndexNames eng) (indexQuery eng (mrTable rm)) [] v2 = (Inr names, v3)"
      and addix: "forA (ownIndexes rm) (addMissingIndex eng rm (map toLower names)) v3 = (Inr u, w')"
    using assms unfolding applyDataModelAdditiveChanges_def dataModelColumns_def dataModelIndexes_def
    by (auto simp: bindA_Inr_iff queryA_Inr_iff)
  obtain defs where defs: "mapR (\<lambda>f. dataColumnDefinition f True (engDialect eng)) (absentFields rm (map toLower columns)) = Inr defs"
      "dsApplied (db v2) = dsApplied (db w) @ columnsAdded rm defs" "asked (length defs) (nextTick w) v2"
    using addMissingColumns_applied [OF add] by (auto simp: absentFields_def)
  note ixs = askA_answer [OF ix] addMissingIndexes_applied [OF addix]
  show "tableGrown eng rm (dsApplied (db w)) (dsApplied (db w'))"
    unfolding tableGrown_def using c defs(1,2) ixs by (auto simp: absentIndexes_def)
  show "asked (2 + (length (dsApplied (db w')) - length (dsApplied (db w)))) w w'"
    using defs(2,3) ixs by (simp add: asked_def columnsAdded_def indexesAdded_def)
qed

lemma applyDataModel_applied:
  assumes "applyDataModel lib eng appID m w = (Inr u, w')"
  shows "modelApplied lib eng appID (faultAt w) m (tick w) (dsApplied (db w)) (tick w') (dsApplied (db w')) \<and>
    faultAt w' = faultAt w"
proof -
  obtain rm has v where rm: "compileDataModel lib appID m = Inr rm" and has: "hasTableA eng (mrTable rm) w = (Inr has, v)"
      and run: "(if \<not> has then
         bindA (liftA (dataModelDDLs rm (engDialect eng))) (\<lambda>ddls.
           forA ddls (\<lambda>ddl. voidA (withText (''apply data model schema '' @ goQuote (dmName m) @ '': '') (execA eng ddl []))))
       else applyDataModelAdditiveChanges eng rm) v = (Inr u, w')"
    using assms unfolding applyDataModel_def by (auto simp: bindA_Inr_iff)
  note hasT = hasTableA_Inr [OF has]
  show ?thesis
  proof (cases has)
    case True
    then have "applyDataModelAdditiveChanges eng rm v = (Inr u, w')" using run by simp
    from grown_applied [OF this] show ?thesis
      using True rm hasT by (auto simp: modelApplied_def asked_def)
  next
    case False
    then obtain ddls where "dataModelDDLs rm (engDialect eng) = Inr ddls"
        "dsApplied (db w') = dsApplied (db v) @ map (\<lambda>s. (s, [])) ddls \<and> asked (length ddls) v w'"
      using run by (auto simp: bindA_Inr_iff dest!: created_applied)
    then show ?thesis using False rm hasT by (auto simp: modelApplied_def tableCreated_def asked_def)
  qed
qed

subsection \<open>Nothing is taken away\<close>

text \<open>
  The only statements of a call: \<^verbatim>\<open>CREATE ... IF NOT EXISTS\<close>,
  \<^verbatim>\<open>ALTER TABLE ... ADD\<close> and the two that list the indexes.
\<close>

definition growthStatement :: "sqlStmt \<Rightarrow> bool" where
  "growthStatement st \<longleftrightarrow> snd st = [] \<and>
     (list_ex (\<lambda>w. prefix w (fst st))
        [''CREATE TABLE IF NOT EXISTS '', ''CREATE INDEX IF NOT EXISTS '', ''PRAGMA index_list('', ''SHOW INDEX FROM ''] \<or>
      (\<exists>t c. fst st = ''ALTER TABLE '' @ quoteIdent t @ '' ADD '' @ c))"

lemma growth_index: "growthStatement (dataCreateIndexSQL dialect t i c, [])"
  by (auto simp: growthStatement_def dataCreateIndexSQL_def)

lemma growth_column: "growthStatement (addColumnSQL t c, [])"
  by (auto simp: growthStatement_def addColumnSQL_def)

lemma growth_list: "growthStatement (indexQuery eng t, [])"
  by (auto simp: growthStatement_def indexQuery_def)

lemma growth_create: "dataModelDDLs rm dialect = Inr ddls \<Longrightarrow> s \<in> set ddls \<Longrightarrow> growthStatement (s, [])"
  using growth_index by (auto simp: dataModelDDLs_def bindR_Inr_iff Let_def) (auto simp: growthStatement_def)

lemma sends_for:
  "(\<And>x. x \<in> set xs \<Longrightarrow> leavesA (onlySends P) (f x)) \<Longrightarrow> leavesA (onlySends P) (forA xs f)"
  by (induction xs) (simp_all add: sends.leaves_bind sends.leaves_readonly)

lemma additive_sends: "leavesA (onlySends growthStatement) (applyDataModelAdditiveChanges eng rm)"
  unfolding applyDataModelAdditiveChanges_def addMissingColumn_def addMissingIndex_def dataModelColumns_def
    dataModelIndexes_def withText_def
  by (intro sends.leaves_bind sends.leaves_wrap sends.leaves_for leaves_split sends_void sends_exec sends_ask growth_index
      growth_column growth_list) (simp_all add: sends.leaves_readonly)

lemma applyDataModel_sends: "leavesA (onlySends growthStatement) (applyDataModel lib eng appID m)"
  unfolding applyDataModel_def
proof (intro sends_lift sends.leaves_bind leaves_split additive_sends)
  fix rm :: modelRuntime
  show "leavesA (onlySends growthStatement) (hasTableA eng (mrTable rm))"
    unfolding hasTableA_def by (intro sends.leaves_readonly readonly_handle) simp_all
  fix ddls assume "dataModelDDLs rm (engDialect eng) = Inr ddls"
  note growth = growth_create [OF this]
  show "leavesA (onlySends growthStatement)
     (forA ddls (\<lambda>ddl. voidA (withText (''apply data model schema '' @ goQuote (dmName m) @ '': '') (execA eng ddl []))))"
    unfolding withText_def by (intro sends_for sends_void sends.leaves_wrap sends_exec growth)
qed

text \<open>
  C26: applying the declared models of an application, when it succeeds, has executed for each
  model in turn the definition of its table when the engine does not report the table (or cannot be
  asked for it), and otherwise one added column for each declared field it lacks and one index for
  each declared index it lacks, in order, and nothing else.  Whatever the outcome, every statement of
  the call creates or adds: no table, column, index or row is removed or rewritten.
\<close>

theorem ApplyDataModels_grows:
  "case ApplyDataModels lib eng appID models w of
     (Inr _, w') \<Rightarrow>
       modelsApplied lib eng appID (faultAt w) models (tick w) (dsApplied (db w)) (dsApplied (db w')) \<and>
       onlySends growthStatement (db w) (db w')
   | (Inl _, w') \<Rightarrow> onlySends growthStatement (db w) (db w')"
proof -
  have "leavesA (onlySends growthStatement) (ApplyDataModels lib eng appID models)"
    unfolding ApplyDataModels_def by (intro sends.leaves_for applyDataModel_sends)
  note sends = leavesAD [OF this]
  have "modelsApplied lib eng appID (faultAt w) ms (tick w) (dsApplied (db w)) (dsApplied (db w'))"
    if "forA ms (applyDataModel lib eng appID) w = (Inr u, w')" for ms w u w'
    using that
  proof (induction ms arbitrary: w)
    case (Cons m ms)
    then obtain v where v: "applyDataModel lib eng appID m w = (Inr (), v)" "forA ms (applyDataModel lib eng appID) v = (Inr u, w')"
      by (auto simp: bindA_Inr_iff)
    from applyDataModel_applied [OF v(1)] Cons.IH [OF v(2)] show ?case by auto
  qed simp
  then show ?thesis using sends by (auto simp: ApplyDataModels_def split: prod.splits sum.splits)
qed

subsection \<open>Names and sizes\<close>

text \<open>
   Two models of one application whose names differ only in the case of their letters compile
  as two models and share one table.
\<close>

theorem models_share_table:
  assumes "compileDataModel lib appID m1 = Inr r1" and "compileDataModel lib appID m2 = Inr r2"
    and "trimSpace (dmName m1) \<noteq> trimSpace (dmName m2)"
    and "toLower (trimSpace (dmName m1)) = toLower (trimSpace (dmName m2))"
  shows "\<exists>mm. compileDataModels lib appID [m1, m2] = Inr mm \<and>
     map_of mm (trimSpace (dmName m1)) = Some r1 \<and> map_of mm (trimSpace (dmName m2)) = Some r2 \<and>
     mrTable r1 = mrTable r2"
  using assms compileDataModel_Inr(1,4) [OF assms(1)] compileDataModel_Inr(1,4) [OF assms(2)]
  by (simp add: compileDataModels_def dataTableName_def)

theorem models_share_table_witness:
  "\<exists>mm r1 r2. compileDataModels exampleLib ''app'' [exampleModel ''book'', exampleModel ''Book''] = Inr mm \<and>
     map_of mm ''book'' = Some r1 \<and> map_of mm ''Book'' = Some r2 \<and> mrTable r1 = mrTable r2"
proof -
  have names: "dmName (exampleModel n) = n" "dmFields (exampleModel n) = [exampleField ''title'' ''string'' 100]" for n
    by (simp_all add: exampleModel_def)
  have t: "trimSpace ''book'' = ''book''" "trimSpace ''Book'' = ''Book''" "toLower ''Book'' = ''book''" "toLower ''book'' = ''book''"
    by (simp_all add: trimSpace_visible visibleChar_def toLower_def lowerChar_def) (simp add: char_of_def bit_Suc_0_iff)
  have "fieldsOk [exampleField ''title'' ''string'' 100]"
    using example_clean example_names
    by (auto simp: fieldsOk_def ownNames_def cleanField_def isSystemDataField_iff) (simp_all add: exampleField_def example_type)
  moreover have "dataIdentifier ''book''" "dataIdentifier ''Book''"
    by (simp_all add: dataIdentifier_def asciiLetter_def)
  ultimately obtain r1 r2 where r: "compileDataModel exampleLib ''app'' (exampleModel ''book'') = Inr r1"
      "compileDataModel exampleLib ''app'' (exampleModel ''Book'') = Inr r2"
    using compileDataModel_ok [of exampleLib "''app''" "exampleModel ''book''"]
      compileDataModel_ok [of exampleLib "''app''" "exampleModel ''Book''"] by (auto simp: t names)
  show ?thesis
    using models_share_table [OF r] by (simp add: names t) blast
qed

end
