(* ===== verification/App_Paths.thy ===== *)
theory App_Paths
  imports Go_Base "HOL-Library.Sublist"
begin

text \<open>
  File names of generated applications: the functions of Go's \<^verbatim>\<open>path/filepath\<close> that the
  runtime uses, on Unix, and the path checks of
  \<^verbatim>\<open>func-operation/internal/runtime/generatedapp\<close>.  \<^verbatim>\<open>ToSlash\<close> and
  \<^verbatim>\<open>FromSlash\<close> are the identity there.
\<close>

abbreviation slash :: char where "slash \<equiv> CHR ''/''"

subsection \<open>Go's path/filepath\<close>

text \<open>
  The loop of \<^verbatim>\<open>Clean\<close> over the elements of a path, with the elements written so far,
  last one first.
\<close>

fun cleanParts :: "bool \<Rightarrow> gostr list \<Rightarrow> gostr list \<Rightarrow> gostr list" where
  "cleanParts rooted st [] = rev st"
| "cleanParts rooted st (p # ps) =
     (if p = [] \<or> p = ''.'' then cleanParts rooted st ps
      else if p = ''..'' then
        (case st of
           [] \<Rightarrow> cleanParts rooted (if rooted then [] else [p]) ps
         | q # st' \<Rightarrow> (if q = ''..'' then cleanParts rooted (p # st) ps else cleanParts rooted st' ps))
      else cleanParts rooted (p # st) ps)"

definition pathClean :: "gostr \<Rightarrow> gostr" where
  "pathClean p =
     (if p = [] then ''.''
      else let rooted = hasPrefix p ''/''; out = cleanParts rooted [] (splitOn slash p) in
        if rooted then slash # joinWith ''/'' out
        else if out = [] then ''.'' else joinWith ''/'' out)"

definition pathJoin :: "gostr list \<Rightarrow> gostr" where
  "pathJoin elems =
     (let es = dropWhile (\<lambda>e. e = []) elems in if es = [] then [] else pathClean (joinWith ''/'' es))"

definition trimSlashes :: "gostr \<Rightarrow> gostr" where
  "trimSlashes p = rev (dropWhile (\<lambda>c. c = slash) (rev p))"

definition lastPart :: "gostr \<Rightarrow> gostr" where
  "lastPart p = rev (takeWhile (\<lambda>c. c \<noteq> slash) (rev p))"

definition pathBase :: "gostr \<Rightarrow> gostr" where
  "pathBase p =
     (if p = [] then ''.'' else let b = lastPart (trimSlashes p) in if b = [] then ''/'' else b)"

definition pathExt :: "gostr \<Rightarrow> gostr" where
  "pathExt p =
     (let r = takeWhile (\<lambda>c. c \<noteq> slash) (rev p) in
      if CHR ''.'' \<in> set r then CHR ''.'' # rev (takeWhile (\<lambda>c. c \<noteq> CHR ''.'') r) else [])"

subsection \<open>The paths of the runtime\<close>

definition frontendFileFromEntry :: "gostr \<Rightarrow> gostr" where
  "frontendFileFromEntry entry =
     (let fileName = pathBase (trimSpace entry) in
      if fileName = ''.'' \<or> fileName = ''/'' \<or> fileName = [] then ''frontend.js'' else fileName)"

definition safeAppFilePath :: "gostr \<Rightarrow> gostr \<Rightarrow> gostr \<Rightarrow> gostr" where
  "safeAppFilePath rootDir appID fileName = pathJoin [rootDir, pathClean appID, pathClean fileName]"

definition safeFrontendFilePath :: "gostr \<Rightarrow> gostr \<Rightarrow> err + gostr" where
  "safeFrontendFilePath appDir fileName =
     (let cleaned = pathClean (trimPrefix (trimSpace fileName) ''/'');
          cleanFile = (if cleaned = ''.'' \<or> cleaned = [] then frontendFileFromEntry [] else cleaned) in
      if cleanFile = ''frontend.js'' then Inr (pathJoin [appDir, cleanFile])
      else if \<not> hasPrefix cleanFile ''frontend/'' \<or> contains cleanFile ''../''
      then Inl (Err ''frontend file path must be frontend.js or under frontend/'')
      else if pathExt cleanFile \<noteq> ''.js'' then Inl (Err ''frontend module must be a .js file'')
      else Inr (pathJoin [appDir, cleanFile]))"

definition safeAppFrontendFilePath :: "gostr \<Rightarrow> gostr \<Rightarrow> gostr \<Rightarrow> err + gostr" where
  "safeAppFrontendFilePath rootDir appID fileName =
     (let cleanAppID = pathClean appID in
      if cleanAppID = ''.'' \<or> cleanAppID = [] \<or> contains cleanAppID ''/'' then Inl (Err ''invalid app id'')
      else safeFrontendFilePath (pathJoin [rootDir, cleanAppID]) fileName)"

definition validateArtifactFileName :: "gostr \<Rightarrow> err + unit" where
  "validateArtifactFileName name =
     (let cleanName = pathClean name in
      if name = [] \<or> hasPrefix name ''/'' \<or> cleanName = ''.'' \<or> hasPrefix cleanName ''../'' \<or> cleanName \<noteq> name
      then Inl (Err ''invalid artifact file path'') else Inr ())"

definition fmtFrontendEntry :: "gostr \<Rightarrow> gostr" where
  "fmtFrontendEntry appID = ''/func-operation/generated-apps/'' @ appID @ ''/frontend.js''"

subsection \<open>Clean paths\<close>

text \<open>An element that names something in the directory before it.\<close>

definition properName :: "gostr \<Rightarrow> bool" where
  "properName p \<longleftrightarrow> p \<noteq> [] \<and> p \<noteq> ''.'' \<and> p \<noteq> ''..'' \<and> slash \<notin> set p"

lemma properNameD: "properName p \<Longrightarrow> p \<noteq> []" "properName p \<Longrightarrow> p \<noteq> ''.''" "properName p \<Longrightarrow> p \<noteq> ''..''" "properName p \<Longrightarrow> slash \<notin> set p"
  by (simp_all add: properName_def)

lemma cleanParts_proper [simp]:
  "list_all properName ps \<Longrightarrow> cleanParts rooted st (ps @ qs) = cleanParts rooted (rev ps @ st) qs"
  by (induction ps arbitrary: st) (auto dest: properNameD)

lemma cleanParts_shape:
  assumes "\<forall>p \<in> set ps. slash \<notin> set p"
    and "st = rev names @ replicate k ''..''" and "list_all properName names" and "rooted \<Longrightarrow> k = 0"
  shows "\<exists>j ns. cleanParts rooted st ps = replicate j ''..'' @ ns \<and> list_all properName ns \<and> (rooted \<longrightarrow> j = 0)"
  using assms
proof (induction ps arbitrary: st names k)
  case Nil
  then show ?case by (intro exI [of _ k] exI [of _ names]) auto
next
  case (Cons p ps)
  have rest: "\<forall>q \<in> set ps. slash \<notin> set q" using Cons.prems(1) by simp
  consider "p = [] \<or> p = ''.''" | "p = ''..''" | "properName p"
    using Cons.prems(1) unfolding properName_def by auto
  then show ?case
  proof cases
    case 1
    then show ?thesis using Cons.IH [OF rest Cons.prems(2-4)] by auto
  next
    case 2
    show ?thesis
    proof (cases names rule: rev_cases)
      case Nil
      have up: "replicate (Suc k) ''..'' = ''..'' # replicate k ''..''" by simp
      show ?thesis
      proof (cases k)
        case 0
        have "cleanParts rooted st (p # ps) = cleanParts rooted (if rooted then [] else [p]) ps"
          using 2 0 Nil Cons.prems(2) by simp
        moreover have "(if rooted then [] else [p]) = rev [] @ replicate (if rooted then 0 else 1) ''..''" using 2 by simp
        ultimately show ?thesis using Cons.IH [OF rest, of _ "[]" "if rooted then 0 else 1"] by (simp del: cleanParts.simps)
      next
        case (Suc m)
        have "cleanParts rooted st (p # ps) = cleanParts rooted (''..'' # st) ps"
          using 2 Suc Nil Cons.prems(2) by simp
        moreover have "''..'' # st = rev [] @ replicate (Suc k) ''..''" using Nil Cons.prems(2) by simp
        moreover have "\<not> rooted" using Cons.prems(4) Suc by auto
        ultimately show ?thesis using Cons.IH [OF rest, of "''..'' # st" "[]" "Suc k"] by (simp del: cleanParts.simps)
      qed
    next
      case (snoc ms q)
      then have "cleanParts rooted st (p # ps) = cleanParts rooted (rev ms @ replicate k ''..'') ps"
        using 2 Cons.prems(2,3) by (auto dest: properNameD)
      then show ?thesis using Cons.IH [OF rest, of _ ms k] Cons.prems(3,4) snoc by simp
    qed
  next
    case 3
    then have "cleanParts rooted st (p # ps) = cleanParts rooted (p # st) ps" by (auto dest: properNameD)
    then show ?thesis using Cons.IH [OF rest, of "p # st" "names @ [p]" k] Cons.prems(2,3,4) 3 by simp
  qed
qed

lemma split_no_slash: "\<forall>p \<in> set (splitOn slash s). slash \<notin> set p"
  using splitOn_no_sep by blast

lemma clean_shape:
  obtains j ns where "cleanParts rooted [] (splitOn slash s) = replicate j ''..'' @ ns"
    and "list_all properName ns" and "rooted \<longrightarrow> j = 0"
  using cleanParts_shape [OF split_no_slash, of "[]" "[]" 0 rooted s] by auto


lemma joinWith_append:
  "xs \<noteq> [] \<Longrightarrow> ys \<noteq> [] \<Longrightarrow> joinWith sep (xs @ ys) = joinWith sep xs @ sep @ joinWith sep ys"
proof (induction sep xs rule: joinWith.induct)
  case (2 sep x)
  then show ?case by (cases ys) simp_all
qed auto

lemma split_join: "ps \<noteq> [] \<Longrightarrow> \<forall>p \<in> set ps. slash \<notin> set p \<Longrightarrow> splitOn slash (joinWith ''/'' ps) = ps"
  using splitOn_joinWith [of ps slash] by simp

lemma proper_no_slash: "list_all properName ps \<Longrightarrow> \<forall>p \<in> set ps. slash \<notin> set p"
  by (auto simp: list_all_iff dest: properNameD)

lemma split_rooted:
  assumes "ps \<noteq> []" and "\<forall>p \<in> set ps. slash \<notin> set p"
  shows "splitOn slash (slash # joinWith ''/'' ps) = [] # ps"
  using split_join [OF assms] by simp

lemma clean_rooted:
  assumes "ps \<noteq> []" and "list_all properName ps"
  shows "pathClean (slash # joinWith ''/'' ps) = slash # joinWith ''/'' ps"
  using split_rooted [OF assms(1) proper_no_slash [OF assms(2)]] cleanParts_proper [OF assms(2), of True "[]" "[]"]
  by (simp add: pathClean_def hasPrefix_def Let_def)

text \<open>Joining proper names to a directory stays below it.\<close>

lemma join_below:
  assumes "dirs \<noteq> []" and "list_all properName dirs" and "names \<noteq> []" and "list_all properName names"
  shows "pathJoin [slash # joinWith ''/'' dirs, joinWith ''/'' names] = slash # joinWith ''/'' (dirs @ names)"
proof -
  have "joinWith ''/'' names \<noteq> []" using assms(3,4) by (cases names rule: remdups_adj.cases) (auto dest: properNameD)
  then have "pathJoin [slash # joinWith ''/'' dirs, joinWith ''/'' names] = pathClean (slash # joinWith ''/'' (dirs @ names))"
    using joinWith_append [OF assms(1,3), of "''/''"] by (simp add: pathJoin_def)
  then show ?thesis using clean_rooted [of "dirs @ names"] assms by simp
qed

lemma takeWhile_last:
  assumes "ns \<noteq> []" and "\<forall>p \<in> set ns. slash \<notin> set p"
  shows "takeWhile (\<lambda>c. c \<noteq> slash) (rev (joinWith ''/'' ns)) = rev (last ns)"
proof (cases ns rule: rev_cases)
  case (snoc ms n)
  have n: "\<forall>c \<in> set (rev n). c \<noteq> slash" using assms(2) snoc by auto
  show ?thesis
  proof (cases ms)
    case Nil
    then show ?thesis using snoc n by (simp add: takeWhile_eq_all_conv)
  next
    case (Cons m ms')
    then have "rev (joinWith ''/'' ns) = rev n @ slash # rev (joinWith ''/'' ms)"
      using joinWith_append [of ms "[n]" "''/''"] snoc by simp
    then show ?thesis using takeWhile_append2 [of "rev n" "\<lambda>c. c \<noteq> slash" "slash # rev (joinWith ''/'' ms)"] n snoc by simp
  qed
qed (use assms in simp)

lemma ext_last: "ns \<noteq> [] \<Longrightarrow> \<forall>p \<in> set ns. slash \<notin> set p \<Longrightarrow> pathExt (joinWith ''/'' ns) = pathExt (last ns)"
proof -
  assume ns: "ns \<noteq> []" "\<forall>p \<in> set ns. slash \<notin> set p"
  then have "\<forall>c \<in> set (rev (last ns)). c \<noteq> slash" by auto
  then have "takeWhile (\<lambda>c. c \<noteq> slash) (rev (last ns)) = rev (last ns)" by (simp only: takeWhile_eq_all_conv)
  then show ?thesis using takeWhile_last [OF ns] by (simp only: pathExt_def)
qed

text \<open>A clean relative path that begins with a name has no way up.\<close>

lemma clean_under:
  assumes "pathClean s = n @ slash # t" and "properName n"
  obtains ns where "pathClean s = joinWith ''/'' ns" and "list_all properName ns" and "hd ns = n" and "1 < length ns"
proof -
  have dot: "n @ slash # t \<noteq> ''.''" using properNameD(1) [OF assms(2)] by (cases n) auto
  then have s: "s \<noteq> []" using assms(1) by (auto simp: pathClean_def)
  define rooted where "rooted = hasPrefix s ''/''"
  obtain j ns where parts: "cleanParts rooted [] (splitOn slash s) = replicate j ''..'' @ ns"
      and ns: "list_all properName ns" "rooted \<longrightarrow> j = 0"
    by (rule clean_shape [of rooted s])
  have "\<not> rooted"
    using assms s parts properNameD [OF assms(2)] by (cases n) (auto simp: pathClean_def rooted_def Let_def)
  then have clean: "pathClean s = joinWith ''/'' (replicate j ''..'' @ ns)" "replicate j ''..'' @ ns \<noteq> []"
    using assms(1) dot s parts by (auto simp: pathClean_def rooted_def [symmetric] Let_def split: if_splits)
  have "\<forall>p \<in> set (replicate j ''..'' @ ns). slash \<notin> set p" using proper_no_slash [OF ns(1)] by auto
  from split_join [OF clean(2) this] have "replicate j ''..'' @ ns = n # splitOn slash t"
    using clean(1) assms splitOn_append [of slash n t] properNameD(4) [OF assms(2)] by simp
  moreover from this have "j = 0" using properNameD(3) [OF assms(2)] by (cases j) auto
  ultimately have "ns = n # splitOn slash t" by simp
  then show ?thesis using that [of ns] clean(1) ns(1) \<open>j = 0\<close> by (cases "splitOn slash t") auto
qed

text \<open>
  C40: whatever path a browser asks for, the file that is read lies below the directory of the
  application, reached by names only, and is its frontend module or a JavaScript file below
  its frontend directory.
\<close>

theorem frontend_path_confined:
  assumes "safeFrontendFilePath (slash # joinWith ''/'' dirs) fileName = Inr path"
    and "dirs \<noteq> []" and "list_all properName dirs"
  shows "\<exists>names. path = slash # joinWith ''/'' (dirs @ names) \<and> list_all properName names \<and>
    (names = [''frontend.js''] \<or> hd names = ''frontend'' \<and> 1 < length names \<and> pathExt (last names) = ''.js'')"
proof -
  let ?appDir = "slash # joinWith ''/'' dirs"
  have js: "properName ''frontend.js''" "properName ''frontend''" by (simp_all add: properName_def)
  have entry: "frontendFileFromEntry [] = ''frontend.js''" by (simp add: frontendFileFromEntry_def pathBase_def)
  let ?c = "pathClean (trimPrefix (trimSpace fileName) ''/'')"
  have top: ?thesis if "path = pathJoin [?appDir, ''frontend.js'']"
    using join_below [OF assms(2,3), of "[''frontend.js'']"] js that by (intro exI [of _ "[''frontend.js'']"]) simp
  show ?thesis
  proof (cases "path = pathJoin [?appDir, ''frontend.js'']")
    case False
    then have c: "hasPrefix ?c ''frontend/''" "pathExt ?c = ''.js''" "path = pathJoin [?appDir, ?c]"
      using assms(1) entry by (auto simp: safeFrontendFilePath_def Let_def split: if_splits)
    then obtain t where "?c = ''frontend'' @ slash # t" by (auto simp: hasPrefix_def prefix_def)
    from clean_under [OF this js(2)] obtain ns where ns: "?c = joinWith ''/'' ns" "list_all properName ns"
        "hd ns = ''frontend''" "1 < length ns" .
    have "ns \<noteq> []" using ns(4) by auto
    then have "path = slash # joinWith ''/'' (dirs @ ns)" "pathExt (last ns) = ''.js''"
      using join_below [OF assms(2,3) _ ns(2)] c ns ext_last [OF _ proper_no_slash [OF ns(2)]] by auto
    then show ?thesis using ns by blast
  qed (rule top)
qed

theorem frontend_path_confined_witness:
  "\<exists>path names. safeFrontendFilePath (slash # joinWith ''/'' [''apps'', ''a'']) ''/frontend/x/../main.js'' = Inr path \<and>
     path = slash # joinWith ''/'' ([''apps'', ''a''] @ names) \<and> list_all properName names \<and>
     (names = [''frontend.js''] \<or> hd names = ''frontend'' \<and> 1 < length names \<and> pathExt (last names) = ''.js'')"
proof -
  have trim: "trimSpace ''/frontend/x/../main.js'' = ''/frontend/x/../main.js''"
    by (rule trimSpace_visible) (simp_all add: visibleChar_def)
  have proper: "list_all properName [''apps'', ''a'']" by (simp add: properName_def)
  obtain path where run: "safeFrontendFilePath (slash # joinWith ''/'' [''apps'', ''a'']) ''/frontend/x/../main.js'' = Inr path"
    unfolding safeFrontendFilePath_def trim by (simp add: trimPrefix_def hasPrefix_def pathClean_def pathExt_def)
  then show ?thesis using frontend_path_confined [OF run _ proper] by simp
qed

end
