(* ===== verification/App_Manifest.thy ===== *)
theory App_Manifest
  imports Data_Compile App_Paths
begin

text \<open>
  The manifest of a generated application: its schema, the checks of
  \<^verbatim>\<open>func-operation/internal/runtime/generatedapp/service.go\<close> and how
  \<^verbatim>\<open>manifest_decode.go\<close> and \<^verbatim>\<open>action_infer.go\<close> bring an
  older form to the current one.

  The JSON library is the parameter \<open>manifestJson\<close>: each of its fields is one call of
  \<^verbatim>\<open>json.Unmarshal\<close> or \<^verbatim>\<open>json.Marshal\<close> at one type and may answer
  anything.  A raw message that is absent from the envelope is empty.
\<close>

subsection \<open>Names\<close>

definition hexLower :: "char \<Rightarrow> bool" where
  "hexLower c \<longleftrightarrow> asciiDigit c \<or> (let n = (of_char c :: nat) in 97 \<le> n \<and> n \<le> 102)"

definition generatedAppUUIDPattern :: "gostr \<Rightarrow> bool" where
  "generatedAppUUIDPattern s \<longleftrightarrow>
     (let ps = splitOn CHR ''-'' s in map length ps = [8, 4, 4, 4, 12] \<and> list_all (list_all hexLower) ps)"

definition artifactSHA256Pattern :: "gostr \<Rightarrow> bool" where
  "artifactSHA256Pattern s \<longleftrightarrow> length s = 64 \<and> list_all hexLower s"

definition nameChar :: "char \<Rightarrow> bool" where
  "nameChar c \<longleftrightarrow> asciiLetter c \<or> asciiDigit c \<or> c \<in> {CHR ''_'', CHR ''.'', CHR ''-''}"

definition capabilityNamePattern :: "gostr \<Rightarrow> bool" where
  "capabilityNamePattern s \<longleftrightarrow>
     (case s of [] \<Rightarrow> False | c # cs \<Rightarrow> asciiLetter c \<and> length cs \<le> 127 \<and> list_all nameChar cs)"

text \<open>\<^verbatim>\<open>firstNonEmpty\<close> of this package returns the text as it is.\<close>

definition firstNonBlank :: "gostr list \<Rightarrow> gostr" where
  "firstNonBlank values = (case filter (\<lambda>v. trimSpace v \<noteq> []) values of [] \<Rightarrow> [] | v # _ \<Rightarrow> v)"

definition manifestSchemaVersion :: gostr where "manifestSchemaVersion = ''v2''"

subsection \<open>Schema\<close>

record skillField =
  sfKey :: gostr
  sfLabel :: gostr
  sfType :: gostr
  sfRequired :: bool
  sfEnumValues :: "gostr list"
  sfDescription :: gostr

record skillOperation =
  soKey :: gostr
  soAction :: gostr
  soEffect :: gostr
  soDescription :: gostr
  soFields :: "skillField list"
  soAutoExecute :: bool

record skillContract =
  skName :: gostr
  skToolPrefix :: gostr
  skDescription :: gostr
  skOperations :: "skillOperation list"

record capabilityProvide =
  cpName :: gostr
  cpQuery :: gostr

record capabilityConsume =
  ccAppID :: gostr
  ccCapability :: gostr

record manifest =
  mfSchemaVersion :: gostr
  mfID :: gostr
  mfName :: gostr
  mfVersion :: gostr
  mfDescription :: gostr
  mfExport :: gostr
  mfActions :: "gostr list"
  mfFrontendEntry :: gostr
  mfFrontendFile :: gostr
  mfBackendSource :: gostr
  mfBackendModule :: gostr
  mfDataModelHints :: "gostr list"
  mfTables :: "(gostr \<times> gostr) list"
  mfDataModels :: "dataModel list"
  mfRelations :: "dataRelation list"
  mfQueries :: "dataQuery list"
  mfProvides :: "capabilityProvide list"
  mfConsumes :: "capabilityConsume list"
  mfConfigKeys :: "gostr list"
  mfExternalAPIs :: "gostr list"
  mfAgentSkill :: "skillContract option"

record generatedApp =
  gaUUID :: gostr
  gaName :: gostr
  gaVersion :: gostr
  gaDescription :: gostr
  gaExport :: gostr
  gaFrontendEntry :: gostr
  gaBackendSource :: gostr
  gaBackendModule :: gostr
  gaCreatedAt :: int
  gaUpdatedAt :: int

text \<open>\<open>now\<close> is \<^verbatim>\<open>time.Now().UnixMicro()\<close>.\<close>

definition appFromManifest :: "int \<Rightarrow> manifest \<Rightarrow> err + generatedApp" where
  "appFromManifest now item =
     (let appID = trimSpace (mfID item) in
      if appID = [] then Inl (Err ''id is required'')
      else if CHR ''/'' \<in> set appID \<or> CHR 0x5C \<in> set appID then Inl (Err ''id cannot contain path separators'')
      else if \<not> generatedAppUUIDPattern appID then Inl (Err ''id must be a lowercase UUID'')
      else Inr
        \<lparr>gaUUID = appID, gaName = firstNonBlank [trimSpace (mfName item), appID],
         gaVersion = trimSpace (mfVersion item), gaDescription = trimSpace (mfDescription item),
         gaExport = firstNonBlank [trimSpace (mfExport item), ''handle''],
         gaFrontendEntry = ''/func-operation/generated-apps/'' @ appID @ ''/frontend.js'',
         gaBackendSource = firstNonBlank [trimSpace (mfBackendSource item), ''backend''],
         gaBackendModule = firstNonBlank [trimSpace (mfBackendModule item), ''backend.wasm''],
         gaCreatedAt = now, gaUpdatedAt = now\<rparr>)"

subsection \<open>Capabilities\<close>

text \<open>The loops carry the names seen so far.\<close>

fun checkProvides :: "gostr set \<Rightarrow> gostr set \<Rightarrow> capabilityProvide list \<Rightarrow> err + unit" where
  "checkProvides queries provided [] = Inr ()"
| "checkProvides queries provided (p # ps) =
     (let name = trimSpace (cpName p); query = trimSpace (cpQuery p) in
      if \<not> capabilityNamePattern name \<or> query = [] then Inl (Err ''invalid provided capability'')
      else if query \<notin> queries
      then Inl (Err (''provided capability '' @ goQuote name @ '' references undeclared query '' @ goQuote query))
      else if name \<in> provided then Inl (Err (''duplicate provided capability '' @ goQuote name))
      else checkProvides queries (insert name provided) ps)"

fun checkConsumes :: "gostr \<Rightarrow> gostr set \<Rightarrow> capabilityConsume list \<Rightarrow> err + unit" where
  "checkConsumes ownID consumed [] = Inr ()"
| "checkConsumes ownID consumed (c # cs) =
     (let appID = trimSpace (ccAppID c); name = trimSpace (ccCapability c); key = appID @ [CHR 0x00] @ name in
      if \<not> generatedAppUUIDPattern appID \<or> appID = ownID \<or> \<not> capabilityNamePattern name
      then Inl (Err ''invalid consumed capability'')
      else if key \<in> consumed then Inl (Err (''duplicate consumed capability '' @ goQuote name))
      else checkConsumes ownID (insert key consumed) cs)"

definition validateCapabilities :: "manifest \<Rightarrow> err + unit" where
  "validateCapabilities item =
     bindR (checkProvides (set (map (\<lambda>q. trimSpace (dqName q)) (mfQueries item))) {} (mfProvides item)) (\<lambda>_.
       checkConsumes (mfID item) {} (mfConsumes item))"

text \<open>Over the manifest that the runtime has loaded; \<open>None\<close> when it cannot be read.\<close>

definition AllowsConfigKeys :: "manifest option \<Rightarrow> gostr list \<Rightarrow> bool" where
  "AllowsConfigKeys loaded keys =
     (case loaded of None \<Rightarrow> False
      | Some item \<Rightarrow>
          list_all (\<lambda>k. trimSpace k \<in> set (map trimSpace (mfConfigKeys item))) keys \<and> length keys > 0)"

definition DeclaresAction :: "manifest option \<Rightarrow> gostr \<Rightarrow> bool" where
  "DeclaresAction loaded action =
     (case loaded of None \<Rightarrow> False
      | Some item \<Rightarrow> list_ex (\<lambda>d. trimSpace d = trimSpace action) (mfActions item))"

subsection \<open>Deleting a data form\<close>

definition splitQualifiedName :: "gostr \<Rightarrow> (gostr \<times> gostr) option" where
  "splitQualifiedName value =
     (case splitOn CHR ''.'' (trimSpace value) of
        [a, b] \<Rightarrow> (if a = [] \<or> b = [] then None else Some (a, b))
      | _ \<Rightarrow> None)"

definition relationNames :: "gostr \<Rightarrow> dataRelation \<Rightarrow> bool" where
  "relationNames modelName relation \<longleftrightarrow>
     (case splitQualifiedName (drFrom relation) of Some (m, _) \<Rightarrow> m = modelName | None \<Rightarrow> False) \<or>
     (case splitQualifiedName (drTo relation) of Some (m, _) \<Rightarrow> m = modelName | None \<Rightarrow> False)"

definition filterRelationsForDeletedModel :: "dataRelation list \<Rightarrow> gostr \<Rightarrow> dataRelation list" where
  "filterRelationsForDeletedModel relations modelName = filter (\<lambda>r. \<not> relationNames modelName r) relations"

definition queryReferencesModel :: "dataQuery \<Rightarrow> gostr \<Rightarrow> bool" where
  "queryReferencesModel query modelName \<longleftrightarrow>
     (let p = modelName @ ''.'' in
      list_ex (\<lambda>f. hasPrefix f p) (dqSelect query) \<or>
      list_ex (\<lambda>c. hasPrefix (dcField c) p) (dqWhere query) \<or>
      list_ex (\<lambda>ob. hasPrefix (doField ob) p) (dqOrderBy query))"

definition filterQueriesForDeletedModel :: "dataQuery list \<Rightarrow> gostr \<Rightarrow> dataQuery list" where
  "filterQueriesForDeletedModel queries modelName =
     filter (\<lambda>q. dqFrom q \<noteq> modelName \<and> \<not> queryReferencesModel q modelName) queries"

subsection \<open>Actions\<close>

definition normalizeSortedUniqueStrings :: "gostr list \<Rightarrow> gostr list" where
  "normalizeSortedUniqueStrings values = sort (dedupTrim [] values)"

definition intersectStrings :: "gostr list \<Rightarrow> gostr list \<Rightarrow> gostr list" where
  "intersectStrings left right =
     (if left = [] \<or> right = [] then []
      else normalizeSortedUniqueStrings (filter (\<lambda>x. x \<in> set right) left))"

definition unionStrings :: "gostr list list \<Rightarrow> gostr list" where
  "unionStrings groups = normalizeSortedUniqueStrings (concat groups)"

definition equalStrings :: "gostr list \<Rightarrow> gostr list \<Rightarrow> bool" where
  "equalStrings left right \<longleftrightarrow> left = right"

definition readonlySuffixes :: "gostr list" where
  "readonlySuffixes =
     [''_list'', ''_detail'', ''_get'', ''_query'', ''_search'', ''_page'', ''_options'',
      ''_stats'', ''_count'', ''_summary'', ''_info'', ''_tree'', ''_preview'']"

definition readonlyKeywords :: "gostr list" where
  "readonlyKeywords =
     [''list'', ''detail'', ''get'', ''query'', ''search'', ''page'', ''options'',
      ''stats'', ''count'', ''summary'', ''info'', ''tree'', ''preview'']"

definition ActionRequiresAuthorization :: "gostr \<Rightarrow> bool" where
  "ActionRequiresAuthorization act =
     (let action = trimSpace (lowerWord act) in
      action \<noteq> [] \<and> \<not> list_ex (\<lambda>s. suffix s action) readonlySuffixes \<and> action \<notin> set readonlyKeywords)"

text \<open>
  The two patterns: a word, spaces (at least one, if \<open>gap\<close>), and a quoted text
  without quotes in it.  The result is the quoted text and what follows it.
\<close>

definition patternSpace :: "char \<Rightarrow> bool" where
  "patternSpace c \<longleftrightarrow> c \<in> {CHR '' '', CHR 0x09, CHR 0x0A, CHR 0x0C, CHR 0x0D}"

definition quotedAfter :: "gostr \<Rightarrow> bool \<Rightarrow> gostr \<Rightarrow> gostr \<Rightarrow> (gostr \<times> gostr) option" where
  "quotedAfter word gap quotes s =
     (if \<not> hasPrefix s word then None
      else let t = drop (length word) s; u = dropWhile patternSpace t in
        if gap \<and> length u = length t then None
        else case u of [] \<Rightarrow> None
          | q # v \<Rightarrow>
              (let name = takeWhile (\<lambda>c. c \<notin> set quotes) v; rest = drop (length name) v in
               if q \<notin> set quotes \<or> name = [] \<or> rest = [] then None else Some (name, tl rest)))"

lemma quotedAfter_shorter: "quotedAfter word gap quotes s = Some (name, rest) \<Longrightarrow> length rest < length s"
proof -
  assume run: "quotedAfter word gap quotes s = Some (name, rest)"
  define t where "t = drop (length word) s"
  have "length (dropWhile patternSpace t) \<le> length t" by (rule length_dropWhile_le)
  moreover have "length t \<le> length s" by (simp add: t_def)
  moreover have "length rest < length (dropWhile patternSpace t)"
    using run by (auto simp: quotedAfter_def Let_def t_def [symmetric] split: if_splits list.splits)
  ultimately show ?thesis by simp
qed

text \<open>\<^verbatim>\<open>FindAllStringSubmatch\<close>: leftmost matches that do not overlap.\<close>

function allQuoted :: "gostr \<Rightarrow> bool \<Rightarrow> gostr \<Rightarrow> gostr \<Rightarrow> gostr list" where
  "allQuoted word gap quotes [] = []"
| "allQuoted word gap quotes (c # s) =
     (case quotedAfter word gap quotes (c # s) of
        Some (name, rest) \<Rightarrow> name # allQuoted word gap quotes rest
      | None \<Rightarrow> allQuoted word gap quotes s)"
  by pat_completeness auto
termination
  by (relation "measure (\<lambda>(word, gap, quotes, s). length s)") (auto dest: quotedAfter_shorter)

definition frontendInvokeActions :: "gostr \<Rightarrow> gostr list" where
  "frontendInvokeActions s = allQuoted ''action:'' False [CHR 0x27, CHR 0x22] s"

definition backendDispatchActions :: "gostr \<Rightarrow> gostr list" where
  "backendDispatchActions s = allQuoted ''case'' True [CHR 0x22] s"

text \<open>What \<^verbatim>\<open>os.ReadFile\<close> answers.\<close>

datatype readAnswer = Contents gostr | NotExist | ReadError gostr

type_synonym reader = "gostr \<Rightarrow> readAnswer"

definition extractActionStrings :: "reader \<Rightarrow> gostr \<Rightarrow> (gostr \<Rightarrow> gostr list) \<Rightarrow> err + gostr list" where
  "extractActionStrings rd path matches =
     (case rd path of
        NotExist \<Rightarrow> Inr []
      | ReadError e \<Rightarrow> Inl (Err (''read action source '' @ goQuote path @ '': '' @ e))
      | Contents raw \<Rightarrow> Inr (normalizeSortedUniqueStrings (matches raw)))"

definition inferManifestActions :: "reader \<Rightarrow> gostr \<Rightarrow> err + gostr list" where
  "inferManifestActions rd appDir =
     bindR (extractActionStrings rd (pathJoin [appDir, ''frontend'', ''api.js'']) frontendInvokeActions) (\<lambda>frontendActions.
     bindR (extractActionStrings rd (pathJoin [appDir, ''backend'', ''main.go'']) backendDispatchActions) (\<lambda>backendActions.
       let both = intersectStrings frontendActions backendActions;
           candidates = (if both = [] then unionStrings [frontendActions, backendActions] else both) in
       Inr (normalizeSortedUniqueStrings (filter ActionRequiresAuthorization candidates))))"

definition normalizeManifestActions :: "reader \<Rightarrow> gostr \<Rightarrow> manifest \<Rightarrow> err + (manifest \<times> bool)" where
  "normalizeManifestActions rd appDir item =
     (let normalized = normalizeSortedUniqueStrings (mfActions item) in
      if normalized \<noteq> [] then
        (if \<not> equalStrings normalized (mfActions item) then Inr (item\<lparr>mfActions := normalized\<rparr>, True)
         else Inr (item, False))
      else bindR (inferManifestActions rd appDir) (\<lambda>inferred.
        if inferred = [] then Inr (item, False) else Inr (item\<lparr>mfActions := inferred\<rparr>, True)))"

subsection \<open>Decoding\<close>

record flexModel =
  fmName :: gostr
  fmLabel :: gostr
  fmFieldsRaw :: gostr
  fmValidations :: "(gostr \<times> (gostr \<times> dataValue) list) list"
  fmIndexes :: "gostr list"

record flexRelation =
  frName :: gostr
  frFrom :: gostr
  frTo :: gostr
  frType :: gostr
  frForeignKey :: gostr

record flexAction =
  faKey :: gostr
  faAction :: gostr
  faName :: gostr
  faMode :: gostr

type_synonym envelope = "gostr \<Rightarrow> gostr option"

record manifestJson =
  jsEnvelope :: "gostr \<Rightarrow> err + envelope"
  jsMarshalEnvelope :: "envelope \<Rightarrow> err + gostr"
  jsManifest :: "gostr \<Rightarrow> err + manifest"
  jsMarshalManifest :: "manifest \<Rightarrow> err + gostr"
  jsModels :: "gostr \<Rightarrow> err + dataModel list"
  jsFlexModels :: "gostr \<Rightarrow> err + flexModel list"
  jsFields :: "gostr \<Rightarrow> err + dataField list"
  jsTypeMap :: "gostr \<Rightarrow> err + (gostr \<times> gostr) list"
  jsRelations :: "gostr \<Rightarrow> err + dataRelation list"
  jsFlexRelations :: "gostr \<Rightarrow> err + flexRelation list"
  jsQueries :: "gostr \<Rightarrow> err + dataQuery list"
  jsStrings :: "gostr \<Rightarrow> err + gostr list"
  jsFlexActions :: "gostr \<Rightarrow> err + flexAction list"

definition normalizeStringSlice :: "gostr list \<Rightarrow> gostr list" where
  "normalizeStringSlice items = filter (\<lambda>s. s \<noteq> []) (map trimSpace items)"

text \<open>\<^verbatim>\<open>normalizeDeclaredActions\<close>: an empty list is not nil there, which JSON shows as [].\<close>

definition normalizeDeclaredActions :: "gostr list \<Rightarrow> gostr list" where
  "normalizeDeclaredActions items = dedupTrim [] items"

text \<open>\<open>'A'\<close> to \<open>'Z'\<close> become \<open>'_'\<close> and the small letter, without the mark in front.\<close>

definition upperLetter :: "char \<Rightarrow> bool" where
  "upperLetter c \<longleftrightarrow> (let n = (of_char c :: nat) in 65 \<le> n \<and> n \<le> 90)"

fun snakeFrom :: "bool \<Rightarrow> gostr \<Rightarrow> gostr" where
  "snakeFrom first [] = []"
| "snakeFrom first (c # cs) =
     (if upperLetter c then (if first then [] else ''_'') @ [char_of ((of_char c :: nat) + 32)] else [c]) @ snakeFrom False cs"

definition snakeCaseModelRef :: "gostr \<Rightarrow> gostr" where
  "snakeCaseModelRef modelName = snakeFrom True modelName"

text \<open>A \<^verbatim>\<open>float64\<close> outside the range of \<^verbatim>\<open>int\<close> converts as on amd64.\<close>

definition truncRat :: "rat \<Rightarrow> int" where
  "truncRat r = (if r < 0 then - \<lfloor>- r\<rfloor> else \<lfloor>r\<rfloor>)"

definition floatToInt :: "goFloat \<Rightarrow> int" where
  "floatToInt f =
     (case f of
        Finite r \<Rightarrow> (let n = truncRat r in if - (2 ^ 63) \<le> n \<and> n < 2 ^ 63 then n else - (2 ^ 63))
      | _ \<Rightarrow> - (2 ^ 63))"

fun asInt :: "dataValue \<Rightarrow> int option" where
  "asInt (DInt i) = Some i"
| "asInt (DFloat f) = Some (floatToInt f)"
| "asInt _ = None"

fun asFloat :: "dataValue \<Rightarrow> goFloat option" where
  "asFloat (DInt i) = Some (fltOfInt i)"
| "asFloat (DFloat f) = Some f"
| "asFloat _ = None"

fun asStringSlice :: "dataValue \<Rightarrow> gostr list" where
  "asStringSlice (DList xs) =
     concat (map (\<lambda>x. case x of DString t \<Rightarrow> (if trimSpace t \<noteq> [] then [t] else []) | _ \<Rightarrow> []) xs)"
| "asStringSlice _ = []"

definition hasStructuredDataModels :: "dataModel list \<Rightarrow> bool" where
  "hasStructuredDataModels models \<longleftrightarrow> list_all (\<lambda>m. trimSpace (dmName m) \<noteq> [] \<and> dmFields m \<noteq> []) models"

definition ruleOf :: "(gostr \<times> dataValue) list \<Rightarrow> gostr \<Rightarrow> dataValue" where
  "ruleOf rules key = (case map_of rules key of None \<Rightarrow> DNull | Some v \<Rightarrow> v)"

definition applyValidationToField :: "(gostr \<times> dataValue) list \<Rightarrow> dataField \<Rightarrow> dataField" where
  "applyValidationToField rules field =
     (let f1 = (if ruleOf rules ''required'' = DBool True then field\<lparr>dfRequired := True\<rparr> else field);
          f2 = (case asInt (ruleOf rules ''maxLength'') of None \<Rightarrow> f1 | Some n \<Rightarrow> f1\<lparr>dfMaxLength := n\<rparr>);
          f3 = (case asFloat (ruleOf rules ''min'') of None \<Rightarrow> f2 | Some v \<Rightarrow> f2\<lparr>dfMin := Some v\<rparr>);
          f4 = (case asFloat (ruleOf rules ''max'') of None \<Rightarrow> f3 | Some v \<Rightarrow> f3\<lparr>dfMax := Some v\<rparr>);
          enumValues = asStringSlice (ruleOf rules ''enum'') in
      if enumValues \<noteq> [] then f4\<lparr>dfType := ''enum'', dfValues := enumValues\<rparr> else f4)"

definition rulesFor :: "(gostr \<times> (gostr \<times> dataValue) list) list \<Rightarrow> gostr \<Rightarrow> (gostr \<times> dataValue) list" where
  "rulesFor validations name = (case map_of validations name of None \<Rightarrow> [] | Some r \<Rightarrow> r)"

definition applyValidationsToFields ::
  "dataField list \<Rightarrow> (gostr \<times> (gostr \<times> dataValue) list) list \<Rightarrow> dataField list" where
  "applyValidationsToFields fs validations =
     map (\<lambda>f. applyValidationToField (rulesFor validations (dfName f)) f) fs"

definition typedField :: "(gostr \<times> gostr) list \<Rightarrow> gostr \<Rightarrow> dataField" where
  "typedField types name =
     \<lparr>dfName = trimSpace name, dfType = trimSpace (the (map_of types name)), dfRequired = False,
      dfMaxLength = 0, dfMin = None, dfMax = None, dfValues = []\<rparr>"

definition okList :: "err + 'a list \<Rightarrow> 'a list" where
  "okList r = (case r of Inl e \<Rightarrow> [] | Inr xs \<Rightarrow> xs)"

definition parseFlexibleModelFields ::
  "manifestJson \<Rightarrow> gostr \<Rightarrow> (gostr \<times> (gostr \<times> dataValue) list) list \<Rightarrow> err + dataField list" where
  "parseFlexibleModelFields js raw validations =
     (if raw = [] \<or> trimSpace raw = ''null'' then Inr []
      else let arrayFields = okList (jsFields js raw); types = okList (jsTypeMap js raw) in
        if arrayFields \<noteq> [] then Inr (applyValidationsToFields arrayFields validations)
        else if types \<noteq> [] then
          Inr (map (\<lambda>n. applyValidationToField (rulesFor validations n) (typedField types n)) (sort (map fst types)))
        else Inl (Err ''unsupported fields format''))"

definition convertFlexModel :: "manifestJson \<Rightarrow> flexModel \<Rightarrow> err + dataModel" where
  "convertFlexModel js item =
     (let name = trimSpace (fmName item) in
      case parseFlexibleModelFields js (fmFieldsRaw item) (fmValidations item) of
        Inl e \<Rightarrow> Inl (Err (''model '' @ goQuote name @ '': '' @ errText e))
      | Inr fs \<Rightarrow>
          (if fs = [] then Inl (Err (''model '' @ goQuote name @ '': fields are required''))
           else Inr \<lparr>dmName = name, dmLabel = trimSpace (fmLabel item), dmFields = fs,
                     dmIndexes = normalizeStringSlice (fmIndexes item)\<rparr>))"

definition convertFlexibleDataModels :: "manifestJson \<Rightarrow> flexModel list \<Rightarrow> err + dataModel list" where
  "convertFlexibleDataModels js items =
     bindR (mapR (convertFlexModel js) (filter (\<lambda>m. trimSpace (fmName m) \<noteq> []) items)) (\<lambda>out.
       if out = [] then Inl (Err ''no data models found'') else Inr out)"

definition isOk :: "err + 'a \<Rightarrow> bool" where
  "isOk r = (case r of Inl e \<Rightarrow> False | Inr x \<Rightarrow> True)"

definition parseManifestDataModels :: "manifestJson \<Rightarrow> gostr \<Rightarrow> err + (dataModel list \<times> bool)" where
  "parseManifestDataModels js raw =
     (if trimSpace raw = [] \<or> trimSpace raw = ''null'' then Inr ([], False)
      else case jsModels js raw of
        Inr models \<Rightarrow>
          (if \<not> hasStructuredDataModels models
           then Inl (Err ''structured dataModels must declare at least one model field'') else Inr (models, False))
      | Inl _ \<Rightarrow>
          (case jsFlexModels js raw of
             Inr flex \<Rightarrow> bindR (convertFlexibleDataModels js flex) (\<lambda>ms. Inr (ms, True))
           | Inl _ \<Rightarrow>
               (if isOk (jsStrings js raw)
                then Inl (Err ''dataModels must use structured schema; hint strings belong in dataModelHints'')
                else Inl (Err ''json: cannot unmarshal dataModels into supported schema''))))"

definition relationsUseQualifiedFields :: "dataRelation list \<Rightarrow> bool" where
  "relationsUseQualifiedFields relations \<longleftrightarrow>
     list_all (\<lambda>r. trimSpace (drName r) \<noteq> [] \<and> CHR ''.'' \<in> set (drFrom r) \<and> CHR ''.'' \<in> set (drTo r)) relations"

definition normalizeFlexibleRelation :: "flexRelation \<Rightarrow> err + dataRelation" where
  "normalizeFlexibleRelation item =
     (let name = trimSpace (frName item); src = trimSpace (frFrom item); dst = trimSpace (frTo item);
          typ = (if trimSpace (frType item) = [] then ''manyToOne'' else trimSpace (frType item));
          toField = (if trimSpace (frForeignKey item) = [] then snakeCaseModelRef src @ ''_id''
                     else trimSpace (frForeignKey item));
          kind = lowerWord typ in
      if name = [] \<or> src = [] \<or> dst = [] then Inl (Err ''relation name, from and to are required'')
      else if kind \<in> {''has_many'', ''hasmany'', ''one_to_many'', ''onetomany''}
      then Inr \<lparr>drName = name, drFrom = src @ ''.id'', drTo = dst @ ''.'' @ toField, drType = ''oneToMany''\<rparr>
      else if kind \<in> {''belongs_to'', ''belongsto'', ''many_to_one'', ''manytoone''}
      then Inr \<lparr>drName = name, drFrom = src @ ''.'' @ toField, drTo = dst @ ''.id'', drType = ''manyToOne''\<rparr>
      else if CHR ''.'' \<in> set src \<and> CHR ''.'' \<in> set dst
      then Inr \<lparr>drName = name, drFrom = src, drTo = dst, drType = typ\<rparr>
      else Inr \<lparr>drName = name, drFrom = src @ ''.id'', drTo = dst @ ''.'' @ toField, drType = typ\<rparr>)"

definition parseManifestRelations :: "manifestJson \<Rightarrow> gostr \<Rightarrow> err + (dataRelation list \<times> bool)" where
  "parseManifestRelations js raw =
     (case jsRelations js raw of
        Inr relations \<Rightarrow>
          (if relationsUseQualifiedFields relations then Inr (relations, False)
           else bindR (jsFlexRelations js raw) (\<lambda>flex. bindR (mapR normalizeFlexibleRelation flex) (\<lambda>out. Inr (out, True))))
      | Inl _ \<Rightarrow>
          bindR (jsFlexRelations js raw) (\<lambda>flex. bindR (mapR normalizeFlexibleRelation flex) (\<lambda>out. Inr (out, True))))"

definition controlledMode :: "gostr \<Rightarrow> bool" where
  "controlledMode mode \<longleftrightarrow> trimSpace mode \<in> {[], ''button_controlled'', ''controlled''}"

definition parseManifestActions :: "manifestJson \<Rightarrow> gostr \<Rightarrow> err + (gostr list \<times> bool)" where
  "parseManifestActions js raw =
     (if trimSpace raw = [] \<or> trimSpace raw = ''null'' then Inr ([], False)
      else case jsStrings js raw of
        Inr actions \<Rightarrow> Inr (normalizeStringSlice actions, False)
      | Inl _ \<Rightarrow>
          (case jsFlexActions js raw of
             Inr flex \<Rightarrow>
               Inr (normalizeStringSlice (filter (\<lambda>k. k \<noteq> [])
                      (map (\<lambda>a. firstNonBlank [faKey a, faAction a, faName a])
                        (filter (\<lambda>a. controlledMode (faMode a)) flex))), True)
           | Inl _ \<Rightarrow> Inl (Err ''json: cannot unmarshal actions into supported schema'')))"

definition marshalManifest :: "manifestJson \<Rightarrow> manifest \<Rightarrow> err + gostr" where
  "marshalManifest js item =
     bindR (wrapErr ''marshal normalized manifest: ''
       (jsMarshalManifest js (item
          \<lparr>mfSchemaVersion := firstNonBlank [trimSpace (mfSchemaVersion item), manifestSchemaVersion],
           mfActions := normalizeDeclaredActions (mfActions item),
           mfDataModelHints := normalizeStringSlice (mfDataModelHints item)\<rparr>)))
     (\<lambda>raw. Inr (raw @ [CHR 0x0A]))"

definition rawAt :: "envelope \<Rightarrow> gostr \<Rightarrow> gostr" where
  "rawAt env key = (case env key of None \<Rightarrow> [] | Some r \<Rightarrow> r)"

definition parsedKeys :: "gostr list" where
  "parsedKeys = [''dataModels'', ''relations'', ''queries'', ''actions'']"

text \<open>\<open>r\<close> when the raw message is there, else what the manifest had.\<close>

definition parsedOr :: "gostr \<Rightarrow> gostr \<Rightarrow> 'a \<Rightarrow> err + ('a \<times> bool) \<Rightarrow> err + ('a \<times> bool)" where
  "parsedOr raw what old r = (if raw = [] then Inr (old, False) else wrapErr (''parse '' @ what @ '': '') r)"

definition jsonEqual :: "gostr \<Rightarrow> gostr \<Rightarrow> bool" where
  "jsonEqual left right \<longleftrightarrow> trimSpace left = trimSpace right"

text \<open>The manifest, its normal form, and whether it was changed to get there.\<close>

definition decodeManifestWithDir :: "manifestJson \<Rightarrow> reader \<Rightarrow> gostr \<Rightarrow> gostr \<Rightarrow> err + (manifest \<times> gostr \<times> bool)" where
  "decodeManifestWithDir js rd appDir raw =
     bindR (jsEnvelope js raw) (\<lambda>env.
     bindR (jsMarshalEnvelope js (\<lambda>k. if k \<in> set parsedKeys then None else env k)) (\<lambda>trimmed.
     bindR (jsManifest js trimmed) (\<lambda>decoded.
     let item = (if trimSpace (mfSchemaVersion decoded) = [] then decoded\<lparr>mfSchemaVersion := manifestSchemaVersion\<rparr> else decoded) in
     bindR (parsedOr (rawAt env ''dataModels'') ''dataModels'' (mfDataModels item)
       (parseManifestDataModels js (rawAt env ''dataModels''))) (\<lambda>(models, n1).
     bindR (parsedOr (rawAt env ''relations'') ''relations'' (mfRelations item)
       (parseManifestRelations js (rawAt env ''relations''))) (\<lambda>(relations, n2).
     bindR (parsedOr (rawAt env ''queries'') ''queries'' (mfQueries item)
       (bindR (jsQueries js (rawAt env ''queries'')) (\<lambda>qs. Inr (qs, False)))) (\<lambda>(queries, _).
     bindR (parsedOr (rawAt env ''actions'') ''actions'' (mfActions item)
       (parseManifestActions js (rawAt env ''actions''))) (\<lambda>(actions, n3).
     bindR (wrapErr ''normalize actions: ''
       (normalizeManifestActions rd (pathClean (if appDir = [] then ''.'' else appDir))
         (item\<lparr>mfDataModels := models, mfRelations := relations, mfQueries := queries, mfActions := actions\<rparr>))) (\<lambda>(final, n4).
     bindR (marshalManifest js final) (\<lambda>normalizedRaw.
       Inr (final, normalizedRaw, n1 \<or> n2 \<or> n3 \<or> n4 \<or> \<not> jsonEqual raw normalizedRaw))))))))))"

subsection \<open>Actions of a decoded manifest\<close>

lemma normalized_set: "set (normalizeSortedUniqueStrings xs) = trimSpace ` set xs - {[]}"
  by (simp add: normalizeSortedUniqueStrings_def set_dedupTrim)

lemma normalized_sorted: "sorted (normalizeSortedUniqueStrings xs)" "distinct (normalizeSortedUniqueStrings xs)"
  by (simp_all add: normalizeSortedUniqueStrings_def distinct_dedupTrim)

lemma normalized_fixed:
  assumes "sorted xs" and "distinct xs" and "\<forall>x \<in> set xs. x \<noteq> [] \<and> trimSpace x = x"
  shows "normalizeSortedUniqueStrings xs = xs"
  using dedupTrim_normal [of "[]" xs] assms by (simp add: normalizeSortedUniqueStrings_def sorted_sort_id)

lemma normalized_idem [simp]:
  "normalizeSortedUniqueStrings (normalizeSortedUniqueStrings xs) = normalizeSortedUniqueStrings xs"
  by (rule normalized_fixed) (auto simp: normalized_sorted normalized_set)

text \<open>Names that a pattern finds occur between quotes in the text.\<close>

lemma quotedAfter_in: "quotedAfter word gap quotes s = Some (name, rest) \<Longrightarrow> sublist name s"
proof -
  assume run: "quotedAfter word gap quotes s = Some (name, rest)"
  define u where "u = dropWhile patternSpace (drop (length word) s)"
  from run obtain q v where u: "u = q # v" and name: "name = takeWhile (\<lambda>c. c \<notin> set quotes) v"
    by (auto simp: quotedAfter_def Let_def u_def [symmetric] split: if_splits list.splits)
  have "suffix u s" unfolding u_def
    by (meson suffix_drop suffix_dropWhile suffix_order.trans)
  then obtain a where "s = a @ q # v" using u by (auto simp: suffix_def)
  moreover have "v = name @ dropWhile (\<lambda>c. c \<notin> set quotes) v" by (simp add: name)
  ultimately have "s = (a @ [q]) @ name @ dropWhile (\<lambda>c. c \<notin> set quotes) v" by simp
  then show ?thesis unfolding sublist_def by blast
qed

lemma quotedAfter_rest: "quotedAfter word gap quotes s = Some (name, rest) \<Longrightarrow> suffix rest s"
proof -
  assume run: "quotedAfter word gap quotes s = Some (name, rest)"
  define u where "u = dropWhile patternSpace (drop (length word) s)"
  from run obtain q v where u: "u = q # v" and "rest = tl (drop (length name) v)"
    by (auto simp: quotedAfter_def Let_def u_def [symmetric] split: if_splits list.splits)
  then have "suffix rest u" by (metis suffix_ConsI suffix_drop suffix_order.trans suffix_tl)
  moreover have "suffix u s" unfolding u_def
    by (meson suffix_drop suffix_dropWhile suffix_order.trans)
  ultimately show ?thesis by (rule suffix_order.trans)
qed

lemma allQuoted_in: "name \<in> set (allQuoted word gap quotes s) \<Longrightarrow> sublist name s"
proof (induction word gap quotes s rule: allQuoted.induct)
  case (2 word gap quotes c s)
  show ?case
  proof (cases "quotedAfter word gap quotes (c # s)")
    case None
    then show ?thesis using 2 by (simp add: sublist_Cons_right)
  next
    case (Some p)
    obtain n r where p: "p = (n, r)" by (cases p)
    show ?thesis
    proof (cases "name = n")
      case False
      then have "sublist name r" using 2 Some p by simp
      moreover have "sublist r (c # s)" using quotedAfter_rest [of word gap quotes "c # s" n r] Some p suffix_imp_sublist by blast
      ultimately show ?thesis by (rule sublist_order.order.trans)
    qed (use quotedAfter_in Some p in blast)
  qed
qed simp

text \<open>The actions that a source file mentions, trimmed.\<close>

definition sourceActions :: "reader \<Rightarrow> gostr \<Rightarrow> (gostr \<Rightarrow> gostr list) \<Rightarrow> gostr set" where
  "sourceActions rd path matches =
     (case rd path of Contents raw \<Rightarrow> trimSpace ` set (matches raw) - {[]} | _ \<Rightarrow> {})"

lemma extractActionStrings_set: "extractActionStrings rd path matches = Inr xs \<Longrightarrow> set xs = sourceActions rd path matches"
  by (auto simp: extractActionStrings_def sourceActions_def normalized_set split: readAnswer.splits)

lemma extractActionStrings_trimmed: "extractActionStrings rd path matches = Inr xs \<Longrightarrow> x \<in> set xs \<Longrightarrow> x \<noteq> [] \<and> trimSpace x = x"
  by (auto simp: extractActionStrings_set sourceActions_def split: readAnswer.splits)

lemma trimmed_image: "\<forall>x \<in> set xs. x \<noteq> [] \<and> trimSpace x = x \<Longrightarrow> trimSpace ` set xs - {[]} = set xs"
  by force

text \<open>
   When a manifest declares no action, its actions are read off the sources: exactly those
  that need an authorization, of the actions that both the frontend calls and the backend
  handles, or, when there are none, of all that either mentions; in order and without
  repetitions.
\<close>

theorem inferred_actions_exact:
  assumes "inferManifestActions rd appDir = Inr actions"
  shows "sorted actions \<and> distinct actions \<and>
    set actions = {a. ActionRequiresAuthorization a \<and>
      (let F = sourceActions rd (pathJoin [appDir, ''frontend'', ''api.js'']) frontendInvokeActions;
           B = sourceActions rd (pathJoin [appDir, ''backend'', ''main.go'']) backendDispatchActions in
       a \<in> (if F \<inter> B = {} then F \<union> B else F \<inter> B))}"
proof -
  obtain fs bs where fs: "extractActionStrings rd (pathJoin [appDir, ''frontend'', ''api.js'']) frontendInvokeActions = Inr fs"
      and bs: "extractActionStrings rd (pathJoin [appDir, ''backend'', ''main.go'']) backendDispatchActions = Inr bs"
      and actions: "actions = normalizeSortedUniqueStrings (filter ActionRequiresAuthorization
        (if intersectStrings fs bs = [] then unionStrings [fs, bs] else intersectStrings fs bs))"
    using assms unfolding inferManifestActions_def bindR_Inr_iff Let_def sum.inject by (elim exE conjE) blast
  have tfs: "\<forall>x \<in> set fs. x \<noteq> [] \<and> trimSpace x = x" and tbs: "\<forall>x \<in> set bs. x \<noteq> [] \<and> trimSpace x = x"
    using extractActionStrings_trimmed [OF fs] extractActionStrings_trimmed [OF bs] by blast+
  have both: "set (intersectStrings fs bs) = set fs \<inter> set bs"
  proof -
    have "\<forall>x \<in> set (filter (\<lambda>x. x \<in> set bs) fs). x \<noteq> [] \<and> trimSpace x = x"
      using tfs by (simp only: set_filter mem_Collect_eq) blast
    from trimmed_image [OF this] show ?thesis by (auto simp: intersectStrings_def normalized_set)
  qed
  have all: "set (unionStrings [fs, bs]) = set fs \<union> set bs"
  proof -
    have "\<forall>x \<in> set (fs @ bs). x \<noteq> [] \<and> trimSpace x = x" using tfs tbs by (simp only: set_append ball_Un simp_thms)
    from trimmed_image [OF this] show ?thesis by (simp add: unionStrings_def normalized_set)
  qed
  define cands where "cands = (if intersectStrings fs bs = [] then unionStrings [fs, bs] else intersectStrings fs bs)"
  have cands: "set cands = (if set fs \<inter> set bs = {} then set fs \<union> set bs else set fs \<inter> set bs)"
    using both all by (simp add: cands_def flip: set_empty)
  then have "\<forall>x \<in> set (filter ActionRequiresAuthorization cands). x \<noteq> [] \<and> trimSpace x = x"
    using tfs tbs by (auto split: if_splits)
  from trimmed_image [OF this] have "set actions = set (filter ActionRequiresAuthorization cands)"
    by (simp add: actions normalized_set cands_def)
  then have "set actions = {a. ActionRequiresAuthorization a \<and> a \<in> (if set fs \<inter> set bs = {} then set fs \<union> set bs else set fs \<inter> set bs)}"
    unfolding cands [symmetric] by auto
  then show ?thesis
    using extractActionStrings_set [OF fs] extractActionStrings_set [OF bs] by (simp add: actions normalized_sorted)
qed

theorem inferred_actions_exact_witness:
  "let rd = (\<lambda>path. Contents (''{ action: '' @ [CHR 0x27] @ ''a_b'' @ [CHR 0x27] @ ''} case '' @ [CHR 0x22] @ ''a_b'' @ [CHR 0x22])) in
   inferManifestActions rd [] = Inr [''a_b''] \<and>
   {''a_b''} = {a. ActionRequiresAuthorization a \<and>
      (let F = sourceActions rd (pathJoin [[], ''frontend'', ''api.js'']) frontendInvokeActions;
           B = sourceActions rd (pathJoin [[], ''backend'', ''main.go'']) backendDispatchActions in
       a \<in> (if F \<inter> B = {} then F \<union> B else F \<inter> B))}"
proof -
  define src :: gostr where
    "src = ''{ action: '' @ [CHR 0x27] @ ''a_b'' @ [CHR 0x27] @ ''} case '' @ [CHR 0x22] @ ''a_b'' @ [CHR 0x22]"
  have f: "frontendInvokeActions src = [''a_b'']" unfolding src_def by code_simp
  have b: "backendDispatchActions src = [''a_b'']" unfolding src_def by code_simp
  have trim: "trimSpace ''a_b'' = ''a_b''" by (rule trimSpace_visible) (simp_all add: visibleChar_def)
  have one: "normalizeSortedUniqueStrings [''a_b''] = [''a_b'']" by (rule normalized_fixed) (simp_all add: trim)
  have "lowerWord ''a_b'' = ''a_b''" by code_simp
  then have auth: "ActionRequiresAuthorization ''a_b''"
    unfolding ActionRequiresAuthorization_def readonlySuffixes_def readonlyKeywords_def by (simp add: trim suffix_def)
  have run: "inferManifestActions (\<lambda>path. Contents src) [] = Inr [''a_b'']"
    by (simp add: inferManifestActions_def extractActionStrings_def f b one bindR_def intersectStrings_def auth)
  show ?thesis
    using inferred_actions_exact [OF run] run unfolding src_def [symmetric] Let_def by simp
qed

subsection \<open>Which capabilities are accepted\<close>

definition providesOk :: "manifest \<Rightarrow> bool" where
  "providesOk item \<longleftrightarrow>
     distinct (map (\<lambda>p. trimSpace (cpName p)) (mfProvides item)) \<and>
     (\<forall>p \<in> set (mfProvides item). capabilityNamePattern (trimSpace (cpName p)) \<and> trimSpace (cpQuery p) \<noteq> [] \<and>
        trimSpace (cpQuery p) \<in> (\<lambda>q. trimSpace (dqName q)) ` set (mfQueries item))"

lemma checkProvides_iff:
  "checkProvides queries provided ps = Inr () \<longleftrightarrow>
     distinct (map (\<lambda>p. trimSpace (cpName p)) ps) \<and> (\<lambda>p. trimSpace (cpName p)) ` set ps \<inter> provided = {} \<and>
     (\<forall>p \<in> set ps. capabilityNamePattern (trimSpace (cpName p)) \<and> trimSpace (cpQuery p) \<noteq> [] \<and> trimSpace (cpQuery p) \<in> queries)"
  by (induction queries provided ps rule: checkProvides.induct) (auto simp: Let_def)

lemma splitOn_covers: "x \<in> set s \<Longrightarrow> x \<noteq> c \<Longrightarrow> \<exists>p \<in> set (splitOn c s). x \<in> set p"
proof (induction s)
  case (Cons y s)
  then show ?case by (cases "splitOn c s") auto
qed simp

lemma uuid_no_nul:
  assumes "generatedAppUUIDPattern s"
  shows "CHR 0x00 \<notin> set s"
proof
  assume "CHR 0x00 \<in> set s"
  then obtain p where "p \<in> set (splitOn CHR ''-'' s)" "CHR 0x00 \<in> set p" using splitOn_covers [of "CHR 0x00" s "CHR ''-''"] by auto
  moreover have "\<not> hexLower CHR 0x00" by (simp add: hexLower_def asciiDigit_def)
  ultimately show False using assms by (auto simp: generatedAppUUIDPattern_def Let_def list_all_iff)
qed

lemma nul_split: "CHR 0x00 \<notin> set a \<Longrightarrow> CHR 0x00 \<notin> set b \<Longrightarrow> a @ CHR 0x00 # x = b @ CHR 0x00 # y \<longleftrightarrow> a = b \<and> x = y"
  by (induction a b rule: list_induct2') auto

definition consumeKey :: "capabilityConsume \<Rightarrow> gostr" where
  "consumeKey c = trimSpace (ccAppID c) @ [CHR 0x00] @ trimSpace (ccCapability c)"

definition consumePair :: "capabilityConsume \<Rightarrow> gostr \<times> gostr" where
  "consumePair c = (trimSpace (ccAppID c), trimSpace (ccCapability c))"

definition consumeOk :: "gostr \<Rightarrow> capabilityConsume \<Rightarrow> bool" where
  "consumeOk ownID c \<longleftrightarrow> generatedAppUUIDPattern (trimSpace (ccAppID c)) \<and> trimSpace (ccAppID c) \<noteq> ownID \<and>
     capabilityNamePattern (trimSpace (ccCapability c))"

lemma consumeKey_pair: "consumeOk own c \<Longrightarrow> consumeOk own d \<Longrightarrow> consumeKey d = consumeKey c \<longleftrightarrow> consumePair d = consumePair c"
  using nul_split [OF uuid_no_nul uuid_no_nul] by (simp add: consumeOk_def consumeKey_def consumePair_def)

definition consumesOk :: "manifest \<Rightarrow> bool" where
  "consumesOk item \<longleftrightarrow>
     distinct (map consumePair (mfConsumes item)) \<and> list_all (consumeOk (mfID item)) (mfConsumes item)"

lemma checkConsumes_Cons:
  "checkConsumes ownID consumed (c # cs) = Inr () \<longleftrightarrow>
     consumeOk ownID c \<and> consumeKey c \<notin> consumed \<and> checkConsumes ownID (insert (consumeKey c) consumed) cs = Inr ()"
  by (auto simp: consumeOk_def consumeKey_def Let_def)

lemma checkConsumes_iff:
  "checkConsumes ownID consumed cs = Inr () \<longleftrightarrow>
     distinct (map consumePair cs) \<and> (\<forall>c \<in> set cs. consumeOk ownID c \<and> consumeKey c \<notin> consumed)"
proof (induction cs arbitrary: consumed)
  case (Cons c cs)
  have "(\<forall>d \<in> set cs. consumeOk ownID d \<and> consumeKey d \<notin> insert (consumeKey c) consumed) \<longleftrightarrow>
      consumePair c \<notin> consumePair ` set cs \<and> (\<forall>d \<in> set cs. consumeOk ownID d \<and> consumeKey d \<notin> consumed)"
    (is "?l \<longleftrightarrow> ?n \<and> ?r") if "consumeOk ownID c"
  proof (cases ?r)
    case True
    then have "consumeKey d = consumeKey c \<longleftrightarrow> consumePair d = consumePair c" if "d \<in> set cs" for d
      using consumeKey_pair [OF \<open>consumeOk ownID c\<close>] that by blast
    then have "(\<forall>d \<in> set cs. consumeKey d \<noteq> consumeKey c) \<longleftrightarrow> (\<forall>d \<in> set cs. consumePair d \<noteq> consumePair c)" by simp
    moreover have "(\<forall>d \<in> set cs. consumePair d \<noteq> consumePair c) \<longleftrightarrow> ?n" by (metis imageE image_eqI)
    ultimately show ?thesis using True by blast
  qed blast
  then show ?case unfolding checkConsumes_Cons Cons.IH by auto
qed simp

text \<open>
   The declared capabilities are accepted exactly when the provided ones have distinct names
  of the form and answer a declared query, and the consumed ones are distinct, of the form and of
  another application.
\<close>

theorem validateCapabilities_exact: "validateCapabilities item = Inr () \<longleftrightarrow> providesOk item \<and> consumesOk item"
proof -
  have "checkProvides (set (map (\<lambda>q. trimSpace (dqName q)) (mfQueries item))) {} (mfProvides item) = Inr () \<longleftrightarrow> providesOk item"
    by (simp add: checkProvides_iff providesOk_def)
  moreover have "checkConsumes (mfID item) {} (mfConsumes item) = Inr () \<longleftrightarrow> consumesOk item"
    by (simp add: checkConsumes_iff consumesOk_def list_all_iff)
  ultimately show ?thesis by (auto simp: validateCapabilities_def bindR_Inr_iff)
qed

end
