(* ===== verification/App_Skill.thy ===== *)
theory App_Skill
  imports App_Manifest
begin

text \<open>
  The contract by which a generated application offers its actions to the language model
  (\<^verbatim>\<open>func-operation/internal/runtime/generatedapp/skill_contract.go\<close>).

  The check trims and lowers the contract in place and sorts its operations; here it returns the
  contract that it leaves.
\<close>

subsection \<open>The check\<close>

definition lowerLetter :: "char \<Rightarrow> bool" where
  "lowerLetter c \<longleftrightarrow> (let n = (of_char c :: nat) in 97 \<le> n \<and> n \<le> 122)"

definition skillIdentifierPattern :: "gostr \<Rightarrow> bool" where
  "skillIdentifierPattern s \<longleftrightarrow>
     (case s of [] \<Rightarrow> False
      | c # cs \<Rightarrow> lowerLetter c \<and> length cs \<le> 79 \<and> list_all (\<lambda>x. lowerLetter x \<or> asciiDigit x \<or> x = CHR ''_'') cs)"

definition skillFieldPattern :: "gostr \<Rightarrow> bool" where
  "skillFieldPattern s \<longleftrightarrow>
     (case s of [] \<Rightarrow> False
      | c # cs \<Rightarrow> lowerLetter c \<and> length cs \<le> 79 \<and> list_all (\<lambda>x. asciiLetter x \<or> asciiDigit x \<or> x = CHR ''_'') cs)"

definition skillEffects :: "gostr set" where
  "skillEffects = {''read'', ''create'', ''update'', ''delete'', ''execute''}"

definition skillTypes :: "gostr set" where
  "skillTypes = {''string'', ''number'', ''integer'', ''boolean'', ''enum''}"

definition cleanSkillField :: "skillField \<Rightarrow> skillField" where
  "cleanSkillField f = f\<lparr>sfKey := trimSpace (sfKey f), sfType := lowerWord (trimSpace (sfType f))\<rparr>"

fun checkSkillFields :: "gostr \<Rightarrow> nat \<Rightarrow> gostr set \<Rightarrow> skillField list \<Rightarrow> err + skillField list" where
  "checkSkillFields opKey j fieldKeys [] = Inr []"
| "checkSkillFields opKey j fieldKeys (f # fs) =
     (let field = cleanSkillField f in
      if \<not> skillFieldPattern (sfKey field)
      then Inl (Err (''operation '' @ goQuote opKey @ '' field '' @ decimal j @ '' key is invalid''))
      else if sfKey field \<in> fieldKeys
      then Inl (Err (''operation '' @ goQuote opKey @ '' has duplicate field '' @ goQuote (sfKey field)))
      else if sfType field \<notin> skillTypes
      then Inl (Err (''operation '' @ goQuote opKey @ '' field '' @ goQuote (sfKey field) @ '' has unsupported type''))
      else if sfType field = ''enum'' \<and> sfEnumValues field = []
      then Inl (Err (''operation '' @ goQuote opKey @ '' enum field '' @ goQuote (sfKey field) @ '' has no values''))
      else bindR (checkSkillFields opKey (Suc j) (insert (sfKey field) fieldKeys) fs) (\<lambda>rest. Inr (field # rest)))"

definition cleanSkillOp :: "skillOperation \<Rightarrow> skillOperation" where
  "cleanSkillOp op =
     op\<lparr>soKey := trimSpace (soKey op), soAction := trimSpace (soAction op), soEffect := lowerWord (trimSpace (soEffect op))\<rparr>"

text \<open>The loop over the operations, with the keys and actions seen so far.\<close>

fun checkSkillOps ::
  "gostr set \<Rightarrow> nat \<Rightarrow> gostr set \<Rightarrow> gostr set \<Rightarrow> skillOperation list \<Rightarrow> err + skillOperation list" where
  "checkSkillOps declared i seen seenActions [] = Inr []"
| "checkSkillOps declared i seen seenActions (p # ps) =
     (let op = cleanSkillOp p in
      if \<not> skillIdentifierPattern (soKey op) \<or> soAction op = []
      then Inl (Err (''agentSkill operation '' @ decimal i @ '' has invalid key or action''))
      else if soKey op \<in> seen then Inl (Err (''duplicate agentSkill operation '' @ goQuote (soKey op)))
      else if soAction op \<in> seenActions then Inl (Err (''duplicate agentSkill action '' @ goQuote (soAction op)))
      else if soEffect op \<notin> skillEffects
      then Inl (Err (''operation '' @ goQuote (soKey op) @ '' has unsupported effect''))
      else if soEffect op = ''read'' \<and> soAction op \<in> declared
      then Inl (Err (''read operation '' @ goQuote (soKey op) @ '' action '' @ goQuote (soAction op) @
             '' must not be declared in manifest.actions''))
      else if soEffect op \<noteq> ''read'' \<and> soAction op \<notin> declared
      then Inl (Err (''operation '' @ goQuote (soKey op) @ '' action '' @ goQuote (soAction op) @ '' is not declared''))
      else if soAutoExecute op \<and> soEffect op \<noteq> ''create''
      then Inl (Err (''operation '' @ goQuote (soKey op) @ '' may auto execute only for create''))
      else bindR (checkSkillFields (soKey op) 0 {} (soFields op)) (\<lambda>fs.
        bindR (checkSkillOps declared (Suc i) (insert (soKey op) seen) (insert (soAction op) seenActions) ps) (\<lambda>rest.
          Inr (op\<lparr>soFields := fs\<rparr> # rest))))"

definition ValidateAgentSkillContract :: "skillContract option \<Rightarrow> gostr list \<Rightarrow> err + skillContract" where
  "ValidateAgentSkillContract given declaredActions =
     (case given of
        None \<Rightarrow> Inl (Err ''agentSkill is required'')
      | Some c0 \<Rightarrow>
          (let c = c0\<lparr>skName := trimSpace (skName c0), skToolPrefix := trimSpace (skToolPrefix c0)\<rparr> in
           if skName c = [] \<or> \<not> skillIdentifierPattern (skToolPrefix c)
           then Inl (Err ''agentSkill name and lowercase toolPrefix are required'')
           else if skOperations c = [] then Inl (Err ''agentSkill operations are required'')
           else bindR (checkSkillOps (set (map trimSpace declaredActions)) 0 {} {} (skOperations c)) (\<lambda>ops.
             if \<not> list_ex (\<lambda>op. soEffect op = ''read'') ops
             then Inl (Err ''agentSkill must include at least one read operation'')
             else Inr (c\<lparr>skOperations := sort_key soKey ops\<rparr>))))"

subsection \<open>Reading a contract\<close>

record skillJson =
  jsContract :: "gostr \<Rightarrow> err + skillContract"
  jsSkillManifest :: "gostr \<Rightarrow> err + (gostr list \<times> skillContract option)"

definition ParseAgentSkillManifest :: "skillJson \<Rightarrow> gostr \<Rightarrow> err + (skillContract option \<times> gostr list)" where
  "ParseAgentSkillManifest js raw =
     (case jsSkillManifest js raw of Inl e \<Rightarrow> Inl e | Inr (actions, skill) \<Rightarrow> Inr (skill, actions))"

definition ParseAgentSkillContract :: "skillJson \<Rightarrow> gostr \<Rightarrow> err + skillContract option" where
  "ParseAgentSkillContract js raw =
     (case ParseAgentSkillManifest js raw of Inl e \<Rightarrow> Inl e | Inr (skill, _) \<Rightarrow> Inr skill)"

definition ParseAgentSkillSnapshot :: "skillJson \<Rightarrow> gostr \<Rightarrow> err + skillContract option" where
  "ParseAgentSkillSnapshot js raw =
     (case jsContract js raw of
        Inl e \<Rightarrow> Inl e
      | Inr c \<Rightarrow>
          (if skName c \<noteq> [] \<or> skToolPrefix c \<noteq> [] \<or> skOperations c \<noteq> [] then Inr (Some c)
           else ParseAgentSkillContract js raw))"

subsection \<open>Which contracts are accepted\<close>

definition skillFieldOk :: "skillField \<Rightarrow> bool" where
  "skillFieldOk f \<longleftrightarrow> skillFieldPattern (sfKey f) \<and> sfType f \<in> skillTypes \<and> (sfType f = ''enum'' \<longrightarrow> sfEnumValues f \<noteq> [])"

definition skillOpOk :: "gostr set \<Rightarrow> skillOperation \<Rightarrow> bool" where
  "skillOpOk declared op \<longleftrightarrow>
     skillIdentifierPattern (soKey op) \<and> soAction op \<noteq> [] \<and> soEffect op \<in> skillEffects \<and>
     (soEffect op = ''read'' \<longleftrightarrow> soAction op \<notin> declared) \<and> (soAutoExecute op \<longrightarrow> soEffect op = ''create'') \<and>
     distinct (map sfKey (soFields op)) \<and> list_all skillFieldOk (soFields op)"

definition skillOk :: "gostr set \<Rightarrow> skillContract \<Rightarrow> bool" where
  "skillOk declared c \<longleftrightarrow>
     skName c \<noteq> [] \<and> skillIdentifierPattern (skToolPrefix c) \<and>
     distinct (map soKey (skOperations c)) \<and> distinct (map soAction (skOperations c)) \<and>
     list_all (skillOpOk declared) (skOperations c) \<and> list_ex (\<lambda>op. soEffect op = ''read'') (skOperations c)"

definition cleanOpDeep :: "skillOperation \<Rightarrow> skillOperation" where
  "cleanOpDeep op = (cleanSkillOp op)\<lparr>soFields := map cleanSkillField (soFields op)\<rparr>"

definition cleanSkill :: "skillContract \<Rightarrow> skillContract" where
  "cleanSkill c =
     c\<lparr>skName := trimSpace (skName c), skToolPrefix := trimSpace (skToolPrefix c),
       skOperations := map cleanOpDeep (skOperations c)\<rparr>"

lemma checkSkillFields_iff:
  "checkSkillFields opKey j seen fs = Inr gs \<longleftrightarrow>
     gs = map cleanSkillField fs \<and> distinct (map sfKey gs) \<and> list_all skillFieldOk gs \<and> sfKey ` set gs \<inter> seen = {}"
proof (induction fs arbitrary: j seen gs)
  case (Cons f fs)
  let ?f = "cleanSkillField f"
  have step: "checkSkillFields opKey j seen (f # fs) = Inr gs \<longleftrightarrow>
      skillFieldOk ?f \<and> sfKey ?f \<notin> seen \<and>
      (\<exists>rest. checkSkillFields opKey (Suc j) (insert (sfKey ?f) seen) fs = Inr rest \<and> gs = ?f # rest)"
    by (auto simp: skillFieldOk_def Let_def bindR_Inr_iff)
  show ?case unfolding step Cons.IH by (auto simp: image_image disjoint_iff) (metis image_eqI)+
qed auto

lemma cleanOpDeep_simps [simp]:
  "soKey (cleanOpDeep p) = soKey (cleanSkillOp p)" "soAction (cleanOpDeep p) = soAction (cleanSkillOp p)"
  "soEffect (cleanOpDeep p) = soEffect (cleanSkillOp p)" "soAutoExecute (cleanOpDeep p) = soAutoExecute (cleanSkillOp p)"
  "soFields (cleanOpDeep p) = map cleanSkillField (soFields p)" "soFields (cleanSkillOp p) = soFields p"
  by (simp_all add: cleanOpDeep_def cleanSkillOp_def)

lemma checkSkillOps_Cons:
  "checkSkillOps declared i seen seenActions (p # ps) = Inr ops \<longleftrightarrow>
     skillOpOk declared (cleanOpDeep p) \<and> soKey (cleanOpDeep p) \<notin> seen \<and> soAction (cleanOpDeep p) \<notin> seenActions \<and>
     (\<exists>rest. checkSkillOps declared (Suc i) (insert (soKey (cleanOpDeep p)) seen) (insert (soAction (cleanOpDeep p)) seenActions) ps = Inr rest \<and>
        ops = cleanOpDeep p # rest)"
proof -
  have deep: "(cleanSkillOp p)\<lparr>soFields := map cleanSkillField (soFields p)\<rparr> = cleanOpDeep p" by (simp add: cleanOpDeep_def)
  show ?thesis
    by (auto simp: skillOpOk_def Let_def bindR_Inr_iff checkSkillFields_iff deep)
qed

lemma checkSkillOps_iff:
  "checkSkillOps declared i seen seenActions ps = Inr ops \<longleftrightarrow>
     ops = map cleanOpDeep ps \<and> distinct (map soKey ops) \<and> distinct (map soAction ops) \<and> list_all (skillOpOk declared) ops \<and>
     soKey ` set ops \<inter> seen = {} \<and> soAction ` set ops \<inter> seenActions = {}"
proof (induction ps arbitrary: i seen seenActions ops)
  case (Cons p ps)
  show ?case unfolding checkSkillOps_Cons Cons.IH by (auto simp: image_image disjoint_iff) (metis image_eqI)+
qed auto

text \<open>
   A skill contract is accepted exactly when, once trimmed, it has a name and a prefix of the
  form, distinct keys and actions, supported effects and fields, at least one reading operation,
  only creations that run by themselves, and its reading actions are exactly those that the
  manifest does not declare; then its operations are left in the order of their keys.
\<close>

theorem ValidateAgentSkillContract_exact:
  "ValidateAgentSkillContract (Some c) declaredActions = Inr c' \<longleftrightarrow>
     skillOk (set (map trimSpace declaredActions)) (cleanSkill c) \<and>
     c' = (cleanSkill c)\<lparr>skOperations := sort_key soKey (skOperations (cleanSkill c))\<rparr>"
proof -
  let ?D = "set (map trimSpace declaredActions)"
  have fields: "skName (cleanSkill c) = trimSpace (skName c)" "skToolPrefix (cleanSkill c) = trimSpace (skToolPrefix c)"
      "skOperations (cleanSkill c) = map cleanOpDeep (skOperations c)"
    by (simp_all add: cleanSkill_def)
  have empty: "list_ex P ops \<Longrightarrow> ops \<noteq> []" for P and ops :: "skillOperation list" by auto
  have out: "c\<lparr>skName := trimSpace (skName c), skToolPrefix := trimSpace (skToolPrefix c), skOperations := ops\<rparr> =
      (cleanSkill c)\<lparr>skOperations := ops\<rparr>" for ops by (simp add: cleanSkill_def)
  show ?thesis
    unfolding ValidateAgentSkillContract_def skillOk_def fields
    by (auto simp: Let_def bindR_Inr_iff checkSkillOps_iff out)
qed

end
