(* ===== verification/App_Results.thy ===== *)
theory App_Results
  imports Go_Base "HOL-Library.Word"
begin

text \<open>
  The results that a generated application leaves with its host
  (\<^verbatim>\<open>func-operation/internal/runtime/generatedapp/host.go\<close>): the guest hands over
  bytes and gets a handle, which only the same invocation of the same application can use until
  it ends.  Handles and invocation numbers are 64-bit counters that wrap around.

  Invocations run in parallel; every method below is one critical section of the mutex of the
  service, so a run is a sequence of \<open>resultStep\<close>s.
\<close>

type_synonym u64 = "64 word"

record resultRecord =
  rsApp :: gostr
  rsInvocation :: u64
  rsData :: gostr

record resultTable =
  rtResults :: "u64 \<rightharpoonup> resultRecord"
  rtNextID :: u64
  rtNextInvocationID :: u64

definition newResultTable :: resultTable where
  "newResultTable = \<lparr>rtResults = Map.empty, rtNextID = 1, rtNextInvocationID = 1\<rparr>"

definition oversizeResult :: gostr where
  "oversizeResult = [CHR 0x7B, CHR 0x22] @ ''error'' @ [CHR 0x22, CHR '':'', CHR 0x22] @
     ''platform result exceeds the configured size limit'' @ [CHR 0x22, CHR 0x7D]"

definition boundedResult :: "int \<Rightarrow> gostr \<Rightarrow> gostr" where
  "boundedResult maxResultBytes bytes =
     (if maxResultBytes > 0 \<and> int (length bytes) > maxResultBytes then oversizeResult else bytes)"

definition storeRawResult :: "int \<Rightarrow> gostr \<Rightarrow> u64 \<Rightarrow> gostr \<Rightarrow> resultTable \<Rightarrow> u64 \<times> resultTable" where
  "storeRawResult maxResultBytes appID ivc bytes t =
     (rtNextID t,
      t\<lparr>rtNextID := rtNextID t + 1,
        rtResults := (rtResults t)(rtNextID t \<mapsto>
          \<lparr>rsApp = appID, rsInvocation = ivc, rsData = boundedResult maxResultBytes bytes\<rparr>)\<rparr>)"

definition beginInvocation :: "resultTable \<Rightarrow> u64 \<times> resultTable" where
  "beginInvocation t = (rtNextInvocationID t, t\<lparr>rtNextInvocationID := rtNextInvocationID t + 1\<rparr>)"

definition lookupResult :: "gostr \<Rightarrow> u64 \<Rightarrow> u64 \<Rightarrow> resultTable \<Rightarrow> gostr option" where
  "lookupResult appID ivc handle t =
     (case rtResults t handle of
        None \<Rightarrow> None
      | Some r \<Rightarrow> (if rsApp r \<noteq> appID \<or> rsInvocation r \<noteq> ivc then None else Some (rsData r)))"

definition cleanupInvocationResults :: "u64 \<Rightarrow> resultTable \<Rightarrow> resultTable" where
  "cleanupInvocationResults ivc t =
     t\<lparr>rtResults := (\<lambda>h. case rtResults t h of
         None \<Rightarrow> None | Some r \<Rightarrow> (if rsInvocation r = ivc then None else Some r))\<rparr>"

definition resultPayload :: "gostr \<Rightarrow> u64 \<Rightarrow> u64 \<Rightarrow> resultTable \<Rightarrow> err + gostr" where
  "resultPayload appID ivc handle t =
     (case lookupResult appID ivc handle t of
        None \<Rightarrow> Inl (Err ''result handle does not belong to current invocation'')
      | Some bytes \<Rightarrow> Inr bytes)"

subsection \<open>Invocations in parallel\<close>

text \<open>
  An invocation begins, stores results while it runs, and its results are cleaned up when it
  ends.  The state keeps, beside the table, the application of every running invocation and how
  many have begun.
\<close>

datatype resultLabel = RBegin gostr | RStore u64 gostr | REnd u64

record resultState =
  rstTable :: resultTable
  rstRunning :: "u64 \<rightharpoonup> gostr"
  rstBegun :: nat

fun resultStep :: "int \<Rightarrow> resultLabel \<Rightarrow> resultState \<Rightarrow> resultState option" where
  "resultStep maxBytes (RBegin appID) s =
     (case beginInvocation (rstTable s) of (ivc, t) \<Rightarrow>
        Some (s\<lparr>rstTable := t, rstRunning := (rstRunning s)(ivc \<mapsto> appID), rstBegun := Suc (rstBegun s)\<rparr>))"
| "resultStep maxBytes (RStore ivc bytes) s =
     (case rstRunning s ivc of None \<Rightarrow> None
      | Some appID \<Rightarrow> Some (s\<lparr>rstTable := snd (storeRawResult maxBytes appID ivc bytes (rstTable s))\<rparr>))"
| "resultStep maxBytes (REnd ivc) s =
     (case rstRunning s ivc of None \<Rightarrow> None
      | Some appID \<Rightarrow> Some (s\<lparr>rstTable := cleanupInvocationResults ivc (rstTable s), rstRunning := (rstRunning s)(ivc := None)\<rparr>))"

fun resultRun :: "int \<Rightarrow> resultLabel list \<Rightarrow> resultState \<Rightarrow> resultState option" where
  "resultRun maxBytes [] s = Some s"
| "resultRun maxBytes (l # ls) s =
     (case resultStep maxBytes l s of None \<Rightarrow> None | Some s' \<Rightarrow> resultRun maxBytes ls s')"

definition newResultState :: resultState where
  "newResultState = \<lparr>rstTable = newResultTable, rstRunning = Map.empty, rstBegun = 0\<rparr>"

subsection \<open>Results belong to running invocations\<close>

definition ownedResults :: "resultState \<Rightarrow> bool" where
  "ownedResults s \<longleftrightarrow>
     rtNextInvocationID (rstTable s) = 1 + of_nat (rstBegun s) \<and>
     (\<forall>i \<in> dom (rstRunning s). \<exists>k < rstBegun s. i = 1 + of_nat k) \<and>
     (\<forall>h r. rtResults (rstTable s) h = Some r \<longrightarrow> rstRunning s (rsInvocation r) = Some (rsApp r))"

lemma u64_inj:
  assumes "(of_nat a :: u64) = of_nat b" and "a < 2 ^ 64" and "b < 2 ^ 64"
  shows "a = b"
proof -
  have "unat (of_nat a :: u64) = unat (of_nat b :: u64)" using assms(1) by simp
  then show ?thesis using assms(2,3) by (simp add: unat_of_nat)
qed

lemma ownedD:
  assumes "ownedResults s"
  shows "rtNextInvocationID (rstTable s) = 1 + of_nat (rstBegun s)"
    and "rstRunning s i = Some a \<Longrightarrow> \<exists>k < rstBegun s. i = 1 + of_nat k"
    and "rtResults (rstTable s) h = Some r \<Longrightarrow> rstRunning s (rsInvocation r) = Some (rsApp r)"
  using assms unfolding ownedResults_def by (simp_all add: domI)

lemma ownedI:
  assumes "rtNextInvocationID (rstTable s) = 1 + of_nat (rstBegun s)"
    and "\<And>i a. rstRunning s i = Some a \<Longrightarrow> \<exists>k < rstBegun s. i = 1 + of_nat k"
    and "\<And>h r. rtResults (rstTable s) h = Some r \<Longrightarrow> rstRunning s (rsInvocation r) = Some (rsApp r)"
  shows "ownedResults s"
  unfolding ownedResults_def dom_def by (intro conjI ballI allI impI; (elim CollectE not_None_eq [THEN iffD1, THEN exE])?) (use assms in blast)+

lemma fresh_invocation:
  assumes "ownedResults s" and "rstBegun s < 2 ^ 64"
  shows "rstRunning s (rtNextInvocationID (rstTable s)) = None"
proof (cases "rstRunning s (rtNextInvocationID (rstTable s))")
  case (Some a)
  obtain k where k: "k < rstBegun s" "rtNextInvocationID (rstTable s) = 1 + of_nat k"
    using ownedD(2) [OF assms(1) Some] by (elim exE conjE)
  have "(of_nat (rstBegun s) :: u64) = of_nat k" using ownedD(1) [OF assms(1)] k(2) by simp
  then have "rstBegun s = k" by (rule u64_inj) (use k(1) assms(2) in linarith)+
  then show ?thesis using k(1) by simp
qed

lemma resultStep_owned:
  assumes "resultStep maxBytes l s = Some s'" and "ownedResults s" and "rstBegun s < 2 ^ 64"
  shows "ownedResults s'"
proof (cases l)
  case (RBegin appID)
  let ?i = "rtNextInvocationID (rstTable s)"
  have new: "rstRunning s ?i = None" by (rule fresh_invocation [OF assms(2,3)])
  have s': "s' = s\<lparr>rstTable := (rstTable s)\<lparr>rtNextInvocationID := ?i + 1\<rparr>, rstRunning := (rstRunning s)(?i \<mapsto> appID),
      rstBegun := Suc (rstBegun s)\<rparr>"
    using assms(1) RBegin by (simp add: beginInvocation_def)
  show ?thesis
  proof (rule ownedI)
    show "rtNextInvocationID (rstTable s') = 1 + of_nat (rstBegun s')" using ownedD(1) [OF assms(2)] by (simp add: s')
    fix i a assume "rstRunning s' i = Some a"
    then consider "i = ?i" | "rstRunning s i = Some a" by (auto simp: s' split: if_splits)
    then show "\<exists>k < rstBegun s'. i = 1 + of_nat k"
    proof cases
      case 1
      then show ?thesis using ownedD(1) [OF assms(2)] by (intro exI [of _ "rstBegun s"]) (simp add: s')
    next
      case 2
      then obtain k where "k < rstBegun s" "i = 1 + of_nat k" using ownedD(2) [OF assms(2)] by blast
      then show ?thesis by (intro exI [of _ k]) (simp add: s')
    qed
  next
    fix h r assume "rtResults (rstTable s') h = Some r"
    then have run: "rstRunning s (rsInvocation r) = Some (rsApp r)" using ownedD(3) [OF assms(2)] by (simp add: s')
    then have "rsInvocation r \<noteq> ?i" using new by force
    then show "rstRunning s' (rsInvocation r) = Some (rsApp r)" using run by (simp add: s')
  qed
next
  case (RStore ivc bytes)
  then obtain appID where a: "rstRunning s ivc = Some appID"
      and s': "s' = s\<lparr>rstTable := snd (storeRawResult maxBytes appID ivc bytes (rstTable s))\<rparr>"
    using assms(1) by (auto split: option.splits)
  show ?thesis
    by (rule ownedI) (use ownedD [OF assms(2)] a in \<open>auto simp: s' storeRawResult_def simp del: not_None_eq split: if_splits\<close>)
next
  case (REnd ivc)
  then have s': "s' = s\<lparr>rstTable := cleanupInvocationResults ivc (rstTable s), rstRunning := (rstRunning s)(ivc := None)\<rparr>"
    using assms(1) by (auto split: option.splits)
  show ?thesis
  proof (rule ownedI)
    fix h r assume "rtResults (rstTable s') h = Some r"
    then have "rtResults (rstTable s) h = Some r" "rsInvocation r \<noteq> ivc"
      by (simp_all add: s' cleanupInvocationResults_def split: option.splits if_splits)
    then show "rstRunning s' (rsInvocation r) = Some (rsApp r)" using ownedD(3) [OF assms(2)] by (simp add: s')
  qed (use ownedD(1,2) [OF assms(2)] in \<open>simp_all add: s' cleanupInvocationResults_def split: if_splits\<close>)
qed

lemma resultStep_begun: "resultStep maxBytes l s = Some s' \<Longrightarrow> rstBegun s \<le> rstBegun s'"
  by (cases l) (auto simp: beginInvocation_def split: option.splits)

lemma resultRun_begun: "resultRun maxBytes ls s = Some s' \<Longrightarrow> rstBegun s \<le> rstBegun s'"
proof (induction ls arbitrary: s)
  case (Cons l ls)
  then obtain s1 where s1: "resultStep maxBytes l s = Some s1" "resultRun maxBytes ls s1 = Some s'" by (auto split: option.splits)
  show ?case using resultStep_begun [OF s1(1)] Cons.IH [OF s1(2)] by simp
qed simp

text \<open>
  C30: in every run of fewer than 2 to the power of 64 invocations, every stored result belongs to
  an invocation of its application that is still running.  So a lookup can only find a result of
  a running invocation, and nothing is left once the last one has ended.
\<close>

theorem results_reachable_ok:
  assumes "resultRun maxBytes ls newResultState = Some s" and "rstBegun s < 2 ^ 64"
  shows "ran (rtResults (rstTable s)) \<subseteq> {r. rstRunning s (rsInvocation r) = Some (rsApp r)}"
proof -
  have "resultRun maxBytes ls s0 = Some s \<Longrightarrow> ownedResults s0 \<Longrightarrow> ownedResults s" for s0
  proof (induction ls arbitrary: s0)
    case (Cons l ls)
    then obtain s1 where s1: "resultStep maxBytes l s0 = Some s1" "resultRun maxBytes ls s1 = Some s"
      by (auto split: option.splits)
    have "rstBegun s0 < 2 ^ 64"
      using resultStep_begun [OF s1(1)] resultRun_begun [OF s1(2)] assms(2) by linarith
    then show ?case using Cons.IH [OF s1(2)] resultStep_owned [OF s1(1) Cons.prems(2)] by blast
  qed simp
  moreover have "ownedResults newResultState"
    by (simp add: ownedResults_def newResultState_def newResultTable_def)
  ultimately have "ownedResults s" using assms(1) by blast
  then show ?thesis by (auto simp: ownedResults_def ran_def)
qed

subsection \<open>A result is read back\<close>

fun isStore :: "resultLabel \<Rightarrow> bool" where
  "isStore (RStore ivc bytes) = True"
| "isStore _ = False"

definition storesOf :: "resultLabel list \<Rightarrow> nat" where
  "storesOf ls = length (filter isStore ls)"

lemma resultRun_keeps:
  assumes "resultRun maxBytes ls s = Some s'" and "rtResults (rstTable s) h = Some r"
    and "REnd (rsInvocation r) \<notin> set ls"
    and "rtNextID (rstTable s) = h + 1 + of_nat n" and "n + storesOf ls < 2 ^ 64"
  shows "rtResults (rstTable s') h = Some r"
  using assms
proof (induction ls arbitrary: s n)
  case (Cons l ls)
  obtain s1 where s1: "resultStep maxBytes l s = Some s1" "resultRun maxBytes ls s1 = Some s'"
    using Cons.prems(1) by (auto split: option.splits)
  show ?case
  proof (cases l)
    case (RStore ivc bytes)
    obtain appID where st: "rstTable s1 = snd (storeRawResult maxBytes appID ivc bytes (rstTable s))"
      using s1(1) RStore by (auto split: option.splits)
    have n: "n + 1 + storesOf ls < 2 ^ 64" using Cons.prems(5) RStore by (simp add: storesOf_def)
    have "(of_nat (Suc n) :: u64) \<noteq> of_nat 0" using u64_inj [of "Suc n" 0] n by auto
    then have "rtNextID (rstTable s) \<noteq> h" using Cons.prems(4) by (simp add: add.assoc)
    then show ?thesis
      using Cons.IH [OF s1(2), of "n + 1"] Cons.prems n st by (simp add: storeRawResult_def add.assoc)
  next
    case (RBegin appID)
    then show ?thesis
      using Cons.IH [OF s1(2), of n] Cons.prems s1(1) by (auto simp: beginInvocation_def storesOf_def)
  next
    case (REnd ivc)
    then show ?thesis
      using Cons.IH [OF s1(2), of n] Cons.prems s1(1)
      by (auto simp: cleanupInvocationResults_def storesOf_def split: option.splits)
  qed
qed simp

text \<open>
  C31: a result is read back under its handle, cut to the notice when it is too large, by its own
  invocation of its own application and by nobody else, as long as the invocation runs, whatever
  the others do meanwhile, unless they store 2 to the power of 64 results.
\<close>

theorem result_read_back:
  assumes "storeRawResult maxBytes appID ivc bytes (rstTable s) = (handle, t)"
    and "resultRun maxBytes ls (s\<lparr>rstTable := t\<rparr>) = Some s'"
    and "REnd ivc \<notin> set ls" and "storesOf ls < 2 ^ 64"
  shows "lookupResult appID' ivc' handle (rstTable s') =
     (if appID' = appID \<and> ivc' = ivc then Some (boundedResult maxBytes bytes) else None)"
proof -
  have "rtResults (rstTable s') handle =
      Some \<lparr>rsApp = appID, rsInvocation = ivc, rsData = boundedResult maxBytes bytes\<rparr>"
    by (rule resultRun_keeps [OF assms(2), where n = 0]) (use assms in \<open>auto simp: storeRawResult_def\<close>)
  then show ?thesis by (auto simp: lookupResult_def)
qed

theorem result_read_back_witness:
  "\<exists>s'. resultRun 100 [RBegin ''b'', RStore 1 ''y'']
      (newResultState\<lparr>rstTable := snd (storeRawResult 100 ''a'' 0 ''x'' newResultTable)\<rparr>) = Some s' \<and>
    lookupResult ''a'' 0 1 (rstTable s') = Some ''x'' \<and> lookupResult ''b'' 1 1 (rstTable s') = None"
proof -
  let ?t = "snd (storeRawResult 100 ''a'' 0 ''x'' newResultTable)"
  have store: "storeRawResult 100 ''a'' 0 ''x'' (rstTable newResultState) = (1, ?t)"
    by (simp add: storeRawResult_def newResultState_def newResultTable_def)
  obtain s' where run: "resultRun 100 [RBegin ''b'', RStore 1 ''y''] (newResultState\<lparr>rstTable := ?t\<rparr>) = Some s'"
    by (simp add: beginInvocation_def storeRawResult_def newResultTable_def newResultState_def)
  have "boundedResult 100 ''x'' = ''x''" by (simp add: boundedResult_def)
  then show ?thesis
    using result_read_back [OF store run, of "''a''" 0] result_read_back [OF store run, of "''b''" 1] run
    by (simp add: storesOf_def)
qed

theorem results_reachable_ok_witness:
  "\<exists>s. resultRun 100 [RBegin ''a'', RStore 1 ''x''] newResultState = Some s \<and>
     rtResults (rstTable s) 1 \<noteq> None \<and>
     ran (rtResults (rstTable s)) \<subseteq> {r. rstRunning s (rsInvocation r) = Some (rsApp r)}"
proof -
  obtain s where s: "resultRun 100 [RBegin ''a'', RStore 1 ''x''] newResultState = Some s"
      and "rstBegun s = 1" "rtResults (rstTable s) 1 \<noteq> None"
    by (simp add: beginInvocation_def storeRawResult_def newResultTable_def newResultState_def)
  then show ?thesis using results_reachable_ok [OF s] by auto
qed

end
