(* ===== verification/App_Files.thy ===== *)
theory App_Files
  imports App_Manifest App_Results Data_Store
begin

text \<open>
  The files of generated applications and the local store of their releases
  (\<^verbatim>\<open>local_artifact_store.go\<close> and the file functions of
  \<^verbatim>\<open>service.go\<close> in \<^verbatim>\<open>func-operation/internal/runtime/generatedapp\<close>).

  The disk is a list of nodes under clean absolute paths: files, directories, and symbolic links
  with what reading through them gives.  Every call of the operating system may also fail.  Not
  modelled are permissions, so \<^verbatim>\<open>sealArtifactDir\<close> only looks for links, and
  links on the way to a file.
\<close>

subsection \<open>State\<close>

datatype diskNode = DiskFile gostr | DiskDir | DiskLink readAnswer

type_synonym disk = "(gostr \<times> diskNode) list"

text \<open>
  A compiled module is known by the bytes that were compiled.
\<close>

record appRuntime =
  svApps :: "gostr \<rightharpoonup> generatedApp"
  svCompiled :: "gostr \<rightharpoonup> gostr"
  svApproved :: "gostr \<rightharpoonup> gostr"
  svActiveDirs :: "gostr \<rightharpoonup> gostr"
  svDraftHashes :: "gostr \<rightharpoonup> gostr"
  svResults :: resultTable
  svDisk :: disk
  svData :: dataStore

type_synonym 'a aact = "(appRuntime, 'a) act"

record appLib =
  alJson :: manifestJson
  alSha256 :: "gostr \<Rightarrow> gostr"
  alCompile :: "gostr \<Rightarrow> err + unit"
  alHexError :: "gostr \<Rightarrow> gostr"
  alRandom :: "nat \<Rightarrow> nat"
  alModTime :: "disk \<Rightarrow> gostr \<Rightarrow> int option"
  alData :: dataLib
  alEngine :: dataEngine

record appConfig =
  acRoot :: gostr
  acDraft :: bool
  acMaxModuleBytes :: int
  acMaxResultBytes :: int
  acMaxLogBytes :: int

subsection \<open>Calls of the operating system\<close>

definition withTextA :: "gostr \<Rightarrow> ('d, 'a) act \<Rightarrow> ('d, 'a) act" where
  "withTextA text m = wrapErrA (\<lambda>e. Err (text @ errText e)) m"

definition diskRead :: "disk \<Rightarrow> reader" where
  "diskRead d p =
     (case map_of d p of
        None \<Rightarrow> NotExist
      | Some (DiskFile c) \<Rightarrow> Contents c
      | Some DiskDir \<Rightarrow> ReadError (''read '' @ p @ '': is a directory'')
      | Some (DiskLink a) \<Rightarrow> a)"

fun answerErr :: "gostr \<Rightarrow> readAnswer \<Rightarrow> err" where
  "answerErr p NotExist = Err (''open '' @ p @ '': no such file or directory'')"
| "answerErr p (ReadError e) = Err e"
| "answerErr p (Contents c) = Err []"

definition readFileA :: "gostr \<Rightarrow> readAnswer aact" where
  "readFileA p = handleA (queryA (\<lambda>s. Inr (diskRead (svDisk s) p))) (\<lambda>e. retA (ReadError (errText e)))"

definition readFileE :: "gostr \<Rightarrow> gostr aact" where
  "readFileE p = bindA (readFileA p) (\<lambda>a. case a of Contents c \<Rightarrow> retA c | _ \<Rightarrow> failA (answerErr p a))"

definition putFile :: "gostr \<Rightarrow> gostr \<Rightarrow> disk \<Rightarrow> err + disk" where
  "putFile p c d =
     (case map_of d p of
        Some DiskDir \<Rightarrow> Inl (Err (''open '' @ p @ '': is a directory''))
      | Some (DiskLink a) \<Rightarrow> Inr (AList.update p (DiskLink (Contents c)) d)
      | _ \<Rightarrow> Inr (AList.update p (DiskFile c) d))"

definition diskA :: "(disk \<Rightarrow> err + disk) \<Rightarrow> unit aact" where
  "diskA f = stmtA (\<lambda>s. case f (svDisk s) of Inl e \<Rightarrow> Inl e | Inr d \<Rightarrow> Inr ((), s\<lparr>svDisk := d\<rparr>))"

definition writeFileA :: "gostr \<Rightarrow> gostr \<Rightarrow> unit aact" where
  "writeFileA p c = diskA (putFile p c)"

definition statA :: "gostr \<Rightarrow> diskNode option aact" where
  "statA p = queryA (\<lambda>s. Inr (map_of (svDisk s) p))"

definition below :: "gostr \<Rightarrow> gostr \<Rightarrow> bool" where
  "below dir p \<longleftrightarrow> p = dir \<or> hasPrefix p (dir @ ''/'')"

definition makeDir :: "gostr \<Rightarrow> disk \<Rightarrow> err + disk" where
  "makeDir p d =
     (case map_of d p of
        None \<Rightarrow> Inr (AList.update p DiskDir d)
      | Some n \<Rightarrow> (if n = DiskDir then Inr d else Inl (Err (''mkdir '' @ p @ '': not a directory''))))"

fun makeDirs :: "gostr list \<Rightarrow> disk \<Rightarrow> err + disk" where
  "makeDirs [] d = Inr d"
| "makeDirs (p # ps) d = bindR (makeDir p d) (makeDirs ps)"

definition removeTree :: "gostr \<Rightarrow> disk \<Rightarrow> disk" where
  "removeTree dir d = filter (\<lambda>(p, n). \<not> below dir p) d"

definition renameTree :: "gostr \<Rightarrow> gostr \<Rightarrow> disk \<Rightarrow> disk" where
  "renameTree a b d = map (\<lambda>(p, n). (if below a p then b @ drop (length a) p else p, n)) d"

text \<open>The nodes at and below a directory, in the order of \<^verbatim>\<open>filepath.WalkDir\<close>.\<close>

definition walkDir :: "disk \<Rightarrow> gostr \<Rightarrow> disk" where
  "walkDir d dir = sort_key (\<lambda>(p, n). splitOn slash p) (filter (\<lambda>(p, n). below dir p) d)"

definition isLink :: "diskNode \<Rightarrow> bool" where
  "isLink n = (case n of DiskLink a \<Rightarrow> True | _ \<Rightarrow> False)"

subsection \<open>The files of an artifact\<close>

fun frontendFiles :: "gostr \<Rightarrow> disk \<Rightarrow> err + gostr list" where
  "frontendFiles appDir [] = Inr []"
| "frontendFiles appDir ((p, n) # rest) =
     (if isLink n then Inl (Err ''artifact cannot contain symlinks'')
      else if n = DiskDir then frontendFiles appDir rest
      else if pathExt (pathBase p) \<noteq> ''.js'' then Inl (Err ''frontend artifact must be a JavaScript module'')
      else bindR (frontendFiles appDir rest) (\<lambda>fs. Inr (drop (length appDir + 1) p # fs)))"

definition artifactFilesOn :: "disk \<Rightarrow> gostr \<Rightarrow> gostr \<Rightarrow> err + gostr list" where
  "artifactFilesOn d appDir backendModule =
     bindR (frontendFiles appDir (walkDir d (pathJoin [appDir, ''frontend'']))) (\<lambda>fs.
       Inr (sort ([''manifest.json'', backendModule, ''frontend.js''] @ fs)))"

definition artifactFiles :: "gostr \<Rightarrow> gostr \<Rightarrow> gostr list aact" where
  "artifactFiles appDir backendModule = queryA (\<lambda>s. artifactFilesOn (svDisk s) appDir backendModule)"

text \<open>What is hashed: names and contents, each followed by a zero byte.\<close>

definition fingerprintText :: "(gostr \<times> gostr) list \<Rightarrow> gostr" where
  "fingerprintText fs = concat (map (\<lambda>(name, contents). name @ [CHR 0x00] @ contents @ [CHR 0x00]) fs)"

definition fingerprint :: "appLib \<Rightarrow> (gostr \<times> gostr) list \<Rightarrow> gostr" where
  "fingerprint lib fs = hexEncode (alSha256 lib (fingerprintText fs))"

definition readFiles :: "gostr \<Rightarrow> gostr list \<Rightarrow> (gostr \<times> gostr) list aact" where
  "readFiles dir fs = mapA (\<lambda>f. bindA (readFileE (pathJoin [dir, f])) (\<lambda>c. retA (f, c))) fs"

subsection \<open>The local store of releases\<close>

record artifactBundle =
  abSHA256 :: gostr
  abFiles :: "(gostr \<times> gostr) list"

definition releaseDir :: "appConfig \<Rightarrow> gostr" where
  "releaseDir cfg = pathJoin [acRoot cfg, ''.releases'']"

text \<open>The directories on the way to a file of the bundle, and the file.\<close>

fun parentDirs :: "gostr \<Rightarrow> gostr list \<Rightarrow> gostr list" where
  "parentDirs dir (p # q # ps) = (dir @ ''/'' @ p) # parentDirs (dir @ ''/'' @ p) (q # ps)"
| "parentDirs dir _ = []"

definition writeArtifactFile :: "gostr \<Rightarrow> gostr \<times> gostr \<Rightarrow> unit aact" where
  "writeArtifactFile target file =
     bindA (liftA (validateArtifactFileName (fst file))) (\<lambda>_.
     bindA (diskA (makeDirs (parentDirs target (splitOn slash (pathClean (fst file)))))) (\<lambda>_.
       writeFileA (pathJoin [target, pathClean (fst file)]) (snd file)))"

text \<open>The files of a bundle are a Go map; the list is the order of its range.\<close>

definition writeArtifactBundle :: "gostr \<Rightarrow> artifactBundle \<Rightarrow> unit aact" where
  "writeArtifactBundle target bundle = forA (abFiles bundle) (writeArtifactFile target)"

definition sealArtifactDir :: "gostr \<Rightarrow> unit aact" where
  "sealArtifactDir target = queryA (\<lambda>s.
     if list_ex (\<lambda>(p, n). isLink n) (walkDir (svDisk s) target)
     then Inl (Err ''artifact cannot contain symlinks'') else Inr ())"

text \<open>
  The rename fails when its target has appeared meanwhile; the staging directory is removed at the
  end.  The system would let an empty directory be replaced; the promotion asks before whether its
  target is there, so it meets one only when another process has made it in between, which is
  outside the model.
\<close>

definition renameDir :: "gostr \<Rightarrow> gostr \<Rightarrow> unit aact" where
  "renameDir a b = diskA (\<lambda>d. if map_of d b \<noteq> None then Inl (Err ''rename: file exists'') else Inr (renameTree a b d))"

definition dropTree :: "gostr \<Rightarrow> unit aact" where
  "dropTree dir = handleA (diskA (\<lambda>d. Inr (removeTree dir d))) (\<lambda>_. retA ())"

definition stageRelease :: "gostr \<Rightarrow> gostr \<Rightarrow> artifactBundle \<Rightarrow> unit aact" where
  "stageRelease tmp target bundle =
     bindA (writeArtifactBundle tmp bundle) (\<lambda>_.
     bindA (handleA (bindA (renameDir tmp target) (\<lambda>_. retA True))
             (\<lambda>e. bindA (tryA (statA target)) (\<lambda>st.
                case st of Inr (Some _) \<Rightarrow> retA False | _ \<Rightarrow> failA e))) (\<lambda>renamed.
       if renamed then sealArtifactDir target else retA ()))"

definition Store_Promote :: "appLib \<Rightarrow> appConfig \<Rightarrow> artifactBundle \<Rightarrow> unit aact" where
  "Store_Promote lib cfg bundle =
     (if \<not> artifactSHA256Pattern (abSHA256 bundle) then failA (Err ''invalid artifact hash'')
      else let target = pathJoin [releaseDir cfg, abSHA256 bundle] in
        bindA (statA target) (\<lambda>found.
          case found of
            Some _ \<Rightarrow> retA ()
          | None \<Rightarrow>
              bindA (diskA (makeDir (releaseDir cfg))) (\<lambda>_.
              bindA (drawA (alRandom lib)) (\<lambda>n.
              let tmp = pathJoin [releaseDir cfg, ''.staging-'' @ decimal n] in
              bindA (diskA (\<lambda>d. if map_of d tmp \<noteq> None then Inl (Err ''mkdir: file exists'') else Inr (AList.update tmp DiskDir d))) (\<lambda>_.
              bindA (tryA (stageRelease tmp target bundle)) (\<lambda>r.
              bindA (dropTree tmp) (\<lambda>_. liftA r)))))))"

definition Store_Materialize :: "appConfig \<Rightarrow> gostr \<Rightarrow> gostr aact" where
  "Store_Materialize cfg artifactSHA =
     (if \<not> artifactSHA256Pattern artifactSHA then failA (Err ''invalid artifact hash'')
      else let dir = pathJoin [releaseDir cfg, artifactSHA] in
        bindA (statA dir) (\<lambda>found.
          case found of
            None \<Rightarrow> failA (Err (''stat '' @ dir @ '': no such file or directory''))
          | Some n \<Rightarrow>
              (if n = DiskDir then retA dir
               else failA (Err (''local artifact '' @ goQuote artifactSHA @ '' is not a directory'')))))"

text \<open>
  The names in a directory, in order.  The result counts the releases and staging directories
  removed; on an error those removed so far.
\<close>

definition entryName :: "gostr \<Rightarrow> gostr \<Rightarrow> gostr list" where
  "entryName dir p =
     (let name = drop (length dir + 1) p in
      if hasPrefix p (dir @ ''/'') \<and> slash \<notin> set name then [name] else [])"

definition readDir :: "disk \<Rightarrow> gostr \<Rightarrow> gostr list" where
  "readDir d dir = sort (remdups (concat (map (\<lambda>(p, n). entryName dir p) d)))"

record reconcileResult =
  rcOrphans :: nat
  rcStaging :: nat

definition removeArtifact :: "gostr \<Rightarrow> unit aact" where
  "removeArtifact path = diskA (\<lambda>d. Inr (removeTree path d))"

definition reconcileEntry ::
  "appLib \<Rightarrow> gostr \<Rightarrow> gostr set \<Rightarrow> int \<Rightarrow> gostr \<Rightarrow> reconcileResult \<Rightarrow> reconcileResult aact" where
  "reconcileEntry lib dir referenced staleAfter name result =
     (let path = pathJoin [dir, name] in
      if hasPrefix name ''.staging-'' then
        bindA (queryA (\<lambda>s. Inr (alModTime lib (svDisk s) path))) (\<lambda>modified.
        bindA timeNowA (\<lambda>now.
          case modified of
            None \<Rightarrow> failA (Err (''lstat '' @ path @ '': no such file or directory''))
          | Some t \<Rightarrow>
              (if staleAfter > 0 \<and> now - t \<ge> staleAfter then
                 bindA (withTextA (''remove stale artifact staging '' @ goQuote name @ '': '') (removeArtifact path)) (\<lambda>_.
                   retA (result\<lparr>rcStaging := rcStaging result + 1\<rparr>))
               else retA result)))
      else if \<not> artifactSHA256Pattern name then retA result
      else if name \<in> referenced then retA result
      else bindA (withTextA (''remove orphaned artifact '' @ goQuote name @ '': '') (removeArtifact path)) (\<lambda>_.
        retA (result\<lparr>rcOrphans := rcOrphans result + 1\<rparr>)))"

fun reconcileEntries ::
  "appLib \<Rightarrow> gostr \<Rightarrow> gostr set \<Rightarrow> int \<Rightarrow> gostr list \<Rightarrow> reconcileResult \<Rightarrow> reconcileResult aact" where
  "reconcileEntries lib dir referenced staleAfter [] result = retA result"
| "reconcileEntries lib dir referenced staleAfter (name # names) result =
     bindA (reconcileEntry lib dir referenced staleAfter name result) (\<lambda>result'.
       reconcileEntries lib dir referenced staleAfter names result')"

definition Store_Reconcile :: "appLib \<Rightarrow> appConfig \<Rightarrow> gostr list \<Rightarrow> int \<Rightarrow> reconcileResult aact" where
  "Store_Reconcile lib cfg referenced staleAfter =
     (if \<not> list_all artifactSHA256Pattern referenced then failA (Err ''invalid referenced artifact hash'')
      else bindA (withTextA ''read local release store: '' (queryA (\<lambda>s.
             Inr (if map_of (svDisk s) (releaseDir cfg) = None then None else Some (readDir (svDisk s) (releaseDir cfg)))))) (\<lambda>entries.
        case entries of
          None \<Rightarrow> retA \<lparr>rcOrphans = 0, rcStaging = 0\<rparr>
        | Some names \<Rightarrow>
            reconcileEntries lib (releaseDir cfg) (set referenced) staleAfter names \<lparr>rcOrphans = 0, rcStaging = 0\<rparr>))"

end
