(* ===== verification/App_Runtime.thy ===== *)
theory App_Runtime
  imports App_Files
begin

text \<open>
  The runtime of generated applications
  (\<^verbatim>\<open>func-operation/internal/runtime/generatedapp/service.go\<close>): reading
  manifests, fingerprints of artifacts, loading published releases and drafts, promotion, and the
  files of the frontend.

  The published runtime and the draft runtime are the same code with \<open>acDraft\<close>.  Their
  tables are swapped under the mutex of the service after all reading is done, so each operation is
  one action.
\<close>

subsection \<open>Manifests\<close>

text \<open>What \<^verbatim>\<open>inferManifestActions\<close> may read.\<close>

definition readerA :: "gostr \<Rightarrow> reader aact" where
  "readerA appDir =
     (let api = pathJoin [pathClean appDir, ''frontend'', ''api.js'']; main = pathJoin [pathClean appDir, ''backend'', ''main.go''] in
      bindA (readFileA api) (\<lambda>a. bindA (readFileA main) (\<lambda>b. retA (\<lambda>p. if p = api then a else b))))"

definition pathDir :: "gostr \<Rightarrow> gostr" where
  "pathDir p = pathClean (rev (dropWhile (\<lambda>c. c \<noteq> slash) (rev p)))"

definition decodeA :: "appLib \<Rightarrow> gostr \<Rightarrow> gostr \<Rightarrow> (manifest \<times> gostr \<times> bool) aact" where
  "decodeA lib dir raw = bindA (readerA dir) (\<lambda>rd. liftA (decodeManifestWithDir (alJson lib) rd dir raw))"

definition normalizedManifest :: "appLib \<Rightarrow> gostr \<Rightarrow> gostr \<Rightarrow> manifest aact" where
  "normalizedManifest lib path raw =
     bindA (decodeA lib (pathDir path) raw) (\<lambda>(item, normalizedRaw, changed).
       if changed then
         bindA (withTextA (''normalize generated app manifest '' @ goQuote path @ '': '') (writeFileA path normalizedRaw)) (\<lambda>_. retA item)
       else retA item)"

definition loadManifestFile :: "appLib \<Rightarrow> gostr \<Rightarrow> manifest aact" where
  "loadManifestFile lib path = bindA (readFileE path) (normalizedManifest lib path)"

definition immutableManifest :: "appLib \<Rightarrow> gostr \<Rightarrow> gostr \<Rightarrow> (manifest \<times> gostr) aact" where
  "immutableManifest lib path raw =
     bindA (decodeA lib (pathDir path) raw) (\<lambda>(item, normalizedRaw, changed).
       if changed then failA (Err ''published manifest is not normalized'') else retA (item, normalizedRaw))"

definition loadImmutableManifest :: "appLib \<Rightarrow> gostr \<Rightarrow> (manifest \<times> gostr) aact" where
  "loadImmutableManifest lib path = bindA (readFileE path) (immutableManifest lib path)"

definition manifestFile :: "gostr \<Rightarrow> gostr" where
  "manifestFile dir = pathJoin [dir, ''manifest.json'']"

definition ErrAppNotFound :: err where "ErrAppNotFound = Err ''generated app not found''"

definition notReady :: "gostr \<Rightarrow> gostr \<Rightarrow> err" where
  "notReady what dir = Err (''generated app not ready: '' @ what @ '' is missing for '' @ goQuote dir)"

definition manifestPathForApp :: "appLib \<Rightarrow> appConfig \<Rightarrow> gostr \<Rightarrow> (gostr \<times> manifest) aact" where
  "manifestPathForApp lib cfg given =
     (let appID = trimSpace given; appDir = pathJoin [acRoot cfg, appID] in
      if \<not> generatedAppUUIDPattern appID then failA ErrAppNotFound
      else
        bindA (withTextA (''read generated app manifest '' @ goQuote appID @ '': '') (readFileE (manifestFile appDir))) (\<lambda>raw.
        bindA (withTextA (''decode generated app manifest '' @ goQuote appID @ '': '') (decodeA lib appDir raw)) (\<lambda>(item, _, _).
          if mfID item \<noteq> appID then failA (Err ''generated app manifest id does not match path'')
          else retA (appDir, item))))"

definition activeManifestForApp :: "appLib \<Rightarrow> appConfig \<Rightarrow> gostr \<Rightarrow> manifest aact" where
  "activeManifestForApp lib cfg given =
     (let appID = trimSpace given in
      if \<not> generatedAppUUIDPattern appID then failA ErrAppNotFound
      else
        bindA (updA (\<lambda>s. (svActiveDirs s appID, s))) (\<lambda>found.
          case found of
            None \<Rightarrow> failA ErrAppNotFound
          | Some appDir \<Rightarrow>
              (if appDir = [] then failA ErrAppNotFound
               else
                 bindA (withTextA (''read published app manifest '' @ goQuote appID @ '': '')
                   (if acDraft cfg then loadManifestFile lib (manifestFile appDir)
                    else bindA (loadImmutableManifest lib (manifestFile appDir)) (\<lambda>(item, _). retA item))) (\<lambda>item.
                   if mfID item \<noteq> appID then failA (Err ''published app manifest id does not match release'')
                   else retA item))))"

subsection \<open>Modules\<close>

definition hexValue :: "char \<Rightarrow> nat option" where
  "hexValue c =
     (let n = (of_char c :: nat) in
      if 48 \<le> n \<and> n \<le> 57 then Some (n - 48)
      else if 97 \<le> n \<and> n \<le> 102 then Some (n - 87)
      else if 65 \<le> n \<and> n \<le> 70 then Some (n - 55) else None)"

fun hexDecode :: "gostr \<Rightarrow> gostr option" where
  "hexDecode [] = Some []"
| "hexDecode [c] = None"
| "hexDecode (c # d # s) =
     (case (hexValue c, hexValue d, hexDecode s) of
        (Some a, Some b, Some r) \<Rightarrow> Some (char_of (16 * a + b) # r) | _ \<Rightarrow> None)"

definition moduleBytes :: "appLib \<Rightarrow> gostr \<Rightarrow> gostr \<Rightarrow> err + gostr" where
  "moduleBytes lib path raw =
     (if pathExt path = ''.wasm'' then Inr raw
      else case hexDecode (trimSpace raw) of
        None \<Rightarrow> Inl (Err (''decode wasm module '' @ goQuote path @ '': '' @ alHexError lib (trimSpace raw)))
      | Some b \<Rightarrow> Inr b)"

definition readWASMModule :: "appLib \<Rightarrow> gostr \<Rightarrow> gostr \<Rightarrow> gostr aact" where
  "readWASMModule lib dir path =
     bindA (readFileA path) (\<lambda>a.
       case a of
         Contents raw \<Rightarrow> liftA (moduleBytes lib path raw)
       | NotExist \<Rightarrow> failA (notReady ''backend module'' dir)
       | ReadError e \<Rightarrow> failA (Err (''read wasm module '' @ goQuote path @ '': '' @ e)))"

definition isRegular :: "diskNode option \<Rightarrow> bool" where
  "isRegular n = (case n of Some (DiskFile c) \<Rightarrow> True | _ \<Rightarrow> False)"

definition appModuleForManifest ::
  "appLib \<Rightarrow> appConfig \<Rightarrow> gostr \<Rightarrow> manifest \<Rightarrow> bool \<Rightarrow> (generatedApp \<times> gostr) aact" where
  "appModuleForManifest lib cfg dir item requireDirID =
     bindA nowA (\<lambda>now.
     bindA (withTextA (''invalid generated app manifest '' @ goQuote dir @ '': '') (liftA (appFromManifest now item))) (\<lambda>app.
       if requireDirID \<and> pathBase dir \<noteq> gaUUID app
       then failA (Err (''generated app folder '' @ goQuote (pathBase dir) @ '' must match manifest id '' @ goQuote (gaUUID app)))
       else if mfTables item \<noteq> []
       then failA (Err ''legacy manifest DDL is not supported; declare dataModels instead'')
       else
         let modulePath = pathJoin [dir, gaBackendModule app] in
         bindA (statA modulePath) (\<lambda>node.
           if node = None then failA (answerErr modulePath NotExist)
           else if \<not> isRegular node then failA (Err ''backend module must be a regular file'')
           else
             bindA (readWASMModule lib dir modulePath) (\<lambda>bytes.
               if acMaxModuleBytes cfg > 0 \<and> int (length bytes) > acMaxModuleBytes cfg
               then failA (Err (''generated app '' @ goQuote (gaUUID app) @ '' module exceeds the size limit''))
               else retA (app, bytes)))))"

definition compileModule :: "appLib \<Rightarrow> generatedApp \<times> gostr \<Rightarrow> (generatedApp \<times> gostr) aact" where
  "compileModule lib m =
     bindA (withTextA (''compile generated app '' @ goQuote (gaUUID (fst m)) @ '': '') (liftA (alCompile lib (snd m)))) (\<lambda>_. retA m)"

definition loadAppForManifest ::
  "appLib \<Rightarrow> appConfig \<Rightarrow> gostr \<Rightarrow> manifest \<Rightarrow> bool \<Rightarrow> (generatedApp \<times> gostr) aact" where
  "loadAppForManifest lib cfg dir item requireDirID =
     bindA (appModuleForManifest lib cfg dir item requireDirID) (compileModule lib)"

text \<open>The validation compiles in a runtime of its own and keeps nothing.\<close>

definition validateAppForManifest ::
  "appLib \<Rightarrow> appConfig \<Rightarrow> gostr \<Rightarrow> manifest \<Rightarrow> bool \<Rightarrow> generatedApp aact" where
  "validateAppForManifest lib cfg dir item requireDirID =
     bindA (appModuleForManifest lib cfg dir item requireDirID) (\<lambda>m. bindA (compileModule lib m) (\<lambda>_. retA (fst m)))"

definition loadApp :: "appLib \<Rightarrow> appConfig \<Rightarrow> gostr \<Rightarrow> (generatedApp \<times> gostr) aact" where
  "loadApp lib cfg dir =
     bindA (readFileA (manifestFile dir)) (\<lambda>a.
       case a of
         NotExist \<Rightarrow> failA (notReady ''manifest'' dir)
       | ReadError e \<Rightarrow> failA (Err (''decode generated app manifest '' @ goQuote dir @ '': '' @ e))
       | Contents raw \<Rightarrow>
           bindA (withTextA (''decode generated app manifest '' @ goQuote dir @ '': '') (normalizedManifest lib (manifestFile dir) raw)) (\<lambda>item.
             loadAppForManifest lib cfg dir item True))"

definition loadPublishedApp :: "appLib \<Rightarrow> appConfig \<Rightarrow> gostr \<Rightarrow> (generatedApp \<times> gostr) aact" where
  "loadPublishedApp lib cfg dir =
     bindA (readFileA (manifestFile dir)) (\<lambda>a.
       case a of
         NotExist \<Rightarrow> failA (notReady ''manifest'' dir)
       | ReadError e \<Rightarrow> failA (Err (''decode published app manifest '' @ goQuote dir @ '': '' @ e))
       | Contents raw \<Rightarrow>
           bindA (withTextA (''decode published app manifest '' @ goQuote dir @ '': '') (immutableManifest lib (manifestFile dir) raw)) (\<lambda>(item, _).
             loadAppForManifest lib cfg dir item False))"

subsection \<open>Snapshots\<close>

record artifactSnapshot =
  asAppID :: gostr
  asSHA256 :: gostr
  asManifestJSON :: gostr

definition checkManifest :: "manifest \<Rightarrow> err + unit" where
  "checkManifest item =
     (if mfTables item \<noteq> [] then Inl (Err ''legacy manifest DDL is not supported; declare dataModels instead'')
      else validateCapabilities item)"

definition artifactSnapshotAt :: "appLib \<Rightarrow> appConfig \<Rightarrow> gostr \<Rightarrow> artifactSnapshot aact" where
  "artifactSnapshotAt lib cfg appDir =
     bindA (loadManifestFile lib (manifestFile appDir)) (\<lambda>item.
     bindA (liftA (checkManifest item)) (\<lambda>_.
     bindA (validateAppForManifest lib cfg appDir item True) (\<lambda>app.
     bindA (artifactFiles appDir (gaBackendModule app)) (\<lambda>files.
     bindA (readFiles appDir files) (\<lambda>contents.
     bindA (readFileE (manifestFile appDir)) (\<lambda>raw.
       retA \<lparr>asAppID = gaUUID app, asSHA256 = fingerprint lib contents, asManifestJSON = raw\<rparr>))))))"

definition publishedArtifactSnapshotAt :: "appLib \<Rightarrow> appConfig \<Rightarrow> gostr \<Rightarrow> artifactSnapshot aact" where
  "publishedArtifactSnapshotAt lib cfg appDir =
     bindA (loadImmutableManifest lib (manifestFile appDir)) (\<lambda>(item, raw).
     bindA (liftA (checkManifest item)) (\<lambda>_.
     bindA (validateAppForManifest lib cfg appDir item False) (\<lambda>app.
     bindA (artifactFiles appDir (gaBackendModule app)) (\<lambda>files.
     bindA (readFiles appDir files) (\<lambda>contents.
       retA \<lparr>asAppID = gaUUID app, asSHA256 = fingerprint lib contents, asManifestJSON = raw\<rparr>)))))"

definition ArtifactSnapshot :: "appLib \<Rightarrow> appConfig \<Rightarrow> gostr \<Rightarrow> artifactSnapshot aact" where
  "ArtifactSnapshot lib cfg given =
     (if \<not> generatedAppUUIDPattern (trimSpace given) then failA (Err ''invalid app id'')
      else artifactSnapshotAt lib cfg (pathJoin [acRoot cfg, trimSpace given]))"

definition PublishedArtifactSnapshot :: "appLib \<Rightarrow> appConfig \<Rightarrow> gostr \<Rightarrow> gostr \<Rightarrow> artifactSnapshot aact" where
  "PublishedArtifactSnapshot lib cfg givenID givenSHA =
     (let appID = trimSpace givenID; artifactSHA = trimSpace givenSHA in
      if \<not> generatedAppUUIDPattern appID \<or> \<not> artifactSHA256Pattern artifactSHA
      then failA (Err ''invalid published artifact reference'')
      else
        bindA (Store_Materialize cfg artifactSHA) (\<lambda>dir.
        bindA (publishedArtifactSnapshotAt lib cfg dir) (\<lambda>snapshot.
          if asAppID snapshot \<noteq> appID \<or> asSHA256 snapshot \<noteq> artifactSHA
          then failA (Err ''published artifact does not match its release'')
          else retA snapshot)))"

definition draftSourceFingerprint :: "appLib \<Rightarrow> appConfig \<Rightarrow> gostr \<Rightarrow> gostr aact" where
  "draftSourceFingerprint lib cfg appID =
     (let dir = pathJoin [acRoot cfg, appID] in
      bindA (loadManifestFile lib (manifestFile dir)) (\<lambda>item.
      bindA nowA (\<lambda>now.
      bindA (liftA (appFromManifest now item)) (\<lambda>app.
      bindA (artifactFiles dir (gaBackendModule app)) (\<lambda>files.
      bindA (readFiles dir files) (\<lambda>contents. retA (fingerprint lib contents)))))))"

subsection \<open>Loading\<close>

definition loadApproved :: "appLib \<Rightarrow> appConfig \<Rightarrow> gostr \<times> gostr \<Rightarrow> (gostr \<times> generatedApp \<times> gostr \<times> gostr) aact" where
  "loadApproved lib cfg approval =
     (case approval of (appID, hash) \<Rightarrow>
        bindA (withTextA (''materialize published artifact '' @ goQuote appID @ '': '') (Store_Materialize cfg hash)) (\<lambda>dir.
        bindA (withTextA (''validate published artifact '' @ goQuote appID @ '': '') (publishedArtifactSnapshotAt lib cfg dir)) (\<lambda>snapshot.
          if asAppID snapshot \<noteq> appID \<or> asSHA256 snapshot \<noteq> hash
          then failA (Err (''published artifact '' @ goQuote appID @ '' does not match its approved release''))
          else
            bindA (withTextA (''load published artifact '' @ goQuote appID @ '': '') (loadPublishedApp lib cfg dir)) (\<lambda>(app, compiled).
              retA (appID, app, compiled, dir)))))"

text \<open>
  The approvals, in the order in which Go ranges over them; \<open>rng\<close> is that of the range
  over the trimmed ones.
\<close>

definition approvedMap :: "(gostr \<times> gostr) list \<Rightarrow> (gostr \<times> gostr) list" where
  "approvedMap approvals = foldl (\<lambda>m (appID, sha). AList.update (trimSpace appID) (trimSpace sha) m) [] approvals"

definition approvalOk :: "gostr \<times> gostr \<Rightarrow> bool" where
  "approvalOk p \<longleftrightarrow> generatedAppUUIDPattern (trimSpace (fst p)) \<and> artifactSHA256Pattern (trimSpace (snd p))"

definition LoadApprovedArtifacts ::
  "appLib \<Rightarrow> appConfig \<Rightarrow> (gostr set \<Rightarrow> gostr list) \<Rightarrow> (gostr \<times> gostr) list \<Rightarrow> unit aact" where
  "LoadApprovedArtifacts lib cfg rng approvals =
     (if \<not> list_all approvalOk approvals then failA (Err ''invalid published artifact approval'')
      else
        bindA (mapA (\<lambda>appID. loadApproved lib cfg (appID, the (map_of (approvedMap approvals) appID)))
          (rng (fst ` set (approvedMap approvals)))) (\<lambda>loaded.
          updA (\<lambda>s. ((), s
            \<lparr>svApproved := map_of (approvedMap approvals),
             svApps := map_of (map (\<lambda>(appID, app, compiled, dir). (appID, app)) loaded),
             svCompiled := map_of (map (\<lambda>(appID, app, compiled, dir). (appID, compiled)) loaded),
             svActiveDirs := map_of (map (\<lambda>(appID, app, compiled, dir). (appID, dir)) loaded)\<rparr>))))"

definition HasApprovedArtifact :: "appRuntime \<Rightarrow> gostr \<Rightarrow> gostr \<Rightarrow> bool" where
  "HasApprovedArtifact s appID artifactSHA \<longleftrightarrow>
     svApps s appID \<noteq> None \<and> svCompiled s appID \<noteq> None \<and>
     (case svActiveDirs s appID of None \<Rightarrow> False | Some dir \<Rightarrow> dir \<noteq> []) \<and>
     (case svApproved s appID of None \<Rightarrow> [] | Some sha \<Rightarrow> sha) = artifactSHA"

definition LoadDraftApp :: "appLib \<Rightarrow> appConfig \<Rightarrow> gostr \<Rightarrow> generatedApp aact" where
  "LoadDraftApp lib cfg given =
     (let appID = trimSpace given; dir = pathJoin [acRoot cfg, appID] in
      if \<not> acDraft cfg then failA (Err ''draft runtime is not configured'')
      else if \<not> generatedAppUUIDPattern appID then failA ErrAppNotFound
      else
        bindA (draftSourceFingerprint lib cfg appID) (\<lambda>current.
        bindA (updA (\<lambda>s. ((svApps s appID, svCompiled s appID, svDraftHashes s appID), s))) (\<lambda>(cached, compiled, hash).
          if cached \<noteq> None \<and> compiled \<noteq> None \<and> hash = Some current then retA (the cached)
          else
            bindA (ArtifactSnapshot lib cfg appID) (\<lambda>snapshot.
            bindA (loadApp lib cfg dir) (\<lambda>(app, bytes).
            bindA (updA (\<lambda>s. ((), s
              \<lparr>svApps := (svApps s)(appID \<mapsto> app), svCompiled := (svCompiled s)(appID \<mapsto> bytes),
               svActiveDirs := (svActiveDirs s)(appID \<mapsto> dir), svDraftHashes := (svDraftHashes s)(appID \<mapsto> asSHA256 snapshot)\<rparr>))) (\<lambda>_.
              retA app))))))"

subsection \<open>Promotion\<close>

definition bundleOf :: "appLib \<Rightarrow> appConfig \<Rightarrow> gostr \<Rightarrow> artifactSnapshot \<Rightarrow> artifactBundle aact" where
  "bundleOf lib cfg appID snapshot =
     (let source = pathJoin [acRoot cfg, appID] in
      bindA (loadManifestFile lib (manifestFile source)) (\<lambda>item.
      bindA nowA (\<lambda>now.
      bindA (liftA (appFromManifest now item)) (\<lambda>app.
      bindA (artifactFiles source (gaBackendModule app)) (\<lambda>files.
      bindA (readFiles source files) (\<lambda>contents.
        retA \<lparr>abSHA256 = asSHA256 snapshot,
              abFiles = map (\<lambda>(f, c). (f, if f = ''manifest.json'' then asManifestJSON snapshot else c)) contents\<rparr>))))))"

definition PromoteArtifact :: "appLib \<Rightarrow> appConfig \<Rightarrow> gostr \<Rightarrow> gostr \<Rightarrow> unit aact" where
  "PromoteArtifact lib cfg appID expectedSHA =
     bindA (ArtifactSnapshot lib cfg appID) (\<lambda>snapshot.
       if asSHA256 snapshot \<noteq> trimSpace expectedSHA then failA (Err ''artifact changed before promotion'')
       else
         bindA (bundleOf lib cfg appID snapshot) (\<lambda>ab.
         bindA (Store_Promote lib cfg ab) (\<lambda>_.
         voidA (PublishedArtifactSnapshot lib cfg appID (asSHA256 snapshot)))))"

subsection \<open>The frontend\<close>

definition FrontendCode :: "gostr \<Rightarrow> gostr \<Rightarrow> gostr aact" where
  "FrontendCode appID requestedPath =
     bindA (updA (\<lambda>s. ((svApps s appID, svActiveDirs s appID), s))) (\<lambda>(found, active).
       case (found, active) of
         (Some app, Some appDir) \<Rightarrow>
           (if appDir = [] then failA ErrAppNotFound
            else
              bindA (liftA (safeFrontendFilePath appDir
                (if trimSpace requestedPath \<noteq> [] then requestedPath else frontendFileFromEntry (gaFrontendEntry app)))) (\<lambda>path.
              withTextA (''read frontend code '' @ goQuote path @ '': '') (readFileE path)))
       | _ \<Rightarrow> failA ErrAppNotFound)"

definition isModuleFile :: "generatedApp \<Rightarrow> gostr \<Rightarrow> bool" where
  "isModuleFile app f \<longleftrightarrow> f \<noteq> ''manifest.json'' \<and> f \<noteq> gaBackendModule app \<and> pathExt f = ''.js''"

text \<open>The version, the entry and the modules.\<close>

definition FrontendBundle :: "appConfig \<Rightarrow> gostr \<Rightarrow> (gostr \<times> gostr \<times> (gostr \<times> gostr) list) aact" where
  "FrontendBundle cfg given =
     (let appID = trimSpace given in
      bindA (updA (\<lambda>s. ((svApps s appID, svActiveDirs s appID,
          if acDraft cfg then svDraftHashes s appID else svApproved s appID), s))) (\<lambda>(found, active, version).
       case (found, active) of
         (Some app, Some appDir) \<Rightarrow>
           (if appDir = [] then failA ErrAppNotFound
            else
              bindA (artifactFiles appDir (gaBackendModule app)) (\<lambda>files.
              bindA (readFiles appDir (filter (isModuleFile app) files)) (\<lambda>modules.
                let entry = frontendFileFromEntry (gaFrontendEntry app) in
                if map_of modules entry = None then failA (Err ''generated app not ready'')
                else retA (case version of None \<Rightarrow> [] | Some v \<Rightarrow> v, entry, modules))))
       | _ \<Rightarrow> failA ErrAppNotFound))"

end
