(* ===== verification/App_Logs.thy ===== *)
theory App_Logs
  imports Go_Base
begin

text \<open>
  The log of one run of a generated application
  (\<^verbatim>\<open>executionLogCollector\<close> in
  \<^verbatim>\<open>func-operation/internal/runtime/generatedapp/service.go\<close>): the guest writes
  chunks of bytes to its output streams, the collector cuts them into lines, stops at a budget of
  bytes, and hands every complete line to an observer.

  Each method holds the mutex of the collector, so it is one function on its state.  The clock
  reading of the entry number \<open>k\<close> is \<open>clk k\<close>, for any \<open>clk\<close>; so the times of two runs
  are compared entry by entry, and not by when the chunks were written.
\<close>

record logEvent =
  leStream :: gostr
  leContent :: gostr
  leTimestamp :: int

record logCollector =
  lcRemaining :: int
  lcEntries :: "logEvent list"
  lcPending :: "gostr \<rightharpoonup> gostr"
  lcStreamOrder :: "gostr list"
  lcTruncated :: bool

abbreviation newline :: char where "newline \<equiv> CHR 0x0A"

definition trimCR :: "gostr \<Rightarrow> gostr" where
  "trimCR s = (if s \<noteq> [] \<and> last s = CHR 0x0D then butlast s else s)"

definition newExecutionLogCollector :: "int \<Rightarrow> logCollector" where
  "newExecutionLogCollector limit =
     \<lparr>lcRemaining = limit, lcEntries = [], lcPending = Map.empty, lcStreamOrder = [], lcTruncated = False\<rparr>"

lemma cutAt_shorter: "cutAt c s = Some (a, b) \<Longrightarrow> length b < length s"
  by (induction s arbitrary: a) (fastforce split: if_splits option.splits)+

definition eventOf :: "(nat \<Rightarrow> int) \<Rightarrow> gostr \<Rightarrow> logEvent list \<Rightarrow> gostr \<Rightarrow> logEvent" where
  "eventOf clk stream entries line =
     \<lparr>leStream = stream, leContent = trimCR line, leTimestamp = clk (length entries)\<rparr>"

text \<open>The loop of \<^verbatim>\<open>drainLinesLocked\<close>: the entries after it and the rest of the text.\<close>

function drainFrom :: "(nat \<Rightarrow> int) \<Rightarrow> gostr \<Rightarrow> logEvent list \<Rightarrow> gostr \<Rightarrow> logEvent list \<times> gostr" where
  "drainFrom clk stream entries content =
     (case cutAt newline content of
        None \<Rightarrow> (entries, content)
      | Some (line, rest) \<Rightarrow> drainFrom clk stream (entries @ [eventOf clk stream entries line]) rest)"
  by pat_completeness auto
termination
  by (relation "measure (\<lambda>(clk, stream, entries, content). length content)") (auto dest: cutAt_shorter)

declare drainFrom.simps [simp del]

definition pendingOf :: "logCollector \<Rightarrow> gostr \<Rightarrow> gostr" where
  "pendingOf c stream = (case lcPending c stream of None \<Rightarrow> [] | Some s \<Rightarrow> s)"

definition drainLinesLocked :: "(nat \<Rightarrow> int) \<Rightarrow> gostr \<Rightarrow> logCollector \<Rightarrow> logEvent list \<times> logCollector" where
  "drainLinesLocked clk stream c =
     (case drainFrom clk stream (lcEntries c) (pendingOf c stream) of
        (entries, rest) \<Rightarrow>
          (drop (length (lcEntries c)) entries,
           c\<lparr>lcEntries := entries, lcPending := (lcPending c)(stream \<mapsto> rest)\<rparr>))"

text \<open>The events are what the observer is then called with, in this order.\<close>

definition Log_Append :: "(nat \<Rightarrow> int) \<Rightarrow> gostr \<Rightarrow> gostr \<Rightarrow> logCollector \<Rightarrow> logEvent list \<times> logCollector" where
  "Log_Append clk stream content c =
     (if content = [] then ([], c)
      else if lcRemaining c \<le> 0 then ([], c\<lparr>lcTruncated := True\<rparr>)
      else
        let over = int (length content) > lcRemaining c;
            kept = (if over then take (nat (lcRemaining c)) content else content);
            c1 = c\<lparr>lcTruncated := lcTruncated c \<or> over, lcRemaining := lcRemaining c - int (length kept)\<rparr>;
            c2 = (if lcPending c1 stream = None then c1\<lparr>lcStreamOrder := lcStreamOrder c1 @ [stream]\<rparr> else c1);
            c3 = c2\<lparr>lcPending := (lcPending c2)(stream \<mapsto> pendingOf c2 stream @ kept)\<rparr>
        in drainLinesLocked clk stream c3)"

definition Log_Emit :: "(nat \<Rightarrow> int) \<Rightarrow> gostr \<Rightarrow> gostr \<Rightarrow> logCollector \<Rightarrow> logEvent list \<times> logCollector" where
  "Log_Emit clk stream content c = Log_Append clk stream (content @ [newline]) c"

fun flushStreams :: "(nat \<Rightarrow> int) \<Rightarrow> gostr list \<Rightarrow> logCollector \<Rightarrow> logCollector" where
  "flushStreams clk [] c = c"
| "flushStreams clk (s # ss) c =
     (if pendingOf c s = [] then flushStreams clk ss c
      else flushStreams clk ss
        (c\<lparr>lcEntries := lcEntries c @ [eventOf clk s (lcEntries c) (pendingOf c s)],
           lcPending := (lcPending c)(s \<mapsto> [])\<rparr>))"

text \<open>The entries, whether any were cut off, and the events of the unfinished lines.\<close>

definition Log_Entries :: "(nat \<Rightarrow> int) \<Rightarrow> logCollector \<Rightarrow> (logEvent list \<times> bool \<times> logEvent list) \<times> logCollector" where
  "Log_Entries clk c =
     (let c1 = flushStreams clk (lcStreamOrder c) c in
      ((lcEntries c1, lcTruncated c1, drop (length (lcEntries c)) (lcEntries c1)), c1))"

definition maxServerLogEventBytes :: nat where "maxServerLogEventBytes = 4096"

text \<open>The line that \<^verbatim>\<open>logExecutionEvent\<close> writes to the server log, and whether it is an error.\<close>

definition serverLogLine :: "gostr \<Rightarrow> gostr option" where
  "serverLogLine content =
     (let message = trimCR content in
      if trimSpace message = [] then None
      else Some (if length message > maxServerLogEventBytes
                 then take maxServerLogEventBytes message @ '' [truncated]'' else message))"

definition isWASMErrorLog :: "gostr \<Rightarrow> gostr \<Rightarrow> bool" where
  "isWASMErrorLog stream message \<longleftrightarrow> stream = ''stderr'' \<and>
     (let normalized = toLower (trimSpace message) in
      contains normalized ''panic:'' \<or> hasPrefix normalized ''[error]'' \<or> hasPrefix normalized ''error:'' \<or>
      hasPrefix normalized ''[fatal]'' \<or> hasPrefix normalized ''fatal:'')"

subsection \<open>Chunks do not matter\<close>

lemma cutAt_append:
  "cutAt c (s @ t) = (case cutAt c s of
     Some (a, b) \<Rightarrow> Some (a, b @ t)
   | None \<Rightarrow> (case cutAt c t of None \<Rightarrow> None | Some (a, b) \<Rightarrow> Some (s @ a, b)))"
  by (induction s) (auto split: option.splits)

lemma drainFrom_append:
  "drainFrom clk stream entries (s @ t) =
     (case drainFrom clk stream entries s of (e1, rest) \<Rightarrow> drainFrom clk stream e1 (rest @ t))"
proof (induction clk stream entries s rule: drainFrom.induct)
  case (1 clk stream entries content)
  show ?case
  proof (cases "cutAt newline content")
    case None
    then show ?thesis by (simp add: drainFrom.simps [of clk stream entries content])
  next
    case (Some p)
    obtain a b where p: "p = (a, b)" by (cases p)
    have "drainFrom clk stream entries (content @ t) =
        drainFrom clk stream (entries @ [eventOf clk stream entries a]) (b @ t)"
      using Some p by (subst drainFrom.simps) (simp add: cutAt_append)
    moreover have "drainFrom clk stream entries content = drainFrom clk stream (entries @ [eventOf clk stream entries a]) b"
      using Some p by (subst drainFrom.simps) simp
    ultimately show ?thesis using 1 [OF Some p [symmetric]] by simp
  qed
qed

lemma drainFrom_extends: "drainFrom clk stream entries s = (e, r) \<Longrightarrow> \<exists>new. e = entries @ new"
proof (induction clk stream entries s arbitrary: e r rule: drainFrom.induct)
  case (1 clk stream entries content)
  then show ?case
    by (subst (asm) drainFrom.simps [of clk stream entries content]) (fastforce split: option.splits prod.splits)
qed

abbreviation logged :: "(nat \<Rightarrow> int) \<Rightarrow> gostr \<Rightarrow> gostr \<Rightarrow> logCollector \<Rightarrow> logCollector" where
  "logged clk stream content c \<equiv> snd (Log_Append clk stream content c)"

text \<open>What an append keeps of its text, and what it does with it.\<close>

lemma logged_within:
  assumes "content \<noteq> []" and "int (length content) \<le> lcRemaining c"
  shows "logged clk stream content c =
    (case drainFrom clk stream (lcEntries c) (pendingOf c stream @ content) of (entries, rest) \<Rightarrow>
       c\<lparr>lcEntries := entries, lcPending := (lcPending c)(stream \<mapsto> rest),
         lcRemaining := lcRemaining c - int (length content),
         lcStreamOrder := lcStreamOrder c @ (if lcPending c stream = None then [stream] else [])\<rparr>)"
proof -
  have "\<not> lcRemaining c \<le> 0" using assms by (cases content) auto
  then show ?thesis
    using assms by (auto simp: Log_Append_def Let_def drainLinesLocked_def pendingOf_def split: prod.splits)
qed

lemma logged_over:
  assumes "int (length content) > lcRemaining c" and "content \<noteq> []"
  shows "logged clk stream content c =
    (logged clk stream (take (nat (lcRemaining c)) content) c)\<lparr>lcTruncated := True\<rparr>"
proof (cases "lcRemaining c \<le> 0")
  case True
  then show ?thesis using assms by (auto simp: Log_Append_def)
next
  case False
  let ?kept = "take (nat (lcRemaining c)) content"
  have kept: "?kept \<noteq> []" "int (length ?kept) = lcRemaining c" using False assms by (auto simp: min_def)
  show ?thesis
    using assms False kept by (auto simp: Log_Append_def Let_def drainLinesLocked_def pendingOf_def split: prod.splits)
qed

lemma logged_empty [simp]: "logged clk stream [] c = c"
  by (simp add: Log_Append_def)

lemma logged_full: "lcRemaining c \<le> 0 \<Longrightarrow> content \<noteq> [] \<Longrightarrow> logged clk stream content c = c\<lparr>lcTruncated := True\<rparr>"
  by (simp add: Log_Append_def)

lemma logged_remaining:
  "content \<noteq> [] \<Longrightarrow> int (length content) \<le> lcRemaining c \<Longrightarrow>
     lcRemaining (logged clk stream content c) = lcRemaining c - int (length content)"
  by (simp add: logged_within split: prod.splits)

lemma logged_append_within:
  assumes "int (length (a @ b)) \<le> lcRemaining c"
  shows "logged clk stream b (logged clk stream a c) = logged clk stream (a @ b) c"
proof (cases "a = [] \<or> b = []")
  case False
  obtain e1 r1 where d1: "drainFrom clk stream (lcEntries c) (pendingOf c stream @ a) = (e1, r1)" by fastforce
  obtain e2 r2 where d2: "drainFrom clk stream e1 (r1 @ b) = (e2, r2)" by fastforce
  have both: "drainFrom clk stream (lcEntries c) (pendingOf c stream @ a @ b) = (e2, r2)"
    using drainFrom_append [of clk stream "lcEntries c" "pendingOf c stream @ a" b] d1 d2 by simp
  have a: "logged clk stream a c = c\<lparr>lcEntries := e1, lcPending := (lcPending c)(stream \<mapsto> r1),
      lcRemaining := lcRemaining c - int (length a),
      lcStreamOrder := lcStreamOrder c @ (if lcPending c stream = None then [stream] else [])\<rparr>"
    using assms False d1 by (subst logged_within) auto
  have "int (length b) \<le> lcRemaining (logged clk stream a c)" using assms a by simp
  then have "logged clk stream b (logged clk stream a c) = c\<lparr>lcEntries := e2, lcPending := (lcPending c)(stream \<mapsto> r2),
      lcRemaining := lcRemaining c - int (length (a @ b)),
      lcStreamOrder := lcStreamOrder c @ (if lcPending c stream = None then [stream] else [])\<rparr>"
    using False d2 by (subst logged_within) (auto simp: a pendingOf_def)
  moreover have "logged clk stream (a @ b) c = c\<lparr>lcEntries := e2, lcPending := (lcPending c)(stream \<mapsto> r2),
      lcRemaining := lcRemaining c - int (length (a @ b)),
      lcStreamOrder := lcStreamOrder c @ (if lcPending c stream = None then [stream] else [])\<rparr>"
    using assms False both by (subst logged_within) auto
  ultimately show ?thesis by simp
qed auto

lemma logged_truncated: "logged clk stream content (c\<lparr>lcTruncated := True\<rparr>) = (logged clk stream content c)\<lparr>lcTruncated := True\<rparr>"
  by (auto simp: Log_Append_def Let_def drainLinesLocked_def pendingOf_def split: prod.splits)

lemma logged_append:
  assumes "0 \<le> lcRemaining c"
  shows "logged clk stream b (logged clk stream a c) = logged clk stream (a @ b) c"
proof (cases "int (length (a @ b)) \<le> lcRemaining c")
  case True
  then show ?thesis by (rule logged_append_within)
next
  case over: False
  show ?thesis
  proof (cases "a = [] \<or> b = []")
    case False
    let ?r = "nat (lcRemaining c)"
    show ?thesis
    proof (cases "int (length a) \<le> lcRemaining c")
      case True
      have rem: "lcRemaining (logged clk stream a c) = lcRemaining c - int (length a)"
        using True False by (simp add: logged_remaining)
      have "logged clk stream b (logged clk stream a c) =
          (logged clk stream (take (nat (lcRemaining c - int (length a))) b) (logged clk stream a c))\<lparr>lcTruncated := True\<rparr>"
        using over False rem by (subst logged_over) auto
      also have "\<dots> = (logged clk stream (a @ take (nat (lcRemaining c - int (length a))) b) c)\<lparr>lcTruncated := True\<rparr>"
        using True by (subst logged_append_within) auto
      also have "a @ take (nat (lcRemaining c - int (length a))) b = take ?r (a @ b)"
        using True by (simp add: nat_diff_distrib')
      finally show ?thesis using over False by (subst (asm) logged_over [of c "a @ b", symmetric]) auto
    next
      case a: False
      have "logged clk stream a c = (logged clk stream (take ?r a) c)\<lparr>lcTruncated := True\<rparr>"
        using a False by (subst logged_over) auto
      moreover have "logged clk stream (a @ b) c = (logged clk stream (take ?r a) c)\<lparr>lcTruncated := True\<rparr>"
        using a over False by (subst logged_over) auto
      moreover have "lcRemaining (logged clk stream (take ?r a) c) \<le> 0"
        using a assms by (cases "take ?r a = []") (auto simp: logged_remaining)
      ultimately show ?thesis using False by (simp add: logged_full)
    qed
  qed auto
qed

lemma logged_nonneg: "0 \<le> lcRemaining c \<Longrightarrow> 0 \<le> lcRemaining (logged clk stream content c)"
  by (auto simp: Log_Append_def Let_def drainLinesLocked_def split: prod.splits)

text \<open>
  C28: it does not matter into which chunks the guest cuts what it writes to a stream: the entries,
  the unfinished line, the bytes left and the mark of truncation are those of one write of the
  whole text.
\<close>

theorem log_chunks_irrelevant:
  assumes "0 \<le> lcRemaining c"
  shows "foldl (\<lambda>c chunk. snd (Log_Append clk stream chunk c)) c chunks = snd (Log_Append clk stream (concat chunks) c)"
  using assms
proof (induction chunks arbitrary: c)
  case (Cons chunk chunks)
  then show ?case using logged_append [OF Cons.prems] logged_nonneg [OF Cons.prems] by simp
qed simp

subsection \<open>The budget\<close>

definition entryBytes :: "logEvent list \<Rightarrow> nat" where
  "entryBytes es = sum_list (map (\<lambda>e. length (leContent e)) es)"

definition pendingBytes :: "logCollector \<Rightarrow> nat" where
  "pendingBytes c = (\<Sum>s \<in> set (lcStreamOrder c). length (pendingOf c s))"

definition withinBudget :: "int \<Rightarrow> logCollector \<Rightarrow> bool" where
  "withinBudget limit c \<longleftrightarrow> distinct (lcStreamOrder c) \<and> dom (lcPending c) = set (lcStreamOrder c) \<and>
     int (entryBytes (lcEntries c) + pendingBytes c) + max 0 (lcRemaining c) \<le> limit"

lemma entryBytes_append [simp]: "entryBytes (es @ fs) = entryBytes es + entryBytes fs"
  by (simp add: entryBytes_def)

lemma cutAt_parts: "cutAt c s = Some (a, b) \<Longrightarrow> s = a @ c # b"
  by (induction s arbitrary: a) (auto split: if_splits option.splits)

lemma entryBytes_event: "entryBytes [eventOf clk stream entries line] \<le> length line"
  by (simp add: entryBytes_def eventOf_def trimCR_def)

lemma drainFrom_bytes:
  "drainFrom clk stream entries s = (e, r) \<Longrightarrow> entryBytes e + length r \<le> entryBytes entries + length s"
proof (induction clk stream entries s arbitrary: e r rule: drainFrom.induct)
  case (1 clk stream entries content)
  show ?case
  proof (cases "cutAt newline content")
    case None
    then show ?thesis using 1(2) by (simp add: drainFrom.simps [of clk stream entries content])
  next
    case (Some p)
    obtain a b where p: "p = (a, b)" by (cases p)
    have "drainFrom clk stream (entries @ [eventOf clk stream entries a]) b = (e, r)"
      using 1(2) Some p by (subst (asm) drainFrom.simps) simp
    then have "entryBytes e + length r \<le> entryBytes entries + length a + length b"
      using 1(1) [OF Some p [symmetric], of e r] entryBytes_event [of clk stream entries a] by simp
    then show ?thesis using cutAt_parts [of newline content a b] Some p by simp
  qed
qed

lemma pendingBytes_update:
  assumes "distinct (lcStreamOrder c)" and "dom (lcPending c) = set (lcStreamOrder c)"
    and "lcPending c' = (lcPending c)(stream \<mapsto> t)" and "set (lcStreamOrder c') = insert stream (set (lcStreamOrder c))"
  shows "pendingBytes c' + length (pendingOf c stream) = pendingBytes c + length t"
proof -
  let ?S = "set (lcStreamOrder c) - {stream}"
  have "pendingBytes c' = length t + (\<Sum>s \<in> ?S. length (pendingOf c s))"
    unfolding pendingBytes_def assms(4) using assms(3) by (simp add: sum.insert_remove pendingOf_def)
  moreover have "pendingBytes c = length (pendingOf c stream) + (\<Sum>s \<in> ?S. length (pendingOf c s))"
  proof (cases "stream \<in> set (lcStreamOrder c)")
    case False
    then have "pendingOf c stream = []" using assms(2) by (auto simp: pendingOf_def split: option.split)
    then show ?thesis using False by (simp add: pendingBytes_def)
  qed (simp add: pendingBytes_def sum.remove)
  ultimately show ?thesis by simp
qed

lemma logged_budget:
  assumes "withinBudget limit c"
  shows "withinBudget limit (logged clk stream content c)"
proof -
  have fit: "withinBudget limit (logged clk stream t c)" if t: "t \<noteq> []" "int (length t) \<le> lcRemaining c" for t
  proof -
    obtain e r where d: "drainFrom clk stream (lcEntries c) (pendingOf c stream @ t) = (e, r)" by fastforce
    let ?c = "logged clk stream t c"
    have c: "?c = c\<lparr>lcEntries := e, lcPending := (lcPending c)(stream \<mapsto> r), lcRemaining := lcRemaining c - int (length t),
        lcStreamOrder := lcStreamOrder c @ (if lcPending c stream = None then [stream] else [])\<rparr>"
      using d t by (simp add: logged_within)
    have dom: "stream \<in> set (lcStreamOrder c) \<longleftrightarrow> lcPending c stream \<noteq> None"
      using assms by (auto simp: withinBudget_def)
    have "pendingBytes ?c + length (pendingOf c stream) = pendingBytes c + length r"
      by (rule pendingBytes_update) (use assms dom in \<open>auto simp: withinBudget_def c\<close>)
    moreover have "entryBytes e + length r \<le> entryBytes (lcEntries c) + length (pendingOf c stream) + length t"
      using drainFrom_bytes [OF d] by simp
    ultimately show ?thesis
      using assms dom t(2) by (auto simp: withinBudget_def c)
  qed
  have mark: "withinBudget limit (d\<lparr>lcTruncated := True\<rparr>)" if "withinBudget limit d" for d
    using that by (simp add: withinBudget_def pendingBytes_def pendingOf_def)
  show ?thesis
  proof (cases "content = []")
    case False
    show ?thesis
    proof (cases "int (length content) \<le> lcRemaining c")
      case le: False
      let ?t = "take (nat (lcRemaining c)) content"
      have "withinBudget limit (logged clk stream ?t c)"
        using fit [of ?t] assms le by (cases "?t = []") (auto simp: min_def)
      then show ?thesis using mark le False by (subst logged_over) auto
    qed (use fit False in blast)
  qed (simp add: assms)
qed

lemma flushStreams_budget:
  "distinct ss \<Longrightarrow> set ss \<subseteq> set (lcStreamOrder c) \<Longrightarrow> withinBudget limit c \<Longrightarrow> withinBudget limit (flushStreams clk ss c)"
proof (induction ss arbitrary: c)
  case (Cons s ss)
  let ?c = "c\<lparr>lcEntries := lcEntries c @ [eventOf clk s (lcEntries c) (pendingOf c s)], lcPending := (lcPending c)(s \<mapsto> [])\<rparr>"
  have "pendingBytes ?c + length (pendingOf c s) = pendingBytes c + length ([] :: gostr)"
    by (rule pendingBytes_update) (use Cons.prems in \<open>auto simp: withinBudget_def\<close>)
  then have "withinBudget limit ?c"
    using Cons.prems entryBytes_event [of clk s "lcEntries c" "pendingOf c s"] by (auto simp: withinBudget_def)
  then show ?case using Cons by simp
qed simp

lemma budget_entries: "withinBudget limit c \<Longrightarrow> int (entryBytes (lcEntries c)) \<le> limit"
  by (auto simp: withinBudget_def)

text \<open>
  C29: whatever a run writes to its streams, in whatever order, its entries hold at most as many
  bytes as the limit of the collector.
\<close>

theorem logs_bounded:
  assumes "0 \<le> limit"
  shows "int (entryBytes (fst (fst (Log_Entries clk
      (foldl (\<lambda>c (stream, chunk). snd (Log_Append clk stream chunk c)) (newExecutionLogCollector limit) writes))))) \<le> limit"
proof -
  have run: "withinBudget limit c \<Longrightarrow> withinBudget limit (foldl (\<lambda>c (stream, chunk). logged clk stream chunk c) c ws)" for c ws
    by (induction ws arbitrary: c) (auto simp: logged_budget)
  have "withinBudget limit (newExecutionLogCollector limit)"
    using assms by (simp add: withinBudget_def newExecutionLogCollector_def entryBytes_def pendingBytes_def)
  note end_of_run = run [OF this, of writes]
  then have "distinct (lcStreamOrder (foldl (\<lambda>c (stream, chunk). logged clk stream chunk c) (newExecutionLogCollector limit) writes))"
    by (simp add: withinBudget_def)
  from budget_entries [OF flushStreams_budget [OF this subset_refl end_of_run]] show ?thesis
    by (simp add: Log_Entries_def Let_def)
qed

theorem logs_bounded_witness:
  "int (entryBytes (fst (fst (Log_Entries (\<lambda>n. int n)
      (foldl (\<lambda>c (stream, chunk). snd (Log_Append (\<lambda>n. int n) stream chunk c)) (newExecutionLogCollector 4)
         [(''stdout'', ''ab''), (''stderr'', ''cdef'')]))))) \<le> 4"
  by (rule logs_bounded) simp

theorem log_chunks_irrelevant_witness:
  "foldl (\<lambda>c chunk. snd (Log_Append (\<lambda>n. int n) ''stdout'' chunk c)) (newExecutionLogCollector 4) [''ab'', [newline], ''cd''] =
   snd (Log_Append (\<lambda>n. int n) ''stdout'' (concat [''ab'', [newline], ''cd'']) (newExecutionLogCollector 4))"
  by (rule log_chunks_irrelevant) (simp add: newExecutionLogCollector_def)

end
