(* ===== verification/App_Host.thy ===== *)
theory App_Host
  imports App_Runtime App_Logs Go_Text
begin

text \<open>
  A run of a generated application: what the module may ask of its host
  (\<^verbatim>\<open>func-operation/internal/runtime/generatedapp/host.go\<close>) and the invocation
  around it (\<^verbatim>\<open>InvokeWithObserver\<close> in \<^verbatim>\<open>service.go\<close>).

  The module itself is generated code.  A piece of it is a tree of all it may do: write to its
  output, call a function of the host and go on with the answer, return, or trap, which also stands
  for the end of its time.  The arguments of a call are the bytes at the address that it passes,
  \<open>None\<close> when they are outside its memory.
\<close>

subsection \<open>Parameters\<close>

record capabilityCallRequest =
  crAppID :: gostr
  crCapability :: gostr
  crParams :: dataRecord

text \<open>What is handed to \<^verbatim>\<open>json.Marshal\<close>.\<close>

datatype hostPayload =
    PayloadError gostr
  | PayloadRows dataListResult
  | PayloadRecord dataRecord
  | PayloadWrite dataWriteResult
  | PayloadAny dataValue

record hostJson =
  hjList :: "gostr \<Rightarrow> err + dataListRequest"
  hjJoin :: "gostr \<Rightarrow> err + dataJoinRequest"
  hjRun :: "gostr \<Rightarrow> err + dataRunQueryRequest"
  hjGet :: "gostr \<Rightarrow> err + dataGetRequest"
  hjWrite :: "gostr \<Rightarrow> err + dataWriteRequest"
  hjCapability :: "gostr \<Rightarrow> err + capabilityCallRequest"
  hjApi :: "gostr \<Rightarrow> err + gostr \<times> gostr"
  hjValid :: "gostr \<Rightarrow> bool"
  hjResponse :: "gostr \<Rightarrow> (bool \<times> gostr) option"
  hjAction :: "gostr \<Rightarrow> gostr option"
  hjMarshal :: "hostPayload \<Rightarrow> gostr option"

text \<open>
  \<open>heGate\<close> is the check of \<^verbatim>\<open>CallCapability\<close> in the function service that the
  target is published and the user may use it, here any function, so that what is proved of a run
  holds whatever it answers (the check itself reads the tables of functions, which the service of
  the applications does not hold: \<open>checkCallCapability\<close> in \<open>App_Access\<close>); \<open>heOther\<close> what a draft gets, whose calls are
  answered by the published runtime; \<open>heApi\<close> calls a declared external API, given the key and
  the raw request.  The ranges are those of the maps in the checks of a record, \<open>heClock\<close> the
  clock of the log.
\<close>

record hostEnv =
  heLib :: appLib
  heCfg :: appConfig
  heJson :: hostJson
  heHasBroker :: bool
  heGate :: "gostr \<Rightarrow> capabilityCallRequest \<Rightarrow> err + unit"
  heOther :: "gostr \<Rightarrow> capabilityCallRequest \<Rightarrow> err + dataListResult"
  heApi :: "(gostr \<Rightarrow> gostr \<Rightarrow> gostr \<Rightarrow> err + dataValue) option"
  heRangeF :: "gostr set \<Rightarrow> gostr list"
  heRangeI :: "gostr set \<Rightarrow> gostr list"
  heClock :: "nat \<Rightarrow> int"

text \<open>The values that an invocation puts into its context.\<close>

record callContext =
  ccApp :: gostr
  ccInvocation :: u64
  ccAction :: gostr
  ccPrivileged :: "gostr option"

record hostState =
  hsRuntime :: appRuntime
  hsLogs :: logCollector

type_synonym 'a hact = "(hostState, 'a) act"

definition serviceA :: "'a aact \<Rightarrow> 'a hact" where
  "serviceA m = zoomA hsRuntime (\<lambda>r s. s\<lparr>hsRuntime := r\<rparr>) m"

definition dataA :: "'a dact \<Rightarrow> 'a aact" where
  "dataA m = zoomA svData (\<lambda>d s. s\<lparr>svData := d\<rparr>) m"

definition logA :: "(logCollector \<Rightarrow> logEvent list \<times> logCollector) \<Rightarrow> unit hact" where
  "logA f = updA (\<lambda>s. ((), s\<lparr>hsLogs := snd (f (hsLogs s))\<rparr>))"

subsection \<open>Log lines\<close>

definition emitRuntimeLog :: "hostEnv \<Rightarrow> gostr \<Rightarrow> unit hact" where
  "emitRuntimeLog env content =
     (if trimSpace content \<noteq> [] then logA (Log_Emit (heClock env) ''runtime'' content) else retA ())"

definition plainLogChar :: "gostr \<Rightarrow> gostr" where
  "plainLogChar rn =
     (case rn of
        [c] \<Rightarrow> (if asciiLetter c \<or> asciiDigit c \<or> c \<in> {CHR ''_'', CHR ''-'', CHR ''.'', CHR '':''} then [c] else ''_'')
      | _ \<Rightarrow> ''_'')"

definition runtimeLogValue :: "gostr \<Rightarrow> gostr" where
  "runtimeLogValue given =
     (let v = trimSpace given in
      if v = [] then ''unknown'' else concat (map plainLogChar (runes v)))"

definition runtimeLogAction :: "callContext \<Rightarrow> gostr" where
  "runtimeLogAction ctx = runtimeLogValue (ccAction ctx)"

definition millisSince :: "int \<Rightarrow> int \<Rightarrow> gostr" where
  "millisSince startedAt now = decimal (nat ((now - startedAt) div 1000000))"

definition operationText :: "callContext \<Rightarrow> gostr \<Rightarrow> gostr \<Rightarrow> gostr \<Rightarrow> gostr" where
  "operationText ctx op kind target =
     '' action='' @ runtimeLogAction ctx @ '' operation='' @ runtimeLogValue op @ '' '' @ runtimeLogValue kind @ ''='' @
     runtimeLogValue target"

definition logDataOperationStart :: "hostEnv \<Rightarrow> callContext \<Rightarrow> gostr \<Rightarrow> gostr \<Rightarrow> gostr \<Rightarrow> int hact" where
  "logDataOperationStart env ctx op kind target =
     bindA timeNowA (\<lambda>startedAt.
     bindA (emitRuntimeLog env (''INFO'' @ operationText ctx op kind target @ '' phase=start'')) (\<lambda>_. retA startedAt))"

definition logDataOperationSuccess :: "hostEnv \<Rightarrow> callContext \<Rightarrow> gostr \<Rightarrow> gostr \<Rightarrow> gostr \<Rightarrow> int \<Rightarrow> gostr \<Rightarrow> unit hact" where
  "logDataOperationSuccess env ctx op kind target startedAt result =
     bindA timeNowA (\<lambda>now.
       emitRuntimeLog env (''INFO'' @ operationText ctx op kind target @ '' result=success '' @ result @
         '' duration_ms='' @ millisSince startedAt now))"

definition logDataOperationFailure :: "hostEnv \<Rightarrow> callContext \<Rightarrow> gostr \<Rightarrow> gostr \<Rightarrow> gostr \<Rightarrow> int \<Rightarrow> gostr \<Rightarrow> unit hact" where
  "logDataOperationFailure env ctx op kind target startedAt code =
     bindA timeNowA (\<lambda>now.
       emitRuntimeLog env (''ERROR'' @ operationText ctx op kind target @ '' result=failed code='' @ runtimeLogValue code @
         '' duration_ms='' @ millisSince startedAt now))"

definition maxGuestLogMessageBytes :: nat where "maxGuestLogMessageBytes = 4096"

definition guestLogLevel :: "32 word \<Rightarrow> gostr" where
  "guestLogLevel level =
     (if level = 0 then ''DEBUG'' else if level = 2 then ''WARN'' else if level = 3 then ''ERROR'' else ''INFO'')"

text \<open>\<open>rd n\<close> are the \<open>n\<close> bytes of the guest at the address of the message.\<close>

definition hostLog :: "hostEnv \<Rightarrow> 32 word \<Rightarrow> 32 word \<Rightarrow> (nat \<Rightarrow> gostr option) \<Rightarrow> unit hact" where
  "hostLog env level byteCount rd =
     (if byteCount = 0 then retA ()
      else
        let truncated = unat byteCount > maxGuestLogMessageBytes in
        case rd (if truncated then maxGuestLogMessageBytes else unat byteCount) of
          None \<Rightarrow> emitRuntimeLog env ''ERROR wasm logger could not read guest memory''
        | Some bytes \<Rightarrow>
            (if trimSpace bytes = [] then retA ()
             else emitRuntimeLog env (guestLogLevel level @ '' '' @ trimSpace bytes @ (if truncated then '' [truncated]'' else []))))"

definition logGuestResult :: "hostEnv \<Rightarrow> callContext \<Rightarrow> gostr \<Rightarrow> unit hact" where
  "logGuestResult env ctx bytes =
     (case hjResponse (heJson env) bytes of
        None \<Rightarrow> retA ()
      | Some (success, problem) \<Rightarrow>
          (if trimSpace problem \<noteq> []
           then emitRuntimeLog env (''ERROR action='' @ runtimeLogValue (ccAction ctx) @ '' result=failed code=guest_response_error'')
           else if success then emitRuntimeLog env (''INFO action='' @ runtimeLogValue (ccAction ctx) @ '' result=success'')
           else retA ()))"

subsection \<open>Results\<close>

definition storeRaw :: "hostEnv \<Rightarrow> callContext \<Rightarrow> gostr \<Rightarrow> u64 hact" where
  "storeRaw env ctx bytes = serviceA (updA (\<lambda>s.
     case storeRawResult (acMaxResultBytes (heCfg env)) (ccApp ctx) (ccInvocation ctx) bytes (svResults s) of
       (h, t) \<Rightarrow> (h, s\<lparr>svResults := t\<rparr>)))"

definition encodeFailed :: gostr where
  "encodeFailed = [CHR 0x7B, CHR 0x22] @ ''error'' @ [CHR 0x22, CHR '':'', CHR 0x22] @
     ''encode platform result failed'' @ [CHR 0x22, CHR 0x7D]"

definition storeResult :: "hostEnv \<Rightarrow> callContext \<Rightarrow> hostPayload \<Rightarrow> u64 hact" where
  "storeResult env ctx payload =
     storeRaw env ctx (case hjMarshal (heJson env) payload of None \<Rightarrow> encodeFailed | Some bytes \<Rightarrow> bytes)"

definition storeError :: "hostEnv \<Rightarrow> callContext \<Rightarrow> err \<Rightarrow> u64 hact" where
  "storeError env ctx e = storeResult env ctx (PayloadError (errText e))"

definition hostResultLen :: "callContext \<Rightarrow> u64 \<Rightarrow> 32 word hact" where
  "hostResultLen ctx handle = serviceA (updA (\<lambda>s.
     (case lookupResult (ccApp ctx) (ccInvocation ctx) handle (svResults s) of None \<Rightarrow> 0 | Some bytes \<Rightarrow> of_nat (length bytes), s)))"

text \<open>What is written to the memory of the guest, and how many bytes it is told of.\<close>

definition hostResultRead :: "callContext \<Rightarrow> u64 \<Rightarrow> bool \<Rightarrow> (gostr \<times> 32 word) hact" where
  "hostResultRead ctx handle writable = serviceA (updA (\<lambda>s.
     (case lookupResult (ccApp ctx) (ccInvocation ctx) handle (svResults s) of
        None \<Rightarrow> ([], 0)
      | Some bytes \<Rightarrow> (if bytes = [] \<or> \<not> writable then ([], 0) else (bytes, of_nat (length bytes))), s)))"

definition hostResultStore :: "hostEnv \<Rightarrow> callContext \<Rightarrow> gostr option \<Rightarrow> u64 hact" where
  "hostResultStore env ctx mem =
     (case mem of
        None \<Rightarrow> storeError env ctx (Err ''read guest memory failed'')
      | Some bytes \<Rightarrow>
          (if \<not> hjValid (heJson env) bytes then storeError env ctx (Err ''result_store requires valid JSON'')
           else bindA (logGuestResult env ctx bytes) (\<lambda>_. storeRaw env ctx bytes)))"

subsection \<open>Records\<close>

definition decodeGuestJSON :: "(gostr \<Rightarrow> err + 'r) \<Rightarrow> gostr option \<Rightarrow> err + 'r" where
  "decodeGuestJSON decode mem =
     (case mem of None \<Rightarrow> Inl (Err ''read guest memory failed'') | Some bytes \<Rightarrow> decode bytes)"

definition requireAuthorizedAction :: "callContext \<Rightarrow> err + unit" where
  "requireAuthorizedAction ctx =
     (case ccPrivileged ctx of
        None \<Rightarrow> Inl (Err ''privileged platform capability requires an authorized action'')
      | Some action \<Rightarrow>
          (if trimSpace action \<noteq> [] then Inr ()
           else Inl (Err ''privileged platform capability requires an authorized action'')))"

text \<open>The shape of the data functions: decode, log the start, then steps that each may fail.\<close>

definition dataRequest ::
  "hostEnv \<Rightarrow> callContext \<Rightarrow> gostr \<Rightarrow> gostr \<Rightarrow> (gostr \<Rightarrow> err + 'r) \<Rightarrow> gostr option \<Rightarrow> ('r \<Rightarrow> gostr) \<Rightarrow>
   ('r \<Rightarrow> int \<Rightarrow> u64 hact) \<Rightarrow> u64 hact" where
  "dataRequest env ctx op kind decode mem target k =
     (case decodeGuestJSON decode mem of
        Inl e \<Rightarrow>
          bindA timeNowA (\<lambda>now.
          bindA (logDataOperationFailure env ctx op kind ''unknown'' now ''request_decode_failed'') (\<lambda>_. storeError env ctx e))
      | Inr req \<Rightarrow> bindA (logDataOperationStart env ctx op kind (target req)) (k req))"

definition dataStep ::
  "hostEnv \<Rightarrow> callContext \<Rightarrow> gostr \<Rightarrow> gostr \<Rightarrow> gostr \<Rightarrow> int \<Rightarrow> gostr \<Rightarrow> 'a aact \<Rightarrow> ('a \<Rightarrow> u64 hact) \<Rightarrow> u64 hact" where
  "dataStep env ctx op kind target startedAt code m k =
     bindA (tryA (serviceA m)) (\<lambda>r.
       case r of
         Inl e \<Rightarrow> bindA (logDataOperationFailure env ctx op kind target startedAt code) (\<lambda>_. storeError env ctx e)
       | Inr x \<Rightarrow> k x)"

definition dataDone ::
  "hostEnv \<Rightarrow> callContext \<Rightarrow> gostr \<Rightarrow> gostr \<Rightarrow> gostr \<Rightarrow> int \<Rightarrow> gostr \<Rightarrow> hostPayload \<Rightarrow> u64 hact" where
  "dataDone env ctx op kind target startedAt result payload =
     bindA (logDataOperationSuccess env ctx op kind target startedAt result) (\<lambda>_. storeResult env ctx payload)"

definition privileged :: "hostEnv \<Rightarrow> callContext \<Rightarrow> u64 hact \<Rightarrow> u64 hact" where
  "privileged env ctx m = (case requireAuthorizedAction ctx of Inl e \<Rightarrow> storeError env ctx e | Inr _ \<Rightarrow> m)"

definition itemForApp :: "hostEnv \<Rightarrow> gostr \<Rightarrow> manifest aact" where
  "itemForApp env appID = activeManifestForApp (heLib env) (heCfg env) appID"

definition dataModelsForApp :: "hostEnv \<Rightarrow> gostr \<Rightarrow> dataModel list aact" where
  "dataModelsForApp env appID = bindA (itemForApp env appID) (\<lambda>item. retA (mfDataModels item))"

definition dataRelationsForApp :: "hostEnv \<Rightarrow> gostr \<Rightarrow> dataRelation list aact" where
  "dataRelationsForApp env appID = bindA (itemForApp env appID) (\<lambda>item. retA (mfRelations item))"

definition dataQueriesForApp :: "hostEnv \<Rightarrow> gostr \<Rightarrow> dataQuery list aact" where
  "dataQueriesForApp env appID = bindA (itemForApp env appID) (\<lambda>item. retA (mfQueries item))"

definition rowsText :: "dataListResult \<Rightarrow> gostr" where
  "rowsText result = ''rows='' @ decimal (length (resRows result)) @ '' total='' @ decimal (resTotal result)"

definition affectedText :: "dataWriteResult \<Rightarrow> gostr" where
  "affectedText result =
     ''rows_affected='' @ (if resRowsAffected result < 0 then ''-'' else []) @ decimal (nat \<bar>resRowsAffected result\<bar>)"

abbreviation dlib :: "hostEnv \<Rightarrow> dataLib" where "dlib env \<equiv> alData (heLib env)"
abbreviation deng :: "hostEnv \<Rightarrow> dataEngine" where "deng env \<equiv> alEngine (heLib env)"

definition hostDataList :: "hostEnv \<Rightarrow> callContext \<Rightarrow> gostr option \<Rightarrow> u64 hact" where
  "hostDataList env ctx mem =
     dataRequest env ctx ''data_list'' ''model'' (hjList (heJson env)) mem lqModel (\<lambda>req startedAt.
     dataStep env ctx ''data_list'' ''model'' (lqModel req) startedAt ''model_resolve_failed'' (dataModelsForApp env (ccApp ctx)) (\<lambda>models.
     dataStep env ctx ''data_list'' ''model'' (lqModel req) startedAt ''data_list_failed''
       (dataA (DataList (dlib env) (deng env) (ccApp ctx) models req)) (\<lambda>result.
     dataDone env ctx ''data_list'' ''model'' (lqModel req) startedAt (rowsText result) (PayloadRows result))))"

definition hostDataJoinQuery :: "hostEnv \<Rightarrow> callContext \<Rightarrow> gostr option \<Rightarrow> u64 hact" where
  "hostDataJoinQuery env ctx mem =
     dataRequest env ctx ''data_join_query'' ''model'' (hjJoin (heJson env)) mem jqFrom (\<lambda>req startedAt.
     dataStep env ctx ''data_join_query'' ''model'' (jqFrom req) startedAt ''model_resolve_failed'' (dataModelsForApp env (ccApp ctx)) (\<lambda>models.
     dataStep env ctx ''data_join_query'' ''model'' (jqFrom req) startedAt ''relation_resolve_failed'' (dataRelationsForApp env (ccApp ctx)) (\<lambda>relations.
     dataStep env ctx ''data_join_query'' ''model'' (jqFrom req) startedAt ''data_join_query_failed''
       (dataA (DataJoinQuery (dlib env) (deng env) (ccApp ctx) models relations req)) (\<lambda>result.
     dataDone env ctx ''data_join_query'' ''model'' (jqFrom req) startedAt (rowsText result) (PayloadRows result)))))"

definition hostDataRunQuery :: "hostEnv \<Rightarrow> callContext \<Rightarrow> gostr option \<Rightarrow> u64 hact" where
  "hostDataRunQuery env ctx mem =
     dataRequest env ctx ''data_run_query'' ''query'' (hjRun (heJson env)) mem rqQuery (\<lambda>req startedAt.
     dataStep env ctx ''data_run_query'' ''query'' (rqQuery req) startedAt ''model_resolve_failed'' (dataModelsForApp env (ccApp ctx)) (\<lambda>models.
     dataStep env ctx ''data_run_query'' ''query'' (rqQuery req) startedAt ''relation_resolve_failed'' (dataRelationsForApp env (ccApp ctx)) (\<lambda>relations.
     dataStep env ctx ''data_run_query'' ''query'' (rqQuery req) startedAt ''query_resolve_failed'' (dataQueriesForApp env (ccApp ctx)) (\<lambda>queries.
     dataStep env ctx ''data_run_query'' ''query'' (rqQuery req) startedAt ''data_run_query_failed''
       (dataA (DataRunQuery (dlib env) (deng env) (ccApp ctx) models relations queries req)) (\<lambda>result.
     dataDone env ctx ''data_run_query'' ''query'' (rqQuery req) startedAt (rowsText result) (PayloadRows result))))))"

definition hostDataGet :: "hostEnv \<Rightarrow> callContext \<Rightarrow> gostr option \<Rightarrow> u64 hact" where
  "hostDataGet env ctx mem =
     dataRequest env ctx ''data_get'' ''model'' (hjGet (heJson env)) mem gqModel (\<lambda>req startedAt.
     dataStep env ctx ''data_get'' ''model'' (gqModel req) startedAt ''model_resolve_failed'' (dataModelsForApp env (ccApp ctx)) (\<lambda>models.
     dataStep env ctx ''data_get'' ''model'' (gqModel req) startedAt ''data_get_failed''
       (dataA (DataGet (dlib env) (deng env) (ccApp ctx) models req)) (\<lambda>row.
     dataDone env ctx ''data_get'' ''model'' (gqModel req) startedAt ''found=true'' (PayloadRecord row))))"

definition hostDataCreate :: "hostEnv \<Rightarrow> callContext \<Rightarrow> gostr option \<Rightarrow> u64 hact" where
  "hostDataCreate env ctx mem = privileged env ctx (
     dataRequest env ctx ''data_create'' ''model'' (hjWrite (heJson env)) mem wqModel (\<lambda>req startedAt.
     dataStep env ctx ''data_create'' ''model'' (wqModel req) startedAt ''model_resolve_failed'' (dataModelsForApp env (ccApp ctx)) (\<lambda>models.
     dataStep env ctx ''data_create'' ''model'' (wqModel req) startedAt ''data_create_failed''
       (dataA (DataCreate (heRangeF env) (heRangeI env) (dlib env) (deng env) (ccApp ctx) models req)) (\<lambda>result.
     dataDone env ctx ''data_create'' ''model'' (wqModel req) startedAt (affectedText result) (PayloadWrite result)))))"

definition hostDataUpdate :: "hostEnv \<Rightarrow> callContext \<Rightarrow> gostr option \<Rightarrow> u64 hact" where
  "hostDataUpdate env ctx mem = privileged env ctx (
     dataRequest env ctx ''data_update'' ''model'' (hjWrite (heJson env)) mem wqModel (\<lambda>req startedAt.
     dataStep env ctx ''data_update'' ''model'' (wqModel req) startedAt ''model_resolve_failed'' (dataModelsForApp env (ccApp ctx)) (\<lambda>models.
     dataStep env ctx ''data_update'' ''model'' (wqModel req) startedAt ''data_update_failed''
       (dataA (DataUpdate (heRangeF env) (heRangeI env) (dlib env) (deng env) (ccApp ctx) models req)) (\<lambda>result.
     dataDone env ctx ''data_update'' ''model'' (wqModel req) startedAt (affectedText result) (PayloadWrite result)))))"

definition hostDataDelete :: "hostEnv \<Rightarrow> callContext \<Rightarrow> gostr option \<Rightarrow> u64 hact" where
  "hostDataDelete env ctx mem = privileged env ctx (
     dataRequest env ctx ''data_delete'' ''model'' (hjGet (heJson env)) mem gqModel (\<lambda>req startedAt.
     dataStep env ctx ''data_delete'' ''model'' (gqModel req) startedAt ''model_resolve_failed'' (dataModelsForApp env (ccApp ctx)) (\<lambda>models.
     dataStep env ctx ''data_delete'' ''model'' (gqModel req) startedAt ''data_delete_failed''
       (dataA (DataDelete (dlib env) (deng env) (ccApp ctx) models req)) (\<lambda>result.
     dataDone env ctx ''data_delete'' ''model'' (gqModel req) startedAt (affectedText result) (PayloadWrite result)))))"

subsection \<open>Calls of other parts\<close>

fun providedQuery :: "gostr \<Rightarrow> capabilityProvide list \<Rightarrow> gostr option" where
  "providedQuery capability [] = None"
| "providedQuery capability (p # ps) =
     (if trimSpace (cpName p) = trimSpace capability then Some (trimSpace (cpQuery p)) else providedQuery capability ps)"

definition RunDeclaredCapability :: "hostEnv \<Rightarrow> gostr \<Rightarrow> gostr \<Rightarrow> dataRecord \<Rightarrow> dataListResult aact" where
  "RunDeclaredCapability env appID capability params =
     bindA (itemForApp env appID) (\<lambda>item.
       case providedQuery capability (mfProvides item) of
         None \<Rightarrow> failA (Err ''target capability is not declared'')
       | Some query \<Rightarrow>
           dataA (DataRunQuery (dlib env) (deng env) appID (mfDataModels item) (mfRelations item) (mfQueries item)
             \<lparr>rqQuery = query, rqParams = params\<rparr>))"

definition CallCapability :: "hostEnv \<Rightarrow> gostr \<Rightarrow> capabilityCallRequest \<Rightarrow> dataListResult aact" where
  "CallCapability env callerID req =
     (if trimSpace callerID = trimSpace (crAppID req) then failA (Err ''capability target must be a different function'')
      else
        bindA (liftA (heGate env callerID req)) (\<lambda>_.
          if acDraft (heCfg env) then liftA (heOther env callerID req)
          else RunDeclaredCapability env (crAppID req) (crCapability req) (crParams req)))"

definition consumes :: "manifest \<Rightarrow> capabilityCallRequest \<Rightarrow> bool" where
  "consumes item req \<longleftrightarrow>
     list_ex (\<lambda>c. trimSpace (ccAppID c) = trimSpace (crAppID req) \<and> trimSpace (ccCapability c) = trimSpace (crCapability req))
       (mfConsumes item)"

text \<open>A step of the two functions below, which write no log lines: its error becomes the result.\<close>

definition orError :: "hostEnv \<Rightarrow> callContext \<Rightarrow> 'a aact \<Rightarrow> ('a \<Rightarrow> u64 hact) \<Rightarrow> u64 hact" where
  "orError env ctx m k =
     bindA (tryA (serviceA m)) (\<lambda>r. case r of Inl e \<Rightarrow> storeError env ctx e | Inr x \<Rightarrow> k x)"

definition hostCallCapability :: "hostEnv \<Rightarrow> callContext \<Rightarrow> gostr option \<Rightarrow> u64 hact" where
  "hostCallCapability env ctx mem = privileged env ctx (
     orError env ctx (liftA (decodeGuestJSON (hjCapability (heJson env)) mem)) (\<lambda>req.
     orError env ctx (itemForApp env (ccApp ctx)) (\<lambda>item.
       if \<not> consumes item req then storeError env ctx (Err ''capability is not declared in consumes'')
       else if \<not> heHasBroker env then storeError env ctx (Err ''capability broker is not configured'')
       else orError env ctx (CallCapability env (ccApp ctx) req) (\<lambda>result. storeResult env ctx (PayloadRows result)))))"

definition hostExternalAPICall :: "hostEnv \<Rightarrow> callContext \<Rightarrow> gostr option \<Rightarrow> u64 hact" where
  "hostExternalAPICall env ctx mem = privileged env ctx (
     orError env ctx (liftA (decodeGuestJSON (hjApi (heJson env)) mem)) (\<lambda>(apiKey, request).
     orError env ctx (itemForApp env (ccApp ctx)) (\<lambda>item.
       if \<not> list_ex (\<lambda>declared. trimSpace declared = trimSpace apiKey) (mfExternalAPIs item)
       then storeError env ctx (Err ''external API is not declared in manifest'')
       else case heApi env of
         None \<Rightarrow> storeError env ctx (Err ''external API executor is not configured'')
       | Some call \<Rightarrow>
           orError env ctx (liftA (call (ccApp ctx) apiKey request)) (\<lambda>result. storeResult env ctx (PayloadAny result)))))"

subsection \<open>The guest\<close>

datatype hostOp =
    DataListOp | DataGetOp | DataCreateOp | DataUpdateOp | DataDeleteOp | DataJoinQueryOp | DataRunQueryOp
  | CallCapabilityOp | ExternalApiCallOp | ResultStoreOp

fun hostCall :: "hostEnv \<Rightarrow> callContext \<Rightarrow> hostOp \<Rightarrow> gostr option \<Rightarrow> u64 hact" where
  "hostCall env ctx DataListOp mem = hostDataList env ctx mem"
| "hostCall env ctx DataGetOp mem = hostDataGet env ctx mem"
| "hostCall env ctx DataCreateOp mem = hostDataCreate env ctx mem"
| "hostCall env ctx DataUpdateOp mem = hostDataUpdate env ctx mem"
| "hostCall env ctx DataDeleteOp mem = hostDataDelete env ctx mem"
| "hostCall env ctx DataJoinQueryOp mem = hostDataJoinQuery env ctx mem"
| "hostCall env ctx DataRunQueryOp mem = hostDataRunQuery env ctx mem"
| "hostCall env ctx CallCapabilityOp mem = hostCallCapability env ctx mem"
| "hostCall env ctx ExternalApiCallOp mem = hostExternalAPICall env ctx mem"
| "hostCall env ctx ResultStoreOp mem = hostResultStore env ctx mem"

text \<open>A call returns values and leaves a memory behind.\<close>

datatype 'm guest =
    GuestReturn "u64 list" 'm
  | GuestTrap err
  | GuestWrite gostr gostr "'m guest"
  | GuestCall hostOp "gostr option" "u64 \<Rightarrow> 'm guest"
  | GuestLen u64 "32 word \<Rightarrow> 'm guest"
  | GuestRead u64 bool "gostr \<times> 32 word \<Rightarrow> 'm guest"
  | GuestLog "32 word" "32 word" "nat \<Rightarrow> gostr option" "'m guest"

primrec runGuest :: "hostEnv \<Rightarrow> callContext \<Rightarrow> 'm guest \<Rightarrow> (u64 list \<times> 'm) hact" where
  "runGuest env ctx (GuestReturn vs m) = retA (vs, m)"
| "runGuest env ctx (GuestTrap e) = failA e"
| "runGuest env ctx (GuestWrite stream bytes g) =
     bindA (logA (Log_Append (heClock env) stream bytes)) (\<lambda>_. runGuest env ctx g)"
| "runGuest env ctx (GuestCall op mem k) = bindA (hostCall env ctx op mem) (\<lambda>h. runGuest env ctx (k h))"
| "runGuest env ctx (GuestLen h k) = bindA (hostResultLen ctx h) (\<lambda>n. runGuest env ctx (k n))"
| "runGuest env ctx (GuestRead h writable k) = bindA (hostResultRead ctx h writable) (\<lambda>r. runGuest env ctx (k r))"
| "runGuest env ctx (GuestLog level byteCount rd g) =
     bindA (hostLog env level byteCount rd) (\<lambda>_. runGuest env ctx g)"

text \<open>An exported function has the types of its parameters and a body.\<close>

record 'm guestModule =
  gmMemory :: 'm
  gmExport :: "gostr \<Rightarrow> (gostr list \<times> ('m \<Rightarrow> u64 list \<Rightarrow> 'm guest)) option"
  gmWriteMemory :: "32 word \<Rightarrow> gostr \<Rightarrow> 'm \<Rightarrow> 'm option"

definition callAppHandle ::
  "hostEnv \<Rightarrow> callContext \<Rightarrow> 'm guestModule \<Rightarrow> 'm \<Rightarrow> gostr list \<times> ('m \<Rightarrow> u64 list \<Rightarrow> 'm guest) \<Rightarrow> gostr \<Rightarrow> u64 list hact" where
  "callAppHandle env ctx md m0 handle payload =
     (case handle of (paramTypes, body) \<Rightarrow>
      if paramTypes = [] then bindA (runGuest env ctx (body m0 [])) (\<lambda>(vs, _). retA vs)
      else if paramTypes \<noteq> [''i32'', ''i32''] then failA (Err ''unsupported handle signature'')
      else case gmExport md ''alloc'' of
        None \<Rightarrow> failA (Err ''payload-aware wasm app must export alloc(size uint32) uint32'')
      | Some (_, alloc) \<Rightarrow>
          let request = (if payload = [] \<or> payload = ''null'' then [CHR 0x7B, CHR 0x7D] else payload) in
          bindA (wrapErrA (\<lambda>e. Err (''allocate request memory: '' @ errText e)) (runGuest env ctx (alloc m0 [of_nat (length request)])))
            (\<lambda>(vs, m1).
             case vs of
               [] \<Rightarrow> failA (Err ''alloc returned no pointer'')
             | v # _ \<Rightarrow>
                 (case gmWriteMemory md (ucast v) request m1 of
                    None \<Rightarrow> failA (Err ''write request memory failed'')
                  | Some m2 \<Rightarrow>
                      bindA (runGuest env ctx (body m2 [ucast (ucast v :: 32 word), of_nat (length request)])) (\<lambda>(rs, _). retA rs))))"

definition invocationAction :: "hostJson \<Rightarrow> gostr \<Rightarrow> gostr" where
  "invocationAction js payload =
     (case hjAction js payload of
        None \<Rightarrow> ''handle''
      | Some action \<Rightarrow> (if trimSpace action \<noteq> [] then trimSpace action else ''handle''))"

text \<open>\<open>insts bytes\<close> is the module that the runtime makes of the compiled bytes.\<close>

definition runModule ::
  "hostEnv \<Rightarrow> callContext \<Rightarrow> (gostr \<Rightarrow> err + 'm guestModule) \<Rightarrow> generatedApp \<Rightarrow> gostr \<Rightarrow> gostr \<Rightarrow> gostr \<Rightarrow> (u64 \<times> gostr) hact" where
  "runModule env ctx insts app compiled appID payload =
     bindA (wrapErrA (\<lambda>e. Err (''instantiate generated app '' @ goQuote appID @ '': '' @ errText e)) (liftA (insts compiled))) (\<lambda>md.
     bindA (case gmExport md ''_initialize'' of
              None \<Rightarrow> retA (gmMemory md)
            | Some (_, body) \<Rightarrow>
                wrapErrA (\<lambda>e. Err (''initialize generated app '' @ goQuote appID @ '': '' @ errText e))
                  (bindA (runGuest env ctx (body (gmMemory md) [])) (\<lambda>(_, m). retA m))) (\<lambda>m0.
     case gmExport md (gaExport app) of
       None \<Rightarrow> failA (Err (''generated app '' @ goQuote appID @ '' missing export '' @ goQuote (gaExport app)))
     | Some handle \<Rightarrow>
         bindA (wrapErrA (\<lambda>e. Err (''call generated app '' @ goQuote appID @ '' export '' @ goQuote (gaExport app) @ '': '' @ errText e))
           (callAppHandle env ctx md m0 handle payload)) (\<lambda>results.
         case results of
           [] \<Rightarrow> failA (Err (''generated app '' @ goQuote appID @ '' export '' @ goQuote (gaExport app) @ '' returned no result''))
         | h # _ \<Rightarrow>
             bindA (wrapErrA (\<lambda>e. Err (''read generated app '' @ goQuote appID @ '' result: '' @ errText e))
               (serviceA (bindA (updA (\<lambda>s. (resultPayload (ccApp ctx) (ccInvocation ctx) h (svResults s), s))) liftA))) (\<lambda>response.
               retA (h, response)))))"

subsection \<open>Invocation\<close>

record invokeResult =
  irAppID :: gostr
  irVersion :: gostr
  irExport :: gostr
  irResult :: u64
  irResponse :: gostr
  irModuleLen :: nat
  irBackendSource :: gostr
  irBackendModule :: gostr
  irLogs :: "logEvent list"
  irLogsTruncated :: bool

definition emptyResult :: invokeResult where
  "emptyResult = \<lparr>irAppID = [], irVersion = [], irExport = [], irResult = 0, irResponse = [], irModuleLen = 0,
     irBackendSource = [], irBackendModule = [], irLogs = [], irLogsTruncated = False\<rparr>"

definition moduleSize :: "gostr \<Rightarrow> generatedApp \<Rightarrow> nat aact" where
  "moduleSize rootDir app =
     bindA (readFileA (safeAppFilePath rootDir (gaUUID app) (gaBackendModule app))) (\<lambda>a.
       retA (case a of
         Contents raw \<Rightarrow>
           (if pathExt (gaBackendModule app) = ''.wasm'' then length raw
            else case hexDecode (trimSpace raw) of None \<Rightarrow> 0 | Some b \<Rightarrow> length b)
       | _ \<Rightarrow> 0))"

text \<open>Run on the service with a collector of its own.\<close>

definition withLogs :: "logCollector \<Rightarrow> 'a hact \<Rightarrow> ((err + 'a) \<times> logCollector) aact" where
  "withLogs c m w =
     (case m (withDb \<lparr>hsRuntime = db w, hsLogs = c\<rparr> w) of
        (r, w') \<Rightarrow> (Inr (r, hsLogs (db w')), withDb (hsRuntime (db w')) w'))"

text \<open>The result and the error, if any.  The texts of the duration and the trace are left out.\<close>

definition InvokeWithObserver ::
  "hostEnv \<Rightarrow> gostr option \<Rightarrow> (gostr \<Rightarrow> err + 'm guestModule) \<Rightarrow> gostr \<Rightarrow> gostr \<Rightarrow> (invokeResult \<times> err option) aact" where
  "InvokeWithObserver env priv insts appID payload =
     bindA (updA (\<lambda>s. ((svApps s appID, svCompiled s appID), s))) (\<lambda>(loadedApp, loadedCode).
     case (loadedApp, loadedCode) of
       (Some app, Some compiled) \<Rightarrow>
         bindA (updA (\<lambda>s. (case svActiveDirs s appID of None \<Rightarrow> [] | Some d \<Rightarrow> d, s))) (\<lambda>dir.
         bindA (moduleSize dir app) (\<lambda>size.
         bindA (updA (\<lambda>s. case beginInvocation (svResults s) of (i, t) \<Rightarrow> (i, s\<lparr>svResults := t\<rparr>))) (\<lambda>invocationID.
         let action = invocationAction (heJson env) payload;
             ctx = \<lparr>ccApp = appID, ccInvocation = invocationID, ccAction = action, ccPrivileged = priv\<rparr>;
             result = emptyResult\<lparr>irAppID := gaUUID app, irVersion := gaVersion app, irExport := gaExport app, irModuleLen := size,
               irBackendSource := gaBackendSource app, irBackendModule := gaBackendModule app\<rparr> in
         bindA (withLogs (newExecutionLogCollector (acMaxLogBytes (heCfg env)))
             (bindA (emitRuntimeLog env (''INFO action='' @ action @ '' received'')) (\<lambda>_.
              runModule env ctx insts app compiled appID payload))) (\<lambda>(r, logs).
         bindA (updA (\<lambda>s. ((), s\<lparr>svResults := cleanupInvocationResults invocationID (svResults s)\<rparr>))) (\<lambda>_.
         let (entries, truncated, _) = fst (Log_Entries (heClock env) logs);
             logged = result\<lparr>irLogs := entries, irLogsTruncated := truncated\<rparr> in
         case r of
           Inl e \<Rightarrow> retA (logged, Some e)
         | Inr (h, response) \<Rightarrow> retA (logged\<lparr>irResult := h, irResponse := response\<rparr>, None))))))
     | _ \<Rightarrow> retA (emptyResult, Some ErrAppNotFound))"

definition Invoke :: "hostEnv \<Rightarrow> gostr option \<Rightarrow> (gostr \<Rightarrow> err + 'm guestModule) \<Rightarrow> gostr \<Rightarrow> gostr \<Rightarrow> (invokeResult \<times> err option) aact" where
  "Invoke env priv insts appID payload = InvokeWithObserver env priv insts appID payload"

end
