(* ===== verification/App_Access.thy ===== *)
theory App_Access
  imports App_Host Func_Logic Operation_Log
begin

text \<open>
  Who may run and see generated applications
  (\<^verbatim>\<open>func-operation/internal/logic/generated_app.go\<close> and
  \<^verbatim>\<open>invoke_error.go\<close>): the release must be published and loaded, the system service
  must let the user use the function and, for an action that changes something, the button of the
  action, which the manifest must declare.

  The state has the tables of the function service, the runtime of the published applications and
  that of the drafts, and the rows of the execution log, without the duration of a run.
\<close>

subsection \<open>State\<close>

record executionLog =
  elID :: nat
  elUUID :: gostr
  elFunctionID :: gostr
  elAppID :: gostr
  elUserID :: gostr
  elRequestID :: gostr
  elInvocationType :: gostr
  elVersion :: gostr
  elStatus :: gostr
  elStage :: gostr
  elErrorCode :: gostr
  elErrorMessage :: gostr
  elInputJSON :: gostr
  elOutputJSON :: gostr
  elLogsJSON :: gostr
  elLogsTruncated :: bool
  elCreatedAt :: int

record appService =
  gaFn :: fndb
  gaRun :: appRuntime
  gaPreview :: appRuntime
  gaLogs :: "executionLog list"

type_synonym 'a gact = "(appService, 'a) act"

text \<open>
  \<open>geConfigRequest\<close> decodes the action and the keys of a request for public configuration,
  \<open>geConfig\<close> is the service that resolves the keys.  \<open>geTrace\<close> is the identifier of the request.
\<close>

record 'm gaEnv =
  geFn :: fenv
  geHost :: hostEnv
  gePreview :: hostEnv
  geModules :: "gostr \<Rightarrow> err + 'm guestModule"
  geConfigRequest :: "gostr \<Rightarrow> (gostr \<times> gostr list) option"
  geConfig :: "(gostr list \<Rightarrow> nat \<Rightarrow> err + gostr) option"
  geLogs :: bool
  geTrace :: gostr
  geLogsText :: "logEvent list \<Rightarrow> gostr option"
  geLogsRead :: "gostr \<Rightarrow> logEvent list"

definition fnA :: "'a fnact \<Rightarrow> 'a gact" where
  "fnA m = zoomA gaFn (\<lambda>d s. s\<lparr>gaFn := d\<rparr>) m"

definition runA :: "'a aact \<Rightarrow> 'a gact" where
  "runA m = zoomA gaRun (\<lambda>d s. s\<lparr>gaRun := d\<rparr>) m"

definition previewA :: "'a aact \<Rightarrow> 'a gact" where
  "previewA m = zoomA gaPreview (\<lambda>d s. s\<lparr>gaPreview := d\<rparr>) m"

subsection \<open>Errors of a run\<close>

record invokeErrorDetail =
  ieErrorCode :: gostr
  ieErrorMessage :: gostr
  ieStage :: gostr
  ieHint :: gostr

definition errorDetail :: "gostr \<Rightarrow> gostr \<Rightarrow> gostr \<Rightarrow> gostr \<Rightarrow> invokeErrorDetail" where
  "errorDetail code message stage hint = \<lparr>ieErrorCode = code, ieErrorMessage = message, ieStage = stage, ieHint = hint\<rparr>"

definition mentions :: "gostr \<Rightarrow> gostr list \<Rightarrow> bool" where
  "mentions lower ws \<longleftrightarrow> list_ex (contains lower) ws"

definition classifyInvokeError :: "err \<Rightarrow> invokeErrorDetail" where
  "classifyInvokeError e =
     (let message = trimSpace (errText e); lower = toLower message in
      if e = ErrAppNotFound then
        errorDetail ''frontend_load_failed'' (utf8 [229, 138, 159, 232, 131, 189, 233, 161, 181, 233, 157, 162, 229, 176, 154, 230, 156, 170, 231, 148, 159, 230, 136, 144, 230, 136, 150, 229, 176, 154, 230, 156, 170, 229, 138, 160, 232, 189, 189]) ''runtime_lookup'' (utf8 [232, 175, 183, 229, 133, 136, 231, 148, 159, 230, 136, 144, 233, 161, 181, 233, 157, 162, 239, 188, 140, 230, 136, 150, 231, 130, 185, 229, 135, 187, 233, 135, 141, 230, 150, 176, 229, 138, 160, 232, 189, 189, 233, 161, 181, 233, 157, 162, 228, 187, 163, 231, 160, 129])
      else if mentions lower [''compile generated app'', ''decode wasm module'', ''read wasm module''] then
        errorDetail ''wasm_compile_failed'' message ''wasm_compile'' (utf8 [233, 161, 181, 233, 157, 162, 229, 144, 142, 231, 171, 175, 228, 187, 163, 231, 160, 129, 231, 188, 150, 232, 175, 145, 229, 164, 177, 232, 180, 165, 239, 188, 140, 232, 175, 183, 232, 174, 169, 32, 65, 73, 32, 228, 191, 174, 229, 164, 141, 233, 161, 181, 233, 157, 162, 230, 136, 150, 233, 135, 141, 230, 150, 176, 231, 148, 159, 230, 136, 144])
      else if mentions lower [''instantiate generated app'', ''initialize generated app''] then
        errorDetail ''wasm_compile_failed'' message ''wasm_instantiate'' (utf8 [233, 161, 181, 233, 157, 162, 229, 144, 142, 231, 171, 175, 229, 136, 157, 229, 167, 139, 229, 140, 150, 229, 164, 177, 232, 180, 165, 239, 188, 140, 232, 175, 183, 232, 174, 169, 32, 65, 73, 32, 228, 191, 174, 229, 164, 141, 233, 161, 181, 233, 157, 162])
      else if mentions lower [''missing export'', ''unsupported handle signature'', ''allocate request memory'', ''read generated app''] then
        errorDetail ''invoke_failed'' message ''wasm_invoke'' (utf8 [233, 161, 181, 233, 157, 162, 232, 191, 144, 232, 161, 140, 230, 142, 165, 229, 143, 163, 229, 188, 130, 229, 184, 184, 239, 188, 140, 232, 175, 183, 230, 159, 165, 231, 156, 139, 233, 148, 153, 232, 175, 175, 232, 175, 166, 230, 131, 133, 229, 185, 182, 232, 174, 169, 32, 65, 73, 32, 228, 191, 174, 229, 164, 141])
      else if mentions lower [''sql'', ''ddl'', ''schema''] then
        errorDetail ''sql_validation_failed'' message ''sql_execution'' (utf8 [230, 149, 176, 230, 141, 174, 230, 147, 141, 228, 189, 156, 229, 164, 177, 232, 180, 165, 239, 188, 140, 232, 175, 183, 230, 163, 128, 230, 159, 165, 232, 161, 168, 231, 187, 147, 230, 158, 132, 230, 136, 150, 232, 174, 169, 32, 65, 73, 32, 228, 191, 174, 229, 164, 141, 229, 144, 142, 231, 171, 175, 233, 128, 187, 232, 190, 145])
      else errorDetail ''invoke_failed'' message ''invoke'' (utf8 [229, 138, 159, 232, 131, 189, 232, 191, 144, 232, 161, 140, 229, 164, 177, 232, 180, 165, 239, 188, 140, 232, 175, 183, 230, 159, 165, 231, 156, 139, 233, 148, 153, 232, 175, 175, 232, 175, 166, 230, 131, 133, 230, 136, 150, 232, 174, 169, 32, 65, 73, 32, 228, 191, 174, 229, 164, 141, 233, 161, 181, 233, 157, 162]))"

subsection \<open>Access\<close>

text \<open>
  The published release of an application; \<^verbatim>\<open>HasApprovedArtifact\<close> is asked of the runtime
  in the state.
\<close>

definition requireActive :: "'m gaEnv \<Rightarrow> gostr \<Rightarrow> release gact" where
  "requireActive env appID =
     bindA (updA (\<lambda>s. (s, s))) (\<lambda>s.
       fnA (RequireActiveArtifact
         ((geFn env)\<lparr>feRuntime := map_option (\<lambda>rt. rt\<lparr>rtApproved := \<lambda>a sha t. HasApprovedArtifact (gaRun s) a sha\<rparr>) (feRuntime (geFn env))\<rparr>)
         appID))"

definition functionForApp :: "gostr \<Rightarrow> fnrow gact" where
  "functionForApp appID = fnA (Function_GetByGeneratedAppID (trimSpace appID))"

definition canAccessRuntime :: "'m gaEnv \<Rightarrow> goctx \<Rightarrow> fnrow \<Rightarrow> gostr \<Rightarrow> bool gact" where
  "canAccessRuntime env ctx f action =
     (if fnStatus f \<noteq> FunctionStatusPublished then fnA (Allowed (feSystem (geFn env)) ctx functionPermissionEdit)
      else case feMenus (geFn env) of
        None \<Rightarrow> failA (Err ''generated app access control is not configured'')
      | Some menus \<Rightarrow>
          (case RequireUserID ctx of
             Inl e \<Rightarrow> retA False
           | Inr userID \<Rightarrow> fnA (CheckAccess (Some menus) ctx userID (fnUUID f) (trimSpace action))))"

definition requireRuntimeAccess :: "'m gaEnv \<Rightarrow> goctx \<Rightarrow> fnrow \<Rightarrow> gostr \<Rightarrow> unit gact" where
  "requireRuntimeAccess env ctx f action =
     bindA (canAccessRuntime env ctx f action) (\<lambda>allowed. if allowed then retA () else failA (Err ''permission denied''))"

definition runtimeAccessHint :: "gostr \<Rightarrow> gostr" where
  "runtimeAccessHint action =
     (if trimSpace action \<noteq> [] then (utf8 [232, 175, 183, 232, 129, 148, 231, 179, 187, 231, 174, 161, 231, 144, 134, 229, 145, 152, 228, 184, 186, 229, 189, 147, 229, 137, 141, 232, 167, 146, 232, 137, 178, 229, 136, 134, 233, 133, 141, 229, 175, 185, 229, 186, 148, 230, 140, 137, 233, 146, 174, 230, 157, 131, 233, 153, 144])
      else (utf8 [232, 175, 183, 232, 129, 148, 231, 179, 187, 231, 174, 161, 231, 144, 134, 229, 145, 152, 229, 156, 168, 232, 167, 146, 232, 137, 178, 231, 174, 161, 231, 144, 134, 228, 184, 173, 229, 136, 134, 233, 133, 141, 229, 138, 159, 232, 131, 189, 232, 143, 156, 229, 141, 149, 230, 157, 131, 233, 153, 144]))"

definition extractInvokeActionKey :: "hostJson \<Rightarrow> gostr \<Rightarrow> gostr" where
  "extractInvokeActionKey js payload =
     (if payload = [] then [] else case hjAction js payload of None \<Rightarrow> [] | Some action \<Rightarrow> trimSpace action)"

definition actionDeclaredInManifest :: "gostr list \<Rightarrow> gostr \<Rightarrow> bool" where
  "actionDeclaredInManifest actions target \<longleftrightarrow>
     trimSpace target \<noteq> [] \<and> list_ex (\<lambda>a. trimSpace a = trimSpace target) actions"

text \<open>The manifest that is loaded, if it can be read.\<close>

definition loadedItem :: "hostEnv \<Rightarrow> gostr \<Rightarrow> manifest option aact" where
  "loadedItem env appID =
     handleA (bindA (itemForApp env (trimSpace appID)) (\<lambda>item. retA (Some item))) (\<lambda>e. retA None)"

definition declaresActionA :: "hostEnv \<Rightarrow> gostr \<Rightarrow> gostr \<Rightarrow> bool aact" where
  "declaresActionA env appID action = bindA (loadedItem env appID) (\<lambda>item. retA (DeclaresAction item action))"

definition allowsConfigKeysA :: "hostEnv \<Rightarrow> gostr \<Rightarrow> gostr list \<Rightarrow> bool aact" where
  "allowsConfigKeysA env appID keys = bindA (loadedItem env appID) (\<lambda>item. retA (AllowsConfigKeys item keys))"

subsection \<open>The frontend\<close>

definition runtimeGate :: "'m gaEnv \<Rightarrow> goctx \<Rightarrow> gostr \<Rightarrow> fnrow gact" where
  "runtimeGate env ctx appID =
     bindA (requireActive env appID) (\<lambda>_.
     bindA (functionForApp appID) (\<lambda>f.
     bindA (requireRuntimeAccess env ctx f []) (\<lambda>_. retA f)))"

definition GetFrontend :: "'m gaEnv \<Rightarrow> goctx \<Rightarrow> gostr \<Rightarrow> gostr \<Rightarrow> gostr gact" where
  "GetFrontend env ctx given path =
     (let appID = trimSpace given in
      if appID = [] then failA (Err ''app id is required'')
      else bindA (runtimeGate env ctx appID) (\<lambda>_. runA (FrontendCode appID path)))"

definition GetFrontendBundle :: "'m gaEnv \<Rightarrow> goctx \<Rightarrow> gostr \<Rightarrow> (gostr \<times> gostr \<times> (gostr \<times> gostr) list) gact" where
  "GetFrontendBundle env ctx given =
     (let appID = trimSpace given in
      bindA (runtimeGate env ctx appID) (\<lambda>_. runA (FrontendBundle (heCfg (geHost env)) appID)))"

text \<open>Drafts are for editors.\<close>

definition draftGate :: "'m gaEnv \<Rightarrow> goctx \<Rightarrow> gostr \<Rightarrow> fnrow gact" where
  "draftGate env ctx functionID =
     bindA (fnA (Require (feSystem (geFn env)) ctx functionPermissionEdit)) (\<lambda>_.
     bindA (fnA (Function_Get (trimSpace functionID))) (\<lambda>f.
       if trimSpace (fnGeneratedAppID f) = [] then failA (Err ''generated app preview is not ready'')
       else bindA (previewA (LoadDraftApp (heLib (gePreview env)) (heCfg (gePreview env)) (fnGeneratedAppID f))) (\<lambda>_. retA f)))"

definition PreviewFrontend :: "'m gaEnv \<Rightarrow> goctx \<Rightarrow> gostr \<Rightarrow> gostr \<Rightarrow> gostr gact" where
  "PreviewFrontend env ctx functionID path =
     bindA (draftGate env ctx functionID) (\<lambda>f. previewA (FrontendCode (fnGeneratedAppID f) path))"

definition PreviewBundle :: "'m gaEnv \<Rightarrow> goctx \<Rightarrow> gostr \<Rightarrow> (gostr \<times> gostr \<times> (gostr \<times> gostr) list) gact" where
  "PreviewBundle env ctx functionID =
     bindA (draftGate env ctx functionID) (\<lambda>f. previewA (FrontendBundle (heCfg (gePreview env)) (fnGeneratedAppID f)))"

subsection \<open>The execution log\<close>

definition insertLog :: "executionLog \<Rightarrow> appService \<Rightarrow> err + (unit \<times> appService)" where
  "insertLog l s =
     (if elUUID l \<in> elUUID ` set (gaLogs s) then Inl (uniqueViolation ''func_operation_function_execution_logs.uuid'')
      else Inr ((), s\<lparr>gaLogs := gaLogs s @ [l\<lparr>elID := Suc (length (gaLogs s))\<rparr>]\<rparr>))"

definition ExecutionLog_Create :: "executionLog \<Rightarrow> unit gact" where
  "ExecutionLog_Create l = stmtA (insertLog l)"

record executionLogFilter =
  efLimit :: int
  efPage :: int
  efQuery :: gostr
  efRequestID :: gostr
  efStatus :: gostr
  efInvocationType :: gostr
  efStartTime :: int
  efEndTime :: int

definition pageLimit :: "executionLogFilter \<Rightarrow> int" where
  "pageLimit f = (if efLimit f \<le> 0 \<or> efLimit f > 100 then 20 else efLimit f)"

definition pageNumber :: "executionLogFilter \<Rightarrow> int" where
  "pageNumber f = (if efPage f \<le> 0 then 1 else efPage f)"

definition executionLogMatches :: "gostr \<Rightarrow> executionLogFilter \<Rightarrow> executionLog \<Rightarrow> bool" where
  "executionLogMatches functionID f l \<longleftrightarrow>
     elFunctionID l = functionID \<and>
     (trimSpace (efStatus f) \<noteq> [] \<longrightarrow> elStatus l = trimSpace (efStatus f)) \<and>
     (trimSpace (efInvocationType f) \<noteq> [] \<longrightarrow> elInvocationType l = trimSpace (efInvocationType f)) \<and>
     (trimSpace (efRequestID f) \<noteq> [] \<longrightarrow> elRequestID l = trimSpace (efRequestID f)) \<and>
     (efStartTime f > 0 \<longrightarrow> elCreatedAt l \<ge> efStartTime f) \<and>
     (efEndTime f > 0 \<longrightarrow> elCreatedAt l \<le> efEndTime f) \<and>
     (trimSpace (efQuery f) \<noteq> [] \<longrightarrow>
        (let pattern = ''%'' @ trimSpace (efQuery f) @ ''%'' in
         likeMatch pattern (elLogsJSON l) \<or> likeMatch pattern (elErrorMessage l) \<or> likeMatch pattern (elErrorCode l)))"

definition newestLog :: "executionLog \<Rightarrow> int \<times> int" where
  "newestLog l = (- elCreatedAt l, - int (elID l))"

definition ListByFunctionID :: "gostr \<Rightarrow> executionLogFilter \<Rightarrow> (executionLog list \<times> int) gact" where
  "ListByFunctionID functionID f =
     bindA (queryA (\<lambda>s. Inr (int (length (filter (executionLogMatches functionID f) (gaLogs s)))))) (\<lambda>total.
     bindA (queryA (\<lambda>s. Inr (take (nat (pageLimit f)) (drop (nat ((pageNumber f - 1) * pageLimit f))
        (sort_key newestLog (filter (executionLogMatches functionID f) (gaLogs s))))))) (\<lambda>items.
     retA (items, total)))"

definition GetByFunctionID :: "gostr \<Rightarrow> gostr \<Rightarrow> executionLog gact" where
  "GetByFunctionID functionID i =
     queryA (\<lambda>s. firstRow elID (\<lambda>l. elFunctionID l = functionID \<and> elUUID l = i) (gaLogs s))"

text \<open>The row and the events that its log decodes to.\<close>

definition executionLogProto :: "'m gaEnv \<Rightarrow> executionLog \<Rightarrow> executionLog \<times> logEvent list" where
  "executionLogProto env l = (l, geLogsRead env (elLogsJSON l))"

definition logGate :: "'m gaEnv \<Rightarrow> goctx \<Rightarrow> gostr \<Rightarrow> unit gact" where
  "logGate env ctx functionID =
     bindA (fnA (Require (feSystem (geFn env)) ctx functionPermissionEdit)) (\<lambda>_.
     bindA (fnA (Function_Get (trimSpace functionID))) (\<lambda>_.
       if geLogs env then retA () else failA (Err ''execution log store is not configured'')))"

definition ListExecutionLogs ::
  "'m gaEnv \<Rightarrow> goctx \<Rightarrow> gostr \<Rightarrow> executionLogFilter \<Rightarrow> ((executionLog \<times> logEvent list) list \<times> int) gact" where
  "ListExecutionLogs env ctx functionID f =
     bindA (logGate env ctx functionID) (\<lambda>_.
     bindA (ListByFunctionID (trimSpace functionID) f) (\<lambda>(items, total).
       retA (map (executionLogProto env) items, total)))"

definition GetExecutionLog :: "'m gaEnv \<Rightarrow> goctx \<Rightarrow> gostr \<Rightarrow> gostr \<Rightarrow> (executionLog \<times> logEvent list) gact" where
  "GetExecutionLog env ctx functionID i =
     bindA (logGate env ctx functionID) (\<lambda>_.
     bindA (GetByFunctionID (trimSpace functionID) (trimSpace i)) (\<lambda>l. retA (executionLogProto env l)))"

text \<open>The identifier of the entry, empty when it could not be written.\<close>

definition recordExecution ::
  "'m gaEnv \<Rightarrow> goctx \<Rightarrow> fnrow \<Rightarrow> gostr \<Rightarrow> gostr \<Rightarrow> invokeResult \<Rightarrow> err option \<Rightarrow> gostr gact" where
  "recordExecution env ctx f kind payload result problem =
     (if \<not> geLogs env then retA []
      else
        let logsJSON = (case geLogsText env (irLogs result) of None \<Rightarrow> ''[]'' | Some t \<Rightarrow> t);
            detail = map_option classifyInvokeError problem in
        bindA newUUID (\<lambda>i. bindA nowA (\<lambda>now.
        handleA
          (bindA (ExecutionLog_Create
             \<lparr>elID = 0, elUUID = i, elFunctionID = fnUUID f, elAppID = firstNonEmpty [irAppID result, fnGeneratedAppID f],
              elUserID = (case RequireUserID ctx of Inl _ \<Rightarrow> [] | Inr u \<Rightarrow> u), elRequestID = geTrace env,
              elInvocationType = kind, elVersion = irVersion result,
              elStatus = (if problem = None then ''succeeded'' else ''failed''),
              elStage = (case detail of None \<Rightarrow> [] | Some d \<Rightarrow> ieStage d),
              elErrorCode = (case detail of None \<Rightarrow> [] | Some d \<Rightarrow> ieErrorCode d),
              elErrorMessage = (case detail of None \<Rightarrow> [] | Some d \<Rightarrow> ieErrorMessage d),
              elInputJSON = payload, elOutputJSON = irResponse result, elLogsJSON = logsJSON,
              elLogsTruncated = irLogsTruncated result, elCreatedAt = now\<rparr>) (\<lambda>_. retA i))
          (\<lambda>_. retA []))))"

subsection \<open>Public configuration\<close>

definition publicConfigResolveAction :: gostr where "publicConfigResolveAction = ''__platform.config.get''"

text \<open>\<open>None\<close> when the request does not ask for configuration.\<close>

definition publicConfigRequestKeys :: "'m gaEnv \<Rightarrow> gostr \<Rightarrow> (err + gostr list) option" where
  "publicConfigRequestKeys env payload =
     (if payload = [] then None
      else case geConfigRequest env payload of
        None \<Rightarrow> None
      | Some (action, keys) \<Rightarrow>
          (if trimSpace action \<noteq> publicConfigResolveAction then None
           else if keys = [] then Some (Inl (Err ''configKeys is required'')) else Some (Inr keys)))"

definition resolvePublicConfigInvoke :: "'m gaEnv \<Rightarrow> gostr \<Rightarrow> gostr list \<Rightarrow> invokeResult gact" where
  "resolvePublicConfigInvoke env appID keys =
     (case geConfig env of
        None \<Rightarrow> failA (Err ''public config runtime is not configured'')
      | Some resolve \<Rightarrow>
          bindA (runA (allowsConfigKeysA (geHost env) appID keys)) (\<lambda>declared.
          bindA (if declared then retA True else previewA (allowsConfigKeysA (gePreview env) appID keys)) (\<lambda>allowed.
            if \<not> allowed then failA (Err ''requested public config is not declared by this function'')
            else bindA (callA (resolve keys)) (\<lambda>encoded. retA (emptyResult\<lparr>irAppID := appID, irResponse := encoded\<rparr>)))))"

text \<open>The result, which is empty after an error, and the error.\<close>

definition resolvedConfig :: "'m gaEnv \<Rightarrow> gostr \<Rightarrow> gostr list \<Rightarrow> (invokeResult \<times> err option) gact" where
  "resolvedConfig env appID keys =
     bindA (tryA (resolvePublicConfigInvoke env appID keys)) (\<lambda>r.
       retA (case r of Inl e \<Rightarrow> (emptyResult, Some e) | Inr result \<Rightarrow> (result, None)))"

subsection \<open>Invocation\<close>

record invokeResp =
  ivAppID :: gostr
  ivErrorCode :: gostr
  ivErrorMessage :: gostr
  ivStage :: gostr
  ivHint :: gostr
  ivVersion :: gostr
  ivExport :: gostr
  ivResult :: u64
  ivResponse :: gostr
  ivModuleLen :: nat
  ivBackendSource :: gostr
  ivBackendModule :: gostr
  ivExecutionLogID :: gostr

definition emptyResp :: "gostr \<Rightarrow> invokeResp" where
  "emptyResp appID =
     \<lparr>ivAppID = appID, ivErrorCode = [], ivErrorMessage = [], ivStage = [], ivHint = [], ivVersion = [], ivExport = [], ivResult = 0,
      ivResponse = [], ivModuleLen = 0, ivBackendSource = [], ivBackendModule = [], ivExecutionLogID = []\<rparr>"

definition problemResp :: "gostr \<Rightarrow> gostr \<Rightarrow> gostr \<Rightarrow> gostr \<Rightarrow> gostr \<Rightarrow> invokeResp" where
  "problemResp appID code message stage hint =
     (emptyResp appID)\<lparr>ivErrorCode := code, ivErrorMessage := message, ivStage := stage, ivHint := hint\<rparr>"

definition resultResp :: "invokeResult \<Rightarrow> invokeResp" where
  "resultResp result =
     (emptyResp (irAppID result))\<lparr>ivVersion := irVersion result, ivExport := irExport result, ivResult := irResult result,
       ivResponse := irResponse result, ivModuleLen := irModuleLen result, ivBackendSource := irBackendSource result,
       ivBackendModule := irBackendModule result\<rparr>"

definition configResp ::
  "'m gaEnv \<Rightarrow> goctx \<Rightarrow> gostr \<Rightarrow> fnrow \<Rightarrow> gostr \<Rightarrow> err + gostr list \<Rightarrow> invokeResp gact" where
  "configResp env ctx appID f payload request =
     (case request of
        Inl e \<Rightarrow> retA (problemResp appID ''BAD_REQUEST'' (errText e) ''config'' [])
      | Inr keys \<Rightarrow>
          bindA (resolvedConfig env appID keys) (\<lambda>(result, problem).
          bindA (recordExecution env ctx f ''published'' payload result problem) (\<lambda>i.
            retA (case problem of
              Some e \<Rightarrow> (problemResp appID ''CONFIG_UNAVAILABLE'' (errText e) ''config'' (utf8 [232, 175, 183, 230, 163, 128, 230, 159, 165, 229, 133, 172, 229, 133, 177, 233, 133, 141, 231, 189, 174, 230, 152, 175, 229, 144, 166, 229, 173, 152, 229, 156, 168, 228, 184, 148, 230, 160, 188, 229, 188, 143, 230, 173, 163, 231, 161, 174]))\<lparr>ivExecutionLogID := i\<rparr>
            | None \<Rightarrow> (emptyResp appID)\<lparr>ivResponse := irResponse result, ivExecutionLogID := i\<rparr>))))"

definition runResp ::
  "'m gaEnv \<Rightarrow> goctx \<Rightarrow> gostr \<Rightarrow> fnrow \<Rightarrow> gostr \<Rightarrow> gostr option \<Rightarrow> invokeResp gact" where
  "runResp env ctx appID f payload priv =
     bindA (runA (Invoke (geHost env) priv (geModules env) appID payload)) (\<lambda>(result, problem).
     bindA (recordExecution env ctx f ''published'' payload result problem) (\<lambda>i.
       retA (case problem of
         Some e \<Rightarrow>
           (let detail = classifyInvokeError e in
            (problemResp appID (ieErrorCode detail) (ieErrorMessage detail) (ieStage detail) (ieHint detail))\<lparr>ivExecutionLogID := i\<rparr>)
       | None \<Rightarrow> (resultResp result)\<lparr>ivExecutionLogID := i\<rparr>)))"

definition needsDeclaration :: "gostr \<Rightarrow> bool" where
  "needsDeclaration actionKey \<longleftrightarrow>
     actionKey \<noteq> [] \<and> actionKey \<noteq> publicConfigResolveAction \<and> ActionRequiresAuthorization actionKey"

definition InvokeGeneratedApp :: "'m gaEnv \<Rightarrow> goctx \<Rightarrow> gostr \<Rightarrow> gostr \<Rightarrow> invokeResp gact" where
  "InvokeGeneratedApp env ctx given request =
     (let appID = trimSpace given;
          payload = (if request = [] then [CHR 0x7B, CHR 0x7D] else request);
          actionKey = extractInvokeActionKey (heJson (geHost env)) payload;
          checkAction = (if needsDeclaration actionKey then actionKey else []) in
      if appID = [] then failA (Err ''app id is required'')
      else
        bindA (requireActive env appID) (\<lambda>_.
        bindA (functionForApp appID) (\<lambda>f.
        bindA (if needsDeclaration actionKey then runA (declaresActionA (geHost env) appID actionKey) else retA True) (\<lambda>declared.
        if \<not> declared then
          retA (problemResp appID ''FORBIDDEN'' (utf8 [229, 138, 159, 232, 131, 189, 229, 138, 168, 228, 189, 156, 230, 156, 170, 229, 163, 176, 230, 152, 142]) ''auth'' (utf8 [232, 175, 183, 229, 143, 145, 229, 184, 131, 229, 140, 133, 229, 144, 171, 232, 175, 165, 229, 138, 168, 228, 189, 156, 230, 157, 131, 233, 153, 144, 229, 163, 176, 230, 152, 142, 231, 154, 132, 229, 138, 159, 232, 131, 189, 231, 137, 136, 230, 156, 172]))
        else
          bindA (tryA (requireRuntimeAccess env ctx f checkAction)) (\<lambda>granted.
            case granted of
              Inl e \<Rightarrow> retA (problemResp appID ''FORBIDDEN'' (utf8 [229, 189, 147, 229, 137, 141, 231, 148, 168, 230, 136, 183, 230, 151, 160, 230, 157, 131, 232, 174, 191, 233, 151, 174, 230, 173, 164, 229, 138, 159, 232, 131, 189]) ''auth'' (runtimeAccessHint checkAction))
            | Inr _ \<Rightarrow>
                (case publicConfigRequestKeys env payload of
                   Some asked \<Rightarrow> configResp env ctx appID f payload asked
                 | None \<Rightarrow> runResp env ctx appID f payload (if checkAction \<noteq> [] then Some checkAction else None)))))))"

subsection \<open>Drafts\<close>

definition applyDeclaredDataModels :: "hostEnv \<Rightarrow> gostr \<Rightarrow> unit aact" where
  "applyDeclaredDataModels env appID =
     bindA (manifestPathForApp (heLib env) (heCfg env) appID) (\<lambda>(_, item).
       if mfTables item \<noteq> [] then failA (Err ''legacy manifest DDL is not supported; declare dataModels instead'')
       else dataA (ApplyDataModels (dlib env) (deng env) appID (mfDataModels item)))"

definition ApplyDeclaredDataModels :: "hostEnv \<Rightarrow> gostr \<Rightarrow> unit aact" where
  "ApplyDeclaredDataModels env appID =
     (if acDraft (heCfg env) then failA (Err ''published data model runtime is not configured'')
      else applyDeclaredDataModels env appID)"

definition PrepareDraftDataModels :: "hostEnv \<Rightarrow> gostr \<Rightarrow> unit aact" where
  "PrepareDraftDataModels env appID =
     (if \<not> acDraft (heCfg env) then failA (Err ''draft data model runtime is not configured'')
      else applyDeclaredDataModels env appID)"

record appInspection =
  aiExists :: bool
  aiManifestVersion :: gostr
  aiName :: gostr
  aiDescription :: gostr
  aiActions :: "gostr list"
  aiUpdatedAtMicro :: int
  aiFrontendEntry :: gostr
  aiBackendModule :: gostr

definition fmtFrontendEntry :: "gostr \<Rightarrow> gostr" where
  "fmtFrontendEntry appID = ''/func-operation/generated-apps/'' @ appID @ ''/frontend.js''"

definition fileLatestModTimeMicro :: "appLib \<Rightarrow> gostr list \<Rightarrow> int aact" where
  "fileLatestModTimeMicro lib paths =
     bindA (updA (\<lambda>s. (foldl (\<lambda>latest p. case alModTime lib (svDisk s) p of
         None \<Rightarrow> latest | Some m \<Rightarrow> max latest m) 0 paths, s))) (\<lambda>latest.
       if latest = 0 then nowA else retA latest)"

definition noInspection :: appInspection where
  "noInspection = \<lparr>aiExists = False, aiManifestVersion = [], aiName = [], aiDescription = [], aiActions = [], aiUpdatedAtMicro = 0,
     aiFrontendEntry = [], aiBackendModule = []\<rparr>"

definition InspectApp :: "hostEnv \<Rightarrow> gostr \<Rightarrow> appInspection aact" where
  "InspectApp env given =
     (let appID = trimSpace given; dir = pathJoin [acRoot (heCfg env), appID]; path = manifestFile dir in
      if appID = [] then failA (Err ''app id is required'')
      else bindA (readFileA path) (\<lambda>a.
        case a of
          NotExist \<Rightarrow> retA noInspection
        | ReadError e \<Rightarrow> failA (answerErr path a)
        | Contents raw \<Rightarrow>
            bindA (decodeA (heLib env) dir raw) (\<lambda>(item, _, _).
            let md = firstNonEmpty [trimSpace (mfBackendModule item), ''backend.wasm''] in
            bindA (fileLatestModTimeMicro (heLib env) [path, pathJoin [dir, ''frontend.js''], pathJoin [dir, md]]) (\<lambda>updatedAt.
              retA \<lparr>aiExists = True, aiManifestVersion = trimSpace (mfVersion item), aiName = firstNonEmpty [trimSpace (mfName item), appID],
                aiDescription = trimSpace (mfDescription item), aiActions = mfActions item, aiUpdatedAtMicro = updatedAt,
                aiFrontendEntry = fmtFrontendEntry appID, aiBackendModule = md\<rparr>))))"

definition previewDeclares :: "'m gaEnv \<Rightarrow> gostr \<Rightarrow> gostr \<Rightarrow> bool aact" where
  "previewDeclares env appID actionKey =
     bindA (tryA (InspectApp (gePreview env) appID)) (\<lambda>r.
       retA (case r of Inl e \<Rightarrow> False | Inr item \<Rightarrow> aiExists item \<and> actionDeclaredInManifest (aiActions item) actionKey))"

text \<open>The answer of a draft: its result, the error and the entry of the log.\<close>

definition PreviewInvoke :: "'m gaEnv \<Rightarrow> goctx \<Rightarrow> gostr \<Rightarrow> gostr \<Rightarrow> (invokeResult \<times> err option \<times> gostr) gact" where
  "PreviewInvoke env ctx functionID payload =
     bindA (draftGate env ctx functionID) (\<lambda>f.
       let appID = fnGeneratedAppID f; logged = (\<lambda>(result, problem).
         bindA (recordExecution env ctx f ''preview'' payload result problem) (\<lambda>i. retA (result, problem, i))) in
       case publicConfigRequestKeys env payload of
         Some (Inl e) \<Rightarrow> failA e
       | Some (Inr keys) \<Rightarrow> bindA (resolvedConfig env appID keys) logged
       | None \<Rightarrow>
           bindA (previewA (PrepareDraftDataModels (gePreview env) appID)) (\<lambda>_.
           let actionKey = extractInvokeActionKey (heJson (gePreview env)) payload in
           bindA (if needsDeclaration actionKey then previewA (previewDeclares env appID actionKey) else retA True) (\<lambda>declared.
             if \<not> declared then failA (Err ''preview action is not declared in manifest'')
             else bindA (previewA (InvokeWithObserver (gePreview env) (if needsDeclaration actionKey then Some actionKey else None)
                 (geModules env) appID payload)) logged)))"

subsection \<open>Lists and calls of other applications\<close>

definition checkCallCapability :: "'m gaEnv \<Rightarrow> goctx \<Rightarrow> gostr \<Rightarrow> capabilityCallRequest \<Rightarrow> dataListResult gact" where
  "checkCallCapability env ctx callerID req =
     (if trimSpace callerID = trimSpace (crAppID req) then failA (Err ''capability target must be a different function'')
      else
        bindA (requireActive env (crAppID req)) (\<lambda>_.
        bindA (functionForApp (crAppID req)) (\<lambda>target.
        bindA (requireRuntimeAccess env ctx target []) (\<lambda>_.
          runA (RunDeclaredCapability (geHost env) (crAppID req) (crCapability req) (crParams req))))))"

text \<open>\<open>rows\<close> answers with the rows of the table of applications, whose identifiers are unique.\<close>

definition ListApps :: "(nat \<Rightarrow> err + generatedApp list) \<Rightarrow> generatedApp list gact" where
  "ListApps rows = bindA (callA rows) (\<lambda>apps. retA (sort_key gaUUID apps))"

definition listedApp :: "'m gaEnv \<Rightarrow> goctx \<Rightarrow> gostr set \<Rightarrow> generatedApp \<Rightarrow> generatedApp option gact" where
  "listedApp env ctx published app =
     (if gaUUID app \<notin> published then retA None
      else bindA (tryA (functionForApp (gaUUID app))) (\<lambda>r.
        case r of
          Inl e \<Rightarrow> (if e = RecordNotFound then retA None else failA e)
        | Inr f \<Rightarrow> bindA (canAccessRuntime env ctx f []) (\<lambda>allowed. retA (if allowed then Some app else None))))"

definition ListGeneratedApps :: "'m gaEnv \<Rightarrow> goctx \<Rightarrow> (nat \<Rightarrow> err + generatedApp list) \<Rightarrow> generatedApp list gact" where
  "ListGeneratedApps env ctx rows =
     bindA (ListApps rows) (\<lambda>apps.
     bindA (fnA (PublishedAppIDs (geFn env))) (\<lambda>published.
     bindA (mapA (listedApp env ctx published) apps) (\<lambda>kept.
       retA (concat (map (\<lambda>q. case q of None \<Rightarrow> [] | Some app \<Rightarrow> [app]) kept)))))"

end
