(* ===== verification/App_Store.thy ===== *)
theory App_Store
  imports App_Files
begin

text \<open>
  What the local store of releases keeps: no promotion and no clean-up touches a release that is
  there, unless the clean-up is told that nothing refers to it.  And what the fingerprint of a
  release does not tell apart.
\<close>

subsection \<open>Places on the disk\<close>

lemma below_refl [simp]: "below t t"
  by (simp add: below_def)

lemma below_iff: "below t p \<longleftrightarrow> p = t \<or> (\<exists>q. p = t @ slash # q)"
  by (auto simp: below_def hasPrefix_def prefix_def)

lemma below_trans: "below a b \<Longrightarrow> below b c \<Longrightarrow> below a c"
  unfolding below_iff by auto

text \<open>Entries of one directory have nothing in common.\<close>

lemma below_child:
  assumes "slash \<notin> set n"
  shows "below (rel @ slash # n) p \<longleftrightarrow> (\<exists>q. p = rel @ slash # q \<and> takeWhile (\<lambda>c. c \<noteq> slash) q = n)"
proof
  assume "below (rel @ slash # n) p"
  then consider "p = rel @ slash # n" | r where "p = rel @ slash # n @ slash # r" by (auto simp: below_iff)
  then show "\<exists>q. p = rel @ slash # q \<and> takeWhile (\<lambda>c. c \<noteq> slash) q = n"
  proof cases
    case 1
    have "takeWhile (\<lambda>c. c \<noteq> slash) n = n" using assms by (auto simp: takeWhile_eq_all_conv)
    then show ?thesis using 1 by blast
  next
    case 2
    have "takeWhile (\<lambda>c. c \<noteq> slash) (n @ slash # r) = n"
      using assms by (subst takeWhile_append2) auto
    then show ?thesis using 2 by auto
  qed
next
  assume "\<exists>q. p = rel @ slash # q \<and> takeWhile (\<lambda>c. c \<noteq> slash) q = n"
  then obtain q where q: "p = rel @ slash # q" "takeWhile (\<lambda>c. c \<noteq> slash) q = n" by blast
  show "below (rel @ slash # n) p"
  proof (cases "dropWhile (\<lambda>c. c \<noteq> slash) q")
    case Nil
    then have "q = n" using q(2) takeWhile_dropWhile_id [of "\<lambda>c. c \<noteq> slash" q] by (metis append_Nil2)
    then show ?thesis using q(1) by simp
  next
    case (Cons c r)
    then have "c = slash" using hd_dropWhile [of "\<lambda>c. c \<noteq> slash" q] by simp
    then have "q = n @ slash # r" using takeWhile_dropWhile_id [of "\<lambda>c. c \<noteq> slash" q] q(2) Cons by simp
    then show ?thesis using q(1) by (auto simp: below_iff)
  qed
qed

lemma siblings_apart:
  "slash \<notin> set n \<Longrightarrow> slash \<notin> set m \<Longrightarrow> n \<noteq> m \<Longrightarrow> below (rel @ slash # n) p \<Longrightarrow> \<not> below (rel @ slash # m) p"
  by (auto simp: below_child)

lemma parent_apart: "\<not> below (rel @ slash # n) rel"
  by (auto simp: below_iff)

lemma map_of_removeTree: "\<not> below x p \<Longrightarrow> map_of (removeTree x d) p = map_of d p"
  by (induction d) (auto simp: removeTree_def)

lemma map_of_renameTree:
  assumes "\<not> below a p" and "\<not> below b p"
  shows "map_of (renameTree a b d) p = map_of d p"
proof (induction d)
  case (Cons e d)
  obtain q n where e: "e = (q, n)" by (cases e)
  have "below a q \<Longrightarrow> b @ drop (length a) q \<noteq> p" using assms(2) by (auto simp: below_iff)
  then show ?case using Cons assms(1) e by (auto simp: renameTree_def)
qed (simp add: renameTree_def)

subsection \<open>Keeping a release\<close>

definition keepsRelease :: "gostr \<Rightarrow> disk \<Rightarrow> disk \<Rightarrow> bool" where
  "keepsRelease target d d' \<longleftrightarrow> map_of d target = None \<or> (\<forall>p. below target p \<longrightarrow> map_of d' p = map_of d p)"

interpretation kept: frame_relation "\<lambda>s s'. keepsRelease target (svDisk s) (svDisk s')" for target
  by unfold_locales (fastforce simp: keepsRelease_def)+

lemma keeps_diskA:
  assumes "\<And>d d'. f d = Inr d' \<Longrightarrow> keepsRelease target d d'"
  shows "leavesA (\<lambda>s s'. keepsRelease target (svDisk s) (svDisk s')) (diskA f)"
  unfolding diskA_def by (rule kept.leaves_stmt) (auto split: sum.splits intro: assms)

lemma keeps_update: "\<not> below target x \<Longrightarrow> keepsRelease target d (AList.update x n d)"
  by (auto simp: keepsRelease_def update_conv')

lemma keeps_putFile: "putFile x c d = Inr d' \<Longrightarrow> \<not> below target x \<Longrightarrow> keepsRelease target d d'"
  by (auto simp: putFile_def keeps_update split: option.splits diskNode.splits)

lemma keeps_refl: "keepsRelease target d d"
  by (simp add: keepsRelease_def)

lemma keeps_makeDir: "makeDir x d = Inr d' \<Longrightarrow> \<not> below target x \<Longrightarrow> keepsRelease target d d'"
  by (auto simp: makeDir_def keeps_update keeps_refl split: option.splits if_splits)

lemma keeps_trans: "keepsRelease target a b \<Longrightarrow> keepsRelease target b c \<Longrightarrow> keepsRelease target a c"
  by (auto simp: keepsRelease_def)

lemma keeps_makeDirs:
  "makeDirs xs d = Inr d' \<Longrightarrow> \<forall>x \<in> set xs. \<not> below target x \<Longrightarrow> keepsRelease target d d'"
proof (induction xs arbitrary: d)
  case (Cons x xs)
  then obtain d1 where "makeDir x d = Inr d1" "makeDirs xs d1 = Inr d'" by (auto simp: bindR_Inr_iff)
  moreover have "keepsRelease target d d1" by (rule keeps_makeDir) (use calculation Cons.prems(2) in auto)
  moreover have "keepsRelease target d1 d'" by (rule Cons.IH) (use calculation Cons.prems(2) in auto)
  ultimately show ?case using keeps_trans by blast
qed (simp add: keeps_refl)

lemma parentDirs_below: "x \<in> set (parentDirs dir ps) \<Longrightarrow> below dir x"
proof (induction dir ps rule: parentDirs.induct)
  case (1 dir p q ps)
  have here: "below dir (dir @ ''/'' @ p)" by (auto simp: below_iff)
  have "x = dir @ ''/'' @ p \<or> x \<in> set (parentDirs (dir @ ''/'' @ p) (q # ps))" using 1(2) by simp
  then show ?case using here 1(1) below_trans [OF here] by blast
qed auto

subsection \<open>The store\<close>

abbreviation relPath :: "gostr list \<Rightarrow> gostr" where
  "relPath dirs \<equiv> slash # joinWith ''/'' (dirs @ [''.releases''])"

lemma proper_releases: "properName ''.releases''"
  by (simp add: properName_def)

lemma join_one:
  assumes "list_all properName ps" and "ps \<noteq> []" and "properName n"
  shows "pathJoin [slash # joinWith ''/'' ps, n] = (slash # joinWith ''/'' ps) @ slash # n"
  using join_below [of ps "[n]"] joinWith_append [of ps "[n]" "''/''"] assms by simp

lemma releaseDir_path:
  assumes "acRoot cfg = slash # joinWith ''/'' dirs" and "dirs \<noteq> []" and "list_all properName dirs"
  shows "releaseDir cfg = relPath dirs"
  using join_below [OF assms(2,3), of "[''.releases'']"] proper_releases assms(1) by (simp add: releaseDir_def)

lemma hexLower_slash: "\<not> hexLower slash" "\<not> hexLower CHR ''.''"
  by (simp_all add: hexLower_def asciiDigit_def)

lemma sha_proper:
  assumes "artifactSHA256Pattern h"
  shows "properName h" "slash \<notin> set h" "\<not> hasPrefix h ''.''"
  using assms hexLower_slash
  by (auto simp: artifactSHA256Pattern_def properName_def list_all_iff hasPrefix_def prefix_def)

lemma digits_no_slash: "slash \<notin> set (decimal n)"
proof -
  have "slash \<noteq> char_of (48 + k mod 10)" for k :: nat
  proof
    assume "slash = char_of (48 + k mod 10)"
    then have "(of_char slash :: nat) = of_char (char_of (48 + k mod 10) :: char)" by simp
    then have code: "(47 :: nat) = (48 + k mod 10) mod 256" by simp
    have "k mod 10 < 10" by simp
    then have "(48 + k mod 10) mod 256 = 48 + k mod 10" by (intro mod_less) linarith
    then show False using code by linarith
  qed
  note digit = this
  show ?thesis
  proof (induction n rule: decimal.induct)
    case (1 n)
    show ?case using 1 digit [of n] digit [of n] by (subst decimal.simps) (cases "n < 10"; simp)
  qed
qed

text \<open>A name that passes the check stays in the directory, or is the directory above it.\<close>

lemma valid_file_path:
  assumes ok: "validateArtifactFileName name = Inr ()" and ps: "ps \<noteq> []" "list_all properName ps"
  shows "below (slash # joinWith ''/'' ps) (pathJoin [slash # joinWith ''/'' ps, pathClean name]) \<or>
    pathJoin [slash # joinWith ''/'' ps, pathClean name] = slash # joinWith ''/'' (butlast ps)"
proof -
  have name: "pathClean name = name" "name \<noteq> []" "\<not> hasPrefix name ''/''" "name \<noteq> ''.''" "\<not> hasPrefix name ''../''"
    using ok by (auto simp: validateArtifactFileName_def Let_def split: if_splits)
  obtain j ns where parts: "cleanParts False [] (splitOn slash name) = replicate j ''..'' @ ns" and ns: "list_all properName ns"
    by (rule clean_shape [of False name])
  have shape: "name = joinWith ''/'' (replicate j ''..'' @ ns)" "replicate j ''..'' @ ns \<noteq> []"
    using name parts by (auto simp: pathClean_def Let_def split: if_splits)
  show ?thesis
  proof (cases j)
    case 0
    then have "pathJoin [slash # joinWith ''/'' ps, name] = slash # joinWith ''/'' (ps @ ns)"
      using join_below [OF ps _ ns] shape by simp
    also have "\<dots> = (slash # joinWith ''/'' ps) @ slash # joinWith ''/'' ns"
      using joinWith_append [of ps ns "''/''"] ps(1) shape 0 by simp
    finally show ?thesis using name(1) by (auto simp: below_iff)
  next
    case (Suc k)
    have "replicate k ''..'' @ ns = []"
    proof (rule ccontr)
      assume more: "replicate k ''..'' @ ns \<noteq> []"
      have "name = joinWith ''/'' ([''..''] @ (replicate k ''..'' @ ns))" using shape(1) Suc by simp
      also have "\<dots> = ''../'' @ joinWith ''/'' (replicate k ''..'' @ ns)"
        using joinWith_append [OF _ more, of "[''..'']" "''/''"] by simp
      finally show False using name(5) by (simp add: hasPrefix_def)
    qed
    then have up: "name = ''..''" using shape(1) Suc by simp
    obtain ms m where m: "ps = ms @ [m]" using ps(1) by (cases ps rule: rev_cases) auto
    have "splitOn slash (slash # joinWith ''/'' (ps @ [''..''])) = [] # ps @ [''..'']"
      by (rule split_rooted) (use proper_no_slash [OF ps(2)] in auto)
    moreover have "cleanParts True [] (ps @ [''..'']) = ms"
      using cleanParts_proper [OF ps(2), of True "[]" "[''..'']"] m ps(2) by (auto dest: properNameD)
    ultimately have "pathClean (slash # joinWith ''/'' (ps @ [''..''])) = slash # joinWith ''/'' (butlast ps)"
      using m by (simp add: pathClean_def hasPrefix_def Let_def)
    then show ?thesis
      using joinWith_append [OF ps(1), of "[''..'']" "''/''"] name(1) up by (simp add: pathJoin_def)
  qed
qed

lemma readonly_stat: "readonly (statA p)"
  by (simp add: statA_def)

text \<open>What happens below a staging directory leaves the releases alone.\<close>

lemma write_keeps:
  assumes apart: "\<And>p. below tmp p \<Longrightarrow> \<not> below target p"
    and up: "\<And>name. validateArtifactFileName name = Inr () \<Longrightarrow> \<not> below target (pathJoin [tmp, pathClean name])"
  shows "leavesA (\<lambda>s s'. keepsRelease target (svDisk s) (svDisk s')) (writeArtifactFile tmp file)"
proof (cases "validateArtifactFileName (fst file) = Inr ()")
  case True
  have dirs: "leavesA (\<lambda>s s'. keepsRelease target (svDisk s) (svDisk s')) (diskA (makeDirs (parentDirs tmp ps)))" for ps
  proof (rule keeps_diskA)
    fix d d' assume "makeDirs (parentDirs tmp ps) d = Inr d'"
    then show "keepsRelease target d d'"
      by (rule keeps_makeDirs) (use apart parentDirs_below [of _ tmp ps] in blast)
  qed
  have content: "leavesA (\<lambda>s s'. keepsRelease target (svDisk s) (svDisk s')) (writeFileA (pathJoin [tmp, pathClean (fst file)]) c)" for c
    unfolding writeFileA_def by (rule keeps_diskA) (use keeps_putFile up [OF True] in blast)
  show ?thesis unfolding writeArtifactFile_def
    by (intro kept.leaves_bind dirs content kept.leaves_readonly readonly_basic)
next
  case False
  then obtain e where "validateArtifactFileName (fst file) = Inl e" by (cases "validateArtifactFileName (fst file)") auto
  then show ?thesis by (simp add: writeArtifactFile_def leavesA_def bindA_def liftA_def keeps_refl)
qed

lemma stage_keeps:
  assumes apart: "\<And>p. below tmp p \<Longrightarrow> \<not> below target p"
    and up: "\<And>name. validateArtifactFileName name = Inr () \<Longrightarrow> \<not> below target (pathJoin [tmp, pathClean name])"
    and new: "new = target \<or> (\<forall>p. below new p \<longrightarrow> \<not> below target p)"
  shows "leavesA (\<lambda>s s'. keepsRelease target (svDisk s) (svDisk s')) (stageRelease tmp new bundle)"
proof -
  have move: "leavesA (\<lambda>s s'. keepsRelease target (svDisk s) (svDisk s')) (renameDir tmp new)"
    unfolding renameDir_def
  proof (rule keeps_diskA)
    fix d d' assume "(if map_of d new \<noteq> None then Inl (Err ''rename: file exists'') else Inr (renameTree tmp new d)) = Inr d'"
    then have free: "map_of d new = None" and d': "d' = renameTree tmp new d" by (auto split: if_splits)
    show "keepsRelease target d d'"
    proof (cases "new = target")
      case True
      then show ?thesis using free by (simp add: keepsRelease_def)
    next
      case False
      have "map_of d' p = map_of d p" if "below target p" for p
        unfolding d' by (rule map_of_renameTree) (use that apart new False in blast)+
      then show ?thesis by (simp add: keepsRelease_def)
    qed
  qed
  show ?thesis unfolding stageRelease_def writeArtifactBundle_def sealArtifactDir_def statA_def
    by (intro kept.leaves_rules write_keeps [OF apart up] move kept.leaves_readonly readonly_basic readonly_query)
      (auto intro!: kept.leaves_rules kept.leaves_readonly split: sum.splits option.splits)
qed

definition releasePath :: "gostr list \<Rightarrow> gostr \<Rightarrow> gostr" where
  "releasePath dirs n = relPath dirs @ slash # n"

definition stagingName :: "nat \<Rightarrow> gostr" where
  "stagingName n = ''.staging-'' @ decimal n"

lemmas kept_basic = readonly_basic(1-3) [THEN kept.leaves_readonly]

definition placeOk :: "appConfig \<Rightarrow> gostr list \<Rightarrow> gostr \<Rightarrow> bool" where
  "placeOk cfg dirs h \<longleftrightarrow> acRoot cfg = slash # joinWith ''/'' dirs \<and> dirs \<noteq> [] \<and> list_all properName dirs \<and>
     artifactSHA256Pattern h"

lemma placeOkD:
  assumes "placeOk cfg dirs h"
  shows place_at: "acRoot cfg = slash # joinWith ''/'' dirs" and place_dirs: "dirs \<noteq> []"
    and place_proper: "list_all properName dirs" and place_sha: "artifactSHA256Pattern h"
  using assms by (simp_all add: placeOk_def)

lemma rel_parts:
  assumes place: "placeOk cfg dirs h"
  shows "list_all properName (dirs @ [''.releases''])" "dirs @ [''.releases''] \<noteq> []"
  using place_proper [OF place] proper_releases by simp_all

lemma entry_path:
  assumes place: "placeOk cfg dirs h"
  shows "properName n \<Longrightarrow> pathJoin [releaseDir cfg, n] = releasePath dirs n"
  using join_one [OF rel_parts [OF place]] releaseDir_path [OF place_at [OF place] place_dirs [OF place] place_proper [OF place]] by (simp add: releasePath_def)

lemma entry_apart:
  assumes place: "placeOk cfg dirs h"
  shows "properName n \<Longrightarrow> n \<noteq> h \<Longrightarrow> below (releasePath dirs n) p \<Longrightarrow> \<not> below (releasePath dirs h) p"
  using siblings_apart [of n h "relPath dirs" p] properNameD(4) sha_proper(2) [OF place_sha [OF place]] unfolding releasePath_def by blast

lemma staging_proper: "properName (stagingName n)"
  using digits_no_slash [of n] by (auto simp: properName_def stagingName_def)

lemma staging_prefix:
  assumes place: "placeOk cfg dirs h"
  shows "hasPrefix n ''.staging-'' \<Longrightarrow> n \<noteq> h"
  using sha_proper(3) [OF place_sha [OF place]] by (auto simp: hasPrefix_def prefix_def)

lemma staging_other:
  assumes place: "placeOk cfg dirs h"
  shows "stagingName n \<noteq> h"
  by (rule staging_prefix [OF place]) (simp add: stagingName_def hasPrefix_def)

lemma staging_path:
  assumes place: "placeOk cfg dirs h"
  shows "pathJoin [releaseDir cfg, ''.staging-'' @ decimal n] = releasePath dirs (stagingName n)"
  using entry_path [OF place staging_proper] by (simp add: stagingName_def)

lemma rel_apart:
  assumes place: "placeOk cfg dirs h"
  shows "\<not> below (releasePath dirs h) (releaseDir cfg)"
  unfolding releaseDir_path [OF place_at [OF place] place_dirs [OF place] place_proper [OF place]] releasePath_def by (rule parent_apart)

lemma tmp_up:
  assumes place: "placeOk cfg dirs h"
    and "validateArtifactFileName name = Inr ()"
  shows "\<not> below (releasePath dirs h) (pathJoin [releasePath dirs (stagingName n), pathClean name])"
proof -
  let ?t = "stagingName n"
  let ?ps = "(dirs @ [''.releases'']) @ [?t]"
  have ps: "?ps \<noteq> []" "list_all properName ?ps" using rel_parts [OF place] staging_proper by simp_all
  have tmp: "slash # joinWith ''/'' ?ps = releasePath dirs ?t"
    using joinWith_append [of "dirs @ [''.releases'']" "[?t]" "''/''"] by (simp add: releasePath_def)
  from valid_file_path [OF assms(2) ps] have
    "below (releasePath dirs ?t) (pathJoin [releasePath dirs ?t, pathClean name]) \<or>
     pathJoin [releasePath dirs ?t, pathClean name] = relPath dirs"
    unfolding tmp butlast_snoc .
  then show ?thesis
    using entry_apart [OF place staging_proper staging_other [OF place]] parent_apart [of "relPath dirs" h, folded releasePath_def] by metis
qed

lemma removeTree_keeps:
  assumes place: "placeOk cfg dirs h"
    and "properName n" and "n \<noteq> h"
  shows "keepsRelease (releasePath dirs h) d (removeTree (releasePath dirs n) d)"
proof -
  have "map_of (removeTree (releasePath dirs n) d) p = map_of d p" if "below (releasePath dirs h) p" for p
    by (rule map_of_removeTree) (use entry_apart [OF assms] that in blast)
  then show ?thesis by (simp add: keepsRelease_def)
qed

lemma promote_keeps:
  assumes place: "placeOk cfg dirs h"
  shows "leavesA (\<lambda>s s'. keepsRelease (releasePath dirs h) (svDisk s) (svDisk s')) (Store_Promote lib cfg bundle)"
proof (cases "artifactSHA256Pattern (abSHA256 bundle)")
  case True
  note new = entry_path [OF place sha_proper(1) [OF True]]
  have target: "abSHA256 bundle = h \<or> (\<forall>p. below (releasePath dirs (abSHA256 bundle)) p \<longrightarrow> \<not> below (releasePath dirs h) p)"
    using entry_apart [OF place sha_proper(1) [OF True]] by blast
  have mk: "leavesA (\<lambda>s s'. keepsRelease (releasePath dirs h) (svDisk s) (svDisk s')) (diskA (makeDir (releaseDir cfg)))"
    by (rule keeps_diskA) (use keeps_makeDir rel_apart [OF place] in blast)
  have tmp: "leavesA (\<lambda>s s'. keepsRelease (releasePath dirs h) (svDisk s) (svDisk s'))
      (diskA (\<lambda>d. if map_of d (releasePath dirs (stagingName n)) \<noteq> None then Inl (Err ''mkdir: file exists'')
        else Inr (AList.update (releasePath dirs (stagingName n)) DiskDir d)))" for n
  proof (rule keeps_diskA)
    have "\<not> below (releasePath dirs h) (releasePath dirs (stagingName n))"
      using entry_apart [OF place staging_proper staging_other [OF place] below_refl] .
    then show "keepsRelease (releasePath dirs h) d d'" if "(if map_of d (releasePath dirs (stagingName n)) \<noteq> None then Inl (Err ''mkdir: file exists'')
        else Inr (AList.update (releasePath dirs (stagingName n)) DiskDir d)) = Inr d'" for d d'
      using that keeps_update by (auto split: if_splits)
  qed
  have stage: "leavesA (\<lambda>s s'. keepsRelease (releasePath dirs h) (svDisk s) (svDisk s'))
      (stageRelease (releasePath dirs (stagingName n)) (releasePath dirs (abSHA256 bundle)) bundle)" for n
    by (rule stage_keeps [OF entry_apart [OF place staging_proper staging_other [OF place]] tmp_up [OF place]]) (use target in blast)+
  note removed = removeTree_keeps [OF place staging_proper staging_other [OF place]]
  have drop: "leavesA (\<lambda>s s'. keepsRelease (releasePath dirs h) (svDisk s) (svDisk s')) (dropTree (releasePath dirs (stagingName n)))" for n
  proof -
    show ?thesis unfolding dropTree_def
      by (intro kept.leaves_handle keeps_diskA kept.leaves_readonly readonly_basic) (use removed in auto)
  qed
  have ok: "\<not> \<not> artifactSHA256Pattern (abSHA256 bundle)" using True by simp
  show ?thesis
    unfolding Store_Promote_def Let_def new staging_path [OF place] if_not_P [OF ok]
  proof (rule kept.leaves_bind [OF kept.leaves_readonly [OF readonly_stat]])
    fix found :: "diskNode option"
    show "leavesA (\<lambda>s s'. keepsRelease (releasePath dirs h) (svDisk s) (svDisk s')) (case found of
        None \<Rightarrow> bindA (diskA (makeDir (releaseDir cfg))) (\<lambda>_. bindA (drawA (alRandom lib)) (\<lambda>n.
          bindA (diskA (\<lambda>d. if map_of d (releasePath dirs (stagingName n)) \<noteq> None then Inl (Err ''mkdir: file exists'')
            else Inr (AList.update (releasePath dirs (stagingName n)) DiskDir d))) (\<lambda>_.
          bindA (tryA (stageRelease (releasePath dirs (stagingName n)) (releasePath dirs (abSHA256 bundle)) bundle)) (\<lambda>r.
          bindA (dropTree (releasePath dirs (stagingName n))) (\<lambda>_. liftA r)))))
      | Some x \<Rightarrow> retA ())"
      unfolding option.split
      by (intro conjI impI allI kept.leaves_bind mk tmp kept.leaves_try stage drop kept_basic kept.leaves_readonly [OF readonly_basic(7)])
  qed
next
  case False
  then show ?thesis by (simp add: Store_Promote_def leavesA_def failA_def keeps_refl)
qed

lemma readDir_no_slash: "n \<in> set (readDir d dir) \<Longrightarrow> slash \<notin> set n"
  by (auto simp: readDir_def entryName_def Let_def split: if_splits)

lemma remove_keeps:
  assumes place: "placeOk cfg dirs h"
    and "properName n" and "n \<noteq> h"
  shows "leavesA (\<lambda>s s'. keepsRelease (releasePath dirs h) (svDisk s) (svDisk s')) (removeArtifact (releasePath dirs n))"
proof -
  show ?thesis unfolding removeArtifact_def by (rule keeps_diskA) (use removeTree_keeps [OF assms] in auto)
qed

lemma entry_keeps:
  assumes place: "placeOk cfg dirs h"
    and "h \<in> referenced" and "slash \<notin> set name"
  shows "leavesA (\<lambda>s s'. keepsRelease (releasePath dirs h) (svDisk s) (svDisk s'))
    (reconcileEntry lib (releaseDir cfg) referenced staleAfter name result)"
proof (cases "hasPrefix name ''.staging-''")
  case True
  then obtain s where s: "name = ''.staging-'' @ s" by (auto simp: hasPrefix_def prefix_def)
  have name: "properName name" "name \<noteq> h" using s assms(3) staging_prefix [OF place True] by (auto simp: properName_def)
  note remove = kept.leaves_wrap [OF remove_keeps [OF place name]]
  show ?thesis unfolding reconcileEntry_def Let_def entry_path [OF place name(1)] withTextA_def if_P [OF True]
    by (intro kept.leaves_bind kept.leaves_readonly [OF readonly_query] kept.leaves_readonly [OF readonly_basic(6)])
      (auto intro!: kept.leaves_bind [OF remove] kept_basic split: option.splits)
next
  case False
  show ?thesis
  proof (cases "artifactSHA256Pattern name \<and> name \<notin> referenced")
    case True
    then have name: "properName name" "name \<noteq> h" using sha_proper(1) assms(2) by auto
    note remove = kept.leaves_wrap [OF remove_keeps [OF place name]]
    show ?thesis using True False unfolding reconcileEntry_def Let_def entry_path [OF place name(1)] withTextA_def
      by (auto intro!: kept.leaves_bind [OF remove] kept_basic)
  next
    case nothing: False
    then have "reconcileEntry lib (releaseDir cfg) referenced staleAfter name result = retA result"
      using False by (auto simp: reconcileEntry_def Let_def)
    then show ?thesis by (simp add: kept.leaves_readonly)
  qed
qed

lemma entries_keep:
  assumes place: "placeOk cfg dirs h"
  shows "h \<in> referenced \<Longrightarrow> \<forall>n \<in> set names. slash \<notin> set n \<Longrightarrow>
   leavesA (\<lambda>s s'. keepsRelease (releasePath dirs h) (svDisk s) (svDisk s')) (reconcileEntries lib (releaseDir cfg) referenced staleAfter names result)"
  by (induction names arbitrary: result) (simp_all add: kept.leaves_readonly kept.leaves_bind entry_keeps [OF place])

lemma reconcile_keeps:
  assumes place: "placeOk cfg dirs h"
    and "h \<in> set referenced"
  shows "leavesA (\<lambda>s s'. keepsRelease (releasePath dirs h) (svDisk s) (svDisk s')) (Store_Reconcile lib cfg referenced staleAfter)"
proof -
  let ?q = "withTextA ''read local release store: '' (queryA (\<lambda>s.
      Inr (if map_of (svDisk s) (releaseDir cfg) = None then None else Some (readDir (svDisk s) (releaseDir cfg)))))"
  have ro: "readonly ?q" by (simp add: withTextA_def readonly_wrap)
  let ?k = "\<lambda>entries. case entries of None \<Rightarrow> retA \<lparr>rcOrphans = 0, rcStaging = 0\<rparr>
        | Some names \<Rightarrow> reconcileEntries lib (releaseDir cfg) (set referenced) staleAfter names \<lparr>rcOrphans = 0, rcStaging = 0\<rparr>"
  have names: "entries = Some names \<Longrightarrow> \<forall>n \<in> set names. slash \<notin> set n" if "?q w = (Inr entries, w')" for entries names w w'
    using that readDir_no_slash unfolding withTextA_def wrapErrA_Inr_iff queryA_Inr_iff by (auto split: if_splits)
  have all: "keepsRelease (releasePath dirs h) (svDisk (db w)) (svDisk (db (snd (bindA ?q ?k w))))" for w
  proof (cases "?q w")
    case (Pair r w1)
    have same: "db w1 = db w" by (rule readonlyD [OF ro Pair])
    show ?thesis
    proof (cases r)
      case (Inl e)
      then show ?thesis using Pair same by (simp add: bindA_def keeps_refl)
    next
      case (Inr entries)
      have "keepsRelease (releasePath dirs h) (svDisk (db w1)) (svDisk (db (snd (?k entries w1))))"
      proof (cases entries)
        case (Some names)
        have "\<forall>n \<in> set names. slash \<notin> set n" using names Pair Inr Some by blast
        from entries_keep [OF assms this] show ?thesis using Some by (simp add: leavesA_def)
      qed (simp add: keeps_refl retA_def)
      then show ?thesis using Pair Inr same by (simp add: bindA_def)
    qed
  qed
  show ?thesis
  proof (cases "list_all artifactSHA256Pattern referenced")
    case True
    then show ?thesis using all unfolding Store_Reconcile_def leavesA_def by (simp only: not_True_eq_False if_False) blast
  next
    case False
    then show ?thesis by (simp add: Store_Reconcile_def kept.leaves_readonly)
  qed
qed



text \<open>
  A sequence of calls of the store; each may fail.
\<close>

datatype storeCall = CallPromote artifactBundle | CallReconcile "gostr list" int

fun runStore :: "appLib \<Rightarrow> appConfig \<Rightarrow> storeCall list \<Rightarrow> unit aact" where
  "runStore lib cfg [] = retA ()"
| "runStore lib cfg (CallPromote b # calls) =
     bindA (tryA (Store_Promote lib cfg b)) (\<lambda>_. runStore lib cfg calls)"
| "runStore lib cfg (CallReconcile referenced stale # calls) =
     bindA (tryA (Store_Reconcile lib cfg referenced stale)) (\<lambda>_. runStore lib cfg calls)"

fun refersTo :: "gostr \<Rightarrow> storeCall \<Rightarrow> bool" where
  "refersTo h (CallPromote b) \<longleftrightarrow> True"
| "refersTo h (CallReconcile referenced stale) \<longleftrightarrow> h \<in> set referenced"

lemma run_keeps:
  assumes place: "placeOk cfg dirs h"
  shows "list_all (refersTo h) calls \<Longrightarrow> leavesA (\<lambda>s s'. keepsRelease (releasePath dirs h) (svDisk s) (svDisk s')) (runStore lib cfg calls)"
proof (induction calls)
  case (Cons c calls)
  show ?case
  proof (cases c)
    case (CallPromote b)
    then show ?thesis using Cons by (simp add: kept.leaves_bind kept.leaves_try promote_keeps [OF place])
  next
    case (CallReconcile referenced stale)
    then show ?thesis using Cons by (simp add: kept.leaves_bind kept.leaves_try reconcile_keeps [OF place])
  qed
qed (simp add: kept_basic)


text \<open>
  C32: a release that is there is not changed any more: in any sequence of promotions and
  clean-ups, whatever fails on the way, every file at or below its directory keeps its contents,
  as long as each clean-up is told that the release is referred to.
\<close>

theorem releases_immutable:
  assumes "runStore lib cfg calls w = (r, w')" and "list_all (refersTo h) calls"
    and "acRoot cfg = slash # joinWith ''/'' dirs" and "dirs \<noteq> []" and "list_all properName dirs" and "artifactSHA256Pattern h"
    and "map_of (svDisk (db w)) (releasePath dirs h) \<noteq> None" and "below (releasePath dirs h) p"
  shows "diskRead (svDisk (db w')) p = diskRead (svDisk (db w)) p"
proof -
  have at: "placeOk cfg dirs h" using assms(3-6) by (simp add: placeOk_def)
  show ?thesis
    using leavesAD [OF run_keeps [OF at assms(2)] assms(1)] assms(7,8) by (auto simp: keepsRelease_def diskRead_def)
qed


text \<open>A concrete runtime for the examples: no JSON is understood, no query is answered.\<close>

definition noAnswer :: "'a \<Rightarrow> err + 'b" where
  "noAnswer x = Inl (Err ''no answer'')"

definition plainJson :: manifestJson where
  "plainJson =
     \<lparr>jsEnvelope = noAnswer, jsMarshalEnvelope = noAnswer, jsManifest = noAnswer, jsMarshalManifest = noAnswer,
      jsModels = noAnswer, jsFlexModels = noAnswer, jsFields = noAnswer, jsTypeMap = noAnswer, jsRelations = noAnswer,
      jsFlexRelations = noAnswer, jsQueries = noAnswer, jsStrings = noAnswer, jsFlexActions = noAnswer\<rparr>"

definition plainEngine :: dataEngine where
  "plainEngine =
     \<lparr>engDialect = ''mysql'', engHasTable = \<lambda>_ _. False, engColumns = \<lambda>_. noAnswer, engIndexNames = \<lambda>_. noAnswer,
      engCount = \<lambda>_. noAnswer, engRows = \<lambda>_. noAnswer, engExec = \<lambda>_. noAnswer\<rparr>"

definition plainAppLib :: appLib where
  "plainAppLib =
     \<lparr>alJson = plainJson, alSha256 = \<lambda>s. s, alCompile = \<lambda>_. Inr (), alHexError = \<lambda>_. ''hex'', alRandom = \<lambda>n. n,
      alModTime = \<lambda>_ _. None, alData = \<lparr>libSha1 = \<lambda>s. s, libParseFloat = \<lambda>_. None, libSprint = \<lambda>_. []\<rparr>,
      alEngine = plainEngine\<rparr>"

definition plainConfig :: appConfig where
  "plainConfig = \<lparr>acRoot = ''/apps'', acDraft = False, acMaxModuleBytes = 0, acMaxResultBytes = 0, acMaxLogBytes = 0\<rparr>"

definition runtimeWith :: "disk \<Rightarrow> appRuntime" where
  "runtimeWith d =
     \<lparr>svApps = Map.empty, svCompiled = Map.empty, svApproved = Map.empty, svActiveDirs = Map.empty, svDraftHashes = Map.empty,
      svResults = newResultTable, svDisk = d, svData = \<lparr>dsSent = [], dsApplied = []\<rparr>\<rparr>"

definition quietWorld :: "'d \<Rightarrow> 'd world" where
  "quietWorld d = \<lparr>db = d, tick = 0, clockAt = \<lambda>n. int n, uuidAt = \<lambda>n. ''u'', faultAt = \<lambda>n. None\<rparr>"

definition exampleHash :: gostr where
  "exampleHash = replicate 64 CHR ''a''"

definition exampleDisk :: disk where
  "exampleDisk =
     [(releasePath [''apps''] exampleHash, DiskDir),
      (releasePath [''apps''] exampleHash @ ''/frontend.js'', DiskFile ''x'')]"

theorem releases_immutable_witness:
  "\<exists>r w'. runStore plainAppLib plainConfig [CallReconcile [exampleHash] 1] (quietWorld (runtimeWith exampleDisk)) = (r, w') \<and>
     diskRead (svDisk (db w')) (releasePath [''apps''] exampleHash @ ''/frontend.js'') = Contents ''x''"
proof -
  let ?w = "quietWorld (runtimeWith exampleDisk)" and ?p = "releasePath [''apps''] exampleHash @ ''/frontend.js''"
  obtain r w' where run: "runStore plainAppLib plainConfig [CallReconcile [exampleHash] 1] ?w = (r, w')" by fastforce
  have disk: "svDisk (db ?w) = exampleDisk" by (simp add: quietWorld_def runtimeWith_def)
  have hash: "artifactSHA256Pattern exampleHash"
    by (simp add: exampleHash_def artifactSHA256Pattern_def list_all_iff hexLower_def asciiDigit_def)
  have there: "map_of (svDisk (db ?w)) (releasePath [''apps''] exampleHash) \<noteq> None" unfolding disk unfolding exampleDisk_def by simp
  have "diskRead (svDisk (db w')) ?p = diskRead (svDisk (db ?w)) ?p"
    by (rule releases_immutable [OF run _ _ _ _ hash there]) (simp_all add: plainConfig_def properName_def below_iff)
  also have "\<dots> = Contents ''x''" unfolding disk unfolding exampleDisk_def diskRead_def by simp
  finally show ?thesis using run by blast
qed

subsection \<open>What the fingerprint does not tell apart\<close>

text \<open>
  C39: the fingerprint does not determine the files: as contents may hold zero bytes, two sets of
  files with the same names and different contents are hashed as the same text, so they have the
  same fingerprint whatever the hash function is.
\<close>

theorem fingerprint_ambiguous:
  "\<exists>a b. map fst a = map fst b \<and> map fst a = [''backend.wasm'', ''frontend.js'', ''manifest.json''] \<and> a \<noteq> b \<and>
     fingerprint lib a = fingerprint lib b"
proof -
  let ?n = "[CHR 0x00]"
  let ?a = "[(''backend.wasm'', ''p''), (''frontend.js'', ''q'' @ ?n @ ''frontend.js'' @ ?n @ ''r''), (''manifest.json'', ''m'')]"
  let ?b = "[(''backend.wasm'', ''p'' @ ?n @ ''frontend.js'' @ ?n @ ''q''), (''frontend.js'', ''r''), (''manifest.json'', ''m'')]"
  have "fingerprintText ?a = fingerprintText ?b" by (simp add: fingerprintText_def)
  then have "fingerprint lib ?a = fingerprint lib ?b" by (simp only: fingerprint_def)
  moreover have "?a \<noteq> ?b" by simp
  ultimately show ?thesis by (intro exI [of _ ?a] exI [of _ ?b]) simp
qed

end
