(* ===== verification/App_Approved.thy ===== *)
theory App_Approved
  imports App_Runtime App_Store
begin

text \<open>
  What boot and publication load: only code that is in the release whose hash was approved.
\<close>

subsection \<open>Answers of actions that only read\<close>

definition gives :: "('d, 'a) act \<Rightarrow> ('d \<Rightarrow> 'a \<Rightarrow> bool) \<Rightarrow> bool" where
  "gives m P \<longleftrightarrow> (\<forall>w r w'. m w = (r, w') \<longrightarrow> db w' = db w \<and> (\<forall>x. r = Inr x \<longrightarrow> P (db w) x))"

lemma givesD:
  assumes "gives m P" and "m w = (r, w')"
  shows "db w' = db w" and "r = Inr x \<Longrightarrow> P (db w) x"
  using assms unfolding gives_def by blast+

lemma givesI:
  "(\<And>w r w'. m w = (r, w') \<Longrightarrow> db w' = db w) \<Longrightarrow> (\<And>w x w'. m w = (Inr x, w') \<Longrightarrow> P (db w) x) \<Longrightarrow> gives m P"
  unfolding gives_def by blast

lemma gives_post: "gives m P \<Longrightarrow> (\<And>d x. P d x \<Longrightarrow> Q d x) \<Longrightarrow> gives m Q"
  unfolding gives_def by blast

lemma gives_readonly: "readonly m \<Longrightarrow> gives m (\<lambda>_ _. True)"
  by (intro givesI) (simp_all add: readonlyD)

lemma gives_basic:
  "gives (retA x) (\<lambda>_ y. y = x)" "gives (failA e) (\<lambda>_ _. False)" "gives (liftA r) (\<lambda>_ y. r = Inr y)"
  "gives (queryA f) (\<lambda>d y. f d = Inr y)" "gives nowA (\<lambda>_ _. True)"
  by (auto intro!: givesI gives_readonly simp: queryA_Inr_iff readonlyD [OF readonly_query])

lemma gives_bind:
  assumes "gives m P" and "\<And>x. gives (k x) (Q x)"
  shows "gives (bindA m k) (\<lambda>d y. \<exists>x. P d x \<and> Q x d y)"
proof (rule givesI)
  fix w r w' assume "bindA m k w = (r, w')"
  then show "db w' = db w"
    using givesD(1) [OF assms(1)] givesD(1) [OF assms(2)]
    by (auto simp: bindA_def split: prod.splits sum.splits) (metis+)?
next
  fix w y w' assume "bindA m k w = (Inr y, w')"
  then obtain x v where "m w = (Inr x, v)" "k x v = (Inr y, w')" by (rule bindA_InrE)
  then show "\<exists>x. P (db w) x \<and> Q x (db w) y" using givesD [OF assms(1)] givesD [OF assms(2)] by metis
qed

lemma gives_wrap: "gives m P \<Longrightarrow> gives (wrapErrA f m) P"
  unfolding gives_def wrapErrA_def handleA_def failA_def
  by (auto split: prod.splits sum.splits)

lemma gives_text: "gives m P \<Longrightarrow> gives (withTextA text m) P"
  unfolding withTextA_def by (rule gives_wrap)

lemma gives_fail: "gives (failA e) P"
  by (rule gives_post [OF gives_basic(2)]) simp

lemma gives_guard: "gives m P \<Longrightarrow> gives (if c then failA e else m) (\<lambda>d x. \<not> c \<and> P d x)"
  by (auto intro: gives_fail gives_post)

lemma gives_map:
  assumes "\<And>x. gives (f x) (P x)"
  shows "gives (mapA f xs) (\<lambda>d ys. list_all2 (\<lambda>x y. P x d y) xs ys)"
proof (induction xs)
  case Nil
  show ?case unfolding mapA.simps by (rule gives_post [OF gives_basic(1)]) simp
next
  case (Cons x xs)
  have "gives (bindA (f x) (\<lambda>y. bindA (mapA f xs) (\<lambda>ys. retA (y # ys))))
    (\<lambda>d ys. \<exists>y. P x d y \<and> (\<exists>zs. list_all2 (\<lambda>x y. P x d y) xs zs \<and> ys = y # zs))"
    by (intro gives_bind assms Cons gives_basic(1))
  then show ?case by (auto intro: gives_post)
qed

lemma gives_file: "gives (readFileA p) (\<lambda>s a. diskRead (svDisk s) p = a \<or> (\<exists>e. a = ReadError e))"
proof (rule givesI)
  fix w r w' assume "readFileA p w = (r, w')"
  then show "db w' = db w" using readonlyD [OF readonly_handle [OF readonly_query]] unfolding readFileA_def
    by (metis readonly_basic(1))
next
  fix w x w' assume "readFileA p w = (Inr x, w')"
  then show "diskRead (svDisk (db w)) p = x \<or> (\<exists>e. x = ReadError e)"
    by (auto simp: readFileA_def handleA_def queryA_Inr_iff split: prod.splits sum.splits)
qed

lemma gives_content: "gives (readFileE p) (\<lambda>s c. diskRead (svDisk s) p = Contents c)"
proof -
  have "gives (case a of Contents c \<Rightarrow> retA c | _ \<Rightarrow> failA (answerErr p a)) (\<lambda>_ c. a = Contents c)" for a
    by (cases a) (auto intro: gives_post [OF gives_basic(1)] gives_post [OF gives_basic(2)])
  from gives_bind [OF gives_file this] show ?thesis
    unfolding readFileE_def by (rule gives_post) auto
qed

subsection \<open>Decoding a manifest on the disk\<close>

definition agrees :: "reader \<Rightarrow> reader \<Rightarrow> gostr \<Rightarrow> bool" where
  "agrees rd rd' p \<longleftrightarrow> rd p = rd' p \<or> (\<exists>e. rd p = ReadError e)"

lemma gives_reader:
  "gives (readerA dir) (\<lambda>s rd.
     agrees rd (diskRead (svDisk s)) (pathJoin [pathClean dir, ''frontend'', ''api.js'']) \<and>
     agrees rd (diskRead (svDisk s)) (pathJoin [pathClean dir, ''backend'', ''main.go'']))"
  unfolding readerA_def Let_def
  by (rule gives_post [OF gives_bind [OF gives_file gives_bind [OF gives_file gives_basic(1)]]]) (auto simp: agrees_def)

lemma extract_agrees:
  "extractActionStrings rd p f = Inr x \<Longrightarrow> agrees rd rd' p \<Longrightarrow> extractActionStrings rd' p f = Inr x"
  by (auto simp: extractActionStrings_def agrees_def)

lemma infer_agrees:
  assumes "inferManifestActions rd dir = Inr x"
    and "agrees rd rd' (pathJoin [dir, ''frontend'', ''api.js''])" "agrees rd rd' (pathJoin [dir, ''backend'', ''main.go''])"
  shows "inferManifestActions rd' dir = Inr x"
  using assms(1) extract_agrees [OF _ assms(2)] extract_agrees [OF _ assms(3)]
  unfolding inferManifestActions_def bindR_Inr_iff by blast

lemma normalize_agrees:
  assumes "normalizeManifestActions rd dir item = Inr x"
    and "agrees rd rd' (pathJoin [dir, ''frontend'', ''api.js''])" "agrees rd rd' (pathJoin [dir, ''backend'', ''main.go''])"
  shows "normalizeManifestActions rd' dir item = Inr x"
proof (cases "normalizeSortedUniqueStrings (mfActions item) = []")
  case True
  obtain inferred where "inferManifestActions rd dir = Inr inferred"
    using assms(1) True by (auto simp: normalizeManifestActions_def bindR_Inr_iff)
  then show ?thesis using assms(1) infer_agrees [OF _ assms(2,3)] True
    by (simp add: normalizeManifestActions_def)
next
  case False
  then show ?thesis using assms(1) by (simp add: normalizeManifestActions_def)
qed

lemma clean_dot: "pathClean (if p = [] then ''.'' else p) = pathClean p"
  by (auto simp: pathClean_def Let_def hasPrefix_def)

lemma decode_agrees:
  assumes run: "decodeManifestWithDir js rd dir raw = Inr x"
    and "agrees rd rd' (pathJoin [pathClean dir, ''frontend'', ''api.js''])" "agrees rd rd' (pathJoin [pathClean dir, ''backend'', ''main.go''])"
  shows "decodeManifestWithDir js rd' dir raw = Inr x"
  using run normalize_agrees [OF _ assms(2,3)]
  unfolding decodeManifestWithDir_def Let_def clean_dot bindR_Inr_iff wrapErr_Inr_iff case_prod_unfold by blast

abbreviation decoded :: "appLib \<Rightarrow> disk \<Rightarrow> gostr \<Rightarrow> gostr \<Rightarrow> err + (manifest \<times> gostr \<times> bool)" where
  "decoded lib d dir raw \<equiv> decodeManifestWithDir (alJson lib) (diskRead d) dir raw"

lemma gives_decode: "gives (decodeA lib dir raw) (\<lambda>s x. decoded lib (svDisk s) dir raw = Inr x)"
  unfolding decodeA_def
  by (rule gives_post [OF gives_bind [OF gives_reader gives_basic(3)]]) (use decode_agrees in blast)

subsection \<open>Loading a release\<close>

lemma gives_prod: "(\<And>x y. gives (f x y) (P x y)) \<Longrightarrow> gives (case p of (x, y) \<Rightarrow> f x y) (\<lambda>s z. case p of (x, y) \<Rightarrow> P x y s z)"
  by (cases p) simp

definition manifestAt :: "appLib \<Rightarrow> disk \<Rightarrow> gostr \<Rightarrow> manifest \<Rightarrow> bool" where
  "manifestAt lib d dir item \<longleftrightarrow>
     (\<exists>raw n. diskRead d (manifestFile dir) = Contents raw \<and> decoded lib d (pathDir (manifestFile dir)) raw = Inr (item, n, False))"

lemma manifestAt_unique: "manifestAt lib d dir a \<Longrightarrow> manifestAt lib d dir b \<Longrightarrow> a = b"
  by (auto simp: manifestAt_def)

lemma gives_immutable:
  "gives (immutableManifest lib path raw) (\<lambda>s (item, n). decoded lib (svDisk s) (pathDir path) raw = Inr (item, n, False))"
proof -
  have "gives (if changed then failA (Err ''published manifest is not normalized'') else retA (item, n))
    (\<lambda>s x. x = (item, n) \<and> \<not> changed)" for item :: manifest and n changed
    by (auto intro!: gives_fail intro: gives_post [OF gives_basic(1)])
  then show ?thesis unfolding immutableManifest_def
    by (intro gives_post [OF gives_bind [OF gives_decode gives_prod [OF gives_prod]]]) (assumption, auto)
qed

lemma gives_loadImmutable:
  "gives (loadImmutableManifest lib (manifestFile dir)) (\<lambda>s (item, n). manifestAt lib (svDisk s) dir item)"
  unfolding loadImmutableManifest_def
  by (rule gives_post [OF gives_bind [OF gives_content gives_immutable]]) (auto simp: manifestAt_def)

lemma gives_wasm:
  "gives (readWASMModule lib dir path) (\<lambda>s bytes. \<exists>raw. diskRead (svDisk s) path = Contents raw \<and> moduleBytes lib path raw = Inr bytes)"
proof -
  have "gives (case a of Contents raw \<Rightarrow> liftA (moduleBytes lib path raw)
       | NotExist \<Rightarrow> failA (notReady ''backend module'' dir)
       | ReadError e \<Rightarrow> failA (Err (''read wasm module '' @ goQuote path @ '': '' @ e)))
    (\<lambda>s bytes. \<exists>raw. a = Contents raw \<and> moduleBytes lib path raw = Inr bytes)" for a
    by (cases a) (auto intro!: gives_fail intro: gives_post [OF gives_basic(3)])
  from gives_bind [OF gives_file this] show ?thesis
    unfolding readWASMModule_def by (rule gives_post) (metis readAnswer.distinct(3))
qed

definition moduleAt :: "appLib \<Rightarrow> disk \<Rightarrow> gostr \<Rightarrow> manifest \<Rightarrow> generatedApp \<times> gostr \<Rightarrow> bool" where
  "moduleAt lib d dir item m \<longleftrightarrow>
     (\<exists>now raw. appFromManifest now item = Inr (fst m) \<and> diskRead d (pathJoin [dir, gaBackendModule (fst m)]) = Contents raw \<and>
        moduleBytes lib (pathJoin [dir, gaBackendModule (fst m)]) raw = Inr (snd m))"

lemma gives_module: "gives (appModuleForManifest lib cfg dir item b) (\<lambda>s m. moduleAt lib (svDisk s) dir item m)"
proof -
  have body: "gives (if c1 then failA e1 else if c2 then failA e2 else
      bindA (statA path) (\<lambda>node. if node = None then failA e3 else if \<not> isRegular node then failA e4 else
        bindA (readWASMModule lib dir path) (\<lambda>bytes. if big bytes then failA e5 else retA (app, bytes))))
    (\<lambda>s m. fst m = app \<and> (\<exists>raw. diskRead (svDisk s) path = Contents raw \<and> moduleBytes lib path raw = Inr (snd m)))"
    for c1 c2 e1 e2 e3 e4 e5 path big and app :: generatedApp
    by (rule gives_post [OF gives_guard [OF gives_guard [OF gives_bind [OF gives_readonly [OF readonly_stat]
      gives_guard [OF gives_guard [OF gives_bind [OF gives_wasm gives_guard [OF gives_basic(1)]]]]]]]]) auto
  show ?thesis unfolding appModuleForManifest_def Let_def
    by (intro gives_post [OF gives_bind [OF gives_basic(5) gives_bind [OF gives_text [OF gives_basic(3)] body]]])
      (auto simp: moduleAt_def)
qed

text \<open>Names and contents of the files of a release.\<close>

definition filesAt :: "disk \<Rightarrow> gostr \<Rightarrow> gostr \<Rightarrow> (gostr \<times> gostr) list \<Rightarrow> bool" where
  "filesAt d dir backendModule files \<longleftrightarrow>
     artifactFilesOn d dir backendModule = Inr (map fst files) \<and>
     (\<forall>f \<in> set files. diskRead d (pathJoin [dir, fst f]) = Contents (snd f))"

lemma gives_files:
  "gives (bindA (artifactFiles dir backendModule) (\<lambda>names. bindA (readFiles dir names) k))
     (\<lambda>s x. \<exists>files. filesAt (svDisk s) dir backendModule files \<and> Q files s x)"
  if k: "\<And>files. gives (k files) (Q files)" for k Q
proof -
  have one: "gives (bindA (readFileE (pathJoin [dir, f])) (\<lambda>c. retA (f, c)))
    (\<lambda>s x. fst x = f \<and> diskRead (svDisk s) (pathJoin [dir, f]) = Contents (snd x))" for f
    by (rule gives_post [OF gives_bind [OF gives_content gives_basic(1)]]) auto
  have all: "gives (readFiles dir names) (\<lambda>s files. map fst files = names \<and>
      (\<forall>f \<in> set files. diskRead (svDisk s) (pathJoin [dir, fst f]) = Contents (snd f)))" for names
    unfolding readFiles_def
    by (rule gives_post [OF gives_map [OF one]]) (fastforce simp: list_all2_conv_all_nth in_set_conv_nth intro: nth_equalityI)
  show ?thesis unfolding artifactFiles_def
    by (rule gives_post [OF gives_bind [OF gives_basic(4) gives_bind [OF all k]]]) (auto simp: filesAt_def)
qed

definition snapshotAt :: "appLib \<Rightarrow> disk \<Rightarrow> gostr \<Rightarrow> artifactSnapshot \<Rightarrow> bool" where
  "snapshotAt lib d dir snapshot \<longleftrightarrow>
     (\<exists>item m files. manifestAt lib d dir item \<and> moduleAt lib d dir item m \<and> filesAt d dir (gaBackendModule (fst m)) files \<and>
        asAppID snapshot = gaUUID (fst m) \<and> asSHA256 snapshot = fingerprint lib files)"

lemma gives_compile: "gives (compileModule lib m) (\<lambda>_ n. n = m \<and> alCompile lib (snd m) = Inr ())"
  unfolding compileModule_def
  by (rule gives_post [OF gives_bind [OF gives_text [OF gives_basic(3)] gives_basic(1)]]) auto

lemma gives_validate:
  "gives (validateAppForManifest lib cfg dir item b) (\<lambda>s app. \<exists>bytes. moduleAt lib (svDisk s) dir item (app, bytes))"
  unfolding validateAppForManifest_def
  by (rule gives_post [OF gives_bind [OF gives_module gives_bind [OF gives_compile gives_basic(1)]]]) (metis prod.collapse)

lemma gives_snapshot: "gives (publishedArtifactSnapshotAt lib cfg dir) (\<lambda>s snapshot. snapshotAt lib (svDisk s) dir snapshot)"
  unfolding publishedArtifactSnapshotAt_def
  by (rule gives_post [OF gives_bind [OF gives_loadImmutable gives_prod [OF gives_bind [OF gives_basic(3) gives_bind [OF gives_validate
      gives_files [OF gives_basic(1)]]]]]])
    (fastforce simp: snapshotAt_def)

lemma gives_published:
  "gives (loadPublishedApp lib cfg dir) (\<lambda>s m. \<exists>item. manifestAt lib (svDisk s) dir item \<and> moduleAt lib (svDisk s) dir item m \<and>
     alCompile lib (snd m) = Inr ())"
proof -
  have rest: "gives (loadAppForManifest lib cfg dir item False) (\<lambda>s m. moduleAt lib (svDisk s) dir item m \<and> alCompile lib (snd m) = Inr ())"
    for item
    unfolding loadAppForManifest_def by (rule gives_post [OF gives_bind [OF gives_module gives_compile]]) auto
  have answer: "gives (case a of NotExist \<Rightarrow> failA e1 | ReadError e \<Rightarrow> failA (e2 e)
       | Contents raw \<Rightarrow> bindA (withTextA t (immutableManifest lib (manifestFile dir) raw)) (\<lambda>(item, _).
             loadAppForManifest lib cfg dir item False))
    (\<lambda>s m. \<exists>raw item n. a = Contents raw \<and> decoded lib (svDisk s) (pathDir (manifestFile dir)) raw = Inr (item, n, False) \<and>
       moduleAt lib (svDisk s) dir item m \<and> alCompile lib (snd m) = Inr ())" for a e1 e2 t
  proof (cases a)
    case (Contents raw)
    then show ?thesis
      by (auto intro!: gives_post [OF gives_bind [OF gives_text [OF gives_immutable] gives_prod [OF rest]]])
  qed (auto intro!: gives_fail)
  show ?thesis unfolding loadPublishedApp_def
    by (rule gives_post [OF gives_bind [OF gives_file answer]]) (auto simp: manifestAt_def)
qed

text \<open>The code of an application comes from the files with the approved fingerprint.\<close>

definition approvedCode :: "appLib \<Rightarrow> disk \<Rightarrow> gostr \<Rightarrow> gostr \<Rightarrow> gostr \<Rightarrow> generatedApp \<Rightarrow> gostr \<Rightarrow> bool" where
  "approvedCode lib d dir appID hash app bytes \<longleftrightarrow>
     gaUUID app = appID \<and> alCompile lib bytes = Inr () \<and>
     (\<exists>files raw. artifactFilesOn d dir (gaBackendModule app) = Inr (map fst files) \<and>
        (\<forall>f \<in> set files. diskRead d (pathJoin [dir, fst f]) = Contents (snd f)) \<and>
        fingerprint lib files = hash \<and> (gaBackendModule app, raw) \<in> set files \<and>
        moduleBytes lib (pathJoin [dir, gaBackendModule app]) raw = Inr bytes)"

lemma module_listed:
  assumes "filesAt d dir backendModule files" and "diskRead d (pathJoin [dir, backendModule]) = Contents raw"
  shows "(backendModule, raw) \<in> set files"
proof -
  have "backendModule \<in> set names" if "artifactFilesOn d dir backendModule = Inr names" for names
  proof -
    have "\<exists>fs. names = sort ([''manifest.json'', backendModule, ''frontend.js''] @ fs)"
      using that unfolding artifactFilesOn_def bindR_Inr_iff by blast
    then show ?thesis by (elim exE) (simp only: set_sort set_append list.set, simp)
  qed
  then have "backendModule \<in> set (map fst files)" using assms(1) by (simp only: filesAt_def)
  then obtain c where c: "(backendModule, c) \<in> set files" by auto
  then have "diskRead d (pathJoin [dir, backendModule]) = Contents c" using assms(1) by (fastforce simp: filesAt_def)
  then show ?thesis using c assms(2) by simp
qed

lemma sameApp:
  "appFromManifest t item = Inr x \<Longrightarrow> appFromManifest u item = Inr y \<Longrightarrow> gaUUID x = gaUUID y"
  "appFromManifest t item = Inr x \<Longrightarrow> appFromManifest u item = Inr y \<Longrightarrow> gaBackendModule x = gaBackendModule y"
  by (auto simp: appFromManifest_def Let_def split: if_splits)

lemma approved_release:
  assumes "snapshotAt lib d dir snapshot" "manifestAt lib d dir item" "moduleAt lib d dir item m" "alCompile lib (snd m) = Inr ()"
  shows "approvedCode lib d dir (asAppID snapshot) (asSHA256 snapshot) (fst m) (snd m)"
proof -
  obtain m' files where m': "moduleAt lib d dir item m'" and files: "filesAt d dir (gaBackendModule (fst m')) files"
    and snap: "asAppID snapshot = gaUUID (fst m')" "asSHA256 snapshot = fingerprint lib files"
    using assms(1) manifestAt_unique [OF assms(2)] unfolding snapshotAt_def by blast
  have same: "gaUUID (fst m') = gaUUID (fst m)" "gaBackendModule (fst m') = gaBackendModule (fst m)"
    using m' assms(3) sameApp unfolding moduleAt_def by metis+
  obtain raw where raw: "diskRead d (pathJoin [dir, gaBackendModule (fst m)]) = Contents raw"
    "moduleBytes lib (pathJoin [dir, gaBackendModule (fst m)]) raw = Inr (snd m)"
    using assms(3) by (auto simp: moduleAt_def)
  have "(gaBackendModule (fst m), raw) \<in> set files" using module_listed files raw(1) same(2) by simp
  then show ?thesis using files snap same raw(2) assms(4) by (auto simp: approvedCode_def filesAt_def)
qed

lemma gives_loadApproved:
  "gives (loadApproved lib cfg (appID, hash)) (\<lambda>s x. \<exists>app bytes. x = (appID, app, bytes, pathJoin [releaseDir cfg, hash]) \<and>
     approvedCode lib (svDisk s) (pathJoin [releaseDir cfg, hash]) appID hash app bytes)"
proof -
  have store: "gives (Store_Materialize cfg hash) (\<lambda>_ dir. dir = pathJoin [releaseDir cfg, hash])"
  proof -
    have answer: "gives (case found of None \<Rightarrow> failA e | Some n \<Rightarrow> (if n = DiskDir then retA dir else failA e')) (\<lambda>_ x. x = dir)"
      for found e e' and dir :: gostr
      by (cases found) (auto intro!: gives_fail gives_basic(1))
    show ?thesis unfolding Store_Materialize_def Let_def
      by (rule gives_post [OF gives_guard [OF gives_bind [OF gives_readonly [OF readonly_stat] answer]]]) auto
  qed
  show ?thesis unfolding loadApproved_def prod.case
    by (rule gives_post [OF gives_bind [OF gives_text [OF store] gives_bind [OF gives_text [OF gives_snapshot] gives_guard
        [OF gives_bind [OF gives_text [OF gives_published] gives_prod [OF gives_basic(1)]]]]]])
      (auto dest: approved_release)
qed

subsection \<open>All approvals\<close>

lemma mapA_keyed:
  assumes "list_all2 (\<lambda>x y. \<exists>v. y = (x, v) \<and> P x v) xs ys"
  shows "map_of ys x = Some v \<Longrightarrow> P x v" and "dom (map_of ys) = set xs"
proof -
  have "map fst ys = xs" and "\<forall>(x, v) \<in> set ys. P x v"
    using assms by (induction xs ys rule: list_all2_induct) auto
  then show "map_of ys x = Some v \<Longrightarrow> P x v" and "dom (map_of ys) = set xs"
    by (auto simp: dom_map_of_conv_image_fst dest: map_of_SomeD) force?
qed

text \<open>
  C33: boot and publication run only approved code: when \<^verbatim>\<open>LoadApprovedArtifacts\<close>
  fails, nothing has changed.  When it succeeds, the applications that are loaded are exactly the
  approved ones, the tables of the data are untouched, and the code compiled for each is that of the
  module in a set of files, read from the release directory named by the approved hash, whose
  fingerprint is that hash.
\<close>

theorem LoadApprovedArtifacts_sound:
  assumes "goRange rng" and "LoadApprovedArtifacts lib cfg rng approvals w = (r, w')"
  shows "case r of
      Inl e \<Rightarrow> db w' = db w
    | Inr u \<Rightarrow>
        svDisk (db w') = svDisk (db w) \<and> svData (db w') = svData (db w) \<and>
        svApproved (db w') = map_of (approvedMap approvals) \<and>
        dom (svApps (db w')) = dom (svApproved (db w')) \<and>
        (\<forall>appID hash. svApproved (db w') appID = Some hash \<longrightarrow>
          (\<exists>app bytes dir. svApps (db w') appID = Some app \<and> svCompiled (db w') appID = Some bytes \<and>
             svActiveDirs (db w') appID = Some dir \<and> dir = pathJoin [releaseDir cfg, hash] \<and>
             approvedCode lib (svDisk (db w')) dir appID hash app bytes))"
proof (cases "list_all approvalOk approvals")
  case False
  then show ?thesis using assms(2) by (auto simp: LoadApprovedArtifacts_def)
next
  case True
  let ?m = "approvedMap approvals"
  let ?load = "mapA (\<lambda>appID. loadApproved lib cfg (appID, the (map_of ?m appID))) (rng (fst ` set ?m))"
  let ?P = "\<lambda>d appID v. \<exists>app bytes. v = (app, bytes, pathJoin [releaseDir cfg, the (map_of ?m appID)]) \<and>
     approvedCode lib (svDisk d) (pathJoin [releaseDir cfg, the (map_of ?m appID)]) appID (the (map_of ?m appID)) app bytes"
  have load: "gives ?load (\<lambda>d ys. list_all2 (\<lambda>x y. \<exists>v. y = (x, v) \<and> ?P d x v) (rng (fst ` set ?m)) ys)"
    by (rule gives_map, rule gives_post [OF gives_loadApproved]) blast
  obtain q v where q: "?load w = (q, v)" by fastforce
  have v: "db v = db w" using givesD(1) [OF load q] .
  show ?thesis
  proof (cases q)
    case (Inl e)
    then show ?thesis using assms(2) True q v by (auto simp: LoadApprovedArtifacts_def bindA_def)
  next
    case (Inr ys)
    have all: "list_all2 (\<lambda>x y. \<exists>v. y = (x, v) \<and> ?P (db w) x v) (rng (fst ` set ?m)) ys"
      using givesD(2) [OF load q Inr] .
    note ys = mapA_keyed [OF all]
    have dom: "dom (map_of ys) = dom (map_of ?m)"
      using ys(2) assms(1) by (simp add: goRange_def dom_map_of_conv_image_fst)
    have w': "r = Inr ()" "db w' = (db w)\<lparr>svApproved := map_of ?m,
        svApps := map_of (map (\<lambda>(appID, app, compiled, dir). (appID, app)) ys),
        svCompiled := map_of (map (\<lambda>(appID, app, compiled, dir). (appID, compiled)) ys),
        svActiveDirs := map_of (map (\<lambda>(appID, app, compiled, dir). (appID, dir)) ys)\<rparr>"
      using assms(2) True q v Inr by (auto simp: LoadApprovedArtifacts_def bindA_def updA_iff)
    have maps: "map_of (map (\<lambda>(appID, app, compiled, dir). (appID, f app compiled dir)) ys) = map_option (\<lambda>(app, compiled, dir). f app compiled dir) \<circ> map_of ys"
      for f :: "generatedApp \<Rightarrow> gostr \<Rightarrow> gostr \<Rightarrow> 'b"
      using map_of_map [of "\<lambda>(app, compiled, dir). f app compiled dir" ys] by (simp add: case_prod_unfold)
    have code: "\<exists>app bytes. map_of ys appID = Some (app, bytes, pathJoin [releaseDir cfg, hash]) \<and>
        approvedCode lib (svDisk (db w)) (pathJoin [releaseDir cfg, hash]) appID hash app bytes"
      if hash: "map_of ?m appID = Some hash" for appID hash
    proof -
      obtain x where "map_of ys appID = Some x" using dom hash by blast
      then show ?thesis using ys(1) [of appID x] hash by auto
    qed
    let ?s = "db w'"
    have apps: "svApps ?s = map_option (\<lambda>(app, compiled, dir). app) \<circ> map_of ys"
      "svCompiled ?s = map_option (\<lambda>(app, compiled, dir). compiled) \<circ> map_of ys"
      "svActiveDirs ?s = map_option (\<lambda>(app, compiled, dir). dir) \<circ> map_of ys"
      unfolding w'(2) by (simp_all add: maps)
    have rest: "svDisk ?s = svDisk (db w)" "svData ?s = svData (db w)" "svApproved ?s = map_of ?m"
      unfolding w'(2) by simp_all
    have "dom (svApps ?s) = dom (svApproved ?s)" unfolding apps rest using dom by (auto simp: dom_def)
    moreover have "\<exists>app bytes dir. svApps ?s appID = Some app \<and> svCompiled ?s appID = Some bytes \<and>
        svActiveDirs ?s appID = Some dir \<and> dir = pathJoin [releaseDir cfg, hash] \<and>
        approvedCode lib (svDisk ?s) dir appID hash app bytes" if "svApproved ?s appID = Some hash" for appID hash
      using code [OF that [unfolded rest]] unfolding apps rest by fastforce
    ultimately show ?thesis using rest w'(1) by simp
  qed
qed

subsection \<open>A release that loads\<close>

definition exampleApp :: gostr where "exampleApp = ''11111111-1111-1111-1111-111111111111''"

definition exampleManifest :: manifest where
  "exampleManifest =
     \<lparr>mfSchemaVersion = ''v2'', mfID = exampleApp, mfName = ''Tasks'', mfVersion = ''1'', mfDescription = [], mfExport = [],
      mfActions = [''task_list''], mfFrontendEntry = [], mfFrontendFile = [], mfBackendSource = [], mfBackendModule = [],
      mfDataModelHints = [], mfTables = [], mfDataModels = [], mfRelations = [], mfQueries = [], mfProvides = [],
      mfConsumes = [], mfConfigKeys = [], mfExternalAPIs = [], mfAgentSkill = None\<rparr>"

text \<open>Every text is the manifest; every text has the same hash.\<close>

definition releasedLib :: appLib where
  "releasedLib = plainAppLib\<lparr>alSha256 := \<lambda>_. replicate 32 CHR 0xAA,
     alJson := plainJson\<lparr>jsEnvelope := \<lambda>_. Inr Map.empty, jsMarshalEnvelope := \<lambda>_. Inr [],
       jsManifest := \<lambda>_. Inr exampleManifest, jsMarshalManifest := \<lambda>_. Inr ''m''\<rparr>\<rparr>"

definition exampleText :: gostr where "exampleText = ''m'' @ [CHR 0x0A]"

definition releasedDisk :: disk where
  "releasedDisk =
     (let dir = releasePath [''apps''] exampleHash in
      [(dir, DiskDir), (dir @ ''/manifest.json'', DiskFile exampleText), (dir @ ''/backend.wasm'', DiskFile ''w''),
       (dir @ ''/frontend.js'', DiskFile ''f'')])"


text \<open>Without failures of the system.\<close>

definition answersWith :: "'d \<Rightarrow> ('d, 'a) act \<Rightarrow> ('a \<Rightarrow> bool) \<Rightarrow> bool" where
  "answersWith d m P \<longleftrightarrow> (\<forall>w. quiet w \<longrightarrow> db w = d \<longrightarrow> (\<exists>x w'. m w = (Inr x, w') \<and> quiet w' \<and> db w' = d \<and> P x))"

lemma answers_bind:
  assumes "answersWith d m P" and "\<And>x. P x \<Longrightarrow> answersWith d (k x) Q"
  shows "answersWith d (bindA m k) Q"
  unfolding answersWith_def bindA_def
proof (intro allI impI)
  fix w assume "quiet w" "db w = d"
  then obtain x v where m: "m w = (Inr x, v)" "quiet v" "db v = d" "P x" using assms(1) unfolding answersWith_def by blast
  then show "\<exists>y w'. (case m w of (Inl e, w') \<Rightarrow> (Inl e, w') | (Inr x, w') \<Rightarrow> k x w') = (Inr y, w') \<and> quiet w' \<and> db w' = d \<and> Q y"
    using assms(2) [OF m(4)] unfolding answersWith_def by simp
qed

lemma answers_post: "answersWith d m P \<Longrightarrow> (\<And>x. P x \<Longrightarrow> Q x) \<Longrightarrow> answersWith d m Q"
  unfolding answersWith_def by blast

lemma answers_text: "answersWith d m P \<Longrightarrow> answersWith d (withTextA t m) P"
  unfolding answersWith_def withTextA_def by (simp add: wrapErrA_Inr_iff)

lemma answers_ret: "P x \<Longrightarrow> answersWith d (retA x) P"
  by (simp add: answersWith_def)

lemma answers_lift: "r = Inr x \<Longrightarrow> P x \<Longrightarrow> answersWith d (liftA r) P"
  by (simp add: answersWith_def)

lemma answers_query: "f d = Inr x \<Longrightarrow> P x \<Longrightarrow> answersWith d (queryA f) P"
  by (auto simp: answersWith_def queryA_quiet quiet_def)

lemma answers_now: "(\<And>t. P t) \<Longrightarrow> answersWith d nowA P"
  by (auto simp: answersWith_def nowA_def quiet_def)

lemma answers_file: "answersWith s (readFileA p) (\<lambda>a. a = diskRead (svDisk s) p)"
  by (auto simp: answersWith_def readFileA_def handleA_def queryA_quiet quiet_def)

lemma answers_content: "diskRead (svDisk s) p = Contents c \<Longrightarrow> answersWith s (readFileE p) (\<lambda>a. a = c)"
  unfolding readFileE_def by (rule answers_bind [OF answers_file]) (simp add: answers_ret)

abbreviation "exampleDir \<equiv> releasePath [''apps''] exampleHash"

lemma example_place: "placeOk plainConfig [''apps''] exampleHash"
  by (simp add: placeOk_def plainConfig_def properName_def exampleHash_def artifactSHA256Pattern_def list_all_iff hexLower_def asciiDigit_def)

lemma example_dir: "pathJoin [releaseDir plainConfig, exampleHash] = exampleDir"
  by code_simp

lemma example_path:
  "manifestFile exampleDir = exampleDir @ ''/manifest.json''" "pathJoin [exampleDir, ''manifest.json''] = exampleDir @ ''/manifest.json''"
  "pathJoin [exampleDir, ''backend.wasm''] = exampleDir @ ''/backend.wasm''" "pathJoin [exampleDir, ''frontend.js''] = exampleDir @ ''/frontend.js''"
  by code_simp+

lemma example_read:
  "diskRead releasedDisk (exampleDir @ ''/manifest.json'') = Contents exampleText" "diskRead releasedDisk (exampleDir @ ''/backend.wasm'') = Contents ''w''"
  "diskRead releasedDisk (exampleDir @ ''/frontend.js'') = Contents ''f''" "map_of releasedDisk exampleDir = Some DiskDir"
  "map_of releasedDisk (exampleDir @ ''/backend.wasm'') = Some (DiskFile ''w'')"
  by (simp_all add: releasedDisk_def diskRead_def Let_def)

lemma example_files: "artifactFilesOn releasedDisk exampleDir ''backend.wasm'' = Inr [''backend.wasm'', ''frontend.js'', ''manifest.json'']"
  by code_simp

lemma example_trim: "trimSpace exampleApp = exampleApp" "trimSpace ''v2'' = ''v2''" "trimSpace ''task_list'' = ''task_list''"
  "trimSpace ''m'' = ''m''" "trimSpace ''handle'' = ''handle''" "trimSpace ''backend'' = ''backend''" "trimSpace ''backend.wasm'' = ''backend.wasm''"
  by (simp_all add: trimSpace_visible visibleChar_def exampleApp_def)

lemma example_json:
  "jsEnvelope (alJson releasedLib) x = Inr Map.empty" "jsMarshalEnvelope (alJson releasedLib) e = Inr []"
  "jsManifest (alJson releasedLib) x = Inr exampleManifest" "jsMarshalManifest (alJson releasedLib) mf = Inr ''m''"
  by (simp_all add: releasedLib_def)

lemma example_fields: "mfSchemaVersion exampleManifest = ''v2''" "mfActions exampleManifest = [''task_list'']"
  by (simp_all add: exampleManifest_def)

lemma example_same: "normalizeManifestActions rd dir exampleManifest = Inr (exampleManifest, False)"
  by (simp add: normalizeManifestActions_def example_fields example_trim normalizeSortedUniqueStrings_def equalStrings_def)

lemma example_copy: "exampleManifest\<lparr>mfActions := [''task_list'']\<rparr> = exampleManifest"
  by (simp add: exampleManifest_def)

lemma example_none: "rawAt Map.empty k = []" "parsedOr [] w x r = Inr (x, False)"
  by (simp_all add: rawAt_def parsedOr_def)

lemma bindR_Inr: "bindR (Inr x) k = k x"
  by (simp add: bindR_def)

lemma example_decode: "decodeManifestWithDir (alJson releasedLib) rd dir exampleText = Inr (exampleManifest, exampleText, False)"
  by (simp add: exampleText_def bindR_Inr decodeManifestWithDir_def Let_def example_json example_none example_fields example_trim example_same wrapErr_def
    example_copy marshalManifest_def jsonEqual_def)

lemma answers_decode: "answersWith s (decodeA releasedLib dir exampleText) (\<lambda>x. x = (exampleManifest, exampleText, False))"
  unfolding decodeA_def readerA_def Let_def
  by (intro answers_bind [OF answers_bind [OF answers_file answers_bind [OF answers_file answers_ret]]] answers_lift [OF example_decode]) (rule refl)+

lemma example_app:
  obtains app where "appFromManifest t exampleManifest = Inr app" "gaUUID app = exampleApp" "gaBackendModule app = ''backend.wasm''"
proof -
  have id: "generatedAppUUIDPattern exampleApp \<and> exampleApp \<noteq> [] \<and> CHR ''/'' \<notin> set exampleApp \<and> CHR 0x5C \<notin> set exampleApp"
    by code_simp
  have m: "mfID exampleManifest = exampleApp" "mfBackendModule exampleManifest = []" by (simp_all add: exampleManifest_def)
  have "trimSpace [] = []" by (rule trimSpace_Nil)
  then have mod: "firstNonBlank [trimSpace (mfBackendModule exampleManifest), ''backend.wasm''] = ''backend.wasm''"
    by (simp add: m firstNonBlank_def example_trim)
  show ?thesis by (rule that, unfold appFromManifest_def Let_def m example_trim, simp only: id simp_thms if_False refl) (simp_all add: firstNonBlank_def example_trim)
qed


abbreviation "releasedRuntime \<equiv> runtimeWith releasedDisk"

lemma example_disk: "svDisk releasedRuntime = releasedDisk"
  by (simp add: runtimeWith_def)

lemma answers_manifest:
  "answersWith releasedRuntime (immutableManifest releasedLib (manifestFile exampleDir) exampleText) (\<lambda>x. fst x = exampleManifest)"
  unfolding immutableManifest_def by (rule answers_bind [OF answers_decode]) (simp add: answers_ret)

lemma answers_module:
  "answersWith releasedRuntime (appModuleForManifest releasedLib plainConfig exampleDir exampleManifest False)
     (\<lambda>m. gaUUID (fst m) = exampleApp \<and> gaBackendModule (fst m) = ''backend.wasm'' \<and> snd m = ''w'')"
proof -
  let ?path = "exampleDir @ ''/backend.wasm''"
  have wasm: "answersWith releasedRuntime (readWASMModule releasedLib exampleDir ?path) (\<lambda>b. b = ''w'')"
  proof -
    have "moduleBytes releasedLib ?path ''w'' = Inr ''w''" by code_simp
    then show ?thesis unfolding readWASMModule_def
      by (intro answers_bind [OF answers_file]) (simp add: example_disk example_read answers_lift)
  qed
  have stat: "answersWith releasedRuntime (statA ?path) (\<lambda>n. n = Some (DiskFile ''w''))"
    unfolding statA_def by (rule answers_query) (simp_all add: example_disk example_read)
  have tables: "mfTables exampleManifest = []" by (simp add: exampleManifest_def)
  have app: "answersWith d (liftA (appFromManifest t exampleManifest)) (\<lambda>a. gaUUID a = exampleApp \<and> gaBackendModule a = ''backend.wasm'')" for d t
    by (rule example_app [of t]) (auto intro: answers_lift)
  have body: "answersWith releasedRuntime (bindA (statA ?path) (\<lambda>node. if node = None then failA e else if \<not> isRegular node then failA e' else
      bindA (readWASMModule releasedLib exampleDir ?path) (\<lambda>bytes. if acMaxModuleBytes plainConfig > 0 \<and> big bytes then failA e'' else retA (a, bytes))))
    (\<lambda>m. fst m = a \<and> snd m = ''w'')" for a big e e' e''
    by (rule answers_bind [OF stat], simp add: isRegular_def, rule answers_bind [OF wasm]) (simp add: answers_ret plainConfig_def)
  show ?thesis unfolding appModuleForManifest_def Let_def
    by (rule answers_bind [OF answers_now [of "\<lambda>_. True", OF TrueI]], rule answers_bind [OF answers_text [OF app]])
      (elim conjE, simp only: tables example_path simp_thms if_False, rule answers_post [OF body], auto)
qed

lemma answers_compile: "P m \<Longrightarrow> answersWith d (compileModule releasedLib m) P"
  unfolding compileModule_def
  by (rule answers_bind [OF answers_text [OF answers_lift [where P = "\<lambda>_. True"]]])
    (simp_all add: releasedLib_def plainAppLib_def answers_ret)

lemma answers_map: "(\<And>x. x \<in> set xs \<Longrightarrow> answersWith d (f x) (\<lambda>_. True)) \<Longrightarrow> answersWith d (mapA f xs) (\<lambda>_. True)"
proof (induction xs)
  case (Cons x xs)
  then have "answersWith d (mapA f xs) (\<lambda>_. True)" "answersWith d (f x) (\<lambda>_. True)" by simp_all
  then show ?case unfolding mapA.simps by (intro answers_bind answers_ret) auto
qed (simp add: answers_ret)

lemma answers_files:
  "answersWith releasedRuntime (readFiles exampleDir [''backend.wasm'', ''frontend.js'', ''manifest.json'']) (\<lambda>_. True)"
proof -
  have one: "answersWith releasedRuntime (bindA (readFileE (pathJoin [exampleDir, f])) (\<lambda>c. retA (f, c))) (\<lambda>_. True)"
    if "diskRead releasedDisk (pathJoin [exampleDir, f]) = Contents c" for f c
    by (rule answers_bind [OF answers_content]) (use that in \<open>simp_all add: example_disk answers_ret\<close>)
  show ?thesis unfolding readFiles_def by (rule answers_map) (auto intro: one simp: example_path example_read)
qed

lemma example_hash: "fingerprint releasedLib files = exampleHash"
proof -
  have "hexEncode (replicate 32 CHR 0xAA) = exampleHash" by code_simp
  then show ?thesis by (simp add: fingerprint_def releasedLib_def)
qed

lemma answers_snapshot:
  "answersWith releasedRuntime (publishedArtifactSnapshotAt releasedLib plainConfig exampleDir)
     (\<lambda>snapshot. asAppID snapshot = exampleApp \<and> asSHA256 snapshot = exampleHash)"
proof -
  have manifest: "answersWith releasedRuntime (loadImmutableManifest releasedLib (manifestFile exampleDir)) (\<lambda>x. fst x = exampleManifest)"
    unfolding loadImmutableManifest_def
    by (rule answers_bind [OF answers_content [of _ _ exampleText]]) (simp_all add: example_path example_disk example_read answers_manifest [unfolded example_path])
  have app: "answersWith releasedRuntime (validateAppForManifest releasedLib plainConfig exampleDir exampleManifest False)
      (\<lambda>a. gaUUID a = exampleApp \<and> gaBackendModule a = ''backend.wasm'')"
    unfolding validateAppForManifest_def
    by (rule answers_bind [OF answers_module], rule answers_bind [OF answers_compile [where P = "\<lambda>_. True"]]) (simp_all add: answers_ret)
  have check: "checkManifest exampleManifest = Inr ()"
    by (simp add: checkManifest_def validateCapabilities_def exampleManifest_def bindR_def)
  have names: "answersWith releasedRuntime (artifactFiles exampleDir ''backend.wasm'') (\<lambda>n. n = [''backend.wasm'', ''frontend.js'', ''manifest.json''])"
    unfolding artifactFiles_def by (rule answers_query) (simp_all add: example_disk example_files)
  show ?thesis unfolding publishedArtifactSnapshotAt_def
    by (rule answers_bind [OF manifest], clarsimp, rule answers_bind [OF answers_lift [where P = "\<lambda>_. True"]], simp add: check, simp,
      rule answers_bind [OF app], simp, rule answers_bind [OF names], simp, rule answers_bind [OF answers_files])
      (simp add: answers_ret example_hash)
qed

lemma answers_approved:
  "answersWith releasedRuntime (loadApproved releasedLib plainConfig (exampleApp, exampleHash)) (\<lambda>x. fst x = exampleApp \<and> fst (snd (snd x)) = ''w'')"
proof -
  have stat: "answersWith releasedRuntime (statA exampleDir) (\<lambda>n. n = Some DiskDir)"
    unfolding statA_def by (rule answers_query) (simp_all add: example_disk example_read)
  have place: "answersWith releasedRuntime (Store_Materialize plainConfig exampleHash) (\<lambda>dir. dir = exampleDir)"
    unfolding Store_Materialize_def Let_def example_dir eqTrueI [OF place_sha [OF example_place]] simp_thms if_False
    by (rule answers_bind [OF stat]) (simp add: answers_ret)
  have app: "answersWith releasedRuntime (loadPublishedApp releasedLib plainConfig exampleDir) (\<lambda>m. snd m = ''w'')"
    unfolding loadPublishedApp_def
    by (rule answers_bind [OF answers_file], simp add: example_path example_disk example_read,
      rule answers_bind [OF answers_text [OF answers_manifest [unfolded example_path]]], clarsimp simp: loadAppForManifest_def,
      rule answers_bind [OF answers_module]) (simp add: answers_compile)
  show ?thesis unfolding loadApproved_def prod.case
    by (rule answers_bind [OF answers_text [OF place]], simp, rule answers_bind [OF answers_text [OF answers_snapshot]], simp,
      rule answers_bind [OF answers_text [OF app]]) (auto intro: answers_ret)
qed


theorem LoadApprovedArtifacts_sound_witness:
  "\<exists>w'. LoadApprovedArtifacts releasedLib plainConfig sorted_list_of_set [(exampleApp, exampleHash)] (quietWorld releasedRuntime) = (Inr (), w') \<and>
     svApproved (db w') exampleApp = Some exampleHash \<and> svCompiled (db w') exampleApp = Some ''w'' \<and>
     svActiveDirs (db w') exampleApp = Some exampleDir"
proof -
  have quiet: "quiet (quietWorld releasedRuntime)" "db (quietWorld releasedRuntime) = releasedRuntime"
    by (simp_all add: quiet_def quietWorld_def)
  have ids: "generatedAppUUIDPattern exampleApp" by code_simp
  have trim: "trimSpace exampleApp = exampleApp" "trimSpace exampleHash = exampleHash"
    by (simp_all add: example_trim) (simp add: trimSpace_visible visibleChar_def exampleHash_def)
  obtain x v where load: "loadApproved releasedLib plainConfig (exampleApp, exampleHash) (quietWorld releasedRuntime) = (Inr x, v)"
    "db v = releasedRuntime" "fst (snd (snd x)) = ''w''" "fst x = exampleApp"
    using answers_approved quiet unfolding answersWith_def by blast
  have map: "approvedMap [(exampleApp, exampleHash)] = [(exampleApp, exampleHash)]" by (simp add: approvedMap_def trim)
  have ok: "list_all approvalOk [(exampleApp, exampleHash)]"
    using ids place_sha [OF example_place] by (simp add: approvalOk_def trim)
  obtain r w' where run: "LoadApprovedArtifacts releasedLib plainConfig sorted_list_of_set [(exampleApp, exampleHash)] (quietWorld releasedRuntime) = (r, w')"
    by fastforce
  have r: "r = Inr () \<and> svCompiled (db w') exampleApp = Some ''w''"
    using run ok load(1,3) \<open>fst x = exampleApp\<close>
    by (auto simp: LoadApprovedArtifacts_def map bindA_def updA_iff retA_def split: prod.splits)
  have range: "goRange sorted_list_of_set" by (simp add: goRange_def)
  note sound = LoadApprovedArtifacts_sound [OF range run, unfolded conjunct1 [OF r] sum.case map]
  have approved: "svApproved (db w') exampleApp = Some exampleHash" using sound by simp
  have "svActiveDirs (db w') exampleApp = Some (pathJoin [releaseDir plainConfig, exampleHash])"
    using sound approved by blast
  then show ?thesis using run r approved by (simp add: example_dir)
qed

end
