(* ===== verification/App_Runs.thy ===== *)
theory App_Runs
  imports App_Host App_Approved Data_Claims
begin

text \<open>
  What a run of a published application can do to the database, whatever its module does.
\<close>

subsection \<open>Actions under an invariant\<close>

text \<open>\<open>underA I m Q\<close>: from a state with \<open>I\<close> the action leaves one with \<open>I\<close>, and its answer satisfies \<open>Q\<close>.\<close>

definition underA :: "('d \<Rightarrow> bool) \<Rightarrow> ('d, 'a) act \<Rightarrow> ('a \<Rightarrow> bool) \<Rightarrow> bool" where
  "underA I m Q \<longleftrightarrow> (\<forall>w r w'. I (db w) \<longrightarrow> m w = (r, w') \<longrightarrow> I (db w') \<and> (\<forall>x. r = Inr x \<longrightarrow> Q x))"

lemma underAD:
  assumes "underA I m Q" and "I (db w)" and "m w = (r, w')"
  shows "I (db w')" and "r = Inr x \<Longrightarrow> Q x"
  using assms unfolding underA_def by blast+

lemma underAI:
  "(\<And>w r w'. I (db w) \<Longrightarrow> m w = (r, w') \<Longrightarrow> I (db w')) \<Longrightarrow>
   (\<And>w x w'. I (db w) \<Longrightarrow> m w = (Inr x, w') \<Longrightarrow> Q x) \<Longrightarrow> underA I m Q"
  unfolding underA_def by blast

lemma under_post: "underA I m P \<Longrightarrow> (\<And>x. P x \<Longrightarrow> Q x) \<Longrightarrow> underA I m Q"
  unfolding underA_def by blast

lemma under_ret: "Q x \<Longrightarrow> underA I (retA x) Q"
  and under_fail: "underA I (failA e) Q"
  and under_lift: "(\<And>x. r = Inr x \<Longrightarrow> Q x) \<Longrightarrow> underA I (liftA r) Q"
  by (auto simp: underA_def)

lemma under_if: "(c \<Longrightarrow> underA I m Q) \<Longrightarrow> (\<not> c \<Longrightarrow> underA I n Q) \<Longrightarrow> underA I (if c then m else n) Q"
  by simp

lemma under_option: "underA I n Q \<Longrightarrow> (\<And>x. underA I (k x) Q) \<Longrightarrow> underA I (case q of None \<Rightarrow> n | Some x \<Rightarrow> k x) Q"
  by (cases q) simp_all

lemma under_bind:
  assumes "underA I m P" and "\<And>x. P x \<Longrightarrow> underA I (k x) Q"
  shows "underA I (bindA m k) Q"
proof (rule underAI)
  fix w r w' assume w: "I (db w)" and run: "bindA m k w = (r, w')"
  obtain q v where q: "m w = (q, v)" by fastforce
  show "I (db w')"
  proof (cases q)
    case (Inl e)
    then show ?thesis using run q underAD(1) [OF assms(1) w q] by (auto simp: bindA_def)
  next
    case (Inr x)
    have "k x v = (r, w')" using run q Inr by (simp add: bindA_def)
    then show ?thesis using underAD(1) [OF assms(2) [OF underAD(2) [OF assms(1) w q Inr]] underAD(1) [OF assms(1) w q]] by simp
  qed
next
  fix w y w' assume w: "I (db w)" and run: "bindA m k w = (Inr y, w')"
  then obtain x v where x: "m w = (Inr x, v)" "k x v = (Inr y, w')" by (auto elim: bindA_InrE)
  show "Q y" using underAD(2) [OF assms(2) [OF underAD(2) [OF assms(1) w x(1) refl]] underAD(1) [OF assms(1) w x(1)] x(2) refl] .
qed

lemma under_try:
  assumes "underA I m P"
  shows "underA I (tryA m) (\<lambda>r. \<forall>x. r = Inr x \<longrightarrow> P x)"
  using assms unfolding underA_def tryA_def by (auto split: prod.splits)

lemma under_wrap: "underA I m P \<Longrightarrow> underA I (wrapErrA f m) P"
  unfolding underA_def wrapErrA_def handleA_def failA_def by (auto split: prod.splits sum.splits)

lemma under_upd: "(\<And>d. I d \<Longrightarrow> I (snd (f d)) \<and> Q (fst (f d))) \<Longrightarrow> underA I (updA f) Q"
  by (auto simp: underA_def updA_iff)

lemma under_now: "underA I timeNowA (\<lambda>_. True)"
  by (auto simp: underA_def timeNowA_iff)

lemma under_gives: "gives m P \<Longrightarrow> (\<And>d x. I d \<Longrightarrow> P d x \<Longrightarrow> Q x) \<Longrightarrow> underA I m Q"
  by (rule underAI) (auto dest: givesD)

lemma under_leaves: "leavesA F m \<Longrightarrow> (\<And>d d'. I d \<Longrightarrow> F d d' \<Longrightarrow> I d') \<Longrightarrow> underA I m (\<lambda>_. True)"
  by (rule underAI) (auto dest: leavesAD)

lemma under_zoom:
  assumes "underA J m Q" and "\<And>d. I d \<Longrightarrow> J (gt d)" and "\<And>d e. I d \<Longrightarrow> J e \<Longrightarrow> I (pt e d)"
  shows "underA I (zoomA gt pt m) Q"
proof (rule underAI)
  fix w r w' assume w: "I (db w)" and run: "zoomA gt pt m w = (r, w')"
  then obtain v where v: "m (withDb (gt (db w)) w) = (r, v)" "w' = withDb (pt (db v) (db w)) v" by (auto simp: zoomA_iff)
  have "J (db v)" using underAD(1) [OF assms(1) _ v(1)] assms(2) w by simp
  then show "I (db w')" using assms(3) w v(2) by simp
next
  fix w x w' assume w: "I (db w)" and run: "zoomA gt pt m w = (Inr x, w')"
  then obtain v where v: "m (withDb (gt (db w)) w) = (Inr x, v)" by (auto simp: zoomA_iff)
  show "Q x" using underAD(2) [OF assms(1) _ v refl] assms(2) w by simp
qed

subsection \<open>The invariant of a run\<close>

definition loadedManifest :: "appLib \<Rightarrow> appRuntime \<Rightarrow> gostr \<Rightarrow> manifest \<Rightarrow> bool" where
  "loadedManifest lib s appID item \<longleftrightarrow>
     (\<exists>dir. svActiveDirs s (trimSpace appID) = Some dir \<and> manifestAt lib (svDisk s) dir item \<and> mfID item = trimSpace appID)"

text \<open>
  What a run may send: statements on the tables of the models in its manifest, other than reads
  only with an authorised action, and with one also the query behind a capability of another
  application: its manifest declares to consume this capability of this application, the manifest of
  the other one provides it by the name of one of its queries, and the statement is the one to which
  this query compiles; no request chooses any part of it.
\<close>

definition safeFor :: "appLib \<Rightarrow> gostr \<Rightarrow> manifest \<Rightarrow> sqlStmt \<Rightarrow> bool" where
  "safeFor lib appID item st \<longleftrightarrow>
     sqlSafe (appTables (alData lib) appID (mfDataModels item)) (joinNames (mfDataModels item)) (fst st) (snd st)"

definition providedStatement :: "appLib \<Rightarrow> gostr \<Rightarrow> manifest \<Rightarrow> gostr \<Rightarrow> sqlStmt \<Rightarrow> bool" where
  "providedStatement lib appID item capability st \<longleftrightarrow>
     (\<exists>p q. find (\<lambda>p. trimSpace (cpName p) = trimSpace capability) (mfProvides item) = Some p \<and>
        find (\<lambda>q. trimSpace (dqName q) = trimSpace (cpQuery p)) (mfQueries item) = Some q \<and>
        joinStatement (alData lib) appID (mfDataModels item) (mfRelations item) (joinRequestOf q) = Inr st)"

definition allowedStatement :: "appLib \<Rightarrow> appRuntime \<Rightarrow> gostr \<Rightarrow> bool \<Rightarrow> sqlStmt \<Rightarrow> bool" where
  "allowedStatement lib s appID authorised st \<longleftrightarrow>
     (\<exists>item. loadedManifest lib s appID item \<and>
        (safeFor lib appID item st \<and> (sqlVerb (fst st) = ''SELECT'' \<or> authorised) \<or>
         authorised \<and> sqlVerb (fst st) = ''SELECT'' \<and>
         (\<exists>c \<in> set (mfConsumes item). \<exists>target other.
            trimSpace target = trimSpace (ccAppID c) \<and> trimSpace target \<noteq> trimSpace appID \<and>
            loadedManifest lib s target other \<and> safeFor lib target other st \<and>
            providedStatement lib target other (ccCapability c) st)))"

definition runInv :: "(sqlStmt \<Rightarrow> bool) \<Rightarrow> appRuntime \<Rightarrow> appRuntime \<Rightarrow> bool" where
  "runInv P s0 s \<longleftrightarrow>
     s\<lparr>svData := svData s0, svResults := svResults s0\<rparr> = s0 \<and> onlySends P (svData s0) (svData s)"

lemma runInv_core:
  assumes "runInv P s0 s"
  shows "svDisk s = svDisk s0" "svActiveDirs s = svActiveDirs s0" "svApps s = svApps s0" "svCompiled s = svCompiled s0"
  using assms unfolding runInv_def by (cases s; cases s0; simp)+

lemma runInv_loaded: "runInv P s0 s \<Longrightarrow> loadedManifest lib s appID item \<longleftrightarrow> loadedManifest lib s0 appID item"
  by (simp add: loadedManifest_def runInv_core)

lemma runInv_refl: "runInv P s s"
  by (simp add: runInv_def onlySends_same)

lemma runInv_results: "runInv P s0 s \<Longrightarrow> runInv P s0 (s\<lparr>svResults := t\<rparr>)"
  by (simp add: runInv_def)

lemma under_results: "(\<And>s. \<exists>t. snd (f s) = s\<lparr>svResults := t\<rparr>) \<Longrightarrow> underA (runInv P s0) (updA f) (\<lambda>_. True)"
  by (rule under_upd) (metis runInv_results)

lemma under_data:
  assumes "leavesA (onlySends Q) m" and "\<And>st. Q st \<Longrightarrow> P st"
  shows "underA (runInv P s0) (dataA m) (\<lambda>_. True)"
  unfolding dataA_def
proof (rule under_zoom [where J = "\<lambda>d. onlySends P (svData s0) d"])
  show "underA (onlySends P (svData s0)) m (\<lambda>_. True)"
    by (rule under_leaves [OF sends_weaken [OF assms]]) (assumption, rule onlySends_trans)
qed (auto simp: runInv_def)

lemma gives_active:
  assumes "\<not> acDraft cfg"
  shows "gives (activeManifestForApp lib cfg appID) (\<lambda>s item. loadedManifest lib s appID item)"
proof -
  have load: "gives (bindA (loadImmutableManifest lib (manifestFile dir)) (\<lambda>(item, _). retA item)) (\<lambda>s item. manifestAt lib (svDisk s) dir item)" for dir
    by (rule gives_post [OF gives_bind [OF gives_loadImmutable gives_prod [OF gives_basic(1)]]]) auto
  have dir: "gives (updA (\<lambda>s. (svActiveDirs s i, s))) (\<lambda>s x. x = svActiveDirs s i)" for i
    by (auto simp: gives_def updA_iff)
  have found: "gives (case found of None \<Rightarrow> failA e | Some appDir \<Rightarrow> (if appDir = [] then failA e else
         bindA (withTextA t (bindA (loadImmutableManifest lib (manifestFile appDir)) (\<lambda>(item, _). retA item))) (\<lambda>item.
           if mfID item \<noteq> i then failA e' else retA item)))
      (\<lambda>s item. \<exists>appDir. found = Some appDir \<and> manifestAt lib (svDisk s) appDir item \<and> mfID item = i)" for found e e' t i
  proof (cases found)
    case (Some appDir)
    show ?thesis unfolding Some option.case
      by (rule gives_post [OF gives_guard [OF gives_bind [OF gives_text [OF load] gives_guard [OF gives_basic(1)]]]]) auto
  qed (simp add: gives_fail)
  show ?thesis unfolding activeManifestForApp_def Let_def if_not_P [OF assms]
    by (rule gives_post [OF gives_guard [OF gives_bind [OF dir found]]]) (auto simp: loadedManifest_def)
qed

subsection \<open>The functions of the host\<close>

abbreviation hostInv :: "(sqlStmt \<Rightarrow> bool) \<Rightarrow> appRuntime \<Rightarrow> hostState \<Rightarrow> bool" where
  "hostInv P s0 h \<equiv> runInv P s0 (hsRuntime h)"

abbreviation anyAnswer :: "'a \<Rightarrow> bool" where "anyAnswer \<equiv> \<lambda>_. True"

lemma under_service: "underA (runInv P s0) m Q \<Longrightarrow> underA (hostInv P s0) (serviceA m) Q"
  unfolding serviceA_def by (rule under_zoom) auto

lemma under_log: "underA (hostInv P s0) (logA f) anyAnswer"
  unfolding logA_def by (rule under_upd) simp

lemma under_emit: "underA (hostInv P s0) (emitRuntimeLog env t) anyAnswer"
  by (auto simp: emitRuntimeLog_def intro: under_log under_ret)

lemma under_lines:
  "underA (hostInv P s0) (logDataOperationStart env ctx op kind target) anyAnswer"
  "underA (hostInv P s0) (logDataOperationSuccess env ctx op kind target t res) anyAnswer"
  "underA (hostInv P s0) (logDataOperationFailure env ctx op kind target t code) anyAnswer"
  "underA (hostInv P s0) (logGuestResult env ctx bytes) anyAnswer"
  "underA (hostInv P s0) (hostLog env level n rd) anyAnswer"
  unfolding logDataOperationStart_def logDataOperationSuccess_def logDataOperationFailure_def logGuestResult_def hostLog_def Let_def
  by (auto intro!: under_bind [OF under_now] under_bind [OF under_emit] under_emit under_ret split: option.split)

lemma under_store:
  "underA (hostInv P s0) (storeRaw env ctx bytes) anyAnswer"
  "underA (hostInv P s0) (storeResult env ctx payload) anyAnswer"
  "underA (hostInv P s0) (storeError env ctx e) anyAnswer"
proof -
  show raw: "underA (hostInv P s0) (storeRaw env ctx bytes) anyAnswer" for bytes
    unfolding storeRaw_def by (intro under_service under_results) (auto split: prod.splits)
  then show "underA (hostInv P s0) (storeResult env ctx payload) anyAnswer" for payload
    by (simp add: storeResult_def)
  then show "underA (hostInv P s0) (storeError env ctx e) anyAnswer"
    by (simp add: storeError_def)
qed

lemma under_handles:
  "underA (hostInv P s0) (hostResultLen ctx h) anyAnswer" "underA (hostInv P s0) (hostResultRead ctx h writable) anyAnswer"
  "underA (hostInv P s0) (hostResultStore env ctx mem) anyAnswer"
  unfolding hostResultLen_def hostResultRead_def hostResultStore_def
  by (auto intro!: under_service under_upd under_store under_bind [OF under_lines(4)] split: option.split)

lemma under_request:
  "(\<And>req t. underA (hostInv P s0) (k req t) anyAnswer) \<Longrightarrow>
     underA (hostInv P s0) (dataRequest env ctx op kind decode mem target k) anyAnswer"
  unfolding dataRequest_def
  by (auto intro!: under_bind [OF under_now] under_bind [OF under_lines(3)] under_bind [OF under_lines(1)] under_store split: sum.split)

lemma under_step:
  assumes "underA (runInv P s0) m Q" and "\<And>x. Q x \<Longrightarrow> underA (hostInv P s0) (k x) anyAnswer"
  shows "underA (hostInv P s0) (dataStep env ctx op kind target t code m k) anyAnswer"
    and "underA (hostInv P s0) (orError env ctx m k) anyAnswer"
  unfolding dataStep_def orError_def
  by (rule under_bind [OF under_try [OF under_service [OF assms(1)]]];
      auto intro!: under_bind [OF under_lines(3)] under_store assms(2) split: sum.split)+

lemma under_done: "underA (hostInv P s0) (dataDone env ctx op kind target t res payload) anyAnswer"
  unfolding dataDone_def by (intro under_bind [OF under_lines(2)] under_store)

definition authorised :: "callContext \<Rightarrow> bool" where
  "authorised ctx \<longleftrightarrow> requireAuthorizedAction ctx = Inr ()"

lemma under_privileged:
  "(authorised ctx \<Longrightarrow> underA (hostInv P s0) m anyAnswer) \<Longrightarrow> underA (hostInv P s0) (privileged env ctx m) anyAnswer"
  unfolding privileged_def authorised_def by (auto intro: under_store split: sum.split)

lemma under_item:
  assumes "\<not> acDraft (heCfg env)"
  shows "underA (runInv P s0) (itemForApp env appID) (\<lambda>item. loadedManifest (heLib env) s0 appID item)"
  unfolding itemForApp_def by (rule under_gives [OF gives_active [OF assms]]) (simp add: runInv_loaded)

lemma under_models:
  assumes "\<not> acDraft (heCfg env)"
  shows "underA (runInv P s0) (dataModelsForApp env appID)
    (\<lambda>models. \<exists>item. loadedManifest (heLib env) s0 appID item \<and> models = mfDataModels item)"
  unfolding dataModelsForApp_def by (rule under_bind [OF under_item [OF assms]]) (auto intro: under_ret)

lemma under_rest:
  assumes "\<not> acDraft (heCfg env)"
  shows "underA (runInv P s0) (dataRelationsForApp env appID) anyAnswer" "underA (runInv P s0) (dataQueriesForApp env appID) anyAnswer"
  unfolding dataRelationsForApp_def dataQueriesForApp_def by (rule under_bind [OF under_item [OF assms]]; simp add: under_ret)+

text \<open>Statements on the own tables.\<close>

abbreviation allowedRun :: "hostEnv \<Rightarrow> appRuntime \<Rightarrow> callContext \<Rightarrow> sqlStmt \<Rightarrow> bool" where
  "allowedRun env s0 ctx \<equiv> allowedStatement (heLib env) s0 (ccApp ctx) (authorised ctx)"

lemma own_statement:
  assumes "\<exists>item. loadedManifest (heLib env) s0 (ccApp ctx) item \<and> models = mfDataModels item"
    and "safeStatement (dlib env) (ccApp ctx) models verb st" and "verb = ''SELECT'' \<or> authorised ctx"
  shows "allowedRun env s0 ctx st"
  using assms by (auto simp: allowedStatement_def safeStatement_def safeFor_def)

lemma under_own:
  assumes "\<exists>item. loadedManifest (heLib env) s0 (ccApp ctx) item \<and> models = mfDataModels item"
    and "leavesA (onlySends (safeStatement (dlib env) (ccApp ctx) models verb)) m" and "verb = ''SELECT'' \<or> authorised ctx"
  shows "underA (runInv (allowedRun env s0 ctx) s0) (dataA m) anyAnswer"
  by (rule under_data [OF assms(2)]) (rule own_statement [OF assms(1) _ assms(3)])

lemma reads_sends:
  "leavesA (onlySends (safeStatement lib appID models ''SELECT'')) (DataList lib eng appID models lreq)"
  "leavesA (onlySends (safeStatement lib appID models ''SELECT'')) (DataJoinQuery lib eng appID models relations jreq)"
  "leavesA (onlySends (safeStatement lib appID models ''SELECT'')) (DataRunQuery lib eng appID models relations queries qreq)"
  by (rule sends_weaken [OF DataList_sends] sends_weaken [OF DataJoinQuery_sends] sends_weaken [OF DataRunQuery_sends]; simp)+

lemma under_reads:
  assumes pub: "\<not> acDraft (heCfg env)"
  shows "underA (hostInv (allowedRun env s0 ctx) s0) (hostDataList env ctx mem) anyAnswer"
    and "underA (hostInv (allowedRun env s0 ctx) s0) (hostDataJoinQuery env ctx mem) anyAnswer"
    and "underA (hostInv (allowedRun env s0 ctx) s0) (hostDataRunQuery env ctx mem) anyAnswer"
    and "underA (hostInv (allowedRun env s0 ctx) s0) (hostDataGet env ctx mem) anyAnswer"
  unfolding hostDataList_def hostDataJoinQuery_def hostDataRunQuery_def hostDataGet_def
  by (intro under_request under_step(1) [OF under_models [OF pub]] under_step(1) [OF under_rest(1) [OF pub]]
      under_step(1) [OF under_rest(2) [OF pub]] under_step(1) [OF under_own [OF _ reads_sends(1)]]
      under_step(1) [OF under_own [OF _ reads_sends(2)]] under_step(1) [OF under_own [OF _ reads_sends(3)]]
      under_step(1) [OF under_own [OF _ DataGet_sends]] under_done disjI1 refl; assumption)+

lemma under_writes:
  assumes pub: "\<not> acDraft (heCfg env)" and rng: "goRange (heRangeF env)"
  shows "underA (hostInv (allowedRun env s0 ctx) s0) (hostDataCreate env ctx mem) anyAnswer"
    and "underA (hostInv (allowedRun env s0 ctx) s0) (hostDataUpdate env ctx mem) anyAnswer"
    and "underA (hostInv (allowedRun env s0 ctx) s0) (hostDataDelete env ctx mem) anyAnswer"
  unfolding hostDataCreate_def hostDataUpdate_def hostDataDelete_def
  by (intro under_privileged under_request under_step(1) [OF under_models [OF pub]]
      under_step(1) [OF under_own [OF _ DataCreate_sends [OF rng]]] under_step(1) [OF under_own [OF _ DataUpdate_sends [OF rng]]]
      under_step(1) [OF under_own [OF _ DataDelete_sends]] under_done disjI2; assumption)+

text \<open>A declared capability of another application.\<close>

lemma consumed_statement:
  assumes "loadedManifest (heLib env) s0 (ccApp ctx) item" and "consumes item req" and "authorised ctx"
    and "trimSpace (ccApp ctx) \<noteq> trimSpace (crAppID req)"
    and "loadedManifest (heLib env) s0 (crAppID req) other"
    and "safeStatement (dlib env) (crAppID req) (mfDataModels other) ''SELECT'' st"
    and "providedStatement (heLib env) (crAppID req) other (crCapability req) st"
  shows "allowedRun env s0 ctx st"
proof -
  obtain c where c: "c \<in> set (mfConsumes item)" "trimSpace (ccAppID c) = trimSpace (crAppID req)"
      "trimSpace (ccCapability c) = trimSpace (crCapability req)"
    using assms(2) by (auto simp: consumes_def list_ex_iff)
  have "providedStatement (heLib env) (crAppID req) other (ccCapability c) st"
    using assms(7) c(3) by (simp add: providedStatement_def)
  then show ?thesis using assms(1,3-6) c(1,2)
    unfolding allowedStatement_def safeStatement_def safeFor_def by metis
qed

lemma providedQuery_find:
  "providedQuery capability ps =
     map_option (\<lambda>p. trimSpace (cpQuery p)) (find (\<lambda>p. trimSpace (cpName p) = trimSpace capability) ps)"
  by (induction ps) auto

text \<open>A named query sends the statement to which it compiles.\<close>

lemma DataJoinQuery_sends_own:
  "leavesA (onlySends (\<lambda>st. joinStatement lib appID models relations req = Inr st))
     (DataJoinQuery lib eng appID models relations req)"
  unfolding DataJoinQuery_def
proof (rule sends_lift)
  fix st assume "joinStatement lib appID models relations req = Inr st"
  then show "leavesA (onlySends (\<lambda>st. joinStatement lib appID models relations req = Inr st))
      (case st of (query, args) \<Rightarrow> bindA (queryRows lib eng query args) (\<lambda>rows. retA (rowsResult rows)))"
    unfolding prod.case_eq_if by (intro sends.leaves_bind sends_query) (simp_all add: sends.leaves_readonly)
qed

lemma runNamed_sends_own:
  "leavesA (onlySends (\<lambda>st. \<exists>q. find (\<lambda>q. trimSpace (dqName q) = n) qs = Some q \<and>
      joinStatement lib appID models relations (joinRequestOf q) = Inr st))
     (runNamed lib eng appID models relations qs n)"
  by (induction qs) (auto intro: sends.leaves_readonly DataJoinQuery_sends_own)

lemma leaves_both:
  assumes "leavesA (onlySends P) m" and "leavesA (onlySends Q) m"
  shows "leavesA (onlySends (\<lambda>st. P st \<and> Q st)) m"
  unfolding leavesA_def
proof
  fix w
  have "onlySends P (db w) (db (snd (m w)))" "onlySends Q (db w) (db (snd (m w)))"
    using assms unfolding leavesA_def by blast+
  then show "onlySends (\<lambda>st. P st \<and> Q st) (db w) (db (snd (m w)))"
    unfolding onlySends_def list_all_iff by auto
qed

lemma under_declared:
  assumes pub: "\<not> acDraft (heCfg env)"
    and own: "loadedManifest (heLib env) s0 (ccApp ctx) item" "consumes item req" "authorised ctx"
  shows "underA (runInv (allowedRun env s0 ctx) s0) (CallCapability env (ccApp ctx) req) anyAnswer"
proof -
  have query: "underA (runInv (allowedRun env s0 ctx) s0)
      (dataA (DataRunQuery (dlib env) (deng env) (crAppID req) (mfDataModels other) (mfRelations other) (mfQueries other)
        \<lparr>rqQuery = query, rqParams = ps\<rparr>)) anyAnswer"
    if other: "loadedManifest (heLib env) s0 (crAppID req) other"
      and provided: "providedQuery (crCapability req) (mfProvides other) = Some query"
      and diff: "trimSpace (ccApp ctx) \<noteq> trimSpace (crAppID req)" for other query ps
  proof -
    obtain p where p: "find (\<lambda>p. trimSpace (cpName p) = trimSpace (crCapability req)) (mfProvides other) = Some p"
        "query = trimSpace (cpQuery p)"
      using provided by (auto simp: providedQuery_find)
    have "leavesA (onlySends (providedStatement (heLib env) (crAppID req) other (crCapability req)))
        (DataRunQuery (dlib env) (deng env) (crAppID req) (mfDataModels other) (mfRelations other) (mfQueries other)
          \<lparr>rqQuery = query, rqParams = ps\<rparr>)"
      unfolding DataRunQuery_def by (rule sends_weaken [OF runNamed_sends_own]) (auto simp: providedStatement_def p)
    from leaves_both [OF reads_sends(3) this] show ?thesis
      by (rule under_data) (use consumed_statement [OF own diff other] in blast)
  qed
  have "underA (runInv (allowedRun env s0 ctx) s0) (RunDeclaredCapability env (crAppID req) (crCapability req) ps) anyAnswer"
    if "trimSpace (ccApp ctx) \<noteq> trimSpace (crAppID req)" for ps
    unfolding RunDeclaredCapability_def
    by (rule under_bind [OF under_item [OF pub]]) (use that in \<open>auto intro: under_fail query split: option.split\<close>)
  then show ?thesis unfolding CallCapability_def using pub
    by (auto intro!: under_fail under_bind [OF under_lift [where Q = anyAnswer]])
qed

lemma under_calls:
  assumes pub: "\<not> acDraft (heCfg env)"
  shows "underA (hostInv (allowedRun env s0 ctx) s0) (hostCallCapability env ctx mem) anyAnswer"
    and "underA (hostInv (allowedRun env s0 ctx) s0) (hostExternalAPICall env ctx mem) anyAnswer"
proof -
  have decode: "underA (runInv (allowedRun env s0 ctx) s0) (liftA r) anyAnswer" for r :: "err + 'a" by (rule under_lift) simp
  show "underA (hostInv (allowedRun env s0 ctx) s0) (hostCallCapability env ctx mem) anyAnswer"
    unfolding hostCallCapability_def
    by (intro under_privileged under_step(2) [OF decode] under_step(2) [OF under_item [OF pub]] under_if under_store
        under_step(2) [OF under_declared [OF pub]]) (assumption | blast)+
  show "underA (hostInv (allowedRun env s0 ctx) s0) (hostExternalAPICall env ctx mem) anyAnswer"
    unfolding hostExternalAPICall_def case_prod_unfold
    by (intro under_privileged under_step(2) [OF decode] under_step(2) [OF under_item [OF pub]] under_if under_store
        under_option under_step(2) [OF decode])
qed

lemma under_hostCall:
  assumes "\<not> acDraft (heCfg env)" and "goRange (heRangeF env)"
  shows "underA (hostInv (allowedRun env s0 ctx) s0) (hostCall env ctx op mem) anyAnswer"
  by (cases op) (simp_all add: under_reads [OF assms(1)] under_writes [OF assms] under_calls [OF assms(1)] under_handles)

subsection \<open>Runs\<close>

lemma under_guest:
  assumes "\<not> acDraft (heCfg env)" and "goRange (heRangeF env)"
  shows "underA (hostInv (allowedRun env s0 ctx) s0) (runGuest env ctx g) anyAnswer"
proof (induction g)
  case (GuestCall op mem k)
  show ?case unfolding runGuest.simps by (rule under_bind [OF under_hostCall [OF assms]]) (rule GuestCall, simp)
next
  case (GuestLen h k)
  show ?case unfolding runGuest.simps by (rule under_bind [OF under_handles(1)]) (rule GuestLen, simp)
next
  case (GuestRead h writable k)
  show ?case unfolding runGuest.simps by (rule under_bind [OF under_handles(2)]) (rule GuestRead, simp)
qed (auto intro: under_ret under_fail under_bind [OF under_log] under_bind [OF under_lines(5)])

lemma under_handle:
  assumes "\<not> acDraft (heCfg env)" and "goRange (heRangeF env)"
  shows "underA (hostInv (allowedRun env s0 ctx) s0) (callAppHandle env ctx md m0 handle payload) anyAnswer"
  unfolding callAppHandle_def Let_def
  by (auto intro!: under_fail under_ret under_bind [OF under_guest [OF assms]] under_bind [OF under_wrap [OF under_guest [OF assms]]]
      split: prod.split option.split list.split)

lemma under_module:
  assumes "\<not> acDraft (heCfg env)" and "goRange (heRangeF env)"
  shows "underA (hostInv (allowedRun env s0 ctx) s0) (runModule env ctx insts app compiled appID payload) anyAnswer"
proof -
  have init: "underA (hostInv (allowedRun env s0 ctx) s0) (case e of None \<Rightarrow> retA m
      | Some (ts, body) \<Rightarrow> wrapErrA f (bindA (runGuest env ctx (body m [])) (\<lambda>(_, m). retA m))) anyAnswer" for e m f
    by (auto intro!: under_ret under_wrap under_bind [OF under_guest [OF assms]] split: option.split prod.split)
  have answer: "underA (hostInv (allowedRun env s0 ctx) s0)
      (serviceA (bindA (updA (\<lambda>s. (resultPayload (ccApp ctx) (ccInvocation ctx) h (svResults s), s))) liftA)) anyAnswer" for h
    by (intro under_service under_bind [OF under_upd [where Q = anyAnswer]] under_lift) simp_all
  have instance': "underA (hostInv (allowedRun env s0 ctx) s0) (wrapErrA f (liftA r)) anyAnswer" for f and r :: "err + 'b"
    by (intro under_wrap under_lift) simp
  show ?thesis unfolding runModule_def
    by (intro under_bind [OF instance'] under_bind [OF init])
      (auto intro!: under_fail under_ret under_bind [OF under_wrap [OF under_handle [OF assms]]] under_bind [OF under_wrap [OF answer]]
        split: option.split list.split)
qed

lemma under_withLogs:
  assumes "underA (hostInv P s0) m anyAnswer"
  shows "underA (runInv P s0) (withLogs c m) anyAnswer"
proof (rule underAI)
  fix w r w' assume w: "runInv P s0 (db w)" and run: "withLogs c m w = (r, w')"
  obtain q v where v: "m (withDb \<lparr>hsRuntime = db w, hsLogs = c\<rparr> w) = (q, v)" by fastforce
  have "runInv P s0 (hsRuntime (db v))" using underAD(1) [OF assms _ v] w by simp
  then show "runInv P s0 (db w')" using run v by (auto simp: withLogs_def)
qed simp

lemma gives_size: "gives (moduleSize dir app) (\<lambda>_ _. True)"
  unfolding moduleSize_def by (rule gives_post [OF gives_bind [OF gives_file gives_basic(1)]]) simp

lemma invocation_runs:
  assumes "InvokeWithObserver env priv insts appID payload w = (r, w')" and "\<not> acDraft (heCfg env)" and "goRange (heRangeF env)"
  shows "runInv (allowedStatement (heLib env) (db w) appID (\<exists>a. priv = Some a \<and> trimSpace a \<noteq> [])) (db w) (db w')"
proof -
  let ?P = "allowedStatement (heLib env) (db w) appID (\<exists>a. priv = Some a \<and> trimSpace a \<noteq> [])"
  have auth: "authorised \<lparr>ccApp = appID, ccInvocation = i, ccAction = a, ccPrivileged = priv\<rparr> \<longleftrightarrow> (\<exists>a. priv = Some a \<and> trimSpace a \<noteq> [])" for i a
    by (auto simp: authorised_def requireAuthorizedAction_def split: option.split)
  have md: "underA (runInv ?P (db w)) (withLogs c (bindA (emitRuntimeLog env t) (\<lambda>_.
      runModule env \<lparr>ccApp = appID, ccInvocation = i, ccAction = a, ccPrivileged = priv\<rparr> insts app compiled appID payload))) anyAnswer"
    for c t i a app compiled
    using under_module [OF assms(2,3), of "db w" "\<lparr>ccApp = appID, ccInvocation = i, ccAction = a, ccPrivileged = priv\<rparr>"]
    by (intro under_withLogs under_bind [OF under_emit]) (simp add: auth)
  have upd: "underA (runInv ?P (db w)) (updA f) anyAnswer" if "\<And>s. \<exists>t. snd (f s) = s\<lparr>svResults := t\<rparr>" for f :: "appRuntime \<Rightarrow> 'b \<times> appRuntime"
    by (rule under_results) (rule that)
  have keep: "\<exists>t. s = s\<lparr>svResults := t\<rparr>" for s :: appRuntime by (rule exI [of _ "svResults s"]) simp
  have all: "underA (runInv ?P (db w)) (InvokeWithObserver env priv insts appID payload) anyAnswer"
    unfolding InvokeWithObserver_def Let_def
    by (intro under_bind [OF upd] under_bind [OF under_gives [OF gives_size]] under_bind [OF md])
      (auto intro!: keep under_ret under_bind [OF upd] under_bind [OF under_gives [OF gives_size]] under_bind [OF md] simp: beginInvocation_def
        split: option.split prod.split sum.split)
  show ?thesis using underAD(1) [OF all runInv_refl assms(1)] .
qed

text \<open>
  C34: whatever the module of a published application does, an invocation leaves the loaded
  applications, their code, their directories and the disk as they were, and every statement that
  it sends to the database names only tables of the models in the manifest of its own release and
  holds no text of a request; without an authorised action it only reads.  The only statement on
  tables of another application is the one to which the query behind a capability compiles, when the
  action is authorised, the manifest of the release declares to consume this capability of that
  application, and the manifest of the other release provides it by the name of this query.
\<close>

theorem invocation_confined:
  assumes "InvokeWithObserver env priv insts appID payload w = (r, w')" and "\<not> acDraft (heCfg env)" and "goRange (heRangeF env)"
  shows "svDisk (db w') = svDisk (db w) \<and> svApps (db w') = svApps (db w) \<and> svCompiled (db w') = svCompiled (db w) \<and>
    svActiveDirs (db w') = svActiveDirs (db w) \<and>
    (\<exists>sent applied. dsSent (svData (db w')) = dsSent (svData (db w)) @ sent \<and>
       dsApplied (svData (db w')) = dsApplied (svData (db w)) @ applied \<and> subseq applied sent \<and>
       (\<forall>st \<in> set sent. allowedStatement (heLib env) (db w) appID (\<exists>a. priv = Some a \<and> trimSpace a \<noteq> []) st))"
proof -
  from invocation_runs [OF assms] show ?thesis by (auto simp: runInv_core) (auto simp: runInv_def onlySends_def list_all_iff)
qed

text \<open>A module that asks for a read and a deletion and returns what it stored.\<close>

definition busyModule :: "unit guestModule" where
  "busyModule =
     \<lparr>gmMemory = (),
      gmExport = \<lambda>name. if name = ''handle'' then Some ([], \<lambda>m vs.
        GuestCall DataListOp (Some ''list'') (\<lambda>h1. GuestCall DataDeleteOp (Some ''delete'') (\<lambda>h2.
          GuestCall ResultStoreOp (Some ''done'') (\<lambda>h3. GuestReturn [h3] ())))) else None,
      gmWriteMemory = \<lambda>p bs m. Some m\<rparr>"

definition busyJson :: hostJson where
  "busyJson =
     \<lparr>hjList = noAnswer, hjJoin = noAnswer, hjRun = noAnswer, hjGet = noAnswer, hjWrite = noAnswer, hjCapability = noAnswer,
      hjApi = noAnswer, hjValid = \<lambda>_. True, hjResponse = \<lambda>_. None, hjAction = \<lambda>_. None, hjMarshal = \<lambda>_. Some ''result''\<rparr>"

definition busyEnv :: hostEnv where
  "busyEnv =
     \<lparr>heLib = plainAppLib, heCfg = plainConfig, heJson = busyJson, heHasBroker = False, heGate = \<lambda>_ _. Inr (),
      heOther = \<lambda>_. noAnswer, heApi = None, heRangeF = sorted_list_of_set, heRangeI = sorted_list_of_set, heClock = int\<rparr>"

definition busyApp :: generatedApp where
  "busyApp = \<lparr>gaUUID = exampleApp, gaName = [], gaVersion = [], gaDescription = [], gaExport = ''handle'', gaFrontendEntry = [],
     gaBackendSource = [], gaBackendModule = ''backend.wasm'', gaCreatedAt = 0, gaUpdatedAt = 0\<rparr>"

definition busyRuntime :: appRuntime where
  "busyRuntime = (runtimeWith [])\<lparr>svApps := [exampleApp \<mapsto> busyApp], svCompiled := [exampleApp \<mapsto> ''w'']\<rparr>"

subsection \<open>A run that sends a statement\<close>

text \<open>
  Two releases: one declares to consume the capability \<open>titles\<close> of the other one, which provides it by
  a query on its table of books.
\<close>

definition providerApp :: gostr where "providerApp = ''22222222-2222-2222-2222-222222222222''"

definition titlesQuery :: dataQuery where
  "titlesQuery =
     \<lparr>dqName = ''list'', dqFrom = ''book'', dqJoins = [], dqSelect = [''book.title''], dqWhere = [], dqOrderBy = [], dqLimit = 5\<rparr>"

definition consumerManifest :: manifest where
  "consumerManifest = exampleManifest\<lparr>mfConsumes := [\<lparr>ccAppID = providerApp, ccCapability = ''titles''\<rparr>]\<rparr>"

definition providerManifest :: manifest where
  "providerManifest = exampleManifest\<lparr>mfID := providerApp, mfDataModels := [exampleModel ''book''], mfQueries := [titlesQuery],
     mfProvides := [\<lparr>cpName = ''titles'', cpQuery = ''list''\<rparr>]\<rparr>"

definition callingLib :: appLib where
  "callingLib = plainAppLib\<lparr>alData := exampleLib, alEngine := exampleEngine,
     alJson := plainJson\<lparr>jsEnvelope := \<lambda>raw. Inr [''raw'' \<mapsto> raw],
       jsMarshalEnvelope := \<lambda>env. Inr (case env ''raw'' of None \<Rightarrow> [] | Some raw \<Rightarrow> raw),
       jsManifest := \<lambda>raw. Inr (if raw = ''c'' @ [CHR 0x0A] then consumerManifest else providerManifest),
       jsMarshalManifest := \<lambda>item. Inr (if mfID item = exampleApp then ''c'' else ''p'')\<rparr>\<rparr>"

definition callingEnv :: hostEnv where
  "callingEnv = busyEnv\<lparr>heLib := callingLib, heHasBroker := True,
     heJson := busyJson\<lparr>hjCapability := \<lambda>_. Inr \<lparr>crAppID = providerApp, crCapability = ''titles'', crParams = []\<rparr>\<rparr>\<rparr>"

definition callingModule :: "unit guestModule" where
  "callingModule = busyModule\<lparr>
     gmExport := \<lambda>name. if name = ''handle'' then Some ([], \<lambda>m vs.
       GuestCall CallCapabilityOp (Some ''titles'') (\<lambda>h. GuestReturn [h] ())) else None\<rparr>"

definition callingRuntime :: appRuntime where
  "callingRuntime = (runtimeWith [(''/one/manifest.json'', DiskFile (''c'' @ [CHR 0x0A])), (''/two/manifest.json'', DiskFile (''p'' @ [CHR 0x0A]))])\<lparr>
     svApps := [exampleApp \<mapsto> busyApp], svCompiled := [exampleApp \<mapsto> ''w''],
     svActiveDirs := [exampleApp \<mapsto> ''/one'', providerApp \<mapsto> ''/two'']\<rparr>"



definition titlesStatement :: sqlStmt where
  "titlesStatement =
     (''SELECT '' @ quoteIdent ''t0'' @ ''.'' @ quoteIdent ''title'' @ '' AS '' @ quoteIdent ''book_title'' @ '' FROM '' @
      quoteIdent ''func_app_616161616161__book'' @ '' '' @ quoteIdent ''t0'' @ ''  LIMIT ?'', [DInt 5])"

text \<open>Actions that answer, and actions after which something holds, when no statement fails.\<close>

definition toldA :: "('d \<Rightarrow> bool) \<Rightarrow> ('d, 'a) act \<Rightarrow> ('a \<Rightarrow> bool) \<Rightarrow> bool" where
  "toldA R m P \<longleftrightarrow> (\<forall>w. quiet w \<longrightarrow> R (db w) \<longrightarrow> (\<exists>x w'. m w = (Inr x, w') \<and> quiet w' \<and> R (db w') \<and> P x))"

definition reachesA :: "('d \<Rightarrow> bool) \<Rightarrow> ('d, 'a) act \<Rightarrow> ('d \<Rightarrow> bool) \<Rightarrow> bool" where
  "reachesA R m S \<longleftrightarrow> (\<forall>w. quiet w \<longrightarrow> R (db w) \<longrightarrow> S (db (snd (m w))))"

lemma told_lift: "r = Inr x \<Longrightarrow> P x \<Longrightarrow> toldA R (liftA r) P"
  and told_ret: "P y \<Longrightarrow> toldA R (retA y) P"
  by (auto simp: toldA_def liftA_def retA_def)

lemma told_upd: "(\<And>d. R d \<Longrightarrow> R (snd (f d)) \<and> P (fst (f d))) \<Longrightarrow> toldA R (updA f) P"
  unfolding toldA_def updA_def by (simp add: case_prod_unfold quiet_db)

lemma told_answers: "(\<And>d. R d \<Longrightarrow> answersWith d m P) \<Longrightarrow> toldA R m P"
  unfolding toldA_def answersWith_def by metis

lemma told_try: "toldA R m P \<Longrightarrow> toldA R (tryA m) (\<lambda>r. \<exists>x. r = Inr x \<and> P x)"
  unfolding toldA_def tryA_def by fastforce

lemma told_service:
  assumes "toldA R m P"
  shows "toldA (\<lambda>h. R (hsRuntime h)) (serviceA m) P"
  unfolding toldA_def
proof (intro allI impI)
  fix w :: "hostState world" assume w: "quiet w" "R (hsRuntime (db w))"
  have "quiet (withDb (hsRuntime (db w)) w)" "R (db (withDb (hsRuntime (db w)) w))" using w by (simp_all add: quiet_def)
  then obtain x v where v: "m (withDb (hsRuntime (db w)) w) = (Inr x, v)" "quiet v" "R (db v)" "P x"
    using assms unfolding toldA_def by blast
  then show "\<exists>x w'. serviceA m w = (Inr x, w') \<and> quiet w' \<and> R (hsRuntime (db w')) \<and> P x"
    by (auto simp: serviceA_def zoomA_def quiet_def)
qed

lemma told_emit: "toldA (\<lambda>h. R (hsRuntime h)) (emitRuntimeLog env t) (\<lambda>_. True)"
  unfolding emitRuntimeLog_def logA_def by (auto intro!: told_upd told_ret)

lemma reaches_first:
  assumes "toldA R m P" and "\<And>x. P x \<Longrightarrow> reachesA R (k x) S"
  shows "reachesA R (bindA m k) S"
  unfolding reachesA_def
proof (intro allI impI)
  fix w assume w: "quiet w" "R (db w)"
  then obtain x v where v: "m w = (Inr x, v)" "quiet v" "R (db v)" "P x" using assms(1) unfolding toldA_def by blast
  then show "S (db (snd (bindA m k w)))" using assms(2) unfolding reachesA_def bindA_def by simp
qed

lemma reaches_then:
  assumes "reachesA R m S" and "\<And>x. underA S (k x) anyAnswer"
  shows "reachesA R (bindA m k) S"
  unfolding reachesA_def
proof (intro allI impI)
  fix w assume w: "quiet w" "R (db w)"
  obtain r v where v: "m w = (r, v)" by fastforce
  then have "S (db v)" using assms(1) w unfolding reachesA_def by fastforce
  then show "S (db (snd (bindA m k w)))"
    using v underAD(1) [OF assms(2) _ prod.collapse [symmetric]] by (cases r) (simp_all add: bindA_def)
qed

lemma reaches_upd: "(\<And>d. R d \<Longrightarrow> S (snd (f d))) \<Longrightarrow> reachesA R (updA f) S"
  by (simp add: reachesA_def updA_def case_prod_unfold)

lemma reaches_wrap: "reachesA R m S \<Longrightarrow> reachesA R (wrapErrA g m) S"
  and reaches_try: "reachesA R m S \<Longrightarrow> reachesA R (tryA m) S"
  by (auto simp: reachesA_def wrapErrA_def handleA_def failA_def tryA_def split: prod.splits sum.splits)

lemma reaches_zoom:
  assumes "reachesA R m S" and "\<And>d. R' d \<Longrightarrow> R (gt d)" and "\<And>e d. R' d \<Longrightarrow> S e \<Longrightarrow> S' (pt e d)"
  shows "reachesA R' (zoomA gt pt m) S'"
  unfolding reachesA_def
proof (intro allI impI)
  fix w assume w: "quiet w" "R' (db w)"
  have "quiet (withDb (gt (db w)) w)" "R (db (withDb (gt (db w)) w))" using w assms(2) by (simp_all add: quiet_def)
  then show "S' (db (snd (zoomA gt pt m w)))" using assms(1,3) w(2) unfolding reachesA_def zoomA_def by (simp split: prod.split) force
qed

lemma reaches_withLogs:
  assumes "reachesA (\<lambda>h. R (hsRuntime h)) m (\<lambda>h. S (hsRuntime h))"
  shows "reachesA R (withLogs c m) S"
  unfolding reachesA_def
proof (intro allI impI)
  fix w :: "appRuntime world" assume w: "quiet w" "R (db w)"
  let ?v = "withDb \<lparr>hsRuntime = db w, hsLogs = c\<rparr> w"
  have "quiet ?v" "R (hsRuntime (db ?v))" using w by (simp_all add: quiet_def)
  then show "S (db (snd (withLogs c m w)))" using assms unfolding reachesA_def withLogs_def by (simp split: prod.split) force
qed

text \<open>Nothing sent yet, and one statement sent.\<close>

abbreviation untouched :: "appRuntime \<Rightarrow> bool" where "untouched \<equiv> runInv (\<lambda>_. False) callingRuntime"

definition sentOnce :: "sqlStmt \<Rightarrow> appRuntime \<Rightarrow> bool" where "sentOnce st s \<longleftrightarrow> dsSent (svData s) = [st]"

lemma sends_nothing: "runInv (\<lambda>_. False) s0 s \<Longrightarrow> dsSent (svData s) = dsSent (svData s0)"
proof -
  have "list_all (\<lambda>_. False) ss \<Longrightarrow> ss = []" for ss :: "sqlStmt list" by (cases ss) simp_all
  then show "runInv (\<lambda>_. False) s0 s \<Longrightarrow> dsSent (svData s) = dsSent (svData s0)" by (auto simp: runInv_def onlySends_def)
qed

lemma under_sent:
  assumes "\<And>s. underA (runInv (\<lambda>_. False) s) m anyAnswer"
  shows "underA (sentOnce st) m anyAnswer"
proof (rule underAI)
  fix w r w' assume w: "sentOnce st (db w)" and run: "m w = (r, w')"
  show "sentOnce st (db w')" using sends_nothing [OF underAD(1) [OF assms runInv_refl run]] w by (simp add: sentOnce_def)
qed simp

lemma under_sent_host:
  assumes "\<And>s. underA (hostInv (\<lambda>_. False) s) m anyAnswer"
  shows "underA (\<lambda>h. sentOnce st (hsRuntime h)) m anyAnswer"
proof (rule underAI)
  fix w r w' assume w: "sentOnce st (hsRuntime (db w))" and run: "m w = (r, w')"
  show "sentOnce st (hsRuntime (db w'))"
    using sends_nothing [OF underAD(1) [OF assms runInv_refl run]] w by (simp add: sentOnce_def)
qed simp

lemma calling_statement:
  "joinStatement exampleLib providerApp [exampleModel ''book''] [] (joinRequestOf titlesQuery) = Inr titlesStatement"
proof -
  have trim: "trimSpace ''book'' = ''book''" "trimSpace ''title'' = ''title''" "trimSpace ''book.title'' = ''book.title''"
    by (simp_all add: trimSpace_visible visibleChar_def)
  have table: "dataTableName exampleLib providerApp ''book'' = ''func_app_616161616161__book''"
    by (simp add: dataTableName_def exampleLib_def hexEncode_def hexDigit_def toLower_def lowerChar_def) (simp add: char_of_def bit_Suc_0_iff)
  let ?fm = "systemFields @ [(''title'', exampleField ''title'' ''string'' 100)]"
  have fields: "collectFields systemFields [exampleField ''title'' ''string'' 100] = Inr ?fm"
    using example_clean example_names by (simp add: systemFields_def Let_def) (simp add: exampleField_def)
  have compiled: "compileDataModel exampleLib providerApp (exampleModel ''book'') = Inr (modelOf exampleLib providerApp (exampleModel ''book'') ?fm)"
    using example_names fields by (simp add: compileDataModel_def exampleModel_def trim Let_def)
  have model: "dmName (mrModel (modelOf exampleLib providerApp (exampleModel ''book'') ?fm)) = ''book''"
    "mrTable (modelOf exampleLib providerApp (exampleModel ''book'') ?fm) = ''func_app_616161616161__book''"
    "map_of (mrFields (modelOf exampleLib providerApp (exampleModel ''book'') ?fm)) ''title'' \<noteq> None"
    by (simp_all add: modelOf_def exampleModel_def table [simplified])
  have split: "splitQualifiedField ''book.title'' = Inr (''book'', ''title'')"
    using example_names by (simp add: splitQualifiedField_def trim)
  show ?thesis
    by (simp add: joinStatement_def joinRequestOf_def titlesQuery_def compileDataModels_def compiled model trim compileDataRelations_def
      bindR_def compileJoinSelect_def selectItem_def qualifiedIn_def split ensureModelField_def compileJoinWhere_def
      compileJoinOrder_def normalizeDataLimit_def maxDataLimit_def titlesStatement_def)
qed

lemma calling_manifests: "mfSchemaVersion consumerManifest = ''v2''" "mfActions consumerManifest = [''task_list'']"
  "mfID consumerManifest = exampleApp" "mfSchemaVersion providerManifest = ''v2''" "mfActions providerManifest = [''task_list'']"
  "mfID providerManifest = providerApp" "mfConsumes consumerManifest = [\<lparr>ccAppID = providerApp, ccCapability = ''titles''\<rparr>]"
  "mfDataModels providerManifest = [exampleModel ''book'']" "mfRelations providerManifest = []" "mfQueries providerManifest = [titlesQuery]"
  "mfProvides providerManifest = [\<lparr>cpName = ''titles'', cpQuery = ''list''\<rparr>]"
  by (simp_all add: consumerManifest_def providerManifest_def exampleManifest_def)

lemma calling_same:
  assumes "mfSchemaVersion m = ''v2''" and "mfActions m = [''task_list'']"
  shows "normalizeManifestActions rd dir m = Inr (m, False)" "m\<lparr>mfDataModels := mfDataModels m, mfRelations := mfRelations m,
    mfQueries := mfQueries m, mfActions := [''task_list'']\<rparr> = m"
  using assms by (simp_all add: normalizeManifestActions_def example_trim normalizeSortedUniqueStrings_def equalStrings_def)

lemma calling_names: "exampleApp \<noteq> providerApp"
  by (simp add: exampleApp_def providerApp_def)

lemma calling_decode:
  assumes "(text, m) \<in> {(''c'' @ [CHR 0x0A], consumerManifest), (''p'' @ [CHR 0x0A], providerManifest)}"
  shows "decodeManifestWithDir (alJson callingLib) rd dir text = Inr (m, text, False)"
proof -
  have raw: "rawAt (\<lambda>k. if k = ''raw'' then Some t else None) k = []" if "k \<noteq> ''raw''" for k and t :: gostr
    using that by (simp add: rawAt_def)
  have trim: "trimSpace ''c'' = ''c''" "trimSpace ''p'' = ''p''" by (simp_all add: trimSpace_visible visibleChar_def)
  have m: "mfSchemaVersion m = ''v2''" "mfActions m = [''task_list'']" using assms by (auto simp: calling_manifests)
  have js: "jsManifest (alJson callingLib) text = Inr m" "marshalManifest (alJson callingLib) m = Inr text"
    using assms calling_names by (auto simp: callingLib_def marshalManifest_def bindR_Inr wrapErr_def calling_manifests)
  have env: "jsEnvelope (alJson callingLib) text = Inr [''raw'' \<mapsto> text]"
     "jsMarshalEnvelope (alJson callingLib) (\<lambda>k. if k \<in> set parsedKeys then None else [''raw'' \<mapsto> text] k) = Inr text"
    by (simp_all add: callingLib_def parsedKeys_def)
  have none: "rawAt [''raw'' \<mapsto> text] ''dataModels'' = []" "rawAt [''raw'' \<mapsto> text] ''relations'' = []"
     "rawAt [''raw'' \<mapsto> text] ''queries'' = []" "rawAt [''raw'' \<mapsto> text] ''actions'' = []"
    by (simp_all add: rawAt_def)
  show ?thesis
    by (simp add: bindR_Inr decodeManifestWithDir_def Let_def env js none example_none(2) m example_trim calling_same [OF m] wrapErr_def
      jsonEqual_def del: fun_upd_apply)
qed

lemma calling_core:
  assumes "untouched s"
  shows "svDisk s = [(''/one/manifest.json'', DiskFile (''c'' @ [CHR 0x0A])), (''/two/manifest.json'', DiskFile (''p'' @ [CHR 0x0A]))]"
    "svActiveDirs s = [exampleApp \<mapsto> ''/one'', providerApp \<mapsto> ''/two'']" "svApps s = [exampleApp \<mapsto> busyApp]"
    "svCompiled s = [exampleApp \<mapsto> ''w'']"
  unfolding runInv_core [OF assms] by (simp_all add: callingRuntime_def runtimeWith_def)

lemma calling_active:
  assumes "(appID, m) \<in> {(exampleApp, consumerManifest), (providerApp, providerManifest)}"
  shows "toldA untouched (activeManifestForApp callingLib plainConfig appID) (\<lambda>x. x = m)"
proof -
  obtain dir doc where app: "mfID m = appID" "dir \<noteq> []" "\<And>s. untouched s \<Longrightarrow> svActiveDirs s appID = Some dir"
      "\<And>s. untouched s \<Longrightarrow> diskRead (svDisk s) (manifestFile dir) = Contents doc"
      "(doc, m) \<in> {(''c'' @ [CHR 0x0A], consumerManifest), (''p'' @ [CHR 0x0A], providerManifest)}"
  proof -
    have path: "manifestFile ''/one'' = ''/one/manifest.json''" "manifestFile ''/two'' = ''/two/manifest.json''" by code_simp+
    show ?thesis using assms calling_names
      by (elim insertE emptyE; intro that [of "if appID = exampleApp then ''/one'' else ''/two''" "if appID = exampleApp then ''c'' @ [CHR 0x0A] else ''p'' @ [CHR 0x0A]"])
        (simp_all add: calling_manifests calling_core path diskRead_def)
  qed
  have id: "trimSpace appID = appID" "generatedAppUUIDPattern appID"
    using assms by (auto simp: example_trim) (simp_all add: providerApp_def exampleApp_def trimSpace_visible visibleChar_def
      generatedAppUUIDPattern_def Let_def hexLower_def asciiDigit_def)
  have decode: "answersWith s (decodeA callingLib d doc) (\<lambda>x. x = (m, doc, False))" for s d
    unfolding decodeA_def readerA_def Let_def
    by (intro answers_bind [OF answers_bind [OF answers_file answers_bind [OF answers_file answers_ret]]]
        answers_lift [OF calling_decode [OF app(5)]]) (rule refl)+
  have load: "answersWith s (loadImmutableManifest callingLib (manifestFile dir)) (\<lambda>x. fst x = m)" if s: "untouched s" for s
    unfolding loadImmutableManifest_def immutableManifest_def
    by (rule answers_bind [OF answers_content [OF app(4) [OF s]]], simp, rule answers_bind [OF decode]) (simp add: answers_ret)
  have dir: "answersWith s (updA (\<lambda>s. (svActiveDirs s appID, s))) (\<lambda>x. x = Some dir)" if "untouched s" for s
    using app(3) [OF that] by (auto simp: answersWith_def updA_def quiet_def)
  have draft: "\<not> acDraft plainConfig" by (simp add: plainConfig_def)
  show ?thesis unfolding activeManifestForApp_def Let_def id(1) eqTrueI [OF id(2)] if_not_P [OF draft] simp_thms if_False
    by (rule told_answers, rule answers_bind [OF dir], assumption, simp add: app(2),
        rule answers_bind [where P = "\<lambda>x. x = m", OF answers_text [OF answers_bind [OF load]]], assumption)
      (simp_all add: case_prod_unfold app(1) answers_ret)
qed

lemma calling_env: "heLib callingEnv = callingLib" "heCfg callingEnv = plainConfig" "heHasBroker callingEnv" "heGate callingEnv c r = Inr ()"
  "hjCapability (heJson callingEnv) bs = Inr \<lparr>crAppID = providerApp, crCapability = ''titles'', crParams = []\<rparr>"
  "alData callingLib = exampleLib" "alEngine callingLib = exampleEngine"
  by (simp_all add: callingEnv_def busyEnv_def callingLib_def)

lemma calling_query:
  "reachesA untouched (dataA (DataRunQuery exampleLib exampleEngine providerApp [exampleModel ''book''] [] [titlesQuery]
     \<lparr>rqQuery = ''list'', rqParams = ps\<rparr>)) (sentOnce titlesStatement)"
proof -
  have read: "underA S (queryA f) anyAnswer" for S :: "dataStore \<Rightarrow> bool" and f :: "dataStore \<Rightarrow> err + sqlRows"
    by (auto simp: underA_def queryA_def stmtA_def split: option.splits sum.splits)
  have quiet: "underA S (case srError rs of None \<Rightarrow> retA (g rs) | Some e \<Rightarrow> failA e) anyAnswer" for S :: "dataStore \<Rightarrow> bool" and rs and g :: "sqlRows \<Rightarrow> dataRecord list"
    by (auto intro: under_ret under_fail split: option.split)
  have rows: "reachesA (\<lambda>d. dsSent d = []) (queryRows exampleLib exampleEngine (fst titlesStatement) (snd titlesStatement)) (\<lambda>d. dsSent d = [titlesStatement])"
    unfolding queryRows_def withText_def askA_def sendA_def
    by (intro reaches_then [OF reaches_wrap [OF reaches_then [OF reaches_upd]]] read quiet) simp
  have trim: "trimSpace ''list'' = ''list''" by (simp add: trimSpace_visible visibleChar_def)
  have named: "DataRunQuery exampleLib exampleEngine providerApp [exampleModel ''book''] [] [titlesQuery] \<lparr>rqQuery = ''list'', rqParams = ps\<rparr> =
      DataJoinQuery exampleLib exampleEngine providerApp [exampleModel ''book''] [] (joinRequestOf titlesQuery)"
    by (simp add: DataRunQuery_def trim) (simp add: titlesQuery_def trim)
  have "reachesA (\<lambda>d. dsSent d = []) (DataJoinQuery exampleLib exampleEngine providerApp [exampleModel ''book''] [] (joinRequestOf titlesQuery))
      (\<lambda>d. dsSent d = [titlesStatement])"
    unfolding DataJoinQuery_def case_prod_unfold
    by (rule reaches_first [OF told_lift [where P = "\<lambda>x. x = titlesStatement", OF calling_statement refl]])
      (simp add: reaches_then [OF rows under_ret])
  then show ?thesis unfolding dataA_def named
    by (rule reaches_zoom) (auto simp: sentOnce_def callingRuntime_def runtimeWith_def dest: sends_nothing)
qed

lemma calling_call:
  assumes "ccApp ctx = exampleApp" and "authorised ctx"
  shows "reachesA (\<lambda>h. untouched (hsRuntime h)) (hostCallCapability callingEnv ctx (Some bs)) (\<lambda>h. sentOnce titlesStatement (hsRuntime h))"
proof -
  have trim: "trimSpace ''titles'' = ''titles''" "trimSpace ''list'' = ''list''" "trimSpace providerApp = providerApp"
    by (simp_all add: trimSpace_visible visibleChar_def providerApp_def)
  have req: "decodeGuestJSON (hjCapability (heJson callingEnv)) (Some bs) = Inr \<lparr>crAppID = providerApp, crCapability = ''titles'', crParams = []\<rparr>"
    by (simp add: decodeGuestJSON_def calling_env)
  have own: "toldA untouched (itemForApp callingEnv exampleApp) (\<lambda>x. x = consumerManifest)"
    and other: "toldA untouched (itemForApp callingEnv providerApp) (\<lambda>x. x = providerManifest)"
    unfolding itemForApp_def calling_env by (rule calling_active; simp)+
  have published: "acDraft plainConfig = False" by (simp add: plainConfig_def)
  have run: "reachesA untouched (CallCapability callingEnv exampleApp \<lparr>crAppID = providerApp, crCapability = ''titles'', crParams = []\<rparr>) (sentOnce titlesStatement)"
    unfolding CallCapability_def RunDeclaredCapability_def
    apply (simp add: trim example_trim calling_names calling_env published)
    apply (rule reaches_first [OF told_lift [where P = "\<lambda>_. True", OF refl]], simp)
    apply (rule reaches_first [OF other])
    apply (simp add: calling_manifests trim calling_query calling_env)
    done
  have gate: "privileged callingEnv ctx m = m" for m using assms(2) by (simp add: privileged_def authorised_def)
  have declared: "consumes consumerManifest \<lparr>crAppID = providerApp, crCapability = ''titles'', crParams = []\<rparr>"
    by (simp add: consumes_def calling_manifests)
  have service: "reachesA (\<lambda>h. untouched (hsRuntime h)) (serviceA m) (\<lambda>h. sentOnce st (hsRuntime h))" if "reachesA untouched m (sentOnce st)" for m :: "'b aact" and st
    unfolding serviceA_def by (rule reaches_zoom [OF that]) auto
  have tail: "underA (\<lambda>h. sentOnce st (hsRuntime h)) (case r of Inl e \<Rightarrow> storeError callingEnv ctx e | Inr x \<Rightarrow> storeResult callingEnv ctx (f x)) anyAnswer"
    for st and r :: "err + 'b" and f
    by (intro under_sent_host) (simp add: under_store split: sum.split)
  show ?thesis unfolding hostCallCapability_def gate req assms(1) orError_def
    apply (rule reaches_first [OF told_try [OF told_service [OF told_lift [OF refl, where P = "\<lambda>x. x = \<lparr>crAppID = providerApp, crCapability = ''titles'', crParams = []\<rparr>"]]]], rule refl)
    apply (elim exE conjE, simp only: sum.case)
    apply (rule reaches_first [OF told_try [OF told_service [OF own]]])
    apply (elim exE conjE, simp add: declared calling_env)
    apply (rule reaches_then [OF reaches_try [OF service [OF run]] tail])
    done
qed

lemma calling_module:
  assumes "ccApp ctx = exampleApp" and "authorised ctx"
  shows "reachesA (\<lambda>h. untouched (hsRuntime h)) (runModule callingEnv ctx (\<lambda>_. Inr callingModule) busyApp compiled exampleApp payload)
    (\<lambda>h. sentOnce titlesStatement (hsRuntime h))"
proof -
  have md: "gmExport callingModule ''_initialize'' = None" "gaExport busyApp = ''handle''"
    "gmExport callingModule ''handle'' = Some ([], \<lambda>m vs. GuestCall CallCapabilityOp (Some ''titles'') (\<lambda>h. GuestReturn [h] ()))"
    by (simp_all add: callingModule_def busyModule_def busyApp_def)
  have answer: "underA (\<lambda>h. sentOnce st (hsRuntime h)) (case results of [] \<Rightarrow> failA e | h # _ \<Rightarrow>
      bindA (wrapErrA g (serviceA (bindA (updA (\<lambda>s. (resultPayload (ccApp ctx) (ccInvocation ctx) h (svResults s), s))) liftA))) (\<lambda>response. retA (h, response))) anyAnswer"
    for st results e g
    by (intro under_sent_host) (auto intro!: under_fail under_ret under_bind [OF under_wrap [OF under_service [OF under_bind [OF under_upd [where Q = anyAnswer]]]]] under_lift split: list.split)
  show ?thesis unfolding runModule_def
    apply (rule reaches_first [where P = "\<lambda>x. x = callingModule"])
    subgoal by (auto simp: toldA_def liftA_def wrapErrA_def handleA_def)
    apply (simp add: md callAppHandle_def)
    apply (rule reaches_then [OF reaches_wrap [OF reaches_then [OF reaches_then [OF calling_call [OF assms]]]] answer])
    apply (auto intro: under_ret)
    done
qed

lemma calling_invocation:
  "reachesA untouched (InvokeWithObserver callingEnv (Some ''call'') (\<lambda>_. Inr callingModule) exampleApp []) (sentOnce titlesStatement)"
proof -
  have auth: "authorised \<lparr>ccApp = exampleApp, ccInvocation = i, ccAction = a, ccPrivileged = Some ''call''\<rparr>" for i a
    by (simp add: authorised_def requireAuthorizedAction_def trimSpace_visible visibleChar_def)
  have size: "toldA untouched (moduleSize dir busyApp) (\<lambda>_. True)" for dir
    unfolding moduleSize_def by (intro told_answers answers_bind [OF answers_file] answers_ret) simp
  have logs: "reachesA untouched (withLogs c (bindA (emitRuntimeLog callingEnv t) (\<lambda>_.
      runModule callingEnv \<lparr>ccApp = exampleApp, ccInvocation = i, ccAction = a, ccPrivileged = Some ''call''\<rparr> (\<lambda>_. Inr callingModule) busyApp ''w'' exampleApp [])))
    (sentOnce titlesStatement)" for c t i a
    by (intro reaches_withLogs reaches_first [OF told_emit] calling_module auth) simp
  show ?thesis unfolding InvokeWithObserver_def Let_def
    apply (rule reaches_first [OF told_upd [where P = "\<lambda>x. x = (Some busyApp, Some ''w'')"]])
    apply (simp add: calling_core)
    apply simp
    apply (rule reaches_first [OF told_upd [where P = "\<lambda>_. True"]], simp)
    apply (rule reaches_first [OF size])
    apply (rule reaches_first [OF told_upd [where P = "\<lambda>_. True"]])
    apply (simp add: beginInvocation_def runInv_results)
    apply (rule reaches_then [OF logs])
    apply (rule under_sent)
    apply (auto intro!: under_bind [OF under_results] under_ret split: prod.split sum.split)
    done
qed

theorem invocation_confined_witness:
  "\<exists>r w'. InvokeWithObserver callingEnv (Some ''call'') (\<lambda>_. Inr callingModule) exampleApp [] (quietWorld callingRuntime) = (r, w') \<and>
     dsSent (svData (db w')) = [titlesStatement] \<and> svDisk (db w') = svDisk callingRuntime \<and>
     allowedStatement callingLib callingRuntime exampleApp True titlesStatement"
proof -
  obtain r w' where run: "InvokeWithObserver callingEnv (Some ''call'') (\<lambda>_. Inr callingModule) exampleApp [] (quietWorld callingRuntime) = (r, w')"
    by fastforce
  have env: "\<not> acDraft (heCfg callingEnv)" "goRange (heRangeF callingEnv)" "heLib callingEnv = callingLib"
    by (simp_all add: callingEnv_def busyEnv_def plainConfig_def goRange_def)
  have db: "db (quietWorld callingRuntime) = callingRuntime" "quiet (quietWorld callingRuntime)" by (simp_all add: quietWorld_def quiet_def)
  have sent: "dsSent (svData (db w')) = [titlesStatement]"
    using calling_invocation run db runInv_refl unfolding reachesA_def sentOnce_def by (metis snd_conv)
  have "(\<exists>a. Some ''call'' = Some a \<and> trimSpace a \<noteq> []) = True" by (simp add: trimSpace_visible visibleChar_def)
  note confined = invocation_confined [OF run env(1,2), unfolded db this env(3) sent]
  have "dsSent (svData callingRuntime) = []" by (simp add: callingRuntime_def runtimeWith_def)
  then show ?thesis using confined run sent by auto
qed

end
