(* ===== verification/App_Gate.thy ===== *)
theory App_Gate
  imports App_Access App_Runs Func_Claims
begin

text \<open>What must hold before a request for a generated application reaches the database.\<close>

subsection \<open>The gates\<close>

lemma gives_zoom:
  assumes "gives m P" and "\<And>d. pt (gt d) d = d"
  shows "gives (zoomA gt pt m) (\<lambda>d x. P (gt d) x)"
proof (rule givesI)
  fix w r w' assume "zoomA gt pt m w = (r, w')"
  then obtain v where v: "m (withDb (gt (db w)) w) = (r, v)" "w' = withDb (pt (db v) (db w)) v" by (auto simp: zoomA_iff)
  then show "db w' = db w" using givesD(1) [OF assms(1) v(1)] assms(2) by simp
next
  fix w x w' assume "zoomA gt pt m w = (Inr x, w')"
  then obtain v where v: "m (withDb (gt (db w)) w) = (Inr x, v)" by (auto simp: zoomA_iff)
  show "P (gt (db w)) x" using givesD(2) [OF assms(1) v refl] by simp
qed

lemma gives_fn: "gives m P \<Longrightarrow> gives (fnA m) (\<lambda>s x. P (gaFn s) x)"
  and gives_run: "gives m' P' \<Longrightarrow> gives (runA m') (\<lambda>s x. P' (gaRun s) x)"
  unfolding fnA_def runA_def by (rule gives_zoom; simp)+

lemma gives_try: "gives m P \<Longrightarrow> gives (tryA m) (\<lambda>d r. \<forall>x. r = Inr x \<longrightarrow> P d x)"
  unfolding gives_def tryA_def by (auto split: prod.splits)

lemma gives_if: "gives m P \<Longrightarrow> gives n P \<Longrightarrow> gives (if c then m else n) P"
  by simp

lemma gives_state: "gives (updA (\<lambda>s. (f s, s))) (\<lambda>s x. x = f s)"
  by (auto simp: gives_def updA_iff)

lemma gives_draw: "gives (drawA f) (\<lambda>d x. \<exists>t. x = f t)"
  by (auto simp: gives_def drawA_iff)

lemma gives_call: "gives (callA f) (\<lambda>d x. \<exists>t. f t = Inr x)"
  by (rule givesI) (auto simp: callA_iff)

definition publishedAs :: "appService \<Rightarrow> gostr \<Rightarrow> release \<Rightarrow> bool" where
  "publishedAs s appID r \<longleftrightarrow>
     r \<in> set (fdReleases (gaFn s)) \<and> relAppID r = appID \<and> relStatus r = ReleasePublished \<and>
     HasApprovedArtifact (gaRun s) appID (relArtifact r)"

lemma gives_active_release: "gives (requireActive env appID) (\<lambda>s r. publishedAs s (trimSpace appID) r)"
proof -
  have row: "gives (Release_ActiveForApp i) (\<lambda>d r. r \<in> set (fdReleases d) \<and> relAppID r = i \<and> relStatus r = ReleasePublished)" for i
    unfolding Release_ActiveForApp_def by (rule gives_post [OF gives_basic(4)]) (auto dest: firstRow_Inr)
  have "gives (RequireActiveArtifact ((geFn env)\<lparr>feRuntime := map_option (\<lambda>rt. rt\<lparr>rtApproved := \<lambda>a sha t. HasApprovedArtifact (gaRun s) a sha\<rparr>) (feRuntime (geFn env))\<rparr>) appID)
      (\<lambda>d r. r \<in> set (fdReleases d) \<and> relAppID r = trimSpace appID \<and> relStatus r = ReleasePublished \<and> HasApprovedArtifact (gaRun s) (relAppID r) (relArtifact r))" for s
  proof (cases "feRuntime (geFn env)")
    case None
    then show ?thesis by (simp add: RequireActiveArtifact_def gives_fail)
  next
    case (Some rt)
    have last: "gives (if ok then retA r else failA e) (\<lambda>d x. ok \<and> x = r)" for ok :: bool and r :: release and e
      by (auto intro: gives_fail gives_post [OF gives_basic(1)])
    have chain: "gives (bindA (Release_ActiveForApp (trimSpace appID)) (\<lambda>r.
        bindA (drawA (\<lambda>t. HasApprovedArtifact (gaRun s) (relAppID r) (relArtifact r))) (\<lambda>ok. if ok then retA r else failA e)))
      (\<lambda>d r. r \<in> set (fdReleases d) \<and> relAppID r = trimSpace appID \<and> relStatus r = ReleasePublished \<and> HasApprovedArtifact (gaRun s) (relAppID r) (relArtifact r))" for e
      by (rule gives_post [OF gives_bind [OF row gives_bind [OF gives_draw last]]]) auto
    show ?thesis using Some by (auto simp: RequireActiveArtifact_def intro: gives_fail chain)
  qed
  note step = this
  show ?thesis unfolding requireActive_def
    by (rule gives_post [OF gives_bind [OF gives_state gives_fn [OF step]]]) (auto simp: publishedAs_def)
qed

lemma gives_function:
  "gives (functionForApp appID) (\<lambda>s f. f \<in> set (fdFunctions (gaFn s)) \<and> fnGeneratedAppID f = trimSpace appID)"
  unfolding functionForApp_def Function_GetByGeneratedAppID_def
  by (rule gives_post [OF gives_fn [OF gives_basic(4)]]) (auto dest: firstRow_Inr)

text \<open>
  What the service for accounts must have answered: for a published function that the user may use
  it, with the action; for another one that the user may edit functions.
\<close>

definition accessGranted :: "'m gaEnv \<Rightarrow> goctx \<Rightarrow> fnrow \<Rightarrow> gostr \<Rightarrow> bool" where
  "accessGranted env ctx f action \<longleftrightarrow>
     (if fnStatus f = FunctionStatusPublished
      then (\<exists>sys u t. feMenus (geFn env) = Some sys \<and> RequireUserID ctx = Inr u \<and>
              scFunctionAllowed sys (ForwardUserContext ctx) (trimSpace u) (trimSpace (fnUUID f)) (trimSpace action) t = Inr True)
      else permitted (feSystem (geFn env)) ctx functionPermissionEdit)"

lemma gives_allowed: "gives (Allowed client ctx code) (\<lambda>d ok. ok \<longrightarrow> permitted client ctx code)"
  by (rule givesI) (auto dest: Allowed_permitted readonlyD [OF readonly_access(1)])

lemma gives_check:
  "gives (CheckAccess (Some sys) ctx u a k) (\<lambda>d ok. ok \<longrightarrow> (\<exists>t.
     scFunctionAllowed sys (ForwardUserContext ctx) (trimSpace (case RequireUserID ctx of Inl _ \<Rightarrow> u | Inr i \<Rightarrow> i)) (trimSpace a) (trimSpace k) t = Inr True))"
  unfolding CheckAccess_def Let_def option.case
  by (rule gives_if; (rule gives_post [OF gives_basic(1)] gives_post [OF gives_call]; fastforce))

lemma gives_access: "gives (canAccessRuntime env ctx f action) (\<lambda>s ok. ok \<longrightarrow> accessGranted env ctx f action)"
proof (cases "fnStatus f = FunctionStatusPublished")
  case True
  show ?thesis
  proof (cases "feMenus (geFn env)")
    case None
    then show ?thesis using True by (simp add: canAccessRuntime_def gives_fail)
  next
    case (Some sys)
    show ?thesis
    proof (cases "RequireUserID ctx")
      case (Inl e)
      then show ?thesis using True Some by (auto simp: canAccessRuntime_def intro: gives_post [OF gives_basic(1)])
    next
      case (Inr u)
      show ?thesis using True Some Inr
        by (auto simp: canAccessRuntime_def accessGranted_def intro!: gives_post [OF gives_fn [OF gives_check]])
    qed
  qed
next
  case False
  then show ?thesis by (auto simp: canAccessRuntime_def accessGranted_def intro!: gives_post [OF gives_fn [OF gives_allowed]])
qed

lemma gives_granted: "gives (requireRuntimeAccess env ctx f action) (\<lambda>s u. accessGranted env ctx f action)"
proof -
  have "gives (if ok then retA () else failA e) (\<lambda>d x. ok)" for ok :: bool and e
    by (auto intro: gives_fail gives_post [OF gives_basic(1)])
  from gives_bind [OF gives_access this] show ?thesis unfolding requireRuntimeAccess_def by (rule gives_post) auto
qed

lemma gives_loaded:
  assumes "\<not> acDraft (heCfg env)"
  shows "gives (loadedItem env appID) (\<lambda>s q. \<forall>item. q = Some item \<longrightarrow> loadedManifest (heLib env) s appID item)"
proof (rule givesI)
  fix w r w' assume run: "loadedItem env appID w = (r, w')"
  have item: "gives (bindA (itemForApp env (trimSpace appID)) (\<lambda>item. retA (Some item)))
      (\<lambda>s q. \<forall>item. q = Some item \<longrightarrow> loadedManifest (heLib env) s appID item)"
    unfolding itemForApp_def
    by (rule gives_post [OF gives_bind [OF gives_active [OF assms] gives_basic(1)]]) (auto simp: loadedManifest_def)
  show "db w' = db w"
    using run givesD(1) [OF item] by (auto simp: loadedItem_def handleA_def retA_def split: prod.splits sum.splits)
next
  fix w q w' assume run: "loadedItem env appID w = (Inr q, w')"
  have item: "gives (bindA (itemForApp env (trimSpace appID)) (\<lambda>item. retA (Some item)))
      (\<lambda>s q. \<forall>item. q = Some item \<longrightarrow> loadedManifest (heLib env) s appID item)"
    unfolding itemForApp_def
    by (rule gives_post [OF gives_bind [OF gives_active [OF assms] gives_basic(1)]]) (auto simp: loadedManifest_def)
  show "\<forall>item. q = Some item \<longrightarrow> loadedManifest (heLib env) (db w) appID item"
    using run givesD(2) [OF item] by (auto simp: loadedItem_def handleA_def retA_def split: prod.splits sum.splits)
qed

definition declaredIn :: "appLib \<Rightarrow> appRuntime \<Rightarrow> gostr \<Rightarrow> gostr \<Rightarrow> bool" where
  "declaredIn lib s appID action \<longleftrightarrow>
     (\<exists>item. loadedManifest lib s appID item \<and> trimSpace action \<in> trimSpace ` set (mfActions item))"

lemma gives_declares:
  assumes "\<not> acDraft (heCfg env)"
  shows "gives (declaresActionA env appID action) (\<lambda>s ok. ok \<longrightarrow> declaredIn (heLib env) s appID action)"
  unfolding declaresActionA_def
  by (rule gives_post [OF gives_bind [OF gives_loaded [OF assms] gives_basic(1)]])
    (auto simp: DeclaresAction_def declaredIn_def list_ex_iff split: option.splits, metis image_eqI)

lemma gives_keys:
  assumes "\<not> acDraft (heCfg env)"
  shows "gives (allowsConfigKeysA env appID keys) (\<lambda>s ok. True)"
  unfolding allowsConfigKeysA_def
  by (rule gives_post [OF gives_bind [OF gives_loaded [OF assms] gives_basic(1)]]) simp

subsection \<open>The handler\<close>

text \<open>\<open>startsA s m C\<close>: the action, begun in the state \<open>s\<close>, leaves one with \<open>C\<close>.\<close>

definition startsA :: "'d \<Rightarrow> ('d, 'a) act \<Rightarrow> ('d \<Rightarrow> bool) \<Rightarrow> bool" where
  "startsA s m C \<longleftrightarrow> (\<forall>w r w'. db w = s \<longrightarrow> m w = (r, w') \<longrightarrow> C (db w'))"

lemma starts_bind:
  assumes "gives m P" and "C s" and "\<And>x. P s x \<Longrightarrow> startsA s (k x) C"
  shows "startsA s (bindA m k) C"
  unfolding startsA_def
proof (intro allI impI)
  fix w r w' assume w: "db w = s" and run: "bindA m k w = (r, w')"
  obtain q v where v: "m w = (q, v)" by fastforce
  note same = givesD(1) [OF assms(1) v]
  show "C (db w')"
  proof (cases q)
    case (Inl e)
    then show ?thesis using run v same w assms(2) by (auto simp: bindA_def)
  next
    case (Inr x)
    then have "k x v = (r, w')" "P s x" using run v w givesD(2) [OF assms(1) v] by (auto simp: bindA_def)
    then show ?thesis using assms(3) [of x] same w unfolding startsA_def by metis
  qed
qed

lemma starts_same: "C s \<Longrightarrow> startsA s (retA x) C" "C s \<Longrightarrow> startsA s (failA e) C"
  by (auto simp: startsA_def retA_def failA_def)

lemma starts_under: "underA I m Q \<Longrightarrow> I s \<Longrightarrow> (\<And>s'. I s' \<Longrightarrow> C s') \<Longrightarrow> startsA s m C"
  unfolding startsA_def underA_def by blast

text \<open>The tables of functions stay, and the runtime changes as a run of an application may change it.\<close>

abbreviation serviceInv :: "(sqlStmt \<Rightarrow> bool) \<Rightarrow> appService \<Rightarrow> appService \<Rightarrow> bool" where
  "serviceInv P s0 s \<equiv> gaFn s = gaFn s0 \<and> runInv P (gaRun s0) (gaRun s)"

lemma under_handleA:
  assumes "underA I m Q" and "\<And>e. underA I (h e) Q"
  shows "underA I (handleA m h) Q"
proof (rule underAI)
  fix w r w' assume w: "I (db w)" and run: "handleA m h w = (r, w')"
  obtain q v where v: "m w = (q, v)" by fastforce
  show "I (db w')"
    using run v underAD(1) [OF assms(1) w v] underAD(1) [OF assms(2)] by (cases q) (auto simp: handleA_def)
next
  fix w x w' assume w: "I (db w)" and run: "handleA m h w = (Inr x, w')"
  obtain q v where v: "m w = (q, v)" by fastforce
  show "Q x"
    using run v underAD [OF assms(1) w v] underAD(2) [OF assms(2)] by (cases q) (auto simp: handleA_def)
qed

lemma under_record: "underA (serviceInv P s0) (recordExecution env ctx f kind payload result problem) anyAnswer"
proof -
  have create: "underA (serviceInv P s0) (ExecutionLog_Create l) anyAnswer" for l
    by (auto simp: underA_def ExecutionLog_Create_def stmtA_def insertLog_def split: option.splits if_splits)
  have id: "underA (serviceInv P s0) newUUID anyAnswer" "underA (serviceInv P s0) nowA anyAnswer"
    by (auto simp: underA_def newUUID_iff nowA_iff)
  have written: "underA (serviceInv P s0) (handleA (bindA (ExecutionLog_Create l) (\<lambda>_. retA i)) (\<lambda>_. retA [])) anyAnswer" for l i
    by (intro under_handleA under_bind [OF create] under_ret TrueI)
  show ?thesis unfolding recordExecution_def Let_def
    by (intro under_if under_ret under_bind [OF id(1)] under_bind [OF id(2)] written TrueI)
qed

lemma under_runA: "underA (runInv P (gaRun s0)) m anyAnswer \<Longrightarrow> underA (serviceInv P s0) (runA m) anyAnswer"
  unfolding runA_def by (erule under_zoom) simp_all

lemma under_previewA: "underA (serviceInv P s0) (previewA m) anyAnswer"
proof -
  have "underA (\<lambda>_. True) m anyAnswer" by (simp add: underA_def)
  then show ?thesis unfolding previewA_def by (rule under_zoom) simp_all
qed

lemma under_config:
  assumes "\<not> acDraft (heCfg (geHost env))"
  shows "underA (serviceInv P s0) (configResp env ctx appID f payload request) anyAnswer"
proof -
  have keys: "underA (serviceInv P s0) (runA (allowsConfigKeysA (geHost env) appID keys)) anyAnswer" for keys
    by (rule under_runA [OF under_gives [OF gives_keys [OF assms]]]) simp
  have call: "underA (serviceInv P s0) (callA g) anyAnswer" for g :: "nat \<Rightarrow> err + gostr"
    by (rule under_gives [OF gives_call]) simp
  have "underA (serviceInv P s0) (resolvePublicConfigInvoke env appID keys) anyAnswer" for keys
    unfolding resolvePublicConfigInvoke_def
    by (intro under_option under_fail under_bind [OF keys] under_bind [OF call] under_ret TrueI)
      (auto intro!: under_bind [OF under_previewA] under_bind [OF call] under_bind [OF under_ret] under_fail under_ret)
  then have "underA (serviceInv P s0) (resolvedConfig env appID keys) anyAnswer" for keys
    unfolding resolvedConfig_def by (intro under_bind [OF under_try] under_ret TrueI)
  then show ?thesis unfolding configResp_def
    by (auto intro!: under_ret under_bind under_record split: sum.split prod.split)
qed

lemma under_runResp:
  assumes "runResp env ctx appID f payload priv w = (r, w')" and "\<not> acDraft (heCfg (geHost env))" and "goRange (heRangeF (geHost env))"
  shows "serviceInv (allowedStatement (heLib (geHost env)) (gaRun (db w)) appID (\<exists>a. priv = Some a \<and> trimSpace a \<noteq> [])) (db w) (db w')"
    (is "serviceInv ?P _ _")
proof -
  obtain q v where v: "runA (Invoke (geHost env) priv (geModules env) appID payload) w = (q, v)" by fastforce
  then obtain u where u: "Invoke (geHost env) priv (geModules env) appID payload (withDb (gaRun (db w)) w) = (q, u)"
      "v = withDb ((db w)\<lparr>gaRun := db u\<rparr>) u"
    by (auto simp: runA_def zoomA_iff)
  have inv: "serviceInv ?P (db w) (db v)"
    using invocation_runs [OF u(1) [unfolded Invoke_def] assms(2,3)] u(2) by simp
  have rest: "underA (serviceInv ?P (db w)) (bindA (recordExecution env ctx f kind payload a b) (\<lambda>i. retA (h i))) anyAnswer"
    for kind a b and h :: "gostr \<Rightarrow> invokeResp"
    by (intro under_bind [OF under_record] under_ret TrueI)
  show ?thesis
  proof (cases q)
    case (Inl e)
    then show ?thesis using assms(1) v inv by (simp add: runResp_def bindA_def)
  next
    case (Inr x)
    obtain result problem where x: "x = (result, problem)" by fastforce
    from assms(1) v Inr x have "bindA (recordExecution env ctx f ''published'' payload result problem) (\<lambda>i. retA (case problem of
         Some e \<Rightarrow>
           (let detail = classifyInvokeError e in
            (problemResp appID (ieErrorCode detail) (ieErrorMessage detail) (ieStage detail) (ieHint detail))\<lparr>ivExecutionLogID := i\<rparr>)
       | None \<Rightarrow> (resultResp result)\<lparr>ivExecutionLogID := i\<rparr>)) v = (r, w')"
      unfolding runResp_def bindA_def [of "runA _"] by simp
    from underAD(1) [OF rest inv this] show ?thesis .
  qed
qed

lemma serviceInv_refl: "serviceInv P s s"
  by (simp add: runInv_refl)

text \<open>The protected action of a request, empty when it has none.\<close>

definition protectedAction :: "'m gaEnv \<Rightarrow> gostr \<Rightarrow> gostr" where
  "protectedAction env request =
     (let actionKey = extractInvokeActionKey (heJson (geHost env)) (if request = [] then [CHR 0x7B, CHR 0x7D] else request) in
      if needsDeclaration actionKey then actionKey else [])"

definition gatesPassed :: "'m gaEnv \<Rightarrow> goctx \<Rightarrow> appService \<Rightarrow> gostr \<Rightarrow> gostr \<Rightarrow> bool" where
  "gatesPassed env ctx s appID action \<longleftrightarrow>
     (\<exists>r. publishedAs s appID r) \<and>
     (\<exists>f \<in> set (fdFunctions (gaFn s)). fnGeneratedAppID f = appID \<and> accessGranted env ctx f action) \<and>
     (action \<noteq> [] \<longrightarrow> declaredIn (heLib (geHost env)) (gaRun s) appID action)"

lemma trimmed_action: "trimSpace (extractInvokeActionKey js payload) = extractInvokeActionKey js payload"
  by (auto simp: extractInvokeActionKey_def split: option.split)

lemma runInv_weaken: "runInv P s0 s \<Longrightarrow> (\<And>st. P st \<Longrightarrow> Q st) \<Longrightarrow> runInv Q s0 s"
  unfolding runInv_def onlySends_def by (auto simp: list_all_iff)

lemma handler_runs:
  assumes env: "\<not> acDraft (heCfg (geHost env))" "goRange (heRangeF (geHost env))"
  shows "startsA s (InvokeGeneratedApp env ctx given request)
    (serviceInv (\<lambda>st. gatesPassed env ctx s (trimSpace given) (protectedAction env request) \<and>
       allowedStatement (heLib (geHost env)) (gaRun s) (trimSpace given) (protectedAction env request \<noteq> []) st) s)"
    (is "startsA s _ (serviceInv ?P s)")
proof -
  define payload where "payload = (if request = [] then [CHR 0x7B, CHR 0x7D] else request)"
  define key where "key = extractInvokeActionKey (heJson (geHost env)) payload"
  let ?id = "trimSpace given" and ?check = "if needsDeclaration key then key else []"
  have action: "protectedAction env request = ?check"
    by (simp add: protectedAction_def Let_def key_def payload_def)
  have trim: "trimSpace ?check = ?check" by (simp add: key_def trimmed_action)
  have same: "serviceInv ?P s s" by (simp add: runInv_refl)
  have run: "startsA s (runResp env ctx ?id f payload (if ?check \<noteq> [] then Some ?check else None)) (serviceInv ?P s)"
    if gates: "gatesPassed env ctx s ?id ?check" for f
    unfolding startsA_def
  proof (intro allI impI)
    fix w r w' assume w: "db w = s" and go: "runResp env ctx ?id f payload (if ?check \<noteq> [] then Some ?check else None) w = (r, w')"
    have auth: "(\<exists>a. (if ?check \<noteq> [] then Some ?check else None) = Some a \<and> trimSpace a \<noteq> []) \<longleftrightarrow> ?check \<noteq> []"
      using trim by (cases "?check = []") simp_all
    show "serviceInv ?P s (db w')"
      using under_runResp [OF go env] gates unfolding auth w action by (auto elim: runInv_weaken)
  qed
  have config: "startsA s (configResp env ctx ?id f payload asked) (serviceInv ?P s)" for f asked
    by (rule starts_under [OF under_config [OF env(1)] same])
  have declares: "gives (if needsDeclaration key then runA (declaresActionA (geHost env) ?id key) else retA True)
      (\<lambda>s ok. needsDeclaration key \<and> ok \<longrightarrow> declaredIn (heLib (geHost env)) (gaRun s) ?id key)"
    by (auto intro: gives_post [OF gives_run [OF gives_declares [OF env(1)]]] gives_post [OF gives_basic(1)])
  have access: "startsA s (case granted of Inl e \<Rightarrow> retA (no e) | Inr u \<Rightarrow>
      (case publicConfigRequestKeys env payload of
         Some asked \<Rightarrow> configResp env ctx ?id f payload asked
       | None \<Rightarrow> runResp env ctx ?id f payload (if ?check \<noteq> [] then Some ?check else None))) (serviceInv ?P s)"
    if "\<forall>u. granted = Inr u \<longrightarrow> gatesPassed env ctx s ?id ?check" for granted :: "err + unit" and no f
  proof (cases granted)
    case (Inl e)
    show ?thesis unfolding Inl sum.case by (rule starts_same(1)) (rule same)
  next
    case (Inr u)
    show ?thesis
    proof (cases "publicConfigRequestKeys env payload")
      case None
      show ?thesis unfolding Inr sum.case None option.case by (rule run) (use that Inr in blast)
    next
      case (Some asked)
      show ?thesis unfolding Inr sum.case Some option.case by (rule config)
    qed
  qed
  show ?thesis
  proof (cases "?id = []")
    case True
    then show ?thesis using same by (simp add: InvokeGeneratedApp_def Let_def starts_same)
  next
    case False
    have gate: "gatesPassed env ctx s ?id ?check"
      if "publishedAs s (trimSpace ?id) rel" "f \<in> set (fdFunctions (gaFn s)) \<and> fnGeneratedAppID f = trimSpace ?id"
        "needsDeclaration key \<and> declared \<longrightarrow> declaredIn (heLib (geHost env)) (gaRun s) ?id key" "\<not> \<not> declared"
        "accessGranted env ctx f ?check" for rel f declared
      using that unfolding gatesPassed_def by auto
    show ?thesis
      unfolding InvokeGeneratedApp_def Let_def payload_def [symmetric] key_def [symmetric] if_not_P [OF False]
      apply (rule starts_bind, rule gives_active_release, rule same)
      apply (rule starts_bind, rule gives_function, rule same)
      apply (rule starts_bind, rule declares, rule same)
      apply (split if_split, intro conjI impI)
       apply (rule starts_same(1), rule same)
      apply (rule starts_bind, rule gives_try, rule gives_granted, rule same)
      apply (rule access)
      apply (intro allI impI)
      apply (rule gate, assumption, assumption, assumption, assumption)
      apply (erule allE, erule mp, assumption)
      done
  qed
qed

text \<open>
  C35: a request for a generated application reaches the database only if the application has a
  published release whose artifact is the loaded one, its function is in the table, the service for
  accounts let the user use it (or, when the function is not published, edit functions), and, for
  an action that is not one of the reading ones, the manifest of the release declares the action and
  the user holds it; the statements are then those of the release, and other than reads only with
  such an action.  The tables of the functions stay as they are.
\<close>

theorem Invoke_gate:
  assumes "InvokeGeneratedApp env ctx given request w = (r, w')" and "\<not> acDraft (heCfg (geHost env))" and "goRange (heRangeF (geHost env))"
  shows "gaFn (db w') = gaFn (db w) \<and> svApps (gaRun (db w')) = svApps (gaRun (db w)) \<and> svDisk (gaRun (db w')) = svDisk (gaRun (db w)) \<and>
    (\<exists>sent. dsSent (svData (gaRun (db w'))) = dsSent (svData (gaRun (db w))) @ sent \<and>
       (\<forall>st \<in> set sent. gatesPassed env ctx (db w) (trimSpace given) (protectedAction env request) \<and>
          allowedStatement (heLib (geHost env)) (gaRun (db w)) (trimSpace given) (protectedAction env request \<noteq> []) st))"
proof -
  let ?P = "\<lambda>st. gatesPassed env ctx (db w) (trimSpace given) (protectedAction env request) \<and>
    allowedStatement (heLib (geHost env)) (gaRun (db w)) (trimSpace given) (protectedAction env request \<noteq> []) st"
  have inv: "serviceInv ?P (db w) (db w')"
    using handler_runs [OF assms(2,3), of "db w" ctx given request] assms(1) unfolding startsA_def by blast
  then have "onlySends ?P (svData (gaRun (db w))) (svData (gaRun (db w')))" by (simp add: runInv_def)
  then obtain sent where "dsSent (svData (gaRun (db w'))) = dsSent (svData (gaRun (db w))) @ sent" "\<forall>st \<in> set sent. ?P st"
    by (auto simp: onlySends_def list_all_iff)
  then show ?thesis using inv runInv_core [OF conjunct2 [OF inv]] by blast
qed

text \<open>A published application whose module is the busy one, and a user to whom everything is granted.\<close>

definition gateRuntime :: fnRuntime where
  "gateRuntime = \<lparr>rtInspect = \<lambda>_ _. Inl RecordNotFound, rtCandidate = \<lambda>_ _. Inl RecordNotFound, rtScaffold = \<lambda>_ _. Inl RecordNotFound,
     rtSnapshot = \<lambda>_ _. Inl RecordNotFound, rtApplyModels = \<lambda>_ _. Inr (), rtPromote = \<lambda>_ _ _. Inr (), rtLoadApproved = \<lambda>_ _. Inr (),
     rtApproved = \<lambda>_ _ _. True, rtPublishedSnapshot = \<lambda>_ _ _. Inr ()\<rparr>"

definition gateEnv :: "unit gaEnv" where
  "gateEnv = \<lparr>geFn = demoFenv\<lparr>feRuntime := Some gateRuntime\<rparr>, geHost = busyEnv, gePreview = busyEnv, geModules = \<lambda>_. Inr busyModule,
     geConfigRequest = \<lambda>_. None, geConfig = None, geLogs = True, geTrace = ''trace'', geLogsText = \<lambda>_. None, geLogsRead = \<lambda>_. []\<rparr>"

definition gateRelease :: release where
  "gateRelease = \<lparr>relID = 1, relUUID = ''r'', relFunctionID = ''f'', relAppID = exampleApp, relVersion = 1, relArtifact = exampleHash,
     relManifest = [], relStatus = ReleasePublished, relCreatedBy = [], relCreatedAt = 0, relPublishedAt = 0, relUpdatedAt = 0\<rparr>"

definition gateFunction :: fnrow where
  "gateFunction = \<lparr>fnID = 1, fnUUID = ''f'', fnName = ''Tasks'', fnDescription = [], fnStatus = FunctionStatusPublished, fnWorkflowStage = [],
     fnProductDoc = [], fnTechnicalDoc = [], fnProductDocPath = [], fnTechnicalDocPath = [],
     fnEntry = [], fnProductSessionID = [], fnTechnicalSessionID = [], fnGenerationSessionID = [],
     fnGeneratedAppID = exampleApp, fnActiveReleaseID = ''r'', fnFunctionVersion = 0, fnProductDocVersion = 0,
     fnProductDraftVersion = 0, fnTechnicalDocVersion = 0, fnTechnicalDraftVersion = 0, fnTechnicalDraftOperationID = [],
     fnTechnicalSourceProductVersion = 0, fnCodeVersion = 0, fnCodeDraftVersion = 0, fnCodeDraftOperationID = [],
     fnCodeSourceTechnicalVersion = 0, fnMenuParentID = [], fnMenuID = [], fnCreatedAt = 0,
     fnUpdatedAt = 0, fnDocTechnicalStale = False\<rparr>"

definition gateRun :: appRuntime where
  "gateRun = busyRuntime\<lparr>svApproved := [exampleApp \<mapsto> exampleHash], svActiveDirs := [exampleApp \<mapsto> ''/release'']\<rparr>"

definition gateService :: appService where
  "gateService = \<lparr>gaFn = emptyTables\<lparr>fdFunctions := [gateFunction], fdReleases := [gateRelease]\<rparr>, gaRun = gateRun, gaPreview = busyRuntime, gaLogs = []\<rparr>"

lemma gate_open: "gatesPassed gateEnv demoEditor gateService exampleApp []"
proof -
  have "publishedAs gateService exampleApp gateRelease"
    by (simp add: publishedAs_def gateService_def gateRelease_def gateRun_def HasApprovedArtifact_def busyRuntime_def)
  moreover have "accessGranted gateEnv demoEditor gateFunction []"
    by (simp add: accessGranted_def gateFunction_def gateEnv_def demoFenv_def demoSystem_def demoEditor_user)
  moreover have "gateFunction \<in> set (fdFunctions (gaFn gateService))" "fnGeneratedAppID gateFunction = exampleApp"
    by (simp_all add: gateService_def gateFunction_def)
  ultimately show ?thesis unfolding gatesPassed_def by blast
qed

theorem Invoke_gate_witness:
  "\<exists>r w'. InvokeGeneratedApp gateEnv demoEditor exampleApp [] (quietWorld gateService) = (r, w') \<and>
     gaFn (db w') = gaFn gateService \<and> gatesPassed gateEnv demoEditor gateService exampleApp [] \<and>
     (\<exists>sent. dsSent (svData (gaRun (db w'))) = dsSent (svData gateRun) @ sent \<and>
        list_all (\<lambda>st. gatesPassed gateEnv demoEditor gateService (trimSpace exampleApp) (protectedAction gateEnv [])) sent)"
proof -
  obtain r w' where run: "InvokeGeneratedApp gateEnv demoEditor exampleApp [] (quietWorld gateService) = (r, w')" by fastforce
  have env: "\<not> acDraft (heCfg (geHost gateEnv))" "goRange (heRangeF (geHost gateEnv))"
    by (simp_all add: gateEnv_def busyEnv_def plainConfig_def goRange_def)
  have db: "db (quietWorld gateService) = gateService" "gaRun gateService = gateRun" by (simp_all add: quietWorld_def gateService_def)
  show ?thesis using Invoke_gate [OF run env, unfolded db] run gate_open by (auto simp: list_all_iff db)
qed

end
