(* ===== verification/App_Reload.thy ===== *)
theory App_Reload
  imports App_Gate System_Dao
begin

text \<open>
  The reload of the published applications and the clean-up of their menus
  (\<^verbatim>\<open>func-operation/internal/logic/generated_app.go\<close>,
  \<^verbatim>\<open>dao/generated_function_menu.go\<close>), which reaches into the tables of the system
  service, and the data forms of a draft (\<^verbatim>\<open>runtime/generatedapp/service.go\<close>).
\<close>

record platformState =
  psApps :: appService
  psSystem :: sysdb

type_synonym 'a pact = "(platformState, 'a) act"

definition appsA :: "'a gact \<Rightarrow> 'a pact" where
  "appsA m = zoomA psApps (\<lambda>d s. s\<lparr>psApps := d\<rparr>) m"

definition menusA :: "'a sysact \<Rightarrow> 'a pact" where
  "menusA m = zoomA psSystem (\<lambda>d s. s\<lparr>psSystem := d\<rparr>) m"

subsection \<open>Menus of functions that are gone\<close>

definition ListGeneratedFunctionMenus :: "menu list sysact" where
  "ListGeneratedFunctionMenus =
     queryA (\<lambda>d. Inr (sort_key (\<lambda>m. (mSort m, mCreatedAt m)) (filter (\<lambda>m. mSourceType m = ''generated_function'') (sysMenus d))))"

definition DeleteByID :: "gostr \<Rightarrow> unit sysact" where
  "DeleteByID i = transactionA (
     bindA (stmtA (\<lambda>d. Inr ((), d\<lparr>sysRoleMenus := filter (\<lambda>g. rmMenuID g \<noteq> i) (sysRoleMenus d)\<rparr>))) (\<lambda>_.
     stmtA (\<lambda>d. Inr ((), d\<lparr>sysMenus := filter (\<lambda>m. mID m \<noteq> i) (sysMenus d)\<rparr>))))"

definition childrenOf :: "menu \<Rightarrow> menu list \<Rightarrow> menu list" where
  "childrenOf m menus = filter (\<lambda>c. mParentID c = mID m) menus"

text \<open>Whether the menu was removed.\<close>

definition cleanMenu :: "menu list \<Rightarrow> menu \<Rightarrow> bool pact" where
  "cleanMenu menus m =
     (if mMenuType m \<noteq> 2 then retA False
      else bindA (appsA (fnA (Function_Exists (trimSpace (mSourceID m))))) (\<lambda>there.
        if there then retA False
        else bindA (forA (childrenOf m menus) (\<lambda>c. menusA (DeleteByID (mID c)))) (\<lambda>_.
             bindA (menusA (DeleteByID (mID m))) (\<lambda>_. retA True))))"

text \<open>\<open>hasMenus\<close>: the table of menus is configured.\<close>

definition CleanupGeneratedFunctionMenus :: "'m gaEnv \<Rightarrow> bool \<Rightarrow> goctx \<Rightarrow> nat pact" where
  "CleanupGeneratedFunctionMenus env hasMenus ctx =
     bindA (appsA (fnA (Require (feSystem (geFn env)) ctx functionPermissionEdit))) (\<lambda>_.
       if \<not> hasMenus then retA 0
       else bindA (menusA ListGeneratedFunctionMenus) (\<lambda>menus.
         bindA (mapA (cleanMenu menus) menus) (\<lambda>removed. retA (length (filter id removed)))))"

subsection \<open>What the clean-up removes\<close>

definition menusWithout :: "gostr set \<Rightarrow> sysdb \<Rightarrow> sysdb" where
  "menusWithout A d =
     d\<lparr>sysMenus := filter (\<lambda>m. mID m \<notin> A) (sysMenus d), sysRoleMenus := filter (\<lambda>g. rmMenuID g \<notin> A) (sysRoleMenus d)\<rparr>"

lemma menusWithout_empty [simp]: "menusWithout {} d = d"
  by (simp add: menusWithout_def)

lemma menusWithout_twice: "menusWithout B (menusWithout A d) = menusWithout (A \<union> B) d"
  by (simp add: menusWithout_def conj_commute)

text \<open>
  \<open>removesA s S m\<close>: with the applications \<open>s\<close>, the action removes the menus with identifiers in
  \<open>S x\<close> when it answers \<open>x\<close>, and with some identifiers in \<open>T\<close> in any case.
\<close>

definition removesA :: "appService \<Rightarrow> gostr set \<Rightarrow> 'a pact \<Rightarrow> ('a \<Rightarrow> gostr set \<Rightarrow> bool) \<Rightarrow> bool" where
  "removesA s T m Q \<longleftrightarrow> (\<forall>w r w'. psApps (db w) = s \<longrightarrow> m w = (r, w') \<longrightarrow>
     psApps (db w') = s \<and>
     (\<exists>A \<subseteq> T. psSystem (db w') = menusWithout A (psSystem (db w)) \<and> (\<forall>x. r = Inr x \<longrightarrow> Q x A)))"

lemma removesI:
  assumes "\<And>w r w'. psApps (db w) = s \<Longrightarrow> m w = (r, w') \<Longrightarrow> psApps (db w') = s \<and>
     (\<exists>A \<subseteq> T. psSystem (db w') = menusWithout A (psSystem (db w)) \<and> (\<forall>x. r = Inr x \<longrightarrow> Q x A))"
  shows "removesA s T m Q"
  using assms unfolding removesA_def by blast

lemma removesD:
  assumes "removesA s T m Q" and "psApps (db w) = s" and "m w = (r, w')"
  obtains A where "psApps (db w') = s" "A \<subseteq> T" "psSystem (db w') = menusWithout A (psSystem (db w))" "\<forall>x. r = Inr x \<longrightarrow> Q x A"
proof -
  from assms(1) [unfolded removesA_def, rule_format, OF assms(2,3)] show thesis using that by blast
qed

lemma removes_post:
  assumes "removesA s T m P" and "T \<subseteq> U" and "\<And>x A. P x A \<Longrightarrow> Q x A"
  shows "removesA s U m Q"
proof (rule removesI)
  fix w r w' assume "psApps (db w) = s" "m w = (r, w')"
  from removesD [OF assms(1) this] obtain A where A: "psApps (db w') = s" "A \<subseteq> T"
    "psSystem (db w') = menusWithout A (psSystem (db w))" "\<forall>x. r = Inr x \<longrightarrow> P x A" .
  have "A \<subseteq> U" using A(2) assms(2) by (rule subset_trans)
  moreover have "\<forall>x. r = Inr x \<longrightarrow> Q x A" using A(4) assms(3) by simp
  ultimately show "psApps (db w') = s \<and> (\<exists>A \<subseteq> U. psSystem (db w') = menusWithout A (psSystem (db w)) \<and> (\<forall>x. r = Inr x \<longrightarrow> Q x A))"
    using A(1,3) by blast
qed

lemma removes_ret: "Q x {} \<Longrightarrow> removesA s T (retA x) Q"
  unfolding removesA_def retA_def by (intro allI impI conjI exI [of _ "{}"]) auto

lemma removes_gives:
  assumes "gives m P" and "\<And>x. P s x \<Longrightarrow> Q x {}"
  shows "removesA s T (appsA m) Q"
  unfolding removesA_def
proof (intro allI impI)
  fix w r w' assume w: "psApps (db w) = s" and run: "appsA m w = (r, w')"
  have "gives (appsA m) (\<lambda>d x. P (psApps d) x)" unfolding appsA_def by (rule gives_zoom [OF assms(1)]) simp
  note g = givesD [OF this run]
  show "psApps (db w') = s \<and> (\<exists>A \<subseteq> T. psSystem (db w') = menusWithout A (psSystem (db w)) \<and> (\<forall>x. r = Inr x \<longrightarrow> Q x A))"
    using g w assms(2) by (intro conjI exI [of _ "{}"]) auto
qed

lemma removes_bind:
  assumes "removesA s T m P" and "\<And>x A. P x A \<Longrightarrow> removesA s U (k x) (\<lambda>y B. Q y (A \<union> B))"
  shows "removesA s (T \<union> U) (bindA m k) Q"
proof (rule removesI)
  fix w r w' assume w: "psApps (db w) = s" and run: "bindA m k w = (r, w')"
  obtain q v where v: "m w = (q, v)" by fastforce
  from removesD [OF assms(1) w v] obtain A where A: "psApps (db v) = s" "A \<subseteq> T"
    "psSystem (db v) = menusWithout A (psSystem (db w))" "\<forall>x. q = Inr x \<longrightarrow> P x A" .
  show "psApps (db w') = s \<and> (\<exists>A \<subseteq> T \<union> U. psSystem (db w') = menusWithout A (psSystem (db w)) \<and> (\<forall>x. r = Inr x \<longrightarrow> Q x A))"
  proof (cases q)
    case (Inl e)
    then have "w' = v" "r = Inl e" using run v by (simp_all add: bindA_def)
    then show ?thesis using A by blast
  next
    case (Inr x)
    then have "k x v = (r, w')" "P x A" using run v A(4) by (simp_all add: bindA_def)
    from removesD [OF assms(2) [OF this(2)] A(1) this(1)] obtain B where B: "psApps (db w') = s" "B \<subseteq> U"
      "psSystem (db w') = menusWithout B (psSystem (db v))" "\<forall>y. r = Inr y \<longrightarrow> Q y (A \<union> B)" .
    have "psSystem (db w') = menusWithout (A \<union> B) (psSystem (db w))" using B(3) A(3) by (simp add: menusWithout_twice)
    moreover have "A \<union> B \<subseteq> T \<union> U" using A(2) B(2) by blast
    ultimately show ?thesis using B(1,4) by blast
  qed
qed

lemma removes_delete: "removesA s {i} (menusA (DeleteByID i)) (\<lambda>u A. A = {i})"
proof -
  have ok: "db w' = menusWithout {i} (db w)" if "DeleteByID i w = (Inr u, w')" for w u w'
    using that by (auto simp: DeleteByID_def act_Inr menusWithout_def)
  have "atomicA (DeleteByID i)" unfolding DeleteByID_def by simp
  then have bad: "db w' = db w" if "DeleteByID i w = (Inl e, w')" for w e w'
    using that unfolding atomicA_def by fastforce
  have "\<exists>A \<subseteq> {i}. db w' = menusWithout A (db w) \<and> (\<forall>u. r = Inr u \<longrightarrow> A = {i})" if "DeleteByID i w = (r, w')" for w r w'
  proof (cases r)
    case (Inl e)
    then have "db w' = menusWithout {} (db w)" using that bad by simp
    then show ?thesis using Inl by blast
  next
    case (Inr u)
    then show ?thesis using that ok by blast
  qed
  note runs = this
  show ?thesis
  proof (rule removesI)
    fix w r w' assume w: "psApps (db w) = s" and "menusA (DeleteByID i) w = (r, w')"
    then obtain v where v: "DeleteByID i (withDb (psSystem (db w)) w) = (r, v)" "w' = withDb ((db w)\<lparr>psSystem := db v\<rparr>) v"
      by (auto simp: menusA_def zoomA_iff)
    show "psApps (db w') = s \<and> (\<exists>A \<subseteq> {i}. psSystem (db w') = menusWithout A (psSystem (db w)) \<and> (\<forall>x. r = Inr x \<longrightarrow> A = {i}))"
      using runs [OF v(1)] v(2) w by simp
  qed
qed

lemma removes_all:
  "removesA s (set is) (forA xs (\<lambda>c. menusA (DeleteByID (f c)))) (\<lambda>u A. A = set is)" if "is = map f xs"
  using that
proof (induction xs arbitrary: "is")
  case Nil
  then show ?case by (simp add: removes_ret)
next
  case (Cons x xs)
  have "removesA s ({f x} \<union> set (map f xs)) (bindA (menusA (DeleteByID (f x))) (\<lambda>_. forA xs (\<lambda>c. menusA (DeleteByID (f c))))) (\<lambda>u A. A = {f x} \<union> set (map f xs))"
    by (rule removes_bind [OF removes_delete], rule removes_post [OF Cons.IH [OF refl]]) auto
  then show ?case using Cons.prems by simp
qed

text \<open>A menu whose function is not in the table, and the identifiers that go with it.\<close>

definition orphaned :: "appService \<Rightarrow> menu \<Rightarrow> bool" where
  "orphaned s m \<longleftrightarrow> mMenuType m = 2 \<and> trimSpace (mSourceID m) \<notin> fnUUID ` set (fdFunctions (gaFn s))"

definition removedWith :: "menu list \<Rightarrow> menu \<Rightarrow> gostr set" where
  "removedWith menus m = insert (mID m) (mID ` set (childrenOf m menus))"

lemma removes_clean:
  "removesA s (if orphaned s m then removedWith menus m else {}) (cleanMenu menus m)
     (\<lambda>b A. b = orphaned s m \<and> A = (if b then removedWith menus m else {}))"
proof -
  have there: "gives (fnA (Function_Exists i)) (\<lambda>d b. b = (i \<in> fnUUID ` set (fdFunctions (gaFn d))))" for i
    unfolding Function_Exists_def by (rule gives_post [OF gives_fn [OF gives_basic(4)]]) auto
  have kids: "removesA s (set (map mID (childrenOf m menus)) \<union> ({mID m} \<union> {}))
      (bindA (forA (childrenOf m menus) (\<lambda>c. menusA (DeleteByID (mID c)))) (\<lambda>_. bindA (menusA (DeleteByID (mID m))) (\<lambda>_. retA True)))
      (\<lambda>b A. b \<and> A = removedWith menus m)"
    by (rule removes_bind [OF removes_all [OF refl]], rule removes_bind [OF removes_delete], rule removes_ret) (auto simp: removedWith_def)
  show ?thesis
  proof (cases "mMenuType m = 2")
    case False
    then show ?thesis by (simp add: cleanMenu_def orphaned_def removes_ret)
  next
    case True
    have "removesA s ({} \<union> (if orphaned s m then removedWith menus m else {}))
       (bindA (appsA (fnA (Function_Exists (trimSpace (mSourceID m))))) (\<lambda>there.
        if there then retA False
        else bindA (forA (childrenOf m menus) (\<lambda>c. menusA (DeleteByID (mID c)))) (\<lambda>_. bindA (menusA (DeleteByID (mID m))) (\<lambda>_. retA True))))
       (\<lambda>b A. b = orphaned s m \<and> A = (if b then removedWith menus m else {}))"
    proof (rule removes_bind [where P = "\<lambda>b A. b = (\<not> orphaned s m) \<and> A = {}"])
      show "removesA s {} (appsA (fnA (Function_Exists (trimSpace (mSourceID m))))) (\<lambda>b A. b = (\<not> orphaned s m) \<and> A = {})"
        by (rule removes_gives [OF there]) (simp add: orphaned_def True)
    next
      fix b :: bool and A :: "gostr set" assume b: "b = (\<not> orphaned s m) \<and> A = {}"
      show "removesA s (if orphaned s m then removedWith menus m else {})
         (if b then retA False
          else bindA (forA (childrenOf m menus) (\<lambda>c. menusA (DeleteByID (mID c)))) (\<lambda>_. bindA (menusA (DeleteByID (mID m))) (\<lambda>_. retA True)))
         (\<lambda>b B. b = orphaned s m \<and> A \<union> B = (if b then removedWith menus m else {}))"
      proof (cases b)
        case True
        then show ?thesis using b by (simp add: removes_ret)
      next
        case False
        then show ?thesis using b by (auto intro!: removes_post [OF kids] simp: removedWith_def)
      qed
    qed
    then show ?thesis using True by (simp add: cleanMenu_def)
  qed
qed

definition removedIDs :: "appService \<Rightarrow> menu list \<Rightarrow> menu list \<Rightarrow> gostr set" where
  "removedIDs s menus ms = (\<Union>m \<in> {m \<in> set ms. orphaned s m}. removedWith menus m)"

lemma removes_loop:
  "removesA s (removedIDs s menus ms) (mapA (cleanMenu menus) ms) (\<lambda>bs A. bs = map (orphaned s) ms \<and> A = removedIDs s menus ms)"
proof (induction ms)
  case Nil
  then show ?case by (simp add: removes_ret removedIDs_def)
next
  case (Cons m ms)
  have split: "removedIDs s menus (m # ms) = (if orphaned s m then removedWith menus m else {}) \<union> (removedIDs s menus ms \<union> {})"
    by (auto simp: removedIDs_def)
  show ?case unfolding split mapA.simps
    by (rule removes_bind [OF removes_clean], rule removes_bind [OF Cons.IH], rule removes_ret) (auto simp: removedIDs_def)
qed

lemma gives_bindE:
  assumes "bindA m k w = (r, w')" and "gives m P"
  obtains e where "r = Inl e" "db w' = db w" | x v where "P (db w) x" "db v = db w" "k x v = (r, w')"
proof -
  obtain q v where v: "m w = (q, v)" by fastforce
  note same = givesD(1) [OF assms(2) v]
  show thesis
  proof (cases q)
    case (Inl e)
    then have "r = Inl e" "w' = v" using assms(1) v by (simp_all add: bindA_def)
    then show thesis using same that(1) by simp
  next
    case (Inr x)
    then show thesis using assms(1) v same givesD(2) [OF assms(2) v Inr] that(2) by (simp add: bindA_def)
  qed
qed

text \<open>The menus of generated functions.\<close>

definition generatedMenus :: "sysdb \<Rightarrow> menu list" where
  "generatedMenus d = filter (\<lambda>m. mSourceType m = ''generated_function'') (sysMenus d)"

text \<open>
  C36: the clean-up removes exactly the menus of generated functions that are not in the table of
  functions any more, with the generated menus directly below them and the grants of all of them,
  and counts them; when it fails, what it has removed is among these.  The functions, the
  applications and all other menus and grants stay.
\<close>

theorem Cleanup_exact:
  assumes "CleanupGeneratedFunctionMenus env hasMenus ctx w = (r, w')"
  shows "psApps (db w') = psApps (db w) \<and>
    (\<exists>A \<subseteq> removedIDs (psApps (db w)) (generatedMenus (psSystem (db w))) (generatedMenus (psSystem (db w))).
       psSystem (db w') = menusWithout A (psSystem (db w)) \<and>
       (\<forall>n. r = Inr n \<and> hasMenus \<longrightarrow>
          A = removedIDs (psApps (db w)) (generatedMenus (psSystem (db w))) (generatedMenus (psSystem (db w))) \<and>
          n = length (filter (orphaned (psApps (db w))) (generatedMenus (psSystem (db w))))))"
proof -
  let ?s = "psApps (db w)" and ?g = "generatedMenus (psSystem (db w))"
  let ?all = "removedIDs ?s ?g ?g"
  have sorted: "removedIDs ?s (sort_key h ?g) (sort_key h ?g) = ?all"
    "length (filter (orphaned ?s) (sort_key h ?g)) = length (filter (orphaned ?s) ?g)" for h :: "menu \<Rightarrow> int \<times> int"
    by (simp_all add: removedIDs_def removedWith_def childrenOf_def) (metis mset_filter mset_sort size_mset)
  have gate: "gives (appsA (fnA (Require c x y))) (\<lambda>_ _. True)" for c x y
    using gives_zoom [OF gives_fn [OF gives_readonly [OF readonly_access(2)]]] unfolding appsA_def by (rule gives_post) simp_all
  have listed: "gives (menusA ListGeneratedFunctionMenus) (\<lambda>d ms. ms = sort_key (\<lambda>m. (mSort m, mCreatedAt m)) (generatedMenus (psSystem d)))"
    unfolding menusA_def ListGeneratedFunctionMenus_def
    by (rule gives_post [OF gives_zoom [OF gives_basic(4)]]) (auto simp: generatedMenus_def)
  have none: ?thesis if "db w' = db w" "\<forall>n. r = Inr n \<longrightarrow> \<not> hasMenus"
    using that by (intro conjI exI [of _ "{}"]) auto
  from assms [unfolded CleanupGeneratedFunctionMenus_def] gate show ?thesis
  proof (cases rule: gives_bindE)
    case (1 e)
    then show ?thesis by (intro none) auto
  next
    case (2 x v)
    show ?thesis
    proof (cases hasMenus)
      case False
      then show ?thesis using 2(2,3) by (intro none) (auto simp: retA_def)
    next
      case True
      with 2(3) have "bindA (menusA ListGeneratedFunctionMenus) (\<lambda>menus.
         bindA (mapA (cleanMenu menus) menus) (\<lambda>removed. retA (length (filter id removed)))) v = (r, w')" by simp
      then show ?thesis using listed
      proof (cases rule: gives_bindE)
        case (1 e)
        then show ?thesis using 2(2) by (intro none) auto
      next
        case (2 ms u)
        have ms: "ms = sort_key (\<lambda>m. (mSort m, mCreatedAt m)) ?g" and u: "psApps (db u) = ?s" "db u = db w"
          using 2(1,2) \<open>db v = db w\<close> by simp_all
        have "removesA ?s (removedIDs ?s ms ms \<union> {}) (bindA (mapA (cleanMenu ms) ms) (\<lambda>removed. retA (length (filter id removed))))
            (\<lambda>n A. n = length (filter (orphaned ?s) ms) \<and> A = removedIDs ?s ms ms)"
          by (rule removes_bind [OF removes_loop], rule removes_ret) (simp add: filter_map o_def)
        from removesD [OF this u(1) 2(3)] obtain A where "psApps (db w') = ?s" "A \<subseteq> removedIDs ?s ms ms \<union> {}"
          "psSystem (db w') = menusWithout A (psSystem (db u))"
          "\<forall>n. r = Inr n \<longrightarrow> n = length (filter (orphaned ?s) ms) \<and> A = removedIDs ?s ms ms" .
        then show ?thesis unfolding ms sorted u(2) by blast
      qed
    qed
  qed
qed

text \<open>A menu of a function that was deleted, with a grant.\<close>

definition orphanMenu :: menu where
  "orphanMenu = \<lparr>mID = ''m'', mParentID = [], mModule = MenuModuleFuncOperation, mPlacement = MenuPlacementModuleNav, mName = ''Old'',
     mCode = [], mViewKey = [], mIcon = [], mMenuType = 2, mSort = 1, mStatus = MenuStatusEnabled, mVisible = MenuVisibleYes,
     mIsDefault = False, mRemark = [], mSourceType = ''generated_function'', mSourceID = ''gone'', mCreatedAt = 0, mUpdatedAt = 0\<rparr>"

definition orphanState :: platformState where
  "orphanState = \<lparr>psApps = gateService, psSystem = emptySysdb\<lparr>sysMenus := [orphanMenu],
     sysRoleMenus := [\<lparr>rmRoleID = ''r'', rmMenuID = ''m'', rmCreatedAt = 0\<rparr>]\<rparr>\<rparr>"

lemma orphan_there: "orphaned gateService orphanMenu" "generatedMenus (psSystem orphanState) = [orphanMenu]"
  "removedIDs gateService [orphanMenu] [orphanMenu] = {''m''}"
proof -
  have trim: "trimSpace ''gone'' = ''gone''" by (intro trimSpace_visible) (simp_all add: visibleChar_def)
  show o: "orphaned gateService orphanMenu"
    by (simp add: orphaned_def orphanMenu_def trim gateService_def gateFunction_def emptyTables_def)
  show "generatedMenus (psSystem orphanState) = [orphanMenu]" by (simp add: generatedMenus_def orphanState_def orphanMenu_def)
  have "removedWith [orphanMenu] orphanMenu = {''m''}" by (simp add: removedWith_def childrenOf_def orphanMenu_def)
  then show "removedIDs gateService [orphanMenu] [orphanMenu] = {''m''}" using o by (simp add: removedIDs_def cong: conj_cong)
qed

theorem Cleanup_exact_witness:
  "\<exists>w'. CleanupGeneratedFunctionMenus gateEnv True demoEditor (quietWorld orphanState) = (Inr 1, w') \<and>
     sysMenus (psSystem (db w')) = [] \<and> sysRoleMenus (psSystem (db w')) = []"
proof -
  obtain r w' where run: "CleanupGeneratedFunctionMenus gateEnv True demoEditor (quietWorld orphanState) = (r, w')" by fastforce
  have trim: "trimSpace ''u'' = ''u''" "trimSpace ''gone'' = ''gone''" by (intro trimSpace_visible; simp add: visibleChar_def)+
  have r: "\<exists>n. r = Inr n"
    using run demoEditor_user trim
    by (auto simp: CleanupGeneratedFunctionMenus_def quietWorld_def appsA_def menusA_def fnA_def zoomA_def act_defs Require_def Allowed_def gateEnv_def
        demoFenv_def demoSystem_def callA_def drawA_def liftA_def ListGeneratedFunctionMenus_def withDb_def orphanState_def orphanMenu_def gateService_def
        cleanMenu_def childrenOf_def DeleteByID_def Function_Exists_def gateFunction_def if_distribR)
  have start: "psApps (db (quietWorld orphanState)) = gateService" "db (quietWorld orphanState) = orphanState"
    by (simp_all add: quietWorld_def orphanState_def)
  obtain n where n: "r = Inr n" using r by blast
  have "psSystem (db w') = menusWithout {''m''} (psSystem orphanState) \<and> n = 1"
    using Cleanup_exact [OF run, unfolded start(2) start(1) [unfolded start(2)] orphan_there(2,3)] n orphan_there(1)
    by (elim conjE exE) simp
  moreover have "sysMenus (menusWithout {''m''} (psSystem orphanState)) = []" "sysRoleMenus (menusWithout {''m''} (psSystem orphanState)) = []"
    by (simp_all add: menusWithout_def orphanState_def orphanMenu_def)
  ultimately show ?thesis using run n by auto
qed

subsection \<open>Actions of published functions\<close>

definition syncActions :: "'m gaEnv \<Rightarrow> goctx \<Rightarrow> fnrow \<Rightarrow> unit gact" where
  "syncActions env ctx f =
     (if fnStatus f \<noteq> FunctionStatusPublished then retA ()
      else if trimSpace (fnGeneratedAppID f) = [] \<or> trimSpace (fnMenuParentID f) = [] then retA ()
      else bindA (tryA (runA (InspectApp (geHost env) (trimSpace (fnGeneratedAppID f))))) (\<lambda>r.
        case r of
          Inl e \<Rightarrow> retA ()
        | Inr inspected \<Rightarrow>
            (if \<not> aiExists inspected then retA ()
             else bindA (fnA (SyncPublishedActions (feMenus (geFn env)) ctx (fnUUID f) (fnName f) (fnMenuParentID f) (aiActions inspected)))
               (\<lambda>menuID.
                 if menuID = [] \<or> menuID = fnMenuID f then retA ()
                 else bindA nowA (\<lambda>now. fnA (Function_Update (f\<lparr>fnMenuID := menuID, fnUpdatedAt := now\<rparr>)))))))"

definition syncPublishedFunctionActions :: "'m gaEnv \<Rightarrow> goctx \<Rightarrow> unit gact" where
  "syncPublishedFunctionActions env ctx =
     (if feMenus (geFn env) = None then retA ()
      else bindA (fnA Function_List) (\<lambda>fs. forA fs (syncActions env ctx)))"

text \<open>
  \<^verbatim>\<open>RestorePublished\<close> on the runtime in the state; \<open>rng\<close> is the order of the
  range over its map of approvals.
\<close>

definition restoreOn :: "'m gaEnv \<Rightarrow> (gostr set \<Rightarrow> gostr list) \<Rightarrow> unit gact" where
  "restoreOn env rng =
     (if \<not> feReleases (geFn env) then failA releaseRuntimeMissing
      else bindA (fnA Release_ListPublished) (\<lambda>rs.
        let approvals = foldl (\<lambda>m r. AList.update (relAppID r) (relArtifact r) m) [] rs in
        runA (LoadApprovedArtifacts (heLib (geHost env)) (heCfg (geHost env)) rng approvals)))"

definition ReloadGeneratedApps ::
  "'m gaEnv \<Rightarrow> bool \<Rightarrow> (gostr set \<Rightarrow> gostr list) \<Rightarrow> goctx \<Rightarrow> (nat \<Rightarrow> err + generatedApp list) \<Rightarrow> generatedApp list pact" where
  "ReloadGeneratedApps env hasMenus rng ctx rows =
     bindA (appsA (fnA (Require (feSystem (geFn env)) ctx functionPermissionEdit))) (\<lambda>_.
     bindA (appsA (fnA (RevokeOrphanedPublished (geFn env)))) (\<lambda>_.
     bindA (appsA (restoreOn env rng)) (\<lambda>_.
     bindA (appsA (syncPublishedFunctionActions env ctx)) (\<lambda>_.
     bindA (CleanupGeneratedFunctionMenus env hasMenus ctx) (\<lambda>_.
       appsA (ListGeneratedApps env ctx rows))))))"

subsection \<open>Data forms\<close>

record dataFormSummary =
  fsName :: gostr
  fsLabel :: gostr
  fsFieldCount :: "32 word"
  fsRowCount :: int
  fsTableName :: gostr

definition formSummary :: "modelSummary \<Rightarrow> dataFormSummary" where
  "formSummary s =
     \<lparr>fsName = dmName (msModel s), fsLabel = firstNonBlank [trimSpace (dmLabel (msModel s)), dmName (msModel s)],
      fsFieldCount = of_nat (length (dmFields (msModel s))), fsRowCount = msRowCount s, fsTableName = msTable s\<rparr>"

definition ListDataForms :: "hostEnv \<Rightarrow> gostr \<Rightarrow> dataFormSummary list aact" where
  "ListDataForms env appID =
     bindA (manifestPathForApp (heLib env) (heCfg env) appID) (\<lambda>(_, item).
     bindA (dataA (ListDataModelSummaries (dlib env) (Some (deng env)) appID (mfDataModels item))) (\<lambda>summaries.
       retA (map formSummary summaries)))"

definition withoutForm :: "gostr \<Rightarrow> manifest \<Rightarrow> dataModel list \<Rightarrow> dataModel list \<Rightarrow> manifest" where
  "withoutForm formName item before after =
     item\<lparr>mfDataModels := before @ after,
       mfRelations := filterRelationsForDeletedModel (mfRelations item) formName,
       mfQueries := filterQueriesForDeletedModel (mfQueries item) formName\<rparr>"

definition DeleteDataForm :: "hostEnv \<Rightarrow> gostr \<Rightarrow> gostr \<Rightarrow> dataFormSummary list aact" where
  "DeleteDataForm env appID given =
     (let formName = trimSpace given in
      if formName = [] then failA (Err ''data form name is required'')
      else bindA (manifestPathForApp (heLib env) (heCfg env) appID) (\<lambda>(appDir, item).
        let before = takeWhile (\<lambda>m. dmName m \<noteq> formName) (mfDataModels item) in
        case drop (length before) (mfDataModels item) of
          [] \<Rightarrow> failA (Err (''data form '' @ goQuote formName @ '' is not declared''))
        | target # after \<Rightarrow>
            bindA (dataA (DropDataModel (dlib env) (Some (deng env)) appID target)) (\<lambda>_.
            bindA (liftA (marshalManifest (alJson (heLib env)) (withoutForm formName item before after))) (\<lambda>raw.
            bindA (withTextA (''write generated app manifest '' @ goQuote appID @ '': '') (writeFileA (manifestFile appDir) raw)) (\<lambda>_.
              ListDataForms env appID)))))"

end
