(* ===== verification/Redis_Lock.thy ===== *)
theory Redis_Lock
  imports Redis_Store
begin

text \<open>
  The distributed lock (\<^verbatim>\<open>toolbox/redislock/lock.go\<close>) that guards the migrations of
  the services: a key in Redis with an expiry, and a goroutine of the holder that renews it.

  The clients run in parallel with their goroutines.  Every command of Redis is one step; the
  goroutine looks whether it shall end, and whether the lock is held, before it renews, and time
  passes in between.  The field \<open>due\<close> in the state of the goroutine is the time at which it had to
  look; the time of a step is at most \<open>slack\<close> behind it.  \<open>tryLock\<close> is one step: what lies between
  the answer of Redis and the first look of the goroutine counts as lateness of the goroutine.
\<close>

subsection \<open>State\<close>

datatype watchDog = DogOff | DogLooking int | DogRenewing int | DogSleeping int

record lockClient =
  lkKey :: gostr
  lkValue :: gostr
  lkExpire :: int
  lkStatus :: bool
  lkCancelled :: bool
  lkDog :: watchDog

record lockState =
  lsNow :: int
  lsStore :: "gostr redis"
  lsClients :: "lockClient list"

definition minExpire :: int where "minExpire = 2"

definition seconds :: "int \<Rightarrow> int" where "seconds n = n * 1000000000"

definition genKey :: "gostr \<Rightarrow> gostr" where
  "genKey key = ''ai-dandelion'' @ '':lock:'' @ key"

subsection \<open>Operations\<close>

text \<open>\<open>ok\<close> says whether the command reaches Redis.\<close>

definition lock :: "bool \<Rightarrow> int \<Rightarrow> lockClient \<Rightarrow> gostr redis \<Rightarrow> (err + unit) \<times> gostr redis" where
  "lock ok now c d =
     (if \<not> ok then (Inl (Driver ''redis''), d)
      else if rdLookup now d (genKey (lkKey c)) \<noteq> None then (Inl (Err (utf8 [229, 183, 178, 231, 187, 143, 232, 162, 171, 233, 148, 129, 228, 189, 143])), d)
      else (Inr (), d(genKey (lkKey c) \<mapsto> (lkValue c, expiryOf now (seconds (lkExpire c))))))"

definition startWatchDog :: "int \<Rightarrow> lockClient \<Rightarrow> lockClient" where
  "startWatchDog now c = c\<lparr>lkCancelled := False, lkDog := DogLooking now\<rparr>"

definition tryLock :: "bool \<Rightarrow> int \<Rightarrow> lockClient \<Rightarrow> gostr redis \<Rightarrow> (err + unit) \<times> lockClient \<times> gostr redis" where
  "tryLock ok now c d =
     (case lock ok now c d of
        (Inl e, d') \<Rightarrow> (Inl e, c, d')
      | (Inr u, d') \<Rightarrow> (Inr u, (startWatchDog now c)\<lparr>lkStatus := True\<rparr>, d'))"

definition NewDistributeLockRedis ::
  "bool \<Rightarrow> int \<Rightarrow> gostr \<Rightarrow> int \<Rightarrow> gostr \<Rightarrow> gostr redis \<Rightarrow> (err + unit) \<times> lockClient option \<times> gostr redis" where
  "NewDistributeLockRedis ok now key expire val d =
     (if expire < minExpire then (Inl (Err (utf8 [230, 156, 128, 229, 176, 143, 232, 191, 135, 230, 156, 159, 230, 151, 182, 233, 151, 180, 228, 184, 186, 50, 231, 167, 146])), None, d)
      else case tryLock ok now \<lparr>lkKey = key, lkValue = val, lkExpire = expire, lkStatus = False, lkCancelled = False, lkDog = DogOff\<rparr> d of
        (r, c, d') \<Rightarrow> (r, Some c, d'))"

definition releaseFailed :: err where "releaseFailed = Err (utf8 [233, 135, 138, 230, 148, 190, 233, 148, 129, 229, 164, 177, 232, 180, 165])"

definition Unlock :: "bool \<Rightarrow> int \<Rightarrow> lockClient \<Rightarrow> gostr redis \<Rightarrow> (err + unit) \<times> lockClient \<times> gostr redis" where
  "Unlock ok now c d =
     (let c1 = c\<lparr>lkCancelled := True\<rparr> in
      if \<not> lkStatus c1 then (Inl releaseFailed, c1, d)
      else if \<not> ok then (Inl releaseFailed, c1, d)
      else if rdLookup now d (genKey (lkKey c1)) \<noteq> None then (Inr (), c1\<lparr>lkStatus := False\<rparr>, d(genKey (lkKey c1) := None))
      else (Inl releaseFailed, c1, d(genKey (lkKey c1) := None)))"

text \<open>The turns of the goroutine: a look at the context and the status, a renewal, the end of its sleep.\<close>

definition dogLook :: "lockClient \<Rightarrow> lockClient" where
  "dogLook c =
     (case lkDog c of
        DogLooking due \<Rightarrow>
          (if lkCancelled c then c\<lparr>lkDog := DogOff\<rparr>
           else if lkStatus c then c\<lparr>lkDog := DogRenewing due\<rparr> else c)
      | _ \<Rightarrow> c)"

definition dogRenew :: "bool \<Rightarrow> int \<Rightarrow> lockClient \<Rightarrow> gostr redis \<Rightarrow> lockClient \<times> gostr redis" where
  "dogRenew ok now c d =
     (case lkDog c of
        DogRenewing due \<Rightarrow>
          (if \<not> ok then (c\<lparr>lkDog := DogOff\<rparr>, d)
           else (c\<lparr>lkDog := DogSleeping (now + seconds (lkExpire c div 2))\<rparr>,
                 case d (genKey (lkKey c)) of
                   None \<Rightarrow> d
                 | Some (v, t) \<Rightarrow>
                     (if liveAt now t then d(genKey (lkKey c) \<mapsto> (v, expiryOf now (seconds (lkExpire c)))) else d)))
      | _ \<Rightarrow> (c, d))"

definition dogWake :: "int \<Rightarrow> lockClient \<Rightarrow> lockClient" where
  "dogWake now c =
     (case lkDog c of DogSleeping until \<Rightarrow> (if until \<le> now then c\<lparr>lkDog := DogLooking until\<rparr> else c) | _ \<Rightarrow> c)"

subsection \<open>Runs\<close>

text \<open>The clients by the order in which they were made.\<close>

datatype lockLabel =
    LockNew gostr int gostr bool
  | LockRelease nat bool
  | LockLook nat
  | LockRenew nat bool
  | LockWake nat
  | LockTick int

definition atClient :: "nat \<Rightarrow> lockState \<Rightarrow> (lockClient \<Rightarrow> lockClient \<times> gostr redis) \<Rightarrow> lockState option" where
  "atClient i s f =
     (if i < length (lsClients s)
      then (case f (lsClients s ! i) of (c, d) \<Rightarrow> Some (s\<lparr>lsClients := (lsClients s)[i := c], lsStore := d\<rparr>))
      else None)"

fun lockStep :: "lockLabel \<Rightarrow> lockState \<Rightarrow> lockState option" where
  "lockStep (LockNew key expire val ok) s =
     (case NewDistributeLockRedis ok (lsNow s) key expire val (lsStore s) of
        (r, None, d) \<Rightarrow> Some s
      | (r, Some c, d) \<Rightarrow> Some (s\<lparr>lsClients := lsClients s @ [c], lsStore := d\<rparr>))"
| "lockStep (LockRelease i ok) s = atClient i s (\<lambda>c. snd (Unlock ok (lsNow s) c (lsStore s)))"
| "lockStep (LockLook i) s = atClient i s (\<lambda>c. (dogLook c, lsStore s))"
| "lockStep (LockRenew i ok) s = atClient i s (\<lambda>c. dogRenew ok (lsNow s) c (lsStore s))"
| "lockStep (LockWake i) s = atClient i s (\<lambda>c. (dogWake (lsNow s) c, lsStore s))"
| "lockStep (LockTick t) s = (if 0 \<le> t then Some (s\<lparr>lsNow := lsNow s + t\<rparr>) else None)"

fun lockRun :: "lockLabel list \<Rightarrow> lockState \<Rightarrow> lockState option" where
  "lockRun [] s = Some s"
| "lockRun (l # ls) s = (case lockStep l s of None \<Rightarrow> None | Some s' \<Rightarrow> lockRun ls s')"

definition freeLocks :: lockState where
  "freeLocks = \<lparr>lsNow = 0, lsStore = Map.empty, lsClients = []\<rparr>"

text \<open>
  The conditions under which the lock works: commands reach Redis, everybody asks for the same
  expiry of a key, and no goroutine is ever more than \<open>slack\<close> behind its time.
\<close>

fun dueOf :: "watchDog \<Rightarrow> int option" where
  "dueOf DogOff = None"
| "dueOf (DogLooking t) = Some t"
| "dueOf (DogRenewing t) = Some t"
| "dueOf (DogSleeping t) = Some t"

definition punctual :: "int \<Rightarrow> int \<Rightarrow> lockClient \<Rightarrow> bool" where
  "punctual slack now c \<longleftrightarrow>
     (case dueOf (lkDog c) of None \<Rightarrow> True | Some due \<Rightarrow> lkCancelled c \<or> now \<le> due + slack)"

fun smooth :: "(gostr \<Rightarrow> int) \<Rightarrow> int \<Rightarrow> lockLabel \<Rightarrow> lockState \<Rightarrow> bool" where
  "smooth expiry slack (LockNew key expire val ok) s \<longleftrightarrow> ok \<and> expire = expiry key"
| "smooth expiry slack (LockRelease i ok) s \<longleftrightarrow> ok"
| "smooth expiry slack (LockRenew i ok) s \<longleftrightarrow> ok"
| "smooth expiry slack (LockTick t) s \<longleftrightarrow> list_all (punctual slack (lsNow s + t)) (lsClients s)"
| "smooth expiry slack l s \<longleftrightarrow> True"

fun smoothRun :: "(gostr \<Rightarrow> int) \<Rightarrow> int \<Rightarrow> lockLabel list \<Rightarrow> lockState \<Rightarrow> bool" where
  "smoothRun expiry slack [] s \<longleftrightarrow> True"
| "smoothRun expiry slack (l # ls) s \<longleftrightarrow>
     smooth expiry slack l s \<and> (case lockStep l s of None \<Rightarrow> False | Some s' \<Rightarrow> smoothRun expiry slack ls s')"

subsection \<open>The invariant\<close>

lemma seconds_expiry: "0 < n \<Longrightarrow> expiryOf now (seconds n) = Some (now + seconds n)"
  by (auto simp: expiryOf_def wireTTL_def seconds_def nanosPerMilli_def)

lemma genKey_inj [simp]: "genKey a = genKey b \<longleftrightarrow> a = b"
  by (simp add: genKey_def)

text \<open>The lock is in Redis until after the next look of the goroutine.\<close>

definition leased :: "int \<Rightarrow> int \<Rightarrow> gostr redis \<Rightarrow> lockClient \<Rightarrow> bool" where
  "leased slack now d c \<longleftrightarrow>
     \<not> lkCancelled c \<and> (\<exists>due v t. dueOf (lkDog c) = Some due \<and> d (genKey (lkKey c)) = Some (v, Some t) \<and> due + slack < t \<and> now \<le> due + slack)"

definition clientOk :: "(gostr \<Rightarrow> int) \<Rightarrow> int \<Rightarrow> int \<Rightarrow> gostr redis \<Rightarrow> lockClient \<Rightarrow> bool" where
  "clientOk expiry slack now d c \<longleftrightarrow>
     (lkDog c \<noteq> DogOff \<longrightarrow> lkExpire c = expiry (lkKey c) \<and> minExpire \<le> expiry (lkKey c)) \<and>
     (lkStatus c \<longrightarrow> leased slack now d c)"

definition storeOk :: "(gostr \<Rightarrow> int) \<Rightarrow> int \<Rightarrow> gostr redis \<Rightarrow> bool" where
  "storeOk expiry now d \<longleftrightarrow>
     (\<forall>k v t. d (genKey k) = Some (v, t) \<longrightarrow> (\<exists>u. t = Some u \<and> u \<le> now + seconds (expiry k)))"

definition oneHolder :: "lockClient list \<Rightarrow> bool" where
  "oneHolder cs \<longleftrightarrow>
     (\<forall>i < length cs. \<forall>j < length cs. lkStatus (cs ! i) \<and> lkStatus (cs ! j) \<and> lkKey (cs ! i) = lkKey (cs ! j) \<longrightarrow> i = j)"

definition locksOk :: "(gostr \<Rightarrow> int) \<Rightarrow> int \<Rightarrow> lockState \<Rightarrow> bool" where
  "locksOk expiry slack s \<longleftrightarrow>
     list_all (clientOk expiry slack (lsNow s) (lsStore s)) (lsClients s) \<and> storeOk expiry (lsNow s) (lsStore s) \<and> oneHolder (lsClients s)"

lemma leased_live: "leased slack now d c \<Longrightarrow> rdLookup now d (genKey (lkKey c)) \<noteq> None"
  by (auto simp: leased_def rdLookup_def liveAt_def)

lemma leased_grow:
  assumes "leased slack now d c"
    and "\<And>v t. d (genKey (lkKey c)) = Some (v, Some t) \<Longrightarrow> \<exists>v' t'. d' (genKey (lkKey c)) = Some (v', Some t') \<and> t \<le> t'"
  shows "leased slack now d' c"
proof -
  obtain due v t where *: "\<not> lkCancelled c" "dueOf (lkDog c) = Some due" "d (genKey (lkKey c)) = Some (v, Some t)" "due + slack < t" "now \<le> due + slack"
    using assms(1) by (auto simp: leased_def)
  obtain v' t' where "d' (genKey (lkKey c)) = Some (v', Some t')" "t \<le> t'" using assms(2) [OF *(3)] by blast
  then show ?thesis using * by (fastforce simp: leased_def)
qed

lemma list_update_all: "list_all P xs \<Longrightarrow> P x \<Longrightarrow> list_all P (xs[i := x])"
  by (auto simp: list_all_iff dest: set_update_subset_insert [THEN subsetD])

lemma oneHolder_update:
  assumes "oneHolder cs" and "i < length cs" and "lkKey c = lkKey (cs ! i)" and "lkStatus c \<Longrightarrow> lkStatus (cs ! i)"
  shows "oneHolder (cs[i := c])"
  unfolding oneHolder_def
proof (intro allI impI)
  fix a b assume ab: "a < length (cs[i := c])" "b < length (cs[i := c])"
    "lkStatus (cs[i := c] ! a) \<and> lkStatus (cs[i := c] ! b) \<and> lkKey (cs[i := c] ! a) = lkKey (cs[i := c] ! b)"
  have keep: "(lkStatus (cs[i := c] ! x) \<longrightarrow> lkStatus (cs ! x)) \<and> lkKey (cs[i := c] ! x) = lkKey (cs ! x)" if "x < length cs" for x
    using assms(2-4) that by (cases "x = i") auto
  show "a = b" using assms(1) ab keep [of a] keep [of b] unfolding oneHolder_def by simp
qed

text \<open>One client changes, the store of Redis does not, or one deadline is extended.\<close>

lemma locksOk_client:
  assumes ok: "locksOk expiry slack s" and i: "i < length (lsClients s)"
    and c: "clientOk expiry slack (lsNow s) d c" "lkKey c = lkKey (lsClients s ! i)" "lkStatus c \<Longrightarrow> lkStatus (lsClients s ! i)"
    and d: "storeOk expiry (lsNow s) d"
    and grow: "\<And>k v t. lsStore s (genKey k) = Some (v, Some t) \<Longrightarrow> \<exists>v' t'. d (genKey k) = Some (v', Some t') \<and> t \<le> t'"
  shows "locksOk expiry slack (s\<lparr>lsClients := (lsClients s)[i := c], lsStore := d\<rparr>)"
proof -
  have "clientOk expiry slack (lsNow s) d x" if "clientOk expiry slack (lsNow s) (lsStore s) x" for x
    using that leased_grow [where d' = d and d = "lsStore s" and c = x] grow [where k = "lkKey x"] by (auto simp: clientOk_def)
  then have "list_all (clientOk expiry slack (lsNow s) d) (lsClients s)"
    using ok by (auto simp: locksOk_def list_all_iff)
  then show ?thesis
    using ok list_update_all [of _ "lsClients s" c i] c oneHolder_update [OF _ i c(2,3)] d by (simp add: locksOk_def)
qed

lemma client_at:
  "locksOk expiry slack s \<Longrightarrow> i < length (lsClients s) \<Longrightarrow> clientOk expiry slack (lsNow s) (lsStore s) (lsClients s ! i)"
  by (simp add: locksOk_def list_all_length)

lemma locksOk_turn:
  assumes ok: "locksOk expiry slack s" and i: "i < length (lsClients s)" and c: "c = lsClients s ! i"
    and c': "lkKey c' = lkKey c" "lkExpire c' = lkExpire c" "lkStatus c' = lkStatus c" "lkDog c' \<noteq> DogOff \<Longrightarrow> lkDog c \<noteq> DogOff"
    and turn: "lkStatus c \<Longrightarrow> \<not> lkCancelled c \<Longrightarrow> \<not> lkCancelled c' \<and> dueOf (lkDog c') = dueOf (lkDog c)"
  shows "locksOk expiry slack (s\<lparr>lsClients := (lsClients s)[i := c']\<rparr>)"
proof -
  have "clientOk expiry slack (lsNow s) (lsStore s) c" using client_at [OF ok i] c by simp
  then have "clientOk expiry slack (lsNow s) (lsStore s) c'"
    using c' turn by (auto simp: clientOk_def leased_def)
  then have "locksOk expiry slack (s\<lparr>lsClients := (lsClients s)[i := c'], lsStore := lsStore s\<rparr>)"
    by (rule locksOk_client [OF ok i]) (use ok c c' in \<open>auto simp: locksOk_def\<close>)
  then show ?thesis by simp
qed

lemma dogLook_turn:
  "lkKey (dogLook c) = lkKey c" "lkExpire (dogLook c) = lkExpire c" "lkStatus (dogLook c) = lkStatus c"
  "lkDog (dogLook c) \<noteq> DogOff \<Longrightarrow> lkDog c \<noteq> DogOff"
  "lkStatus c \<Longrightarrow> \<not> lkCancelled c \<Longrightarrow> \<not> lkCancelled (dogLook c) \<and> dueOf (lkDog (dogLook c)) = dueOf (lkDog c)"
  by (cases "lkDog c"; simp add: dogLook_def)+

lemma dogWake_turn:
  "lkKey (dogWake now c) = lkKey c" "lkExpire (dogWake now c) = lkExpire c" "lkStatus (dogWake now c) = lkStatus c"
  "lkDog (dogWake now c) \<noteq> DogOff \<Longrightarrow> lkDog c \<noteq> DogOff"
  "lkStatus c \<Longrightarrow> \<not> lkCancelled c \<Longrightarrow> \<not> lkCancelled (dogWake now c) \<and> dueOf (lkDog (dogWake now c)) = dueOf (lkDog c)"
  by (cases "lkDog c"; simp add: dogWake_def)+

lemma atClient_cases:
  assumes "atClient i s f = Some s'"
  obtains c d where "i < length (lsClients s)" "f (lsClients s ! i) = (c, d)"
    "s' = s\<lparr>lsClients := (lsClients s)[i := c], lsStore := d\<rparr>"
  using assms by (auto simp: atClient_def split: if_splits prod.splits)

lemma look_ok: "locksOk expiry slack s \<Longrightarrow> lockStep (LockLook i) s = Some s' \<Longrightarrow> locksOk expiry slack s'"
  unfolding lockStep.simps
  by (erule atClient_cases) (auto intro!: locksOk_turn [OF _ _ refl dogLook_turn])

lemma wake_ok: "locksOk expiry slack s \<Longrightarrow> lockStep (LockWake i) s = Some s' \<Longrightarrow> locksOk expiry slack s'"
  unfolding lockStep.simps
  by (erule atClient_cases) (auto intro!: locksOk_turn [OF _ _ refl dogWake_turn])

lemma tick_ok:
  assumes "locksOk expiry slack s" and "lockStep (LockTick t) s = Some s'" and "list_all (punctual slack (lsNow s + t)) (lsClients s)"
  shows "locksOk expiry slack s'"
proof -
  have s': "0 \<le> t" "s' = s\<lparr>lsNow := lsNow s + t\<rparr>" using assms(2) by (auto split: if_splits)
  have "clientOk expiry slack (lsNow s + t) (lsStore s) c"
    if "clientOk expiry slack (lsNow s) (lsStore s) c" "punctual slack (lsNow s + t) c" for c
    using that by (auto simp: clientOk_def leased_def punctual_def)
  moreover have "storeOk expiry (lsNow s + t) (lsStore s)" using assms(1) s'(1) by (fastforce simp: locksOk_def storeOk_def)
  ultimately show ?thesis using assms(1,3) s'(2) by (auto simp: locksOk_def list_all_iff)
qed

lemma renew_ok:
  assumes ok: "locksOk expiry slack s" and step: "lockStep (LockRenew i True) s = Some s'"
    and slack: "0 \<le> slack" "\<And>k. minExpire \<le> expiry k \<Longrightarrow> slack < seconds (expiry k - expiry k div 2)"
  shows "locksOk expiry slack s'"
proof -
  obtain c d where i: "i < length (lsClients s)" and c: "dogRenew True (lsNow s) (lsClients s ! i) (lsStore s) = (c, d)"
    and s': "s' = s\<lparr>lsClients := (lsClients s)[i := c], lsStore := d\<rparr>"
    using step by (auto elim: atClient_cases)
  let ?c = "lsClients s ! i" and ?k = "lkKey (lsClients s ! i)"
  have cok: "clientOk expiry slack (lsNow s) (lsStore s) ?c" and sok: "storeOk expiry (lsNow s) (lsStore s)"
    using client_at [OF ok i] ok by (simp_all add: locksOk_def)
  show ?thesis
  proof (cases "\<exists>due. lkDog ?c = DogRenewing due")
    case False
    then have "c = ?c" "d = lsStore s" using c by (auto simp: dogRenew_def split: watchDog.splits)
    then show ?thesis using ok by (simp add: s')
  next
    case True
    then obtain due where due: "lkDog ?c = DogRenewing due" by blast
    then have e: "lkExpire ?c = expiry ?k" "minExpire \<le> expiry ?k" using cok by (auto simp: clientOk_def)
    then have new: "expiryOf (lsNow s) (seconds (lkExpire ?c)) = Some (lsNow s + seconds (expiry ?k))"
      by (simp add: seconds_expiry minExpire_def)
    have c': "c = ?c\<lparr>lkDog := DogSleeping (lsNow s + seconds (expiry ?k div 2))\<rparr>" using c due e by (simp add: dogRenew_def split: option.splits)
    have d: "d = (case lsStore s (genKey ?k) of None \<Rightarrow> lsStore s | Some (v, t) \<Rightarrow>
        (if liveAt (lsNow s) t then (lsStore s)(genKey ?k \<mapsto> (v, Some (lsNow s + seconds (expiry ?k)))) else lsStore s))"
      using c due new by (cases "lsStore s (genKey ?k)") (auto simp: dogRenew_def split: prod.splits if_splits)
    have grow: "\<exists>v' t'. d (genKey k) = Some (v', Some t') \<and> t \<le> t'" if "lsStore s (genKey k) = Some (v, Some t)" for k v t
      using that sok unfolding d storeOk_def by (cases "k = ?k") (fastforce split: option.splits)+
    have sok': "storeOk expiry (lsNow s) d" using sok unfolding d storeOk_def by (auto split: option.splits prod.splits)
    have "clientOk expiry slack (lsNow s) d c"
    proof (cases "lkStatus ?c")
      case True
      then have l: "leased slack (lsNow s) (lsStore s) ?c" using cok by (simp add: clientOk_def)
      then obtain v t where t: "lsStore s (genKey ?k) = Some (v, Some t)" "lsNow s < t" by (auto simp: leased_def)
      have "seconds (expiry ?k div 2) + slack < seconds (expiry ?k)" using slack(2) [OF e(2)] by (simp add: seconds_def)
      moreover have "0 \<le> seconds (expiry ?k div 2)" using e(2) by (simp add: seconds_def minExpire_def)
      ultimately show ?thesis using l e t slack(1) unfolding c' d by (simp add: clientOk_def leased_def liveAt_def)
    qed (use e in \<open>simp add: c' clientOk_def\<close>)
    then show ?thesis unfolding s' by (rule locksOk_client [OF ok i _ _ _ sok' grow]) (simp_all add: c')
  qed
qed

lemma release_ok:
  assumes ok: "locksOk expiry slack s" and step: "lockStep (LockRelease i True) s = Some s'"
  shows "locksOk expiry slack s'"
proof -
  obtain c d where i: "i < length (lsClients s)" and c: "snd (Unlock True (lsNow s) (lsClients s ! i) (lsStore s)) = (c, d)"
    and s': "s' = s\<lparr>lsClients := (lsClients s)[i := c], lsStore := d\<rparr>"
    using step by (auto elim: atClient_cases)
  let ?c = "lsClients s ! i"
  have cok: "clientOk expiry slack (lsNow s) (lsStore s) ?c" using client_at [OF ok i] .
  show ?thesis
  proof (cases "lkStatus ?c")
    case False
    then have "c = ?c\<lparr>lkCancelled := True\<rparr>" "d = lsStore s" using c by (auto simp: Unlock_def Let_def)
    moreover have "locksOk expiry slack (s\<lparr>lsClients := (lsClients s)[i := ?c\<lparr>lkCancelled := True\<rparr>]\<rparr>)"
      by (rule locksOk_turn [OF ok i refl]) (use False in simp_all)
    ultimately show ?thesis by (simp add: s')
  next
    case True
    then have "leased slack (lsNow s) (lsStore s) ?c" using cok by (simp add: clientOk_def)
    note live = leased_live [OF this]
    have c': "c = ?c\<lparr>lkCancelled := True, lkStatus := False\<rparr>" and d: "d = (lsStore s)(genKey (lkKey ?c) := None)"
      using c True live by (auto simp: Unlock_def Let_def)
    have other: "clientOk expiry slack (lsNow s) d ((lsClients s)[i := c] ! j)" if j: "j < length (lsClients s)" for j
    proof (cases "j = i")
      case True
      then show ?thesis using i cok by (simp add: c' clientOk_def)
    next
      case False
      have jok: "clientOk expiry slack (lsNow s) (lsStore s) (lsClients s ! j)" using client_at [OF ok j] .
      have "lkStatus (lsClients s ! j) \<Longrightarrow> lkKey (lsClients s ! j) \<noteq> lkKey ?c"
        using ok i j False \<open>lkStatus ?c\<close> by (auto simp: locksOk_def oneHolder_def)
      then show ?thesis using jok False by (auto simp: d clientOk_def leased_def)
    qed
    have "storeOk expiry (lsNow s) d" using ok by (auto simp: locksOk_def storeOk_def d)
    moreover have "oneHolder ((lsClients s)[i := c])" using ok oneHolder_update [of "lsClients s" i c] i by (simp add: c' locksOk_def)
    ultimately show ?thesis using other i by (simp add: s' locksOk_def list_all_length)
  qed
qed

lemma oneHolder_snoc:
  assumes "oneHolder cs" and "\<And>i. i < length cs \<Longrightarrow> lkStatus (cs ! i) \<Longrightarrow> lkStatus c \<Longrightarrow> lkKey (cs ! i) \<noteq> lkKey c"
  shows "oneHolder (cs @ [c])"
  using assms unfolding oneHolder_def by (auto simp: nth_append less_Suc_eq) metis+

lemma new_ok:
  assumes ok: "locksOk expiry slack s" and step: "lockStep (LockNew key expire val True) s = Some s'" and e: "expire = expiry key"
    and slack: "0 \<le> slack" "\<And>k. minExpire \<le> expiry k \<Longrightarrow> slack < seconds (expiry k - expiry k div 2)"
  shows "locksOk expiry slack s'"
proof (cases "expire < minExpire \<or> rdLookup (lsNow s) (lsStore s) (genKey key) \<noteq> None")
  case True
  let ?c = "\<lparr>lkKey = key, lkValue = val, lkExpire = expire, lkStatus = False, lkCancelled = False, lkDog = DogOff\<rparr>"
  have "s' = s" if "expire < minExpire" using step that by (simp add: NewDistributeLockRedis_def)
  moreover have "s' = s\<lparr>lsClients := lsClients s @ [?c]\<rparr>" if "\<not> expire < minExpire"
    using step that True by (auto simp: NewDistributeLockRedis_def tryLock_def lock_def)
  ultimately have "s' = s \<or> s' = s\<lparr>lsClients := lsClients s @ [?c]\<rparr>" by blast
  moreover have "clientOk expiry slack (lsNow s) (lsStore s) ?c" by (simp add: clientOk_def)
  ultimately show ?thesis using ok oneHolder_snoc [of "lsClients s" ?c] by (auto simp: locksOk_def)
next
  case False
  let ?c = "\<lparr>lkKey = key, lkValue = val, lkExpire = expire, lkStatus = True, lkCancelled = False, lkDog = DogLooking (lsNow s)\<rparr>"
  let ?d = "(lsStore s)(genKey key \<mapsto> (val, Some (lsNow s + seconds (expiry key))))"
  have e2: "minExpire \<le> expiry key" using False e by simp
  have s': "s' = s\<lparr>lsClients := lsClients s @ [?c], lsStore := ?d\<rparr>"
    using step False e e2 by (auto simp: NewDistributeLockRedis_def tryLock_def lock_def startWatchDog_def seconds_expiry minExpire_def)
  have free: "lkKey c \<noteq> key" if "c \<in> set (lsClients s)" "lkStatus c" for c
  proof -
    have "leased slack (lsNow s) (lsStore s) c" using ok that by (auto simp: locksOk_def list_all_iff clientOk_def)
    then show ?thesis using leased_live False by blast
  qed
  have old: "clientOk expiry slack (lsNow s) ?d c" if "c \<in> set (lsClients s)" for c
  proof -
    have "clientOk expiry slack (lsNow s) (lsStore s) c" using ok that by (auto simp: locksOk_def list_all_iff)
    then show ?thesis using free [OF that] by (auto simp: clientOk_def leased_def)
  qed
  have "seconds (expiry key - expiry key div 2) \<le> seconds (expiry key)" using e2 by (simp add: seconds_def minExpire_def)
  then have "clientOk expiry slack (lsNow s) ?d ?c" using slack(1) slack(2) [OF e2] e e2 by (simp add: clientOk_def leased_def)
  moreover have "storeOk expiry (lsNow s) ?d" using ok by (auto simp: locksOk_def storeOk_def)
  moreover have "oneHolder (lsClients s @ [?c])" using ok by (intro oneHolder_snoc) (auto simp: locksOk_def dest: free [OF nth_mem])
  ultimately show ?thesis using old by (auto simp: s' locksOk_def list_all_iff)
qed

text \<open>
  C37: mutual exclusion: when every command reaches Redis, all ask for the same expiry of a key, and
  every goroutine is at most \<open>slack\<close> late, where \<open>slack\<close> is less than what its sleep leaves of the
  expiry, then in every interleaving at most one client holds the lock of a key.
\<close>

theorem lock_exclusive:
  assumes "lockRun ls freeLocks = Some s" and "smoothRun expiry slack ls freeLocks"
    and "0 \<le> slack" and "\<forall>k. 2 \<le> expiry k \<longrightarrow> slack < seconds (expiry k - expiry k div 2)"
    and "i < length (lsClients s)" and "j < length (lsClients s)"
    and "lkStatus (lsClients s ! i)" and "lkStatus (lsClients s ! j)" and "lkKey (lsClients s ! i) = lkKey (lsClients s ! j)"
  shows "i = j"
proof -
  have slack: "slack < seconds (expiry k - expiry k div 2)" if "minExpire \<le> expiry k" for k
    using assms(4) that by (simp add: minExpire_def)
  have "locksOk expiry slack t" if "lockRun ls s0 = Some t" "smoothRun expiry slack ls s0" "locksOk expiry slack s0" for ls s0 t
    using that
  proof (induction ls arbitrary: s0)
    case (Cons l ls)
    then obtain s1 where s1: "lockStep l s0 = Some s1" "lockRun ls s1 = Some t" "smoothRun expiry slack ls s1" "smooth expiry slack l s0"
      by (auto split: option.splits)
    have "locksOk expiry slack s1"
      using s1(1,4) new_ok [OF Cons.prems(3) _ _ assms(3) slack] release_ok [OF Cons.prems(3)] look_ok [OF Cons.prems(3)]
        renew_ok [OF Cons.prems(3) _ assms(3) slack] wake_ok [OF Cons.prems(3)] tick_ok [OF Cons.prems(3)]
      by (cases l) (simp_all del: lockStep.simps)
    then show ?case using Cons.IH s1 by blast
  qed simp
  from this [OF assms(1,2)] have "oneHolder (lsClients s)"
    by (auto simp: freeLocks_def locksOk_def storeOk_def oneHolder_def)
  then show ?thesis using assms(5-9) by (auto simp: oneHolder_def)
qed

text \<open>Three clients, of which the second comes too early.\<close>

definition calmRun :: "lockLabel list" where
  "calmRun =
     [LockNew ''migrate'' 600 ''1'' True, LockLook 0, LockRenew 0 True, LockNew ''migrate'' 600 ''1'' True, LockTick (seconds 300),
      LockWake 0, LockLook 0, LockRenew 0 True, LockRelease 0 True, LockWake 0, LockLook 0, LockNew ''migrate'' 600 ''1'' True]"

lemmas lock_eval = atClient_def NewDistributeLockRedis_def tryLock_def lock_def startWatchDog_def Unlock_def dogLook_def dogRenew_def dogWake_def
  rdLookup_def liveAt_def seconds_expiry freeLocks_def minExpire_def seconds_def punctual_def

lemma expiry_600: "expiryOf now 600000000000 = Some (now + 600000000000)"
  by (simp add: expiryOf_def wireTTL_def nanosPerMilli_def)

theorem lock_exclusive_witness:
  "\<exists>s. lockRun calmRun freeLocks = Some s \<and> lkStatus (lsClients s ! 2) \<and> \<not> lkStatus (lsClients s ! 0) \<and> \<not> lkStatus (lsClients s ! 1)"
proof -
  have smooth: "smoothRun (\<lambda>_. 600) (seconds 1) calmRun freeLocks"
    by (simp add: calmRun_def lock_eval expiry_600)
  obtain s where run: "lockRun calmRun freeLocks = Some s" and s: "length (lsClients s) = 3" "lkStatus (lsClients s ! 2)"
      "lkKey (lsClients s ! 0) = ''migrate''" "lkKey (lsClients s ! 1) = ''migrate''" "lkKey (lsClients s ! 2) = ''migrate''"
    by (simp add: calmRun_def lock_eval expiry_600)
  note one = lock_exclusive [OF run smooth]
  have slack: "0 \<le> seconds 1" "\<forall>k. (2 :: int) \<le> 600 \<longrightarrow> seconds 1 < seconds (600 - 600 div 2)" by (simp_all add: seconds_def)
  have "\<not> lkStatus (lsClients s ! 0)" using one [OF slack, of 0 2] s by auto
  moreover have "\<not> lkStatus (lsClients s ! 1)" using one [OF slack, of 1 2] s by auto
  ultimately show ?thesis using run s(2) by blast
qed

text \<open>A client that finds the key free holds the lock.\<close>

definition heldBy :: "gostr \<Rightarrow> int \<Rightarrow> gostr \<Rightarrow> int \<Rightarrow> lockClient" where
  "heldBy key expire val now =
     \<lparr>lkKey = key, lkValue = val, lkExpire = expire, lkStatus = True, lkCancelled = False, lkDog = DogLooking now\<rparr>"

lemma new_holder:
  assumes "rdLookup (lsNow s) (lsStore s) (genKey key) = None" and "2 \<le> expire"
  shows "lockStep (LockNew key expire val True) s =
    Some (s\<lparr>lsClients := lsClients s @ [heldBy key expire val (lsNow s)],
      lsStore := (lsStore s)(genKey key \<mapsto> (val, Some (lsNow s + seconds expire)))\<rparr>)"
  using assms by (simp add: NewDistributeLockRedis_def tryLock_def lock_def startWatchDog_def seconds_expiry minExpire_def heldBy_def)

text \<open>The holder's first renewal fails: its goroutine ends, the holder does not learn of it.\<close>

lemma renewal_fails:
  assumes "lsClients s = cs @ [heldBy key expire val now]"
  shows "lockRun [LockLook (length cs), LockRenew (length cs) False] s =
    Some (s\<lparr>lsClients := cs @ [(heldBy key expire val now)\<lparr>lkDog := DogOff\<rparr>]\<rparr>)"
  using assms by (simp add: atClient_def dogLook_def dogRenew_def heldBy_def)

lemma lockRun_trans: "lockRun ls s = Some s' \<Longrightarrow> lockRun (ls @ ms) s = lockRun ms s'"
  by (induction ls arbitrary: s) (auto split: option.splits simp del: lockStep.simps)

lemma expired_free: "now + seconds expire \<le> now' \<Longrightarrow> rdLookup now' (d(k \<mapsto> (v, Some (now + seconds expire)))) k = None"
  by (simp add: rdLookup_def liveAt_def)

text \<open>
  C38: the owner is not checked: from any state in which the key is free, for any values and expiries,
  after one failed renewal of the first holder and its expiry a second client gets the lock; the release by
  the first one reports success and deletes the second one's key, and a third client gets the lock while
  the second still holds it.
\<close>

theorem lock_stolen:
  assumes "rdLookup (lsNow s) (lsStore s) (genKey key) = None" and "n = length (lsClients s)"
    and "2 \<le> e1" and "2 \<le> e2" and "2 \<le> e3" and "seconds e1 \<le> t"
  shows "\<exists>s1 s2 s3.
    lockRun [LockNew key e1 v1 True, LockLook n, LockRenew n False, LockTick t, LockNew key e2 v2 True] s = Some s1 \<and>
    lkStatus (lsClients s1 ! Suc n) \<and> rdLookup (lsNow s1) (lsStore s1) (genKey key) = Some v2 \<and>
    fst (Unlock True (lsNow s1) (lsClients s1 ! n) (lsStore s1)) = Inr () \<and>
    lockStep (LockRelease n True) s1 = Some s2 \<and> lsStore s2 = (lsStore s1)(genKey key := None) \<and>
    lockStep (LockNew key e3 v3 True) s2 = Some s3 \<and>
    lkStatus (lsClients s3 ! Suc n) \<and> lkStatus (lsClients s3 ! Suc (Suc n)) \<and>
    lkKey (lsClients s3 ! Suc n) = key \<and> lkKey (lsClients s3 ! Suc (Suc n)) = key"
proof -
  let ?k = "genKey key" and ?now = "lsNow s" and ?cs = "lsClients s"
  let ?later = "lsNow s + t"
  let ?old = "(heldBy key e1 v1 ?now)\<lparr>lkDog := DogOff\<rparr>"
  let ?new = "heldBy key e2 v2 ?later"
  let ?d1 = "(lsStore s)(?k \<mapsto> (v1, Some (?now + seconds e1)))"
  let ?d2 = "?d1(?k \<mapsto> (v2, Some (?later + seconds e2)))"
  have t: "0 \<le> t" "0 < seconds e2" using assms(3,4,6) by (simp_all add: seconds_def)
  define s0 where "s0 = s\<lparr>lsClients := ?cs @ [heldBy key e1 v1 ?now], lsStore := ?d1\<rparr>"
  define w where "w = s0\<lparr>lsClients := ?cs @ [?old], lsNow := ?later\<rparr>"
  have w: "lsNow w = ?later" "lsStore w = ?d1" "lsClients w = ?cs @ [?old]" by (simp_all add: w_def s0_def)
  have first: "lockStep (LockNew key e1 v1 True) s = Some s0" using new_holder [OF assms(1,3)] by (simp add: s0_def)
  have "lockRun [LockLook n, LockRenew n False] s0 = Some (s0\<lparr>lsClients := ?cs @ [?old]\<rparr>)"
    unfolding assms(2) by (rule renewal_fails) (simp add: s0_def)
  moreover have "lockStep (LockTick t) (s0\<lparr>lsClients := ?cs @ [?old]\<rparr>) = Some w"
    using t by (simp add: w_def) (simp add: s0_def)
  ultimately have waited: "lockRun [LockLook n, LockRenew n False, LockTick t, LockNew key e2 v2 True] s0 = lockRun [LockNew key e2 v2 True] w"
    using lockRun_trans [of "[LockLook n, LockRenew n False]" s0 _ "[LockTick t, LockNew key e2 v2 True]"] by (simp del: lockStep.simps)
  define s1 where "s1 = w\<lparr>lsClients := ?cs @ [?old, ?new], lsStore := ?d2\<rparr>"
  have "rdLookup (lsNow w) (lsStore w) ?k = None" unfolding w by (rule expired_free) (use assms(6) in simp)
  from new_holder [OF this assms(4), of v2] have second: "lockStep (LockNew key e2 v2 True) w = Some s1" by (simp add: s1_def w)
  have s1: "lsNow s1 = ?later" "lsStore s1 = ?d2" "lsClients s1 = ?cs @ [?old, ?new]" by (simp_all add: s1_def w)
  have run: "lockRun [LockNew key e1 v1 True, LockLook n, LockRenew n False, LockTick t, LockNew key e2 v2 True] s = Some s1"
    using first waited second by (simp del: lockStep.simps)
  have live: "rdLookup (lsNow s1) (lsStore s1) ?k = Some v2" using t by (simp add: s1 rdLookup_def liveAt_def)
  define s2 where "s2 = s1\<lparr>lsClients := ?cs @ [?old\<lparr>lkCancelled := True, lkStatus := False\<rparr>, ?new], lsStore := ?d2(?k := None)\<rparr>"
  have old: "lsClients s1 ! n = ?old" by (simp add: s1 assms(2) nth_append)
  then have unlock: "Unlock True (lsNow s1) (lsClients s1 ! n) (lsStore s1) =
      (Inr (), ?old\<lparr>lkCancelled := True, lkStatus := False\<rparr>, (lsStore s1)(?k := None))"
    using live by (simp add: Unlock_def Let_def heldBy_def)
  have "lockStep (LockRelease n True) s1 = Some s2"
    using unlock s1 by (simp add: atClient_def s2_def assms(2))
  moreover have "rdLookup (lsNow s2) (lsStore s2) ?k = None" by (simp add: s2_def rdLookup_def)
  note third = new_holder [OF this assms(5), of v3]
  ultimately show ?thesis using run live unlock third
    by (intro exI conjI) (assumption | simp add: s1 s2_def assms(2) nth_append heldBy_def del: lockStep.simps)+
qed

theorem lock_stolen_witness:
  "\<exists>s. lockRun [LockNew ''migrate'' 2 ''1'' True, LockLook 0, LockRenew 0 False, LockTick (seconds 3), LockNew ''migrate'' 2 ''1'' True,
      LockRelease 0 True, LockNew ''migrate'' 2 ''1'' True] freeLocks = Some s \<and> lkStatus (lsClients s ! 1) \<and> lkStatus (lsClients s ! 2)"
proof -
  have "rdLookup (lsNow freeLocks) (lsStore freeLocks) (genKey ''migrate'') = None" "0 = length (lsClients freeLocks)"
    "(2 :: int) \<le> 2" "seconds 2 \<le> seconds 3" by (simp_all add: freeLocks_def rdLookup_def seconds_def)
  from lock_stolen [OF this(1-3,3,3,4), of "''1''" "''1''" "''1''"] obtain s1 s2 s3 where
    "lockRun [LockNew ''migrate'' 2 ''1'' True, LockLook 0, LockRenew 0 False, LockTick (seconds 3), LockNew ''migrate'' 2 ''1'' True] freeLocks = Some s1"
    "lockStep (LockRelease 0 True) s1 = Some s2" "lockStep (LockNew ''migrate'' 2 ''1'' True) s2 = Some s3"
    "lkStatus (lsClients s3 ! 1)" "lkStatus (lsClients s3 ! 2)"
    by (auto simp del: lockStep.simps lockRun.simps simp: numeral_2_eq_2)
  moreover from this(1) have "lockRun ([LockNew ''migrate'' 2 ''1'' True, LockLook 0, LockRenew 0 False, LockTick (seconds 3),
      LockNew ''migrate'' 2 ''1'' True] @ [LockRelease 0 True, LockNew ''migrate'' 2 ''1'' True]) freeLocks =
      lockRun [LockRelease 0 True, LockNew ''migrate'' 2 ''1'' True] s1" by (rule lockRun_trans)
  ultimately show ?thesis by (intro exI [of _ s3]) (simp del: lockStep.simps lockRun.simps(2) add: lockRun.simps(2) [of "LockRelease 0 True"] lockRun.simps(2) [of "LockNew k e v ok" "[]" for k e v ok])
qed

end
