(* ===== verification/Spec2Isabelle.thy ===== *)
theory Spec2Isabelle
  imports System_Service Realtime_Tickets Realtime_Claims Func_Types Data_Tables App_Skill App_Reload Redis_Lock
begin

text \<open>
  A model of the Go backend in \<^verbatim>\<open>src/\<close> with the theorems that make it correct.

  The program is a set of services that talk over gRPC.  The \<^emph>\<open>system\<close> service keeps menus,
  roles, accounts, the audit log and the login sessions.  The \<^emph>\<open>inner gateway\<close> holds the web
  socket connections of the browsers and distributes events to them.  The \<^emph>\<open>function operation\<close>
  service leads a generated function from its documents over its code to its publication, asks
  the system service for permissions and menus, and sends events through an outbox.  The users'
  identity travels between the services in the metadata of the calls.

  \<^bold>\<open>Foundations.\<close>
  \<^item> \<open>Go_Base\<close>: Go strings as lists of bytes (\<open>trimSpace\<close>, \<open>toLower\<close>, prefixes, splitting),
    errors as values, 32 bit conversions.
  \<^item> \<open>Go_Text\<close>: runes, fields, and the text extraction of the function service.
  \<^item> \<open>Service_World\<close>: a handler is an action on a world: it returns an error or a value and the
    next world.  The clock, the identifiers and the failures of database statements are functions
    of the number of effects so far, on which nothing is assumed.  Transactions roll back.  The
    theory holds the calculus: actions that only read, atomic actions, triples with a
    postcondition for errors, invariants of handlers, effects, parts of a state, and the
    locale \<open>invariant_system\<close> of reachable states.
  \<^item> \<open>Action_Runs\<close>: runs of an action from given tables, statement by statement, and frames: what
    an action leaves of a preorder on tables, in the locale \<open>frame_relation\<close>.
  \<^item> \<open>Table_Rows\<close>: tables as lists of rows, unique columns, keys from a counter.

  \<^bold>\<open>Identity\<close> (\<^verbatim>\<open>toolbox/authctx\<close>): \<open>Auth_Context\<close>, metadata and access tokens.

  \<^bold>\<open>System service\<close> (\<^verbatim>\<open>system/internal\<close>).
  \<^item> \<open>System_Store\<close>, \<open>System_Dao\<close>: the rows of \<^verbatim>\<open>model\<close>, one statement per call of
    \<^verbatim>\<open>dao\<close>, and the invariant \<open>sys_ok\<close> of the tables.  \<open>Operation_Log\<close>: the audit log.
  \<^item> \<open>Menu_Access\<close>, \<open>Menu_Tree\<close>, \<open>Menu_Logic\<close>: \<^verbatim>\<open>menu_access.go\<close>, the trees of
    \<^verbatim>\<open>menu.go\<close> and \<^verbatim>\<open>menu_nav.go\<close>, the handlers.  \<open>Parent_Forest\<close>: forests given by
    parents, with cycles.  \<open>Menu_Claims\<close>: the effect of every change, navigation and trees,
    and two updates that make a cycle.
  \<^item> \<open>Menu_Sync\<close>: \<^verbatim>\<open>menu_function_sync.go\<close>.  The walk up to the use menu is a partial
    function: it diverges on a cycle, and returns whenever the menus hang below a root.
  \<^item> \<open>Role_Logic\<close>, \<open>User_Logic\<close>, \<open>User_Claims\<close>: \<^verbatim>\<open>role.go\<close> and \<^verbatim>\<open>user.go\<close>.
  \<^item> \<open>Redis_Store\<close>, \<open>One_Shot\<close>, \<open>Auth_Tokens\<close>, \<open>Auth_Claims\<close>, \<open>Auth_Once\<close>: keys with expiry,
    the token store of \<^verbatim>\<open>dao/auth_token.go\<close>, login, refresh and logout, and that a refresh
    token is exchanged at most as often as it was issued.
  \<^item> \<open>System_Service\<close>: all handlers as one step relation, and the invariant of every
    reachable state.

  \<^bold>\<open>Inner gateway\<close> (\<^verbatim>\<open>inner-gateway/internal/realtime\<close>).
  \<^item> \<open>Realtime_Tickets\<close>: tickets in memory or in Redis, used once.
  \<^item> \<open>Realtime_Hub\<close>: the critical sections of \<^verbatim>\<open>handler.go\<close>.  \<open>Realtime_Gateway\<close>: the
    goroutines as an inductive step relation over phases of connections, so that every
    interleaving is covered; auxiliary fields record which events were published and which were
    handed to a connection.  \<open>Gateway_Claims\<close>, \<open>Realtime_Claims\<close>: invariants, privacy and
    delivery of events, connection limits and the race they leave, history, replay, rate limit.

  \<^bold>\<open>Function operation service\<close> (\<^verbatim>\<open>func-operation/internal\<close>).
  \<^item> \<open>Func_Store\<close>: the tables of functions, releases, outbox events, conversation operations
    and recorded tool calls, and the document files.  \<open>Func_Access\<close>: the calls of the system
    service and of the other parts of the environment, each of which may answer anything.
  \<^item> \<open>Func_Release\<close>: \<^verbatim>\<open>release.go\<close>, \<^verbatim>\<open>outbox.go\<close>, \<^verbatim>\<open>outbox_management.go\<close>.
    \<open>Func_Operations\<close>: \<^verbatim>\<open>conversation_operation.go\<close>.  \<open>Func_Docs\<close>, \<open>Func_Logic\<close>,
    \<open>Func_Handlers\<close>: \<^verbatim>\<open>function.go\<close> and \<^verbatim>\<open>readiness.go\<close>.
  \<^item> \<open>Func_Invariant\<close>, \<open>Func_Service\<close>: the invariant of the tables, kept by every handler, and
    the service as a step relation.  \<open>Func_Claims\<close>: publication, permissions and redaction.
    \<open>Func_Delivery\<close>: claims on outbox events and the completion of operations.
  \<^item> \<open>Func_Gates\<close>: what must hold before a document or code is adopted and before a function
    goes live.  \<open>Func_Lifecycle\<close>: releases and operations refine two ledgers on which they
    only move forward.  \<open>Func_Types\<close>: the columns with names from fixed sets.

  \<^bold>\<open>Data of generated applications\<close> (\<^verbatim>\<open>func-operation/internal/dao/data_capability.go\<close>).
  \<^item> \<open>Sql_Text\<close>: quoted names, and what the engine reads in a statement.  \<open>Data_Model\<close>: declared
    models, relations and queries, and requests.  \<open>Data_Compile\<close>: the compilation of declarations,
    conditions, orders and joins, and the check of records.  \<open>Data_Store\<close>: the operations, with
    the engine that runs a statement as a parameter.
  \<^item> \<open>Data_Safe\<close>, \<open>Data_Claims\<close>: every statement names only tables of its application and
    declared columns and binds the values of the request.  \<open>Data_Records\<close>: which records and
    models are accepted.  \<open>Data_Tables\<close>: what applying declared models changes.

  \<^bold>\<open>Runtime of generated applications\<close> (\<^verbatim>\<open>func-operation/internal/runtime/generatedapp\<close>).
  \<^item> \<open>App_Logs\<close>: the collector of \<^verbatim>\<open>service.go\<close> for what a run writes.  \<open>App_Results\<close>: the
    result handles of \<^verbatim>\<open>host.go\<close>, with invocations in parallel.
  \<^item> \<open>App_Paths\<close>: cleaning and joining of paths, and the paths that a browser may ask for.
    \<open>App_Manifest\<close>: the manifest, its decoding in \<^verbatim>\<open>manifest_decode.go\<close>, the actions of
    \<^verbatim>\<open>action_infer.go\<close>, and capabilities.  \<open>App_Skill\<close>: \<^verbatim>\<open>skill_contract.go\<close>.
  \<^item> \<open>App_Files\<close>: the disk as a list of nodes, the files of an artifact, its fingerprint, and
    \<^verbatim>\<open>local_artifact_store.go\<close>.  \<open>App_Store\<close>: no release that is there is ever changed.
    \<open>App_Runtime\<close>: snapshots, promotion, loading and the frontend.  \<open>App_Approved\<close>: only code
    from releases with the approved fingerprint is loaded.
  \<^item> \<open>App_Host\<close>: the functions of \<^verbatim>\<open>host.go\<close> and \<^verbatim>\<open>InvokeWithObserver\<close>, with the module
    as a tree of all it may do.  \<open>App_Runs\<close>: what any module can do to the
    database, with a run in which one application calls a capability of another.
  \<^item> \<open>App_Access\<close>: \<^verbatim>\<open>logic/generated_app.go\<close> with its error classes and the rows of
    \<^verbatim>\<open>dao/execution_log.go\<close>: frontends, invocations, previews, configuration.  \<open>App_Gate\<close>:
    what must hold before a request reaches the database.  \<open>App_Reload\<close>: the reload of all
    applications, the clean-up of their menus in the tables of the system service, data forms.

  \<^bold>\<open>Distributed lock\<close> (\<^verbatim>\<open>toolbox/redislock/lock.go\<close>): \<open>Redis_Lock\<close>, the clients and
    their renewing goroutines as steps on Redis and a clock, mutual exclusion when all clients
    ask for the same expiry of a key and renewals are in time, and how, from any state in which the
    key is free, a failed renewal lets a former holder release the lock of its successor.

  \<^bold>\<open>What the lemmas show.\<close>  For each component: the invariant of its state and that every
  operation keeps it; the exact effect of each change, on success and on every error (either the
  tables are unchanged, or the partial change is stated); what a caller may see or do; for
  loops, that they return, or exactly when.  Properties carry the identifiers C1 to C40.

  \<^bold>\<open>Bounds and fuel.\<close>  No fuel is used: loops over lists are structural, the walk over parents
  is a \<open>partial_function (option)\<close> whose termination is a theorem, and the visit of ancestors
  terminates on the set of menus not yet visited.  Versions and clock readings are unbounded
  integers; conversions to 32 bits wrap.

  \<^bold>\<open>Not modelled.\<close>  Code outside \<^verbatim>\<open>src/\<close> is a parameter: gorm and the databases (a statement
  does what its clauses say or fails), JWT, bcrypt, SHA-256, random sources, JSON encoders, the
  web socket library.  Of the repository, these parts are parameters or left out: the execution of
  WASM, the S3 store of releases and the templates of new applications, external APIs and the
  skills of functions, the conversation with the language model, object storage,
  HTTP binding, start-up and configuration, generated protocol code.  Concurrency is modelled
  where it is within one process (the gateway); handlers of the database services run one at a
  time, except where a theorem says otherwise.
\<close>

end
